(* ===== verification/Gelato_Prelude.thy ===== *)
theory Gelato_Prelude
  imports
    Main
    "HOL-Library.Word"
    "HOL-Library.Char_ord"
    "HOL-Library.List_Lexorder"
    "HOL-Library.Product_Lexorder"
    "HOL-Library.Multiset"
    "HOL-Library.Sublist"
begin

text \<open>
  What the components of GelatoFlow share.

  \<^item> Time. A Go \<open>time.Time\<close> is an instant: an \<open>int\<close> that counts nanoseconds since Go's zero
    time (0001-01-01 UTC), so that \<open>IsZero\<close> is \<open>t = 0\<close> and \<open>Truncate d\<close>, which Go defines on
    the absolute duration since the zero time, is \<open>t - t mod d\<close>.
  \<^item> Machine integers. \<open>i64\<close> is the wrap-around of Go's \<open>int64\<close>, written where a product or a
    sum may leave the range.
  \<^item> Database transactions. Every service runs its SQL inside a transaction in which each
    statement can fail, and whose commit can fail, before or after it took effect. \<open>tx\<close> is the
    error and state monad of such code: the environment (\<open>world\<close>) decides at every
    interaction, numbered by a counter, whether it fails, what the clock reads and which UUID
    is drawn.
  \<^item> A weakest precondition calculus for \<open>tx\<close> (\<open>wp\<close>, with the rules in \<open>wp_rules\<close>), and the rule
    that lifts an invariant through a transaction.
\<close>

section \<open>Collections and shared types\<close>

named_theorems wp_rules "equations of wp for the primitives of the transaction monad"
named_theorems inv_preserve "an operation keeps the invariant of its component"

type_synonym time = int

text \<open>Durations, in nanoseconds.\<close>

abbreviation (input) Second :: int where "Second \<equiv> 1000000000"
abbreviation (input) Minute :: int where "Minute \<equiv> 60000000000"
abbreviation (input) Hour :: int where "Hour \<equiv> 3600000000000"

definition time_Truncate :: "time \<Rightarrow> int \<Rightarrow> time" where
  "time_Truncate t d = (if d \<le> 0 then t else t - t mod d)"

text \<open>The nil UUID, as \<open>uuid.Nil.String()\<close> prints it.\<close>

definition uuid_Nil :: string where
  "uuid_Nil = ''00000000-0000-0000-0000-000000000000''"

section \<open>Machine integers\<close>

definition i64 :: "int \<Rightarrow> int" where
  "i64 x = (x + 2 ^ 63) mod 2 ^ 64 - 2 ^ 63"

definition MaxInt64 :: int where
  "MaxInt64 = 2 ^ 63 - 1"

definition MaxInt32 :: int where
  "MaxInt32 = 2 ^ 31 - 1"

text \<open>Go's integer division truncates towards zero.\<close>

definition quot :: "int \<Rightarrow> int \<Rightarrow> int" where
  "quot a b = sgn a * sgn b * (\<bar>a\<bar> div \<bar>b\<bar>)"

lemma i64_id: "- (2 ^ 63) \<le> x \<Longrightarrow> x \<le> MaxInt64 \<Longrightarrow> i64 x = x"
  by (simp add: i64_def MaxInt64_def)

lemma i64_range: "- (2 ^ 63) \<le> i64 x \<and> i64 x \<le> MaxInt64"
proof -
  have "0 \<le> (x + 2 ^ 63) mod 2 ^ 64" and "(x + 2 ^ 63) mod 2 ^ 64 < 2 ^ 64"
    by (simp_all add: pos_mod_sign pos_mod_bound)
  then show ?thesis by (simp add: i64_def MaxInt64_def)
qed

lemma quot_nonneg: "0 \<le> a \<Longrightarrow> 0 < b \<Longrightarrow> quot a b = a div b"
  by (cases "a = 0") (simp_all add: quot_def)

text \<open>
  The overflow guard that Go code writes as \<open>x > math.MaxInt64 / n\<close>: when it does not fire the
  product fits.
\<close>

lemma quot_guard_mult:
  assumes "0 < n" and "0 \<le> x" and "x \<le> quot MaxInt64 n"
  shows "x * n \<le> MaxInt64"
proof -
  have "quot MaxInt64 n = MaxInt64 div n"
    using assms(1) by (intro quot_nonneg) (simp_all add: MaxInt64_def)
  with assms have "x * n \<le> (MaxInt64 div n) * n"
    by (simp add: mult_right_mono)
  also have "\<dots> \<le> MaxInt64"
    using assms(1) pos_mod_sign [of n MaxInt64] div_mult_mod_eq [of MaxInt64 n] by linarith
  finally show ?thesis .
qed

section \<open>Lists as tables\<close>

text \<open>\<open>UPDATE t SET .. WHERE p\<close>: every row that satisfies \<open>p\<close> is rewritten.\<close>

definition update_where :: "('a \<Rightarrow> bool) \<Rightarrow> ('a \<Rightarrow> 'a) \<Rightarrow> 'a list \<Rightarrow> 'a list" where
  "update_where p f xs = map (\<lambda>x. if p x then f x else x) xs"

lemma update_where_Nil [simp]: "update_where p f [] = []"
  by (simp add: update_where_def)

lemma update_where_Cons [simp]:
  "update_where p f (x # xs) = (if p x then f x else x) # update_where p f xs"
  by (simp add: update_where_def)

lemma length_update_where [simp]: "length (update_where p f xs) = length xs"
  by (simp add: update_where_def)

lemma set_update_where:
  "set (update_where p f xs) = (\<lambda>x. if p x then f x else x) ` set xs"
  by (simp add: update_where_def)

lemma map_update_where:
  "(\<And>x. p x \<Longrightarrow> g (f x) = g x) \<Longrightarrow> map g (update_where p f xs) = map g xs"
  by (simp add: update_where_def)

lemma update_where_none: "\<forall>x\<in>set xs. \<not> p x \<Longrightarrow> update_where p f xs = xs"
  by (induction xs) auto

lemma find_None_iff_all: "find p xs = None \<longleftrightarrow> (\<forall>x\<in>set xs. \<not> p x)"
  by (auto simp: find_None_iff)

lemma find_key_None: "find (\<lambda>x. k x = c) xs = None \<longleftrightarrow> c \<notin> k ` set xs"
  by (force simp: find_None_iff_all)

lemma find_SomeD: "find p xs = Some x \<Longrightarrow> x \<in> set xs \<and> p x"
  by (auto simp: find_Some_iff in_set_conv_nth)

lemma find_unique:
  assumes "distinct (map k xs)" and "x \<in> set xs"
  shows "find (\<lambda>y. k y = k x) xs = Some x"
proof (cases "find (\<lambda>y. k y = k x) xs")
  case None
  with assms(2) show ?thesis by (auto simp: find_None_iff_all)
next
  case (Some y)
  then have "y \<in> set xs" and "k y = k x" by (auto dest: find_SomeD)
  with assms have "y = x" by (auto simp: distinct_map inj_on_def)
  with Some show ?thesis by simp
qed

lemma distinct_key_eq:
  "distinct (map k xs) \<Longrightarrow> x \<in> set xs \<Longrightarrow> y \<in> set xs \<Longrightarrow> k x = k y \<Longrightarrow> x = y"
  by (auto simp: distinct_map inj_on_def)

lemma list_all2_update_where:
  "(\<And>x. p x \<Longrightarrow> R x (f x)) \<Longrightarrow> (\<And>x. R x x) \<Longrightarrow> list_all2 R xs (update_where p f xs)"
  by (induction xs) auto

lemma list_all2_map_eq:
  "list_all2 R xs ys \<Longrightarrow> (\<And>x y. R x y \<Longrightarrow> f x = f y) \<Longrightarrow> map f ys = map f xs"
  by (induction rule: list_all2_induct) auto

lemma list_all2_ex: "list_all2 R xs ys \<Longrightarrow> x \<in> set xs \<Longrightarrow> \<exists>y\<in>set ys. R x y"
  by (induction rule: list_all2_induct) auto

text \<open>Sums over the rows of a table.\<close>

definition sum_where :: "('a \<Rightarrow> bool) \<Rightarrow> ('a \<Rightarrow> int) \<Rightarrow> 'a list \<Rightarrow> int" where
  "sum_where p f xs = sum_list (map f (filter p xs))"

lemma sum_where_Nil [simp]: "sum_where p f [] = 0"
  by (simp add: sum_where_def)

lemma sum_where_Cons [simp]:
  "sum_where p f (x # xs) = (if p x then f x else 0) + sum_where p f xs"
  by (simp add: sum_where_def)

lemma sum_where_append [simp]: "sum_where p f (xs @ ys) = sum_where p f xs + sum_where p f ys"
  by (simp add: sum_where_def)

lemma sum_where_cong:
  "(\<And>x. x \<in> set xs \<Longrightarrow> p x = q x) \<Longrightarrow> (\<And>x. x \<in> set xs \<Longrightarrow> p x \<Longrightarrow> f x = g x) \<Longrightarrow>
    sum_where p f xs = sum_where q g xs"
  by (induction xs) auto

lemma sum_where_false: "(\<And>x. x \<in> set xs \<Longrightarrow> \<not> p x) \<Longrightarrow> sum_where p f xs = 0"
  by (induction xs) auto

lemma sum_where_disj:
  "(\<And>x. x \<in> set xs \<Longrightarrow> \<not> (p x \<and> q x)) \<Longrightarrow>
    sum_where (\<lambda>x. p x \<or> q x) f xs = sum_where p f xs + sum_where q f xs"
  by (induction xs) auto

lemma sum_where_nonneg: "(\<And>x. x \<in> set xs \<Longrightarrow> p x \<Longrightarrow> 0 \<le> f x) \<Longrightarrow> 0 \<le> sum_where p f xs"
  by (induction xs) (auto simp: add_nonneg_nonneg)

lemma sum_where_mono_pred:
  "(\<And>x. x \<in> set xs \<Longrightarrow> p x \<Longrightarrow> q x) \<Longrightarrow> (\<And>x. x \<in> set xs \<Longrightarrow> q x \<Longrightarrow> 0 \<le> f x) \<Longrightarrow>
    sum_where p f xs \<le> sum_where q f xs"
proof (induction xs)
  case (Cons x xs)
  have "sum_where p f xs \<le> sum_where q f xs"
    using Cons.prems by (intro Cons.IH) auto
  moreover have "(if p x then f x else 0) \<le> (if q x then f x else 0)"
    using Cons.prems by auto
  ultimately show ?case by simp
qed simp

lemma sum_where_mset: "mset xs = mset ys \<Longrightarrow> sum_where p f xs = sum_where p f ys"
proof -
  assume "mset xs = mset ys"
  then have "mset (map f (filter p xs)) = mset (map f (filter p ys))"
    by simp
  then show ?thesis
    unfolding sum_where_def by (metis sum_mset_sum_list)
qed

lemma sum_where_filter: "sum_where p f (filter q xs) = sum_where (\<lambda>x. q x \<and> p x) f xs"
  by (induction xs) auto

lemma sum_where_map: "sum_where p f (map g xs) = sum_where (p \<circ> g) (f \<circ> g) xs"
  by (induction xs) auto

section \<open>The transaction monad\<close>

text \<open>
  The environment of a run. At interaction number \<open>n\<close>, \<open>w_fails w n\<close> says that the statement
  (or the \<open>BEGIN\<close> or \<open>COMMIT\<close>) returns an error, \<open>w_applied w n\<close> that a failed \<open>COMMIT\<close> took
  effect all the same (the reply was lost), \<open>w_clock w n\<close> what the database clock reads and
  \<open>w_uuid w n\<close> what \<open>uuid.NewString\<close> draws.
\<close>

record world =
  w_fails :: "nat \<Rightarrow> bool"
  w_applied :: "nat \<Rightarrow> bool"
  w_clock :: "nat \<Rightarrow> time"
  w_uuid :: "nat \<Rightarrow> string"

type_synonym ('s, 'e, 'a) tx = "world \<Rightarrow> 's \<Rightarrow> nat \<Rightarrow> ('e + 'a) \<times> 's \<times> nat"

definition ret :: "'a \<Rightarrow> ('s, 'e, 'a) tx" where
  "ret a = (\<lambda>w s n. (Inr a, s, n))"

definition throw :: "'e \<Rightarrow> ('s, 'e, 'a) tx" where
  "throw e = (\<lambda>w s n. (Inl e, s, n))"

definition bindT :: "('s, 'e, 'a) tx \<Rightarrow> ('a \<Rightarrow> ('s, 'e, 'b) tx) \<Rightarrow> ('s, 'e, 'b) tx" where
  "bindT m f = (\<lambda>w s n. case m w s n of
      (Inl e, s', n') \<Rightarrow> (Inl e, s', n')
    | (Inr a, s', n') \<Rightarrow> f a w s' n')"

text \<open>One SQL statement; \<open>db\<close> is the error a failed statement returns.\<close>

definition stmt :: "'e \<Rightarrow> ('s \<Rightarrow> 'e + ('a \<times> 's)) \<Rightarrow> ('s, 'e, 'a) tx" where
  "stmt db f = (\<lambda>w s n. if w_fails w n then (Inl db, s, Suc n)
     else (case f s of Inl e \<Rightarrow> (Inl e, s, Suc n) | Inr (a, s') \<Rightarrow> (Inr a, s', Suc n)))"

definition query :: "'e \<Rightarrow> ('s \<Rightarrow> 'a) \<Rightarrow> ('s, 'e, 'a) tx" where
  "query db f = stmt db (\<lambda>s. Inr (f s, s))"

definition exec :: "'e \<Rightarrow> ('s \<Rightarrow> 's) \<Rightarrow> ('s, 'e, unit) tx" where
  "exec db f = stmt db (\<lambda>s. Inr ((), f s))"

text \<open>\<open>SELECT clock_timestamp()\<close> is a statement; drawing a UUID is not.\<close>

definition clock_timestamp :: "'e \<Rightarrow> ('s, 'e, time) tx" where
  "clock_timestamp db = (\<lambda>w s n. if w_fails w n then (Inl db, s, Suc n)
     else (Inr (w_clock w n), s, Suc n))"

definition newUUID :: "('s, 'e, string) tx" where
  "newUUID = (\<lambda>w s n. (Inr (w_uuid w n), s, Suc n))"

text \<open>
  A statement that reads the database clock (\<open>statement_timestamp()\<close>) together with the tables,
  and a call of \<open>time.Now()\<close> in the service itself.
\<close>

definition query_now :: "'e \<Rightarrow> (time \<Rightarrow> 's \<Rightarrow> 'a) \<Rightarrow> ('s, 'e, 'a) tx" where
  "query_now db f = (\<lambda>w s n. if w_fails w n then (Inl db, s, Suc n)
     else (Inr (f (w_clock w n) s), s, Suc n))"

definition time_Now :: "('s, 'e, time) tx" where
  "time_Now = (\<lambda>w s n. (Inr (w_clock w n), s, Suc n))"

text \<open>\<open>for _, x := range xs { if err := f(x); err != nil { return err } }\<close>\<close>

primrec forT :: "'b list \<Rightarrow> ('b \<Rightarrow> ('s, 'e, unit) tx) \<Rightarrow> ('s, 'e, unit) tx" where
  "forT [] f = ret ()"
| "forT (x # xs) f = bindT (f x) (\<lambda>_. forT xs f)"

primrec mapT :: "('b \<Rightarrow> ('s, 'e, 'c) tx) \<Rightarrow> 'b list \<Rightarrow> ('s, 'e, 'c list) tx" where
  "mapT f [] = ret []"
| "mapT f (x # xs) = bindT (f x) (\<lambda>y. bindT (mapT f xs) (\<lambda>ys. ret (y # ys)))"

text \<open>
  A call inside a transaction whose error value is dropped (\<open>_ = f(..)\<close>). PostgreSQL aborts a
  transaction at its first failed statement: whatever follows, up to and including the commit,
  fails as well. So the call cannot be ignored: the transaction ends with a database error.
\<close>

definition dropped_err :: "'e \<Rightarrow> ('s, 'e, 'a) tx \<Rightarrow> ('s, 'e, unit) tx" where
  "dropped_err db m = (\<lambda>w s n. case m w s n of
      (Inl _, s', n') \<Rightarrow> (Inl db, s', n')
    | (Inr _, s', n') \<Rightarrow> (Inr (), s', n'))"

text \<open>
  A transaction: \<open>BEGIN\<close>, the body, then either \<open>COMMIT\<close> or, where the body returns without
  committing, the deferred rollback. An error of the body rolls back.
\<close>

datatype 'a outcome = Commit 'a | Discard 'a

definition atomically :: "'e \<Rightarrow> ('s, 'e, 'a outcome) tx \<Rightarrow> ('s, 'e, 'a) tx" where
  "atomically db m = (\<lambda>w s n.
     if w_fails w n then (Inl db, s, Suc n)
     else (case m w s (Suc n) of
         (Inl e, _, n') \<Rightarrow> (Inl e, s, n')
       | (Inr (Discard a), _, n') \<Rightarrow> (Inr a, s, n')
       | (Inr (Commit a), s', n') \<Rightarrow>
           if \<not> w_fails w n' then (Inr a, s', Suc n')
           else if w_applied w n' then (Inl db, s', Suc n')
           else (Inl db, s, Suc n')))"

text \<open>The state a computation leaves behind.\<close>

definition state_of :: "('e + 'a) \<times> 's \<times> nat \<Rightarrow> 's" where
  "state_of r = fst (snd r)"

definition result_of :: "('e + 'a) \<times> 's \<times> nat \<Rightarrow> 'e + 'a" where
  "result_of r = fst r"

lemmas tx_defs = ret_def throw_def bindT_def stmt_def query_def exec_def clock_timestamp_def
  newUUID_def query_now_def time_Now_def dropped_err_def atomically_def state_of_def result_of_def

lemma state_of_Pair [simp]: "state_of (r, s, n) = s"
  and result_of_Pair [simp]: "result_of (r, s, n) = r"
  by (simp_all add: state_of_def result_of_def)

text \<open>A run whose outcome has been computed, taken apart.\<close>

lemma run_result: "result_of r = x \<Longrightarrow> r = (x, state_of r, snd (snd r))"
  by (cases r) (auto simp: result_of_def state_of_def)

section \<open>Weakest preconditions\<close>

text \<open>
  \<open>wp m Q E w s n\<close>: run from state \<open>s\<close> at interaction \<open>n\<close>, \<open>m\<close> either returns a value and leaves
  a state with \<open>Q\<close>, or fails with an error and leaves a state with \<open>E\<close>.
\<close>

definition wp :: "('s, 'e, 'a) tx \<Rightarrow> ('a \<Rightarrow> 's \<Rightarrow> nat \<Rightarrow> bool) \<Rightarrow> ('e \<Rightarrow> 's \<Rightarrow> nat \<Rightarrow> bool) \<Rightarrow>
    world \<Rightarrow> 's \<Rightarrow> nat \<Rightarrow> bool" where
  "wp m Q E w s n = (case m w s n of (Inl e, s', n') \<Rightarrow> E e s' n' | (Inr a, s', n') \<Rightarrow> Q a s' n')"

lemma wp_ret [wp_rules]: "wp (ret a) Q E w s n = Q a s n"
  by (simp add: wp_def ret_def)

lemma wp_throw [wp_rules]: "wp (throw e) Q E w s n = E e s n"
  by (simp add: wp_def throw_def)

lemma wp_bindT [wp_rules]:
  "wp (bindT m f) Q E w s n = wp m (\<lambda>a s' n'. wp (f a) Q E w s' n') E w s n"
  by (auto simp: wp_def bindT_def split: sum.splits prod.splits)

lemma wp_stmt [wp_rules]:
  "wp (stmt db f) Q E w s n =
    (if w_fails w n then E db s (Suc n)
     else (case f s of Inl e \<Rightarrow> E e s (Suc n) | Inr (a, s') \<Rightarrow> Q a s' (Suc n)))"
  by (auto simp: wp_def stmt_def split: sum.splits prod.splits)

lemma wp_query [wp_rules]:
  "wp (query db f) Q E w s n = (if w_fails w n then E db s (Suc n) else Q (f s) s (Suc n))"
  by (simp add: query_def wp_stmt)

lemma wp_exec [wp_rules]:
  "wp (exec db f) Q E w s n = (if w_fails w n then E db s (Suc n) else Q () (f s) (Suc n))"
  by (simp add: exec_def wp_stmt)

lemma wp_clock [wp_rules]:
  "wp (clock_timestamp db) Q E w s n =
    (if w_fails w n then E db s (Suc n) else Q (w_clock w n) s (Suc n))"
  by (simp add: wp_def clock_timestamp_def)

lemma wp_newUUID [wp_rules]: "wp newUUID Q E w s n = Q (w_uuid w n) s (Suc n)"
  by (simp add: wp_def newUUID_def)

lemma wp_if [wp_rules]:
  "wp (if c then m1 else m2) Q E w s n = (if c then wp m1 Q E w s n else wp m2 Q E w s n)"
  by simp

lemma wp_query_now [wp_rules]:
  "wp (query_now db f) Q E w s n =
    (if w_fails w n then E db s (Suc n) else Q (f (w_clock w n) s) s (Suc n))"
  by (simp add: wp_def query_now_def)

lemma wp_time_Now [wp_rules]: "wp time_Now Q E w s n = Q (w_clock w n) s (Suc n)"
  by (simp add: wp_def time_Now_def)

lemma wp_dropped_err [wp_rules]:
  "wp (dropped_err db m) Q E w s n = wp m (\<lambda>_ s' n'. Q () s' n') (\<lambda>_ s' n'. E db s' n') w s n"
  by (auto simp: wp_def dropped_err_def split: sum.splits prod.splits)

lemma wp_mono:
  "wp m Q E w s n \<Longrightarrow> (\<And>a s' n'. Q a s' n' \<Longrightarrow> Q' a s' n') \<Longrightarrow>
    (\<And>e s' n'. E e s' n' \<Longrightarrow> E' e s' n') \<Longrightarrow> wp m Q' E' w s n"
  by (auto simp: wp_def split: sum.splits prod.splits)

lemma wp_conj:
  "wp m Q E w s n \<Longrightarrow> wp m Q' E' w s n \<Longrightarrow>
    wp m (\<lambda>a s' n'. Q a s' n' \<and> Q' a s' n') (\<lambda>e s' n'. E e s' n' \<and> E' e s' n') w s n"
  by (auto simp: wp_def split: sum.splits prod.splits)

lemma wp_trivial: "(\<And>a s' n'. Q a s' n') \<Longrightarrow> (\<And>e s' n'. E e s' n') \<Longrightarrow> wp m Q E w s n"
  by (auto simp: wp_def split: sum.splits prod.splits)

lemma wp_runD:
  "wp m Q E w s n \<Longrightarrow> m w s n = (Inr a, s', n') \<Longrightarrow> Q a s' n'"
  "wp m Q E w s n \<Longrightarrow> m w s n = (Inl e, s', n') \<Longrightarrow> E e s' n'"
  by (simp_all add: wp_def)

lemma wp_result:
  "wp m Q E w s n \<longleftrightarrow> (case result_of (m w s n) of
     Inl e \<Rightarrow> E e (state_of (m w s n)) (snd (snd (m w s n))) | Inr a \<Rightarrow> Q a (state_of (m w s n)) (snd (snd (m w s n))))"
  by (cases "m w s n") (simp add: wp_def split: sum.split)

text \<open>A loop keeps what every iteration keeps; the rule carries the rest of the list along.\<close>

lemma wp_forT:
  assumes "I xs s n"
    and "\<And>y ys s n. suffix (y # ys) xs \<Longrightarrow> I (y # ys) s n \<Longrightarrow>
           wp (f y) (\<lambda>_ s' n'. I ys s' n') E w s n"
    and "\<And>s n. I [] s n \<Longrightarrow> Q () s n"
  shows "wp (forT xs f) Q E w s n"
  using assms
proof (induction xs arbitrary: s n)
  case Nil
  then show ?case by (simp add: wp_ret)
next
  case (Cons x xs)
  have "wp (f x) (\<lambda>_ s' n'. I xs s' n') E w s n"
    using Cons.prems(1) by (intro Cons.prems(2)) auto
  moreover have "wp (forT xs f) Q E w s' n'" if "I xs s' n'" for s' n'
    using that by (intro Cons.IH Cons.prems(2,3)) (auto intro: suffix_ConsI)
  ultimately show ?case
    by (auto simp: wp_bindT elim!: wp_mono)
qed

text \<open>
  A transaction keeps an invariant if its body does, whatever fails: a failed statement rolls
  back, and a lost commit leaves the committed state.
\<close>

definition keeps :: "('s \<Rightarrow> bool) \<Rightarrow> ('s, 'e, 'a) tx \<Rightarrow> bool" where
  "keeps I m \<longleftrightarrow> (\<forall>w s n. I s \<longrightarrow> I (state_of (m w s n)))"

lemma wp_state: "wp m (\<lambda>_ s' _. I s') (\<lambda>_ s' _. I s') w s n \<longleftrightarrow> I (state_of (m w s n))"
  by (cases "m w s n") (simp add: wp_def split: sum.split)

lemma keepsI:
  "(\<And>w s n. I s \<Longrightarrow> wp m (\<lambda>_ s' _. I s') (\<lambda>_ s' _. I s') w s n) \<Longrightarrow> keeps I m"
  by (simp add: keeps_def wp_state)

lemma keeps_wp: "keeps I m \<Longrightarrow> I s \<Longrightarrow> wp m (\<lambda>_ s' _. I s') (\<lambda>_ s' _. I s') w s n"
  by (simp add: keeps_def wp_state)

lemma keeps_atomically:
  assumes "\<And>w s n. I s \<Longrightarrow>
      wp m (\<lambda>r s' _. case r of Commit _ \<Rightarrow> I s' | Discard _ \<Rightarrow> True) (\<lambda>_ _ _. True) w s n"
  shows "keeps I (atomically db m)"
proof (rule keepsI)
  fix w s n assume "I s"
  with assms [of s w "Suc n"]
  show "wp (atomically db m) (\<lambda>_ s' _. I s') (\<lambda>_ s' _. I s') w s n"
    by (auto simp: wp_def atomically_def split: sum.splits prod.splits outcome.splits)
qed

text \<open>
  The rule for a transaction: a commit is visible whether or not its reply arrives, anything
  else leaves the state as it was.
\<close>

lemma wpi_atomically:
  assumes "wp m (\<lambda>r s' _. case r of Commit a \<Rightarrow> \<forall>k. Q a s' k \<and> E db s' k | Discard a \<Rightarrow> \<forall>k. Q a s k)
      (\<lambda>e _ _. \<forall>k. E e s k) w s (Suc n)"
    and "\<And>k. E db s k"
  shows "wp (atomically db m) Q E w s n"
  using assms
  by (auto simp: wp_def atomically_def split: sum.splits prod.splits outcome.splits)

text \<open>
  The outcome of a transaction: an error leaves the state as it was, or it is the error of a
  commit that was applied.
\<close>

lemma atomically_error:
  assumes "atomically db m w s n = (Inl e, s', n')"
  shows "s' = s \<or> (\<exists>a k. m w s (Suc n) = (Inr (Commit a), s', k) \<and> w_fails w k \<and> w_applied w k)"
  using assms
  by (auto simp: atomically_def split: if_splits sum.splits prod.splits outcome.splits)

lemma atomically_success:
  assumes "atomically db m w s n = (Inr a, s', n')"
  shows "(\<exists>k. m w s (Suc n) = (Inr (Commit a), s', k)) \<or>
    (s' = s \<and> (\<exists>t k. m w s (Suc n) = (Inr (Discard a), t, k)))"
  using assms
  by (auto simp: atomically_def split: if_splits sum.splits prod.splits outcome.splits)

text \<open>An environment in which nothing fails.\<close>

definition no_faults :: "world \<Rightarrow> bool" where
  "no_faults w \<longleftrightarrow> (\<forall>n. \<not> w_fails w n)"

lemma wp_atomically_commit:
  assumes "no_faults w"
    and "wp m (\<lambda>r s' n'. case r of Commit a \<Rightarrow> Q a s' (Suc n') | Discard a \<Rightarrow> Q a s n')
           (\<lambda>e _ n'. E e s n') w s (Suc n)"
  shows "wp (atomically db m) Q E w s n"
  using assms
  by (auto simp: wp_def atomically_def no_faults_def split: sum.splits prod.splits outcome.splits)

end
