(* ===== verification/Inventory_Store.thy ===== *)
theory Inventory_Store
  imports Gelato_Prelude
begin

text \<open>
  The batch inventory service: its data (\<open>inventory/model.go\<close>, \<open>inventory/actor.go\<close>), its tables
  (\<open>migrations/*.sql\<close>) and the building blocks of its transactions (\<open>inventory/store.go\<close>,
  \<open>inventory/http_idempotency.go\<close>): advisory locks, the idempotent mutation \<open>mutateKeys\<close>, the
  writes of batches and movements, and the reads of reservations. The low-stock and expiry
  alerts and the operations themselves are in the theories that import this one.

  Tables are lists of rows. A primary key or unique index makes an \<open>INSERT\<close> of a second row
  fail; the \<open>CHECK\<close> constraints on balances are not part of the model, so that the theorems
  show the code itself keeps them. Portions are \<open>int\<close>: the invariant bounds every counter by the
  batch's size, which is at most \<open>MaxInt32\<close>; the one product, the cost of waste, is wrapped at
  64 bits.
\<close>

section \<open>Data\<close>

datatype ierror =
    ErrInvalid | ErrNotFound | ErrConflict | ErrBatchCodeConflict | ErrStock | ErrState
  | ErrDependency
  | ErrStorage \<comment> \<open>any error of the database driver\<close>
  | ErrIdemMissing \<comment> \<open>idempotency response is missing\<close>
  | ErrNotPersisted \<comment> \<open>idempotency response was not persisted\<close>
  | ErrDecode \<comment> \<open>the saved response does not decode\<close>

definition MaxPortions :: int where
  "MaxPortions = MaxInt32"

datatype batch_status = BActive | BExhausted | BExpired | BArchived

record batch =
  b_ID :: string
  b_BatchCode :: string
  b_FlavorID :: string
  b_ProductionDate :: string
  b_ExpiresAt :: time
  b_Initial :: int
  b_Available :: int
  b_Reserved :: int
  b_Sold :: int
  b_Wasted :: int
  b_UnitCost :: int
  b_Currency :: string
  b_Status :: batch_status
  b_CreatedAt :: time
  b_UpdatedAt :: time

text \<open>A row of table \<open>batches\<close>: the struct and the two alert columns.\<close>

record batch_row = batch +
  low_stock_notified_at :: "time option"
  expiring_notified_at :: "time option"

record create_input =
  ci_BatchCode :: "string option"
  ci_FlavorID :: string
  ci_ProductionDate :: string
  ci_ExpiresAt :: time
  ci_Initial :: int
  ci_UnitCost :: "int option"
  ci_Currency :: string

record item =
  it_FlavorID :: string
  it_Portions :: int

record availability =
  av_FlavorID :: string
  av_Available :: int
  av_EarliestExpiry :: "time option"

record allocation =
  al_FlavorID :: string
  al_BatchID :: string
  al_Portions :: int

datatype res_status = RActive | RConfirmed | RReleased | RExpired | RReturned

record reservation =
  r_ID :: string
  r_OrderID :: string
  r_Status :: res_status
  r_Allocations :: "allocation list"
  r_CreatedAt :: time
  r_ExpiresAt :: time

record reserve_input =
  ri_OrderID :: string
  ri_Key :: string
  ri_Items :: "item list"

record transition_input =
  ti_ReservationID :: string
  ti_OrderID :: string
  ti_Key :: string
  ti_Reason :: string

datatype waste_reason = WExpired | WDamaged | WQuality | WAdjustment | WOther string

record waste_input =
  wi_Portions :: int
  wi_Reason :: waste_reason
  wi_Note :: string
  wi_Key :: string

record waste_record =
  w_ID :: string
  w_BatchID :: string
  w_FlavorID :: string
  w_Portions :: int
  w_Reason :: waste_reason
  w_Note :: string
  w_CostLost :: int
  w_Currency :: string
  w_RecordedAt :: time

section \<open>Tables\<close>

record reservation_row =
  rr_ID :: string
  rr_OrderID :: string
  rr_Status :: res_status
  rr_CreatedAt :: time
  rr_ExpiresAt :: time
  rr_UpdatedAt :: time
  rr_ReleaseReason :: string

record allocation_row =
  ar_ReservationID :: string
  ar_BatchID :: string
  ar_FlavorID :: string
  ar_Portions :: int
  ar_Position :: nat

datatype movement_kind = MProduced | MReserved | MConfirmed | MReleased | MWasted | MReturned

record movement_row =
  mv_ID :: string
  mv_BatchID :: string
  mv_ReservationID :: "string option"
  mv_Kind :: movement_kind
  mv_Portions :: int
  mv_OccurredAt :: time
  mv_Actor :: "(string \<times> string) option"

record waste_row = waste_record +
  w_ActorID :: "string option"

text \<open>CloudEvents in the outbox, by their \<open>data\<close> object.\<close>

datatype event_data =
    WasteRecorded (ev_waste_id: string) (ev_batch_id: string) (ev_flavor_id: string)
      (ev_date: time) (ev_portions: int) (ev_reason: waste_reason) (ev_cost: int)
      (ev_currency: string)
  | LowStock (ev_batch_id: string) (ev_flavor_id: string) (ev_remaining: int) (ev_threshold: int)
  | Expiring (ev_batch_id: string) (ev_flavor_id: string) (ev_expires: time)

record outbox_row =
  ob_ID :: string
  ob_Time :: time
  ob_Data :: event_data
  ob_CreatedAt :: time

text \<open>
  The request bodies that are hashed, and the responses that are stored, as the values that
  \<open>json.Marshal\<close> encodes. Decoding at another type is the error branch of \<open>json.Unmarshal\<close>.
\<close>

datatype request =
    QReserve reserve_input
  | QTransition transition_input
  | QCreate create_input
  | QWaste string waste_input

datatype response = PBatch batch | PReservation reservation | PWaste waste_record

fun dec_batch :: "response \<Rightarrow> batch option" where
  "dec_batch (PBatch b) = Some b"
| "dec_batch _ = None"

fun dec_reservation :: "response \<Rightarrow> reservation option" where
  "dec_reservation (PReservation r) = Some r"
| "dec_reservation _ = None"

fun dec_waste :: "response \<Rightarrow> waste_record option" where
  "dec_waste (PWaste x) = Some x"
| "dec_waste _ = None"

type_synonym mutation_key = "string \<times> string"

record idem_row =
  id_Key :: mutation_key \<comment> \<open>(operation, key)\<close>
  id_Hash :: string
  id_Response :: "response option"

record inv_db =
  batches :: "batch_row list"
  reservations :: "reservation_row list"
  allocations :: "allocation_row list"
  movements :: "movement_row list"
  wastes :: "waste_row list"
  idempotency :: "idem_row list"
  outbox :: "outbox_row list"

definition empty_inv :: inv_db where
  "empty_inv = \<lparr>batches = [], reservations = [], allocations = [], movements = [], wastes = [],
     idempotency = [], outbox = []\<rparr>"

text \<open>
  The service: the reservation lifetime, the Catalog client (\<open>None\<close> is Go's \<open>nil\<close>), and the
  two functions the code takes from outside: \<open>uuid.Parse\<close> followed by \<open>String\<close>, and the SHA-256
  of the JSON body.
\<close>

record service =
  s_TTL :: int
  s_Catalog :: "(string \<Rightarrow> ierror option) option"
  s_uuidParse :: "string \<Rightarrow> string option"
  s_hash :: "request \<Rightarrow> string"

type_synonym 'a itx = "(inv_db, ierror, 'a) tx"

section \<open>Request context\<close>

record ctx =
  c_actorID :: string
  c_actorRole :: string
  c_restKey :: "string option"

definition WithActor :: "service \<Rightarrow> ctx \<Rightarrow> string \<Rightarrow> string \<Rightarrow> ctx" where
  "WithActor s c subject role =
     (case s_uuidParse s subject of
        Some i \<Rightarrow>
          if i \<noteq> uuid_Nil \<and> (role = ''MANAGER'' \<or> role = ''STAFF'')
          then c\<lparr>c_actorID := i, c_actorRole := role\<rparr>
          else c\<lparr>c_actorID := '''', c_actorRole := ''''\<rparr>
      | None \<Rightarrow> c\<lparr>c_actorID := '''', c_actorRole := ''''\<rparr>)"

section \<open>Validation\<close>

definition ID :: "service \<Rightarrow> string \<Rightarrow> ierror + string" where
  "ID s raw = (case s_uuidParse s raw of
      None \<Rightarrow> Inl ErrInvalid
    | Some i \<Rightarrow> if i = uuid_Nil then Inl ErrInvalid else Inr i)"

definition liftE :: "'e + 'a \<Rightarrow> ('s, 'e, 'a) tx" where
  "liftE r = (case r of Inl e \<Rightarrow> throw e | Inr a \<Rightarrow> ret a)"

definition WithRESTKey :: "service \<Rightarrow> ctx \<Rightarrow> string \<Rightarrow> ierror + ctx" where
  "WithRESTKey s c raw =
     (case ID s raw of Inl e \<Rightarrow> Inl e | Inr key \<Rightarrow> Inr (c\<lparr>c_restKey := Some key\<rparr>))"

definition restKey :: "ctx \<Rightarrow> string option" where
  "restKey c = (case c_restKey c of Some key \<Rightarrow> if key \<noteq> '''' then Some key else None | None \<Rightarrow> None)"

text \<open>The loop of \<open>validItems\<close>: \<open>seen\<close> holds the canonical ids so far.\<close>

fun validItems_loop :: "service \<Rightarrow> item list \<Rightarrow> string list \<Rightarrow> ierror + item list" where
  "validItems_loop s [] seen = Inr []"
| "validItems_loop s (x # xs) seen =
     (case ID s (it_FlavorID x) of
        Inl e \<Rightarrow> Inl ErrInvalid
      | Inr i \<Rightarrow>
          if i \<in> set seen \<or> it_Portions x < 1 \<or> it_Portions x > MaxPortions then Inl ErrInvalid
          else (case validItems_loop s xs (i # seen) of
              Inl e \<Rightarrow> Inl e
            | Inr ys \<Rightarrow> Inr (x\<lparr>it_FlavorID := i\<rparr> # ys)))"

definition validItems :: "service \<Rightarrow> item list \<Rightarrow> ierror + item list" where
  "validItems s items =
     (if length items = 0 \<or> length items > 100 then Inl ErrInvalid
      else validItems_loop s items [])"

fun validReason :: "waste_reason \<Rightarrow> bool" where
  "validReason (WOther _) = False"
| "validReason _ = True"

text \<open>
  Strings are the bytes of their UTF-8 encoding, so the number of runes is the number of bytes
  that do not continue a character (JSON and protobuf strings are valid UTF-8).
\<close>

definition continuation_byte :: "char \<Rightarrow> bool" where
  "continuation_byte c \<longleftrightarrow> 128 \<le> (of_char c :: nat) \<and> (of_char c :: nat) < 192"

definition rune_count :: "string \<Rightarrow> nat" where
  "rune_count s = length (filter (\<lambda>c. \<not> continuation_byte c) s)"

definition shortText :: "string \<Rightarrow> nat \<Rightarrow> bool" where
  "shortText v n \<longleftrightarrow> rune_count v \<le> n \<and> CHR 0x00 \<notin> set v"

section \<open>Locks and time\<close>

text \<open>
  A transaction-scoped advisory lock orders transactions; in a run of one transaction it is a
  statement that changes nothing and can fail.
\<close>

definition lock :: "string \<Rightarrow> unit itx" where
  "lock key = query ErrStorage (\<lambda>_. ())"

text \<open>The loop of \<open>lockFlavors\<close> over the sorted ids: which locks it takes, in order.\<close>

fun lock_plan :: "string list \<Rightarrow> string \<Rightarrow> string list" where
  "lock_plan [] prev = []"
| "lock_plan (i # is) prev =
     (if i = prev then lock_plan is prev else (''flavor:'' @ i) # lock_plan is i)"

definition lockFlavors :: "string list \<Rightarrow> unit itx" where
  "lockFlavors ids = forT (lock_plan (sort ids) '''') lock"

definition now :: "time itx" where
  "now = clock_timestamp ErrStorage"

section \<open>Idempotent mutations\<close>

definition insert_idem :: "mutation_key \<Rightarrow> string \<Rightarrow> inv_db \<Rightarrow> bool \<times> inv_db" where
  "insert_idem k h db =
     (if k \<in> id_Key ` set (idempotency db) then (False, db)
      else (True, db\<lparr>idempotency := idempotency db @ [\<lparr>id_Key = k, id_Hash = h, id_Response = None\<rparr>]\<rparr>))"

text \<open>The claim loop: the keys claimed by this transaction and the response to replay, if any.\<close>

fun claim_keys :: "string \<Rightarrow> mutation_key list \<Rightarrow> mutation_key option \<Rightarrow> mutation_key list \<Rightarrow>
    response option \<Rightarrow> (mutation_key list \<times> response option) itx" where
  "claim_keys h [] prev claimed replay = ret (claimed, replay)"
| "claim_keys h (k # ks) prev claimed replay =
     (if prev = Some k then claim_keys h ks (Some k) claimed replay
      else bindT (stmt ErrStorage (\<lambda>db. Inr (insert_idem k h db))) (\<lambda>inserted.
        if inserted then claim_keys h ks (Some k) (claimed @ [k]) replay
        else bindT (query ErrStorage (\<lambda>db. find (\<lambda>x. id_Key x = k) (idempotency db))) (\<lambda>row.
          case row of
            None \<Rightarrow> throw ErrStorage
          | Some x \<Rightarrow>
              if id_Hash x \<noteq> h then throw ErrConflict
              else (case id_Response x of
                  None \<Rightarrow> throw ErrIdemMissing
                | Some resp \<Rightarrow>
                    if replay \<noteq> None \<and> replay \<noteq> Some resp then throw ErrConflict
                    else claim_keys h ks (Some k) claimed (Some resp)))))"

definition save_response :: "response \<Rightarrow> mutation_key \<Rightarrow> unit itx" where
  "save_response resp k =
     stmt ErrStorage (\<lambda>db.
       if length (filter (\<lambda>x. id_Key x = k) (idempotency db)) \<noteq> 1 then Inl ErrNotPersisted
       else Inr ((), db\<lparr>idempotency := update_where (\<lambda>x. id_Key x = k)
              (\<lambda>x. x\<lparr>id_Response := Some resp\<rparr>) (idempotency db)\<rparr>))"

definition mutate_body :: "('a \<Rightarrow> response) \<Rightarrow> (response \<Rightarrow> 'a option) \<Rightarrow> string \<Rightarrow>
    mutation_key list \<Rightarrow> 'a itx \<Rightarrow> 'a outcome itx" where
  "mutate_body enc dec h keys fn =
     bindT (claim_keys h (sort keys) None [] None) (\<lambda>(claimed, replay).
       case replay of
         Some resp \<Rightarrow>
           (case dec resp of
              None \<Rightarrow> throw ErrDecode
            | Some result \<Rightarrow>
                if claimed = [] then ret (Discard result)
                else bindT (forT claimed (save_response resp)) (\<lambda>_. ret (Commit result)))
       | None \<Rightarrow>
           bindT fn (\<lambda>result.
           bindT (forT claimed (save_response (enc result))) (\<lambda>_. ret (Commit result))))"

definition mutateKeys :: "('a \<Rightarrow> response) \<Rightarrow> (response \<Rightarrow> 'a option) \<Rightarrow> service \<Rightarrow>
    mutation_key list \<Rightarrow> request \<Rightarrow> 'a itx \<Rightarrow> 'a itx" where
  "mutateKeys enc dec s keys input fn =
     (if keys = [] then throw ErrInvalid
      else atomically ErrStorage (mutate_body enc dec (s_hash s input) keys fn))"

definition mutate :: "('a \<Rightarrow> response) \<Rightarrow> (response \<Rightarrow> 'a option) \<Rightarrow> service \<Rightarrow> string \<Rightarrow>
    string \<Rightarrow> request \<Rightarrow> 'a itx \<Rightarrow> 'a itx" where
  "mutate enc dec s op key input fn = mutateKeys enc dec s [(op, key)] input fn"

definition lookupRESTMutation :: "(response \<Rightarrow> 'a option) \<Rightarrow> service \<Rightarrow> string \<Rightarrow> string \<Rightarrow>
    request \<Rightarrow> 'a option itx" where
  "lookupRESTMutation dec s op key input =
     bindT (query ErrStorage (\<lambda>db. find (\<lambda>x. id_Key x = (op, key)) (idempotency db))) (\<lambda>row.
       case row of
         None \<Rightarrow> ret None
       | Some x \<Rightarrow>
           if id_Hash x \<noteq> s_hash s input then throw ErrConflict
           else (case id_Response x of
               None \<Rightarrow> throw ErrDecode
             | Some resp \<Rightarrow>
                 (case dec resp of None \<Rightarrow> throw ErrDecode | Some r \<Rightarrow> ret (Some r))))"

section \<open>Batches, movements and reservations\<close>

abbreviation scan_row :: "batch_row \<Rightarrow> batch" where
  "scan_row \<equiv> batch.truncate"

definition find_batch :: "string \<Rightarrow> inv_db \<Rightarrow> batch option" where
  "find_batch i db = map_option scan_row (find (\<lambda>b. b_ID b = i) (batches db))"

text \<open>\<open>scanBatch(tx.QueryRow(.. WHERE id=$1))\<close>\<close>

definition scanBatch :: "string \<Rightarrow> batch itx" where
  "scanBatch i = bindT (query ErrStorage (find_batch i)) (\<lambda>r.
     case r of None \<Rightarrow> throw ErrNotFound | Some b \<Rightarrow> ret b)"

definition batchStatus :: "('a batch_scheme) \<Rightarrow> time \<Rightarrow> batch_status" where
  "batchStatus b t =
     (if b_Status b = BArchived then BArchived
      else if \<not> (b_ExpiresAt b > t) then BExpired
      else if b_Available b = 0 then BExhausted
      else BActive)"

definition save_row :: "batch \<Rightarrow> time \<Rightarrow> batch_row \<Rightarrow> batch_row" where
  "save_row b t x = x\<lparr>b_Available := b_Available b, b_Reserved := b_Reserved b,
     b_Sold := b_Sold b, b_Wasted := b_Wasted b, b_Status := batchStatus b t, b_UpdatedAt := t\<rparr>"

definition saveBatch :: "batch \<Rightarrow> time \<Rightarrow> unit itx" where
  "saveBatch b t = exec ErrStorage (\<lambda>db. db\<lparr>batches :=
     update_where (\<lambda>x. b_ID x = b_ID b) (save_row b t) (batches db)\<rparr>)"

definition new_movement :: "ctx \<Rightarrow> string \<Rightarrow> string \<Rightarrow> movement_kind \<Rightarrow> int \<Rightarrow> time \<Rightarrow> string \<Rightarrow>
    movement_row" where
  "new_movement c batch res kind n t i = \<lparr>mv_ID = i, mv_BatchID = batch,
     mv_ReservationID = (if res \<noteq> '''' then Some res else None), mv_Kind = kind,
     mv_Portions = n, mv_OccurredAt = t,
     mv_Actor = (if c_actorID c \<noteq> '''' then Some (c_actorID c, c_actorRole c) else None)\<rparr>"

definition movement :: "ctx \<Rightarrow> string \<Rightarrow> string \<Rightarrow> movement_kind \<Rightarrow> int \<Rightarrow> time \<Rightarrow> unit itx" where
  "movement c batch res kind n t =
     bindT newUUID (\<lambda>i.
     stmt ErrStorage (\<lambda>db.
       if i \<in> mv_ID ` set (movements db) then Inl ErrStorage
       else Inr ((), db\<lparr>movements := movements db @ [new_movement c batch res kind n t i]\<rparr>)))"

definition load_allocations :: "string \<Rightarrow> inv_db \<Rightarrow> allocation list" where
  "load_allocations i db =
     map (\<lambda>a. \<lparr>al_FlavorID = ar_FlavorID a, al_BatchID = ar_BatchID a, al_Portions = ar_Portions a\<rparr>)
       (sort_key ar_Position (filter (\<lambda>a. ar_ReservationID a = i) (allocations db)))"

definition loadReservation :: "string \<Rightarrow> reservation itx" where
  "loadReservation i =
     bindT (query ErrStorage (\<lambda>db. find (\<lambda>r. rr_ID r = i) (reservations db))) (\<lambda>row.
       case row of
         None \<Rightarrow> throw ErrNotFound
       | Some r \<Rightarrow>
           bindT (query ErrStorage (load_allocations i)) (\<lambda>as.
           ret \<lparr>r_ID = rr_ID r, r_OrderID = rr_OrderID r, r_Status = rr_Status r,
             r_Allocations = as, r_CreatedAt = rr_CreatedAt r, r_ExpiresAt = rr_ExpiresAt r\<rparr>))"

definition reservationFlavors :: "string \<Rightarrow> string list itx" where
  "reservationFlavors i = query ErrStorage (\<lambda>db.
     remdups (map ar_FlavorID (filter (\<lambda>a. ar_ReservationID a = i) (allocations db))))"

end
