(* ===== verification/Inventory_Alerts.thy ===== *)
theory Inventory_Alerts
  imports Inventory_Store
begin

text \<open>
  The alerts of the batch inventory service (\<open>service/inventory_service.go\<close>): the low-stock
  notification with its suppression flag, its reset, and the notification of batches that
  expire within 48 hours. Each writes its CloudEvent into the outbox in the transaction that
  sets the flag.
\<close>

definition LowStockThreshold :: int where
  "LowStockThreshold = 10"

definition ExpiryAlertWindow :: int where
  "ExpiryAlertWindow = 48 * Hour"

text \<open>The available portions of a flavor in sellable batches.\<close>

definition sellable :: "string \<Rightarrow> time \<Rightarrow> batch_row \<Rightarrow> bool" where
  "sellable fl t b \<longleftrightarrow> b_FlavorID b = fl \<and> b_Status b = BActive \<and> b_ExpiresAt b > t"

definition total_available :: "string \<Rightarrow> time \<Rightarrow> inv_db \<Rightarrow> int" where
  "total_available fl t db = sum_where (sellable fl t) b_Available (batches db)"

definition set_low_stock :: "string \<Rightarrow> time option \<Rightarrow> inv_db \<Rightarrow> inv_db" where
  "set_low_stock fl v db = db\<lparr>batches :=
     update_where (\<lambda>b. b_FlavorID b = fl) (\<lambda>b. b\<lparr>low_stock_notified_at := v\<rparr>) (batches db)\<rparr>"

definition low_stock_notified :: "string \<Rightarrow> inv_db \<Rightarrow> bool" where
  "low_stock_notified fl db \<longleftrightarrow>
     (\<exists>b\<in>set (batches db). b_FlavorID b = fl \<and> low_stock_notified_at b \<noteq> None)"

text \<open>\<open>ORDER BY expires_at DESC, created_at DESC LIMIT 1\<close>\<close>

definition latest_batch :: "string \<Rightarrow> inv_db \<Rightarrow> string option" where
  "latest_batch fl db =
     (case rev (sort_key (\<lambda>b. (b_ExpiresAt b, b_CreatedAt b))
             (filter (\<lambda>b. b_FlavorID b = fl) (batches db))) of
        [] \<Rightarrow> None | b # _ \<Rightarrow> Some (b_ID b))"

definition insert_outbox :: "string \<Rightarrow> time \<Rightarrow> event_data \<Rightarrow> unit itx" where
  "insert_outbox i t d = stmt ErrStorage (\<lambda>db.
     if i \<in> ob_ID ` set (outbox db) then Inl ErrStorage
     else Inr ((), db\<lparr>outbox := outbox db @
            [\<lparr>ob_ID = i, ob_Time = t, ob_Data = d, ob_CreatedAt = t\<rparr>]\<rparr>))"

definition CheckAndNotifyLowStock :: "string \<Rightarrow> time \<Rightarrow> bool itx" where
  "CheckAndNotifyLowStock fl t =
     (if fl = '''' then ret False
      else bindT (query ErrStorage (total_available fl t)) (\<lambda>total.
        if total > LowStockThreshold then
          bindT (exec ErrStorage (set_low_stock fl None)) (\<lambda>_. ret False)
        else bindT (query ErrStorage (low_stock_notified fl)) (\<lambda>notified.
          if notified then ret False
          else bindT (query ErrStorage (latest_batch fl)) (\<lambda>latest.
            case latest of
              None \<Rightarrow> ret False
            | Some batchID \<Rightarrow>
                bindT (exec ErrStorage (set_low_stock fl (Some t))) (\<lambda>_.
                bindT newUUID (\<lambda>eventID.
                bindT (insert_outbox eventID t (LowStock batchID fl total LowStockThreshold)) (\<lambda>_.
                ret True)))))))"

definition ResetLowStockNotified :: "string \<Rightarrow> time \<Rightarrow> unit itx" where
  "ResetLowStockNotified fl t =
     bindT (query ErrStorage (total_available fl t)) (\<lambda>total.
       if total > LowStockThreshold then exec ErrStorage (set_low_stock fl None)
       else ret ())"

text \<open>The discovery predicate of the expiry alert, which the transaction checks again.\<close>

definition expiring_candidate :: "time \<Rightarrow> batch_row \<Rightarrow> bool" where
  "expiring_candidate t b \<longleftrightarrow> b_Status b = BActive \<and> b_Available b > 0 \<and> b_ExpiresAt b > t \<and>
     b_ExpiresAt b \<le> t + ExpiryAlertWindow \<and> expiring_notified_at b = None"

definition lockFlavor :: "string \<Rightarrow> unit itx" where
  "lockFlavor fl = lock (''flavor:'' @ fl)"

definition notifyExpiringBatch :: "string \<Rightarrow> string \<Rightarrow> bool itx" where
  "notifyExpiringBatch batchID fl = atomically ErrStorage (
     bindT (lockFlavor fl) (\<lambda>_.
     bindT (clock_timestamp ErrStorage) (\<lambda>t.
     bindT (query ErrStorage (\<lambda>db.
       map_option b_ExpiresAt (find (\<lambda>b. b_ID b = batchID \<and> expiring_candidate t b) (batches db)))) (\<lambda>row.
       case row of
         None \<Rightarrow> ret (Discard False)
       | Some expiresAt \<Rightarrow>
           bindT (exec ErrStorage (\<lambda>db. db\<lparr>batches := update_where (\<lambda>b. b_ID b = batchID)
             (\<lambda>b. b\<lparr>expiring_notified_at := Some t\<rparr>) (batches db)\<rparr>)) (\<lambda>_.
           bindT newUUID (\<lambda>eventID.
           bindT (insert_outbox eventID t (Expiring batchID fl (time_Truncate expiresAt Second))) (\<lambda>_.
           ret (Commit True))))))))"

fun notify_loop :: "(string \<times> string) list \<Rightarrow> int \<Rightarrow> int itx" where
  "notify_loop [] notified = ret notified"
| "notify_loop ((i, fl) # cs) notified =
     bindT (notifyExpiringBatch i fl) (\<lambda>ok. notify_loop cs (if ok then notified + 1 else notified))"

definition NotifyExpiringBatches :: "int \<Rightarrow> int itx" where
  "NotifyExpiringBatches limit0 =
     (let limit = (if limit0 < 1 then 100 else limit0)
      in bindT (query_now ErrStorage (\<lambda>t db.
           map (\<lambda>b. (b_ID b, b_FlavorID b))
             (take (nat limit) (sort_key (\<lambda>b. (b_ExpiresAt b, b_ID b))
               (filter (expiring_candidate t) (batches db)))))) (\<lambda>candidates.
         notify_loop candidates 0))"

end
