(* ===== verification/Gelato_Text.thy ===== *)
theory Gelato_Text
  imports Gelato_Prelude
begin

text \<open>
  What the services use of Go's \<open>strings\<close>, \<open>strconv\<close> and \<open>time\<close> packages. A string is its bytes, in
  UTF-8.
\<close>

text \<open>\<open>strings.TrimSpace\<close> on UTF-8: the encodings of the characters with Unicode's White\_Space.\<close>

definition space_encodings :: "string list" where
  "space_encodings = [[CHR 0x09], [CHR 0x0A], [CHR 0x0B], [CHR 0x0C], [CHR 0x0D], [CHR 0x20],
     [CHR 0xC2, CHR 0x85], [CHR 0xC2, CHR 0xA0], [CHR 0xE1, CHR 0x9A, CHR 0x80],
     [CHR 0xE2, CHR 0x80, CHR 0x80], [CHR 0xE2, CHR 0x80, CHR 0x81], [CHR 0xE2, CHR 0x80, CHR 0x82],
     [CHR 0xE2, CHR 0x80, CHR 0x83], [CHR 0xE2, CHR 0x80, CHR 0x84], [CHR 0xE2, CHR 0x80, CHR 0x85],
     [CHR 0xE2, CHR 0x80, CHR 0x86], [CHR 0xE2, CHR 0x80, CHR 0x87], [CHR 0xE2, CHR 0x80, CHR 0x88],
     [CHR 0xE2, CHR 0x80, CHR 0x89], [CHR 0xE2, CHR 0x80, CHR 0x8A], [CHR 0xE2, CHR 0x80, CHR 0xA8],
     [CHR 0xE2, CHR 0x80, CHR 0xA9], [CHR 0xE2, CHR 0x80, CHR 0xAF], [CHR 0xE2, CHR 0x81, CHR 0x9F],
     [CHR 0xE3, CHR 0x80, CHR 0x80]]"

function trim_left :: "string list \<Rightarrow> string \<Rightarrow> string" where
  "trim_left ps s =
     (case find (\<lambda>p. p \<noteq> [] \<and> prefix p s) ps of
        None \<Rightarrow> s | Some p \<Rightarrow> trim_left ps (drop (length p) s))"
  by pat_completeness auto
termination
proof (relation "measure (\<lambda>(ps, s). length s)", simp_all)
  fix ps :: "string list" and s p
  assume "find (\<lambda>p. p \<noteq> [] \<and> prefix p s) ps = Some p"
  then have "p \<noteq> []" and "prefix p s" by (auto dest: find_SomeD)
  then have "0 < length p" and "length p \<le> length s"
    by (simp_all add: prefix_length_le)
  then show "length s - length p < length s" by arith
qed

declare trim_left.simps [simp del]

definition TrimSpace :: "string \<Rightarrow> string" where
  "TrimSpace s = rev (trim_left (map rev space_encodings) (rev (trim_left space_encodings s)))"

text \<open>\<open>strings.Fields\<close>: the parts between runs of white space.\<close>

function fields_from :: "string \<Rightarrow> string \<Rightarrow> string list" where
  "fields_from part s =
     (if s = [] then (if part = [] then [] else [rev part])
      else case find (\<lambda>p. p \<noteq> [] \<and> prefix p s) space_encodings of
        None \<Rightarrow> fields_from (hd s # part) (tl s)
      | Some p \<Rightarrow> (if part = [] then [] else [rev part]) @ fields_from [] (drop (length p) s))"
  by pat_completeness auto
termination
proof (relation "measure (\<lambda>(part, s). length s)", simp_all)
  fix s p :: string
  assume "s \<noteq> []" "find (\<lambda>p. p \<noteq> [] \<and> prefix p s) space_encodings = Some p"
  then have "p \<noteq> []" by (auto dest: find_SomeD)
  with \<open>s \<noteq> []\<close> show "length s - length p < length s" by simp
qed

declare fields_from.simps [simp del]

definition Fields :: "string \<Rightarrow> string list" where
  "Fields s = fields_from [] s"

definition ascii_upper :: "char \<Rightarrow> char" where
  "ascii_upper c = (if 97 \<le> (of_char c :: nat) \<and> (of_char c :: nat) \<le> 122
     then char_of ((of_char c :: nat) - 32) else c)"

definition ascii_lower :: "char \<Rightarrow> char" where
  "ascii_lower c = (if 65 \<le> (of_char c :: nat) \<and> (of_char c :: nat) \<le> 90
     then char_of ((of_char c :: nat) + 32) else c)"

text \<open>\<open>strings.Cut\<close>: the text before and after the first occurrence of a byte.\<close>

fun cut_at :: "char \<Rightarrow> string \<Rightarrow> (string \<times> string) option" where
  "cut_at c [] = None"
| "cut_at c (x # xs) = (if x = c then Some ([], xs) else map_option (\<lambda>(a, b). (x # a, b)) (cut_at c xs))"

text \<open>
  \<open>strings.EqualFold\<close> with a text of ASCII letters among which neither \<open>k\<close> nor \<open>s\<close> occurs: the only
  other characters that fold to an ASCII letter are the Kelvin sign and the long s.
\<close>

definition EqualFold :: "string \<Rightarrow> string \<Rightarrow> bool" where
  "EqualFold a b \<longleftrightarrow> map ascii_lower a = map ascii_lower b"

text \<open>
  \<open>utf8.RuneCountInString\<close>: a well-formed encoding counts one, and so does every byte that does not
  begin one. The ranges are those of the second byte of a longer encoding.
\<close>

definition in_range :: "nat \<Rightarrow> nat \<Rightarrow> char \<Rightarrow> bool" where
  "in_range lo hi c \<longleftrightarrow> lo \<le> of_char c \<and> of_char c \<le> hi"

definition second_range :: "char \<Rightarrow> (nat \<times> nat \<times> nat) option" where
  "second_range c = (let b = (of_char c :: nat) in
     if 0xC2 \<le> b \<and> b \<le> 0xDF then Some (2, 0x80, 0xBF)
     else if b = 0xE0 then Some (3, 0xA0, 0xBF)
     else if b = 0xED then Some (3, 0x80, 0x9F)
     else if 0xE1 \<le> b \<and> b \<le> 0xEF then Some (3, 0x80, 0xBF)
     else if b = 0xF0 then Some (4, 0x90, 0xBF)
     else if 0xF1 \<le> b \<and> b \<le> 0xF3 then Some (4, 0x80, 0xBF)
     else if b = 0xF4 then Some (4, 0x80, 0x8F)
     else None)"

definition rune_width :: "string \<Rightarrow> nat" where
  "rune_width s = (case s of
     [] \<Rightarrow> 0
   | c # cs \<Rightarrow> (case second_range c of
        None \<Rightarrow> 1
      | Some (n, lo, hi) \<Rightarrow>
          if n \<le> length s \<and> in_range lo hi (hd cs) \<and> list_all (in_range 0x80 0xBF) (take (n - 2) (tl cs)) then n else 1))"

lemma rune_width_pos: "0 < rune_width (c # cs)"
  by (auto simp: rune_width_def second_range_def Let_def split: option.split if_splits)

function RuneCount :: "string \<Rightarrow> nat" where
  "RuneCount [] = 0"
| "RuneCount (c # cs) = Suc (RuneCount (drop (rune_width (c # cs)) (c # cs)))"
  by pat_completeness auto
termination
  by (relation "measure length") (use rune_width_pos in simp_all)

text \<open>\<open>utf8.ValidString\<close>\<close>

function ValidString :: "string \<Rightarrow> bool" where
  "ValidString [] = True"
| "ValidString (c # cs) \<longleftrightarrow> ((of_char c :: nat) < 0x80 \<or> 1 < rune_width (c # cs)) \<and> ValidString (drop (rune_width (c # cs)) (c # cs))"
  by pat_completeness auto
termination
  by (relation "measure length") (use rune_width_pos in simp_all)

text \<open>Decimal digits.\<close>

definition digit_char :: "nat \<Rightarrow> char" where
  "digit_char d = ''0123456789'' ! d"

fun show_digits :: "nat \<Rightarrow> string" where
  "show_digits n = (if n < 10 then [digit_char n] else show_digits (n div 10) @ [digit_char (n mod 10)])"

declare show_digits.simps [simp del]

text \<open>The calendar: \<open>time.Date\<close> moves a month or a day outside its range to the next or previous ones.\<close>

definition leap :: "int \<Rightarrow> bool" where
  "leap y \<longleftrightarrow> y mod 4 = 0 \<and> (y mod 100 \<noteq> 0 \<or> y mod 400 = 0)"

definition days_in_month :: "int \<Rightarrow> int \<Rightarrow> int" where
  "days_in_month y m =
     (if m = 2 then (if leap y then 29 else 28)
      else if m \<in> {4, 6, 9, 11} then 30 else 31)"

lemma days_in_month_bounds: "28 \<le> days_in_month y m" "days_in_month y m \<le> 31"
  by (simp_all add: days_in_month_def)

definition norm_month :: "int \<Rightarrow> int \<Rightarrow> int \<times> int" where
  "norm_month y m = (y + (m - 1) div 12, (m - 1) mod 12 + 1)"

function norm_day :: "int \<Rightarrow> int \<Rightarrow> int \<Rightarrow> int \<times> int \<times> int" where
  "norm_day y m d =
     (if d < 1 then (case norm_month y (m - 1) of (y', m') \<Rightarrow> norm_day y' m' (d + days_in_month y' m'))
      else if d > days_in_month y m then (case norm_month y (m + 1) of (y', m') \<Rightarrow> norm_day y' m' (d - days_in_month y m))
      else (y, m, d))"
  by pat_completeness auto
termination
proof (relation "measure (\<lambda>(y, m, d). if d < 1 then nat (1 - d) + 31 else nat d)", goal_cases)
  case (2 y m d y' m')
  then show ?case using days_in_month_bounds [of y' m'] by (auto simp: nat_less_iff)
next
  case (3 y m d y' m')
  then show ?case using days_in_month_bounds [of y m] by auto
qed simp

declare norm_day.simps [simp del]

definition AddDate :: "int \<times> int \<times> int \<Rightarrow> int \<Rightarrow> int \<Rightarrow> int \<Rightarrow> int \<times> int \<times> int" where
  "AddDate day years months days =
     (case day of (y, m, d) \<Rightarrow> case norm_month (y + years) (m + months) of (y', m') \<Rightarrow> norm_day y' m' (d + days))"

text \<open>\<open>Format("2006-01-02")\<close>, for years of at most four digits.\<close>

definition show_padded :: "nat \<Rightarrow> int \<Rightarrow> string" where
  "show_padded n x = (let s = show_digits (nat x) in replicate (n - length s) (CHR ''0'') @ s)"

definition show_date :: "int \<times> int \<times> int \<Rightarrow> string" where
  "show_date day = (case day of (y, m, d) \<Rightarrow> show_padded 4 y @ ''-'' @ show_padded 2 m @ ''-'' @ show_padded 2 d)"

end
