(* ===== verification/Inventory_Ops.thy ===== *)
theory Inventory_Ops
  imports Inventory_Alerts Gelato_Text
begin

text \<open>
  The operations of the batch inventory service (\<open>inventory/batches.go\<close>, \<open>inventory/waste.go\<close>,
  \<open>inventory/reservations.go\<close>): production of a batch, the reads, waste, reservation with
  first-expired-first-out allocation, confirmation, release, expiry and return, and the
  periodic sweep.
\<close>

section \<open>Production\<close>

definition alnum :: "char \<Rightarrow> bool" where
  "alnum c \<longleftrightarrow> (let n = (of_char c :: nat) in
     65 \<le> n \<and> n \<le> 90 \<or> 97 \<le> n \<and> n \<le> 122 \<or> 48 \<le> n \<and> n \<le> 57)"

text \<open>The byte loop of \<open>batchCode\<close>: \<open>i\<close> is the index of the first byte of the list.\<close>

fun code_ok :: "nat \<Rightarrow> string \<Rightarrow> bool" where
  "code_ok i [] = True"
| "code_ok i (c # cs) =
     (if \<not> alnum c \<and> (i = 0 \<or> c \<noteq> CHR ''_'' \<and> c \<noteq> CHR ''-'') then False
      else code_ok (Suc i) cs)"

definition batchCode :: "string option \<Rightarrow> string \<Rightarrow> ierror + string" where
  "batchCode raw batchID =
     (case raw of
        None \<Rightarrow> Inr (''BATCH-'' @ map ascii_upper batchID)
      | Some r \<Rightarrow>
          let code = TrimSpace r in
          if length code = 0 \<or> length code > 64 then Inl ErrInvalid
          else if \<not> code_ok 0 code then Inl ErrInvalid
          else Inr (map ascii_upper code))"

text \<open>
  \<open>time.Parse("2006-01-02", s)\<close>: four, two and two digits, a month from 1 to 12 and a day that
  the month has, as nanoseconds since 0001-01-01.
\<close>

definition digit :: "char \<Rightarrow> bool" where
  "digit c \<longleftrightarrow> 48 \<le> (of_char c :: nat) \<and> (of_char c :: nat) \<le> 57"

definition decimal :: "string \<Rightarrow> int" where
  "decimal cs = foldl (\<lambda>n c. 10 * n + (int (of_char c) - 48)) 0 cs"

definition days_before_year :: "int \<Rightarrow> int" where
  "days_before_year y = 365 * (y - 1) + (y - 1) div 4 - (y - 1) div 100 + (y - 1) div 400"

definition date_time :: "int \<Rightarrow> int \<Rightarrow> int \<Rightarrow> time" where
  "date_time y m d = (days_before_year y +
     sum_list (map (\<lambda>k. days_in_month y (int k)) [1..<nat m]) + (d - 1)) * (24 * Hour)"

definition parseDate :: "string \<Rightarrow> time option" where
  "parseDate s =
     (if length s = 10 \<and> s ! 4 = CHR ''-'' \<and> s ! 7 = CHR ''-'' \<and>
         list_all digit (take 4 s @ take 2 (drop 5 s) @ drop 8 s)
      then let y = decimal (take 4 s); m = decimal (take 2 (drop 5 s)); d = decimal (drop 8 s) in
        if 1 \<le> m \<and> m \<le> 12 \<and> 1 \<le> d \<and> d \<le> days_in_month y m then Some (date_time y m d) else None
      else None)"

definition valid_create :: "create_input \<Rightarrow> bool" where
  "valid_create i \<longleftrightarrow>
     (case parseDate (ci_ProductionDate i) of
        None \<Rightarrow> False
      | Some date \<Rightarrow>
          \<not> (ci_ExpiresAt i = 0 \<or> ci_ExpiresAt i < date \<or> ci_Initial i < 1 \<or>
            ci_Initial i > MaxPortions \<or>
            (case ci_UnitCost i of
               None \<Rightarrow> True
             | Some u \<Rightarrow> u < 0 \<or> u > quot MaxInt64 (ci_Initial i)) \<or>
            ci_Currency i \<noteq> ''THB''))"

definition insert_batch :: "batch \<Rightarrow> unit itx" where
  "insert_batch b = stmt ErrStorage (\<lambda>db.
     if b_BatchCode b \<in> b_BatchCode ` set (batches db) then Inl ErrBatchCodeConflict
     else if b_ID b \<in> b_ID ` set (batches db) then Inl ErrStorage
     else Inr ((), db\<lparr>batches := batches db @
            [batch.extend b (batch_row.fields None None)]\<rparr>))"

text \<open>The closure \<open>create\<close>, run inside the transaction.\<close>

definition create_tx :: "ctx \<Rightarrow> create_input \<Rightarrow> string \<Rightarrow> string \<Rightarrow> batch itx" where
  "create_tx c i batchID code =
     bindT (lockFlavors [ci_FlavorID i]) (\<lambda>_.
     bindT now (\<lambda>t.
       if \<not> (ci_ExpiresAt i > t) then throw ErrInvalid
       else
         let b = \<lparr>b_ID = batchID, b_BatchCode = code, b_FlavorID = ci_FlavorID i,
                  b_ProductionDate = ci_ProductionDate i, b_ExpiresAt = ci_ExpiresAt i,
                  b_Initial = ci_Initial i, b_Available = ci_Initial i, b_Reserved = 0, b_Sold = 0,
                  b_Wasted = 0,
                  b_UnitCost = (case ci_UnitCost i of Some u \<Rightarrow> u | None \<Rightarrow> 0),
                  b_Currency = ''THB'', b_Status = BActive, b_CreatedAt = t, b_UpdatedAt = t\<rparr> in
         bindT (insert_batch b) (\<lambda>_.
         bindT (movement c batchID '''' MProduced (ci_Initial i) t) (\<lambda>_.
         bindT (dropped_err ErrStorage (ResetLowStockNotified (ci_FlavorID i) t)) (\<lambda>_.
         ret b)))))"

definition Create :: "service \<Rightarrow> ctx \<Rightarrow> create_input \<Rightarrow> batch itx" where
  "Create s c in0 =
     (if c_actorID c = '''' \<or> c_actorRole c \<noteq> ''MANAGER'' then throw ErrInvalid
      else case ID s (ci_FlavorID in0) of
        Inl e \<Rightarrow> throw ErrInvalid
      | Inr flavor \<Rightarrow>
          let i = in0\<lparr>ci_FlavorID := flavor\<rparr> in
          bindT newUUID (\<lambda>batchID.
          case batchCode (ci_BatchCode i) batchID of
            Inl e \<Rightarrow> throw e
          | Inr code \<Rightarrow>
              if \<not> valid_create i then throw ErrInvalid
              else
                let operation = ''create_batch:'' @ c_actorID c;
                    proceed =
                      (case s_Catalog s of
                         None \<Rightarrow> throw ErrDependency
                       | Some checkActive \<Rightarrow>
                           (case checkActive flavor of
                              Some e \<Rightarrow> throw e
                            | None \<Rightarrow>
                                (case restKey c of
                                   Some key \<Rightarrow> mutate PBatch dec_batch s operation key (QCreate i)
                                     (create_tx c i batchID code)
                                 | None \<Rightarrow> atomically ErrStorage
                                     (bindT (create_tx c i batchID code) (\<lambda>b. ret (Commit b))))))
                in (case restKey c of
                      Some key \<Rightarrow>
                        bindT (lookupRESTMutation dec_batch s operation key (QCreate i)) (\<lambda>found.
                          case found of Some original \<Rightarrow> ret original | None \<Rightarrow> proceed)
                    | None \<Rightarrow> proceed)))"

section \<open>Reads\<close>

definition Get :: "service \<Rightarrow> string \<Rightarrow> batch itx" where
  "Get s i =
     (case ID s i of
        Inl e \<Rightarrow> throw e
      | Inr i' \<Rightarrow> bindT (scanBatch i') (\<lambda>b. bindT time_Now (\<lambda>t. ret (b\<lparr>b_Status := batchStatus b t\<rparr>))))"

text \<open>\<open>flavor = ""\<close> and \<open>status = ""\<close> do not filter.\<close>

definition parse_status :: "string \<Rightarrow> batch_status option option" where
  "parse_status st =
     (if st = '''' then Some None
      else if st = ''ACTIVE'' then Some (Some BActive)
      else if st = ''EXHAUSTED'' then Some (Some BExhausted)
      else if st = ''EXPIRED'' then Some (Some BExpired)
      else if st = ''ARCHIVED'' then Some (Some BArchived)
      else None)"

definition opt_flavor :: "service \<Rightarrow> string \<Rightarrow> ierror + string" where
  "opt_flavor s fl = (if fl = '''' then Inr '''' else ID s fl)"

definition batch_order :: "('a batch_scheme) \<Rightarrow> time \<times> time \<times> string" where
  "batch_order b = (b_ExpiresAt b, b_CreatedAt b, b_ID b)"

definition List_batches :: "service \<Rightarrow> string \<Rightarrow> string \<Rightarrow> batch list itx" where
  "List_batches s flavor0 status =
     (case opt_flavor s flavor0 of
        Inl e \<Rightarrow> throw e
      | Inr flavor \<Rightarrow>
          (case parse_status status of
             None \<Rightarrow> throw ErrInvalid
           | Some st \<Rightarrow>
               bindT (query_now ErrStorage (\<lambda>t db.
                 map scan_row (sort_key batch_order
                   (filter (\<lambda>b. (flavor = '''' \<or> b_FlavorID b = flavor) \<and>
                                (case st of None \<Rightarrow> True | Some x \<Rightarrow> batchStatus b t = x))
                     (batches db))))) (\<lambda>rows.
               mapT (\<lambda>b. bindT time_Now (\<lambda>t. ret (b\<lparr>b_Status := batchStatus b t\<rparr>))) rows)))"

definition flavor_available :: "time \<Rightarrow> string \<Rightarrow> batch_row list \<Rightarrow> int" where
  "flavor_available t fl bs =
     sum_where (\<lambda>b. b_FlavorID b = fl \<and> (b_Status b = BActive \<or> b_Status b = BExhausted) \<and>
       b_ExpiresAt b > t) b_Available bs"

definition earliest_expiry :: "time \<Rightarrow> string \<Rightarrow> batch_row list \<Rightarrow> time option" where
  "earliest_expiry t fl bs =
     (case sort (map b_ExpiresAt (filter (\<lambda>b. b_FlavorID b = fl \<and> b_Available b > 0 \<and>
            b_Status b = BActive \<and> b_ExpiresAt b > t) bs)) of
        [] \<Rightarrow> None | x # _ \<Rightarrow> Some x)"

text \<open>The grouped query, and the time it was read at.\<close>

definition availability_rows :: "string \<Rightarrow> time \<Rightarrow> inv_db \<Rightarrow> availability list" where
  "availability_rows flavor t db =
     map (\<lambda>fl. \<lparr>av_FlavorID = fl, av_Available = flavor_available t fl (batches db),
               av_EarliestExpiry = earliest_expiry t fl (batches db)\<rparr>)
       (sort (remdups (filter (\<lambda>fl. flavor = '''' \<or> fl = flavor) (map b_FlavorID (batches db)))))"

definition Availability :: "service \<Rightarrow> string \<Rightarrow> (availability list \<times> time) itx" where
  "Availability s flavor0 =
     (case opt_flavor s flavor0 of
        Inl e \<Rightarrow> throw e
      | Inr flavor \<Rightarrow>
          bindT (query_now ErrStorage (\<lambda>t db. (availability_rows flavor t db, t))) (\<lambda>(rows, t).
          bindT time_Now (\<lambda>asOf. ret (rows, if rows = [] then asOf else t))))"

definition Check :: "service \<Rightarrow> item list \<Rightarrow> (availability list \<times> time) itx" where
  "Check s items0 =
     (case validItems s items0 of
        Inl e \<Rightarrow> throw e
      | Inr items \<Rightarrow>
          bindT (Availability s '''') (\<lambda>(rows, t).
          ret (map (\<lambda>x. case find (\<lambda>a. av_FlavorID a = it_FlavorID x) (rev rows) of
                 Some a \<Rightarrow> a
               | None \<Rightarrow> \<lparr>av_FlavorID = it_FlavorID x, av_Available = 0, av_EarliestExpiry = None\<rparr>) items, t)))"

section \<open>Waste\<close>

definition insert_waste :: "waste_record \<Rightarrow> string option \<Rightarrow> unit itx" where
  "insert_waste x who = stmt ErrStorage (\<lambda>db.
     if w_ID x \<in> w_ID ` set (wastes db) then Inl ErrStorage
     else Inr ((), db\<lparr>wastes := wastes db @ [waste_record.extend x (waste_row.fields who)]\<rparr>))"

definition recordWaste :: "ctx \<Rightarrow> batch \<Rightarrow> int \<Rightarrow> waste_reason \<Rightarrow> string \<Rightarrow> string \<Rightarrow> string \<Rightarrow>
    time \<Rightarrow> waste_record itx" where
  "recordWaste c b n reason note actor reservation t =
     bindT newUUID (\<lambda>i.
     let x = \<lparr>w_ID = i, w_BatchID = b_ID b, w_FlavorID = b_FlavorID b, w_Portions = n,
              w_Reason = reason, w_Note = note, w_CostLost = i64 (b_UnitCost b * n),
              w_Currency = ''THB'', w_RecordedAt = t\<rparr> in
     bindT (insert_waste x (if actor \<noteq> '''' then Some actor else None)) (\<lambda>_.
     bindT (movement c (b_ID b) reservation MWasted n t) (\<lambda>_.
     bindT newUUID (\<lambda>eventID.
     bindT (insert_outbox eventID t (WasteRecorded i (b_ID b) (b_FlavorID b)
       (time_Truncate t (24 * Hour)) n reason (w_CostLost x) ''THB'')) (\<lambda>_.
     ret x)))))"

definition waste_tx :: "ctx \<Rightarrow> string \<Rightarrow> string \<Rightarrow> waste_input \<Rightarrow> waste_record itx" where
  "waste_tx c batchID actor i =
     bindT (scanBatch batchID) (\<lambda>b0.
     bindT (lockFlavors [b_FlavorID b0]) (\<lambda>_.
     bindT (scanBatch batchID) (\<lambda>b.
     bindT now (\<lambda>t.
       if b_Status b = BArchived then throw ErrState
       else if wi_Reason i = WExpired \<and> b_ExpiresAt b > t then throw ErrInvalid
       else if b_Available b < wi_Portions i then throw ErrStock
       else
         let b' = b\<lparr>b_Available := b_Available b - wi_Portions i,
                    b_Wasted := b_Wasted b + wi_Portions i\<rparr> in
         bindT (recordWaste c b' (wi_Portions i) (wi_Reason i) (wi_Note i) actor '''' t) (\<lambda>result.
         bindT (saveBatch b' t) (\<lambda>_.
         bindT (CheckAndNotifyLowStock (b_FlavorID b') t) (\<lambda>_.
         ret result)))))))"

definition Waste :: "service \<Rightarrow> ctx \<Rightarrow> string \<Rightarrow> string \<Rightarrow> waste_input \<Rightarrow> waste_record itx" where
  "Waste s c batchID0 actor0 in0 =
     (case ID s batchID0 of Inl e \<Rightarrow> throw e | Inr batchID \<Rightarrow>
      (case ID s actor0 of Inl e \<Rightarrow> throw e | Inr actor \<Rightarrow>
      (case ID s (wi_Key in0) of Inl e \<Rightarrow> throw e | Inr key \<Rightarrow>
       let i = in0\<lparr>wi_Key := key\<rparr> in
       if wi_Portions i < 1 \<or> wi_Portions i > MaxPortions \<or> \<not> validReason (wi_Reason i) \<or>
          \<not> shortText (wi_Note i) 500
       then throw ErrInvalid
       else
         let keys = [(''waste:'' @ actor, key)] @
           (case restKey c of Some k \<Rightarrow> [(''rest_waste:'' @ actor, k)] | None \<Rightarrow> [])
         in mutateKeys PWaste dec_waste s keys (QWaste batchID i) (waste_tx c batchID actor i))))"

section \<open>Reservation\<close>

text \<open>
  The plan of a reservation while it is built: the changed batches by id, the allocations and
  the expiry so far.
\<close>

record plan =
  p_batches :: "string \<rightharpoonup> batch"
  p_allocs :: "allocation list"
  p_expires :: time

text \<open>\<open>for rows.Next() \<dots>\<close>: take from each batch in turn until nothing is needed.\<close>

fun take_rows :: "batch list \<Rightarrow> int \<Rightarrow> plan \<Rightarrow> int \<times> plan" where
  "take_rows [] needed p = (needed, p)"
| "take_rows (b # bs) needed p =
     (if needed = 0 then take_rows bs needed p
      else
        let n = min needed (b_Available b);
            b' = b\<lparr>b_Available := b_Available b - n, b_Reserved := b_Reserved b + n\<rparr>
        in take_rows bs (needed - n)
             (p\<lparr>p_batches := (p_batches p)(b_ID b' \<mapsto> b'),
                p_allocs := p_allocs p @ [\<lparr>al_FlavorID = b_FlavorID b', al_BatchID = b_ID b', al_Portions = n\<rparr>],
                p_expires := (if b_ExpiresAt b' < p_expires p then b_ExpiresAt b' else p_expires p)\<rparr>))"

text \<open>\<open>ORDER BY expires_at,created_at,id\<close>: first expired, first out.\<close>

definition fefo_rows :: "string \<Rightarrow> time \<Rightarrow> inv_db \<Rightarrow> batch list" where
  "fefo_rows fl t db = map scan_row (sort_key batch_order
     (filter (\<lambda>b. b_FlavorID b = fl \<and> b_Status b = BActive \<and> b_Available b > 0 \<and> b_ExpiresAt b > t)
       (batches db)))"

fun plan_items :: "item list \<Rightarrow> time \<Rightarrow> plan \<Rightarrow> plan itx" where
  "plan_items [] t p = ret p"
| "plan_items (x # xs) t p =
     bindT (query ErrStorage (fefo_rows (it_FlavorID x) t)) (\<lambda>rows.
     case take_rows rows (it_Portions x) p of
       (needed, p') \<Rightarrow> if needed > 0 then throw ErrStock else plan_items xs t p')"

text \<open>A column of type \<open>uuid\<close> rejects the empty string.\<close>

definition insert_reservation :: "reservation_row \<Rightarrow> unit itx" where
  "insert_reservation r = stmt ErrStorage (\<lambda>db.
     if rr_ID r = '''' \<or> rr_ID r \<in> rr_ID ` set (reservations db) \<or> rr_OrderID r \<in> rr_OrderID ` set (reservations db)
     then Inl ErrStorage
     else Inr ((), db\<lparr>reservations := reservations db @ [r]\<rparr>))"

definition insert_allocation :: "allocation_row \<Rightarrow> unit itx" where
  "insert_allocation a = stmt ErrStorage (\<lambda>db.
     if \<exists>x\<in>set (allocations db). ar_ReservationID x = ar_ReservationID a \<and>
          (ar_BatchID x = ar_BatchID a \<or> ar_Position x = ar_Position a)
     then Inl ErrStorage
     else Inr ((), db\<lparr>allocations := allocations db @ [a]\<rparr>))"

text \<open>The zero value of \<open>Batch\<close>, which a Go map returns for a missing key.\<close>

definition zero_batch :: batch where
  "zero_batch = \<lparr>b_ID = '''', b_BatchCode = '''', b_FlavorID = '''', b_ProductionDate = '''',
     b_ExpiresAt = 0, b_Initial = 0, b_Available = 0, b_Reserved = 0, b_Sold = 0, b_Wasted = 0,
     b_UnitCost = 0, b_Currency = '''', b_Status = BActive, b_CreatedAt = 0, b_UpdatedAt = 0\<rparr>"

definition save_allocation :: "ctx \<Rightarrow> string \<Rightarrow> (string \<rightharpoonup> batch) \<Rightarrow> time \<Rightarrow> nat \<times> allocation \<Rightarrow> unit itx" where
  "save_allocation c rid bs current ia =
     (case ia of (i, a) \<Rightarrow>
       bindT (saveBatch (case bs (al_BatchID a) of Some b \<Rightarrow> b | None \<Rightarrow> zero_batch) current) (\<lambda>_.
       bindT (insert_allocation \<lparr>ar_ReservationID = rid, ar_BatchID = al_BatchID a,
         ar_FlavorID = al_FlavorID a, ar_Portions = al_Portions a, ar_Position = i\<rparr>) (\<lambda>_.
       movement c (al_BatchID a) rid MReserved (al_Portions a) current)))"

definition reserve_tx :: "service \<Rightarrow> ctx \<Rightarrow> reserve_input \<Rightarrow> reservation itx" where
  "reserve_tx s c i =
     bindT (lock (''order:'' @ ri_OrderID i)) (\<lambda>_.
     bindT (query ErrStorage (\<lambda>db. ri_OrderID i \<in> rr_OrderID ` set (reservations db))) (\<lambda>ex.
       if ex then throw ErrConflict
       else
         bindT (lockFlavors (map it_FlavorID (ri_Items i))) (\<lambda>_.
         bindT now (\<lambda>t.
           if s_TTL s \<le> 0 then throw ErrInvalid
           else
             bindT newUUID (\<lambda>rid.
             bindT (plan_items (ri_Items i) t \<lparr>p_batches = Map.empty, p_allocs = [], p_expires = t + s_TTL s\<rparr>) (\<lambda>p.
             bindT now (\<lambda>current.
               if \<not> (p_expires p > current) then throw ErrState
               else
                 bindT (insert_reservation \<lparr>rr_ID = rid, rr_OrderID = ri_OrderID i, rr_Status = RActive,
                   rr_CreatedAt = t, rr_ExpiresAt = p_expires p, rr_UpdatedAt = t, rr_ReleaseReason = ''''\<rparr>) (\<lambda>_.
                 bindT (forT (enumerate 0 (p_allocs p)) (save_allocation c rid (p_batches p) current)) (\<lambda>_.
                 bindT (forT (ri_Items i) (\<lambda>x. bindT (CheckAndNotifyLowStock (it_FlavorID x) current) (\<lambda>_. ret ()))) (\<lambda>_.
                 ret \<lparr>r_ID = rid, r_OrderID = ri_OrderID i, r_Status = RActive,
                   r_Allocations = p_allocs p, r_CreatedAt = t, r_ExpiresAt = p_expires p\<rparr>))))))))))"

definition Reserve :: "service \<Rightarrow> ctx \<Rightarrow> reserve_input \<Rightarrow> reservation itx" where
  "Reserve s c in0 =
     (case validItems s (ri_Items in0) of Inl e \<Rightarrow> throw e | Inr items \<Rightarrow>
      (case ID s (ri_OrderID in0) of Inl e \<Rightarrow> throw e | Inr orderID \<Rightarrow>
      (case ID s (ri_Key in0) of Inl e \<Rightarrow> throw e | Inr key \<Rightarrow>
       let i = \<lparr>ri_OrderID = orderID, ri_Key = key, ri_Items = sort_key it_FlavorID items\<rparr>
       in mutate PReservation dec_reservation s ''reserve'' key (QReserve i) (reserve_tx s c i))))"

section \<open>Confirmation, release, expiry and return\<close>

text \<open>One iteration of the loop over the allocations.\<close>

definition settle_allocation :: "ctx \<Rightarrow> bool \<Rightarrow> string \<Rightarrow> time \<Rightarrow> allocation \<Rightarrow> unit itx" where
  "settle_allocation c confirm rid t a =
     bindT (scanBatch (al_BatchID a)) (\<lambda>b.
       if b_Reserved b < al_Portions a then throw ErrState
       else
         let b1 = b\<lparr>b_Reserved := b_Reserved b - al_Portions a\<rparr> in
         if confirm then
           if \<not> (b_ExpiresAt b > t) \<or> b_Status b = BArchived then throw ErrState
           else
             let b2 = b1\<lparr>b_Sold := b_Sold b + al_Portions a\<rparr> in
             bindT (movement c (b_ID b) rid MConfirmed (al_Portions a) t) (\<lambda>_. saveBatch b2 t)
         else if \<not> (b_ExpiresAt b > t) then
           let b2 = b1\<lparr>b_Wasted := b_Wasted b + al_Portions a\<rparr> in
           bindT (recordWaste c b2 (al_Portions a) WExpired ''reservation expired after batch expiry'' '''' rid t) (\<lambda>_.
           saveBatch b2 t)
         else
           let b2 = b1\<lparr>b_Available := b_Available b + al_Portions a\<rparr> in
           bindT (movement c (b_ID b) rid MReleased (al_Portions a) t) (\<lambda>_. saveBatch b2 t))"

definition set_status :: "string \<Rightarrow> res_status \<Rightarrow> time \<Rightarrow> string \<Rightarrow> unit itx" where
  "set_status rid st t reason = exec ErrStorage (\<lambda>db. db\<lparr>reservations :=
     update_where (\<lambda>r. rr_ID r = rid)
       (\<lambda>r. r\<lparr>rr_Status := st, rr_UpdatedAt := t, rr_ReleaseReason := reason\<rparr>) (reservations db)\<rparr>)"

definition transition :: "ctx \<Rightarrow> transition_input \<Rightarrow> bool \<Rightarrow> bool \<Rightarrow> reservation itx" where
  "transition c i confirm expiry =
     bindT (lock (''order:'' @ ti_OrderID i)) (\<lambda>_.
     bindT (reservationFlavors (ti_ReservationID i)) (\<lambda>ids.
     bindT (lockFlavors ids) (\<lambda>_.
     bindT (loadReservation (ti_ReservationID i)) (\<lambda>r.
       if r_OrderID r \<noteq> ti_OrderID i then throw ErrNotFound
       else bindT now (\<lambda>t.
         if expiry \<and> (r_Status r \<noteq> RActive \<or> r_ExpiresAt r > t) then ret r
         else if r_Status r \<noteq> RActive then
           (if (confirm \<and> r_Status r = RConfirmed) \<or>
               (\<not> confirm \<and> (r_Status r = RReleased \<or> r_Status r = RExpired)) then ret r
            else throw ErrState)
         else if confirm \<and> \<not> (r_ExpiresAt r > t) then throw ErrState
         else
           let target = (if confirm then RConfirmed
                         else if expiry \<or> \<not> (r_ExpiresAt r > t) then RExpired else RReleased) in
           bindT (forT (r_Allocations r) (settle_allocation c confirm (r_ID r) t)) (\<lambda>_.
           bindT (set_status (r_ID r) target t (ti_Reason i)) (\<lambda>_.
           bindT (if confirm then ret ()
                  else forT ids (\<lambda>fid. dropped_err ErrStorage (ResetLowStockNotified fid t))) (\<lambda>_.
           ret (r\<lparr>r_Status := target\<rparr>)))))))))"

definition Transition :: "service \<Rightarrow> ctx \<Rightarrow> bool \<Rightarrow> transition_input \<Rightarrow> reservation itx" where
  "Transition s c confirm in0 =
     (case ID s (ti_ReservationID in0) of Inl e \<Rightarrow> throw e | Inr rid \<Rightarrow>
      (case ID s (ti_OrderID in0) of Inl e \<Rightarrow> throw e | Inr oid \<Rightarrow>
      (case ID s (ti_Key in0) of Inl e \<Rightarrow> throw e | Inr key \<Rightarrow>
       if \<not> shortText (ti_Reason in0) 500 then throw ErrInvalid
       else
         let op = (if confirm then ''confirm'' else ''release'');
             i = \<lparr>ti_ReservationID = rid, ti_OrderID = oid, ti_Key = key,
                  ti_Reason = (if confirm then '''' else ti_Reason in0)\<rparr>
         in mutate PReservation dec_reservation s op key (QTransition i) (transition c i confirm False))))"

definition return_allocation :: "ctx \<Rightarrow> string \<Rightarrow> time \<Rightarrow> allocation \<Rightarrow> unit itx" where
  "return_allocation c rid t a =
     bindT (scanBatch (al_BatchID a)) (\<lambda>b.
       if b_Sold b < al_Portions a then throw ErrState
       else
         let b1 = b\<lparr>b_Sold := b_Sold b - al_Portions a\<rparr> in
         if \<not> (b_ExpiresAt b > t) then
           let b2 = b1\<lparr>b_Wasted := b_Wasted b + al_Portions a\<rparr> in
           bindT (recordWaste c b2 (al_Portions a) WExpired ''returned order after batch expiry'' '''' rid t) (\<lambda>_.
           saveBatch b2 t)
         else
           let b2 = b1\<lparr>b_Available := b_Available b + al_Portions a\<rparr> in
           bindT (movement c (b_ID b) rid MReturned (al_Portions a) t) (\<lambda>_. saveBatch b2 t))"

definition returnConfirmed :: "ctx \<Rightarrow> transition_input \<Rightarrow> reservation itx" where
  "returnConfirmed c i =
     bindT (lock (''order:'' @ ti_OrderID i)) (\<lambda>_.
     bindT (reservationFlavors (ti_ReservationID i)) (\<lambda>ids.
     bindT (lockFlavors ids) (\<lambda>_.
     bindT (loadReservation (ti_ReservationID i)) (\<lambda>r.
       if r_OrderID r \<noteq> ti_OrderID i then throw ErrNotFound
       else if r_Status r = RReturned then ret r
       else if r_Status r \<noteq> RConfirmed then throw ErrState
       else bindT now (\<lambda>t.
         bindT (forT (r_Allocations r) (return_allocation c (r_ID r) t)) (\<lambda>_.
         bindT (set_status (r_ID r) RReturned t (ti_Reason i)) (\<lambda>_.
         bindT (forT ids (\<lambda>fid. dropped_err ErrStorage (ResetLowStockNotified fid t))) (\<lambda>_.
         ret (r\<lparr>r_Status := RReturned\<rparr>)))))))))"

definition Return :: "service \<Rightarrow> ctx \<Rightarrow> transition_input \<Rightarrow> reservation itx" where
  "Return s c in0 =
     (case ID s (ti_ReservationID in0) of Inl e \<Rightarrow> throw e | Inr rid \<Rightarrow>
      (case ID s (ti_OrderID in0) of Inl e \<Rightarrow> throw e | Inr oid \<Rightarrow>
      (case ID s (ti_Key in0) of Inl e \<Rightarrow> throw e | Inr key \<Rightarrow>
       if \<not> shortText (ti_Reason in0) 500 then throw ErrInvalid
       else
         let i = \<lparr>ti_ReservationID = rid, ti_OrderID = oid, ti_Key = key, ti_Reason = ti_Reason in0\<rparr>
         in mutate PReservation dec_reservation s ''return'' key (QTransition i) (returnConfirmed c i))))"

section \<open>The sweep\<close>

definition due_reservations :: "nat \<Rightarrow> time \<Rightarrow> inv_db \<Rightarrow> transition_input list" where
  "due_reservations limit t db =
     map (\<lambda>r. \<lparr>ti_ReservationID = rr_ID r, ti_OrderID = rr_OrderID r, ti_Key = '''',
              ti_Reason = ''reservation timeout''\<rparr>)
       (take limit (sort_key (\<lambda>r. (rr_ExpiresAt r, rr_ID r))
         (filter (\<lambda>r. rr_Status r = RActive \<and> rr_ExpiresAt r \<le> t) (reservations db))))"

definition due_batches :: "nat \<Rightarrow> time \<Rightarrow> inv_db \<Rightarrow> (string \<times> string) list" where
  "due_batches limit t db =
     map (\<lambda>b. (b_ID b, b_FlavorID b))
       (take limit (sort_key (\<lambda>b. (b_ExpiresAt b, b_ID b))
         (filter (\<lambda>b. b_Status b \<noteq> BArchived \<and> b_ExpiresAt b \<le> t \<and>
            (b_Available b > 0 \<or> b_Status b \<noteq> BExpired)) (batches db))))"

definition expireReservation :: "ctx \<Rightarrow> transition_input \<Rightarrow> unit itx" where
  "expireReservation c i =
     atomically ErrStorage (bindT (transition c i False True) (\<lambda>_. ret (Commit ())))"

definition expireBatch :: "ctx \<Rightarrow> string \<Rightarrow> string \<Rightarrow> unit itx" where
  "expireBatch c i flavor = atomically ErrStorage (
     bindT (lockFlavors [flavor]) (\<lambda>_.
     bindT (scanBatch i) (\<lambda>b.
     bindT now (\<lambda>t.
       if b_ExpiresAt b > t \<or> b_Status b = BArchived then ret (Discard ())
       else
         let n = b_Available b;
             b' = (if n > 0 then b\<lparr>b_Available := 0, b_Wasted := b_Wasted b + n\<rparr> else b) in
         bindT (if n > 0
                then bindT (recordWaste c b' n WExpired ''batch expiry'' '''' '''' t) (\<lambda>_. ret ())
                else ret ()) (\<lambda>_.
         bindT (saveBatch b' t) (\<lambda>_.
         bindT (CheckAndNotifyLowStock (b_FlavorID b') t) (\<lambda>_.
         ret (Commit ()))))))))"

definition Sweep :: "ctx \<Rightarrow> int \<Rightarrow> unit itx" where
  "Sweep c limit =
     (if limit < 1 \<or> limit > 1000 then throw ErrInvalid
      else
        bindT (query_now ErrStorage (due_reservations (nat limit))) (\<lambda>inputs.
        bindT (forT inputs (expireReservation c)) (\<lambda>_.
        bindT (query_now ErrStorage (due_batches (nat limit))) (\<lambda>bs.
        bindT (forT bs (\<lambda>(i, flavor). expireBatch c i flavor)) (\<lambda>_.
        bindT (NotifyExpiringBatches limit) (\<lambda>_. ret ()))))))"

end
