(* ===== verification/Inventory_Inv.thy ===== *)
theory Inventory_Inv
  imports Inventory_Ops
begin

text \<open>
  The invariant of the inventory tables and that every operation keeps it.

  \<open>inv_off d e\<close> is the invariant while a reservation is being settled: the reserved counter of
  batch \<open>i\<close> is short of its active allocations by \<open>d i\<close>, and its sold counter is ahead of its
  confirmed allocations by \<open>e i\<close>. Between transactions both are zero (\<open>inv_ok\<close>).
\<close>

section \<open>The invariant\<close>

definition status_of :: "inv_db \<Rightarrow> string \<Rightarrow> res_status option" where
  "status_of db rid = map_option rr_Status (find (\<lambda>r. rr_ID r = rid) (reservations db))"

text \<open>Portions of a batch allocated to reservations with a given status.\<close>

definition held :: "inv_db \<Rightarrow> res_status \<Rightarrow> string \<Rightarrow> int" where
  "held db st i = sum_where (\<lambda>a. ar_BatchID a = i \<and> status_of db (ar_ReservationID a) = Some st)
     ar_Portions (allocations db)"

text \<open>What the append-only history says of the available and the wasted portions of a batch.\<close>

definition signed_portions :: "movement_row \<Rightarrow> int" where
  "signed_portions m =
     (case mv_Kind m of
        MProduced \<Rightarrow> mv_Portions m
      | MReserved \<Rightarrow> - mv_Portions m
      | MReleased \<Rightarrow> mv_Portions m
      | MReturned \<Rightarrow> mv_Portions m
      | MConfirmed \<Rightarrow> 0
      | MWasted \<Rightarrow> if mv_ReservationID m = None then - mv_Portions m else 0)"

definition history_available :: "inv_db \<Rightarrow> string \<Rightarrow> int" where
  "history_available db i = sum_where (\<lambda>m. mv_BatchID m = i) signed_portions (movements db)"

definition history_wasted :: "inv_db \<Rightarrow> string \<Rightarrow> int" where
  "history_wasted db i =
     sum_where (\<lambda>m. mv_BatchID m = i \<and> mv_Kind m = MWasted) mv_Portions (movements db)"

definition waste_total :: "inv_db \<Rightarrow> string \<Rightarrow> int" where
  "waste_total db i = sum_where (\<lambda>x. w_BatchID x = i) w_Portions (wastes db)"

definition wf_batch :: "('a batch_scheme) \<Rightarrow> bool" where
  "wf_batch b \<longleftrightarrow> 1 \<le> b_Initial b \<and> b_Initial b \<le> MaxPortions \<and> 0 \<le> b_Available b \<and>
     0 \<le> b_Reserved b \<and> 0 \<le> b_Sold b \<and> 0 \<le> b_Wasted b \<and>
     b_Available b + b_Reserved b + b_Sold b + b_Wasted b = b_Initial b \<and>
     0 \<le> b_UnitCost b \<and> b_UnitCost b \<le> quot MaxInt64 (b_Initial b)"

definition wf_allocation :: "inv_db \<Rightarrow> allocation_row \<Rightarrow> bool" where
  "wf_allocation db a \<longleftrightarrow> 0 < ar_Portions a \<and>
     (\<exists>r\<in>set (reservations db). rr_ID r = ar_ReservationID a \<and>
       (\<exists>b\<in>set (batches db). b_ID b = ar_BatchID a \<and> b_FlavorID b = ar_FlavorID a \<and>
          rr_ExpiresAt r \<le> b_ExpiresAt b))"

definition wf_tables :: "inv_db \<Rightarrow> bool" where
  "wf_tables db \<longleftrightarrow> distinct (map b_ID (batches db)) \<and> distinct (map rr_ID (reservations db)) \<and>
     distinct (map rr_OrderID (reservations db)) \<and> distinct (map b_BatchCode (batches db)) \<and>
     (\<forall>r\<in>set (reservations db). rr_ID r \<noteq> '''') \<and>
     (\<forall>a\<in>set (allocations db). wf_allocation db a) \<and>
     (\<forall>m\<in>set (movements db). mv_BatchID m \<in> b_ID ` set (batches db)) \<and>
     (\<forall>x\<in>set (wastes db). w_BatchID x \<in> b_ID ` set (batches db) \<and>
        0 \<le> w_CostLost x \<and> w_CostLost x \<le> MaxInt64)"

definition ledger :: "(string \<Rightarrow> int) \<Rightarrow> (string \<Rightarrow> int) \<Rightarrow> inv_db \<Rightarrow> batch_row \<Rightarrow> bool" where
  "ledger d e db b \<longleftrightarrow>
     b_Reserved b = held db RActive (b_ID b) - d (b_ID b) \<and>
     b_Sold b = held db RConfirmed (b_ID b) + e (b_ID b) \<and>
     b_Available b = history_available db (b_ID b) \<and>
     b_Wasted b = history_wasted db (b_ID b) \<and>
     b_Wasted b = waste_total db (b_ID b)"

definition inv_off :: "(string \<Rightarrow> int) \<Rightarrow> (string \<Rightarrow> int) \<Rightarrow> inv_db \<Rightarrow> bool" where
  "inv_off d e db \<longleftrightarrow> wf_tables db \<and> (\<forall>b\<in>set (batches db). wf_batch b \<and> ledger d e db b)"

abbreviation no_off :: "string \<Rightarrow> int" where
  "no_off \<equiv> (\<lambda>_. 0)"

definition inv_ok :: "inv_db \<Rightarrow> bool" where
  "inv_ok db \<longleftrightarrow> inv_off no_off no_off db"

section \<open>How the state changes move the invariant\<close>

lemma scan_row_simps [simp]:
  "b_ID (scan_row b) = b_ID b" "b_BatchCode (scan_row b) = b_BatchCode b"
  "b_FlavorID (scan_row b) = b_FlavorID b" "b_ExpiresAt (scan_row b) = b_ExpiresAt b"
  "b_Initial (scan_row b) = b_Initial b" "b_Available (scan_row b) = b_Available b"
  "b_Reserved (scan_row b) = b_Reserved b" "b_Sold (scan_row b) = b_Sold b"
  "b_Wasted (scan_row b) = b_Wasted b" "b_UnitCost (scan_row b) = b_UnitCost b"
  "b_Status (scan_row b) = b_Status b" "b_CreatedAt (scan_row b) = b_CreatedAt b"
  by (simp_all add: batch.truncate_def)

lemma save_row_simps [simp]:
  "b_ID (save_row b t x) = b_ID x" "b_BatchCode (save_row b t x) = b_BatchCode x"
  "b_FlavorID (save_row b t x) = b_FlavorID x" "b_ExpiresAt (save_row b t x) = b_ExpiresAt x"
  "b_Initial (save_row b t x) = b_Initial x" "b_Available (save_row b t x) = b_Available b"
  "b_Reserved (save_row b t x) = b_Reserved b" "b_Sold (save_row b t x) = b_Sold b"
  "b_Wasted (save_row b t x) = b_Wasted b" "b_UnitCost (save_row b t x) = b_UnitCost x"
  "b_Status (save_row b t x) = batchStatus b t" "b_CreatedAt (save_row b t x) = b_CreatedAt x"
  by (simp_all add: save_row_def)

lemma find_batch_SomeD:
  assumes "find_batch i db = Some b"
  obtains x where "x \<in> set (batches db)" "b_ID x = i" "b = scan_row x"
  using assms by (auto simp: find_batch_def dest: find_SomeD)

lemma find_batch_row:
  "wf_tables db \<Longrightarrow> x \<in> set (batches db) \<Longrightarrow> find_batch (b_ID x) db = Some (scan_row x)"
  by (simp add: find_batch_def wf_tables_def find_unique)

text \<open>Row-wise agreement of two versions of the batch table on what the invariant reads.\<close>

definition same_batch :: "batch_row \<Rightarrow> batch_row \<Rightarrow> bool" where
  "same_batch x y \<longleftrightarrow> b_ID x = b_ID y \<and> b_BatchCode x = b_BatchCode y \<and>
     b_FlavorID x = b_FlavorID y \<and> b_ExpiresAt x = b_ExpiresAt y"

lemma wf_tables_batches:
  assumes "wf_tables s" and "list_all2 same_batch (batches s) (batches s')"
    and "reservations s' = reservations s" and "allocations s' = allocations s"
    and "\<forall>m\<in>set (movements s'). mv_BatchID m \<in> b_ID ` set (batches s)"
    and "\<forall>x\<in>set (wastes s'). w_BatchID x \<in> b_ID ` set (batches s) \<and>
           0 \<le> w_CostLost x \<and> w_CostLost x \<le> MaxInt64"
  shows "wf_tables s'"
proof -
  have ids: "map b_ID (batches s') = map b_ID (batches s)"
    and codes: "map b_BatchCode (batches s') = map b_BatchCode (batches s)"
    using assms(2) by (auto simp: same_batch_def intro!: list_all2_map_eq)
  have ex: "\<exists>y\<in>set (batches s'). same_batch x y" if "x \<in> set (batches s)" for x
    using assms(2) that by (rule list_all2_ex)
  have "wf_allocation s' a" if "wf_allocation s a" for a
    using that ex assms(3) by (fastforce simp: wf_allocation_def same_batch_def)
  moreover have "b_ID ` set (batches s') = b_ID ` set (batches s)"
    using ids by (metis set_map)
  ultimately show ?thesis
    using assms ids codes by (auto simp: wf_tables_def)
qed

lemma held_cong:
  "reservations s' = reservations s \<Longrightarrow> allocations s' = allocations s \<Longrightarrow> held s' st i = held s st i"
  by (simp add: held_def status_of_def)

text \<open>
  The central step: one batch is rewritten, \<open>da\<close>, \<open>dr\<close>, \<open>ds\<close> and \<open>dw\<close> portions move between
  its counters, and the histories record \<open>da\<close> and \<open>dw\<close>.
\<close>

lemma inv_off_move:
  assumes inv: "inv_off d e s" and x: "x \<in> set (batches s)" and i: "b_ID x = i" "b_ID b = i"
    and bs: "batches s' = update_where (\<lambda>y. b_ID y = b_ID b) (save_row b t) (batches s)"
    and same: "reservations s' = reservations s" "allocations s' = allocations s"
    and mv: "\<forall>m\<in>set (movements s'). mv_BatchID m \<in> b_ID ` set (batches s)"
    and ws: "\<forall>y\<in>set (wastes s'). w_BatchID y \<in> b_ID ` set (batches s) \<and>
           0 \<le> w_CostLost y \<and> w_CostLost y \<le> MaxInt64"
    and hist: "\<And>j. history_available s' j = history_available s j + (if j = i then da else 0)"
      "\<And>j. history_wasted s' j = history_wasted s j + (if j = i then dw else 0)"
      "\<And>j. waste_total s' j = waste_total s j + (if j = i then dw else 0)"
    and upd: "b_Available b = b_Available x + da" "b_Reserved b = b_Reserved x + dr"
      "b_Sold b = b_Sold x + ds" "b_Wasted b = b_Wasted x + dw" "da + dr + ds + dw = 0"
    and nonneg: "0 \<le> b_Available b" "0 \<le> b_Reserved b" "0 \<le> b_Sold b" "0 \<le> b_Wasted b"
  shows "inv_off (d(i := d i - dr)) (e(i := e i + ds)) s'"
proof -
  have wf: "wf_tables s" using inv by (simp add: inv_off_def)
  have "wf_tables s'"
    by (rule wf_tables_batches [OF wf _ same mv ws])
       (simp add: bs list_all2_update_where same_batch_def)
  moreover have "wf_batch y \<and> ledger (d(i := d i - dr)) (e(i := e i + ds)) s' y"
    if y: "y \<in> set (batches s')" for y
  proof -
    from y obtain z where z: "z \<in> set (batches s)" "y = (if b_ID z = i then save_row b t z else z)"
      using bs i by (auto simp: set_update_where)
    have old: "wf_batch z" "ledger d e s z" using inv z(1) by (auto simp: inv_off_def)
    show ?thesis
    proof (cases "b_ID z = i")
      case True
      with wf x z(1) i have "z = x"
        by (auto simp: wf_tables_def dest: distinct_key_eq)
      with old upd nonneg hist i z(2) True show ?thesis
        by (simp add: wf_batch_def ledger_def held_cong [OF same])
    next
      case False
      with old hist z(2) show ?thesis
        by (simp add: ledger_def held_cong [OF same])
    qed
  qed
  ultimately show ?thesis by (simp add: inv_off_def)
qed

text \<open>Changes that the invariant does not see: the alert columns, the outbox, the saved responses.\<close>

definition inv_view :: "inv_db \<Rightarrow> batch list \<times> reservation_row list \<times> allocation_row list \<times>
    movement_row list \<times> waste_row list" where
  "inv_view db = (map scan_row (batches db), reservations db, allocations db, movements db, wastes db)"

lemma inv_off_cong:
  assumes view: "inv_view s' = inv_view s" and inv: "inv_off d e s"
  shows "inv_off d e s'"
proof -
  have trunc: "map scan_row (batches s') = map scan_row (batches s)"
    and rest: "reservations s' = reservations s" "allocations s' = allocations s"
      "movements s' = movements s" "wastes s' = wastes s"
    using view by (simp_all add: inv_view_def)
  have ids: "map b_ID (batches s') = map b_ID (batches s)"
    using trunc by (metis (no_types, lifting) map_map comp_def map_cong scan_row_simps(1))
  have la: "list_all2 same_batch (batches s) (batches s')"
    using trunc [symmetric]
    by (auto simp: list_all2_conv_all_nth same_batch_def list_eq_iff_nth_eq)
       (metis scan_row_simps)+
  have "wf_tables s'"
    by (rule wf_tables_batches [OF _ la]) (use inv rest in \<open>auto simp: inv_off_def wf_tables_def\<close>)
  moreover have "wf_batch y \<and> ledger d e s' y" if y: "y \<in> set (batches s')" for y
  proof -
    from y have "scan_row y \<in> set (map scan_row (batches s))"
      using trunc by (metis image_eqI list.set_map)
    then obtain z where z: "z \<in> set (batches s)" "scan_row z = scan_row y" by auto
    then have "wf_batch z" "ledger d e s z" using inv by (auto simp: inv_off_def)
    then have "wf_batch (scan_row z)"
      by (simp add: wf_batch_def)
    moreover from this have "wf_batch y"
      using z(2) by (simp add: wf_batch_def)
    moreover have "b_ID z = b_ID y" "b_Reserved z = b_Reserved y" "b_Sold z = b_Sold y"
      "b_Available z = b_Available y" "b_Wasted z = b_Wasted y"
      using z(2) by (metis scan_row_simps)+
    ultimately show ?thesis
      using \<open>ledger d e s z\<close> rest
      by (simp add: ledger_def held_def status_of_def history_available_def history_wasted_def
          waste_total_def)
  qed
  ultimately show ?thesis by (simp add: inv_off_def)
qed

end
