(* ===== verification/Inventory_Safety.thy ===== *)
theory Inventory_Safety
  imports Inventory_Inv
begin

text \<open>
  Every transaction of the inventory service keeps the invariant \<open>inv_ok\<close>, and the settling of a
  reservation (confirmation, release, expiry, return) fails only for the reasons the code
  names: with the invariant, the checks on the batch counters never fire.
\<close>

named_theorems wpi "introduction rules for wp of the operations of the store"

section \<open>Rules for the building blocks\<close>

lemma wpi_bindT [wpi]: "wp m (\<lambda>a s n. wp (f a) Q E w s n) E w s n \<Longrightarrow> wp (bindT m f) Q E w s n"
  by (simp add: wp_bindT)

lemma wpi_ret [wpi]: "Q a s n \<Longrightarrow> wp (ret a) Q E w s n"
  by (simp add: wp_ret)

lemma wpi_throw [wpi]: "E e s n \<Longrightarrow> wp (throw e) Q E w s n"
  by (simp add: wp_throw)

lemma wpi_if [wpi]:
  "(c \<Longrightarrow> wp m1 Q E w s n) \<Longrightarrow> (\<not> c \<Longrightarrow> wp m2 Q E w s n) \<Longrightarrow> wp (if c then m1 else m2) Q E w s n"
  by simp

lemma wpi_query [wpi]:
  "(\<And>n'. Q (f s) s n') \<Longrightarrow> (\<And>s n. E db s n) \<Longrightarrow> wp (query db f) Q E w s n"
  by (simp add: wp_query)

lemma wpi_query_now [wpi]:
  "(\<And>t n'. Q (f t s) s n') \<Longrightarrow> (\<And>s n. E db s n) \<Longrightarrow> wp (query_now db f) Q E w s n"
  by (simp add: wp_query_now)

lemma wpi_exec [wpi]:
  "(\<And>n'. Q () (f s) n') \<Longrightarrow> (\<And>s n. E db s n) \<Longrightarrow> wp (exec db f) Q E w s n"
  by (simp add: wp_exec)

lemma wpi_newUUID [wpi]: "(\<And>k n'. Q (w_uuid w k) s n') \<Longrightarrow> wp newUUID Q E w s n"
  by (simp add: wp_newUUID)

lemma wpi_time_Now [wpi]: "(\<And>i n'. Q i s n') \<Longrightarrow> wp time_Now Q E w s n"
  by (simp add: wp_time_Now)

lemma wpi_lock [wpi]: "(\<And>n'. Q () s n') \<Longrightarrow> (\<And>s n. E ErrStorage s n) \<Longrightarrow> wp (lock k) Q E w s n"
  by (simp add: lock_def wp_query)

lemma wpi_lockFlavors [wpi]:
  "(\<And>n'. Q () s n') \<Longrightarrow> (\<And>s n. E ErrStorage s n) \<Longrightarrow> wp (lockFlavors ids) Q E w s n"
  unfolding lockFlavors_def
  by (rule wp_forT [where I = "\<lambda>_ s' _. s' = s"]) (auto intro: wpi_lock)

lemma wpi_lockFlavor [wpi]:
  "(\<And>n'. Q () s n') \<Longrightarrow> (\<And>s n. E ErrStorage s n) \<Longrightarrow> wp (lockFlavor fl) Q E w s n"
  unfolding lockFlavor_def by (rule wpi_lock)

lemma wpi_now [wpi]: "(\<And>k n'. Q (w_clock w k) s n') \<Longrightarrow> (\<And>s n. E ErrStorage s n) \<Longrightarrow> wp now Q E w s n"
  by (simp add: now_def wp_clock)

lemma wpi_scanBatch:
  "(\<And>b n'. find_batch i s = Some b \<Longrightarrow> Q b s n') \<Longrightarrow> (find_batch i s = None \<Longrightarrow> \<forall>s n. E ErrNotFound s n) \<Longrightarrow>
    (\<And>s n. E ErrStorage s n) \<Longrightarrow> wp (scanBatch i) Q E w s n"
  by (auto simp: scanBatch_def wp_rules split: option.splits)

lemma wpi_movement [wpi]:
  "(\<And>i n'. Q () (s\<lparr>movements := movements s @ [new_movement c batch res kind p t i]\<rparr>) n') \<Longrightarrow>
    (\<And>s n. E ErrStorage s n) \<Longrightarrow> wp (movement c batch res kind p t) Q E w s n"
  by (simp add: movement_def wp_rules)

lemma wpi_saveBatch [wpi]:
  "(\<And>n'. Q () (s\<lparr>batches := update_where (\<lambda>x. b_ID x = b_ID b) (save_row b t) (batches s)\<rparr>) n') \<Longrightarrow>
    (\<And>s n. E ErrStorage s n) \<Longrightarrow> wp (saveBatch b t) Q E w s n"
  by (simp add: saveBatch_def wp_exec)

lemma wpi_insert_outbox [wpi]:
  "(\<And>rows n'. Q () (s\<lparr>outbox := rows\<rparr>) n') \<Longrightarrow> (\<And>s n. E ErrStorage s n) \<Longrightarrow>
    wp (insert_outbox i t d) Q E w s n"
  by (simp add: insert_outbox_def wp_rules)

lemma wpi_dropped_err [wpi]:
  "wp m (\<lambda>_ s' n'. Q () s' n') (\<lambda>_ s' n'. E db s' n') w s n \<Longrightarrow> wp (dropped_err db m) Q E w s n"
  by (simp add: wp_dropped_err)

definition new_waste :: "batch \<Rightarrow> int \<Rightarrow> waste_reason \<Rightarrow> string \<Rightarrow> string \<Rightarrow> time \<Rightarrow> string \<Rightarrow> waste_row" where
  "new_waste b n reason note actor t i = waste_record.extend
     \<lparr>w_ID = i, w_BatchID = b_ID b, w_FlavorID = b_FlavorID b, w_Portions = n,
      w_Reason = reason, w_Note = note, w_CostLost = i64 (b_UnitCost b * n),
      w_Currency = ''THB'', w_RecordedAt = t\<rparr>
     (waste_row.fields (if actor \<noteq> '''' then Some actor else None))"

lemma new_waste_simps [simp]:
  "w_BatchID (new_waste b n reason note actor t i) = b_ID b"
  "w_Portions (new_waste b n reason note actor t i) = n"
  "w_CostLost (new_waste b n reason note actor t i) = i64 (b_UnitCost b * n)"
  by (simp_all add: new_waste_def waste_record.extend_def)

lemma wpi_recordWaste:
  assumes "\<And>x i j rows n'. Q x (s\<lparr>wastes := wastes s @ [new_waste b p reason note actor t i],
      movements := movements s @ [new_movement c (b_ID b) res MWasted p t j], outbox := rows\<rparr>) n'"
    and "\<And>s n. E ErrStorage s n"
  shows "wp (recordWaste c b p reason note actor res t) Q E w s n"
  unfolding recordWaste_def insert_waste_def Let_def
  using assms
  by (auto simp: wp_rules movement_def insert_outbox_def new_waste_def)

lemma history_append [simp]:
  "history_available (s\<lparr>movements := movements s @ [m]\<rparr>) j =
     history_available s j + (if mv_BatchID m = j then signed_portions m else 0)"
  "history_wasted (s\<lparr>movements := movements s @ [m]\<rparr>) j =
     history_wasted s j + (if mv_BatchID m = j \<and> mv_Kind m = MWasted then mv_Portions m else 0)"
  "waste_total (s\<lparr>wastes := wastes s @ [x]\<rparr>) j =
     waste_total s j + (if w_BatchID x = j then w_Portions x else 0)"
  by (simp_all add: history_available_def history_wasted_def waste_total_def)

lemma history_frame [simp]:
  "history_available (s\<lparr>batches := bs\<rparr>) j = history_available s j"
  "history_wasted (s\<lparr>batches := bs\<rparr>) j = history_wasted s j"
  "waste_total (s\<lparr>batches := bs\<rparr>) j = waste_total s j"
  "history_available (s\<lparr>outbox := ob\<rparr>) j = history_available s j"
  "history_wasted (s\<lparr>outbox := ob\<rparr>) j = history_wasted s j"
  "waste_total (s\<lparr>outbox := ob\<rparr>) j = waste_total s j"
  "history_available (s\<lparr>wastes := ws\<rparr>) j = history_available s j"
  "history_wasted (s\<lparr>wastes := ws\<rparr>) j = history_wasted s j"
  "waste_total (s\<lparr>movements := ms\<rparr>) j = waste_total s j"
  "history_available (s\<lparr>allocations := al\<rparr>) j = history_available s j"
  "history_wasted (s\<lparr>allocations := al\<rparr>) j = history_wasted s j"
  "waste_total (s\<lparr>allocations := al\<rparr>) j = waste_total s j"
  "history_available (s\<lparr>reservations := rs\<rparr>) j = history_available s j"
  "history_wasted (s\<lparr>reservations := rs\<rparr>) j = history_wasted s j"
  "waste_total (s\<lparr>reservations := rs\<rparr>) j = waste_total s j"
  by (simp_all add: history_available_def history_wasted_def waste_total_def)

lemma new_movement_simps [simp]:
  "mv_BatchID (new_movement c batch res kind n t i) = batch"
  "mv_Kind (new_movement c batch res kind n t i) = kind"
  "mv_Portions (new_movement c batch res kind n t i) = n"
  "mv_ReservationID (new_movement c batch res kind n t i) = (if res \<noteq> '''' then Some res else None)"
  by (simp_all add: new_movement_def)

lemma inv_offD:
  assumes "inv_off d e s"
  shows "wf_tables s"
    and "\<And>x. x \<in> set (batches s) \<Longrightarrow> wf_batch x"
    and "\<And>x. x \<in> set (batches s) \<Longrightarrow> ledger d e s x"
    and "\<forall>m\<in>set (movements s). mv_BatchID m \<in> b_ID ` set (batches s)"
    and "\<forall>y\<in>set (wastes s). w_BatchID y \<in> b_ID ` set (batches s) \<and> 0 \<le> w_CostLost y \<and> w_CostLost y \<le> MaxInt64"
  using assms by (simp_all add: inv_off_def wf_tables_def)

text \<open>The cost of the wasted portions of a batch fits in 64 bits.\<close>

lemma waste_cost_fits:
  assumes "wf_batch b" and "0 \<le> p" and "p \<le> b_Initial b"
  shows "i64 (b_UnitCost b * p) = b_UnitCost b * p"
    and "0 \<le> b_UnitCost b * p" and "b_UnitCost b * p \<le> MaxInt64"
proof -
  have "b_UnitCost b * b_Initial b \<le> MaxInt64"
    using assms(1) by (intro quot_guard_mult) (simp_all add: wf_batch_def)
  moreover have "b_UnitCost b * p \<le> b_UnitCost b * b_Initial b"
    using assms by (intro mult_left_mono) (simp_all add: wf_batch_def)
  ultimately show "b_UnitCost b * p \<le> MaxInt64" by linarith
  show "0 \<le> b_UnitCost b * p"
    using assms by (simp add: wf_batch_def)
  with \<open>b_UnitCost b * p \<le> MaxInt64\<close> show "i64 (b_UnitCost b * p) = b_UnitCost b * p"
    by (intro i64_id) simp_all
qed

section \<open>One allocation is settled\<close>

abbreviation storage_only :: "ierror \<Rightarrow> inv_db \<Rightarrow> nat \<Rightarrow> bool" where
  "storage_only \<equiv> (\<lambda>e _ _. e = ErrStorage)"

definition no_archived :: "inv_db \<Rightarrow> bool" where
  "no_archived db \<longleftrightarrow> (\<forall>b\<in>set (batches db). b_Status b \<noteq> BArchived)"

text \<open>What changing one batch leaves alone.\<close>

definition same_claims :: "inv_db \<Rightarrow> inv_db \<Rightarrow> bool" where
  "same_claims s s' \<longleftrightarrow> reservations s' = reservations s \<and> allocations s' = allocations s \<and>
     idempotency s' = idempotency s \<and> (no_archived s \<longrightarrow> no_archived s')"

lemma batchStatus_archived [simp]: "batchStatus b t = BArchived \<longleftrightarrow> b_Status b = BArchived"
  by (simp add: batchStatus_def)

text \<open>
  The two ways the code changes a batch: a movement and the new counters, or a waste record and
  the new counters. \<open>moves x b da dr ds dw\<close> says how the counters of \<open>b\<close> differ from those of
  the row \<open>x\<close>.
\<close>

definition moves :: "batch_row \<Rightarrow> batch \<Rightarrow> int \<Rightarrow> int \<Rightarrow> int \<Rightarrow> int \<Rightarrow> bool" where
  "moves x b da dr ds dw \<longleftrightarrow> b_ID b = b_ID x \<and> b_UnitCost b = b_UnitCost x \<and>
     b_Status b = b_Status x \<and>
     b_Available b = b_Available x + da \<and> b_Reserved b = b_Reserved x + dr \<and>
     b_Sold b = b_Sold x + ds \<and> b_Wasted b = b_Wasted x + dw \<and> da + dr + ds + dw = 0 \<and>
     0 \<le> b_Available b \<and> 0 \<le> b_Reserved b \<and> 0 \<le> b_Sold b \<and> 0 \<le> b_Wasted b"

lemma wp_move_save:
  assumes inv: "inv_off d e s" and x: "x \<in> set (batches s)" and mv: "moves x b da dr ds 0"
    and kind: "kind \<noteq> MWasted" "\<And>i. signed_portions (new_movement c (b_ID x) res kind p t i) = da"
    and Q: "\<And>s' n'. inv_off (d(b_ID x := d (b_ID x) - dr)) (e(b_ID x := e (b_ID x) + ds)) s' \<Longrightarrow>
        same_claims s s' \<Longrightarrow> Q () s' n'"
    and E: "\<And>s n. E ErrStorage s n"
  shows "wp (movement c (b_ID x) res kind p t) (\<lambda>_ s' n'. wp (saveBatch b t) Q E w s' n') E w s n"
proof (intro wpi_movement wpi_saveBatch E)
  fix i n' n''
  let ?s = "s\<lparr>movements := movements s @ [new_movement c (b_ID x) res kind p t i]\<rparr>"
  let ?t = "?s\<lparr>batches := update_where (\<lambda>x. b_ID x = b_ID b) (save_row b t) (batches ?s)\<rparr>"
  have "inv_off (d(b_ID x := d (b_ID x) - dr)) (e(b_ID x := e (b_ID x) + ds)) ?t"
    by (rule inv_off_move [OF inv x, where b = b and t = t and da = da and dw = 0])
       (use x mv kind inv_offD(4,5) [OF inv] in \<open>auto simp: moves_def\<close>)
  then show "Q () ?t n''"
    by (rule Q) (use mv x in \<open>auto simp: same_claims_def moves_def no_archived_def set_update_where\<close>)
qed

lemma wp_waste_save:
  assumes inv: "inv_off d e s" and x: "x \<in> set (batches s)" and mv: "moves x b da dr ds p"
    and p: "0 \<le> p" and da: "da = (if res = [] then - p else 0)"
    and Q: "\<And>r s' n'. inv_off (d(b_ID x := d (b_ID x) - dr)) (e(b_ID x := e (b_ID x) + ds)) s' \<Longrightarrow>
        same_claims s s' \<Longrightarrow> Q r () s' n'"
    and E: "\<And>s n. E ErrStorage s n"
  shows "wp (recordWaste c b p reason note actor res t)
    (\<lambda>r s' n'. wp (saveBatch b t) (Q r) E w s' n') E w s n"
proof (intro wpi_recordWaste wpi_saveBatch E)
  fix r i j rows n' n''
  note wfx = inv_offD(2) [OF inv x]
  have le: "p \<le> b_Initial x"
    using wfx mv by (auto simp: moves_def wf_batch_def)
  have cost: "0 \<le> i64 (b_UnitCost b * p) \<and> i64 (b_UnitCost b * p) \<le> MaxInt64"
    using mv waste_cost_fits [OF wfx p le] by (auto simp: moves_def)
  let ?s = "s\<lparr>wastes := wastes s @ [new_waste b p reason note actor t i],
      movements := movements s @ [new_movement c (b_ID b) res MWasted p t j], outbox := rows\<rparr>"
  let ?t = "?s\<lparr>batches := update_where (\<lambda>x. b_ID x = b_ID b) (save_row b t) (batches ?s)\<rparr>"
  have "inv_off (d(b_ID x := d (b_ID x) - dr)) (e(b_ID x := e (b_ID x) + ds)) ?t"
    by (rule inv_off_move [OF inv x, where b = b and t = t and da = da and dw = p])
       (use x mv cost da inv_offD(4,5) [OF inv] in
          \<open>auto simp: moves_def signed_portions_def history_available_def history_wasted_def waste_total_def\<close>)
  then show "Q r () ?t n''"
    by (rule Q) (use mv x in \<open>auto simp: same_claims_def moves_def no_archived_def set_update_where\<close>)
qed

lemma wp_settle_release:
  assumes inv: "inv_off d e s" and x: "x \<in> set (batches s)" "b_ID x = al_BatchID a"
    and p: "0 < al_Portions a" "al_Portions a \<le> b_Reserved x" and rid: "rid \<noteq> []"
    and Q: "\<And>s' n'. inv_off (d(al_BatchID a := d (al_BatchID a) + al_Portions a)) e s' \<Longrightarrow>
      same_claims s s' \<Longrightarrow> Q () s' n'"
    and E: "\<And>s n. E ErrStorage s n"
  shows "wp (settle_allocation c False rid t a) Q E w s n"
proof -
  note wf = inv_offD(1) [OF inv] and wfx = inv_offD(2) [OF inv x(1)]
  have find: "find_batch (al_BatchID a) s = Some (scan_row x)"
    using find_batch_row [OF wf x(1)] x(2) by simp
  let ?w = "(scan_row x)\<lparr>b_Reserved := b_Reserved x - al_Portions a, b_Wasted := b_Wasted x + al_Portions a\<rparr>"
  let ?r = "(scan_row x)\<lparr>b_Reserved := b_Reserved x - al_Portions a, b_Available := b_Available x + al_Portions a\<rparr>"
  have w: "moves x ?w 0 (- al_Portions a) 0 (al_Portions a)"
    and r: "moves x ?r (al_Portions a) (- al_Portions a) 0 0"
    using wfx p by (simp_all add: moves_def wf_batch_def)
  have "wp (recordWaste c ?w (al_Portions a) WExpired nt [] rid t)
      (\<lambda>_ s' n'. wp (saveBatch ?w t) Q E w s' n') E w s n'" for nt n'
    by (rule wp_waste_save [OF inv x(1) w]) (use p rid Q x E in auto)
  moreover have "wp (movement c (b_ID x) rid MReleased (al_Portions a) t)
      (\<lambda>_ s' n'. wp (saveBatch ?r t) Q E w s' n') E w s n'" for n'
    by (rule wp_move_save [OF inv x(1) r]) (use Q x E in \<open>auto simp: signed_portions_def\<close>)
  ultimately show ?thesis
    using p E
    by (simp add: settle_allocation_def scanBatch_def wp_rules find Let_def)
qed

lemma wp_settle_confirm:
  assumes inv: "inv_off d e s" and x: "x \<in> set (batches s)" "b_ID x = al_BatchID a"
    and p: "0 < al_Portions a" "al_Portions a \<le> b_Reserved x"
    and Q: "\<And>s' n'. inv_off (d(al_BatchID a := d (al_BatchID a) + al_Portions a))
        (e(al_BatchID a := e (al_BatchID a) + al_Portions a)) s' \<Longrightarrow> same_claims s s' \<Longrightarrow> Q () s' n'"
    and E: "\<And>s n. E ErrStorage s n"
    and bad: "\<not> (b_ExpiresAt x > t) \<or> b_Status x = BArchived \<Longrightarrow> \<forall>s n. E ErrState s n"
  shows "wp (settle_allocation c True rid t a) Q E w s n"
proof -
  note wf = inv_offD(1) [OF inv] and wfx = inv_offD(2) [OF inv x(1)]
  have find: "find_batch (al_BatchID a) s = Some (scan_row x)"
    using find_batch_row [OF wf x(1)] x(2) by simp
  let ?b = "(scan_row x)\<lparr>b_Reserved := b_Reserved x - al_Portions a, b_Sold := b_Sold x + al_Portions a\<rparr>"
  have b: "moves x ?b 0 (- al_Portions a) (al_Portions a) 0"
    using wfx p by (simp add: moves_def wf_batch_def)
  have "wp (movement c (b_ID x) rid MConfirmed (al_Portions a) t)
      (\<lambda>_ s' n'. wp (saveBatch ?b t) Q E w s' n') E w s n'" for n'
    by (rule wp_move_save [OF inv x(1) b]) (use Q x E in \<open>auto simp: signed_portions_def\<close>)
  then show ?thesis
    using p E bad
    by (auto simp: settle_allocation_def scanBatch_def wp_rules find Let_def)
qed

lemma wp_return_allocation:
  assumes inv: "inv_off d e s" and x: "x \<in> set (batches s)" "b_ID x = al_BatchID a"
    and p: "0 < al_Portions a" "al_Portions a \<le> b_Sold x" and rid: "rid \<noteq> []"
    and Q: "\<And>s' n'. inv_off d (e(al_BatchID a := e (al_BatchID a) - al_Portions a)) s' \<Longrightarrow>
      same_claims s s' \<Longrightarrow> Q () s' n'"
    and E: "\<And>s n. E ErrStorage s n"
  shows "wp (return_allocation c rid t a) Q E w s n"
proof -
  note wf = inv_offD(1) [OF inv] and wfx = inv_offD(2) [OF inv x(1)]
  have find: "find_batch (al_BatchID a) s = Some (scan_row x)"
    using find_batch_row [OF wf x(1)] x(2) by simp
  let ?w = "(scan_row x)\<lparr>b_Sold := b_Sold x - al_Portions a, b_Wasted := b_Wasted x + al_Portions a\<rparr>"
  let ?r = "(scan_row x)\<lparr>b_Sold := b_Sold x - al_Portions a, b_Available := b_Available x + al_Portions a\<rparr>"
  have w: "moves x ?w 0 0 (- al_Portions a) (al_Portions a)"
    and r: "moves x ?r (al_Portions a) 0 (- al_Portions a) 0"
    using wfx p by (simp_all add: moves_def wf_batch_def)
  have "wp (recordWaste c ?w (al_Portions a) WExpired nt [] rid t)
      (\<lambda>_ s' n'. wp (saveBatch ?w t) Q E w s' n') E w s n'" for nt n'
    by (rule wp_waste_save [OF inv x(1) w]) (use p rid Q x E in auto)
  moreover have "wp (movement c (b_ID x) rid MReturned (al_Portions a) t)
      (\<lambda>_ s' n'. wp (saveBatch ?r t) Q E w s' n') E w s n'" for n'
    by (rule wp_move_save [OF inv x(1) r]) (use Q x E in \<open>auto simp: signed_portions_def\<close>)
  ultimately show ?thesis
    using p E
    by (simp add: return_allocation_def scanBatch_def wp_rules find Let_def)
qed

section \<open>The allocations of a reservation\<close>

definition alloc_sum :: "allocation list \<Rightarrow> string \<Rightarrow> int" where
  "alloc_sum as i = sum_where (\<lambda>a. al_BatchID a = i) al_Portions as"

lemma alloc_sum_simps [simp]:
  "alloc_sum [] i = 0"
  "alloc_sum (a # as) i = (if al_BatchID a = i then al_Portions a else 0) + alloc_sum as i"
  by (simp_all add: alloc_sum_def)

lemma alloc_sum_load:
  "alloc_sum (load_allocations rid s) i =
    sum_where (\<lambda>a. ar_ReservationID a = rid \<and> ar_BatchID a = i) ar_Portions (allocations s)"
proof -
  let ?as = "filter (\<lambda>a. ar_ReservationID a = rid) (allocations s)"
  have "alloc_sum (load_allocations rid s) i =
      sum_where (\<lambda>a. ar_BatchID a = i) ar_Portions (sort_key ar_Position ?as)"
    by (simp add: alloc_sum_def load_allocations_def sum_where_map comp_def)
  also have "\<dots> = sum_where (\<lambda>a. ar_BatchID a = i) ar_Portions ?as"
    by (intro sum_where_mset) simp
  finally show ?thesis by (simp add: sum_where_filter)
qed

lemma load_allocations_wf:
  assumes "wf_tables s" and "a \<in> set (load_allocations rid s)" and "r \<in> set (reservations s)"
    and "rr_ID r = rid"
  shows "0 < al_Portions a" and "\<exists>x\<in>set (batches s). b_ID x = al_BatchID a \<and> rr_ExpiresAt r \<le> b_ExpiresAt x"
proof -
  from assms(2) obtain y where y: "y \<in> set (allocations s)" "ar_ReservationID y = rid"
    "al_Portions a = ar_Portions y" "al_BatchID a = ar_BatchID y"
    by (auto simp: load_allocations_def)
  from assms(1) y(1) have "wf_allocation s y" by (simp add: wf_tables_def)
  then obtain r' x where "r' \<in> set (reservations s)" "rr_ID r' = rid" "0 < ar_Portions y"
    "x \<in> set (batches s)" "b_ID x = ar_BatchID y" "rr_ExpiresAt r' \<le> b_ExpiresAt x"
    using y(2) by (auto simp: wf_allocation_def)
  moreover have "r' = r"
    using assms calculation(1,2) by (auto simp: wf_tables_def dest: distinct_key_eq)
  ultimately show "0 < al_Portions a"
    and "\<exists>x\<in>set (batches s). b_ID x = al_BatchID a \<and> rr_ExpiresAt r \<le> b_ExpiresAt x"
    using y by auto
qed

lemma held_ge_alloc_sum:
  assumes "wf_tables s" and "status_of s rid = Some st"
  shows "alloc_sum (load_allocations rid s) i \<le> held s st i"
  unfolding alloc_sum_load held_def
  using assms by (intro sum_where_mono_pred) (auto simp: wf_tables_def wf_allocation_def)

lemma alloc_sum_suffix_nonneg:
  "suffix ys as \<Longrightarrow> (\<And>a. a \<in> set as \<Longrightarrow> 0 < al_Portions a) \<Longrightarrow> 0 \<le> alloc_sum ys i"
  unfolding alloc_sum_def
  by (intro sum_where_nonneg) (auto dest!: set_mono_suffix intro!: less_imp_le)

lemma status_of_row:
  "wf_tables s \<Longrightarrow> r \<in> set (reservations s) \<Longrightarrow> status_of s (rr_ID r) = Some (rr_Status r)"
  by (simp add: status_of_def wf_tables_def find_unique)

lemma same_claims_refl: "same_claims s s"
  by (simp add: same_claims_def)

lemma same_claims_trans: "same_claims s t \<Longrightarrow> same_claims t u \<Longrightarrow> same_claims s u"
  by (simp add: same_claims_def)

lemma same_claims_simps:
  assumes "same_claims s s'"
  shows "load_allocations i s' = load_allocations i s" "status_of s' i = status_of s i"
    "held s' st i = held s st i" "reservations s' = reservations s" "idempotency s' = idempotency s"
  using assms by (simp_all add: same_claims_def load_allocations_def status_of_def held_def)

text \<open>
  The loop over the allocations, for release and confirmation and for return: the counter that
  is drawn down is always large enough.
\<close>

lemma remaining:
  assumes wf: "wf_tables s" and r: "r \<in> set (reservations s)"
    and as_def: "as = load_allocations (rr_ID r) s"
    and "suffix (a # ys) as" and "same_claims s s'" and "wf_tables s'"
  obtains x where "x \<in> set (batches s')" "b_ID x = al_BatchID a" "rr_ExpiresAt r \<le> b_ExpiresAt x"
    "0 < al_Portions a" "al_Portions a \<le> alloc_sum (a # ys) (al_BatchID a)"
    "alloc_sum (a # ys) (al_BatchID a) \<le> alloc_sum as (al_BatchID a)"
    "alloc_sum as (al_BatchID a) \<le> held s' (rr_Status r) (al_BatchID a)"
proof -
  note assms = assms(4-)
  note sc = same_claims_simps [OF assms(2)]
  have r': "r \<in> set (reservations s')" using r sc(4) by simp
  have pos: "0 < al_Portions b" if "b \<in> set as" for b
    using load_allocations_wf(1) [OF wf _ r refl] that as_def by simp
  have a: "a \<in> set as" using assms(1) by (auto dest: set_mono_suffix)
  then obtain x where x: "x \<in> set (batches s')" "b_ID x = al_BatchID a" "rr_ExpiresAt r \<le> b_ExpiresAt x"
    using load_allocations_wf(2) [OF assms(3) _ r' refl] as_def sc(1) by auto
  have "suffix ys as" using assms(1) by (rule suffix_ConsD)
  then have ge: "0 \<le> alloc_sum ys (al_BatchID a)" using pos by (rule alloc_sum_suffix_nonneg)
  obtain zs where zs: "as = zs @ a # ys" using assms(1) by (auto simp: suffix_def)
  have "0 \<le> alloc_sum zs (al_BatchID a)"
    unfolding alloc_sum_def using pos zs by (intro sum_where_nonneg) (auto simp: less_imp_le)
  then have le: "alloc_sum (a # ys) (al_BatchID a) \<le> alloc_sum as (al_BatchID a)"
    by (simp add: zs alloc_sum_def)
  have held: "alloc_sum as (al_BatchID a) \<le> held s' (rr_Status r) (al_BatchID a)"
    using held_ge_alloc_sum [OF wf status_of_row [OF wf r]] as_def sc(3) by simp
  show ?thesis
    using that [OF x pos [OF a] _ le held] ge by simp
qed

lemma wp_settle_loop:
  fixes kd ke :: int
  assumes inv: "inv_off no_off no_off s" and r: "r \<in> set (reservations s)"
    and as: "as = load_allocations (rr_ID r) s"
    and step: "\<And>a ys s' x n' Q d e. inv_off d e s' \<Longrightarrow> same_claims s s' \<Longrightarrow>
      d = (\<lambda>i. kd * (alloc_sum as i - alloc_sum (a # ys) i)) \<Longrightarrow>
      e = (\<lambda>i. ke * (alloc_sum as i - alloc_sum (a # ys) i)) \<Longrightarrow>
      x \<in> set (batches s') \<Longrightarrow> b_ID x = al_BatchID a \<Longrightarrow> rr_ExpiresAt r \<le> b_ExpiresAt x \<Longrightarrow>
      0 < al_Portions a \<Longrightarrow>
      al_Portions a + (alloc_sum as (b_ID x) - alloc_sum (a # ys) (b_ID x)) \<le> held s' (rr_Status r) (b_ID x) \<Longrightarrow>
      (\<And>s'' n''. inv_off (d(al_BatchID a := d (al_BatchID a) + kd * al_Portions a))
          (e(al_BatchID a := e (al_BatchID a) + ke * al_Portions a)) s'' \<Longrightarrow>
        same_claims s' s'' \<Longrightarrow> Q () s'' n'') \<Longrightarrow> wp (f a) Q E w s' n'"
    and Q: "\<And>s' n'. inv_off (\<lambda>i. kd * alloc_sum as i) (\<lambda>i. ke * alloc_sum as i) s' \<Longrightarrow>
      same_claims s s' \<Longrightarrow> Q () s' n'"
  shows "wp (forT as f) Q E w s n"
proof (rule wp_forT [where I = "\<lambda>ys s' _. inv_off (\<lambda>i. kd * (alloc_sum as i - alloc_sum ys i))
    (\<lambda>i. ke * (alloc_sum as i - alloc_sum ys i)) s' \<and> same_claims s s'"])
  show "inv_off (\<lambda>i. kd * (alloc_sum as i - alloc_sum as i)) (\<lambda>i. ke * (alloc_sum as i - alloc_sum as i)) s
      \<and> same_claims s s"
    using inv by (simp add: same_claims_refl)
next
  fix a ys s' n'
  let ?d = "\<lambda>k i. k * (alloc_sum as i - alloc_sum (a # ys) i) :: int"
  assume sfx: "suffix (a # ys) as" and "inv_off (?d kd) (?d ke) s' \<and> same_claims s s'"
  then have I: "inv_off (?d kd) (?d ke) s'" and sc: "same_claims s s'" by auto
  obtain x where x: "x \<in> set (batches s')" "b_ID x = al_BatchID a" "rr_ExpiresAt r \<le> b_ExpiresAt x"
    and le: "0 < al_Portions a" "al_Portions a \<le> alloc_sum (a # ys) (al_BatchID a)"
    "alloc_sum as (al_BatchID a) \<le> held s' (rr_Status r) (al_BatchID a)"
    using remaining [OF inv_offD(1) [OF inv] r as sfx sc inv_offD(1) [OF I]] by metis
  have upd: "(?d k)(al_BatchID a := ?d k (al_BatchID a) + k * al_Portions a) =
      (\<lambda>i. k * (alloc_sum as i - alloc_sum ys i))" for k
    by (auto simp: algebra_simps)
  show "wp (f a) (\<lambda>_ s' n'. inv_off (\<lambda>i. kd * (alloc_sum as i - alloc_sum ys i))
      (\<lambda>i. ke * (alloc_sum as i - alloc_sum ys i)) s' \<and> same_claims s s') E w s' n'"
  proof (rule step [OF I sc refl refl x le(1)])
    show "al_Portions a + (alloc_sum as (b_ID x) - alloc_sum (a # ys) (b_ID x)) \<le> held s' (rr_Status r) (b_ID x)"
      using le by (simp add: x(2))
  qed (simp_all only: upd, auto intro: same_claims_trans [OF sc])
qed (auto intro: Q)

lemma wp_release_loop:
  assumes inv: "inv_off no_off no_off s" and r: "r \<in> set (reservations s)"
    and as: "as = load_allocations (rr_ID r) s" and act: "rr_Status r = RActive" and rid: "rr_ID r \<noteq> []"
    and Q: "\<And>s' n'. inv_off (alloc_sum as) no_off s' \<Longrightarrow> same_claims s s' \<Longrightarrow> Q () s' n'"
    and E: "\<And>s n. E ErrStorage s n"
  shows "wp (forT as (settle_allocation c False (rr_ID r) t)) Q E w s n"
proof (rule wp_settle_loop [OF inv r as, where kd = 1 and ke = 0])
  fix a ys s' x n' d e and Q :: "unit \<Rightarrow> inv_db \<Rightarrow> nat \<Rightarrow> bool"
  assume I: "inv_off d e s'" and x: "x \<in> set (batches s')" "b_ID x = al_BatchID a" and p: "0 < al_Portions a"
    and d: "d = (\<lambda>i. 1 * (alloc_sum as i - alloc_sum (a # ys) i))"
    and le: "al_Portions a + (alloc_sum as (b_ID x) - alloc_sum (a # ys) (b_ID x)) \<le> held s' (rr_Status r) (b_ID x)"
    and Q: "\<And>s'' n''. inv_off (d(al_BatchID a := d (al_BatchID a) + 1 * al_Portions a))
          (e(al_BatchID a := e (al_BatchID a) + 0 * al_Portions a)) s'' \<Longrightarrow> same_claims s' s'' \<Longrightarrow> Q () s'' n''"
  have "al_Portions a \<le> b_Reserved x"
    using inv_offD(3) [OF I x(1)] d le act by (simp add: ledger_def)
  then show "wp (settle_allocation c False (rr_ID r) t a) Q E w s' n'"
    using Q by (intro wp_settle_release [OF I x p _ rid] E) simp_all
qed (use Q in simp)

lemma wp_confirm_loop:
  assumes inv: "inv_off no_off no_off s" and r: "r \<in> set (reservations s)"
    and as: "as = load_allocations (rr_ID r) s" and act: "rr_Status r = RActive" and t: "t < rr_ExpiresAt r"
    and Q: "\<And>s' n'. inv_off (alloc_sum as) (alloc_sum as) s' \<Longrightarrow> same_claims s s' \<Longrightarrow> Q () s' n'"
    and E: "\<And>s n. E ErrStorage s n" "\<not> no_archived s \<Longrightarrow> \<forall>s n. E ErrState s n"
  shows "wp (forT as (settle_allocation c True (rr_ID r) t)) Q E w s n"
proof (rule wp_settle_loop [OF inv r as, where kd = 1 and ke = 1])
  fix a ys s' x n' d e and Q :: "unit \<Rightarrow> inv_db \<Rightarrow> nat \<Rightarrow> bool"
  assume I: "inv_off d e s'" and x: "x \<in> set (batches s')" "b_ID x = al_BatchID a" and p: "0 < al_Portions a"
    and d: "d = (\<lambda>i. 1 * (alloc_sum as i - alloc_sum (a # ys) i))" and sc: "same_claims s s'"
    and exp: "rr_ExpiresAt r \<le> b_ExpiresAt x"
    and le: "al_Portions a + (alloc_sum as (b_ID x) - alloc_sum (a # ys) (b_ID x)) \<le> held s' (rr_Status r) (b_ID x)"
    and Q: "\<And>s'' n''. inv_off (d(al_BatchID a := d (al_BatchID a) + 1 * al_Portions a))
          (e(al_BatchID a := e (al_BatchID a) + 1 * al_Portions a)) s'' \<Longrightarrow> same_claims s' s'' \<Longrightarrow> Q () s'' n''"
  have "al_Portions a \<le> b_Reserved x"
    using inv_offD(3) [OF I x(1)] d le act by (simp add: ledger_def)
  moreover have "\<forall>s n. E ErrState s n" if "\<not> (b_ExpiresAt x > t) \<or> b_Status x = BArchived"
    using that exp t sc x(1) E(2) by (auto simp: same_claims_def no_archived_def)
  ultimately show "wp (settle_allocation c True (rr_ID r) t a) Q E w s' n'"
    using Q by (intro wp_settle_confirm [OF I x p] E(1)) simp_all
qed (use Q in simp)

lemma wp_return_loop:
  assumes inv: "inv_off no_off no_off s" and r: "r \<in> set (reservations s)"
    and as: "as = load_allocations (rr_ID r) s" and act: "rr_Status r = RConfirmed" and rid: "rr_ID r \<noteq> []"
    and Q: "\<And>s' n'. inv_off no_off (\<lambda>i. - alloc_sum as i) s' \<Longrightarrow> same_claims s s' \<Longrightarrow> Q () s' n'"
    and E: "\<And>s n. E ErrStorage s n"
  shows "wp (forT as (return_allocation c (rr_ID r) t)) Q E w s n"
proof (rule wp_settle_loop [OF inv r as, where kd = 0 and ke = "-1"])
  fix a ys s' x n' d e and Q :: "unit \<Rightarrow> inv_db \<Rightarrow> nat \<Rightarrow> bool"
  assume I: "inv_off d e s'" and x: "x \<in> set (batches s')" "b_ID x = al_BatchID a" and p: "0 < al_Portions a"
    and e: "e = (\<lambda>i. - 1 * (alloc_sum as i - alloc_sum (a # ys) i))"
    and le: "al_Portions a + (alloc_sum as (b_ID x) - alloc_sum (a # ys) (b_ID x)) \<le> held s' (rr_Status r) (b_ID x)"
    and Q: "\<And>s'' n''. inv_off (d(al_BatchID a := d (al_BatchID a) + 0 * al_Portions a))
          (e(al_BatchID a := e (al_BatchID a) + - 1 * al_Portions a)) s'' \<Longrightarrow> same_claims s' s'' \<Longrightarrow> Q () s'' n''"
  have "al_Portions a \<le> b_Sold x"
    using inv_offD(3) [OF I x(1)] e le act by (simp add: ledger_def)
  then show "wp (return_allocation c (rr_ID r) t a) Q E w s' n'"
    using Q by (intro wp_return_allocation [OF I x p _ rid] E) simp_all
qed (use Q in simp)

section \<open>The status of a reservation\<close>

definition status_change :: "string \<Rightarrow> res_status \<Rightarrow> time \<Rightarrow> string \<Rightarrow> inv_db \<Rightarrow> inv_db" where
  "status_change rid st t reason s = s\<lparr>reservations := update_where (\<lambda>r. rr_ID r = rid)
     (\<lambda>r. r\<lparr>rr_Status := st, rr_UpdatedAt := t, rr_ReleaseReason := reason\<rparr>) (reservations s)\<rparr>"

lemma status_of_change:
  assumes "status_of s rid = Some old"
  shows "status_of (status_change rid st t reason s) j = (if j = rid then Some st else status_of s j)"
proof -
  have aux: "map_option rr_Status (find (\<lambda>r. rr_ID r = j) (update_where (\<lambda>r. rr_ID r = rid)
      (\<lambda>r. r\<lparr>rr_Status := st, rr_UpdatedAt := t, rr_ReleaseReason := reason\<rparr>) rs)) =
    (if j = rid \<and> find (\<lambda>r. rr_ID r = rid) rs \<noteq> None then Some st
     else map_option rr_Status (find (\<lambda>r. rr_ID r = j) rs))" for rs
    by (induction rs) auto
  show ?thesis
    using assms by (auto simp: status_of_def status_change_def aux)
qed

lemma held_status_change:
  assumes "status_of s rid = Some old"
  shows "held (status_change rid st t reason s) st' i = held s st' i
    - (if st' = old then alloc_sum (load_allocations rid s) i else 0)
    + (if st' = st then alloc_sum (load_allocations rid s) i else 0)"
proof -
  have al: "allocations (status_change rid st t reason s) = allocations s"
    by (simp add: status_change_def)
  have "sum_where (\<lambda>a. ar_BatchID a = i \<and> (if ar_ReservationID a = rid then Some st
        else status_of s (ar_ReservationID a)) = Some st') ar_Portions as =
      sum_where (\<lambda>a. ar_BatchID a = i \<and> status_of s (ar_ReservationID a) = Some st') ar_Portions as
      - (if st' = old then sum_where (\<lambda>a. ar_ReservationID a = rid \<and> ar_BatchID a = i) ar_Portions as else 0)
      + (if st' = st then sum_where (\<lambda>a. ar_ReservationID a = rid \<and> ar_BatchID a = i) ar_Portions as else 0)" for as
    using assms by (induction as) auto
  then show ?thesis
    unfolding held_def al alloc_sum_load status_of_change [OF assms] by blast
qed

lemma wf_tables_status_change:
  assumes "wf_tables s" shows "wf_tables (status_change rid st t reason s)"
proof -
  let ?s = "status_change rid st t reason s"
  have "map rr_ID (reservations ?s) = map rr_ID (reservations s)"
    "map rr_OrderID (reservations ?s) = map rr_OrderID (reservations s)"
    by (simp_all add: status_change_def map_update_where)
  moreover have "wf_allocation ?s a" if "wf_allocation s a" for a
  proof -
    from that obtain r b where r: "r \<in> set (reservations s)" "rr_ID r = ar_ReservationID a"
      and b: "b \<in> set (batches s)" "b_ID b = ar_BatchID a" "b_FlavorID b = ar_FlavorID a"
      and le: "rr_ExpiresAt r \<le> b_ExpiresAt b" "0 < ar_Portions a"
      by (auto simp: wf_allocation_def)
    define r' where "r' = (if rr_ID r = rid then r\<lparr>rr_Status := st, rr_UpdatedAt := t, rr_ReleaseReason := reason\<rparr> else r)"
    have "r' \<in> set (reservations ?s)"
      using r(1) by (auto simp: status_change_def set_update_where r'_def)
    moreover have "rr_ID r' = ar_ReservationID a" "rr_ExpiresAt r' \<le> b_ExpiresAt b"
      using r(2) le(1) by (simp_all add: r'_def)
    moreover have "b \<in> set (batches ?s)" using b(1) by (simp add: status_change_def)
    ultimately show ?thesis
      using b(2,3) le(2) unfolding wf_allocation_def by blast
  qed
  ultimately show ?thesis
    using assms by (auto simp: wf_tables_def status_change_def set_update_where)
qed

lemma inv_off_status_change:
  assumes inv: "inv_off d e s" and st: "status_of s rid = Some old" "old \<noteq> st"
    and as: "as = load_allocations rid s"
    and d: "d' = (\<lambda>i. d i - (if old = RActive then alloc_sum as i else 0) + (if st = RActive then alloc_sum as i else 0))"
    and e: "e' = (\<lambda>i. e i + (if old = RConfirmed then alloc_sum as i else 0) - (if st = RConfirmed then alloc_sum as i else 0))"
  shows "inv_off d' e' (status_change rid st t reason s)"
proof -
  let ?s = "status_change rid st t reason s"
  have b: "batches ?s = batches s" by (simp add: status_change_def)
  have "ledger d' e' ?s x" if "x \<in> set (batches s)" for x
    using inv_offD(3) [OF inv that] st(2)
    unfolding ledger_def held_status_change [OF st(1)] d e as
    by (auto simp: status_change_def)
  then show ?thesis
    using inv by (simp add: inv_off_def wf_tables_status_change b)
qed

end
