(* ===== verification/Inventory_Settle.thy ===== *)
theory Inventory_Settle
  imports Inventory_Safety
begin

text \<open>
  The transactions of the inventory service as a whole: what each of them does to the status of
  a reservation, which errors it can end with, and that it keeps the invariant.
\<close>

section \<open>Alerts do not touch the stock\<close>

lemma inv_view_set_low_stock [simp]: "inv_view (set_low_stock fl v s) = inv_view s"
  by (simp add: inv_view_def set_low_stock_def update_where_def batch.truncate_def comp_def
      cong: map_cong)

lemma inv_view_outbox [simp]: "inv_view (s\<lparr>outbox := rows\<rparr>) = inv_view s"
  by (simp add: inv_view_def)

lemma inv_view_idem [simp]: "inv_view (s\<lparr>idempotency := rows\<rparr>) = inv_view s"
  by (simp add: inv_view_def)

text \<open>A change of the alert columns or the outbox only.\<close>

definition unseen :: "inv_db \<Rightarrow> inv_db \<Rightarrow> bool" where
  "unseen s s' \<longleftrightarrow> inv_view s' = inv_view s \<and> idempotency s' = idempotency s"

lemma unseen_intros [simp]:
  "unseen s s" "unseen s (set_low_stock fl v s)" "unseen s (s\<lparr>outbox := rows\<rparr>)"
  "unseen s ((set_low_stock fl v s)\<lparr>outbox := rows\<rparr>)"
  by (simp_all add: unseen_def) (simp_all add: set_low_stock_def)

lemma unseen_trans: "unseen s t \<Longrightarrow> unseen t u \<Longrightarrow> unseen s u"
  by (simp add: unseen_def)

lemma wpi_CheckAndNotifyLowStock [wpi]:
  "(\<And>b s' n'. unseen s s' \<Longrightarrow> Q b s' n') \<Longrightarrow> (\<And>s n. E ErrStorage s n) \<Longrightarrow>
    wp (CheckAndNotifyLowStock fl t) Q E w s n"
  by (auto simp: CheckAndNotifyLowStock_def insert_outbox_def wp_rules split: option.splits)

lemma wpi_ResetLowStockNotified [wpi]:
  "(\<And>s' n'. unseen s s' \<Longrightarrow> Q () s' n') \<Longrightarrow> (\<And>s n. E ErrStorage s n) \<Longrightarrow>
    wp (ResetLowStockNotified fl t) Q E w s n"
  by (auto simp: ResetLowStockNotified_def wp_rules)

lemma wpi_reset_all [wpi]:
  "(\<And>s' n'. unseen s s' \<Longrightarrow> Q () s' n') \<Longrightarrow> (\<And>s n. E ErrStorage s n) \<Longrightarrow>
    wp (forT ids (\<lambda>fid. dropped_err ErrStorage (ResetLowStockNotified fid t))) Q E w s n"
  by (rule wp_forT [where I = "\<lambda>_ s' _. unseen s s'"])
     (auto intro: unseen_trans intro!: wpi_dropped_err wpi_ResetLowStockNotified)

lemma wpi_check_all [wpi]:
  "(\<And>s' n'. unseen s s' \<Longrightarrow> Q () s' n') \<Longrightarrow> (\<And>s n. E ErrStorage s n) \<Longrightarrow>
    wp (forT xs (\<lambda>x. bindT (CheckAndNotifyLowStock (f x) t) (\<lambda>_. ret ()))) Q E w s n"
  by (rule wp_forT [where I = "\<lambda>_ s' _. unseen s s'"])
     (auto intro: unseen_trans intro!: wpi_bindT wpi_CheckAndNotifyLowStock wpi_ret)

lemma inv_view_same:
  assumes "inv_view s' = inv_view s"
  shows "reservations s' = reservations s" "allocations s' = allocations s"
    "status_of s' rid = status_of s rid" "load_allocations rid s' = load_allocations rid s"
    "movements s' = movements s" "wastes s' = wastes s" "held s' st i = held s st i"
  using assms by (simp_all add: inv_view_def status_of_def load_allocations_def held_def)

lemma inv_view_no_archived:
  assumes "inv_view s' = inv_view s" and "no_archived s"
  shows "no_archived s'"
proof -
  have "map b_Status (map scan_row (batches s')) = map b_Status (map scan_row (batches s))"
    using assms(1) by (simp only: inv_view_def prod.inject)
  then have "map b_Status (batches s') = map b_Status (batches s)"
    by (simp add: comp_def)
  then have "b_Status ` set (batches s') = b_Status ` set (batches s)"
    by (metis set_map)
  with assms(2) show ?thesis
    unfolding no_archived_def by (metis image_iff)
qed

lemma inv_ok_cong: "inv_view s' = inv_view s \<Longrightarrow> inv_ok s \<Longrightarrow> inv_ok s'"
  unfolding inv_ok_def by (rule inv_off_cong)

section \<open>Transitions of a reservation\<close>

text \<open>
  What a successful transition leaves behind: the reservation has the returned status, no other
  reservation changed, the stock invariant holds.
\<close>

definition settled :: "inv_db \<Rightarrow> inv_db \<Rightarrow> string \<Rightarrow> reservation \<Rightarrow> bool" where
  "settled s s' rid r \<longleftrightarrow> inv_ok s' \<and> r_ID r = rid \<and>
     (\<forall>j. status_of s' j = (if j = rid then Some (r_Status r) else status_of s j)) \<and>
     (\<exists>t reason. reservations s' = reservations (status_change rid (r_Status r) t reason s)) \<and>
     allocations s' = allocations s \<and>
     (no_archived s \<longrightarrow> no_archived s') \<and> idempotency s' = idempotency s"

text \<open>The reservation that a transition works on, if it belongs to the order.\<close>

definition owned :: "inv_db \<Rightarrow> string \<Rightarrow> string \<Rightarrow> reservation_row option" where
  "owned db rid oid = (case find (\<lambda>r. rr_ID r = rid) (reservations db) of
     Some r \<Rightarrow> if rr_OrderID r = oid then Some r else None | None \<Rightarrow> None)"

definition reservation_of :: "inv_db \<Rightarrow> reservation_row \<Rightarrow> reservation" where
  "reservation_of db r = \<lparr>r_ID = rr_ID r, r_OrderID = rr_OrderID r, r_Status = rr_Status r,
     r_Allocations = load_allocations (rr_ID r) db, r_CreatedAt = rr_CreatedAt r,
     r_ExpiresAt = rr_ExpiresAt r\<rparr>"

lemma ownedD:
  assumes "owned s rid oid = Some r"
  shows "r \<in> set (reservations s)" "rr_ID r = rid" "rr_OrderID r = oid"
    "find (\<lambda>r. rr_ID r = rid) (reservations s) = Some r"
  using assms by (auto simp: owned_def split: option.splits if_splits dest: find_SomeD)

lemma wp_set_status:
  "wp (set_status rid st t reason) Q E w s n =
    (if w_fails w n then E ErrStorage s (Suc n) else Q () (status_change rid st t reason s) (Suc n))"
  by (simp add: set_status_def status_change_def wp_exec)

text \<open>After the loop: the status is written and the alerts are reset.\<close>

lemma settled_finish:
  assumes inv: "inv_off d e s1" and sc: "same_claims s s1"
    and st: "status_of s rid = Some old" "old \<noteq> st"
    and d: "d = (\<lambda>i. (if old = RActive then alloc_sum (load_allocations rid s) i else 0)
              - (if st = RActive then alloc_sum (load_allocations rid s) i else 0))"
    and e: "e = (\<lambda>i. (if st = RConfirmed then alloc_sum (load_allocations rid s) i else 0)
              - (if old = RConfirmed then alloc_sum (load_allocations rid s) i else 0))"
    and un: "unseen (status_change rid st t reason s1) s2"
    and r: "r_ID r = rid" "r_Status r = st"
  shows "settled s s2 rid r"
proof -
  note sc' = same_claims_simps [OF sc]
  have view: "inv_view s2 = inv_view (status_change rid st t reason s1)" "idempotency s2 = idempotency s"
    using un sc'(5) by (simp_all add: unseen_def status_change_def)
  have st1: "status_of s1 rid = Some old" using st(1) sc'(2) by simp
  have "inv_off no_off no_off (status_change rid st t reason s1)"
    by (rule inv_off_status_change [OF inv st1 st(2) refl]) (auto simp: d e sc'(1) fun_eq_iff)
  then have "inv_ok s2"
    using inv_ok_cong [OF view(1)] by (simp add: inv_ok_def)
  moreover have "status_of s2 j = (if j = rid then Some st else status_of s j)" for j
    using inv_view_same(3) [OF view(1)] status_of_change [OF st1] sc'(2) by simp
  moreover have "no_archived s2" if "no_archived s"
  proof -
    have "no_archived (status_change rid st t reason s1)"
      using that sc by (simp add: same_claims_def no_archived_def status_change_def)
    then show ?thesis by (rule inv_view_no_archived [OF view(1)])
  qed
  moreover have "reservations s2 = reservations (status_change rid st t reason s)"
    "allocations s2 = allocations s"
    using inv_view_same(1,2) [OF view(1)] sc by (simp_all add: status_change_def same_claims_def)
  ultimately show ?thesis
    using r view(2) by (auto simp: settled_def)
qed

text \<open>Reading the reservation: the common prefix of \<open>transition\<close> and \<open>returnConfirmed\<close>.\<close>

lemma wpi_loadReservation:
  assumes "\<And>r n'. find (\<lambda>r. rr_ID r = rid) (reservations s) = Some r \<Longrightarrow> Q (reservation_of s r) s n'"
    and "find (\<lambda>r. rr_ID r = rid) (reservations s) = None \<Longrightarrow> \<forall>s n. E ErrNotFound s n"
    and "\<And>s n. E ErrStorage s n"
  shows "wp (loadReservation rid) Q E w s n"
proof (cases "find (\<lambda>r. rr_ID r = rid) (reservations s)")
  case None
  with assms show ?thesis by (simp add: loadReservation_def wp_rules)
next
  case (Some r)
  then have "rr_ID r = rid" by (auto dest: find_SomeD)
  with Some assms(3) assms(1) [OF Some] show ?thesis
    by (auto simp: loadReservation_def wp_rules reservation_of_def)
qed

text \<open>
  The errors of a transition. \<open>confirm\<close> succeeds on a confirmed reservation and \<open>release\<close> on a
  released or expired one (the operation is idempotent), so \<open>ErrState\<close> says that the reservation
  is in another state; on an active reservation only a confirmation can be refused, because the
  hold (or a batch) is no longer good.
\<close>

definition transition_error :: "world \<Rightarrow> inv_db \<Rightarrow> transition_input \<Rightarrow> bool \<Rightarrow> ierror \<Rightarrow> bool" where
  "transition_error w s i confirm err \<longleftrightarrow>
     err = ErrStorage
   \<or> err = ErrNotFound \<and> owned s (ti_ReservationID i) (ti_OrderID i) = None
   \<or> err = ErrState \<and> (\<exists>r. owned s (ti_ReservationID i) (ti_OrderID i) = Some r \<and>
       (if rr_Status r = RActive
        then confirm \<and> ((\<exists>k. \<not> w_clock w k < rr_ExpiresAt r) \<or> \<not> no_archived s)
        else if confirm then rr_Status r \<noteq> RConfirmed
        else rr_Status r \<noteq> RReleased \<and> rr_Status r \<noteq> RExpired))"

definition transition_result :: "world \<Rightarrow> inv_db \<Rightarrow> transition_input \<Rightarrow> bool \<Rightarrow> bool \<Rightarrow> reservation \<Rightarrow> inv_db \<Rightarrow> bool" where
  "transition_result w s i confirm expiry r s' \<longleftrightarrow>
     (\<exists>row. owned s (ti_ReservationID i) (ti_OrderID i) = Some row \<and>
        (if rr_Status row = RActive \<and> r_Status r \<noteq> RActive
         then settled s s' (ti_ReservationID i) r \<and>
           (if confirm then r_Status r = RConfirmed \<and> (\<exists>k. w_clock w k < rr_ExpiresAt row)
            else r_Status r = RReleased \<and> \<not> expiry \<or> r_Status r = RExpired)
         else s' = s \<and> r = reservation_of s row \<and>
           (rr_Status row = RActive \<longrightarrow> (\<exists>k. w_clock w k < rr_ExpiresAt row)) \<and>
           (\<not> expiry \<longrightarrow> (if confirm then r_Status r = RConfirmed
             else r_Status r = RReleased \<or> r_Status r = RExpired))))"

lemma settle_then_finish:
  assumes inv: "inv_ok s" and own: "owned s rid oid = Some row" and act: "rr_Status row = RActive"
    and t: "confirm \<Longrightarrow> t < rr_ExpiresAt row"
    and st: "st = RConfirmed \<longleftrightarrow> confirm" "st \<noteq> RActive"
    and E: "\<And>s n. E ErrStorage s n" "confirm \<Longrightarrow> \<not> no_archived s \<Longrightarrow> \<forall>s n. E ErrState s n"
    and Q: "\<And>s' n'. settled s s' rid ((reservation_of s row)\<lparr>r_Status := st\<rparr>) \<Longrightarrow> Q () s' n'"
  shows "wp (forT (load_allocations rid s) (settle_allocation c confirm rid t)) (\<lambda>_ s' n'.
      wp (set_status rid st t reason) (\<lambda>_ s' n'.
        wp (if confirm then ret ()
            else forT ids (\<lambda>fid. dropped_err ErrStorage (ResetLowStockNotified fid t))) Q E w s' n')
        E w s' n') E w s n"
proof -
  note o = ownedD [OF own]
  have inv': "inv_off no_off no_off s" using inv by (simp add: inv_ok_def)
  have wf: "wf_tables s" using inv_offD(1) [OF inv'] .
  have rid: "rr_ID row \<noteq> []" using wf o(1) by (auto simp: wf_tables_def)
  have st0: "status_of s rid = Some RActive"
    using status_of_row [OF wf o(1)] o(2) act by simp
  have fin: "wp (set_status rid st t reason) (\<lambda>_ s' n'.
        wp (if confirm then ret ()
            else forT ids (\<lambda>fid. dropped_err ErrStorage (ResetLowStockNotified fid t))) Q E w s' n')
        E w s1 n1"
    if I: "inv_off (alloc_sum (load_allocations rid s)) (if confirm then alloc_sum (load_allocations rid s) else no_off) s1"
      and sc: "same_claims s s1" for s1 n1
  proof -
    have "Q () s2 n2" if "unseen (status_change rid st t reason s1) s2" for s2 n2
      by (rule Q, rule settled_finish [OF I sc st0 _ _ _ that])
         (use st o(2) in \<open>auto simp: reservation_of_def fun_eq_iff\<close>)
    then show ?thesis
      by (cases confirm) (auto simp: wp_set_status wp_ret E(1) intro!: wpi_reset_all)
  qed
  show ?thesis
  proof (cases confirm)
    case True
    then show ?thesis
      using wp_confirm_loop [OF inv' o(1) refl act t [OF True], of _ E] fin E o(2) by simp
  next
    case False
    then show ?thesis
      using wp_release_loop [OF inv' o(1) refl act rid, of _ E] fin E o(2) by simp
  qed
qed

lemma wp_load_prefix:
  assumes "\<And>row ids n'. find (\<lambda>r. rr_ID r = rid) (reservations s) = Some row \<Longrightarrow>
      wp (f ids (reservation_of s row)) Q E w s n'"
    and "find (\<lambda>r. rr_ID r = rid) (reservations s) = None \<Longrightarrow> \<forall>s n. E ErrNotFound s n"
    and "\<And>s n. E ErrStorage s n"
  shows "wp (bindT (lock k) (\<lambda>_. bindT (reservationFlavors rid) (\<lambda>ids. bindT (lockFlavors ids) (\<lambda>_.
      bindT (loadReservation rid) (\<lambda>r. f ids r))))) Q E w s n"
  unfolding reservationFlavors_def
  using assms by (intro wpi_bindT wpi_lock wpi_query wpi_lockFlavors wpi_loadReservation) auto

lemma wp_transition:
  assumes inv: "inv_ok s"
  shows "wp (transition c i confirm expiry)
    (\<lambda>r s' _. transition_result w s i confirm expiry r s')
    (\<lambda>err _ _. transition_error w s i confirm err) w s n"
  unfolding transition_def
proof (rule wp_load_prefix)
  fix row ids n'
  assume row: "find (\<lambda>r. rr_ID r = ti_ReservationID i) (reservations s) = Some row"
  then have rid: "rr_ID row = ti_ReservationID i" by (auto dest: find_SomeD)
  have rs: "r_OrderID (reservation_of s row) = rr_OrderID row" "r_Status (reservation_of s row) = rr_Status row"
    "r_ExpiresAt (reservation_of s row) = rr_ExpiresAt row" "r_ID (reservation_of s row) = ti_ReservationID i"
    "r_Allocations (reservation_of s row) = load_allocations (ti_ReservationID i) s"
    by (simp_all add: reservation_of_def rid)
  let ?Q = "\<lambda>r s' _. transition_result w s i confirm expiry r s'"
  let ?E = "\<lambda>err _ _. transition_error w s i confirm err"
  show "wp (if r_OrderID (reservation_of s row) \<noteq> ti_OrderID i then throw ErrNotFound
       else bindT now (\<lambda>t.
         if expiry \<and> (r_Status (reservation_of s row) \<noteq> RActive \<or> r_ExpiresAt (reservation_of s row) > t) then ret (reservation_of s row)
         else if r_Status (reservation_of s row) \<noteq> RActive then
           (if (confirm \<and> r_Status (reservation_of s row) = RConfirmed) \<or>
               (\<not> confirm \<and> (r_Status (reservation_of s row) = RReleased \<or> r_Status (reservation_of s row) = RExpired)) then ret (reservation_of s row)
            else throw ErrState)
         else if confirm \<and> \<not> (r_ExpiresAt (reservation_of s row) > t) then throw ErrState
         else
           let target = (if confirm then RConfirmed
                         else if expiry \<or> \<not> (r_ExpiresAt (reservation_of s row) > t) then RExpired else RReleased) in
           bindT (forT (r_Allocations (reservation_of s row)) (settle_allocation c confirm (r_ID (reservation_of s row)) t)) (\<lambda>_.
           bindT (set_status (r_ID (reservation_of s row)) target t (ti_Reason i)) (\<lambda>_.
           bindT (if confirm then ret ()
                  else forT ids (\<lambda>fid. dropped_err ErrStorage (ResetLowStockNotified fid t))) (\<lambda>_.
           ret ((reservation_of s row)\<lparr>r_Status := target\<rparr>)))))) ?Q ?E w s n'"
  proof (cases "rr_OrderID row = ti_OrderID i")
    case False
    with row show ?thesis
      by (simp add: rs wp_throw transition_error_def owned_def)
  next
    case True
    with row have own: "owned s (ti_ReservationID i) (ti_OrderID i) = Some row"
      by (simp add: owned_def)
    have step: "wp (bindT (forT (load_allocations (ti_ReservationID i) s) (settle_allocation c confirm (ti_ReservationID i) t)) (\<lambda>_.
          bindT (set_status (ti_ReservationID i) st t (ti_Reason i)) (\<lambda>_.
          bindT (if confirm then ret ()
              else forT ids (\<lambda>fid. dropped_err ErrStorage (ResetLowStockNotified fid t))) (\<lambda>_.
          ret ((reservation_of s row)\<lparr>r_Status := st\<rparr>))))) ?Q ?E w s n'"
      if "rr_Status row = RActive" "confirm \<Longrightarrow> t < rr_ExpiresAt row"
        "st = (if confirm then RConfirmed else if expiry \<or> \<not> (rr_ExpiresAt row > t) then RExpired else RReleased)" "t = w_clock w k" for t st n' k
      unfolding wp_bindT wp_ret
      by (rule settle_then_finish [OF inv own])
         (use that own in \<open>auto simp: transition_error_def transition_result_def split: if_splits\<close>)
    have tail: "wp (if expiry \<and> (rr_Status row \<noteq> RActive \<or> rr_ExpiresAt row > t) then ret (reservation_of s row)
         else if rr_Status row \<noteq> RActive then
           (if (confirm \<and> rr_Status row = RConfirmed) \<or>
               (\<not> confirm \<and> (rr_Status row = RReleased \<or> rr_Status row = RExpired)) then ret (reservation_of s row)
            else throw ErrState)
         else if confirm \<and> \<not> (rr_ExpiresAt row > t) then throw ErrState
         else
           (bindT (forT (load_allocations (ti_ReservationID i) s) (settle_allocation c confirm (ti_ReservationID i) t)) (\<lambda>_.
          bindT (set_status (ti_ReservationID i) (if confirm then RConfirmed
                         else if expiry \<or> \<not> (rr_ExpiresAt row > t) then RExpired else RReleased) t (ti_Reason i)) (\<lambda>_.
          bindT (if confirm then ret ()
              else forT ids (\<lambda>fid. dropped_err ErrStorage (ResetLowStockNotified fid t))) (\<lambda>_.
          ret ((reservation_of s row)\<lparr>r_Status := (if confirm then RConfirmed
                         else if expiry \<or> \<not> (rr_ExpiresAt row > t) then RExpired else RReleased)\<rparr>))))))
         ?Q ?E w s n'" if t: "t = w_clock w k" for t k n'
    proof (intro wpi_if step)
      show "wp (ret (reservation_of s row)) ?Q ?E w s n'"
        if "expiry \<and> (rr_Status row \<noteq> RActive \<or> rr_ExpiresAt row > t)"
        using that own t by (auto simp: wp_ret transition_result_def rs)
      show "wp (ret (reservation_of s row)) ?Q ?E w s n'"
        if "rr_Status row \<noteq> RActive" "(confirm \<and> rr_Status row = RConfirmed) \<or>
               (\<not> confirm \<and> (rr_Status row = RReleased \<or> rr_Status row = RExpired))"
        using that own t by (auto simp: wp_ret transition_result_def rs)
    qed (use own t in \<open>auto simp: wp_throw transition_error_def\<close>)
    have E: "?E ErrStorage s' k" for s' k by (simp add: transition_error_def)
    show ?thesis
      unfolding rs Let_def using True
      by (simp only: not_True_eq_False if_False simp_thms if_True) (rule wpi_bindT, rule wpi_now, rule tail, rule refl, rule E)
  qed
qed (auto simp: transition_error_def owned_def)

section \<open>Return of a confirmed reservation\<close>

definition return_error :: "inv_db \<Rightarrow> transition_input \<Rightarrow> ierror \<Rightarrow> bool" where
  "return_error s i err \<longleftrightarrow>
     err = ErrStorage
   \<or> err = ErrNotFound \<and> owned s (ti_ReservationID i) (ti_OrderID i) = None
   \<or> err = ErrState \<and> (\<exists>r. owned s (ti_ReservationID i) (ti_OrderID i) = Some r \<and>
       rr_Status r \<noteq> RConfirmed \<and> rr_Status r \<noteq> RReturned)"

definition return_result :: "inv_db \<Rightarrow> transition_input \<Rightarrow> reservation \<Rightarrow> inv_db \<Rightarrow> bool" where
  "return_result s i r s' \<longleftrightarrow> r_Status r = RReturned \<and>
     (\<exists>row. owned s (ti_ReservationID i) (ti_OrderID i) = Some row \<and>
        (if rr_Status row = RReturned then s' = s \<and> r = reservation_of s row
         else rr_Status row = RConfirmed \<and> settled s s' (ti_ReservationID i) r))"

lemma return_then_finish:
  assumes inv: "inv_ok s" and own: "owned s rid oid = Some row" and act: "rr_Status row = RConfirmed"
    and E: "\<And>s n. E ErrStorage s n"
    and Q: "\<And>s' n'. settled s s' rid ((reservation_of s row)\<lparr>r_Status := RReturned\<rparr>) \<Longrightarrow> Q () s' n'"
  shows "wp (forT (load_allocations rid s) (return_allocation c rid t)) (\<lambda>_ s' n'.
      wp (set_status rid RReturned t reason) (\<lambda>_ s' n'.
        wp (forT ids (\<lambda>fid. dropped_err ErrStorage (ResetLowStockNotified fid t))) Q E w s' n')
        E w s' n') E w s n"
proof -
  note o = ownedD [OF own]
  have inv': "inv_off no_off no_off s" using inv by (simp add: inv_ok_def)
  have wf: "wf_tables s" using inv_offD(1) [OF inv'] .
  have rid: "rr_ID row \<noteq> []" using wf o(1) by (auto simp: wf_tables_def)
  have st0: "status_of s rid = Some RConfirmed"
    using status_of_row [OF wf o(1)] o(2) act by simp
  have fin: "wp (set_status rid RReturned t reason) (\<lambda>_ s' n'.
        wp (forT ids (\<lambda>fid. dropped_err ErrStorage (ResetLowStockNotified fid t))) Q E w s' n')
        E w s1 n1"
    if I: "inv_off no_off (\<lambda>i. - alloc_sum (load_allocations rid s) i) s1"
      and sc: "same_claims s s1" for s1 n1
  proof -
    have "Q () s2 n2" if "unseen (status_change rid RReturned t reason s1) s2" for s2 n2
      by (rule Q, rule settled_finish [OF I sc st0 _ _ _ that])
         (use o(2) in \<open>auto simp: reservation_of_def fun_eq_iff\<close>)
    then show ?thesis
      by (auto simp: wp_set_status E(1) intro!: wpi_reset_all)
  qed
  show ?thesis
    using wp_return_loop [OF inv' o(1) refl act rid, of _ E] fin E o(2) by simp
qed

lemma wp_returnConfirmed:
  assumes inv: "inv_ok s"
  shows "wp (returnConfirmed c i)
    (\<lambda>r s' _. return_result s i r s') (\<lambda>err _ _. return_error s i err) w s n"
  unfolding returnConfirmed_def
proof (rule wp_load_prefix)
  fix row ids n'
  assume row: "find (\<lambda>r. rr_ID r = ti_ReservationID i) (reservations s) = Some row"
  then have rid: "rr_ID row = ti_ReservationID i" by (auto dest: find_SomeD)
  let ?Q = "\<lambda>r s' _. return_result s i r s'"
  let ?E = "\<lambda>err _ _. return_error s i err"
  let ?r = "reservation_of s row"
  have rs: "r_OrderID ?r = rr_OrderID row" "r_Status ?r = rr_Status row" "r_ID ?r = ti_ReservationID i"
    "r_Allocations ?r = load_allocations (ti_ReservationID i) s"
    by (simp_all add: reservation_of_def rid)
  have own: "rr_OrderID row = ti_OrderID i \<Longrightarrow> owned s (ti_ReservationID i) (ti_OrderID i) = Some row"
    using row by (simp add: owned_def)
  have step: "wp (bindT (forT (load_allocations (ti_ReservationID i) s) (return_allocation c (ti_ReservationID i) t)) (\<lambda>_.
        bindT (set_status (ti_ReservationID i) RReturned t (ti_Reason i)) (\<lambda>_.
        bindT (forT ids (\<lambda>fid. dropped_err ErrStorage (ResetLowStockNotified fid t))) (\<lambda>_.
        ret (?r\<lparr>r_Status := RReturned\<rparr>))))) ?Q ?E w s n'"
    if "rr_Status row = RConfirmed" "rr_OrderID row = ti_OrderID i" for t n'
    unfolding wp_bindT wp_ret
    by (rule return_then_finish [OF inv own])
       (use that own in \<open>auto simp: return_error_def return_result_def split: if_splits\<close>)
  show "wp (if r_OrderID ?r \<noteq> ti_OrderID i then throw ErrNotFound
       else if r_Status ?r = RReturned then ret ?r
       else if r_Status ?r \<noteq> RConfirmed then throw ErrState
       else bindT now (\<lambda>t.
         bindT (forT (r_Allocations ?r) (return_allocation c (r_ID ?r) t)) (\<lambda>_.
         bindT (set_status (r_ID ?r) RReturned t (ti_Reason i)) (\<lambda>_.
         bindT (forT ids (\<lambda>fid. dropped_err ErrStorage (ResetLowStockNotified fid t))) (\<lambda>_.
         ret (?r\<lparr>r_Status := RReturned\<rparr>)))))) ?Q ?E w s n'"
    unfolding rs
  proof (rule wpi_if, goal_cases)
    case 1
    then show ?case using row by (simp add: wp_throw return_error_def owned_def)
  next
    case 2
    then have o: "rr_OrderID row = ti_OrderID i" by simp
    show ?case
    proof (rule wpi_if, goal_cases)
      case 1
      then show ?case using own [OF o] by (simp add: wp_ret return_result_def rs)
    next
      case 2
      then show ?case
      proof (intro wpi_if wpi_throw)
        assume "\<not> rr_Status row \<noteq> RConfirmed"
        then show "wp (bindT now (\<lambda>t.
          bindT (forT (load_allocations (ti_ReservationID i) s) (return_allocation c (ti_ReservationID i) t)) (\<lambda>_.
          bindT (set_status (ti_ReservationID i) RReturned t (ti_Reason i)) (\<lambda>_.
          bindT (forT ids (\<lambda>fid. dropped_err ErrStorage (ResetLowStockNotified fid t))) (\<lambda>_.
          ret (?r\<lparr>r_Status := RReturned\<rparr>)))))) ?Q ?E w s n'"
          using o by (intro wpi_bindT [of now] wpi_now step) (simp_all add: return_error_def)
      qed (use own [OF o] in \<open>simp add: return_error_def\<close>)
    qed
  qed
qed (auto simp: return_error_def owned_def)

end
