(* ===== verification/Inventory_Stock.thy ===== *)
theory Inventory_Stock
  imports Inventory_Settle
begin

text \<open>
  How the tables evolve. \<open>grows s s'\<close> is what every transaction guarantees about the rows other
  services refer to: a reservation stays, with its order, its expiry and its allocations, and its
  status moves forward only; a saved response is never changed. \<open>advances\<close> adds the stock
  invariant. The transactions that work on a single batch (production, waste, expiry) are shown
  to advance the tables here.
\<close>

section \<open>Evolution of the tables\<close>

fun later :: "res_status \<Rightarrow> res_status \<Rightarrow> bool" where
  "later RActive _ = True"
| "later RConfirmed st = (st = RConfirmed \<or> st = RReturned)"
| "later st st' = (st' = st)"

lemma later_refl [simp]: "later st st"
  by (cases st) auto

lemma later_trans: "later a b \<Longrightarrow> later b c \<Longrightarrow> later a c"
  by (cases a; cases b) auto

definition row_grows :: "reservation_row \<Rightarrow> reservation_row \<Rightarrow> bool" where
  "row_grows r r' \<longleftrightarrow> rr_ID r' = rr_ID r \<and> rr_OrderID r' = rr_OrderID r \<and>
     rr_CreatedAt r' = rr_CreatedAt r \<and> rr_ExpiresAt r' = rr_ExpiresAt r \<and>
     later (rr_Status r) (rr_Status r')"

abbreviation find_res :: "string \<Rightarrow> inv_db \<Rightarrow> reservation_row option" where
  "find_res rid db \<equiv> find (\<lambda>r. rr_ID r = rid) (reservations db)"

abbreviation find_idem :: "mutation_key \<Rightarrow> inv_db \<Rightarrow> idem_row option" where
  "find_idem k db \<equiv> find (\<lambda>x. id_Key x = k) (idempotency db)"

definition keeps_responses :: "inv_db \<Rightarrow> inv_db \<Rightarrow> bool" where
  "keeps_responses s s' \<longleftrightarrow>
     (\<forall>k x. find_idem k s = Some x \<and> id_Response x \<noteq> None \<longrightarrow> find_idem k s' = Some x)"

definition keeps_reservations :: "inv_db \<Rightarrow> inv_db \<Rightarrow> bool" where
  "keeps_reservations s s' \<longleftrightarrow>
     (\<forall>rid r. find_res rid s = Some r \<longrightarrow>
        (\<exists>r'. find_res rid s' = Some r' \<and> row_grows r r') \<and>
        load_allocations rid s' = load_allocations rid s)"

definition grows :: "inv_db \<Rightarrow> inv_db \<Rightarrow> bool" where
  "grows s s' \<longleftrightarrow> keeps_reservations s s' \<and> keeps_responses s s' \<and> (no_archived s \<longrightarrow> no_archived s')"

definition advances :: "inv_db \<Rightarrow> inv_db \<Rightarrow> bool" where
  "advances s s' \<longleftrightarrow> inv_ok s' \<and> grows s s'"

lemma row_grows_refl [simp]: "row_grows r r"
  by (simp add: row_grows_def)

lemma row_grows_trans: "row_grows a b \<Longrightarrow> row_grows b c \<Longrightarrow> row_grows a c"
  by (auto simp: row_grows_def intro: later_trans)

lemma grows_refl [simp]: "grows s s"
  by (simp add: grows_def keeps_reservations_def keeps_responses_def)

lemma keeps_reservations_trans:
  assumes "keeps_reservations s t" and "keeps_reservations t u"
  shows "keeps_reservations s u"
  unfolding keeps_reservations_def
proof (intro allI impI)
  fix rid r assume "find_res rid s = Some r"
  with assms(1) obtain r' where r': "find_res rid t = Some r'" "row_grows r r'"
    "load_allocations rid t = load_allocations rid s"
    unfolding keeps_reservations_def by blast
  with assms(2) obtain r'' where "find_res rid u = Some r''" "row_grows r' r''"
    "load_allocations rid u = load_allocations rid t"
    unfolding keeps_reservations_def by blast
  with r' show "(\<exists>r'. find_res rid u = Some r' \<and> row_grows r r') \<and>
      load_allocations rid u = load_allocations rid s"
    using row_grows_trans by auto
qed

lemma grows_trans: "grows s t \<Longrightarrow> grows t u \<Longrightarrow> grows s u"
  using keeps_reservations_trans by (auto simp: grows_def keeps_responses_def)

lemma advances_refl: "inv_ok s \<Longrightarrow> advances s s"
  by (simp add: advances_def)

lemma advances_trans: "advances s t \<Longrightarrow> advances t u \<Longrightarrow> advances s u"
  by (auto simp: advances_def intro: grows_trans)

text \<open>
  The footprint of an operation: outside the keys \<open>K\<close> it saves no response, and outside the
  reservations \<open>M\<close> it adds none and changes none, except that it may expire active ones.
\<close>

definition idle :: "res_status option \<Rightarrow> res_status option \<Rightarrow> bool" where
  "idle a b \<longleftrightarrow> b = a \<or> a = Some RActive \<and> b = Some RExpired"

definition effects :: "mutation_key set \<Rightarrow> string set \<Rightarrow> inv_db \<Rightarrow> inv_db \<Rightarrow> bool" where
  "effects K M s s' \<longleftrightarrow> advances s s' \<and> (\<forall>k. k \<notin> K \<longrightarrow> find_idem k s' = find_idem k s) \<and>
     (\<forall>rid. rid \<notin> M \<longrightarrow> idle (status_of s rid) (status_of s' rid))"

lemma idle_refl [simp]: "idle a a"
  by (simp add: idle_def)

lemma idle_trans: "idle a b \<Longrightarrow> idle b c \<Longrightarrow> idle a c"
  by (auto simp: idle_def)

lemma effects_refl: "inv_ok s \<Longrightarrow> effects K M s s"
  by (simp add: effects_def advances_refl)

lemma effects_trans:
  assumes "effects K M s t" and "effects K M t u" shows "effects K M s u"
  unfolding effects_def
proof (intro conjI allI impI)
  show "advances s u" using assms by (auto simp: effects_def intro: advances_trans)
  show "find_idem k u = find_idem k s" if "k \<notin> K" for k using assms that by (cases k) (simp add: effects_def)
  show "idle (status_of s rid) (status_of u rid)" if "rid \<notin> M" for rid
    using assms that idle_trans [of "status_of s rid" "status_of t rid" "status_of u rid"] by (simp add: effects_def)
qed

lemma effects_mono: "effects K M s s' \<Longrightarrow> K \<subseteq> K' \<Longrightarrow> M \<subseteq> M' \<Longrightarrow> effects K' M' s s'"
  unfolding effects_def by blast

lemma grows_same_claims: "same_claims s s' \<Longrightarrow> grows s s'"
  by (simp add: same_claims_def grows_def keeps_reservations_def keeps_responses_def load_allocations_def)

lemma grows_unseen:
  assumes "unseen s s'" shows "grows s s'"
proof (rule grows_same_claims)
  have view: "inv_view s' = inv_view s" and idem: "idempotency s' = idempotency s"
    using assms by (simp_all add: unseen_def)
  then show "same_claims s s'"
    using inv_view_same(1,2) [OF view] inv_view_no_archived [OF view] by (simp add: same_claims_def)
qed

lemma grows_settled:
  assumes "settled s s' rid r" and "status_of s rid = Some old" and "later old (r_Status r)"
  shows "grows s s'"
proof -
  obtain t reason where
    rs: "reservations s' = reservations (status_change rid (r_Status r) t reason s)"
    using assms(1) by (auto simp: settled_def)
  have "\<exists>x'. find_res j s' = Some x' \<and> row_grows x x'" if "find_res j s = Some x" for j x
  proof -
    have *: "find (\<lambda>r. rr_ID r = j) (update_where (\<lambda>r. rr_ID r = rid)
        (\<lambda>x. x\<lparr>rr_Status := r_Status r, rr_UpdatedAt := t, rr_ReleaseReason := reason\<rparr>) xs) =
      map_option (\<lambda>x. if rr_ID x = rid then x\<lparr>rr_Status := r_Status r, rr_UpdatedAt := t, rr_ReleaseReason := reason\<rparr> else x)
        (find (\<lambda>r. rr_ID r = j) xs)" for xs
      by (induction xs) auto
    show ?thesis
      using that assms(2,3) find_SomeD [OF that]
      by (auto simp: rs status_change_def * row_grows_def status_of_def)
  qed
  moreover have "load_allocations j s' = load_allocations j s" for j
    using assms(1) by (simp add: settled_def load_allocations_def)
  ultimately show ?thesis
    using assms(1) by (simp add: grows_def keeps_reservations_def keeps_responses_def settled_def)
qed

lemma advances_unseen: "inv_ok s \<Longrightarrow> unseen s s' \<Longrightarrow> advances s s'"
  unfolding advances_def using grows_unseen inv_ok_cong by (auto simp: unseen_def)

lemma owned_status: "owned s rid oid = Some r \<Longrightarrow> status_of s rid = Some (rr_Status r)"
  by (auto simp: status_of_def dest: ownedD)

lemma advances_transition_result:
  assumes "inv_ok s" and "transition_result w s i confirm expiry r s'"
  shows "advances s s' \<and> idempotency s' = idempotency s"
proof -
  obtain row where own: "owned s (ti_ReservationID i) (ti_OrderID i) = Some row"
    and *: "if rr_Status row = RActive \<and> r_Status r \<noteq> RActive
         then settled s s' (ti_ReservationID i) r else s' = s"
    using assms(2) by (auto simp: transition_result_def split: if_splits)
  show ?thesis
  proof (cases "rr_Status row = RActive \<and> r_Status r \<noteq> RActive")
    case True
    with * own show ?thesis
      using grows_settled [of s s' _ r RActive] owned_status [OF own]
      by (auto simp: advances_def settled_def)
  next
    case False
    with * assms(1) show ?thesis by (auto simp: advances_refl)
  qed
qed

lemma advances_return_result:
  assumes "inv_ok s" and "return_result s i r s'"
  shows "advances s s' \<and> idempotency s' = idempotency s"
proof -
  obtain row where own: "owned s (ti_ReservationID i) (ti_OrderID i) = Some row"
    and r: "r_Status r = RReturned"
    and *: "s' = s \<or> rr_Status row = RConfirmed \<and> settled s s' (ti_ReservationID i) r"
    using assms(2) by (auto simp: return_result_def split: if_splits)
  from * show ?thesis
  proof
    assume a: "rr_Status row = RConfirmed \<and> settled s s' (ti_ReservationID i) r"
    then have "grows s s'"
      using owned_status [OF own] r by (intro grows_settled) auto
    with a show ?thesis by (simp add: advances_def settled_def)
  qed (simp add: assms(1) advances_refl)
qed

section \<open>Waste and expiry of a batch\<close>

lemma wp_waste_save_ok:
  assumes inv: "inv_ok s" and x: "x \<in> set (batches s)" and b: "moves x b (- p) 0 0 p" and p: "0 \<le> p"
    and Q: "\<And>r s' n'. inv_ok s' \<Longrightarrow> same_claims s s' \<Longrightarrow> Q r () s' n'"
    and E: "\<And>s n. E ErrStorage s n"
  shows "wp (recordWaste c b p reason nt actor [] t)
    (\<lambda>r s' n'. wp (saveBatch b t) (Q r) E w s' n') E w s n"
  by (rule wp_waste_save [OF _ x b p]) (use assms in \<open>auto simp: inv_ok_def\<close>)

text \<open>Between transactions: only the invariant and the claims matter.\<close>

definition same_stock_claims :: "inv_db \<Rightarrow> inv_db \<Rightarrow> bool" where
  "same_stock_claims s s' \<longleftrightarrow> advances s s' \<and> idempotency s' = idempotency s \<and>
     reservations s' = reservations s \<and> allocations s' = allocations s"

lemma same_stock_claimsI:
  assumes "inv_ok s'" and "same_claims s s'" and "unseen s' s''"
  shows "same_stock_claims s s''"
proof -
  have view: "inv_view s'' = inv_view s'" and idem: "idempotency s'' = idempotency s'"
    using assms(3) by (simp_all add: unseen_def)
  show ?thesis
    unfolding same_stock_claims_def advances_def
    using assms(1,2) inv_view_same(1,2) [OF view] idem inv_ok_cong [OF view]
      grows_trans [OF grows_same_claims [OF assms(2)] grows_unseen [OF assms(3)]]
    by (simp add: same_claims_def)
qed

lemma wp_waste_tx:
  assumes inv: "inv_ok s" and p: "1 \<le> wi_Portions i"
  shows "wp (waste_tx c batchID actor i) (\<lambda>_ s' _. same_stock_claims s s')
    (\<lambda>err _ _. err \<in> {ErrStorage, ErrNotFound, ErrState, ErrInvalid, ErrStock}) w s n"
    (is "wp _ ?Q ?E w s n")
  unfolding waste_tx_def Let_def
proof (intro wpi_bindT [of "scanBatch _"] wpi_bindT [of "lockFlavors _"] wpi_bindT [of now]
    wpi_scanBatch wpi_lockFlavors wpi_now wpi_if wpi_throw)
  fix b0 b n' k n''
  assume find: "find_batch batchID s = Some b" and le: "\<not> b_Available b < wi_Portions i"
  obtain x where x: "x \<in> set (batches s)" "b = scan_row x"
    using find by (rule find_batch_SomeD)
  let ?b = "b\<lparr>b_Available := b_Available b - wi_Portions i, b_Wasted := b_Wasted b + wi_Portions i\<rparr>"
  have "moves x ?b (- wi_Portions i) 0 0 (wi_Portions i)"
    using inv x le p by (auto simp: moves_def inv_ok_def inv_off_def wf_batch_def)
  then show "wp (bindT (recordWaste c ?b (wi_Portions i) (wi_Reason i) (wi_Note i) actor [] t) (\<lambda>result.
         bindT (saveBatch ?b t) (\<lambda>_.
         bindT (CheckAndNotifyLowStock (b_FlavorID ?b) t) (\<lambda>_. ret result)))) ?Q ?E w s n''" for t
    unfolding wp_bindT wp_ret
    by (rule wp_waste_save_ok [OF inv x(1)])
       (use p in \<open>auto intro!: wpi_CheckAndNotifyLowStock intro: same_stock_claimsI\<close>)
qed auto

lemma wp_expireBatch:
  assumes inv: "inv_ok s"
  shows "wp (expireBatch c i flavor) (\<lambda>_ s' _. same_stock_claims s s') (\<lambda>_ s' _. same_stock_claims s s') w s n"
  unfolding expireBatch_def Let_def
proof (rule wpi_atomically)
  have refl: "same_stock_claims s s"
    using inv by (simp add: same_stock_claims_def advances_refl)
  then show "same_stock_claims s s" .
  let ?Q = "\<lambda>r s' _. case r of Commit a \<Rightarrow> \<forall>k::nat. same_stock_claims s s' \<and> same_stock_claims s s' | Discard a \<Rightarrow> \<forall>k::nat. same_stock_claims s s"
  let ?E = "\<lambda>_ _ _. \<forall>k::nat. same_stock_claims s s"
  let ?b = "\<lambda>b. if 0 < b_Available b then b\<lparr>b_Available := 0, b_Wasted := b_Wasted b + b_Available b\<rparr> else b"
  have body: "wp (bindT (if b_Available b > 0
                then bindT (recordWaste c (?b b) (b_Available b) WExpired ''batch expiry'' [] [] t) (\<lambda>_. ret ())
                else ret ()) (\<lambda>_.
         bindT (saveBatch (?b b) t) (\<lambda>_.
         bindT (CheckAndNotifyLowStock (b_FlavorID (?b b)) t) (\<lambda>_.
         ret (Commit ()))))) ?Q ?E w s n'"
    if "find_batch i s = Some b" for b t n'
  proof -
    obtain x where x: "x \<in> set (batches s)" "b = scan_row x"
      using \<open>find_batch i s = Some b\<close> by (rule find_batch_SomeD)
    have wf: "wf_batch x" using inv x(1) by (auto simp: inv_ok_def inv_off_def)
    show ?thesis
    proof (cases "b_Available b > 0")
      case True
      let ?c = "b\<lparr>b_Available := 0, b_Wasted := b_Wasted b + b_Available b\<rparr>"
      have "moves x ?c (- b_Available b) 0 0 (b_Available b)"
        using wf x(2) by (simp add: moves_def wf_batch_def)
      then have "wp (recordWaste c ?c (b_Available b) WExpired ''batch expiry'' [] [] t)
        (\<lambda>r s' n'. wp (saveBatch ?c t) (\<lambda>_ s' n'. wp (CheckAndNotifyLowStock (b_FlavorID b) t)
            (\<lambda>_ s' n'. ?Q (Commit ()) s' n') ?E w s' n') ?E w s' n') ?E w s n'"
        by (rule wp_waste_save_ok [OF inv x(1)])
           (use True refl in \<open>auto intro!: wpi_CheckAndNotifyLowStock intro: same_stock_claimsI\<close>)
      then show ?thesis
        using True by (simp add: wp_bindT wp_ret)
    next
      case False
      let ?s = "s\<lparr>batches := update_where (\<lambda>x. b_ID x = b_ID b) (save_row b t) (batches s)\<rparr>"
      have "inv_off (no_off(b_ID x := no_off (b_ID x) - 0)) (no_off(b_ID x := no_off (b_ID x) + 0)) ?s"
        by (rule inv_off_move [where x = x and b = b and t = t and da = 0 and dw = 0 and s = s])
           (use inv x wf inv_offD(4,5) in \<open>auto simp: inv_ok_def wf_batch_def\<close>)
      then have "inv_ok ?s" by (simp add: inv_ok_def fun_upd_idem)
      moreover have "same_claims s ?s"
        using x by (auto simp: same_claims_def no_archived_def set_update_where)
      ultimately show ?thesis
        using False refl
        by (auto simp: wp_bindT wp_ret intro!: wpi_saveBatch wpi_CheckAndNotifyLowStock intro: same_stock_claimsI)
    qed
  qed
  show "wp (bindT (lockFlavors [flavor]) (\<lambda>_. bindT (scanBatch i) (\<lambda>b. bindT now (\<lambda>t.
       if b_ExpiresAt b > t \<or> b_Status b = BArchived then ret (Discard ())
       else bindT (if b_Available b > 0
                then bindT (recordWaste c (?b b) (b_Available b) WExpired ''batch expiry'' [] [] t) (\<lambda>_. ret ())
                else ret ()) (\<lambda>_.
         bindT (saveBatch (?b b) t) (\<lambda>_.
         bindT (CheckAndNotifyLowStock (b_FlavorID (?b b)) t) (\<lambda>_.
         ret (Commit ())))))))) ?Q ?E w s (Suc n)"
    using refl
    by (intro wpi_bindT [of "lockFlavors _"] wpi_bindT [of "scanBatch _"] wpi_bindT [of now]
        wpi_lockFlavors wpi_scanBatch wpi_now wpi_if body) (auto simp: wp_ret)
qed

section \<open>Production\<close>

lemma wf_allocation_mono:
  "wf_allocation s a \<Longrightarrow> set (reservations s) \<subseteq> set (reservations s') \<Longrightarrow>
    set (batches s) \<subseteq> set (batches s') \<Longrightarrow> wf_allocation s' a"
  unfolding wf_allocation_def by blast

lemma inv_ok_produce:
  assumes inv: "inv_ok s" and new: "b_ID b \<notin> b_ID ` set (batches s)" "b_BatchCode b \<notin> b_BatchCode ` set (batches s)"
    and wf: "wf_batch b" "b_Available b = b_Initial b"
    and s': "s' = s\<lparr>batches := batches s @ [batch.extend b (batch_row.fields None None)],
      movements := movements s @ [new_movement c (b_ID b) [] MProduced (b_Initial b) t i]\<rparr>"
  shows "inv_ok s'"
proof -
  let ?x = "batch.extend b (batch_row.fields None None)"
  have x: "b_ID ?x = b_ID b" "b_BatchCode ?x = b_BatchCode b" "wf_batch ?x" "b_Reserved ?x = b_Reserved b"
    "b_Sold ?x = b_Sold b" "b_Available ?x = b_Available b" "b_Wasted ?x = b_Wasted b"
    using wf by (simp_all add: batch.extend_def wf_batch_def)
  have zero: "b_Reserved b = 0" "b_Sold b = 0" "b_Wasted b = 0"
    using wf by (auto simp: wf_batch_def)
  have wft: "wf_tables s" using inv by (simp add: inv_ok_def inv_off_def)
  have known: "ar_BatchID a \<noteq> b_ID b" if "a \<in> set (allocations s)" for a
  proof -
    have "wf_allocation s a" using wft that by (simp add: wf_tables_def)
    then obtain y where "y \<in> set (batches s)" "b_ID y = ar_BatchID a" by (auto simp: wf_allocation_def)
    with new(1) show ?thesis by (metis image_eqI)
  qed
  have known': "mv_BatchID m \<noteq> b_ID b" if "m \<in> set (movements s)" for m
    using wft new(1) that by (metis wf_tables_def)
  have known'': "w_BatchID v \<noteq> b_ID b" if "v \<in> set (wastes s)" for v
    using wft new(1) that by (metis wf_tables_def)
  have heldE: "held s' st j = held s st j" for st j
    by (simp add: held_def status_of_def s')
  have none: "held s st (b_ID b) = 0" "history_available s (b_ID b) = 0" "history_wasted s (b_ID b) = 0"
    "waste_total s (b_ID b) = 0" for st
    unfolding held_def history_available_def history_wasted_def waste_total_def
    using known known' known'' by (auto intro!: sum_where_false)
  have hist: "history_available s' j = history_available s j + (if j = b_ID b then b_Initial b else 0)"
    "history_wasted s' j = history_wasted s j" "waste_total s' j = waste_total s j" for j
    by (simp_all add: s' history_available_def history_wasted_def waste_total_def signed_portions_def)
  have "wf_allocation s' a" if "wf_allocation s a" for a
    by (rule wf_allocation_mono [OF that]) (auto simp: s')
  then have "wf_tables s'"
    using wft new x by (auto simp: wf_tables_def s')
  moreover have "wf_batch y \<and> ledger no_off no_off s' y" if "y \<in> set (batches s')" for y
  proof (cases "y = ?x")
    case True
    then show ?thesis
      using x wf zero none by (simp add: ledger_def heldE hist)
  next
    case False
    with that have y: "y \<in> set (batches s)" by (simp add: s')
    then have "b_ID y \<noteq> b_ID b" using new(1) by (metis image_eqI)
    moreover have "wf_batch y" "ledger no_off no_off s y"
      using inv y by (simp_all add: inv_ok_def inv_off_def)
    ultimately show ?thesis
      by (simp add: ledger_def heldE hist)
  qed
  ultimately show ?thesis by (simp add: inv_ok_def inv_off_def)
qed

lemma wp_create_tx:
  assumes inv: "inv_ok s" and valid: "valid_create i"
  shows "wp (create_tx c i batchID code)
    (\<lambda>b s' _. same_stock_claims s s' \<and> b_ID b = batchID \<and> b_Available b = ci_Initial i \<and>
       find_batch batchID s' = Some b)
    (\<lambda>err _ _. err \<in> {ErrStorage, ErrInvalid, ErrBatchCodeConflict}) w s n"
    (is "wp _ ?Q ?E w s n")
  unfolding create_tx_def Let_def
proof (intro wpi_bindT [of "lockFlavors _"] wpi_bindT [of now] wpi_lockFlavors wpi_now wpi_if wpi_throw)
  fix k n' m
  let ?t = "w_clock w k"
  let ?b = "\<lparr>b_ID = batchID, b_BatchCode = code, b_FlavorID = ci_FlavorID i,
                  b_ProductionDate = ci_ProductionDate i, b_ExpiresAt = ci_ExpiresAt i,
                  b_Initial = ci_Initial i, b_Available = ci_Initial i, b_Reserved = 0, b_Sold = 0,
                  b_Wasted = 0,
                  b_UnitCost = (case ci_UnitCost i of Some u \<Rightarrow> u | None \<Rightarrow> 0),
                  b_Currency = ''THB'', b_Status = BActive, b_CreatedAt = ?t, b_UpdatedAt = ?t\<rparr>"
  let ?x = "batch.extend ?b (batch_row.fields None None)"
  let ?s = "\<lambda>j. s\<lparr>batches := batches s @ [?x], movements := movements s @ [new_movement c batchID [] MProduced (ci_Initial i) ?t j]\<rparr>"
  have wf: "wf_batch ?b"
    using valid by (auto simp: valid_create_def wf_batch_def split: option.splits)
  have fin: "?Q ?b s' n'"
    if new: "b_ID ?b \<notin> b_ID ` set (batches s)" "b_BatchCode ?b \<notin> b_BatchCode ` set (batches s)"
      and un: "unseen (?s j) s'" for s' n' j
  proof -
    have ok: "inv_ok (?s j)"
      using inv_ok_produce [OF inv new wf _ refl, of c ?t j] by simp
    have sc: "same_claims s (?s j)"
      by (auto simp: same_claims_def no_archived_def batch.extend_def)
    have "map scan_row (batches s') = map scan_row (batches s) @ [?b]"
      using un by (simp add: unseen_def inv_view_def batch.extend_def batch.truncate_def batch_row.fields_def)
    moreover have "find_batch batchID s' = find (\<lambda>b. b_ID b = batchID) (map scan_row (batches s'))"
    proof -
      have "map_option scan_row (find (\<lambda>b. b_ID b = batchID) xs) = find (\<lambda>b. b_ID b = batchID) (map scan_row xs)"
        for xs :: "batch_row list" by (induction xs) auto
      then show ?thesis by (simp add: find_batch_def)
    qed
    moreover have "find (\<lambda>b. b_ID b = batchID) (map scan_row xs @ [?b]) = Some ?b"
      if "batchID \<notin> b_ID ` set xs" for xs :: "batch_row list"
      using that by (induction xs) auto
    ultimately show ?thesis
      using same_stock_claimsI [OF ok sc un] new by simp
  qed
  show "wp (bindT (insert_batch ?b) (\<lambda>_.
         bindT (movement c batchID [] MProduced (ci_Initial i) ?t) (\<lambda>_.
         bindT (dropped_err ErrStorage (ResetLowStockNotified (ci_FlavorID i) ?t)) (\<lambda>_.
         ret ?b)))) ?Q ?E w s m"
    unfolding wp_bindT wp_ret insert_batch_def wp_stmt
    by (auto simp: fin intro!: wpi_movement wpi_dropped_err wpi_ResetLowStockNotified)
qed auto

end
