(* ===== verification/Inventory_Idem.thy ===== *)
theory Inventory_Idem
  imports Inventory_Stock
begin

text \<open>
  The idempotent mutation of \<open>inventory/store.go\<close>. \<open>mutateKeys\<close> claims its keys, runs the
  operation and saves the response in one transaction. The lemmas say what one call does to the
  table of saved responses; the locale \<open>mutation\<close> is the contract between an operation and the
  envelope, and gives every operation that meets it exactly-once behaviour under retries.
\<close>

section \<open>Claiming keys and saving responses\<close>

definition claimed :: "string \<Rightarrow> mutation_key list \<Rightarrow> inv_db \<Rightarrow> inv_db" where
  "claimed h ks s = s\<lparr>idempotency := idempotency s @
     map (\<lambda>k. \<lparr>id_Key = k, id_Hash = h, id_Response = None\<rparr>) ks\<rparr>"

definition saved :: "mutation_key list \<Rightarrow> response \<Rightarrow> inv_db \<Rightarrow> inv_db" where
  "saved ks resp s = s\<lparr>idempotency := update_where (\<lambda>x. id_Key x \<in> set ks)
     (\<lambda>x. x\<lparr>id_Response := Some resp\<rparr>) (idempotency s)\<rparr>"

lemma claimed_Nil [simp]: "claimed h [] s = s"
  by (simp add: claimed_def)

lemma saved_Nil [simp]: "saved [] resp s = s"
  by (simp add: saved_def update_where_none)

lemma inv_view_claimed [simp]: "inv_view (claimed h ks s) = inv_view s"
  and inv_view_saved [simp]: "inv_view (saved ks resp s) = inv_view s"
  by (simp_all add: claimed_def saved_def)

lemma inv_ok_claimed [simp]: "inv_ok (claimed h ks s) = inv_ok s"
  and inv_ok_saved [simp]: "inv_ok (saved ks resp s) = inv_ok s"
  by (metis inv_ok_cong inv_view_claimed) (metis inv_ok_cong inv_view_saved)

definition fresh_keys :: "mutation_key list \<Rightarrow> inv_db \<Rightarrow> bool" where
  "fresh_keys ks s \<longleftrightarrow> distinct ks \<and> set ks \<inter> id_Key ` set (idempotency s) = {}"

lemma claimed_snoc:
  "claimed h (ks @ [k]) s = (claimed h ks s)\<lparr>idempotency := idempotency (claimed h ks s) @
     [\<lparr>id_Key = k, id_Hash = h, id_Response = None\<rparr>]\<rparr>"
  by (simp add: claimed_def)

text \<open>Which keys a claim loop leaves claimed: some of its keys, those that had no row.\<close>

lemma wp_claim_keys:
  assumes "fresh_keys cl s0" and "s = claimed h cl s0"
    and "\<And>cl' rp' n'. fresh_keys cl' s0 \<Longrightarrow> set cl' \<subseteq> K \<Longrightarrow> Q (cl', rp') (claimed h cl' s0) n'"
    and "\<And>e s n. E e s n" and "set cl \<subseteq> K" and "set ks \<subseteq> K"
  shows "wp (claim_keys h ks prev cl rp) Q E w s n"
  using assms(1,2,5,6)
proof (induction ks arbitrary: prev cl rp s n)
  case Nil
  then show ?case using assms(3) by (simp add: wp_ret)
next
  case (Cons k ks)
  show ?case
  proof (cases "prev = Some k")
    case True
    with Cons show ?thesis by simp
  next
    case False
    have new: "fresh_keys (cl @ [k]) s0 \<and> s\<lparr>idempotency := idempotency s @ [\<lparr>id_Key = k, id_Hash = h, id_Response = None\<rparr>]\<rparr> = claimed h (cl @ [k]) s0"
      if "k \<notin> id_Key ` set (idempotency s)"
      using that Cons.prems by (auto simp: fresh_keys_def claimed_def image_Un image_image)
    with False Cons assms(4) show ?thesis
      by (auto simp: insert_idem_def wp_rules split: option.splits)
  qed
qed

definition one_row :: "mutation_key \<Rightarrow> inv_db \<Rightarrow> bool" where
  "one_row k s \<longleftrightarrow> length (filter (\<lambda>x. id_Key x = k) (idempotency s)) = 1"

lemma keys_saved: "map id_Key (idempotency (saved ks resp s)) = map id_Key (idempotency s)"
  by (simp add: saved_def map_update_where)

lemma one_row_map: "one_row k s \<longleftrightarrow> length (filter (\<lambda>y. y = k) (map id_Key (idempotency s))) = 1"
  by (simp add: one_row_def filter_map comp_def)

lemma one_row_saved [simp]: "one_row k (saved ks resp s) = one_row k s"
  by (simp only: one_row_map keys_saved)

lemma saved_snoc:
  "(saved ks resp s)\<lparr>idempotency := update_where (\<lambda>x. id_Key x = k)
     (\<lambda>x. x\<lparr>id_Response := Some resp\<rparr>) (idempotency (saved ks resp s))\<rparr> = saved (ks @ [k]) resp s"
  by (auto simp: saved_def update_where_def)

lemma wp_save_all:
  assumes "\<And>k. k \<in> set ks \<Longrightarrow> one_row k s" and "\<And>n'. Q () (saved ks resp s) n'"
    and "\<And>s n. E ErrStorage s n"
  shows "wp (forT ks (save_response resp)) Q E w s n"
proof (rule wp_forT [where I = "\<lambda>ys s' _. \<exists>xs. ks = xs @ ys \<and> s' = saved xs resp s"])
  show "\<exists>xs. ks = xs @ ks \<and> s = saved xs resp s"
    by (rule exI [of _ "[]"]) simp
next
  fix y ys s' n'
  assume "\<exists>xs. ks = xs @ y # ys \<and> s' = saved xs resp s"
  then obtain xs where xs: "ks = xs @ y # ys" "s' = saved xs resp s" by blast
  then have one: "one_row y s'" using assms(1) by simp
  have "\<exists>zs. ks = zs @ ys \<and> s'\<lparr>idempotency := update_where (\<lambda>x. id_Key x = y)
     (\<lambda>x. x\<lparr>id_Response := Some resp\<rparr>) (idempotency s')\<rparr> = saved zs resp s"
    by (rule exI [of _ "xs @ [y]"]) (simp add: xs saved_snoc)
  with one assms(3) show "wp (save_response resp y) (\<lambda>_ s' n'. \<exists>xs. ks = xs @ ys \<and> s' = saved xs resp s) E w s' n'"
    by (simp add: save_response_def wp_stmt one_row_def)
qed (use assms(2) in auto)

lemma one_row_claimed:
  assumes "fresh_keys ks s" and "k \<in> set ks" and "idempotency s' = idempotency (claimed h ks s)"
  shows "one_row k s'"
proof -
  have "filter (\<lambda>y. y = k) (map id_Key (idempotency s)) = []"
    using assms(1,2) by (auto simp: fresh_keys_def filter_empty_conv)
  moreover have "length (filter (\<lambda>y. y = k) ks) = 1"
  proof -
    have "filter (\<lambda>y. y = k) ks = [k]" if "distinct ks" "k \<in> set ks" for ks
      using that by (induction ks) (auto simp: filter_empty_conv)
    with assms show ?thesis by (simp add: fresh_keys_def)
  qed
  ultimately show ?thesis
    unfolding one_row_map assms(3) by (simp add: claimed_def comp_def)
qed

text \<open>Rows that were there before keep their responses; the claimed rows get the new one.\<close>

lemma find_idem_map:
  "(\<And>x. id_Key (f x) = id_Key x) \<Longrightarrow> find (\<lambda>x. id_Key x = k) (map f xs) = map_option f (find (\<lambda>x. id_Key x = k) xs)"
  by (induction xs) auto

lemma find_idem_saved:
  "find_idem k (saved ks resp s) =
    map_option (\<lambda>x. if k \<in> set ks then x\<lparr>id_Response := Some resp\<rparr> else x) (find_idem k s)"
proof -
  have "find_idem k (saved ks resp s) =
      map_option (\<lambda>x. if id_Key x \<in> set ks then x\<lparr>id_Response := Some resp\<rparr> else x) (find_idem k s)"
    unfolding saved_def update_where_def by (simp add: find_idem_map)
  then show ?thesis
    by (cases "find_idem k s") (auto dest: find_SomeD)
qed

lemma find_append: "find p (xs @ ys) = (case find p xs of Some x \<Rightarrow> Some x | None \<Rightarrow> find p ys)"
  by (induction xs) auto

lemma find_idem_claimed:
  "find_idem k (claimed h ks s) = (case find_idem k s of Some x \<Rightarrow> Some x
     | None \<Rightarrow> if k \<in> set ks then Some \<lparr>id_Key = k, id_Hash = h, id_Response = None\<rparr> else None)"
proof -
  have "find (\<lambda>x. id_Key x = k) (map (\<lambda>k. \<lparr>id_Key = k, id_Hash = h, id_Response = None\<rparr>) ks) =
      (if k \<in> set ks then Some \<lparr>id_Key = k, id_Hash = h, id_Response = None\<rparr> else None)"
    by (induction ks) auto
  then show ?thesis by (auto simp: claimed_def find_append split: option.split)
qed

lemma keeps_responses_envelope:
  assumes "fresh_keys ks s" and "idempotency s' = idempotency (claimed h ks s)"
  shows "keeps_responses s (saved ks resp s')"
  unfolding keeps_responses_def
proof (intro allI impI)
  fix k x assume "find_idem k s = Some x \<and> id_Response x \<noteq> None"
  then have x: "find_idem k s = Some x" "id_Key x = k" "x \<in> set (idempotency s)"
    by (auto dest: find_SomeD)
  then have "k \<notin> set ks" using assms(1) by (auto simp: fresh_keys_def)
  moreover have "find_idem k s' = find_idem k (claimed h ks s)" by (simp add: assms(2))
  ultimately show "find_idem k (saved ks resp s') = Some x"
    using x(1) by (simp add: find_idem_saved find_idem_claimed)
qed

lemma grows_view_left:
  assumes "inv_view t = inv_view s" and "grows t u" and "keeps_responses s v" and "inv_view v = inv_view u"
  shows "grows s v"
proof -
  have "keeps_reservations s v"
    using assms(2) inv_view_same(1,4) [OF assms(1)] inv_view_same(1,4) [OF assms(4)]
    by (simp add: grows_def keeps_reservations_def)
  then show ?thesis
    using assms(2,3) inv_view_no_archived [OF assms(1)] inv_view_no_archived [OF assms(4)]
    by (simp add: grows_def)
qed

section \<open>The envelope keeps what the operation keeps\<close>

text \<open>What an operation has to guarantee to be run inside the envelope.\<close>

definition envelope_within :: "string set \<Rightarrow> 'a itx \<Rightarrow> bool" where
  "envelope_within M fn \<longleftrightarrow> (\<forall>w s n. inv_ok s \<longrightarrow>
     wp fn (\<lambda>_ s' _. effects {} M s s' \<and> idempotency s' = idempotency s) (\<lambda>_ _ _. True) w s n)"

definition envelope_ok :: "'a itx \<Rightarrow> bool" where
  "envelope_ok fn \<longleftrightarrow> envelope_within UNIV fn"

lemma envelope_within_mono: "envelope_within M fn \<Longrightarrow> M \<subseteq> M' \<Longrightarrow> envelope_within M' fn"
  unfolding envelope_within_def by (blast intro: wp_mono effects_mono)

lemma envelope_within_ok: "envelope_within M fn \<Longrightarrow> envelope_ok fn"
  unfolding envelope_ok_def by (erule envelope_within_mono) simp

lemma envelope_okD:
  "envelope_ok fn \<Longrightarrow> inv_ok s \<Longrightarrow>
    wp fn (\<lambda>_ s' _. advances s s' \<and> idempotency s' = idempotency s) (\<lambda>_ _ _. True) w s n"
  unfolding envelope_ok_def envelope_within_def effects_def by (blast intro: wp_mono)

lemma advances_envelope:
  assumes "inv_ok s" and "fresh_keys ks s"
    and "advances (claimed h ks s) s'" and "idempotency s' = idempotency (claimed h ks s)"
  shows "advances s (saved ks resp s')"
proof -
  have "grows s (saved ks resp s')"
    by (rule grows_view_left [of "claimed h ks s" _ s'])
       (use assms keeps_responses_envelope in \<open>auto simp: advances_def\<close>)
  with assms(3) show ?thesis by (simp add: advances_def)
qed

lemma status_of_claimed [simp]: "status_of (claimed h ks s) rid = status_of s rid"
  and status_of_saved [simp]: "status_of (saved ks resp s) rid = status_of s rid"
  by (simp_all add: claimed_def saved_def status_of_def)

lemma effects_envelope:
  assumes "inv_ok s" and "fresh_keys ks s" and "set ks \<subseteq> K"
    and "effects {} M (claimed h ks s) s'" and "idempotency s' = idempotency (claimed h ks s)"
  shows "effects K M s (saved ks resp s')"
  unfolding effects_def
proof (intro conjI allI impI)
  show "advances s (saved ks resp s')"
    using assms(4) by (intro advances_envelope [OF assms(1,2) _ assms(5)]) (simp add: effects_def)
  show "find_idem k (saved ks resp s') = find_idem k s" if "k \<notin> K" for k
  proof -
    have "find_idem k s' = find_idem k (claimed h ks s)" by (simp add: assms(5))
    with that assms(3) show ?thesis
      by (auto simp: find_idem_saved find_idem_claimed option.map_ident split: option.split)
  qed
  show "idle (status_of s rid) (status_of (saved ks resp s') rid)" if "rid \<notin> M" for rid
    using assms(4) that unfolding effects_def by fastforce
qed

lemma wp_mutateKeys_effects:
  assumes inv: "inv_ok s" and fn: "envelope_within M fn"
  shows "wp (mutateKeys enc dec svc keys input fn) (\<lambda>_ s' _. effects (set keys) M s s')
    (\<lambda>_ s' _. effects (set keys) M s s') w s n"
proof -
  let ?h = "s_hash svc input" and ?P = "effects (set keys) M s"
  let ?Q = "\<lambda>r s' (_::nat). case r of Commit a \<Rightarrow> \<forall>k::nat. ?P s' \<and> ?P s' | Discard a \<Rightarrow> \<forall>k::nat. ?P s"
  have refl: "?P s" using inv by (rule effects_refl)
  have save: "wp (bindT (forT ks (save_response resp)) (\<lambda>_. ret (Commit a))) ?Q (\<lambda>_ _ _. \<forall>k::nat. ?P s) w s' n'"
    if "fresh_keys ks s" "set ks \<subseteq> set keys" "effects {} M (claimed ?h ks s) s'"
      "idempotency s' = idempotency (claimed ?h ks s)" for ks resp a s' n'
    unfolding wp_bindT wp_ret
    by (rule wp_save_all) (use that refl one_row_claimed effects_envelope [OF inv] in auto)
  have "wp (mutate_body enc dec ?h keys fn) ?Q (\<lambda>_ _ _. \<forall>k::nat. ?P s) w s (Suc n)"
    unfolding mutate_body_def
  proof (rule wpi_bindT, rule wp_claim_keys [where ?s0.0 = s and K = "set keys"])
    fix cl rp n' assume cl: "fresh_keys cl s" "set cl \<subseteq> set keys"
    show "wp (case (cl, rp) of (cs, replay) \<Rightarrow>
       (case replay of
         Some resp \<Rightarrow>
           (case dec resp of
              None \<Rightarrow> throw ErrDecode
            | Some result \<Rightarrow>
                if cs = [] then ret (Discard result)
                else bindT (forT cs (save_response resp)) (\<lambda>_. ret (Commit result)))
       | None \<Rightarrow>
           bindT fn (\<lambda>result.
           bindT (forT cs (save_response (enc result))) (\<lambda>_. ret (Commit result)))))
      ?Q (\<lambda>_ _ _. \<forall>k::nat. ?P s) w (claimed ?h cl s) n'"
    proof (cases rp)
      case None
      have "wp fn (\<lambda>_ s' _. effects {} M (claimed ?h cl s) s' \<and> idempotency s' = idempotency (claimed ?h cl s))
          (\<lambda>_ _ _. True) w (claimed ?h cl s) n'"
        using fn inv by (simp add: envelope_within_def)
      with None show ?thesis
        using save cl refl by (auto simp: wp_bindT [of fn] elim!: wp_mono)
    next
      case (Some resp)
      have "effects {} M (claimed ?h cl s) (claimed ?h cl s)" using inv by (simp add: effects_refl)
      note save [OF cl this HOL.refl]
      with Some show ?thesis
        using refl by (auto simp: wp_ret wp_throw split: option.splits)
    qed
  qed (auto simp: fresh_keys_def refl)
  then show ?thesis
    unfolding mutateKeys_def using refl by (auto simp: wp_throw intro!: wpi_atomically)
qed

lemma wp_mutateKeys:
  assumes "inv_ok s" and "envelope_ok fn"
  shows "wp (mutateKeys enc dec svc keys input fn) (\<lambda>_ s' _. advances s s') (\<lambda>_ s' _. advances s s') w s n"
  using wp_mutateKeys_effects [OF assms [unfolded envelope_ok_def]] by (rule wp_mono) (simp_all add: effects_def)

section \<open>One key\<close>

definition committed :: "mutation_key \<Rightarrow> string \<Rightarrow> response \<Rightarrow> inv_db \<Rightarrow> bool" where
  "committed k h resp s \<longleftrightarrow> (\<exists>x. find_idem k s = Some x \<and> id_Hash x = h \<and> id_Response x = Some resp)"

lemma committed_grows: "committed k h resp s \<Longrightarrow> grows s s' \<Longrightarrow> committed k h resp s'"
  unfolding committed_def grows_def keeps_responses_def by (metis option.distinct(1))

lemma find_idem_key: "find_idem k s = None \<longleftrightarrow> k \<notin> id_Key ` set (idempotency s)"
  by (auto simp: find_None_iff_all)

lemma wp_mutate_body_replay:
  assumes "committed k h resp s" and "dec resp = Some a"
  shows "wp (mutate_body enc dec h [k] fn) (\<lambda>r s' _. r = Discard a) (\<lambda>e _ n'. e = ErrStorage \<and> \<not> no_faults w) w s n"
proof -
  from assms(1) obtain x where x: "find_idem k s = Some x" "id_Hash x = h" "id_Response x = Some resp"
    by (auto simp: committed_def)
  then have "k \<in> id_Key ` set (idempotency s)"
    by (auto dest: find_SomeD)
  with x assms(2) show ?thesis
    by (auto simp: mutate_body_def insert_idem_def wp_rules no_faults_def)
qed

lemma wp_mutate_replay:
  assumes "committed (op, key) (s_hash svc input) resp s" and "dec resp = Some a"
  shows "wp (mutate enc dec svc op key input fn) (\<lambda>a' s' _. a' = a \<and> s' = s)
    (\<lambda>e s' _. e = ErrStorage \<and> s' = s \<and> \<not> no_faults w) w s n"
proof -
  have "wp (mutate_body enc dec (s_hash svc input) [(op, key)] fn)
      (\<lambda>r s' _. r = Discard a) (\<lambda>e _ n'. e = ErrStorage \<and> \<not> no_faults w) w s (Suc n)"
    by (rule wp_mutate_body_replay) (fact assms)+
  then show ?thesis
    by (auto simp: wp_def mutate_def mutateKeys_def atomically_def no_faults_def
        split: sum.splits prod.splits outcome.splits)
qed

lemma wp_mutate_conflict:
  assumes "committed (op, key) h resp s" and "h \<noteq> s_hash svc input"
  shows "wp (mutate enc dec svc op key input fn) (\<lambda>_ _ _. False)
    (\<lambda>e s' _. s' = s \<and> (e = ErrConflict \<or> e = ErrStorage \<and> \<not> no_faults w)) w s n"
proof -
  from assms(1) obtain x where x: "find_idem (op, key) s = Some x" "id_Hash x = h"
    by (auto simp: committed_def)
  then have "(op, key) \<in> id_Key ` set (idempotency s)"
    using find_idem_key [of "(op, key)" s] by simp
  with x assms(2) have "wp (mutate_body enc dec (s_hash svc input) [(op, key)] fn) (\<lambda>_ _ _. False)
      (\<lambda>e _ _. e = ErrConflict \<or> e = ErrStorage \<and> \<not> no_faults w) w s (Suc n)"
    by (auto simp: mutate_body_def insert_idem_def wp_rules no_faults_def)
  then show ?thesis
    by (auto simp: wp_def mutate_def mutateKeys_def atomically_def no_faults_def
        split: sum.splits prod.splits outcome.splits)
qed

text \<open>The first call: the operation runs, and its response is saved with what it did.\<close>

lemma wp_mutate_first:
  assumes new: "find_idem (op, key) s = None" and h: "h = s_hash svc input"
    and fn: "\<And>n. wp fn (\<lambda>a s' _. R a s' \<and> idempotency s' = idempotency (claimed h [(op, key)] s))
        (\<lambda>e _ _. F e) w (claimed h [(op, key)] s) n"
  shows "wp (mutate enc dec svc op key input fn)
    (\<lambda>a s' _. \<exists>s1. R a s1 \<and> s' = saved [(op, key)] (enc a) s1 \<and> committed (op, key) h (enc a) s')
    (\<lambda>e s' _. (e = ErrStorage \<or> F e) \<and> s' = s \<or>
       e = ErrStorage \<and> (\<exists>a s1. R a s1 \<and> s' = saved [(op, key)] (enc a) s1 \<and> committed (op, key) h (enc a) s')) w s n"
    (is "wp _ ?Q ?E w s n")
proof -
  let ?k = "(op, key)"
  have fresh: "fresh_keys [?k] s"
    using new by (simp add: fresh_keys_def find_idem_key)
  have com: "committed ?k h (enc a) (saved [?k] (enc a) s1)"
    if "idempotency s1 = idempotency (claimed h [?k] s)" for a s1
  proof -
    have "find_idem ?k s1 = find_idem ?k (claimed h [?k] s)" by (simp add: that)
    then show ?thesis
      using new by (simp add: committed_def find_idem_saved find_idem_claimed)
  qed
  let ?B = "\<lambda>r s' (_::nat). case r of Commit a \<Rightarrow> \<forall>k. ?Q a s' k \<and> ?E ErrStorage s' k | Discard a \<Rightarrow> \<forall>k. ?Q a s k"
  let ?F = "\<lambda>e (_::inv_db) (_::nat). \<forall>k. ?E e s k"
  have tail: "wp (bindT (forT [?k] (save_response (enc a))) (\<lambda>_. ret (Commit a))) ?B ?F w s1 n1"
    if "R a s1" "idempotency s1 = idempotency (claimed h [?k] s)" for a s1 n1
    unfolding wp_bindT wp_ret
    by (rule wp_save_all) (use that com one_row_claimed [OF fresh _ that(2)] in auto)
  have body: "wp (bindT fn (\<lambda>a. bindT (forT [?k] (save_response (enc a))) (\<lambda>_. ret (Commit a)))) ?B ?F w (claimed h [?k] s) n1" for n1
    unfolding wp_bindT [of fn]
    using fn [of n1] tail by (elim wp_mono) auto
  have "?k \<notin> id_Key ` set (idempotency s)" using new by (simp add: find_idem_key)
  then have claim: "wp (claim_keys h [?k] None [] None) Q E w s n'"
    if "\<And>n'. Q ([?k], None) (claimed h [?k] s) n'" "\<And>s n'. E ErrStorage s n'" for Q E n'
    using that by (simp add: insert_idem_def wp_rules claimed_def)
  have "wp (mutate_body enc dec h [?k] fn) ?B ?F w s (Suc n)"
    unfolding mutate_body_def sort_key_simps insort_key.simps
    by (rule wpi_bindT, rule claim) (simp_all only: prod.case option.case body, simp_all)
  then show ?thesis
    unfolding mutate_def mutateKeys_def h [symmetric] by (auto intro!: wpi_atomically)
qed

section \<open>The contract of an idempotent operation\<close>

text \<open>
  An operation \<open>fn\<close> that runs inside \<open>mutate\<close>: its response survives the round trip through the
  table, and on a valid input it keeps the invariant and leaves the saved responses alone.
\<close>

locale mutation =
  fixes enc :: "'a \<Rightarrow> response" and dec :: "response \<Rightarrow> 'a option" and svc :: service
    and op :: string and body :: "'i \<Rightarrow> request" and fn :: "'i \<Rightarrow> 'a itx" and valid :: "'i \<Rightarrow> bool"
  assumes dec_enc: "dec (enc a) = Some a"
    and fn_ok: "valid i \<Longrightarrow> envelope_ok (fn i)"
begin

text \<open>The state after a call, and the response that is on record.\<close>

lemma call_advances:
  "valid i \<Longrightarrow> inv_ok s \<Longrightarrow>
    wp (mutate enc dec svc op key (body i) (fn i)) (\<lambda>_ s' _. advances s s') (\<lambda>_ s' _. advances s s') w s n"
  unfolding mutate_def by (intro wp_mutateKeys fn_ok)

lemma call_effect:
  assumes "valid i" and "inv_ok s"
  shows "wp (mutate enc dec svc op key (body i) (fn i))
    (\<lambda>a s' _. \<exists>resp. committed (op, key) (s_hash svc (body i)) resp s' \<and> dec resp = Some a)
    (\<lambda>e s' _. s' = s \<or> e = ErrStorage \<and>
       (\<exists>a. committed (op, key) (s_hash svc (body i)) (enc a) s')) w s n"
proof (cases "find_idem (op, key) s")
  case None
  have "inv_ok (claimed h ks s)" for h ks using assms(2) by simp
  then have fn: "wp (fn i) (\<lambda>_ s' _. True \<and> idempotency s' = idempotency (claimed h ks s)) (\<lambda>_ _ _. True) w (claimed h ks s) n" for n h ks
    using envelope_okD [OF fn_ok [OF assms(1)]] by (blast intro: wp_mono)
  show ?thesis
    by (rule wp_mono [OF wp_mutate_first [OF None refl fn]]) (auto simp: dec_enc)
next
  case (Some x)
  have row: "(op, key) \<in> id_Key ` set (idempotency s)"
    using Some find_idem_key [of "(op, key)" s] by simp
  have "wp (mutate_body enc dec (s_hash svc (body i)) [(op, key)] (fn i))
      (\<lambda>r s' _. \<exists>a. r = Discard a \<and> (\<exists>resp. committed (op, key) (s_hash svc (body i)) resp s \<and> dec resp = Some a))
      (\<lambda>_ _ _. True) w s (Suc n)"
    using Some row
    by (auto simp: mutate_body_def insert_idem_def committed_def wp_rules split: option.split)
  then show ?thesis
    by (auto simp: wp_def mutate_def mutateKeys_def atomically_def split: sum.splits prod.splits outcome.splits)
qed

text \<open>
  A retry, after any further evolution of the tables: the first call answered, or it took effect
  and its answer was lost. Either way the retry changes nothing and gives the one answer.
\<close>

lemma retry:
  assumes "valid i" and "inv_ok s" and run: "mutate enc dec svc op key (body i) (fn i) w s n = (r, s1, n1)"
    and took: "(\<exists>a. r = Inr a) \<or> s1 \<noteq> s" and "grows s1 s2"
  shows "\<exists>a. (\<forall>a'. r = Inr a' \<longrightarrow> a' = a) \<and>
    (\<forall>fn' w' n'. wp (mutate enc dec svc op key (body i) fn') (\<lambda>a' s' _. a' = a \<and> s' = s2)
      (\<lambda>e s' _. e = ErrStorage \<and> s' = s2 \<and> \<not> no_faults w') w' s2 n')"
proof -
  note eff = call_effect [OF assms(1,2), of key w n]
  have "\<exists>a resp. (\<forall>a'. r = Inr a' \<longrightarrow> a' = a) \<and>
      committed (op, key) (s_hash svc (body i)) resp s1 \<and> dec resp = Some a"
  proof (cases r)
    case (Inl e)
    with wp_runD(2) [OF eff] run took show ?thesis by (auto intro: dec_enc)
  next
    case (Inr a)
    with wp_runD(1) [OF eff] run show ?thesis by auto
  qed
  then obtain a resp where a: "\<forall>a'. r = Inr a' \<longrightarrow> a' = a" "dec resp = Some a"
    and "committed (op, key) (s_hash svc (body i)) resp s1" by blast
  then have "committed (op, key) (s_hash svc (body i)) resp s2"
    using assms(5) committed_grows by blast
  with a show ?thesis
    by (intro exI [of _ a] conjI allI wp_mutate_replay) auto
qed

lemma reuse_conflicts:
  assumes "valid i" and "inv_ok s" and run: "mutate enc dec svc op key (body i) (fn i) w s n = (r, s1, n1)"
    and took: "(\<exists>a. r = Inr a) \<or> s1 \<noteq> s" and "grows s1 s2"
    and "s_hash svc (body j) \<noteq> s_hash svc (body i)"
  shows "wp (mutate enc dec svc op key (body j) fn') (\<lambda>_ _ _. False)
    (\<lambda>e s' _. s' = s2 \<and> (e = ErrConflict \<or> e = ErrStorage \<and> \<not> no_faults w')) w' s2 n'"
proof -
  note eff = call_effect [OF assms(1,2), of key w n]
  have "\<exists>resp. committed (op, key) (s_hash svc (body i)) resp s1"
  proof (cases r)
    case (Inl e)
    with wp_runD(2) [OF eff] run took show ?thesis by auto
  next
    case (Inr a)
    with wp_runD(1) [OF eff] run show ?thesis by auto
  qed
  then obtain resp where "committed (op, key) (s_hash svc (body i)) resp s2"
    using assms(5) committed_grows by blast
  then show ?thesis
    using assms(6) by (intro wp_mutate_conflict) auto
qed

end

end
