(* ===== verification/Inventory_Reserve.thy ===== *)
theory Inventory_Reserve
  imports Inventory_Idem
begin

text \<open>
  Reservation: the first-expired-first-out plan, as a pure function \<open>fefo\<close> that the loop over
  the rows is shown to compute, and the transaction \<open>reserve_tx\<close> that carries the plan out.
\<close>

section \<open>The plan\<close>

text \<open>What is taken from which batch, in order, to get \<open>n\<close> portions.\<close>

fun fefo :: "batch list \<Rightarrow> int \<Rightarrow> (batch \<times> int) list" where
  "fefo [] n = []"
| "fefo (b # bs) n =
     (if n = 0 then []
      else (b, min n (b_Available b)) # fefo bs (n - min n (b_Available b)))"

definition row_supply :: "batch list \<Rightarrow> int" where
  "row_supply bs = sum_list (map b_Available bs)"

definition taken :: "(batch \<times> int) list \<Rightarrow> int" where
  "taken ps = sum_list (map snd ps)"

lemma row_supply_nonneg: "\<forall>b\<in>set bs. 0 < b_Available b \<Longrightarrow> 0 \<le> row_supply bs"
  by (induction bs) (auto simp: row_supply_def)

lemma fefo_zero [simp]: "fefo bs 0 = []"
  by (cases bs) auto

lemma taken_fefo:
  "\<forall>b\<in>set bs. 0 < b_Available b \<Longrightarrow> 0 \<le> n \<Longrightarrow> taken (fefo bs n) = min n (row_supply bs)"
proof (induction bs arbitrary: n)
  case Nil
  then show ?case by (simp add: taken_def row_supply_def)
next
  case (Cons b bs)
  then have IH: "taken (fefo bs (n - min n (b_Available b))) = min (n - min n (b_Available b)) (row_supply bs)"
    by (intro Cons.IH) auto
  have "0 \<le> row_supply bs" "0 < b_Available b" using Cons.prems row_supply_nonneg by auto
  with IH Cons.prems(2) show ?case
    by (auto simp: taken_def row_supply_def min_def)
qed

lemma fefo_pick:
  "\<forall>b\<in>set bs. 0 < b_Available b \<Longrightarrow> 0 \<le> n \<Longrightarrow> (b, k) \<in> set (fefo bs n) \<Longrightarrow>
    b \<in> set bs \<and> 0 < k \<and> k \<le> b_Available b"
proof (induction bs arbitrary: n)
  case (Cons c bs)
  show ?case
  proof (cases "(b, k) \<in> set (fefo bs (n - min n (b_Available c)))")
    case True
    with Cons.IH [OF _ _ True] Cons.prems show ?thesis by (auto simp: min_def split: if_splits)
  next
    case False
    with Cons.prems show ?thesis by (auto simp: min_def split: if_splits)
  qed
qed simp

lemma fefo_prefix: "prefix (map fst (fefo bs n)) bs"
  by (induction bs n rule: fefo.induct) auto

lemma fefo_distinct: "distinct (map b_ID bs) \<Longrightarrow> distinct (map (\<lambda>bn. b_ID (fst bn)) (fefo bs n))"
proof -
  assume d: "distinct (map b_ID bs)"
  obtain zs where "bs = map fst (fefo bs n) @ zs" using fefo_prefix [of bs n] by (auto simp: prefix_def)
  with d have "distinct (map b_ID (map fst (fefo bs n)))" by (metis distinct_append map_append)
  then show ?thesis by (simp add: comp_def)
qed

text \<open>Whatever comes before a batch that is used is used up.\<close>

lemma fefo_drained:
  "\<forall>b\<in>set bs. 0 < b_Available b \<Longrightarrow> 0 \<le> n \<Longrightarrow> map fst (fefo bs n) = xs @ c # ys @ b # zs \<Longrightarrow>
    (c, b_Available c) \<in> set (fefo bs n)"
proof (induction bs arbitrary: n xs)
  case (Cons d bs)
  let ?m = "n - min n (b_Available d)"
  have n: "n \<noteq> 0" using Cons.prems(3) by (auto split: if_splits)
  show ?case
  proof (cases "xs = []")
    case True
    with Cons.prems(3) n have "d = c" "fefo bs ?m \<noteq> []" by auto
    then have "?m \<noteq> 0" by auto
    with Cons.prems(2) have "min n (b_Available d) = b_Available d" by (auto simp: min_def split: if_splits)
    with n \<open>d = c\<close> show ?thesis by simp
  next
    case False
    then obtain x xs' where xs: "xs = x # xs'" by (cases xs) auto
    with Cons.prems(3) n have "map fst (fefo bs ?m) = xs' @ c # ys @ b # zs" by auto
    with Cons.prems Cons.IH [of ?m xs'] have "(c, b_Available c) \<in> set (fefo bs ?m)" by auto
    with n show ?thesis by simp
  qed
qed simp

text \<open>How the plan record represents the picks.\<close>

definition alloc_of :: "batch \<times> int \<Rightarrow> allocation" where
  "alloc_of bn = \<lparr>al_FlavorID = b_FlavorID (fst bn), al_BatchID = b_ID (fst bn), al_Portions = snd bn\<rparr>"

lemma alloc_of_simps [simp]:
  "al_FlavorID (alloc_of bn) = b_FlavorID (fst bn)" "al_BatchID (alloc_of bn) = b_ID (fst bn)"
  "al_Portions (alloc_of bn) = snd bn"
  by (simp_all add: alloc_of_def)

definition drawn :: "batch \<times> int \<Rightarrow> batch" where
  "drawn bn = (fst bn)\<lparr>b_Available := b_Available (fst bn) - snd bn, b_Reserved := b_Reserved (fst bn) + snd bn\<rparr>"

definition plan_of :: "plan \<Rightarrow> (batch \<times> int) list \<Rightarrow> bool" where
  "plan_of p picks \<longleftrightarrow> p_allocs p = map alloc_of picks \<and>
     (\<forall>bn\<in>set picks. p_batches p (b_ID (fst bn)) = Some (drawn bn) \<and> p_expires p \<le> b_ExpiresAt (fst bn))"

lemma take_rows_plan:
  assumes "plan_of p picks" and "distinct (map (\<lambda>bn. b_ID (fst bn)) picks @ map b_ID rows)"
    and "take_rows rows n p = (n', p')"
  shows "plan_of p' (picks @ fefo rows n) \<and> n' = n - taken (fefo rows n) \<and> p_expires p' \<le> p_expires p"
  using assms
proof (induction rows n p arbitrary: picks rule: take_rows.induct)
  case (1 needed p)
  then show ?case by (simp add: taken_def)
next
  case (2 b bs needed p)
  show ?case
  proof (cases "needed = 0")
    case True
    with "2.prems" "2.IH"(1) [OF True, of picks] show ?thesis by (auto simp: taken_def)
  next
    case False
    let ?n = "min needed (b_Available b)"
    let ?b = "drawn (b, ?n)"
    let ?p = "p\<lparr>p_batches := (p_batches p)(b_ID ?b \<mapsto> ?b),
      p_allocs := p_allocs p @ [\<lparr>al_FlavorID = b_FlavorID ?b, al_BatchID = b_ID ?b, al_Portions = ?n\<rparr>],
      p_expires := (if b_ExpiresAt ?b < p_expires p then b_ExpiresAt ?b else p_expires p)\<rparr>"
    have eq: "take_rows bs (needed - ?n) ?p = (n', p')"
      using "2.prems"(3) False by (simp add: Let_def drawn_def split del: if_split cong: if_cong)
    have "plan_of ?p (picks @ [(b, ?n)])"
      using "2.prems"(1,2) by (force simp: plan_of_def alloc_of_def drawn_def)
    moreover have "distinct (map (\<lambda>bn. b_ID (fst bn)) (picks @ [(b, ?n)]) @ map b_ID bs)"
      using "2.prems"(2) by auto
    ultimately have "plan_of p' ((picks @ [(b, ?n)]) @ fefo bs (needed - ?n)) \<and>
        n' = needed - ?n - taken (fefo bs (needed - ?n)) \<and> p_expires p' \<le> p_expires ?p"
      using "2.IH"(2) [OF False refl, of ?b "picks @ [(b, ?n)]"] eq by (simp add: drawn_def)
    with False show ?thesis by (auto simp: taken_def split: if_splits)
  qed
qed

section \<open>The plan of a whole request\<close>

lemma fefo_rows_facts:
  assumes "wf_tables s"
  shows "distinct (map b_ID (fefo_rows fl t s))" and "\<forall>b\<in>set (fefo_rows fl t s). 0 < b_Available b"
    and "b \<in> set (fefo_rows fl t s) \<Longrightarrow> \<exists>x\<in>set (batches s). b = scan_row x \<and> b_FlavorID x = fl \<and>
       b_Status x = BActive \<and> t < b_ExpiresAt x"
proof -
  let ?p = "\<lambda>b::batch_row. b_FlavorID b = fl \<and> b_Status b = BActive \<and> b_Available b > 0 \<and> b_ExpiresAt b > t"
  let ?xs = "sort_key batch_order (filter ?p (batches s))"
  have "distinct (map b_ID (filter ?p (batches s)))"
    using assms by (simp add: wf_tables_def distinct_map_filter)
  then have "distinct (map b_ID ?xs)"
    by (simp add: distinct_map)
  then show "distinct (map b_ID (fefo_rows fl t s))"
    by (simp add: fefo_rows_def comp_def)
qed (auto simp: fefo_rows_def)

definition planned :: "inv_db \<Rightarrow> time \<Rightarrow> item \<Rightarrow> (batch \<times> int) list" where
  "planned s t x = fefo (fefo_rows (it_FlavorID x) t s) (it_Portions x)"

definition in_stock :: "inv_db \<Rightarrow> time \<Rightarrow> item \<Rightarrow> bool" where
  "in_stock s t x \<longleftrightarrow> it_Portions x \<le> row_supply (fefo_rows (it_FlavorID x) t s)"

definition picks_ok :: "inv_db \<Rightarrow> time \<Rightarrow> (batch \<times> int) list \<Rightarrow> bool" where
  "picks_ok s t picks \<longleftrightarrow> distinct (map (\<lambda>bn. b_ID (fst bn)) picks) \<and>
     (\<forall>(b, k)\<in>set picks. 0 < k \<and> k \<le> b_Available b \<and>
        (\<exists>x\<in>set (batches s). b = scan_row x \<and> b_Status x = BActive \<and> t < b_ExpiresAt x))"

lemma wp_plan_items:
  assumes "plan_of p picks" and "picks_ok s t picks" and wf: "wf_tables s"
    and "distinct (map it_FlavorID items)" and "\<forall>x\<in>set items. 0 < it_Portions x"
    and "\<forall>bn\<in>set picks. b_FlavorID (fst bn) \<notin> it_FlavorID ` set items"
    and "\<And>p' n'. plan_of p' (picks @ concat (map (planned s t) items)) \<Longrightarrow>
      picks_ok s t (picks @ concat (map (planned s t) items)) \<Longrightarrow>
      p_expires p' \<le> p_expires p \<Longrightarrow> \<forall>x\<in>set items. in_stock s t x \<Longrightarrow> Q p' s n'"
    and "\<And>s n. E ErrStorage s n" and "\<not> (\<forall>x\<in>set items. in_stock s t x) \<Longrightarrow> \<forall>s n. E ErrStock s n"
  shows "wp (plan_items items t p) Q E w s n"
  using assms(1,2,4-)
proof (induction items arbitrary: p picks n)
  case Nil
  then show ?case by (simp add: wp_ret)
next
  case (Cons x xs p picks m)
  let ?rows = "fefo_rows (it_FlavorID x) t s"
  note rows = fefo_rows_facts [OF wf]
  obtain n' p' where tr: "take_rows ?rows (it_Portions x) p = (n', p')"
    by (cases "take_rows ?rows (it_Portions x) p")
  have pos: "0 < it_Portions x" using Cons.prems by simp
  have flav: "b_FlavorID b = it_FlavorID x" if "b \<in> set ?rows" for b
    using rows(3) [OF that] by auto
  have disj: "b_ID (fst bn) \<noteq> b_ID b" if bn: "bn \<in> set picks" and b: "b \<in> set ?rows" for bn b
  proof
    assume eq: "b_ID (fst bn) = b_ID b"
    obtain y where y: "y \<in> set (batches s)" "fst bn = scan_row y"
      using Cons.prems(2) bn by (fastforce simp: picks_ok_def)
    obtain z where z: "z \<in> set (batches s)" "b = scan_row z"
      using rows(3) [OF b] by auto
    have "y = z" using wf y z eq by (auto simp: wf_tables_def dest: distinct_key_eq)
    with y z flav [OF b] Cons.prems(5) bn show False by auto
  qed
  have "distinct (map (\<lambda>bn. b_ID (fst bn)) picks @ map b_ID ?rows)"
    using Cons.prems(2) rows(1) disj by (auto simp: picks_ok_def)
  from take_rows_plan [OF Cons.prems(1) this tr]
  have plan: "plan_of p' (picks @ planned s t x)" and n': "n' = it_Portions x - taken (planned s t x)"
    and exp: "p_expires p' \<le> p_expires p"
    by (auto simp: planned_def)
  have take: "taken (planned s t x) = min (it_Portions x) (row_supply ?rows)"
    using rows(2) pos unfolding planned_def by (intro taken_fefo) auto
  have stock: "n' > 0 \<longleftrightarrow> \<not> in_stock s t x"
    by (auto simp: n' take in_stock_def)
  have pick: "b \<in> set ?rows \<and> 0 < k \<and> k \<le> b_Available b" if "(b, k) \<in> set (planned s t x)" for b k
    using fefo_pick [of ?rows "it_Portions x" b k] rows(2) pos that by (auto simp: planned_def)
  have ok: "picks_ok s t (picks @ planned s t x)"
  proof -
    have "distinct (map (\<lambda>bn. b_ID (fst bn)) (planned s t x))"
      unfolding planned_def by (rule fefo_distinct [OF rows(1)])
    moreover have "b_ID (fst bn) \<noteq> b_ID (fst bm)" if "bn \<in> set picks" "bm \<in> set (planned s t x)" for bn bm
      using disj [OF that(1), of "fst bm"] pick [of "fst bm" "snd bm"] that(2) by simp
    ultimately have "distinct (map (\<lambda>bn. b_ID (fst bn)) (picks @ planned s t x))"
      using Cons.prems(2) by (fastforce simp: picks_ok_def)
    moreover have "\<exists>y\<in>set (batches s). b = scan_row y \<and> b_Status y = BActive \<and> t < b_ExpiresAt y"
      if "(b, k) \<in> set (planned s t x)" for b k
      using rows(3) [of b] pick [OF that] by auto
    ultimately show ?thesis
      using Cons.prems(2) pick by (auto simp: picks_ok_def)
  qed
  have "wp (plan_items xs t p') Q E w s m" if "in_stock s t x" for m
  proof (rule Cons.IH [OF plan ok])
    show "\<forall>bn\<in>set (picks @ planned s t x). b_FlavorID (fst bn) \<notin> it_FlavorID ` set xs"
      using Cons.prems(3,5) pick flav by fastforce
    show "\<forall>s n. E ErrStock s n" if "\<not> (\<forall>x\<in>set xs. in_stock s t x)"
      using that Cons.prems(8) by auto
  qed (use Cons.prems exp that in auto)
  then show ?case
    using Cons.prems(7,8) stock tr by (auto simp: wp_bindT wp_query wp_throw)
qed

section \<open>Carrying out the plan\<close>

lemma held_append_allocation:
  assumes "status_of s (ar_ReservationID a) = Some st0"
  shows "held (s\<lparr>allocations := allocations s @ [a]\<rparr>) st i =
    held s st i + (if st = st0 \<and> ar_BatchID a = i then ar_Portions a else 0)"
  using assms by (auto simp: held_def status_of_def)

lemma inv_off_add_allocation:
  assumes inv: "inv_off d e s" and st: "status_of s (ar_ReservationID a) = Some RActive" and wf: "wf_allocation s a"
  shows "inv_off (d(ar_BatchID a := d (ar_BatchID a) + ar_Portions a)) e (s\<lparr>allocations := allocations s @ [a]\<rparr>)"
proof -
  let ?s = "s\<lparr>allocations := allocations s @ [a]\<rparr>"
  have mono: "wf_allocation ?s b" if "wf_allocation s b" for b
    by (rule wf_allocation_mono [OF that]) auto
  have "wf_tables ?s"
    using inv_offD(1) [OF inv] mono wf by (auto simp: wf_tables_def)
  moreover have "ledger (d(ar_BatchID a := d (ar_BatchID a) + ar_Portions a)) e ?s x" if "x \<in> set (batches s)" for x
    using inv_offD(3) [OF inv that] unfolding ledger_def held_append_allocation [OF st] by auto
  ultimately show ?thesis
    using inv_offD(2) [OF inv] by (simp add: inv_off_def)
qed

text \<open>The new reservation, before it has allocations.\<close>

lemma inv_ok_insert_reservation:
  assumes inv: "inv_ok s" and new: "rr_ID r \<noteq> []" "rr_ID r \<notin> rr_ID ` set (reservations s)"
    "rr_OrderID r \<notin> rr_OrderID ` set (reservations s)"
  shows "inv_ok (s\<lparr>reservations := reservations s @ [r]\<rparr>)"
proof -
  let ?s = "s\<lparr>reservations := reservations s @ [r]\<rparr>"
  have wf: "wf_tables s" using inv by (simp add: inv_ok_def inv_off_def)
  have st: "status_of ?s (ar_ReservationID a) = status_of s (ar_ReservationID a)" if "a \<in> set (allocations s)" for a
  proof -
    have "wf_allocation s a" using wf that by (simp add: wf_tables_def)
    then obtain q where "q \<in> set (reservations s)" "rr_ID q = ar_ReservationID a" by (auto simp: wf_allocation_def)
    then have "find (\<lambda>r. rr_ID r = ar_ReservationID a) (reservations s) \<noteq> None"
      by (auto simp: find_None_iff_all)
    then show ?thesis by (auto simp: status_of_def find_append)
  qed
  have held: "held ?s st i = held s st i" for st i
    unfolding held_def by (simp, intro sum_where_cong) (use st in auto)
  have mono: "wf_allocation ?s b" if "wf_allocation s b" for b
    by (rule wf_allocation_mono [OF that]) auto
  have "wf_tables ?s"
    using wf mono new by (auto simp: wf_tables_def)
  moreover have "wf_batch x \<and> ledger no_off no_off ?s x" if "x \<in> set (batches s)" for x
    using inv inv_offD(2,3) [of no_off no_off s x] that by (auto simp: inv_ok_def ledger_def held)
  ultimately show ?thesis by (simp add: inv_ok_def inv_off_def)
qed

definition new_allocation :: "string \<Rightarrow> nat \<times> allocation \<Rightarrow> allocation_row" where
  "new_allocation rid ia = \<lparr>ar_ReservationID = rid, ar_BatchID = al_BatchID (snd ia),
     ar_FlavorID = al_FlavorID (snd ia), ar_Portions = al_Portions (snd ia), ar_Position = fst ia\<rparr>"

lemma new_allocation_simps [simp]:
  "ar_ReservationID (new_allocation rid ia) = rid" "ar_BatchID (new_allocation rid ia) = al_BatchID (snd ia)"
  "ar_FlavorID (new_allocation rid ia) = al_FlavorID (snd ia)"
  "ar_Portions (new_allocation rid ia) = al_Portions (snd ia)" "ar_Position (new_allocation rid ia) = fst ia"
  by (simp_all add: new_allocation_def)

text \<open>One allocation: the batch, the allocation row and the movement together keep the invariant.\<close>

lemma inv_ok_allocate:
  assumes inv: "inv_ok s" and x: "x \<in> set (batches s)" and k: "0 < k" "k \<le> b_Available x"
    and r: "r \<in> set (reservations s)" "rr_ID r = rid" "rr_Status r = RActive" "rr_ExpiresAt r \<le> b_ExpiresAt x"
    and a: "a = new_allocation rid (j, alloc_of (scan_row x, k))"
  shows "inv_ok (s\<lparr>batches := update_where (\<lambda>y. b_ID y = b_ID x) (save_row (drawn (scan_row x, k)) t) (batches s),
      allocations := allocations s @ [a], movements := movements s @ [new_movement c (b_ID x) rid MReserved k t i]\<rparr>)"
proof -
  let ?b = "drawn (scan_row x, k)"
  let ?s1 = "s\<lparr>batches := update_where (\<lambda>y. b_ID y = b_ID x) (save_row ?b t) (batches s),
      movements := movements s @ [new_movement c (b_ID x) rid MReserved k t i]\<rparr>"
  have inv': "inv_off no_off no_off s" using inv by (simp add: inv_ok_def)
  have wf: "wf_batch x" using inv_offD(2) [OF inv' x] .
  have I: "inv_off (no_off(b_ID x := no_off (b_ID x) - k)) (no_off(b_ID x := no_off (b_ID x) + 0)) ?s1"
    by (rule inv_off_move [OF inv' x, where b = ?b and t = t and da = "- k" and dw = 0 and dr = k])
       (use x k wf inv_offD(4,5) [OF inv'] in
         \<open>auto simp: drawn_def wf_batch_def history_available_def history_wasted_def waste_total_def signed_portions_def\<close>)
  have st: "status_of ?s1 (ar_ReservationID a) = Some RActive"
    using status_of_row [OF inv_offD(1) [OF inv'] r(1)] r(2,3) by (simp add: status_of_def a)
  have "wf_allocation ?s1 a"
  proof -
    have "save_row ?b t x \<in> set (batches ?s1)" using x by (auto simp: set_update_where)
    then show ?thesis
      unfolding wf_allocation_def using r k a by (intro conjI bexI [of _ r] bexI [of _ "save_row ?b t x"]) auto
  qed
  from inv_off_add_allocation [OF I st this] have "inv_off no_off no_off (?s1\<lparr>allocations := allocations ?s1 @ [a]\<rparr>)"
    by (simp add: a fun_upd_idem)
  moreover have "?s1\<lparr>allocations := allocations ?s1 @ [a]\<rparr> =
      s\<lparr>batches := update_where (\<lambda>y. b_ID y = b_ID x) (save_row ?b t) (batches s),
        allocations := allocations s @ [a], movements := movements s @ [new_movement c (b_ID x) rid MReserved k t i]\<rparr>"
    by (rule inv_db.equality) simp_all
  ultimately show ?thesis by (simp only: inv_ok_def)
qed

definition reserving :: "string \<Rightarrow> inv_db \<Rightarrow> (nat \<times> allocation) list \<Rightarrow> (nat \<times> allocation) list \<Rightarrow> inv_db \<Rightarrow> bool" where
  "reserving rid s all todo s' \<longleftrightarrow> inv_ok s' \<and> reservations s' = reservations s \<and>
     idempotency s' = idempotency s \<and> (no_archived s \<longrightarrow> no_archived s') \<and>
     allocations s' @ map (new_allocation rid) todo = allocations s @ map (new_allocation rid) all \<and>
     (\<forall>x\<in>set (batches s). b_ID x \<in> (al_BatchID \<circ> snd) ` set todo \<longrightarrow> x \<in> set (batches s'))"

lemma wp_save_allocation:
  assumes R: "reserving rid s all ((j, alloc_of (b, k)) # todo) s'"
    and b: "b = scan_row x" "x \<in> set (batches s)" "0 < k" "k \<le> b_Available b"
    and later: "b_ID b \<notin> (al_BatchID \<circ> snd) ` set todo"
    and r: "r \<in> set (reservations s)" "rr_ID r = rid" "rr_Status r = RActive" "rr_ExpiresAt r \<le> b_ExpiresAt b"
    and bs: "bs (b_ID b) = Some (drawn (b, k))"
    and E: "\<And>s n. E ErrStorage s n"
  shows "wp (save_allocation c rid bs t (j, alloc_of (b, k))) (\<lambda>_ s'' _. reserving rid s all todo s'') E w s' n"
proof -
  have x: "x \<in> set (batches s')" using R b(1,2) by (auto simp: reserving_def)
  let ?t = "\<lambda>i. s'\<lparr>batches := update_where (\<lambda>y. b_ID y = b_ID x) (save_row (drawn (scan_row x, k)) t) (batches s'),
      allocations := allocations s' @ [new_allocation rid (j, alloc_of (scan_row x, k))],
      movements := movements s' @ [new_movement c (b_ID x) rid MReserved k t i]\<rparr>"
  have ok: "inv_ok (?t i)" for i
    by (rule inv_ok_allocate [OF _ x _ _ _ _ _ _ refl, where r = r]) (use R b r in \<open>auto simp: reserving_def\<close>)
  have "reserving rid s all todo (?t i)" for i
  proof -
    have "y \<in> set (batches (?t i))"
      if "y \<in> set (batches s)" "b_ID y \<in> (al_BatchID \<circ> snd) ` set todo" for y
    proof -
      have "y \<in> set (batches s')" using R that by (auto simp: reserving_def)
      moreover have "b_ID y \<noteq> b_ID x" using that(2) later b(1) by (metis scan_row_simps(1))
      ultimately show ?thesis by (auto simp: set_update_where)
    qed
    moreover have "no_archived (?t i)" if "no_archived s"
      using R that b x by (auto simp: reserving_def no_archived_def set_update_where drawn_def)
    ultimately show ?thesis
      using R ok b(1) by (auto simp: reserving_def)
  qed
  moreover have "b_ID (drawn (scan_row x, k)) = b_ID x" by (simp add: drawn_def)
  ultimately show ?thesis
    using bs E b(1)
    by (auto simp: save_allocation_def wp_bindT saveBatch_def insert_allocation_def wp_exec wp_stmt
        new_allocation_def intro!: wpi_movement)
qed

lemma wp_reserve_loop:
  assumes inv: "inv_ok s" and plan: "plan_of p picks" "picks_ok s t picks"
    and r: "r \<in> set (reservations s)" "rr_ID r = rid" "rr_Status r = RActive" "rr_ExpiresAt r = p_expires p"
    and E: "\<And>s n. E ErrStorage s n"
    and Q: "\<And>s' n'. reserving rid s (enumerate 0 (p_allocs p)) [] s' \<Longrightarrow> Q () s' n'"
  shows "wp (forT (enumerate 0 (p_allocs p)) (save_allocation c rid (p_batches p) t')) Q E w s n"
proof (rule wp_forT [where I = "\<lambda>todo s' _. reserving rid s (enumerate 0 (p_allocs p)) todo s'"])
  show "reserving rid s (enumerate 0 (p_allocs p)) (enumerate 0 (p_allocs p)) s"
    using inv by (simp add: reserving_def)
next
  fix y ys s' n'
  assume sfx: "suffix (y # ys) (enumerate 0 (p_allocs p))" and R: "reserving rid s (enumerate 0 (p_allocs p)) (y # ys) s'"
  have allocs: "p_allocs p = map alloc_of picks" using plan(1) by (simp add: plan_of_def)
  have "y \<in> set (enumerate 0 (p_allocs p))" using sfx by (auto simp: suffix_def)
  then have "snd y \<in> set (map snd (enumerate 0 (p_allocs p)))" by (metis image_eqI set_map)
  then obtain b k where bk: "(b, k) \<in> set picks" "snd y = alloc_of (b, k)"
    by (auto simp: allocs)
  then have y: "y = (fst y, alloc_of (b, k))" by (metis prod.collapse)
  obtain x where x: "x \<in> set (batches s)" "b = scan_row x" and k: "0 < k" "k \<le> b_Available b"
    using plan(2) bk(1) by (auto simp: picks_ok_def)
  have "distinct (map (al_BatchID \<circ> snd) (enumerate 0 (p_allocs p)))"
  proof -
    have "map (al_BatchID \<circ> snd) (enumerate 0 (p_allocs p)) = map al_BatchID (map snd (enumerate 0 (p_allocs p)))"
      by (simp only: map_map)
    also have "\<dots> = map (\<lambda>bn. b_ID (fst bn)) picks" by (simp add: allocs comp_def)
    finally show ?thesis using plan(2) by (simp add: picks_ok_def)
  qed
  then have "distinct (map (al_BatchID \<circ> snd) (y # ys))"
    using sfx by (auto simp: suffix_def simp del: comp_apply)
  then have later: "b_ID b \<notin> (al_BatchID \<circ> snd) ` set ys" using bk(2) by auto
  have e: "p_batches p (b_ID b) = Some (drawn (b, k))" "rr_ExpiresAt r \<le> b_ExpiresAt b"
    using plan(1) bk(1) r(4) by (auto simp: plan_of_def)
  show "wp (save_allocation c rid (p_batches p) t' y)
      (\<lambda>_ s' n'. reserving rid s (enumerate 0 (p_allocs p)) ys s') E w s' n'"
  proof (subst y, rule wp_save_allocation)
    show "reserving rid s (enumerate 0 (p_allocs p)) ((fst y, alloc_of (b, k)) # ys) s'"
      using R by (subst (asm) y)
  qed (use x k later r e E in auto)
qed (use Q in auto)

lemma load_reserved:
  assumes "allocations s' = allocations s @ map (new_allocation rid) (enumerate 0 as)"
    and "\<forall>a\<in>set (allocations s). ar_ReservationID a \<noteq> rid"
  shows "load_allocations rid s' = as" and "j \<noteq> rid \<Longrightarrow> load_allocations j s' = load_allocations j s"
proof -
  let ?new = "map (new_allocation rid) (enumerate 0 as)"
  have "filter (\<lambda>a. ar_ReservationID a = rid) (allocations s') = ?new"
    using assms by (auto simp: filter_empty_conv)
  moreover have "sort_key ar_Position ?new = ?new"
  proof (rule sort_key_id_if_sorted)
    have "map ar_Position ?new = map fst (enumerate 0 as)"
      by (simp del: map_fst_enumerate)
    then show "sorted (map ar_Position ?new)" by (simp only: map_fst_enumerate sorted_upt)
  qed
  moreover have "(\<lambda>x. \<lparr>al_FlavorID = al_FlavorID (snd x), al_BatchID = al_BatchID (snd x),
      al_Portions = al_Portions (snd x)\<rparr>) = (snd :: nat \<times> allocation \<Rightarrow> allocation)"
    by (simp add: fun_eq_iff)
  ultimately show "load_allocations rid s' = as"
    by (simp add: load_allocations_def comp_def)
  show "load_allocations j s' = load_allocations j s" if "j \<noteq> rid"
    using that assms(1) by (auto simp: load_allocations_def filter_empty_conv)
qed

section \<open>The transaction\<close>

definition reserved :: "inv_db \<Rightarrow> reserve_input \<Rightarrow> reservation \<Rightarrow> inv_db \<Rightarrow> bool" where
  "reserved s i r s' \<longleftrightarrow> advances s s' \<and>
     find_res (r_ID r) s = None \<and> r_OrderID r = ri_OrderID i \<and> r_Status r = RActive \<and>
     (\<exists>row. find_res (r_ID r) s' = Some row \<and> r = reservation_of s' row) \<and>
     (\<forall>j. j \<noteq> r_ID r \<longrightarrow> find_res j s' = find_res j s) \<and>
     (\<forall>x\<in>set (ri_Items i). in_stock s (r_CreatedAt r) x) \<and>
     picks_ok s (r_CreatedAt r) (concat (map (planned s (r_CreatedAt r)) (ri_Items i))) \<and>
     r_Allocations r = map alloc_of (concat (map (planned s (r_CreatedAt r)) (ri_Items i)))"

definition reserve_result :: "inv_db \<Rightarrow> reserve_input \<Rightarrow> reservation \<Rightarrow> inv_db \<Rightarrow> bool" where
  "reserve_result s i r s' \<longleftrightarrow> reserved s i r s' \<and> idempotency s' = idempotency s"

definition reserve_error :: "service \<Rightarrow> world \<Rightarrow> inv_db \<Rightarrow> reserve_input \<Rightarrow> ierror \<Rightarrow> bool" where
  "reserve_error svc w s i err \<longleftrightarrow>
     err = ErrStorage
   \<or> err = ErrConflict \<and> ri_OrderID i \<in> rr_OrderID ` set (reservations s)
   \<or> err = ErrInvalid \<and> s_TTL svc \<le> 0
   \<or> err = ErrStock \<and> (\<exists>k. \<exists>x\<in>set (ri_Items i). \<not> in_stock s (w_clock w k) x)
   \<or> err = ErrState"

definition valid_reserve :: "reserve_input \<Rightarrow> bool" where
  "valid_reserve i \<longleftrightarrow> distinct (map it_FlavorID (ri_Items i)) \<and> (\<forall>x\<in>set (ri_Items i). 0 < it_Portions x)"

lemma reserve_finish:
  assumes inv: "inv_ok s" and new: "rr_ID row \<noteq> []" "rr_ID row \<notin> rr_ID ` set (reservations s)"
    and s1: "s1 = s\<lparr>reservations := reservations s @ [row]\<rparr>"
    and R: "reserving (rr_ID row) s1 (enumerate 0 as) [] s2" and un: "unseen s2 s3"
    and row: "rr_Status row = RActive" "rr_OrderID row = ri_OrderID i"
    and plan: "as = map alloc_of (concat (map (planned s (rr_CreatedAt row)) (ri_Items i)))"
      "picks_ok s (rr_CreatedAt row) (concat (map (planned s (rr_CreatedAt row)) (ri_Items i)))"
      "\<forall>x\<in>set (ri_Items i). in_stock s (rr_CreatedAt row) x"
  shows "reserve_result s i \<lparr>r_ID = rr_ID row, r_OrderID = rr_OrderID row, r_Status = rr_Status row,
    r_Allocations = as, r_CreatedAt = rr_CreatedAt row, r_ExpiresAt = rr_ExpiresAt row\<rparr> s3"
proof -
  have wf: "wf_tables s" using inv by (simp add: inv_ok_def inv_off_def)
  have view: "inv_view s3 = inv_view s2" "idempotency s3 = idempotency s2" using un by (simp_all add: unseen_def)
  note same = inv_view_same [OF view(1)]
  have rs: "reservations s3 = reservations s @ [row]"
    and al: "allocations s2 = allocations s @ map (new_allocation (rr_ID row)) (enumerate 0 as)"
    using R same(1) by (simp_all add: reserving_def s1)
  have none: "find_res (rr_ID row) s = None"
    using new(2) find_key_None [of rr_ID "rr_ID row" "reservations s"] by simp
  have fresh: "\<forall>a\<in>set (allocations s). ar_ReservationID a \<noteq> rr_ID row"
  proof
    fix a assume "a \<in> set (allocations s)"
    then have "wf_allocation s a" using wf by (simp add: wf_tables_def)
    then obtain q where "q \<in> set (reservations s)" "rr_ID q = ar_ReservationID a" by (auto simp: wf_allocation_def)
    with new(2) show "ar_ReservationID a \<noteq> rr_ID row" by (metis image_eqI)
  qed
  have row': "find_res (rr_ID row) s3 = Some row"
    using none by (simp add: rs find_append)
  have others: "find_res j s3 = find_res j s" if "j \<noteq> rr_ID row" for j
    using that by (auto simp: rs find_append split: option.split)
  have load: "load_allocations (rr_ID row) s3 = as"
    "j \<noteq> rr_ID row \<Longrightarrow> load_allocations j s3 = load_allocations j s" for j
    using load_reserved [OF al fresh] same(4) by simp_all
  have "keeps_reservations s s3"
    unfolding keeps_reservations_def
  proof (intro allI impI)
    fix j r assume j: "find_res j s = Some r"
    with none have "j \<noteq> rr_ID row" by auto
    with j others load(2) show "(\<exists>r'. find_res j s3 = Some r' \<and> row_grows r r') \<and>
        load_allocations j s3 = load_allocations j s" by simp
  qed
  moreover have "no_archived s3" if "no_archived s"
    using R that by (intro inv_view_no_archived [OF view(1)]) (simp add: reserving_def s1 no_archived_def)
  ultimately have "grows s s3"
    using R view(2) by (simp add: grows_def keeps_responses_def reserving_def s1)
  moreover have "inv_ok s3" using R inv_ok_cong [OF view(1)] by (simp add: reserving_def)
  ultimately show ?thesis
    using R view(2) none row' others load(1) row plan
    by (auto simp: reserve_result_def reserved_def advances_def reserving_def s1 reservation_of_def)
qed

lemma wp_reserve_tx:
  assumes inv: "inv_ok s" and valid: "valid_reserve i"
  shows "wp (reserve_tx svc c i) (\<lambda>r s' _. reserve_result s i r s' \<and> r_ID r \<in> range (w_uuid w))
    (\<lambda>err _ _. reserve_error svc w s i err) w s n" (is "wp _ ?Q ?E w s n")
proof -
  have E: "?E ErrStorage s' n'" for s' n' by (simp add: reserve_error_def)
  have wf: "wf_tables s" using inv by (simp add: inv_ok_def inv_off_def)
  have carry: "wp (bindT (insert_reservation \<lparr>rr_ID = rid, rr_OrderID = ri_OrderID i, rr_Status = RActive,
                   rr_CreatedAt = t, rr_ExpiresAt = p_expires p, rr_UpdatedAt = t, rr_ReleaseReason = []\<rparr>) (\<lambda>_.
                 bindT (forT (enumerate 0 (p_allocs p)) (save_allocation c rid (p_batches p) current)) (\<lambda>_.
                 bindT (forT (ri_Items i) (\<lambda>x. bindT (CheckAndNotifyLowStock (it_FlavorID x) current) (\<lambda>_. ret ()))) (\<lambda>_.
                 ret \<lparr>r_ID = rid, r_OrderID = ri_OrderID i, r_Status = RActive,
                   r_Allocations = p_allocs p, r_CreatedAt = t, r_ExpiresAt = p_expires p\<rparr>)))) ?Q ?E w s m"
    if plan: "plan_of p (concat (map (planned s t) (ri_Items i)))" "picks_ok s t (concat (map (planned s t) (ri_Items i)))"
      "\<forall>x\<in>set (ri_Items i). in_stock s t x" and rid: "rid \<in> range (w_uuid w)" for rid t p current m
  proof -
    let ?row = "\<lparr>rr_ID = rid, rr_OrderID = ri_OrderID i, rr_Status = RActive,
      rr_CreatedAt = t, rr_ExpiresAt = p_expires p, rr_UpdatedAt = t, rr_ReleaseReason = []\<rparr>"
    let ?s = "s\<lparr>reservations := reservations s @ [?row]\<rparr>"
    have "wp (forT (enumerate 0 (p_allocs p)) (save_allocation c rid (p_batches p) current)) (\<lambda>_ s' n'.
        wp (forT (ri_Items i) (\<lambda>x. bindT (CheckAndNotifyLowStock (it_FlavorID x) current) (\<lambda>_. ret ()))) (\<lambda>_ s' n'.
        ?Q \<lparr>r_ID = rid, r_OrderID = ri_OrderID i, r_Status = RActive,
           r_Allocations = p_allocs p, r_CreatedAt = t, r_ExpiresAt = p_expires p\<rparr> s' n') ?E w s' n') ?E w ?s n'"
      if new: "rid \<noteq> []" "rid \<notin> rr_ID ` set (reservations s)" "ri_OrderID i \<notin> rr_OrderID ` set (reservations s)" for n'
    proof (rule wp_reserve_loop [where r = ?row and picks = "concat (map (planned s t) (ri_Items i))" and t = t])
      show "inv_ok ?s" using inv new by (intro inv_ok_insert_reservation) auto
      show "picks_ok ?s t (concat (map (planned s t) (ri_Items i)))" using plan(2) by (simp add: picks_ok_def)
      fix s2 n2 assume R: "reserving rid ?s (enumerate 0 (p_allocs p)) [] s2"
      have "?Q \<lparr>r_ID = rid, r_OrderID = ri_OrderID i, r_Status = RActive,
           r_Allocations = p_allocs p, r_CreatedAt = t, r_ExpiresAt = p_expires p\<rparr> s3 n3" if "unseen s2 s3" for s3 n3
        using reserve_finish [OF inv _ _ refl, of ?row "p_allocs p" s2 s3 i] R that new plan rid
        by (simp add: plan_of_def)
      then show "wp (forT (ri_Items i) (\<lambda>x. bindT (CheckAndNotifyLowStock (it_FlavorID x) current) (\<lambda>_. ret ()))) (\<lambda>_ s' n'.
        ?Q \<lparr>r_ID = rid, r_OrderID = ri_OrderID i, r_Status = RActive,
           r_Allocations = p_allocs p, r_CreatedAt = t, r_ExpiresAt = p_expires p\<rparr> s' n') ?E w s2 n2"
        using E by (intro wpi_check_all) simp_all
    qed (use plan(1) E in auto)
    then show ?thesis
      using E by (simp add: wp_bindT wp_ret insert_reservation_def wp_stmt del: forT.simps)
  qed
  have plan: "wp (bindT (plan_items (ri_Items i) t \<lparr>p_batches = Map.empty, p_allocs = [], p_expires = t + s_TTL svc\<rparr>) (\<lambda>p.
             bindT now (\<lambda>current.
               if \<not> (p_expires p > current) then throw ErrState
               else
                 bindT (insert_reservation \<lparr>rr_ID = rid, rr_OrderID = ri_OrderID i, rr_Status = RActive,
                   rr_CreatedAt = t, rr_ExpiresAt = p_expires p, rr_UpdatedAt = t, rr_ReleaseReason = []\<rparr>) (\<lambda>_.
                 bindT (forT (enumerate 0 (p_allocs p)) (save_allocation c rid (p_batches p) current)) (\<lambda>_.
                 bindT (forT (ri_Items i) (\<lambda>x. bindT (CheckAndNotifyLowStock (it_FlavorID x) current) (\<lambda>_. ret ()))) (\<lambda>_.
                 ret \<lparr>r_ID = rid, r_OrderID = ri_OrderID i, r_Status = RActive,
                   r_Allocations = p_allocs p, r_CreatedAt = t, r_ExpiresAt = p_expires p\<rparr>)))))) ?Q ?E w s m"
    if t: "t = w_clock w k" and rid: "rid \<in> range (w_uuid w)" for t k rid m
  proof (rule wpi_bindT, rule wp_plan_items [where picks = "[]"])
    show "\<forall>s n. ?E ErrStock s n" if "\<not> (\<forall>x\<in>set (ri_Items i). in_stock s t x)"
      using that t by (auto simp: reserve_error_def)
    fix p' n'
    let ?picks = "concat (map (planned s t) (ri_Items i))"
    assume p': "plan_of p' ([] @ ?picks)" "picks_ok s t ([] @ ?picks)" "\<forall>x\<in>set (ri_Items i). in_stock s t x"
    show "wp (bindT now (\<lambda>current.
               if \<not> (p_expires p' > current) then throw ErrState
               else
                 bindT (insert_reservation \<lparr>rr_ID = rid, rr_OrderID = ri_OrderID i, rr_Status = RActive,
                   rr_CreatedAt = t, rr_ExpiresAt = p_expires p', rr_UpdatedAt = t, rr_ReleaseReason = []\<rparr>) (\<lambda>_.
                 bindT (forT (enumerate 0 (p_allocs p')) (save_allocation c rid (p_batches p') current)) (\<lambda>_.
                 bindT (forT (ri_Items i) (\<lambda>x. bindT (CheckAndNotifyLowStock (it_FlavorID x) current) (\<lambda>_. ret ()))) (\<lambda>_.
                 ret \<lparr>r_ID = rid, r_OrderID = ri_OrderID i, r_Status = RActive,
                   r_Allocations = p_allocs p', r_CreatedAt = t, r_ExpiresAt = p_expires p'\<rparr>))))) ?Q ?E w s n'"
      by (intro wpi_bindT [of now] wpi_now wpi_if wpi_throw carry E)
         (use p' rid in \<open>simp_all add: reserve_error_def\<close>)
  qed (use valid wf E in \<open>auto simp: plan_of_def picks_ok_def valid_reserve_def\<close>)
  show ?thesis
    unfolding reserve_tx_def
    by (intro wpi_bindT [of "lock _"] wpi_lock wpi_bindT [of "query _ _"] wpi_query wpi_bindT [of "lockFlavors _"]
        wpi_lockFlavors wpi_bindT [of now] wpi_now wpi_if wpi_throw wpi_bindT [of newUUID] wpi_newUUID plan refl E)
       (auto simp: reserve_error_def)
qed

section \<open>What a reservation holds\<close>

lemma picks_flavor:
  assumes "wf_tables s" and "0 < it_Portions x" and "bn \<in> set (planned s t x)"
  shows "fst bn \<in> set (fefo_rows (it_FlavorID x) t s)" and "b_FlavorID (fst bn) = it_FlavorID x"
proof -
  note rows = fefo_rows_facts [OF assms(1)]
  show "fst bn \<in> set (fefo_rows (it_FlavorID x) t s)"
    using fefo_pick [OF rows(2), of "it_Portions x" "fst bn" "snd bn"] assms(2,3) by (simp add: planned_def)
  from rows(3) [OF this] show "b_FlavorID (fst bn) = it_FlavorID x" by auto
qed

lemma sum_where_allocs: "sum_where (\<lambda>a. P (al_FlavorID a)) al_Portions (map alloc_of picks) =
    sum_where (\<lambda>bn. P (b_FlavorID (fst bn))) snd picks"
  by (simp add: sum_where_map comp_def)

lemma sum_where_all: "(\<And>x. x \<in> set xs \<Longrightarrow> p x) \<Longrightarrow> sum_where p f xs = sum_list (map f xs)"
  by (induction xs) auto

lemma planned_sum:
  assumes wf: "wf_tables s" and d: "distinct (map it_FlavorID items)" and pos: "\<forall>x\<in>set items. 0 < it_Portions x"
    and stock: "\<forall>x\<in>set items. in_stock s t x" and x: "x \<in> set items"
  shows "sum_where (\<lambda>bn. b_FlavorID (fst bn) = it_FlavorID x) snd (concat (map (planned s t) items)) = it_Portions x"
  using d pos stock x
proof (induction items)
  case (Cons y ys)
  have fl: "b_FlavorID (fst bn) = it_FlavorID z" if "bn \<in> set (planned s t z)" "z \<in> set (y # ys)" for bn z
    using picks_flavor(2) [OF wf _ that(1)] Cons.prems(2) that(2) by blast
  show ?case
  proof (cases "x = y")
    case True
    have "sum_where (\<lambda>bn. b_FlavorID (fst bn) = it_FlavorID y) snd (planned s t y) = taken (planned s t y)"
      unfolding taken_def by (rule sum_where_all) (use fl in auto)
    also have "\<dots> = it_Portions y"
      using taken_fefo [OF fefo_rows_facts(2) [OF wf], of "it_Portions y" "it_FlavorID y" t] Cons.prems(2,3)
      by (simp add: planned_def in_stock_def)
    finally have "sum_where (\<lambda>bn. b_FlavorID (fst bn) = it_FlavorID y) snd (planned s t y) = it_Portions y" .
    moreover have "sum_where (\<lambda>bn. b_FlavorID (fst bn) = it_FlavorID y) snd (concat (map (planned s t) ys)) = 0"
    proof (rule sum_where_false)
      fix bn assume "bn \<in> set (concat (map (planned s t) ys))"
      then obtain z where "z \<in> set ys" "bn \<in> set (planned s t z)" by auto
      with fl [of bn z] Cons.prems(1) show "b_FlavorID (fst bn) \<noteq> it_FlavorID y" by simp (metis image_eqI)
    qed
    ultimately show ?thesis by (simp add: True)
  next
    case False
    then have "x \<in> set ys" using Cons.prems(4) by simp
    moreover from this have "it_FlavorID x \<noteq> it_FlavorID y" using Cons.prems(1) by simp (metis image_eqI)
    then have "sum_where (\<lambda>bn. b_FlavorID (fst bn) = it_FlavorID x) snd (planned s t y) = 0"
      using fl [of _ y] by (intro sum_where_false) auto
    ultimately show ?thesis using Cons by simp
  qed
qed simp

lemma reserved_exact:
  assumes inv: "inv_ok s" and valid: "valid_reserve i" and R: "reserved s i r s'" and x: "x \<in> set (ri_Items i)"
  shows "sum_where (\<lambda>a. al_FlavorID a = it_FlavorID x) al_Portions (r_Allocations r) = it_Portions x"
    and "distinct (map al_BatchID (r_Allocations r))"
    and "\<forall>a\<in>set (r_Allocations r). \<exists>b\<in>set (batches s). b_ID b = al_BatchID a \<and> b_FlavorID b = al_FlavorID a \<and>
      b_Status b = BActive \<and> r_CreatedAt r < b_ExpiresAt b \<and> 0 < al_Portions a \<and> al_Portions a \<le> b_Available b"
    and "\<exists>row. find_res (r_ID r) s' = Some row \<and> r = reservation_of s' row \<and> rr_Status row = RActive"
proof -
  let ?picks = "concat (map (planned s (r_CreatedAt r)) (ri_Items i))"
  have wf: "wf_tables s" using inv by (simp add: inv_ok_def inv_off_def)
  have al: "r_Allocations r = map alloc_of ?picks" and ok: "picks_ok s (r_CreatedAt r) ?picks"
    and stock: "\<forall>x\<in>set (ri_Items i). in_stock s (r_CreatedAt r) x"
    and row: "\<exists>row. find_res (r_ID r) s' = Some row \<and> r = reservation_of s' row" "r_Status r = RActive"
    using R by (simp_all add: reserved_def)
  show "sum_where (\<lambda>a. al_FlavorID a = it_FlavorID x) al_Portions (r_Allocations r) = it_Portions x"
    unfolding al sum_where_allocs [of "\<lambda>fl. fl = it_FlavorID x"] using valid stock x by (intro planned_sum [OF wf]) (auto simp: valid_reserve_def)
  show "distinct (map al_BatchID (r_Allocations r))"
    using ok by (simp add: al picks_ok_def comp_def del: map_concat)
  show "\<forall>a\<in>set (r_Allocations r). \<exists>b\<in>set (batches s). b_ID b = al_BatchID a \<and> b_FlavorID b = al_FlavorID a \<and>
      b_Status b = BActive \<and> r_CreatedAt r < b_ExpiresAt b \<and> 0 < al_Portions a \<and> al_Portions a \<le> b_Available b"
    using ok unfolding al picks_ok_def by fastforce
  show "\<exists>row. find_res (r_ID r) s' = Some row \<and> r = reservation_of s' row \<and> rr_Status row = RActive"
    using row by (metis reservation.select_convs(3) reservation_of_def)
qed

text \<open>In a sorted list, what is smaller than a member of a prefix comes before it.\<close>

lemma sorted_before:
  assumes "sorted (map f rows)" and "prefix p rows" and "b \<in> set p" and "y \<in> set rows" and "f y < f b"
  shows "\<exists>xs ys zs. p = xs @ y # ys @ b # zs"
proof -
  obtain us vs where p: "p = us @ b # vs" using assms(3) by (auto dest: split_list)
  obtain ws where rows: "rows = p @ ws" using assms(2) by (auto simp: prefix_def)
  have "f b \<le> f z" if "z \<in> set (b # vs @ ws)" for z
    using that assms(1) by (auto simp: rows p sorted_append)
  with assms(4,5) have "y \<in> set us" by (fastforce simp: rows p)
  then obtain xs ys where "us = xs @ y # ys" by (auto dest: split_list)
  with p show ?thesis by auto
qed

lemma reserved_fefo:
  assumes inv: "inv_ok s" and valid: "valid_reserve i" and R: "reserved s i r s'"
    and a: "a \<in> set (r_Allocations r)" and b: "b \<in> set (batches s)" "b_ID b = al_BatchID a"
    and y: "y \<in> set (batches s)" "b_FlavorID y = al_FlavorID a" "b_Status y = BActive" "0 < b_Available y"
      "r_CreatedAt r < b_ExpiresAt y" "batch_order y < batch_order b"
  shows "\<lparr>al_FlavorID = b_FlavorID y, al_BatchID = b_ID y, al_Portions = b_Available y\<rparr> \<in> set (r_Allocations r)"
proof -
  let ?t = "r_CreatedAt r"
  have wf: "wf_tables s" using inv by (simp add: inv_ok_def inv_off_def)
  have al: "r_Allocations r = map alloc_of (concat (map (planned s ?t) (ri_Items i)))"
    using R by (simp add: reserved_def)
  obtain x c k where x: "x \<in> set (ri_Items i)" and ck: "(c, k) \<in> set (planned s ?t x)" and ac: "a = alloc_of (c, k)"
    using a by (auto simp: al)
  have pos: "0 < it_Portions x" using valid x by (simp add: valid_reserve_def)
  let ?rows = "fefo_rows (it_FlavorID x) ?t s"
  note rows = fefo_rows_facts [OF wf]
  have c: "c \<in> set ?rows" "b_FlavorID c = it_FlavorID x" using picks_flavor [OF wf pos ck] by simp_all
  obtain b' where b': "b' \<in> set (batches s)" "c = scan_row b'" using rows(3) [OF c(1)] by auto
  have "b' = b" using wf b b' ac by (auto simp: wf_tables_def dest: distinct_key_eq)
  then have cb: "c = scan_row b" using b' by simp
  have yin: "scan_row y \<in> set ?rows" using y ac c by (auto simp: fefo_rows_def)
  have order: "batch_order (scan_row z) = batch_order z" for z :: batch_row by (simp add: batch_order_def)
  have "sorted (map batch_order ?rows)"
    by (simp add: fefo_rows_def comp_def order)
  then obtain xs ys zs where "map fst (planned s ?t x) = xs @ scan_row y # ys @ c # zs"
    using sorted_before [of batch_order ?rows "map fst (planned s ?t x)" c "scan_row y"] fefo_prefix ck yin y(6)
    by (force simp: planned_def cb order)
  then have "(scan_row y, b_Available (scan_row y)) \<in> set (planned s ?t x)"
    unfolding planned_def using rows(2) pos by (intro fefo_drained) auto
  with x have "alloc_of (scan_row y, b_Available y) \<in> set (r_Allocations r)"
    by (auto simp: al)
  then show ?thesis by (simp add: alloc_of_def)
qed

end
