(* ===== verification/Inventory_Service.thy ===== *)
theory Inventory_Service
  imports Inventory_Reserve
begin

text \<open>
  The public operations of the batch inventory service as steps of one machine. \<open>bounded K M m\<close>
  says that \<open>m\<close> advances the tables whatever fails and keeps within a footprint; every operation is
  bounded, so the invariant and the evolution laws hold along every interleaving of calls. The idempotent operations are
  interpretations of the locale \<open>mutation\<close>.
\<close>

section \<open>Bounded computations\<close>

named_theorems bounded_rules "computations with a known footprint"

text \<open>
  \<open>bounded K M m\<close>: whatever fails, \<open>m\<close> keeps within the footprint given by the keys \<open>K\<close> and the
  reservations \<open>M\<close>.
\<close>

definition bounded :: "mutation_key set \<Rightarrow> string set \<Rightarrow> 'a itx \<Rightarrow> bool" where
  "bounded K M m \<longleftrightarrow> (\<forall>w s n. inv_ok s \<longrightarrow> wp m (\<lambda>_ s' _. effects K M s s') (\<lambda>_ s' _. effects K M s s') w s n)"

abbreviation steady :: "'a itx \<Rightarrow> bool" where
  "steady \<equiv> bounded UNIV UNIV"

lemma bounded_wp:
  "bounded K M m \<Longrightarrow> inv_ok s \<Longrightarrow> wp m (\<lambda>_ s' _. effects K M s s') (\<lambda>_ s' _. effects K M s s') w s n"
  by (simp add: bounded_def)

lemma bounded_state: "bounded K M m \<Longrightarrow> inv_ok s \<Longrightarrow> effects K M s (state_of (m w s n))"
  using bounded_wp [of K M m s w n] by (simp add: wp_state)

lemma bounded_mono: "bounded K M m \<Longrightarrow> K \<subseteq> K' \<Longrightarrow> M \<subseteq> M' \<Longrightarrow> bounded K' M' m"
  unfolding bounded_def by (blast intro: wp_mono effects_mono)

lemma bounded_steady: "bounded K M m \<Longrightarrow> steady m"
  by (erule bounded_mono) simp_all

lemma steady_state: "steady m \<Longrightarrow> inv_ok s \<Longrightarrow> advances s (state_of (m w s n))"
  using bounded_state [of UNIV UNIV m s w n] by (simp add: effects_def)

lemma bounded_bindT [bounded_rules]:
  assumes m: "bounded K M m" and f: "\<And>a. bounded K M (f a)"
  shows "bounded K M (bindT m f)"
  unfolding bounded_def
proof (intro allI impI)
  fix w s n assume inv: "inv_ok s"
  have "wp (f a) (\<lambda>_ s' _. effects K M s s') (\<lambda>_ s' _. effects K M s s') w s1 n1" if "effects K M s s1" for a s1 n1
  proof -
    have "inv_ok s1" using that by (simp add: effects_def advances_def)
    from bounded_wp [OF f this] show ?thesis
      by (rule wp_mono) (auto intro: effects_trans [OF that])
  qed
  then show "wp (bindT m f) (\<lambda>_ s' _. effects K M s s') (\<lambda>_ s' _. effects K M s s') w s n"
    unfolding wp_bindT by (intro wp_mono [OF bounded_wp [OF m inv]])
qed

lemma bounded_basic [bounded_rules]:
  "bounded K M (ret a)" "bounded K M (throw e)" "bounded K M (query db q)" "bounded K M (query_now db q')"
  "bounded K M newUUID" "bounded K M time_Now"
  by (simp_all add: bounded_def wp_rules effects_refl)

lemma bounded_if [bounded_rules]:
  "(c \<Longrightarrow> bounded K M a) \<Longrightarrow> (\<not> c \<Longrightarrow> bounded K M b) \<Longrightarrow> bounded K M (if c then a else b)"
  by simp

lemma bounded_option [bounded_rules]:
  "(x = None \<Longrightarrow> bounded K M a) \<Longrightarrow> (\<And>y. x = Some y \<Longrightarrow> bounded K M (b y)) \<Longrightarrow>
    bounded K M (case x of None \<Rightarrow> a | Some y \<Rightarrow> b y)"
  by (cases x) auto

lemma bounded_sum [bounded_rules]:
  "(\<And>e. x = Inl e \<Longrightarrow> bounded K M (a e)) \<Longrightarrow> (\<And>y. x = Inr y \<Longrightarrow> bounded K M (b y)) \<Longrightarrow>
    bounded K M (case x of Inl e \<Rightarrow> a e | Inr y \<Rightarrow> b y)"
  by (cases x) auto

lemma bounded_forT [bounded_rules]: "(\<And>x. bounded K M (f x)) \<Longrightarrow> bounded K M (forT xs f)"
  by (induction xs) (auto intro: bounded_rules)

lemma bounded_mapT [bounded_rules]: "(\<And>x. bounded K M (f x)) \<Longrightarrow> bounded K M (mapT f xs)"
  by (induction xs) (auto intro!: bounded_rules)

lemma effects_same_stock_claims: "same_stock_claims s s' \<Longrightarrow> effects K M s s'"
  by (simp add: same_stock_claims_def effects_def status_of_def)

lemma bounded_same:
  assumes "\<And>w s n. inv_ok s \<Longrightarrow> wp m (\<lambda>_ s' _. same_stock_claims s s') (\<lambda>_ s' _. same_stock_claims s s') w s n"
  shows "bounded K M m"
  unfolding bounded_def
proof (intro allI impI)
  fix w s n assume "inv_ok s"
  from assms [OF this] show "wp m (\<lambda>_ s' _. effects K M s s') (\<lambda>_ s' _. effects K M s s') w s n"
    by (rule wp_mono) (rule effects_same_stock_claims, assumption)+
qed

lemma bounded_atomically:
  assumes "\<And>w s n. inv_ok s \<Longrightarrow>
    wp m (\<lambda>r s' _. case r of Commit _ \<Rightarrow> effects K M s s' | Discard _ \<Rightarrow> True) (\<lambda>_ _ _. True) w s n"
  shows "bounded K M (atomically ErrStorage m)"
  unfolding bounded_def
proof (intro allI impI wpi_atomically)
  fix w s n assume inv: "inv_ok s"
  from assms [OF this]
  show "wp m (\<lambda>r s' _. case r of Commit a \<Rightarrow> \<forall>k::nat. effects K M s s' \<and> effects K M s s' | Discard a \<Rightarrow> \<forall>k::nat. effects K M s s)
      (\<lambda>e _ _. \<forall>k::nat. effects K M s s) w s (Suc n)"
    by (rule wp_mono) (auto simp: effects_refl [OF inv] split: outcome.splits)
  show "effects K M s s" using inv by (rule effects_refl)
qed

lemma bounded_commit:
  assumes "envelope_within M m" shows "bounded {} M (atomically ErrStorage (bindT m (\<lambda>a. ret (Commit (g a)))))"
proof (rule bounded_atomically)
  fix w s n assume "inv_ok s"
  with assms have "wp m (\<lambda>_ s' _. effects {} M s s' \<and> idempotency s' = idempotency s) (\<lambda>_ _ _. True) w s n"
    by (simp add: envelope_within_def)
  then show "wp (bindT m (\<lambda>a. ret (Commit (g a))))
      (\<lambda>r s' _. case r of Commit _ \<Rightarrow> effects {} M s s' | Discard _ \<Rightarrow> True) (\<lambda>_ _ _. True) w s n"
    unfolding wp_bindT wp_ret by (rule wp_mono) auto
qed

section \<open>The operations\<close>

lemma validItems_loop_facts:
  "validItems_loop svc items seen = Inr ys \<Longrightarrow>
    distinct (map it_FlavorID ys) \<and> set (map it_FlavorID ys) \<inter> set seen = {} \<and>
    (\<forall>y\<in>set ys. 0 < it_Portions y \<and> it_Portions y \<le> MaxPortions)"
proof (induction svc items seen arbitrary: ys rule: validItems_loop.induct)
  case (2 svc x xs seen)
  then obtain i zs where i: "ID svc (it_FlavorID x) = Inr i" "i \<notin> set seen" "1 \<le> it_Portions x"
    "it_Portions x \<le> MaxPortions" "validItems_loop svc xs (i # seen) = Inr zs" "ys = x\<lparr>it_FlavorID := i\<rparr> # zs"
    by (auto split: sum.splits if_splits)
  with "2.IH" [of i zs] show ?case by auto
qed simp

lemma validItems_facts:
  "validItems svc items = Inr ys \<Longrightarrow>
    distinct (map it_FlavorID ys) \<and> (\<forall>y\<in>set ys. 0 < it_Portions y \<and> it_Portions y \<le> MaxPortions)"
  using validItems_loop_facts by (fastforce simp: validItems_def split: if_splits)

lemma envelope_withinI:
  assumes "\<And>w s n. inv_ok s \<Longrightarrow> wp fn (\<lambda>a s' _. R w s a s') (\<lambda>_ _ _. True) w s n"
    and "\<And>w s a s'. inv_ok s \<Longrightarrow> R w s a s' \<Longrightarrow> effects {} M s s' \<and> idempotency s' = idempotency s"
  shows "envelope_within M fn"
  unfolding envelope_within_def using assms by (blast intro: wp_mono)

lemma envelope_reserve: "valid_reserve i \<Longrightarrow> envelope_within UNIV (reserve_tx svc c i)"
  by (rule envelope_withinI [where R = "\<lambda>w s. reserve_result s i"])
     (auto intro: wp_mono [OF wp_reserve_tx] simp: reserve_result_def reserved_def effects_def)

lemma effects_settled:
  "settled s s' rid r \<Longrightarrow> grows s s' \<Longrightarrow> rid \<in> M \<or> status_of s rid = Some RActive \<and> r_Status r = RExpired \<Longrightarrow>
    effects {} M s s' \<and> idempotency s' = idempotency s"
  by (auto simp: settled_def effects_def advances_def idle_def)

lemma effects_transition:
  assumes "inv_ok s" and "transition_result w s i confirm expiry r s'"
    and "ti_ReservationID i \<in> M \<or> expiry \<and> \<not> confirm"
  shows "effects {} M s s' \<and> idempotency s' = idempotency s"
proof -
  obtain row where own: "owned s (ti_ReservationID i) (ti_OrderID i) = Some row"
    and *: "if rr_Status row = RActive \<and> r_Status r \<noteq> RActive
         then settled s s' (ti_ReservationID i) r \<and> (expiry \<longrightarrow> \<not> confirm \<longrightarrow> r_Status r = RExpired) else s' = s"
    using assms(2) by (auto simp: transition_result_def split: if_splits)
  have "grows s s'" using advances_transition_result [OF assms(1,2)] by (simp add: advances_def)
  with * assms(1,3) owned_status [OF own] show ?thesis
    using effects_settled [of s s' "ti_ReservationID i" r M]
    by (cases "rr_Status row = RActive \<and> r_Status r \<noteq> RActive") (auto simp: effects_refl)
qed

lemma envelope_transition: "envelope_within {ti_ReservationID i} (transition c i confirm expiry)"
  by (rule envelope_withinI [where R = "\<lambda>w s. transition_result w s i confirm expiry"])
     (auto intro: wp_mono [OF wp_transition] dest: effects_transition [where M = "{ti_ReservationID i}"])

lemma envelope_expiry: "envelope_within {} (transition c i False True)"
  by (rule envelope_withinI [where R = "\<lambda>w s. transition_result w s i False True"])
     (auto intro: wp_mono [OF wp_transition] dest: effects_transition [where M = "{}"])

lemma effects_return:
  assumes "inv_ok s" and "return_result s i r s'"
  shows "effects {} {ti_ReservationID i} s s' \<and> idempotency s' = idempotency s"
proof -
  have "grows s s'" using advances_return_result [OF assms] by (simp add: advances_def)
  with assms show ?thesis
    using effects_settled [of s s' "ti_ReservationID i" r "{ti_ReservationID i}"]
    by (auto simp: return_result_def effects_refl split: if_splits)
qed

lemma envelope_return: "envelope_within {ti_ReservationID i} (returnConfirmed c i)"
  by (rule envelope_withinI [where R = "\<lambda>w s. return_result s i"])
     (auto intro: wp_mono [OF wp_returnConfirmed] dest: effects_return)

lemma envelope_waste: "1 \<le> wi_Portions i \<Longrightarrow> envelope_within M (waste_tx c b actor i)"
  by (rule envelope_withinI [where R = "\<lambda>w s _. same_stock_claims s"])
     (auto intro: wp_mono [OF wp_waste_tx] effects_same_stock_claims simp: same_stock_claims_def)

lemma envelope_create: "valid_create i \<Longrightarrow> envelope_within M (create_tx c i b code)"
  by (rule envelope_withinI [where R = "\<lambda>w s _. same_stock_claims s"])
     (auto intro: wp_mono [OF wp_create_tx] effects_same_stock_claims simp: same_stock_claims_def)

lemma bounded_mutateKeys:
  "envelope_within M fn \<Longrightarrow> set keys \<subseteq> K \<Longrightarrow> bounded K M (mutateKeys enc dec svc keys input fn)"
  unfolding bounded_def
  by (intro allI impI, erule (1) wp_mono [OF wp_mutateKeys_effects]) (erule effects_mono, assumption, simp)+

lemma bounded_mutate: "envelope_within M fn \<Longrightarrow> (op, key) \<in> K \<Longrightarrow> bounded K M (mutate enc dec svc op key input fn)"
  by (simp add: mutate_def bounded_mutateKeys)

text \<open>The idempotent operations meet the contract of the envelope.\<close>

interpretation reserve: mutation PReservation dec_reservation svc "''reserve''" QReserve "reserve_tx svc c" valid_reserve
  for svc c
  by unfold_locales (auto intro: envelope_within_ok [OF envelope_reserve])

interpretation settle: mutation PReservation dec_reservation svc "if confirm then ''confirm'' else ''release''"
    QTransition "\<lambda>i. transition c i confirm False" "\<lambda>_. True"
  for svc c confirm
  by unfold_locales (auto intro: envelope_within_ok [OF envelope_transition])

interpretation giveback: mutation PReservation dec_reservation svc "''return''" QTransition "returnConfirmed c" "\<lambda>_. True"
  for svc c
  by unfold_locales (auto intro: envelope_within_ok [OF envelope_return])

lemma valid_reserve_sorted:
  "validItems svc items = Inr ys \<Longrightarrow> ri_Items i = sort_key it_FlavorID ys \<Longrightarrow> valid_reserve i"
  using validItems_facts [of svc items ys]
  by (auto simp: valid_reserve_def distinct_map)

text \<open>The keys under which staff operations save their responses, by the operation of the key.\<close>

definition staff_keys :: "mutation_key set" where
  "staff_keys = {k. fst k \<notin> {''reserve'', ''confirm'', ''release'', ''return''}}"

lemma bounded_Reserve:
  assumes "\<And>key. ID svc (ri_Key i) = Inr key \<Longrightarrow> (''reserve'', key) \<in> K"
  shows "bounded K UNIV (Reserve svc c i)"
  unfolding Reserve_def Let_def
  by (intro bounded_rules bounded_mutate envelope_reserve) (use assms in \<open>auto intro: valid_reserve_sorted\<close>)

lemma bounded_Transition:
  assumes "\<And>rid. ID svc (ti_ReservationID i) = Inr rid \<Longrightarrow> rid \<in> M"
    and "\<And>key. ID svc (ti_Key i) = Inr key \<Longrightarrow> (if confirm then ''confirm'' else ''release'', key) \<in> K"
  shows "bounded K M (Transition svc c confirm i)"
  unfolding Transition_def Let_def
  by (intro bounded_rules bounded_mutate envelope_within_mono [OF envelope_transition]) (use assms in auto)

lemma bounded_Return:
  assumes "\<And>rid. ID svc (ti_ReservationID i) = Inr rid \<Longrightarrow> rid \<in> M"
    and "\<And>key. ID svc (ti_Key i) = Inr key \<Longrightarrow> (''return'', key) \<in> K"
  shows "bounded K M (Return svc c i)"
  unfolding Return_def Let_def
  by (intro bounded_rules bounded_mutate envelope_within_mono [OF envelope_return]) (use assms in auto)

lemma bounded_Waste: "bounded staff_keys M (Waste svc c b a i)"
  unfolding Waste_def Let_def
  by (intro bounded_rules bounded_mutateKeys envelope_waste) (auto simp: staff_keys_def split: option.splits)

lemma bounded_lookup: "bounded K M (lookupRESTMutation dec svc op key input)"
  unfolding lookupRESTMutation_def by (intro bounded_rules)

lemma bounded_Create: "bounded staff_keys M (Create svc c i)"
  unfolding Create_def Let_def
  by (intro bounded_rules bounded_mutate bounded_mono [OF bounded_commit [of M]] envelope_create bounded_lookup) (auto simp: staff_keys_def)

lemma bounded_expireReservation: "bounded {} {} (expireReservation c i)"
  unfolding expireReservation_def by (intro bounded_commit envelope_expiry)

lemma bounded_expireBatch: "bounded K M (expireBatch c i fl)"
  by (rule bounded_same) (rule wp_expireBatch)

lemma unseen_expiring [simp]:
  "unseen s (s\<lparr>batches := update_where p (\<lambda>b. b\<lparr>expiring_notified_at := v\<rparr>) (batches s), outbox := rows\<rparr>)"
  by (simp add: unseen_def inv_view_def update_where_def batch.truncate_def comp_def cong: map_cong)

lemma effects_unseen: "inv_ok s \<Longrightarrow> unseen s s' \<Longrightarrow> effects K M s s'"
  using inv_view_same(1) [of s' s] by (simp add: effects_def advances_unseen status_of_def unseen_def)

lemma bounded_notifyExpiringBatch: "bounded K M (notifyExpiringBatch i fl)"
  unfolding notifyExpiringBatch_def
  by (rule bounded_atomically)
     (auto simp: wp_bindT lockFlavor_def lock_def wp_rules insert_outbox_def effects_unseen split: option.splits)

lemma bounded_notify_loop: "bounded K M (notify_loop cs k)"
  by (induction cs k rule: notify_loop.induct) (auto intro!: bounded_rules bounded_notifyExpiringBatch)

lemma bounded_Sweep: "bounded {} {} (Sweep c limit)"
  unfolding Sweep_def NotifyExpiringBatches_def Let_def
  by (intro bounded_rules bounded_expireReservation bounded_notify_loop) (auto intro: bounded_expireBatch)

lemma steady_Reserve: "steady (Reserve svc c i)"
  by (rule bounded_Reserve) simp

lemma steady_Transition: "steady (Transition svc c confirm i)"
  by (rule bounded_Transition) simp_all

lemma steady_Return: "steady (Return svc c i)"
  by (rule bounded_Return) simp_all

section \<open>The service as a machine\<close>

text \<open>The calls that write; every one may be interrupted at any statement by its environment.\<close>

datatype inv_op =
    DoCreate ctx create_input
  | DoWaste ctx string string waste_input
  | DoReserve ctx reserve_input
  | DoTransition ctx bool transition_input
  | DoReturn ctx transition_input
  | DoSweep ctx int

definition forget :: "('s, 'e, 'a) tx \<Rightarrow> ('s, 'e, unit) tx" where
  "forget m = bindT m (\<lambda>_. ret ())"

fun run_op :: "service \<Rightarrow> inv_op \<Rightarrow> unit itx" where
  "run_op svc (DoCreate c i) = forget (Create svc c i)"
| "run_op svc (DoWaste c b a i) = forget (Waste svc c b a i)"
| "run_op svc (DoReserve c i) = forget (Reserve svc c i)"
| "run_op svc (DoTransition c confirm i) = forget (Transition svc c confirm i)"
| "run_op svc (DoReturn c i) = forget (Return svc c i)"
| "run_op svc (DoSweep c limit) = Sweep c limit"

inductive inv_step :: "service \<Rightarrow> inv_db \<Rightarrow> inv_db \<Rightarrow> bool" for svc where
  call: "inv_step svc s (state_of (run_op svc op w s n))"

inductive inv_steps :: "service \<Rightarrow> inv_db \<Rightarrow> inv_db \<Rightarrow> bool" for svc where
  here: "inv_steps svc s s"
| next_call: "inv_steps svc s t \<Longrightarrow> inv_step svc t u \<Longrightarrow> inv_steps svc s u"

inductive_cases inv_stepE: "inv_step svc s s'"

lemma steady_run_op: "steady (run_op svc op)"
  by (cases op) (auto simp: forget_def intro!: bounded_rules steady_Reserve steady_Transition steady_Return
      intro: bounded_steady [OF bounded_Create] bounded_steady [OF bounded_Waste] bounded_steady [OF bounded_Sweep])

lemma inv_step_advances: "inv_step svc s s' \<Longrightarrow> inv_ok s \<Longrightarrow> advances s s'"
  by (auto elim!: inv_stepE intro: steady_state [OF steady_run_op])

lemma inv_steps_advances: "inv_steps svc s s' \<Longrightarrow> inv_ok s \<Longrightarrow> advances s s'"
proof (induction rule: inv_steps.induct)
  case (next_call s t u)
  then have "advances s t" by simp
  moreover from this have "advances t u"
    using next_call.hyps(2) by (intro inv_step_advances) (simp_all add: advances_def)
  ultimately show ?case by (rule advances_trans)
qed (rule advances_refl)

lemma inv_ok_empty: "inv_ok empty_inv"
  by (simp add: inv_ok_def inv_off_def wf_tables_def empty_inv_def)

end
