(* ===== verification/Inventory_Calls.thy ===== *)
theory Inventory_Calls
  imports Inventory_Service
begin

text \<open>
  What a caller of the inventory service sees: the first call with an idempotency key runs the
  operation, every further call replays its answer. These are the facts the properties of the
  service and the order saga rest on.
\<close>

section \<open>Through the envelope\<close>

lemma envelope_frame [simp]:
  "reservations (claimed h ks s) = reservations s" "batches (claimed h ks s) = batches s"
  "allocations (claimed h ks s) = allocations s" "reservations (saved ks resp s) = reservations s"
  "allocations (saved ks resp s) = allocations s" "batches (saved ks resp s) = batches s"
  by (simp_all add: claimed_def saved_def)

lemma envelope_reads [simp]:
  "status_of (claimed h ks s) rid = status_of s rid" "status_of (saved ks resp s) rid = status_of s rid"
  "load_allocations rid (claimed h ks s) = load_allocations rid s"
  "load_allocations rid (saved ks resp s) = load_allocations rid s"
  "reservation_of (claimed h ks s) row = reservation_of s row"
  "reservation_of (saved ks resp s) row = reservation_of s row"
  "owned (claimed h ks s) rid oid = owned s rid oid"
  "fefo_rows fl t (claimed h ks s) = fefo_rows fl t s"
  "no_archived (claimed h ks s) = no_archived s"
  by (simp_all add: status_of_def load_allocations_def reservation_of_def owned_def fefo_rows_def no_archived_def)

lemma plan_reads [simp]:
  "planned (claimed h ks s) t = planned s t" "in_stock (claimed h ks s) t = in_stock s t"
  "picks_ok (claimed h ks s) t = picks_ok s t"
  by (simp_all add: planned_def in_stock_def picks_ok_def fun_eq_iff)

lemma error_reads:
  "transition_error w (claimed h ks s) q confirm e = transition_error w s q confirm e"
  "return_error (claimed h ks s) q e = return_error s q e"
  by (simp_all only: transition_error_def return_error_def envelope_reads)

section \<open>Reserve\<close>

text \<open>The input after validation: canonical ids, items in flavor order.\<close>

definition reserve_request :: "service \<Rightarrow> reserve_input \<Rightarrow> reserve_input option" where
  "reserve_request svc i =
     (case (validItems svc (ri_Items i), ID svc (ri_OrderID i), ID svc (ri_Key i)) of
        (Inr items, Inr orderID, Inr key) \<Rightarrow>
          Some \<lparr>ri_OrderID = orderID, ri_Key = key, ri_Items = sort_key it_FlavorID items\<rparr>
      | _ \<Rightarrow> None)"

lemma reserve_request_valid: "reserve_request svc i = Some q \<Longrightarrow> valid_reserve q"
  by (auto simp: reserve_request_def split: sum.splits intro: valid_reserve_sorted)

lemma Reserve_mutate:
  "reserve_request svc i = Some q \<Longrightarrow>
    Reserve svc c i = mutate PReservation dec_reservation svc ''reserve'' (ri_Key q) (QReserve q) (reserve_tx svc c q)"
  by (auto simp: reserve_request_def Reserve_def Let_def split: sum.splits)

lemma Reserve_rejected: "reserve_request svc i = None \<Longrightarrow> \<exists>e. Reserve svc c i = throw e"
  by (auto simp: reserve_request_def Reserve_def Let_def split: sum.splits)

lemma reserved_envelope:
  assumes "inv_ok s" and "fresh_keys ks s" and "reserved (claimed h ks s) i r s1"
    and "idempotency s1 = idempotency (claimed h ks s)"
  shows "reserved s i r (saved ks resp s1)"
proof -
  have "advances s (saved ks resp s1)"
    using assms(3) by (intro advances_envelope [OF assms(1,2) _ assms(4)]) (simp add: reserved_def)
  with assms(3) show ?thesis by (simp add: reserved_def)
qed

lemma fresh_single: "find_idem k s = None \<Longrightarrow> fresh_keys [k] s"
  by (simp add: fresh_keys_def find_idem_key)

text \<open>The first call, from what the operation does inside the envelope.\<close>

lemma wp_first_call:
  assumes inv: "inv_ok s" and new: "find_idem (op, key) s = None"
    and fn: "\<And>n. wp fn (\<lambda>a s' _. R a s' \<and> idempotency s' = idempotency (claimed (s_hash svc input) [(op, key)] s))
        (\<lambda>e _ _. F e) w (claimed (s_hash svc input) [(op, key)] s) n"
    and P: "\<And>a s1. R a s1 \<Longrightarrow> idempotency s1 = idempotency (claimed (s_hash svc input) [(op, key)] s) \<Longrightarrow>
        committed (op, key) (s_hash svc input) (enc a) (saved [(op, key)] (enc a) s1) \<Longrightarrow>
        P a (saved [(op, key)] (enc a) s1)"
    and F: "F ErrStorage"
  shows "wp (mutate enc dec svc op key input fn) (\<lambda>a s' _. P a s')
    (\<lambda>e s' _. F e \<and> s' = s \<or> e = ErrStorage \<and> (\<exists>a. P a s')) w s n"
proof -
  let ?I = "\<lambda>s'. idempotency s' = idempotency (claimed (s_hash svc input) [(op, key)] s)"
  have fn': "wp fn (\<lambda>a s' _. (R a s' \<and> ?I s') \<and> ?I s') (\<lambda>e _ _. F e) w (claimed (s_hash svc input) [(op, key)] s) n" for n
    by (rule wp_mono [OF fn]) auto
  show ?thesis
    by (rule wp_mono [OF wp_mutate_first [OF new refl fn']]) (use P F in blast)+
qed

text \<open>A first \<open>Reserve\<close> that took effect: the reservation, and the answer on record.\<close>

definition made_reservation :: "service \<Rightarrow> world \<Rightarrow> inv_db \<Rightarrow> reserve_input \<Rightarrow> reservation \<Rightarrow> inv_db \<Rightarrow> bool" where
  "made_reservation svc w s q r s' \<longleftrightarrow> reserved s q r s' \<and> r_ID r \<in> range (w_uuid w) \<and>
     committed (''reserve'', ri_Key q) (s_hash svc (QReserve q)) (PReservation r) s'"

lemma wp_Reserve_first:
  assumes inv: "inv_ok s" and q: "reserve_request svc i = Some q"
    and new: "find_idem (''reserve'', ri_Key q) s = None"
  shows "wp (Reserve svc c i) (\<lambda>r s' _. made_reservation svc w s q r s')
    (\<lambda>e s' _. reserve_error svc w s q e \<and> s' = s \<or> e = ErrStorage \<and> (\<exists>r. made_reservation svc w s q r s')) w s n"
proof -
  let ?c = "claimed (s_hash svc (QReserve q)) [(''reserve'', ri_Key q)] s"
  have fn: "wp (reserve_tx svc c q) (\<lambda>r s' _. (reserved ?c q r s' \<and> r_ID r \<in> range (w_uuid w)) \<and> idempotency s' = idempotency ?c)
      (\<lambda>e _ _. reserve_error svc w s q e) w ?c n'" for n'
    by (rule wp_mono [OF wp_reserve_tx]) (use inv reserve_request_valid [OF q] in
        \<open>auto simp: reserve_result_def reserve_error_def\<close>)
  show ?thesis
    unfolding Reserve_mutate [OF q]
    by (rule wp_first_call [OF inv new fn])
       (auto simp: reserved_envelope [OF inv fresh_single [OF new]] reserve_error_def made_reservation_def)
qed

section \<open>Confirm and release\<close>

definition transition_request :: "service \<Rightarrow> bool \<Rightarrow> transition_input \<Rightarrow> transition_input option" where
  "transition_request svc confirm i =
     (case (ID svc (ti_ReservationID i), ID svc (ti_OrderID i), ID svc (ti_Key i)) of
        (Inr rid, Inr oid, Inr key) \<Rightarrow>
          if \<not> shortText (ti_Reason i) 500 then None
          else Some \<lparr>ti_ReservationID = rid, ti_OrderID = oid, ti_Key = key,
            ti_Reason = (if confirm then [] else ti_Reason i)\<rparr>
      | _ \<Rightarrow> None)"

abbreviation settle_op :: "bool \<Rightarrow> string" where
  "settle_op confirm \<equiv> (if confirm then ''confirm'' else ''release'')"

lemma Transition_mutate:
  "transition_request svc confirm i = Some q \<Longrightarrow>
    Transition svc c confirm i = mutate PReservation dec_reservation svc (settle_op confirm) (ti_Key q) (QTransition q)
      (transition c q confirm False)"
  by (auto simp: transition_request_def Transition_def Let_def split: sum.splits if_splits)

lemma Transition_rejected: "transition_request svc confirm i = None \<Longrightarrow> \<exists>e. Transition svc c confirm i = throw e"
  by (auto simp: transition_request_def Transition_def Let_def split: sum.splits if_splits)

text \<open>The settled reservation, as seen in the tables after the call.\<close>

definition settles :: "inv_db \<Rightarrow> inv_db \<Rightarrow> string \<Rightarrow> res_status set \<Rightarrow> bool" where
  "settles s s' rid sts \<longleftrightarrow> advances s s' \<and> (\<exists>st\<in>sts. status_of s' rid = Some st) \<and>
     (\<forall>j. j \<noteq> rid \<longrightarrow> status_of s' j = status_of s j)"

abbreviation settle_targets :: "bool \<Rightarrow> res_status set" where
  "settle_targets confirm \<equiv> (if confirm then {RConfirmed} else {RReleased, RExpired})"

lemma transition_result_settles:
  assumes "inv_ok s" and "transition_result w s i confirm False r s'"
  shows "settles s s' (ti_ReservationID i) (settle_targets confirm) \<and> r_Status r \<in> settle_targets confirm \<and>
    status_of s' (ti_ReservationID i) = Some (r_Status r)"
proof -
  obtain row where own: "owned s (ti_ReservationID i) (ti_OrderID i) = Some row"
    and *: "if rr_Status row = RActive \<and> r_Status r \<noteq> RActive
         then settled s s' (ti_ReservationID i) r else s' = s \<and> r = reservation_of s row"
    and st: "r_Status r \<in> settle_targets confirm"
    using assms(2) by (auto simp: transition_result_def split: if_splits)
  have adv: "advances s s'" using advances_transition_result [OF assms] by simp
  show ?thesis
  proof (cases "rr_Status row = RActive \<and> r_Status r \<noteq> RActive")
    case True
    with * st adv show ?thesis by (auto simp: settles_def settled_def)
  next
    case False
    with * have "s' = s" "r_Status r = rr_Status row" by (auto simp: reservation_of_def)
    with st adv owned_status [OF own] show ?thesis by (auto simp: settles_def)
  qed
qed

lemma settles_envelope:
  assumes "inv_ok s" and "fresh_keys ks s" and "settles (claimed h ks s) s1 rid sts"
    and "idempotency s1 = idempotency (claimed h ks s)"
  shows "settles s (saved ks resp s1) rid sts"
proof -
  have "advances s (saved ks resp s1)"
    using assms(3) by (intro advances_envelope [OF assms(1,2) _ assms(4)]) (simp add: settles_def)
  with assms(3) show ?thesis by (simp add: settles_def)
qed

lemma wp_Transition_first:
  assumes inv: "inv_ok s" and q: "transition_request svc confirm i = Some q"
    and new: "find_idem (settle_op confirm, ti_Key q) s = None"
  shows "wp (Transition svc c confirm i)
    (\<lambda>r s' _. settles s s' (ti_ReservationID q) (settle_targets confirm) \<and> r_Status r \<in> settle_targets confirm)
    (\<lambda>e s' _. transition_error w s q confirm e \<and> s' = s \<or>
       e = ErrStorage \<and> settles s s' (ti_ReservationID q) (settle_targets confirm)) w s n"
proof -
  let ?c = "claimed (s_hash svc (QTransition q)) [(settle_op confirm, ti_Key q)] s"
  let ?P = "\<lambda>s r s'. settles s s' (ti_ReservationID q) (settle_targets confirm) \<and> r_Status r \<in> settle_targets confirm"
  have inv': "inv_ok ?c" using inv by simp
  have fn: "wp (transition c q confirm False) (\<lambda>r s' _. ?P ?c r s' \<and> idempotency s' = idempotency ?c)
      (\<lambda>e _ _. transition_error w s q confirm e) w ?c n'" for n'
  proof (rule wp_mono [OF wp_transition [OF inv']])
    show "?P ?c r s' \<and> idempotency s' = idempotency ?c" if "transition_result w ?c q confirm False r s'" for r s'
      using transition_result_settles [OF inv' that] advances_transition_result [OF inv' that] by blast
  qed (simp only: error_reads)
  show ?thesis
    unfolding Transition_mutate [OF q]
    by (rule wp_mono [OF wp_first_call [where P = "?P s", OF inv new fn]])
       (use settles_envelope [OF inv fresh_single [OF new]] in \<open>blast | simp add: transition_error_def\<close>)+
qed

section \<open>Return\<close>

definition return_request :: "service \<Rightarrow> transition_input \<Rightarrow> transition_input option" where
  "return_request svc i = transition_request svc False i"

lemma Return_mutate:
  "return_request svc i = Some q \<Longrightarrow>
    Return svc c i = mutate PReservation dec_reservation svc ''return'' (ti_Key q) (QTransition q) (returnConfirmed c q)"
  by (auto simp: return_request_def transition_request_def Return_def Let_def split: sum.splits if_splits)

lemma return_result_settles:
  assumes "inv_ok s" and "return_result s i r s'"
  shows "settles s s' (ti_ReservationID i) {RReturned}"
proof -
  have adv: "advances s s'" using advances_return_result [OF assms] by simp
  with assms(2) owned_status show ?thesis
    by (fastforce simp: return_result_def settles_def settled_def split: if_splits)
qed

lemma wp_Return_first:
  assumes inv: "inv_ok s" and q: "return_request svc i = Some q" and new: "find_idem (''return'', ti_Key q) s = None"
  shows "wp (Return svc c i)
    (\<lambda>r s' _. settles s s' (ti_ReservationID q) {RReturned} \<and> r_Status r = RReturned)
    (\<lambda>e s' _. return_error s q e \<and> s' = s \<or> e = ErrStorage \<and> settles s s' (ti_ReservationID q) {RReturned}) w s n"
proof -
  let ?c = "claimed (s_hash svc (QTransition q)) [(''return'', ti_Key q)] s"
  let ?P = "\<lambda>s r s'. settles s s' (ti_ReservationID q) {RReturned} \<and> r_Status r = RReturned"
  have inv': "inv_ok ?c" using inv by simp
  have fn: "wp (returnConfirmed c q) (\<lambda>r s' _. ?P ?c r s' \<and> idempotency s' = idempotency ?c)
      (\<lambda>e _ _. return_error s q e) w ?c n'" for n'
  proof (rule wp_mono [OF wp_returnConfirmed [OF inv']])
    show "?P ?c r s' \<and> idempotency s' = idempotency ?c" if "return_result ?c q r s'" for r s'
      using return_result_settles [OF inv' that] advances_return_result [OF inv' that] that
      by (simp add: return_result_def)
  qed (simp only: error_reads)
  show ?thesis
    unfolding Return_mutate [OF q]
    by (rule wp_mono [OF wp_first_call [where P = "?P s", OF inv new fn]])
       (use settles_envelope [OF inv fresh_single [OF new]] in \<open>blast | simp add: return_error_def\<close>)+
qed

section \<open>Retries\<close>

text \<open>
  A call that gives the answer \<open>a\<close> and changes nothing, and a call that is refused with \<open>err\<close> and
  changes nothing; a database error is possible only where a statement fails.
\<close>

definition replays :: "'a itx \<Rightarrow> 'a \<Rightarrow> inv_db \<Rightarrow> bool" where
  "replays m a s \<longleftrightarrow> (\<forall>w n. state_of (m w s n) = s \<and> result_of (m w s n) \<in> {Inr a, Inl ErrStorage} \<and>
     (no_faults w \<longrightarrow> result_of (m w s n) = Inr a))"

definition refuses :: "'a itx \<Rightarrow> ierror \<Rightarrow> inv_db \<Rightarrow> bool" where
  "refuses m err s \<longleftrightarrow> (\<forall>w n. state_of (m w s n) = s \<and> result_of (m w s n) \<in> {Inl err, Inl ErrStorage} \<and>
     (no_faults w \<longrightarrow> result_of (m w s n) = Inl err))"

lemma replaysI:
  assumes "\<And>w n. wp m (\<lambda>a' s' _. a' = a \<and> s' = s) (\<lambda>e s' _. e = ErrStorage \<and> s' = s \<and> \<not> no_faults w) w s n"
  shows "replays m a s"
  unfolding replays_def
proof (intro allI)
  fix w n
  show "state_of (m w s n) = s \<and> result_of (m w s n) \<in> {Inr a, Inl ErrStorage} \<and>
      (no_faults w \<longrightarrow> result_of (m w s n) = Inr a)"
    using assms [of w n] unfolding wp_result by (cases "result_of (m w s n)") auto
qed

lemma refusesI:
  assumes "\<And>w n. wp m (\<lambda>_ _ _. False) (\<lambda>e s' _. s' = s \<and> (e = err \<or> e = ErrStorage \<and> \<not> no_faults w)) w s n"
  shows "refuses m err s"
  unfolding refuses_def
proof (intro allI)
  fix w n
  show "state_of (m w s n) = s \<and> result_of (m w s n) \<in> {Inl err, Inl ErrStorage} \<and>
      (no_faults w \<longrightarrow> result_of (m w s n) = Inl err)"
    using assms [of w n] unfolding wp_result by (cases "result_of (m w s n)") auto
qed

lemma steady_grows:
  assumes "inv_ok s" and "steady m" and "m w s n = (res, s1, n1)" and "inv_steps svc s1 s2"
  shows "grows s1 s2"
proof -
  have "inv_ok s1" using steady_state [OF assms(2,1), of w n] assms(3) by (simp add: advances_def)
  then show ?thesis using inv_steps_advances [OF assms(4)] by (simp add: advances_def)
qed

text \<open>What \<open>Reserve\<close>, \<open>Transition\<close> and \<open>Return\<close> do on a retry, from the contract of the envelope.\<close>

lemma Reserve_retry:
  assumes "inv_ok s" and run: "Reserve svc c i w s n = (res, s1, n1)"
    and took: "(\<exists>r. res = Inr r) \<or> s1 \<noteq> s" and "inv_steps svc s1 s2"
  shows "\<exists>r. (\<forall>r'. res = Inr r' \<longrightarrow> r' = r) \<and> (\<forall>c'. replays (Reserve svc c' i) r s2)"
proof -
  obtain q where q: "reserve_request svc i = Some q"
    using Reserve_rejected [of svc i c] run took by (cases "reserve_request svc i") (auto simp: throw_def)
  note grow = steady_grows [OF assms(1) steady_Reserve run assms(4)]
  from reserve.retry [OF reserve_request_valid [OF q] assms(1) run [unfolded Reserve_mutate [OF q]] took grow]
  show ?thesis
    unfolding Reserve_mutate [OF q] by (blast intro: replaysI)
qed

lemma Transition_retry:
  assumes "inv_ok s" and run: "Transition svc c confirm i w s n = (res, s1, n1)"
    and took: "(\<exists>r. res = Inr r) \<or> s1 \<noteq> s" and "inv_steps svc s1 s2"
  shows "\<exists>r. (\<forall>r'. res = Inr r' \<longrightarrow> r' = r) \<and> (\<forall>c'. replays (Transition svc c' confirm i) r s2)"
proof -
  obtain q where q: "transition_request svc confirm i = Some q"
    using Transition_rejected [of svc confirm i c] run took by (cases "transition_request svc confirm i") (auto simp: throw_def)
  note grow = steady_grows [OF assms(1) steady_Transition run assms(4)]
  from settle.retry [OF TrueI assms(1) run [unfolded Transition_mutate [OF q]] took grow]
  show ?thesis
    unfolding Transition_mutate [OF q] by (blast intro: replaysI)
qed

lemma Return_rejected: "return_request svc i = None \<Longrightarrow> \<exists>e. Return svc c i = throw e"
  by (auto simp: return_request_def transition_request_def Return_def Let_def split: sum.splits if_splits)

lemma Return_retry:
  assumes "inv_ok s" and run: "Return svc c i w s n = (res, s1, n1)"
    and took: "(\<exists>r. res = Inr r) \<or> s1 \<noteq> s" and "inv_steps svc s1 s2"
  shows "\<exists>r. (\<forall>r'. res = Inr r' \<longrightarrow> r' = r) \<and> (\<forall>c'. replays (Return svc c' i) r s2)"
proof -
  obtain q where q: "return_request svc i = Some q"
    using Return_rejected [of svc i c] run took by (cases "return_request svc i") (auto simp: throw_def)
  note grow = steady_grows [OF assms(1) steady_Return run assms(4)]
  from giveback.retry [OF TrueI assms(1) run [unfolded Return_mutate [OF q]] took grow]
  show ?thesis
    unfolding Return_mutate [OF q] by (blast intro: replaysI)
qed

lemma Reserve_reuse:
  assumes "inv_ok s" and run: "Reserve svc c i w s n = (res, s1, n1)"
    and took: "(\<exists>r. res = Inr r) \<or> s1 \<noteq> s" and "inv_steps svc s1 s2"
    and q: "reserve_request svc i = Some q" and p: "reserve_request svc j = Some p" and key: "ri_Key p = ri_Key q"
    and hash: "s_hash svc (QReserve p) \<noteq> s_hash svc (QReserve q)"
  shows "refuses (Reserve svc c' j) ErrConflict s2"
proof -
  note grow = steady_grows [OF assms(1) steady_Reserve run assms(4)]
  from reserve.reuse_conflicts [OF reserve_request_valid [OF q] assms(1) run [unfolded Reserve_mutate [OF q]] took grow hash]
  show ?thesis
    unfolding Reserve_mutate [OF p] key by (intro refusesI)
qed

end
