(* ===== verification/Inventory_Samples.thy ===== *)
theory Inventory_Samples
  imports Inventory_Calls
begin

text \<open>
  Concrete values on which the theorems about the inventory service are exercised: a service
  that accepts every id, an environment without faults, one order for seven portions. The
  states are written out, and each is shown to be what the calls leave behind.
\<close>

definition sample_now :: time where
  "sample_now = 63840441600 * Second"

definition sample_world :: world where
  "sample_world = \<lparr>w_fails = (\<lambda>_. False), w_applied = (\<lambda>_. False), w_clock = (\<lambda>_. sample_now),
     w_uuid = (\<lambda>n. [char_of (n + 48)])\<rparr>"

definition sample_service :: service where
  "sample_service = \<lparr>s_TTL = 15 * Minute, s_Catalog = Some (\<lambda>_. None), s_uuidParse = Some,
     s_hash = (\<lambda>q. case q of QReserve i \<Rightarrow> ri_OrderID i | QTransition i \<Rightarrow> ti_ReservationID i | _ \<Rightarrow> ''h'')\<rparr>"

definition sample_ctx :: ctx where
  "sample_ctx = \<lparr>c_actorID = ''m'', c_actorRole = ''MANAGER'', c_restKey = None\<rparr>"

text \<open>Two batches of one flavor; the second one expires earlier.\<close>

definition sample_create :: create_input where
  "sample_create = \<lparr>ci_BatchCode = Some ''mango-1'', ci_FlavorID = ''mango'', ci_ProductionDate = ''2024-01-09'',
     ci_ExpiresAt = 63841305600 * Second, ci_Initial = 30, ci_UnitCost = Some 5, ci_Currency = ''THB''\<rparr>"

definition sample_create2 :: create_input where
  "sample_create2 = sample_create\<lparr>ci_BatchCode := Some ''mango-2'', ci_ExpiresAt := 63840873600 * Second, ci_Initial := 4\<rparr>"

definition sample_order :: reserve_input where
  "sample_order = \<lparr>ri_OrderID = ''o1'', ri_Key = ''k1'', ri_Items = [\<lparr>it_FlavorID = ''mango'', it_Portions = 7\<rparr>]\<rparr>"

definition big_order :: reserve_input where
  "big_order = sample_order\<lparr>ri_Items := [\<lparr>it_FlavorID = ''mango'', it_Portions = 31\<rparr>]\<rparr>"

definition other_order :: reserve_input where
  "other_order = sample_order\<lparr>ri_OrderID := ''o2''\<rparr>"

definition stocked :: inv_db where
  "stocked = \<lparr>batches = [\<lparr>b_ID = ''0'', b_BatchCode = ''MANGO-1'', b_FlavorID = ''mango'',
     b_ProductionDate = ''2024-01-09'', b_ExpiresAt = 63841305600000000000, b_Initial = 30, b_Available = 30,
     b_Reserved = 0, b_Sold = 0, b_Wasted = 0, b_UnitCost = 5, b_Currency = ''THB'', b_Status = BActive,
     b_CreatedAt = 63840441600000000000, b_UpdatedAt = 63840441600000000000, low_stock_notified_at = None,
     expiring_notified_at = None\<rparr>], reservations = [], allocations = [], movements = [\<lparr>mv_ID =
     ''5'', mv_BatchID = ''0'', mv_ReservationID = None, mv_Kind = MProduced, mv_Portions = 30, mv_OccurredAt
     = 63840441600000000000, mv_Actor = Some (''m'', ''MANAGER'')\<rparr>], wastes = [], idempotency = [],
     outbox = []\<rparr>"

definition stocked2 :: inv_db where
  "stocked2 = \<lparr>batches = [\<lparr>b_ID = ''0'', b_BatchCode = ''MANGO-1'', b_FlavorID = ''mango'',
     b_ProductionDate = ''2024-01-09'', b_ExpiresAt = 63841305600000000000, b_Initial = 30, b_Available = 30,
     b_Reserved = 0, b_Sold = 0, b_Wasted = 0, b_UnitCost = 5, b_Currency = ''THB'', b_Status = BActive,
     b_CreatedAt = 63840441600000000000, b_UpdatedAt = 63840441600000000000, low_stock_notified_at = None,
     expiring_notified_at = None\<rparr>, \<lparr>b_ID = ''<'', b_BatchCode = ''MANGO-2'', b_FlavorID =
     ''mango'', b_ProductionDate = ''2024-01-09'', b_ExpiresAt = 63840873600000000000, b_Initial = 4,
     b_Available = 4, b_Reserved = 0, b_Sold = 0, b_Wasted = 0, b_UnitCost = 5, b_Currency = ''THB'', b_Status
     = BActive, b_CreatedAt = 63840441600000000000, b_UpdatedAt = 63840441600000000000, low_stock_notified_at
     = None, expiring_notified_at = None\<rparr>], reservations = [], allocations = [], movements =
     [\<lparr>mv_ID = ''5'', mv_BatchID = ''0'', mv_ReservationID = None, mv_Kind = MProduced, mv_Portions =
     30, mv_OccurredAt = 63840441600000000000, mv_Actor = Some (''m'', ''MANAGER'')\<rparr>, \<lparr>mv_ID =
     ''A'', mv_BatchID = ''<'', mv_ReservationID = None, mv_Kind = MProduced, mv_Portions = 4, mv_OccurredAt =
     63840441600000000000, mv_Actor = Some (''m'', ''MANAGER'')\<rparr>], wastes = [], idempotency = [],
     outbox = []\<rparr>"

definition fefo_reservation :: reservation where
  "fefo_reservation = \<lparr>r_ID = ''T'', r_OrderID = ''o1'', r_Status = RActive, r_Allocations = [\<lparr>al_FlavorID =
     ''mango'', al_BatchID = ''<'', al_Portions = 4\<rparr>, \<lparr>al_FlavorID = ''mango'', al_BatchID =
     ''0'', al_Portions = 3\<rparr>], r_CreatedAt = 63840441600000000000, r_ExpiresAt =
     63840442500000000000\<rparr>"

definition sample_reservation :: reservation where
  "sample_reservation = \<lparr>r_ID = ''T'', r_OrderID = ''o1'', r_Status = RActive, r_Allocations = [\<lparr>al_FlavorID =
     ''mango'', al_BatchID = ''0'', al_Portions = 7\<rparr>], r_CreatedAt = 63840441600000000000, r_ExpiresAt
     = 63840442500000000000\<rparr>"

definition sold_once :: inv_db where
  "sold_once = \<lparr>batches = [\<lparr>b_ID = ''0'', b_BatchCode = ''MANGO-1'', b_FlavorID = ''mango'',
     b_ProductionDate = ''2024-01-09'', b_ExpiresAt = 63841305600000000000, b_Initial = 30, b_Available = 23,
     b_Reserved = 7, b_Sold = 0, b_Wasted = 0, b_UnitCost = 5, b_Currency = ''THB'', b_Status = BActive,
     b_CreatedAt = 63840441600000000000, b_UpdatedAt = 63840441600000000000, low_stock_notified_at = None,
     expiring_notified_at = None\<rparr>], reservations = [\<lparr>rr_ID = ''T'', rr_OrderID = ''o1'',
     rr_Status = RActive, rr_CreatedAt = 63840441600000000000, rr_ExpiresAt = 63840442500000000000,
     rr_UpdatedAt = 63840441600000000000, rr_ReleaseReason = []\<rparr>], allocations =
     [\<lparr>ar_ReservationID = ''T'', ar_BatchID = ''0'', ar_FlavorID = ''mango'', ar_Portions = 7,
     ar_Position = 0\<rparr>], movements = [\<lparr>mv_ID = ''5'', mv_BatchID = ''0'', mv_ReservationID =
     None, mv_Kind = MProduced, mv_Portions = 30, mv_OccurredAt = 63840441600000000000, mv_Actor = Some
     (''m'', ''MANAGER'')\<rparr>, \<lparr>mv_ID = ''Z'', mv_BatchID = ''0'', mv_ReservationID = Some ''T'',
     mv_Kind = MReserved, mv_Portions = 7, mv_OccurredAt = 63840441600000000000, mv_Actor = Some (''m'',
     ''MANAGER'')\<rparr>], wastes = [], idempotency = [\<lparr>id_Key = (''reserve'', ''k1''), id_Hash =
     ''o1'', id_Response = Some (PReservation \<lparr>r_ID = ''T'', r_OrderID = ''o1'', r_Status = RActive,
     r_Allocations = [\<lparr>al_FlavorID = ''mango'', al_BatchID = ''0'', al_Portions = 7\<rparr>],
     r_CreatedAt = 63840441600000000000, r_ExpiresAt = 63840442500000000000\<rparr>)\<rparr>], outbox =
     []\<rparr>"

definition sample_settle :: transition_input where
  "sample_settle = \<lparr>ti_ReservationID = r_ID sample_reservation, ti_OrderID = ''o1'', ti_Key = ''k2'', ti_Reason = []\<rparr>"

definition paid_once :: inv_db where
  "paid_once = \<lparr>batches = [\<lparr>b_ID = ''0'', b_BatchCode = ''MANGO-1'', b_FlavorID = ''mango'',
     b_ProductionDate = ''2024-01-09'', b_ExpiresAt = 63841305600000000000, b_Initial = 30, b_Available = 23,
     b_Reserved = 0, b_Sold = 7, b_Wasted = 0, b_UnitCost = 5, b_Currency = ''THB'', b_Status = BActive,
     b_CreatedAt = 63840441600000000000, b_UpdatedAt = 63840441600000000000, low_stock_notified_at = None,
     expiring_notified_at = None\<rparr>], reservations = [\<lparr>rr_ID = ''T'', rr_OrderID = ''o1'',
     rr_Status = RConfirmed, rr_CreatedAt = 63840441600000000000, rr_ExpiresAt = 63840442500000000000,
     rr_UpdatedAt = 63840441600000000000, rr_ReleaseReason = []\<rparr>], allocations =
     [\<lparr>ar_ReservationID = ''T'', ar_BatchID = ''0'', ar_FlavorID = ''mango'', ar_Portions = 7,
     ar_Position = 0\<rparr>], movements = [\<lparr>mv_ID = ''5'', mv_BatchID = ''0'', mv_ReservationID =
     None, mv_Kind = MProduced, mv_Portions = 30, mv_OccurredAt = 63840441600000000000, mv_Actor = Some
     (''m'', ''MANAGER'')\<rparr>, \<lparr>mv_ID = ''Z'', mv_BatchID = ''0'', mv_ReservationID = Some ''T'',
     mv_Kind = MReserved, mv_Portions = 7, mv_OccurredAt = 63840441600000000000, mv_Actor = Some (''m'',
     ''MANAGER'')\<rparr>, \<lparr>mv_ID = ''k'', mv_BatchID = ''0'', mv_ReservationID = Some ''T'', mv_Kind =
     MConfirmed, mv_Portions = 7, mv_OccurredAt = 63840441600000000000, mv_Actor = Some (''m'',
     ''MANAGER'')\<rparr>], wastes = [], idempotency = [\<lparr>id_Key = (''reserve'', ''k1''), id_Hash =
     ''o1'', id_Response = Some (PReservation \<lparr>r_ID = ''T'', r_OrderID = ''o1'', r_Status = RActive,
     r_Allocations = [\<lparr>al_FlavorID = ''mango'', al_BatchID = ''0'', al_Portions = 7\<rparr>],
     r_CreatedAt = 63840441600000000000, r_ExpiresAt = 63840442500000000000\<rparr>)\<rparr>, \<lparr>id_Key =
     (''confirm'', ''k2''), id_Hash = ''T'', id_Response = Some (PReservation \<lparr>r_ID = ''T'', r_OrderID
     = ''o1'', r_Status = RConfirmed, r_Allocations = [\<lparr>al_FlavorID = ''mango'', al_BatchID = ''0'',
     al_Portions = 7\<rparr>], r_CreatedAt = 63840441600000000000, r_ExpiresAt =
     63840442500000000000\<rparr>)\<rparr>], outbox = []\<rparr>"

definition confirmed_reservation :: reservation where
  "confirmed_reservation = \<lparr>r_ID = ''T'', r_OrderID = ''o1'', r_Status = RConfirmed, r_Allocations = [\<lparr>al_FlavorID =
     ''mango'', al_BatchID = ''0'', al_Portions = 7\<rparr>], r_CreatedAt = 63840441600000000000, r_ExpiresAt
     = 63840442500000000000\<rparr>"

definition returned_reservation :: reservation where
  "returned_reservation = \<lparr>r_ID = ''T'', r_OrderID = ''o1'', r_Status = RReturned, r_Allocations = [\<lparr>al_FlavorID =
     ''mango'', al_BatchID = ''0'', al_Portions = 7\<rparr>], r_CreatedAt = 63840441600000000000, r_ExpiresAt
     = 63840442500000000000\<rparr>"

lemma stocked_run: "state_of (run_op sample_service (DoCreate sample_ctx sample_create) sample_world empty_inv 0) = stocked"
  by code_simp

lemma stocked2_run: "state_of (run_op sample_service (DoCreate sample_ctx sample_create2) sample_world stocked 12) = stocked2"
  by code_simp

lemma fefo_reservation_run: "result_of (Reserve sample_service sample_ctx sample_order sample_world stocked2 30) = Inr fefo_reservation"
  by code_simp

lemma sample_reservation_run: "result_of (Reserve sample_service sample_ctx sample_order sample_world stocked 30) = Inr sample_reservation"
  by code_simp

lemma sold_once_run: "state_of (run_op sample_service (DoReserve sample_ctx sample_order) sample_world stocked 30) = sold_once"
  by code_simp

lemma paid_once_run: "state_of (run_op sample_service (DoTransition sample_ctx True sample_settle) sample_world sold_once 50) = paid_once"
  by code_simp

lemma confirmed_reservation_run: "result_of (Transition sample_service sample_ctx True sample_settle sample_world sold_once 50) = Inr confirmed_reservation"
  by code_simp

lemma returned_reservation_run: "result_of (Return sample_service sample_ctx sample_settle sample_world paid_once 65) = Inr returned_reservation"
  by code_simp

section \<open>The states are reachable\<close>

lemma stocked_steps: "inv_steps sample_service empty_inv stocked"
  using inv_steps.next_call [OF inv_steps.here inv_step.call] unfolding stocked_run [symmetric] .

lemma stocked2_steps: "inv_steps sample_service empty_inv stocked2"
  using inv_steps.next_call [OF stocked_steps inv_step.call] unfolding stocked2_run [symmetric] .

lemma sold_once_steps: "inv_steps sample_service empty_inv sold_once"
  using inv_steps.next_call [OF stocked_steps inv_step.call] unfolding sold_once_run [symmetric] .

lemma paid_once_step: "inv_steps sample_service sold_once paid_once"
  using inv_steps.next_call [OF inv_steps.here inv_step.call] unfolding paid_once_run [symmetric] .

lemma paid_once_steps: "inv_steps sample_service empty_inv paid_once"
  using inv_steps.next_call [OF sold_once_steps inv_step.call] unfolding paid_once_run [symmetric] .

lemmas reserve_run_ok = run_result [OF sample_reservation_run]
  and fefo_run_ok = run_result [OF fefo_reservation_run]
  and confirm_run_ok = run_result [OF confirmed_reservation_run]
  and return_run_ok = run_result [OF returned_reservation_run]

end
