(* ===== verification/Inventory_Props.thy ===== *)
theory Inventory_Props
  imports Inventory_Samples
begin

text \<open>
  The properties of the batch inventory service: over every state that any sequence of calls,
  with any faults, reaches from the empty tables.
\<close>

lemma reach_ok: "inv_steps svc empty_inv s \<Longrightarrow> inv_ok s"
  using inv_steps_advances [OF _ inv_ok_empty] by (simp add: advances_def)

lemma reach_no_archived: "inv_steps svc empty_inv s \<Longrightarrow> no_archived s"
  using inv_steps_advances [OF _ inv_ok_empty]
  by (simp add: advances_def grows_def no_archived_def empty_inv_def)

section \<open>Stock\<close>

text \<open>
  C4. Stock is conserved and accounted for. In every reachable state the portions of a batch
  are split without loss into available, reserved, sold and wasted ones, none of the counters
  negative; the reserved counter is what the active reservations hold, the sold counter what the
  confirmed ones took, and the available and the wasted counter are what the append-only
  movements and the waste records add up to.
\<close>

theorem stock_accounted:
  assumes "inv_steps svc empty_inv s" and "b \<in> set (batches s)"
  shows "0 \<le> b_Available b \<and> 0 \<le> b_Reserved b \<and> 0 \<le> b_Sold b \<and> 0 \<le> b_Wasted b \<and>
    b_Available b + b_Reserved b + b_Sold b + b_Wasted b = b_Initial b \<and> b_Initial b \<le> MaxPortions \<and>
    b_Reserved b = held s RActive (b_ID b) \<and> b_Sold b = held s RConfirmed (b_ID b) \<and>
    b_Available b = history_available s (b_ID b) \<and>
    b_Wasted b = history_wasted s (b_ID b) \<and> b_Wasted b = waste_total s (b_ID b)"
proof -
  have "inv_off no_off no_off s" using reach_ok [OF assms(1)] by (simp add: inv_ok_def)
  from inv_offD(2,3) [OF this assms(2)] show ?thesis
    by (auto simp: wf_batch_def ledger_def)
qed

theorem stock_accounted_witness:
  "b_Available (hd (batches sold_once)) = 23 \<and>
   b_Available (hd (batches sold_once)) = history_available sold_once (b_ID (hd (batches sold_once)))"
proof -
  have "hd (batches sold_once) \<in> set (batches sold_once)" by code_simp
  moreover have "b_Available (hd (batches sold_once)) = 23" by code_simp
  ultimately show ?thesis using stock_accounted [OF sold_once_steps] by blast
qed

text \<open>
  C5. A reservation takes exactly what was asked for. When the first call of \<open>Reserve\<close> with a
  key returns a reservation, the allocations of each requested flavor add up to the requested
  portions, every allocated batch was active and unexpired and had at least the allocated
  portions, no batch is allocated twice, and the reservation is on record as returned.
\<close>

theorem reserve_exact:
  assumes "inv_steps svc empty_inv s" and "reserve_request svc i = Some q"
    and "find_idem (''reserve'', ri_Key q) s = None"
    and "Reserve svc c i w s n = (Inr r, s', n')" and "x \<in> set (ri_Items q)"
  shows "sum_where (\<lambda>a. al_FlavorID a = it_FlavorID x) al_Portions (r_Allocations r) = it_Portions x \<and>
    distinct (map al_BatchID (r_Allocations r)) \<and>
    (\<forall>a\<in>set (r_Allocations r). \<exists>b\<in>set (batches s). b_ID b = al_BatchID a \<and> b_FlavorID b = al_FlavorID a \<and>
      b_Status b = BActive \<and> r_CreatedAt r < b_ExpiresAt b \<and> 0 < al_Portions a \<and> al_Portions a \<le> b_Available b) \<and>
    (\<exists>row. find_res (r_ID r) s' = Some row \<and> r = reservation_of s' row \<and> rr_Status row = RActive)"
proof -
  have inv: "inv_ok s" using assms(1) by (rule reach_ok)
  have R: "reserved s q r s'"
    using wp_runD(1) [OF wp_Reserve_first [OF inv assms(2,3)] assms(4)] by (simp add: made_reservation_def)
  then show ?thesis
    using reserved_exact [OF inv reserve_request_valid [OF assms(2)] R assms(5)] by simp
qed

theorem reserve_exact_witness:
  "sum_where (\<lambda>a. al_FlavorID a = ''mango'') al_Portions (r_Allocations sample_reservation) = 7"
proof -
  have q: "reserve_request sample_service sample_order = Some sample_order" by code_simp
  have new: "find_idem (''reserve'', ri_Key sample_order) stocked = None" by code_simp
  have x: "\<lparr>it_FlavorID = ''mango'', it_Portions = 7\<rparr> \<in> set (ri_Items sample_order)" by code_simp
  from reserve_exact [OF stocked_steps q new reserve_run_ok x] show ?thesis by simp
qed

text \<open>
  C6. First expired, first out. If a reservation takes portions from a batch, every sellable
  batch of the same flavor that comes before it (by expiry, then creation, then id) is
  allocated with all its available portions.
\<close>

theorem reserve_fefo:
  assumes "inv_steps svc empty_inv s" and "reserve_request svc i = Some q"
    and "find_idem (''reserve'', ri_Key q) s = None"
    and "Reserve svc c i w s n = (Inr r, s', n')"
    and "a \<in> set (r_Allocations r)" and "b \<in> set (batches s)" and "b_ID b = al_BatchID a"
    and "y \<in> set (batches s)" and "b_FlavorID y = al_FlavorID a" and "b_Status y = BActive"
    and "0 < b_Available y" and "r_CreatedAt r < b_ExpiresAt y" and "batch_order y < batch_order b"
  shows "\<lparr>al_FlavorID = b_FlavorID y, al_BatchID = b_ID y, al_Portions = b_Available y\<rparr> \<in> set (r_Allocations r)"
proof -
  have inv: "inv_ok s" using assms(1) by (rule reach_ok)
  have R: "reserved s q r s'"
    using wp_runD(1) [OF wp_Reserve_first [OF inv assms(2,3)] assms(4)] by (simp add: made_reservation_def)
  show ?thesis
    by (rule reserved_fefo [OF inv reserve_request_valid [OF assms(2)] R assms(5-)])
qed

theorem reserve_fefo_witness:
  "\<lparr>al_FlavorID = ''mango'', al_BatchID = b_ID (batches stocked2 ! 1), al_Portions = 4\<rparr>
     \<in> set (r_Allocations fefo_reservation)"
proof -
  let ?b = "batches stocked2 ! 0" and ?y = "batches stocked2 ! 1"
    and ?a = "last (r_Allocations fefo_reservation)"
  have q: "reserve_request sample_service sample_order = Some sample_order" by code_simp
  have new: "find_idem (''reserve'', ri_Key sample_order) stocked2 = None" by code_simp
  have a: "?a \<in> set (r_Allocations fefo_reservation)" by code_simp
  have b: "?b \<in> set (batches stocked2)" "b_ID ?b = al_BatchID ?a" by code_simp+
  have y: "?y \<in> set (batches stocked2)" "b_FlavorID ?y = al_FlavorID ?a" "b_Status ?y = BActive"
    "0 < b_Available ?y" "r_CreatedAt fefo_reservation < b_ExpiresAt ?y" "batch_order ?y < batch_order ?b"
    by code_simp+
  have "b_FlavorID ?y = ''mango''" "b_Available ?y = 4" by code_simp+
  with reserve_fefo [OF stocked2_steps q new fefo_run_ok a b y] show ?thesis by simp
qed

text \<open>
  C7. Errors of a first \<open>Reserve\<close> change nothing, or the reply of a commit was lost. An
  insufficient-stock error is only reported if, at a clock reading of the call, some requested
  flavor really has fewer sellable portions than asked for.
\<close>

theorem reserve_errors:
  assumes "inv_steps svc empty_inv s" and "reserve_request svc i = Some q"
    and "find_idem (''reserve'', ri_Key q) s = None"
    and "Reserve svc c i w s n = (Inl e, s', n')"
  shows "(s' = s \<or> e = ErrStorage \<and> (\<exists>r. reserved s q r s')) \<and>
    (e = ErrStock \<longrightarrow> (\<exists>k. \<exists>x\<in>set (ri_Items q). row_supply (fefo_rows (it_FlavorID x) (w_clock w k) s) < it_Portions x)) \<and>
    (e = ErrConflict \<longrightarrow> (\<exists>r\<in>set (reservations s). rr_OrderID r = ri_OrderID q))"
proof -
  have inv: "inv_ok s" using assms(1) by (rule reach_ok)
  from wp_runD(2) [OF wp_Reserve_first [OF inv assms(2,3)] assms(4)] show ?thesis
    by (auto simp: reserve_error_def in_stock_def not_le made_reservation_def)
qed

theorem reserve_errors_witness:
  "\<exists>k. \<exists>x\<in>set (ri_Items big_order). row_supply (fefo_rows (it_FlavorID x) (w_clock sample_world k) stocked) < it_Portions x"
proof -
  let ?run = "Reserve sample_service sample_ctx big_order sample_world stocked 30"
  have q: "reserve_request sample_service big_order = Some big_order" by code_simp
  have new: "find_idem (''reserve'', ri_Key big_order) stocked = None" by code_simp
  have "?run = (Inl ErrStock, state_of ?run, snd (snd ?run))"
    by (rule run_result) code_simp
  from reserve_errors [OF stocked_steps q new this] show ?thesis by blast
qed

section \<open>Reservations\<close>

text \<open>
  A live hold can always be confirmed: the first \<open>Transition\<close> with a key that confirms an
  active reservation, every clock reading being before its expiry, either confirms it or fails
  with a database error; no other error is possible. After a database error the reservation is
  as before or confirmed.
\<close>

theorem confirm_live:
  assumes "inv_steps svc empty_inv s" and "transition_request svc True i = Some q"
    and "find_idem (''confirm'', ti_Key q) s = None"
    and "owned s (ti_ReservationID q) (ti_OrderID q) = Some row" and "rr_Status row = RActive"
    and "\<And>k. w_clock w k < rr_ExpiresAt row"
    and "Transition svc c True i w s n = (res, s', n')"
  shows "case res of
      Inr r \<Rightarrow> r_Status r = RConfirmed \<and> status_of s' (ti_ReservationID q) = Some RConfirmed
    | Inl e \<Rightarrow> e = ErrStorage \<and> (s' = s \<or> status_of s' (ti_ReservationID q) = Some RConfirmed)"
proof -
  have inv: "inv_ok s" and na: "no_archived s"
    using assms(1) reach_ok reach_no_archived by auto
  have "e = ErrStorage" if "transition_error w s q True e" for e
    using that assms(4-6) na by (auto simp: transition_error_def)
  moreover have "find_idem (settle_op True, ti_Key q) s = None" using assms(3) by simp
  note wp_Transition_first [OF inv assms(2) this, of c w n]
  ultimately show ?thesis
    using assms(7) by (auto simp: wp_def settles_def split: sum.splits)
qed

theorem confirm_live_witness:
  "status_of (state_of (Transition sample_service sample_ctx True sample_settle sample_world sold_once 50)) (ti_ReservationID sample_settle) = Some RConfirmed"
proof -
  let ?row = "the (owned sold_once (ti_ReservationID sample_settle) (ti_OrderID sample_settle))"
  have q: "transition_request sample_service True sample_settle = Some sample_settle" by code_simp
  have new: "find_idem (''confirm'', ti_Key sample_settle) sold_once = None" by code_simp
  have row: "owned sold_once (ti_ReservationID sample_settle) (ti_OrderID sample_settle) = Some ?row"
    "rr_Status ?row = RActive" by code_simp+
  have "sample_now < rr_ExpiresAt ?row" by code_simp
  then have t: "w_clock sample_world k < rr_ExpiresAt ?row" for k by (simp add: sample_world_def)
  from confirm_live [OF sold_once_steps q new row t confirm_run_ok] show ?thesis by simp
qed

text \<open>
  C8. The life of a reservation. Whatever calls are made, a reservation that exists stays, with
  its order, its expiry and its allocations, and its status only moves from ACTIVE onwards or
  from CONFIRMED to RETURNED: released, expired and returned reservations are final, and
  confirmed portions are never released.
\<close>

theorem reservation_life:
  assumes "inv_steps svc empty_inv s" and "inv_steps svc s s'" and "find_res rid s = Some r"
  shows "\<exists>r'. find_res rid s' = Some r' \<and> rr_OrderID r' = rr_OrderID r \<and> rr_ExpiresAt r' = rr_ExpiresAt r \<and>
    load_allocations rid s' = load_allocations rid s \<and>
    (case rr_Status r of
       RActive \<Rightarrow> True
     | RConfirmed \<Rightarrow> rr_Status r' \<in> {RConfirmed, RReturned}
     | st \<Rightarrow> rr_Status r' = st)"
proof -
  have "advances s s'" by (rule inv_steps_advances [OF assms(2) reach_ok [OF assms(1)]])
  with assms(3) obtain r' where r': "find_res rid s' = Some r'" "row_grows r r'"
    "load_allocations rid s' = load_allocations rid s"
    unfolding advances_def grows_def keeps_reservations_def by blast
  then show ?thesis
    by (intro exI [of _ r']) (cases "rr_Status r"; simp add: row_grows_def)
qed

theorem reservation_life_witness:
  "\<exists>r'. find_res (ti_ReservationID sample_settle) paid_once = Some r' \<and> rr_OrderID r' = ''o1''"
proof -
  let ?r = "the (find_res (ti_ReservationID sample_settle) sold_once)"
  have r: "find_res (ti_ReservationID sample_settle) sold_once = Some ?r" by code_simp
  have "rr_OrderID ?r = ''o1''" by code_simp
  with reservation_life [OF sold_once_steps paid_once_step r] show ?thesis by auto
qed

text \<open>
  An order has at most one reservation.
\<close>

theorem one_reservation_per_order:
  assumes "inv_steps svc empty_inv s" and "r1 \<in> set (reservations s)" and "r2 \<in> set (reservations s)"
    and "rr_OrderID r1 = rr_OrderID r2"
  shows "r1 = r2"
  using reach_ok [OF assms(1)] assms(2-4)
  by (auto simp: inv_ok_def inv_off_def wf_tables_def dest: distinct_key_eq)

theorem one_reservation_per_order_witness:
  "hd (reservations sold_once) = last (reservations sold_once)"
proof -
  have "hd (reservations sold_once) \<in> set (reservations sold_once)"
    "last (reservations sold_once) \<in> set (reservations sold_once)"
    "rr_OrderID (hd (reservations sold_once)) = rr_OrderID (last (reservations sold_once))" by code_simp+
  then show ?thesis by (rule one_reservation_per_order [OF sold_once_steps])
qed

section \<open>Retries\<close>

text \<open>
  C9. Reserving is exactly-once. If a call of \<open>Reserve\<close> answered, or took effect although its
  answer was lost, then at any later time a retry with the same input leaves the tables alone
  and gives the one answer of the first call (or a database error, if a statement fails).
\<close>

theorem reserve_exactly_once:
  assumes "inv_steps svc empty_inv s" and "Reserve svc c i w s n = (res, s1, n1)"
    and "(\<exists>r. res = Inr r) \<or> s1 \<noteq> s" and "inv_steps svc s1 s2"
  shows "\<exists>r. (\<forall>r'. res = Inr r' \<longrightarrow> r' = r) \<and> (\<forall>c'. replays (Reserve svc c' i) r s2)"
  by (rule Reserve_retry [OF reach_ok [OF assms(1)] assms(2-4)])

theorem reserve_exactly_once_witness:
  "replays (Reserve sample_service sample_ctx sample_order) sample_reservation (state_of (Reserve sample_service sample_ctx sample_order sample_world stocked 30))"
  using reserve_exactly_once [OF stocked_steps reserve_run_ok _ inv_steps.here] by blast

text \<open>
  Confirming and releasing are exactly-once in the same sense.
\<close>

theorem settle_exactly_once:
  assumes "inv_steps svc empty_inv s" and "Transition svc c confirm i w s n = (res, s1, n1)"
    and "(\<exists>r. res = Inr r) \<or> s1 \<noteq> s" and "inv_steps svc s1 s2"
  shows "\<exists>r. (\<forall>r'. res = Inr r' \<longrightarrow> r' = r) \<and> (\<forall>c'. replays (Transition svc c' confirm i) r s2)"
  by (rule Transition_retry [OF reach_ok [OF assms(1)] assms(2-4)])

theorem settle_exactly_once_witness:
  "replays (Transition sample_service sample_ctx True sample_settle) confirmed_reservation (state_of (Transition sample_service sample_ctx True sample_settle sample_world sold_once 50))"
  using settle_exactly_once [OF sold_once_steps confirm_run_ok _ inv_steps.here] by blast

text \<open>
  Returning is exactly-once in the same sense, so that stock moves back only once.
\<close>

theorem return_exactly_once:
  assumes "inv_steps svc empty_inv s" and "Return svc c i w s n = (res, s1, n1)"
    and "(\<exists>r. res = Inr r) \<or> s1 \<noteq> s" and "inv_steps svc s1 s2"
  shows "\<exists>r. (\<forall>r'. res = Inr r' \<longrightarrow> r' = r) \<and> (\<forall>c'. replays (Return svc c' i) r s2)"
  by (rule Return_retry [OF reach_ok [OF assms(1)] assms(2-4)])

theorem return_exactly_once_witness:
  "replays (Return sample_service sample_ctx sample_settle) returned_reservation (state_of (Return sample_service sample_ctx sample_settle sample_world paid_once 65))"
  using return_exactly_once [OF paid_once_steps return_run_ok _ inv_steps.here] by blast

text \<open>
  A key identifies one request: once a reservation was made under a key, the same key
  with another request (one that hashes differently) is refused with a conflict and changes
  nothing.
\<close>

theorem reserve_key_reuse:
  assumes "inv_steps svc empty_inv s" and "Reserve svc c i w s n = (Inr r, s1, n1)" and "inv_steps svc s1 s2"
    and "reserve_request svc i = Some q" and "reserve_request svc j = Some p" and "ri_Key p = ri_Key q"
    and "s_hash svc (QReserve p) \<noteq> s_hash svc (QReserve q)"
  shows "refuses (Reserve svc c' j) ErrConflict s2"
  by (rule Reserve_reuse [OF reach_ok [OF assms(1)] assms(2) _ assms(3-7)]) blast

theorem reserve_key_reuse_witness:
  "refuses (Reserve sample_service sample_ctx other_order) ErrConflict (state_of (Reserve sample_service sample_ctx sample_order sample_world stocked 30))"
proof -
  have "reserve_request sample_service sample_order = Some sample_order"
    "reserve_request sample_service other_order = Some other_order" "ri_Key other_order = ri_Key sample_order"
    "s_hash sample_service (QReserve other_order) \<noteq> s_hash sample_service (QReserve sample_order)" by code_simp+
  from reserve_key_reuse [OF stocked_steps reserve_run_ok inv_steps.here this] show ?thesis .
qed

end
