(* ===== verification/Fulfillment_Store.thy ===== *)
theory Fulfillment_Store
  imports Gelato_Text
begin

text \<open>
  The fulfillment service: kitchen tickets (\<open>models/fulfillment.go\<close>), their repository
  (\<open>repository/fulfillment_repo.go\<close>) and the outbox relay (\<open>messaging/relay.go\<close>). The tables are
  those of \<open>migrations/\<close>, with their unique constraints as branches of the inserts. Row locks and
  the advisory lock of an order serialize transactions, so a method is one atomic step.
\<close>

section \<open>Tickets\<close>

datatype ticket_status = Queued | Preparing | Ready | PickedUp | TCancelled

text \<open>A status as it comes with a request is a text: one of these five, or another.\<close>

fun status_text :: "ticket_status \<Rightarrow> string" where
  "status_text Queued = ''QUEUED''"
| "status_text Preparing = ''PREPARING''"
| "status_text Ready = ''READY_FOR_PICKUP''"
| "status_text PickedUp = ''PICKED_UP''"
| "status_text TCancelled = ''CANCELLED''"

definition IsValid :: "string \<Rightarrow> bool" where
  "IsValid s \<longleftrightarrow> s \<in> {''QUEUED'', ''PREPARING'', ''READY_FOR_PICKUP'', ''PICKED_UP'', ''CANCELLED''}"

definition IsUpdatable :: "string \<Rightarrow> bool" where
  "IsUpdatable s \<longleftrightarrow> s = ''PREPARING'' \<or> s = ''READY_FOR_PICKUP'' \<or> s = ''PICKED_UP''"

definition IsCancellable :: "ticket_status \<Rightarrow> bool" where
  "IsCancellable s \<longleftrightarrow> s = Queued \<or> s = Preparing"

definition CanTransition :: "ticket_status \<Rightarrow> ticket_status \<Rightarrow> bool" where
  "CanTransition from target =
     (if from = Queued \<and> target = Preparing then True
      else if from = Preparing \<and> target = Ready then True
      else if from = Ready \<and> target = PickedUp then True
      else False)"

record ticket_item =
  ki_FlavorID :: string
  ki_FlavorName :: string
  ki_Portions :: int

record ticket =
  f_ID :: string
  f_OrderID :: string
  f_CustomerID :: "string option"
  f_QueueSeq :: int
  f_QueueNumber :: string
  f_PickupSlotID :: string
  f_PickupAt :: time
  f_Status :: ticket_status
  f_Items :: "ticket_item list"
  f_PickedUpAt :: "time option"
  f_CreatedAt :: time
  f_UpdatedAt :: time

record history_row =
  h_ID :: string
  h_FulfillmentID :: string
  h_OldStatus :: "ticket_status option"
  h_NewStatus :: ticket_status
  h_ActorID :: "string option"
  h_SourceEventID :: "string option"
  h_CreatedAt :: time

record slot_row =
  sl_ID :: string
  sl_StartsAt :: time
  sl_NextQueue :: int

section \<open>Events\<close>

record placed_data =
  pd_OrderID :: string
  pd_CustomerID :: string \<comment> \<open>the nil UUID when the producer omits it\<close>
  pd_PickupAt :: time
  pd_Items :: "ticket_item list"

datatype fulfillment_event =
    OrderQueued string string string string time \<comment> \<open>order, customer, queue number, slot, pickup time\<close>
  | OrderReady string "string option" string string \<comment> \<open>order, customer, queue number, slot\<close>
  | OrderPickedUp string time

record envelope =
  en_ID :: string
  en_Type :: string
  en_Time :: time
  en_Data :: fulfillment_event

definition TypeOrderQueued :: string where "TypeOrderQueued = ''com.gelatoflow.fulfillment.order-queued.v1''"
definition TypeOrderReady :: string where "TypeOrderReady = ''com.gelatoflow.fulfillment.order-ready.v1''"
definition TypeOrderPickedUp :: string where "TypeOrderPickedUp = ''com.gelatoflow.fulfillment.order-picked-up.v1''"
definition RoutingKeyOrderQueued :: string where "RoutingKeyOrderQueued = ''fulfillment.order_queued''"
definition RoutingKeyOrderReady :: string where "RoutingKeyOrderReady = ''fulfillment.order_ready''"
definition RoutingKeyOrderPickedUp :: string where "RoutingKeyOrderPickedUp = ''fulfillment.order_picked_up''"

record foutbox_row =
  fo_ID :: string
  fo_RoutingKey :: string
  fo_Payload :: envelope
  fo_CreatedAt :: time
  fo_PublishedAt :: "time option"

record processed_row =
  pe_EventID :: string
  pe_ProcessedAt :: time

record tombstone_row =
  co_OrderID :: string
  co_EventID :: string
  co_CancelledAt :: time

record ful_db =
  tickets :: "ticket list"
  slots :: "slot_row list"
  history :: "history_row list"
  processed :: "processed_row list"
  cancelled_orders :: "tombstone_row list"
  foutbox :: "foutbox_row list"

definition empty_ful :: ful_db where
  "empty_ful = \<lparr>tickets = [], slots = [], history = [], processed = [], cancelled_orders = [], foutbox = []\<rparr>"

datatype ferror = FNotFound | FInvalidTransition | FStorage

type_synonym 'a ftx = "(ful_db, ferror, 'a) tx"

definition newEnvelope :: "string \<Rightarrow> time \<Rightarrow> fulfillment_event \<Rightarrow> envelope ftx" where
  "newEnvelope eventType at d = bindT newUUID (\<lambda>i. ret \<lparr>en_ID = i, en_Type = eventType, en_Time = at, en_Data = d\<rparr>)"

section \<open>Slots and queue numbers\<close>

definition SlotLength :: int where
  "SlotLength = 15 * Minute"

definition slot_start :: "time \<Rightarrow> time" where
  "slot_start t = time_Truncate t SlotLength"

text \<open>\<open>fmt.Sprintf("%02d", seq)\<close> of a number that is not negative.\<close>

definition queue_text :: "int \<Rightarrow> string" where
  "queue_text seq = (let s = show_digits (nat seq) in if length s < 2 then ''0'' @ s else s)"

text \<open>
  The upsert that hands out the next number of a slot. The counter is a 32 bit column; a slot id
  that belongs to another start time violates the primary key.
\<close>

definition take_number :: "string \<Rightarrow> time \<Rightarrow> int ftx" where
  "take_number slotID startsAt = stmt FStorage (\<lambda>db.
     case find (\<lambda>x. sl_StartsAt x = startsAt) (slots db) of
       Some x \<Rightarrow>
         if sl_NextQueue x + 1 > MaxInt32 then Inl FStorage
         else Inr (sl_NextQueue x, db\<lparr>slots := update_where (\<lambda>y. sl_StartsAt y = startsAt)
                (\<lambda>y. y\<lparr>sl_NextQueue := sl_NextQueue y + 1\<rparr>) (slots db)\<rparr>)
     | None \<Rightarrow>
         if slotID \<in> sl_ID ` set (slots db) then Inl FStorage
         else Inr (1, db\<lparr>slots := slots db @ [\<lparr>sl_ID = slotID, sl_StartsAt = startsAt, sl_NextQueue = 2\<rparr>]\<rparr>))"

section \<open>The repository\<close>

definition find_ticket :: "string \<Rightarrow> ful_db \<Rightarrow> ticket option" where
  "find_ticket oid db = find (\<lambda>x. f_OrderID x = oid) (tickets db)"

definition scanFulfillment :: "string \<Rightarrow> ticket ftx" where
  "scanFulfillment oid = bindT (query FStorage (find_ticket oid)) (\<lambda>r.
     case r of None \<Rightarrow> throw FNotFound | Some x \<Rightarrow> ret x)"

definition GetByOrderID :: "string \<Rightarrow> ticket ftx" where
  "GetByOrderID oid = scanFulfillment oid"

record list_filter =
  lf_Statuses :: "ticket_status list" \<comment> \<open>empty: every status\<close>
  lf_PickupFrom :: "time option"
  lf_PickupTo :: "time option"

definition slot_starts :: "ful_db \<Rightarrow> ticket \<Rightarrow> time option" where
  "slot_starts db x = map_option sl_StartsAt (find (\<lambda>s. sl_ID s = f_PickupSlotID x) (slots db))"

definition filter_ok :: "list_filter \<Rightarrow> ticket \<Rightarrow> bool" where
  "filter_ok flt x \<longleftrightarrow> (lf_Statuses flt = [] \<or> f_Status x \<in> set (lf_Statuses flt)) \<and>
     (case lf_PickupFrom flt of None \<Rightarrow> True | Some t \<Rightarrow> t \<le> f_PickupAt x) \<and>
     (case lf_PickupTo flt of None \<Rightarrow> True | Some t \<Rightarrow> f_PickupAt x < t)"

definition List_tickets :: "list_filter \<Rightarrow> ticket list ftx" where
  "List_tickets flt = query FStorage (\<lambda>db. sort_key (\<lambda>x. (the (slot_starts db x), f_QueueSeq x))
     (filter (\<lambda>x. slot_starts db x \<noteq> None \<and> filter_ok flt x) (tickets db)))"

definition markProcessed :: "string \<Rightarrow> bool ftx" where
  "markProcessed eventID = bindT time_Now (\<lambda>t. stmt FStorage (\<lambda>db.
     if eventID \<in> pe_EventID ` set (processed db) then Inr (True, db)
     else Inr (False, db\<lparr>processed := processed db @ [\<lparr>pe_EventID = eventID, pe_ProcessedAt = t\<rparr>]\<rparr>)))"

definition lockOrder :: "string \<Rightarrow> unit ftx" where
  "lockOrder oid = query FStorage (\<lambda>_. ())"

definition insert_history :: "string \<Rightarrow> ticket_status option \<Rightarrow> ticket_status \<Rightarrow> string option \<Rightarrow> string option \<Rightarrow> unit ftx" where
  "insert_history fid old new actor source = bindT newUUID (\<lambda>i. bindT time_Now (\<lambda>t. stmt FStorage (\<lambda>db.
     if i \<in> h_ID ` set (history db) then Inl FStorage
     else Inr ((), db\<lparr>history := history db @ [\<lparr>h_ID = i, h_FulfillmentID = fid, h_OldStatus = old, h_NewStatus = new,
            h_ActorID = actor, h_SourceEventID = source, h_CreatedAt = t\<rparr>]\<rparr>))))"

definition insertOutbox :: "string \<Rightarrow> envelope \<Rightarrow> unit ftx" where
  "insertOutbox key env = bindT time_Now (\<lambda>t. stmt FStorage (\<lambda>db.
     if en_ID env \<in> fo_ID ` set (foutbox db) then Inl FStorage
     else Inr ((), db\<lparr>foutbox := foutbox db @ [\<lparr>fo_ID = en_ID env, fo_RoutingKey = key, fo_Payload = env,
            fo_CreatedAt = t, fo_PublishedAt = None\<rparr>]\<rparr>)))"

text \<open>
  The insert of a ticket: \<open>None\<close> when a unique constraint (id, order, or slot and number) is
  violated.
\<close>

definition insert_ticket :: "placed_data \<Rightarrow> string option \<Rightarrow> string \<Rightarrow> int \<Rightarrow> string option ftx" where
  "insert_ticket d customer slotID seq = bindT newUUID (\<lambda>i. bindT time_Now (\<lambda>t. stmt FStorage (\<lambda>db.
     if \<exists>x\<in>set (tickets db). f_ID x = i \<or> f_OrderID x = pd_OrderID d \<or>
          (f_PickupSlotID x = slotID \<and> f_QueueSeq x = seq)
     then Inr (None, db)
     else Inr (Some i, db\<lparr>tickets := tickets db @ [\<lparr>f_ID = i, f_OrderID = pd_OrderID d, f_CustomerID = customer,
            f_QueueSeq = seq, f_QueueNumber = queue_text seq, f_PickupSlotID = slotID, f_PickupAt = pd_PickupAt d,
            f_Status = Queued, f_Items = pd_Items d, f_PickedUpAt = None, f_CreatedAt = t, f_UpdatedAt = t\<rparr>]\<rparr>))))"

text \<open>\<open>slot_id\<close> is \<open>uuid.NewSHA1(slotNamespace, ..)\<close> of the RFC 3339 text of the slot start.\<close>

definition announce :: "placed_data \<Rightarrow> string option \<Rightarrow> string \<Rightarrow> int \<Rightarrow> bool outcome ftx" where
  "announce d customer slotID seq = (case customer of
     None \<Rightarrow> ret (Commit True)
   | Some cid \<Rightarrow>
       bindT time_Now (\<lambda>t.
       bindT (newEnvelope TypeOrderQueued t (OrderQueued (pd_OrderID d) cid (queue_text seq) slotID (pd_PickupAt d))) (\<lambda>env.
       bindT (insertOutbox RoutingKeyOrderQueued env) (\<lambda>_. ret (Commit True)))))"

definition open_ticket :: "(time \<Rightarrow> string) \<Rightarrow> string \<Rightarrow> placed_data \<Rightarrow> bool outcome ftx" where
  "open_ticket slot_id eventID d =
     (let customer = (if pd_CustomerID d \<noteq> uuid_Nil then Some (pd_CustomerID d) else None);
          startsAt = slot_start (pd_PickupAt d);
          slotID = slot_id startsAt in
      bindT (take_number slotID startsAt) (\<lambda>seq.
      bindT (insert_ticket d customer slotID seq) (\<lambda>r. case r of
        None \<Rightarrow> ret (Discard False)
      | Some fid \<Rightarrow>
          bindT (insert_history fid None Queued None (Some eventID)) (\<lambda>_.
          announce d customer slotID seq))))"

definition CreateFromOrderPlaced :: "(time \<Rightarrow> string) \<Rightarrow> string \<Rightarrow> placed_data \<Rightarrow> bool ftx" where
  "CreateFromOrderPlaced slot_id eventID d = atomically FStorage (
     bindT (markProcessed eventID) (\<lambda>dup.
       if dup then ret (Discard False)
       else bindT (lockOrder (pd_OrderID d)) (\<lambda>_.
         bindT (query FStorage (\<lambda>db. pd_OrderID d \<in> co_OrderID ` set (cancelled_orders db))) (\<lambda>cancelled.
           if cancelled then ret (Commit False)
           else open_ticket slot_id eventID d))))"

text \<open>The update with its \<open>WITH old\<close>: the ticket and its status before, if it could be cancelled.\<close>

definition cancel_ticket :: "string \<Rightarrow> (string \<times> ticket_status) option ftx" where
  "cancel_ticket oid = bindT time_Now (\<lambda>t. stmt FStorage (\<lambda>db.
     case find (\<lambda>x. f_OrderID x = oid \<and> (f_Status x = Queued \<or> f_Status x = Preparing)) (tickets db) of
       None \<Rightarrow> Inr (None, db)
     | Some x \<Rightarrow> Inr (Some (f_ID x, f_Status x), db\<lparr>tickets := update_where (\<lambda>y. f_ID y = f_ID x)
            (\<lambda>y. y\<lparr>f_Status := TCancelled, f_UpdatedAt := t\<rparr>) (tickets db)\<rparr>)))"

definition insert_tombstone :: "string \<Rightarrow> string \<Rightarrow> unit ftx" where
  "insert_tombstone oid eventID = bindT time_Now (\<lambda>t. exec FStorage (\<lambda>db.
     if find_ticket oid db \<noteq> None \<or> oid \<in> co_OrderID ` set (cancelled_orders db) then db
     else db\<lparr>cancelled_orders := cancelled_orders db @ [\<lparr>co_OrderID = oid, co_EventID = eventID, co_CancelledAt = t\<rparr>]\<rparr>))"

definition CancelByOrder :: "string \<Rightarrow> string \<Rightarrow> bool ftx" where
  "CancelByOrder eventID oid = atomically FStorage (
     bindT (markProcessed eventID) (\<lambda>dup.
       if dup then ret (Discard False)
       else bindT (lockOrder oid) (\<lambda>_.
         bindT (cancel_ticket oid) (\<lambda>r. case r of
           None \<Rightarrow> bindT (insert_tombstone oid eventID) (\<lambda>_. ret (Commit False))
         | Some (fid, old) \<Rightarrow>
             bindT (insert_history fid (Some old) TCancelled None (Some eventID)) (\<lambda>_. ret (Commit True))))))"

definition OutboxRetention :: int where "OutboxRetention = 7 * 24 * Hour"
definition DedupeRetention :: int where "DedupeRetention = 30 * 24 * Hour"
definition TombstoneRetention :: int where "TombstoneRetention = 30 * 24 * Hour"

text \<open>Three statements, each its own transaction; the number of rows removed.\<close>

definition delete_where :: "('a \<Rightarrow> bool) \<Rightarrow> (ful_db \<Rightarrow> 'a list) \<Rightarrow> ('a list \<Rightarrow> ful_db \<Rightarrow> ful_db) \<Rightarrow> int ftx" where
  "delete_where p get put = stmt FStorage (\<lambda>db.
     Inr (int (length (filter p (get db))), put (filter (\<lambda>x. \<not> p x) (get db)) db))"

definition PurgeExpired :: "time \<Rightarrow> int ftx" where
  "PurgeExpired t =
     bindT (delete_where (\<lambda>x. case fo_PublishedAt x of None \<Rightarrow> False | Some p \<Rightarrow> p < t - OutboxRetention)
        foutbox (\<lambda>xs db. db\<lparr>foutbox := xs\<rparr>)) (\<lambda>a.
     bindT (delete_where (\<lambda>x. pe_ProcessedAt x < t - DedupeRetention) processed (\<lambda>xs db. db\<lparr>processed := xs\<rparr>)) (\<lambda>b.
     bindT (delete_where (\<lambda>x. co_CancelledAt x < t - TombstoneRetention)
        cancelled_orders (\<lambda>xs db. db\<lparr>cancelled_orders := xs\<rparr>)) (\<lambda>c.
     ret (a + b + c))))"

definition set_ticket :: "string \<Rightarrow> ticket_status \<Rightarrow> time option \<Rightarrow> time \<Rightarrow> ticket \<Rightarrow> ticket" where
  "set_ticket oid st pickedUpAt t x = x\<lparr>f_Status := st,
     f_PickedUpAt := (case pickedUpAt of None \<Rightarrow> f_PickedUpAt x | Some p \<Rightarrow> Some p), f_UpdatedAt := t\<rparr>"

text \<open>\<open>UPDATE .. WHERE order_id = $1 RETURNING ..\<close>\<close>

definition update_ticket :: "string \<Rightarrow> ticket_status \<Rightarrow> time option \<Rightarrow> time \<Rightarrow> ticket ftx" where
  "update_ticket oid st pickedUpAt t = stmt FStorage (\<lambda>db.
     let ts = update_where (\<lambda>x. f_OrderID x = oid) (set_ticket oid st pickedUpAt t) (tickets db) in
     case find (\<lambda>x. f_OrderID x = oid) ts of
       None \<Rightarrow> Inl FNotFound
     | Some x \<Rightarrow> Inr (x, db\<lparr>tickets := ts\<rparr>))"

definition publish_status :: "ticket_status \<Rightarrow> time \<Rightarrow> ticket \<Rightarrow> unit ftx" where
  "publish_status target t x = (case target of
     Ready \<Rightarrow> bindT (newEnvelope TypeOrderReady t (OrderReady (f_OrderID x) (f_CustomerID x) (f_QueueNumber x) (f_PickupSlotID x)))
                (insertOutbox RoutingKeyOrderReady)
   | PickedUp \<Rightarrow> bindT (newEnvelope TypeOrderPickedUp t (OrderPickedUp (f_OrderID x) t)) (insertOutbox RoutingKeyOrderPickedUp)
   | _ \<Rightarrow> ret ())"

definition UpdateStatus :: "string option \<Rightarrow> string \<Rightarrow> ticket_status \<Rightarrow> ticket ftx" where
  "UpdateStatus actor oid target = atomically FStorage (
     bindT (scanFulfillment oid) (\<lambda>cur.
       if f_Status cur = target then ret (Discard cur)
       else if \<not> CanTransition (f_Status cur) target then throw FInvalidTransition
       else bindT time_Now (\<lambda>t.
         bindT (update_ticket oid target (if target = PickedUp then Some t else None) t) (\<lambda>updated.
         bindT (insert_history (f_ID updated) (Some (f_Status cur)) target actor None) (\<lambda>_.
         bindT (publish_status target t updated) (\<lambda>_. ret (Commit updated)))))))"

definition GetSlotCapacity :: "(time \<Rightarrow> string) \<Rightarrow> time \<Rightarrow> int ftx" where
  "GetSlotCapacity slot_id slotTime = query FStorage (\<lambda>db. int (length (filter (\<lambda>x.
     f_PickupSlotID x = slot_id (slot_start slotTime) \<and> f_Status x \<in> {Queued, Preparing, Ready}) (tickets db))))"

definition GetHistory :: "string \<Rightarrow> history_row list ftx" where
  "GetHistory fid = query FStorage (\<lambda>db. sort_key (\<lambda>h. (h_CreatedAt h, h_ID h))
     (filter (\<lambda>h. h_FulfillmentID h = fid) (history db)))"

section \<open>The outbox relay\<close>

definition relayBatchSize :: nat where
  "relayBatchSize = 50"

text \<open>\<open>publish x\<close>: the broker confirmed the message of row \<open>x\<close>.\<close>

fun flush_loop :: "(foutbox_row \<Rightarrow> bool) \<Rightarrow> foutbox_row list \<Rightarrow> bool outcome ftx" where
  "flush_loop publish [] = ret (Commit True)"
| "flush_loop publish (x # xs) =
     (if \<not> publish x then ret (Commit False)
      else bindT time_Now (\<lambda>t.
        bindT (exec FStorage (\<lambda>db. db\<lparr>foutbox := update_where (\<lambda>y. fo_ID y = fo_ID x)
            (\<lambda>y. y\<lparr>fo_PublishedAt := Some t\<rparr>) (foutbox db)\<rparr>)) (\<lambda>_.
        flush_loop publish xs)))"

definition flush :: "(foutbox_row \<Rightarrow> bool) \<Rightarrow> bool ftx" where
  "flush publish = atomically FStorage (
     bindT (query FStorage (\<lambda>db. take relayBatchSize (sort_key fo_CreatedAt
        (filter (\<lambda>x. fo_PublishedAt x = None) (foutbox db))))) (flush_loop publish))"

end
