(* ===== verification/Fulfillment_Inv.thy ===== *)
theory Fulfillment_Inv
  imports Fulfillment_Store
begin

text \<open>
  The invariant of the fulfillment tables and how they evolve. Numbers in a slot are dense and in
  order of arrival, every ticket has a complete audit trail, an order has a ticket or a tombstone
  but never both, and an event is written at most once. Every operation keeps the invariant and
  moves each ticket forward only.
\<close>

section \<open>The invariant\<close>

definition ticket_edge :: "ticket_status \<Rightarrow> ticket_status \<Rightarrow> bool" where
  "ticket_edge st st' \<longleftrightarrow> CanTransition st st' \<or> (IsCancellable st \<and> st' = TCancelled)"

text \<open>A trail starts with the creation and follows the edges of the state machine.\<close>

fun trail_from :: "ticket_status \<Rightarrow> history_row list \<Rightarrow> ticket_status \<Rightarrow> bool" where
  "trail_from st [] last_st = (st = last_st)"
| "trail_from st (h # hs) last_st = (h_OldStatus h = Some st \<and> ticket_edge st (h_NewStatus h) \<and>
     trail_from (h_NewStatus h) hs last_st)"

fun trail_ok :: "history_row list \<Rightarrow> ticket_status \<Rightarrow> bool" where
  "trail_ok [] last_st = False"
| "trail_ok (h # hs) last_st = (h_OldStatus h = None \<and> h_NewStatus h = Queued \<and> trail_from Queued hs last_st)"

definition trail :: "ful_db \<Rightarrow> string \<Rightarrow> history_row list" where
  "trail db fid = filter (\<lambda>h. h_FulfillmentID h = fid) (history db)"

definition slot_tickets :: "ful_db \<Rightarrow> string \<Rightarrow> ticket list" where
  "slot_tickets db i = filter (\<lambda>x. f_PickupSlotID x = i) (tickets db)"

text \<open>What an event of the outbox says: its kind and its order, and when a ticket may have it.\<close>

datatype event_kind = KQueued | KReady | KPickedUp

fun event_key :: "fulfillment_event \<Rightarrow> event_kind \<times> string" where
  "event_key (OrderQueued oid _ _ _ _) = (KQueued, oid)"
| "event_key (OrderReady oid _ _ _) = (KReady, oid)"
| "event_key (OrderPickedUp oid _) = (KPickedUp, oid)"

abbreviation row_key :: "foutbox_row \<Rightarrow> event_kind \<times> string" where
  "row_key x \<equiv> event_key (en_Data (fo_Payload x))"

fun due :: "event_kind \<Rightarrow> ticket_status \<Rightarrow> bool" where
  "due KQueued st = True"
| "due KReady st = (st = Ready \<or> st = PickedUp)"
| "due KPickedUp st = (st = PickedUp)"

definition wf_ticket :: "(time \<Rightarrow> string) \<Rightarrow> ful_db \<Rightarrow> ticket \<Rightarrow> bool" where
  "wf_ticket slot_id db x \<longleftrightarrow> f_QueueNumber x = queue_text (f_QueueSeq x) \<and>
     f_PickupSlotID x = slot_id (slot_start (f_PickupAt x)) \<and> f_PickupSlotID x \<in> sl_ID ` set (slots db) \<and>
     f_OrderID x \<notin> co_OrderID ` set (cancelled_orders db)"

definition tickets_ok :: "(time \<Rightarrow> string) \<Rightarrow> ful_db \<Rightarrow> bool" where
  "tickets_ok slot_id db \<longleftrightarrow> distinct (map f_ID (tickets db)) \<and> distinct (map f_OrderID (tickets db)) \<and>
     (\<forall>x\<in>set (tickets db). wf_ticket slot_id db x)"

definition wf_slot :: "(time \<Rightarrow> string) \<Rightarrow> ful_db \<Rightarrow> slot_row \<Rightarrow> bool" where
  "wf_slot slot_id db x \<longleftrightarrow> sl_ID x = slot_id (sl_StartsAt x) \<and> 2 \<le> sl_NextQueue x \<and> sl_NextQueue x \<le> MaxInt32 \<and>
     map f_QueueSeq (slot_tickets db (sl_ID x)) = [1..sl_NextQueue x - 1]"

definition slots_ok :: "(time \<Rightarrow> string) \<Rightarrow> ful_db \<Rightarrow> bool" where
  "slots_ok slot_id db \<longleftrightarrow> distinct (map sl_StartsAt (slots db)) \<and> distinct (map sl_ID (slots db)) \<and>
     (\<forall>x\<in>set (slots db). wf_slot slot_id db x)"

definition audit_ok :: "ful_db \<Rightarrow> bool" where
  "audit_ok db \<longleftrightarrow> (\<forall>x\<in>set (tickets db). trail_ok (trail db (f_ID x)) (f_Status x)) \<and>
     h_FulfillmentID ` set (history db) \<subseteq> f_ID ` set (tickets db)"

definition outbox_ok :: "ful_db \<Rightarrow> bool" where
  "outbox_ok db \<longleftrightarrow> distinct (map row_key (foutbox db)) \<and>
     (\<forall>e\<in>set (foutbox db). \<exists>x\<in>set (tickets db). f_OrderID x = snd (row_key e) \<and> due (fst (row_key e)) (f_Status x))"

definition ful_ok :: "(time \<Rightarrow> string) \<Rightarrow> ful_db \<Rightarrow> bool" where
  "ful_ok slot_id db \<longleftrightarrow> tickets_ok slot_id db \<and> slots_ok slot_id db \<and> audit_ok db \<and> outbox_ok db"

lemmas ful_defs = ful_ok_def tickets_ok_def slots_ok_def audit_ok_def outbox_ok_def

lemma slots_ok_cong: "tickets s' = tickets s \<Longrightarrow> slots s' = slots s \<Longrightarrow> slots_ok slot_id s' = slots_ok slot_id s"
  and audit_ok_cong: "tickets s' = tickets s \<Longrightarrow> history s' = history s \<Longrightarrow> audit_ok s' = audit_ok s"
  and outbox_ok_cong: "tickets s' = tickets s \<Longrightarrow> foutbox s' = foutbox s \<Longrightarrow> outbox_ok s' = outbox_ok s"
  by (simp_all add: slots_ok_def wf_slot_def slot_tickets_def audit_ok_def trail_def outbox_ok_def)

lemma empty_ful_ok: "ful_ok slot_id empty_ful"
  by (simp add: ful_defs empty_ful_def)

section \<open>Evolution\<close>

text \<open>The statuses a ticket may still reach.\<close>

fun ticket_later :: "ticket_status \<Rightarrow> ticket_status \<Rightarrow> bool" where
  "ticket_later Queued _ = True"
| "ticket_later Preparing st = (st \<noteq> Queued)"
| "ticket_later Ready st = (st = Ready \<or> st = PickedUp)"
| "ticket_later PickedUp st = (st = PickedUp)"
| "ticket_later TCancelled st = (st = TCancelled)"

lemma ticket_later_refl [simp]: "ticket_later st st"
  by (cases st) simp_all

lemma ticket_later_trans: "ticket_later a b \<Longrightarrow> ticket_later b c \<Longrightarrow> ticket_later a c"
  by (cases a; cases b; cases c) simp_all

lemma ticket_later_edge: "ticket_edge a b \<Longrightarrow> ticket_later a b"
  by (cases a; cases b) (simp_all add: ticket_edge_def CanTransition_def IsCancellable_def)

lemma due_later: "due k st \<Longrightarrow> ticket_later st st' \<Longrightarrow> due k st'"
  by (cases k; cases st; cases st') simp_all

definition ticket_grows :: "ticket \<Rightarrow> ticket \<Rightarrow> bool" where
  "ticket_grows x y \<longleftrightarrow> f_ID y = f_ID x \<and> f_OrderID y = f_OrderID x \<and> f_CustomerID y = f_CustomerID x \<and>
     f_QueueSeq y = f_QueueSeq x \<and> f_QueueNumber y = f_QueueNumber x \<and> f_PickupSlotID y = f_PickupSlotID x \<and>
     f_PickupAt y = f_PickupAt x \<and> f_Items y = f_Items x \<and> f_CreatedAt y = f_CreatedAt x \<and>
     ticket_later (f_Status x) (f_Status y)"

lemma ticket_grows_refl [simp]: "ticket_grows x x"
  by (simp add: ticket_grows_def)

lemma ticket_grows_trans: "ticket_grows x y \<Longrightarrow> ticket_grows y z \<Longrightarrow> ticket_grows x z"
  by (auto simp: ticket_grows_def intro: ticket_later_trans)

definition ful_grows :: "ful_db \<Rightarrow> ful_db \<Rightarrow> bool" where
  "ful_grows s s' \<longleftrightarrow> (\<exists>ts new. tickets s' = ts @ new \<and> list_all2 ticket_grows (tickets s) ts) \<and>
     prefix (history s) (history s')"

lemma ful_grows_same: "tickets s' = tickets s \<Longrightarrow> history s' = history s \<Longrightarrow> ful_grows s s'"
  unfolding ful_grows_def by (metis append_Nil2 list_all2_refl prefix_order.refl ticket_grows_refl)

lemma ful_grows_refl [simp]: "ful_grows s s"
  by (simp add: ful_grows_same)

lemma ful_grows_trans:
  assumes "ful_grows s t" and "ful_grows t u"
  shows "ful_grows s u"
proof -
  obtain ts new where t: "tickets t = ts @ new" "list_all2 ticket_grows (tickets s) ts"
    using assms(1) by (auto simp: ful_grows_def)
  obtain us new' where u: "tickets u = us @ new'" "list_all2 ticket_grows (ts @ new) us"
    using assms(2) t(1) by (auto simp: ful_grows_def)
  obtain us1 us2 where us: "us = us1 @ us2" "list_all2 ticket_grows ts us1"
    using u(2) by (auto simp: list_all2_append1)
  have "list_all2 ticket_grows (tickets s) us1"
    using t(2) us(2) by (rule list_all2_trans [rotated]) (blast intro: ticket_grows_trans)
  then have "\<exists>xs ys. tickets u = xs @ ys \<and> list_all2 ticket_grows (tickets s) xs"
    using u(1) us(1) by auto
  moreover have "prefix (history s) (history u)"
    using assms by (auto simp: ful_grows_def intro: prefix_order.trans)
  ultimately show ?thesis by (simp add: ful_grows_def)
qed

text \<open>A ticket found by its order is found again, grown.\<close>

lemma ful_grows_ticket:
  assumes "ful_grows s s'" and "x \<in> set (tickets s)"
  shows "\<exists>y\<in>set (tickets s'). ticket_grows x y"
  using assms by (fastforce simp: ful_grows_def dest: list_all2_ex)

section \<open>Updating one ticket\<close>

lemma find_ticket_SomeD: "find_ticket oid db = Some x \<Longrightarrow> x \<in> set (tickets db) \<and> f_OrderID x = oid"
  by (auto simp: find_ticket_def dest: find_SomeD)

lemma find_ticket_row: "tickets_ok slot_id db \<Longrightarrow> x \<in> set (tickets db) \<Longrightarrow> find_ticket (f_OrderID x) db = Some x"
  unfolding find_ticket_def tickets_ok_def by (rule find_unique) auto

lemma trail_from_snoc:
  "trail_from st hs mid \<Longrightarrow> h_OldStatus h = Some mid \<Longrightarrow> ticket_edge mid (h_NewStatus h) \<Longrightarrow>
    trail_from st (hs @ [h]) (h_NewStatus h)"
  by (induction hs arbitrary: st) auto

lemma trail_ok_snoc:
  "trail_ok hs mid \<Longrightarrow> h_OldStatus h = Some mid \<Longrightarrow> ticket_edge mid (h_NewStatus h) \<Longrightarrow>
    trail_ok (hs @ [h]) (h_NewStatus h)"
  by (cases hs) (auto simp: trail_from_snoc)

text \<open>
  The effect of a status change: the ticket \<open>x\<close> moves along an edge, one row of history is
  written, and events that are due now and were not before may be added.
\<close>

definition moved :: "ful_db \<Rightarrow> ful_db \<Rightarrow> ticket \<Rightarrow> ticket \<Rightarrow> bool" where
  "moved s s' x y \<longleftrightarrow> x \<in> set (tickets s) \<and> ticket_grows x y \<and> ticket_edge (f_Status x) (f_Status y) \<and>
     tickets s' = map (\<lambda>z. if z = x then y else z) (tickets s) \<and>
     (\<exists>h. history s' = history s @ [h] \<and> h_FulfillmentID h = f_ID x \<and> h_OldStatus h = Some (f_Status x) \<and>
        h_NewStatus h = f_Status y) \<and>
     (\<exists>es. foutbox s' = foutbox s @ es \<and> length es \<le> 1 \<and>
        (\<forall>e\<in>set es. snd (row_key e) = f_OrderID x \<and> due (fst (row_key e)) (f_Status y) \<and> \<not> due (fst (row_key e)) (f_Status x))) \<and>
     slots s' = slots s \<and> cancelled_orders s' = cancelled_orders s"

lemma moved_grows: "moved s s' x y \<Longrightarrow> ful_grows s s'"
proof -
  assume m: "moved s s' x y"
  have "list_all2 ticket_grows zs (map (\<lambda>z. if z = x then y else z) zs)" for zs
    using m by (induction zs) (auto simp: moved_def)
  then have "list_all2 ticket_grows (tickets s) (tickets s')" using m by (simp add: moved_def)
  moreover have "prefix (history s) (history s')" using m by (auto simp: moved_def)
  ultimately show ?thesis unfolding ful_grows_def by (metis append_Nil2)
qed

lemma moved_tickets_ok:
  assumes "tickets_ok slot_id s" and m: "moved s s' x y"
  shows "tickets_ok slot_id s'"
proof -
  have ts: "tickets s' = map (\<lambda>z. if z = x then y else z) (tickets s)" and x: "x \<in> set (tickets s)"
    and g: "ticket_grows x y" and frame: "slots s' = slots s" "cancelled_orders s' = cancelled_orders s"
    using m by (simp_all add: moved_def)
  have keys: "map f_ID (tickets s') = map f_ID (tickets s)" "map f_OrderID (tickets s') = map f_OrderID (tickets s)"
    using g by (auto simp: ts ticket_grows_def)
  have same: "wf_ticket slot_id s' = wf_ticket slot_id s" by (simp add: fun_eq_iff wf_ticket_def frame)
  have "wf_ticket slot_id s y"
    using assms(1) x g unfolding tickets_ok_def wf_ticket_def ticket_grows_def by metis
  with assms(1) ts have "\<forall>z\<in>set (tickets s'). wf_ticket slot_id s z" by (auto simp: tickets_ok_def)
  with assms(1) show ?thesis by (simp only: tickets_ok_def same keys)
qed

lemma moved_slots_ok:
  assumes "slots_ok slot_id s" and m: "moved s s' x y"
  shows "slots_ok slot_id s'"
proof -
  have same: "map f_QueueSeq (slot_tickets s' i) = map f_QueueSeq (slot_tickets s i)" for i
  proof -
    have "map f_QueueSeq (filter (\<lambda>z. f_PickupSlotID z = i) (map (\<lambda>z. if z = x then y else z) zs)) =
        map f_QueueSeq (filter (\<lambda>z. f_PickupSlotID z = i) zs)" for zs
      using m by (induction zs) (auto simp: moved_def ticket_grows_def)
    then show ?thesis using m by (simp add: slot_tickets_def moved_def)
  qed
  have slots: "slots s' = slots s" using m by (simp add: moved_def)
  show ?thesis using assms(1) unfolding slots_ok_def wf_slot_def same slots .
qed

lemma moved_audit_ok:
  assumes ok: "tickets_ok slot_id s" "audit_ok s" and m: "moved s s' x y"
  shows "audit_ok s'"
proof -
  obtain h where h: "history s' = history s @ [h]" "h_FulfillmentID h = f_ID x" "h_OldStatus h = Some (f_Status x)"
    "h_NewStatus h = f_Status y" using m by (auto simp: moved_def)
  have x: "x \<in> set (tickets s)" "f_ID y = f_ID x" "ticket_edge (f_Status x) (f_Status y)"
    using m by (auto simp: moved_def ticket_grows_def)
  have ts: "tickets s' = map (\<lambda>z. if z = x then y else z) (tickets s)" using m by (simp add: moved_def)
  have "trail_ok (trail s (f_ID x)) (f_Status x)" using ok(2) x(1) by (simp add: audit_ok_def)
  moreover have "trail s' (f_ID x) = trail s (f_ID x) @ [h]" by (simp add: trail_def h)
  ultimately have y: "trail_ok (trail s' (f_ID x)) (f_Status y)"
    using trail_ok_snoc [of "trail s (f_ID x)" "f_Status x" h] x(3) h(3,4) by simp
  have "trail_ok (trail s' (f_ID z)) (f_Status z)" if "z \<in> set (tickets s)" "z \<noteq> x" for z
  proof -
    have "f_ID z \<noteq> f_ID x"
      using distinct_key_eq [of f_ID "tickets s" z x] that x(1) ok(1) by (auto simp: tickets_ok_def)
    with h have "trail s' (f_ID z) = trail s (f_ID z)" by (simp add: trail_def)
    with that ok(2) show ?thesis by (simp add: audit_ok_def)
  qed
  with y have "\<forall>z\<in>set (tickets s'). trail_ok (trail s' (f_ID z)) (f_Status z)"
    using ts x(2) by auto
  moreover have "h_FulfillmentID ` set (history s') \<subseteq> f_ID ` set (tickets s')"
  proof -
    have "map f_ID (tickets s') = map f_ID (tickets s)" using ts x(2) by auto
    then have "f_ID ` set (tickets s') = f_ID ` set (tickets s)" by (metis set_map)
    with ok(2) h x(1) show ?thesis by (auto simp: audit_ok_def)
  qed
  ultimately show ?thesis by (simp add: audit_ok_def)
qed

lemma moved_outbox_ok:
  assumes ok: "tickets_ok slot_id s" "outbox_ok s" and m: "moved s s' x y"
  shows "outbox_ok s'"
proof -
  obtain es where es: "foutbox s' = foutbox s @ es" "length es \<le> 1"
    "\<forall>e\<in>set es. snd (row_key e) = f_OrderID x \<and> due (fst (row_key e)) (f_Status y) \<and> \<not> due (fst (row_key e)) (f_Status x)"
    using m by (auto simp: moved_def)
  have x: "x \<in> set (tickets s)" "f_OrderID y = f_OrderID x" "y \<in> set (tickets s')"
    using m by (auto simp: moved_def ticket_grows_def)
  have old: "\<exists>z\<in>set (tickets s'). f_OrderID z = snd (row_key e) \<and> due (fst (row_key e)) (f_Status z)"
    if "e \<in> set (foutbox s)" for e
  proof -
    obtain z where z: "z \<in> set (tickets s)" "f_OrderID z = snd (row_key e)" "due (fst (row_key e)) (f_Status z)"
      using ok(2) \<open>e \<in> set (foutbox s)\<close> by (auto simp: outbox_ok_def)
    with ful_grows_ticket [OF moved_grows [OF m]] obtain z' where "z' \<in> set (tickets s')" "ticket_grows z z'" by blast
    with z show ?thesis by (auto simp: ticket_grows_def intro: due_later)
  qed
  have new: "row_key e \<notin> row_key ` set (foutbox s)" if "e \<in> set es" for e
  proof
    assume "row_key e \<in> row_key ` set (foutbox s)"
    then obtain e' where "e' \<in> set (foutbox s)" "row_key e' = row_key e" by auto
    with ok(2) obtain z where z: "z \<in> set (tickets s)" "f_OrderID z = snd (row_key e)" "due (fst (row_key e)) (f_Status z)"
      by (fastforce simp: outbox_ok_def)
    with es(3) that x(1) ok(1) have "z = x"
      using distinct_key_eq [of f_OrderID "tickets s" z x] by (auto simp: tickets_ok_def)
    with z es(3) that show False by auto
  qed
  have "distinct (map row_key (foutbox s'))"
    using ok(2) es new by (cases es) (auto simp: outbox_ok_def)
  moreover have "\<exists>z\<in>set (tickets s'). f_OrderID z = snd (row_key e) \<and> due (fst (row_key e)) (f_Status z)"
    if "e \<in> set (foutbox s')" for e
    using that old es x by (cases "e \<in> set (foutbox s)") auto
  ultimately show ?thesis by (simp add: outbox_ok_def)
qed

lemma moved_ok: "ful_ok slot_id s \<Longrightarrow> moved s s' x y \<Longrightarrow> ful_ok slot_id s'"
  unfolding ful_ok_def
  using moved_tickets_ok moved_slots_ok moved_audit_ok moved_outbox_ok by blast

section \<open>Opening a ticket\<close>

text \<open>The number a slot hands out, and the slots afterwards.\<close>

definition numbered :: "(time \<Rightarrow> string) \<Rightarrow> slot_row list \<Rightarrow> time \<Rightarrow> int \<Rightarrow> slot_row list \<Rightarrow> bool" where
  "numbered slot_id sl startsAt seq sl' \<longleftrightarrow>
     (\<exists>x. find (\<lambda>x. sl_StartsAt x = startsAt) sl = Some x \<and> seq = sl_NextQueue x \<and> seq + 1 \<le> MaxInt32 \<and>
        sl' = update_where (\<lambda>y. sl_StartsAt y = startsAt) (\<lambda>y. y\<lparr>sl_NextQueue := sl_NextQueue y + 1\<rparr>) sl) \<or>
     (find (\<lambda>x. sl_StartsAt x = startsAt) sl = None \<and> seq = 1 \<and> slot_id startsAt \<notin> sl_ID ` set sl \<and>
        sl' = sl @ [\<lparr>sl_ID = slot_id startsAt, sl_StartsAt = startsAt, sl_NextQueue = 2\<rparr>])"

definition opened :: "(time \<Rightarrow> string) \<Rightarrow> placed_data \<Rightarrow> ful_db \<Rightarrow> ful_db \<Rightarrow> ticket \<Rightarrow> bool" where
  "opened slot_id d s s' x \<longleftrightarrow>
     f_ID x \<notin> f_ID ` set (tickets s) \<and> f_OrderID x \<notin> f_OrderID ` set (tickets s) \<and>
     f_OrderID x = pd_OrderID d \<and> f_OrderID x \<notin> co_OrderID ` set (cancelled_orders s) \<and>
     f_PickupAt x = pd_PickupAt d \<and> f_PickupSlotID x = slot_id (slot_start (pd_PickupAt d)) \<and>
     f_QueueNumber x = queue_text (f_QueueSeq x) \<and> f_Status x = Queued \<and> f_Items x = pd_Items d \<and>
     f_CustomerID x = (if pd_CustomerID d \<noteq> uuid_Nil then Some (pd_CustomerID d) else None) \<and>
     tickets s' = tickets s @ [x] \<and>
     numbered slot_id (slots s) (slot_start (pd_PickupAt d)) (f_QueueSeq x) (slots s') \<and>
     (\<exists>h. history s' = history s @ [h] \<and> h_FulfillmentID h = f_ID x \<and> h_OldStatus h = None \<and> h_NewStatus h = Queued) \<and>
     (\<exists>es. foutbox s' = foutbox s @ es \<and> map row_key es = (if f_CustomerID x = None then [] else [(KQueued, f_OrderID x)])) \<and>
     cancelled_orders s' = cancelled_orders s"

lemma opened_grows: "opened slot_id d s s' x \<Longrightarrow> ful_grows s s'"
  unfolding ful_grows_def opened_def by (metis list_all2_refl prefixI ticket_grows_refl)

text \<open>The slot of the new ticket had the numbers before it; no ticket was in a slot that is new.\<close>

lemma slot_unused: "tickets_ok slot_id s \<Longrightarrow> i \<notin> sl_ID ` set (slots s) \<Longrightarrow> slot_tickets s i = []"
  unfolding tickets_ok_def wf_ticket_def slot_tickets_def filter_empty_conv by metis

lemma upto_snoc: "1 \<le> n \<Longrightarrow> [1..n] = [1..n - 1] @ [n]"
  by (rule upto_rec2)

lemma opened_slot_tickets:
  assumes "opened slot_id d s s' x"
  shows "slot_tickets s' i = slot_tickets s i @ (if i = f_PickupSlotID x then [x] else [])"
  using assms by (auto simp: opened_def slot_tickets_def)

lemma opened_slots_ok:
  assumes ok: "tickets_ok slot_id s" "slots_ok slot_id s" and o: "opened slot_id d s s' x"
  shows "slots_ok slot_id s'"
proof -
  let ?st = "slot_start (pd_PickupAt d)"
  have slot: "f_PickupSlotID x = slot_id ?st" using o by (simp add: opened_def)
  have num: "numbered slot_id (slots s) ?st (f_QueueSeq x) (slots s')" using o by (simp add: opened_def)
  note seqs = opened_slot_tickets [OF o]
  have wf: "sl_ID r = slot_id (sl_StartsAt r)" "2 \<le> sl_NextQueue r" "sl_NextQueue r \<le> MaxInt32"
    "map f_QueueSeq (slot_tickets s (sl_ID r)) = [1..sl_NextQueue r - 1]" if "r \<in> set (slots s)" for r
    using ok(2) that by (auto simp: slots_ok_def wf_slot_def)
  have inj: "r = r'" if "r \<in> set (slots s)" "r' \<in> set (slots s)" "sl_ID r = sl_ID r'" for r r'
    using distinct_key_eq [of sl_ID "slots s" r r'] that ok(2) by (simp add: slots_ok_def)
  from num consider
    (old) r where "find (\<lambda>x. sl_StartsAt x = ?st) (slots s) = Some r" "f_QueueSeq x = sl_NextQueue r"
      "f_QueueSeq x + 1 \<le> MaxInt32"
      "slots s' = update_where (\<lambda>y. sl_StartsAt y = ?st) (\<lambda>y. y\<lparr>sl_NextQueue := sl_NextQueue y + 1\<rparr>) (slots s)"
    | (new) "find (\<lambda>x. sl_StartsAt x = ?st) (slots s) = None" "f_QueueSeq x = 1" "slot_id ?st \<notin> sl_ID ` set (slots s)"
      "slots s' = slots s @ [\<lparr>sl_ID = slot_id ?st, sl_StartsAt = ?st, sl_NextQueue = 2\<rparr>]"
    unfolding numbered_def by (elim disjE exE conjE) (rule that, assumption+)+
  then show ?thesis
  proof cases
    case old
    then have r: "r \<in> set (slots s)" "sl_StartsAt r = ?st" by (auto dest: find_SomeD)
    have keys: "map sl_StartsAt (slots s') = map sl_StartsAt (slots s)" "map sl_ID (slots s') = map sl_ID (slots s)"
      unfolding old(4) by (auto intro!: map_update_where)
    have "sl_ID q = slot_id (sl_StartsAt q) \<and> 2 \<le> sl_NextQueue q \<and> sl_NextQueue q \<le> MaxInt32 \<and>
        map f_QueueSeq (slot_tickets s' (sl_ID q)) = [1..sl_NextQueue q - 1]" if q: "q \<in> set (slots s')" for q
    proof -
      obtain p where p: "p \<in> set (slots s)" "q = (if sl_StartsAt p = ?st then p\<lparr>sl_NextQueue := sl_NextQueue p + 1\<rparr> else p)"
        using q unfolding old(4) set_update_where by (elim imageE) (rule that, assumption+)
      show ?thesis
      proof (cases "sl_StartsAt p = ?st")
        case True
        then have "p = r" using inj [OF p(1) r(1)] wf(1) [OF p(1)] wf(1) [OF r(1)] r(2) by simp
        then show ?thesis
          using wf [OF r(1)] p(2) True old(2,3) slot r(2) upto_snoc [of "sl_NextQueue r"] by (simp add: seqs)
      next
        case False
        then have "sl_ID p \<noteq> slot_id ?st" using inj [OF p(1) r(1)] wf(1) [OF r(1)] r(2) by auto
        then show ?thesis using wf [OF p(1)] p(2) False slot by (auto simp: seqs)
      qed
    qed
    with ok(2) show ?thesis by (simp only: slots_ok_def wf_slot_def keys) blast
  next
    case new
    have "?st \<notin> sl_StartsAt ` set (slots s)" using new(1) by (auto simp: find_None_iff_all)
    moreover have "map f_QueueSeq (slot_tickets s' (slot_id ?st)) = [1]"
      using slot_unused [OF ok(1) new(3)] slot new(2) by (simp add: seqs)
    moreover have "map f_QueueSeq (slot_tickets s' (sl_ID r)) = [1..sl_NextQueue r - 1]" if "r \<in> set (slots s)" for r
    proof -
      have "sl_ID r \<noteq> f_PickupSlotID x" using new(3) slot that by (metis imageI)
      then show ?thesis using wf(4) [OF that] by (simp add: seqs)
    qed
    ultimately show ?thesis
      using ok(2) new(3) unfolding slots_ok_def wf_slot_def new(4) by (auto simp: MaxInt32_def)
  qed
qed

lemma numbered_ids:
  assumes "slots_ok slot_id s" and "numbered slot_id (slots s) t seq sl'"
  shows "sl_ID ` set (slots s) \<subseteq> sl_ID ` set sl' \<and> slot_id t \<in> sl_ID ` set sl'"
proof -
  have *: "map sl_ID (update_where p (\<lambda>y. y\<lparr>sl_NextQueue := g y\<rparr>) sl) = map sl_ID sl" for p g sl
    by (intro map_update_where) simp
  from assms(2) show ?thesis
    unfolding numbered_def
  proof (elim disjE exE conjE)
    fix x
    assume x: "find (\<lambda>x. sl_StartsAt x = t) (slots s) = Some x"
      and sl: "sl' = update_where (\<lambda>y. sl_StartsAt y = t) (\<lambda>y. y\<lparr>sl_NextQueue := sl_NextQueue y + 1\<rparr>) (slots s)"
    have "sl_ID ` set sl' = sl_ID ` set (slots s)" unfolding sl by (metis * set_map)
    moreover have "slot_id t \<in> sl_ID ` set (slots s)"
      using find_SomeD [OF x] assms(1) by (force simp: slots_ok_def wf_slot_def)
    ultimately show ?thesis by simp
  qed auto
qed

lemma opened_ok:
  assumes ok: "ful_ok slot_id s" and o: "opened slot_id d s s' x"
  shows "ful_ok slot_id s'"
proof -
  have ok': "tickets_ok slot_id s" "slots_ok slot_id s" "audit_ok s" "outbox_ok s" using ok by (simp_all add: ful_ok_def)
  have ts: "tickets s' = tickets s @ [x]" and co: "cancelled_orders s' = cancelled_orders s"
    and new: "f_ID x \<notin> f_ID ` set (tickets s)" "f_OrderID x \<notin> f_OrderID ` set (tickets s)"
    using o unfolding opened_def by blast+
  have ids: "sl_ID ` set (slots s) \<subseteq> sl_ID ` set (slots s')" "f_PickupSlotID x \<in> sl_ID ` set (slots s')"
    using numbered_ids [OF ok'(2), of "slot_start (pd_PickupAt d)" "f_QueueSeq x" "slots s'"] o
    unfolding opened_def by metis+
  have "tickets_ok slot_id s'"
  proof -
    have "wf_ticket slot_id s' x" using o ids(2) co unfolding opened_def wf_ticket_def by metis
    moreover have "wf_ticket slot_id s' z" if "wf_ticket slot_id s z" for z
      using that ids(1) co unfolding wf_ticket_def by (metis subsetD)
    ultimately show ?thesis using ok'(1) new by (simp add: tickets_ok_def ts)
  qed
  moreover have "audit_ok s'"
  proof -
    obtain h where h: "history s' = history s @ [h]" "h_FulfillmentID h = f_ID x" "h_OldStatus h = None"
      "h_NewStatus h = Queued" using o by (auto simp: opened_def)
    have "trail s (f_ID x) = []"
      using ok'(3) new(1) unfolding audit_ok_def trail_def filter_empty_conv by (metis imageI subsetD)
    then have "trail_ok (trail s' (f_ID x)) (f_Status x)" using h o by (simp add: trail_def opened_def)
    moreover have "trail s' (f_ID z) = trail s (f_ID z)" if "z \<in> set (tickets s)" for z
      using h new(1) that by (auto simp: trail_def)
    ultimately show ?thesis using ok'(3) h by (auto simp: audit_ok_def ts)
  qed
  moreover have "outbox_ok s'"
  proof -
    obtain es where es: "foutbox s' = foutbox s @ es"
      "map row_key es = (if f_CustomerID x = None then [] else [(KQueued, f_OrderID x)])" using o by (auto simp: opened_def)
    have old: "snd (row_key e) \<noteq> f_OrderID x" if "e \<in> set (foutbox s)" for e
      using ok'(4) new(2) that unfolding outbox_ok_def by (metis imageI)
    have key: "row_key e = (KQueued, f_OrderID x)" if "e \<in> set es" for e
    proof -
      have "row_key e \<in> set (map row_key es)" using that by simp
      then show ?thesis by (simp add: es(2) split: if_splits)
    qed
    have "distinct (map row_key es)" by (simp add: es(2))
    moreover have "row_key ` set (foutbox s) \<inter> row_key ` set es = {}"
    proof -
      have "row_key e' \<noteq> row_key e" if "e' \<in> set (foutbox s)" "e \<in> set es" for e e'
        using old [OF that(1)] key [OF that(2)] by auto
      then show ?thesis by blast
    qed
    ultimately have "distinct (map row_key (foutbox s'))" using ok'(4) by (simp add: outbox_ok_def es(1))
    moreover have "\<exists>z\<in>set (tickets s'). f_OrderID z = snd (row_key e) \<and> due (fst (row_key e)) (f_Status z)"
      if "e \<in> set (foutbox s')" for e
    proof (cases "e \<in> set es")
      case True
      with key show ?thesis by (simp add: ts)
    next
      case False
      with that es(1) ok'(4) show ?thesis by (auto simp: outbox_ok_def ts)
    qed
    ultimately show ?thesis by (simp add: outbox_ok_def)
  qed
  ultimately show ?thesis using opened_slots_ok [OF ok'(1,2) o] by (simp add: ful_ok_def)
qed

end
