(* ===== verification/Fulfillment_Machine.thy ===== *)
theory Fulfillment_Machine
  imports Fulfillment_Inv
begin

text \<open>
  What each operation of the fulfillment repository does, on every branch, and the machine that
  runs them in any order with any failures.
\<close>

section \<open>Statements\<close>

lemma wp_take_number:
  assumes "\<And>seq sl'. numbered slot_id (slots s) t seq sl' \<Longrightarrow> Q seq (s\<lparr>slots := sl'\<rparr>) (Suc n)"
    and "E FStorage s (Suc n)"
  shows "wp (take_number (slot_id t) t) Q E w s n"
  using assms unfolding take_number_def wp_stmt numbered_def
  by (auto split: option.splits)

lemma wp_insert_ticket:
  assumes "\<And>i tm. \<forall>x\<in>set (tickets s). f_ID x \<noteq> i \<and> f_OrderID x \<noteq> pd_OrderID d \<and>
        \<not> (f_PickupSlotID x = slotID \<and> f_QueueSeq x = seq) \<Longrightarrow>
      Q (Some i) (s\<lparr>tickets := tickets s @ [\<lparr>f_ID = i, f_OrderID = pd_OrderID d, f_CustomerID = customer,
            f_QueueSeq = seq, f_QueueNumber = queue_text seq, f_PickupSlotID = slotID, f_PickupAt = pd_PickupAt d,
            f_Status = Queued, f_Items = pd_Items d, f_PickedUpAt = None, f_CreatedAt = tm, f_UpdatedAt = tm\<rparr>]\<rparr>)
        (Suc (Suc (Suc n)))"
    and "\<exists>x\<in>set (tickets s). f_ID x = w_uuid w n \<or> f_OrderID x = pd_OrderID d \<or> (f_PickupSlotID x = slotID \<and> f_QueueSeq x = seq) \<Longrightarrow>
      Q None s (Suc (Suc (Suc n)))"
    and "E FStorage s (Suc (Suc (Suc n)))"
  shows "wp (insert_ticket d customer slotID seq) Q E w s n"
  using assms unfolding insert_ticket_def by (simp add: wp_rules)

lemma wp_insert_history:
  assumes "\<And>h. h_FulfillmentID h = fid \<Longrightarrow> h_OldStatus h = old \<Longrightarrow> h_NewStatus h = new \<Longrightarrow>
      h_ActorID h = actor \<Longrightarrow> h_SourceEventID h = source \<Longrightarrow>
      Q () (s\<lparr>history := history s @ [h]\<rparr>) (Suc (Suc (Suc n)))"
    and "E FStorage s (Suc (Suc (Suc n)))"
  shows "wp (insert_history fid old new actor source) Q E w s n"
  using assms unfolding insert_history_def by (simp add: wp_rules)

lemma wp_insertOutbox:
  assumes "\<And>x. fo_Payload x = env \<Longrightarrow> fo_RoutingKey x = key \<Longrightarrow> fo_PublishedAt x = None \<Longrightarrow>
      Q () (s\<lparr>foutbox := foutbox s @ [x]\<rparr>) (Suc (Suc n))"
    and "E FStorage s (Suc (Suc n))"
  shows "wp (insertOutbox key env) Q E w s n"
  using assms unfolding insertOutbox_def by (simp add: wp_rules)

lemma wp_newEnvelope:
  "wp (newEnvelope ty t d) Q E w s n = Q \<lparr>en_ID = w_uuid w n, en_Type = ty, en_Time = t, en_Data = d\<rparr> s (Suc n)"
  by (simp add: newEnvelope_def wp_rules)

lemma wp_markProcessed:
  assumes "eventID \<in> pe_EventID ` set (processed s) \<Longrightarrow> Q True s (Suc (Suc n))"
    and "\<And>p. eventID \<notin> pe_EventID ` set (processed s) \<Longrightarrow> pe_EventID p = eventID \<Longrightarrow>
      Q False (s\<lparr>processed := processed s @ [p]\<rparr>) (Suc (Suc n))"
    and "E FStorage s (Suc (Suc n))"
  shows "wp (markProcessed eventID) Q E w s n"
  using assms unfolding markProcessed_def by (simp add: wp_rules)

lemma wp_lockOrder [wp_rules]: "wp (lockOrder oid) Q E w s n = (if w_fails w n then E FStorage s (Suc n) else Q () s (Suc n))"
  by (simp add: lockOrder_def wp_rules)

lemma wp_scanFulfillment [wp_rules]:
  "wp (scanFulfillment oid) Q E w s n =
    (if w_fails w n then E FStorage s (Suc n)
     else case find_ticket oid s of None \<Rightarrow> E FNotFound s (Suc n) | Some x \<Rightarrow> Q x s (Suc n))"
  by (simp add: scanFulfillment_def wp_rules split: option.split)

section \<open>Placing\<close>

text \<open>
  Why the insert of a ticket may hit a unique constraint: the order has a ticket already, or the
  new id was drawn before. Never because of the queue number.
\<close>

definition drawn_before :: "world \<Rightarrow> ful_db \<Rightarrow> bool" where
  "drawn_before w s \<longleftrightarrow> (\<exists>n. w_uuid w n \<in> f_ID ` set (tickets s))"

lemma number_free:
  assumes ok: "tickets_ok slot_id s" "slots_ok slot_id s" and num: "numbered slot_id (slots s) t seq sl'"
    and x: "x \<in> set (tickets s)" "f_PickupSlotID x = slot_id t"
  shows "f_QueueSeq x \<noteq> seq"
proof -
  have mem: "f_QueueSeq x \<in> set (map f_QueueSeq (slot_tickets s (slot_id t)))"
    using x by (auto simp: slot_tickets_def)
  show ?thesis
    using num unfolding numbered_def
  proof (elim disjE exE conjE)
    fix r assume r: "find (\<lambda>x. sl_StartsAt x = t) (slots s) = Some r" "seq = sl_NextQueue r"
    then have "r \<in> set (slots s)" "sl_StartsAt r = t" by (auto dest: find_SomeD)
    then have "map f_QueueSeq (slot_tickets s (slot_id t)) = [1..sl_NextQueue r - 1]"
      using ok(2) unfolding slots_ok_def wf_slot_def by metis
    with mem r(2) show ?thesis by auto
  next
    assume "slot_id t \<notin> sl_ID ` set (slots s)"
    with slot_unused [OF ok(1)] mem show ?thesis by simp
  qed
qed

lemma wp_open_ticket:
  assumes ok: "ful_ok slot_id s" and free: "pd_OrderID d \<notin> co_OrderID ` set (cancelled_orders s)"
  shows "wp (open_ticket slot_id ev d)
    (\<lambda>r s' _. case r of
        Commit b \<Rightarrow> b \<and> (\<exists>x. opened slot_id d s s' x) \<and> processed s' = processed s
      | Discard b \<Rightarrow> \<not> b \<and> (find_ticket (pd_OrderID d) s \<noteq> None \<or> drawn_before w s))
    (\<lambda>e _ _. e = FStorage) w s n"
proof -
  let ?t = "slot_start (pd_PickupAt d)"
  let ?c = "if pd_CustomerID d \<noteq> uuid_Nil then Some (pd_CustomerID d) else None"
  let ?Q = "\<lambda>r s' _. case r of
        Commit b \<Rightarrow> b \<and> (\<exists>x. opened slot_id d s s' x) \<and> processed s' = processed s
      | Discard b \<Rightarrow> \<not> b \<and> (find_ticket (pd_OrderID d) s \<noteq> None \<or> drawn_before w s)"
  have tail: "wp (insert_ticket d ?c (slot_id ?t) seq) (\<lambda>r s' n'. wp (case r of None \<Rightarrow> ret (Discard False)
        | Some fid \<Rightarrow> bindT (insert_history fid None Queued None (Some ev)) (\<lambda>_. announce d ?c (slot_id ?t) seq)) ?Q
          (\<lambda>e _ _. e = FStorage) w s' n') (\<lambda>e _ _. e = FStorage) w (s\<lparr>slots := sl'\<rparr>) k"
    if num: "numbered slot_id (slots s) ?t seq sl'" for seq sl' k
  proof (rule wp_insert_ticket)
    fix i tm
    let ?x = "\<lparr>f_ID = i, f_OrderID = pd_OrderID d, f_CustomerID = ?c, f_QueueSeq = seq, f_QueueNumber = queue_text seq,
      f_PickupSlotID = slot_id ?t, f_PickupAt = pd_PickupAt d, f_Status = Queued, f_Items = pd_Items d,
      f_PickedUpAt = None, f_CreatedAt = tm, f_UpdatedAt = tm\<rparr>"
    assume new: "\<forall>x\<in>set (tickets (s\<lparr>slots := sl'\<rparr>)). f_ID x \<noteq> i \<and> f_OrderID x \<noteq> pd_OrderID d \<and>
        \<not> (f_PickupSlotID x = slot_id ?t \<and> f_QueueSeq x = seq)"
    have *: "opened slot_id d s s' ?x"
      if "tickets s' = tickets s @ [?x]" "slots s' = sl'" "history s' = history s @ [h]" "h_FulfillmentID h = i"
        "h_OldStatus h = None" "h_NewStatus h = Queued" "foutbox s' = foutbox s @ es" "cancelled_orders s' = cancelled_orders s"
        "map row_key es = (if ?c = None then [] else [(KQueued, pd_OrderID d)])" for s' h es
      using new num free that unfolding opened_def by (cases "pd_CustomerID d = uuid_Nil") auto
    show "wp (case Some i of None \<Rightarrow> ret (Discard False)
        | Some fid \<Rightarrow> bindT (insert_history fid None Queued None (Some ev)) (\<lambda>_. announce d ?c (slot_id ?t) seq)) ?Q
          (\<lambda>e _ _. e = FStorage) w (s\<lparr>slots := sl', tickets := tickets (s\<lparr>slots := sl'\<rparr>) @ [?x]\<rparr>) (Suc (Suc (Suc k)))"
      unfolding option.case wp_bindT
    proof (rule wp_insert_history)
      fix h :: history_row assume h: "h_FulfillmentID h = i" "h_OldStatus h = None" "h_NewStatus h = Queued"
      let ?s = "s\<lparr>slots := sl', tickets := tickets (s\<lparr>slots := sl'\<rparr>) @ [?x], history := history (s\<lparr>slots := sl', tickets := tickets (s\<lparr>slots := sl'\<rparr>) @ [?x]\<rparr>) @ [h]\<rparr>"
      show "wp (announce d ?c (slot_id ?t) seq) ?Q (\<lambda>e _ _. e = FStorage) w ?s k'" for k'
      proof (cases "pd_CustomerID d = uuid_Nil")
        case True
        then show ?thesis using * [of ?s h "[]"] h by (auto simp: announce_def wp_rules)
      next
        case False
        have "\<exists>x. opened slot_id d s (?s\<lparr>foutbox := foutbox ?s @ [e]\<rparr>) x"
          if "en_Data (fo_Payload e) = OrderQueued (pd_OrderID d) (pd_CustomerID d) (queue_text seq) (slot_id ?t) (pd_PickupAt d)" for e
          using * [of "?s\<lparr>foutbox := foutbox ?s @ [e]\<rparr>" h "[e]"] h that False by auto
        with False show ?thesis
          by (auto simp: announce_def wp_rules wp_newEnvelope intro!: wp_insertOutbox)
      qed
    qed simp
  next
    assume "\<exists>x\<in>set (tickets (s\<lparr>slots := sl'\<rparr>)). f_ID x = w_uuid w k \<or> f_OrderID x = pd_OrderID d \<or>
        (f_PickupSlotID x = slot_id ?t \<and> f_QueueSeq x = seq)"
    then obtain x where x: "x \<in> set (tickets s)"
      "f_ID x = w_uuid w k \<or> f_OrderID x = pd_OrderID d \<or> (f_PickupSlotID x = slot_id ?t \<and> f_QueueSeq x = seq)" by auto
    with number_free [OF _ _ num] ok have "f_ID x = w_uuid w k \<or> f_OrderID x = pd_OrderID d" by (auto simp: ful_ok_def)
    then have "find_ticket (pd_OrderID d) s \<noteq> None \<or> drawn_before w s"
      using x(1) unfolding find_ticket_def find_None_iff_all drawn_before_def by (metis imageI)
    then show "wp (case None of None \<Rightarrow> ret (Discard False)
        | Some fid \<Rightarrow> bindT (insert_history fid None Queued None (Some ev)) (\<lambda>_. announce d ?c (slot_id ?t) seq)) ?Q
          (\<lambda>e _ _. e = FStorage) w (s\<lparr>slots := sl'\<rparr>) (Suc (Suc (Suc k)))"
      by (auto simp: wp_rules)
  qed simp
  show ?thesis
    unfolding open_ticket_def Let_def wp_bindT
    by (rule wp_take_number) (use tail in simp_all)
qed

text \<open>The outcome of \<open>CreateFromOrderPlaced\<close>; \<open>touch\<close> is the state with the event marked.\<close>

definition marked :: "string \<Rightarrow> ful_db \<Rightarrow> ful_db \<Rightarrow> bool" where
  "marked eventID s s' \<longleftrightarrow> (\<exists>p. pe_EventID p = eventID \<and> s' = s\<lparr>processed := processed s @ [p]\<rparr>) \<and>
     eventID \<notin> pe_EventID ` set (processed s)"

definition placed_true :: "(time \<Rightarrow> string) \<Rightarrow> string \<Rightarrow> placed_data \<Rightarrow> ful_db \<Rightarrow> ful_db \<Rightarrow> bool" where
  "placed_true slot_id ev d s s' \<longleftrightarrow> (\<exists>s1 x. marked ev s s1 \<and> opened slot_id d s1 s' x \<and> processed s' = processed s1)"

definition placed_false :: "string \<Rightarrow> placed_data \<Rightarrow> world \<Rightarrow> ful_db \<Rightarrow> ful_db \<Rightarrow> bool" where
  "placed_false ev d w s s' \<longleftrightarrow>
     (s' = s \<and> ev \<in> pe_EventID ` set (processed s)) \<or>
     (marked ev s s' \<and> pd_OrderID d \<in> co_OrderID ` set (cancelled_orders s)) \<or>
     (s' = s \<and> (find_ticket (pd_OrderID d) s \<noteq> None \<or> drawn_before w s))"

lemma processed_frame [simp]:
  "ful_ok slot_id (s\<lparr>processed := p\<rparr>) = ful_ok slot_id s" "find_ticket oid (s\<lparr>processed := p\<rparr>) = find_ticket oid s"
  "drawn_before w (s\<lparr>processed := p\<rparr>) = drawn_before w s"
  by (simp_all add: ful_defs wf_ticket_def wf_slot_def slot_tickets_def trail_def find_ticket_def drawn_before_def)

lemma wp_CreateFromOrderPlaced:
  assumes ok: "ful_ok slot_id s"
  shows "wp (CreateFromOrderPlaced slot_id ev d)
    (\<lambda>b s' _. if b then placed_true slot_id ev d s s' else placed_false ev d w s s')
    (\<lambda>e s' _. e = FStorage \<and> (s' = s \<or> placed_true slot_id ev d s s' \<or> placed_false ev d w s s')) w s n"
  unfolding CreateFromOrderPlaced_def
proof (rule wpi_atomically)
  let ?Q = "\<lambda>r s' (_::nat). case r of
      Commit a \<Rightarrow> \<forall>k::nat. (if a then placed_true slot_id ev d s s' else placed_false ev d w s s') \<and>
        FStorage = FStorage \<and> (s' = s \<or> placed_true slot_id ev d s s' \<or> placed_false ev d w s s')
    | Discard a \<Rightarrow> \<forall>k::nat. if a then placed_true slot_id ev d s s else placed_false ev d w s s"
  let ?E = "\<lambda>e s' (_::nat). \<forall>k::nat. e = FStorage \<and> (s = s \<or> placed_true slot_id ev d s s \<or> placed_false ev d w s s)"
  show "wp (bindT (markProcessed ev) (\<lambda>dup. if dup then ret (Discard False)
       else bindT (lockOrder (pd_OrderID d)) (\<lambda>_.
         bindT (query FStorage (\<lambda>db. pd_OrderID d \<in> co_OrderID ` set (cancelled_orders db))) (\<lambda>cancelled.
           if cancelled then ret (Commit False) else open_ticket slot_id ev d)))) ?Q ?E w s (Suc n)"
    unfolding wp_bindT
  proof (rule wp_markProcessed)
    fix p :: processed_row assume p: "ev \<notin> pe_EventID ` set (processed s)" "pe_EventID p = ev"
    let ?s = "s\<lparr>processed := processed s @ [p]\<rparr>"
    have m: "marked ev s ?s" using p by (auto simp: marked_def)
    have "wp (open_ticket slot_id ev d) ?Q ?E w ?s k" if "pd_OrderID d \<notin> co_OrderID ` set (cancelled_orders s)" for k
      by (rule wp_mono [OF wp_open_ticket [of slot_id ?s]])
        (use ok that m in \<open>auto simp: placed_true_def placed_false_def split: outcome.splits\<close>)
    then show "wp (if False then ret (Discard False)
       else bindT (lockOrder (pd_OrderID d)) (\<lambda>_.
         bindT (query FStorage (\<lambda>db. pd_OrderID d \<in> co_OrderID ` set (cancelled_orders db))) (\<lambda>cancelled.
           if cancelled then ret (Commit False) else open_ticket slot_id ev d))) ?Q ?E w ?s (Suc (Suc (Suc n)))"
      using m by (simp add: wp_rules placed_false_def)
  qed (simp_all add: wp_rules placed_false_def)
qed simp

section \<open>Cancelling\<close>

lemma find_filtered:
  assumes "tickets_ok slot_id s"
  shows "find (\<lambda>x. f_OrderID x = oid \<and> P x) (tickets s) =
    (case find_ticket oid s of Some x \<Rightarrow> if P x then Some x else None | None \<Rightarrow> None)"
proof -
  have "distinct (map f_OrderID zs) \<Longrightarrow> find (\<lambda>x. f_OrderID x = oid \<and> P x) zs =
      (case find (\<lambda>x. f_OrderID x = oid) zs of Some x \<Rightarrow> if P x then Some x else None | None \<Rightarrow> None)" for zs
  proof (induction zs)
    case (Cons z zs)
    have "find (\<lambda>x. f_OrderID x = oid \<and> P x) zs = None" if "f_OrderID z = oid"
      using Cons.prems that by (simp add: find_None_iff_all) (metis imageI)
    with Cons show ?case by auto
  qed simp
  then show ?thesis using assms by (simp add: find_ticket_def tickets_ok_def)
qed

definition cancelled_true :: "string \<Rightarrow> string \<Rightarrow> ful_db \<Rightarrow> ful_db \<Rightarrow> bool" where
  "cancelled_true ev oid s s' \<longleftrightarrow> (\<exists>s1 x y. marked ev s s1 \<and> moved s1 s' x y \<and> f_OrderID x = oid \<and>
     f_Status y = TCancelled \<and> foutbox s' = foutbox s)"

definition buried :: "string \<Rightarrow> ful_db \<Rightarrow> ful_db \<Rightarrow> bool" where
  "buried oid s s' \<longleftrightarrow> s' = s \<and> (find_ticket oid s \<noteq> None \<or> oid \<in> co_OrderID ` set (cancelled_orders s)) \<or>
     find_ticket oid s = None \<and> (\<exists>c. co_OrderID c = oid \<and> s' = s\<lparr>cancelled_orders := cancelled_orders s @ [c]\<rparr>)"

definition cancelled_false :: "string \<Rightarrow> string \<Rightarrow> ful_db \<Rightarrow> ful_db \<Rightarrow> bool" where
  "cancelled_false ev oid s s' \<longleftrightarrow>
     (s' = s \<and> ev \<in> pe_EventID ` set (processed s)) \<or>
     (\<exists>s1. marked ev s s1 \<and> buried oid s1 s' \<and> (\<forall>x. find_ticket oid s = Some x \<longrightarrow> \<not> IsCancellable (f_Status x)))"

lemma update_by_id:
  assumes "tickets_ok slot_id s" and "x \<in> set (tickets s)"
  shows "update_where (\<lambda>y. f_ID y = f_ID x) g (tickets s) = map (\<lambda>z. if z = x then g x else z) (tickets s)"
  unfolding update_where_def
proof (rule map_cong [OF refl])
  fix z assume "z \<in> set (tickets s)"
  then have "f_ID z = f_ID x \<Longrightarrow> z = x"
    using distinct_key_eq [of f_ID "tickets s" z x] assms by (simp add: tickets_ok_def)
  then show "(if f_ID z = f_ID x then g z else z) = (if z = x then g x else z)" by auto
qed

lemma wp_cancel_rest:
  assumes ok: "ful_ok slot_id s"
  shows "wp (bindT (cancel_ticket oid) (\<lambda>r. case r of
      None \<Rightarrow> bindT (insert_tombstone oid ev) (\<lambda>_. ret (Commit False))
    | Some (fid, old) \<Rightarrow> bindT (insert_history fid (Some old) TCancelled None (Some ev)) (\<lambda>_. ret (Commit True))))
    (\<lambda>r s' _. case r of
        Commit b \<Rightarrow> if b then \<exists>x y. moved s s' x y \<and> f_OrderID x = oid \<and> f_Status y = TCancelled \<and> foutbox s' = foutbox s
                    else buried oid s s' \<and> (\<forall>x. find_ticket oid s = Some x \<longrightarrow> \<not> IsCancellable (f_Status x))
      | Discard b \<Rightarrow> False)
    (\<lambda>e _ _. e = FStorage) w s n"
proof -
  have tok: "tickets_ok slot_id s" using ok by (simp add: ful_ok_def)
  show ?thesis
  proof (cases "\<exists>x. find_ticket oid s = Some x \<and> IsCancellable (f_Status x)")
    case True
    then obtain x where x: "find_ticket oid s = Some x" "IsCancellable (f_Status x)" by auto
    then have mem: "x \<in> set (tickets s)" "f_OrderID x = oid" using find_ticket_SomeD by blast+
    have later: "ticket_later (f_Status x) TCancelled"
      using x(2) by (auto simp: IsCancellable_def)
    have f: "find (\<lambda>x. f_OrderID x = oid \<and> (f_Status x = Queued \<or> f_Status x = Preparing)) (tickets s) = Some x"
      using x find_filtered [OF tok, of oid "\<lambda>x. f_Status x = Queued \<or> f_Status x = Preparing"] by (auto simp: IsCancellable_def)
    have "moved s (s\<lparr>tickets := map (\<lambda>z. if z = x then x\<lparr>f_Status := TCancelled, f_UpdatedAt := t\<rparr> else z) (tickets s),
        history := history s @ [h]\<rparr>) x (x\<lparr>f_Status := TCancelled, f_UpdatedAt := t\<rparr>)"
      if "h_FulfillmentID h = f_ID x" "h_OldStatus h = Some (f_Status x)" "h_NewStatus h = TCancelled" for t h
      using that mem later x(2) unfolding moved_def by (auto simp: ticket_grows_def ticket_edge_def)
    then show ?thesis
      unfolding cancel_ticket_def
      by (simp add: wp_rules f update_by_id [OF tok mem(1)]) (force intro!: wp_insert_history simp: wp_rules mem(2))
  next
    case False
    then have f: "find (\<lambda>x. f_OrderID x = oid \<and> (f_Status x = Queued \<or> f_Status x = Preparing)) (tickets s) = None"
      by (auto simp: find_filtered [OF tok] IsCancellable_def split: option.splits)
    from False show ?thesis
      unfolding cancel_ticket_def insert_tombstone_def
      by (auto simp: wp_rules f buried_def) (metis tombstone_row.select_convs(1))
  qed
qed

lemma wp_CancelByOrder:
  assumes ok: "ful_ok slot_id s"
  shows "wp (CancelByOrder ev oid)
    (\<lambda>b s' _. if b then cancelled_true ev oid s s' else cancelled_false ev oid s s')
    (\<lambda>e s' _. e = FStorage \<and> (s' = s \<or> cancelled_true ev oid s s' \<or> cancelled_false ev oid s s')) w s n"
  unfolding CancelByOrder_def
proof (rule wpi_atomically)
  let ?Q = "\<lambda>r s' (_::nat). case r of
      Commit a \<Rightarrow> \<forall>k::nat. (if a then cancelled_true ev oid s s' else cancelled_false ev oid s s') \<and>
        FStorage = FStorage \<and> (s' = s \<or> cancelled_true ev oid s s' \<or> cancelled_false ev oid s s')
    | Discard a \<Rightarrow> \<forall>k::nat. if a then cancelled_true ev oid s s else cancelled_false ev oid s s"
  let ?E = "\<lambda>e s' (_::nat). \<forall>k::nat. e = FStorage \<and> (s = s \<or> cancelled_true ev oid s s \<or> cancelled_false ev oid s s)"
  let ?rest = "bindT (cancel_ticket oid) (\<lambda>r. case r of
      None \<Rightarrow> bindT (insert_tombstone oid ev) (\<lambda>_. ret (Commit False))
    | Some (fid, old) \<Rightarrow> bindT (insert_history fid (Some old) TCancelled None (Some ev)) (\<lambda>_. ret (Commit True)))"
  show "wp (bindT (markProcessed ev) (\<lambda>dup. if dup then ret (Discard False) else bindT (lockOrder oid) (\<lambda>_. ?rest))) ?Q ?E w s (Suc n)"
    unfolding wp_bindT [of "markProcessed ev"]
  proof (rule wp_markProcessed)
    fix p :: processed_row assume p: "ev \<notin> pe_EventID ` set (processed s)" "pe_EventID p = ev"
    let ?s = "s\<lparr>processed := processed s @ [p]\<rparr>"
    have m: "marked ev s ?s" using p by (auto simp: marked_def)
    have "wp ?rest ?Q ?E w ?s k" for k
      by (rule wp_mono [OF wp_cancel_rest [of slot_id ?s]])
        (use ok m in \<open>fastforce simp: cancelled_true_def cancelled_false_def split: outcome.splits if_splits\<close>)+
    then show "wp (if False then ret (Discard False) else bindT (lockOrder oid) (\<lambda>_. ?rest)) ?Q ?E w ?s (Suc (Suc (Suc n)))"
      by (simp add: wp_bindT [of "lockOrder oid"] wp_lockOrder)
  qed (simp_all add: wp_rules cancelled_false_def)
qed simp

section \<open>The kitchen moves a ticket\<close>

fun kind_of :: "ticket_status \<Rightarrow> event_kind list" where
  "kind_of Ready = [KReady]"
| "kind_of PickedUp = [KPickedUp]"
| "kind_of _ = []"

definition advanced :: "ful_db \<Rightarrow> ful_db \<Rightarrow> string \<Rightarrow> ticket_status \<Rightarrow> ticket \<Rightarrow> bool" where
  "advanced s s' oid target y \<longleftrightarrow> (\<exists>x. find_ticket oid s = Some x \<and> CanTransition (f_Status x) target \<and> moved s s' x y \<and>
     f_Status y = target \<and> processed s' = processed s \<and>
     (\<exists>es. foutbox s' = foutbox s @ es \<and> map row_key es = map (\<lambda>k. (k, oid)) (kind_of target)))"

lemma update_by_order:
  assumes "tickets_ok slot_id s" and "x \<in> set (tickets s)"
  shows "update_where (\<lambda>y. f_OrderID y = f_OrderID x) g (tickets s) = map (\<lambda>z. if z = x then g x else z) (tickets s)"
  unfolding update_where_def
proof (rule map_cong [OF refl])
  fix z assume "z \<in> set (tickets s)"
  then have "f_OrderID z = f_OrderID x \<Longrightarrow> z = x"
    using distinct_key_eq [of f_OrderID "tickets s" z x] assms by (simp add: tickets_ok_def)
  then show "(if f_OrderID z = f_OrderID x then g z else z) = (if z = x then g x else z)" by auto
qed

lemma find_updated:
  assumes "tickets_ok slot_id s" and "x \<in> set (tickets s)" and "f_OrderID (g x) = f_OrderID x"
  shows "find (\<lambda>y. f_OrderID y = f_OrderID x) (map (\<lambda>z. if z = x then g x else z) (tickets s)) = Some (g x)"
proof -
  have "map f_OrderID (map (\<lambda>z. if z = x then g x else z) (tickets s)) = map f_OrderID (tickets s)"
    using assms(3) by auto
  then have "distinct (map f_OrderID (map (\<lambda>z. if z = x then g x else z) (tickets s)))"
    using assms(1) by (simp only: tickets_ok_def)
  moreover have "g x \<in> set (map (\<lambda>z. if z = x then g x else z) (tickets s))" using assms(2) by auto
  ultimately show ?thesis
    using find_unique [of f_OrderID "map (\<lambda>z. if z = x then g x else z) (tickets s)" "g x"] assms(3) by simp
qed

lemma wp_update_ticket:
  assumes "tickets_ok slot_id s" and "find_ticket oid s = Some x"
    and "Q (set_ticket oid target p t x) (s\<lparr>tickets := map (\<lambda>z. if z = x then set_ticket oid target p t x else z) (tickets s)\<rparr>) (Suc n)"
    and "E FStorage s (Suc n)"
  shows "wp (update_ticket oid target p t) Q E w s n"
proof -
  have x: "x \<in> set (tickets s)" "f_OrderID x = oid" using find_ticket_SomeD [OF assms(2)] by auto
  note u = update_by_order [OF assms(1) x(1), of "set_ticket oid target p t", unfolded x(2)]
  note f = find_updated [OF assms(1) x(1), of "set_ticket oid target p t", unfolded x(2)]
  show ?thesis
    using assms(3,4) f by (simp add: update_ticket_def wp_stmt u set_ticket_def x(2) Let_def)
qed

lemma wp_publish_status:
  assumes "\<And>es. map row_key es = map (\<lambda>k. (k, f_OrderID x)) (kind_of target) \<Longrightarrow> length es \<le> 1 \<Longrightarrow>
      \<forall>k. Q () (s\<lparr>foutbox := foutbox s @ es\<rparr>) k"
    and "\<And>k. E FStorage s k"
  shows "wp (publish_status target t x) Q E w s n"
proof (cases target)
  case Ready
  then show ?thesis
    by (auto simp: publish_status_def wp_rules wp_newEnvelope assms(2) intro!: wp_insertOutbox assms(1) [rule_format])
next
  case PickedUp
  then show ?thesis
    by (auto simp: publish_status_def wp_rules wp_newEnvelope assms(2) intro!: wp_insertOutbox assms(1) [rule_format])
qed (use assms(1) [of "[]"] in \<open>simp_all add: publish_status_def wp_rules\<close>)

lemma wp_UpdateStatus:
  assumes ok: "ful_ok slot_id s"
  shows "wp (UpdateStatus actor oid target)
    (\<lambda>y s' _. (s' = s \<and> find_ticket oid s = Some y \<and> f_Status y = target) \<or> advanced s s' oid target y)
    (\<lambda>e s' _. (e = FNotFound \<and> s' = s \<and> find_ticket oid s = None) \<or>
       (e = FInvalidTransition \<and> s' = s \<and>
         (\<exists>x. find_ticket oid s = Some x \<and> f_Status x \<noteq> target \<and> \<not> CanTransition (f_Status x) target)) \<or>
       (e = FStorage \<and> (s' = s \<or> (\<exists>y. advanced s s' oid target y)))) w s n"
proof -
  have tok: "tickets_ok slot_id s" using ok by (simp add: ful_ok_def)
  have adv: "wp (bindT (update_ticket oid target p t) (\<lambda>updated.
       bindT (insert_history (f_ID updated) (Some (f_Status x)) target actor None) (\<lambda>_.
       bindT (publish_status target t updated) (\<lambda>_. ret (Commit updated)))))
       (\<lambda>r s' _. case r of Commit y \<Rightarrow> advanced s s' oid target y | Discard y \<Rightarrow> False) (\<lambda>e _ _. e = FStorage) w s k"
    if x: "find_ticket oid s = Some x" "CanTransition (f_Status x) target" for x p t k
  proof -
    let ?y = "set_ticket oid target p t x"
    have mem: "x \<in> set (tickets s)" "f_OrderID x = oid" using find_ticket_SomeD [OF x(1)] by auto
    have edge: "ticket_edge (f_Status x) target" using x(2) by (simp add: ticket_edge_def)
    have due: "due kd target \<and> \<not> due kd (f_Status x)" if "kd \<in> set (kind_of target)" for kd
      using x(2) that by (cases target; cases "f_Status x") (auto simp: CanTransition_def)
    have y: "ticket_grows x ?y" "f_ID ?y = f_ID x" "f_OrderID ?y = oid" "f_Status ?y = target"
      using ticket_later_edge [OF edge] mem(2) by (auto simp: set_ticket_def ticket_grows_def)
    have "advanced s (s\<lparr>tickets := map (\<lambda>z. if z = x then ?y else z) (tickets s), history := history s @ [h],
        foutbox := foutbox s @ es\<rparr>) oid target ?y"
      if h: "h_FulfillmentID h = f_ID x" "h_OldStatus h = Some (f_Status x)" "h_NewStatus h = target"
        and es: "map row_key es = map (\<lambda>k. (k, oid)) (kind_of target)" "length es \<le> 1" for h es
    proof -
      have "snd (row_key e) = oid \<and> due (fst (row_key e)) target \<and> \<not> due (fst (row_key e)) (f_Status x)"
        if "e \<in> set es" for e
      proof -
        have "row_key e \<in> set (map row_key es)" using that by simp
        then obtain kd where "kd \<in> set (kind_of target)" "row_key e = (kd, oid)" by (auto simp: es(1))
        with due show ?thesis by simp
      qed
      then have "moved s (s\<lparr>tickets := map (\<lambda>z. if z = x then ?y else z) (tickets s), history := history s @ [h],
          foutbox := foutbox s @ es\<rparr>) x ?y"
        unfolding moved_def using mem edge y h es(2) by auto
      with x y es(1) show ?thesis by (auto simp: advanced_def)
    qed
    then show ?thesis
      unfolding wp_bindT
      by (intro wp_update_ticket [OF tok x(1)] wp_insert_history wp_publish_status) (simp_all add: wp_ret y)
  qed
  show ?thesis
    unfolding UpdateStatus_def
  proof (rule wpi_atomically)
    let ?Q = "\<lambda>r s' (_::nat). case r of
        Commit y \<Rightarrow> \<forall>k::nat. ((s' = s \<and> find_ticket oid s = Some y \<and> f_Status y = target) \<or> advanced s s' oid target y) \<and>
          ((FStorage = FNotFound \<and> s' = s \<and> find_ticket oid s = None) \<or>
           (FStorage = FInvalidTransition \<and> s' = s \<and>
             (\<exists>x. find_ticket oid s = Some x \<and> f_Status x \<noteq> target \<and> \<not> CanTransition (f_Status x) target)) \<or>
           (FStorage = FStorage \<and> (s' = s \<or> (\<exists>y. advanced s s' oid target y))))
      | Discard y \<Rightarrow> \<forall>k::nat. (s = s \<and> find_ticket oid s = Some y \<and> f_Status y = target) \<or> advanced s s oid target y"
    let ?E = "\<lambda>e s' (_::nat). \<forall>k::nat. (e = FNotFound \<and> s = s \<and> find_ticket oid s = None) \<or>
       (e = FInvalidTransition \<and> s = s \<and>
         (\<exists>x. find_ticket oid s = Some x \<and> f_Status x \<noteq> target \<and> \<not> CanTransition (f_Status x) target)) \<or>
       (e = FStorage \<and> (s = s \<or> (\<exists>y. advanced s s oid target y)))"
    have "wp (bindT (update_ticket oid target p t) (\<lambda>updated.
       bindT (insert_history (f_ID updated) (Some (f_Status x)) target actor None) (\<lambda>_.
       bindT (publish_status target t updated) (\<lambda>_. ret (Commit updated))))) ?Q ?E w s k"
      if "find_ticket oid s = Some x" "CanTransition (f_Status x) target" for x p t k
      by (rule wp_mono [OF adv [OF that]]) (auto split: outcome.splits)
    then show "wp (bindT (scanFulfillment oid) (\<lambda>cur.
       if f_Status cur = target then ret (Discard cur)
       else if \<not> CanTransition (f_Status cur) target then throw FInvalidTransition
       else bindT time_Now (\<lambda>t.
         bindT (update_ticket oid target (if target = PickedUp then Some t else None) t) (\<lambda>updated.
         bindT (insert_history (f_ID updated) (Some (f_Status cur)) target actor None) (\<lambda>_.
         bindT (publish_status target t updated) (\<lambda>_. ret (Commit updated))))))) ?Q ?E w s (Suc n)"
      unfolding wp_bindT [of "scanFulfillment oid"] wp_bindT [of time_Now] wp_scanFulfillment wp_if wp_time_Now wp_ret wp_throw
      by (auto split: option.splits)
  qed simp
qed

section \<open>Housekeeping\<close>

text \<open>What the purge and the relay leave alone, and that they only drop or stamp rows.\<close>

definition tidied :: "ful_db \<Rightarrow> ful_db \<Rightarrow> bool" where
  "tidied s s' \<longleftrightarrow> tickets s' = tickets s \<and> slots s' = slots s \<and> history s' = history s \<and>
     set (cancelled_orders s') \<subseteq> set (cancelled_orders s) \<and>
     subseq (map row_key (foutbox s')) (map row_key (foutbox s))"

lemma tidied_refl: "tidied s s"
  by (simp add: tidied_def)

lemma tidied_trans: "tidied s t \<Longrightarrow> tidied t u \<Longrightarrow> tidied s u"
  by (auto simp: tidied_def intro: subseq_order.trans)

lemma tidied_grows: "tidied s s' \<Longrightarrow> ful_grows s s'"
  by (simp add: tidied_def ful_grows_same)

lemma subseq_distinct: "subseq xs ys \<Longrightarrow> distinct ys \<Longrightarrow> distinct xs"
  by (induction rule: list_emb.induct) (auto dest: list_emb_set)

lemma tidied_ok:
  assumes "ful_ok slot_id s" and t: "tidied s s'"
  shows "ful_ok slot_id s'"
proof -
  have same: "tickets s' = tickets s" "slots s' = slots s" "history s' = history s"
    and co: "set (cancelled_orders s') \<subseteq> set (cancelled_orders s)"
    and fo: "subseq (map row_key (foutbox s')) (map row_key (foutbox s))" using t by (auto simp: tidied_def)
  have "wf_ticket slot_id s' z" if "wf_ticket slot_id s z" for z
    using that subsetD [OF image_mono [OF co, of co_OrderID]] unfolding wf_ticket_def same by metis
  then have "tickets_ok slot_id s'" using assms(1) by (simp add: ful_ok_def tickets_ok_def same)
  moreover have "slots_ok slot_id s'" "audit_ok s'"
    using assms(1) slots_ok_cong [OF same(1,2)] audit_ok_cong [OF same(1,3)] by (simp_all add: ful_ok_def)
  moreover have "outbox_ok s'"
  proof -
    have "distinct (map row_key (foutbox s'))"
      using assms(1) fo subseq_distinct by (auto simp: ful_ok_def outbox_ok_def)
    moreover have "\<exists>x\<in>set (tickets s'). f_OrderID x = snd (row_key e) \<and> due (fst (row_key e)) (f_Status x)"
      if "e \<in> set (foutbox s')" for e
    proof -
      have "row_key e \<in> set (map row_key (foutbox s'))" using that by simp
      then have "row_key e \<in> set (map row_key (foutbox s))" using list_emb_set [OF fo] by blast
      then obtain e' where "e' \<in> set (foutbox s)" "row_key e' = row_key e" by auto
      then show ?thesis using assms(1) by (fastforce simp: ful_ok_def outbox_ok_def same)
    qed
    ultimately show ?thesis by (simp add: outbox_ok_def)
  qed
  ultimately show ?thesis by (simp add: ful_ok_def)
qed

text \<open>A tombstone or dedupe record younger than the retention window survives a purge.\<close>

definition kept_young :: "time \<Rightarrow> ful_db \<Rightarrow> ful_db \<Rightarrow> bool" where
  "kept_young t s s' \<longleftrightarrow>
     (\<forall>c\<in>set (cancelled_orders s). t - TombstoneRetention \<le> co_CancelledAt c \<longrightarrow> c \<in> set (cancelled_orders s')) \<and>
     (\<forall>p\<in>set (processed s). t - DedupeRetention \<le> pe_ProcessedAt p \<longrightarrow> p \<in> set (processed s'))"

lemma subseq_map_filter: "subseq (map g (filter p xs)) (map g xs)"
  by (simp add: subseq_map)

lemma wp_PurgeExpired:
  "wp (PurgeExpired t) (\<lambda>_ s' _. tidied s s' \<and> kept_young t s s') (\<lambda>_ s' _. tidied s s' \<and> kept_young t s s') w s n"
  unfolding PurgeExpired_def delete_where_def
  by (simp add: wp_rules tidied_def kept_young_def subseq_map_filter)

lemma wp_flush_loop:
  fixes xs :: "foutbox_row list"
  shows "wp (flush_loop publish xs)
    (\<lambda>r s' _. tidied s s' \<and> cancelled_orders s' = cancelled_orders s \<and> processed s' = processed s)
    (\<lambda>e s' _. tidied s s' \<and> cancelled_orders s' = cancelled_orders s \<and> processed s' = processed s) w s n"
proof (induction xs arbitrary: s n)
  case Nil
  then show ?case by (simp add: wp_rules tidied_refl)
next
  case (Cons r rs s k)
  let ?s = "s\<lparr>foutbox := update_where (\<lambda>y. fo_ID y = fo_ID r) (\<lambda>y. y\<lparr>fo_PublishedAt := Some (w_clock w k)\<rparr>) (foutbox s)\<rparr>"
  have keys: "map row_key (foutbox ?s) = map row_key (foutbox s)"
    by (auto intro!: map_update_where)
  have t: "tidied s ?s" unfolding tidied_def keys by simp
  have "wp (flush_loop publish rs)
    (\<lambda>r s' _. tidied s s' \<and> cancelled_orders s' = cancelled_orders s \<and> processed s' = processed s)
    (\<lambda>e s' _. tidied s s' \<and> cancelled_orders s' = cancelled_orders s \<and> processed s' = processed s) w ?s m" for m
    by (rule wp_mono [OF Cons.IH [of ?s]]) (auto intro: tidied_trans [OF t])
  then show ?case by (simp add: wp_rules tidied_refl)
qed

lemma wp_flush:
  "wp (flush publish)
    (\<lambda>r s' _. tidied s s' \<and> cancelled_orders s' = cancelled_orders s \<and> processed s' = processed s)
    (\<lambda>e s' _. tidied s s' \<and> cancelled_orders s' = cancelled_orders s \<and> processed s' = processed s) w s n"
  unfolding flush_def
proof (rule wpi_atomically)
  show "wp (bindT (query FStorage (\<lambda>db. take relayBatchSize (sort_key fo_CreatedAt (filter (\<lambda>x. fo_PublishedAt x = None) (foutbox db)))))
       (flush_loop publish))
     (\<lambda>r s' _. case r of
        Commit a \<Rightarrow> \<forall>k::nat. (tidied s s' \<and> cancelled_orders s' = cancelled_orders s \<and> processed s' = processed s) \<and>
          tidied s s' \<and> cancelled_orders s' = cancelled_orders s \<and> processed s' = processed s
      | Discard a \<Rightarrow> \<forall>k::nat. tidied s s \<and> cancelled_orders s = cancelled_orders s \<and> processed s = processed s)
     (\<lambda>e _ _. \<forall>k::nat. tidied s s \<and> cancelled_orders s = cancelled_orders s \<and> processed s = processed s) w s (Suc n)"
    unfolding wp_bindT wp_query
    by (auto simp: tidied_refl intro!: wp_mono [OF wp_flush_loop] split: outcome.splits)
qed (simp add: tidied_refl)

section \<open>The machine\<close>

datatype ful_op =
    FPlaced string placed_data
  | FCancel string string
  | FMove "string option" string ticket_status
  | FPurge time
  | FFlush "foutbox_row \<Rightarrow> bool"

fun run_ful :: "(time \<Rightarrow> string) \<Rightarrow> ful_op \<Rightarrow> unit ftx" where
  "run_ful slot_id (FPlaced ev d) = bindT (CreateFromOrderPlaced slot_id ev d) (\<lambda>_. ret ())"
| "run_ful slot_id (FCancel ev oid) = bindT (CancelByOrder ev oid) (\<lambda>_. ret ())"
| "run_ful slot_id (FMove actor oid target) = bindT (UpdateStatus actor oid target) (\<lambda>_. ret ())"
| "run_ful slot_id (FPurge t) = bindT (PurgeExpired t) (\<lambda>_. ret ())"
| "run_ful slot_id (FFlush publish) = bindT (flush publish) (\<lambda>_. ret ())"

text \<open>Runs in which no purge is dated after \<open>T\<close>: any operations, in any order, with any failures.\<close>

inductive ful_steps :: "(time \<Rightarrow> string) \<Rightarrow> time \<Rightarrow> ful_db \<Rightarrow> ful_db \<Rightarrow> bool" for slot_id T s where
  done_step: "ful_steps slot_id T s s"
| next_step: "ful_steps slot_id T s t \<Longrightarrow> (\<And>p. op = FPurge p \<Longrightarrow> p \<le> T) \<Longrightarrow>
    ful_steps slot_id T s (state_of (run_ful slot_id op w t n))"

definition young :: "time \<Rightarrow> ful_db \<Rightarrow> ful_db \<Rightarrow> bool" where
  "young T s s' \<longleftrightarrow> (\<forall>c\<in>set (cancelled_orders s). T - TombstoneRetention \<le> co_CancelledAt c \<longrightarrow> c \<in> set (cancelled_orders s'))"

definition evolves :: "(time \<Rightarrow> string) \<Rightarrow> time \<Rightarrow> ful_db \<Rightarrow> ful_db \<Rightarrow> bool" where
  "evolves slot_id T s s' \<longleftrightarrow> ful_ok slot_id s' \<and> ful_grows s s' \<and> young T s s'"

lemma evolves_refl: "ful_ok slot_id s \<Longrightarrow> evolves slot_id T s s"
  by (simp add: evolves_def young_def)

lemma evolves_trans: "evolves slot_id T s t \<Longrightarrow> evolves slot_id T t u \<Longrightarrow> evolves slot_id T s u"
  by (auto simp: evolves_def young_def intro: ful_grows_trans)

lemma marked_evolves:
  assumes "ful_ok slot_id s" and "marked ev s s'"
  shows "evolves slot_id T s s'"
proof -
  obtain p where s': "s' = s\<lparr>processed := processed s @ [p]\<rparr>" using assms(2) by (auto simp: marked_def)
  have "ful_grows s s'" by (rule ful_grows_same) (simp_all add: s')
  then show ?thesis using assms(1) by (simp add: evolves_def young_def s')
qed

lemma moved_evolves: "ful_ok slot_id s \<Longrightarrow> moved s s' x y \<Longrightarrow> evolves slot_id T s s'"
  unfolding evolves_def young_def using moved_ok moved_grows by (metis moved_def)

lemma opened_evolves: "ful_ok slot_id s \<Longrightarrow> opened slot_id d s s' x \<Longrightarrow> evolves slot_id T s s'"
  unfolding evolves_def young_def using opened_ok opened_grows by (metis opened_def)

lemma buried_evolves:
  assumes ok: "ful_ok slot_id s" and b: "buried oid s s'"
  shows "evolves slot_id T s s'"
proof (cases "s' = s")
  case False
  with b obtain c where c: "find_ticket oid s = None" "co_OrderID c = oid" "s' = s\<lparr>cancelled_orders := cancelled_orders s @ [c]\<rparr>"
    by (auto simp: buried_def)
  have "f_OrderID x \<noteq> oid" if "x \<in> set (tickets s)" for x
    using c(1) that by (auto simp: find_ticket_def find_None_iff_all)
  then have "wf_ticket slot_id s' x" if "x \<in> set (tickets s)" "wf_ticket slot_id s x" for x
    using that unfolding wf_ticket_def by (simp add: c) metis
  then have "ful_ok slot_id s'"
    using ok slots_ok_cong [of s' s] audit_ok_cong [of s' s] outbox_ok_cong [of s' s]
    by (simp add: ful_ok_def tickets_ok_def c(3))
  moreover have "ful_grows s s'" by (rule ful_grows_same) (simp_all add: c(3))
  ultimately show ?thesis by (simp add: evolves_def young_def c(3))
qed (simp add: evolves_refl ok)

lemma tidied_evolves:
  "ful_ok slot_id s \<Longrightarrow> tidied s s' \<Longrightarrow> young T s s' \<Longrightarrow> evolves slot_id T s s'"
  using tidied_ok tidied_grows by (simp add: evolves_def)

lemma placed_evolves:
  "ful_ok slot_id s \<Longrightarrow> placed_true slot_id ev d s s' \<Longrightarrow> evolves slot_id T s s'"
  "ful_ok slot_id s \<Longrightarrow> placed_false ev d w s s' \<Longrightarrow> evolves slot_id T s s'"
proof -
  assume ok: "ful_ok slot_id s" and "placed_true slot_id ev d s s'"
  then obtain s1 x where 1: "marked ev s s1" "opened slot_id d s1 s' x" by (auto simp: placed_true_def)
  from marked_evolves [OF ok 1(1)] have e: "evolves slot_id T s s1" .
  then have "evolves slot_id T s1 s'" using opened_evolves [OF _ 1(2)] by (simp add: evolves_def)
  with e show "evolves slot_id T s s'" by (rule evolves_trans)
qed (auto simp: placed_false_def evolves_refl intro: marked_evolves)

lemma cancelled_evolves:
  assumes ok: "ful_ok slot_id s"
  shows "cancelled_true ev oid s s' \<Longrightarrow> evolves slot_id T s s'" "cancelled_false ev oid s s' \<Longrightarrow> evolves slot_id T s s'"
proof -
  have e: "evolves slot_id T s s1 \<and> ful_ok slot_id s1" if "marked ev s s1" for s1
    using marked_evolves [OF ok that] by (auto simp: evolves_def)
  show "cancelled_true ev oid s s' \<Longrightarrow> evolves slot_id T s s'"
    unfolding cancelled_true_def using e moved_evolves evolves_trans by blast
  show "cancelled_false ev oid s s' \<Longrightarrow> evolves slot_id T s s'"
    unfolding cancelled_false_def using e buried_evolves evolves_trans evolves_refl [OF ok] by blast
qed

lemma run_ful_evolves:
  assumes ok: "ful_ok slot_id s" and purge: "\<And>p. op = FPurge p \<Longrightarrow> p \<le> T"
  shows "evolves slot_id T s (state_of (run_ful slot_id op w s n))"
proof -
  have "wp (run_ful slot_id op) (\<lambda>_ s' _. evolves slot_id T s s') (\<lambda>_ s' _. evolves slot_id T s s') w s n"
  proof (cases op)
    case (FPlaced ev d)
    then show ?thesis
      by (auto simp: wp_rules intro!: wp_mono [OF wp_CreateFromOrderPlaced [OF ok]] split: if_splits
          intro: placed_evolves [OF ok] evolves_refl [OF ok])
  next
    case (FCancel ev oid)
    then show ?thesis
      by (auto simp: wp_rules intro!: wp_mono [OF wp_CancelByOrder [OF ok]] split: if_splits
          intro: cancelled_evolves [OF ok] evolves_refl [OF ok])
  next
    case (FMove actor oid target)
    have "advanced s s' oid target y \<Longrightarrow> evolves slot_id T s s'" for s' y
      using moved_evolves [OF ok] by (auto simp: advanced_def)
    with FMove show ?thesis
      by (auto simp: wp_rules intro!: wp_mono [OF wp_UpdateStatus [OF ok]] intro: evolves_refl [OF ok])
  next
    case (FPurge t)
    have "young T s s'" if "kept_young t s s'" for s'
      using that purge [OF FPurge] by (auto simp: young_def kept_young_def)
    with FPurge show ?thesis
      by (auto simp: wp_rules intro!: wp_mono [OF wp_PurgeExpired] tidied_evolves [OF ok])
  next
    case (FFlush publish)
    then show ?thesis
      by (auto simp: wp_rules young_def intro!: wp_mono [OF wp_flush] tidied_evolves [OF ok])
  qed
  then show ?thesis by (simp add: wp_state)
qed

lemma ful_steps_evolves: "ful_steps slot_id T s t \<Longrightarrow> ful_ok slot_id s \<Longrightarrow> evolves slot_id T s t"
proof (induction rule: ful_steps.induct)
  case done_step
  then show ?case by (rule evolves_refl)
next
  case (next_step t op w n)
  then have t: "evolves slot_id T s t" by simp
  then have "ful_ok slot_id t" by (simp add: evolves_def)
  from evolves_trans [OF t run_ful_evolves [OF this]] next_step.hyps(2) show ?case by blast
qed

end
