(* ===== verification/Fulfillment_Consumer.thy ===== *)
theory Fulfillment_Consumer
  imports Fulfillment_Machine
begin

text \<open>
  The consumer of order events (\<open>messaging/consumer.go\<close>, \<open>events/events.go\<close>): decoding, dispatch,
  and what happens to a delivery that fails. Decoding JSON is a parameter (\<open>codec\<close>): the envelope
  and the two payloads, \<open>None\<close> when the text does not decode.
\<close>

section \<open>Envelopes\<close>

record raw_envelope =
  rw_SpecVersion :: string
  rw_ID :: string
  rw_Type :: string
  rw_Data :: string

record codec =
  j_Envelope :: "string \<Rightarrow> raw_envelope option"
  j_Placed :: "string \<Rightarrow> placed_data option"
  j_Cancelled :: "string \<Rightarrow> string option" \<comment> \<open>the order id of an \<open>order.cancelled\<close> payload\<close>

definition SpecVersion :: string where "SpecVersion = ''1.0''"
definition TypeOrderPlaced :: string where "TypeOrderPlaced = ''com.gelatoflow.order.placed.v1''"
definition TypeOrderCancelled :: string where "TypeOrderCancelled = ''com.gelatoflow.order.cancelled.v1''"

definition Parse :: "codec \<Rightarrow> string \<Rightarrow> raw_envelope option" where
  "Parse c body = (case j_Envelope c body of
     None \<Rightarrow> None
   | Some e \<Rightarrow>
       if rw_SpecVersion e \<noteq> SpecVersion then None
       else if rw_ID e = uuid_Nil then None
       else if rw_Type e = '''' \<or> length (rw_Data e) = 0 then None
       else Some e)"

section \<open>Dispatch\<close>

datatype derror = Malformed | Store ferror

text \<open>The result is Go's \<open>(retry, err)\<close>.\<close>

type_synonym dispatcher = "world \<Rightarrow> ful_db \<Rightarrow> nat \<Rightarrow> (bool \<times> derror option) \<times> ful_db \<times> nat"

definition reject :: dispatcher where
  "reject = (\<lambda>w s n. ((False, Some Malformed), s, n))"

definition apply_event :: "bool ftx \<Rightarrow> dispatcher" where
  "apply_event m = (\<lambda>w s n. case m w s n of
      (Inl e, s', n') \<Rightarrow> ((True, Some (Store e)), s', n')
    | (Inr _, s', n') \<Rightarrow> ((True, None), s', n'))"

definition Dispatch :: "codec \<Rightarrow> (time \<Rightarrow> string) \<Rightarrow> string \<Rightarrow> dispatcher" where
  "Dispatch c slot_id body = (case Parse c body of
     None \<Rightarrow> reject
   | Some env \<Rightarrow>
       if rw_Type env = TypeOrderPlaced then
         (case j_Placed c (rw_Data env) of
            None \<Rightarrow> reject
          | Some d \<Rightarrow>
              if pd_OrderID d = uuid_Nil \<or> pd_PickupAt d = 0 \<or> length (pd_Items d) = 0 then reject
              else apply_event (CreateFromOrderPlaced slot_id (rw_ID env) d))
       else if rw_Type env = TypeOrderCancelled then
         (case j_Cancelled c (rw_Data env) of
            None \<Rightarrow> reject
          | Some oid \<Rightarrow> if oid = uuid_Nil then reject else apply_event (CancelByOrder (rw_ID env) oid))
       else (\<lambda>w s n. ((False, None), s, n)))"

section \<open>Retries\<close>

text \<open>What \<open>errors.As\<close> and the helpers of \<open>pgconn\<close> find out about an error of the database.\<close>

datatype db_failure = ConnectError | CtxDeadline | DriverTimeout | SafeToRetry | PgError string | OtherFailure

definition transient_code :: "string \<Rightarrow> bool" where
  "transient_code c \<longleftrightarrow> take 2 c = ''08'' \<or> take 2 c = ''53'' \<or>
     c \<in> {''57P01'', ''57P02'', ''57P03'', ''40001'', ''40P01''}"

fun IsTransient :: "db_failure \<Rightarrow> derror \<Rightarrow> bool" where
  "IsTransient f (Store FStorage) = (case f of PgError c \<Rightarrow> transient_code c | OtherFailure \<Rightarrow> False | _ \<Rightarrow> True)"
| "IsTransient f _ = False"

datatype header_value = HInt int | HOther string

type_synonym headers = "(string \<times> header_value) list"

definition retryCountHeader :: string where "retryCountHeader = ''x-retry-count''"
definition maxRetries :: int where "maxRetries = 5"
definition baseRetryDelay :: int where "baseRetryDelay = Second"
definition maxTransientDelay :: int where "maxTransientDelay = Minute"

definition retryCount :: "headers \<Rightarrow> int" where
  "retryCount hs = (case map_of hs retryCountHeader of Some (HInt v) \<Rightarrow> v | _ \<Rightarrow> 0)"

text \<open>\<open>baseRetryDelay << n\<close> on 64 bits; Go panics when the shift count is negative.\<close>

definition shift_delay :: "int \<Rightarrow> int option" where
  "shift_delay n = (if n < 0 then None else Some (i64 (baseRetryDelay * 2 ^ nat n)))"

text \<open>The next count, the delay and whether retries are exhausted; \<open>None\<close> is a panic.\<close>

definition retryPlan :: "headers \<Rightarrow> bool \<Rightarrow> (int \<times> int \<times> bool) option" where
  "retryPlan hs transient = (let n = retryCount hs in
     if transient then
       (if n < 16
        then (case shift_delay n of None \<Rightarrow> None | Some d \<Rightarrow> Some (i64 (n + 1), min d maxTransientDelay, False))
        else Some (i64 (n + 1), maxTransientDelay, False))
     else if n \<ge> maxRetries then Some (n, 0, True)
     else (case shift_delay n of None \<Rightarrow> None | Some d \<Rightarrow> Some (i64 (n + 1), d, False)))"

record delivery =
  dl_Body :: string
  dl_ContentType :: string
  dl_Headers :: headers

text \<open>The copy that is parked in the retry queue, with its time to live in milliseconds.\<close>

record retry_message =
  rm_Headers :: headers
  rm_ContentType :: string
  rm_Expiration :: string
  rm_Body :: string

datatype broker_action = Ack | Nack bool | PublishRetry retry_message bool \<comment> \<open>confirmed by the broker?\<close>

definition plain_headers :: "headers \<Rightarrow> headers" where
  "plain_headers hs = filter (\<lambda>(k, v). take 2 k \<noteq> ''x-'') hs"

text \<open>Go's conversion to \<open>int32\<close>.\<close>

definition int32_of :: "int \<Rightarrow> int" where
  "int32_of x = (x + 2 ^ 31) mod 2 ^ 32 - 2 ^ 31"

definition retry_copy :: "delivery \<Rightarrow> int \<Rightarrow> int \<Rightarrow> retry_message" where
  "retry_copy d next_count delay = \<lparr>rm_Headers = (retryCountHeader, HInt (int32_of next_count)) # plain_headers (dl_Headers d),
     rm_ContentType = dl_ContentType d, rm_Expiration = show_digits (nat (quot delay 1000000)), rm_Body = dl_Body d\<rparr>"

text \<open>
  One delivery: \<open>f\<close> classifies a failure of the database, \<open>confirmed\<close> says whether the broker
  confirms the copy. The result lists what the consumer tells the broker, in order; \<open>None\<close> is a
  panic.
\<close>

definition handleDelivery :: "codec \<Rightarrow> (time \<Rightarrow> string) \<Rightarrow> db_failure \<Rightarrow> bool \<Rightarrow> delivery \<Rightarrow> world \<Rightarrow> ful_db \<Rightarrow>
    broker_action list option \<times> ful_db" where
  "handleDelivery c slot_id f confirmed d w s =
     (case Dispatch c slot_id (dl_Body d) w s 0 of ((retry, err), s', _) \<Rightarrow>
        (case err of
           None \<Rightarrow> Some [Ack]
         | Some e \<Rightarrow>
             if \<not> retry then Some [Nack False]
             else (case retryPlan (dl_Headers d) (IsTransient f e) of
                 None \<Rightarrow> None
               | Some (next_count, delay, exhausted) \<Rightarrow>
                   if exhausted then Some [Nack False]
                   else if \<not> confirmed then Some [PublishRetry (retry_copy d next_count delay) False, Nack True]
                   else Some [PublishRetry (retry_copy d next_count delay) True, Ack]), s'))"

section \<open>The plan of a retry\<close>

lemma retryCount_copy: "retryCount (rm_Headers (retry_copy d k delay)) = int32_of k"
  by (simp add: retryCount_def retry_copy_def)

lemma int32_of_id: "0 \<le> k \<Longrightarrow> k \<le> MaxInt32 \<Longrightarrow> int32_of k = k"
  by (simp add: int32_of_def MaxInt32_def)

lemma pow_small: "k < 16 \<Longrightarrow> (2::int) ^ k \<le> 2 ^ 15"
  by (rule power_increasing) auto

lemma shift_small:
  assumes "0 \<le> n" and "n < 16"
  shows "shift_delay n = Some (baseRetryDelay * 2 ^ nat n)"
proof -
  have "baseRetryDelay * 2 ^ nat n \<le> Second * 2 ^ 15"
    using pow_small [of "nat n"] assms by (simp add: baseRetryDelay_def)
  moreover have "0 \<le> baseRetryDelay * 2 ^ nat n" by (simp add: baseRetryDelay_def)
  ultimately have "i64 (baseRetryDelay * 2 ^ nat n) = baseRetryDelay * 2 ^ nat n"
    by (intro i64_id) (simp_all add: MaxInt64_def)
  then show ?thesis using assms by (simp add: shift_delay_def)
qed

lemma retryPlan_transient:
  assumes "0 \<le> retryCount hs" and "retryCount hs < MaxInt64"
  shows "\<exists>delay. retryPlan hs True = Some (retryCount hs + 1, delay, False) \<and> Second \<le> delay \<and> delay \<le> Minute"
proof -
  have n: "i64 (retryCount hs + 1) = retryCount hs + 1" using assms by (intro i64_id) (simp_all add: MaxInt64_def)
  have "(1::int) \<le> 2 ^ nat (retryCount hs)" by simp
  then have "Second \<le> baseRetryDelay * 2 ^ nat (retryCount hs)" by (simp add: baseRetryDelay_def)
  then show ?thesis
    using assms n shift_small [of "retryCount hs"] by (simp add: retryPlan_def Let_def maxTransientDelay_def)
qed

lemma retryPlan_other:
  assumes "0 \<le> retryCount hs"
  shows "retryPlan hs False =
    (if retryCount hs < maxRetries then Some (retryCount hs + 1, Second * 2 ^ nat (retryCount hs), False)
     else Some (retryCount hs, 0, True))"
proof -
  have "i64 (retryCount hs + 1) = retryCount hs + 1" if "retryCount hs < maxRetries"
    using assms that by (intro i64_id) (simp_all add: MaxInt64_def maxRetries_def)
  then show ?thesis
    using assms shift_small [of "retryCount hs"] by (auto simp: retryPlan_def Let_def maxRetries_def baseRetryDelay_def)
qed

section \<open>Deliveries of one message\<close>

text \<open>
  A message that fails comes back: as its copy once the copy's time to live is over, or as itself
  when it was requeued. \<open>redeliver\<close> follows it through a list of environments, one per delivery.
\<close>

datatype fate = Applied | DeadLettered | Pending delivery | Crashed

definition copy_of :: "retry_message \<Rightarrow> delivery" where
  "copy_of m = \<lparr>dl_Body = rm_Body m, dl_ContentType = rm_ContentType m, dl_Headers = rm_Headers m\<rparr>"

fun redeliver :: "codec \<Rightarrow> (time \<Rightarrow> string) \<Rightarrow> (db_failure \<times> bool \<times> world) list \<Rightarrow> delivery \<Rightarrow> ful_db \<Rightarrow> fate \<times> ful_db" where
  "redeliver c slot_id [] d s = (Pending d, s)"
| "redeliver c slot_id ((f, confirmed, w) # es) d s =
     (case handleDelivery c slot_id f confirmed d w s of
        (None, s') \<Rightarrow> (Crashed, s')
      | (Some [Ack], s') \<Rightarrow> (Applied, s')
      | (Some [PublishRetry m b, a], s') \<Rightarrow> redeliver c slot_id es (if b then copy_of m else d) s'
      | (Some _, s') \<Rightarrow> (DeadLettered, s'))"

text \<open>A message the service can read.\<close>

definition readable :: "codec \<Rightarrow> string \<Rightarrow> bool" where
  "readable c body \<longleftrightarrow> (case Parse c body of None \<Rightarrow> False
   | Some env \<Rightarrow>
       (rw_Type env = TypeOrderPlaced \<longrightarrow> (case j_Placed c (rw_Data env) of None \<Rightarrow> False
          | Some d \<Rightarrow> pd_OrderID d \<noteq> uuid_Nil \<and> pd_PickupAt d \<noteq> 0 \<and> pd_Items d \<noteq> [])) \<and>
       (rw_Type env = TypeOrderCancelled \<longrightarrow> (case j_Cancelled c (rw_Data env) of None \<Rightarrow> False | Some oid \<Rightarrow> oid \<noteq> uuid_Nil)))"

lemma only_storage:
  assumes "ful_ok slot_id s"
  shows "result_of (CreateFromOrderPlaced slot_id ev d w s n) = Inl e \<Longrightarrow> e = FStorage"
    "result_of (CancelByOrder ev oid w s n) = Inl e \<Longrightarrow> e = FStorage"
  using wp_CreateFromOrderPlaced [OF assms, of ev d w n] wp_CancelByOrder [OF assms, of ev oid w n]
  by (simp_all add: wp_result)

text \<open>A readable message is applied, or fails in the database.\<close>

lemma Dispatch_cases:
  assumes ok: "ful_ok slot_id s" and "readable c body"
  shows "\<exists>r s' n'. Dispatch c slot_id body w s n = (r, s', n') \<and> ful_ok slot_id s' \<and>
    (snd r = None \<or> r = (True, Some (Store FStorage)))"
proof -
  have create: "ful_ok slot_id (state_of (CreateFromOrderPlaced slot_id ev d w s n))" for ev d
    using run_ful_evolves [OF ok, of "FPlaced ev d" 0 w n] by (simp add: evolves_def tx_defs split: prod.splits sum.splits)
  have cancel: "ful_ok slot_id (state_of (CancelByOrder ev oid w s n))" for ev oid
    using run_ful_evolves [OF ok, of "FCancel ev oid" 0 w n] by (simp add: evolves_def tx_defs split: prod.splits sum.splits)
  have "\<exists>r s' n'. apply_event m w s n = (r, s', n') \<and> ful_ok slot_id s' \<and> (snd r = None \<or> r = (True, Some (Store FStorage)))"
    if "ful_ok slot_id (state_of (m w s n))" "\<And>e. result_of (m w s n) = Inl e \<Longrightarrow> e = FStorage" for m
    using that by (cases "m w s n") (auto simp: apply_event_def state_of_def result_of_def split: sum.split)
  with create cancel only_storage [OF ok] ok assms(2) show ?thesis
    unfolding Dispatch_def readable_def by (auto split: option.splits if_splits)
qed

definition lasting :: "db_failure \<Rightarrow> bool" where
  "lasting f \<longleftrightarrow> \<not> IsTransient f (Store FStorage)"

text \<open>While the database is away, a readable message is never lost.\<close>

lemma redeliver_transient:
  assumes "ful_ok slot_id s" and "readable c (dl_Body d)" and "\<forall>e\<in>set es. \<not> lasting (fst e)"
    and "0 \<le> retryCount (dl_Headers d)" and "retryCount (dl_Headers d) + int (length es) \<le> MaxInt32"
  shows "\<exists>s'. redeliver c slot_id es d s = (Applied, s') \<or>
    (\<exists>d'. redeliver c slot_id es d s = (Pending d', s') \<and> dl_Body d' = dl_Body d)"
  using assms
proof (induction es arbitrary: d s)
  case (Cons e es)
  obtain f confirmed w where e: "e = (f, confirmed, w)" by (cases e)
  obtain r s' n' where r: "Dispatch c slot_id (dl_Body d) w s 0 = (r, s', n')" "ful_ok slot_id s'"
    "snd r = None \<or> r = (True, Some (Store FStorage))" using Dispatch_cases [OF Cons.prems(1,2)] by blast
  show ?case
  proof (cases "snd r = None")
    case True
    then show ?thesis by (cases r) (simp add: e handleDelivery_def r(1))
  next
    case False
    then have fail: "r = (True, Some (Store FStorage))" using r(3) by metis
    have "retryCount (dl_Headers d) < MaxInt64"
      using Cons.prems(5) by (simp add: MaxInt32_def MaxInt64_def)
    from retryPlan_transient [OF Cons.prems(4) this] obtain delay where
      plan: "retryPlan (dl_Headers d) True = Some (retryCount (dl_Headers d) + 1, delay, False)" by blast
    have tr: "IsTransient f (Store FStorage)" using Cons.prems(3) by (simp add: e lasting_def)
    let ?m = "retry_copy d (retryCount (dl_Headers d) + 1) delay"
    have body: "dl_Body (copy_of ?m) = dl_Body d" by (simp add: copy_of_def retry_copy_def)
    have "retryCount (dl_Headers (copy_of ?m)) = retryCount (dl_Headers d) + 1"
      using Cons.prems(4,5) int32_of_id by (simp add: copy_of_def retryCount_copy)
    then have "\<exists>s''. redeliver c slot_id es (copy_of ?m) s' = (Applied, s'') \<or>
        (\<exists>d'. redeliver c slot_id es (copy_of ?m) s' = (Pending d', s'') \<and> dl_Body d' = dl_Body d)"
      using Cons.IH [of s' "copy_of ?m"] Cons.prems body r(2) by simp
    moreover have "\<exists>s''. redeliver c slot_id es d s' = (Applied, s'') \<or>
        (\<exists>d'. redeliver c slot_id es d s' = (Pending d', s'') \<and> dl_Body d' = dl_Body d)"
      using Cons.IH [of s' d] Cons.prems r(2) by simp
    ultimately show ?thesis
      using tr plan by (cases confirmed) (simp_all add: e handleDelivery_def r(1) fail)
  qed
qed simp

text \<open>A failure that does not pass is given up after five copies.\<close>

lemma redeliver_lasting:
  assumes "ful_ok slot_id s" and "readable c (dl_Body d)" and "\<forall>e\<in>set es. lasting (fst e) \<and> fst (snd e)"
    and "0 \<le> retryCount (dl_Headers d)" and "maxRetries < retryCount (dl_Headers d) + int (length es)"
    and "es \<noteq> []"
  shows "\<exists>s'. redeliver c slot_id es d s = (Applied, s') \<or> redeliver c slot_id es d s = (DeadLettered, s')"
  using assms
proof (induction es arbitrary: d s)
  case (Cons e es)
  obtain f w where e: "e = (f, True, w)" using Cons.prems(3) by (cases e) auto
  obtain r s' n' where r: "Dispatch c slot_id (dl_Body d) w s 0 = (r, s', n')" "ful_ok slot_id s'"
    "snd r = None \<or> r = (True, Some (Store FStorage))" using Dispatch_cases [OF Cons.prems(1,2)] by blast
  show ?case
  proof (cases "snd r = None")
    case True
    then show ?thesis by (cases r) (simp add: e handleDelivery_def r(1))
  next
    case False
    then have fail: "r = (True, Some (Store FStorage))" using r(3) by metis
    have tr: "\<not> IsTransient f (Store FStorage)" using Cons.prems(3) by (simp add: e lasting_def)
    let ?n = "retryCount (dl_Headers d)"
    let ?m = "retry_copy d (?n + 1) (Second * 2 ^ nat ?n)"
    have next_one: "\<exists>s''. redeliver c slot_id es (copy_of ?m) s' = (Applied, s'') \<or> redeliver c slot_id es (copy_of ?m) s' = (DeadLettered, s'')"
      if n: "?n < maxRetries"
    proof -
      have count: "retryCount (dl_Headers (copy_of ?m)) = ?n + 1"
        using Cons.prems(4) n int32_of_id [of "?n + 1"] by (simp add: copy_of_def retryCount_copy maxRetries_def MaxInt32_def)
      moreover have "es \<noteq> []" using Cons.prems(5) n by auto
      moreover have "dl_Body (copy_of ?m) = dl_Body d" by (simp add: copy_of_def retry_copy_def)
      ultimately show ?thesis using Cons.IH [of s' "copy_of ?m"] Cons.prems r(2) by auto
    qed
    then show ?thesis
      using tr retryPlan_other [OF Cons.prems(4)]
      by (cases "?n < maxRetries") (auto simp: e handleDelivery_def r(1) fail)
  qed
qed simp

end
