(* ===== verification/Fulfillment_Props.thy ===== *)
theory Fulfillment_Props
  imports Fulfillment_Consumer
begin

text \<open>
  The properties of the fulfillment service, with a small kitchen on which they are exercised:
  two orders for the same slot, one of them cancelled, the other prepared.
\<close>

section \<open>Queue numbers as text\<close>

definition digit_value :: "char \<Rightarrow> nat" where
  "digit_value c = of_char c - 48"

definition read_digits :: "string \<Rightarrow> nat" where
  "read_digits s = foldl (\<lambda>acc c. 10 * acc + digit_value c) 0 s"

lemma digit_value_char: "d < 10 \<Longrightarrow> digit_value (digit_char d) = d"
proof -
  have "\<forall>d\<in>{0..<10}. digit_value (digit_char d) = d"
    by (simp add: digit_value_def digit_char_def numeral_eq_Suc atLeastLessThanSuc)
  then show "d < 10 \<Longrightarrow> digit_value (digit_char d) = d" by simp
qed

lemma read_show_digits: "read_digits (show_digits n) = n"
proof (induction n rule: show_digits.induct)
  case (1 n)
  show ?case
  proof (cases "n < 10")
    case True
    then show ?thesis by (subst show_digits.simps) (simp add: read_digits_def digit_value_char)
  next
    case False
    with 1 have "read_digits (show_digits (n div 10)) = n div 10" by simp
    with False show ?thesis by (subst show_digits.simps) (simp add: read_digits_def digit_value_char)
  qed
qed

lemma read_queue_text: "0 \<le> n \<Longrightarrow> int (read_digits (queue_text n)) = n"
  using read_show_digits [of "nat n"]
  by (simp add: queue_text_def Let_def read_digits_def digit_value_def)

lemma queue_text_inj: "0 \<le> m \<Longrightarrow> 0 \<le> n \<Longrightarrow> queue_text m = queue_text n \<Longrightarrow> m = n"
  using read_queue_text by metis

section \<open>A kitchen\<close>

definition kslot :: "time \<Rightarrow> string" where
  "kslot t = ''slot-'' @ show_digits (nat (t div SlotLength))"

definition kworld :: "nat \<Rightarrow> world" where
  "kworld k = \<lparr>w_fails = (\<lambda>_. False), w_applied = (\<lambda>_. False), w_clock = (\<lambda>_. 1000),
     w_uuid = (\<lambda>n. show_digits k @ ''-'' @ show_digits n)\<rparr>"

definition korder :: "string \<Rightarrow> placed_data" where
  "korder i = \<lparr>pd_OrderID = i, pd_CustomerID = ''alice'', pd_PickupAt = 100 * SlotLength + 7,
     pd_Items = [\<lparr>ki_FlavorID = ''vanilla'', ki_FlavorName = ''Vanilla'', ki_Portions = 2\<rparr>]\<rparr>"

definition kitchen1 :: ful_db where
  "kitchen1 = state_of (run_ful kslot (FPlaced ''e1'' (korder ''A'')) (kworld 1) empty_ful 0)"

definition kitchen2 :: ful_db where
  "kitchen2 = state_of (run_ful kslot (FPlaced ''e2'' (korder ''B'')) (kworld 2) kitchen1 0)"

definition kitchen3 :: ful_db where
  "kitchen3 = state_of (run_ful kslot (FMove (Some ''staff'') ''A'' Preparing) (kworld 3) kitchen2 0)"

lemma kitchen_steps:
  "ful_steps kslot T empty_ful kitchen1" "ful_steps kslot T empty_ful kitchen2" "ful_steps kslot T empty_ful kitchen3"
proof -
  show 1: "ful_steps kslot T empty_ful kitchen1"
    unfolding kitchen1_def by (rule next_step) (auto intro: done_step)
  show 2: "ful_steps kslot T empty_ful kitchen2"
    unfolding kitchen2_def by (rule next_step [OF 1]) auto
  show "ful_steps kslot T empty_ful kitchen3"
    unfolding kitchen3_def by (rule next_step [OF 2]) auto
qed

lemma kitchen_ok: "ful_ok kslot kitchen1" "ful_ok kslot kitchen2" "ful_ok kslot kitchen3"
  using kitchen_steps [of 0, THEN ful_steps_evolves, OF empty_ful_ok] by (simp_all add: evolves_def)

lemma kitchen2_tickets: "map (\<lambda>x. (f_OrderID x, f_QueueNumber x)) (tickets kitchen2) = [(''A'', ''01''), (''B'', ''02'')]"
  by code_simp

lemma reach_ful: "ful_steps slot_id T empty_ful s \<Longrightarrow> ful_ok slot_id s"
  using ful_steps_evolves [OF _ empty_ful_ok] by (simp add: evolves_def)

section \<open>Tickets\<close>

text \<open>
  C10. Queue numbers are dense, in order of arrival and unique. In every state the kitchen reaches,
  the tickets of a slot have the sequence numbers 1, 2, 3, .. in the order in which they were
  created, up to the counter of the slot, which stays within 32 bits; the printed queue numbers
  are these numbers, and no two tickets of a slot print the same one. A number taken by a
  transaction that failed is not lost.
\<close>

theorem queue_numbers:
  assumes "ful_steps slot_id T empty_ful s" and "r \<in> set (slots s)"
  shows "map f_QueueSeq (slot_tickets s (sl_ID r)) = [1..sl_NextQueue r - 1] \<and>
    map f_QueueNumber (slot_tickets s (sl_ID r)) = map queue_text [1..sl_NextQueue r - 1] \<and>
    distinct (map f_QueueNumber (slot_tickets s (sl_ID r))) \<and> sl_NextQueue r \<le> MaxInt32"
proof -
  have ok: "ful_ok slot_id s" using reach_ful [OF assms(1)] .
  then have slot: "map f_QueueSeq (slot_tickets s (sl_ID r)) = [1..sl_NextQueue r - 1]" "sl_NextQueue r \<le> MaxInt32"
    using assms(2) by (auto simp: ful_ok_def slots_ok_def wf_slot_def)
  have "map f_QueueNumber (slot_tickets s (sl_ID r)) = map queue_text (map f_QueueSeq (slot_tickets s (sl_ID r)))"
    using ok by (auto simp: ful_ok_def tickets_ok_def wf_ticket_def slot_tickets_def)
  then have printed: "map f_QueueNumber (slot_tickets s (sl_ID r)) = map queue_text [1..sl_NextQueue r - 1]"
    by (simp only: slot(1))
  moreover have "distinct (map queue_text [1..sl_NextQueue r - 1])"
    by (auto simp: distinct_map inj_on_def intro: queue_text_inj)
  ultimately show ?thesis using slot by simp
qed

theorem queue_numbers_witness:
  "map f_QueueSeq (slot_tickets kitchen2 (sl_ID (hd (slots kitchen2)))) = [1, 2] \<and>
   distinct (map f_QueueNumber (slot_tickets kitchen2 (sl_ID (hd (slots kitchen2)))))"
proof -
  have r: "hd (slots kitchen2) \<in> set (slots kitchen2)" "[1..sl_NextQueue (hd (slots kitchen2)) - 1] = [1, 2]" by code_simp+
  show ?thesis using queue_numbers [OF kitchen_steps(2) r(1), unfolded r(2)] by blast
qed

text \<open>
  C11. The kitchen's audit log is complete. In every state the kitchen reaches, the log of a ticket
  starts with its creation as \<open>QUEUED\<close>, each entry continues where the one before ended, along an
  edge the service allows, and the last entry is the status the ticket has; every entry belongs to
  a ticket.
\<close>

theorem audit_complete:
  assumes "ful_steps slot_id T empty_ful s"
  shows "(\<forall>x\<in>set (tickets s). trail_ok (trail s (f_ID x)) (f_Status x)) \<and>
    h_FulfillmentID ` set (history s) \<subseteq> f_ID ` set (tickets s)"
  using reach_ful [OF assms] by (simp add: ful_ok_def audit_ok_def)

theorem audit_complete_witness:
  "map h_NewStatus (trail kitchen3 (f_ID (hd (tickets kitchen3)))) = [Queued, Preparing] \<and>
   trail_ok (trail kitchen3 (f_ID (hd (tickets kitchen3)))) Preparing"
proof -
  have "hd (tickets kitchen3) \<in> set (tickets kitchen3)" "f_Status (hd (tickets kitchen3)) = Preparing"
    "map h_NewStatus (trail kitchen3 (f_ID (hd (tickets kitchen3)))) = [Queued, Preparing]" by code_simp+
  with audit_complete [OF kitchen_steps(3)] show ?thesis by metis
qed

text \<open>
  Every outcome of \<open>CreateFromOrderPlaced\<close>. From any state the kitchen reaches: an answer of
  true means one new ticket, \<open>QUEUED\<close>, for an order that had none; an answer of false leaves the
  tickets as they were, and then the event was handled before, the order was cancelled before, or
  it has its ticket already: a paid order is never dropped because of a clash of queue numbers
  (fresh UUIDs provided). An error is a database error, and what it leaves is one of these or
  nothing at all.
\<close>

theorem ticket_per_order:
  assumes "ful_steps slot_id T empty_ful s" and "\<not> drawn_before w s"
    and "CreateFromOrderPlaced slot_id ev d w s n = (res, s', n')"
  shows "(res = Inr True \<longrightarrow> find_ticket (pd_OrderID d) s = None \<and>
      (\<exists>x. tickets s' = tickets s @ [x] \<and> f_OrderID x = pd_OrderID d \<and> f_Status x = Queued \<and> f_Items x = pd_Items d)) \<and>
    (res = Inr False \<longrightarrow> tickets s' = tickets s \<and>
      (ev \<in> pe_EventID ` set (processed s) \<or> pd_OrderID d \<in> co_OrderID ` set (cancelled_orders s) \<or>
       find_ticket (pd_OrderID d) s \<noteq> None)) \<and>
    (\<forall>e. res = Inl e \<longrightarrow> e = FStorage \<and> (tickets s' = tickets s \<or> (\<exists>x. tickets s' = tickets s @ [x] \<and> f_OrderID x = pd_OrderID d)))"
proof -
  have new: "find_ticket (pd_OrderID d) s = None \<and>
      (\<exists>x. tickets s' = tickets s @ [x] \<and> f_OrderID x = pd_OrderID d \<and> f_Status x = Queued \<and> f_Items x = pd_Items d)"
    if pt: "placed_true slot_id ev d s s'"
  proof -
    obtain s1 x where "marked ev s s1" "opened slot_id d s1 s' x" using pt by (auto simp: placed_true_def)
    then have t: "tickets s1 = tickets s" "tickets s' = tickets s1 @ [x]" "f_OrderID x = pd_OrderID d" "f_Status x = Queued"
      "f_Items x = pd_Items d" "f_OrderID x \<notin> f_OrderID ` set (tickets s1)"
      unfolding marked_def opened_def by auto
    then have "find_ticket (pd_OrderID d) s = None" unfolding find_ticket_def find_key_None by metis
    with t show ?thesis by auto
  qed
  have old: "tickets s' = tickets s \<and> (ev \<in> pe_EventID ` set (processed s) \<or>
      pd_OrderID d \<in> co_OrderID ` set (cancelled_orders s) \<or> find_ticket (pd_OrderID d) s \<noteq> None)"
    if "placed_false ev d w s s'" using that assms(2) by (auto simp: placed_false_def marked_def)
  have "case res of Inl e \<Rightarrow> e = FStorage \<and> (s' = s \<or> placed_true slot_id ev d s s' \<or> placed_false ev d w s s')
      | Inr b \<Rightarrow> if b then placed_true slot_id ev d s s' else placed_false ev d w s s'"
    using wp_CreateFromOrderPlaced [OF reach_ful [OF assms(1)], of ev d w n] assms(3) by (cases res) (simp_all add: wp_def)
  then show ?thesis
    using new old by (cases res) (auto split: if_splits)
qed

theorem ticket_per_order_witness:
  "\<exists>x. tickets kitchen2 = tickets kitchen1 @ [x] \<and> f_OrderID x = ''B'' \<and> f_Status x = Queued \<and> ki_Portions (hd (f_Items x)) = 2"
proof -
  have "\<forall>x\<in>set (tickets kitchen1). hd (f_ID x) = CHR ''1''" by code_simp
  moreover have "hd (w_uuid (kworld 2) n) = CHR ''2''" for n
    by (simp add: kworld_def show_digits.simps [of 2] digit_char_def)
  moreover have "CHR ''1'' \<noteq> CHR ''2''" by simp
  ultimately have "\<not> drawn_before (kworld 2) kitchen1" unfolding drawn_before_def by (metis imageE)
  moreover obtain res n' where run: "CreateFromOrderPlaced kslot ''e2'' (korder ''B'') (kworld 2) kitchen1 0 = (res, kitchen2, n')"
  proof -
    have "state_of (CreateFromOrderPlaced kslot ''e2'' (korder ''B'') (kworld 2) kitchen1 0) = kitchen2"
      by (simp add: kitchen2_def tx_defs split: prod.split sum.split)
    then show ?thesis
      by (cases "CreateFromOrderPlaced kslot ''e2'' (korder ''B'') (kworld 2) kitchen1 0") (auto intro: that)
  qed
  moreover have "result_of (CreateFromOrderPlaced kslot ''e2'' (korder ''B'') (kworld 2) kitchen1 0) = Inr True" by code_simp
  ultimately show ?thesis
    using ticket_per_order [OF kitchen_steps(1), of "kworld 2" "''e2''" "korder ''B''" 0 res kitchen2 n']
    by (auto simp: korder_def)
qed

section \<open>Cancelled orders\<close>

text \<open>
  What a cancellation leaves of an order: a tombstone that no purge up to \<open>T\<close> removes if the order had no
  ticket in \<open>s\<close>, else its ticket, out of the kitchen, and cancelled if it was still being worked on.
\<close>

definition ended :: "time \<Rightarrow> string \<Rightarrow> ful_db \<Rightarrow> ful_db \<Rightarrow> bool" where
  "ended T oid s s' \<longleftrightarrow> (case find_ticket oid s of
     None \<Rightarrow> \<exists>c\<in>set (cancelled_orders s'). co_OrderID c = oid \<and> T - TombstoneRetention \<le> co_CancelledAt c
   | Some x \<Rightarrow> \<exists>y\<in>set (tickets s'). f_OrderID y = oid \<and> \<not> IsCancellable (f_Status y) \<and> (IsCancellable (f_Status x) \<longrightarrow> f_Status y = TCancelled))"

lemma ended_evolves:
  assumes "ended T oid s t" "evolves slot_id T t t'"
  shows "ended T oid s t'"
proof (cases "find_ticket oid s")
  case None
  then show ?thesis using assms by (auto simp: ended_def evolves_def young_def)
next
  case (Some x)
  have later: "\<not> IsCancellable st' \<and> (st = TCancelled \<longrightarrow> st' = TCancelled)" if "ticket_later st st'" "\<not> IsCancellable st" for st st'
    using that by (cases st; cases st') (auto simp: IsCancellable_def)
  obtain y where y: "y \<in> set (tickets t)" "f_OrderID y = oid" "\<not> IsCancellable (f_Status y)" "IsCancellable (f_Status x) \<longrightarrow> f_Status y = TCancelled"
    using assms(1) Some by (auto simp: ended_def)
  moreover obtain z where "z \<in> set (tickets t')" "ticket_grows y z"
    using ful_grows_ticket [of t t' y] y(1) assms(2) by (auto simp: evolves_def)
  ultimately show ?thesis unfolding ended_def Some option.case using later unfolding ticket_grows_def by metis
qed

lemma ended_ticket:
  assumes "ful_ok slot_id s'" "ended T oid s s'"
  shows "find_ticket oid s = None \<Longrightarrow> oid \<notin> f_OrderID ` set (tickets s')"
    "find_ticket oid s = Some x \<Longrightarrow> z \<in> set (tickets s') \<Longrightarrow> f_OrderID z = oid \<Longrightarrow>
       \<not> IsCancellable (f_Status z) \<and> (IsCancellable (f_Status x) \<longrightarrow> f_Status z = TCancelled)"
proof -
  show "oid \<notin> f_OrderID ` set (tickets s')" if "find_ticket oid s = None"
  proof -
    have "oid \<in> co_OrderID ` set (cancelled_orders s')" using assms(2) that by (auto simp: ended_def)
    moreover have "f_OrderID x \<notin> co_OrderID ` set (cancelled_orders s')" if "x \<in> set (tickets s')" for x
      using assms(1) that by (simp add: ful_ok_def tickets_ok_def wf_ticket_def)
    ultimately show ?thesis by blast
  qed
  assume x: "find_ticket oid s = Some x" "z \<in> set (tickets s')" "f_OrderID z = oid"
  obtain y where y: "y \<in> set (tickets s')" "f_OrderID y = oid" "\<not> IsCancellable (f_Status y)" "IsCancellable (f_Status x) \<longrightarrow> f_Status y = TCancelled"
    using assms(2) x by (auto simp: ended_def)
  moreover from this have "y = z"
    using distinct_key_eq [of f_OrderID "tickets s'" y z] assms(1) x(2,3) by (simp add: ful_ok_def tickets_ok_def)
  ultimately show "\<not> IsCancellable (f_Status z) \<and> (IsCancellable (f_Status x) \<longrightarrow> f_Status z = TCancelled)" by simp
qed

lemma wp_tombstone:
  assumes "find_ticket oid s = None" and "oid \<notin> co_OrderID ` set (cancelled_orders s)"
  shows "wp (insert_tombstone oid ev) (\<lambda>_ s' _. \<exists>c\<in>set (cancelled_orders s'). co_OrderID c = oid \<and> co_CancelledAt c = w_clock w n)
    (\<lambda>_ _ _. True) w s n"
  using assms by (simp add: insert_tombstone_def wp_rules)

lemma cancel_ends:
  assumes ok: "ful_ok slot_id s" and new: "ev \<notin> pe_EventID ` set (processed s)"
    and tomb: "oid \<notin> co_OrderID ` set (cancelled_orders s)" and clock: "\<And>k. T - TombstoneRetention \<le> w_clock w k"
  shows "wp (CancelByOrder ev oid) (\<lambda>_ s' _. ended T oid s s') (\<lambda>_ _ _. True) w s n"
  unfolding CancelByOrder_def
proof (rule wpi_atomically)
  let ?Q = "\<lambda>r s' (_::nat). case r of Commit (a::bool) \<Rightarrow> \<forall>k::nat. ended T oid s s' \<and> True
    | Discard a \<Rightarrow> \<forall>k::nat. ended T oid s s"
  let ?rest = "\<lambda>r. case r of
      None \<Rightarrow> bindT (insert_tombstone oid ev) (\<lambda>_. ret (Commit False))
    | Some (fid, old) \<Rightarrow> bindT (insert_history fid (Some old) TCancelled None (Some ev)) (\<lambda>_. ret (Commit True))"
  have "wp (bindT (cancel_ticket oid) ?rest) ?Q (\<lambda>_ _ _. \<forall>k::nat. True) w (s\<lparr>processed := p\<rparr>) k" for p k
  proof (cases "\<exists>x. find_ticket oid s = Some x")
    case True
    then obtain x where x: "find_ticket oid s = Some x" by blast
    then have mem: "x \<in> set (tickets s)" "f_OrderID x = oid" using find_ticket_SomeD by auto
    have "wp (bindT (cancel_ticket oid) ?rest)
        (\<lambda>r s' _. case r of
          Commit b \<Rightarrow> if b then \<exists>x y. moved (s\<lparr>processed := p\<rparr>) s' x y \<and> f_OrderID x = oid \<and> f_Status y = TCancelled \<and> foutbox s' = foutbox (s\<lparr>processed := p\<rparr>)
                    else buried oid (s\<lparr>processed := p\<rparr>) s' \<and> (\<forall>x. find_ticket oid (s\<lparr>processed := p\<rparr>) = Some x \<longrightarrow> \<not> IsCancellable (f_Status x))
        | Discard b \<Rightarrow> False) (\<lambda>e _ _. e = FStorage) w (s\<lparr>processed := p\<rparr>) k"
      by (rule wp_cancel_rest) (use ok in simp)
    then show ?thesis
    proof (rule wp_mono)
      fix r s' n'
      assume r: "case r of
          Commit b \<Rightarrow> if b then \<exists>x y. moved (s\<lparr>processed := p\<rparr>) s' x y \<and> f_OrderID x = oid \<and> f_Status y = TCancelled \<and> foutbox s' = foutbox (s\<lparr>processed := p\<rparr>)
                    else buried oid (s\<lparr>processed := p\<rparr>) s' \<and> (\<forall>x. find_ticket oid (s\<lparr>processed := p\<rparr>) = Some x \<longrightarrow> \<not> IsCancellable (f_Status x))
        | Discard b \<Rightarrow> False"
      show "?Q r s' n'"
      proof (cases r)
        case (Commit b)
        show ?thesis
        proof (cases b)
          case True
          with r Commit obtain z y where m: "moved (s\<lparr>processed := p\<rparr>) s' z y" "f_OrderID z = oid" "f_Status y = TCancelled" by auto
          then have "y \<in> set (tickets s')" "f_OrderID y = oid" by (auto simp: moved_def ticket_grows_def)
          with m(3) Commit x show ?thesis by (auto simp: ended_def IsCancellable_def)
        next
          case False
          with r Commit x have "\<not> IsCancellable (f_Status x)" "tickets s' = tickets s" by (auto simp: buried_def)
          with mem Commit x show ?thesis by (auto simp: ended_def)
        qed
      qed (use r in simp)
    qed simp
  next
    case False
    then have none: "find_ticket oid s = None" by (cases "find_ticket oid s") auto
    have f: "find (\<lambda>x. f_OrderID x = oid \<and> (f_Status x = Queued \<or> f_Status x = Preparing)) (tickets s) = None"
      using none by (auto simp: find_ticket_def find_None_iff_all)
    have "wp (insert_tombstone oid ev) (\<lambda>_ s' _. ended T oid s s') (\<lambda>_ _ _. True) w (s\<lparr>processed := p\<rparr>) j" for j
      by (rule wp_mono [OF wp_tombstone]) (use none tomb clock in \<open>auto simp: ended_def\<close>)
    then show ?thesis by (simp add: cancel_ticket_def wp_rules f)
  qed
  then show "wp (bindT (markProcessed ev) (\<lambda>dup. if dup then ret (Discard False)
      else bindT (lockOrder oid) (\<lambda>_. bindT (cancel_ticket oid) ?rest))) ?Q (\<lambda>_ _ _. \<forall>k::nat. True) w s (Suc n)"
    using new unfolding wp_bindT [of "markProcessed ev"]
    by (intro wp_markProcessed) (simp_all add: wp_bindT [of "lockOrder oid"] wp_lockOrder)
qed simp

text \<open>
  C12. A cancelled order is not cooked, whichever event comes first. Let \<open>order.cancelled\<close> be applied to
  an order for the first time. If the order had no ticket, it has none ever after: its tombstone keeps
  \<open>order.placed\<close> from opening one when that arrives late, is delivered again or comes with another event
  id. If it had one, the ticket is never \<open>QUEUED\<close> or \<open>PREPARING\<close> again, and it is \<open>CANCELLED\<close> for good
  if it was one of them. Whatever else happens and fails, as long as no purge is dated more than the
  retention of tombstones after the cancellation.
\<close>

theorem cancelled_not_cooked:
  assumes "ful_steps slot_id T empty_ful s" and "ev \<notin> pe_EventID ` set (processed s)"
    and "oid \<notin> co_OrderID ` set (cancelled_orders s)" and "\<And>k. T - TombstoneRetention \<le> w_clock w k"
    and "CancelByOrder ev oid w s n = (Inr b, s1, n1)" and "ful_steps slot_id T s1 s2"
  shows "(find_ticket oid s = None \<longrightarrow> oid \<notin> f_OrderID ` set (tickets s2)) \<and>
    (\<forall>y\<in>set (tickets s2). f_OrderID y = oid \<longrightarrow> f_Status y \<noteq> Queued \<and> f_Status y \<noteq> Preparing \<and>
       (\<forall>x. find_ticket oid s = Some x \<and> (f_Status x = Queued \<or> f_Status x = Preparing) \<longrightarrow> f_Status y = TCancelled))"
proof -
  have ok: "ful_ok slot_id s" using reach_ful [OF assms(1)] .
  have "ended T oid s s1"
    using wp_runD(1) [OF cancel_ends [OF ok assms(2,3,4)] assms(5)] .
  moreover have "ful_ok slot_id s1"
    using run_ful_evolves [OF ok, of "FCancel ev oid" T w n] assms(5) by (simp add: evolves_def tx_defs)
  ultimately have e: "ended T oid s s2" "ful_ok slot_id s2"
    using ful_steps_evolves [OF assms(6)] ended_evolves by (auto simp: evolves_def)
  show ?thesis
  proof (cases "find_ticket oid s")
    case None
    then show ?thesis using ended_ticket(1) [OF e(2,1)] by force
  next
    case (Some x)
    show ?thesis using ended_ticket(2) [OF e(2,1) Some] Some by (simp add: IsCancellable_def)
  qed
qed

text \<open>Order C is cancelled before it is placed, and order B while its ticket waits.\<close>

definition kitchen4 :: ful_db where
  "kitchen4 = state_of (CancelByOrder ''e3'' ''C'' (kworld 4) kitchen2 0)"

definition kitchen5 :: ful_db where
  "kitchen5 = state_of (run_ful kslot (FPlaced ''e9'' (korder ''C'')) (kworld 5) kitchen4 0)"

definition kitchen6 :: ful_db where
  "kitchen6 = state_of (CancelByOrder ''e4'' ''B'' (kworld 6) kitchen5 0)"

definition kitchen7 :: ful_db where
  "kitchen7 = state_of (run_ful kslot (FPlaced ''e10'' (korder ''B'')) (kworld 7) kitchen6 0)"

lemma kitchen_cancel:
  "\<exists>n. CancelByOrder ''e3'' ''C'' (kworld 4) kitchen2 0 = (Inr False, kitchen4, n)"
  "\<exists>n. CancelByOrder ''e4'' ''B'' (kworld 6) kitchen5 0 = (Inr True, kitchen6, n)"
proof -
  have "result_of (CancelByOrder ''e3'' ''C'' (kworld 4) kitchen2 0) = Inr False"
    "result_of (CancelByOrder ''e4'' ''B'' (kworld 6) kitchen5 0) = Inr True" by code_simp+
  then show "\<exists>n. CancelByOrder ''e3'' ''C'' (kworld 4) kitchen2 0 = (Inr False, kitchen4, n)"
    "\<exists>n. CancelByOrder ''e4'' ''B'' (kworld 6) kitchen5 0 = (Inr True, kitchen6, n)"
    using run_result unfolding kitchen4_def kitchen6_def by blast+
qed

theorem cancelled_not_cooked_witness:
  "''C'' \<notin> f_OrderID ` set (tickets kitchen5) \<and> f_OrderID (last (tickets kitchen7)) = ''B'' \<and> f_Status (last (tickets kitchen7)) = TCancelled"
proof -
  have c: "0 - TombstoneRetention \<le> w_clock (kworld t) k" if "0 \<le> t" for t k using that by (simp add: kworld_def TombstoneRetention_def)
  obtain n m where run: "CancelByOrder ''e3'' ''C'' (kworld 4) kitchen2 0 = (Inr False, kitchen4, n)"
    "CancelByOrder ''e4'' ''B'' (kworld 6) kitchen5 0 = (Inr True, kitchen6, m)" using kitchen_cancel by blast
  have s4: "ful_steps kslot 0 empty_ful kitchen4"
    using next_step [OF kitchen_steps(2), of "FCancel ''e3'' ''C''" 0 "kworld 4" 0] run(1) by (simp add: tx_defs)
  have s5: "ful_steps kslot 0 kitchen4 kitchen5" unfolding kitchen5_def by (rule next_step [OF done_step]) simp
  have s5': "ful_steps kslot 0 empty_ful kitchen5" unfolding kitchen5_def by (rule next_step [OF s4]) simp
  have s7: "ful_steps kslot 0 kitchen6 kitchen7" unfolding kitchen7_def by (rule next_step [OF done_step]) simp
  have e: "''e3'' \<notin> pe_EventID ` set (processed kitchen2)" "''C'' \<notin> co_OrderID ` set (cancelled_orders kitchen2)"
    "''e4'' \<notin> pe_EventID ` set (processed kitchen5)" "''B'' \<notin> co_OrderID ` set (cancelled_orders kitchen5)" by code_simp+
  have f: "find_ticket ''C'' kitchen2 = None" "\<exists>x. find_ticket ''B'' kitchen5 = Some x \<and> f_Status x = Queued"
    by (code_simp, rule exI [of _ "last (tickets kitchen5)"], code_simp)
  have l: "last (tickets kitchen7) \<in> set (tickets kitchen7)" "f_OrderID (last (tickets kitchen7)) = ''B''" by code_simp+
  from cancelled_not_cooked [OF kitchen_steps(2) e(1,2) c run(1) s5] cancelled_not_cooked [OF s5' e(3,4) c run(2) s7] f l
  show ?thesis by fastforce
qed

section \<open>Status changes and events\<close>

text \<open>
  Every branch of \<open>UpdateStatus\<close>. From any state the kitchen reaches: repeating the current
  status changes nothing and succeeds; a move along the lifecycle sets the status and announces
  \<open>READY_FOR_PICKUP\<close> and \<open>PICKED_UP\<close> with exactly one event (\<open>PREPARING\<close> with none) in the same
  transaction; an unknown order and a move that the lifecycle does not have are refused and change
  nothing; a database error leaves nothing or the whole move.
\<close>

theorem update_status:
  assumes "ful_steps slot_id T empty_ful s" and "UpdateStatus actor oid target w s n = (res, s', n')"
  shows "case res of
      Inr y \<Rightarrow> f_Status y = target \<and> f_OrderID y = oid \<and>
        ((s' = s \<and> find_ticket oid s = Some y) \<or> advanced s s' oid target y)
    | Inl FNotFound \<Rightarrow> s' = s \<and> find_ticket oid s = None
    | Inl FInvalidTransition \<Rightarrow> s' = s \<and>
        (\<exists>x. find_ticket oid s = Some x \<and> f_Status x \<noteq> target \<and> \<not> CanTransition (f_Status x) target)
    | Inl FStorage \<Rightarrow> s' = s \<or> (\<exists>y. advanced s s' oid target y)"
proof -
  have "f_OrderID y = oid \<and> f_Status y = target" if "advanced s s' oid target y" for y
    using that find_ticket_SomeD by (fastforce simp: advanced_def moved_def ticket_grows_def)
  moreover have "f_OrderID y = oid" if "find_ticket oid s = Some y" for y using find_ticket_SomeD [OF that] by simp
  ultimately show ?thesis
    using wp_UpdateStatus [OF reach_ful [OF assms(1)], of actor oid target w n] assms(2)
    by (cases res) (auto simp: wp_def split: ferror.split)
qed

theorem update_status_witness:
  "\<exists>y. advanced kitchen2 kitchen3 ''A'' Preparing y"
proof -
  have st: "state_of (UpdateStatus (Some ''staff'') ''A'' Preparing (kworld 3) kitchen2 0) = kitchen3"
    by (simp add: kitchen3_def tx_defs split: prod.split sum.split)
  have "\<exists>y. result_of (UpdateStatus (Some ''staff'') ''A'' Preparing (kworld 3) kitchen2 0) = Inr y"
    by (rule exI [of _ "hd (tickets kitchen3)"]) code_simp
  then obtain y n' where run: "UpdateStatus (Some ''staff'') ''A'' Preparing (kworld 3) kitchen2 0 = (Inr y, kitchen3, n')"
    using run_result st by metis
  have "f_Status (hd (tickets kitchen2)) = Queued" "f_Status (hd (tickets kitchen3)) = Preparing" by code_simp+
  then have "kitchen3 \<noteq> kitchen2" by auto
  with update_status [OF kitchen_steps(2) run] show ?thesis by auto
qed

text \<open>
  Each event is written at most once and never too early. In every state the kitchen reaches,
  the outbox has at most one \<open>order_queued\<close>, one \<open>order_ready\<close> and one \<open>order_picked_up\<close> event per
  order, and an event is there only if the order has a ticket that has reached that point.
\<close>

theorem events_once:
  assumes "ful_steps slot_id T empty_ful s"
  shows "distinct (map row_key (foutbox s)) \<and>
    (\<forall>e\<in>set (foutbox s). \<exists>x\<in>set (tickets s). f_OrderID x = snd (row_key e) \<and> due (fst (row_key e)) (f_Status x))"
  using reach_ful [OF assms] by (simp add: ful_ok_def outbox_ok_def)

theorem events_once_witness:
  "map row_key (foutbox kitchen3) = [(KQueued, ''A''), (KQueued, ''B'')] \<and> distinct (map row_key (foutbox kitchen3))"
proof -
  have "map row_key (foutbox kitchen3) = [(KQueued, ''A''), (KQueued, ''B'')]" by code_simp
  with events_once [OF kitchen_steps(3)] show ?thesis by blast
qed

text \<open>
  The printed queue number can be read back: reading the digits of \<open>queue_text n\<close> gives \<open>n\<close> for
  every number that is not negative.
\<close>

theorem queue_text_roundtrip:
  assumes "0 \<le> n"
  shows "int (read_digits (queue_text n)) = n \<and> 2 \<le> length (queue_text n)"
proof -
  have "show_digits k \<noteq> []" for k by (subst show_digits.simps) simp
  then have "2 \<le> length (queue_text n)"
    by (auto simp: queue_text_def Let_def Suc_le_eq numeral_2_eq_2)
  with read_queue_text [OF assms] show ?thesis by simp
qed

theorem queue_text_roundtrip_witness:
  "queue_text 7 = ''07'' \<and> int (read_digits (queue_text 7)) = 7"
  using queue_text_roundtrip [of 7] by (simp add: queue_text_def show_digits.simps digit_char_def)

section \<open>Deliveries\<close>

lemma event_types: "TypeOrderCancelled \<noteq> TypeOrderPlaced"
  by (simp add: TypeOrderCancelled_def TypeOrderPlaced_def)

lemma Dispatch_all:
  assumes ok: "ful_ok slot_id s"
  shows "\<exists>r s' n'. Dispatch c slot_id body w s n = (r, s', n') \<and>
    (snd r = None \<or> (r = (False, Some Malformed) \<and> s' = s) \<or> r = (True, Some (Store FStorage)))"
proof (cases "readable c body")
  case True
  from Dispatch_cases [OF ok this, of w n] show ?thesis by blast
next
  case False
  then show ?thesis using event_types unfolding Dispatch_def readable_def reject_def
    by (auto split: option.splits if_splits)
qed

text \<open>
  What becomes of a delivery, on every branch. The consumer acknowledges a message only if it was
  applied (or is not meant for this service), or if a copy of it with the retry count raised by one
  is confirmed to be in the retry queue; the copy waits between one second and one minute. A copy
  that is not confirmed puts the message back. It gives a message up (to the dead letter queue)
  only if the message cannot be read, or after five retries of a failure that does not pass; while
  the database is unavailable it never gives up.
\<close>

theorem delivery_outcome:
  assumes "ful_steps slot_id T empty_ful s" and "0 \<le> retryCount (dl_Headers d)" and "retryCount (dl_Headers d) < MaxInt64"
    and "handleDelivery c slot_id f confirmed d w s = (acts, s')"
  shows "\<exists>r n'. Dispatch c slot_id (dl_Body d) w s 0 = (r, s', n') \<and>
    (acts = Some [Ack] \<and> snd r = None \<or>
     acts = Some [Nack False] \<and> (r = (False, Some Malformed) \<and> s' = s \<or>
       r = (True, Some (Store FStorage)) \<and> lasting f \<and> maxRetries \<le> retryCount (dl_Headers d)) \<or>
     (\<exists>delay. let m = retry_copy d (retryCount (dl_Headers d) + 1) delay in
       Second \<le> delay \<and> delay \<le> Minute \<and> r = (True, Some (Store FStorage)) \<and>
       (lasting f \<longrightarrow> retryCount (dl_Headers d) < maxRetries \<and> delay = Second * 2 ^ nat (retryCount (dl_Headers d))) \<and>
       acts = Some (if confirmed then [PublishRetry m True, Ack] else [PublishRetry m False, Nack True])))"
proof -
  let ?n = "retryCount (dl_Headers d)"
  obtain r t n' where r: "Dispatch c slot_id (dl_Body d) w s 0 = (r, t, n')"
    "snd r = None \<or> (r = (False, Some Malformed) \<and> t = s) \<or> r = (True, Some (Store FStorage))"
    using Dispatch_all [OF reach_ful [OF assms(1)]] by blast
  have t: "t = s'" using assms(4) r(1) by (cases r) (simp add: handleDelivery_def)
  consider (ok) "snd r = None" | (bad) "r = (False, Some Malformed)" "t = s" | (fail) "r = (True, Some (Store FStorage))"
    using r(2) by metis
  then show ?thesis
  proof cases
    case ok
    then have "acts = Some [Ack]" using assms(4) r(1) by (cases r) (simp add: handleDelivery_def)
    with ok r(1) t show ?thesis by blast
  next
    case bad
    then have "acts = Some [Nack False]" using assms(4) r(1) by (simp add: handleDelivery_def)
    with bad r(1) t show ?thesis by blast
  next
    case fail
    show ?thesis
    proof (cases "lasting f")
      case True
      have pow: "(2::int) ^ nat ?n \<le> 2 ^ 4" if "?n < maxRetries"
        using that by (intro power_increasing) (auto simp: maxRetries_def)
      have "acts = (if ?n < maxRetries
          then Some (if confirmed then [PublishRetry (retry_copy d (?n + 1) (Second * 2 ^ nat ?n)) True, Ack]
            else [PublishRetry (retry_copy d (?n + 1) (Second * 2 ^ nat ?n)) False, Nack True])
          else Some [Nack False])"
        using assms(4) r(1) fail True retryPlan_other [OF assms(2)]
        by (auto simp: handleDelivery_def lasting_def split: if_splits)
      with True fail r(1) t pow show ?thesis
        by (cases "?n < maxRetries") (auto simp: Let_def intro!: exI [of _ "Second * 2 ^ nat ?n"])
    next
      case False
      obtain delay where p: "retryPlan (dl_Headers d) True = Some (?n + 1, delay, False)" "Second \<le> delay" "delay \<le> Minute"
        using retryPlan_transient [OF assms(2,3)] by blast
      have "acts = Some (if confirmed then [PublishRetry (retry_copy d (?n + 1) delay) True, Ack]
          else [PublishRetry (retry_copy d (?n + 1) delay) False, Nack True])"
        using assms(4) r(1) fail False p(1) by (auto simp: handleDelivery_def lasting_def)
      with False fail r(1) t p show ?thesis by (auto simp: Let_def)
    qed
  qed
qed

text \<open>A codec that reads two messages, and the two deliveries.\<close>

definition kcodec :: codec where
  "kcodec = \<lparr>j_Envelope = (\<lambda>b. if b = ''placed'' then Some \<lparr>rw_SpecVersion = ''1.0'', rw_ID = ''e7'', rw_Type = TypeOrderPlaced, rw_Data = ''D''\<rparr>
       else if b = ''cancelled'' then Some \<lparr>rw_SpecVersion = ''1.0'', rw_ID = ''e8'', rw_Type = TypeOrderCancelled, rw_Data = ''D''\<rparr>
       else None),
     j_Placed = (\<lambda>_. Some (korder ''D'')), j_Cancelled = (\<lambda>_. Some ''D'')\<rparr>"

definition kdelivery :: delivery where
  "kdelivery = \<lparr>dl_Body = ''placed'', dl_ContentType = ''application/json'', dl_Headers = [(''x-retry-count'', HInt 2)]\<rparr>"

definition kdown :: world where
  "kdown = (kworld 6)\<lparr>w_fails := (\<lambda>_. True)\<rparr>"

theorem delivery_outcome_witness:
  "fst (handleDelivery kcodec kslot OtherFailure True kdelivery kdown kitchen2) =
     Some [PublishRetry (retry_copy kdelivery 3 (4 * Second)) True, Ack] \<and>
   rm_Expiration (retry_copy kdelivery 3 (4 * Second)) = ''4000''"
proof -
  have n: "retryCount (dl_Headers kdelivery) = 2" by code_simp
  obtain acts s' where run: "handleDelivery kcodec kslot OtherFailure True kdelivery kdown kitchen2 = (acts, s')"
    by (cases "handleDelivery kcodec kslot OtherFailure True kdelivery kdown kitchen2")
  have "fst (Dispatch kcodec kslot (dl_Body kdelivery) kdown kitchen2 0) = (True, Some (Store FStorage))" by code_simp
  moreover have "lasting OtherFailure" by (simp add: lasting_def)
  moreover have "rm_Expiration (retry_copy kdelivery 3 (4 * Second)) = ''4000''" by code_simp
  ultimately show ?thesis
    using delivery_outcome [OF kitchen_steps(2) _ _ run] by (auto simp: n run maxRetries_def MaxInt64_def Let_def)
qed

text \<open>
  C13. A database outage loses no event. However often a readable message is delivered while every
  failure is transient, and whatever the broker confirms, the message is applied in the end or is
  still waiting with the same body; it is never dead-lettered, and the consumer does not crash.
\<close>

theorem outage_loses_nothing:
  assumes "ful_steps slot_id T empty_ful s" and "readable c (dl_Body d)" and "\<forall>e\<in>set es. \<not> lasting (fst e)"
    and "0 \<le> retryCount (dl_Headers d)" and "retryCount (dl_Headers d) + int (length es) \<le> MaxInt32"
  shows "\<exists>s'. redeliver c slot_id es d s = (Applied, s') \<or>
    (\<exists>d'. redeliver c slot_id es d s = (Pending d', s') \<and> dl_Body d' = dl_Body d)"
  using redeliver_transient [OF reach_ful [OF assms(1)] assms(2-5)] .

theorem outage_loses_nothing_witness:
  "fst (redeliver kcodec kslot [(ConnectError, True, kdown), (ConnectError, True, kworld 7)] kdelivery empty_ful) = Applied"
proof -
  let ?es = "[(ConnectError, True, kdown), (ConnectError, True, kworld 7)]"
  have "readable kcodec (dl_Body kdelivery)" by code_simp
  moreover have "\<forall>e\<in>set ?es. \<not> lasting (fst e)" by (simp add: lasting_def)
  moreover have "0 \<le> retryCount (dl_Headers kdelivery)" "retryCount (dl_Headers kdelivery) + int (length ?es) \<le> MaxInt32" by code_simp+
  ultimately obtain s' where "redeliver kcodec kslot ?es kdelivery empty_ful = (Applied, s') \<or>
      (\<exists>d'. redeliver kcodec kslot ?es kdelivery empty_ful = (Pending d', s') \<and> dl_Body d' = dl_Body kdelivery)"
    using outage_loses_nothing [OF ful_steps.intros(1)] by blast
  moreover have "\<not> (case fst (redeliver kcodec kslot ?es kdelivery empty_ful) of Pending d' \<Rightarrow> True | _ \<Rightarrow> False)" by code_simp
  ultimately show ?thesis by auto
qed

text \<open>
  C14. A failure that does not pass ends after at most five copies. If every delivery of a readable
  message fails for a lasting reason or succeeds, and the broker confirms the copies, then after
  more deliveries than retries are left the message is applied or in the dead letter queue.
\<close>

theorem retries_end:
  assumes "ful_steps slot_id T empty_ful s" and "readable c (dl_Body d)" and "\<forall>e\<in>set es. lasting (fst e) \<and> fst (snd e)"
    and "0 \<le> retryCount (dl_Headers d)" and "maxRetries < retryCount (dl_Headers d) + int (length es)" and "es \<noteq> []"
  shows "\<exists>s'. redeliver c slot_id es d s = (Applied, s') \<or> redeliver c slot_id es d s = (DeadLettered, s')"
  using redeliver_lasting [OF reach_ful [OF assms(1)] assms(2-6)] .

theorem retries_end_witness:
  "fst (redeliver kcodec kslot [(OtherFailure, True, kdown)] (kdelivery\<lparr>dl_Headers := [(''x-retry-count'', HInt 5)]\<rparr>) empty_ful) = DeadLettered"
proof -
  let ?es = "[(OtherFailure, True, kdown)]" and ?d = "kdelivery\<lparr>dl_Headers := [(''x-retry-count'', HInt 5)]\<rparr>"
  have "readable kcodec (dl_Body ?d)" by code_simp
  moreover have "\<forall>e\<in>set ?es. lasting (fst e) \<and> fst (snd e)" by (simp add: lasting_def)
  moreover have "0 \<le> retryCount (dl_Headers ?d)" "maxRetries < retryCount (dl_Headers ?d) + int (length ?es)" "?es \<noteq> []" by code_simp+
  ultimately obtain s' where "redeliver kcodec kslot ?es ?d empty_ful = (Applied, s') \<or>
      redeliver kcodec kslot ?es ?d empty_ful = (DeadLettered, s')"
    using retries_end [OF ful_steps.intros(1)] by blast
  moreover have "\<not> (case fst (redeliver kcodec kslot ?es ?d empty_ful) of Applied \<Rightarrow> True | _ \<Rightarrow> False)" by code_simp
  ultimately show ?thesis by auto
qed

end
