(* ===== verification/Order_Store.thy ===== *)
theory Order_Store
  imports Gelato_Prelude
begin

text \<open>
  The order service: its data (\<open>domain/order.go\<close>) and its repository
  (\<open>repository/order_repository.go\<close>). Every repository method is one transaction on the tables
  \<open>orders\<close> (with the items of each order) and \<open>outbox_events\<close>. Methods that lock the row with
  \<open>FOR UPDATE\<close> are serialized by the database, so a method is one atomic step. GORM sets
  \<open>updated_at\<close> with every update of a model.
\<close>

section \<open>Data\<close>

datatype order_status =
    PENDING_PAYMENT | CANCEL_PENDING | PAYMENT_CONFIRMING | PAID | PREPARING | READY_FOR_PICKUP
  | COMPLETED | CANCELLED | STORE_CANCEL_PENDING

definition ReasonOrderCancelled :: string where
  "ReasonOrderCancelled = ''ORDER_CANCELLED''"

definition ReasonReservationExpired :: string where
  "ReasonReservationExpired = ''RESERVATION_EXPIRED''"

definition ReasonStoreCancelled :: string where
  "ReasonStoreCancelled = ''STORE_CANCELLED''"

record order_item =
  oi_FlavorID :: string
  oi_FlavorName :: string
  oi_Portions :: int
  oi_UnitPriceMinor :: int
  oi_SubtotalMinor :: int

record order =
  o_ID :: string
  o_CustomerID :: string
  o_PickupAt :: time
  o_Status :: order_status
  o_IdempotencyKey :: string
  o_RequestHash :: string
  o_ReservationID :: string
  o_ReservationExpiresAt :: time
  o_ConfirmIdempotencyKey :: string
  o_ReleaseIdempotencyKey :: string
  o_TotalAmountMinor :: int
  o_Currency :: string
  o_CheckoutSessionID :: string
  o_CheckoutURL :: string
  o_CancellationReason :: string
  o_PaidAt :: "time option"
  o_Items :: "order_item list"
  o_CreatedAt :: time
  o_UpdatedAt :: time

text \<open>The \<open>data\<close> objects of the events of the order service.\<close>

record order_placed =
  op_OrderID :: string
  op_CustomerID :: string
  op_Status :: order_status
  op_PickupAt :: time
  op_TotalAmountMinor :: int
  op_Currency :: string
  op_Items :: "order_item list"

record order_cancelled =
  oc_OrderID :: string
  oc_CustomerID :: string
  oc_Reason :: string
  oc_WasPaid :: "bool option"
  oc_TotalAmountMinor :: "int option"
  oc_Currency :: "string option"
  oc_Items :: "order_item list"
  oc_PaidAt :: "time option"

datatype order_event = Placed time order_placed | Cancelled time order_cancelled

record oevent =
  oe_ID :: string
  oe_OrderID :: string
  oe_RoutingKey :: string
  oe_Payload :: order_event
  oe_PublishedAt :: "time option"
  oe_CreatedAt :: time

record order_db =
  orders :: "order list"
  oevents :: "oevent list"

definition empty_orders :: order_db where
  "empty_orders = \<lparr>orders = [], oevents = []\<rparr>"

datatype rerror = RNotFound | RInvalidTransition | RStorage

type_synonym 'a otx = "(order_db, rerror, 'a) tx"

section \<open>The repository\<close>

definition find_order :: "string \<Rightarrow> order_db \<Rightarrow> order option" where
  "find_order i db = find (\<lambda>x. o_ID x = i) (orders db)"

definition First :: "string \<Rightarrow> order otx" where
  "First i = bindT (query RStorage (find_order i)) (\<lambda>r.
     case r of None \<Rightarrow> throw RNotFound | Some x \<Rightarrow> ret x)"

text \<open>
  \<open>tx.Model(&order).Updates(..)\<close>: the columns of the map and \<open>updated_at\<close>, in the table and in
  the struct.
\<close>

definition Updates :: "order \<Rightarrow> (order \<Rightarrow> order) \<Rightarrow> order otx" where
  "Updates x f = bindT time_Now (\<lambda>t.
     let g = (\<lambda>y. (f y)\<lparr>o_UpdatedAt := t\<rparr>) in
     bindT (exec RStorage (\<lambda>db. db\<lparr>orders := update_where (\<lambda>y. o_ID y = o_ID x) g (orders db)\<rparr>)) (\<lambda>_.
     ret (g x)))"

text \<open>\<open>UPDATE .. WHERE id = ? AND status IN ..\<close>, with the number of rows changed.\<close>

definition UpdatesWhere :: "string \<Rightarrow> order_status set \<Rightarrow> (order \<Rightarrow> order) \<Rightarrow> nat otx" where
  "UpdatesWhere i sts f = bindT time_Now (\<lambda>t. stmt RStorage (\<lambda>db.
     Inr (length (filter (\<lambda>x. o_ID x = i \<and> o_Status x \<in> sts) (orders db)),
          db\<lparr>orders := update_where (\<lambda>x. o_ID x = i \<and> o_Status x \<in> sts)
               (\<lambda>x. (f x)\<lparr>o_UpdatedAt := t\<rparr>) (orders db)\<rparr>)))"

definition insert_event :: "string \<Rightarrow> string \<Rightarrow> string \<Rightarrow> order_event \<Rightarrow> unit otx" where
  "insert_event i oid key payload = bindT time_Now (\<lambda>t. stmt RStorage (\<lambda>db.
     if i \<in> oe_ID ` set (oevents db) then Inl RStorage
     else Inr ((), db\<lparr>oevents := oevents db @ [\<lparr>oe_ID = i, oe_OrderID = oid, oe_RoutingKey = key,
            oe_Payload = payload, oe_PublishedAt = None, oe_CreatedAt = t\<rparr>]\<rparr>)))"

definition commit :: "'a otx \<Rightarrow> 'a otx" where
  "commit m = atomically RStorage (bindT m (\<lambda>a. ret (Commit a)))"

definition BindCheckout :: "string \<Rightarrow> string \<Rightarrow> string \<Rightarrow> order otx" where
  "BindCheckout i sessionID checkoutURL = commit (
     bindT (First i) (\<lambda>x.
     bindT time_Now (\<lambda>t.
       if o_Status x \<noteq> PENDING_PAYMENT \<or> \<not> (o_ReservationExpiresAt x > t) then throw RInvalidTransition
       else if o_CheckoutSessionID x \<noteq> '''' \<and>
               (o_CheckoutSessionID x \<noteq> sessionID \<or> o_CheckoutURL x \<noteq> checkoutURL)
       then throw RInvalidTransition
       else bindT (if o_CheckoutSessionID x = ''''
                   then Updates x (\<lambda>y. y\<lparr>o_CheckoutSessionID := sessionID, o_CheckoutURL := checkoutURL\<rparr>)
                   else ret x) (\<lambda>_.
         First i))))"

text \<open>
  \<open>INSERT\<close> of an order: the primary key and the unique indexes on (customer, idempotency key)
  and on the reservation. GORM fills in the two timestamps, in the
  row and in the struct.
\<close>

definition Create_order :: "order \<Rightarrow> order otx" where
  "Create_order x = commit (
     bindT time_Now (\<lambda>t. let x' = x\<lparr>o_CreatedAt := t, o_UpdatedAt := t\<rparr> in stmt RStorage (\<lambda>db.
       if \<exists>y\<in>set (orders db). o_ID y = o_ID x \<or> o_ReservationID y = o_ReservationID x \<or>
            (o_CustomerID y = o_CustomerID x \<and> o_IdempotencyKey y = o_IdempotencyKey x)
       then Inl RStorage
       else Inr (x', db\<lparr>orders := orders db @ [x']\<rparr>))))"

definition Get_order :: "string \<Rightarrow> order otx" where
  "Get_order i = First i"

definition GetByIdempotencyKey :: "string \<Rightarrow> string \<Rightarrow> order otx" where
  "GetByIdempotencyKey customer key =
     bindT (query RStorage (\<lambda>db. find (\<lambda>x. o_CustomerID x = customer \<and> o_IdempotencyKey x = key) (orders db))) (\<lambda>r.
     case r of None \<Rightarrow> throw RNotFound | Some x \<Rightarrow> ret x)"

definition BeginTransition :: "string \<Rightarrow> order_status \<Rightarrow> order otx" where
  "BeginTransition i target =
     (if target \<noteq> CANCEL_PENDING \<and> target \<noteq> PAYMENT_CONFIRMING then throw RInvalidTransition
      else
        let terminal = (if target = PAYMENT_CONFIRMING then PAID else CANCELLED) in
        commit (
          bindT (First i) (\<lambda>x.
            if o_Status x = target \<or> o_Status x = terminal then ret x
            else if o_Status x \<noteq> PENDING_PAYMENT then throw RInvalidTransition
            else Updates x (\<lambda>y. y\<lparr>o_Status := target, o_CheckoutURL := ''''\<rparr>))))"

definition page_limit :: "int \<Rightarrow> nat" where
  "page_limit limit = (if limit < 1 \<or> limit > 500 then 100 else nat limit)"

definition order_page :: "(order \<Rightarrow> bool) \<Rightarrow> string \<Rightarrow> int \<Rightarrow> order_db \<Rightarrow> order list" where
  "order_page p afterID limit db = take (page_limit limit) (sort_key o_ID
     (filter (\<lambda>x. p x \<and> (afterID = '''' \<or> o_ID x > afterID)) (orders db)))"

definition PendingTransitions :: "string \<Rightarrow> int \<Rightarrow> order list otx" where
  "PendingTransitions afterID limit = query RStorage (order_page
     (\<lambda>x. o_Status x \<in> {CANCEL_PENDING, PAYMENT_CONFIRMING, STORE_CANCEL_PENDING}) afterID limit)"

definition RejectPaymentConfirmation :: "string \<Rightarrow> unit otx" where
  "RejectPaymentConfirmation i = commit (
     bindT (UpdatesWhere i {PAYMENT_CONFIRMING} (\<lambda>y. y\<lparr>o_Status := CANCEL_PENDING\<rparr>)) (\<lambda>rows.
       if rows > 0 then ret ()
       else bindT (First i) (\<lambda>current.
         if o_Status current = CANCEL_PENDING \<or> o_Status current = CANCELLED then ret ()
         else throw RInvalidTransition)))"

definition ExpiredPendingOrders :: "string \<Rightarrow> time \<Rightarrow> int \<Rightarrow> order list otx" where
  "ExpiredPendingOrders afterID t limit = query RStorage (order_page
     (\<lambda>x. o_Status x = PENDING_PAYMENT \<and> o_ReservationExpiresAt x \<le> t) afterID limit)"

definition BeginExpiry :: "string \<Rightarrow> time \<Rightarrow> order otx" where
  "BeginExpiry i t = commit (
     bindT (First i) (\<lambda>x.
       if o_Status x \<noteq> PENDING_PAYMENT \<or> o_ReservationExpiresAt x > t then throw RInvalidTransition
       else Updates x (\<lambda>y. y\<lparr>o_Status := CANCEL_PENDING, o_CheckoutURL := '''',
              o_CancellationReason := ReasonReservationExpired\<rparr>)))"

definition BeginStoreCancellation :: "string \<Rightarrow> order otx" where
  "BeginStoreCancellation i = commit (
     bindT (First i) (\<lambda>x.
       if o_Status x = STORE_CANCEL_PENDING \<or>
          (o_Status x = CANCELLED \<and> o_CancellationReason x = ReasonStoreCancelled) then ret x
       else if o_Status x \<noteq> PAID then throw RInvalidTransition
       else Updates x (\<lambda>y. y\<lparr>o_Status := STORE_CANCEL_PENDING, o_CancellationReason := ReasonStoreCancelled\<rparr>)))"

definition MarkPaidWithOutbox :: "string \<Rightarrow> time \<Rightarrow> string \<Rightarrow> order_event \<Rightarrow> unit otx" where
  "MarkPaidWithOutbox i paidAt eventID payload = commit (
     bindT (UpdatesWhere i {PAYMENT_CONFIRMING} (\<lambda>y. y\<lparr>o_Status := PAID, o_PaidAt := Some paidAt\<rparr>)) (\<lambda>rows.
       if rows = 0 then
         bindT (First i) (\<lambda>current.
           if o_Status current = PAID then ret () else throw RInvalidTransition)
       else insert_event eventID i ''order.placed'' payload))"

definition MarkCancelled :: "string \<Rightarrow> string \<Rightarrow> order_event \<Rightarrow> unit otx" where
  "MarkCancelled i eventID payload = commit (
     bindT (UpdatesWhere i {CANCEL_PENDING, STORE_CANCEL_PENDING} (\<lambda>y. y\<lparr>o_Status := CANCELLED\<rparr>)) (\<lambda>rows.
       if rows = 0 then
         bindT (First i) (\<lambda>current.
           if o_Status current = CANCELLED then ret () else throw RInvalidTransition)
       else insert_event eventID i ''order.cancelled'' payload))"

definition PendingOutbox :: "int \<Rightarrow> oevent list otx" where
  "PendingOutbox limit = query RStorage (\<lambda>db. take (page_limit limit) (sort_key oe_CreatedAt
     (filter (\<lambda>e. oe_PublishedAt e = None) (oevents db))))"

definition MarkOutboxPublished :: "string \<Rightarrow> unit otx" where
  "MarkOutboxPublished i = bindT time_Now (\<lambda>t. exec RStorage (\<lambda>db. db\<lparr>oevents :=
     update_where (\<lambda>e. oe_ID e = i \<and> oe_PublishedAt e = None) (\<lambda>e. e\<lparr>oe_PublishedAt := Some t\<rparr>) (oevents db)\<rparr>))"

definition CountOrdersInSlot :: "time \<Rightarrow> int otx" where
  "CountOrdersInSlot t = query RStorage (\<lambda>db. int (length (filter (\<lambda>x. o_PickupAt x = t \<and>
     o_Status x \<in> {PENDING_PAYMENT, PAYMENT_CONFIRMING, PAID, PREPARING, READY_FOR_PICKUP}) (orders db))))"

end
