(* ===== verification/Inventory_Rpc.thy ===== *)
theory Inventory_Rpc
  imports Inventory_Ops
begin

text \<open>
  The gRPC surface of the inventory service (\<open>transport/grpc.go\<close>, \<open>transport/errors.go\<close>): the
  handlers the order service calls and the mapping of errors to status codes.
\<close>

section \<open>Status codes\<close>

datatype rpc_code =
    Canceled | Unknown | InvalidArgument | DeadlineExceeded | NotFound | AlreadyExists
  | PermissionDenied | ResourceExhausted | FailedPrecondition | Aborted | OutOfRange
  | Unimplemented | Internal | Unavailable | DataLoss | Unauthenticated

record rpc_error =
  re_Code :: rpc_code
  re_Message :: string

text \<open>
  What an error of the database driver is to \<open>errors.Is\<close> and \<open>errors.As\<close>: the deadline or the
  cancellation of the request, a network or connection error, a PostgreSQL error with its
  SQLSTATE, or anything else.
\<close>

datatype driver_error = DDeadline | DCanceled | DNetwork | DPostgres string | DOther

definition internal_error :: "int \<times> rpc_code \<times> string \<times> string" where
  "internal_error = (500, Internal, ''INTERNAL_ERROR'', ''Inventory operation failed'')"

fun classify_driver :: "driver_error \<Rightarrow> int \<times> rpc_code \<times> string \<times> string" where
  "classify_driver DDeadline = (504, DeadlineExceeded, ''DEADLINE_EXCEEDED'', ''Request timed out'')"
| "classify_driver DCanceled = (408, Canceled, ''CANCELLED'', ''Request cancelled'')"
| "classify_driver DNetwork = (503, Unavailable, ''DEPENDENCY_UNAVAILABLE'', ''Dependency unavailable'')"
| "classify_driver (DPostgres c) =
     (if take 2 c = ''08'' \<or> c \<in> {''57P01'', ''57P02'', ''57P03'', ''53300''}
      then (503, Unavailable, ''DEPENDENCY_UNAVAILABLE'', ''Dependency unavailable'')
      else if c \<in> {''40001'', ''40P01'', ''55P03''}
      then (503, Unavailable, ''RETRYABLE_CONFLICT'', ''Retry with the same idempotency key'')
      else internal_error)"
| "classify_driver DOther = internal_error"

fun classify :: "driver_error \<Rightarrow> ierror \<Rightarrow> int \<times> rpc_code \<times> string \<times> string" where
  "classify d ErrInvalid = (400, InvalidArgument, ''INVALID_ARGUMENT'', ''Invalid request'')"
| "classify d ErrNotFound = (404, NotFound, ''NOT_FOUND'', ''Resource not found'')"
| "classify d ErrConflict =
     (409, AlreadyExists, ''IDEMPOTENCY_CONFLICT'', ''Key or order already used with another request'')"
| "classify d ErrBatchCodeConflict = (409, AlreadyExists, ''BATCH_CODE_CONFLICT'', ''Batch code already exists'')"
| "classify d ErrStock = (409, FailedPrecondition, ''INSUFFICIENT_STOCK'', ''Insufficient available portions'')"
| "classify d ErrState = (409, FailedPrecondition, ''INVALID_STATE'', ''Invalid or expired reservation state'')"
| "classify d ErrDependency = (503, Unavailable, ''DEPENDENCY_UNAVAILABLE'', ''Dependency unavailable'')"
| "classify d ErrStorage = classify_driver d"
| "classify d ErrIdemMissing = internal_error"
| "classify d ErrNotPersisted = internal_error"
| "classify d ErrDecode = internal_error"

definition rpcError :: "driver_error \<Rightarrow> ierror \<Rightarrow> rpc_error" where
  "rpcError d e = (case classify d e of (_, code, _, message) \<Rightarrow> \<lparr>re_Code = code, re_Message = message\<rparr>)"

section \<open>Messages\<close>

datatype pb_status =
    STATUS_UNSPECIFIED | STATUS_ACTIVE | STATUS_CONFIRMED | STATUS_RELEASED | STATUS_EXPIRED | STATUS_RETURNED

record pb_portion =
  pp_FlavorId :: string
  pp_Portions :: int

record pb_allocation =
  pa_FlavorId :: string
  pa_BatchId :: string
  pa_Portions :: int

record pb_reservation =
  pr_ReservationId :: string
  pr_OrderId :: string
  pr_Status :: pb_status
  pr_Allocations :: "pb_allocation list"
  pr_CreatedAt :: "time option"
  pr_ExpiresAt :: "time option"

text \<open>Go's conversion to \<open>int32\<close>.\<close>

definition i32 :: "int \<Rightarrow> int" where
  "i32 x = (x + 2 ^ 31) mod 2 ^ 32 - 2 ^ 31"

definition itemsFromProto :: "pb_portion list \<Rightarrow> item list" where
  "itemsFromProto items = map (\<lambda>v. \<lparr>it_FlavorID = pp_FlavorId v, it_Portions = pp_Portions v\<rparr>) items"

fun status_to_proto :: "res_status \<Rightarrow> pb_status" where
  "status_to_proto RActive = STATUS_ACTIVE"
| "status_to_proto RConfirmed = STATUS_CONFIRMED"
| "status_to_proto RReleased = STATUS_RELEASED"
| "status_to_proto RExpired = STATUS_EXPIRED"
| "status_to_proto RReturned = STATUS_RETURNED"

definition toProto :: "reservation \<Rightarrow> pb_reservation" where
  "toProto r = \<lparr>pr_ReservationId = r_ID r, pr_OrderId = r_OrderID r, pr_Status = status_to_proto (r_Status r),
     pr_Allocations = map (\<lambda>a. \<lparr>pa_FlavorId = al_FlavorID a, pa_BatchId = al_BatchID a,
        pa_Portions = i32 (al_Portions a)\<rparr>) (r_Allocations r),
     pr_CreatedAt = Some (r_CreatedAt r), pr_ExpiresAt = Some (r_ExpiresAt r)\<rparr>"

section \<open>Handlers\<close>

text \<open>A call of the order service carries no staff identity.\<close>

definition rpc_ctx :: ctx where
  "rpc_ctx = \<lparr>c_actorID = '''', c_actorRole = '''', c_restKey = None\<rparr>"

record pb_availability =
  pv_FlavorId :: string
  pv_Requested :: int
  pv_Available :: int
  pv_Sufficient :: bool

record pb_check_reply =
  pc_Items :: "pb_availability list"
  pc_AllAvailable :: bool
  pc_AsOf :: time

fun check_reply :: "(availability \<times> item) list \<Rightarrow> pb_check_reply \<Rightarrow> rpc_error + pb_check_reply" where
  "check_reply [] acc = Inr acc"
| "check_reply ((a, x) # rest) acc =
     (if av_Available a > MaxPortions
      then Inl \<lparr>re_Code = OutOfRange, re_Message = ''Availability exceeds v1 int32 capacity''\<rparr>
      else
        let sufficient = (av_Available a \<ge> it_Portions x) in
        check_reply rest (acc\<lparr>pc_AllAvailable := pc_AllAvailable acc \<and> sufficient,
          pc_Items := pc_Items acc @ [\<lparr>pv_FlavorId = av_FlavorID a, pv_Requested = i32 (it_Portions x),
            pv_Available = i32 (av_Available a), pv_Sufficient = sufficient\<rparr>]\<rparr>))"

type_synonym 'a rpc = "world \<Rightarrow> inv_db \<Rightarrow> nat \<Rightarrow> (rpc_error + 'a) \<times> inv_db \<times> nat"

text \<open>Run an operation of the service; the driver error, if there is one, comes with the environment.\<close>

definition run_rpc :: "driver_error \<Rightarrow> 'a itx \<Rightarrow> ('a \<Rightarrow> rpc_error + 'b) \<Rightarrow> 'b rpc" where
  "run_rpc d m k = (\<lambda>w s n. case m w s n of
      (Inl e, s', n') \<Rightarrow> (Inl (rpcError d e), s', n')
    | (Inr a, s', n') \<Rightarrow> (k a, s', n'))"

definition grpc_CheckAvailability :: "driver_error \<Rightarrow> service \<Rightarrow> pb_portion list \<Rightarrow> pb_check_reply rpc" where
  "grpc_CheckAvailability d svc req = (let items = itemsFromProto req in
     run_rpc d (Check svc items) (\<lambda>(out, t).
       check_reply (zip out items) \<lparr>pc_Items = [], pc_AllAvailable = True, pc_AsOf = t\<rparr>))"

record pb_reserve_request =
  pq_OrderId :: string
  pq_IdempotencyKey :: string
  pq_Items :: "pb_portion list"

record pb_transition_request =
  pt_ReservationId :: string
  pt_OrderId :: string
  pt_IdempotencyKey :: string
  pt_Reason :: string

definition grpc_ReservePortions :: "driver_error \<Rightarrow> service \<Rightarrow> pb_reserve_request \<Rightarrow> pb_reservation rpc" where
  "grpc_ReservePortions d svc r =
     run_rpc d (Reserve svc rpc_ctx \<lparr>ri_OrderID = pq_OrderId r, ri_Key = pq_IdempotencyKey r,
       ri_Items = itemsFromProto (pq_Items r)\<rparr>) (\<lambda>result. Inr (toProto result))"

definition grpc_ConfirmReservation :: "driver_error \<Rightarrow> service \<Rightarrow> pb_transition_request \<Rightarrow> pb_reservation rpc" where
  "grpc_ConfirmReservation d svc r =
     run_rpc d (Transition svc rpc_ctx True \<lparr>ti_ReservationID = pt_ReservationId r, ti_OrderID = pt_OrderId r,
       ti_Key = pt_IdempotencyKey r, ti_Reason = ''''\<rparr>) (\<lambda>result. Inr (toProto result))"

definition grpc_ReleaseReservation :: "driver_error \<Rightarrow> service \<Rightarrow> pb_transition_request \<Rightarrow> pb_reservation rpc" where
  "grpc_ReleaseReservation d svc r =
     run_rpc d (Transition svc rpc_ctx False \<lparr>ti_ReservationID = pt_ReservationId r, ti_OrderID = pt_OrderId r,
       ti_Key = pt_IdempotencyKey r, ti_Reason = pt_Reason r\<rparr>) (\<lambda>result. Inr (toProto result))"

definition grpc_ReturnConfirmedReservation :: "driver_error \<Rightarrow> service \<Rightarrow> pb_transition_request \<Rightarrow> pb_reservation rpc" where
  "grpc_ReturnConfirmedReservation d svc r =
     run_rpc d (Return svc rpc_ctx \<lparr>ti_ReservationID = pt_ReservationId r, ti_OrderID = pt_OrderId r,
       ti_Key = pt_IdempotencyKey r, ti_Reason = pt_Reason r\<rparr>) (\<lambda>result. Inr (toProto result))"

end
