(* ===== verification/Gelato_Procs.thy ===== *)
theory Gelato_Procs
  imports Gelato_Prelude
begin

text \<open>
  Concurrent handlers. A service runs many handlers at once, and between two database
  transactions or remote calls of one handler any other handler may run. \<open>proc\<close> is a handler as
  a tree of atomic steps: a step sees the environment of that moment (\<open>'w\<close>: faults, clock,
  answers of other services) and the shared state (\<open>'s\<close>), and leaves the rest of the handler.
  A handler is a finite tree, so it ends after finitely many steps whatever the environment does.

  \<open>within R G Q p s\<close> is the rely/guarantee contract of a handler: while the other handlers move the
  state only along \<open>R\<close>, every step of \<open>p\<close>, in an environment admitted by \<open>G\<close>, moves it along
  \<open>R\<close>, and when \<open>p\<close> returns \<open>a\<close> the state satisfies \<open>Q a\<close>.
\<close>

section \<open>Handlers\<close>

datatype ('w, 's, 'a) proc =
    Done 'a
  | Step "'w \<Rightarrow> 's \<Rightarrow> 's \<times> ('w, 's, 'a) proc"

lemma proc_induct [case_names Done Step]:
  assumes "\<And>a. P (Done a)" and "\<And>g. (\<And>e s. P (snd (g e s))) \<Longrightarrow> P (Step g)"
  shows "P p"
proof (induction p)
  case (Step g)
  have "P (snd (g e s))" for e s
    using Step [of "g e" "g e s" "snd (g e s)"] by (cases "g e s") (simp, metis rangeI)
  then show ?case by (rule assms(2))
qed (rule assms(1))

primrec bindP :: "('w, 's, 'a) proc \<Rightarrow> ('a \<Rightarrow> ('w, 's, 'b) proc) \<Rightarrow> ('w, 's, 'b) proc" where
  "bindP (Done a) f = f a"
| "bindP (Step g) f = Step (\<lambda>e s. map_prod id (\<lambda>p. bindP p f) (g e s))"

definition atom :: "('w \<Rightarrow> 's \<Rightarrow> 's \<times> 'a) \<Rightarrow> ('w, 's, 'a) proc" where
  "atom g = Step (\<lambda>e s. case g e s of (s', a) \<Rightarrow> (s', Done a))"

text \<open>A handler run alone, one environment per step; \<open>None\<close> when the list is too short.\<close>

fun run_proc :: "'w list \<Rightarrow> ('w, 's, 'a) proc \<Rightarrow> 's \<Rightarrow> ('a \<times> 's) option" where
  "run_proc es (Done a) s = Some (a, s)"
| "run_proc [] (Step g) s = None"
| "run_proc (e # es) (Step g) s = (case g e s of (s', p) \<Rightarrow> run_proc es p s')"

lemma run_proc_bind:
  "run_proc es (bindP p f) s = Some (b, s') \<Longrightarrow>
    \<exists>es1 es2 a s1. es = es1 @ es2 \<and> run_proc es1 p s = Some (a, s1) \<and> run_proc es2 (f a) s1 = Some (b, s')"
proof (induction p arbitrary: es s rule: proc_induct)
  case (Done a)
  then show ?case by (intro exI [of _ "[]"] exI [of _ es] exI [of _ a] exI [of _ s]) simp
next
  case (Step g)
  then obtain e es' where es: "es = e # es'" by (cases es) auto
  obtain s1 p where g: "g e s = (s1, p)" by (cases "g e s")
  with Step.prems es have "run_proc es' (bindP p f) s1 = Some (b, s')" by simp
  moreover have "p = snd (g e s)" by (simp add: g)
  ultimately obtain es1 es2 a s2 where
    "es' = es1 @ es2" "run_proc es1 p s1 = Some (a, s2)" "run_proc es2 (f a) s2 = Some (b, s')"
    using Step.IH by blast
  with es g show ?case by (intro exI [of _ "e # es1"] exI [of _ es2] exI [of _ a] exI [of _ s2]) simp
qed

section \<open>The contract of a handler\<close>

primrec within :: "('s \<Rightarrow> 's \<Rightarrow> bool) \<Rightarrow> ('w \<Rightarrow> 's \<Rightarrow> bool) \<Rightarrow> ('a \<Rightarrow> 's \<Rightarrow> bool) \<Rightarrow>
    ('w, 's, 'a) proc \<Rightarrow> 's \<Rightarrow> bool" where
  "within R G Q (Done a) = (\<lambda>s. Q a s)"
| "within R G Q (Step g) = (\<lambda>s. \<forall>t e. R s t \<longrightarrow> G e t \<longrightarrow>
     R t (fst (g e t)) \<and> snd (map_prod id (within R G Q) (g e t)) (fst (g e t)))"

text \<open>The laws of a rely: what happens over time composes.\<close>

locale rely =
  fixes R :: "'s \<Rightarrow> 's \<Rightarrow> bool" and G :: "'w \<Rightarrow> 's \<Rightarrow> bool"
  assumes trans: "R s t \<Longrightarrow> R t u \<Longrightarrow> R s u"
begin

lemma within_later:
  assumes "within R G Q p s" and "R s t" and "\<And>a s t. Q a s \<Longrightarrow> R s t \<Longrightarrow> Q a t"
  shows "within R G Q p t"
proof (cases p)
  case (Done a)
  with assms show ?thesis by auto
next
  case (Step g)
  with assms(1,2) trans show ?thesis by (fastforce simp: split_beta)
qed

lemma within_bind:
  assumes "within R G Q p s" and "\<And>a t. Q a t \<Longrightarrow> within R G Q' (f a) t"
  shows "within R G Q' (bindP p f) s"
  using assms(1)
proof (induction p arbitrary: s rule: proc_induct)
  case (Done a)
  then show ?case using assms(2) by simp
next
  case (Step g)
  show ?case
    unfolding bindP.simps within.simps
  proof (intro allI impI)
    fix t e assume "R s t" "G e t"
    with Step.prems have "R t (fst (g e t))" "within R G Q (snd (g e t)) (fst (g e t))"
      by (auto simp: split_beta)
    with Step.IH [of e t "fst (g e t)"]
    show "R t (fst (map_prod id (\<lambda>p. bindP p f) (g e t))) \<and>
        snd (map_prod id (within R G Q') (map_prod id (\<lambda>p. bindP p f) (g e t))) (fst (map_prod id (\<lambda>p. bindP p f) (g e t)))"
      by (cases "g e t") auto
  qed
qed

lemma within_atom:
  assumes "\<And>t e. R s t \<Longrightarrow> G e t \<Longrightarrow> R t (fst (g e t)) \<and> Q (snd (g e t)) (fst (g e t))"
  shows "within R G Q (atom g) s"
  using assms by (auto simp: atom_def split_beta)

lemma within_atom_bind:
  assumes "\<And>t e. R s t \<Longrightarrow> G e t \<Longrightarrow> R t (fst (g e t)) \<and> within R G Q (f (snd (g e t))) (fst (g e t))"
  shows "within R G Q (bindP (atom g) f) s"
  using assms by (auto simp: atom_def split_beta)

lemma within_mono:
  assumes "within R G Q p s" and "\<And>a t. Q a t \<Longrightarrow> Q' a t"
  shows "within R G Q' p s"
  using assms(1)
proof (induction p arbitrary: s rule: proc_induct)
  case (Done a)
  then show ?case using assms(2) by simp
next
  case (Step g)
  have "within R G Q' (snd (g e t)) (fst (g e t))" if "R s t" "G e t" for e t
    using Step.prems that by (intro Step.IH) (simp add: split_beta)
  with Step.prems show ?case by (simp add: split_beta)
qed

text \<open>Where a handler ends is later than where it began.\<close>

lemma within_reached:
  assumes "within R G Q p s" and "R s0 s"
  shows "within R G (\<lambda>a t. Q a t \<and> R s0 t) p s"
  using assms
proof (induction p arbitrary: s rule: proc_induct)
  case (Step g)
  have "within R G (\<lambda>a t. Q a t \<and> R s0 t) (snd (g e t)) (fst (g e t))" if "R s t" "G e t" for e t
    using Step.prems that trans by (intro Step.IH) (auto simp: split_beta)
  with Step.prems show ?case by (simp add: split_beta)
qed simp

end

end
