(* ===== verification/Order_Service.thy ===== *)
theory Order_Service
  imports Order_Store Inventory_Rpc Gelato_Procs
begin

text \<open>
  The order service (\<open>service/order_service.go\<close>): placing, paying, cancelling and expiring orders.

  Handlers run concurrently, so each is a \<open>proc\<close>: a database transaction of the order service, a
  call of the inventory service and a reading of the clock are its atomic steps. The shared state
  (\<open>sys\<close>) holds the tables of both services, the time the inventory database has reached and
  the calls sent to the inventory service so far. The environment of a step (\<open>order_env\<close>) holds
  the faults, clocks and fresh ids of both sides and the answers of the catalog, payment and
  fulfillment services.
\<close>

section \<open>Errors\<close>

record AppError =
  ae_Code :: string
  ae_Message :: string
  ae_HTTPStatus :: int
  ae_Details :: "string option" \<comment> \<open>the \<open>order_id\<close> entry\<close>

text \<open>An error that is not an \<open>AppError\<close>: a failed encoding, or an error of the repository as it is.\<close>

datatype oerror = App AppError | Encoding | Repo rerror | CtxErr | Joined "(string \<times> oerror) list" "oerror list"

definition app_error :: "string \<Rightarrow> string \<Rightarrow> int \<Rightarrow> oerror" where
  "app_error code message st = App \<lparr>ae_Code = code, ae_Message = message, ae_HTTPStatus = st, ae_Details = None\<rparr>"

definition badRequest :: "string \<Rightarrow> oerror" where
  "badRequest message = app_error ''INVALID_ARGUMENT'' message 400"

definition paymentRejected :: oerror where
  "paymentRejected = app_error ''PAYMENT_REJECTED'' ''order can no longer accept this payment'' 410"

definition conflict :: "string \<Rightarrow> string \<Rightarrow> oerror" where
  "conflict code message = app_error code message 409"

definition dependencyError :: "string \<Rightarrow> oerror" where
  "dependencyError code = app_error code ''a required dependency could not complete the request'' 503"

text \<open>
  \<open>status.FromError\<close> recognizes every error the generated clients return; \<open>None\<close> is an error that
  is not a gRPC status.
\<close>

definition mapGRPCError :: "string \<Rightarrow> rpc_error option \<Rightarrow> oerror" where
  "mapGRPCError dependency err = (case err of
     None \<Rightarrow> dependencyError (dependency @ ''_UNAVAILABLE'')
   | Some st \<Rightarrow> (case re_Code st of
       InvalidArgument \<Rightarrow> badRequest (re_Message st)
     | Unauthenticated \<Rightarrow> app_error ''DEPENDENCY_UNAUTHENTICATED'' (re_Message st) 502
     | PermissionDenied \<Rightarrow> app_error ''DEPENDENCY_FORBIDDEN'' (re_Message st) 502
     | NotFound \<Rightarrow> app_error ''RESOURCE_NOT_FOUND'' (re_Message st) 404
     | FailedPrecondition \<Rightarrow> conflict ''DEPENDENCY_CONFLICT'' (re_Message st)
     | AlreadyExists \<Rightarrow> conflict ''DEPENDENCY_CONFLICT'' (re_Message st)
     | Aborted \<Rightarrow> conflict ''DEPENDENCY_CONFLICT'' (re_Message st)
     | DeadlineExceeded \<Rightarrow> app_error ''DEPENDENCY_TIMEOUT'' ''upstream service timed out'' 504
     | Unavailable \<Rightarrow> app_error ''DEPENDENCY_UNAVAILABLE'' ''upstream service is unavailable'' 503
     | ResourceExhausted \<Rightarrow> app_error ''DEPENDENCY_UNAVAILABLE'' ''upstream service is unavailable'' 503
     | _ \<Rightarrow> dependencyError (dependency @ ''_ERROR'')))"

definition mapRepositoryError :: "rerror \<Rightarrow> oerror" where
  "mapRepositoryError e = (if e = RNotFound then app_error ''ORDER_NOT_FOUND'' ''order not found'' 404
     else dependencyError ''ORDER_STORAGE_UNAVAILABLE'')"

section \<open>State, environment and configuration\<close>

datatype inv_call =
    ReservePortions pb_reserve_request
  | ConfirmReservation pb_transition_request
  | ReleaseReservation pb_transition_request
  | ReturnConfirmedReservation pb_transition_request

record sys =
  s_orders :: order_db
  s_inv :: inv_db
  s_clk :: time
  s_sent :: "inv_call list"

record money =
  mo_AmountMinor :: "int option"
  mo_Currency :: "string option"

record flavor =
  fl_Id :: string
  fl_Name :: string
  fl_Active :: bool
  fl_Price :: "money option"

record checkout_request =
  cr_OrderId :: string
  cr_CustomerId :: string
  cr_AmountMinor :: int
  cr_Currency :: string
  cr_IdempotencyKey :: string
  cr_ReservationExpiresAt :: time

record checkout_reply =
  cp_SessionId :: string
  cp_Url :: string

datatype ticket_answer = TicketStatus string | TicketNotFound | TicketForbidden | TicketFailed

text \<open>
  \<open>e_world\<close> is the order service's side of a step, \<open>e_inventory\<close> the inventory service's, whose
  database clock has reached \<open>e_clk\<close> when the step ends. \<open>e_lost\<close> is what the client reports
  when no answer arrives.
\<close>

record order_env =
  e_world :: world
  e_inventory :: world
  e_driver :: driver_error
  e_clk :: time
  e_lost :: rpc_error
  e_flavors :: "string list \<Rightarrow> rpc_error option + flavor list"
  e_payment :: "checkout_request \<Rightarrow> rpc_error option + checkout_reply"
  e_slots :: "time \<Rightarrow> int option"
  e_ticket :: "string \<Rightarrow> ticket_answer"
  e_ctxErr :: bool

record url =
  u_Scheme :: string
  u_Hostname :: string
  u_User :: bool

text \<open>
  The configuration, and the functions the code takes from outside: \<open>uuid.Parse\<close> followed by
  \<open>String\<close>, \<open>uuid.NewSHA1\<close> of the URL name space, the SHA-256 of the canonical JSON of a request
  (\<open>None\<close> when it cannot be encoded), \<open>url.Parse\<close>, and the calendar date in the store's time zone
  (\<open>None\<close> when pickup is not restricted to the same day).
\<close>

record order_svc =
  v_inventory :: service
  v_uuidParse :: "string \<Rightarrow> string option"
  v_sha1 :: "string \<Rightarrow> string"
  v_digest :: "string \<times> time \<times> (string \<times> int) list \<Rightarrow> string option"
  v_url :: "string \<Rightarrow> url option"
  v_date :: "(time \<Rightarrow> int \<times> int \<times> int) option"
  v_maxPortionsPerOrder :: int
  v_maxSlotCapacity :: int
  v_fulfillment :: bool

type_synonym 'a oproc = "(order_env, sys, 'a) proc"

section \<open>Atomic steps\<close>

text \<open>A transaction of the repository.\<close>

definition repo :: "'a otx \<Rightarrow> (rerror + 'a) oproc" where
  "repo m = atom (\<lambda>e s. case m (e_world e) (s_orders s) 0 of (r, db, _) \<Rightarrow> (s\<lparr>s_orders := db\<rparr>, r))"

definition nowP :: "time oproc" where
  "nowP = atom (\<lambda>e s. (s, w_clock (e_world e) 0))"

definition newUUIDP :: "string oproc" where
  "newUUIDP = atom (\<lambda>e s. (s, w_uuid (e_world e) 0))"

definition askP :: "(order_env \<Rightarrow> 'a) \<Rightarrow> 'a oproc" where
  "askP f = atom (\<lambda>e s. (s, f e))"

definition serve :: "service \<Rightarrow> driver_error \<Rightarrow> inv_call \<Rightarrow> pb_reservation rpc" where
  "serve svc d c = (case c of
     ReservePortions r \<Rightarrow> grpc_ReservePortions d svc r
   | ConfirmReservation r \<Rightarrow> grpc_ConfirmReservation d svc r
   | ReleaseReservation r \<Rightarrow> grpc_ReleaseReservation d svc r
   | ReturnConfirmedReservation r \<Rightarrow> grpc_ReturnConfirmedReservation d svc r)"

text \<open>
  A remote call: the request may not arrive, or arrive later (it stays among the calls sent), and
  the answer may be lost after the service did its work.
\<close>

definition call_inventory :: "order_svc \<Rightarrow> inv_call \<Rightarrow> (rpc_error + pb_reservation) oproc" where
  "call_inventory v c = atom (\<lambda>e s.
     let s1 = s\<lparr>s_sent := c # s_sent s\<rparr>; w = e_inventory e in
     if w_fails w 0 then (s1, Inl (e_lost e))
     else (case serve (v_inventory v) (e_driver e) c w (s_inv s) 1 of
       (r, db, n) \<Rightarrow> (s1\<lparr>s_inv := db, s_clk := e_clk e\<rparr>, if w_fails w n then Inl (e_lost e) else r)))"

section \<open>Requests\<close>

record OrderItemInput =
  in_FlavorID :: string
  in_Portions :: int

record CreateOrderInput =
  in_CustomerID :: string
  in_PickupAt :: time
  in_Items :: "OrderItemInput list"

text \<open>The map of the normalized items is an association list without repeated keys.\<close>

fun normalize_loop :: "order_svc \<Rightarrow> OrderItemInput list \<Rightarrow> (string \<times> int) list \<Rightarrow> oerror + (string \<times> int) list" where
  "normalize_loop v [] result = Inr result"
| "normalize_loop v (x # xs) result = (case v_uuidParse v (in_FlavorID x) of
     None \<Rightarrow> Inl (badRequest ''flavor_id must be a UUID'')
   | Some key \<Rightarrow>
       if in_Portions x < 1 then Inl (badRequest ''portions must be positive'')
       else if key \<in> fst ` set result then Inl (badRequest ''each flavor_id may appear only once'')
       else normalize_loop v xs (result @ [(key, in_Portions x)]))"

definition normalizeItems :: "order_svc \<Rightarrow> OrderItemInput list \<Rightarrow> oerror + (string \<times> int) list" where
  "normalizeItems v items =
     (if length items = 0 \<or> length items > 100
      then Inl (badRequest ''items must contain between 1 and 100 flavors'')
      else normalize_loop v items [])"

definition portions_of :: "(string \<times> int) list \<Rightarrow> string \<Rightarrow> int" where
  "portions_of items i = (case map_of items i of None \<Rightarrow> 0 | Some n \<Rightarrow> n)"

definition hashRequest :: "order_svc \<Rightarrow> string \<Rightarrow> time \<Rightarrow> (string \<times> int) list \<Rightarrow> string option" where
  "hashRequest v customerID pickupAt items =
     v_digest v (customerID, pickupAt, map (\<lambda>i. (i, portions_of items i)) (sort (map fst items)))"

definition sameCalendarDay :: "time \<Rightarrow> time \<Rightarrow> (time \<Rightarrow> int \<times> int \<times> int) \<Rightarrow> bool" where
  "sameCalendarDay a b date \<longleftrightarrow> date a = date b"

section \<open>Placing an order\<close>

definition failP :: "oerror \<Rightarrow> (oerror + 'a) oproc" where
  "failP e = Done (Inl e)"

text \<open>The sum of the portions, added at 64 bits.\<close>

definition total_portions :: "(string \<times> int) list \<Rightarrow> int" where
  "total_portions items = foldl (\<lambda>acc x. i64 (acc + snd x)) 0 items"

definition DefaultPickupSlotMaxCapacity :: int where
  "DefaultPickupSlotMaxCapacity = 10"

text \<open>The loop that prices the items: the total and the lines so far.\<close>

fun price_loop :: "(string \<Rightarrow> flavor option) \<Rightarrow> (string \<Rightarrow> int) \<Rightarrow> string \<Rightarrow> string list \<Rightarrow>
    int \<times> order_item list \<Rightarrow> oerror + (int \<times> order_item list)" where
  "price_loop byID portions currency [] acc = Inr acc"
| "price_loop byID portions currency (i # is) (amt, lines) =
     (case byID i of
        None \<Rightarrow> Inl (dependencyError ''CATALOG_INVALID_RESPONSE'')
      | Some fl \<Rightarrow>
          if \<not> fl_Active fl
          then Inl (conflict ''FLAVOR_INACTIVE'' ''one or more selected flavors are not available for sale'')
          else (case fl_Price fl of
              None \<Rightarrow> Inl (dependencyError ''CATALOG_INVALID_PRICE'')
            | Some m \<Rightarrow> (case (mo_AmountMinor m, mo_Currency m) of
                (Some amount, Some cur) \<Rightarrow>
                  if cur \<noteq> currency \<or> amount < 0 then Inl (dependencyError ''CATALOG_INVALID_PRICE'')
                  else if portions i > 0 \<and> amount > quot MaxInt64 (portions i)
                  then Inl (badRequest ''order amount exceeds supported range'')
                  else
                    let subtotal = i64 (amount * portions i) in
                    if amt > i64 (MaxInt64 - subtotal)
                    then Inl (badRequest ''order amount exceeds supported range'')
                    else price_loop byID portions currency is (i64 (amt + subtotal),
                      lines @ [\<lparr>oi_FlavorID = i, oi_FlavorName = fl_Name fl, oi_Portions = portions i,
                        oi_UnitPriceMinor = amount, oi_SubtotalMinor = subtotal\<rparr>])
              | _ \<Rightarrow> Inl (dependencyError ''CATALOG_INVALID_PRICE''))))"

definition flavors_by_id :: "flavor list \<Rightarrow> string \<Rightarrow> flavor option" where
  "flavors_by_id flavors = map_of (rev (map (\<lambda>f. (fl_Id f, f)) flavors))"

text \<open>The order as it is built before the reservation: the ids and keys are derived from the request.\<close>

definition new_order :: "order_svc \<Rightarrow> string \<Rightarrow> string \<Rightarrow> time \<Rightarrow> string \<Rightarrow> int \<Rightarrow> order_item list \<Rightarrow> order" where
  "new_order v customerID idemKey pickupAt requestHash amt lines =
     (let orderID = v_sha1 v (customerID @ ''/'' @ idemKey) in
      \<lparr>o_ID = orderID, o_CustomerID = customerID, o_PickupAt = pickupAt, o_Status = PENDING_PAYMENT,
       o_IdempotencyKey = idemKey, o_RequestHash = requestHash, o_ReservationID = '''',
       o_ReservationExpiresAt = 0, o_ConfirmIdempotencyKey = v_sha1 v (orderID @ ''/confirm''),
       o_ReleaseIdempotencyKey = v_sha1 v (orderID @ ''/release''), o_TotalAmountMinor = amt,
       o_Currency = ''THB'', o_CheckoutSessionID = '''', o_CheckoutURL = '''', o_CancellationReason = '''',
       o_PaidAt = None, o_Items = lines, o_CreatedAt = 0, o_UpdatedAt = 0\<rparr>)"

text \<open>\<open>timestamppb.Timestamp.CheckValid\<close>: the years 1 to 9999.\<close>

definition CheckValid :: "time \<Rightarrow> bool" where
  "CheckValid t \<longleftrightarrow> 0 \<le> t \<and> t < 315537897600 * Second"

text \<open>Save the order; on an error look whether it was saved all the same.\<close>

definition save_order :: "order \<Rightarrow> (oerror + order) oproc" where
  "save_order ord =
     bindP (repo (Create_order ord)) (\<lambda>r. case r of
       Inr saved \<Rightarrow> Done (Inr saved)
     | Inl _ \<Rightarrow>
         bindP (repo (GetByIdempotencyKey (o_CustomerID ord) (o_IdempotencyKey ord))) (\<lambda>r'. case r' of
           Inr existing \<Rightarrow>
             if o_RequestHash existing \<noteq> o_RequestHash ord
             then failP (conflict ''IDEMPOTENCY_KEY_REUSED'' ''Idempotency-Key was already used with a different request'')
             else Done (Inr existing)
         | Inl e \<Rightarrow> failP (dependencyError ''ORDER_STORAGE_UNAVAILABLE'')))"

definition release_request :: "string \<Rightarrow> order \<Rightarrow> string \<Rightarrow> pb_transition_request" where
  "release_request rid ord reason = \<lparr>pt_ReservationId = rid, pt_OrderId = o_ID ord,
     pt_IdempotencyKey = o_ReleaseIdempotencyKey ord, pt_Reason = reason\<rparr>"

text \<open>From the reservation on.\<close>

definition reserve_order :: "order_svc \<Rightarrow> order \<Rightarrow> (oerror + order) oproc" where
  "reserve_order v ord =
     bindP (call_inventory v (ReservePortions \<lparr>pq_OrderId = o_ID ord, pq_IdempotencyKey = o_IdempotencyKey ord,
        pq_Items = map (\<lambda>l. \<lparr>pp_FlavorId = oi_FlavorID l, pp_Portions = oi_Portions l\<rparr>) (o_Items ord)\<rparr>)) (\<lambda>resp.
     case resp of
       Inl err \<Rightarrow> failP (mapGRPCError ''INVENTORY'' (Some err))
     | Inr reservation \<Rightarrow>
         if pr_ReservationId reservation = '''' then failP (dependencyError ''INVENTORY_INVALID_RESPONSE'')
         else if pr_Status reservation \<noteq> STATUS_ACTIVE
         then failP (conflict ''RESERVATION_NOT_ACTIVE'' ''the reservation for this idempotent request is no longer active; retry with a new Idempotency-Key'')
         else (case v_uuidParse v (pr_ReservationId reservation) of
           None \<Rightarrow> failP (dependencyError ''INVENTORY_INVALID_RESPONSE'')
         | Some rid \<Rightarrow> (case pr_ExpiresAt reservation of
             Some t \<Rightarrow>
               if \<not> CheckValid t
               then bindP (call_inventory v (ReleaseReservation (release_request rid ord ''ORDER_RESPONSE_INVALID''))) (\<lambda>_.
                 failP (dependencyError ''INVENTORY_INVALID_RESPONSE''))
               else
                 let ord' = ord\<lparr>o_ReservationID := rid, o_ReservationExpiresAt := t\<rparr> in
                 bindP nowP (\<lambda>now.
                   if \<not> (t > now)
                   then bindP (call_inventory v (ReleaseReservation (release_request rid ord' ''ORDER_RESERVATION_EXPIRED''))) (\<lambda>_.
                     failP (conflict ''RESERVATION_EXPIRED'' ''the Inventory reservation expired before the order could be created''))
                   else save_order ord')
           | None \<Rightarrow>
               bindP (call_inventory v (ReleaseReservation (release_request rid ord ''ORDER_RESPONSE_INVALID''))) (\<lambda>_.
                 failP (dependencyError ''INVENTORY_INVALID_RESPONSE'')))))"

definition price_order :: "order_svc \<Rightarrow> string \<Rightarrow> string \<Rightarrow> time \<Rightarrow> (string \<times> int) list \<Rightarrow> string \<Rightarrow> (oerror + order) oproc" where
  "price_order v customerID idemKey pickupUTC items requestHash =
     (let flavorIDs = sort (map fst items) in
      bindP (askP (\<lambda>e. e_flavors e flavorIDs)) (\<lambda>resp. case resp of
        Inl err \<Rightarrow> failP (mapGRPCError ''CATALOG'' err)
      | Inr flavors \<Rightarrow>
          (case price_loop (flavors_by_id flavors) (portions_of items) ''THB'' flavorIDs (0, []) of
             Inl e \<Rightarrow> failP e
           | Inr (amt, lines) \<Rightarrow>
               if amt < 1 \<or> amt > 99999999
               then failP (badRequest ''checkout total must be between 1 and 99999999 minor units'')
               else reserve_order v (new_order v customerID idemKey pickupUTC requestHash amt lines))))"

text \<open>The limits of the store: portions of the order, orders and tickets in the slot.\<close>

definition slot_capacity :: "order_svc \<Rightarrow> int" where
  "slot_capacity v = (if v_maxSlotCapacity v \<le> 0 then DefaultPickupSlotMaxCapacity else v_maxSlotCapacity v)"

definition check_slot :: "order_svc \<Rightarrow> time \<Rightarrow> (oerror + unit) oproc" where
  "check_slot v pickupUTC =
     bindP (repo (CountOrdersInSlot pickupUTC)) (\<lambda>r. case r of
       Inl _ \<Rightarrow> failP (dependencyError ''ORDER_STORAGE_UNAVAILABLE'')
     | Inr currentCount \<Rightarrow>
         if currentCount \<ge> slot_capacity v
         then failP (conflict ''SLOT_CAPACITY_EXCEEDED'' ''pickup slot capacity exceeded'')
         else if v_fulfillment v
         then bindP (askP (\<lambda>e. e_slots e pickupUTC)) (\<lambda>answer. case answer of
             None \<Rightarrow> failP (dependencyError ''FULFILLMENT_UNAVAILABLE'')
           | Some capacity \<Rightarrow>
               if capacity \<ge> slot_capacity v
               then failP (conflict ''SLOT_CAPACITY_EXCEEDED'' ''pickup slot capacity exceeded'')
               else Done (Inr ()))
         else Done (Inr ()))"

definition check_limits :: "order_svc \<Rightarrow> time \<Rightarrow> (string \<times> int) list \<Rightarrow> (oerror + unit) oproc" where
  "check_limits v pickupUTC items =
     bindP nowP (\<lambda>now.
       if \<not> (pickupUTC > now) then failP (badRequest ''pickup_at must be a future RFC 3339 timestamp'')
       else bindP (case v_date v of
                None \<Rightarrow> Done True
              | Some date \<Rightarrow> bindP nowP (\<lambda>today. Done (sameCalendarDay today pickupUTC date))) (\<lambda>sameDay.
         if \<not> sameDay then failP (app_error ''PICKUP_NOT_SAME_DAY'' ''pickup_at must be today'' 400)
         else if v_maxPortionsPerOrder v > 0 \<and> total_portions items > v_maxPortionsPerOrder v
         then failP (app_error ''PORTIONS_LIMIT_EXCEEDED'' ''order exceeds the portion limit'' 400)
         else check_slot v pickupUTC))"

definition placeOrder :: "order_svc \<Rightarrow> CreateOrderInput \<Rightarrow> string \<Rightarrow> (oerror + order) oproc" where
  "placeOrder v input rawKey =
     (case v_uuidParse v (in_CustomerID input) of
        None \<Rightarrow> failP (badRequest ''customer_id must be a UUID'')
      | Some customerID \<Rightarrow> (case v_uuidParse v rawKey of
        None \<Rightarrow> failP (badRequest ''Idempotency-Key must be a UUID'')
      | Some idemKey \<Rightarrow>
        if in_PickupAt input = 0 then failP (badRequest ''pickup_at must be a future RFC 3339 timestamp'')
        else if time_Truncate (in_PickupAt input) (15 * Minute) \<noteq> in_PickupAt input
        then failP (badRequest ''pickup_at must be aligned to a 15-minute slot boundary'')
        else (case normalizeItems v (in_Items input) of Inl e \<Rightarrow> failP e | Inr items \<Rightarrow>
          (case hashRequest v customerID (in_PickupAt input) items of None \<Rightarrow> failP Encoding | Some requestHash \<Rightarrow>
            bindP (repo (GetByIdempotencyKey customerID idemKey)) (\<lambda>r. case r of
              Inr existing \<Rightarrow>
                if o_RequestHash existing \<noteq> requestHash
                then failP (conflict ''IDEMPOTENCY_KEY_REUSED'' ''Idempotency-Key was already used with a different request'')
                else Done (Inr existing)
            | Inl e \<Rightarrow>
                if e \<noteq> RNotFound then failP (dependencyError ''ORDER_STORAGE_UNAVAILABLE'')
                else bindP (check_limits v (in_PickupAt input) items) (\<lambda>ok. case ok of
                  Inl err \<Rightarrow> failP err
                | Inr _ \<Rightarrow> price_order v customerID idemKey (in_PickupAt input) items requestHash))))))"

section \<open>Checkout\<close>

record CheckoutResponse =
  ck_Order :: order
  ck_CheckoutURL :: string

definition bind_checkout :: "order \<Rightarrow> string \<Rightarrow> string \<Rightarrow> string \<Rightarrow> (oerror + CheckoutResponse) oproc" where
  "bind_checkout ord sessionID checkoutURL message =
     bindP (repo (BindCheckout (o_ID ord) sessionID checkoutURL)) (\<lambda>r. case r of
       Inl e \<Rightarrow> if e = RInvalidTransition then failP (conflict ''CHECKOUT_STATE_CONFLICT'' message)
                else failP (dependencyError ''ORDER_STORAGE_UNAVAILABLE'')
     | Inr bound \<Rightarrow> Done (Inr \<lparr>ck_Order = bound, ck_CheckoutURL = o_CheckoutURL bound\<rparr>))"

text \<open>\<open>mapped.Details = map[string]any{"order_id": order.ID}\<close>\<close>

definition with_details :: "string \<Rightarrow> oerror \<Rightarrow> oerror" where
  "with_details oid e = (case e of App a \<Rightarrow> App (a\<lparr>ae_Details := Some oid\<rparr>) | _ \<Rightarrow> e)"

definition valid_checkout :: "order_svc \<Rightarrow> checkout_reply \<Rightarrow> bool" where
  "valid_checkout v resp = (cp_SessionId resp \<noteq> '''' \<and> (case v_url v (cp_Url resp) of
     None \<Rightarrow> False
   | Some u \<Rightarrow> u_Scheme u = ''https'' \<and> u_Hostname u \<noteq> '''' \<and> \<not> u_User u))"

definition startPayment :: "order_svc \<Rightarrow> order \<Rightarrow> (oerror + CheckoutResponse) oproc" where
  "startPayment v ord =
     (if o_Status ord \<noteq> PENDING_PAYMENT then Done (Inr \<lparr>ck_Order = ord, ck_CheckoutURL = ''''\<rparr>)
      else bindP nowP (\<lambda>now.
        if \<not> (o_ReservationExpiresAt ord > now)
        then failP (conflict ''RESERVATION_EXPIRED'' ''stock hold expired; create a new order with a new Idempotency-Key'')
        else if o_CheckoutSessionID ord \<noteq> '''' \<and> o_CheckoutURL ord \<noteq> ''''
        then bind_checkout ord (o_CheckoutSessionID ord) (o_CheckoutURL ord) ''order is no longer payable''
        else bindP (askP (\<lambda>e. e_payment e \<lparr>cr_OrderId = o_ID ord, cr_CustomerId = o_CustomerID ord,
               cr_AmountMinor = o_TotalAmountMinor ord, cr_Currency = o_Currency ord,
               cr_IdempotencyKey = v_sha1 v (o_ID ord @ ''/checkout''),
               cr_ReservationExpiresAt = o_ReservationExpiresAt ord\<rparr>)) (\<lambda>resp. case resp of
            Inl err \<Rightarrow> failP (with_details (o_ID ord) (mapGRPCError ''PAYMENT'' err))
          | Inr reply \<Rightarrow>
              if \<not> valid_checkout v reply then failP (dependencyError ''PAYMENT_INVALID_RESPONSE'')
              else bind_checkout ord (cp_SessionId reply) (cp_Url reply)
                ''order is no longer payable or has a different payment session'')))"

definition PlaceOrder :: "order_svc \<Rightarrow> CreateOrderInput \<Rightarrow> string \<Rightarrow> (oerror + CheckoutResponse) oproc" where
  "PlaceOrder v input idemKey =
     bindP (placeOrder v input idemKey) (\<lambda>r. case r of
       Inl e \<Rightarrow> failP e
     | Inr ord \<Rightarrow> startPayment v ord)"

end
