(* ===== verification/Order_Lifecycle.thy ===== *)
theory Order_Lifecycle
  imports Order_Service
begin

text \<open>
  What happens to an order after it was placed (\<open>service/order_service.go\<close>): payment, cancellation
  by the customer or the store, expiry of the stock hold, and the workers that resume what a
  failure or a restart interrupted; the outbox worker (\<open>service/outbox_worker.go\<close>) and the
  read-only gRPC methods (\<open>grpc/order_grpc_server.go\<close>).
\<close>

section \<open>Payment\<close>

definition paymentStateError :: "string \<Rightarrow> (oerror + unit) oproc" where
  "paymentStateError orderID =
     bindP (repo (Get_order orderID)) (\<lambda>r. case r of
       Inl e \<Rightarrow> failP (mapRepositoryError e)
     | Inr ord \<Rightarrow>
         let wasPaid = (o_PaidAt ord \<noteq> None \<or> o_CancellationReason ord = ReasonStoreCancelled) in
         if (o_Status ord = CANCEL_PENDING \<or> o_Status ord = CANCELLED) \<and> \<not> wasPaid then failP paymentRejected
         else failP (conflict ''ORDER_STATE_CONFLICT'' ''order is not awaiting payment''))"

definition placed_event :: "order \<Rightarrow> time \<Rightarrow> order_event" where
  "placed_event ord paidAt = Placed paidAt \<lparr>op_OrderID = o_ID ord, op_CustomerID = o_CustomerID ord, op_Status = PAID,
     op_PickupAt = o_PickupAt ord, op_TotalAmountMinor = o_TotalAmountMinor ord, op_Currency = o_Currency ord,
     op_Items = o_Items ord\<rparr>"

definition confirm_request :: "order \<Rightarrow> pb_transition_request" where
  "confirm_request ord = \<lparr>pt_ReservationId = o_ReservationID ord, pt_OrderId = o_ID ord,
     pt_IdempotencyKey = o_ConfirmIdempotencyKey ord, pt_Reason = ''''\<rparr>"

text \<open>Encoding the event as JSON cannot fail: its times come from the clock and from a JSON request,
  so their years have four digits.\<close>

definition finishPayment :: "order_svc \<Rightarrow> order \<Rightarrow> (oerror + unit) oproc" where
  "finishPayment v ord =
     bindP (call_inventory v (ConfirmReservation (confirm_request ord))) (\<lambda>resp. case resp of
       Inl err \<Rightarrow>
         if re_Code err = FailedPrecondition
         then bindP (repo (RejectPaymentConfirmation (o_ID ord))) (\<lambda>r. case r of
             Inl _ \<Rightarrow> failP (dependencyError ''ORDER_STORAGE_UNAVAILABLE'')
           | Inr _ \<Rightarrow> failP paymentRejected)
         else failP (mapGRPCError ''INVENTORY'' (Some err))
     | Inr _ \<Rightarrow>
         bindP newUUIDP (\<lambda>eventID.
         bindP nowP (\<lambda>paidAt.
         bindP (repo (MarkPaidWithOutbox (o_ID ord) paidAt eventID (placed_event ord paidAt))) (\<lambda>r. case r of
             Inl e \<Rightarrow>
               if e = RInvalidTransition
               then failP (conflict ''ORDER_STATE_CONFLICT'' ''order changed state before payment confirmation'')
               else failP (dependencyError ''ORDER_STORAGE_UNAVAILABLE'')
           | Inr _ \<Rightarrow> Done (Inr ())))))"

definition ConfirmPayment :: "order_svc \<Rightarrow> string \<Rightarrow> (oerror + unit) oproc" where
  "ConfirmPayment v orderID =
     bindP (repo (BeginTransition orderID PAYMENT_CONFIRMING)) (\<lambda>r. case r of
       Inl e \<Rightarrow> if e = RInvalidTransition then paymentStateError orderID else failP (mapRepositoryError e)
     | Inr ord \<Rightarrow>
         if o_Status ord = PAID then Done (Inr ())
         else if o_Status ord \<noteq> PAYMENT_CONFIRMING
         then failP (conflict ''ORDER_STATE_CONFLICT'' ''order is not awaiting payment'')
         else finishPayment v ord)"

section \<open>Cancellation\<close>

definition cancellationReason :: "order \<Rightarrow> string" where
  "cancellationReason ord =
     (if o_CancellationReason ord \<noteq> '''' then o_CancellationReason ord else ReasonOrderCancelled)"

definition commitCancellation :: "order \<Rightarrow> order_cancelled \<Rightarrow> (oerror + unit) oproc" where
  "commitCancellation ord data =
     bindP newUUIDP (\<lambda>eventID.
     bindP nowP (\<lambda>t.
     bindP (repo (MarkCancelled (o_ID ord) eventID (Cancelled t data))) (\<lambda>r. case r of
       Inl e \<Rightarrow>
         if e = RInvalidTransition
         then failP (conflict ''ORDER_STATE_CONFLICT'' ''order changed state before cancellation'')
         else failP (dependencyError ''ORDER_STORAGE_UNAVAILABLE'')
     | Inr _ \<Rightarrow> Done (Inr ()))))"

definition unpaid_cancellation :: "order \<Rightarrow> string \<Rightarrow> order_cancelled" where
  "unpaid_cancellation ord reason = \<lparr>oc_OrderID = o_ID ord, oc_CustomerID = o_CustomerID ord, oc_Reason = reason,
     oc_WasPaid = None, oc_TotalAmountMinor = None, oc_Currency = None, oc_Items = [], oc_PaidAt = None\<rparr>"

definition finishCancellation :: "order_svc \<Rightarrow> order \<Rightarrow> (oerror + unit) oproc" where
  "finishCancellation v ord =
     (let reason = cancellationReason ord in
      bindP (call_inventory v (ReleaseReservation (release_request (o_ReservationID ord) ord reason))) (\<lambda>resp. case resp of
        Inl err \<Rightarrow> failP (mapGRPCError ''INVENTORY'' (Some err))
      | Inr _ \<Rightarrow> commitCancellation ord (unpaid_cancellation ord reason)))"

definition CancelOrder :: "order_svc \<Rightarrow> string \<Rightarrow> string \<Rightarrow> (oerror + unit) oproc" where
  "CancelOrder v orderID reason =
     (if reason \<noteq> ''CUSTOMER_REQUEST'' \<and> reason \<noteq> ''PAYMENT_FAILED''
      then failP (badRequest ''reason must be CUSTOMER_REQUEST or PAYMENT_FAILED'')
      else bindP (repo (BeginTransition orderID CANCEL_PENDING)) (\<lambda>r. case r of
        Inl e \<Rightarrow>
          if e = RInvalidTransition
          then failP (conflict ''ORDER_STATE_CONFLICT'' ''only pending-payment orders can be cancelled'')
          else failP (mapRepositoryError e)
      | Inr ord \<Rightarrow>
          if o_Status ord = CANCELLED then Done (Inr ())
          else if o_Status ord \<noteq> CANCEL_PENDING
          then failP (conflict ''ORDER_STATE_CONFLICT'' ''only pending-payment orders can be cancelled'')
          else finishCancellation v ord))"

section \<open>Cancellation by the store\<close>

text \<open>When the order has no payment time, the time of its last update stands in for it.\<close>

definition cancelled_paid_at :: "order \<Rightarrow> time" where
  "cancelled_paid_at ord = (case o_PaidAt ord of None \<Rightarrow> o_UpdatedAt ord | Some t \<Rightarrow> t)"

definition paid_cancellation :: "order \<Rightarrow> order_cancelled" where
  "paid_cancellation ord = \<lparr>oc_OrderID = o_ID ord, oc_CustomerID = o_CustomerID ord, oc_Reason = ReasonStoreCancelled,
     oc_WasPaid = Some True, oc_TotalAmountMinor = Some (o_TotalAmountMinor ord), oc_Currency = Some (o_Currency ord),
     oc_Items = o_Items ord, oc_PaidAt = Some (cancelled_paid_at ord)\<rparr>"

definition return_request_of :: "order_svc \<Rightarrow> order \<Rightarrow> pb_transition_request" where
  "return_request_of v ord = \<lparr>pt_ReservationId = o_ReservationID ord, pt_OrderId = o_ID ord,
     pt_IdempotencyKey = v_sha1 v (o_ID ord @ ''/return''), pt_Reason = ReasonStoreCancelled\<rparr>"

definition finishStoreCancellation :: "order_svc \<Rightarrow> order \<Rightarrow> (oerror + unit) oproc" where
  "finishStoreCancellation v ord =
     bindP (call_inventory v (ReturnConfirmedReservation (return_request_of v ord))) (\<lambda>resp. case resp of
       Inl err \<Rightarrow> failP (mapGRPCError ''INVENTORY'' (Some err))
     | Inr _ \<Rightarrow> commitCancellation ord (paid_cancellation ord))"

definition claim_store_cancellation :: "order_svc \<Rightarrow> order \<Rightarrow> (oerror + unit) oproc" where
  "claim_store_cancellation v ord =
     bindP (repo (BeginStoreCancellation (o_ID ord))) (\<lambda>r. case r of
       Inl e \<Rightarrow>
         if e = RInvalidTransition
         then failP (conflict ''ORDER_STATE_CONFLICT'' ''only paid orders can be cancelled by the store'')
         else failP (mapRepositoryError e)
     | Inr claimed \<Rightarrow>
         if o_Status claimed = CANCELLED then Done (Inr ())
         else finishStoreCancellation v claimed)"

definition StoreCancelOrder :: "order_svc \<Rightarrow> string \<Rightarrow> (oerror + unit) oproc" where
  "StoreCancelOrder v orderID =
     (if v_uuidParse v orderID = None then failP (badRequest ''order_id must be a UUID'')
      else bindP (repo (Get_order orderID)) (\<lambda>r. case r of
        Inl e \<Rightarrow> failP (mapRepositoryError e)
      | Inr ord \<Rightarrow>
          if o_Status ord = CANCELLED \<and> o_CancellationReason ord = ReasonStoreCancelled then Done (Inr ())
          else if o_Status ord = STORE_CANCEL_PENDING then finishStoreCancellation v ord
          else if o_Status ord \<noteq> PAID
          then failP (conflict ''ORDER_STATE_CONFLICT'' ''only paid orders can be cancelled by the store'')
          else if \<not> v_fulfillment v
          then failP (app_error ''FULFILLMENT_UNAVAILABLE'' ''fulfillment status could not be verified'' 503)
          else bindP (askP (\<lambda>e. e_ticket e (o_ID ord))) (\<lambda>answer. case answer of
              TicketNotFound \<Rightarrow> failP (conflict ''ORDER_PREPARATION_STARTED'' ''the order is no longer queued; preparation has started or no ticket exists'')
            | TicketForbidden \<Rightarrow> failP (app_error ''FORBIDDEN'' ''staff or manager role is required'' 403)
            | TicketFailed \<Rightarrow> failP (app_error ''FULFILLMENT_UNAVAILABLE'' ''fulfillment status could not be verified'' 503)
            | TicketStatus st \<Rightarrow>
                if st \<noteq> ''QUEUED''
                then failP (conflict ''ORDER_PREPARATION_STARTED'' ''the order is no longer queued; preparation has started or no ticket exists'')
                else claim_store_cancellation v ord)))"

section \<open>Workers\<close>

definition expireOrder :: "order_svc \<Rightarrow> string \<Rightarrow> time \<Rightarrow> (oerror + unit) oproc" where
  "expireOrder v orderID t =
     bindP (repo (BeginExpiry orderID t)) (\<lambda>r. case r of
       Inl e \<Rightarrow> if e = RInvalidTransition then Done (Inr ()) else failP (mapRepositoryError e)
     | Inr ord \<Rightarrow> finishCancellation v ord)"

definition ctxErrP :: "bool oproc" where
  "ctxErrP = askP e_ctxErr"

text \<open>The inner loop of a worker: the failures so far, and whether its context has ended.\<close>

fun work_page :: "(order \<Rightarrow> (oerror + unit) oproc) \<Rightarrow> order list \<Rightarrow> (string \<times> oerror) list \<Rightarrow>
    ((string \<times> oerror) list \<times> bool) oproc" where
  "work_page f [] failures = Done (failures, False)"
| "work_page f (x # xs) failures =
     bindP (f x) (\<lambda>r.
       let failures' = (case r of Inl err \<Rightarrow> failures @ [(o_ID x, err)] | Inr _ \<Rightarrow> failures) in
       bindP ctxErrP (\<lambda>ended. if ended then Done (failures', True) else work_page f xs failures'))"

definition errors_Join :: "(string \<times> oerror) list \<Rightarrow> oerror list \<Rightarrow> oerror + unit" where
  "errors_Join failures errs = (if failures = [] \<and> errs = [] then Inr () else Inl (Joined failures errs))"

definition expiryPageSize :: int where
  "expiryPageSize = 100"

text \<open>
  The page loops. Another handler may add orders while a worker runs, so the number of pages is
  not bounded by the state at the start; \<open>fuel\<close> is the number of pages a run may read, and
  \<open>None\<close> says that it was not enough.
\<close>

fun ExpireOverdueOrders_from :: "nat \<Rightarrow> order_svc \<Rightarrow> string \<Rightarrow> (string \<times> oerror) list \<Rightarrow> (oerror + unit) option oproc" where
  "ExpireOverdueOrders_from 0 v afterID failures = Done None"
| "ExpireOverdueOrders_from (Suc fuel) v afterID failures =
     bindP nowP (\<lambda>now.
     bindP (repo (ExpiredPendingOrders afterID now expiryPageSize)) (\<lambda>r. case r of
       Inl err \<Rightarrow> Done (Some (errors_Join failures [Repo err]))
     | Inr page \<Rightarrow>
         bindP (work_page (\<lambda>candidate. expireOrder v (o_ID candidate) now) page failures) (\<lambda>(failures', ended).
           if ended then Done (Some (errors_Join failures' [CtxErr]))
           else if int (length page) < expiryPageSize then Done (Some (errors_Join failures' []))
           else ExpireOverdueOrders_from fuel v (o_ID (last page)) failures')))"

definition ExpireOverdueOrders :: "nat \<Rightarrow> order_svc \<Rightarrow> (oerror + unit) option oproc" where
  "ExpireOverdueOrders fuel v = ExpireOverdueOrders_from fuel v '''' []"

definition resume :: "order_svc \<Rightarrow> order \<Rightarrow> (oerror + unit) oproc" where
  "resume v ord =
     (if o_Status ord = CANCEL_PENDING then CancelOrder v (o_ID ord) ''CUSTOMER_REQUEST''
      else if o_Status ord = STORE_CANCEL_PENDING then finishStoreCancellation v ord
      else ConfirmPayment v (o_ID ord))"

fun ResumePendingTransitions_from :: "nat \<Rightarrow> order_svc \<Rightarrow> string \<Rightarrow> (string \<times> oerror) list \<Rightarrow> (oerror + unit) option oproc" where
  "ResumePendingTransitions_from 0 v afterID failures = Done None"
| "ResumePendingTransitions_from (Suc fuel) v afterID failures =
     bindP (repo (PendingTransitions afterID 100)) (\<lambda>r. case r of
       Inl err \<Rightarrow> Done (Some (errors_Join failures [Repo err]))
     | Inr page \<Rightarrow>
         bindP (work_page (resume v) page failures) (\<lambda>(failures', ended).
           if ended then Done (Some (errors_Join failures' [CtxErr]))
           else if length page < 100 then Done (Some (errors_Join failures' []))
           else ResumePendingTransitions_from fuel v (o_ID (last page)) failures'))"

definition ResumePendingTransitions :: "nat \<Rightarrow> order_svc \<Rightarrow> (oerror + unit) option oproc" where
  "ResumePendingTransitions fuel v = ResumePendingTransitions_from fuel v '''' []"

text \<open>
  The outbox worker: publish, then mark. \<open>publish\<close> is the broker client; an event whose mark is
  lost is published again with the same id.
\<close>

fun publish_loop :: "(order_env \<Rightarrow> string \<Rightarrow> string \<Rightarrow> order_event \<Rightarrow> bool) \<Rightarrow> oevent list \<Rightarrow> bool oproc" where
  "publish_loop publish [] = Done True"
| "publish_loop publish (x # xs) =
     bindP (askP (\<lambda>e. publish e (oe_RoutingKey x) (oe_ID x) (oe_Payload x))) (\<lambda>ok.
       if \<not> ok then Done False
       else bindP (repo (MarkOutboxPublished (oe_ID x))) (\<lambda>r. case r of
         Inl _ \<Rightarrow> Done False
       | Inr _ \<Rightarrow> publish_loop publish xs))"

definition publishPending :: "(order_env \<Rightarrow> string \<Rightarrow> string \<Rightarrow> order_event \<Rightarrow> bool) \<Rightarrow> bool oproc" where
  "publishPending publish =
     bindP (repo (PendingOutbox 100)) (\<lambda>r. case r of Inl _ \<Rightarrow> Done False | Inr xs \<Rightarrow> publish_loop publish xs)"

section \<open>Reads\<close>

definition GetOrder :: "order_svc \<Rightarrow> string \<Rightarrow> (oerror + order) oproc" where
  "GetOrder v i =
     (if v_uuidParse v i = None then failP (badRequest ''order_id must be a UUID'')
      else bindP (repo (Get_order i)) (\<lambda>r. case r of
        Inl e \<Rightarrow> failP (mapRepositoryError e)
      | Inr ord \<Rightarrow> Done (Inr ord)))"

end
