(* ===== verification/Order_Machine.thy ===== *)
theory Order_Machine
  imports Order_Lifecycle
begin

text \<open>
  The life of an order as a state machine. \<open>order_move\<close> lists the moves of one order with the event
  each of them writes, \<open>orders_ok\<close> is the invariant of the tables, and \<open>orders_le\<close> says how the
  tables may evolve. The lemmas about the repository (\<open>wp_BeginTransition\<close> and so on) show that
  every method does nothing or one move, on every branch.
\<close>

section \<open>Moves of an order\<close>

text \<open>The data of the event that closes a cancellation.\<close>

definition cancel_data :: "order \<Rightarrow> order_cancelled" where
  "cancel_data x = (if o_CancellationReason x = ReasonStoreCancelled then paid_cancellation x
     else unpaid_cancellation x (cancellationReason x))"

inductive order_move :: "order \<Rightarrow> order \<Rightarrow> (string \<times> order_event) option \<Rightarrow> bool" where
  bind: "o_Status x = PENDING_PAYMENT \<Longrightarrow> o_CheckoutSessionID x = [] \<Longrightarrow> t < o_ReservationExpiresAt x \<Longrightarrow>
    order_move x (x\<lparr>o_CheckoutSessionID := sid, o_CheckoutURL := u, o_UpdatedAt := t'\<rparr>) None"
| claim: "o_Status x = PENDING_PAYMENT \<Longrightarrow> target \<in> {CANCEL_PENDING, PAYMENT_CONFIRMING} \<Longrightarrow>
    order_move x (x\<lparr>o_Status := target, o_CheckoutURL := [], o_UpdatedAt := t\<rparr>) None"
| expire: "o_Status x = PENDING_PAYMENT \<Longrightarrow> o_ReservationExpiresAt x \<le> t \<Longrightarrow>
    order_move x (x\<lparr>o_Status := CANCEL_PENDING, o_CheckoutURL := [],
      o_CancellationReason := ReasonReservationExpired, o_UpdatedAt := t'\<rparr>) None"
| reject: "o_Status x = PAYMENT_CONFIRMING \<Longrightarrow>
    order_move x (x\<lparr>o_Status := CANCEL_PENDING, o_UpdatedAt := t\<rparr>) None"
| pay: "o_Status x = PAYMENT_CONFIRMING \<Longrightarrow>
    order_move x (x\<lparr>o_Status := PAID, o_PaidAt := Some p, o_UpdatedAt := t\<rparr>)
      (Some (''order.placed'', placed_event x p))"
| store: "o_Status x = PAID \<Longrightarrow>
    order_move x (x\<lparr>o_Status := STORE_CANCEL_PENDING, o_CancellationReason := ReasonStoreCancelled, o_UpdatedAt := t\<rparr>) None"
| cancel: "o_Status x \<in> {CANCEL_PENDING, STORE_CANCEL_PENDING} \<Longrightarrow>
    order_move x (x\<lparr>o_Status := CANCELLED, o_UpdatedAt := t\<rparr>)
      (Some (''order.cancelled'', Cancelled t' (cancel_data x)))"

inductive_cases order_moveE: "order_move x x' ev"

definition put_order :: "order \<Rightarrow> order_db \<Rightarrow> order_db" where
  "put_order x db = db\<lparr>orders := update_where (\<lambda>y. o_ID y = o_ID x) (\<lambda>_. x) (orders db)\<rparr>"

definition order_moved :: "order_db \<Rightarrow> order \<Rightarrow> order \<Rightarrow> (string \<times> order_event) option \<Rightarrow> order_db \<Rightarrow> bool" where
  "order_moved db x x' ev db' \<longleftrightarrow> find_order (o_ID x) db = Some x \<and> order_move x x' ev \<and>
     (case ev of
        None \<Rightarrow> db' = put_order x' db
      | Some (key, payload) \<Rightarrow> (\<exists>i t. i \<notin> oe_ID ` set (oevents db) \<and>
          db' = (put_order x' db)\<lparr>oevents := oevents db @ [\<lparr>oe_ID = i, oe_OrderID = o_ID x, oe_RoutingKey = key,
            oe_Payload = payload, oe_PublishedAt = None, oe_CreatedAt = t\<rparr>]\<rparr>))"

section \<open>The invariant\<close>

text \<open>The lines of an order and its amount, and which reasons and payment times go with a status.\<close>

definition priced :: "order \<Rightarrow> bool" where
  "priced x \<longleftrightarrow> o_TotalAmountMinor x = sum_list (map oi_SubtotalMinor (o_Items x)) \<and>
     1 \<le> o_TotalAmountMinor x \<and> o_TotalAmountMinor x \<le> 99999999 \<and>
     (\<forall>l\<in>set (o_Items x). 1 \<le> oi_Portions l \<and> 0 \<le> oi_UnitPriceMinor l \<and>
        oi_SubtotalMinor l = oi_UnitPriceMinor l * oi_Portions l)"

definition was_paid :: "order \<Rightarrow> bool" where
  "was_paid x \<longleftrightarrow> o_Status x \<in> {PAID, STORE_CANCEL_PENDING} \<or>
     (o_Status x = CANCELLED \<and> o_CancellationReason x = ReasonStoreCancelled)"

definition wf_order :: "order \<Rightarrow> bool" where
  "wf_order x \<longleftrightarrow> priced x \<and>
     o_Status x \<in> {PENDING_PAYMENT, CANCEL_PENDING, PAYMENT_CONFIRMING, PAID, CANCELLED, STORE_CANCEL_PENDING} \<and>
     (o_PaidAt x \<noteq> None \<longleftrightarrow> was_paid x) \<and>
     (o_CancellationReason x = ReasonStoreCancelled \<longrightarrow> o_Status x \<in> {STORE_CANCEL_PENDING, CANCELLED}) \<and>
     (o_Status x = STORE_CANCEL_PENDING \<longrightarrow> o_CancellationReason x = ReasonStoreCancelled) \<and>
     (o_CancellationReason x \<in> {[], ReasonReservationExpired, ReasonStoreCancelled}) \<and>
     (o_CancellationReason x = ReasonReservationExpired \<longrightarrow> o_Status x \<in> {CANCEL_PENDING, CANCELLED}) \<and>
     (o_Status x \<noteq> PENDING_PAYMENT \<longrightarrow> o_CheckoutURL x = [])"

text \<open>The payloads an order has written under a routing key.\<close>

definition written :: "order_db \<Rightarrow> string \<Rightarrow> string \<Rightarrow> order_event list" where
  "written db i key = map oe_Payload (filter (\<lambda>e. oe_OrderID e = i \<and> oe_RoutingKey e = key) (oevents db))"

definition told :: "order_db \<Rightarrow> order \<Rightarrow> bool" where
  "told db x \<longleftrightarrow>
     written db (o_ID x) ''order.placed'' = (case o_PaidAt x of None \<Rightarrow> [] | Some p \<Rightarrow> [placed_event x p]) \<and>
     (if o_Status x = CANCELLED
      then \<exists>t. written db (o_ID x) ''order.cancelled'' = [Cancelled t (cancel_data x)]
      else written db (o_ID x) ''order.cancelled'' = [])"

definition orders_ok :: "order_db \<Rightarrow> bool" where
  "orders_ok db \<longleftrightarrow> distinct (map o_ID (orders db)) \<and> distinct (map o_ReservationID (orders db)) \<and>
     distinct (map (\<lambda>x. (o_CustomerID x, o_IdempotencyKey x)) (orders db)) \<and> distinct (map oe_ID (oevents db)) \<and>
     (\<forall>x\<in>set (orders db). wf_order x \<and> told db x) \<and>
     (\<forall>e\<in>set (oevents db). oe_OrderID e \<in> o_ID ` set (orders db))"

lemma find_order_Some:
  "orders_ok db \<Longrightarrow> find_order i db = Some x \<longleftrightarrow> x \<in> set (orders db) \<and> o_ID x = i"
  unfolding orders_ok_def find_order_def using find_unique [of o_ID "orders db" x] by (auto dest: find_SomeD)

lemma find_orderD: "find_order i db = Some x \<Longrightarrow> x \<in> set (orders db) \<and> o_ID x = i"
  by (auto simp: find_order_def dest: find_SomeD)

section \<open>Evolution\<close>

fun ostatus_le :: "order_status \<Rightarrow> order_status \<Rightarrow> bool" where
  "ostatus_le PENDING_PAYMENT st = (st \<in> {PENDING_PAYMENT, CANCEL_PENDING, PAYMENT_CONFIRMING, PAID, STORE_CANCEL_PENDING, CANCELLED})"
| "ostatus_le PAYMENT_CONFIRMING st = (st \<in> {PAYMENT_CONFIRMING, CANCEL_PENDING, PAID, STORE_CANCEL_PENDING, CANCELLED})"
| "ostatus_le PAID st = (st \<in> {PAID, STORE_CANCEL_PENDING, CANCELLED})"
| "ostatus_le STORE_CANCEL_PENDING st = (st \<in> {STORE_CANCEL_PENDING, CANCELLED})"
| "ostatus_le CANCEL_PENDING st = (st \<in> {CANCEL_PENDING, CANCELLED})"
| "ostatus_le s0 st = (st = s0)"

text \<open>What never changes about an order.\<close>

definition same_order :: "order \<Rightarrow> order \<Rightarrow> bool" where
  "same_order x y \<longleftrightarrow> o_ID y = o_ID x \<and> o_CustomerID y = o_CustomerID x \<and> o_PickupAt y = o_PickupAt x \<and>
     o_IdempotencyKey y = o_IdempotencyKey x \<and> o_RequestHash y = o_RequestHash x \<and>
     o_ReservationID y = o_ReservationID x \<and> o_ReservationExpiresAt y = o_ReservationExpiresAt x \<and>
     o_ConfirmIdempotencyKey y = o_ConfirmIdempotencyKey x \<and> o_ReleaseIdempotencyKey y = o_ReleaseIdempotencyKey x \<and>
     o_TotalAmountMinor y = o_TotalAmountMinor x \<and> o_Currency y = o_Currency x \<and> o_Items y = o_Items x"

text \<open>A cancelled or cancelling order keeps its reason and is not paid any more; a payment time stays.\<close>

definition order_le :: "order \<Rightarrow> order \<Rightarrow> bool" where
  "order_le x y \<longleftrightarrow> same_order x y \<and> ostatus_le (o_Status x) (o_Status y) \<and>
     (o_PaidAt x \<noteq> None \<longrightarrow> o_PaidAt y = o_PaidAt x) \<and>
     (o_Status x \<in> {CANCEL_PENDING, STORE_CANCEL_PENDING, CANCELLED} \<longrightarrow>
        o_PaidAt y = o_PaidAt x \<and> o_CancellationReason y = o_CancellationReason x)"

lemma same_order_refl [simp]: "same_order x x"
  by (simp add: same_order_def)

lemma same_order_trans: "same_order x y \<Longrightarrow> same_order y z \<Longrightarrow> same_order x z"
  by (simp add: same_order_def)

lemma ostatus_le_refl [simp]: "ostatus_le st st"
  by (cases st) auto

lemma ostatus_le_trans: "ostatus_le a b \<Longrightarrow> ostatus_le b c \<Longrightarrow> ostatus_le a c"
  by (cases a; cases b) auto

lemma order_le_refl [simp]: "order_le x x"
  by (simp add: order_le_def)

lemma order_le_trans:
  assumes "order_le x y" and "order_le y z" shows "order_le x z"
proof -
  have "o_Status y \<in> {CANCEL_PENDING, STORE_CANCEL_PENDING, CANCELLED}"
    if "o_Status x \<in> {CANCEL_PENDING, STORE_CANCEL_PENDING, CANCELLED}"
    using that assms(1) by (auto simp: order_le_def)
  with assms show ?thesis
    unfolding order_le_def using same_order_trans ostatus_le_trans by metis
qed

definition orders_le :: "order_db \<Rightarrow> order_db \<Rightarrow> bool" where
  "orders_le db db' \<longleftrightarrow> (\<forall>i x. find_order i db = Some x \<longrightarrow> (\<exists>y. find_order i db' = Some y \<and> order_le x y))"

lemma orders_le_refl [simp]: "orders_le db db"
  by (auto simp: orders_le_def)

lemma orders_le_trans: "orders_le a b \<Longrightarrow> orders_le b c \<Longrightarrow> orders_le a c"
  unfolding orders_le_def using order_le_trans by meson

section \<open>A move keeps the invariant\<close>

lemma order_move_same:
  assumes "order_move x x' ev" shows "same_order x x'"
  using assms by cases (simp_all add: same_order_def)

lemma reasons [simp]:
  "ReasonStoreCancelled \<noteq> []" "ReasonReservationExpired \<noteq> []" "ReasonStoreCancelled \<noteq> ReasonReservationExpired"
  "ReasonReservationExpired \<noteq> ReasonStoreCancelled" "ReasonOrderCancelled \<noteq> ReasonStoreCancelled"
  by (simp_all add: ReasonStoreCancelled_def ReasonReservationExpired_def ReasonOrderCancelled_def)

lemma wf_paid: "wf_order x \<Longrightarrow> o_PaidAt x \<noteq> None \<longleftrightarrow> was_paid x"
  and wf_reason: "wf_order x \<Longrightarrow> o_CancellationReason x = ReasonStoreCancelled \<Longrightarrow> o_Status x \<in> {STORE_CANCEL_PENDING, CANCELLED}"
  by (simp_all add: wf_order_def)

lemma order_move_le:
  assumes "order_move x x' ev" and "wf_order x" shows "order_le x x'"
proof -
  note s = order_move_same [OF assms(1)]
  from assms(1) s wf_paid [OF assms(2)] show ?thesis unfolding order_le_def was_paid_def by cases (simp_all, (elim disjE; simp)+)
qed

lemma order_move_wf:
  assumes "order_move x x' ev" and "wf_order x" shows "wf_order x'"
  using assms by cases (simp_all add: wf_order_def was_paid_def priced_def, (elim disjE conjE; simp)+)

lemma placed_event_same: "same_order x y \<Longrightarrow> placed_event y p = placed_event x p"
  by (simp add: same_order_def placed_event_def)

lemma cancel_data_same:
  assumes "same_order x y" and "o_CancellationReason y = o_CancellationReason x" and "o_PaidAt y = o_PaidAt x"
    and "o_CancellationReason x = ReasonStoreCancelled \<Longrightarrow> o_PaidAt x \<noteq> None"
  shows "cancel_data y = cancel_data x"
  using assms
  by (auto simp: cancel_data_def same_order_def paid_cancellation_def unpaid_cancellation_def cancellationReason_def
      cancelled_paid_at_def)

lemma orders_put_order: "orders (put_order x' db) = update_where (\<lambda>y. o_ID y = o_ID x') (\<lambda>_. x') (orders db)"
  and oevents_put_order [simp]: "oevents (put_order x' db) = oevents db"
  by (simp_all add: put_order_def)

text \<open>Which rows are in the tables after a move.\<close>

lemma order_moved_orders:
  assumes "order_moved db x x' ev db'"
  shows "orders db' = update_where (\<lambda>y. o_ID y = o_ID x) (\<lambda>_. x') (orders db)"
  using assms order_move_same [of x x' ev]
  by (auto simp: order_moved_def orders_put_order same_order_def split: option.splits)

lemma order_moved_map:
  assumes ok: "orders_ok db" and mv: "order_moved db x x' ev db'" and f: "f x' = f x"
  shows "map f (orders db') = map f (orders db)"
proof -
  have x: "x \<in> set (orders db)" using mv by (auto simp: order_moved_def dest: find_orderD)
  have "f (if o_ID y = o_ID x then x' else y) = f y" if "y \<in> set (orders db)" for y
    using that x ok f distinct_key_eq [of o_ID "orders db" y x] by (auto simp: orders_ok_def)
  then show ?thesis
    unfolding order_moved_orders [OF mv] update_where_def by simp
qed

lemma order_moved_find:
  assumes ok: "orders_ok db" and mv: "order_moved db x x' ev db'"
  shows "find_order i db' = (if i = o_ID x then Some x' else find_order i db)"
proof -
  have same: "o_ID x' = o_ID x" using mv order_move_same by (auto simp: order_moved_def same_order_def)
  have "find (\<lambda>y. o_ID y = i) (update_where (\<lambda>y. o_ID y = o_ID x) (\<lambda>_. x') xs) =
      (if i = o_ID x then map_option (\<lambda>_. x') (find (\<lambda>y. o_ID y = i) xs) else find (\<lambda>y. o_ID y = i) xs)" for xs
    by (induction xs) (auto simp: same)
  then show ?thesis
    using mv unfolding find_order_def order_moved_orders [OF mv] by (auto simp: order_moved_def find_order_def)
qed

lemma order_moved_le:
  assumes ok: "orders_ok db" and mv: "order_moved db x x' ev db'"
  shows "orders_le db db'"
proof -
  have "wf_order x" "order_move x x' ev" using ok mv by (auto simp: orders_ok_def order_moved_def dest: find_orderD)
  then have "order_le x x'" by (intro order_move_le)
  moreover have "find_order (o_ID x) db = Some x" using mv by (simp add: order_moved_def)
  ultimately show ?thesis
    unfolding orders_le_def order_moved_find [OF ok mv] by auto
qed

lemma written_moved:
  assumes "order_moved db x x' ev db'"
  shows "written db' i key = written db i key @
    (case ev of Some (k, p) \<Rightarrow> if i = o_ID x \<and> key = k then [p] else [] | None \<Rightarrow> [])"
  using assms by (auto simp: order_moved_def written_def split: option.splits)

lemma told_moved:
  assumes mv: "order_moved db x x' ev db'" and wf: "wf_order x" and t: "told db x"
  shows "told db' x'"
proof -
  have move: "order_move x x' ev" using mv by (simp add: order_moved_def)
  note w = written_moved [OF mv] and same = order_move_same [OF move]
  have i: "o_ID x' = o_ID x" using same by (simp add: same_order_def)
  have data: "cancel_data x' = cancel_data x" if "o_Status x' = CANCELLED"
  proof (rule cancel_data_same [OF same])
    show "o_CancellationReason x' = o_CancellationReason x" using move that by cases auto
    show "o_PaidAt x' = o_PaidAt x" using move that by cases auto
    show "o_PaidAt x \<noteq> None" if "o_CancellationReason x = ReasonStoreCancelled"
      using wf_paid [OF wf] wf_reason [OF wf that] that by (auto simp: was_paid_def)
  qed
  have placed: "placed_event x' p = placed_event x p" for p using placed_event_same [OF same] .
  have paid: "o_PaidAt x = None" if "o_Status x \<in> {PENDING_PAYMENT, PAYMENT_CONFIRMING}"
    using wf_paid [OF wf] that by (auto simp: was_paid_def)
  have quiet: ?thesis
    if "ev = None" "o_PaidAt x' = o_PaidAt x" "o_Status x \<noteq> CANCELLED" "o_Status x' \<noteq> CANCELLED"
    using t that unfolding told_def i placed w by simp
  from move show ?thesis
  proof cases
    case pay
    with t paid show ?thesis unfolding told_def i placed w by simp
  next
    case cancel
    then have "o_Status x \<noteq> CANCELLED" "o_Status x' = CANCELLED" "o_PaidAt x' = o_PaidAt x" by auto
    with t data cancel(2) show ?thesis unfolding told_def i placed w by simp
  qed ((rule quiet; auto)+)
qed

lemma told_other:
  assumes mv: "order_moved db x x' ev db'" and "told db y" and "o_ID y \<noteq> o_ID x"
  shows "told db' y"
proof -
  have "written db' (o_ID y) key = written db (o_ID y) key" for key
    using assms(3) by (auto simp: written_moved [OF mv] split: option.splits)
  with assms(2) show ?thesis by (simp add: told_def)
qed

lemma order_moved_ok:
  assumes ok: "orders_ok db" and mv: "order_moved db x x' ev db'"
  shows "orders_ok db'"
proof -
  have x: "x \<in> set (orders db)" and move: "order_move x x' ev"
    using mv by (auto simp: order_moved_def dest: find_orderD)
  have wf: "wf_order x" "told db x" using ok x by (auto simp: orders_ok_def)
  note same = order_move_same [OF move]
  have maps: "map o_ID (orders db') = map o_ID (orders db)" "map o_ReservationID (orders db') = map o_ReservationID (orders db)"
    "map (\<lambda>x. (o_CustomerID x, o_IdempotencyKey x)) (orders db') = map (\<lambda>x. (o_CustomerID x, o_IdempotencyKey x)) (orders db)"
    using same by (auto intro!: order_moved_map [OF ok mv] simp: same_order_def)
  have "wf_order y \<and> told db' y" if "y \<in> set (orders db')" for y
  proof (cases "o_ID y = o_ID x")
    case True
    with that have "y = x'" using same by (auto simp: order_moved_orders [OF mv] set_update_where same_order_def split: if_splits)
    then show ?thesis using order_move_wf [OF move wf(1)] told_moved [OF mv wf] by simp
  next
    case False
    with that same have "y \<in> set (orders db)"
      by (auto simp: order_moved_orders [OF mv] set_update_where same_order_def split: if_splits)
    with ok False show ?thesis using told_other [OF mv] by (auto simp: orders_ok_def)
  qed
  moreover have "distinct (map oe_ID (oevents db'))" "\<forall>e\<in>set (oevents db'). oe_OrderID e \<in> o_ID ` set (orders db)"
    using ok mv x by (auto simp: orders_ok_def order_moved_def split: option.splits)
  ultimately show ?thesis
    using ok maps unfolding orders_ok_def by (metis list.set_map)
qed

end
