(* ===== verification/Order_Repo.thy ===== *)
theory Order_Repo
  imports Order_Machine
begin

text \<open>
  The methods of the order repository, on every branch: what they return and which move of the
  order machine they make. An error leaves the tables alone, except that a commit whose reply was
  lost may have taken effect.
\<close>

section \<open>Statements\<close>

lemma wp_commit:
  assumes "wp m (\<lambda>a s' _. \<forall>k. Q a s' k \<and> E RStorage s' k) (\<lambda>e _ _. \<forall>k. E e s k) w s (Suc n)" and "\<And>k. E RStorage s k"
  shows "wp (commit m) Q E w s n"
  unfolding commit_def by (rule wpi_atomically) (use assms in \<open>simp_all add: wp_bindT wp_ret\<close>)

lemma wp_First:
  "wp (First i) Q E w s n = (if w_fails w n then E RStorage s (Suc n)
     else (case find_order i s of None \<Rightarrow> E RNotFound s (Suc n) | Some x \<Rightarrow> Q x s (Suc n)))"
  by (simp add: First_def wp_rules split: option.split)

lemma update_one:
  assumes "orders_ok s" and "find_order i s = Some x"
  shows "update_where (\<lambda>y. o_ID y = i \<and> P y) f (orders s) =
    (if P x then update_where (\<lambda>y. o_ID y = i) (\<lambda>_. f x) (orders s) else orders s)"
proof -
  have eq: "y = x" if "y \<in> set (orders s)" "o_ID y = i" for y
    using assms(2) that find_order_Some [OF assms(1), of i y] by simp
  show ?thesis
  proof (cases "P x")
    case True
    with eq have "(if o_ID y = i \<and> P y then f y else y) = (if o_ID y = i then f x else y)" if "y \<in> set (orders s)" for y
      using that by metis
    with True show ?thesis by (simp add: update_where_def)
  next
    case False
    with eq show ?thesis using update_where_none [of "orders s" "\<lambda>y. o_ID y = i \<and> P y" f] by metis
  qed
qed

lemma filter_one:
  assumes "orders_ok s" and "find_order i s = Some x"
  shows "length (filter (\<lambda>y. o_ID y = i \<and> P y) (orders s)) = (if P x then 1 else 0)"
proof -
  have "filter (\<lambda>y. o_ID y = i) xs = [x]" if "distinct (map o_ID xs)" "x \<in> set xs" "o_ID x = i" for xs
    using that by (induction xs) (auto simp: filter_empty_conv, metis image_eqI)
  then have one: "filter (\<lambda>y. o_ID y = i) (orders s) = [x]"
    using assms find_orderD [OF assms(2)] by (simp add: orders_ok_def)
  have "filter (\<lambda>y. o_ID y = i \<and> P y) (orders s) = filter P (filter (\<lambda>y. o_ID y = i) (orders s))"
    by (simp add: conj_commute)
  then show ?thesis by (simp add: one)
qed

lemma wp_Updates:
  assumes "orders_ok s" and "find_order (o_ID x) s = Some x" and "o_ID (f x) = o_ID x"
  shows "wp (Updates x f) Q E w s n = (if w_fails w (Suc n) then E RStorage s (Suc (Suc n))
     else Q ((f x)\<lparr>o_UpdatedAt := w_clock w n\<rparr>) (put_order ((f x)\<lparr>o_UpdatedAt := w_clock w n\<rparr>) s) (Suc (Suc n)))"
  using update_one [OF assms(1,2), of "\<lambda>_. True" "\<lambda>y. (f y)\<lparr>o_UpdatedAt := w_clock w n\<rparr>"] assms(3)
  by (simp add: Updates_def Let_def wp_rules put_order_def)

lemma wp_UpdatesWhere:
  assumes "orders_ok s" and "\<And>x. o_ID (f x) = o_ID x"
  shows "wp (UpdatesWhere i sts f) Q E w s n = (if w_fails w (Suc n) then E RStorage s (Suc (Suc n))
     else (case find_order i s of
         Some x \<Rightarrow> if o_Status x \<in> sts
           then Q 1 (put_order ((f x)\<lparr>o_UpdatedAt := w_clock w n\<rparr>) s) (Suc (Suc n))
           else Q 0 s (Suc (Suc n))
       | None \<Rightarrow> Q 0 s (Suc (Suc n))))"
proof (cases "find_order i s")
  case None
  then have "\<forall>y\<in>set (orders s). o_ID y \<noteq> i" by (auto simp: find_order_def find_None_iff_all)
  then show ?thesis
    using None by (simp add: UpdatesWhere_def wp_rules update_where_none filter_empty_conv)
next
  case (Some x)
  then have "o_ID x = i" by (auto dest: find_orderD)
  with Some update_one [OF assms(1) Some, of "\<lambda>y. o_Status y \<in> sts" "\<lambda>y. (f y)\<lparr>o_UpdatedAt := w_clock w n\<rparr>"] filter_one [OF assms(1) Some, of "\<lambda>y. o_Status y \<in> sts"] assms(2)
  show ?thesis by (simp add: UpdatesWhere_def wp_rules put_order_def)
qed

lemma wp_insert_event:
  "wp (insert_event i oid key payload) Q E w s n =
    (if w_fails w (Suc n) \<or> i \<in> oe_ID ` set (oevents s) then E RStorage s (Suc (Suc n))
     else Q () (s\<lparr>oevents := oevents s @ [\<lparr>oe_ID = i, oe_OrderID = oid, oe_RoutingKey = key,
            oe_Payload = payload, oe_PublishedAt = None, oe_CreatedAt = w_clock w n\<rparr>]\<rparr>) (Suc (Suc n)))"
  by (simp add: insert_event_def wp_rules)

text \<open>A method that locks the row, looks at it and decides.\<close>

lemma wp_locked:
  assumes "\<And>k. E RStorage s k" and "find_order i s = None \<Longrightarrow> \<forall>k. E RNotFound s k"
    and "\<And>x n'. find_order i s = Some x \<Longrightarrow>
      wp (body x) (\<lambda>a s' _. \<forall>k. Q a s' k \<and> E RStorage s' k) (\<lambda>e _ _. \<forall>k. E e s k) w s n'"
  shows "wp (commit (bindT (First i) body)) Q E w s n"
  by (rule wp_commit) (use assms in \<open>auto simp: wp_bindT wp_First split: option.split\<close>)

lemma wpi_Updates:
  assumes "orders_ok s" and "find_order (o_ID x) s = Some x" and "o_ID (f x) = o_ID x" and "\<And>k. E RStorage s k"
    and "\<And>t k. Q ((f x)\<lparr>o_UpdatedAt := t\<rparr>) (put_order ((f x)\<lparr>o_UpdatedAt := t\<rparr>) s) k"
  shows "wp (Updates x f) Q E w s n"
  using assms by (simp add: wp_Updates)

text \<open>A method that updates the row if it has one of the statuses, and looks at it otherwise.\<close>

lemma wp_conditional:
  assumes ok: "orders_ok s" and f: "\<And>x. o_ID (f x) = o_ID x" and E: "\<And>k. E RStorage s k"
    and cont: "cont 0 = bindT (First i) look" "cont 1 = write"
    and "find_order i s = None \<Longrightarrow> \<forall>k. E RNotFound s k"
    and "\<And>x n'. find_order i s = Some x \<Longrightarrow> o_Status x \<notin> sts \<Longrightarrow>
      wp (look x) (\<lambda>a s' _. \<forall>k. Q a s' k \<and> E RStorage s' k) (\<lambda>e _ _. \<forall>k. E e s k) w s n'"
    and "\<And>x t n'. find_order i s = Some x \<Longrightarrow> o_Status x \<in> sts \<Longrightarrow>
      wp write (\<lambda>a s' _. \<forall>k. Q a s' k \<and> E RStorage s' k) (\<lambda>e _ _. \<forall>k. E e s k) w (put_order ((f x)\<lparr>o_UpdatedAt := t\<rparr>) s) n'"
  shows "wp (commit (bindT (UpdatesWhere i sts f) cont)) Q E w s n"
  by (rule wp_commit) (use assms in \<open>auto simp: wp_bindT wp_First wp_UpdatesWhere split: option.split\<close>)

section \<open>Methods\<close>

text \<open>Order \<open>i\<close> made a move from one of the statuses \<open>A\<close> to the status \<open>st\<close>.\<close>

definition went :: "order_db \<Rightarrow> string \<Rightarrow> order_status set \<Rightarrow> order \<Rightarrow> order \<Rightarrow> order_status \<Rightarrow> order_db \<Rightarrow> bool" where
  "went s i A x y st s' \<longleftrightarrow> (\<exists>ev. order_moved s x y ev s') \<and> find_order i s = Some x \<and> find_order i s' = Some y \<and>
     o_Status x \<in> A \<and> o_Status y = st"

lemma wentI:
  assumes "orders_ok s" and "order_moved s x y ev s'" and "find_order i s = Some x" and "o_Status x \<in> A" and "o_Status y = st"
  shows "went s i A x y st s'"
proof -
  have "o_ID x = i" using assms(3) by (auto dest: find_orderD)
  then have "find_order i s' = Some y" using order_moved_find [OF assms(1,2)] by simp
  with assms show ?thesis unfolding went_def by blast
qed

lemma went_put:
  assumes "orders_ok s" and "find_order i s = Some x" and "order_move x y None" and "o_Status x \<in> A" and "o_Status y = st"
  shows "went s i A x y st (put_order y s)"
  using assms by (intro wentI [of s x y None]) (auto simp: order_moved_def dest: find_orderD)

lemma wp_BeginTransition:
  assumes ok: "orders_ok s" and target: "target \<in> {CANCEL_PENDING, PAYMENT_CONFIRMING}"
  shows "wp (BeginTransition i target)
    (\<lambda>y s' _. s' = s \<and> find_order i s = Some y \<and> o_Status y \<in> {target, if target = PAYMENT_CONFIRMING then PAID else CANCELLED} \<or>
       (\<exists>x. went s i {PENDING_PAYMENT} x y target s'))
    (\<lambda>e s' _. s' = s \<and> (e = RInvalidTransition \<longrightarrow> (\<exists>x. find_order i s = Some x \<and>
            o_Status x \<notin> {PENDING_PAYMENT, target, if target = PAYMENT_CONFIRMING then PAID else CANCELLED})) \<or>
       e = RStorage \<and> (\<exists>x y. went s i {PENDING_PAYMENT} x y target s')) w s n"
    (is "wp _ ?Q ?E w s n")
proof -
  have t: "(target \<noteq> CANCEL_PENDING \<and> target \<noteq> PAYMENT_CONFIRMING) = False" using target by blast
  show ?thesis
    unfolding BeginTransition_def Let_def t if_False
  proof (rule wp_locked)
    fix x n' assume x: "find_order i s = Some x"
    then have i: "o_ID x = i" by (auto dest: find_orderD)
    have up: "wp (Updates x (\<lambda>y. y\<lparr>o_Status := target, o_CheckoutURL := []\<rparr>)) (\<lambda>a s' _. \<forall>k. ?Q a s' k \<and> ?E RStorage s' k)
        (\<lambda>e _ _. \<forall>k. ?E e s k) w s n'" if p: "o_Status x = PENDING_PAYMENT"
      by (rule wpi_Updates [OF ok])
         (use x i p went_put [OF ok x order_move.claim [OF p target], where A = "{PENDING_PAYMENT}" and st = target] in \<open>simp_all, blast\<close>)
    show "wp (if o_Status x = target \<or> o_Status x = (if target = PAYMENT_CONFIRMING then PAID else CANCELLED) then ret x
        else if o_Status x \<noteq> PENDING_PAYMENT then throw RInvalidTransition
        else Updates x (\<lambda>y. y\<lparr>o_Status := target, o_CheckoutURL := []\<rparr>))
      (\<lambda>a s' _. \<forall>k. ?Q a s' k \<and> ?E RStorage s' k) (\<lambda>e _ _. \<forall>k. ?E e s k) w s n'"
      unfolding wp_if wp_ret wp_throw using up x by simp
  qed simp_all
qed

lemma wp_RejectPaymentConfirmation:
  assumes ok: "orders_ok s"
  shows "wp (RejectPaymentConfirmation i)
    (\<lambda>_ s' _. s' = s \<and> (\<exists>x. find_order i s = Some x \<and> o_Status x \<in> {CANCEL_PENDING, CANCELLED}) \<or>
       (\<exists>x y. went s i {PAYMENT_CONFIRMING} x y CANCEL_PENDING s'))
    (\<lambda>e s' _. s' = s \<or> (\<exists>x y. went s i {PAYMENT_CONFIRMING} x y CANCEL_PENDING s')) w s n"
  unfolding RejectPaymentConfirmation_def
proof (rule wp_conditional [OF ok])
  fix x t n' assume x: "find_order i s = Some x" "o_Status x \<in> {PAYMENT_CONFIRMING}"
  then show "wp (ret ()) (\<lambda>a s' _. \<forall>k::nat. (s' = s \<and> (\<exists>x. find_order i s = Some x \<and> o_Status x \<in> {CANCEL_PENDING, CANCELLED}) \<or>
       (\<exists>x y. went s i {PAYMENT_CONFIRMING} x y CANCEL_PENDING s')) \<and> (s' = s \<or> (\<exists>x y. went s i {PAYMENT_CONFIRMING} x y CANCEL_PENDING s')))
     (\<lambda>e _ _. \<forall>k::nat. s = s \<or> (\<exists>x y. went s i {PAYMENT_CONFIRMING} x y CANCEL_PENDING s)) w
     (put_order ((x\<lparr>o_Status := CANCEL_PENDING\<rparr>)\<lparr>o_UpdatedAt := t\<rparr>) s) n'"
    using went_put [OF ok x(1) order_move.reject, where A = "{PAYMENT_CONFIRMING}" and st = CANCEL_PENDING]
    unfolding wp_ret by simp blast
qed (auto simp: wp_ret wp_throw)

lemma wp_BeginExpiry:
  assumes ok: "orders_ok s"
  shows "wp (BeginExpiry i t)
    (\<lambda>y s' _. \<exists>x. went s i {PENDING_PAYMENT} x y CANCEL_PENDING s' \<and> o_ReservationExpiresAt x \<le> t)
    (\<lambda>e s' _. s' = s \<or> (\<exists>x y. went s i {PENDING_PAYMENT} x y CANCEL_PENDING s')) w s n"
    (is "wp _ ?Q ?E w s n")
  unfolding BeginExpiry_def
proof (rule wp_locked)
  fix x n' assume x: "find_order i s = Some x"
  then have i: "o_ID x = i" by (auto dest: find_orderD)
  have up: "wp (Updates x (\<lambda>y. y\<lparr>o_Status := CANCEL_PENDING, o_CheckoutURL := [],
              o_CancellationReason := ReasonReservationExpired\<rparr>)) (\<lambda>a s' _. \<forall>k. ?Q a s' k \<and> ?E RStorage s' k)
      (\<lambda>e _ _. \<forall>k. ?E e s k) w s n'" if p: "o_Status x = PENDING_PAYMENT" "o_ReservationExpiresAt x \<le> t"
    by (rule wpi_Updates [OF ok])
       (use x i p went_put [OF ok x order_move.expire [OF p], where A = "{PENDING_PAYMENT}" and st = CANCEL_PENDING] in \<open>simp_all, blast\<close>)
  show "wp (if o_Status x \<noteq> PENDING_PAYMENT \<or> o_ReservationExpiresAt x > t then throw RInvalidTransition
       else Updates x (\<lambda>y. y\<lparr>o_Status := CANCEL_PENDING, o_CheckoutURL := [],
              o_CancellationReason := ReasonReservationExpired\<rparr>)) (\<lambda>a s' _. \<forall>k. ?Q a s' k \<and> ?E RStorage s' k)
      (\<lambda>e _ _. \<forall>k. ?E e s k) w s n'"
    unfolding wp_if wp_throw using up by auto
qed simp_all

lemma wp_BeginStoreCancellation:
  assumes ok: "orders_ok s"
  shows "wp (BeginStoreCancellation i)
    (\<lambda>y s' _. s' = s \<and> find_order i s = Some y \<and>
         (o_Status y = STORE_CANCEL_PENDING \<or> o_Status y = CANCELLED \<and> o_CancellationReason y = ReasonStoreCancelled) \<or>
       (\<exists>x. went s i {PAID} x y STORE_CANCEL_PENDING s'))
    (\<lambda>e s' _. s' = s \<or> (\<exists>x y. went s i {PAID} x y STORE_CANCEL_PENDING s')) w s n"
    (is "wp _ ?Q ?E w s n")
  unfolding BeginStoreCancellation_def
proof (rule wp_locked)
  fix x n' assume x: "find_order i s = Some x"
  then have i: "o_ID x = i" by (auto dest: find_orderD)
  have up: "wp (Updates x (\<lambda>y. y\<lparr>o_Status := STORE_CANCEL_PENDING, o_CancellationReason := ReasonStoreCancelled\<rparr>))
      (\<lambda>a s' _. \<forall>k. ?Q a s' k \<and> ?E RStorage s' k) (\<lambda>e _ _. \<forall>k. ?E e s k) w s n'" if p: "o_Status x = PAID"
    by (rule wpi_Updates [OF ok])
       (use x i p went_put [OF ok x order_move.store [OF p], where A = "{PAID}" and st = STORE_CANCEL_PENDING] in \<open>simp_all, blast\<close>)
  show "wp (if o_Status x = STORE_CANCEL_PENDING \<or>
          (o_Status x = CANCELLED \<and> o_CancellationReason x = ReasonStoreCancelled) then ret x
       else if o_Status x \<noteq> PAID then throw RInvalidTransition
       else Updates x (\<lambda>y. y\<lparr>o_Status := STORE_CANCEL_PENDING, o_CancellationReason := ReasonStoreCancelled\<rparr>))
      (\<lambda>a s' _. \<forall>k. ?Q a s' k \<and> ?E RStorage s' k) (\<lambda>e _ _. \<forall>k. ?E e s k) w s n'"
    unfolding wp_if wp_throw wp_ret using up x by simp
qed simp_all

text \<open>The two methods that write an event with the move.\<close>

lemma order_moved_event:
  assumes "find_order i s = Some x" and "order_move x y (Some (key, payload))" and "eid \<notin> oe_ID ` set (oevents s)"
  shows "order_moved s x y (Some (key, payload)) ((put_order y s)\<lparr>oevents := oevents s @ [\<lparr>oe_ID = eid, oe_OrderID = i,
      oe_RoutingKey = key, oe_Payload = payload, oe_PublishedAt = None, oe_CreatedAt = t\<rparr>]\<rparr>)"
  using assms by (auto simp: order_moved_def dest: find_orderD)

lemma wp_MarkPaidWithOutbox:
  assumes ok: "orders_ok s"
    and payload: "\<And>x. find_order i s = Some x \<Longrightarrow> o_Status x = PAYMENT_CONFIRMING \<Longrightarrow> payload = placed_event x p"
  shows "wp (MarkPaidWithOutbox i p eid payload)
    (\<lambda>_ s' _. s' = s \<and> (\<exists>x. find_order i s = Some x \<and> o_Status x = PAID) \<or>
       (\<exists>x y. went s i {PAYMENT_CONFIRMING} x y PAID s'))
    (\<lambda>e s' _. s' = s \<or> (\<exists>x y. went s i {PAYMENT_CONFIRMING} x y PAID s')) w s n"
    (is "wp _ ?Q ?E w s n")
  unfolding MarkPaidWithOutbox_def
proof (rule wp_conditional [OF ok])
  fix x t n' assume x: "find_order i s = Some x" "o_Status x \<in> {PAYMENT_CONFIRMING}"
  have pay: "went s i {PAYMENT_CONFIRMING} x (x\<lparr>o_Status := PAID, o_PaidAt := Some p, o_UpdatedAt := t\<rparr>) PAID
      ((put_order (x\<lparr>o_Status := PAID, o_PaidAt := Some p, o_UpdatedAt := t\<rparr>) s)\<lparr>oevents := oevents s @
        [\<lparr>oe_ID = eid, oe_OrderID = i, oe_RoutingKey = ''order.placed'', oe_Payload = payload, oe_PublishedAt = None, oe_CreatedAt = t'\<rparr>]\<rparr>)"
    if "eid \<notin> oe_ID ` set (oevents s)" for t'
    using x payload [OF x(1)]
    by (intro wentI [OF ok order_moved_event [OF x(1) _ that]]) (auto intro: order_move.pay)
  show "wp (insert_event eid i ''order.placed'' payload) (\<lambda>a s' _. \<forall>k. ?Q a s' k \<and> ?E RStorage s' k) (\<lambda>e _ _. \<forall>k. ?E e s k) w
     (put_order ((x\<lparr>o_Status := PAID, o_PaidAt := Some p\<rparr>)\<lparr>o_UpdatedAt := t\<rparr>) s) n'"
    unfolding wp_insert_event using pay by simp blast
qed (auto simp: wp_ret wp_throw)

lemma wp_MarkCancelled:
  assumes ok: "orders_ok s"
    and payload: "\<And>x. find_order i s = Some x \<Longrightarrow> o_Status x \<in> {CANCEL_PENDING, STORE_CANCEL_PENDING} \<Longrightarrow>
      payload = Cancelled t0 (cancel_data x)"
  shows "wp (MarkCancelled i eid payload)
    (\<lambda>_ s' _. s' = s \<and> (\<exists>x. find_order i s = Some x \<and> o_Status x = CANCELLED) \<or>
       (\<exists>x y. went s i {CANCEL_PENDING, STORE_CANCEL_PENDING} x y CANCELLED s'))
    (\<lambda>e s' _. s' = s \<or> (\<exists>x y. went s i {CANCEL_PENDING, STORE_CANCEL_PENDING} x y CANCELLED s')) w s n"
    (is "wp _ ?Q ?E w s n")
  unfolding MarkCancelled_def
proof (rule wp_conditional [OF ok])
  fix x t n' assume x: "find_order i s = Some x" "o_Status x \<in> {CANCEL_PENDING, STORE_CANCEL_PENDING}"
  have cancel: "went s i {CANCEL_PENDING, STORE_CANCEL_PENDING} x (x\<lparr>o_Status := CANCELLED, o_UpdatedAt := t\<rparr>) CANCELLED
      ((put_order (x\<lparr>o_Status := CANCELLED, o_UpdatedAt := t\<rparr>) s)\<lparr>oevents := oevents s @
        [\<lparr>oe_ID = eid, oe_OrderID = i, oe_RoutingKey = ''order.cancelled'', oe_Payload = payload, oe_PublishedAt = None, oe_CreatedAt = t'\<rparr>]\<rparr>)"
    if "eid \<notin> oe_ID ` set (oevents s)" for t'
    using x(2) unfolding payload [OF x]
    by (intro wentI [OF ok order_moved_event [OF x(1) order_move.cancel [OF x(2)] that] x]) simp
  show "wp (insert_event eid i ''order.cancelled'' payload) (\<lambda>a s' _. \<forall>k. ?Q a s' k \<and> ?E RStorage s' k) (\<lambda>e _ _. \<forall>k. ?E e s k) w
     (put_order ((x\<lparr>o_Status := CANCELLED\<rparr>)\<lparr>o_UpdatedAt := t\<rparr>) s) n'"
    unfolding wp_insert_event using cancel by simp blast
qed (auto simp: wp_ret wp_throw)

text \<open>The checkout of a pending, unexpired order: the session and the URL the caller asked for, or those it has.\<close>

lemma wp_BindCheckout:
  assumes ok: "orders_ok s"
  shows "wp (BindCheckout i sid u)
    (\<lambda>y s' _. (s' = s \<and> find_order i s = Some y \<or> (\<exists>x. went s i {PENDING_PAYMENT} x y PENDING_PAYMENT s')) \<and>
       o_Status y = PENDING_PAYMENT \<and> o_CheckoutSessionID y = sid \<and> o_CheckoutURL y = u \<and>
       (\<exists>k. w_clock w k < o_ReservationExpiresAt y))
    (\<lambda>e s' _. s' = s \<or> (\<exists>x y. went s i {PENDING_PAYMENT} x y PENDING_PAYMENT s')) w s n"
    (is "wp _ ?Q ?E w s n")
  unfolding BindCheckout_def
proof (rule wp_locked)
  fix x n' assume x: "find_order i s = Some x"
  then have i: "o_ID x = i" by (auto dest: find_orderD)
  let ?y = "\<lambda>t'. x\<lparr>o_CheckoutSessionID := sid, o_CheckoutURL := u, o_UpdatedAt := t'\<rparr>"
  have new: "went s i {PENDING_PAYMENT} x (?y t') PENDING_PAYMENT (put_order (?y t') s)"
    if "o_Status x = PENDING_PAYMENT" "o_CheckoutSessionID x = []" "t < o_ReservationExpiresAt x" for t t'
    using went_put [OF ok x order_move.bind [OF that], where A = "{PENDING_PAYMENT}" and st = PENDING_PAYMENT] that by simp
  then have read: "find_order i (put_order (?y t') s) = Some (?y t')"
    if "o_Status x = PENDING_PAYMENT" "o_CheckoutSessionID x = []" "t < o_ReservationExpiresAt x" for t t'
    using that unfolding went_def by blast
  show "wp (bindT time_Now (\<lambda>t.
       if o_Status x \<noteq> PENDING_PAYMENT \<or> \<not> (o_ReservationExpiresAt x > t) then throw RInvalidTransition
       else if o_CheckoutSessionID x \<noteq> [] \<and> (o_CheckoutSessionID x \<noteq> sid \<or> o_CheckoutURL x \<noteq> u)
       then throw RInvalidTransition
       else bindT (if o_CheckoutSessionID x = []
                   then Updates x (\<lambda>y. y\<lparr>o_CheckoutSessionID := sid, o_CheckoutURL := u\<rparr>)
                   else ret x) (\<lambda>_. First i)))
      (\<lambda>a s' _. \<forall>k. ?Q a s' k \<and> ?E RStorage s' k) (\<lambda>e _ _. \<forall>k. ?E e s k) w s n'"
  proof (cases "o_Status x = PENDING_PAYMENT \<and> w_clock w n' < o_ReservationExpiresAt x")
    case True
    show ?thesis
    proof (cases "o_CheckoutSessionID x = []")
      case new_session: True
      from True have "o_Status x = PENDING_PAYMENT" "w_clock w n' < o_ReservationExpiresAt x" by auto
      note facts = this new [OF this(1) new_session this(2)] read [OF this(1) new_session this(2)]
      with new_session show ?thesis
        by (simp add: wp_bindT wp_time_Now wp_Updates [OF ok] x i wp_First) (use facts in blast)
    next
      case False
      with True show ?thesis
        by (auto simp: wp_bindT wp_time_Now wp_ret wp_throw wp_First x)
    qed
  next
    case False
    then show ?thesis by (auto simp: wp_bindT wp_time_Now wp_throw)
  qed
qed simp_all

text \<open>A new order.\<close>

definition created :: "order_db \<Rightarrow> order \<Rightarrow> order \<Rightarrow> order_db \<Rightarrow> bool" where
  "created s x y s' \<longleftrightarrow> (\<exists>t. y = x\<lparr>o_CreatedAt := t, o_UpdatedAt := t\<rparr>) \<and> s' = s\<lparr>orders := orders s @ [y]\<rparr> \<and>
     (\<forall>z\<in>set (orders s). o_ID z \<noteq> o_ID x \<and> o_ReservationID z \<noteq> o_ReservationID x \<and>
        \<not> (o_CustomerID z = o_CustomerID x \<and> o_IdempotencyKey z = o_IdempotencyKey x))"

lemma wp_Create_order:
  "wp (Create_order x) (\<lambda>y s' _. created s x y s') (\<lambda>e s' _. s' = s \<or> (\<exists>y. created s x y s')) w s n"
  unfolding Create_order_def
  by (rule wp_commit) (auto simp: wp_bindT wp_time_Now Let_def wp_stmt created_def)

lemma created_find:
  assumes "created s x y s'"
  shows "find_order i s' = (if i = o_ID x then Some y else find_order i s)"
proof -
  have "o_ID y = o_ID x" "s' = s\<lparr>orders := orders s @ [y]\<rparr>" "\<forall>z\<in>set (orders s). o_ID z \<noteq> o_ID x"
    using assms by (auto simp: created_def)
  moreover have "find p (xs @ [y]) = (case find p xs of Some z \<Rightarrow> Some z | None \<Rightarrow> if p y then Some y else None)" for p xs
    by (induction xs) auto
  ultimately show ?thesis
    using find_None_iff_all [of "\<lambda>z. o_ID z = o_ID x" "orders s"] by (auto simp: find_order_def split: option.split)
qed

lemma created_le: "created s x y s' \<Longrightarrow> orders_le s s'"
  unfolding orders_le_def created_find by (auto simp: created_def find_order_def dest: find_SomeD)

lemma created_ok:
  assumes ok: "orders_ok s" and c: "created s x y s'" and wf: "wf_order x" and p: "o_Status x = PENDING_PAYMENT"
  shows "orders_ok s'"
proof -
  obtain t where y: "y = x\<lparr>o_CreatedAt := t, o_UpdatedAt := t\<rparr>" and s': "s' = s\<lparr>orders := orders s @ [y]\<rparr>"
    and new: "\<forall>z\<in>set (orders s). o_ID z \<noteq> o_ID x \<and> o_ReservationID z \<noteq> o_ReservationID x \<and>
        \<not> (o_CustomerID z = o_CustomerID x \<and> o_IdempotencyKey z = o_IdempotencyKey x)"
    using c by (auto simp: created_def)
  have "oe_OrderID e \<noteq> o_ID x" if "e \<in> set (oevents s)" for e
  proof -
    have "oe_OrderID e \<in> o_ID ` set (orders s)" using ok that by (simp add: orders_ok_def)
    with new show ?thesis by auto
  qed
  then have none: "written s' (o_ID x) key = []" for key
    by (auto simp: written_def s' filter_empty_conv)
  have "o_PaidAt x = None" using wf_paid [OF wf] p by (auto simp: was_paid_def)
  then have "told s' y" using none p by (simp add: told_def y)
  moreover have "wf_order y" using wf unfolding wf_order_def was_paid_def priced_def y by simp
  moreover have "told s' z" if "told s z" for z
  proof -
    have "written s' i key = written s i key" for i key by (simp add: written_def s')
    with that show ?thesis by (simp add: told_def)
  qed
  ultimately have "\<forall>z\<in>set (orders s'). wf_order z \<and> told s' z"
    using ok unfolding orders_ok_def s' by simp
  moreover have "distinct (map o_ID (orders s'))" "distinct (map o_ReservationID (orders s'))"
    "distinct (map (\<lambda>x. (o_CustomerID x, o_IdempotencyKey x)) (orders s'))"
    using ok new unfolding orders_ok_def s' y by auto
  ultimately show ?thesis
    using ok unfolding orders_ok_def by (simp add: s')
qed

section \<open>Reads and the outbox\<close>

lemma wp_Get_order:
  "wp (Get_order i) (\<lambda>y s' _. s' = s \<and> find_order i s = Some y) (\<lambda>e s' _. s' = s \<and> (e = RNotFound \<longrightarrow> find_order i s = None)) w s n"
  by (auto simp: Get_order_def wp_First split: option.split)

lemma wp_GetByIdempotencyKey:
  "wp (GetByIdempotencyKey c k)
    (\<lambda>y s' _. s' = s \<and> y \<in> set (orders s) \<and> o_CustomerID y = c \<and> o_IdempotencyKey y = k) (\<lambda>e s' _. s' = s) w s n"
  by (auto simp: GetByIdempotencyKey_def wp_rules split: option.split dest: find_SomeD)

lemma wp_query_state: "wp (query e f) (\<lambda>y s' _. s' = s \<and> y = f s) (\<lambda>_ s' _. s' = s) w s n"
  by (simp add: wp_query)

text \<open>Marking an event as published changes nothing else.\<close>

definition published :: "order_db \<Rightarrow> order_db \<Rightarrow> bool" where
  "published s s' \<longleftrightarrow> orders s' = orders s \<and> list_all2 (\<lambda>e e'. \<exists>p. e' = e\<lparr>oe_PublishedAt := p\<rparr>) (oevents s) (oevents s')"

lemma wp_MarkOutboxPublished:
  "wp (MarkOutboxPublished i) (\<lambda>_ s' _. published s s') (\<lambda>_ s' _. s' = s) w s n"
proof -
  have "\<exists>p. e = e\<lparr>oe_PublishedAt := p\<rparr>" for e :: oevent by (rule exI [of _ "oe_PublishedAt e"]) simp
  then show ?thesis
    by (auto simp: MarkOutboxPublished_def wp_rules published_def intro!: list_all2_update_where)
qed

lemma published_written:
  assumes "published s s'" shows "written s' i key = written s i key"
proof -
  have "map oe_Payload (filter (\<lambda>e. oe_OrderID e = i \<and> oe_RoutingKey e = key) ys) =
      map oe_Payload (filter (\<lambda>e. oe_OrderID e = i \<and> oe_RoutingKey e = key) xs)"
    if "list_all2 (\<lambda>e e'. \<exists>p. e' = e\<lparr>oe_PublishedAt := p\<rparr>) xs ys" for xs ys
    using that
  proof (induction rule: list_all2_induct)
    case (Cons e xs e' ys)
    then obtain p where "e' = e\<lparr>oe_PublishedAt := p\<rparr>" by blast
    then have "oe_OrderID e' = oe_OrderID e" "oe_RoutingKey e' = oe_RoutingKey e" "oe_Payload e' = oe_Payload e" by simp_all
    with Cons.IH show ?case by simp
  qed simp
  from this [of "oevents s" "oevents s'"] assms show ?thesis unfolding written_def published_def by blast
qed

lemma published_ok:
  assumes "orders_ok s" and "published s s'" shows "orders_ok s'"
proof -
  have "map oe_ID (oevents s') = map oe_ID (oevents s)" "map oe_OrderID (oevents s') = map oe_OrderID (oevents s)"
    using assms(2) by (auto simp: published_def elim!: list_all2_map_eq)
  then have "distinct (map oe_ID (oevents s'))" "oe_OrderID ` set (oevents s') = oe_OrderID ` set (oevents s)"
    using assms(1) unfolding orders_ok_def by (simp, metis list.set_map)
  moreover have "told s' x = told s x" for x by (simp add: told_def published_written [OF assms(2)])
  moreover have "\<forall>e\<in>set (oevents s'). oe_OrderID e \<in> o_ID ` set (orders s)"
    using assms(1) calculation(2) unfolding orders_ok_def by (metis (no_types, lifting) image_iff)
  ultimately show ?thesis
    using assms by (simp add: orders_ok_def published_def)
qed

lemma went_ok: "orders_ok s \<Longrightarrow> went s i A x y st s' \<Longrightarrow> orders_ok s'"
  and went_le: "orders_ok s \<Longrightarrow> went s i A x y st s' \<Longrightarrow> orders_le s s'"
  by (auto simp: went_def intro: order_moved_ok order_moved_le)

end
