(* ===== verification/Inventory_Effects.thy ===== *)
theory Inventory_Effects
  imports Inventory_Calls Inventory_Rpc
begin

text \<open>
  What a client of the inventory service can rely on, call by call: the answer that is on record
  under an idempotency key, the status of the reservation the call works on, and the footprint
  outside which nothing changes. These are the laws the order service builds on.
\<close>

section \<open>A key that has been used\<close>

lemma wp_mutate_seen:
  assumes "find_idem (op, key) s = Some x"
  shows "wp (mutate enc dec svc op key input fn)
    (\<lambda>a s' _. s' = s \<and> (\<exists>resp. committed (op, key) (s_hash svc input) resp s \<and> dec resp = Some a))
    (\<lambda>e s' _. s' = s \<and> e \<in> {ErrStorage, ErrConflict, ErrIdemMissing, ErrDecode}) w s n"
proof -
  have "(op, key) \<in> id_Key ` set (idempotency s)"
    using assms find_idem_key [of "(op, key)" s] by simp
  then have "wp (mutate_body enc dec (s_hash svc input) [(op, key)] fn)
      (\<lambda>r s' _. \<exists>a. r = Discard a \<and> (\<exists>resp. committed (op, key) (s_hash svc input) resp s \<and> dec resp = Some a))
      (\<lambda>e _ _. e \<in> {ErrStorage, ErrConflict, ErrIdemMissing, ErrDecode}) w s (Suc n)"
    using assms by (auto simp: mutate_body_def insert_idem_def committed_def wp_rules split: option.split)
  then show ?thesis
    by (auto simp: wp_def mutate_def mutateKeys_def atomically_def split: sum.splits prod.splits outcome.splits)
qed

section \<open>Confirm and release\<close>

text \<open>The answer to a transition is on record.\<close>

definition answered :: "service \<Rightarrow> string \<Rightarrow> transition_input \<Rightarrow> inv_db \<Rightarrow> bool" where
  "answered svc op q s \<longleftrightarrow> (\<exists>r. committed (op, ti_Key q) (s_hash svc (QTransition q)) (PReservation r) s)"

lemma answered_grows: "answered svc op q s \<Longrightarrow> grows s s' \<Longrightarrow> answered svc op q s'"
  unfolding answered_def using committed_grows by blast

lemma answered_used: "answered svc op q s \<Longrightarrow> \<exists>x. find_idem (op, ti_Key q) s = Some x"
  by (auto simp: answered_def committed_def)

lemma answeredI:
  "committed (op, ti_Key q) (s_hash svc (QTransition q)) resp s \<Longrightarrow> dec_reservation resp = Some r \<Longrightarrow> answered svc op q s"
  unfolding answered_def by (cases resp) auto

text \<open>
  The first transition with a key took effect: the reservation was the order's, and if it was
  confirmed just now the clock had not reached its expiry.
\<close>

definition took :: "bool \<Rightarrow> world \<Rightarrow> inv_db \<Rightarrow> transition_input \<Rightarrow> inv_db \<Rightarrow> bool" where
  "took confirm w s q s' \<longleftrightarrow> settles s s' (ti_ReservationID q) (settle_targets confirm) \<and>
     (\<exists>row. owned s (ti_ReservationID q) (ti_OrderID q) = Some row \<and>
       (rr_Status row = RActive \<or> rr_Status row \<in> settle_targets confirm) \<and>
       (confirm \<longrightarrow> rr_Status row = RActive \<longrightarrow> (\<exists>k. w_clock w k < rr_ExpiresAt row)))"

lemma transition_result_took:
  assumes "inv_ok s" and "transition_result w s q confirm False r s'"
  shows "took confirm w s q s'"
proof -
  have "settles s s' (ti_ReservationID q) (settle_targets confirm)"
    using transition_result_settles [OF assms] by simp
  with assms(2) show ?thesis
    by (auto simp: took_def transition_result_def reservation_of_def split: if_splits)
qed

lemma owned_claimed [simp]: "owned (claimed h ks s) rid oid = owned s rid oid"
  by (simp add: owned_def claimed_def)

lemma transition_error_stock: "\<not> transition_error w s q confirm ErrStock"
  by (simp add: transition_error_def)

lemma wp_Transition_spec:
  assumes inv: "inv_ok s" and q: "transition_request svc confirm i = Some q"
  shows "wp (Transition svc c confirm i)
    (\<lambda>r s' _. answered svc (settle_op confirm) q s' \<and>
       (find_idem (settle_op confirm, ti_Key q) s \<noteq> None \<and> s' = s \<or>
        find_idem (settle_op confirm, ti_Key q) s = None \<and> took confirm w s q s'))
    (\<lambda>e s' _. s' = s \<and> e \<noteq> ErrStock \<and>
         (e = ErrState \<longrightarrow> find_idem (settle_op confirm, ti_Key q) s = None \<and> transition_error w s q confirm e) \<or>
       e = ErrStorage \<and> answered svc (settle_op confirm) q s' \<and>
       find_idem (settle_op confirm, ti_Key q) s = None \<and> took confirm w s q s') w s n"
    (is "wp _ ?Q ?E w s n")
proof (cases "find_idem (settle_op confirm, ti_Key q) s")
  case (Some x)
  show ?thesis
    unfolding Transition_mutate [OF q]
    by (rule wp_mono [OF wp_mutate_seen [OF Some]]) (auto simp: Some intro: answeredI)
next
  case None
  let ?c = "claimed (s_hash svc (QTransition q)) [(settle_op confirm, ti_Key q)] s"
  let ?P = "\<lambda>r s'. answered svc (settle_op confirm) q s' \<and> took confirm w s q s'"
  have inv': "inv_ok ?c" using inv by simp
  have fn: "wp (transition c q confirm False) (\<lambda>r s' _. took confirm w ?c q s' \<and> idempotency s' = idempotency ?c)
      (\<lambda>e _ _. transition_error w s q confirm e) w ?c n'" for n'
  proof (rule wp_mono [OF wp_transition [OF inv']])
    show "took confirm w ?c q s' \<and> idempotency s' = idempotency ?c" if "transition_result w ?c q confirm False r s'" for r s'
      using transition_result_took [OF inv' that] advances_transition_result [OF inv' that] by blast
  qed (simp only: error_reads)
  have P: "?P r (saved [(settle_op confirm, ti_Key q)] (PReservation r) s1)"
    if "took confirm w ?c q s1" "idempotency s1 = idempotency ?c"
      "committed (settle_op confirm, ti_Key q) (s_hash svc (QTransition q)) (PReservation r)
         (saved [(settle_op confirm, ti_Key q)] (PReservation r) s1)" for r s1
    using that settles_envelope [OF inv fresh_single [OF None], of _ s1 "ti_ReservationID q" "settle_targets confirm"]
    unfolding took_def answered_def owned_claimed by blast
  have F: "transition_error w s q confirm ErrStorage" by (simp add: transition_error_def)
  show ?thesis
    unfolding Transition_mutate [OF q]
    by (rule wp_mono [OF wp_first_call [where P = ?P, OF inv None fn P F]])
       (use None transition_error_stock in blast)+
qed

section \<open>Return\<close>

definition returned :: "inv_db \<Rightarrow> transition_input \<Rightarrow> inv_db \<Rightarrow> bool" where
  "returned s q s' \<longleftrightarrow> settles s s' (ti_ReservationID q) {RReturned} \<and>
     (\<exists>row. owned s (ti_ReservationID q) (ti_OrderID q) = Some row \<and> rr_Status row \<in> {RConfirmed, RReturned})"

lemma return_result_returned:
  assumes "inv_ok s" and "return_result s q r s'" shows "returned s q s'"
  using assms return_result_settles [OF assms] by (auto simp: returned_def return_result_def split: if_splits)

lemma wp_Return_spec:
  assumes inv: "inv_ok s" and q: "return_request svc i = Some q"
  shows "wp (Return svc c i)
    (\<lambda>r s' _. answered svc ''return'' q s' \<and>
       (find_idem (''return'', ti_Key q) s \<noteq> None \<and> s' = s \<or> find_idem (''return'', ti_Key q) s = None \<and> returned s q s'))
    (\<lambda>e s' _. s' = s \<or> e = ErrStorage \<and> answered svc ''return'' q s' \<and>
       find_idem (''return'', ti_Key q) s = None \<and> returned s q s') w s n"
proof (cases "find_idem (''return'', ti_Key q) s")
  case (Some x)
  show ?thesis
    unfolding Return_mutate [OF q]
    by (rule wp_mono [OF wp_mutate_seen [OF Some]]) (auto simp: Some intro: answeredI)
next
  case None
  let ?c = "claimed (s_hash svc (QTransition q)) [(''return'', ti_Key q)] s"
  let ?P = "\<lambda>r s'. answered svc ''return'' q s' \<and> returned s q s'"
  have inv': "inv_ok ?c" using inv by simp
  have fn: "wp (returnConfirmed c q) (\<lambda>r s' _. returned ?c q s' \<and> idempotency s' = idempotency ?c)
      (\<lambda>e _ _. return_error s q e) w ?c n'" for n'
  proof (rule wp_mono [OF wp_returnConfirmed [OF inv']])
    show "returned ?c q s' \<and> idempotency s' = idempotency ?c" if "return_result ?c q r s'" for r s'
      using return_result_returned [OF inv' that] advances_return_result [OF inv' that] by blast
  qed (simp only: error_reads)
  have P: "?P r (saved [(''return'', ti_Key q)] (PReservation r) s1)"
    if "returned ?c q s1" "idempotency s1 = idempotency ?c"
      "committed (''return'', ti_Key q) (s_hash svc (QTransition q)) (PReservation r)
         (saved [(''return'', ti_Key q)] (PReservation r) s1)" for r s1
    using that settles_envelope [OF inv fresh_single [OF None], of _ s1 "ti_ReservationID q" "{RReturned}"]
    unfolding returned_def answered_def owned_claimed by blast
  have F: "return_error s q ErrStorage" by (simp add: return_error_def)
  show ?thesis
    unfolding Return_mutate [OF q]
    by (rule wp_mono [OF wp_first_call [where P = ?P, OF inv None fn P F]]) (use None in blast)+
qed

section \<open>Reserve\<close>

lemma wp_Reserve_spec:
  assumes inv: "inv_ok s" and q: "reserve_request svc i = Some q"
  shows "wp (Reserve svc c i)
    (\<lambda>r s' _. committed (''reserve'', ri_Key q) (s_hash svc (QReserve q)) (PReservation r) s' \<and>
       (s' = s \<or> find_idem (''reserve'', ri_Key q) s = None \<and> made_reservation svc w s q r s'))
    (\<lambda>e s' _. s' = s \<or> find_idem (''reserve'', ri_Key q) s = None \<and> (\<exists>r. made_reservation svc w s q r s')) w s n"
proof (cases "find_idem (''reserve'', ri_Key q) s")
  case (Some x)
  have "committed (''reserve'', ri_Key q) (s_hash svc (QReserve q)) (PReservation r) s"
    if "committed (''reserve'', ri_Key q) (s_hash svc (QReserve q)) resp s" "dec_reservation resp = Some r" for resp r
    using that by (cases resp) auto
  then show ?thesis
    unfolding Reserve_mutate [OF q] by (intro wp_mono [OF wp_mutate_seen [OF Some]]) auto
next
  case None
  show ?thesis
    by (rule wp_mono [OF wp_Reserve_first [OF inv q None]]) (auto simp: None made_reservation_def)
qed

section \<open>The answers on record are true\<close>

fun done_statuses :: "string \<Rightarrow> res_status set" where
  "done_statuses op = (if op = ''confirm'' then {RConfirmed, RReturned}
     else if op = ''release'' then {RReleased, RExpired} else {RReturned})"

text \<open>
  Every answer of a confirm, release or return on record describes the order's reservation, which
  has moved on at most from confirmed to returned; every answer of a reserve describes a
  reservation of its order.
\<close>

definition answers_ok :: "service \<Rightarrow> inv_db \<Rightarrow> bool" where
  "answers_ok svc s \<longleftrightarrow>
     (\<forall>op q. op \<in> {''confirm'', ''release'', ''return''} \<longrightarrow> answered svc op q s \<longrightarrow>
        (\<exists>row. owned s (ti_ReservationID q) (ti_OrderID q) = Some row \<and> rr_Status row \<in> done_statuses op)) \<and>
     (\<forall>q r. committed (''reserve'', ri_Key q) (s_hash svc (QReserve q)) (PReservation r) s \<longrightarrow>
        (\<exists>row. find_res (r_ID r) s = Some row \<and> rr_OrderID row = ri_OrderID q \<and> rr_ExpiresAt row = r_ExpiresAt r))"

lemma answers_ok_settle:
  "answers_ok svc s \<Longrightarrow> answered svc op q s \<Longrightarrow> op \<in> {''confirm'', ''release'', ''return''} \<Longrightarrow>
    \<exists>row. owned s (ti_ReservationID q) (ti_OrderID q) = Some row \<and> rr_Status row \<in> done_statuses op"
  unfolding answers_ok_def by blast

lemma answers_ok_reserve:
  "answers_ok svc s \<Longrightarrow> committed (''reserve'', ri_Key q) (s_hash svc (QReserve q)) (PReservation r) s \<Longrightarrow>
    \<exists>row. find_res (r_ID r) s = Some row \<and> rr_OrderID row = ri_OrderID q \<and> rr_ExpiresAt row = r_ExpiresAt r"
  unfolding answers_ok_def by blast

lemma done_later: "st \<in> done_statuses op \<Longrightarrow> later st st' \<Longrightarrow> st' \<in> done_statuses op"
  by (cases st) (auto split: if_splits)

lemma find_res_grows:
  "grows s s' \<Longrightarrow> find_res rid s = Some row \<Longrightarrow> \<exists>row'. find_res rid s' = Some row' \<and> row_grows row row'"
  by (auto simp: grows_def keeps_reservations_def)

lemma owned_grows:
  assumes "grows s s'" and "owned s rid oid = Some row"
  shows "\<exists>row'. owned s' rid oid = Some row' \<and> row_grows row row'"
proof -
  have "find_res rid s = Some row" "rr_OrderID row = oid" using assms(2) by (auto simp: owned_def split: option.splits if_splits)
  with find_res_grows [OF assms(1)] obtain row' where "find_res rid s' = Some row'" "row_grows row row'" by blast
  with \<open>rr_OrderID row = oid\<close> show ?thesis by (auto simp: owned_def row_grows_def)
qed

lemma owned_done_grows:
  "grows s s' \<Longrightarrow> owned s rid oid = Some row \<Longrightarrow> rr_Status row \<in> done_statuses op \<Longrightarrow>
    \<exists>row'. owned s' rid oid = Some row' \<and> rr_Status row' \<in> done_statuses op"
  using owned_grows done_later unfolding row_grows_def by metis

lemma committed_other: "find_idem k s' = find_idem k s \<Longrightarrow> committed k h resp s' = committed k h resp s"
  by (simp add: committed_def)

text \<open>The answers stay true as long as the new ones, under the keys \<open>K\<close>, are.\<close>

lemma answers_ok_step:
  assumes ok: "answers_ok svc s" and eff: "effects K M s s'"
    and settle: "\<And>op q. op \<in> {''confirm'', ''release'', ''return''} \<Longrightarrow> (op, ti_Key q) \<in> K \<Longrightarrow> answered svc op q s' \<Longrightarrow>
        \<exists>row. owned s' (ti_ReservationID q) (ti_OrderID q) = Some row \<and> rr_Status row \<in> done_statuses op"
    and reserve: "\<And>q r. (''reserve'', ri_Key q) \<in> K \<Longrightarrow>
        committed (''reserve'', ri_Key q) (s_hash svc (QReserve q)) (PReservation r) s' \<Longrightarrow>
        \<exists>row. find_res (r_ID r) s' = Some row \<and> rr_OrderID row = ri_OrderID q \<and> rr_ExpiresAt row = r_ExpiresAt r"
  shows "answers_ok svc s'"
proof -
  have grow: "grows s s'" and same: "k \<notin> K \<Longrightarrow> find_idem k s' = find_idem k s" for k
    using eff by (cases k; simp add: effects_def advances_def)+
  have "\<exists>row. owned s' (ti_ReservationID q) (ti_OrderID q) = Some row \<and> rr_Status row \<in> done_statuses op"
    if "op \<in> {''confirm'', ''release'', ''return''}" "answered svc op q s'" for op q
  proof (cases "(op, ti_Key q) \<in> K")
    case False
    with that(2) have "answered svc op q s" by (simp add: answered_def committed_other [OF same])
    with answers_ok_settle [OF ok _ that(1)] owned_done_grows [OF grow] show ?thesis by blast
  qed (use that settle in blast)
  moreover have "\<exists>row. find_res (r_ID r) s' = Some row \<and> rr_OrderID row = ri_OrderID q \<and> rr_ExpiresAt row = r_ExpiresAt r"
    if "committed (''reserve'', ri_Key q) (s_hash svc (QReserve q)) (PReservation r) s'" for q r
  proof (cases "(''reserve'', ri_Key q) \<in> K")
    case False
    with that have "committed (''reserve'', ri_Key q) (s_hash svc (QReserve q)) (PReservation r) s"
      by (simp add: committed_other [OF same])
    with answers_ok_reserve [OF ok] find_res_grows [OF grow] show ?thesis unfolding row_grows_def by metis
  qed (use that reserve in blast)
  ultimately show ?thesis unfolding answers_ok_def by blast
qed

lemma answered_unique:
  assumes "inj (s_hash svc)" and "answered svc op q s" and "answered svc op p s" and "ti_Key q = ti_Key p"
  shows "q = p"
proof -
  have "s_hash svc (QTransition q) = s_hash svc (QTransition p)"
    using assms(2-4) by (auto simp: answered_def committed_def)
  then show ?thesis using assms(1) by (auto dest: injD)
qed

section \<open>The state after a call\<close>

lemma Transition_cases:
  assumes "inv_ok s"
  obtains (same) "state_of (Transition svc c confirm i w s n) = s"
  | (took) q where "transition_request svc confirm i = Some q" "find_idem (settle_op confirm, ti_Key q) s = None"
      "answered svc (settle_op confirm) q (state_of (Transition svc c confirm i w s n))"
      "took confirm w s q (state_of (Transition svc c confirm i w s n))"
      "effects {(settle_op confirm, ti_Key q)} {ti_ReservationID q} s (state_of (Transition svc c confirm i w s n))"
proof (cases "transition_request svc confirm i")
  case None
  with Transition_rejected [OF this, of c] same show ?thesis by (auto simp: throw_def)
next
  case (Some q)
  then have ids: "ID svc (ti_ReservationID i) = Inr (ti_ReservationID q)" "ID svc (ti_Key i) = Inr (ti_Key q)"
    by (auto simp: transition_request_def split: sum.splits if_splits)
  have eff: "effects {(settle_op confirm, ti_Key q)} {ti_ReservationID q} s (state_of (Transition svc c confirm i w s n))"
    by (rule bounded_state [OF bounded_Transition assms]) (use ids in auto)
  from wp_Transition_spec [OF assms Some, of c w n] show ?thesis
    unfolding wp_result using same took [OF Some _ _ _ eff]
    by (cases "result_of (Transition svc c confirm i w s n)") auto
qed

lemma Return_cases:
  assumes "inv_ok s"
  obtains (same) "state_of (Return svc c i w s n) = s"
  | (took) q where "return_request svc i = Some q" "find_idem (''return'', ti_Key q) s = None"
      "answered svc ''return'' q (state_of (Return svc c i w s n))" "returned s q (state_of (Return svc c i w s n))"
      "effects {(''return'', ti_Key q)} {ti_ReservationID q} s (state_of (Return svc c i w s n))"
proof (cases "return_request svc i")
  case None
  with Return_rejected [OF this, of c] same show ?thesis by (auto simp: throw_def)
next
  case (Some q)
  then have ids: "ID svc (ti_ReservationID i) = Inr (ti_ReservationID q)" "ID svc (ti_Key i) = Inr (ti_Key q)"
    by (auto simp: return_request_def transition_request_def split: sum.splits if_splits)
  have eff: "effects {(''return'', ti_Key q)} {ti_ReservationID q} s (state_of (Return svc c i w s n))"
    by (rule bounded_state [OF bounded_Return assms]) (use ids in auto)
  from wp_Return_spec [OF assms Some, of c w n] show ?thesis
    unfolding wp_result using same took [OF Some _ _ _ eff]
    by (cases "result_of (Return svc c i w s n)") auto
qed

lemma Reserve_cases:
  assumes "inv_ok s"
  obtains (same) "state_of (Reserve svc c i w s n) = s"
  | (made) q r where "reserve_request svc i = Some q" "find_idem (''reserve'', ri_Key q) s = None"
      "made_reservation svc w s q r (state_of (Reserve svc c i w s n))"
      "effects {(''reserve'', ri_Key q)} UNIV s (state_of (Reserve svc c i w s n))"
proof (cases "reserve_request svc i")
  case None
  with Reserve_rejected [OF this, of c] same show ?thesis by (auto simp: throw_def)
next
  case (Some q)
  then have "ID svc (ri_Key i) = Inr (ri_Key q)"
    by (auto simp: reserve_request_def split: sum.splits)
  then have eff: "effects {(''reserve'', ri_Key q)} UNIV s (state_of (Reserve svc c i w s n))"
    by (intro bounded_state [OF bounded_Reserve assms]) auto
  from wp_Reserve_spec [OF assms Some, of c w n] show ?thesis
    unfolding wp_result using same made [OF Some _ _ eff]
    by (cases "result_of (Reserve svc c i w s n)") auto
qed

section \<open>Every call keeps the answers true\<close>

lemma took_owned:
  assumes "took confirm w s q s'"
  shows "\<exists>row. owned s' (ti_ReservationID q) (ti_OrderID q) = Some row \<and> rr_Status row \<in> settle_targets confirm"
proof -
  obtain row where "owned s (ti_ReservationID q) (ti_OrderID q) = Some row" and "grows s s'"
    and st: "\<exists>st\<in>settle_targets confirm. status_of s' (ti_ReservationID q) = Some st"
    using assms by (auto simp: took_def settles_def advances_def)
  then obtain row' where "owned s' (ti_ReservationID q) (ti_OrderID q) = Some row'" using owned_grows by blast
  with st owned_status [OF this] show ?thesis by auto
qed

lemma returned_owned:
  assumes "returned s q s'"
  shows "\<exists>row. owned s' (ti_ReservationID q) (ti_OrderID q) = Some row \<and> rr_Status row = RReturned"
proof -
  obtain row where "owned s (ti_ReservationID q) (ti_OrderID q) = Some row" and "grows s s'"
    and st: "status_of s' (ti_ReservationID q) = Some RReturned"
    using assms by (auto simp: returned_def settles_def advances_def)
  then obtain row' where "owned s' (ti_ReservationID q) (ti_OrderID q) = Some row'" using owned_grows by blast
  with st owned_status [OF this] show ?thesis by auto
qed

lemma answers_ok_Transition:
  assumes inv: "inv_ok s" and ok: "answers_ok svc s" and inj: "inj (s_hash svc)"
  shows "answers_ok svc (state_of (Transition svc c confirm i w s n))"
proof (cases rule: Transition_cases [OF inv, of svc c confirm i w n, case_names same took])
  case (took q)
  show ?thesis
  proof (rule answers_ok_step [OF ok took(5)])
    fix op p
    assume p: "(op, ti_Key p) \<in> {(settle_op confirm, ti_Key q)}"
      "answered svc op p (state_of (Transition svc c confirm i w s n))"
    then have "p = q" using answered_unique [OF inj _ took(3)] by auto
    with p took_owned [OF took(4)] show "\<exists>row. owned (state_of (Transition svc c confirm i w s n)) (ti_ReservationID p) (ti_OrderID p) = Some row \<and>
        rr_Status row \<in> done_statuses op"
      by (auto split: if_splits)
  qed (auto split: if_splits)
qed (use ok in simp)

lemma answers_ok_Return:
  assumes inv: "inv_ok s" and ok: "answers_ok svc s" and inj: "inj (s_hash svc)"
  shows "answers_ok svc (state_of (Return svc c i w s n))"
proof (cases rule: Return_cases [OF inv, of svc c i w n, case_names same took])
  case (took q)
  show ?thesis
  proof (rule answers_ok_step [OF ok took(5)])
    fix op p
    assume p: "(op, ti_Key p) \<in> {(''return'', ti_Key q)}"
      "answered svc op p (state_of (Return svc c i w s n))"
    then have "p = q" using answered_unique [OF inj _ took(3)] by auto
    with p returned_owned [OF took(4)] show "\<exists>row. owned (state_of (Return svc c i w s n)) (ti_ReservationID p) (ti_OrderID p) = Some row \<and>
        rr_Status row \<in> done_statuses op"
      by auto
  qed auto
qed (use ok in simp)

lemma answers_ok_Reserve:
  assumes inv: "inv_ok s" and ok: "answers_ok svc s" and inj: "inj (s_hash svc)"
  shows "answers_ok svc (state_of (Reserve svc c i w s n))"
proof (cases rule: Reserve_cases [OF inv, of svc c i w n, case_names same made])
  case (made q r)
  let ?s = "state_of (Reserve svc c i w s n)"
  show ?thesis
  proof (rule answers_ok_step [OF ok made(4)])
    fix p r'
    assume p: "(''reserve'', ri_Key p) \<in> {(''reserve'', ri_Key q)}"
      "committed (''reserve'', ri_Key p) (s_hash svc (QReserve p)) (PReservation r') ?s"
    have "committed (''reserve'', ri_Key q) (s_hash svc (QReserve q)) (PReservation r) ?s"
      using made(3) by (simp add: made_reservation_def)
    with p have "r' = r" "s_hash svc (QReserve p) = s_hash svc (QReserve q)" by (auto simp: committed_def)
    then have "r' = r" "p = q" using inj by (auto dest: injD)
    with made(3) show "\<exists>row. find_res (r_ID r') ?s = Some row \<and> rr_OrderID row = ri_OrderID p \<and> rr_ExpiresAt row = r_ExpiresAt r'"
      by (auto simp: made_reservation_def reserved_def reservation_of_def)
  qed auto
qed (use ok in simp)

text \<open>What the staff and the sweeper do never touches the answers of the order service.\<close>

lemma answers_ok_staff:
  assumes "answers_ok svc s" and "effects staff_keys {} s s'"
  shows "answers_ok svc s'"
  by (rule answers_ok_step [OF assms]) (auto simp: staff_keys_def)

lemma answers_ok_empty: "answers_ok svc empty_inv"
  by (simp add: answers_ok_def answered_def committed_def empty_inv_def)

end
