(* ===== verification/Order_Saga.thy ===== *)
theory Order_Saga
  imports Order_Repo Inventory_Effects
begin

text \<open>
  The order service and the inventory service together. \<open>saga\<close> is the invariant that ties the
  status of an order to the status of its reservation, whatever handlers run at the same time,
  whatever fails and however late a request arrives. This theory shows that the invariant is kept
  by everything the inventory service does; \<open>Order_Steps\<close> shows it for the handlers.
\<close>

section \<open>What the libraries are taken to do\<close>

text \<open>
  Both services parse UUIDs with the same library function, whose printed result is in canonical
  form; \<open>uuid.NewSHA1(..).String()\<close> is in canonical form; the hash of a request (SHA-256 of its
  JSON) has no collisions.
\<close>

definition lawful :: "order_svc \<Rightarrow> bool" where
  "lawful v \<longleftrightarrow> s_uuidParse (v_inventory v) = v_uuidParse v \<and>
     (\<forall>z y. v_uuidParse v z = Some y \<longrightarrow> v_uuidParse v y = Some y) \<and>
     (\<forall>z. v_uuidParse v (v_sha1 v z) = Some (v_sha1 v z)) \<and> inj (s_hash (v_inventory v))"

abbreviation canonical :: "order_svc \<Rightarrow> string \<Rightarrow> bool" where
  "canonical v z \<equiv> v_uuidParse v z = Some z"

lemma ID_canonical: "lawful v \<Longrightarrow> canonical v z \<Longrightarrow> ID (v_inventory v) z = Inr y \<Longrightarrow> y = z"
  by (auto simp: lawful_def ID_def split: if_splits)

section \<open>Orders and reservations\<close>

definition confirm_input :: "order \<Rightarrow> transition_input" where
  "confirm_input x = \<lparr>ti_ReservationID = o_ReservationID x, ti_OrderID = o_ID x,
     ti_Key = o_ConfirmIdempotencyKey x, ti_Reason = []\<rparr>"

text \<open>A payment is being or has been accepted; the store has claimed the order back.\<close>

definition charged :: "order \<Rightarrow> bool" where
  "charged x \<longleftrightarrow> o_Status x = PAYMENT_CONFIRMING \<or> was_paid x"

definition store_claimed :: "order \<Rightarrow> bool" where
  "store_claimed x \<longleftrightarrow> o_Status x = STORE_CANCEL_PENDING \<or>
     (o_Status x = CANCELLED \<and> o_CancellationReason x = ReasonStoreCancelled)"

text \<open>A hold that can never be confirmed any more.\<close>

definition dead :: "sys \<Rightarrow> string \<Rightarrow> bool" where
  "dead s rid \<longleftrightarrow> (\<exists>row. find_res rid (s_inv s) = Some row \<and>
     (rr_Status row \<in> {RReleased, RExpired} \<or> rr_Status row = RActive \<and> rr_ExpiresAt row \<le> s_clk s))"

abbreviation stock :: "sys \<Rightarrow> string \<Rightarrow> res_status option" where
  "stock s rid \<equiv> status_of (s_inv s) rid"

abbreviation sold :: "sys \<Rightarrow> string \<Rightarrow> bool" where
  "sold s rid \<equiv> stock s rid = Some RConfirmed \<or> stock s rid = Some RReturned"

text \<open>The order and its reservation agree.\<close>

definition agrees :: "sys \<Rightarrow> order \<Rightarrow> bool" where
  "agrees s x \<longleftrightarrow>
     (\<exists>row. owned (s_inv s) (o_ReservationID x) (o_ID x) = Some row \<and> rr_ExpiresAt row = o_ReservationExpiresAt x) \<and>
     (was_paid x \<longrightarrow> sold s (o_ReservationID x)) \<and>
     (o_Status x = CANCELLED \<longrightarrow>
        (if o_CancellationReason x = ReasonStoreCancelled then stock s (o_ReservationID x) = Some RReturned
         else stock s (o_ReservationID x) \<in> {Some RReleased, Some RExpired})) \<and>
     (sold s (o_ReservationID x) \<longrightarrow> charged x) \<and>
     (stock s (o_ReservationID x) = Some RReturned \<longrightarrow> store_claimed x)"

definition well_keyed :: "order_svc \<Rightarrow> order \<Rightarrow> bool" where
  "well_keyed v x \<longleftrightarrow> canonical v (o_ID x) \<and> canonical v (o_ReservationID x) \<and>
     canonical v (o_ConfirmIdempotencyKey x) \<and> canonical v (o_ReleaseIdempotencyKey x)"

text \<open>The requests that are under way.\<close>

definition sent_ok :: "order_svc \<Rightarrow> sys \<Rightarrow> inv_call \<Rightarrow> bool" where
  "sent_ok v s c \<longleftrightarrow> (case c of
     ConfirmReservation r \<Rightarrow> \<exists>x\<in>set (orders (s_orders s)). r = confirm_request x \<and> (charged x \<or> dead s (o_ReservationID x))
   | ReturnConfirmedReservation r \<Rightarrow> \<exists>x\<in>set (orders (s_orders s)). r = return_request_of v x \<and> store_claimed x
   | _ \<Rightarrow> True)"

definition saga :: "order_svc \<Rightarrow> sys \<Rightarrow> bool" where
  "saga v s \<longleftrightarrow> inv_ok (s_inv s) \<and> no_archived (s_inv s) \<and> answers_ok (v_inventory v) (s_inv s) \<and>
     orders_ok (s_orders s) \<and>
     (\<forall>rid row. find_res rid (s_inv s) = Some row \<longrightarrow> canonical v rid) \<and>
     (\<forall>x\<in>set (orders (s_orders s)). well_keyed v x \<and> agrees s x \<and>
        (sold s (o_ReservationID x) \<longrightarrow> answered (v_inventory v) ''confirm'' (confirm_input x) (s_inv s))) \<and>
     (\<forall>c\<in>set (s_sent s). sent_ok v s c) \<and>
     (\<forall>rid. sold s rid \<longrightarrow> rid \<in> o_ReservationID ` set (orders (s_orders s)))"

text \<open>How the system may evolve.\<close>

definition may_confirm :: "sys \<Rightarrow> string \<Rightarrow> bool" where
  "may_confirm s i \<longleftrightarrow> (\<exists>x. find_order i (s_orders s) = Some x \<and> (charged x \<or> dead s (o_ReservationID x)))"

definition sys_le :: "sys \<Rightarrow> sys \<Rightarrow> bool" where
  "sys_le s t \<longleftrightarrow> grows (s_inv s) (s_inv t) \<and> s_clk s \<le> s_clk t \<and> orders_le (s_orders s) (s_orders t) \<and>
     (\<forall>rid. dead s rid \<longrightarrow> dead t rid) \<and> (\<forall>i. may_confirm s i \<longrightarrow> may_confirm t i)"

definition saga_rel :: "order_svc \<Rightarrow> sys \<Rightarrow> sys \<Rightarrow> bool" where
  "saga_rel v s t \<longleftrightarrow> saga v s \<and> saga v t \<and> sys_le s t"

lemma sys_le_refl [simp]: "sys_le s s"
  by (simp add: sys_le_def)

lemma sys_le_trans: "sys_le s t \<Longrightarrow> sys_le t u \<Longrightarrow> sys_le s u"
  unfolding sys_le_def using grows_trans orders_le_trans by (meson order_trans)

lemma saga_rel_refl: "saga v s \<Longrightarrow> saga_rel v s s"
  by (simp add: saga_rel_def)

lemma saga_rel_trans: "saga_rel v s t \<Longrightarrow> saga_rel v t u \<Longrightarrow> saga_rel v s u"
  unfolding saga_rel_def using sys_le_trans by blast

section \<open>Moves of a reservation\<close>

text \<open>What can happen to a reservation while one call runs in the environment \<open>w\<close>.\<close>

inductive res_move :: "order_svc \<Rightarrow> world \<Rightarrow> sys \<Rightarrow> inv_db \<Rightarrow> string \<Rightarrow> bool" for v w s db rid where
  idle: "idle (stock s rid) (status_of db rid) \<Longrightarrow> res_move v w s db rid"
| reserve: "stock s rid = None \<Longrightarrow> status_of db rid = Some RActive \<Longrightarrow> canonical v rid \<Longrightarrow> res_move v w s db rid"
| release: "stock s rid = Some RActive \<Longrightarrow> status_of db rid \<in> {Some RReleased, Some RExpired} \<Longrightarrow> res_move v w s db rid"
| confirm: "ConfirmReservation r \<in> set (s_sent s) \<Longrightarrow> pt_ReservationId r = rid \<Longrightarrow>
    find_res rid (s_inv s) = Some row \<Longrightarrow> rr_Status row = RActive \<Longrightarrow> w_clock w k < rr_ExpiresAt row \<Longrightarrow>
    status_of db rid = Some RConfirmed \<Longrightarrow>
    answered (v_inventory v) ''confirm'' \<lparr>ti_ReservationID = pt_ReservationId r, ti_OrderID = pt_OrderId r,
       ti_Key = pt_IdempotencyKey r, ti_Reason = []\<rparr> db \<Longrightarrow> res_move v w s db rid"
| giveback: "ReturnConfirmedReservation r \<in> set (s_sent s) \<Longrightarrow> pt_ReservationId r = rid \<Longrightarrow>
    stock s rid = Some RConfirmed \<Longrightarrow> status_of db rid = Some RReturned \<Longrightarrow> res_move v w s db rid"

definition inv_moved :: "order_svc \<Rightarrow> world \<Rightarrow> sys \<Rightarrow> inv_db \<Rightarrow> bool" where
  "inv_moved v w s db \<longleftrightarrow> advances (s_inv s) db \<and> answers_ok (v_inventory v) db \<and> (\<forall>rid. res_move v w s db rid)"

text \<open>Clock readings of the inventory service during a step, and the ids it draws.\<close>

definition admitted :: "order_svc \<Rightarrow> world \<Rightarrow> time \<Rightarrow> sys \<Rightarrow> bool" where
  "admitted v w clk s \<longleftrightarrow> (\<forall>k. s_clk s \<le> w_clock w k \<and> w_clock w k \<le> clk) \<and> (\<forall>k. canonical v (w_uuid w k))"

lemma admitted_clk: "admitted v w clk s \<Longrightarrow> s_clk s \<le> clk"
  unfolding admitted_def by (meson order_trans)

section \<open>The invariant is kept\<close>

lemma sagaD:
  assumes "saga v s"
  shows "inv_ok (s_inv s)" and "no_archived (s_inv s)" and "answers_ok (v_inventory v) (s_inv s)" and "orders_ok (s_orders s)"
    and "\<And>x. x \<in> set (orders (s_orders s)) \<Longrightarrow> well_keyed v x \<and> agrees s x"
    and "\<And>x. x \<in> set (orders (s_orders s)) \<Longrightarrow> sold s (o_ReservationID x) \<Longrightarrow>
      answered (v_inventory v) ''confirm'' (confirm_input x) (s_inv s)"
    and "\<And>c. c \<in> set (s_sent s) \<Longrightarrow> sent_ok v s c"
    and "\<And>rid. sold s rid \<Longrightarrow> rid \<in> o_ReservationID ` set (orders (s_orders s))"
    and "\<And>rid row. find_res rid (s_inv s) = Some row \<Longrightarrow> canonical v rid"
  using assms unfolding saga_def by blast+

lemma same_reservation:
  "orders_ok db \<Longrightarrow> x \<in> set (orders db) \<Longrightarrow> y \<in> set (orders db) \<Longrightarrow> o_ReservationID x = o_ReservationID y \<Longrightarrow> x = y"
  unfolding orders_ok_def by (metis distinct_key_eq)

lemma status_of_find: "find_res rid db = Some row \<Longrightarrow> status_of db rid = Some (rr_Status row)"
  by (simp add: status_of_def)

lemma stock_later:
  "grows s db \<Longrightarrow> status_of s rid = Some st \<Longrightarrow> \<exists>st'. status_of db rid = Some st' \<and> later st st'"
  unfolding status_of_def using find_res_grows by (fastforce simp: row_grows_def)

lemma dead_not_sold: "dead s rid \<Longrightarrow> \<not> sold s rid"
  by (auto simp: dead_def status_of_def)

text \<open>One step of the inventory service.\<close>

definition inventory_step :: "order_svc \<Rightarrow> world \<Rightarrow> sys \<Rightarrow> inv_db \<Rightarrow> time \<Rightarrow> bool" where
  "inventory_step v w s db clk \<longleftrightarrow> saga v s \<and> admitted v w clk s \<and> inv_moved v w s db"

lemma inventory_stepD:
  assumes "inventory_step v w s db clk"
  shows "saga v s" and "admitted v w clk s" and "inv_moved v w s db" and "grows (s_inv s) db" and "\<And>rid. res_move v w s db rid"
  using assms by (simp_all add: inventory_step_def inv_moved_def advances_def)

abbreviation after_step :: "sys \<Rightarrow> inv_db \<Rightarrow> time \<Rightarrow> sys" where
  "after_step s db clk \<equiv> s\<lparr>s_inv := db, s_clk := clk\<rparr>"

lemma dead_stays:
  assumes st: "inventory_step v w s db clk" and "dead s rid" shows "dead (after_step s db clk) rid"
proof -
  obtain row where row: "find_res rid (s_inv s) = Some row"
    and now: "rr_Status row \<in> {RReleased, RExpired} \<or> rr_Status row = RActive \<and> rr_ExpiresAt row \<le> s_clk s"
    using assms(2) by (auto simp: dead_def)
  obtain row' where row': "find_res rid db = Some row'" "row_grows row row'"
    using find_res_grows [OF inventory_stepD(4) [OF st] row] by blast
  have exp: "rr_ExpiresAt row' = rr_ExpiresAt row" using row'(2) by (simp add: row_grows_def)
  note st' = status_of_find [OF row] status_of_find [OF row'(1)]
  show ?thesis
  proof (cases "rr_Status row = RActive")
    case False
    then have "rr_Status row' = rr_Status row" using now row'(2) by (auto simp: row_grows_def)
    with row'(1) now False show ?thesis by (auto simp: dead_def)
  next
    case True
    with now have old: "rr_ExpiresAt row \<le> s_clk s" by auto
    then have late: "rr_ExpiresAt row \<le> w_clock w k" "rr_ExpiresAt row \<le> clk" for k
      using inventory_stepD(2) [OF st] unfolding admitted_def by (meson order_trans)+
    have "rr_Status row' \<in> {RActive, RReleased, RExpired}"
      using inventory_stepD(5) [OF st, of rid]
    proof cases
      case (confirm r row k)
      with late row show ?thesis by (metis not_le option.inject)
    qed (use st' True in \<open>auto simp: idle_def\<close>)
    with row'(1) exp late(2) show ?thesis by (auto simp: dead_def)
  qed
qed

lemma sold_stays:
  "inventory_step v w s db clk \<Longrightarrow> sold s rid \<Longrightarrow> sold (after_step s db clk) rid"
  by (drule inventory_stepD(4)) (use stock_later in fastforce)

lemma sold_before:
  assumes st: "inventory_step v w s db clk" and "sold (after_step s db clk) rid"
  shows "sold s rid \<or> (\<exists>x\<in>set (orders (s_orders s)). o_ReservationID x = rid \<and> charged x \<and>
    answered (v_inventory v) ''confirm'' (confirm_input x) db)"
  using inventory_stepD(5) [OF st, of rid]
proof cases
  case (confirm r row k)
  have "\<not> dead s rid"
  proof
    assume "dead s rid"
    then have "rr_ExpiresAt row \<le> s_clk s" using confirm(3,4) by (auto simp: dead_def)
    moreover have "s_clk s \<le> w_clock w k" using inventory_stepD(2) [OF st] by (simp add: admitted_def)
    ultimately show False using confirm(5) by simp
  qed
  moreover obtain x where "x \<in> set (orders (s_orders s))" "r = confirm_request x" "charged x \<or> dead s (o_ReservationID x)"
    using sagaD(7) [OF inventory_stepD(1) [OF st] confirm(1)] by (auto simp: sent_ok_def)
  ultimately show ?thesis
    using confirm(2,7) by (auto simp: confirm_request_def confirm_input_def)
qed (use assms(2) in \<open>auto simp: idle_def\<close>)

lemma returned_before:
  assumes st: "inventory_step v w s db clk" and "stock (after_step s db clk) rid = Some RReturned"
  shows "stock s rid = Some RReturned \<or> (\<exists>x\<in>set (orders (s_orders s)). o_ReservationID x = rid \<and> store_claimed x)"
  using inventory_stepD(5) [OF st, of rid]
proof cases
  case (giveback r)
  then obtain x where "x \<in> set (orders (s_orders s))" "r = return_request_of v x" "store_claimed x"
    using sagaD(7) [OF inventory_stepD(1) [OF st] giveback(1)] by (auto simp: sent_ok_def)
  with giveback(2) show ?thesis by (auto simp: return_request_of_def)
qed (use assms(2) in \<open>auto simp: idle_def\<close>)

lemma agrees_stays:
  assumes st: "inventory_step v w s db clk" and x: "x \<in> set (orders (s_orders s))" shows "agrees (after_step s db clk) x"
proof -
  let ?rid = "o_ReservationID x"
  have a: "agrees s x" using sagaD(5) [OF inventory_stepD(1) [OF st] x] by simp
  then obtain row where own: "owned (s_inv s) ?rid (o_ID x) = Some row" "rr_ExpiresAt row = o_ReservationExpiresAt x"
    by (auto simp: agrees_def)
  obtain row' where "owned db ?rid (o_ID x) = Some row'" "row_grows row row'" using owned_grows [OF inventory_stepD(4) [OF st] own(1)] by blast
  then have 1: "\<exists>row. owned db ?rid (o_ID x) = Some row \<and> rr_ExpiresAt row = o_ReservationExpiresAt x"
    using own(2) by (auto simp: row_grows_def)
  have same: "y = x" if "y \<in> set (orders (s_orders s))" "o_ReservationID y = ?rid" for y
    using same_reservation [OF sagaD(4) [OF inventory_stepD(1) [OF st]] that(1) x that(2)] .
  have 2: "was_paid x \<longrightarrow> sold (after_step s db clk) ?rid" using a sold_stays [OF st] unfolding agrees_def by blast
  have 3: "o_Status x = CANCELLED \<longrightarrow> (if o_CancellationReason x = ReasonStoreCancelled then stock (after_step s db clk) ?rid = Some RReturned
         else stock (after_step s db clk) ?rid \<in> {Some RReleased, Some RExpired})"
    using a stock_later [OF inventory_stepD(4) [OF st], of ?rid] by (auto simp: agrees_def split: if_splits)
  have 4: "sold (after_step s db clk) ?rid \<longrightarrow> charged x" using a sold_before [OF st, of ?rid] same unfolding agrees_def by blast
  have 5: "stock (after_step s db clk) ?rid = Some RReturned \<longrightarrow> store_claimed x"
    using a returned_before [OF st, of ?rid] same unfolding agrees_def by blast
  from 1 2 3 4 5 show ?thesis unfolding agrees_def by simp
qed

lemma sent_stays:
  assumes st: "inventory_step v w s db clk" and "c \<in> set (s_sent s)" shows "sent_ok v (after_step s db clk) c"
  using sagaD(7) [OF inventory_stepD(1) [OF st] assms(2)] dead_stays [OF st] by (auto simp: sent_ok_def split: inv_call.splits)

lemma inventory_keeps:
  assumes st: "inventory_step v w s db clk" shows "saga_rel v s (after_step s db clk)"
proof -
  have "answered (v_inventory v) ''confirm'' (confirm_input x) db"
    if x: "x \<in> set (orders (s_orders s))" and "sold (after_step s db clk) (o_ReservationID x)" for x
    using sold_before [OF st that(2)]
  proof
    assume "sold s (o_ReservationID x)"
    then show ?thesis using sagaD(6) [OF inventory_stepD(1) [OF st] x] answered_grows [OF _ inventory_stepD(4) [OF st]] by blast
  next
    assume "\<exists>y\<in>set (orders (s_orders s)). o_ReservationID y = o_ReservationID x \<and> charged y \<and>
      answered (v_inventory v) ''confirm'' (confirm_input y) db"
    then show ?thesis using same_reservation [OF sagaD(4) [OF inventory_stepD(1) [OF st]] _ x] by blast
  qed
  moreover have "canonical v rid" if "find_res rid db = Some row" for rid row
    using inventory_stepD(5) [OF st, of rid]
  proof cases
    case idle
    then have "stock s rid \<noteq> None" using status_of_find [OF that] by (metis idle_def option.distinct(1))
    then obtain row' where "find_res rid (s_inv s) = Some row'" by (auto simp: status_of_def)
    then show ?thesis using sagaD(9) [OF inventory_stepD(1) [OF st]] by blast
  next
    case (confirm r row k)
    then show ?thesis using sagaD(9) [OF inventory_stepD(1) [OF st]] by blast
  qed (auto simp: status_of_def intro: sagaD(9) [OF inventory_stepD(1) [OF st]])
  moreover have "rid \<in> o_ReservationID ` set (orders (s_orders s))" if "sold (after_step s db clk) rid" for rid
    using sold_before [OF st that] sagaD(8) [OF inventory_stepD(1) [OF st]] by blast
  ultimately have "saga v (after_step s db clk)"
    unfolding saga_def
    using inventory_stepD(1,3) [OF st] sagaD(5) [OF inventory_stepD(1) [OF st]] agrees_stays [OF st] sent_stays [OF st] inventory_stepD(4) [OF st]
    by (simp add: inv_moved_def advances_def sagaD grows_def) 
  moreover have "sys_le s (after_step s db clk)"
    using inventory_stepD(4) [OF st] admitted_clk [OF inventory_stepD(2) [OF st]] dead_stays [OF st] by (auto simp: sys_le_def may_confirm_def)
  ultimately show ?thesis using inventory_stepD(1) [OF st] by (simp add: saga_rel_def)
qed

end
