(* ===== verification/Order_Calls.thy ===== *)
theory Order_Calls
  imports Order_Saga
begin

text \<open>
  The calls of the order service to the inventory service: what each of them does to the system,
  and what its answer says. A call that is delivered late, or twice, is covered as well.
\<close>

section \<open>A call moves reservations\<close>

lemma state_of_run_rpc [simp]: "state_of (run_rpc d m k w s n) = state_of (m w s n)"
  by (simp add: run_rpc_def state_of_def split: prod.split sum.split)

lemma inv_moved_same: "saga v s \<Longrightarrow> inv_moved v w s (s_inv s)"
  by (simp add: inv_moved_def sagaD advances_refl res_move.idle)

lemma inv_moved_effects:
  assumes "saga v s" and "effects K M (s_inv s) db" and "answers_ok (v_inventory v) db"
    and "\<And>rid. rid \<in> M \<Longrightarrow> res_move v w s db rid"
  shows "inv_moved v w s db"
  using assms unfolding inv_moved_def effects_def by (blast intro: res_move.idle)

lemma Reserve_moves:
  assumes v: "lawful v" and ok: "saga v s" and adm: "admitted v w clk s"
  shows "inv_moved v w s (state_of (Reserve (v_inventory v) c i w (s_inv s) n))"
proof (cases rule: Reserve_cases [OF sagaD(1) [OF ok], of "v_inventory v" c i w n, case_names same made])
  case same
  then show ?thesis using inv_moved_same [OF ok] by simp
next
  case (made q r)
  let ?db = "state_of (Reserve (v_inventory v) c i w (s_inv s) n)"
  have r: "reserved (s_inv s) q r ?db" "r_ID r \<in> range (w_uuid w)" using made(3) by (auto simp: made_reservation_def)
  have "res_move v w s ?db rid" for rid
  proof (cases "rid = r_ID r")
    case True
    have "stock s rid = None" "status_of ?db rid = Some RActive" "canonical v rid"
      using r adm True by (auto simp: reserved_def status_of_def reservation_of_def admitted_def)
    then show ?thesis by (rule res_move.reserve)
  next
    case False
    then have "status_of ?db rid = stock s rid" using r(1) by (simp add: reserved_def status_of_def)
    then show ?thesis by (simp add: res_move.idle)
  qed
  moreover have "answers_ok (v_inventory v) ?db"
    using v by (intro answers_ok_Reserve sagaD [OF ok]) (simp add: lawful_def)
  ultimately show ?thesis using r(1) by (simp add: inv_moved_def reserved_def)
qed

text \<open>The input of a transition with canonical ids reaches the operation as it was sent.\<close>

lemma transition_request_canonical:
  assumes "lawful v" and "canonical v (ti_ReservationID i)" and "canonical v (ti_OrderID i)" and "canonical v (ti_Key i)"
    and "transition_request (v_inventory v) confirm i = Some q"
  shows "q = i\<lparr>ti_Reason := (if confirm then [] else ti_Reason i)\<rparr>"
  using assms(5) ID_canonical [OF assms(1,2)] ID_canonical [OF assms(1,3)] ID_canonical [OF assms(1,4)]
  by (auto simp: transition_request_def split: sum.splits if_splits)

lemma settles_idle: "settles s db rid A \<Longrightarrow> j \<noteq> rid \<Longrightarrow> status_of db j = status_of s j"
  by (simp add: settles_def)

lemma Confirm_moves:
  assumes v: "lawful v" and ok: "saga v s" and sent: "ConfirmReservation r \<in> set (s_sent s)"
  shows "inv_moved v w s (state_of (Transition (v_inventory v) c True
    \<lparr>ti_ReservationID = pt_ReservationId r, ti_OrderID = pt_OrderId r, ti_Key = pt_IdempotencyKey r, ti_Reason = []\<rparr> w (s_inv s) n))"
    (is "inv_moved v w s (state_of (Transition _ c True ?i w _ n))")
proof (cases rule: Transition_cases [OF sagaD(1) [OF ok], of "v_inventory v" c True ?i w n, case_names same took])
  case same
  then show ?thesis using inv_moved_same [OF ok] by simp
next
  case (took q)
  let ?db = "state_of (Transition (v_inventory v) c True ?i w (s_inv s) n)"
  obtain x where x: "x \<in> set (orders (s_orders s))" "r = confirm_request x"
    using sagaD(7) [OF ok sent] by (auto simp: sent_ok_def)
  then have "well_keyed v x" using sagaD(5) [OF ok] by blast
  then have q: "q = ?i" using transition_request_canonical [OF v _ _ _ took(1)] x(2) by (simp add: well_keyed_def confirm_request_def)
  obtain row where row: "owned (s_inv s) (pt_ReservationId r) (pt_OrderId r) = Some row"
    "rr_Status row = RActive \<or> rr_Status row = RConfirmed" "rr_Status row = RActive \<Longrightarrow> \<exists>k. w_clock w k < rr_ExpiresAt row"
    and set: "settles (s_inv s) ?db (pt_ReservationId r) {RConfirmed}"
    using took(4) by (auto simp: took_def q)
  have "res_move v w s ?db (pt_ReservationId r)"
  proof (cases "rr_Status row = RActive")
    case True
    moreover have "find_res (pt_ReservationId r) (s_inv s) = Some row"
      using row(1) by (auto simp: owned_def split: option.splits if_splits)
    moreover have "status_of ?db (pt_ReservationId r) = Some RConfirmed" using set by (simp add: settles_def)
    ultimately show ?thesis using row(3) took(3) sent q by (auto intro: res_move.confirm)
  next
    case False
    then have "status_of ?db (pt_ReservationId r) = stock s (pt_ReservationId r)"
      using set row(2) owned_status [OF row(1)] by (simp add: settles_def)
    then show ?thesis by (simp add: res_move.idle)
  qed
  moreover have "answers_ok (v_inventory v) ?db"
    using v by (intro answers_ok_Transition sagaD [OF ok]) (simp add: lawful_def)
  ultimately show ?thesis using inv_moved_effects [OF ok took(5)] by (simp add: q)
qed

lemma Release_moves:
  assumes v: "lawful v" and ok: "saga v s"
  shows "inv_moved v w s (state_of (Transition (v_inventory v) c False i w (s_inv s) n))"
proof (cases rule: Transition_cases [OF sagaD(1) [OF ok], of "v_inventory v" c False i w n, case_names same took])
  case same
  then show ?thesis using inv_moved_same [OF ok] by simp
next
  case (took q)
  let ?db = "state_of (Transition (v_inventory v) c False i w (s_inv s) n)"
  obtain row where row: "owned (s_inv s) (ti_ReservationID q) (ti_OrderID q) = Some row"
    "rr_Status row \<in> {RActive, RReleased, RExpired}"
    and set: "settles (s_inv s) ?db (ti_ReservationID q) {RReleased, RExpired}"
    using took(4) by (auto simp: took_def)
  obtain st where st: "status_of ?db (ti_ReservationID q) = Some st" "st \<in> {RReleased, RExpired}" "later (rr_Status row) st"
    using set stock_later [OF _ owned_status [OF row(1)]] by (fastforce simp: settles_def advances_def)
  have "res_move v w s ?db (ti_ReservationID q)"
  proof (cases "rr_Status row = RActive")
    case True
    then show ?thesis using st owned_status [OF row(1)] by (intro res_move.release) auto
  next
    case False
    then have "status_of ?db (ti_ReservationID q) = stock s (ti_ReservationID q)"
      using st row(2) owned_status [OF row(1)] by auto
    then show ?thesis by (simp add: res_move.idle)
  qed
  moreover have "answers_ok (v_inventory v) ?db"
    using v by (intro answers_ok_Transition sagaD [OF ok]) (simp add: lawful_def)
  ultimately show ?thesis using inv_moved_effects [OF ok took(5)] by simp
qed

lemma Return_moves:
  assumes v: "lawful v" and ok: "saga v s" and sent: "ReturnConfirmedReservation r \<in> set (s_sent s)"
  shows "inv_moved v w s (state_of (Return (v_inventory v) c
    \<lparr>ti_ReservationID = pt_ReservationId r, ti_OrderID = pt_OrderId r, ti_Key = pt_IdempotencyKey r, ti_Reason = pt_Reason r\<rparr> w (s_inv s) n))"
    (is "inv_moved v w s (state_of (Return _ c ?i w _ n))")
proof (cases rule: Return_cases [OF sagaD(1) [OF ok], of "v_inventory v" c ?i w n, case_names same took])
  case same
  then show ?thesis using inv_moved_same [OF ok] by simp
next
  case (took q)
  let ?db = "state_of (Return (v_inventory v) c ?i w (s_inv s) n)"
  obtain x where x: "x \<in> set (orders (s_orders s))" "r = return_request_of v x"
    using sagaD(7) [OF ok sent] by (auto simp: sent_ok_def)
  then have "well_keyed v x" using sagaD(5) [OF ok] by blast
  then have q: "ti_ReservationID q = pt_ReservationId r"
    using transition_request_canonical [OF v _ _ _ took(1) [unfolded return_request_def]] x(2) v
    by (simp add: well_keyed_def return_request_of_def lawful_def)
  obtain row where row: "owned (s_inv s) (pt_ReservationId r) (ti_OrderID q) = Some row" "rr_Status row \<in> {RConfirmed, RReturned}"
    and set: "status_of ?db (pt_ReservationId r) = Some RReturned"
    using took(4) by (auto simp: returned_def settles_def q)
  have "res_move v w s ?db (pt_ReservationId r)"
  proof (cases "rr_Status row = RConfirmed")
    case True
    then show ?thesis using sent set owned_status [OF row(1)] by (intro res_move.giveback [OF sent]) auto
  next
    case False
    then show ?thesis using set row(2) owned_status [OF row(1)] by (intro res_move.idle) auto
  qed
  moreover have "answers_ok (v_inventory v) ?db"
    using v by (intro answers_ok_Return sagaD [OF ok]) (simp add: lawful_def)
  ultimately show ?thesis using inv_moved_effects [OF ok took(5)] by (simp add: q)
qed

theorem serve_moves:
  assumes "lawful v" and "saga v s" and "c \<in> set (s_sent s)" and "admitted v w clk s"
  shows "inv_moved v w s (state_of (serve (v_inventory v) d c w (s_inv s) n))"
  using assms Reserve_moves Confirm_moves Release_moves Return_moves
  by (cases c) (auto simp: serve_def grpc_ReservePortions_def grpc_ConfirmReservation_def
      grpc_ReleaseReservation_def grpc_ReturnConfirmedReservation_def)

text \<open>What the staff and the sweeper of the inventory service do.\<close>

lemma staff_moves:
  assumes "saga v s" and "op \<in> {DoCreate c ci, DoWaste c b a wi, DoSweep c lim}"
  shows "inv_moved v w s (state_of (run_op (v_inventory v) op w (s_inv s) n))"
proof -
  have "bounded staff_keys {} (run_op (v_inventory v) op)"
    using assms(2) bounded_mono [OF bounded_Sweep, of staff_keys "{}"]
    by (auto simp: forget_def intro!: bounded_rules bounded_Create bounded_Waste)
  then have "effects staff_keys {} (s_inv s) (state_of (run_op (v_inventory v) op w (s_inv s) n))"
    by (rule bounded_state [OF _ sagaD(1) [OF assms(1)]])
  then show ?thesis
    using inv_moved_effects [OF assms(1)] answers_ok_staff [OF sagaD(3) [OF assms(1)]] by blast
qed

section \<open>What an answer says\<close>

lemma result_of_run_rpc:
  "result_of (run_rpc d m k w s n) = (case result_of (m w s n) of Inl e \<Rightarrow> Inl (rpcError d e) | Inr a \<Rightarrow> k a)"
  by (simp add: run_rpc_def result_of_def split: prod.split sum.split)

lemma run_rpc_answer:
  assumes "run_rpc d m k w s n = (res, db, n')"
  shows "res = (case result_of (m w s n) of Inl e \<Rightarrow> Inl (rpcError d e) | Inr a \<Rightarrow> k a)" and "db = state_of (m w s n)"
  using result_of_run_rpc [of d m k w s n] state_of_run_rpc [of d m k w s n] by (simp_all add: assms)

lemma rpcError_precondition: "re_Code (rpcError d e) = FailedPrecondition \<longleftrightarrow> e = ErrStock \<or> e = ErrState"
  by (cases e; cases d) (auto simp: rpcError_def internal_error_def)

lemma Transition_invalid:
  "transition_request svc confirm i = None \<Longrightarrow> result_of (Transition svc c confirm i w s n) = Inl ErrInvalid"
  by (auto simp: transition_request_def Transition_def Let_def throw_def ID_def split: sum.splits if_splits option.splits)

text \<open>A confirmation: accepted, the stock is sold; refused, it never will be.\<close>

lemma confirm_answer:
  assumes v: "lawful v" and ok: "saga v s" and adm: "admitted v w clk s" and x: "x \<in> set (orders (s_orders s))"
    and run: "grpc_ConfirmReservation d (v_inventory v) (confirm_request x) w (s_inv s) n = (res, db, n')"
  shows "(\<forall>p. res = Inr p \<longrightarrow> sold (after_step s db clk) (o_ReservationID x)) \<and>
    (\<forall>err. res = Inl err \<longrightarrow> re_Code err = FailedPrecondition \<longrightarrow> dead (after_step s db clk) (o_ReservationID x))"
proof -
  let ?svc = "v_inventory v" and ?i = "confirm_input x"
  let ?run = "Transition ?svc rpc_ctx True ?i w (s_inv s) n"
  note res = run_rpc_answer(1) [OF run [unfolded grpc_ConfirmReservation_def confirm_request_def pb_transition_request.simps],
      folded confirm_input_def]
    and db = run_rpc_answer(2) [OF run [unfolded grpc_ConfirmReservation_def confirm_request_def pb_transition_request.simps],
      folded confirm_input_def]
  have ok': "answers_ok ?svc db" unfolding db
    using v by (intro answers_ok_Transition sagaD [OF ok]) (simp add: lawful_def)
  have wk: "well_keyed v x" using sagaD(5) [OF ok x] by simp
  show ?thesis
  proof (cases "transition_request ?svc True ?i")
    case None
    have "res = Inl (rpcError d ErrInvalid)" using Transition_invalid [OF None] by (simp add: res)
    then show ?thesis using rpcError_precondition [of d ErrInvalid] by auto
  next
    case (Some q)
    then have q: "q = ?i" using transition_request_canonical [OF v _ _ _ Some] wk by (simp add: well_keyed_def confirm_input_def)
    note spec = wp_Transition_spec [OF sagaD(1) [OF ok] Some, of rpc_ctx w n, unfolded wp_result q]
    show ?thesis
    proof (cases "result_of ?run")
      case (Inr a)
      with spec have "answered ?svc ''confirm'' ?i db" by (simp add: db)
      from answers_ok_settle [OF ok' this] obtain row where
        "owned db (o_ReservationID x) (o_ID x) = Some row" "rr_Status row \<in> {RConfirmed, RReturned}"
        by (auto simp: confirm_input_def)
      then have "sold (after_step s db clk) (o_ReservationID x)" using owned_status by fastforce
      then show ?thesis by (simp add: res Inr)
    next
      case (Inl e)
      have "dead (after_step s db clk) (o_ReservationID x)" if "e = ErrState \<or> e = ErrStock"
      proof -
        from that spec Inl have same: "db = s_inv s" and new: "find_idem (''confirm'', ti_Key ?i) (s_inv s) = None"
          and err: "transition_error w (s_inv s) ?i True ErrState" by (auto simp: db)
        obtain row where own: "owned (s_inv s) (o_ReservationID x) (o_ID x) = Some row"
          and st: "if rr_Status row = RActive then \<exists>k. \<not> w_clock w k < rr_ExpiresAt row else rr_Status row \<noteq> RConfirmed"
          using err sagaD(2) [OF ok] unfolding transition_error_def confirm_input_def by (simp, meson)
        have "\<not> sold s (o_ReservationID x)"
          using sagaD(6) [OF ok x] answered_used [of ?svc "''confirm''" ?i] new by fastforce
        then have "rr_Status row \<noteq> RReturned" using owned_status [OF own] by auto
        moreover have "rr_ExpiresAt row \<le> clk" if act: "rr_Status row = RActive"
        proof -
          obtain k where "rr_ExpiresAt row \<le> w_clock w k" using st act by (auto simp: not_less)
          moreover have "w_clock w k \<le> clk" using adm by (simp add: admitted_def)
          ultimately show ?thesis by (rule order_trans)
        qed
        moreover have "find_res (o_ReservationID x) db = Some row"
          using own same by (auto simp: owned_def split: option.splits if_splits)
        ultimately show ?thesis using st unfolding dead_def
          by (intro exI [of _ row]) (cases "rr_Status row"; simp)
      qed
      then show ?thesis by (auto simp: res Inl rpcError_precondition)
    qed
  qed
qed

text \<open>A release: the stock is free again.\<close>

lemma release_answer:
  assumes v: "lawful v" and ok: "saga v s" and wk: "well_keyed v x"
    and run: "grpc_ReleaseReservation d (v_inventory v) (release_request (o_ReservationID x) x reason) w (s_inv s) n = (Inr p, db, n')"
  shows "status_of db (o_ReservationID x) \<in> {Some RReleased, Some RExpired}"
proof -
  let ?svc = "v_inventory v"
  let ?i = "\<lparr>ti_ReservationID = o_ReservationID x, ti_OrderID = o_ID x, ti_Key = o_ReleaseIdempotencyKey x, ti_Reason = reason\<rparr>"
  let ?run = "Transition ?svc rpc_ctx False ?i w (s_inv s) n"
  note ans = run_rpc_answer [OF run [unfolded grpc_ReleaseReservation_def release_request_def pb_transition_request.simps]]
  obtain a where a: "result_of ?run = Inr a" using ans(1) by (auto split: sum.splits)
  note db = ans(2)
  have ok': "answers_ok ?svc db" unfolding db
    using v by (intro answers_ok_Transition sagaD [OF ok]) (simp add: lawful_def)
  obtain q where q: "transition_request ?svc False ?i = Some q"
    using a Transition_invalid [of ?svc False ?i rpc_ctx w "s_inv s" n] by (cases "transition_request ?svc False ?i") auto
  have "q = ?i" using transition_request_canonical [OF v _ _ _ q] wk by (simp add: well_keyed_def)
  with wp_Transition_spec [OF sagaD(1) [OF ok] q, of rpc_ctx w n, unfolded wp_result] a
  have "answered ?svc ''release'' ?i db" by (simp add: db)
  from answers_ok_settle [OF ok' this] show ?thesis using owned_status by fastforce
qed

text \<open>A return: the stock has come back.\<close>

lemma Return_invalid:
  "return_request svc i = None \<Longrightarrow> result_of (Return svc c i w s n) = Inl ErrInvalid"
  using Transition_invalid by (auto simp: return_request_def transition_request_def Return_def Let_def throw_def ID_def split: sum.splits if_splits option.splits)

lemma return_answer:
  assumes v: "lawful v" and ok: "saga v s" and wk: "well_keyed v x"
    and run: "grpc_ReturnConfirmedReservation d (v_inventory v) (return_request_of v x) w (s_inv s) n = (Inr p, db, n')"
  shows "status_of db (o_ReservationID x) = Some RReturned"
proof -
  let ?svc = "v_inventory v"
  let ?i = "\<lparr>ti_ReservationID = o_ReservationID x, ti_OrderID = o_ID x, ti_Key = v_sha1 v (o_ID x @ ''/return''),
    ti_Reason = ReasonStoreCancelled\<rparr>"
  let ?run = "Return ?svc rpc_ctx ?i w (s_inv s) n"
  note ans = run_rpc_answer [OF run [unfolded grpc_ReturnConfirmedReservation_def return_request_of_def pb_transition_request.simps]]
  obtain a where a: "result_of ?run = Inr a" using ans(1) by (auto split: sum.splits)
  note db = ans(2)
  have ok': "answers_ok ?svc db" unfolding db
    using v by (intro answers_ok_Return sagaD [OF ok]) (simp add: lawful_def)
  obtain q where q: "return_request ?svc ?i = Some q"
    using a Return_invalid [of ?svc ?i rpc_ctx w "s_inv s" n] by (cases "return_request ?svc ?i") auto
  have "q = ?i" using transition_request_canonical [OF v _ _ _ q [unfolded return_request_def]] wk v
    by (simp add: well_keyed_def lawful_def)
  with wp_Return_spec [OF sagaD(1) [OF ok] q, of rpc_ctx w n, unfolded wp_result] a
  have "answered ?svc ''return'' ?i db" by (simp add: db)
  from answers_ok_settle [OF ok' this] show ?thesis using owned_status by fastforce
qed

text \<open>A reservation: it is the order's and expires when the answer says.\<close>

lemma Reserve_invalid:
  "reserve_request svc i = None \<Longrightarrow> \<exists>e. result_of (Reserve svc c i w s n) = Inl e"
  using Reserve_rejected [of svc i c] by (auto simp: throw_def)

lemma reserve_request_order:
  assumes "lawful v" and "canonical v (ri_OrderID i)" and "reserve_request (v_inventory v) i = Some q"
  shows "ri_OrderID q = ri_OrderID i"
  using assms(3) ID_canonical [OF assms(1,2)] by (auto simp: reserve_request_def split: sum.splits)

lemma reserve_answer:
  assumes v: "lawful v" and ok: "saga v s" and o: "canonical v (pq_OrderId r)"
    and run: "grpc_ReservePortions d (v_inventory v) r w (s_inv s) n = (Inr p, db, n')"
  shows "\<exists>row. find_res (pr_ReservationId p) db = Some row \<and> rr_OrderID row = pq_OrderId r \<and> pr_ExpiresAt p = Some (rr_ExpiresAt row)"
proof -
  let ?svc = "v_inventory v"
  let ?i = "\<lparr>ri_OrderID = pq_OrderId r, ri_Key = pq_IdempotencyKey r, ri_Items = itemsFromProto (pq_Items r)\<rparr>"
  let ?run = "Reserve ?svc rpc_ctx ?i w (s_inv s) n"
  note ans = run_rpc_answer [OF run [unfolded grpc_ReservePortions_def]]
  obtain a where a: "result_of ?run = Inr a" and p: "p = toProto a" using ans(1) by (auto split: sum.splits)
  note db = ans(2)
  have ok': "answers_ok ?svc db" unfolding db
    using v by (intro answers_ok_Reserve sagaD [OF ok]) (simp add: lawful_def)
  obtain q where q: "reserve_request ?svc ?i = Some q"
    using a Reserve_invalid [of ?svc ?i rpc_ctx w "s_inv s" n] by (cases "reserve_request ?svc ?i") auto
  have oid: "ri_OrderID q = pq_OrderId r" using reserve_request_order [OF v _ q] o by simp
  from wp_Reserve_spec [OF sagaD(1) [OF ok] q, of rpc_ctx w n, unfolded wp_result] a
  have "committed (''reserve'', ri_Key q) (s_hash ?svc (QReserve q)) (PReservation a) db" by (simp add: db)
  from answers_ok_reserve [OF ok' this] show ?thesis by (auto simp: p toProto_def oid)
qed

end
