(* ===== verification/Order_Pricing.thy ===== *)
theory Order_Pricing
  imports Order_Machine
begin

text \<open>
  The lines and the amount of a new order. The loops of \<open>normalizeItems\<close> and \<open>placeOrder\<close> compute at
  64 bits with overflow guards; the amounts they return are those of unbounded arithmetic, and the
  guards refuse exactly the orders whose exact amount does not fit.
\<close>

section \<open>Items\<close>

lemma normalize_loop_spec:
  "normalize_loop v xs acc = Inr items \<Longrightarrow>
    (\<exists>ks. items = acc @ zip ks (map in_Portions xs) \<and> length ks = length xs \<and>
      (\<forall>j<length xs. v_uuidParse v (in_FlavorID (xs ! j)) = Some (ks ! j))) \<and>
    (distinct (map fst acc) \<longrightarrow> distinct (map fst items)) \<and> (\<forall>x\<in>set xs. 1 \<le> in_Portions x)"
proof (induction xs arbitrary: acc)
  case (Cons x xs)
  then obtain key where key: "v_uuidParse v (in_FlavorID x) = Some key" and pos: "1 \<le> in_Portions x"
    and new: "key \<notin> fst ` set acc" and rest: "normalize_loop v xs (acc @ [(key, in_Portions x)]) = Inr items"
    by (auto split: option.splits if_splits)
  from Cons.IH [OF rest] obtain ks where ks: "items = (acc @ [(key, in_Portions x)]) @ zip ks (map in_Portions xs)"
    "length ks = length xs" "\<forall>j<length xs. v_uuidParse v (in_FlavorID (xs ! j)) = Some (ks ! j)" by blast
  have "\<exists>ks. items = acc @ zip ks (map in_Portions (x # xs)) \<and> length ks = length (x # xs) \<and>
      (\<forall>j<length (x # xs). v_uuidParse v (in_FlavorID ((x # xs) ! j)) = Some (ks ! j))"
    by (rule exI [of _ "key # ks"]) (use ks key in \<open>auto simp: less_Suc_eq_0_disj\<close>)
  moreover have "distinct (map fst (acc @ [(key, in_Portions x)]))" if "distinct (map fst acc)"
    using that new by auto
  ultimately show ?case using Cons.IH [OF rest] pos by simp
qed simp

text \<open>What \<open>normalizeItems\<close> lets through: one positive count for each flavor, in canonical form.\<close>

definition ordered :: "(string \<times> int) list \<Rightarrow> bool" where
  "ordered items \<longleftrightarrow> items \<noteq> [] \<and> length items \<le> 100 \<and> distinct (map fst items) \<and> (\<forall>n\<in>snd ` set items. 1 \<le> n)"

lemma normalizeItems_ordered:
  assumes "normalizeItems v xs = Inr items" shows "ordered items"
proof -
  have len: "xs \<noteq> []" "length xs \<le> 100" and loop: "normalize_loop v xs [] = Inr items"
    using assms by (auto simp: normalizeItems_def split: if_splits)
  note spec = normalize_loop_spec [OF loop]
  then obtain ks where ks: "items = zip ks (map in_Portions xs)" "length ks = length xs" by auto
  have "snd ` set items \<subseteq> in_Portions ` set xs" unfolding ks(1) by (auto dest: set_zip_rightD)
  with spec have "\<forall>n\<in>snd ` set items. 1 \<le> n" by auto
  moreover have "items \<noteq> []" "length items \<le> 100" using len ks by (auto simp: zip_eq_Nil_iff)
  ultimately show ?thesis using spec by (simp add: ordered_def)
qed

lemma portions_pos: "ordered items \<Longrightarrow> i \<in> fst ` set items \<Longrightarrow> 1 \<le> portions_of items i"
  by (force simp: ordered_def portions_of_def split: option.split dest: map_of_SomeD simp: map_of_eq_None_iff)

section \<open>Prices\<close>

text \<open>The reference: the price of one flavor in the catalog's answer, and the exact line.\<close>

definition listed :: "(string \<Rightarrow> flavor option) \<Rightarrow> string \<Rightarrow> string \<Rightarrow> int \<Rightarrow> bool" where
  "listed byID currency i amount \<longleftrightarrow> (\<exists>fl m. byID i = Some fl \<and> fl_Active fl \<and> fl_Price fl = Some m \<and>
     mo_AmountMinor m = Some amount \<and> mo_Currency m = Some currency \<and> 0 \<le> amount)"

definition exact_line :: "(string \<Rightarrow> flavor option) \<Rightarrow> (string \<Rightarrow> int) \<Rightarrow> string \<Rightarrow> order_item" where
  "exact_line byID portions i =
     (let fl = the (byID i); amount = the (mo_AmountMinor (the (fl_Price fl))) in
      \<lparr>oi_FlavorID = i, oi_FlavorName = fl_Name fl, oi_Portions = portions i, oi_UnitPriceMinor = amount,
       oi_SubtotalMinor = amount * portions i\<rparr>)"

definition exact_total :: "(string \<Rightarrow> flavor option) \<Rightarrow> (string \<Rightarrow> int) \<Rightarrow> string list \<Rightarrow> int" where
  "exact_total byID portions ids = (\<Sum>i\<leftarrow>ids. oi_SubtotalMinor (exact_line byID portions i))"

definition all_listed :: "(string \<Rightarrow> flavor option) \<Rightarrow> string \<Rightarrow> string list \<Rightarrow> bool" where
  "all_listed byID currency ids \<longleftrightarrow> (\<forall>i\<in>set ids. \<exists>amount. listed byID currency i amount)"

lemma exact_line_listed:
  "listed byID currency i amount \<Longrightarrow> exact_line byID portions i =
    \<lparr>oi_FlavorID = i, oi_FlavorName = fl_Name (the (byID i)), oi_Portions = portions i, oi_UnitPriceMinor = amount,
       oi_SubtotalMinor = amount * portions i\<rparr>"
  by (auto simp: listed_def exact_line_def)

lemma exact_total_nonneg:
  assumes "\<forall>i\<in>set ids. 1 \<le> portions i" and "all_listed byID currency ids"
  shows "0 \<le> exact_total byID portions ids"
proof -
  have "0 \<le> oi_SubtotalMinor (exact_line byID portions i)" if i: "i \<in> set ids" for i
  proof -
    obtain amount where l: "listed byID currency i amount" using assms(2) i unfolding all_listed_def by blast
    then have "0 \<le> amount" by (auto simp: listed_def)
    moreover have "1 \<le> portions i" using assms(1) i by blast
    ultimately show ?thesis by (simp add: exact_line_listed [OF l])
  qed
  then show ?thesis unfolding exact_total_def by (intro sum_list_nonneg) auto
qed

lemma quot_guard_iff:
  assumes "0 < n" and "0 \<le> x" shows "x > quot MaxInt64 n \<longleftrightarrow> x * n > MaxInt64"
proof
  have q: "quot MaxInt64 n = MaxInt64 div n" using assms(1) by (intro quot_nonneg) (simp_all add: MaxInt64_def)
  assume "x > quot MaxInt64 n"
  then have "(MaxInt64 div n + 1) * n \<le> x * n" using q assms(1) by (intro mult_right_mono) auto
  then show "x * n > MaxInt64"
    using assms(1) pos_mod_bound [of n MaxInt64] div_mult_mod_eq [of MaxInt64 n] unfolding distrib_right by linarith
next
  assume "x * n > MaxInt64"
  then show "x > quot MaxInt64 n" using quot_guard_mult [OF assms] by (meson not_le)
qed

text \<open>
  The loop against the reference: it succeeds exactly when every flavor is listed and the exact
  total fits, and then its lines and total are the exact ones.
\<close>

lemma price_loop_exact:
  assumes "\<forall>i\<in>set ids. 1 \<le> portions i" and "0 \<le> amt" and "amt \<le> MaxInt64"
  shows "price_loop byID portions currency ids (amt, lines) = Inr r \<longleftrightarrow>
    all_listed byID currency ids \<and> amt + exact_total byID portions ids \<le> MaxInt64 \<and>
    r = (amt + exact_total byID portions ids, lines @ map (exact_line byID portions) ids)"
  using assms
proof (induction ids arbitrary: amt lines)
  case Nil
  then show ?case by (auto simp: all_listed_def exact_total_def)
next
  case (Cons i ids)
  show ?case
  proof (cases "\<exists>amount. listed byID currency i amount")
    case False
    then have "\<not> all_listed byID currency (i # ids)" by (simp add: all_listed_def)
    moreover from False have "price_loop byID portions currency (i # ids) (amt, lines) \<noteq> Inr r"
      by (auto simp: listed_def not_le split: option.splits)
    ultimately show ?thesis by blast
  next
    case True
    then obtain amount where l: "listed byID currency i amount" by blast
    then obtain fl m where fl: "byID i = Some fl" "fl_Active fl" "fl_Price fl = Some m"
      "mo_AmountMinor m = Some amount" "mo_Currency m = Some currency" "0 \<le> amount" by (auto simp: listed_def)
    let ?sub = "amount * portions i"
    have pos: "1 \<le> portions i" and rest: "\<forall>i\<in>set ids. 1 \<le> portions i" using Cons.prems by auto
    have sub: "0 \<le> ?sub" using fl(6) pos by simp
    have line: "exact_line byID portions i = \<lparr>oi_FlavorID = i, oi_FlavorName = fl_Name fl, oi_Portions = portions i,
        oi_UnitPriceMinor = amount, oi_SubtotalMinor = ?sub\<rparr>"
      using exact_line_listed [OF l] fl(1) by simp
    have total: "exact_total byID portions (i # ids) = ?sub + exact_total byID portions ids"
      by (simp add: exact_total_def line)
    have all: "all_listed byID currency (i # ids) = all_listed byID currency ids" using l by (auto simp: all_listed_def)
    have guard: "amount > quot MaxInt64 (portions i) \<longleftrightarrow> ?sub > MaxInt64" using quot_guard_iff pos fl(6) by simp
    show ?thesis
    proof (cases "amt + ?sub \<le> MaxInt64")
      case fits: True
      then have "i64 ?sub = ?sub" "i64 (MaxInt64 - ?sub) = MaxInt64 - ?sub" "i64 (amt + ?sub) = amt + ?sub" "\<not> ?sub > MaxInt64"
        using sub Cons.prems(2) by (auto intro!: i64_id simp: MaxInt64_def)
      with fits guard fl have step: "price_loop byID portions currency (i # ids) (amt, lines) =
          price_loop byID portions currency ids (amt + ?sub, lines @ [exact_line byID portions i])"
        by (simp add: line Let_def)
      show ?thesis
        unfolding step total all
        using Cons.IH [OF rest _ fits, of "lines @ [exact_line byID portions i]"] sub Cons.prems(2)
        by (simp add: add.assoc)
    next
      case False
      have "price_loop byID portions currency (i # ids) (amt, lines) \<noteq> Inr r"
      proof (cases "?sub > MaxInt64")
        case True
        with guard fl pos show ?thesis by simp
      next
        case small: False
        then have "i64 ?sub = ?sub" "i64 (MaxInt64 - ?sub) = MaxInt64 - ?sub"
          using sub by (auto intro!: i64_id simp: MaxInt64_def)
        with small False guard fl show ?thesis by (simp add: Let_def)
      qed
      moreover have "\<not> (all_listed byID currency ids \<and> amt + (?sub + exact_total byID portions ids) \<le> MaxInt64)"
        using False exact_total_nonneg [OF rest, of byID currency] by auto
      ultimately show ?thesis unfolding total all by blast
    qed
  qed
qed

section \<open>The new order\<close>

lemma price_loop_priced:
  assumes "ordered items" and "price_loop byID (portions_of items) cur (sort (map fst items)) (0, []) = Inr (amt, lines)"
  shows "lines = map (exact_line byID (portions_of items)) (sort (map fst items))"
    and "amt = sum_list (map oi_SubtotalMinor lines)"
    and "\<forall>l\<in>set lines. 1 \<le> oi_Portions l \<and> 0 \<le> oi_UnitPriceMinor l \<and> oi_SubtotalMinor l = oi_UnitPriceMinor l * oi_Portions l"
proof -
  let ?ids = "sort (map fst items)"
  have pos: "\<forall>i\<in>set ?ids. 1 \<le> portions_of items i" using portions_pos [OF assms(1)] by simp
  have ok: "all_listed byID cur ?ids" "amt = exact_total byID (portions_of items) ?ids"
    "lines = map (exact_line byID (portions_of items)) ?ids"
    using assms(2) price_loop_exact [OF pos, of 0 byID cur "[]" "(amt, lines)"] by (simp_all add: MaxInt64_def)
  show "lines = map (exact_line byID (portions_of items)) ?ids" by (fact ok(3))
  show "amt = sum_list (map oi_SubtotalMinor lines)" by (simp add: ok(2,3) exact_total_def comp_def)
  show "\<forall>l\<in>set lines. 1 \<le> oi_Portions l \<and> 0 \<le> oi_UnitPriceMinor l \<and> oi_SubtotalMinor l = oi_UnitPriceMinor l * oi_Portions l"
  proof
    fix l assume "l \<in> set lines"
    then obtain i where i: "i \<in> set ?ids" "l = exact_line byID (portions_of items) i" by (auto simp: ok(3))
    then obtain amount where l: "listed byID cur i amount" using ok(1) by (auto simp: all_listed_def)
    then have "0 \<le> amount" by (auto simp: listed_def)
    moreover have "1 \<le> portions_of items i" using pos i(1) by blast
    ultimately show "1 \<le> oi_Portions l \<and> 0 \<le> oi_UnitPriceMinor l \<and> oi_SubtotalMinor l = oi_UnitPriceMinor l * oi_Portions l"
      by (simp add: i(2) exact_line_listed [OF l])
  qed
qed

lemma wf_new_order:
  assumes "ordered items" and "price_loop byID (portions_of items) cur (sort (map fst items)) (0, []) = Inr (amt, lines)"
    and "1 \<le> amt" and "amt \<le> 99999999"
  shows "wf_order ((new_order v c k t h amt lines)\<lparr>o_ReservationID := rid, o_ReservationExpiresAt := e\<rparr>)"
  using price_loop_priced [OF assms(1,2)] assms(3,4)
  by (simp add: wf_order_def priced_def was_paid_def new_order_def Let_def reasons [symmetric])

end
