(* ===== verification/Order_Steps.thy ===== *)
theory Order_Steps
  imports Order_Calls Order_Pricing
begin

text \<open>
  The atomic steps of the order handlers, between which any other handler may run: transactions of
  the order repository and calls of the inventory service. Every step keeps the invariant \<open>saga\<close>
  and leads to a later state (\<open>saga_rel\<close>); the rules here are used step by step in the contracts of
  the handlers (\<open>Order_Handlers\<close>).
\<close>

section \<open>The environment\<close>

text \<open>
  The clock of the inventory database does not run backwards, new ids are canonical, and a call
  whose answer is lost is not reported as \<open>FailedPrecondition\<close>, a code that gRPC itself never
  produces.
\<close>

definition env_ok :: "order_svc \<Rightarrow> order_env \<Rightarrow> sys \<Rightarrow> bool" where
  "env_ok v e s \<longleftrightarrow> admitted v (e_inventory e) (e_clk e) s \<and> re_Code (e_lost e) \<noteq> FailedPrecondition"

interpretation step: rely "saga_rel v" "env_ok v" for v
  by unfold_locales (rule saga_rel_trans)

abbreviation holds :: "order_svc \<Rightarrow> ('a \<Rightarrow> sys \<Rightarrow> bool) \<Rightarrow> 'a oproc \<Rightarrow> sys \<Rightarrow> bool" where
  "holds v \<equiv> within (saga_rel v) (env_ok v)"

lemma saga_relD: "saga_rel v s t \<Longrightarrow> saga v s" "saga_rel v s t \<Longrightarrow> saga v t" "saga_rel v s t \<Longrightarrow> sys_le s t"
  by (simp_all add: saga_rel_def)

section \<open>Steps of the order tables\<close>

lemma agrees_cong [simp]: "agrees (s\<lparr>s_orders := db\<rparr>) x = agrees s x" "agrees (s\<lparr>s_sent := cs\<rparr>) x = agrees s x"
  by (simp_all add: agrees_def)

lemma dead_cong [simp]: "dead (s\<lparr>s_orders := db\<rparr>) i = dead s i" "dead (s\<lparr>s_sent := cs\<rparr>) i = dead s i"
  by (simp_all add: dead_def)

lemma saga_orders:
  assumes ok: "saga v s" and db: "orders_ok db" "orders_le (s_orders s) db"
    and now: "\<And>y. y \<in> set (orders db) \<Longrightarrow> well_keyed v y \<and> agrees s y \<and>
      (sold s (o_ReservationID y) \<longrightarrow> answered (v_inventory v) ''confirm'' (confirm_input y) (s_inv s))"
    and keep: "\<And>x. x \<in> set (orders (s_orders s)) \<Longrightarrow> \<exists>y\<in>set (orders db). same_order x y \<and>
      (charged x \<longrightarrow> charged y \<or> dead s (o_ReservationID x)) \<and> (store_claimed x \<longrightarrow> store_claimed y)"
  shows "saga_rel v s (s\<lparr>s_orders := db\<rparr>)"
proof -
  let ?t = "s\<lparr>s_orders := db\<rparr>"
  have sent: "sent_ok v ?t c" if c: "c \<in> set (s_sent s)" for c
  proof (cases c)
    case (ConfirmReservation r)
    then obtain x where x: "x \<in> set (orders (s_orders s))" "r = confirm_request x" "charged x \<or> dead s (o_ReservationID x)"
      using sagaD(7) [OF ok c] by (auto simp: sent_ok_def)
    from keep [OF x(1)] obtain y where "y \<in> set (orders db)" "same_order x y" "charged x \<longrightarrow> charged y \<or> dead s (o_ReservationID x)"
      by blast
    with x show ?thesis
      unfolding sent_ok_def ConfirmReservation inv_call.case by (intro bexI [of _ y]) (auto simp: confirm_request_def same_order_def)
  next
    case (ReturnConfirmedReservation r)
    then obtain x where x: "x \<in> set (orders (s_orders s))" "r = return_request_of v x" "store_claimed x"
      using sagaD(7) [OF ok c] by (auto simp: sent_ok_def)
    from keep [OF x(1)] obtain y where "y \<in> set (orders db)" "same_order x y" "store_claimed x \<longrightarrow> store_claimed y"
      by blast
    with x show ?thesis
      unfolding sent_ok_def ReturnConfirmedReservation inv_call.case by (intro bexI [of _ y]) (auto simp: return_request_of_def same_order_def)
  qed (simp_all add: sent_ok_def)
  have "rid \<in> o_ReservationID ` set (orders db)" if sold: "sold s rid" for rid
  proof -
    obtain x where x: "x \<in> set (orders (s_orders s))" "rid = o_ReservationID x" using sagaD(8) [OF ok sold] by blast
    from keep [OF x(1)] obtain y where "y \<in> set (orders db)" "o_ReservationID y = rid" unfolding x(2) same_order_def by metis
    then show ?thesis by blast
  qed
  then have "saga v ?t"
    using ok db(1) now sent unfolding saga_def by simp
  moreover have "may_confirm ?t i" if may: "may_confirm s i" for i
  proof -
    obtain x where x: "find_order i (s_orders s) = Some x" "charged x \<or> dead s (o_ReservationID x)"
      using may unfolding may_confirm_def by blast
    with keep obtain y where y: "y \<in> set (orders db)" "same_order x y" "charged x \<longrightarrow> charged y \<or> dead s (o_ReservationID x)"
      using find_orderD [OF x(1)] by blast
    then have "find_order i db = Some y" using find_order_Some [OF db(1)] find_orderD [OF x(1)] by (simp add: same_order_def)
    with x y show ?thesis by (auto simp: may_confirm_def same_order_def)
  qed
  ultimately show ?thesis using ok db(2) by (simp add: saga_rel_def sys_le_def)
qed

text \<open>What must be true of the reservation for a move of the order.\<close>

definition backed :: "sys \<Rightarrow> order \<Rightarrow> order \<Rightarrow> bool" where
  "backed s x y \<longleftrightarrow> (o_Status y = PAID \<longrightarrow> sold s (o_ReservationID x)) \<and>
     (o_Status x = PAYMENT_CONFIRMING \<longrightarrow> o_Status y = CANCEL_PENDING \<longrightarrow> dead s (o_ReservationID x)) \<and>
     (o_Status y = CANCELLED \<longrightarrow>
        (if o_CancellationReason x = ReasonStoreCancelled then stock s (o_ReservationID x) = Some RReturned
         else stock s (o_ReservationID x) \<in> {Some RReleased, Some RExpired}))"

lemma store_pending: "wf_order x \<Longrightarrow> o_Status x = STORE_CANCEL_PENDING \<Longrightarrow> o_CancellationReason x = ReasonStoreCancelled"
  by (simp add: wf_order_def)

lemma move_charged:
  assumes "order_move x y ev" and "wf_order x" and "backed s x y" and "charged x"
  shows "charged y \<or> dead s (o_ReservationID x)"
  using assms(1) assms(3,4) store_pending [OF assms(2)] by cases (auto simp: charged_def was_paid_def backed_def)

lemma move_store_claimed:
  assumes "order_move x y ev" and "wf_order x" and "store_claimed x" shows "store_claimed y"
  using assms(1,3) store_pending [OF assms(2)] by cases (auto simp: store_claimed_def)

lemma move_was_paid:
  assumes "order_move x y ev" and "wf_order x" and "was_paid y" shows "was_paid x \<or> o_Status y = PAID"
  using assms(1,3) wf_reason [OF assms(2)] by cases (auto simp: was_paid_def)

lemma move_agrees:
  assumes mv: "order_move x y ev" and wf: "wf_order x" and b: "backed s x y" and a: "agrees s x"
  shows "agrees s y"
proof -
  have same: "o_ReservationID y = o_ReservationID x" "o_ID y = o_ID x" "o_ReservationExpiresAt y = o_ReservationExpiresAt x"
    using order_move_same [OF mv] by (simp_all add: same_order_def)
  have 1: "was_paid y \<longrightarrow> sold s (o_ReservationID x)"
    using move_was_paid [OF mv wf] a b unfolding agrees_def backed_def by blast
  have 2: "o_Status y = CANCELLED \<longrightarrow> o_CancellationReason y = o_CancellationReason x"
    using mv by cases auto
  have 3: "sold s (o_ReservationID x) \<longrightarrow> charged y"
    using move_charged [OF mv wf b] dead_not_sold [of s "o_ReservationID x"] a unfolding agrees_def by blast
  have 4: "stock s (o_ReservationID x) = Some RReturned \<longrightarrow> store_claimed y"
    using move_store_claimed [OF mv wf] a unfolding agrees_def by blast
  have 5: "o_Status y = CANCELLED \<longrightarrow> (if o_CancellationReason y = ReasonStoreCancelled then stock s (o_ReservationID x) = Some RReturned
      else stock s (o_ReservationID x) \<in> {Some RReleased, Some RExpired})"
    using b 2 unfolding backed_def by metis
  from a have "\<exists>row. owned (s_inv s) (o_ReservationID x) (o_ID x) = Some row \<and> rr_ExpiresAt row = o_ReservationExpiresAt x"
    unfolding agrees_def by blast
  with 1 3 4 5 show ?thesis unfolding agrees_def same by blast
qed

lemma rows_unique: "orders_ok db \<Longrightarrow> x \<in> set (orders db) \<Longrightarrow> z \<in> set (orders db) \<Longrightarrow> o_ID z = o_ID x \<longleftrightarrow> z = x"
  unfolding orders_ok_def by (metis distinct_key_eq)

lemma saga_went:
  assumes ok: "saga v s" and went: "went (s_orders s) i A x y st db" and b: "backed s x y"
  shows "saga_rel v s (s\<lparr>s_orders := db\<rparr>)"
proof -
  note oo = sagaD(4) [OF ok]
  obtain ev where mv: "order_moved (s_orders s) x y ev db" using went by (auto simp: went_def)
  then have move: "order_move x y ev" and x: "x \<in> set (orders (s_orders s))"
    by (auto simp: order_moved_def dest: find_orderD)
  have wf: "wf_order x" using oo x by (simp add: orders_ok_def)
  note same = order_move_same [OF move]
  have keys: "well_keyed v y" "confirm_input y = confirm_input x" "o_ReservationID y = o_ReservationID x" "o_ID y = o_ID x"
    using same sagaD(5) [OF ok x] by (simp_all add: same_order_def well_keyed_def confirm_input_def)
  have rows: "z \<in> set (orders db) \<longleftrightarrow> z = y \<or> z \<in> set (orders (s_orders s)) \<and> z \<noteq> x" for z
    using x rows_unique [OF oo x] keys(4) by (auto simp: order_moved_orders [OF mv] set_update_where split: if_splits)
  show ?thesis
  proof (rule saga_orders [OF ok went_ok [OF oo went] went_le [OF oo went]])
    fix z assume "z \<in> set (orders db)"
    then consider "z = y" | "z \<in> set (orders (s_orders s))" using rows by blast
    then show "well_keyed v z \<and> agrees s z \<and>
      (sold s (o_ReservationID z) \<longrightarrow> answered (v_inventory v) ''confirm'' (confirm_input z) (s_inv s))"
    proof cases
      case 1
      then show ?thesis using keys move_agrees [OF move wf b] sagaD(5,6) [OF ok x] by simp
    qed (use sagaD(5,6) [OF ok] in blast)
  next
    fix z assume z: "z \<in> set (orders (s_orders s))"
    show "\<exists>y\<in>set (orders db). same_order z y \<and> (charged z \<longrightarrow> charged y \<or> dead s (o_ReservationID z)) \<and> (store_claimed z \<longrightarrow> store_claimed y)"
    proof (cases "z = x")
      case True
      with rows same move_charged [OF move wf b] move_store_claimed [OF move wf] show ?thesis by blast
    next
      case False
      with z rows show ?thesis using same_order_refl by blast
    qed
  qed
qed

lemma saga_created:
  assumes ok: "saga v s" and c: "created (s_orders s) x y db" and wf: "wf_order x" and p: "o_Status x = PENDING_PAYMENT"
    and keys: "well_keyed v x"
    and own: "owned (s_inv s) (o_ReservationID x) (o_ID x) = Some row" "rr_ExpiresAt row = o_ReservationExpiresAt x"
  shows "saga_rel v s (s\<lparr>s_orders := db\<rparr>)"
proof (rule saga_orders [OF ok created_ok [OF sagaD(4) [OF ok] c wf p] created_le [OF c]])
  obtain t where y: "y = x\<lparr>o_CreatedAt := t, o_UpdatedAt := t\<rparr>" and db: "orders db = orders (s_orders s) @ [y]"
    and new: "\<forall>z\<in>set (orders (s_orders s)). o_ReservationID z \<noteq> o_ReservationID x"
    using c by (auto simp: created_def)
  have "\<not> sold s (o_ReservationID x)" using sagaD(8) [OF ok, of "o_ReservationID x"] new by (metis imageE)
  moreover have "\<not> was_paid y" "o_Status y \<noteq> CANCELLED" using p by (simp_all add: was_paid_def y)
  ultimately have yy: "well_keyed v y \<and> agrees s y \<and> \<not> sold s (o_ReservationID y)"
    using own keys unfolding agrees_def by (auto simp: y well_keyed_def)
  fix z assume "z \<in> set (orders db)"
  then show "well_keyed v z \<and> agrees s z \<and>
      (sold s (o_ReservationID z) \<longrightarrow> answered (v_inventory v) ''confirm'' (confirm_input z) (s_inv s))"
    using yy sagaD(5,6) [OF ok] unfolding db by auto
next
  fix z assume "z \<in> set (orders (s_orders s))"
  then show "\<exists>y\<in>set (orders db). same_order z y \<and> (charged z \<longrightarrow> charged y \<or> dead s (o_ReservationID z)) \<and> (store_claimed z \<longrightarrow> store_claimed y)"
    using c by (intro bexI [of _ z]) (auto simp: created_def)
qed

lemma saga_published:
  assumes ok: "saga v s" and p: "published (s_orders s) db" shows "saga_rel v s (s\<lparr>s_orders := db\<rparr>)"
proof (rule saga_orders [OF ok published_ok [OF sagaD(4) [OF ok] p]])
  have same: "orders db = orders (s_orders s)" using p by (simp add: published_def)
  then show "orders_le (s_orders s) db" by (simp add: orders_le_def find_order_def)
  show "\<exists>y\<in>set (orders db). same_order z y \<and> (charged z \<longrightarrow> charged y \<or> dead s (o_ReservationID z)) \<and> (store_claimed z \<longrightarrow> store_claimed y)"
    if "z \<in> set (orders (s_orders s))" for z
    using that same by (intro bexI [of _ z]) auto
  show "well_keyed v z \<and> agrees s z \<and>
      (sold s (o_ReservationID z) \<longrightarrow> answered (v_inventory v) ''confirm'' (confirm_input z) (s_inv s))"
    if "z \<in> set (orders db)" for z
    using that same sagaD(5,6) [OF ok] by auto
qed

lemma saga_same: "saga v s \<Longrightarrow> saga_rel v s (s\<lparr>s_orders := s_orders s\<rparr>)"
  by (simp add: saga_rel_refl)

section \<open>Rules for the steps of a handler\<close>

text \<open>A step that only reads the environment.\<close>

lemma ask_bind:
  assumes "\<And>e t. saga_rel v s t \<Longrightarrow> env_ok v e t \<Longrightarrow> holds v Q (f (g e)) t"
  shows "holds v Q (bindP (atom (\<lambda>e s. (s, g e))) f) s"
  by (rule step.within_atom_bind) (use assms saga_rel_refl saga_relD in auto)

lemma nowP_bind: "(\<And>a t. saga_rel v s t \<Longrightarrow> holds v Q (f a) t) \<Longrightarrow> holds v Q (bindP nowP f) s"
  unfolding nowP_def by (rule ask_bind) blast

lemma newUUIDP_bind: "(\<And>a t. saga_rel v s t \<Longrightarrow> holds v Q (f a) t) \<Longrightarrow> holds v Q (bindP newUUIDP f) s"
  unfolding newUUIDP_def by (rule ask_bind) blast

lemma askP_bind: "(\<And>a t. saga_rel v s t \<Longrightarrow> holds v Q (f a) t) \<Longrightarrow> holds v Q (bindP (askP g) f) s"
  unfolding askP_def by (rule ask_bind) blast

text \<open>A transaction.\<close>

lemma repo_bind:
  assumes "\<And>w t. saga_rel v s t \<Longrightarrow>
    wp m (\<lambda>a db _. saga_rel v t (t\<lparr>s_orders := db\<rparr>) \<and> (saga_rel v s (t\<lparr>s_orders := db\<rparr>) \<longrightarrow> holds v Q (f (Inr a)) (t\<lparr>s_orders := db\<rparr>)))
      (\<lambda>e db _. saga_rel v t (t\<lparr>s_orders := db\<rparr>) \<and> (saga_rel v s (t\<lparr>s_orders := db\<rparr>) \<longrightarrow> holds v Q (f (Inl e)) (t\<lparr>s_orders := db\<rparr>))) w (s_orders t) 0"
  shows "holds v Q (bindP (repo m) f) s"
  unfolding repo_def
proof (rule step.within_atom_bind)
  fix t e assume t: "saga_rel v s t" "env_ok v e t"
  obtain r db n where run: "m (e_world e) (s_orders t) 0 = (r, db, n)" by (cases "m (e_world e) (s_orders t) 0") auto
  have "saga_rel v t (t\<lparr>s_orders := db\<rparr>) \<and> (saga_rel v s (t\<lparr>s_orders := db\<rparr>) \<longrightarrow> holds v Q (f r) (t\<lparr>s_orders := db\<rparr>))"
    using assms [OF t(1), of "e_world e"] by (simp add: wp_def run split: sum.splits)
  with saga_rel_trans [OF t(1)] run show "saga_rel v t (fst (case m (e_world e) (s_orders t) 0 of (r, db, _) \<Rightarrow> (t\<lparr>s_orders := db\<rparr>, r))) \<and>
      holds v Q (f (snd (case m (e_world e) (s_orders t) 0 of (r, db, _) \<Rightarrow> (t\<lparr>s_orders := db\<rparr>, r))))
        (fst (case m (e_world e) (s_orders t) 0 of (r, db, _) \<Rightarrow> (t\<lparr>s_orders := db\<rparr>, r)))"
    by simp
qed

text \<open>A transaction that makes one move at most.\<close>

lemma repo_move:
  assumes m: "\<And>w t. saga_rel v s t \<Longrightarrow> wp m
      (\<lambda>a db _. (db = s_orders t \<or> (\<exists>x y. went (s_orders t) i A x y st db)) \<and> P a db)
      (\<lambda>e db _. db = s_orders t \<or> (\<exists>x y. went (s_orders t) i A x y st db)) w (s_orders t) 0"
    and b: "\<And>t db x y. saga_rel v s t \<Longrightarrow> went (s_orders t) i A x y st db \<Longrightarrow> backed t x y"
    and Inr: "\<And>a t. saga_rel v s t \<Longrightarrow> P a (s_orders t) \<Longrightarrow> holds v Q (f (Inr a)) t"
    and Inl: "\<And>e t. saga_rel v s t \<Longrightarrow> holds v Q (f (Inl e)) t"
  shows "holds v Q (bindP (repo m) f) s"
proof (rule repo_bind, rule wp_mono [OF m])
  fix t assume t: "saga_rel v s t"
  have keep: "saga_rel v t (t\<lparr>s_orders := db\<rparr>)" if "db = s_orders t \<or> (\<exists>x y. went (s_orders t) i A x y st db)" for db
    using that saga_same [OF saga_relD(2) [OF t]] saga_went [OF saga_relD(2) [OF t]] b [OF t] by blast
  show "saga_rel v t (t\<lparr>s_orders := db\<rparr>) \<and> (saga_rel v s (t\<lparr>s_orders := db\<rparr>) \<longrightarrow> holds v Q (f (Inr a)) (t\<lparr>s_orders := db\<rparr>))"
    if "(db = s_orders t \<or> (\<exists>x y. went (s_orders t) i A x y st db)) \<and> P a db" for a db
    using that keep Inr [of "t\<lparr>s_orders := db\<rparr>" a] by simp
  show "saga_rel v t (t\<lparr>s_orders := db\<rparr>) \<and> (saga_rel v s (t\<lparr>s_orders := db\<rparr>) \<longrightarrow> holds v Q (f (Inl e)) (t\<lparr>s_orders := db\<rparr>))"
    if "db = s_orders t \<or> (\<exists>x y. went (s_orders t) i A x y st db)" for e db
    using that keep Inl by blast
qed

text \<open>A transaction that only reads.\<close>

lemma repo_read:
  assumes m: "\<And>w t. saga_rel v s t \<Longrightarrow> wp m (\<lambda>a db _. db = s_orders t \<and> P a t) (\<lambda>e db _. db = s_orders t \<and> E e t) w (s_orders t) 0"
    and Inr: "\<And>a t. saga_rel v s t \<Longrightarrow> P a t \<Longrightarrow> holds v Q (f (Inr a)) t"
    and Inl: "\<And>e t. saga_rel v s t \<Longrightarrow> E e t \<Longrightarrow> holds v Q (f (Inl e)) t"
  shows "holds v Q (bindP (repo m) f) s"
proof (rule repo_bind, rule wp_mono [OF m])
  fix t assume t: "saga_rel v s t"
  note same = saga_same [OF saga_relD(2) [OF t]]
  show "saga_rel v t (t\<lparr>s_orders := db\<rparr>) \<and> (saga_rel v s (t\<lparr>s_orders := db\<rparr>) \<longrightarrow> holds v Q (f (Inr a)) (t\<lparr>s_orders := db\<rparr>))"
    if "db = s_orders t \<and> P a t" for a db
    using that same Inr [OF t] by simp
  show "saga_rel v t (t\<lparr>s_orders := db\<rparr>) \<and> (saga_rel v s (t\<lparr>s_orders := db\<rparr>) \<longrightarrow> holds v Q (f (Inl e)) (t\<lparr>s_orders := db\<rparr>))"
    if "db = s_orders t \<and> E e t" for e db
    using that same Inl [OF t] by simp
qed

section \<open>Calls\<close>

lemma saga_send:
  assumes "saga v s" and "sent_ok v s c" shows "saga_rel v s (s\<lparr>s_sent := c # s_sent s\<rparr>)"
proof -
  have "sent_ok v (s\<lparr>s_sent := cs\<rparr>) d = sent_ok v s d" for cs d by (simp add: sent_ok_def split: inv_call.split)
  then have "saga v (s\<lparr>s_sent := c # s_sent s\<rparr>)" using assms unfolding saga_def by simp
  then show ?thesis using assms(1) by (simp add: saga_rel_def sys_le_def may_confirm_def)
qed

lemma call_bind:
  assumes v: "lawful v" and sent: "\<And>t. saga_rel v s t \<Longrightarrow> sent_ok v t c"
    and lost: "\<And>err t. saga_rel v s t \<Longrightarrow> re_Code err \<noteq> FailedPrecondition \<Longrightarrow> holds v Q (f (Inl err)) t"
    and ans: "\<And>t d w clk r db n'. saga_rel v s t \<Longrightarrow> admitted v w clk t \<Longrightarrow> serve (v_inventory v) d c w (s_inv t) 1 = (r, db, n') \<Longrightarrow>
      saga_rel v s (after_step t db clk) \<Longrightarrow> holds v Q (f r) (after_step t db clk)"
  shows "holds v Q (bindP (call_inventory v c) f) s"
  unfolding call_inventory_def Let_def
proof (rule step.within_atom_bind)
  fix t0 e assume t0: "saga_rel v s t0" and e: "env_ok v e t0"
  let ?t = "t0\<lparr>s_sent := c # s_sent t0\<rparr>" and ?w = "e_inventory e"
  obtain r db n' where run: "serve (v_inventory v) (e_driver e) c ?w (s_inv t0) 1 = (r, db, n')"
    by (cases "serve (v_inventory v) (e_driver e) c ?w (s_inv t0) 1") auto
  have send: "saga_rel v t0 ?t" using saga_send [OF saga_relD(2) [OF t0] sent [OF t0]] .
  then have t: "saga_rel v s ?t" using saga_rel_trans [OF t0] by blast
  have adm: "admitted v ?w (e_clk e) ?t" and code: "re_Code (e_lost e) \<noteq> FailedPrecondition"
    using e by (simp_all add: env_ok_def admitted_def)
  have "inv_moved v ?w ?t db"
    using serve_moves [OF v saga_relD(2) [OF send] _ adm, of c "e_driver e" 1] run by simp
  then have "inventory_step v ?w ?t db (e_clk e)"
    using saga_relD(2) [OF send] adm by (simp add: inventory_step_def)
  then have step: "saga_rel v ?t (after_step ?t db (e_clk e))" by (rule inventory_keeps)
  let ?g = "if w_fails ?w 0 then (?t, Inl (e_lost e))
     else (case serve (v_inventory v) (e_driver e) c ?w (s_inv t0) 1 of
       (r, db, n) \<Rightarrow> (?t\<lparr>s_inv := db, s_clk := e_clk e\<rparr>, if w_fails ?w n then Inl (e_lost e) else r))"
  have "holds v Q (f r) (after_step ?t db (e_clk e))" "holds v Q (f (Inl (e_lost e))) (after_step ?t db (e_clk e))"
    "holds v Q (f (Inl (e_lost e))) ?t"
    using ans [OF t adm _ saga_rel_trans [OF t step]] lost [OF t code] lost [OF saga_rel_trans [OF t step] code] run by simp_all
  then show "saga_rel v t0 (fst ?g) \<and> holds v Q (f (snd ?g)) (fst ?g)"
    using send saga_rel_trans [OF send step] unfolding run by simp
qed

text \<open>What a handler remembers about an order it has read.\<close>

definition known :: "sys \<Rightarrow> order \<Rightarrow> bool" where
  "known s x \<longleftrightarrow> (\<exists>y. find_order (o_ID x) (s_orders s) = Some y \<and> order_le x y)"

lemma known_later: "known s x \<Longrightarrow> saga_rel v s t \<Longrightarrow> known t x"
  unfolding known_def saga_rel_def sys_le_def orders_le_def using order_le_trans by meson

lemma may_confirm_later: "may_confirm s i \<Longrightarrow> saga_rel v s t \<Longrightarrow> may_confirm t i"
  by (simp add: saga_rel_def sys_le_def)

lemma knownD:
  assumes "known s x" and "saga v s"
  obtains y where "find_order (o_ID x) (s_orders s) = Some y" "y \<in> set (orders (s_orders s))" "order_le x y" "same_order x y"
    "wf_order y" "well_keyed v y" "agrees s y"
  using assms find_orderD sagaD(4,5) [OF assms(2)] unfolding known_def orders_ok_def order_le_def by metis

lemma known_keys: "known s x \<Longrightarrow> saga v s \<Longrightarrow> well_keyed v x"
  by (erule (1) knownD) (simp add: well_keyed_def same_order_def)

lemma same_requests:
  "same_order x y \<Longrightarrow> confirm_request y = confirm_request x" "same_order x y \<Longrightarrow> return_request_of v y = return_request_of v x"
  by (simp_all add: same_order_def confirm_request_def return_request_of_def)

lemma confirm_call:
  assumes v: "lawful v" and k: "known s x" and may: "may_confirm s (o_ID x)"
    and Inr: "\<And>p t. saga_rel v s t \<Longrightarrow> sold t (o_ReservationID x) \<Longrightarrow> holds v Q (f (Inr p)) t"
    and Inl: "\<And>err t. saga_rel v s t \<Longrightarrow> (re_Code err = FailedPrecondition \<Longrightarrow> dead t (o_ReservationID x)) \<Longrightarrow> holds v Q (f (Inl err)) t"
  shows "holds v Q (bindP (call_inventory v (ConfirmReservation (confirm_request x))) f) s"
proof (rule call_bind [OF v])
  fix t assume t: "saga_rel v s t"
  obtain y where y: "find_order (o_ID x) (s_orders t) = Some y" "y \<in> set (orders (s_orders t))" "same_order x y"
    using knownD [OF known_later [OF k t] saga_relD(2) [OF t]] by metis
  then show "sent_ok v t (ConfirmReservation (confirm_request x))"
    using may_confirm_later [OF may t] same_requests(1) [OF y(3)] unfolding sent_ok_def may_confirm_def inv_call.case
    by (intro bexI [of _ y]) auto
  fix d w clk r db n' assume adm: "admitted v w clk t" and later: "saga_rel v s (after_step t db clk)"
    and run: "serve (v_inventory v) d (ConfirmReservation (confirm_request x)) w (s_inv t) 1 = (r, db, n')"
  have run': "grpc_ConfirmReservation d (v_inventory v) (confirm_request y) w (s_inv t) 1 = (r, db, n')"
    using run same_requests(1) [OF y(3)] by (simp add: serve_def)
  have rid: "o_ReservationID y = o_ReservationID x" using y(3) by (simp add: same_order_def)
  from confirm_answer [OF v saga_relD(2) [OF t] adm y(2) run'] show "holds v Q (f r) (after_step t db clk)"
    unfolding rid using Inr [OF later] Inl [OF later] by (cases r) blast+
qed (use Inl in blast)

lemma release_call:
  assumes v: "lawful v"
    and Inr: "\<And>p t. saga_rel v s t \<Longrightarrow> (well_keyed v x \<Longrightarrow> rid = o_ReservationID x \<Longrightarrow> stock t rid \<in> {Some RReleased, Some RExpired}) \<Longrightarrow>
      holds v Q (f (Inr p)) t"
    and Inl: "\<And>err t. saga_rel v s t \<Longrightarrow> holds v Q (f (Inl err)) t"
  shows "holds v Q (bindP (call_inventory v (ReleaseReservation (release_request rid x reason))) f) s"
proof (rule call_bind [OF v])
  fix t d w clk r db n' assume t: "saga_rel v s t" and later: "saga_rel v s (after_step t db clk)"
    and run: "serve (v_inventory v) d (ReleaseReservation (release_request rid x reason)) w (s_inv t) 1 = (r, db, n')"
  show "holds v Q (f r) (after_step t db clk)"
  proof (cases r)
    case (Inr p)
    have "stock (after_step t db clk) rid \<in> {Some RReleased, Some RExpired}" if "well_keyed v x" "rid = o_ReservationID x"
      using release_answer [OF v saga_relD(2) [OF t] that(1)] run Inr that(2) by (simp add: serve_def)
    then show ?thesis unfolding Inr by (rule assms(2) [OF later])
  qed (use Inl [OF later] in simp)
qed (use Inl in \<open>auto simp: sent_ok_def\<close>)

lemma return_call:
  assumes v: "lawful v" and k: "known s x" and cl: "\<And>y. order_le x y \<Longrightarrow> store_claimed y"
    and Inr: "\<And>p t. saga_rel v s t \<Longrightarrow> stock t (o_ReservationID x) = Some RReturned \<Longrightarrow> holds v Q (f (Inr p)) t"
    and Inl: "\<And>err t. saga_rel v s t \<Longrightarrow> holds v Q (f (Inl err)) t"
  shows "holds v Q (bindP (call_inventory v (ReturnConfirmedReservation (return_request_of v x))) f) s"
proof (rule call_bind [OF v])
  fix t assume t: "saga_rel v s t"
  obtain y where y: "y \<in> set (orders (s_orders t))" "same_order x y" "order_le x y" "well_keyed v y"
    using knownD [OF known_later [OF k t] saga_relD(2) [OF t]] by metis
  then show "sent_ok v t (ReturnConfirmedReservation (return_request_of v x))"
    using cl same_requests(2) [of x y v] unfolding sent_ok_def inv_call.case by (intro bexI [of _ y]) auto
  fix d w clk r db n' assume later: "saga_rel v s (after_step t db clk)"
    and run: "serve (v_inventory v) d (ReturnConfirmedReservation (return_request_of v x)) w (s_inv t) 1 = (r, db, n')"
  show "holds v Q (f r) (after_step t db clk)"
  proof (cases r)
    case (Inr p)
    have "stock (after_step t db clk) (o_ReservationID x) = Some RReturned"
      using return_answer [OF v saga_relD(2) [OF t] known_keys [OF known_later [OF k t] saga_relD(2) [OF t]]] run Inr by (simp add: serve_def)
    then show ?thesis unfolding Inr by (rule assms(4) [OF later])
  qed (use Inl [OF later] in simp)
qed (use Inl in blast)

lemma reserve_call:
  assumes v: "lawful v" and o: "canonical v (pq_OrderId r)"
    and Inr: "\<And>p row t. saga_rel v s t \<Longrightarrow> owned (s_inv t) (pr_ReservationId p) (pq_OrderId r) = Some row \<Longrightarrow>
      pr_ExpiresAt p = Some (rr_ExpiresAt row) \<Longrightarrow> canonical v (pr_ReservationId p) \<Longrightarrow> holds v Q (f (Inr p)) t"
    and Inl: "\<And>err t. saga_rel v s t \<Longrightarrow> holds v Q (f (Inl err)) t"
  shows "holds v Q (bindP (call_inventory v (ReservePortions r)) f) s"
proof (rule call_bind [OF v])
  fix t d w clk res db n' assume t: "saga_rel v s t" and later: "saga_rel v s (after_step t db clk)"
    and run: "serve (v_inventory v) d (ReservePortions r) w (s_inv t) 1 = (res, db, n')"
  show "holds v Q (f res) (after_step t db clk)"
  proof (cases res)
    case (Inr p)
    obtain row where row: "find_res (pr_ReservationId p) db = Some row" "rr_OrderID row = pq_OrderId r" "pr_ExpiresAt p = Some (rr_ExpiresAt row)"
      using reserve_answer [OF v saga_relD(2) [OF t] o] run unfolding Inr serve_def inv_call.case by blast
    have "canonical v (pr_ReservationId p)" using sagaD(9) [OF saga_relD(2) [OF later]] row(1) by simp
    moreover have "owned db (pr_ReservationId p) (pq_OrderId r) = Some row" using row by (simp add: owned_def)
    ultimately show ?thesis unfolding Inr using assms(3) [OF later] row(3) by simp
  qed (use Inl [OF later] in simp)
qed (use Inl in \<open>auto simp: sent_ok_def\<close>)

end
