(* ===== verification/Order_Tx.thy ===== *)
theory Order_Tx
  imports Order_Steps
begin

text \<open>
  The transactions of the order repository as steps of a handler: which facts about an order stay
  true whatever happens later, and a rule for each method that changes an order.
\<close>

section \<open>Facts that stay true\<close>

definition order_at :: "sys \<Rightarrow> string \<Rightarrow> (order \<Rightarrow> bool) \<Rightarrow> bool" where
  "order_at s i P \<longleftrightarrow> (\<exists>x. find_order i (s_orders s) = Some x \<and> P x)"

lemma order_at_later:
  "order_at s i P \<Longrightarrow> saga_rel v s t \<Longrightarrow> (\<And>x y. P x \<Longrightarrow> order_le x y \<Longrightarrow> P y) \<Longrightarrow> order_at t i P"
  unfolding order_at_def saga_rel_def sys_le_def orders_le_def by meson

lemma order_at_mono: "order_at s i P \<Longrightarrow> (\<And>x. P x \<Longrightarrow> Q x) \<Longrightarrow> order_at s i Q"
  unfolding order_at_def by blast

text \<open>The payment was accepted; the payment was refused for good; the order is closed.\<close>

definition is_paid :: "order \<Rightarrow> bool" where
  "is_paid x \<longleftrightarrow> o_PaidAt x \<noteq> None"

definition is_refused :: "order \<Rightarrow> bool" where
  "is_refused x \<longleftrightarrow> o_Status x \<in> {CANCEL_PENDING, CANCELLED} \<and> o_PaidAt x = None"

definition is_closed :: "order \<Rightarrow> bool" where
  "is_closed x \<longleftrightarrow> o_Status x = CANCELLED"

definition is_store_closed :: "order \<Rightarrow> bool" where
  "is_store_closed x \<longleftrightarrow> o_Status x = CANCELLED \<and> o_CancellationReason x = ReasonStoreCancelled"

lemma stays:
  "is_paid x \<Longrightarrow> order_le x y \<Longrightarrow> is_paid y" "is_refused x \<Longrightarrow> order_le x y \<Longrightarrow> is_refused y"
  "is_closed x \<Longrightarrow> order_le x y \<Longrightarrow> is_closed y" "is_store_closed x \<Longrightarrow> order_le x y \<Longrightarrow> is_store_closed y"
  by (auto simp: is_paid_def is_refused_def is_closed_def is_store_closed_def order_le_def)

lemma sold_later: "sold s rid \<Longrightarrow> saga_rel v s t \<Longrightarrow> sold t rid"
  using stock_later [of "s_inv s" "s_inv t" rid] by (fastforce simp: saga_rel_def sys_le_def)

lemma final_later:
  "stock s rid \<in> {Some RReleased, Some RExpired} \<Longrightarrow> saga_rel v s t \<Longrightarrow> stock t rid \<in> {Some RReleased, Some RExpired}"
  "stock s rid = Some RReturned \<Longrightarrow> saga_rel v s t \<Longrightarrow> stock t rid = Some RReturned"
  using stock_later [of "s_inv s" "s_inv t" rid] by (fastforce simp: saga_rel_def sys_le_def)+

lemma dead_later: "dead s rid \<Longrightarrow> saga_rel v s t \<Longrightarrow> dead t rid"
  by (simp add: saga_rel_def sys_le_def)

lemma knownI: "find_order i (s_orders s) = Some x \<Longrightarrow> known s x"
  using find_orderD [of i "s_orders s" x] by (auto simp: known_def)

lemma saga_wf: "saga v s \<Longrightarrow> find_order i (s_orders s) = Some x \<Longrightarrow> wf_order x \<and> agrees s x"
  using sagaD(4,5) [of v s] find_orderD [of i "s_orders s" x] by (auto simp: orders_ok_def)

lemma paid_status: "saga v s \<Longrightarrow> order_at s i (\<lambda>x. o_Status x = PAID) \<Longrightarrow> order_at s i is_paid"
  unfolding order_at_def is_paid_def using saga_wf wf_paid by (metis was_paid_def insertCI)

lemma wentD:
  "went s i A x y st s' \<Longrightarrow> find_order i s = Some x" "went s i A x y st s' \<Longrightarrow> find_order i s' = Some y"
  "went s i A x y st s' \<Longrightarrow> o_Status x \<in> A" "went s i A x y st s' \<Longrightarrow> o_Status y = st"
  by (auto simp: went_def)

lemma dead_refused:
  assumes "saga v s" and "dead s (o_ReservationID x)" and "find_order i (s_orders s) = Some x" and "o_Status x \<in> {CANCEL_PENDING, CANCELLED}"
  shows "order_at s i is_refused"
proof -
  have "\<not> was_paid x" using saga_wf [OF assms(1,3)] dead_not_sold [OF assms(2)] by (auto simp: agrees_def)
  then have "o_PaidAt x = None" using saga_wf [OF assms(1,3)] wf_paid by blast
  with assms(3,4) show ?thesis unfolding order_at_def is_refused_def by blast
qed

section \<open>Transactions\<close>

lemma known_find: "known s x \<Longrightarrow> find_order (o_ID x) (s_orders s) = Some y \<Longrightarrow> order_le x y \<and> same_order x y"
  by (auto simp: known_def order_le_def)

lemma known_reservation: "known s x \<Longrightarrow> find_order (o_ID x) (s_orders s) = Some y \<Longrightarrow> o_ReservationID y = o_ReservationID x"
  using known_find [of s x y] by (simp add: same_order_def)

lemma mark_paid:
  assumes k: "known s x" and sold: "sold s (o_ReservationID x)"
    and Inr: "\<And>a t. saga_rel v s t \<Longrightarrow> order_at t (o_ID x) is_paid \<Longrightarrow> holds v Q (f (Inr a)) t"
    and Inl: "\<And>e t. saga_rel v s t \<Longrightarrow> holds v Q (f (Inl e)) t"
  shows "holds v Q (bindP (repo (MarkPaidWithOutbox (o_ID x) p eid (placed_event x p))) f) s"
proof (rule repo_move [where i = "o_ID x" and A = "{PAYMENT_CONFIRMING}" and st = PAID
      and P = "\<lambda>_ db. \<exists>y. find_order (o_ID x) db = Some y \<and> o_Status y = PAID"], goal_cases)
  case (1 w t)
  have "placed_event x p = placed_event y p" if "find_order (o_ID x) (s_orders t) = Some y" for y
    using known_find [OF known_later [OF k 1] that] placed_event_same [of x y] by simp
  then show ?case
    by (intro wp_mono [OF wp_MarkPaidWithOutbox [OF sagaD(4) [OF saga_relD(2) [OF 1]]]]) (auto dest: wentD)
next
  case (2 t db x' y)
  then show ?case
    using known_reservation [OF known_later [OF k 2(1)] wentD(1) [OF 2(2)]] sold_later [OF sold 2(1)] wentD [OF 2(2)]
    by (auto simp: backed_def)
next
  case (3 a t)
  then show ?case using Inr [OF 3(1)] paid_status [OF saga_relD(2) [OF 3(1)]] by (simp add: order_at_def)
qed (rule Inl)

lemma reject_payment:
  assumes k: "known s x" and dead: "dead s (o_ReservationID x)"
    and Inr: "\<And>a t. saga_rel v s t \<Longrightarrow> order_at t (o_ID x) is_refused \<Longrightarrow> holds v Q (f (Inr a)) t"
    and Inl: "\<And>e t. saga_rel v s t \<Longrightarrow> holds v Q (f (Inl e)) t"
  shows "holds v Q (bindP (repo (RejectPaymentConfirmation (o_ID x))) f) s"
proof (rule repo_move [where i = "o_ID x" and A = "{PAYMENT_CONFIRMING}" and st = CANCEL_PENDING
      and P = "\<lambda>_ db. \<exists>y. find_order (o_ID x) db = Some y \<and> o_Status y \<in> {CANCEL_PENDING, CANCELLED}"], goal_cases)
  case (1 w t)
  show ?case
    by (intro wp_mono [OF wp_RejectPaymentConfirmation [OF sagaD(4) [OF saga_relD(2) [OF 1]]]]) (auto dest: wentD)
next
  case (2 t db x' y)
  then show ?case
    using known_reservation [OF known_later [OF k 2(1)] wentD(1) [OF 2(2)]] dead_later [OF dead 2(1)] wentD [OF 2(2)]
    by (auto simp: backed_def)
next
  case (3 a t)
  then obtain y where y: "find_order (o_ID x) (s_orders t) = Some y" "o_Status y \<in> {CANCEL_PENDING, CANCELLED}" by blast
  have rid: "o_ReservationID y = o_ReservationID x"
    using known_reservation [OF known_later [OF k 3(1)]] y(1) by simp
  show ?case
    using Inr [OF 3(1) dead_refused [OF saga_relD(2) [OF 3(1)] _ y]] dead_later [OF dead 3(1)] rid by simp
qed (rule Inl)

text \<open>Claiming an order: the claim is a fact, or the order was further on already.\<close>

lemma begin_transition:
  assumes target: "target \<in> {CANCEL_PENDING, PAYMENT_CONFIRMING}"
    and Inr: "\<And>y t. saga_rel v s t \<Longrightarrow> find_order i (s_orders t) = Some y \<Longrightarrow> wf_order y \<Longrightarrow>
      o_Status y \<in> {target, if target = PAYMENT_CONFIRMING then PAID else CANCELLED} \<Longrightarrow> holds v Q (f (Inr y)) t"
    and Inl: "\<And>e t. saga_rel v s t \<Longrightarrow> holds v Q (f (Inl e)) t"
  shows "holds v Q (bindP (repo (BeginTransition i target)) f) s"
proof (rule repo_move [where i = i and A = "{PENDING_PAYMENT}" and st = target
      and P = "\<lambda>y db. find_order i db = Some y \<and> o_Status y \<in> {target, if target = PAYMENT_CONFIRMING then PAID else CANCELLED}"], goal_cases)
  case (1 w t)
  show ?case
    by (intro wp_mono [OF wp_BeginTransition [OF sagaD(4) [OF saga_relD(2) [OF 1]] target]]) (auto dest: wentD)
next
  case (2 t db x y)
  then show ?case using target wentD [OF 2(2)] by (auto simp: backed_def)
next
  case (3 y t)
  then show ?case using Inr [OF 3(1)] saga_wf [OF saga_relD(2) [OF 3(1)]] by blast
qed (rule Inl)

lemma begin_expiry:
  assumes Inr: "\<And>y t. saga_rel v s t \<Longrightarrow> find_order i (s_orders t) = Some y \<Longrightarrow> wf_order y \<Longrightarrow> o_Status y = CANCEL_PENDING \<Longrightarrow> holds v Q (f (Inr y)) t"
    and Inl: "\<And>e t. saga_rel v s t \<Longrightarrow> holds v Q (f (Inl e)) t"
  shows "holds v Q (bindP (repo (BeginExpiry i t0)) f) s"
proof (rule repo_move [where i = i and A = "{PENDING_PAYMENT}" and st = CANCEL_PENDING
      and P = "\<lambda>y db. find_order i db = Some y \<and> o_Status y = CANCEL_PENDING"], goal_cases)
  case (1 w t)
  show ?case
    by (intro wp_mono [OF wp_BeginExpiry [OF sagaD(4) [OF saga_relD(2) [OF 1]]]]) (auto dest: wentD)
next
  case (2 t db x y)
  then show ?case using wentD [OF 2(2)] by (auto simp: backed_def)
next
  case (3 y t)
  then show ?case using Inr [OF 3(1)] saga_wf [OF saga_relD(2) [OF 3(1)]] by blast
qed (rule Inl)

lemma begin_store_cancellation:
  assumes Inr: "\<And>y t. saga_rel v s t \<Longrightarrow> find_order i (s_orders t) = Some y \<Longrightarrow> wf_order y \<Longrightarrow>
      o_Status y = STORE_CANCEL_PENDING \<or> is_store_closed y \<Longrightarrow> holds v Q (f (Inr y)) t"
    and Inl: "\<And>e t. saga_rel v s t \<Longrightarrow> holds v Q (f (Inl e)) t"
  shows "holds v Q (bindP (repo (BeginStoreCancellation i)) f) s"
proof (rule repo_move [where i = i and A = "{PAID}" and st = STORE_CANCEL_PENDING
      and P = "\<lambda>y db. find_order i db = Some y \<and> (o_Status y = STORE_CANCEL_PENDING \<or> is_store_closed y)"], goal_cases)
  case (1 w t)
  show ?case
    by (intro wp_mono [OF wp_BeginStoreCancellation [OF sagaD(4) [OF saga_relD(2) [OF 1]]]]) (auto simp: is_store_closed_def dest: wentD)
next
  case (2 t db x y)
  then show ?case using wentD [OF 2(2)] by (auto simp: backed_def)
next
  case (3 y t)
  then show ?case using Inr [OF 3(1)] saga_wf [OF saga_relD(2) [OF 3(1)]] by blast
qed (rule Inl)

text \<open>Closing an order with the event that describes it.\<close>

lemma mark_cancelled:
  assumes k: "known s x"
    and data: "\<And>y. order_le x y \<Longrightarrow> o_Status y \<in> {CANCEL_PENDING, STORE_CANCEL_PENDING} \<Longrightarrow> data = cancel_data y"
    and held: "\<And>t y. saga_rel v s t \<Longrightarrow> order_le x y \<Longrightarrow> o_Status y \<in> {CANCEL_PENDING, STORE_CANCEL_PENDING} \<Longrightarrow>
      if o_CancellationReason y = ReasonStoreCancelled then stock t (o_ReservationID x) = Some RReturned
      else stock t (o_ReservationID x) \<in> {Some RReleased, Some RExpired}"
    and Inr: "\<And>a t y. saga_rel v s t \<Longrightarrow> find_order (o_ID x) (s_orders t) = Some y \<Longrightarrow> order_le x y \<Longrightarrow> is_closed y \<Longrightarrow> holds v Q (f (Inr a)) t"
    and Inl: "\<And>e t. saga_rel v s t \<Longrightarrow> holds v Q (f (Inl e)) t"
  shows "holds v Q (bindP (repo (MarkCancelled (o_ID x) eid (Cancelled t0 data))) f) s"
proof (rule repo_move [where i = "o_ID x" and A = "{CANCEL_PENDING, STORE_CANCEL_PENDING}" and st = CANCELLED
      and P = "\<lambda>_ db. \<exists>y. find_order (o_ID x) db = Some y \<and> is_closed y"], goal_cases)
  case (1 w t)
  have "data = cancel_data y" if "find_order (o_ID x) (s_orders t) = Some y" "o_Status y \<in> {CANCEL_PENDING, STORE_CANCEL_PENDING}" for y
    using known_find [OF known_later [OF k 1] that(1)] that(2) data by blast
  then show ?case
    by (intro wp_mono [OF wp_MarkCancelled [OF sagaD(4) [OF saga_relD(2) [OF 1]], where ?t0.0 = t0]]) (auto simp: is_closed_def dest: wentD)
next
  case (2 t db x' y)
  have "o_Status y = CANCELLED" "order_le x x'"
    using known_find [OF known_later [OF k 2(1)]] wentD [OF 2(2)] by auto
  with held [OF 2(1) this(2) wentD(3) [OF 2(2)]] show ?case
    using known_reservation [OF known_later [OF k 2(1)] wentD(1) [OF 2(2)]] by (auto simp: backed_def split: if_splits)
next
  case (3 a t)
  then show ?case using Inr [OF 3(1)] known_find [OF known_later [OF k 3(1)]] by auto
qed (rule Inl)

lemma bind_checkout_tx:
  assumes Inr: "\<And>y t. saga_rel v s t \<Longrightarrow> find_order i (s_orders t) = Some y \<Longrightarrow> o_Status y = PENDING_PAYMENT \<Longrightarrow>
      o_CheckoutSessionID y = sid \<Longrightarrow> o_CheckoutURL y = u \<Longrightarrow> holds v Q (f (Inr y)) t"
    and Inl: "\<And>e t. saga_rel v s t \<Longrightarrow> holds v Q (f (Inl e)) t"
  shows "holds v Q (bindP (repo (BindCheckout i sid u)) f) s"
proof (rule repo_move [where i = i and A = "{PENDING_PAYMENT}" and st = PENDING_PAYMENT
      and P = "\<lambda>y db. find_order i db = Some y \<and> o_Status y = PENDING_PAYMENT \<and> o_CheckoutSessionID y = sid \<and> o_CheckoutURL y = u"], goal_cases)
  case (1 w t)
  show ?case
    by (intro wp_mono [OF wp_BindCheckout [OF sagaD(4) [OF saga_relD(2) [OF 1]]]]) (auto dest: wentD)
next
  case (2 t db x y)
  then show ?case using wentD [OF 2(2)] by (auto simp: backed_def)
next
  case (3 y t)
  then show ?case using Inr by simp
qed (rule Inl)

end
