(* ===== verification/Order_Handlers.thy ===== *)
theory Order_Handlers
  imports Order_Tx
begin

text \<open>
  The contracts of the handlers of the order service. Each handler keeps the invariant in every
  step, whatever runs between its steps, and what it answers is true of the shared state when it
  answers and ever after.
\<close>

section \<open>Errors that are not a rejection\<close>

lemma not_rejected [simp]:
  "dependencyError z \<noteq> paymentRejected" "badRequest z \<noteq> paymentRejected" "conflict z z' \<noteq> paymentRejected"
  "mapRepositoryError e \<noteq> paymentRejected"
  by (simp_all add: dependencyError_def badRequest_def conflict_def mapRepositoryError_def app_error_def paymentRejected_def)

lemma mapGRPCError_not_rejected [simp]: "mapGRPCError dep err \<noteq> paymentRejected"
proof -
  have "app_error c m st \<noteq> paymentRejected" if "st \<noteq> 410" for c m st
    using that by (simp add: app_error_def paymentRejected_def)
  then show ?thesis by (auto simp: mapGRPCError_def split: option.split rpc_code.split)
qed

section \<open>Payment\<close>

definition pay_answer :: "string \<Rightarrow> oerror + unit \<Rightarrow> sys \<Rightarrow> bool" where
  "pay_answer i r s \<longleftrightarrow> (r = Inr () \<longrightarrow> order_at s i is_paid) \<and> (r = Inl paymentRejected \<longrightarrow> order_at s i is_refused)"

lemma finishPayment_holds:
  assumes v: "lawful v" and k: "known s x" and may: "may_confirm s (o_ID x)"
  shows "holds v (pay_answer (o_ID x)) (finishPayment v x) s"
  unfolding finishPayment_def
proof (rule confirm_call [OF v k may], goal_cases)
  case (1 p t)
  show ?case
    unfolding sum.case
  proof (rule newUUIDP_bind, rule nowP_bind, rule mark_paid, goal_cases)
    case (1 _ t1 _ t2)
    then show ?case using known_later [OF k] \<open>saga_rel v s t\<close> saga_rel_trans by blast
  next
    case (2 _ t1 _ t2)
    then show ?case using sold_later [OF \<open>sold t (o_ReservationID x)\<close>] saga_rel_trans by blast
  qed (auto simp: failP_def pay_answer_def)
next
  case (2 err t)
  show ?case
  proof (cases "re_Code err = FailedPrecondition")
    case True
    have "holds v (pay_answer (o_ID x)) (bindP (repo (RejectPaymentConfirmation (o_ID x))) (\<lambda>r. case r of
             Inl _ \<Rightarrow> failP (dependencyError ''ORDER_STORAGE_UNAVAILABLE'')
           | Inr _ \<Rightarrow> failP paymentRejected)) t"
      by (rule reject_payment [OF known_later [OF k 2(1)] 2(2) [OF True]]) (auto simp: failP_def pay_answer_def)
    with True show ?thesis by simp
  qed (simp add: failP_def pay_answer_def)
qed

lemma paymentStateError_holds: "holds v (pay_answer i) (paymentStateError i) s"
  unfolding paymentStateError_def
proof (rule repo_read [where P = "\<lambda>x t. find_order i (s_orders t) = Some x" and E = "\<lambda>_ _. True"], goal_cases)
  case (1 w t)
  show ?case by (rule wp_mono [OF wp_Get_order]) auto
next
  case (2 x t)
  then show ?case by (auto simp: Let_def failP_def pay_answer_def order_at_def is_refused_def)
qed (simp add: failP_def pay_answer_def)

lemma ConfirmPayment_holds:
  assumes v: "lawful v" shows "holds v (pay_answer i) (ConfirmPayment v i) s"
  unfolding ConfirmPayment_def
proof (rule begin_transition, goal_cases)
  case (2 y t)
  then have st: "o_Status y = PAYMENT_CONFIRMING \<or> o_Status y = PAID" and i: "o_ID y = i" by (auto dest: find_orderD)
  show ?case
  proof (cases "o_Status y = PAID")
    case True
    then have "order_at t i is_paid"
      using 2(2) by (intro paid_status [OF saga_relD(2) [OF 2(1)]]) (auto simp: order_at_def)
    with True show ?thesis by (simp add: pay_answer_def)
  next
    case False
    with st have conf: "o_Status y = PAYMENT_CONFIRMING" by blast
    then have "may_confirm t (o_ID y)" using 2(2) i by (auto simp: may_confirm_def charged_def)
    then have "holds v (pay_answer (o_ID y)) (finishPayment v y) t" using finishPayment_holds [OF v knownI [OF 2(2)]] by blast
    with conf i show ?thesis by simp
  qed
next
  case (3 e t)
  then show ?case using paymentStateError_holds by (simp add: failP_def pay_answer_def)
qed simp

section \<open>Cancellation\<close>

lemma commitCancellation_holds:
  assumes k: "known s x"
    and data: "\<And>y. order_le x y \<Longrightarrow> o_Status y \<in> {CANCEL_PENDING, STORE_CANCEL_PENDING} \<Longrightarrow> data = cancel_data y"
    and held: "\<And>t y. saga_rel v s t \<Longrightarrow> order_le x y \<Longrightarrow> o_Status y \<in> {CANCEL_PENDING, STORE_CANCEL_PENDING} \<Longrightarrow>
      if o_CancellationReason y = ReasonStoreCancelled then stock t (o_ReservationID x) = Some RReturned
      else stock t (o_ReservationID x) \<in> {Some RReleased, Some RExpired}"
  shows "holds v (\<lambda>r t. r = Inr () \<longrightarrow> order_at t (o_ID x) (\<lambda>y. is_closed y \<and> order_le x y)) (commitCancellation x data) s"
  unfolding commitCancellation_def
proof (rule newUUIDP_bind, rule nowP_bind, rule mark_cancelled, goal_cases)
  case (1 _ t _ u)
  then show ?case using known_later [OF k] saga_rel_trans by blast
next
  case (2 _ t _ u y)
  then show ?case using data by blast
next
  case (3 _ t _ u z y)
  then show ?case using held saga_rel_trans by blast
qed (auto simp: failP_def order_at_def)

lemma finishCancellation_holds:
  assumes v: "lawful v" and k: "known s x" and wf: "wf_order x" and st: "o_Status x = CANCEL_PENDING"
  shows "holds v (\<lambda>r t. r = Inr () \<longrightarrow> order_at t (o_ID x) is_closed) (finishCancellation v x) s"
  unfolding finishCancellation_def Let_def
proof (rule release_call [OF v], goal_cases)
  case (1 p t)
  have same: "o_CancellationReason y = o_CancellationReason x" "o_Status y \<in> {CANCEL_PENDING, CANCELLED}" "same_order x y" if "order_le x y" for y
    using that st by (auto simp: order_le_def)
  have reason: "o_CancellationReason x \<noteq> ReasonStoreCancelled" using wf_reason [OF wf] st by auto
  have held: "stock t (o_ReservationID x) \<in> {Some RReleased, Some RExpired}"
    using 1(2) known_keys [OF k saga_relD(1) [OF 1(1)]] by blast
  have "holds v (\<lambda>r t. r = Inr () \<longrightarrow> order_at t (o_ID x) (\<lambda>y. is_closed y \<and> order_le x y))
      (commitCancellation x (unpaid_cancellation x (cancellationReason x))) t"
  proof (rule commitCancellation_holds [OF known_later [OF k 1(1)]], goal_cases)
    case (1 y)
    then show ?case using same [OF 1(1)] reason by (auto simp: cancel_data_def unpaid_cancellation_def cancellationReason_def same_order_def)
  next
    case (2 u y)
    then show ?case using same(1) [OF 2(2)] reason final_later(1) [OF held 2(1)] by simp
  qed
  then have "holds v (\<lambda>r t. r = Inr () \<longrightarrow> order_at t (o_ID x) is_closed) (commitCancellation x (unpaid_cancellation x (cancellationReason x))) t"
    by (rule step.within_mono) (auto elim: order_at_mono)
  then show ?case by simp
qed (simp add: failP_def)

lemma CancelOrder_holds:
  assumes v: "lawful v" shows "holds v (\<lambda>r t. r = Inr () \<longrightarrow> order_at t i is_closed) (CancelOrder v i reason) s"
proof -
  have "holds v (\<lambda>r t. r = Inr () \<longrightarrow> order_at t i is_closed) (bindP (repo (BeginTransition i CANCEL_PENDING)) (\<lambda>r. case r of
        Inl e \<Rightarrow>
          if e = RInvalidTransition
          then failP (conflict ''ORDER_STATE_CONFLICT'' ''only pending-payment orders can be cancelled'')
          else failP (mapRepositoryError e)
      | Inr ord \<Rightarrow>
          if o_Status ord = CANCELLED then Done (Inr ())
          else if o_Status ord \<noteq> CANCEL_PENDING
          then failP (conflict ''ORDER_STATE_CONFLICT'' ''only pending-payment orders can be cancelled'')
          else finishCancellation v ord)) s"
  proof (rule begin_transition, goal_cases)
    case (2 y t)
    then have "o_ID y = i" by (auto dest: find_orderD)
    with 2 finishCancellation_holds [OF v knownI [OF 2(2)] 2(3)] show ?case
      by (auto simp: order_at_def is_closed_def failP_def)
  qed (auto simp: failP_def)
  then show ?thesis by (simp add: CancelOrder_def failP_def)
qed

lemma expireOrder_holds:
  assumes v: "lawful v" shows "holds v (\<lambda>_ _. True) (expireOrder v i t0) s"
  unfolding expireOrder_def
proof (rule begin_expiry, goal_cases)
  case (1 y t)
  then show ?case using step.within_mono [OF finishCancellation_holds [OF v knownI [OF 1(2)] 1(3,4)]] by auto
qed (auto simp: failP_def)

section \<open>Cancellation by the store\<close>

lemma finishStoreCancellation_holds:
  assumes v: "lawful v" and k: "known s x" and wf: "wf_order x" and st: "o_Status x = STORE_CANCEL_PENDING"
  shows "holds v (\<lambda>r t. r = Inr () \<longrightarrow> order_at t (o_ID x) is_store_closed) (finishStoreCancellation v x) s"
  unfolding finishStoreCancellation_def
proof -
  have reason: "o_CancellationReason x = ReasonStoreCancelled" using store_pending [OF wf st] .
  have same: "o_CancellationReason y = ReasonStoreCancelled" "o_Status y \<in> {STORE_CANCEL_PENDING, CANCELLED}" "same_order x y"
    "o_PaidAt y = o_PaidAt x" if "order_le x y" for y
    using that st reason by (auto simp: order_le_def)
  have paid: "o_PaidAt x \<noteq> None" using wf_paid [OF wf] st by (auto simp: was_paid_def)
  show "holds v (\<lambda>r t. r = Inr () \<longrightarrow> order_at t (o_ID x) is_store_closed)
     (bindP (call_inventory v (ReturnConfirmedReservation (return_request_of v x))) (\<lambda>resp. case resp of
       Inl err \<Rightarrow> failP (mapGRPCError ''INVENTORY'' (Some err))
     | Inr _ \<Rightarrow> commitCancellation x (paid_cancellation x))) s"
  proof (rule return_call [OF v k], goal_cases)
    case (1 y)
    then show ?case using same [OF 1] by (auto simp: store_claimed_def)
  next
    case (2 p t)
    have "holds v (\<lambda>r t. r = Inr () \<longrightarrow> order_at t (o_ID x) (\<lambda>y. is_closed y \<and> order_le x y)) (commitCancellation x (paid_cancellation x)) t"
    proof (rule commitCancellation_holds [OF known_later [OF k 2(1)]], goal_cases)
      case (1 y)
      then show ?case using cancel_data_same [OF same(3) _ same(4), of y] same [OF 1(1)] reason paid by (simp add: cancel_data_def)
    next
      case (2 u y)
      then show ?case using same(1) [OF 2(2)] final_later(2) [OF \<open>stock t (o_ReservationID x) = Some RReturned\<close> 2(1)] by simp
    qed
    then have "holds v (\<lambda>r t. r = Inr () \<longrightarrow> order_at t (o_ID x) is_store_closed) (commitCancellation x (paid_cancellation x)) t"
      by (rule step.within_mono) (auto elim!: order_at_mono simp: is_closed_def is_store_closed_def same(1))
    then show ?case by simp
  qed (simp add: failP_def)
qed

lemma claim_store_cancellation_holds:
  assumes v: "lawful v"
  shows "holds v (\<lambda>r t. r = Inr () \<longrightarrow> order_at t (o_ID x) is_store_closed) (claim_store_cancellation v x) s"
  unfolding claim_store_cancellation_def
proof (rule begin_store_cancellation, goal_cases)
  case (1 y t)
  then have "o_ID y = o_ID x" by (auto dest: find_orderD)
  with 1 finishStoreCancellation_holds [OF v knownI [OF 1(2)] 1(3)] show ?case
    by (auto simp: order_at_def is_store_closed_def)
qed (simp add: failP_def)

lemma StoreCancelOrder_holds:
  assumes v: "lawful v" shows "holds v (\<lambda>r t. r = Inr () \<longrightarrow> order_at t i is_store_closed) (StoreCancelOrder v i) s"
proof (cases "v_uuidParse v i")
  case None
  then show ?thesis by (simp add: StoreCancelOrder_def failP_def)
next
  case (Some j)
  then have valid: "(v_uuidParse v i = None) = False" by simp
  show ?thesis
    unfolding StoreCancelOrder_def valid if_False
  proof (rule repo_read [where P = "\<lambda>x t. find_order i (s_orders t) = Some x" and E = "\<lambda>_ _. True"], goal_cases)
    case (1 w t)
    show ?case by (rule wp_mono [OF wp_Get_order]) auto
  next
    case (2 x t)
    have i: "o_ID x = i" using 2(2) by (auto dest: find_orderD)
    note fin = finishStoreCancellation_holds [OF v knownI [OF 2(2)] conjunct1 [OF saga_wf [OF saga_relD(2) [OF 2(1)] 2(2)]]]
    consider "is_store_closed x" | "o_Status x = STORE_CANCEL_PENDING" | "\<not> is_store_closed x" "o_Status x \<noteq> STORE_CANCEL_PENDING" by blast
    then show ?case
    proof cases
      case 1
      then show ?thesis using 2(2) by (auto simp: is_store_closed_def order_at_def)
    next
      case 2
      then show ?thesis using fin i by (simp add: is_store_closed_def)
    next
      case 3
      then show ?thesis
        using claim_store_cancellation_holds [OF v, of x] i
        by (auto simp: failP_def is_store_closed_def [symmetric] intro!: askP_bind split: ticket_answer.split)
    qed
  qed (simp add: failP_def)
qed

section \<open>Workers\<close>

abbreviation safe :: "order_svc \<Rightarrow> 'a oproc \<Rightarrow> sys \<Rightarrow> bool" where
  "safe v \<equiv> holds v (\<lambda>_ _. True)"

lemma safeI: "holds v Q p s \<Longrightarrow> safe v p s"
  by (rule step.within_mono) auto

lemma safe_bind: "safe v p s \<Longrightarrow> (\<And>a t. safe v (f a) t) \<Longrightarrow> safe v (bindP p f) s"
  by (rule step.within_bind)

lemma work_page_safe:
  assumes "saga v s" and "\<And>x t. x \<in> set xs \<Longrightarrow> saga_rel v s t \<Longrightarrow> safe v (f x) t"
  shows "safe v (work_page f xs failures) s"
  using assms
proof (induction xs arbitrary: failures s)
  case (Cons x xs)
  note refl = saga_rel_refl [OF Cons.prems(1)]
  have "holds v (\<lambda>_ t. True \<and> saga_rel v s t) (f x) s"
    using step.within_reached [OF Cons.prems(2) refl] refl by simp
  then show ?case
    unfolding work_page.simps Let_def
  proof (rule step.within_bind, goal_cases)
    case (1 r t)
    then have t: "saga_rel v s t" by simp
    have "safe v (work_page f xs fs) u" if "saga_rel v t u" for u fs
      using saga_rel_trans [OF t that] Cons.prems(2) saga_rel_trans by (intro Cons.IH) (auto simp: saga_relD(2))
    then show ?case unfolding ctxErrP_def by (intro askP_bind) auto
  qed
qed simp

lemma ExpireOverdueOrders_safe:
  assumes v: "lawful v" shows "safe v (ExpireOverdueOrders_from fuel v after failures) s"
proof (induction fuel arbitrary: after failures s)
  case (Suc fuel)
  show ?case
    unfolding ExpireOverdueOrders_from.simps
  proof (rule nowP_bind, rule repo_read [where P = "\<lambda>_ _. True" and E = "\<lambda>_ _. True"], goal_cases)
    case (1 now0 t w u)
    show ?case unfolding ExpiredPendingOrders_def by (rule wp_mono [OF wp_query_state]) auto
  next
    case (2 now0 t page u)
    show ?case
      unfolding sum.case
      by (rule safe_bind [OF work_page_safe [OF saga_relD(2) [OF 2(2)] expireOrder_holds [OF v]]]) (auto intro: Suc)
  qed simp
qed simp

lemma resume_safe:
  assumes v: "lawful v" and "known s x" and "wf_order x" shows "safe v (resume v x) s"
  using safeI [OF CancelOrder_holds [OF v]] safeI [OF ConfirmPayment_holds [OF v]] safeI [OF finishStoreCancellation_holds [OF v assms(2,3)]]
  by (simp add: resume_def)

lemma ResumePendingTransitions_safe:
  assumes v: "lawful v" shows "safe v (ResumePendingTransitions_from fuel v after failures) s"
proof (induction fuel arbitrary: after failures s)
  case (Suc fuel)
  show ?case
    unfolding ResumePendingTransitions_from.simps
  proof (rule repo_read [where P = "\<lambda>page t. set page \<subseteq> set (orders (s_orders t))" and E = "\<lambda>_ _. True"], goal_cases)
    case (1 w t)
    have "set (order_page p after n db) \<subseteq> set (orders db)" for p n db
      by (auto simp: order_page_def dest: in_set_takeD)
    then show ?case unfolding PendingTransitions_def by (intro wp_mono [OF wp_query_state]) auto
  next
    case (2 page t)
    note ok = saga_relD(2) [OF 2(1)]
    have "safe v (resume v x) u" if "x \<in> set page" "saga_rel v t u" for x u
    proof -
      have "find_order (o_ID x) (s_orders t) = Some x" using that(1) 2(2) find_order_Some [OF sagaD(4) [OF ok]] by auto
      then show ?thesis
        using resume_safe [OF v known_later [OF knownI that(2)]] saga_wf [OF ok] by blast
    qed
    then show ?case
      unfolding sum.case by (intro safe_bind [OF work_page_safe [OF ok]]) (auto intro: Suc)
  qed simp
qed simp

lemma publish_loop_safe: "safe v (publish_loop publish xs) s"
proof (induction xs arbitrary: s)
  case (Cons x xs)
  have mark: "safe v (bindP (repo (MarkOutboxPublished i)) (\<lambda>r. case r of Inl _ \<Rightarrow> Done False | Inr _ \<Rightarrow> publish_loop publish xs)) t" for i t
  proof (rule repo_bind, rule wp_mono [OF wp_MarkOutboxPublished], goal_cases)
    case (1 w t a db)
    then show ?case using saga_published [OF saga_relD(2) [OF 1(1)]] Cons by simp
  next
    case (2 w t e db)
    then show ?case using saga_same [OF saga_relD(2) [OF 2(1)]] by simp
  qed
  then show ?case by (auto intro!: askP_bind)
qed simp

lemma publishPending_safe: "safe v (publishPending publish) s"
  unfolding publishPending_def
proof (rule repo_read [where P = "\<lambda>_ _. True" and E = "\<lambda>_ _. True"], goal_cases)
  case (1 w t)
  show ?case unfolding PendingOutbox_def by (rule wp_mono [OF wp_query_state]) auto
qed (simp_all add: publish_loop_safe)

section \<open>Reads\<close>

lemma GetOrder_holds: "holds v (\<lambda>r t. \<forall>x. r = Inr x \<longrightarrow> known t x \<and> o_ID x = i) (GetOrder v i) s"
proof -
  have "holds v (\<lambda>r t. \<forall>x. r = Inr x \<longrightarrow> known t x \<and> o_ID x = i) (bindP (repo (Get_order i)) (\<lambda>r. case r of
        Inl e \<Rightarrow> failP (mapRepositoryError e)
      | Inr ord \<Rightarrow> Done (Inr ord))) s"
  proof (rule repo_read [where P = "\<lambda>x t. find_order i (s_orders t) = Some x" and E = "\<lambda>_ _. True"], goal_cases)
    case (1 w t)
    show ?case by (rule wp_mono [OF wp_Get_order]) auto
  next
    case (2 x t)
    then show ?case using knownI [OF 2(2)] by (auto dest: find_orderD)
  qed (simp add: failP_def)
  then show ?thesis by (simp add: GetOrder_def failP_def)
qed

end
