(* ===== verification/Order_Placing.thy ===== *)
theory Order_Placing
  imports Order_Handlers
begin

text \<open>
  The contract of \<open>PlaceOrder\<close>: the checks, the reservation, the order that is saved and the
  checkout.
\<close>

section \<open>Saving the order\<close>

definition same_request :: "order \<Rightarrow> order \<Rightarrow> bool" where
  "same_request x y \<longleftrightarrow> o_CustomerID y = o_CustomerID x \<and> o_IdempotencyKey y = o_IdempotencyKey x \<and> o_RequestHash y = o_RequestHash x"

abbreviation saved_answer :: "order \<Rightarrow> oerror + order \<Rightarrow> sys \<Rightarrow> bool" where
  "saved_answer x r t \<equiv> \<forall>y. r = Inr y \<longrightarrow> known t y \<and> same_request x y"

lemma owned_later:
  assumes "owned (s_inv s) rid oid = Some row" and "saga_rel v s t"
  shows "\<exists>row'. owned (s_inv t) rid oid = Some row' \<and> rr_ExpiresAt row' = rr_ExpiresAt row"
  using owned_grows [OF _ assms(1)] assms(2) unfolding saga_rel_def sys_le_def row_grows_def by metis

lemma create_order:
  assumes wf: "wf_order x" and p: "o_Status x = PENDING_PAYMENT" and keys: "well_keyed v x"
    and own: "owned (s_inv s) (o_ReservationID x) (o_ID x) = Some row" "rr_ExpiresAt row = o_ReservationExpiresAt x"
    and Inr: "\<And>y t. saga_rel v s t \<Longrightarrow> known t y \<Longrightarrow> same_request x y \<Longrightarrow> holds v Q (f (Inr y)) t"
    and Inl: "\<And>e t. saga_rel v s t \<Longrightarrow> holds v Q (f (Inl e)) t"
  shows "holds v Q (bindP (repo (Create_order x)) f) s"
proof (rule repo_bind, rule wp_mono [OF wp_Create_order])
  fix t assume t: "saga_rel v s t"
  have keep: "saga_rel v t (t\<lparr>s_orders := db\<rparr>)" if "created (s_orders t) x y db" for y db
    using owned_later [OF own(1) t] saga_created [OF saga_relD(2) [OF t] that wf p keys] own(2) by auto
  have y: "known (t\<lparr>s_orders := db\<rparr>) y \<and> same_request x y" if "created (s_orders t) x y db" for y db
    using created_find [OF that, of "o_ID x"] that by (auto simp: known_def same_request_def created_def)
  show "saga_rel v t (t\<lparr>s_orders := db\<rparr>) \<and> (saga_rel v s (t\<lparr>s_orders := db\<rparr>) \<longrightarrow> holds v Q (f (Inr y)) (t\<lparr>s_orders := db\<rparr>))"
    if "created (s_orders t) x y db" for y db
    using keep [OF that] y [OF that] Inr by blast
  show "saga_rel v t (t\<lparr>s_orders := db\<rparr>) \<and> (saga_rel v s (t\<lparr>s_orders := db\<rparr>) \<longrightarrow> holds v Q (f (Inl e)) (t\<lparr>s_orders := db\<rparr>))"
    if "db = s_orders t \<or> (\<exists>y. created (s_orders t) x y db)" for e db
    using that keep Inl saga_same [OF saga_relD(2) [OF t]] by blast
qed

text \<open>Looking an order up by customer and key.\<close>

lemma lookup_key:
  assumes Inr: "\<And>y t. saga_rel v s t \<Longrightarrow> known t y \<Longrightarrow> o_CustomerID y = c \<Longrightarrow> o_IdempotencyKey y = k \<Longrightarrow> holds v Q (f (Inr y)) t"
    and Inl: "\<And>e t. saga_rel v s t \<Longrightarrow> holds v Q (f (Inl e)) t"
  shows "holds v Q (bindP (repo (GetByIdempotencyKey c k)) f) s"
proof (rule repo_read [where P = "\<lambda>y t. y \<in> set (orders (s_orders t)) \<and> o_CustomerID y = c \<and> o_IdempotencyKey y = k" and E = "\<lambda>_ _. True"], goal_cases)
  case (1 w t)
  show ?case by (rule wp_mono [OF wp_GetByIdempotencyKey]) auto
next
  case (2 y t)
  then have "find_order (o_ID y) (s_orders t) = Some y" using find_order_Some [OF sagaD(4) [OF saga_relD(2) [OF 2(1)]]] by simp
  with 2 Inr [OF 2(1)] show ?case using knownI by blast
qed (rule Inl)

lemma save_order_holds:
  assumes "wf_order x" and "o_Status x = PENDING_PAYMENT" and "well_keyed v x"
    and "owned (s_inv s) (o_ReservationID x) (o_ID x) = Some row" "rr_ExpiresAt row = o_ReservationExpiresAt x"
  shows "holds v (saved_answer x) (save_order x) s"
  unfolding save_order_def
proof (rule create_order [OF assms], goal_cases)
  case (2 e t)
  show ?case
    unfolding sum.case by (rule lookup_key) (auto simp: failP_def same_request_def)
qed simp

section \<open>The reservation\<close>

lemma reserve_order_holds:
  assumes v: "lawful v" and wf: "\<And>rid e. wf_order (x\<lparr>o_ReservationID := rid, o_ReservationExpiresAt := e\<rparr>)"
    and p: "o_Status x = PENDING_PAYMENT"
    and keys: "canonical v (o_ID x)" "canonical v (o_ConfirmIdempotencyKey x)" "canonical v (o_ReleaseIdempotencyKey x)"
  shows "holds v (saved_answer x) (reserve_order v x) s"
  unfolding reserve_order_def
proof (rule reserve_call [OF v], goal_cases)
  case (2 r row t)
  have fail: "holds v (saved_answer x) (bindP (call_inventory v (ReleaseReservation (release_request rid y reason))) (\<lambda>_. failP e)) u" for rid y reason e u
    by (rule release_call [OF v]) (simp_all add: failP_def)
  let ?x = "x\<lparr>o_ReservationID := pr_ReservationId r, o_ReservationExpiresAt := rr_ExpiresAt row\<rparr>"
  have save: "holds v (saved_answer x) (save_order ?x) u" if u: "saga_rel v t u" for u
  proof -
    obtain row' where "owned (s_inv u) (pr_ReservationId r) (o_ID x) = Some row'" "rr_ExpiresAt row' = rr_ExpiresAt row"
      using owned_later [OF 2(2) u] by auto
    then have "holds v (saved_answer ?x) (save_order ?x) u"
      using wf p keys 2(4) by (intro save_order_holds [where row = row']) (simp_all add: well_keyed_def)
    then show ?thesis by (simp add: same_request_def)
  qed
  show ?case
    using 2(3,4) fail save by (auto simp: failP_def Let_def intro!: nowP_bind)
qed (use keys in \<open>simp_all add: failP_def\<close>)

section \<open>The checks\<close>

lemma check_slot_safe: "safe v (check_slot v' t0) s"
  unfolding check_slot_def
proof (rule repo_read [where P = "\<lambda>_ _. True" and E = "\<lambda>_ _. True"], goal_cases)
  case (1 w t)
  show ?case unfolding CountOrdersInSlot_def by (rule wp_mono [OF wp_query_state]) auto
qed (auto simp: failP_def intro!: askP_bind split: option.split)

lemma check_limits_safe: "safe v (check_limits v' t0 items) s"
  unfolding check_limits_def
  by (rule nowP_bind) (auto simp: failP_def check_slot_safe intro!: safe_bind nowP_bind split: option.split)

lemma sha1_canonical: "lawful v \<Longrightarrow> canonical v (v_sha1 v z)"
  by (simp add: lawful_def)

lemma price_order_holds:
  assumes v: "lawful v" and items: "ordered items"
  shows "holds v (\<lambda>r t. \<forall>y. r = Inr y \<longrightarrow> known t y \<and> o_CustomerID y = c \<and> o_IdempotencyKey y = k \<and> o_RequestHash y = h)
    (price_order v c k pickup items h) s"
  unfolding price_order_def Let_def
proof (rule askP_bind, goal_cases)
  case (1 resp t)
  show ?case
  proof (cases resp)
    case (Inr flavors)
    have place: "holds v (\<lambda>r t. \<forall>y. r = Inr y \<longrightarrow> known t y \<and> o_CustomerID y = c \<and> o_IdempotencyKey y = k \<and> o_RequestHash y = h)
        (reserve_order v (new_order v c k pickup h amt lines)) t"
      if "price_loop (flavors_by_id flavors) (portions_of items) ''THB'' (sort (map fst items)) (0, []) = Inr (amt, lines)" "1 \<le> amt" "amt \<le> 99999999" for amt lines
    proof -
      let ?x = "new_order v c k pickup h amt lines"
      have "holds v (saved_answer ?x) (reserve_order v ?x) t"
        using wf_new_order [OF items that] sha1_canonical [OF v]
        by (intro reserve_order_holds [OF v]) (simp_all add: new_order_def Let_def)
      then show ?thesis by (rule step.within_mono) (auto simp: same_request_def new_order_def Let_def)
    qed
    show ?thesis
      using place by (auto simp: Inr failP_def split: sum.split)
  qed (simp add: failP_def)
qed

section \<open>Placing an order\<close>

text \<open>The order answers the request: its customer, its key, the hash of its items.\<close>

definition answers_request :: "order_svc \<Rightarrow> CreateOrderInput \<Rightarrow> string \<Rightarrow> order \<Rightarrow> bool" where
  "answers_request v input key x \<longleftrightarrow> v_uuidParse v (in_CustomerID input) = Some (o_CustomerID x) \<and>
     v_uuidParse v key = Some (o_IdempotencyKey x) \<and>
     (\<exists>items. normalizeItems v (in_Items input) = Inr items \<and>
        hashRequest v (o_CustomerID x) (in_PickupAt input) items = Some (o_RequestHash x))"

lemma placeOrder_holds:
  assumes v: "lawful v"
  shows "holds v (\<lambda>r t. \<forall>y. r = Inr y \<longrightarrow> known t y \<and> answers_request v input key y) (placeOrder v input key) s"
proof -
  have main: "holds v (\<lambda>r t. \<forall>y. r = Inr y \<longrightarrow> known t y \<and> answers_request v input key y)
     (bindP (repo (GetByIdempotencyKey c k)) (\<lambda>r. case r of
              Inr existing \<Rightarrow>
                if o_RequestHash existing \<noteq> h
                then failP (conflict ''IDEMPOTENCY_KEY_REUSED'' ''Idempotency-Key was already used with a different request'')
                else Done (Inr existing)
            | Inl e \<Rightarrow>
                if e \<noteq> RNotFound then failP (dependencyError ''ORDER_STORAGE_UNAVAILABLE'')
                else bindP (check_limits v (in_PickupAt input) items) (\<lambda>ok. case ok of
                  Inl err \<Rightarrow> failP err
                | Inr _ \<Rightarrow> price_order v c k (in_PickupAt input) items h))) s"
    if c: "v_uuidParse v (in_CustomerID input) = Some c" and k: "v_uuidParse v key = Some k"
      and items: "normalizeItems v (in_Items input) = Inr items" and h: "hashRequest v c (in_PickupAt input) items = Some h" for c k items h
  proof (rule lookup_key, goal_cases)
    case (1 y t)
    then show ?case using c k items h by (auto simp: failP_def answers_request_def)
  next
    case (2 e t)
    have "holds v (\<lambda>r t. \<forall>y. r = Inr y \<longrightarrow> known t y \<and> answers_request v input key y) (price_order v c k (in_PickupAt input) items h) u" for u
      by (rule step.within_mono [OF price_order_holds [OF v normalizeItems_ordered [OF items]]]) (use c k items h in \<open>auto simp: answers_request_def\<close>)
    then show ?case
      by (auto simp: failP_def intro!: step.within_bind [OF check_limits_safe] split: sum.split)
  qed
  show ?thesis
    unfolding placeOrder_def using main by (auto simp: failP_def split: option.split sum.split)
qed

text \<open>A checkout URL is handed out only for a pending order that has it.\<close>

definition place_answer :: "order_svc \<Rightarrow> CreateOrderInput \<Rightarrow> string \<Rightarrow> oerror + CheckoutResponse \<Rightarrow> sys \<Rightarrow> bool" where
  "place_answer v input key r t \<longleftrightarrow> (\<forall>c. r = Inr c \<longrightarrow> known t (ck_Order c) \<and> answers_request v input key (ck_Order c) \<and>
     (ck_CheckoutURL c \<noteq> [] \<longrightarrow> o_Status (ck_Order c) = PENDING_PAYMENT \<and> o_CheckoutURL (ck_Order c) = ck_CheckoutURL c))"

lemma answers_request_same: "answers_request v input key x \<Longrightarrow> same_order x y \<Longrightarrow> answers_request v input key y"
  by (simp add: answers_request_def same_order_def)

lemma bind_checkout_holds:
  assumes k: "known s x" and a: "answers_request v input key x"
  shows "holds v (place_answer v input key) (bind_checkout x sid u msg) s"
  unfolding bind_checkout_def
proof (rule bind_checkout_tx, goal_cases)
  case (1 y t)
  have "same_order x y" using known_find [OF known_later [OF k 1(1)] 1(2)] by blast
  then show ?case
    using 1 knownI [OF 1(2)] answers_request_same [OF a] by (simp add: place_answer_def)
qed (simp add: failP_def place_answer_def)

lemma startPayment_holds:
  assumes k: "known s x" and a: "answers_request v input key x"
  shows "holds v (place_answer v input key) (startPayment v x) s"
proof -
  have pay: "holds v (place_answer v input key) (bindP (askP g) (\<lambda>resp. case resp of
            Inl err \<Rightarrow> failP (with_details (o_ID x) (mapGRPCError ''PAYMENT'' err))
          | Inr reply \<Rightarrow>
              if \<not> valid_checkout v reply then failP (dependencyError ''PAYMENT_INVALID_RESPONSE'')
              else bind_checkout x (cp_SessionId reply) (cp_Url reply)
                ''order is no longer payable or has a different payment session'')) t"
    if t: "saga_rel v s t" for t g
    by (rule askP_bind)
       (auto simp: failP_def place_answer_def split: sum.split intro!: bind_checkout_holds a known_later [OF known_later [OF k t]])
  have fail: "holds v (place_answer v input key) (failP e) t" for e t by (simp add: failP_def place_answer_def)
  have ended: "place_answer v input key (Inr \<lparr>ck_Order = x, ck_CheckoutURL = []\<rparr>) s" using k a by (simp add: place_answer_def)
  show ?thesis
    unfolding startPayment_def
    using k a pay fail bind_checkout_holds [OF known_later [OF k] a] by (auto simp: ended intro!: nowP_bind)
qed

lemma PlaceOrder_holds:
  assumes v: "lawful v" shows "holds v (place_answer v input key) (PlaceOrder v input key) s"
  unfolding PlaceOrder_def
  by (rule step.within_bind [OF placeOrder_holds [OF v]])
     (auto simp: failP_def place_answer_def split: sum.split intro!: startPayment_holds)

end
