(* ===== verification/Order_System.thy ===== *)
theory Order_System
  imports Order_Placing
begin

text \<open>
  The order service as a whole: any number of handlers and workers at once, stopped anywhere by a
  crash, requests to the inventory service that arrive late or twice, and the staff and the sweeper
  of the inventory service at work meanwhile. In every state that can be reached the invariant
  holds and everything that was ever answered is still true.
\<close>

section \<open>Requests and answers\<close>

datatype order_request =
    PlaceReq CreateOrderInput string
  | ConfirmReq string
  | CancelReq string string
  | StoreCancelReq string
  | GetReq string
  | ExpireRun nat
  | ResumeRun nat
  | PublishRun

datatype order_answer =
    PlaceAns "oerror + CheckoutResponse"
  | UnitAns "oerror + unit"
  | OrderAns "oerror + order"
  | WorkerAns "(oerror + unit) option"
  | PublishAns bool

definition mapP :: "('a \<Rightarrow> 'b) \<Rightarrow> 'a oproc \<Rightarrow> 'b oproc" where
  "mapP f p = bindP p (\<lambda>a. Done (f a))"

text \<open>The handler of a request; \<open>publish\<close> is the broker client of the outbox worker.\<close>

definition order_handler :: "order_svc \<Rightarrow> (order_env \<Rightarrow> string \<Rightarrow> string \<Rightarrow> order_event \<Rightarrow> bool) \<Rightarrow> order_request \<Rightarrow> order_answer oproc" where
  "order_handler v publish r = (case r of
     PlaceReq input key \<Rightarrow> mapP PlaceAns (PlaceOrder v input key)
   | ConfirmReq i \<Rightarrow> mapP UnitAns (ConfirmPayment v i)
   | CancelReq i reason \<Rightarrow> mapP UnitAns (CancelOrder v i reason)
   | StoreCancelReq i \<Rightarrow> mapP UnitAns (StoreCancelOrder v i)
   | GetReq i \<Rightarrow> mapP OrderAns (GetOrder v i)
   | ExpireRun pages \<Rightarrow> mapP WorkerAns (ExpireOverdueOrders pages v)
   | ResumeRun pages \<Rightarrow> mapP WorkerAns (ResumePendingTransitions pages v)
   | PublishRun \<Rightarrow> mapP PublishAns (publishPending publish))"

text \<open>What an answer promises.\<close>

fun truthful :: "order_svc \<Rightarrow> order_request \<Rightarrow> order_answer \<Rightarrow> sys \<Rightarrow> bool" where
  "truthful v (PlaceReq input key) (PlaceAns r) s = place_answer v input key r s"
| "truthful v (ConfirmReq i) (UnitAns r) s = pay_answer i r s"
| "truthful v (CancelReq i reason) (UnitAns r) s = (r = Inr () \<longrightarrow> order_at s i is_closed)"
| "truthful v (StoreCancelReq i) (UnitAns r) s = (r = Inr () \<longrightarrow> order_at s i is_store_closed)"
| "truthful v (GetReq i) (OrderAns r) s = (\<forall>x. r = Inr x \<longrightarrow> known s x \<and> o_ID x = i)"
| "truthful v _ _ s = True"

lemma truthful_later:
  assumes "truthful v r a s" and "saga_rel v s t" shows "truthful v r a t"
  using assms
  by (cases "(v, r, a, s)" rule: truthful.cases)
     (auto simp: place_answer_def pay_answer_def intro: known_later order_at_later stays)

lemma mapP_holds: "holds v Q p s \<Longrightarrow> (\<And>a t. Q a t \<Longrightarrow> Q' (f a) t) \<Longrightarrow> holds v Q' (mapP f p) s"
  unfolding mapP_def by (erule step.within_bind) simp

lemma handler_holds:
  assumes v: "lawful v" shows "holds v (truthful v r) (order_handler v publish r) s"
proof (cases r)
  case (ExpireRun n)
  then show ?thesis
    using mapP_holds [OF ExpireOverdueOrders_safe [OF v], of "truthful v r" WorkerAns]
    by (simp add: order_handler_def ExpireOverdueOrders_def)
next
  case (ResumeRun n)
  then show ?thesis
    using mapP_holds [OF ResumePendingTransitions_safe [OF v], of "truthful v r" WorkerAns]
    by (simp add: order_handler_def ResumePendingTransitions_def)
qed (auto simp: order_handler_def intro!: mapP_holds PlaceOrder_holds [OF v] ConfirmPayment_holds [OF v] CancelOrder_holds [OF v]
    StoreCancelOrder_holds [OF v] GetOrder_holds publishPending_safe)

section \<open>The system\<close>

record system =
  y_sys :: sys
  y_running :: "(order_request \<times> order_answer oproc) list"
  y_answers :: "(order_request \<times> order_answer) list"

definition system_start :: system where
  "system_start = \<lparr>y_sys = \<lparr>s_orders = empty_orders, s_inv = empty_inv, s_clk = 0, s_sent = []\<rparr>, y_running = [], y_answers = []\<rparr>"

inductive system_step :: "order_svc \<Rightarrow> (order_env \<Rightarrow> string \<Rightarrow> string \<Rightarrow> order_event \<Rightarrow> bool) \<Rightarrow> system \<Rightarrow> system \<Rightarrow> bool"
  for v publish where
  receive: "system_step v publish y (y\<lparr>y_running := y_running y @ [(r, order_handler v publish r)]\<rparr>)"
| advance: "y_running y = ps @ (r, Step g) # qs \<Longrightarrow> env_ok v e (y_sys y) \<Longrightarrow> g e (y_sys y) = (s', p) \<Longrightarrow>
    system_step v publish y (y\<lparr>y_sys := s', y_running := ps @ (r, p) # qs\<rparr>)"
| reply: "y_running y = ps @ (r, Done a) # qs \<Longrightarrow>
    system_step v publish y (y\<lparr>y_running := ps @ qs, y_answers := (r, a) # y_answers y\<rparr>)"
| crash: "y_running y = ps @ q # qs \<Longrightarrow> system_step v publish y (y\<lparr>y_running := ps @ qs\<rparr>)"
| late: "c \<in> set (s_sent (y_sys y)) \<Longrightarrow> admitted v w clk (y_sys y) \<Longrightarrow>
    system_step v publish y (y\<lparr>y_sys := after_step (y_sys y) (state_of (serve (v_inventory v) d c w (s_inv (y_sys y)) n)) clk\<rparr>)"
| staff: "op \<in> {DoCreate c ci, DoWaste c b a wi, DoSweep c lim} \<Longrightarrow> admitted v w clk (y_sys y) \<Longrightarrow>
    system_step v publish y (y\<lparr>y_sys := after_step (y_sys y) (state_of (run_op (v_inventory v) op w (s_inv (y_sys y)) n)) clk\<rparr>)"

inductive system_run :: "order_svc \<Rightarrow> (order_env \<Rightarrow> string \<Rightarrow> string \<Rightarrow> order_event \<Rightarrow> bool) \<Rightarrow> system \<Rightarrow> system \<Rightarrow> bool"
  for v publish y where
  here: "system_run v publish y y"
| more: "system_run v publish y y' \<Longrightarrow> system_step v publish y' y'' \<Longrightarrow> system_run v publish y y''"

text \<open>The invariant of the system.\<close>

definition system_ok :: "order_svc \<Rightarrow> system \<Rightarrow> bool" where
  "system_ok v y \<longleftrightarrow> saga v (y_sys y) \<and>
     (\<forall>(r, p)\<in>set (y_running y). holds v (truthful v r) p (y_sys y)) \<and>
     (\<forall>(r, a)\<in>set (y_answers y). truthful v r a (y_sys y))"

lemma saga_start: "saga v (y_sys system_start)"
proof -
  have "find_res rid empty_inv = None" for rid by (simp add: empty_inv_def)
  moreover have "no_archived empty_inv" by (simp add: no_archived_def empty_inv_def)
  ultimately show ?thesis
    by (simp add: saga_def system_start_def inv_ok_empty answers_ok_empty orders_ok_def empty_orders_def status_of_def)
qed

lemma system_ok_move:
  assumes ok: "system_ok v y" and rel: "saga_rel v (y_sys y) s'"
    and run: "\<And>r p. (r, p) \<in> set ps \<Longrightarrow> (r, p) \<in> set (y_running y) \<or> holds v (truthful v r) p s'"
  shows "system_ok v (y\<lparr>y_sys := s', y_running := ps\<rparr>)"
proof -
  have "holds v (truthful v r) p s'" if "(r, p) \<in> set ps" for r p
    using run [OF that]
  proof
    assume "(r, p) \<in> set (y_running y)"
    then have "holds v (truthful v r) p (y_sys y)" using ok by (auto simp: system_ok_def)
    then show ?thesis by (rule step.within_later [OF _ rel]) (rule truthful_later)
  qed
  moreover have "truthful v r a s'" if "(r, a) \<in> set (y_answers y)" for r a
    using that ok truthful_later [OF _ rel] unfolding system_ok_def by blast
  ultimately show ?thesis using saga_relD(2) [OF rel] by (auto simp: system_ok_def)
qed

lemma system_step_ok:
  assumes v: "lawful v" and st: "system_step v publish y y'" and ok: "system_ok v y"
  shows "system_ok v y' \<and> saga_rel v (y_sys y) (y_sys y')"
proof -
  have saga: "saga v (y_sys y)" using ok by (simp add: system_ok_def)
  note refl = saga_rel_refl [OF saga]
  have inv: "system_ok v (y\<lparr>y_sys := after_step (y_sys y) db clk\<rparr>) \<and> saga_rel v (y_sys y) (after_step (y_sys y) db clk)"
    if "inv_moved v w (y_sys y) db" "admitted v w clk (y_sys y)" for w db clk
  proof -
    have "saga_rel v (y_sys y) (after_step (y_sys y) db clk)"
      using that saga by (intro inventory_keeps [where w = w]) (simp add: inventory_step_def)
    then show ?thesis using system_ok_move [OF ok, of _ "y_running y"] by simp
  qed
  from st show ?thesis
  proof cases
    case (receive r)
    have "system_ok v (y\<lparr>y_sys := y_sys y, y_running := y_running y @ [(r, order_handler v publish r)]\<rparr>)"
      by (rule system_ok_move [OF ok refl]) (auto intro: handler_holds [OF v])
    then show ?thesis using receive refl by simp
  next
    case (advance ps r g qs e s' p)
    then have "holds v (truthful v r) (Step g) (y_sys y)" using ok by (auto simp: system_ok_def)
    then have "saga_rel v (y_sys y) s'" "holds v (truthful v r) p s'"
      using advance refl by fastforce+
    then show ?thesis
      using system_ok_move [OF ok, of s' "ps @ (r, p) # qs"] advance(1,2) by auto
  next
    case (reply ps r a qs)
    then have "truthful v r a (y_sys y)" using ok by (auto simp: system_ok_def)
    moreover have "system_ok v (y\<lparr>y_sys := y_sys y, y_running := ps @ qs\<rparr>)"
      by (rule system_ok_move [OF ok refl]) (use reply in auto)
    ultimately show ?thesis using reply refl by (auto simp: system_ok_def)
  next
    case (crash ps q qs)
    have "system_ok v (y\<lparr>y_sys := y_sys y, y_running := ps @ qs\<rparr>)"
      by (rule system_ok_move [OF ok refl]) (use crash in auto)
    then show ?thesis using crash refl by simp
  next
    case (late c w clk d n)
    then show ?thesis using inv [OF serve_moves [OF v saga late(2,3)] late(3)] by simp
  next
    case (staff op c ci b a wi lim w clk n)
    then show ?thesis using inv [OF staff_moves [OF saga staff(2)] staff(3)] by simp
  qed
qed

lemma system_run_ok:
  assumes v: "lawful v" and run: "system_run v publish y y'" and ok: "system_ok v y"
  shows "system_ok v y' \<and> saga_rel v (y_sys y) (y_sys y')"
  using run
proof induction
  case here
  then show ?case using ok saga_rel_refl by (simp add: system_ok_def)
next
  case (more y' y'')
  then show ?case using system_step_ok [OF v more(2)] saga_rel_trans by blast
qed

lemma system_reach_ok: "lawful v \<Longrightarrow> system_run v publish system_start y \<Longrightarrow> system_ok v y"
  using system_run_ok [of v publish system_start y] saga_start [of v] by (simp add: system_ok_def system_start_def)

section \<open>Runs of one handler\<close>

text \<open>A handler that runs to its end while the others \<open>ps\<close> wait is a run of the system.\<close>

fun envs_ok :: "order_svc \<Rightarrow> order_env list \<Rightarrow> 'a oproc \<Rightarrow> sys \<Rightarrow> bool" where
  "envs_ok v es (Done a) s = True"
| "envs_ok v [] (Step g) s = True"
| "envs_ok v (e # es) (Step g) s = (env_ok v e s \<and> (case g e s of (s', p) \<Rightarrow> envs_ok v es p s'))"

lemma run_alone:
  assumes "system_run v publish y0 (y\<lparr>y_running := ps @ [(r, p)]\<rparr>)" and "run_proc es p (y_sys y) = Some (a, s')" and "envs_ok v es p (y_sys y)"
  shows "system_run v publish y0 (y\<lparr>y_sys := s', y_running := ps, y_answers := (r, a) # y_answers y\<rparr>)"
  using assms
proof (induction es arbitrary: p y)
  case Nil
  then obtain b where "p = Done b" by (cases p) auto
  with Nil show ?case
    using system_run.more [OF Nil(1) system_step.reply [where ps = ps and qs = "[]" and r = r and a = b]] by auto
next
  case (Cons e es)
  show ?case
  proof (cases p)
    case (Done b)
    with Cons.prems show ?thesis
      using system_run.more [OF Cons.prems(1) system_step.reply [where ps = ps and qs = "[]" and r = r and a = b]] by auto
  next
    case (Step g)
    obtain s1 p1 where g: "g e (y_sys y) = (s1, p1)" by (cases "g e (y_sys y)")
    have "system_run v publish y0 ((y\<lparr>y_sys := s1\<rparr>)\<lparr>y_running := ps @ [(r, p1)]\<rparr>)"
      using system_run.more [OF Cons.prems(1) system_step.advance [where ps = ps and qs = "[]" and e = e and g = g and r = r]] Cons.prems(3) g Step by simp
    from Cons.IH [OF this] Cons.prems(2,3) g Step show ?thesis by simp
  qed
qed

lemma request_alone:
  assumes "system_run v publish y0 y"
    and "run_proc es (order_handler v publish r) (y_sys y) = Some (a, s')" and "envs_ok v es (order_handler v publish r) (y_sys y)"
  shows "system_run v publish y0 (y\<lparr>y_sys := s', y_answers := (r, a) # y_answers y\<rparr>)"
proof -
  have "system_run v publish y0 (y\<lparr>y_running := y_running y @ [(r, order_handler v publish r)]\<rparr>)"
    using system_run.more [OF assms(1) system_step.receive [of v publish y r]] .
  from run_alone [OF this assms(2,3)] show ?thesis by simp
qed

end
