(* ===== verification/Order_Samples.thy ===== *)
theory Order_Samples
  imports Order_System Inventory_Samples
begin

text \<open>
  A concrete order service on which the theorems are exercised. Its hash of requests is a prefix
  code of the whole request, so that it has no collisions.
\<close>

section \<open>An injective hash\<close>

definition prefix_code :: "('a \<Rightarrow> string) \<Rightarrow> bool" where
  "prefix_code f \<longleftrightarrow> (\<forall>a b r r'. f a @ r = f b @ r' \<longrightarrow> a = b \<and> r = r')"

fun code_string :: "string \<Rightarrow> string" where
  "code_string [] = ''.''"
| "code_string (c # cs) = CHR ''x'' # c # code_string cs"

definition code_int :: "int \<Rightarrow> string" where
  "code_int i = (if i < 0 then CHR ''-'' else CHR ''+'') # code_string (replicate (nat \<bar>i\<bar>) CHR ''1'')"

fun code_list :: "('a \<Rightarrow> string) \<Rightarrow> 'a list \<Rightarrow> string" where
  "code_list f [] = ''.''"
| "code_list f (x # xs) = CHR ''x'' # f x @ code_list f xs"

definition code_item :: "item \<Rightarrow> string" where
  "code_item x = code_string (it_FlavorID x) @ code_int (it_Portions x)"

lemma prefix_codeD: "prefix_code f \<Longrightarrow> f a @ r = f b @ r' \<longleftrightarrow> a = b \<and> r = r'"
  unfolding prefix_code_def by metis

lemma code_string_prefix: "prefix_code code_string"
proof -
  have "code_string a @ r = code_string b @ r' \<Longrightarrow> a = b \<and> r = r'" for a b r r'
    by (induction a arbitrary: b) (case_tac b; simp)+
  then show ?thesis unfolding prefix_code_def by blast
qed

lemma code_int_prefix: "prefix_code code_int"
proof -
  have "a = b \<and> r = r'" if "code_int a @ r = code_int b @ r'" for a b r r'
  proof -
    from that have sign: "(a < 0) = (b < 0)" by (auto simp: code_int_def split: if_splits)
    with that have "replicate (nat \<bar>a\<bar>) CHR ''1'' = replicate (nat \<bar>b\<bar>) CHR ''1'' \<and> r = r'"
      by (auto simp: code_int_def prefix_codeD [OF code_string_prefix])
    then have "nat \<bar>a\<bar> = nat \<bar>b\<bar>" "r = r'" by (simp_all add: replicate_eq_replicate)
    with sign show ?thesis by auto
  qed
  then show ?thesis unfolding prefix_code_def by blast
qed

lemma code_list_prefix:
  assumes "prefix_code f" shows "prefix_code (code_list f)"
proof -
  have "code_list f a @ r = code_list f b @ r' \<Longrightarrow> a = b \<and> r = r'" for a b r r'
  proof (induction a arbitrary: b)
    case Nil
    then show ?case by (cases b) auto
  next
    case (Cons x xs)
    then show ?case by (cases b) (auto simp: prefix_codeD [OF assms])
  qed
  then show ?thesis unfolding prefix_code_def by blast
qed

lemmas code_parts = prefix_codeD [OF code_string_prefix] prefix_codeD [OF code_int_prefix]

lemma code_item_prefix: "prefix_code code_item"
  unfolding prefix_code_def code_item_def by (auto simp: code_parts)

fun code_reason :: "waste_reason \<Rightarrow> string" where
  "code_reason WExpired = ''0''"
| "code_reason WDamaged = ''1''"
| "code_reason WQuality = ''2''"
| "code_reason WAdjustment = ''3''"
| "code_reason (WOther z) = CHR ''4'' # z"

fun sample_hash :: "request \<Rightarrow> string" where
  "sample_hash (QReserve i) = CHR ''r'' # code_string (ri_OrderID i) @ code_string (ri_Key i) @ code_list code_item (ri_Items i)"
| "sample_hash (QTransition i) = CHR ''t'' # code_string (ti_ReservationID i) @ code_string (ti_OrderID i) @ code_string (ti_Key i) @ ti_Reason i"
| "sample_hash (QCreate i) = CHR ''c'' # code_list code_string (case ci_BatchCode i of None \<Rightarrow> [] | Some z \<Rightarrow> [z]) @
     code_string (ci_FlavorID i) @ code_string (ci_ProductionDate i) @ code_int (ci_ExpiresAt i) @ code_int (ci_Initial i) @
     code_list code_int (case ci_UnitCost i of None \<Rightarrow> [] | Some n \<Rightarrow> [n]) @ ci_Currency i"
| "sample_hash (QWaste z i) = CHR ''w'' # code_string z @ code_int (wi_Portions i) @ code_string (wi_Note i) @
     code_string (wi_Key i) @ code_reason (wi_Reason i)"

lemma code_reason_inj: "code_reason a = code_reason b \<longleftrightarrow> a = b"
  by (cases a; cases b) auto

lemma sample_hash_inj: "inj sample_hash"
proof (rule injI)
  fix a b assume "sample_hash a = sample_hash b"
  then show "a = b"
    by (cases a; cases b)
       (auto simp: code_parts code_reason_inj prefix_codeD [OF code_list_prefix [OF code_string_prefix]]
          prefix_codeD [OF code_list_prefix [OF code_int_prefix]] prefix_codeD [OF code_list_prefix [OF code_item_prefix], of _ "[]" _ "[]", simplified]
          intro!: reserve_input.equality transition_input.equality create_input.equality waste_input.equality split: option.splits)
qed

section \<open>The service and its environment\<close>

definition sample_v :: order_svc where
  "sample_v = \<lparr>v_inventory = \<lparr>s_TTL = 15 * Minute, s_Catalog = Some (\<lambda>_. None), s_uuidParse = Some, s_hash = sample_hash\<rparr>,
     v_uuidParse = Some, v_sha1 = (\<lambda>z. CHR ''#'' # z), v_digest = (\<lambda>(c, t, xs). Some (c @ concat (map fst xs))),
     v_url = (\<lambda>_. Some \<lparr>u_Scheme = ''https'', u_Hostname = ''pay'', u_User = False\<rparr>), v_date = None,
     v_maxPortionsPerOrder = 20, v_maxSlotCapacity = 10, v_fulfillment = True\<rparr>"

lemma sample_lawful: "lawful sample_v"
  by (simp add: lawful_def sample_v_def sample_hash_inj)

text \<open>An environment without faults; the clocks of both sides stand at \<open>t\<close>, new ids carry the number \<open>i\<close>.\<close>

definition sample_world_at :: "nat \<Rightarrow> time \<Rightarrow> world" where
  "sample_world_at i t = \<lparr>w_fails = (\<lambda>_. False), w_applied = (\<lambda>_. False), w_clock = (\<lambda>_. t),
     w_uuid = (\<lambda>n. [char_of (i + 65), char_of (n + 48)])\<rparr>"

definition sample_env :: "nat \<Rightarrow> time \<Rightarrow> order_env" where
  "sample_env i t = \<lparr>e_world = sample_world_at i t, e_inventory = sample_world_at i t, e_driver = DOther, e_clk = t,
     e_lost = \<lparr>re_Code = Unavailable, re_Message = ''''\<rparr>,
     e_flavors = (\<lambda>_. Inr [\<lparr>fl_Id = ''mango'', fl_Name = ''Mango'', fl_Active = True,
        fl_Price = Some \<lparr>mo_AmountMinor = Some 5500, mo_Currency = Some ''THB''\<rparr>\<rparr>]),
     e_payment = (\<lambda>_. Inr \<lparr>cp_SessionId = ''cs'', cp_Url = ''https://pay/cs''\<rparr>), e_slots = (\<lambda>_. Some 0),
     e_ticket = (\<lambda>_. TicketStatus ''QUEUED''), e_ctxErr = False\<rparr>"

definition calm :: "order_svc \<Rightarrow> order_env \<Rightarrow> bool" where
  "calm v e \<longleftrightarrow> (\<forall>s. s_clk s \<le> e_clk e \<longrightarrow> env_ok v e s)"

lemma sample_env_calm: "calm sample_v (sample_env i t)"
  by (simp add: calm_def env_ok_def admitted_def sample_env_def sample_world_at_def sample_v_def)

text \<open>A run that checks the clock at every step.\<close>

fun run_clocked :: "order_env list \<Rightarrow> 'a oproc \<Rightarrow> sys \<Rightarrow> ('a \<times> sys) option" where
  "run_clocked es (Done a) s = Some (a, s)"
| "run_clocked [] (Step g) s = None"
| "run_clocked (e # es) (Step g) s = (if s_clk s \<le> e_clk e then case g e s of (s', p) \<Rightarrow> run_clocked es p s' else None)"

lemma run_clocked:
  "run_clocked es p s = Some r \<Longrightarrow> \<forall>e\<in>set es. calm v e \<Longrightarrow> run_proc es p s = Some r \<and> envs_ok v es p s"
  by (induction es p s rule: run_clocked.induct) (auto simp: calm_def split: if_splits prod.splits)

definition sample_envs :: "nat \<Rightarrow> time \<Rightarrow> order_env list" where
  "sample_envs i t = map (\<lambda>k. sample_env (i + k) t) [0..<12]"

abbreviation no_broker :: "order_env \<Rightarrow> string \<Rightarrow> string \<Rightarrow> order_event \<Rightarrow> bool" where
  "no_broker \<equiv> (\<lambda>_ _ _ _. False)"

lemma sample_envs_calm: "\<forall>e\<in>set (sample_envs i t). calm sample_v e"
  by (auto simp: sample_envs_def sample_env_calm)

text \<open>The system with the state \<open>s\<close>, the waiting handlers \<open>ps\<close> and the answers \<open>log\<close>.\<close>

abbreviation sample_system :: "sys \<Rightarrow> (order_request \<times> order_answer oproc) list \<Rightarrow> (order_request \<times> order_answer) list \<Rightarrow> system" where
  "sample_system s ps log \<equiv> \<lparr>y_sys = s, y_running = ps, y_answers = log\<rparr>"

lemma sample_next:
  assumes "system_run sample_v publish y0 (sample_system s ps log)"
    and "run_clocked (sample_envs i t) (order_handler sample_v publish r) s = Some (a, s')"
  shows "system_run sample_v publish y0 (sample_system s' ps ((r, a) # log))"
  using request_alone [OF assms(1), of "sample_envs i t" r a s'] run_clocked [OF assms(2) sample_envs_calm] by simp

lemma sample_resume:
  assumes "system_run sample_v publish y0 (sample_system s [(r, p)] log)" and "run_clocked (sample_envs i t) p s = Some (a, s')"
  shows "system_run sample_v publish y0 (sample_system s' [] ((r, a) # log))"
  using run_alone [where y = "sample_system s [] log" and ps = "[]" and es = "sample_envs i t"] assms(1)
    run_clocked [OF assms(2) sample_envs_calm] by simp

section \<open>A customer orders seven portions\<close>

definition sample_input :: CreateOrderInput where
  "sample_input = \<lparr>in_CustomerID = ''ann'', in_PickupAt = sample_now + 60 * Minute,
     in_Items = [\<lparr>in_FlavorID = ''mango'', in_Portions = 7\<rparr>]\<rparr>"

definition stocked_sys :: sys where
  "stocked_sys = \<lparr>s_orders = empty_orders, s_inv = stocked, s_clk = sample_now, s_sent = []\<rparr>"

text \<open>
  The states after the order was placed; after it was paid, and cancelled by the store then; after
  the customer cancelled it; after a payment that came too late.
\<close>

definition placed_answer :: order_answer where
  "placed_answer = PlaceAns (Inr \<lparr>ck_Order = \<lparr>o_ID = ''#ann/k'', o_CustomerID = ''ann'', o_PickupAt =
     63840445200000000000, o_Status = PENDING_PAYMENT, o_IdempotencyKey = ''k'', o_RequestHash = ''annmango'',
     o_ReservationID = ''F7'', o_ReservationExpiresAt = 63840442500000000000, o_ConfirmIdempotencyKey =
     ''##ann/k/confirm'', o_ReleaseIdempotencyKey = ''##ann/k/release'', o_TotalAmountMinor = 38500, o_Currency =
     ''THB'', o_CheckoutSessionID = ''cs'', o_CheckoutURL = ''https://pay/cs'', o_CancellationReason = [], o_PaidAt
     = None, o_Items = [\<lparr>oi_FlavorID = ''mango'', oi_FlavorName = ''Mango'', oi_Portions = 7,
     oi_UnitPriceMinor = 5500, oi_SubtotalMinor = 38500\<rparr>], o_CreatedAt = 63840441600000000000, o_UpdatedAt =
     63840441600000000000\<rparr>, ck_CheckoutURL = ''https://pay/cs''\<rparr>)"

definition placed_sys :: sys where
  "placed_sys = \<lparr>s_orders = \<lparr>orders = [\<lparr>o_ID = ''#ann/k'', o_CustomerID = ''ann'', o_PickupAt =
     63840445200000000000, o_Status = PENDING_PAYMENT, o_IdempotencyKey = ''k'', o_RequestHash = ''annmango'',
     o_ReservationID = ''F7'', o_ReservationExpiresAt = 63840442500000000000, o_ConfirmIdempotencyKey =
     ''##ann/k/confirm'', o_ReleaseIdempotencyKey = ''##ann/k/release'', o_TotalAmountMinor = 38500, o_Currency =
     ''THB'', o_CheckoutSessionID = ''cs'', o_CheckoutURL = ''https://pay/cs'', o_CancellationReason = [], o_PaidAt
     = None, o_Items = [\<lparr>oi_FlavorID = ''mango'', oi_FlavorName = ''Mango'', oi_Portions = 7,
     oi_UnitPriceMinor = 5500, oi_SubtotalMinor = 38500\<rparr>], o_CreatedAt = 63840441600000000000, o_UpdatedAt =
     63840441600000000000\<rparr>], oevents = []\<rparr>, s_inv = \<lparr>batches = [\<lparr>b_ID = ''0'',
     b_BatchCode = ''MANGO-1'', b_FlavorID = ''mango'', b_ProductionDate = ''2024-01-09'', b_ExpiresAt =
     63841305600000000000, b_Initial = 30, b_Available = 23, b_Reserved = 7, b_Sold = 0, b_Wasted = 0, b_UnitCost =
     5, b_Currency = ''THB'', b_Status = BActive, b_CreatedAt = 63840441600000000000, b_UpdatedAt =
     63840441600000000000, low_stock_notified_at = None, expiring_notified_at = None\<rparr>], reservations =
     [\<lparr>rr_ID = ''F7'', rr_OrderID = ''#ann/k'', rr_Status = RActive, rr_CreatedAt = 63840441600000000000,
     rr_ExpiresAt = 63840442500000000000, rr_UpdatedAt = 63840441600000000000, rr_ReleaseReason = []\<rparr>],
     allocations = [\<lparr>ar_ReservationID = ''F7'', ar_BatchID = ''0'', ar_FlavorID = ''mango'', ar_Portions =
     7, ar_Position = 0\<rparr>], movements = [\<lparr>mv_ID = ''5'', mv_BatchID = ''0'', mv_ReservationID = None,
     mv_Kind = MProduced, mv_Portions = 30, mv_OccurredAt = 63840441600000000000, mv_Actor = Some (''m'',
     ''MANAGER'')\<rparr>, \<lparr>mv_ID = ''F='', mv_BatchID = ''0'', mv_ReservationID = Some ''F7'', mv_Kind =
     MReserved, mv_Portions = 7, mv_OccurredAt = 63840441600000000000, mv_Actor = None\<rparr>], wastes = [],
     idempotency = [\<lparr>id_Key = (''reserve'', ''k''), id_Hash =
     ''rx#xaxnxnx/xk.xk.xxmxaxnxgxo.+x1x1x1x1x1x1x1..'', id_Response = Some (PReservation \<lparr>r_ID = ''F7'',
     r_OrderID = ''#ann/k'', r_Status = RActive, r_Allocations = [\<lparr>al_FlavorID = ''mango'', al_BatchID =
     ''0'', al_Portions = 7\<rparr>], r_CreatedAt = 63840441600000000000, r_ExpiresAt =
     63840442500000000000\<rparr>)\<rparr>], outbox = []\<rparr>, s_clk = 63840441600000000000, s_sent =
     [ReservePortions \<lparr>pq_OrderId = ''#ann/k'', pq_IdempotencyKey = ''k'', pq_Items = [\<lparr>pp_FlavorId =
     ''mango'', pp_Portions = 7\<rparr>]\<rparr>]\<rparr>"

definition paid_sys :: sys where
  "paid_sys = \<lparr>s_orders = \<lparr>orders = [\<lparr>o_ID = ''#ann/k'', o_CustomerID = ''ann'', o_PickupAt =
     63840445200000000000, o_Status = PAID, o_IdempotencyKey = ''k'', o_RequestHash = ''annmango'', o_ReservationID
     = ''F7'', o_ReservationExpiresAt = 63840442500000000000, o_ConfirmIdempotencyKey = ''##ann/k/confirm'',
     o_ReleaseIdempotencyKey = ''##ann/k/release'', o_TotalAmountMinor = 38500, o_Currency = ''THB'',
     o_CheckoutSessionID = ''cs'', o_CheckoutURL = [], o_CancellationReason = [], o_PaidAt = Some
     63840441600000000000, o_Items = [\<lparr>oi_FlavorID = ''mango'', oi_FlavorName = ''Mango'', oi_Portions = 7,
     oi_UnitPriceMinor = 5500, oi_SubtotalMinor = 38500\<rparr>], o_CreatedAt = 63840441600000000000, o_UpdatedAt =
     63840441600000000000\<rparr>], oevents = [\<lparr>oe_ID = ''O0'', oe_OrderID = ''#ann/k'', oe_RoutingKey =
     ''order.placed'', oe_Payload = Placed 63840441600000000000 \<lparr>op_OrderID = ''#ann/k'', op_CustomerID =
     ''ann'', op_Status = PAID, op_PickupAt = 63840445200000000000, op_TotalAmountMinor = 38500, op_Currency =
     ''THB'', op_Items = [\<lparr>oi_FlavorID = ''mango'', oi_FlavorName = ''Mango'', oi_Portions = 7,
     oi_UnitPriceMinor = 5500, oi_SubtotalMinor = 38500\<rparr>]\<rparr>, oe_PublishedAt = None, oe_CreatedAt =
     63840441600000000000\<rparr>]\<rparr>, s_inv = \<lparr>batches = [\<lparr>b_ID = ''0'', b_BatchCode =
     ''MANGO-1'', b_FlavorID = ''mango'', b_ProductionDate = ''2024-01-09'', b_ExpiresAt = 63841305600000000000,
     b_Initial = 30, b_Available = 23, b_Reserved = 0, b_Sold = 7, b_Wasted = 0, b_UnitCost = 5, b_Currency =
     ''THB'', b_Status = BActive, b_CreatedAt = 63840441600000000000, b_UpdatedAt = 63840441600000000000,
     low_stock_notified_at = None, expiring_notified_at = None\<rparr>], reservations = [\<lparr>rr_ID = ''F7'',
     rr_OrderID = ''#ann/k'', rr_Status = RConfirmed, rr_CreatedAt = 63840441600000000000, rr_ExpiresAt =
     63840442500000000000, rr_UpdatedAt = 63840441600000000000, rr_ReleaseReason = []\<rparr>], allocations =
     [\<lparr>ar_ReservationID = ''F7'', ar_BatchID = ''0'', ar_FlavorID = ''mango'', ar_Portions = 7, ar_Position
     = 0\<rparr>], movements = [\<lparr>mv_ID = ''5'', mv_BatchID = ''0'', mv_ReservationID = None, mv_Kind =
     MProduced, mv_Portions = 30, mv_OccurredAt = 63840441600000000000, mv_Actor = Some (''m'',
     ''MANAGER'')\<rparr>, \<lparr>mv_ID = ''F='', mv_BatchID = ''0'', mv_ReservationID = Some ''F7'', mv_Kind =
     MReserved, mv_Portions = 7, mv_OccurredAt = 63840441600000000000, mv_Actor = None\<rparr>, \<lparr>mv_ID =
     ''N:'', mv_BatchID = ''0'', mv_ReservationID = Some ''F7'', mv_Kind = MConfirmed, mv_Portions = 7,
     mv_OccurredAt = 63840441600000000000, mv_Actor = None\<rparr>], wastes = [], idempotency = [\<lparr>id_Key =
     (''reserve'', ''k''), id_Hash = ''rx#xaxnxnx/xk.xk.xxmxaxnxgxo.+x1x1x1x1x1x1x1..'', id_Response = Some
     (PReservation \<lparr>r_ID = ''F7'', r_OrderID = ''#ann/k'', r_Status = RActive, r_Allocations =
     [\<lparr>al_FlavorID = ''mango'', al_BatchID = ''0'', al_Portions = 7\<rparr>], r_CreatedAt =
     63840441600000000000, r_ExpiresAt = 63840442500000000000\<rparr>)\<rparr>, \<lparr>id_Key = (''confirm'',
     ''##ann/k/confirm''), id_Hash = ''txFx7.x#xaxnxnx/xk.x#x#xaxnxnx/xkx/xcxoxnxfxixrxm.'', id_Response = Some
     (PReservation \<lparr>r_ID = ''F7'', r_OrderID = ''#ann/k'', r_Status = RConfirmed, r_Allocations =
     [\<lparr>al_FlavorID = ''mango'', al_BatchID = ''0'', al_Portions = 7\<rparr>], r_CreatedAt =
     63840441600000000000, r_ExpiresAt = 63840442500000000000\<rparr>)\<rparr>], outbox = []\<rparr>, s_clk =
     63840441600000000000, s_sent = [ConfirmReservation \<lparr>pt_ReservationId = ''F7'', pt_OrderId = ''#ann/k'',
     pt_IdempotencyKey = ''##ann/k/confirm'', pt_Reason = []\<rparr>, ReservePortions \<lparr>pq_OrderId =
     ''#ann/k'', pq_IdempotencyKey = ''k'', pq_Items = [\<lparr>pp_FlavorId = ''mango'', pp_Portions =
     7\<rparr>]\<rparr>]\<rparr>"

definition returned_sys :: sys where
  "returned_sys = \<lparr>s_orders = \<lparr>orders = [\<lparr>o_ID = ''#ann/k'', o_CustomerID = ''ann'', o_PickupAt =
     63840445200000000000, o_Status = CANCELLED, o_IdempotencyKey = ''k'', o_RequestHash = ''annmango'',
     o_ReservationID = ''F7'', o_ReservationExpiresAt = 63840442500000000000, o_ConfirmIdempotencyKey =
     ''##ann/k/confirm'', o_ReleaseIdempotencyKey = ''##ann/k/release'', o_TotalAmountMinor = 38500, o_Currency =
     ''THB'', o_CheckoutSessionID = ''cs'', o_CheckoutURL = [], o_CancellationReason = ''STORE_CANCELLED'',
     o_PaidAt = Some 63840441600000000000, o_Items = [\<lparr>oi_FlavorID = ''mango'', oi_FlavorName = ''Mango'',
     oi_Portions = 7, oi_UnitPriceMinor = 5500, oi_SubtotalMinor = 38500\<rparr>], o_CreatedAt =
     63840441600000000000, o_UpdatedAt = 63840441600000000000\<rparr>], oevents = [\<lparr>oe_ID = ''O0'',
     oe_OrderID = ''#ann/k'', oe_RoutingKey = ''order.placed'', oe_Payload = Placed 63840441600000000000
     \<lparr>op_OrderID = ''#ann/k'', op_CustomerID = ''ann'', op_Status = PAID, op_PickupAt =
     63840445200000000000, op_TotalAmountMinor = 38500, op_Currency = ''THB'', op_Items = [\<lparr>oi_FlavorID =
     ''mango'', oi_FlavorName = ''Mango'', oi_Portions = 7, oi_UnitPriceMinor = 5500, oi_SubtotalMinor =
     38500\<rparr>]\<rparr>, oe_PublishedAt = None, oe_CreatedAt = 63840441600000000000\<rparr>, \<lparr>oe_ID =
     '']0'', oe_OrderID = ''#ann/k'', oe_RoutingKey = ''order.cancelled'', oe_Payload = Cancelled
     63840441600000000000 \<lparr>oc_OrderID = ''#ann/k'', oc_CustomerID = ''ann'', oc_Reason =
     ''STORE_CANCELLED'', oc_WasPaid = Some True, oc_TotalAmountMinor = Some 38500, oc_Currency = Some ''THB'',
     oc_Items = [\<lparr>oi_FlavorID = ''mango'', oi_FlavorName = ''Mango'', oi_Portions = 7, oi_UnitPriceMinor =
     5500, oi_SubtotalMinor = 38500\<rparr>], oc_PaidAt = Some 63840441600000000000\<rparr>, oe_PublishedAt = None,
     oe_CreatedAt = 63840441600000000000\<rparr>]\<rparr>, s_inv = \<lparr>batches = [\<lparr>b_ID = ''0'',
     b_BatchCode = ''MANGO-1'', b_FlavorID = ''mango'', b_ProductionDate = ''2024-01-09'', b_ExpiresAt =
     63841305600000000000, b_Initial = 30, b_Available = 30, b_Reserved = 0, b_Sold = 0, b_Wasted = 0, b_UnitCost =
     5, b_Currency = ''THB'', b_Status = BActive, b_CreatedAt = 63840441600000000000, b_UpdatedAt =
     63840441600000000000, low_stock_notified_at = None, expiring_notified_at = None\<rparr>], reservations =
     [\<lparr>rr_ID = ''F7'', rr_OrderID = ''#ann/k'', rr_Status = RReturned, rr_CreatedAt = 63840441600000000000,
     rr_ExpiresAt = 63840442500000000000, rr_UpdatedAt = 63840441600000000000, rr_ReleaseReason =
     ''STORE_CANCELLED''\<rparr>], allocations = [\<lparr>ar_ReservationID = ''F7'', ar_BatchID = ''0'',
     ar_FlavorID = ''mango'', ar_Portions = 7, ar_Position = 0\<rparr>], movements = [\<lparr>mv_ID = ''5'',
     mv_BatchID = ''0'', mv_ReservationID = None, mv_Kind = MProduced, mv_Portions = 30, mv_OccurredAt =
     63840441600000000000, mv_Actor = Some (''m'', ''MANAGER'')\<rparr>, \<lparr>mv_ID = ''F='', mv_BatchID =
     ''0'', mv_ReservationID = Some ''F7'', mv_Kind = MReserved, mv_Portions = 7, mv_OccurredAt =
     63840441600000000000, mv_Actor = None\<rparr>, \<lparr>mv_ID = ''N:'', mv_BatchID = ''0'', mv_ReservationID =
     Some ''F7'', mv_Kind = MConfirmed, mv_Portions = 7, mv_OccurredAt = 63840441600000000000, mv_Actor =
     None\<rparr>, \<lparr>mv_ID = [CHR 0x5C, CHR '':''], mv_BatchID = ''0'', mv_ReservationID = Some ''F7'',
     mv_Kind = MReturned, mv_Portions = 7, mv_OccurredAt = 63840441600000000000, mv_Actor = None\<rparr>], wastes =
     [], idempotency = [\<lparr>id_Key = (''reserve'', ''k''), id_Hash =
     ''rx#xaxnxnx/xk.xk.xxmxaxnxgxo.+x1x1x1x1x1x1x1..'', id_Response = Some (PReservation \<lparr>r_ID = ''F7'',
     r_OrderID = ''#ann/k'', r_Status = RActive, r_Allocations = [\<lparr>al_FlavorID = ''mango'', al_BatchID =
     ''0'', al_Portions = 7\<rparr>], r_CreatedAt = 63840441600000000000, r_ExpiresAt =
     63840442500000000000\<rparr>)\<rparr>, \<lparr>id_Key = (''confirm'', ''##ann/k/confirm''), id_Hash =
     ''txFx7.x#xaxnxnx/xk.x#x#xaxnxnx/xkx/xcxoxnxfxixrxm.'', id_Response = Some (PReservation \<lparr>r_ID =
     ''F7'', r_OrderID = ''#ann/k'', r_Status = RConfirmed, r_Allocations = [\<lparr>al_FlavorID = ''mango'',
     al_BatchID = ''0'', al_Portions = 7\<rparr>], r_CreatedAt = 63840441600000000000, r_ExpiresAt =
     63840442500000000000\<rparr>)\<rparr>, \<lparr>id_Key = (''return'', ''##ann/k/return''), id_Hash =
     ''txFx7.x#xaxnxnx/xk.x#x#xaxnxnx/xkx/xrxextxuxrxn.STORE_CANCELLED'', id_Response = Some (PReservation
     \<lparr>r_ID = ''F7'', r_OrderID = ''#ann/k'', r_Status = RReturned, r_Allocations = [\<lparr>al_FlavorID =
     ''mango'', al_BatchID = ''0'', al_Portions = 7\<rparr>], r_CreatedAt = 63840441600000000000, r_ExpiresAt =
     63840442500000000000\<rparr>)\<rparr>], outbox = []\<rparr>, s_clk = 63840441600000000000, s_sent =
     [ReturnConfirmedReservation \<lparr>pt_ReservationId = ''F7'', pt_OrderId = ''#ann/k'', pt_IdempotencyKey =
     ''##ann/k/return'', pt_Reason = ''STORE_CANCELLED''\<rparr>, ConfirmReservation \<lparr>pt_ReservationId =
     ''F7'', pt_OrderId = ''#ann/k'', pt_IdempotencyKey = ''##ann/k/confirm'', pt_Reason = []\<rparr>,
     ReservePortions \<lparr>pq_OrderId = ''#ann/k'', pq_IdempotencyKey = ''k'', pq_Items = [\<lparr>pp_FlavorId =
     ''mango'', pp_Portions = 7\<rparr>]\<rparr>]\<rparr>"

definition cancelled_sys :: sys where
  "cancelled_sys = \<lparr>s_orders = \<lparr>orders = [\<lparr>o_ID = ''#ann/k'', o_CustomerID = ''ann'', o_PickupAt =
     63840445200000000000, o_Status = CANCELLED, o_IdempotencyKey = ''k'', o_RequestHash = ''annmango'',
     o_ReservationID = ''F7'', o_ReservationExpiresAt = 63840442500000000000, o_ConfirmIdempotencyKey =
     ''##ann/k/confirm'', o_ReleaseIdempotencyKey = ''##ann/k/release'', o_TotalAmountMinor = 38500, o_Currency =
     ''THB'', o_CheckoutSessionID = ''cs'', o_CheckoutURL = [], o_CancellationReason = [], o_PaidAt = None, o_Items
     = [\<lparr>oi_FlavorID = ''mango'', oi_FlavorName = ''Mango'', oi_Portions = 7, oi_UnitPriceMinor = 5500,
     oi_SubtotalMinor = 38500\<rparr>], o_CreatedAt = 63840441600000000000, o_UpdatedAt =
     63840441600000000000\<rparr>], oevents = [\<lparr>oe_ID = ''O0'', oe_OrderID = ''#ann/k'', oe_RoutingKey =
     ''order.cancelled'', oe_Payload = Cancelled 63840441600000000000 \<lparr>oc_OrderID = ''#ann/k'',
     oc_CustomerID = ''ann'', oc_Reason = ''ORDER_CANCELLED'', oc_WasPaid = None, oc_TotalAmountMinor = None,
     oc_Currency = None, oc_Items = [], oc_PaidAt = None\<rparr>, oe_PublishedAt = None, oe_CreatedAt =
     63840441600000000000\<rparr>]\<rparr>, s_inv = \<lparr>batches = [\<lparr>b_ID = ''0'', b_BatchCode =
     ''MANGO-1'', b_FlavorID = ''mango'', b_ProductionDate = ''2024-01-09'', b_ExpiresAt = 63841305600000000000,
     b_Initial = 30, b_Available = 30, b_Reserved = 0, b_Sold = 0, b_Wasted = 0, b_UnitCost = 5, b_Currency =
     ''THB'', b_Status = BActive, b_CreatedAt = 63840441600000000000, b_UpdatedAt = 63840441600000000000,
     low_stock_notified_at = None, expiring_notified_at = None\<rparr>], reservations = [\<lparr>rr_ID = ''F7'',
     rr_OrderID = ''#ann/k'', rr_Status = RReleased, rr_CreatedAt = 63840441600000000000, rr_ExpiresAt =
     63840442500000000000, rr_UpdatedAt = 63840441600000000000, rr_ReleaseReason = ''ORDER_CANCELLED''\<rparr>],
     allocations = [\<lparr>ar_ReservationID = ''F7'', ar_BatchID = ''0'', ar_FlavorID = ''mango'', ar_Portions =
     7, ar_Position = 0\<rparr>], movements = [\<lparr>mv_ID = ''5'', mv_BatchID = ''0'', mv_ReservationID = None,
     mv_Kind = MProduced, mv_Portions = 30, mv_OccurredAt = 63840441600000000000, mv_Actor = Some (''m'',
     ''MANAGER'')\<rparr>, \<lparr>mv_ID = ''F='', mv_BatchID = ''0'', mv_ReservationID = Some ''F7'', mv_Kind =
     MReserved, mv_Portions = 7, mv_OccurredAt = 63840441600000000000, mv_Actor = None\<rparr>, \<lparr>mv_ID =
     ''N:'', mv_BatchID = ''0'', mv_ReservationID = Some ''F7'', mv_Kind = MReleased, mv_Portions = 7,
     mv_OccurredAt = 63840441600000000000, mv_Actor = None\<rparr>], wastes = [], idempotency = [\<lparr>id_Key =
     (''reserve'', ''k''), id_Hash = ''rx#xaxnxnx/xk.xk.xxmxaxnxgxo.+x1x1x1x1x1x1x1..'', id_Response = Some
     (PReservation \<lparr>r_ID = ''F7'', r_OrderID = ''#ann/k'', r_Status = RActive, r_Allocations =
     [\<lparr>al_FlavorID = ''mango'', al_BatchID = ''0'', al_Portions = 7\<rparr>], r_CreatedAt =
     63840441600000000000, r_ExpiresAt = 63840442500000000000\<rparr>)\<rparr>, \<lparr>id_Key = (''release'',
     ''##ann/k/release''), id_Hash = ''txFx7.x#xaxnxnx/xk.x#x#xaxnxnx/xkx/xrxexlxexaxsxe.ORDER_CANCELLED'',
     id_Response = Some (PReservation \<lparr>r_ID = ''F7'', r_OrderID = ''#ann/k'', r_Status = RReleased,
     r_Allocations = [\<lparr>al_FlavorID = ''mango'', al_BatchID = ''0'', al_Portions = 7\<rparr>], r_CreatedAt =
     63840441600000000000, r_ExpiresAt = 63840442500000000000\<rparr>)\<rparr>], outbox = []\<rparr>, s_clk =
     63840441600000000000, s_sent = [ReleaseReservation \<lparr>pt_ReservationId = ''F7'', pt_OrderId = ''#ann/k'',
     pt_IdempotencyKey = ''##ann/k/release'', pt_Reason = ''ORDER_CANCELLED''\<rparr>, ReservePortions
     \<lparr>pq_OrderId = ''#ann/k'', pq_IdempotencyKey = ''k'', pq_Items = [\<lparr>pp_FlavorId = ''mango'',
     pp_Portions = 7\<rparr>]\<rparr>]\<rparr>"

definition refused_sys :: sys where
  "refused_sys = \<lparr>s_orders = \<lparr>orders = [\<lparr>o_ID = ''#ann/k'', o_CustomerID = ''ann'', o_PickupAt =
     63840445200000000000, o_Status = CANCEL_PENDING, o_IdempotencyKey = ''k'', o_RequestHash = ''annmango'',
     o_ReservationID = ''F7'', o_ReservationExpiresAt = 63840442500000000000, o_ConfirmIdempotencyKey =
     ''##ann/k/confirm'', o_ReleaseIdempotencyKey = ''##ann/k/release'', o_TotalAmountMinor = 38500, o_Currency =
     ''THB'', o_CheckoutSessionID = ''cs'', o_CheckoutURL = [], o_CancellationReason = [], o_PaidAt = None, o_Items
     = [\<lparr>oi_FlavorID = ''mango'', oi_FlavorName = ''Mango'', oi_Portions = 7, oi_UnitPriceMinor = 5500,
     oi_SubtotalMinor = 38500\<rparr>], o_CreatedAt = 63840441600000000000, o_UpdatedAt =
     63840445200000000000\<rparr>], oevents = []\<rparr>, s_inv = \<lparr>batches = [\<lparr>b_ID = ''0'',
     b_BatchCode = ''MANGO-1'', b_FlavorID = ''mango'', b_ProductionDate = ''2024-01-09'', b_ExpiresAt =
     63841305600000000000, b_Initial = 30, b_Available = 23, b_Reserved = 7, b_Sold = 0, b_Wasted = 0, b_UnitCost =
     5, b_Currency = ''THB'', b_Status = BActive, b_CreatedAt = 63840441600000000000, b_UpdatedAt =
     63840441600000000000, low_stock_notified_at = None, expiring_notified_at = None\<rparr>], reservations =
     [\<lparr>rr_ID = ''F7'', rr_OrderID = ''#ann/k'', rr_Status = RActive, rr_CreatedAt = 63840441600000000000,
     rr_ExpiresAt = 63840442500000000000, rr_UpdatedAt = 63840441600000000000, rr_ReleaseReason = []\<rparr>],
     allocations = [\<lparr>ar_ReservationID = ''F7'', ar_BatchID = ''0'', ar_FlavorID = ''mango'', ar_Portions =
     7, ar_Position = 0\<rparr>], movements = [\<lparr>mv_ID = ''5'', mv_BatchID = ''0'', mv_ReservationID = None,
     mv_Kind = MProduced, mv_Portions = 30, mv_OccurredAt = 63840441600000000000, mv_Actor = Some (''m'',
     ''MANAGER'')\<rparr>, \<lparr>mv_ID = ''F='', mv_BatchID = ''0'', mv_ReservationID = Some ''F7'', mv_Kind =
     MReserved, mv_Portions = 7, mv_OccurredAt = 63840441600000000000, mv_Actor = None\<rparr>], wastes = [],
     idempotency = [\<lparr>id_Key = (''reserve'', ''k''), id_Hash =
     ''rx#xaxnxnx/xk.xk.xxmxaxnxgxo.+x1x1x1x1x1x1x1..'', id_Response = Some (PReservation \<lparr>r_ID = ''F7'',
     r_OrderID = ''#ann/k'', r_Status = RActive, r_Allocations = [\<lparr>al_FlavorID = ''mango'', al_BatchID =
     ''0'', al_Portions = 7\<rparr>], r_CreatedAt = 63840441600000000000, r_ExpiresAt =
     63840442500000000000\<rparr>)\<rparr>], outbox = []\<rparr>, s_clk = 63840445200000000000, s_sent =
     [ConfirmReservation \<lparr>pt_ReservationId = ''F7'', pt_OrderId = ''#ann/k'', pt_IdempotencyKey =
     ''##ann/k/confirm'', pt_Reason = []\<rparr>, ReservePortions \<lparr>pq_OrderId = ''#ann/k'',
     pq_IdempotencyKey = ''k'', pq_Items = [\<lparr>pp_FlavorId = ''mango'', pp_Portions =
     7\<rparr>]\<rparr>]\<rparr>"

lemma stocked_order_run:
  "state_of (run_op (v_inventory sample_v) (DoCreate sample_ctx sample_create) sample_world empty_inv 0) = stocked"
  by code_simp

lemma placed_run: "run_clocked (sample_envs 0 sample_now) (order_handler sample_v no_broker (PlaceReq sample_input ''k'')) stocked_sys =
    Some (placed_answer, placed_sys)"
  by code_simp

lemma paid_run: "run_clocked (sample_envs 12 sample_now) (order_handler sample_v no_broker (ConfirmReq ''#ann/k'')) placed_sys =
    Some (UnitAns (Inr ()), paid_sys)"
  by code_simp

lemma returned_run: "run_clocked (sample_envs 24 sample_now) (order_handler sample_v no_broker (StoreCancelReq ''#ann/k'')) paid_sys =
    Some (UnitAns (Inr ()), returned_sys)"
  by code_simp

lemma cancelled_run: "run_clocked (sample_envs 12 sample_now) (order_handler sample_v no_broker (CancelReq ''#ann/k'' ''CUSTOMER_REQUEST'')) placed_sys =
    Some (UnitAns (Inr ()), cancelled_sys)"
  by code_simp

lemma refused_run: "run_clocked (sample_envs 12 (sample_now + 60 * Minute)) (order_handler sample_v no_broker (ConfirmReq ''#ann/k'')) placed_sys =
    Some (UnitAns (Inl paymentRejected), refused_sys)"
  by code_simp

section \<open>The states are reachable\<close>

abbreviation "place_log \<equiv> [(PlaceReq sample_input ''k'', placed_answer)]"
abbreviation "paid_log \<equiv> (ConfirmReq ''#ann/k'', UnitAns (Inr ())) # place_log"

lemma stocked_reach: "system_run sample_v no_broker system_start (sample_system stocked_sys [] [])"
proof -
  have adm: "admitted sample_v sample_world sample_now (y_sys system_start)"
    by (simp add: admitted_def sample_world_def system_start_def sample_v_def sample_now_def)
  have "system_step sample_v no_broker system_start (sample_system stocked_sys [] [])"
    using system_step.staff [OF _ adm, where op = "DoCreate sample_ctx sample_create" and c = sample_ctx and ci = sample_create and n = 0] stocked_order_run
    by (simp add: system_start_def stocked_sys_def)
  then show ?thesis by (rule system_run.more [OF system_run.here])
qed

lemmas placed_reach = sample_next [OF stocked_reach placed_run]
lemmas paid_reach = sample_next [OF placed_reach paid_run]
lemmas returned_reach = sample_next [OF paid_reach returned_run]
lemmas cancelled_reach = sample_next [OF placed_reach cancelled_run]
lemmas refused_reach = sample_next [OF placed_reach refused_run]

section \<open>Two requests with one key\<close>

text \<open>
  The same request arrives twice. One handler has looked for the order and found none when the
  other one places it; the first one goes on half an hour later, when the hold has expired.
\<close>

primrec first_of :: "order_env \<Rightarrow> 'a oproc \<Rightarrow> sys \<Rightarrow> (sys \<times> 'a oproc) option" where
  "first_of e (Done a) = (\<lambda>s. None)"
| "first_of e (Step g) = (\<lambda>s. Some (g e s))"

definition slow_place :: "order_answer oproc" where
  "slow_place = snd (the (first_of (sample_env 50 sample_now) (order_handler sample_v no_broker (PlaceReq sample_input ''k'')) stocked_sys))"

definition hold_expired :: oerror where
  "hold_expired = conflict ''RESERVATION_EXPIRED'' ''the Inventory reservation expired before the order could be created''"

definition key_clash :: oerror where
  "key_clash = conflict ''DEPENDENCY_CONFLICT'' ''Key or order already used with another request''"

definition expired_sys :: sys where
  "expired_sys = \<lparr>s_orders = \<lparr>orders = [\<lparr>o_ID = ''#ann/k'', o_CustomerID = ''ann'', o_PickupAt =
     63840445200000000000, o_Status = PENDING_PAYMENT, o_IdempotencyKey = ''k'', o_RequestHash = ''annmango'',
     o_ReservationID = ''F7'', o_ReservationExpiresAt = 63840442500000000000, o_ConfirmIdempotencyKey =
     ''##ann/k/confirm'', o_ReleaseIdempotencyKey = ''##ann/k/release'', o_TotalAmountMinor = 38500, o_Currency =
     ''THB'', o_CheckoutSessionID = ''cs'', o_CheckoutURL = ''https://pay/cs'', o_CancellationReason = [], o_PaidAt
     = None, o_Items = [\<lparr>oi_FlavorID = ''mango'', oi_FlavorName = ''Mango'', oi_Portions = 7,
     oi_UnitPriceMinor = 5500, oi_SubtotalMinor = 38500\<rparr>], o_CreatedAt = 63840441600000000000, o_UpdatedAt =
     63840441600000000000\<rparr>], oevents = []\<rparr>, s_inv = \<lparr>batches = [\<lparr>b_ID = ''0'',
     b_BatchCode = ''MANGO-1'', b_FlavorID = ''mango'', b_ProductionDate = ''2024-01-09'', b_ExpiresAt =
     63841305600000000000, b_Initial = 30, b_Available = 30, b_Reserved = 0, b_Sold = 0, b_Wasted = 0, b_UnitCost =
     5, b_Currency = ''THB'', b_Status = BActive, b_CreatedAt = 63840441600000000000, b_UpdatedAt =
     63840443400000000000, low_stock_notified_at = None, expiring_notified_at = None\<rparr>], reservations =
     [\<lparr>rr_ID = ''F7'', rr_OrderID = ''#ann/k'', rr_Status = RExpired, rr_CreatedAt = 63840441600000000000,
     rr_ExpiresAt = 63840442500000000000, rr_UpdatedAt = 63840443400000000000, rr_ReleaseReason =
     ''ORDER_RESERVATION_EXPIRED''\<rparr>], allocations = [\<lparr>ar_ReservationID = ''F7'', ar_BatchID = ''0'',
     ar_FlavorID = ''mango'', ar_Portions = 7, ar_Position = 0\<rparr>], movements = [\<lparr>mv_ID = ''5'',
     mv_BatchID = ''0'', mv_ReservationID = None, mv_Kind = MProduced, mv_Portions = 30, mv_OccurredAt =
     63840441600000000000, mv_Actor = Some (''m'', ''MANAGER'')\<rparr>, \<lparr>mv_ID = ''F='', mv_BatchID =
     ''0'', mv_ReservationID = Some ''F7'', mv_Kind = MReserved, mv_Portions = 7, mv_OccurredAt =
     63840441600000000000, mv_Actor = None\<rparr>, \<lparr>mv_ID = ''y:'', mv_BatchID = ''0'', mv_ReservationID =
     Some ''F7'', mv_Kind = MReleased, mv_Portions = 7, mv_OccurredAt = 63840443400000000000, mv_Actor =
     None\<rparr>], wastes = [], idempotency = [\<lparr>id_Key = (''reserve'', ''k''), id_Hash =
     ''rx#xaxnxnx/xk.xk.xxmxaxnxgxo.+x1x1x1x1x1x1x1..'', id_Response = Some (PReservation \<lparr>r_ID = ''F7'',
     r_OrderID = ''#ann/k'', r_Status = RActive, r_Allocations = [\<lparr>al_FlavorID = ''mango'', al_BatchID =
     ''0'', al_Portions = 7\<rparr>], r_CreatedAt = 63840441600000000000, r_ExpiresAt =
     63840442500000000000\<rparr>)\<rparr>, \<lparr>id_Key = (''release'', ''##ann/k/release''), id_Hash =
     ''txFx7.x#xaxnxnx/xk.x#x#xaxnxnx/xkx/xrxexlxexaxsxe.ORDER_RESERVATION_EXPIRED'', id_Response = Some
     (PReservation \<lparr>r_ID = ''F7'', r_OrderID = ''#ann/k'', r_Status = RExpired, r_Allocations =
     [\<lparr>al_FlavorID = ''mango'', al_BatchID = ''0'', al_Portions = 7\<rparr>], r_CreatedAt =
     63840441600000000000, r_ExpiresAt = 63840442500000000000\<rparr>)\<rparr>], outbox = []\<rparr>, s_clk =
     63840443400000000000, s_sent = [ReleaseReservation \<lparr>pt_ReservationId = ''F7'', pt_OrderId = ''#ann/k'',
     pt_IdempotencyKey = ''##ann/k/release'', pt_Reason = ''ORDER_RESERVATION_EXPIRED''\<rparr>, ReservePortions
     \<lparr>pq_OrderId = ''#ann/k'', pq_IdempotencyKey = ''k'', pq_Items = [\<lparr>pp_FlavorId = ''mango'',
     pp_Portions = 7\<rparr>]\<rparr>, ReservePortions \<lparr>pq_OrderId = ''#ann/k'', pq_IdempotencyKey = ''k'',
     pq_Items = [\<lparr>pp_FlavorId = ''mango'', pp_Portions = 7\<rparr>]\<rparr>]\<rparr>"

definition stuck_sys :: sys where
  "stuck_sys = \<lparr>s_orders = \<lparr>orders = [\<lparr>o_ID = ''#ann/k'', o_CustomerID = ''ann'', o_PickupAt =
     63840445200000000000, o_Status = CANCEL_PENDING, o_IdempotencyKey = ''k'', o_RequestHash = ''annmango'',
     o_ReservationID = ''F7'', o_ReservationExpiresAt = 63840442500000000000, o_ConfirmIdempotencyKey =
     ''##ann/k/confirm'', o_ReleaseIdempotencyKey = ''##ann/k/release'', o_TotalAmountMinor = 38500, o_Currency =
     ''THB'', o_CheckoutSessionID = ''cs'', o_CheckoutURL = [], o_CancellationReason = [], o_PaidAt = None, o_Items
     = [\<lparr>oi_FlavorID = ''mango'', oi_FlavorName = ''Mango'', oi_Portions = 7, oi_UnitPriceMinor = 5500,
     oi_SubtotalMinor = 38500\<rparr>], o_CreatedAt = 63840441600000000000, o_UpdatedAt =
     63840443400000000000\<rparr>], oevents = []\<rparr>, s_inv = \<lparr>batches = [\<lparr>b_ID = ''0'',
     b_BatchCode = ''MANGO-1'', b_FlavorID = ''mango'', b_ProductionDate = ''2024-01-09'', b_ExpiresAt =
     63841305600000000000, b_Initial = 30, b_Available = 30, b_Reserved = 0, b_Sold = 0, b_Wasted = 0, b_UnitCost =
     5, b_Currency = ''THB'', b_Status = BActive, b_CreatedAt = 63840441600000000000, b_UpdatedAt =
     63840443400000000000, low_stock_notified_at = None, expiring_notified_at = None\<rparr>], reservations =
     [\<lparr>rr_ID = ''F7'', rr_OrderID = ''#ann/k'', rr_Status = RExpired, rr_CreatedAt = 63840441600000000000,
     rr_ExpiresAt = 63840442500000000000, rr_UpdatedAt = 63840443400000000000, rr_ReleaseReason =
     ''ORDER_RESERVATION_EXPIRED''\<rparr>], allocations = [\<lparr>ar_ReservationID = ''F7'', ar_BatchID = ''0'',
     ar_FlavorID = ''mango'', ar_Portions = 7, ar_Position = 0\<rparr>], movements = [\<lparr>mv_ID = ''5'',
     mv_BatchID = ''0'', mv_ReservationID = None, mv_Kind = MProduced, mv_Portions = 30, mv_OccurredAt =
     63840441600000000000, mv_Actor = Some (''m'', ''MANAGER'')\<rparr>, \<lparr>mv_ID = ''F='', mv_BatchID =
     ''0'', mv_ReservationID = Some ''F7'', mv_Kind = MReserved, mv_Portions = 7, mv_OccurredAt =
     63840441600000000000, mv_Actor = None\<rparr>, \<lparr>mv_ID = ''y:'', mv_BatchID = ''0'', mv_ReservationID =
     Some ''F7'', mv_Kind = MReleased, mv_Portions = 7, mv_OccurredAt = 63840443400000000000, mv_Actor =
     None\<rparr>], wastes = [], idempotency = [\<lparr>id_Key = (''reserve'', ''k''), id_Hash =
     ''rx#xaxnxnx/xk.xk.xxmxaxnxgxo.+x1x1x1x1x1x1x1..'', id_Response = Some (PReservation \<lparr>r_ID = ''F7'',
     r_OrderID = ''#ann/k'', r_Status = RActive, r_Allocations = [\<lparr>al_FlavorID = ''mango'', al_BatchID =
     ''0'', al_Portions = 7\<rparr>], r_CreatedAt = 63840441600000000000, r_ExpiresAt =
     63840442500000000000\<rparr>)\<rparr>, \<lparr>id_Key = (''release'', ''##ann/k/release''), id_Hash =
     ''txFx7.x#xaxnxnx/xk.x#x#xaxnxnx/xkx/xrxexlxexaxsxe.ORDER_RESERVATION_EXPIRED'', id_Response = Some
     (PReservation \<lparr>r_ID = ''F7'', r_OrderID = ''#ann/k'', r_Status = RExpired, r_Allocations =
     [\<lparr>al_FlavorID = ''mango'', al_BatchID = ''0'', al_Portions = 7\<rparr>], r_CreatedAt =
     63840441600000000000, r_ExpiresAt = 63840442500000000000\<rparr>)\<rparr>], outbox = []\<rparr>, s_clk =
     63840443400000000000, s_sent = [ReleaseReservation \<lparr>pt_ReservationId = ''F7'', pt_OrderId = ''#ann/k'',
     pt_IdempotencyKey = ''##ann/k/release'', pt_Reason = ''ORDER_CANCELLED''\<rparr>, ReleaseReservation
     \<lparr>pt_ReservationId = ''F7'', pt_OrderId = ''#ann/k'', pt_IdempotencyKey = ''##ann/k/release'', pt_Reason
     = ''ORDER_RESERVATION_EXPIRED''\<rparr>, ReservePortions \<lparr>pq_OrderId = ''#ann/k'', pq_IdempotencyKey =
     ''k'', pq_Items = [\<lparr>pp_FlavorId = ''mango'', pp_Portions = 7\<rparr>]\<rparr>, ReservePortions
     \<lparr>pq_OrderId = ''#ann/k'', pq_IdempotencyKey = ''k'', pq_Items = [\<lparr>pp_FlavorId = ''mango'',
     pp_Portions = 7\<rparr>]\<rparr>]\<rparr>"

lemma slow_run: "run_clocked (sample_envs 50 (sample_now + 30 * Minute)) slow_place placed_sys = Some (PlaceAns (Inl hold_expired), expired_sys)"
  by code_simp

lemma stuck_run: "run_clocked (sample_envs 24 (sample_now + 30 * Minute)) (order_handler sample_v no_broker (CancelReq ''#ann/k'' ''CUSTOMER_REQUEST'')) expired_sys =
    Some (UnitAns (Inl key_clash), stuck_sys)"
  by code_simp

lemma retry_run: "map_option fst (run_clocked (sample_envs 36 (sample_now + 30 * Minute)) (order_handler sample_v no_broker (ResumeRun 1)) stuck_sys) =
    Some (WorkerAns (Some (Inl (Joined [(''#ann/k'', key_clash)] []))))"
  by code_simp

lemma slow_reach: "system_run sample_v no_broker system_start (sample_system stocked_sys [(PlaceReq sample_input ''k'', slow_place)] [])"
proof -
  let ?p = "order_handler sample_v no_broker (PlaceReq sample_input ''k'')"
  have r: "system_run sample_v no_broker system_start (sample_system stocked_sys [(PlaceReq sample_input ''k'', ?p)] [])"
    using system_run.more [OF stocked_reach system_step.receive [where r = "PlaceReq sample_input ''k''"]] by simp
  have "map_option fst (first_of (sample_env 50 sample_now) ?p stocked_sys) = Some stocked_sys" by code_simp
  then have "first_of (sample_env 50 sample_now) ?p stocked_sys = Some (stocked_sys, slow_place)"
    unfolding slow_place_def by (cases "first_of (sample_env 50 sample_now) ?p stocked_sys") auto
  then obtain g where g: "?p = Step g" "g (sample_env 50 sample_now) stocked_sys = (stocked_sys, slow_place)" by (cases ?p) auto
  have "env_ok sample_v (sample_env 50 sample_now) stocked_sys"
    using sample_env_calm by (simp add: calm_def sample_env_def stocked_sys_def)
  with g show ?thesis
    using system_run.more [OF r system_step.advance [where ps = "[]" and qs = "[]" and g = g and e = "sample_env 50 sample_now"]] by simp
qed

lemmas clash_reach = sample_next [OF sample_resume [OF sample_next [OF slow_reach placed_run] slow_run] stuck_run]

end
