(* ===== verification/Order_Props.thy ===== *)
theory Order_Props
  imports Order_Samples
begin

text \<open>
  The properties of the order service, alone and together with the inventory service. They are
  about every state the system can reach: any number of concurrent handlers, crashes between any
  two steps, lost answers, calls that arrive late or twice, and the staff and the sweeper of the
  inventory service working at the same time.
\<close>

section \<open>Orders and stock\<close>

lemma reach_saga: "lawful v \<Longrightarrow> system_run v publish system_start y \<Longrightarrow> saga v (y_sys y)"
  using system_reach_ok unfolding system_ok_def by blast

lemma reach_answer:
  "lawful v \<Longrightarrow> system_run v publish system_start y \<Longrightarrow> (r, a) \<in> set (y_answers y) \<Longrightarrow> truthful v r a (y_sys y)"
  using system_reach_ok unfolding system_ok_def by blast

lemma later_answer:
  assumes "lawful v" and "system_run v publish system_start y" and "(r, a) \<in> set (y_answers y)" and "system_run v publish y z"
  shows "truthful v r a (y_sys z)" and "saga v (y_sys z)"
  using truthful_later [OF reach_answer [OF assms(1-3)]] system_run_ok [OF assms(1,4) system_reach_ok [OF assms(1,2)]]
  by (auto simp: saga_relD)

text \<open>The statuses of a reservation that go with the status of its order.\<close>

fun stock_allowed :: "order \<Rightarrow> res_status \<Rightarrow> bool" where
  "stock_allowed x st = (case o_Status x of
     PENDING_PAYMENT \<Rightarrow> st \<in> {RActive, RReleased, RExpired}
   | CANCEL_PENDING \<Rightarrow> st \<in> {RActive, RReleased, RExpired}
   | PAYMENT_CONFIRMING \<Rightarrow> st \<in> {RActive, RReleased, RExpired, RConfirmed}
   | PAID \<Rightarrow> st = RConfirmed
   | STORE_CANCEL_PENDING \<Rightarrow> st \<in> {RConfirmed, RReturned}
   | CANCELLED \<Rightarrow> (if o_CancellationReason x = ReasonStoreCancelled then st = RReturned else st \<in> {RReleased, RExpired})
   | _ \<Rightarrow> False)"

lemma agrees_allowed:
  assumes a: "agrees s x" and wf: "wf_order x" and st: "stock s (o_ReservationID x) = Some st"
  shows "stock_allowed x st"
proof -
  note a' = a [unfolded agrees_def st]
  have 1: "was_paid x \<Longrightarrow> st = RConfirmed \<or> st = RReturned" using a' by simp
  have 2: "st = RConfirmed \<or> st = RReturned \<Longrightarrow> charged x"
  proof -
    assume "st = RConfirmed \<or> st = RReturned"
    then have "Some st = Some RConfirmed \<or> Some st = Some RReturned" by simp
    then show "charged x" using a' by blast
  qed
  have 3: "st = RReturned \<Longrightarrow> store_claimed x" using a' by simp
  have 4: "o_Status x = CANCELLED \<Longrightarrow> if o_CancellationReason x = ReasonStoreCancelled then st = RReturned else st = RReleased \<or> st = RExpired"
    using a' by (simp split: if_splits)
  have "o_Status x \<in> {PENDING_PAYMENT, CANCEL_PENDING, PAYMENT_CONFIRMING, PAID, CANCELLED, STORE_CANCEL_PENDING}"
    using wf unfolding wf_order_def by blast
  then have 5: "o_Status x \<notin> {PREPARING, READY_FOR_PICKUP, COMPLETED}" by auto
  show ?thesis
    using 1 2 3 4 5 by (cases "o_Status x"; cases st) (auto simp: was_paid_def charged_def store_claimed_def split: if_splits)
qed

text \<open>
  C1. Orders and stock agree. In every reachable state each order has its own reservation in the
  inventory service, with the expiry the order knows: a paid order's stock is sold and stays sold,
  a cancelled order's stock is back (returned if it had been paid, released or expired otherwise),
  and no stock is sold for an order that is still pending or being cancelled.
\<close>

theorem orders_backed:
  assumes "lawful v" and "system_run v publish system_start y" and "x \<in> set (orders (s_orders (y_sys y)))"
  shows "\<exists>row. owned (s_inv (y_sys y)) (o_ReservationID x) (o_ID x) = Some row \<and>
    rr_ExpiresAt row = o_ReservationExpiresAt x \<and> stock_allowed x (rr_Status row)"
proof -
  note ok = reach_saga [OF assms(1,2)]
  have a: "agrees (y_sys y) x" and wf: "wf_order x"
    using sagaD(4,5) [OF ok] assms(3) by (auto simp: orders_ok_def)
  then obtain row where row: "owned (s_inv (y_sys y)) (o_ReservationID x) (o_ID x) = Some row" "rr_ExpiresAt row = o_ReservationExpiresAt x"
    unfolding agrees_def by blast
  with agrees_allowed [OF a wf owned_status [OF row(1)]] show ?thesis by blast
qed

theorem orders_backed_witness:
  "o_Status (hd (orders (s_orders paid_sys))) = PAID \<and>
   (\<exists>row. owned (s_inv paid_sys) (o_ReservationID (hd (orders (s_orders paid_sys)))) (o_ID (hd (orders (s_orders paid_sys)))) = Some row \<and>
     rr_Status row = RConfirmed)"
proof -
  have 1: "o_Status (hd (orders (s_orders paid_sys))) = PAID" by code_simp
  have "hd (orders (s_orders paid_sys)) \<in> set (orders (s_orders paid_sys))" by code_simp
  with orders_backed [OF sample_lawful paid_reach] 1 show ?thesis by fastforce
qed

text \<open>
  Stock is sold only against a payment. Every reservation that the inventory service has
  confirmed belongs to exactly one order, and that order is paid or its payment is being confirmed.
\<close>

theorem sales_paid:
  assumes "lawful v" and "system_run v publish system_start y" and "find_res rid (s_inv (y_sys y)) = Some row"
    and "rr_Status row \<in> {RConfirmed, RReturned}"
  shows "\<exists>!x. x \<in> set (orders (s_orders (y_sys y))) \<and> o_ReservationID x = rid \<and> (o_PaidAt x \<noteq> None \<or> o_Status x = PAYMENT_CONFIRMING)"
proof -
  note ok = reach_saga [OF assms(1,2)]
  have sold: "sold (y_sys y) rid" using status_of_find [OF assms(3)] assms(4) by auto
  obtain x where x: "x \<in> set (orders (s_orders (y_sys y)))" "o_ReservationID x = rid" using sagaD(8) [OF ok sold] by blast
  have "charged x" using sagaD(5) [OF ok x(1)] sold x(2) by (auto simp: agrees_def)
  moreover have "wf_order x" using sagaD(4) [OF ok] x(1) by (auto simp: orders_ok_def)
  ultimately have "o_PaidAt x \<noteq> None \<or> o_Status x = PAYMENT_CONFIRMING" using wf_paid unfolding charged_def by blast
  with x show ?thesis using same_reservation [OF sagaD(4) [OF ok]] by metis
qed

theorem sales_paid_witness:
  "\<exists>!x. x \<in> set (orders (s_orders paid_sys)) \<and> o_ReservationID x = ''F7'' \<and> (o_PaidAt x \<noteq> None \<or> o_Status x = PAYMENT_CONFIRMING)"
proof -
  have "find_res ''F7'' (s_inv paid_sys) = Some (hd (reservations (s_inv paid_sys)))"
    "rr_Status (hd (reservations (s_inv paid_sys))) \<in> {RConfirmed, RReturned}" by code_simp+
  with sales_paid [OF sample_lawful paid_reach] show ?thesis by simp
qed

section \<open>Answers\<close>

text \<open>
  C3. A confirmed payment is final. Once \<open>ConfirmPayment\<close> has answered without an error, in that
  state and every later one the order carries its payment time, its stock is sold, and exactly one
  \<open>order.placed\<close> event with its data is in the outbox table.
\<close>

theorem payment_final:
  assumes "lawful v" and "system_run v publish system_start y" and "(ConfirmReq i, UnitAns (Inr ())) \<in> set (y_answers y)"
    and "system_run v publish y z"
  shows "\<exists>x p. find_order i (s_orders (y_sys z)) = Some x \<and> o_PaidAt x = Some p \<and>
    status_of (s_inv (y_sys z)) (o_ReservationID x) \<in> {Some RConfirmed, Some RReturned} \<and>
    written (s_orders (y_sys z)) i ''order.placed'' = [placed_event x p]"
proof -
  note ans = later_answer [OF assms]
  from ans(1) obtain x p where x: "find_order i (s_orders (y_sys z)) = Some x" "o_PaidAt x = Some p"
    by (auto simp: pay_answer_def order_at_def is_paid_def)
  have wf: "wf_order x" "agrees (y_sys z) x" using saga_wf [OF ans(2) x(1)] by auto
  then have "was_paid x" using wf_paid [of x] x(2) by simp
  then have "sold (y_sys z) (o_ReservationID x)" using wf(2) by (simp add: agrees_def)
  moreover have "told (s_orders (y_sys z)) x" "o_ID x = i"
    using sagaD(4) [OF ans(2)] find_orderD [OF x(1)] by (auto simp: orders_ok_def)
  ultimately show ?thesis using x by (auto simp: told_def)
qed

theorem payment_final_witness:
  "\<exists>x p. find_order ''#ann/k'' (s_orders returned_sys) = Some x \<and> o_PaidAt x = Some p \<and>
    written (s_orders returned_sys) ''#ann/k'' ''order.placed'' = [placed_event x p]"
proof -
  have "system_run sample_v no_broker (sample_system paid_sys [] paid_log)
      (sample_system returned_sys [] ((StoreCancelReq ''#ann/k'', UnitAns (Inr ())) # paid_log))"
    by (rule sample_next [OF system_run.here returned_run])
  from payment_final [OF sample_lawful paid_reach _ this, of "''#ann/k''"] show ?thesis by fastforce
qed

text \<open>
  C2. A rejected payment can be refunded. Once \<open>ConfirmPayment\<close> has answered
  \<open>PAYMENT_REJECTED\<close> (410), the order is never paid: in that state and every later one it is
  cancelled or being cancelled, has no payment time, its stock is not sold, and there is no
  \<open>order.placed\<close> event.
\<close>

theorem rejection_final:
  assumes "lawful v" and "system_run v publish system_start y" and "(ConfirmReq i, UnitAns (Inl paymentRejected)) \<in> set (y_answers y)"
    and "system_run v publish y z"
  shows "\<exists>x. find_order i (s_orders (y_sys z)) = Some x \<and> o_Status x \<in> {CANCEL_PENDING, CANCELLED} \<and> o_PaidAt x = None \<and>
    status_of (s_inv (y_sys z)) (o_ReservationID x) \<notin> {Some RConfirmed, Some RReturned} \<and>
    written (s_orders (y_sys z)) i ''order.placed'' = []"
proof -
  note ans = later_answer [OF assms]
  from ans(1) obtain x where x: "find_order i (s_orders (y_sys z)) = Some x" "o_Status x \<in> {CANCEL_PENDING, CANCELLED}" "o_PaidAt x = None"
    by (auto simp: pay_answer_def order_at_def is_refused_def)
  have wf: "wf_order x" "agrees (y_sys z) x" using saga_wf [OF ans(2) x(1)] by auto
  then have "\<not> charged x" using wf_paid [of x] x by (auto simp: charged_def)
  then have "\<not> sold (y_sys z) (o_ReservationID x)" using wf(2) by (auto simp: agrees_def)
  moreover have "told (s_orders (y_sys z)) x" "o_ID x = i"
    using sagaD(4) [OF ans(2)] find_orderD [OF x(1)] by (auto simp: orders_ok_def)
  ultimately show ?thesis using x by (auto simp: told_def)
qed

theorem rejection_final_witness:
  "\<exists>x. find_order ''#ann/k'' (s_orders refused_sys) = Some x \<and> o_Status x \<in> {CANCEL_PENDING, CANCELLED} \<and> o_PaidAt x = None"
proof -
  from rejection_final [OF sample_lawful refused_reach _ system_run.here, of "''#ann/k''"] show ?thesis by fastforce
qed

text \<open>
  C15. A cancellation that was answered without an error is complete: the order is cancelled, now
  and later, its stock is back, and exactly one \<open>order.cancelled\<close> event describes it. After a
  cancellation by the store the event says that the order had been paid, and when.
\<close>

theorem cancellation_final:
  assumes "lawful v" and "system_run v publish system_start y"
    and "(CancelReq i reason, UnitAns (Inr ())) \<in> set (y_answers y) \<or> (StoreCancelReq i, UnitAns (Inr ())) \<in> set (y_answers y)"
    and "system_run v publish y z"
  shows "\<exists>x t. find_order i (s_orders (y_sys z)) = Some x \<and> o_Status x = CANCELLED \<and>
    status_of (s_inv (y_sys z)) (o_ReservationID x) \<in> {Some RReleased, Some RExpired, Some RReturned} \<and>
    written (s_orders (y_sys z)) i ''order.cancelled'' = [Cancelled t (cancel_data x)] \<and>
    ((StoreCancelReq i, UnitAns (Inr ())) \<in> set (y_answers y) \<longrightarrow>
       oc_WasPaid (cancel_data x) = Some True \<and> oc_PaidAt (cancel_data x) = o_PaidAt x \<and> o_PaidAt x \<noteq> None)"
proof -
  have ok: "saga v (y_sys z)" using assms(3) later_answer(2) [OF assms(1,2) _ assms(4)] by blast
  have "order_at (y_sys z) i is_closed" and store: "(StoreCancelReq i, UnitAns (Inr ())) \<in> set (y_answers y) \<Longrightarrow> order_at (y_sys z) i is_store_closed"
    using assms(3) later_answer(1) [OF assms(1,2) _ assms(4)] order_at_mono [of "y_sys z" i is_store_closed is_closed]
    by (fastforce simp: is_closed_def is_store_closed_def)+
  then obtain x where x: "find_order i (s_orders (y_sys z)) = Some x" "o_Status x = CANCELLED" by (auto simp: order_at_def is_closed_def)
  have wf: "wf_order x" "agrees (y_sys z) x" using saga_wf [OF ok x(1)] by auto
  have "told (s_orders (y_sys z)) x" "o_ID x = i"
    using sagaD(4) [OF ok] find_orderD [OF x(1)] by (auto simp: orders_ok_def)
  then obtain t where t: "written (s_orders (y_sys z)) i ''order.cancelled'' = [Cancelled t (cancel_data x)]" using x(2) by (auto simp: told_def)
  have stock: "status_of (s_inv (y_sys z)) (o_ReservationID x) \<in> {Some RReleased, Some RExpired, Some RReturned}"
    using wf(2) x(2) by (auto simp: agrees_def split: if_splits)
  have "oc_WasPaid (cancel_data x) = Some True \<and> oc_PaidAt (cancel_data x) = o_PaidAt x \<and> o_PaidAt x \<noteq> None"
    if "(StoreCancelReq i, UnitAns (Inr ())) \<in> set (y_answers y)"
  proof -
    have reason: "o_CancellationReason x = ReasonStoreCancelled" using store [OF that] x(1) by (auto simp: order_at_def is_store_closed_def)
    then have "o_PaidAt x \<noteq> None" using wf_paid [OF wf(1)] x(2) by (auto simp: was_paid_def)
    with reason show ?thesis by (auto simp: cancel_data_def paid_cancellation_def cancelled_paid_at_def)
  qed
  with x t stock show ?thesis by blast
qed

theorem cancellation_final_witness:
  "\<exists>x. find_order ''#ann/k'' (s_orders returned_sys) = Some x \<and> o_Status x = CANCELLED \<and> oc_WasPaid (cancel_data x) = Some True"
proof -
  from cancellation_final [OF sample_lawful returned_reach _ system_run.here, of "''#ann/k''" "''''"] show ?thesis by fastforce
qed

text \<open>A retry of the sample request after its answer.\<close>

lemma again_run:
  "(case run_clocked (sample_envs 12 sample_now) (order_handler sample_v no_broker (PlaceReq sample_input ''k'')) placed_sys of
     Some (PlaceAns (Inr d), t) \<Rightarrow> True | _ \<Rightarrow> False)"
  by code_simp

text \<open>
  C16. One order for one key. Two successful answers of \<open>PlaceOrder\<close> to requests with the same
  customer and \<open>Idempotency-Key\<close>, however the handlers interleaved, are about the same order, and
  each of the two requests has that customer, that key and the request hash of that order: a request
  with other items or another pickup time under the key is not answered with the order. A checkout
  URL is handed out only together with the pending order that carries it.
\<close>

theorem place_once:
  assumes "lawful v" and "system_run v publish system_start y"
    and "(PlaceReq in1 k1, PlaceAns (Inr c1)) \<in> set (y_answers y)" and "(PlaceReq in2 k2, PlaceAns (Inr c2)) \<in> set (y_answers y)"
    and "v_uuidParse v (in_CustomerID in1) = v_uuidParse v (in_CustomerID in2)" and "v_uuidParse v k1 = v_uuidParse v k2"
  shows "o_ID (ck_Order c1) = o_ID (ck_Order c2) \<and>
    (\<exists>x. find_order (o_ID (ck_Order c1)) (s_orders (y_sys y)) = Some x \<and> same_order (ck_Order c1) x \<and> same_order (ck_Order c2) x \<and>
      answers_request v in1 k1 x \<and> answers_request v in2 k2 x) \<and>
    (ck_CheckoutURL c1 \<noteq> [] \<longrightarrow> o_Status (ck_Order c1) = PENDING_PAYMENT \<and> o_CheckoutURL (ck_Order c1) = ck_CheckoutURL c1)"
proof -
  note ok = reach_saga [OF assms(1,2)]
  have a1: "place_answer v in1 k1 (Inr c1) (y_sys y)" and a2: "place_answer v in2 k2 (Inr c2) (y_sys y)"
    using reach_answer [OF assms(1,2)] assms(3,4) by fastforce+
  obtain x1 where x1: "find_order (o_ID (ck_Order c1)) (s_orders (y_sys y)) = Some x1" "same_order (ck_Order c1) x1"
    using a1 knownD [OF _ ok] unfolding place_answer_def by metis
  obtain x2 where x2: "find_order (o_ID (ck_Order c2)) (s_orders (y_sys y)) = Some x2" "same_order (ck_Order c2) x2"
    using a2 knownD [OF _ ok] unfolding place_answer_def by metis
  have "o_CustomerID (ck_Order c1) = o_CustomerID (ck_Order c2) \<and> o_IdempotencyKey (ck_Order c1) = o_IdempotencyKey (ck_Order c2)"
    using a1 a2 assms(5,6) by (simp add: place_answer_def answers_request_def)
  then have "(o_CustomerID x1, o_IdempotencyKey x1) = (o_CustomerID x2, o_IdempotencyKey x2)"
    using x1(2) x2(2) by (simp add: same_order_def)
  moreover have "x1 \<in> set (orders (s_orders (y_sys y)))" "x2 \<in> set (orders (s_orders (y_sys y)))"
    using x1(1) x2(1) by (auto dest: find_orderD)
  moreover have "distinct (map (\<lambda>x. (o_CustomerID x, o_IdempotencyKey x)) (orders (s_orders (y_sys y))))"
    using sagaD(4) [OF ok] by (simp add: orders_ok_def)
  ultimately have eq: "x1 = x2" using distinct_key_eq [of "\<lambda>x. (o_CustomerID x, o_IdempotencyKey x)"] by blast
  have "answers_request v in1 k1 x1" "answers_request v in2 k2 x2"
    using a1 a2 answers_request_same [OF _ x1(2)] answers_request_same [OF _ x2(2)] by (auto simp: place_answer_def)
  with eq x1 x2 a1 show ?thesis by (auto simp: same_order_def place_answer_def)
qed

theorem place_once_witness:
  "\<exists>c d t. run_clocked (sample_envs 12 sample_now) (order_handler sample_v no_broker (PlaceReq sample_input ''k'')) placed_sys = Some (PlaceAns (Inr d), t) \<and>
    placed_answer = PlaceAns (Inr c) \<and> o_ID (ck_Order c) = o_ID (ck_Order d) \<and> ck_CheckoutURL c = ''https://pay/cs'' \<and>
    o_Status (ck_Order c) = PENDING_PAYMENT"
proof -
  obtain c where c: "placed_answer = PlaceAns (Inr c)" "ck_CheckoutURL c = ''https://pay/cs''"
    by (simp add: placed_answer_def)
  obtain d t where d: "run_clocked (sample_envs 12 sample_now) (order_handler sample_v no_broker (PlaceReq sample_input ''k'')) placed_sys = Some (PlaceAns (Inr d), t)"
    using again_run by (auto split: option.splits order_answer.splits sum.splits) (metis sumE)
  from place_once [OF sample_lawful sample_next [OF placed_reach d], of sample_input "''k''" c sample_input "''k''" d] c d
  show ?thesis by auto
qed

section \<open>The life of an order\<close>

text \<open>
  C17. An order only moves forward. Between any two states of a run an order keeps its lines,
  amount, customer, keys and reservation, its status moves along the state machine, a payment time
  once set stays, and a cancelled or cancelling order keeps its reason.
\<close>

theorem order_forward:
  assumes "lawful v" and "system_run v publish system_start y" and "system_run v publish y z"
    and "find_order i (s_orders (y_sys y)) = Some x"
  shows "\<exists>x'. find_order i (s_orders (y_sys z)) = Some x' \<and> same_order x x' \<and> ostatus_le (o_Status x) (o_Status x') \<and>
    (o_PaidAt x \<noteq> None \<longrightarrow> o_PaidAt x' = o_PaidAt x) \<and>
    (o_Status x \<in> {CANCEL_PENDING, STORE_CANCEL_PENDING, CANCELLED} \<longrightarrow> o_CancellationReason x' = o_CancellationReason x)"
  using system_run_ok [OF assms(1,3) system_reach_ok [OF assms(1,2)]] assms(4)
  unfolding saga_rel_def sys_le_def orders_le_def order_le_def by blast

theorem order_forward_witness:
  "\<exists>x'. find_order ''#ann/k'' (s_orders paid_sys) = Some x' \<and> same_order (hd (orders (s_orders placed_sys))) x' \<and> o_Status x' = PAID"
proof -
  have r: "system_run sample_v no_broker (sample_system placed_sys [] place_log) (sample_system paid_sys [] paid_log)"
    by (rule sample_next [OF system_run.here paid_run])
  have 1: "find_order ''#ann/k'' (s_orders placed_sys) = Some (hd (orders (s_orders placed_sys)))"
    and 2: "map_option o_Status (find_order ''#ann/k'' (s_orders paid_sys)) = Some PAID" by code_simp+
  from order_forward [OF sample_lawful placed_reach r] 1 2 show ?thesis by fastforce
qed

text \<open>
  The amount of an order is exact. In every reachable state the amount of an order is the sum
  of its lines, between 1 and 99999999 minor units, and each line is its unit price times a positive
  number of portions.
\<close>

theorem order_priced:
  assumes "lawful v" and "system_run v publish system_start y" and "x \<in> set (orders (s_orders (y_sys y)))"
  shows "o_TotalAmountMinor x = (\<Sum>l\<leftarrow>o_Items x. oi_UnitPriceMinor l * oi_Portions l) \<and>
    1 \<le> o_TotalAmountMinor x \<and> o_TotalAmountMinor x \<le> 99999999 \<and> (\<forall>l\<in>set (o_Items x). 1 \<le> oi_Portions l)"
proof -
  have p: "priced x" using sagaD(4) [OF reach_saga [OF assms(1,2)]] assms(3) by (auto simp: orders_ok_def wf_order_def)
  then have "map oi_SubtotalMinor (o_Items x) = map (\<lambda>l. oi_UnitPriceMinor l * oi_Portions l) (o_Items x)"
    by (auto simp: priced_def)
  with p show ?thesis unfolding priced_def by simp
qed

theorem order_priced_witness: "o_TotalAmountMinor (hd (orders (s_orders placed_sys))) = 5500 * 7"
proof -
  have "hd (orders (s_orders placed_sys)) \<in> set (orders (s_orders placed_sys))"
    "(\<Sum>l\<leftarrow>o_Items (hd (orders (s_orders placed_sys))). oi_UnitPriceMinor l * oi_Portions l) = 5500 * 7" by code_simp+
  with order_priced [OF sample_lawful placed_reach] show ?thesis by simp
qed

text \<open>
  C18. The pricing loop of \<open>placeOrder\<close>, which works at 64 bits with overflow guards, computes the
  exact lines and the exact total; it fails exactly when a flavor is missing, inactive or has no
  valid price in the currency, or when the exact total does not fit in 64 bits.
\<close>

theorem pricing_exact:
  assumes "ordered items"
  shows "price_loop byID (portions_of items) currency (sort (map fst items)) (0, []) = Inr r \<longleftrightarrow>
    all_listed byID currency (map fst items) \<and> exact_total byID (portions_of items) (sort (map fst items)) \<le> MaxInt64 \<and>
    r = (exact_total byID (portions_of items) (sort (map fst items)), map (exact_line byID (portions_of items)) (sort (map fst items)))"
proof -
  have pos: "\<forall>i\<in>set (sort (map fst items)). 1 \<le> portions_of items i" using portions_pos [OF assms] by simp
  have "all_listed byID currency (sort (map fst items)) = all_listed byID currency (map fst items)" by (simp add: all_listed_def)
  with price_loop_exact [OF pos, of 0 byID currency "[]" r] show ?thesis by (simp add: MaxInt64_def)
qed

theorem pricing_exact_witness:
  "\<forall>r. price_loop (\<lambda>_. Some \<lparr>fl_Id = ''mango'', fl_Name = ''Mango'', fl_Active = True,
      fl_Price = Some \<lparr>mo_AmountMinor = Some (2 ^ 62), mo_Currency = Some ''THB''\<rparr>\<rparr>) (portions_of [(''mango'', 2)]) ''THB'' [''mango''] (0, []) \<noteq> Inr r"
proof
  fix r
  have o: "ordered [(''mango'', 2)]" by (simp add: ordered_def)
  let ?m = "\<lambda>_. Some \<lparr>fl_Id = ''mango'', fl_Name = ''Mango'', fl_Active = True,
      fl_Price = Some \<lparr>mo_AmountMinor = Some (2 ^ 62), mo_Currency = Some ''THB''\<rparr>\<rparr>"
  have "exact_total ?m (portions_of [(''mango'', 2)]) [''mango''] > MaxInt64"
    by (simp add: exact_total_def exact_line_def portions_of_def MaxInt64_def)
  then show "price_loop ?m (portions_of [(''mango'', 2)]) ''THB'' [''mango''] (0, []) \<noteq> Inr r"
    using pricing_exact [OF o, of ?m "''THB''" r] by simp
qed

section \<open>A release that clashes with an earlier one\<close>

text \<open>
  Cancelling can get stuck. \<open>placeOrder\<close> releases an expired hold with the release key of the
  order and the reason \<open>ORDER_RESERVATION_EXPIRED\<close>; when a concurrent retry has saved the order,
  \<open>CancelOrder\<close> releases it with the same key and another reason. The inventory service refuses the
  second request as a reuse of the key, so the order stays in \<open>CANCEL_PENDING\<close> although its stock is
  back, and the worker that resumes pending transitions fails in the same way.
\<close>

lemma release_key_clash:
  "system_run sample_v no_broker system_start (sample_system stuck_sys []
      [(CancelReq ''#ann/k'' ''CUSTOMER_REQUEST'', UnitAns (Inl key_clash)),
       (PlaceReq sample_input ''k'', PlaceAns (Inl hold_expired)), (PlaceReq sample_input ''k'', placed_answer)]) \<and>
   map o_Status (orders (s_orders stuck_sys)) = [CANCEL_PENDING] \<and>
   status_of (s_inv stuck_sys) ''F7'' = Some RExpired \<and>
   map_option fst (run_clocked (sample_envs 36 (sample_now + 30 * Minute)) (order_handler sample_v no_broker (ResumeRun 1)) stuck_sys) =
     Some (WorkerAns (Some (Inl (Joined [(''#ann/k'', key_clash)] []))))"
proof -
  have "map o_Status (orders (s_orders stuck_sys)) = [CANCEL_PENDING]" "status_of (s_inv stuck_sys) ''F7'' = Some RExpired" by code_simp+
  with clash_reach retry_run show ?thesis by blast
qed

end
