(* ===== verification/Notify_Stream.thy ===== *)
theory Notify_Stream
  imports Gelato_Prelude "HOL-Library.Sublist"
begin

text \<open>
  The notification service, part one: the notifications (\<open>hub/hub.go\<close>), the ring buffer and the
  replay buffer (\<open>stream/replay_buffer.go\<close>). The ring buffer and the set of seen event ids
  (\<open>notify/state.go\<close>) are bounded logs: the locale \<open>bounded_log\<close> states the contract, and both
  are shown to keep exactly the latest entries.

  A UUID is its canonical text. Clock readings are arguments; \<open>clk k\<close> is the \<open>k\<close>-th reading of an
  operation that reads the clock more than once.
\<close>

section \<open>Bounded logs\<close>

definition latest :: "nat \<Rightarrow> 'a list \<Rightarrow> 'a list" where
  "latest n xs = drop (length xs - n) xs"

lemma length_latest [simp]: "length (latest n xs) = min n (length xs)"
  by (simp add: latest_def)

lemma latest_all: "length xs \<le> n \<Longrightarrow> latest n xs = xs"
  by (simp add: latest_def)

lemma latest_snoc: "0 < n \<Longrightarrow> latest n (latest n xs @ [x]) = latest n (xs @ [x])"
  by (cases "length xs \<le> n") (auto simp: latest_def Suc_diff_le)

lemma latest_suffix: "suffix (latest n xs) xs"
  by (simp add: latest_def suffix_drop)

lemma latest_append_eq: "length ys \<le> n \<Longrightarrow> latest n (xs @ ys) = latest (n - length ys) xs @ ys"
  by (simp add: latest_def)

locale bounded_log =
  fixes ok :: "'b \<Rightarrow> bool" and room :: "'b \<Rightarrow> nat" and contents :: "'b \<Rightarrow> 'a list" and push :: "'a \<Rightarrow> 'b \<Rightarrow> 'b"
  assumes room_pos: "ok b \<Longrightarrow> 0 < room b"
    and ok_push: "ok b \<Longrightarrow> ok (push x b)"
    and room_push: "ok b \<Longrightarrow> room (push x b) = room b"
    and contents_push: "ok b \<Longrightarrow> contents (push x b) = latest (room b) (contents b @ [x])"
    and contents_room: "ok b \<Longrightarrow> length (contents b) \<le> room b"
begin

lemma ok_fold: "ok b \<Longrightarrow> ok (fold push xs b) \<and> room (fold push xs b) = room b"
  by (induction xs arbitrary: b) (simp_all add: ok_push room_push)

theorem contents_fold:
  assumes "ok b" shows "contents (fold push xs b) = latest (room b) (contents b @ xs)"
  using assms
proof (induction xs rule: rev_induct)
  case Nil
  then show ?case using contents_room by (simp add: latest_all)
next
  case (snoc x xs)
  have "contents (fold push (xs @ [x]) b) = latest (room b) (contents (fold push xs b) @ [x])"
    using ok_fold [OF snoc.prems, of xs] contents_push by simp
  also have "\<dots> = latest (room b) ((contents b @ xs) @ [x])"
    using snoc latest_snoc [OF room_pos [OF snoc.prems], of "contents b @ xs"] by simp
  finally show ?case by simp
qed

text \<open>What is pushed stays until \<open>room\<close> later entries have been pushed.\<close>

corollary kept: "ok b \<Longrightarrow> length xs < room b \<Longrightarrow> suffix (x # xs) (contents (fold push (x # xs) b))"
  using latest_append_eq [of "x # xs" "room b" "contents b"] by (simp only: contents_fold) (simp add: suffix_def)

end

section \<open>Notifications\<close>

type_synonym role = string

definition RoleStaff :: role where "RoleStaff = ''STAFF''"
definition RoleManager :: role where "RoleManager = ''MANAGER''"
definition RoleCustomer :: role where "RoleCustomer = ''CUSTOMER''"

datatype notification_data =
    ConfirmedData string string time string \<comment> \<open>order id, queue number, pickup time, slot id\<close>
  | ReadyData string string string \<comment> \<open>order id, queue number, slot id\<close>
  | CancelledData string string \<comment> \<open>order id, reason\<close>
  | LowStockData string string int int \<comment> \<open>batch id, flavor id, remaining, threshold\<close>
  | ExpiringData string string time \<comment> \<open>batch id, flavor id, expiry\<close>

record notification =
  n_ID :: string
  n_Type :: string
  n_Message :: string
  n_OccurredAt :: time
  n_Data :: notification_data

section \<open>The ring buffer\<close>

record bufferedItem =
  bi_notification :: notification
  bi_addedAt :: time

record customerRingBuffer =
  rb_items :: "bufferedItem list"
  rb_head :: nat
  rb_cap :: nat

definition DefaultMaxEventsPerCustomer :: int where "DefaultMaxEventsPerCustomer = 500"
definition DefaultTTL :: int where "DefaultTTL = 5 * Minute"

definition newCustomerRingBuffer :: "int \<Rightarrow> customerRingBuffer" where
  "newCustomerRingBuffer capacity =
     \<lparr>rb_items = [], rb_head = 0, rb_cap = nat (if capacity \<le> 0 then DefaultMaxEventsPerCustomer else capacity)\<rparr>"

definition rb_put :: "bufferedItem \<Rightarrow> customerRingBuffer \<Rightarrow> customerRingBuffer" where
  "rb_put it rb = (if length (rb_items rb) < rb_cap rb then rb\<lparr>rb_items := rb_items rb @ [it]\<rparr>
     else rb\<lparr>rb_items := (rb_items rb)[rb_head rb := it], rb_head := (rb_head rb + 1) mod rb_cap rb\<rparr>)"

definition rb_add :: "notification \<Rightarrow> time \<Rightarrow> customerRingBuffer \<Rightarrow> customerRingBuffer" where
  "rb_add n t rb = rb_put \<lparr>bi_notification = n, bi_addedAt = t\<rparr> rb"

definition rb_at :: "customerRingBuffer \<Rightarrow> nat \<Rightarrow> bufferedItem" where
  "rb_at rb i = rb_items rb ! ((rb_head rb + i) mod length (rb_items rb))"

definition rb_contains :: "string \<Rightarrow> customerRingBuffer \<Rightarrow> bool" where
  "rb_contains i rb = list_ex (\<lambda>x. n_ID (bi_notification x) = i) (rb_items rb)"

text \<open>\<open>time.Sub\<close> saturates at the limits of a duration.\<close>

definition time_Sub :: "time \<Rightarrow> time \<Rightarrow> int" where
  "time_Sub a b = max (- (2 ^ 63)) (min MaxInt64 (a - b))"

definition rb_valid :: "time \<Rightarrow> int \<Rightarrow> customerRingBuffer \<Rightarrow> bufferedItem list" where
  "rb_valid t ttl rb = filter (\<lambda>x. \<not> time_Sub t (bi_addedAt x) > ttl) (map (rb_at rb) [0..<length (rb_items rb)])"

definition rb_hasValid :: "time \<Rightarrow> int \<Rightarrow> customerRingBuffer \<Rightarrow> bool" where
  "rb_hasValid t ttl rb = list_ex (\<lambda>x. time_Sub t (bi_addedAt x) \<le> ttl) (rb_items rb)"

text \<open>The abstraction: the items in chronological order.\<close>

definition rb_list :: "customerRingBuffer \<Rightarrow> bufferedItem list" where
  "rb_list rb = rotate (rb_head rb) (rb_items rb)"

definition rb_ok :: "customerRingBuffer \<Rightarrow> bool" where
  "rb_ok rb \<longleftrightarrow> 0 < rb_cap rb \<and> length (rb_items rb) \<le> rb_cap rb \<and> rb_head rb < rb_cap rb \<and>
     (length (rb_items rb) < rb_cap rb \<longrightarrow> rb_head rb = 0)"

lemma rb_ok_new [simp]: "rb_ok (newCustomerRingBuffer c)" "rb_list (newCustomerRingBuffer c) = []"
  by (simp_all add: rb_ok_def rb_list_def newCustomerRingBuffer_def DefaultMaxEventsPerCustomer_def)

lemma rotate_overwrite:
  assumes "h < length xs" shows "rotate (Suc h mod length xs) (xs[h := x]) = tl (rotate h xs) @ [x]"
proof -
  have "rotate (Suc h mod length xs) (xs[h := x]) = rotate (Suc h) (xs[h := x])"
    by (metis length_list_update rotate_conv_mod)
  also have "\<dots> = rotate1 (rotate h (xs[h := x]))" by simp
  also have "rotate h (xs[h := x]) = drop h (xs[h := x]) @ take h (xs[h := x])"
    using assms by (simp add: rotate_drop_take)
  also have "\<dots> = x # (drop (Suc h) xs @ take h xs)"
    using assms by (simp add: drop_update_cancel Cons_nth_drop_Suc [symmetric] drop_update_swap)
  also have "rotate1 \<dots> = (drop (Suc h) xs @ take h xs) @ [x]" by simp
  also have "drop (Suc h) xs @ take h xs = tl (rotate h xs)"
    using assms by (simp add: rotate_drop_take Cons_nth_drop_Suc [symmetric])
  finally show ?thesis .
qed

lemma rb_list_put:
  assumes "rb_ok rb" shows "rb_list (rb_put it rb) = latest (rb_cap rb) (rb_list rb @ [it])"
proof (cases "length (rb_items rb) < rb_cap rb")
  case True
  then show ?thesis using assms by (simp add: rb_ok_def rb_put_def rb_list_def latest_def)
next
  case False
  then have len: "length (rb_items rb) = rb_cap rb" and h: "rb_head rb < length (rb_items rb)"
    using assms by (auto simp: rb_ok_def)
  have "rb_list (rb_put it rb) = tl (rb_list rb) @ [it]"
    using rotate_overwrite [OF h, of it] len by (simp add: rb_put_def rb_list_def)
  also have "\<dots> = latest (rb_cap rb) (rb_list rb @ [it])"
    using len h by (simp add: latest_def rb_list_def drop_Suc)
  finally show ?thesis .
qed

lemma rb_ok_put: "rb_ok rb \<Longrightarrow> rb_ok (rb_put it rb)" and rb_cap_put [simp]: "rb_cap (rb_put it rb) = rb_cap rb"
  by (auto simp: rb_ok_def rb_put_def)

interpretation ring: bounded_log rb_ok rb_cap rb_list rb_put
proof
  fix b :: customerRingBuffer and x assume ok: "rb_ok b"
  show "0 < rb_cap b" using ok by (simp add: rb_ok_def)
  show "rb_ok (rb_put x b)" by (rule rb_ok_put [OF ok])
  show "rb_cap (rb_put x b) = rb_cap b" by simp
  show "rb_list (rb_put x b) = latest (rb_cap b) (rb_list b @ [x])" by (rule rb_list_put [OF ok])
  show "length (rb_list b) \<le> rb_cap b" using ok by (simp add: rb_ok_def rb_list_def)
qed

lemma rb_list_at: "map (rb_at rb) [0..<length (rb_items rb)] = rb_list rb"
  by (rule nth_equalityI) (simp_all add: rb_at_def rb_list_def nth_rotate add.commute)

lemma rb_valid_list: "rb_valid t ttl rb = filter (\<lambda>x. time_Sub t (bi_addedAt x) \<le> ttl) (rb_list rb)"
  unfolding rb_valid_def rb_list_at by (simp add: not_less)

lemma rb_contains_list: "rb_contains i rb \<longleftrightarrow> i \<in> (\<lambda>x. n_ID (bi_notification x)) ` set (rb_list rb)"
  by (auto simp: rb_contains_def rb_list_def list_ex_iff)

lemma rb_hasValid_list: "rb_hasValid t ttl rb \<longleftrightarrow> rb_valid t ttl rb \<noteq> []"
  by (auto simp: rb_hasValid_def rb_valid_list rb_list_def list_ex_iff filter_empty_conv)

section \<open>The replay buffer\<close>

record ReplayBuffer =
  rp_customers :: "string \<rightharpoonup> customerRingBuffer"
  rp_roles :: "role \<rightharpoonup> customerRingBuffer"
  rp_maxEvents :: int
  rp_ttl :: int

definition NewReplayBuffer :: "int \<Rightarrow> int \<Rightarrow> ReplayBuffer" where
  "NewReplayBuffer maxEvents ttl = \<lparr>rp_customers = Map.empty, rp_roles = Map.empty,
     rp_maxEvents = (if maxEvents \<le> 0 then DefaultMaxEventsPerCustomer else maxEvents),
     rp_ttl = (if ttl \<le> 0 then DefaultTTL else ttl)\<rparr>"

definition ring_of :: "int \<Rightarrow> ('k \<rightharpoonup> customerRingBuffer) \<Rightarrow> 'k \<Rightarrow> customerRingBuffer" where
  "ring_of maxEvents m k = (case m k of None \<Rightarrow> newCustomerRingBuffer maxEvents | Some rb \<Rightarrow> rb)"

definition rp_Add :: "time \<Rightarrow> string \<Rightarrow> notification \<Rightarrow> ReplayBuffer \<Rightarrow> ReplayBuffer" where
  "rp_Add t customerID n b =
     (if customerID = uuid_Nil \<or> n_ID n = uuid_Nil then b
      else
        let crb = ring_of (rp_maxEvents b) (rp_customers b) customerID in
        b\<lparr>rp_customers := (rp_customers b)(customerID \<mapsto> (if rb_contains (n_ID n) crb then crb else rb_add n t crb))\<rparr>)"

fun add_roles :: "(nat \<Rightarrow> time) \<Rightarrow> nat \<Rightarrow> notification \<Rightarrow> role list \<Rightarrow> ReplayBuffer \<Rightarrow> ReplayBuffer" where
  "add_roles clk k n [] b = b"
| "add_roles clk k n (r # rs) b =
     (let rrb = ring_of (rp_maxEvents b) (rp_roles b) r in
      if rb_contains (n_ID n) rrb then add_roles clk k n rs (b\<lparr>rp_roles := (rp_roles b)(r \<mapsto> rrb)\<rparr>)
      else add_roles clk (Suc k) n rs (b\<lparr>rp_roles := (rp_roles b)(r \<mapsto> rb_add n (clk k) rrb)\<rparr>))"

definition rp_AddForRoles :: "(nat \<Rightarrow> time) \<Rightarrow> notification \<Rightarrow> role list \<Rightarrow> ReplayBuffer \<Rightarrow> ReplayBuffer" where
  "rp_AddForRoles clk n roles b = (if n_ID n = uuid_Nil then b else add_roles clk 0 n roles b)"

text \<open>The part of a list after the entry with an id; everything when there is none.\<close>

fun after_id :: "string \<Rightarrow> notification list \<Rightarrow> notification list option" where
  "after_id i [] = None"
| "after_id i (n # ns) = (if n_ID n = i then Some ns else after_id i ns)"

definition since :: "string \<Rightarrow> notification list \<Rightarrow> notification list" where
  "since i ns = (if i = uuid_Nil then ns else case after_id i ns of Some ms \<Rightarrow> ms | None \<Rightarrow> ns)"

definition rp_ReplayFor :: "time \<Rightarrow> string \<Rightarrow> role \<Rightarrow> string \<Rightarrow> ReplayBuffer \<Rightarrow> notification list" where
  "rp_ReplayFor t userID role lastEventID b =
     (let mine = (case rp_customers b userID of None \<Rightarrow> [] | Some crb \<Rightarrow> rb_valid t (rp_ttl b) crb);
          items = (case rp_roles b role of
             Some rrb \<Rightarrow> if role \<noteq> '''' then sort_key bi_addedAt (mine @ rb_valid t (rp_ttl b) rrb) else mine
           | None \<Rightarrow> mine)
      in since lastEventID (map bi_notification items))"

definition rp_Replay :: "time \<Rightarrow> string \<Rightarrow> string \<Rightarrow> ReplayBuffer \<Rightarrow> notification list" where
  "rp_Replay t customerID lastEventID b = rp_ReplayFor t customerID '''' lastEventID b"

definition rp_GetAll :: "time \<Rightarrow> string \<Rightarrow> ReplayBuffer \<Rightarrow> notification list" where
  "rp_GetAll t customerID b = rp_Replay t customerID uuid_Nil b"

definition rp_Size :: "time \<Rightarrow> string \<Rightarrow> ReplayBuffer \<Rightarrow> nat" where
  "rp_Size t customerID b = (case rp_customers b customerID of None \<Rightarrow> 0 | Some crb \<Rightarrow> length (rb_valid t (rp_ttl b) crb))"

definition drop_expired :: "time \<Rightarrow> int \<Rightarrow> ('k \<rightharpoonup> customerRingBuffer) \<Rightarrow> ('k \<rightharpoonup> customerRingBuffer)" where
  "drop_expired t ttl m = (\<lambda>k. case m k of Some rb \<Rightarrow> if rb_hasValid t ttl rb then Some rb else None | None \<Rightarrow> None)"

definition rp_CleanExpired :: "time \<Rightarrow> ReplayBuffer \<Rightarrow> ReplayBuffer" where
  "rp_CleanExpired t b = b\<lparr>rp_customers := drop_expired t (rp_ttl b) (rp_customers b),
     rp_roles := drop_expired t (rp_ttl b) (rp_roles b)\<rparr>"

definition rp_Clear :: "ReplayBuffer \<Rightarrow> ReplayBuffer" where
  "rp_Clear b = b\<lparr>rp_customers := Map.empty, rp_roles := Map.empty\<rparr>"

end
