(* ===== verification/Notify_Service.thy ===== *)
theory Notify_Service
  imports Notify_Stream Gelato_Text "HOL-Library.AList"
begin

text \<open>
  The notification service, part two: who owns an order and which events have been seen
  (\<open>notify/state.go\<close>), the connections (\<open>hub/hub.go\<close>), what each event leads to
  (\<open>notify/service.go\<close>), decoding and dispatch (\<open>events/events.go\<close>, \<open>messaging/consumer.go\<close>) and
  one connection's stream (\<open>handler/stream_handler.go\<close>).

  The service is handed a \<open>Pusher\<close>; here its handlers return the calls they make on it, in order.
  Go's maps with a bound on their size are association lists with distinct keys.
\<close>

section \<open>Owners of orders\<close>

record ownerEntry =
  ow_customerID :: string
  ow_expires :: time

record ownerMap =
  om_ttl :: int
  om_max :: nat
  om_entries :: "(string \<times> ownerEntry) list"
  om_order :: "string list"

definition newOwnerMap :: "int \<Rightarrow> nat \<Rightarrow> ownerMap" where
  "newOwnerMap ttl mx = \<lparr>om_ttl = ttl, om_max = mx, om_entries = [], om_order = []\<rparr>"

fun evict_owners :: "nat \<Rightarrow> (string \<times> ownerEntry) list \<Rightarrow> string list \<Rightarrow> (string \<times> ownerEntry) list \<times> string list" where
  "evict_owners mx es [] = (es, [])"
| "evict_owners mx es (i # is) = (if length es > mx then evict_owners mx (AList.delete i es) is else (es, i # is))"

definition om_put :: "time \<Rightarrow> string \<Rightarrow> string \<Rightarrow> ownerMap \<Rightarrow> ownerMap" where
  "om_put t orderID customerID m =
     (let order = (if map_of (om_entries m) orderID = None then om_order m @ [orderID] else om_order m);
          entries = AList.update orderID \<lparr>ow_customerID = customerID, ow_expires = t + om_ttl m\<rparr> (om_entries m);
          (es, is) = evict_owners (om_max m) entries order
      in m\<lparr>om_entries := es, om_order := is\<rparr>)"

definition om_get :: "time \<Rightarrow> string \<Rightarrow> ownerMap \<Rightarrow> string option \<times> ownerMap" where
  "om_get t orderID m = (case map_of (om_entries m) orderID of
     None \<Rightarrow> (None, m)
   | Some e \<Rightarrow>
       if \<not> t < ow_expires e then (None, m\<lparr>om_entries := AList.delete orderID (om_entries m)\<rparr>)
       else (Some (ow_customerID e), m))"

section \<open>Seen events\<close>

record seenSet =
  ss_max :: nat
  ss_ids :: "string set"
  ss_order :: "string list"

definition newSeenSet :: "nat \<Rightarrow> seenSet" where
  "newSeenSet mx = \<lparr>ss_max = mx, ss_ids = {}, ss_order = []\<rparr>"

fun evict_seen :: "nat \<Rightarrow> string set \<Rightarrow> string list \<Rightarrow> string set \<times> string list" where
  "evict_seen mx ids [] = (ids, [])"
| "evict_seen mx ids (i # is) = (if length (i # is) > mx then evict_seen mx (ids - {i}) is else (ids, i # is))"

definition ss_record :: "string \<Rightarrow> seenSet \<Rightarrow> seenSet" where
  "ss_record i s = (case evict_seen (ss_max s) (insert i (ss_ids s)) (ss_order s @ [i]) of
     (ids, order) \<Rightarrow> s\<lparr>ss_ids := ids, ss_order := order\<rparr>)"

definition ss_markNew :: "string \<Rightarrow> seenSet \<Rightarrow> bool \<times> seenSet" where
  "ss_markNew i s = (if i \<in> ss_ids s then (False, s) else (True, ss_record i s))"

section \<open>The hub\<close>

record subscriber =
  su_userID :: string
  su_role :: role
  su_ch :: "notification list"

record hub =
  hb_subs :: "(nat \<times> subscriber) list" \<comment> \<open>by the address of the subscriber\<close>
  hb_buffer :: nat

definition newHub :: "int \<Rightarrow> hub" where
  "newHub buffer = \<lparr>hb_subs = [], hb_buffer = nat (if buffer < 1 then 1 else buffer)\<rparr>"

definition Subscribe :: "nat \<Rightarrow> string \<Rightarrow> role \<Rightarrow> hub \<Rightarrow> hub" where
  "Subscribe addr userID role h = h\<lparr>hb_subs := AList.update addr \<lparr>su_userID = userID, su_role = role, su_ch = []\<rparr> (hb_subs h)\<rparr>"

definition Unsubscribe :: "nat \<Rightarrow> hub \<Rightarrow> hub" where
  "Unsubscribe addr h = h\<lparr>hb_subs := AList.delete addr (hb_subs h)\<rparr>"

text \<open>
  \<open>offer\<close>: two attempts to send, each followed by a receive that makes room. Another goroutine may
  use the channel in between: \<open>other k\<close> is what it does before the \<open>k\<close>-th operation.
\<close>

fun offer_from :: "nat \<Rightarrow> (nat \<Rightarrow> notification list \<Rightarrow> notification list) \<Rightarrow> nat \<Rightarrow> nat \<Rightarrow> notification \<Rightarrow>
    notification list \<Rightarrow> bool \<times> notification list" where
  "offer_from 0 other k cap n ch = (False, ch)"
| "offer_from (Suc attempts) other k cap n ch =
     (let ch1 = other k ch in
      if length ch1 < cap then (True, ch1 @ [n])
      else offer_from attempts other (k + 2) cap n (tl (other (k + 1) ch1)))"

definition offer :: "(nat \<Rightarrow> notification list \<Rightarrow> notification list) \<Rightarrow> nat \<Rightarrow> notification \<Rightarrow> notification list \<Rightarrow> bool \<times> notification list" where
  "offer other cap n ch = offer_from 2 other 0 cap n ch"

definition alone :: "nat \<Rightarrow> notification list \<Rightarrow> notification list" where
  "alone k ch = ch"

definition hub_push :: "notification \<Rightarrow> (subscriber \<Rightarrow> bool) \<Rightarrow> hub \<Rightarrow> nat \<times> hub" where
  "hub_push n match h =
     (length (filter (\<lambda>(a, s). match s \<and> fst (offer alone (hb_buffer h) n (su_ch s))) (hb_subs h)),
      h\<lparr>hb_subs := map (\<lambda>(a, s). (a, if match s then s\<lparr>su_ch := snd (offer alone (hb_buffer h) n (su_ch s))\<rparr> else s)) (hb_subs h)\<rparr>)"

text \<open>A call on the pusher. The hooks of the hub add the notification to the replay buffer first.\<close>

datatype push_call = PushToUser string notification | PushToRoles notification "role list"

fun hook :: "(nat \<Rightarrow> time) \<Rightarrow> push_call \<Rightarrow> ReplayBuffer \<Rightarrow> ReplayBuffer" where
  "hook clk (PushToUser u n) b = rp_Add (clk 0) u n b"
| "hook clk (PushToRoles n roles) b = rp_AddForRoles clk n roles b"

fun push_matching :: "push_call \<Rightarrow> hub \<Rightarrow> nat \<times> hub" where
  "push_matching (PushToUser u n) h = hub_push n (\<lambda>s. su_userID s = u) h"
| "push_matching (PushToRoles n roles) h = hub_push n (\<lambda>s. list_ex (\<lambda>r. su_role s = r) roles) h"

section \<open>The service\<close>

record notify_state =
  nv_owners :: ownerMap
  nv_seen :: seenSet

definition maxTrackedOrders :: nat where "maxTrackedOrders = 50000"
definition maxSeenEvents :: nat where "maxSeenEvents = 50000"

definition newNotify :: "int \<Rightarrow> notify_state" where
  "newNotify ttl = \<lparr>nv_owners = newOwnerMap ttl maxTrackedOrders, nv_seen = newSeenSet maxSeenEvents\<rparr>"

record notify_envelope =
  ev_SpecVersion :: string
  ev_ID :: string
  ev_Type :: string
  ev_Time :: time
  ev_Data :: string

record OrderPlacedData =
  pl_OrderID :: string
  pl_CustomerID :: string

record OrderQueuedData =
  qd_OrderID :: string
  qd_CustomerID :: string
  qd_QueueNumber :: string
  qd_PickupSlotID :: string
  qd_PickupAt :: time

record OrderReadyData =
  rd_OrderID :: string
  rd_QueueNumber :: string
  rd_PickupSlotID :: string
  rd_CustomerID :: string

record OrderCancelledData =
  cd_OrderID :: string
  cd_Reason :: string
  cd_CustomerID :: string

record BatchLowStockData =
  ls_BatchID :: string
  ls_FlavorID :: string
  ls_RemainingPortions :: int
  ls_ThresholdPortions :: int

record BatchExpiringData =
  be_BatchID :: string
  be_FlavorID :: string
  be_ExpiresAt :: time

type_synonym notify_step = "time \<Rightarrow> notify_state \<Rightarrow> notify_state \<times> push_call list"

text \<open>The common beginning of the handlers: an event seen before is dropped.\<close>

definition when_new :: "string \<Rightarrow> notify_step \<Rightarrow> notify_step" where
  "when_new i f = (\<lambda>t s. case ss_markNew i (nv_seen s) of
      (False, _) \<Rightarrow> (s, [])
    | (True, seen) \<Rightarrow> f t (s\<lparr>nv_seen := seen\<rparr>))"

definition learn_owner :: "string \<Rightarrow> string \<Rightarrow> push_call list \<Rightarrow> notify_step" where
  "learn_owner orderID customerID calls = (\<lambda>t s. (s\<lparr>nv_owners := om_put t orderID customerID (nv_owners s)\<rparr>, calls))"

definition toOrderOwner :: "string \<Rightarrow> string \<Rightarrow> notification \<Rightarrow> notify_step" where
  "toOrderOwner orderID customerID n = (\<lambda>t s.
     if customerID = uuid_Nil then
       (case om_get t orderID (nv_owners s) of
          (None, m) \<Rightarrow> (s\<lparr>nv_owners := m\<rparr>, [])
        | (Some owner, m) \<Rightarrow> (s\<lparr>nv_owners := m\<rparr>, [PushToUser owner n]))
     else (s, [PushToUser customerID n]))"

definition OrderPlaced :: "notify_envelope \<Rightarrow> OrderPlacedData \<Rightarrow> notify_step" where
  "OrderPlaced env d = when_new (ev_ID env) (learn_owner (pl_OrderID d) (pl_CustomerID d) [])"

definition confirmed_note :: "notify_envelope \<Rightarrow> OrderQueuedData \<Rightarrow> notification" where
  "confirmed_note env d = \<lparr>n_ID = ev_ID env, n_Type = ''order.confirmed'', n_Message = ''Your gelato order is confirmed.'',
     n_OccurredAt = ev_Time env, n_Data = ConfirmedData (qd_OrderID d) (qd_QueueNumber d) (qd_PickupAt d) (qd_PickupSlotID d)\<rparr>"

definition OrderQueued :: "notify_envelope \<Rightarrow> OrderQueuedData \<Rightarrow> notify_step" where
  "OrderQueued env d = when_new (ev_ID env)
     (learn_owner (qd_OrderID d) (qd_CustomerID d) [PushToUser (qd_CustomerID d) (confirmed_note env d)])"

definition ready_note :: "notify_envelope \<Rightarrow> OrderReadyData \<Rightarrow> notification" where
  "ready_note env d = \<lparr>n_ID = ev_ID env, n_Type = ''order.ready'', n_Message = ''Your gelato order is ready for pickup!'',
     n_OccurredAt = ev_Time env, n_Data = ReadyData (rd_OrderID d) (rd_QueueNumber d) (rd_PickupSlotID d)\<rparr>"

definition OrderReady :: "notify_envelope \<Rightarrow> OrderReadyData \<Rightarrow> notify_step" where
  "OrderReady env d = when_new (ev_ID env) (toOrderOwner (rd_OrderID d) (rd_CustomerID d) (ready_note env d))"

definition cancelled_note :: "notify_envelope \<Rightarrow> OrderCancelledData \<Rightarrow> notification" where
  "cancelled_note env d = \<lparr>n_ID = ev_ID env, n_Type = ''order.cancelled'', n_Message = ''Your gelato order was cancelled.'',
     n_OccurredAt = ev_Time env, n_Data = CancelledData (cd_OrderID d) (cd_Reason d)\<rparr>"

definition OrderCancelled :: "notify_envelope \<Rightarrow> OrderCancelledData \<Rightarrow> notify_step" where
  "OrderCancelled env d = when_new (ev_ID env) (toOrderOwner (cd_OrderID d) (cd_CustomerID d) (cancelled_note env d))"

definition low_stock_note :: "notify_envelope \<Rightarrow> BatchLowStockData \<Rightarrow> notification" where
  "low_stock_note env d = \<lparr>n_ID = ev_ID env, n_Type = ''inventory.low_stock'', n_Message = ''A gelato batch is running low.'',
     n_OccurredAt = ev_Time env, n_Data = LowStockData (ls_BatchID d) (ls_FlavorID d) (ls_RemainingPortions d) (ls_ThresholdPortions d)\<rparr>"

definition BatchLowStock :: "notify_envelope \<Rightarrow> BatchLowStockData \<Rightarrow> notify_step" where
  "BatchLowStock env d = when_new (ev_ID env) (\<lambda>t s. (s, [PushToRoles (low_stock_note env d) [RoleStaff, RoleManager]]))"

definition expiring_note :: "notify_envelope \<Rightarrow> BatchExpiringData \<Rightarrow> notification" where
  "expiring_note env d = \<lparr>n_ID = ev_ID env, n_Type = ''inventory.expiring'', n_Message = ''A gelato batch is about to expire.'',
     n_OccurredAt = ev_Time env, n_Data = ExpiringData (be_BatchID d) (be_FlavorID d) (be_ExpiresAt d)\<rparr>"

definition BatchExpiring :: "notify_envelope \<Rightarrow> BatchExpiringData \<Rightarrow> notify_step" where
  "BatchExpiring env d = when_new (ev_ID env) (\<lambda>t s. (s, [PushToRoles (expiring_note env d) [RoleStaff, RoleManager]]))"

section \<open>Messages\<close>

text \<open>Decoding of JSON: the envelope and the payloads, \<open>None\<close> when a text does not decode.\<close>

record notify_codec =
  k_Envelope :: "string \<Rightarrow> notify_envelope option"
  k_Placed :: "string \<Rightarrow> OrderPlacedData option"
  k_Queued :: "string \<Rightarrow> OrderQueuedData option"
  k_Ready :: "string \<Rightarrow> OrderReadyData option"
  k_Cancelled :: "string \<Rightarrow> OrderCancelledData option"
  k_LowStock :: "string \<Rightarrow> BatchLowStockData option"
  k_Expiring :: "string \<Rightarrow> BatchExpiringData option"

definition notify_TypeOrderPlaced :: string where "notify_TypeOrderPlaced = ''com.gelatoflow.order.placed.v1''"
definition notify_TypeOrderQueued :: string where "notify_TypeOrderQueued = ''com.gelatoflow.fulfillment.order-queued.v1''"
definition notify_TypeOrderReady :: string where "notify_TypeOrderReady = ''com.gelatoflow.fulfillment.order-ready.v1''"
definition notify_TypeOrderCancelled :: string where "notify_TypeOrderCancelled = ''com.gelatoflow.order.cancelled.v1''"
definition notify_TypeBatchLowStock :: string where "notify_TypeBatchLowStock = ''com.gelatoflow.inventory.batch-low-stock.v1''"
definition notify_TypeBatchExpiring :: string where "notify_TypeBatchExpiring = ''com.gelatoflow.inventory.batch-expiring.v1''"

definition notify_Parse :: "notify_codec \<Rightarrow> string \<Rightarrow> notify_envelope option" where
  "notify_Parse c body = (case k_Envelope c body of
     None \<Rightarrow> None
   | Some e \<Rightarrow>
       if ev_SpecVersion e \<noteq> ''1.0'' then None
       else if ev_ID e = uuid_Nil then None
       else if ev_Type e = '''' \<or> length (ev_Data e) = 0 then None
       else Some e)"

text \<open>\<open>Dispatch\<close>: the handler to run, or \<open>None\<close> for an error; \<open>retry\<close> is always false.\<close>

definition decode :: "(string \<Rightarrow> 'd option) \<Rightarrow> string \<Rightarrow> ('d \<Rightarrow> bool) \<Rightarrow> ('d \<Rightarrow> notify_step) \<Rightarrow> notify_step option" where
  "decode dec z good f = (case dec z of None \<Rightarrow> None | Some d \<Rightarrow> if good d then Some (f d) else None)"

definition notify_Dispatch :: "notify_codec \<Rightarrow> string \<Rightarrow> notify_step option" where
  "notify_Dispatch c body = (case notify_Parse c body of
     None \<Rightarrow> None
   | Some env \<Rightarrow>
       let ty = ev_Type env; z = ev_Data env in
       if ty = notify_TypeOrderPlaced
       then decode (k_Placed c) z (\<lambda>d. \<not> (pl_OrderID d = uuid_Nil \<or> pl_CustomerID d = uuid_Nil)) (OrderPlaced env)
       else if ty = notify_TypeOrderQueued
       then decode (k_Queued c) z (\<lambda>d. \<not> (qd_OrderID d = uuid_Nil \<or> qd_CustomerID d = uuid_Nil)) (OrderQueued env)
       else if ty = notify_TypeOrderReady
       then decode (k_Ready c) z (\<lambda>d. rd_OrderID d \<noteq> uuid_Nil) (OrderReady env)
       else if ty = notify_TypeOrderCancelled
       then decode (k_Cancelled c) z (\<lambda>d. cd_OrderID d \<noteq> uuid_Nil) (OrderCancelled env)
       else if ty = notify_TypeBatchLowStock
       then decode (k_LowStock c) z (\<lambda>_. True) (BatchLowStock env)
       else if ty = notify_TypeBatchExpiring
       then decode (k_Expiring c) z (\<lambda>_. True) (BatchExpiring env)
       else Some (\<lambda>t s. (s, [])))"

datatype notify_action = AckOne | NackOne bool \<comment> \<open>requeue?\<close>

definition HandleDelivery :: "notify_codec \<Rightarrow> string \<Rightarrow> time \<Rightarrow> notify_state \<Rightarrow> notify_action \<times> notify_state \<times> push_call list" where
  "HandleDelivery c body t s = (case notify_Dispatch c body of
     None \<Rightarrow> (NackOne False, s, [])
   | Some f \<Rightarrow> (case f t s of (s', calls) \<Rightarrow> (AckOne, s', calls)))"

section \<open>Access\<close>

record notify_claims =
  cl_Role :: role
  cl_Subject :: string
  cl_IssuedAt :: "time option"
  cl_ExpiresAt :: "time option"

definition role_Valid :: "role \<Rightarrow> bool" where
  "role_Valid r \<longleftrightarrow> r = RoleCustomer \<or> r = RoleStaff \<or> r = RoleManager"

text \<open>
  Code outside the repository: \<open>jwt\<close> is \<open>jwt.ParseWithClaims\<close> with the options of the verifier (\<open>None\<close>
  for an error or an invalid token), \<open>uuid\<close> is \<open>uuid.Parse\<close>.
\<close>

definition verifier_Parse :: "(string \<Rightarrow> notify_claims option) \<Rightarrow> (string \<Rightarrow> string option) \<Rightarrow> string \<Rightarrow> notify_claims option" where
  "verifier_Parse jwt uuid raw = (case jwt raw of
     None \<Rightarrow> None
   | Some claims \<Rightarrow>
       if cl_IssuedAt claims = None \<or> cl_ExpiresAt claims = None then None
       else if uuid (cl_Subject claims) = None \<or> \<not> role_Valid (cl_Role claims) then None
       else Some claims)"

definition claims_UserID :: "(string \<Rightarrow> string option) \<Rightarrow> notify_claims \<Rightarrow> string" where
  "claims_UserID uuid claims = (case uuid (cl_Subject claims) of Some i \<Rightarrow> i | None \<Rightarrow> uuid_Nil)"

definition authenticate :: "(string \<Rightarrow> notify_claims option) \<Rightarrow> (string \<Rightarrow> string option) \<Rightarrow> string list \<Rightarrow> notify_claims option" where
  "authenticate jwt uuid values =
     (if length values \<noteq> 1 then None
      else case cut_at (CHR '' '') (hd values) of
        None \<Rightarrow> None
      | Some (scheme, token) \<Rightarrow>
          if \<not> EqualFold scheme ''Bearer'' \<or> TrimSpace token = '''' then None
          else verifier_Parse jwt uuid (TrimSpace token))"

section \<open>A stream\<close>

text \<open>
  The memory the goroutines share: the hub and the replay buffer, which the handler may lack. What the
  other goroutines do to it, one atomic action at a time: the consumer runs the hook of a call and
  then hands the call to the connections, the cleaner removes expired entries, and other connections
  come and go.
\<close>

record notify_world =
  nw_hub :: hub
  nw_buffer :: "ReplayBuffer option"

datatype world_act = Hooked "nat \<Rightarrow> time" push_call | Handed push_call | CleanedAt time | Opened nat string role | Closed nat

fun act :: "world_act \<Rightarrow> notify_world \<Rightarrow> notify_world" where
  "act (Hooked clk call) w = w\<lparr>nw_buffer := map_option (hook clk call) (nw_buffer w)\<rparr>"
| "act (Handed call) w = w\<lparr>nw_hub := snd (push_matching call (nw_hub w))\<rparr>"
| "act (CleanedAt t) w = w\<lparr>nw_buffer := map_option (rp_CleanExpired t) (nw_buffer w)\<rparr>"
| "act (Opened addr userID role) w = w\<lparr>nw_hub := Subscribe addr userID role (nw_hub w)\<rparr>"
| "act (Closed addr) w = w\<lparr>nw_hub := Unsubscribe addr (nw_hub w)\<rparr>"

text \<open>The channel of a connection, and a receive from it.\<close>

definition channel :: "nat \<Rightarrow> hub \<Rightarrow> notification list" where
  "channel addr h = (case map_of (hb_subs h) addr of None \<Rightarrow> [] | Some s \<Rightarrow> su_ch s)"

definition receive :: "nat \<Rightarrow> hub \<Rightarrow> hub" where
  "receive addr h = h\<lparr>hb_subs := map (\<lambda>(a, s). (a, if a = addr then s\<lparr>su_ch := tl (su_ch s)\<rparr> else s)) (hb_subs h)\<rparr>"

text \<open>
  The select loop. Its schedule: an action of another goroutine, a receive from the channel (not ready
  when that is empty), a tick, the end of the token, the end of the request. The flag tells whether
  the write that follows succeeds. Every return cancels the subscription; a schedule that ends without
  one leaves the connection open.
\<close>

datatype stream_event = Others world_act | Received bool | Heartbeat bool | Expired | Disconnected

datatype frame = Connected | Frame notification | KeepAlive | TokenExpired

definition cancel :: "nat \<Rightarrow> notify_world \<Rightarrow> notify_world" where
  "cancel addr w = w\<lparr>nw_hub := Unsubscribe addr (nw_hub w)\<rparr>"

fun stream_loop :: "nat \<Rightarrow> string set \<Rightarrow> stream_event list \<Rightarrow> notify_world \<Rightarrow> frame list \<times> notify_world" where
  "stream_loop addr replayed [] w = ([], w)"
| "stream_loop addr replayed (Others a # es) w = stream_loop addr replayed es (act a w)"
| "stream_loop addr replayed (Received written # es) w =
     (case channel addr (nw_hub w) of
        [] \<Rightarrow> stream_loop addr replayed es w
      | n # _ \<Rightarrow>
          let w1 = w\<lparr>nw_hub := receive addr (nw_hub w)\<rparr> in
          if n_ID n \<in> replayed then stream_loop addr replayed es w1
          else if written then (case stream_loop addr replayed es w1 of (fs, w') \<Rightarrow> (Frame n # fs, w'))
          else ([], cancel addr w1))"
| "stream_loop addr replayed (Heartbeat written # es) w =
     (if written then (case stream_loop addr replayed es w of (fs, w') \<Rightarrow> (KeepAlive # fs, w')) else ([], cancel addr w))"
| "stream_loop addr replayed (Expired # es) w = ([TokenExpired], cancel addr w)"
| "stream_loop addr replayed (Disconnected # es) w = ([], cancel addr w)"

text \<open>
  The id to resume from, of the four places where a client may put it: \<open>None\<close> when it is not a
  UUID, in which case nothing is replayed.
\<close>

record stream_request =
  rq_Authorization :: "string list"
  rq_LastEventID :: string \<comment> \<open>header\<close>
  rq_last_event_id :: string \<comment> \<open>query\<close>
  rq_query_LastEventID :: string
  rq_lastEventId :: string

definition lastEventIDStr :: "stream_request \<Rightarrow> string" where
  "lastEventIDStr r =
     (let z = rq_LastEventID r;
          z = (if z = '''' then rq_last_event_id r else z);
          z = (if z = '''' then rq_query_LastEventID r else z)
      in if z = '''' then rq_lastEventId r else z)"

definition resume_from :: "(string \<Rightarrow> string option) \<Rightarrow> string \<Rightarrow> string option" where
  "resume_from uuid z = (if z = '''' then Some uuid_Nil else uuid (TrimSpace z))"

text \<open>
  The handler: an error answer, or the frames written. \<open>flusher\<close> tells whether the response can be
  flushed, \<open>lost\<close> is the number of the replayed frame whose write fails, if one does, and \<open>addr\<close> is the
  address of the new subscriber. The connection is registered first; the other goroutines do \<open>mid\<close>
  before the buffer is read at time \<open>t\<close>, and \<open>during\<close> while the missed notifications are written.
\<close>

datatype stream_answer = Refused nat string | Streamed "frame list"

definition stream :: "(string \<Rightarrow> notify_claims option) \<Rightarrow> (string \<Rightarrow> string option) \<Rightarrow> bool \<Rightarrow> nat option \<Rightarrow> stream_request \<Rightarrow>
    nat \<Rightarrow> world_act list \<Rightarrow> time \<Rightarrow> world_act list \<Rightarrow> stream_event list \<Rightarrow> notify_world \<Rightarrow> stream_answer \<times> notify_world" where
  "stream jwt uuid flusher lost r addr mid t during es w =
     (case authenticate jwt uuid (rq_Authorization r) of
        None \<Rightarrow> (Refused 401 ''UNAUTHORIZED'', w)
      | Some claims \<Rightarrow>
          if \<not> flusher then (Refused 500 ''INTERNAL_ERROR'', w)
          else
            let w1 = fold act mid (w\<lparr>nw_hub := Subscribe addr (claims_UserID uuid claims) (cl_Role claims) (nw_hub w)\<rparr>);
                missed = (case (resume_from uuid (lastEventIDStr r), nw_buffer w1) of
                  (Some lastEventID, Some b) \<Rightarrow> rp_ReplayFor t (claims_UserID uuid claims) (cl_Role claims) lastEventID b
                | _ \<Rightarrow> []);
                w2 = fold act during w1
            in (case lost of
                  Some k \<Rightarrow>
                    if k < length missed then (Streamed (Connected # map Frame (take k missed)), cancel addr w2)
                    else (case stream_loop addr (n_ID ` set missed) es w2 of
                            (fs, w') \<Rightarrow> (Streamed (Connected # map Frame missed @ fs), w'))
                | None \<Rightarrow>
                    (case stream_loop addr (n_ID ` set missed) es w2 of
                       (fs, w') \<Rightarrow> (Streamed (Connected # map Frame missed @ fs), w'))))"

end
