(* ===== verification/Notify_Log.thy ===== *)
theory Notify_Log
  imports Notify_Service
begin

text \<open>
  The replay buffer as a log: its abstract specification keeps, for every customer and role, the
  notifications in the order they were dispatched, and the ring buffers implement it. On top of it,
  what a read of the buffer gives in the middle of the traffic, and how it joins the live calls.
\<close>

section \<open>The specification\<close>

record log =
  lg_customers :: "string \<Rightarrow> bufferedItem list"
  lg_roles :: "role \<Rightarrow> bufferedItem list"

definition item_id :: "bufferedItem \<Rightarrow> string" where
  "item_id it = n_ID (bi_notification it)"

definition log_add :: "nat \<Rightarrow> bufferedItem \<Rightarrow> bufferedItem list \<Rightarrow> bufferedItem list" where
  "log_add cap it xs = (if item_id it \<in> item_id ` set xs then xs else latest cap (xs @ [it]))"

definition unexpired :: "time \<Rightarrow> int \<Rightarrow> bufferedItem list \<Rightarrow> bufferedItem list" where
  "unexpired t ttl xs = filter (\<lambda>x. time_Sub t (bi_addedAt x) \<le> ttl) xs"

definition log_clean :: "time \<Rightarrow> int \<Rightarrow> bufferedItem list \<Rightarrow> bufferedItem list" where
  "log_clean t ttl xs = (if unexpired t ttl xs = [] then [] else xs)"

datatype buffer_op = AddOp time string notification | RolesOp "nat \<Rightarrow> time" notification "role list" | CleanOp time | ClearOp

fun log_roles :: "nat \<Rightarrow> (nat \<Rightarrow> time) \<Rightarrow> nat \<Rightarrow> notification \<Rightarrow> role list \<Rightarrow> (role \<Rightarrow> bufferedItem list) \<Rightarrow> role \<Rightarrow> bufferedItem list" where
  "log_roles cap clk k n [] m = m"
| "log_roles cap clk k n (r # rs) m =
     log_roles cap clk (if n_ID n \<in> item_id ` set (m r) then k else Suc k) n rs
       (m(r := log_add cap \<lparr>bi_notification = n, bi_addedAt = clk k\<rparr> (m r)))"

fun log_step :: "nat \<Rightarrow> int \<Rightarrow> buffer_op \<Rightarrow> log \<Rightarrow> log" where
  "log_step cap ttl (AddOp t u n) l =
     (if u = uuid_Nil \<or> n_ID n = uuid_Nil then l
      else l\<lparr>lg_customers := (lg_customers l)(u := log_add cap \<lparr>bi_notification = n, bi_addedAt = t\<rparr> (lg_customers l u))\<rparr>)"
| "log_step cap ttl (RolesOp clk n roles) l =
     (if n_ID n = uuid_Nil then l else l\<lparr>lg_roles := log_roles cap clk 0 n roles (lg_roles l)\<rparr>)"
| "log_step cap ttl (CleanOp t) l = \<lparr>lg_customers = log_clean t ttl \<circ> lg_customers l, lg_roles = log_clean t ttl \<circ> lg_roles l\<rparr>"
| "log_step cap ttl ClearOp l = \<lparr>lg_customers = (\<lambda>_. []), lg_roles = (\<lambda>_. [])\<rparr>"

definition log_start :: log where
  "log_start = \<lparr>lg_customers = (\<lambda>_. []), lg_roles = (\<lambda>_. [])\<rparr>"

definition log_replay :: "time \<Rightarrow> int \<Rightarrow> string \<Rightarrow> role \<Rightarrow> string \<Rightarrow> log \<Rightarrow> notification list" where
  "log_replay t ttl u r lastEventID l =
     since lastEventID (map bi_notification (if r = '''' then unexpired t ttl (lg_customers l u)
       else sort_key bi_addedAt (unexpired t ttl (lg_customers l u) @ unexpired t ttl (lg_roles l r))))"

section \<open>The ring buffers implement it\<close>

fun buffer_step :: "buffer_op \<Rightarrow> ReplayBuffer \<Rightarrow> ReplayBuffer" where
  "buffer_step (AddOp t u n) b = rp_Add t u n b"
| "buffer_step (RolesOp clk n roles) b = rp_AddForRoles clk n roles b"
| "buffer_step (CleanOp t) b = rp_CleanExpired t b"
| "buffer_step ClearOp b = rp_Clear b"

definition ring_list :: "('k \<rightharpoonup> customerRingBuffer) \<Rightarrow> 'k \<Rightarrow> bufferedItem list" where
  "ring_list m k = (case m k of None \<Rightarrow> [] | Some rb \<Rightarrow> rb_list rb)"

definition buffer_log :: "ReplayBuffer \<Rightarrow> log" where
  "buffer_log b = \<lparr>lg_customers = ring_list (rp_customers b), lg_roles = ring_list (rp_roles b)\<rparr>"

definition rings_ok :: "int \<Rightarrow> ('k \<rightharpoonup> customerRingBuffer) \<Rightarrow> bool" where
  "rings_ok mx m \<longleftrightarrow> 0 < mx \<and> (\<forall>k rb. m k = Some rb \<longrightarrow> rb_ok rb \<and> rb_cap rb = nat mx)"

definition buffer_ok :: "ReplayBuffer \<Rightarrow> bool" where
  "buffer_ok b \<longleftrightarrow> rings_ok (rp_maxEvents b) (rp_customers b) \<and> rings_ok (rp_maxEvents b) (rp_roles b)"

lemma rings_ok_of: "rings_ok mx m \<Longrightarrow> rb_ok (ring_of mx m k) \<and> rb_cap (ring_of mx m k) = nat mx \<and> rb_list (ring_of mx m k) = ring_list m k"
proof (cases "m k")
  case None
  then show "rings_ok mx m \<Longrightarrow> ?thesis" by (simp add: rings_ok_def ring_of_def ring_list_def) (simp add: newCustomerRingBuffer_def)
qed (simp add: rings_ok_def ring_of_def ring_list_def)

lemma ring_list_upd: "ring_list (m(k \<mapsto> rb)) = (ring_list m)(k := rb_list rb)"
  by (auto simp: ring_list_def)

lemma rings_ok_upd: "rings_ok mx m \<Longrightarrow> rb_ok rb \<Longrightarrow> rb_cap rb = nat mx \<Longrightarrow> rings_ok mx (m(k \<mapsto> rb))"
  by (auto simp: rings_ok_def)

lemma contains_item: "rb_contains i rb \<longleftrightarrow> i \<in> item_id ` set (rb_list rb)"
  by (auto simp: rb_contains_list item_id_def)

text \<open>One addition, to the ring of any customer or role.\<close>

definition ring_add :: "int \<Rightarrow> notification \<Rightarrow> time \<Rightarrow> ('k \<rightharpoonup> customerRingBuffer) \<Rightarrow> 'k \<Rightarrow> customerRingBuffer" where
  "ring_add mx n t m k = (let rb = ring_of mx m k in if rb_contains (n_ID n) rb then rb else rb_add n t rb)"

lemma ring_add_ok:
  assumes "rings_ok mx m"
  shows "rings_ok mx (m(k \<mapsto> ring_add mx n t m k))"
    "rb_list (ring_add mx n t m k) = log_add (nat mx) \<lparr>bi_notification = n, bi_addedAt = t\<rparr> (ring_list m k)"
  using rings_ok_of [OF assms, of k] assms ring.ok_push ring.contents_push
  by (auto simp: ring_add_def rb_add_def log_add_def contains_item Let_def item_id_def intro!: rings_ok_upd)

lemma rp_Add_ring: "rp_Add t u n b = (if u = uuid_Nil \<or> n_ID n = uuid_Nil then b
    else b\<lparr>rp_customers := (rp_customers b)(u \<mapsto> ring_add (rp_maxEvents b) n t (rp_customers b) u)\<rparr>)"
  by (simp add: rp_Add_def ring_add_def Let_def)

lemma add_roles_log:
  assumes "rings_ok (rp_maxEvents b) (rp_roles b)"
  shows "\<exists>m. add_roles clk k n rs b = b\<lparr>rp_roles := m\<rparr> \<and> rings_ok (rp_maxEvents b) m \<and>
    ring_list m = log_roles (nat (rp_maxEvents b)) clk k n rs (ring_list (rp_roles b))"
  using assms
proof (induction rs arbitrary: b k)
  case Nil
  then show ?case by (intro exI [of _ "rp_roles b"]) simp
next
  case (Cons r rs)
  let ?c = "rb_contains (n_ID n) (ring_of (rp_maxEvents b) (rp_roles b) r)"
  let ?b = "b\<lparr>rp_roles := (rp_roles b)(r \<mapsto> ring_add (rp_maxEvents b) n (clk k) (rp_roles b) r)\<rparr>"
  have step: "add_roles clk k n (r # rs) b = add_roles clk (if ?c then k else Suc k) n rs ?b"
    by (simp add: ring_add_def Let_def)
  have c: "?c \<longleftrightarrow> n_ID n \<in> item_id ` set (ring_list (rp_roles b) r)"
    using rings_ok_of [OF Cons.prems, of r] by (simp add: contains_item)
  have "rings_ok (rp_maxEvents ?b) (rp_roles ?b)" using ring_add_ok(1) [OF Cons.prems] by simp
  from Cons.IH [OF this, of "if ?c then k else Suc k"] obtain m where
    m: "add_roles clk (if ?c then k else Suc k) n rs ?b = ?b\<lparr>rp_roles := m\<rparr>" "rings_ok (rp_maxEvents b) m"
      "ring_list m = log_roles (nat (rp_maxEvents b)) clk (if ?c then k else Suc k) n rs (ring_list (rp_roles ?b))"
    by (simp del: fun_upd_apply) blast
  have "ring_list (rp_roles ?b) = (ring_list (rp_roles b))(r := log_add (nat (rp_maxEvents b)) \<lparr>bi_notification = n, bi_addedAt = clk k\<rparr> (ring_list (rp_roles b) r))"
    using ring_add_ok(2) [OF Cons.prems] by (simp add: ring_list_upd)
  then show ?case unfolding step using m c by (intro exI [of _ m]) simp
qed

lemma drop_expired_log: "ring_list (drop_expired t ttl m) = log_clean t ttl \<circ> ring_list m"
proof
  fix k show "ring_list (drop_expired t ttl m) k = (log_clean t ttl \<circ> ring_list m) k"
  proof (cases "m k")
    case (Some rb)
    then show ?thesis by (simp add: ring_list_def drop_expired_def log_clean_def unexpired_def rb_hasValid_list rb_valid_list)
  qed (simp add: ring_list_def drop_expired_def log_clean_def unexpired_def)
qed

lemma drop_expired_ok: "rings_ok mx m \<Longrightarrow> rings_ok mx (drop_expired t ttl m)"
  by (auto simp: rings_ok_def drop_expired_def split: option.splits if_splits)

lemma buffer_step_log:
  assumes "buffer_ok b"
  shows "buffer_ok (buffer_step q b) \<and> rp_maxEvents (buffer_step q b) = rp_maxEvents b \<and> rp_ttl (buffer_step q b) = rp_ttl b \<and>
    buffer_log (buffer_step q b) = log_step (nat (rp_maxEvents b)) (rp_ttl b) q (buffer_log b)"
proof (cases q)
  case (AddOp t u n)
  then show ?thesis
    using assms ring_add_ok [of "rp_maxEvents b" "rp_customers b"]
    by (simp add: rp_Add_ring buffer_ok_def buffer_log_def ring_list_upd)
next
  case (RolesOp clk n roles)
  then show ?thesis
    using assms add_roles_log [of b clk 0 n roles] by (auto simp: rp_AddForRoles_def buffer_ok_def buffer_log_def)
next
  case (CleanOp t)
  then show ?thesis
    using assms by (simp add: rp_CleanExpired_def buffer_ok_def buffer_log_def drop_expired_log drop_expired_ok)
next
  case ClearOp
  have "ring_list Map.empty = (\<lambda>_. [])" for m :: "'k \<rightharpoonup> customerRingBuffer" by (auto simp: ring_list_def)
  with ClearOp show ?thesis using assms by (auto simp: rp_Clear_def buffer_ok_def buffer_log_def rings_ok_def ring_list_def)
qed

lemma buffer_fold_log:
  "buffer_ok b \<Longrightarrow> buffer_ok (fold buffer_step ops b) \<and> rp_maxEvents (fold buffer_step ops b) = rp_maxEvents b \<and>
     rp_ttl (fold buffer_step ops b) = rp_ttl b \<and>
     buffer_log (fold buffer_step ops b) = fold (log_step (nat (rp_maxEvents b)) (rp_ttl b)) ops (buffer_log b)"
proof (induction ops arbitrary: b)
  case (Cons q ops)
  then show ?case using buffer_step_log [OF Cons.prems, of q] by simp
qed simp

lemma new_buffer:
  "buffer_ok (NewReplayBuffer mx ttl)" "buffer_log (NewReplayBuffer mx ttl) = log_start"
  by (auto simp: buffer_ok_def buffer_log_def log_start_def rings_ok_def NewReplayBuffer_def DefaultMaxEventsPerCustomer_def ring_list_def)

text \<open>Reads. A customer's entries are in the order of the clock.\<close>

lemma valid_unexpired: "(case m k of None \<Rightarrow> [] | Some rb \<Rightarrow> rb_valid t ttl rb) = unexpired t ttl (ring_list m k)"
  by (cases "m k") (simp_all add: ring_list_def unexpired_def rb_valid_list)

lemma replay_log:
  assumes "sorted (map bi_addedAt (lg_customers (buffer_log b) u))"
  shows "rp_ReplayFor t u r lastEventID b = log_replay t (rp_ttl b) u r lastEventID (buffer_log b)"
proof -
  let ?mine = "unexpired t (rp_ttl b) (ring_list (rp_customers b) u)"
  have s: "sort_key bi_addedAt ?mine = ?mine"
    using assms by (intro sort_key_id_if_sorted) (simp add: buffer_log_def unexpired_def sorted_filter)
  show ?thesis
  proof (cases "rp_roles b r")
    case None
    then show ?thesis
      using s by (simp add: rp_ReplayFor_def log_replay_def valid_unexpired buffer_log_def Let_def) (simp add: ring_list_def unexpired_def)
  next
    case (Some rb)
    then have "rb_valid t (rp_ttl b) rb = unexpired t (rp_ttl b) (ring_list (rp_roles b) r)"
      using valid_unexpired [of t "rp_ttl b" "rp_roles b" r] by simp
    with Some show ?thesis
      by (simp add: rp_ReplayFor_def log_replay_def valid_unexpired buffer_log_def Let_def)
  qed
qed

section \<open>Traffic\<close>

text \<open>What happens to the buffer: pushes, one after the other, and the cleaning of every minute.\<close>

datatype traffic = Pushed "nat \<Rightarrow> time" push_call | Cleaned time

fun traffic_op :: "traffic \<Rightarrow> ReplayBuffer \<Rightarrow> ReplayBuffer" where
  "traffic_op (Pushed clk call) b = hook clk call b"
| "traffic_op (Cleaned t) b = rp_CleanExpired t b"

fun to_user :: "string \<Rightarrow> traffic \<Rightarrow> bool" where
  "to_user u (Pushed clk (PushToUser v n)) \<longleftrightarrow> v = u" | "to_user u _ \<longleftrightarrow> False"

fun to_role :: "role \<Rightarrow> traffic \<Rightarrow> bool" where
  "to_role r (Pushed clk (PushToRoles n roles)) \<longleftrightarrow> r \<in> set roles" | "to_role r _ \<longleftrightarrow> False"

fun note_of :: "push_call \<Rightarrow> notification" where
  "note_of (PushToUser u n) = n" | "note_of (PushToRoles n roles) = n"

fun note_list :: "traffic list \<Rightarrow> notification list" where
  "note_list [] = []" | "note_list (Pushed clk call # xs) = note_of call # note_list xs" | "note_list (Cleaned t # xs) = note_list xs"

lemma note_list_append [simp]: "note_list (xs @ ys) = note_list xs @ note_list ys"
  by (induction xs rule: note_list.induct) simp_all

definition addressed :: "string \<Rightarrow> role \<Rightarrow> traffic list \<Rightarrow> notification list" where
  "addressed u r xs = note_list (filter (\<lambda>x. to_user u x \<or> to_role r x) xs)"

lemma addressed_append [simp]: "addressed u r (xs @ ys) = addressed u r xs @ addressed u r ys"
  by (simp add: addressed_def)

fun earlier :: "traffic \<Rightarrow> traffic \<Rightarrow> bool" where
  "earlier (Pushed c _) (Pushed d _) \<longleftrightarrow> (\<forall>k j. c k < d j)" | "earlier _ _ \<longleftrightarrow> True"

text \<open>What was added is young enough at time \<open>t\<close>; the buffer was cleaned before.\<close>

fun fresh_at :: "time \<Rightarrow> int \<Rightarrow> traffic \<Rightarrow> bool" where
  "fresh_at t ttl (Pushed c _) \<longleftrightarrow> (\<forall>k. time_Sub t (c k) \<le> ttl)" | "fresh_at t ttl (Cleaned t') \<longleftrightarrow> t' \<le> t"

fun stored_as :: "traffic \<Rightarrow> bufferedItem \<Rightarrow> bool" where
  "stored_as (Pushed c call) it \<longleftrightarrow> bi_notification it = note_of call \<and> (\<exists>k. bi_addedAt it = c k)"
| "stored_as (Cleaned t) it \<longleftrightarrow> False"

lemma stored_notes: "list_all2 stored_as xs its \<Longrightarrow> map bi_notification its = note_list xs"
proof (induction rule: list_all2_induct)
  case (Cons x xs it its)
  then show ?case by (cases x) simp_all
qed simp

lemma stored_ordered:
  assumes "list_all2 stored_as xs its" "sorted_wrt earlier xs"
  shows "sorted_wrt (<) (map bi_addedAt its)"
proof -
  have len: "length xs = length its" using assms(1) by (rule list_all2_lengthD)
  have "bi_addedAt (its ! i) < bi_addedAt (its ! j)" if ij: "i < j" "j < length its" for i j
  proof -
    have "stored_as (xs ! i) (its ! i)" "stored_as (xs ! j) (its ! j)" using assms(1) ij len by (auto simp: list_all2_conv_all_nth)
    moreover have "earlier (xs ! i) (xs ! j)" using assms(2) ij len by (auto simp: sorted_wrt_iff_nth_less)
    ultimately show ?thesis by (cases "xs ! i"; cases "xs ! j") auto
  qed
  then show ?thesis by (simp add: sorted_wrt_iff_nth_less)
qed

lemma sub_mono: "t' \<le> t \<Longrightarrow> time_Sub t' a \<le> time_Sub t a"
  by (auto simp: time_Sub_def)

lemma stored_unexpired:
  assumes "list_all2 stored_as xs its" "\<forall>x\<in>set xs. fresh_at t ttl x" "t' \<le> t"
  shows "unexpired t' ttl its = its"
proof -
  have "time_Sub t' (bi_addedAt it) \<le> ttl" if mem: "it \<in> set its" for it
  proof -
    obtain i where "i < length its" "it = its ! i" using mem by (auto simp: in_set_conv_nth)
    then have "stored_as (xs ! i) it" "fresh_at t ttl (xs ! i)"
      using assms by (auto simp: list_all2_conv_all_nth)
    then have "time_Sub t (bi_addedAt it) \<le> ttl" by (cases "xs ! i") auto
    then show ?thesis using sub_mono [OF assms(3), of "bi_addedAt it"] by simp
  qed
  then show ?thesis by (simp add: unexpired_def filter_id_conv)
qed

text \<open>Adding to the roles adds once to each of them.\<close>

lemma log_add_known: "item_id it \<in> item_id ` set xs \<Longrightarrow> log_add cap it xs = xs"
  by (simp add: log_add_def)

lemma log_add_has: "0 < cap \<Longrightarrow> item_id it \<in> item_id ` set (log_add cap it xs)"
  by (auto simp: log_add_def latest_def)

lemma log_roles_known: "n_ID n \<in> item_id ` set (m r) \<Longrightarrow> log_roles cap clk k n rs m r = m r"
proof (induction rs arbitrary: m k)
  case (Cons q rs)
  let ?m = "m(q := log_add cap \<lparr>bi_notification = n, bi_addedAt = clk k\<rparr> (m q))"
  have "?m r = m r" using Cons.prems by (auto simp: log_add_known item_id_def)
  then show ?case using Cons.IH [of ?m k] Cons.IH [of ?m "Suc k"] Cons.prems by (simp del: fun_upd_apply)
qed simp

lemma log_roles_at:
  "0 < cap \<Longrightarrow> \<exists>j. log_roles cap clk k n rs m r = (if r \<in> set rs then log_add cap \<lparr>bi_notification = n, bi_addedAt = clk j\<rparr> (m r) else m r)"
proof (induction rs arbitrary: m k)
  case (Cons q rs)
  show ?case
  proof (cases "q = r")
    case True
    have "n_ID n \<in> item_id ` set (log_add cap \<lparr>bi_notification = n, bi_addedAt = clk k\<rparr> (m r))"
      using log_add_has [OF Cons.prems, of "\<lparr>bi_notification = n, bi_addedAt = clk k\<rparr>"] by (simp add: item_id_def)
    then show ?thesis using True by (intro exI [of _ k]) (simp add: log_roles_known)
  next
    case False
    let ?k = "if n_ID n \<in> item_id ` set (m q) then k else Suc k"
    let ?m = "m(q := log_add cap \<lparr>bi_notification = n, bi_addedAt = clk k\<rparr> (m q))"
    obtain j where "log_roles cap clk ?k n rs ?m r = (if r \<in> set rs then log_add cap \<lparr>bi_notification = n, bi_addedAt = clk j\<rparr> (?m r) else ?m r)"
      using Cons.IH [OF Cons.prems, of ?k ?m] by blast
    then show ?thesis using False by (intro exI [of _ j]) simp
  qed
qed simp

text \<open>The log after some traffic holds what was addressed to the user and to the role.\<close>

definition well_run :: "nat \<Rightarrow> int \<Rightarrow> time \<Rightarrow> string \<Rightarrow> role \<Rightarrow> traffic list \<Rightarrow> bool" where
  "well_run cap ttl t u r xs \<longleftrightarrow> 0 < cap \<and> u \<noteq> uuid_Nil \<and> uuid_Nil \<notin> n_ID ` set (note_list xs) \<and> distinct (map n_ID (note_list xs)) \<and>
     sorted_wrt earlier xs \<and> (\<forall>x\<in>set xs. fresh_at t ttl x) \<and> length (addressed u r xs) \<le> cap"

fun op_of :: "traffic \<Rightarrow> buffer_op" where
  "op_of (Pushed clk (PushToUser u n)) = AddOp (clk 0) u n"
| "op_of (Pushed clk (PushToRoles n roles)) = RolesOp clk n roles"
| "op_of (Cleaned t) = CleanOp t"

lemma traffic_step: "traffic_op x b = buffer_step (op_of x) b"
  by (cases x rule: op_of.cases) simp_all

lemma well_run_snoc: "well_run cap ttl t u r (xs @ [x]) \<Longrightarrow> well_run cap ttl t u r xs"
  by (auto simp: well_run_def sorted_wrt_append)

lemma note_list_filter: "set (note_list (filter P xs)) \<subseteq> set (note_list xs)"
  by (induction xs rule: note_list.induct) auto

lemma stored_snoc:
  "list_all2 stored_as xs its \<Longrightarrow> stored_as x it \<Longrightarrow> list_all2 stored_as (xs @ [x]) (its @ [it])"
  by (simp add: list_all2_appendI)

lemma log_add_stored:
  assumes "list_all2 stored_as xs its" "n_ID n \<notin> n_ID ` set (note_list xs)" "length xs < cap"
  shows "log_add cap \<lparr>bi_notification = n, bi_addedAt = s\<rparr> its = its @ [\<lparr>bi_notification = n, bi_addedAt = s\<rparr>]"
proof -
  have "item_id ` set its = n_ID ` set (note_list xs)"
    using stored_notes [OF assms(1)] by (metis (no_types, lifting) image_cong image_image item_id_def list.set_map)
  then show ?thesis using assms list_all2_lengthD [OF assms(1)] by (simp add: log_add_def item_id_def latest_all)
qed

lemma log_clean_stored:
  assumes "list_all2 stored_as xs its" "\<forall>x\<in>set xs. fresh_at t ttl x" "t' \<le> t"
  shows "log_clean t' ttl its = its"
  using stored_unexpired [OF assms] by (simp add: log_clean_def)

lemma filter_disjoint: "length (filter P xs) \<le> length (filter (\<lambda>x. P x \<or> Q x) xs)" "length (filter Q xs) \<le> length (filter (\<lambda>x. P x \<or> Q x) xs)"
  by (induction xs) auto

lemma length_notes: "(\<And>x. P x \<Longrightarrow> \<exists>c call. x = Pushed c call) \<Longrightarrow> length (note_list (filter P xs)) = length (filter P xs)"
  by (induction xs rule: note_list.induct) auto

lemma to_pushed: "to_user u x \<Longrightarrow> \<exists>c call. x = Pushed c call" "to_role r x \<Longrightarrow> \<exists>c call. x = Pushed c call"
  by (cases "(u, x)" rule: to_user.cases; auto) (cases "(r, x)" rule: to_role.cases; auto)

lemma addressed_length:
  "length (filter (to_user u) xs) \<le> length (addressed u r xs)" "length (filter (to_role r) xs) \<le> length (addressed u r xs)"
proof -
  have "length (addressed u r xs) = length (filter (\<lambda>x. to_user u x \<or> to_role r x) xs)"
    unfolding addressed_def by (rule length_notes) (auto dest: to_pushed)
  then show "length (filter (to_user u) xs) \<le> length (addressed u r xs)" "length (filter (to_role r) xs) \<le> length (addressed u r xs)"
    using filter_disjoint by simp_all
qed

definition log_of :: "nat \<Rightarrow> int \<Rightarrow> traffic list \<Rightarrow> log" where
  "log_of cap ttl xs = fold (log_step cap ttl) (map op_of xs) log_start"

lemma log_of_snoc: "log_of cap ttl (xs @ [x]) = log_step cap ttl (op_of x) (log_of cap ttl xs)"
  by (simp add: log_of_def)

text \<open>
  The entries of the user, of the role, and both together in the order of the traffic.
\<close>

definition holds_traffic :: "log \<Rightarrow> string \<Rightarrow> role \<Rightarrow> traffic list \<Rightarrow> bool" where
  "holds_traffic l u r xs \<longleftrightarrow> list_all2 stored_as (filter (to_user u) xs) (lg_customers l u) \<and>
     list_all2 stored_as (filter (to_role r) xs) (lg_roles l r) \<and>
     (\<exists>its. list_all2 stored_as (filter (\<lambda>x. to_user u x \<or> to_role r x) xs) its \<and> mset its = mset (lg_customers l u @ lg_roles l r))"

lemma well_run_new_id: "well_run cap ttl t u r (xs @ [Pushed c call]) \<Longrightarrow> n_ID (note_of call) \<notin> n_ID ` set (note_list (filter P xs)) \<and> n_ID (note_of call) \<noteq> uuid_Nil"
  using note_list_filter [of P xs] by (auto simp: well_run_def)

lemma well_run_room:
  assumes "well_run cap ttl t u r (xs @ [x])"
  shows "to_user u x \<Longrightarrow> length (filter (to_user u) xs) < cap" "to_role r x \<Longrightarrow> length (filter (to_role r) xs) < cap"
  using assms addressed_length(1) [of u "xs @ [x]" r] addressed_length(2) [of r "xs @ [x]" u] by (auto simp: well_run_def)

lemma holds_more:
  assumes "holds_traffic l u r xs" "stored_as x it"
    and "to_user u x \<and> \<not> to_role r x \<and> lg_customers l' u = lg_customers l u @ [it] \<and> lg_roles l' r = lg_roles l r \<or>
      to_role r x \<and> \<not> to_user u x \<and> lg_customers l' u = lg_customers l u \<and> lg_roles l' r = lg_roles l r @ [it]"
  shows "holds_traffic l' u r (xs @ [x])"
proof -
  obtain its where its: "list_all2 stored_as (filter (\<lambda>x. to_user u x \<or> to_role r x) xs) its"
      "mset its = mset (lg_customers l u @ lg_roles l r)"
    using assms(1) unfolding holds_traffic_def by blast
  have "list_all2 stored_as (filter (\<lambda>x. to_user u x \<or> to_role r x) (xs @ [x])) (its @ [it]) \<and>
      mset (its @ [it]) = mset (lg_customers l' u @ lg_roles l' r)"
    using assms(3) its stored_snoc [OF its(1) assms(2)] by auto
  moreover have "list_all2 stored_as (filter (to_user u) (xs @ [x])) (lg_customers l' u)"
    "list_all2 stored_as (filter (to_role r) (xs @ [x])) (lg_roles l' r)"
    using assms stored_snoc [OF _ assms(2)] unfolding holds_traffic_def by auto
  ultimately show ?thesis unfolding holds_traffic_def by blast
qed

lemma holds_same:
  "holds_traffic l u r xs \<Longrightarrow> \<not> to_user u x \<Longrightarrow> \<not> to_role r x \<Longrightarrow> lg_customers l' u = lg_customers l u \<Longrightarrow> lg_roles l' r = lg_roles l r \<Longrightarrow>
     holds_traffic l' u r (xs @ [x])"
  by (simp add: holds_traffic_def)

lemma holds_log_of: "well_run cap ttl t u r xs \<Longrightarrow> holds_traffic (log_of cap ttl xs) u r xs"
proof (induction xs rule: rev_induct)
  case Nil
  then show ?case by (simp add: holds_traffic_def log_of_def log_start_def)
next
  case (snoc x xs)
  note run = snoc.prems
  have IH: "holds_traffic (log_of cap ttl xs) u r xs" using snoc.IH well_run_snoc [OF run] .
  let ?l = "log_of cap ttl xs"
  have cap: "0 < cap" and unil: "u \<noteq> uuid_Nil" using run by (auto simp: well_run_def)
  show ?case
  proof (cases x rule: op_of.cases)
    case (1 clk v n)
    note id = well_run_new_id [OF run [unfolded 1], simplified]
    show ?thesis
    proof (cases "v = u")
      case True
      have add: "log_add cap \<lparr>bi_notification = n, bi_addedAt = clk 0\<rparr> (lg_customers ?l u) = lg_customers ?l u @ [\<lparr>bi_notification = n, bi_addedAt = clk 0\<rparr>]"
        using IH id well_run_room(1) [OF run] 1 True by (intro log_add_stored) (auto simp: holds_traffic_def)
      show ?thesis using 1 True id add unil unfolding log_of_snoc
        by (intro holds_more [OF IH, of _ "\<lparr>bi_notification = n, bi_addedAt = clk 0\<rparr>"]) auto
    next
      case False
      then show ?thesis using 1 unfolding log_of_snoc by (intro holds_same [OF IH]) auto
    qed
  next
    case (2 clk n roles)
    note id = well_run_new_id [OF run [unfolded 2], simplified]
    obtain j where j: "log_roles cap clk 0 n roles (lg_roles ?l) r =
        (if r \<in> set roles then log_add cap \<lparr>bi_notification = n, bi_addedAt = clk j\<rparr> (lg_roles ?l r) else lg_roles ?l r)"
      using log_roles_at [OF cap] by blast
    show ?thesis
    proof (cases "r \<in> set roles")
      case True
      have add: "log_add cap \<lparr>bi_notification = n, bi_addedAt = clk j\<rparr> (lg_roles ?l r) = lg_roles ?l r @ [\<lparr>bi_notification = n, bi_addedAt = clk j\<rparr>]"
        using IH id well_run_room(2) [OF run] 2 True by (intro log_add_stored) (auto simp: holds_traffic_def)
      show ?thesis using 2 True id add j unfolding log_of_snoc
        by (intro holds_more [OF IH, of _ "\<lparr>bi_notification = n, bi_addedAt = clk j\<rparr>"]) auto
    next
      case False
      then show ?thesis using 2 j unfolding log_of_snoc by (intro holds_same [OF IH]) auto
    qed
  next
    case (3 t')
    have "t' \<le> t" "\<forall>x\<in>set (filter P xs). fresh_at t ttl x" for P using run 3 by (auto simp: well_run_def)
    then have "log_clean t' ttl (lg_customers ?l u) = lg_customers ?l u" "log_clean t' ttl (lg_roles ?l r) = lg_roles ?l r"
      using IH log_clean_stored unfolding holds_traffic_def by blast+
    then show ?thesis using 3 unfolding log_of_snoc by (intro holds_same [OF IH]) auto
  qed
qed

section \<open>Replay and the live stream\<close>

lemma fold_traffic: "fold traffic_op xs b = fold buffer_step (map op_of xs) b"
  by (induction xs arbitrary: b) (simp_all add: traffic_step)

lemma merge_stored:
  assumes "holds_traffic l u r xs" "sorted_wrt earlier xs"
  shows "map bi_notification (sort_key bi_addedAt (lg_customers l u @ lg_roles l r)) = addressed u r xs"
    "sorted (map bi_addedAt (lg_customers l u))"
proof -
  obtain its where its: "list_all2 stored_as (filter (\<lambda>x. to_user u x \<or> to_role r x) xs) its"
      "mset its = mset (lg_customers l u @ lg_roles l r)"
    using assms(1) unfolding holds_traffic_def by blast
  have ord: "sorted_wrt (<) (map bi_addedAt its)" using stored_ordered [OF its(1)] assms(2) by (simp add: sorted_wrt_filter)
  then have "sorted (map bi_addedAt its)" "distinct (map bi_addedAt its)" by (simp_all add: strict_sorted_iff)
  moreover from this(2) have "inj_on bi_addedAt (set (lg_customers l u @ lg_roles l r))"
    using mset_eq_setD [OF its(2)] by (simp add: distinct_map)
  ultimately have "sort_key bi_addedAt (lg_customers l u @ lg_roles l r) = its"
    using sort_key_inj_key_eq [OF its(2) [symmetric]] by blast
  then show "map bi_notification (sort_key bi_addedAt (lg_customers l u @ lg_roles l r)) = addressed u r xs"
    using stored_notes [OF its(1)] by (simp add: addressed_def)
  have "sorted_wrt (<) (map bi_addedAt (lg_customers l u))"
    using assms stored_ordered sorted_wrt_filter unfolding holds_traffic_def by blast
  then show "sorted (map bi_addedAt (lg_customers l u))" by (simp add: strict_sorted_iff)
qed

lemma replay_traffic:
  assumes "well_run (nat (rp_maxEvents b0)) (rp_ttl b0) t u r xs" "r \<noteq> ''''" "b0 = NewReplayBuffer mx ttl"
  shows "rp_ReplayFor t u r lastEventID (fold traffic_op xs b0) = since lastEventID (addressed u r xs)"
proof -
  let ?b = "fold traffic_op xs b0" and ?l = "log_of (nat (rp_maxEvents b0)) (rp_ttl b0) xs"
  have log: "buffer_log ?b = ?l" "rp_ttl ?b = rp_ttl b0"
    unfolding fold_traffic log_of_def using buffer_fold_log [of b0 "map op_of xs"] new_buffer [of mx ttl] assms(3) by simp_all
  have holds: "holds_traffic ?l u r xs" by (rule holds_log_of [OF assms(1)])
  have "sorted_wrt earlier xs" and fr: "\<forall>x\<in>set (filter P xs). fresh_at t (rp_ttl b0) x" for P
    using assms(1) by (auto simp: well_run_def)
  note m = merge_stored [OF holds this(1)]
  have "unexpired t (rp_ttl b0) (lg_customers ?l u) = lg_customers ?l u" "unexpired t (rp_ttl b0) (lg_roles ?l r) = lg_roles ?l r"
    using holds stored_unexpired fr unfolding holds_traffic_def by blast+
  then show ?thesis using replay_log [of ?b u t r lastEventID] m log assms(2) by (simp add: log_replay_def)
qed

text \<open>The notifications among the frames.\<close>

fun notes_written :: "frame list \<Rightarrow> notification list" where
  "notes_written [] = []" | "notes_written (Frame n # fs) = n # notes_written fs" | "notes_written (_ # fs) = notes_written fs"

lemma notes_written_append [simp]: "notes_written (fs @ gs) = notes_written fs @ notes_written gs" and notes_written_frames [simp]: "notes_written (map Frame ns) = ns"
  by (induction fs rule: notes_written.induct; simp) (induction ns; simp)

lemma after_id_none: "after_id i ns = None \<longleftrightarrow> i \<notin> n_ID ` set ns"
  by (induction ns) auto

lemma after_id_append: "after_id i (xs @ ys) = (case after_id i xs of Some zs \<Rightarrow> Some (zs @ ys) | None \<Rightarrow> after_id i ys)"
  by (induction xs) auto

lemma after_id_suffix: "after_id i xs = Some ys \<Longrightarrow> suffix ys xs"
  by (induction xs) (auto simp: suffix_ConsI split: if_splits)

text \<open>
  A log is read up to some point and the live notifications begin before that point: together they
  are the whole log, without what comes twice.
\<close>

lemma replay_and_live:
  assumes dist: "distinct (map n_ID (cs @ es @ bs))" and last: "i \<notin> n_ID ` set (es @ bs)"
  shows "since i (cs @ es) @ filter (\<lambda>n. n_ID n \<notin> n_ID ` set (since i (cs @ es))) (es @ bs) = since i (cs @ es @ bs)"
proof -
  have B: "filter (\<lambda>n. n_ID n \<notin> n_ID ` set ds) (es @ bs) = bs" if "set es \<subseteq> set ds" "set ds \<subseteq> set (cs @ es)" for ds
  proof -
    have "filter (\<lambda>n. n_ID n \<notin> n_ID ` set ds) es = []" using that(1) by (auto simp: filter_empty_conv)
    moreover have "filter (\<lambda>n. n_ID n \<notin> n_ID ` set ds) bs = bs" 
    proof (rule filter_True, rule ballI)
      fix n assume n: "n \<in> set bs"
      have "n_ID ` set bs \<inter> n_ID ` set (cs @ es) = {}" using dist by auto
      then show "n_ID n \<notin> n_ID ` set ds" using n that(2) by blast
    qed
    ultimately show ?thesis by simp
  qed
  have tail: "after_id i (es @ bs) = None" using last by (simp add: after_id_none)
  have tail': "after_id i es = None" using last by (auto simp: after_id_none)
  show ?thesis
  proof (cases "i = uuid_Nil \<or> after_id i cs = None")
    case True
    then have "since i (cs @ es) = cs @ es" "since i (cs @ es @ bs) = cs @ es @ bs"
      using tail tail' by (auto simp: since_def after_id_append)
    then show ?thesis using B [of "cs @ es"] by simp
  next
    case False
    then obtain zs where zs: "after_id i cs = Some zs" by auto
    then have "since i (cs @ es) = zs @ es" "since i (cs @ es @ bs) = zs @ es @ bs"
      using False by (auto simp: since_def after_id_append)
    moreover have "filter (\<lambda>n. n_ID n \<notin> n_ID ` set (zs @ es)) (es @ bs) = bs"
      using set_mono_suffix [OF after_id_suffix [OF zs]] by (intro B) auto
    ultimately show ?thesis by simp
  qed
qed

lemma addressed_distinct: "distinct (map n_ID (note_list xs)) \<Longrightarrow> distinct (map n_ID (addressed u r xs))"
  unfolding addressed_def
proof (induction xs rule: note_list.induct)
  case (2 clk call xs)
  then show ?case using note_list_filter [of "\<lambda>x. to_user u x \<or> to_role r x" xs] by auto
qed simp_all

end
