(* ===== verification/Notify_Live.thy ===== *)
theory Notify_Live
  imports Notify_Log
begin

text \<open>
  A connection among the other goroutines: what its channel holds while calls are handed to the hub,
  what the select loop makes of it, and how the calls seen by the buffer and by the hub are related
  when one consumer makes them.
\<close>

section \<open>What the other goroutines do\<close>

text \<open>The calls in the order of their hooks, as traffic of the buffer, and in the order they reach the connections.\<close>

fun hooked :: "world_act list \<Rightarrow> traffic list" where
  "hooked [] = []"
| "hooked (Hooked clk call # as) = Pushed clk call # hooked as"
| "hooked (CleanedAt t # as) = Cleaned t # hooked as"
| "hooked (a # as) = hooked as"

fun handed :: "world_act list \<Rightarrow> push_call list" where
  "handed [] = []" | "handed (Handed call # as) = call # handed as" | "handed (a # as) = handed as"

fun calls :: "traffic list \<Rightarrow> push_call list" where
  "calls [] = []" | "calls (Pushed clk call # xs) = call # calls xs" | "calls (Cleaned t # xs) = calls xs"

fun for_me :: "string \<Rightarrow> role \<Rightarrow> push_call \<Rightarrow> bool" where
  "for_me u r (PushToUser v n) \<longleftrightarrow> v = u" | "for_me u r (PushToRoles n roles) \<longleftrightarrow> r \<in> set roles"

definition mine :: "string \<Rightarrow> role \<Rightarrow> push_call list \<Rightarrow> notification list" where
  "mine u r cs = map note_of (filter (for_me u r) cs)"

lemma mine_simps [simp]: "mine u r [] = []" "mine u r (c # cs) = (if for_me u r c then note_of c # mine u r cs else mine u r cs)"
  "mine u r (cs @ ds) = mine u r cs @ mine u r ds"
  by (simp_all add: mine_def)

lemma hooked_append [simp]: "hooked (xs @ ys) = hooked xs @ hooked ys"
  by (induction xs rule: hooked.induct) simp_all

lemma handed_append [simp]: "handed (xs @ ys) = handed xs @ handed ys"
  by (induction xs rule: handed.induct) simp_all

lemma calls_append [simp]: "calls (xs @ ys) = calls xs @ calls ys"
  by (induction xs rule: calls.induct) simp_all

lemma addressed_mine: "addressed u r xs = mine u r (calls xs)"
proof (induction xs rule: calls.induct)
  case (2 clk call xs)
  then show ?case by (cases call) (simp_all add: addressed_def)
qed (simp_all add: addressed_def)

lemma note_list_calls: "note_list xs = map note_of (calls xs)"
  by (induction xs rule: calls.induct) simp_all

lemma mine_distinct: "distinct (map n_ID (map note_of cs)) \<Longrightarrow> distinct (map n_ID (mine u r cs))"
  by (induction cs) (auto simp: mine_def)

lemma buffer_acts: "nw_buffer (fold act as w) = map_option (fold traffic_op (hooked as)) (nw_buffer w)"
  by (induction as arbitrary: w rule: hooked.induct) (simp_all add: option.map_comp comp_def option.map_id)

text \<open>
  One goroutine makes the calls, so that each is handed to the connections before the hook of the next
  one runs; \<open>p\<close> is the call whose hook has run. At the end no call is under way.
\<close>

fun one_pusher :: "push_call option \<Rightarrow> world_act list \<Rightarrow> bool" where
  "one_pusher p [] \<longleftrightarrow> p = None"
| "one_pusher p (Hooked clk call # as) \<longleftrightarrow> p = None \<and> one_pusher (Some call) as"
| "one_pusher p (Handed call # as) \<longleftrightarrow> p = Some call \<and> one_pusher None as"
| "one_pusher p (a # as) \<longleftrightarrow> one_pusher p as"

abbreviation under_way :: "push_call option \<Rightarrow> push_call list" where
  "under_way p \<equiv> (case p of None \<Rightarrow> [] | Some c \<Rightarrow> [c])"

lemma one_pusher_split:
  "one_pusher p (as @ bs) \<Longrightarrow> \<exists>q. under_way p @ calls (hooked as) = handed as @ under_way q \<and> one_pusher q bs"
proof (induction p as rule: one_pusher.induct)
  case (2 p clk call as)
  then show ?case by auto
next
  case (3 p call as)
  then show ?case by auto
qed auto

section \<open>The channel of a connection\<close>

definition connected :: "nat \<Rightarrow> string \<Rightarrow> role \<Rightarrow> notification list \<Rightarrow> hub \<Rightarrow> bool" where
  "connected addr u r ch h \<longleftrightarrow> map_of (hb_subs h) addr = Some \<lparr>su_userID = u, su_role = r, su_ch = ch\<rparr> \<and> length ch \<le> hb_buffer h \<and> 0 < hb_buffer h"

lemma connected_channel: "connected addr u r ch h \<Longrightarrow> channel addr h = ch"
  by (simp add: connected_def channel_def)

lemma map_of_pairs: "map_of (map (\<lambda>(a, s). (a, f a s)) xs) k = map_option (f k) (map_of xs k)"
  by (induction xs) auto

lemma offer_latest: "length ch \<le> cap \<Longrightarrow> 0 < cap \<Longrightarrow> snd (offer alone cap n ch) = latest cap (ch @ [n])"
  by (cases ch) (auto simp: offer_def alone_def latest_def numeral_2_eq_2 Let_def Suc_diff_le)

lemma hub_push_connected:
  assumes "connected addr u r ch h"
  shows "connected addr u r (if match \<lparr>su_userID = u, su_role = r, su_ch = ch\<rparr> then latest (hb_buffer h) (ch @ [n]) else ch) (snd (hub_push n match h))"
  using assms offer_latest [of ch "hb_buffer h" n] by (auto simp: connected_def hub_push_def map_of_pairs)

text \<open>The address of the connection belongs to no other one.\<close>

fun elsewhere :: "nat \<Rightarrow> world_act \<Rightarrow> bool" where
  "elsewhere addr (Opened a u r) \<longleftrightarrow> a \<noteq> addr" | "elsewhere addr (Closed a) \<longleftrightarrow> a \<noteq> addr" | "elsewhere addr a \<longleftrightarrow> True"

fun queue_step :: "nat \<Rightarrow> string \<Rightarrow> role \<Rightarrow> world_act \<Rightarrow> notification list \<Rightarrow> notification list" where
  "queue_step cap u r (Handed call) ch = (if for_me u r call then latest cap (ch @ [note_of call]) else ch)"
| "queue_step cap u r a ch = ch"

lemma act_connected:
  assumes "connected addr u r ch (nw_hub w)" "elsewhere addr a"
  shows "connected addr u r (queue_step (hb_buffer (nw_hub w)) u r a ch) (nw_hub (act a w))" "hb_buffer (nw_hub (act a w)) = hb_buffer (nw_hub w)"
proof -
  have "connected addr u r (queue_step (hb_buffer (nw_hub w)) u r a ch) (nw_hub (act a w)) \<and> hb_buffer (nw_hub (act a w)) = hb_buffer (nw_hub w)"
  proof (cases a)
    case (Handed call)
    have b: "hb_buffer (snd (hub_push n m h)) = hb_buffer h" for n m h by (simp add: hub_push_def)
    show ?thesis
    proof (cases call)
      case (PushToUser v n)
      then show ?thesis using Handed b hub_push_connected [OF assms(1), of "\<lambda>s. su_userID s = v" n] by (cases "v = u") simp_all
    next
      case (PushToRoles n rs)
      then show ?thesis using Handed b hub_push_connected [OF assms(1), of "\<lambda>s. list_ex (\<lambda>q. su_role s = q) rs" n]
        by (cases "r \<in> set rs") (simp_all add: list_ex_iff)
    qed
  qed (use assms in \<open>auto simp: connected_def Subscribe_def Unsubscribe_def update_conv' delete_conv'\<close>)
  then show "connected addr u r (queue_step (hb_buffer (nw_hub w)) u r a ch) (nw_hub (act a w))" "hb_buffer (nw_hub (act a w)) = hb_buffer (nw_hub w)"
    by simp_all
qed

lemma receive_connected:
  "connected addr u r (n # ch) h \<Longrightarrow> connected addr u r ch (receive addr h) \<and> hb_buffer (receive addr h) = hb_buffer h"
  by (auto simp: connected_def receive_def map_of_pairs)

lemma cancel_channel [simp]: "channel addr (nw_hub (cancel addr w)) = []"
  by (simp add: channel_def cancel_def Unsubscribe_def delete_conv')

section \<open>The select loop\<close>

fun acts :: "stream_event list \<Rightarrow> world_act list" where
  "acts [] = []" | "acts (Others a # es) = a # acts es" | "acts (e # es) = acts es"

lemma acts_append [simp]: "acts (xs @ ys) = acts xs @ acts ys" and acts_others [simp]: "acts (map Others as) = as"
  by (induction xs rule: acts.induct; simp) (induction as; simp)

fun stays_open :: "stream_event \<Rightarrow> bool" where
  "stays_open (Others a) \<longleftrightarrow> True" | "stays_open (Received ok) \<longleftrightarrow> ok" | "stays_open (Heartbeat ok) \<longleftrightarrow> ok" | "stays_open e \<longleftrightarrow> False"

text \<open>
  The client keeps up: no more than \<open>cap\<close> notifications wait for it at any moment of the schedule, of
  which \<open>k\<close> wait at its beginning.
\<close>

fun keeps_up :: "(push_call \<Rightarrow> bool) \<Rightarrow> nat \<Rightarrow> nat \<Rightarrow> stream_event list \<Rightarrow> bool" where
  "keeps_up me cap k [] \<longleftrightarrow> True"
| "keeps_up me cap k (Others (Handed call) # es) \<longleftrightarrow> (if me call then k < cap \<and> keeps_up me cap (Suc k) es else keeps_up me cap k es)"
| "keeps_up me cap k (Received ok # es) \<longleftrightarrow> keeps_up me cap (k - 1) es"
| "keeps_up me cap k (e # es) \<longleftrightarrow> keeps_up me cap k es"

lemma stream_loop_others: "stream_loop addr seen (map Others as @ es) w = stream_loop addr seen es (fold act as w)"
  by (induction as arbitrary: w) simp_all

lemma queue_step_lost:
  "suffix (queue_step cap u r a ch @ zs) (ch @ mine u r (handed [a]) @ zs)"
  using latest_suffix [of cap "ch @ [n]" for n] by (cases a) (auto simp: suffix_def)

lemma keeps_up_others:
  "keeps_up (for_me u r) cap (length ch) (Others a # es) \<Longrightarrow> length ch \<le> cap \<Longrightarrow>
     queue_step cap u r a ch = ch @ mine u r (handed [a]) \<and> keeps_up (for_me u r) cap (length (queue_step cap u r a ch)) es"
  by (cases a) (auto simp: latest_all split: if_splits)

text \<open>
  What was received and what still waits, in this order, is part of what waited before and what was
  handed over since; with a client that keeps up it is all of it.
\<close>

lemma loop_queue:
  assumes "connected addr u r ch (nw_hub w)" "hb_buffer (nw_hub w) = cap" "\<forall>a\<in>set (acts es). elsewhere addr a"
    "stream_loop addr seen es w = (fs, w')"
  shows "\<exists>rs. notes_written fs = filter (\<lambda>n. n_ID n \<notin> seen) rs \<and>
    subseq (rs @ channel addr (nw_hub w')) (ch @ mine u r (handed (acts es))) \<and>
    suffix (channel addr (nw_hub w')) (ch @ mine u r (handed (acts es))) \<and>
    (list_all stays_open es \<and> keeps_up (for_me u r) cap (length ch) es \<longrightarrow>
       rs @ channel addr (nw_hub w') = ch @ mine u r (handed (acts es)))"
  using assms
proof (induction addr seen es w arbitrary: ch fs w' rule: stream_loop.induct)
  case (1 addr seen w)
  then show ?case by (intro exI [of _ "[]"]) (auto simp: connected_channel)
next
  case (2 addr seen a es w)
  have len: "length ch \<le> cap" using 2(2,3) by (simp add: connected_def)
  have e: "elsewhere addr a" using 2(4) by simp
  note c = act_connected [OF 2(2) e]
  obtain rs where rs: "notes_written fs = filter (\<lambda>n. n_ID n \<notin> seen) rs"
    "subseq (rs @ channel addr (nw_hub w')) (queue_step cap u r a ch @ mine u r (handed (acts es)))"
    "suffix (channel addr (nw_hub w')) (queue_step cap u r a ch @ mine u r (handed (acts es)))"
    "list_all stays_open es \<and> keeps_up (for_me u r) cap (length (queue_step cap u r a ch)) es \<Longrightarrow>
       rs @ channel addr (nw_hub w') = queue_step cap u r a ch @ mine u r (handed (acts es))"
    using 2(1) [of "queue_step cap u r a ch" fs w'] c 2(3-5) by auto
  have h: "handed (acts (Others a # es)) = handed [a] @ handed (acts es)" by (cases a) simp_all
  note lost = queue_step_lost [of cap u r a ch "mine u r (handed (acts es))"]
  show ?case
    unfolding h mine_simps using rs(1) subseq_order.trans [OF rs(2) suffix_imp_subseq [OF lost]]
      suffix_order.trans [OF rs(3) lost] rs(4) keeps_up_others [OF _ len, of u r a es]
    by (intro exI [of _ rs]) auto
next
  case (3 addr seen ok es w)
  note conn = connected_channel [OF 3(4)]
  show ?case
  proof (cases ch)
    case Nil
    then show ?thesis using 3(1) [of "[]" fs w'] 3(4-7) conn by auto
  next
    case (Cons n ns)
    let ?w = "w\<lparr>nw_hub := receive addr (nw_hub w)\<rparr>"
    have c: "connected addr u r ns (nw_hub ?w)" "hb_buffer (nw_hub ?w) = cap"
      using receive_connected [of addr u r n ns] 3(4,5) Cons by auto
    show ?thesis
    proof (cases "n_ID n \<in> seen \<or> ok")
      case True
      then obtain gs where g: "stream_loop addr seen es ?w = (gs, w')"
          "notes_written fs = (if n_ID n \<in> seen then notes_written gs else n # notes_written gs)"
        using 3(7) conn Cons by (auto simp: Let_def split: if_splits prod.splits)
      then obtain rs where rs: "notes_written gs = filter (\<lambda>n. n_ID n \<notin> seen) rs"
          "subseq (rs @ channel addr (nw_hub w')) (ns @ mine u r (handed (acts es)))"
          "suffix (channel addr (nw_hub w')) (ns @ mine u r (handed (acts es)))"
          "list_all stays_open es \<and> keeps_up (for_me u r) cap (length ns) es \<Longrightarrow>
             rs @ channel addr (nw_hub w') = ns @ mine u r (handed (acts es))"
        using 3(2,3) [OF _ refl, of n ns] c 3(6) conn Cons True by (cases "n_ID n \<in> seen") fastforce+
      then show ?thesis using g Cons by (intro exI [of _ "n # rs"]) (auto simp: suffix_ConsI)
    next
      case False
      then have "fs = []" "channel addr (nw_hub w') = []" using 3(7) conn Cons by (auto simp: Let_def)
      then show ?thesis using False by (intro exI [of _ "[]"]) auto
    qed
  qed
next
  case (4 addr seen ok es w)
  show ?case
  proof (cases ok)
    case True
    then obtain gs where "stream_loop addr seen es w = (gs, w')" "fs = KeepAlive # gs" using 4(5) by (auto split: prod.splits)
    then show ?thesis using 4(1) [OF True 4(2,3)] 4(4) True by auto
  qed (use 4(5) in \<open>auto intro: exI [of _ "[]"]\<close>)
qed (auto intro: exI [of _ "[]"])

section \<open>Buffer and channel together\<close>

text \<open>The connection is registered before the buffer is read, and the buffer learns of a call before the connections.\<close>

lemma calls_overlap:
  assumes "one_pusher None (before @ mid @ rest)"
  shows "\<exists>cs bs. calls (hooked (before @ mid)) = handed before @ cs \<and> handed (mid @ rest) = cs @ bs"
proof -
  obtain q where q: "calls (hooked before) = handed before @ under_way q" "one_pusher q (mid @ rest)"
    using one_pusher_split [OF assms] by auto
  obtain p where p: "under_way q @ calls (hooked mid) = handed mid @ under_way p" "one_pusher p rest"
    using one_pusher_split [OF q(2)] by auto
  have "under_way p @ calls (hooked rest) = handed rest" using one_pusher_split [of p rest "[]"] p(2) by auto
  then show ?thesis using q(1) p(1) by (intro exI [of _ "handed mid @ under_way p"] exI [of _ "calls (hooked rest)"]) simp
qed

text \<open>What waits and was not replayed is what waits and was not written.\<close>

lemma still_waiting:
  assumes "distinct (map n_ID (rs @ ks))" "ms \<in> lists (set all)" "set (rs @ ks) \<subseteq> set all" "inj_on n_ID (set all)"
  shows "filter (\<lambda>n. n \<notin> set (ms @ filter (\<lambda>n. n_ID n \<notin> n_ID ` set ms) rs)) ks = filter (\<lambda>n. n_ID n \<notin> n_ID ` set ms) ks"
proof (rule filter_cong [OF refl])
  fix n assume n: "n \<in> set ks"
  then have "n \<notin> set rs" using assms(1) by auto
  moreover have "n_ID n \<in> n_ID ` set ms \<longleftrightarrow> n \<in> set ms"
    using assms(2-4) n by (auto dest: inj_onD)
  ultimately show "n \<notin> set (ms @ filter (\<lambda>n. n_ID n \<notin> n_ID ` set ms) rs) \<longleftrightarrow> n_ID n \<notin> n_ID ` set ms" by auto
qed

lemma acts_buffer: "hb_buffer (nw_hub (fold act as w)) = hb_buffer (nw_hub w)"
proof (induction as arbitrary: w)
  case (Cons a as)
  have "hb_buffer (nw_hub (act a w)) = hb_buffer (nw_hub w)"
    by (cases "(a, w)" rule: act.cases; cases "case a of Handed c \<Rightarrow> c")
      (auto simp: hub_push_def Subscribe_def Unsubscribe_def)
  then show ?case using Cons by simp
qed simp

lemma token_role: "authenticate jwt uuid values = Some claims \<Longrightarrow> cl_Role claims \<noteq> ''''"
  by (auto simp: authenticate_def verifier_Parse_def role_Valid_def RoleCustomer_def RoleStaff_def RoleManager_def
    split: option.splits if_splits prod.splits)

lemma since_subset: "set (since i xs) \<subseteq> set xs"
  using set_mono_suffix [OF after_id_suffix, of i xs] by (auto simp: since_def split: option.splits if_splits)

lemma written_and_waiting:
  assumes dist: "distinct (map n_ID (cs @ es @ bs))" and last: "i \<notin> n_ID ` set (es @ bs)" and both: "rs @ ks = es @ bs"
  defines "ms \<equiv> since i (cs @ es)"
  shows "ms @ filter (\<lambda>n. n_ID n \<notin> n_ID ` set ms) rs @ filter (\<lambda>n. n \<notin> set (ms @ filter (\<lambda>n. n_ID n \<notin> n_ID ` set ms) rs)) ks = since i (cs @ es @ bs)"
proof -
  have "inj_on n_ID (set (cs @ es @ bs))" using dist by (simp only: distinct_map)
  moreover have "distinct (map n_ID (rs @ ks))" unfolding both using dist by simp
  moreover have "set (rs @ ks) \<subseteq> set (cs @ es @ bs)" unfolding both by auto
  moreover have "ms \<in> lists (set (cs @ es @ bs))" using since_subset [of i "cs @ es"] by (auto simp: ms_def)
  ultimately have "filter (\<lambda>n. n \<notin> set (ms @ filter (\<lambda>n. n_ID n \<notin> n_ID ` set ms) rs)) ks = filter (\<lambda>n. n_ID n \<notin> n_ID ` set ms) ks"
    by (intro still_waiting [where all = "cs @ es @ bs"])
  then show ?thesis using replay_and_live [OF dist last] unfolding both [symmetric] ms_def by simp
qed

end
