(* ===== verification/Notify_Laws.thy ===== *)
theory Notify_Laws
  imports Notify_Service
begin

text \<open>
  Laws of the notification service: the set of seen events is a bounded log, the map of owners is
  bounded and keeps an order until as many others have come, a connection's queue keeps the latest
  notifications, and what a run of deliveries does to the state.
\<close>

section \<open>Seen events\<close>

lemma evict_seen_latest: "evict_seen mx ids is = (ids - set (take (length is - mx) is), latest mx is)"
proof (induction "is" arbitrary: ids)
  case (Cons i "is")
  then show ?case by (auto simp: latest_def Suc_diff_le not_less_eq_eq)
qed (simp add: latest_def)

definition seen_room :: "seenSet \<Rightarrow> bool" where
  "seen_room s \<longleftrightarrow> 0 < ss_max s \<and> length (ss_order s) \<le> ss_max s"

interpretation seen: bounded_log seen_room ss_max ss_order ss_record
  by unfold_locales (auto simp: seen_room_def ss_record_def evict_seen_latest)

text \<open>The ids are those of the log.\<close>

definition seen_ok :: "seenSet \<Rightarrow> bool" where
  "seen_ok s \<longleftrightarrow> seen_room s \<and> ss_ids s = set (ss_order s) \<and> distinct (ss_order s)"

lemma seen_ok_record:
  assumes "seen_ok s" "i \<notin> ss_ids s" shows "seen_ok (ss_record i s)"
proof -
  let ?xs = "ss_order s @ [i]" and ?k = "length (ss_order s @ [i]) - ss_max s"
  have "distinct ?xs" and ids: "insert i (ss_ids s) = set ?xs" using assms by (auto simp: seen_ok_def)
  then have "set (take ?k ?xs) \<inter> set (drop ?k ?xs) = {}" by (metis append_take_drop_id distinct_append)
  moreover have "set ?xs = set (take ?k ?xs) \<union> set (drop ?k ?xs)" by (metis append_take_drop_id set_append)
  ultimately have "set ?xs - set (take ?k ?xs) = set (latest (ss_max s) ?xs)" by (auto simp: latest_def)
  then show ?thesis
    using assms(1) seen.ok_push [of s i] ids \<open>distinct ?xs\<close>
    by (simp add: seen_ok_def ss_record_def evict_seen_latest latest_def del: take_append drop_append)
qed

section \<open>Owners\<close>

definition owners_ok :: "ownerMap \<Rightarrow> bool" where
  "owners_ok m \<longleftrightarrow> distinct (map fst (om_entries m)) \<and> fst ` set (om_entries m) \<subseteq> set (om_order m) \<and> length (om_entries m) \<le> om_max m"

lemma delete_length: "length (AList.delete i es) \<le> length es"
  by (simp add: AList.delete_eq)

lemma evict_owners_ok:
  assumes "distinct (map fst es)" "fst ` set es \<subseteq> set is"
  shows "distinct (map fst (fst (evict_owners mx es is))) \<and>
     fst ` set (fst (evict_owners mx es is)) \<subseteq> set (snd (evict_owners mx es is)) \<and> length (fst (evict_owners mx es is)) \<le> mx"
  using assms
proof (induction mx es "is" rule: evict_owners.induct)
  case (2 mx es i "is")
  show ?case
  proof (cases "mx < length es")
    case True
    have "distinct (map fst (AList.delete i es))" using 2(2) by (simp add: distinct_delete)
    moreover have "fst ` set (AList.delete i es) \<subseteq> set is" using 2(3) by (auto simp: AList.delete_eq)
    ultimately show ?thesis using 2(1) [OF True] True by simp
  qed (use 2 in simp)
qed simp

text \<open>Eviction does not reach an order that has less than \<open>mx\<close> others behind it.\<close>

lemma evict_owners_held:
  assumes "distinct (map fst es)" "fst ` set es \<subseteq> set (pre @ i # post)" "i \<notin> set pre" "length post < mx" "map_of es i = Some e"
  shows "\<exists>pre'. snd (evict_owners mx es (pre @ i # post)) = pre' @ i # post \<and> i \<notin> set pre' \<and>
     map_of (fst (evict_owners mx es (pre @ i # post))) i = Some e"
  using assms
proof (induction pre arbitrary: es)
  case Nil
  have "length es = card (fst ` set es)" using Nil(1) by (metis distinct_card length_map list.set_map)
  also have "\<dots> \<le> card (set (i # post))" using Nil(2) by (intro card_mono) auto
  also have "\<dots> \<le> mx" using Nil(4) by (metis Suc_leI card_length le_trans length_Cons)
  finally show ?case using Nil by simp
next
  case (Cons j pre)
  show ?case
  proof (cases "mx < length es")
    case True
    have "distinct (map fst (AList.delete j es))" using Cons.prems(1) by (simp add: distinct_delete)
    moreover have "fst ` set (AList.delete j es) \<subseteq> set (pre @ i # post)" using Cons.prems(2) by (auto simp: AList.delete_eq)
    moreover have "map_of (AList.delete j es) i = Some e" using Cons.prems(3,5) by (simp add: map_of_delete)
    ultimately show ?thesis using Cons.IH [of "AList.delete j es"] Cons.prems(3,4) True by simp
  next
    case False
    then show ?thesis using Cons.prems by (auto intro!: exI [of _ "j # pre"])
  qed
qed

lemma update_keys: "fst ` set (AList.update i e es) = insert i (fst ` set es)"
  using dom_update [of i e es] by (simp add: dom_map_of_conv_image_fst)

definition put_queue :: "string \<Rightarrow> ownerMap \<Rightarrow> string list" where
  "put_queue i m = (if map_of (om_entries m) i = None then om_order m @ [i] else om_order m)"

definition put_entries :: "time \<Rightarrow> string \<Rightarrow> string \<Rightarrow> ownerMap \<Rightarrow> (string \<times> ownerEntry) list" where
  "put_entries t i u m = AList.update i \<lparr>ow_customerID = u, ow_expires = t + om_ttl m\<rparr> (om_entries m)"

lemma om_put_evict: "om_put t i u m = m\<lparr>om_entries := fst (evict_owners (om_max m) (put_entries t i u m) (put_queue i m)),
    om_order := snd (evict_owners (om_max m) (put_entries t i u m) (put_queue i m))\<rparr>"
  by (simp add: om_put_def put_queue_def put_entries_def Let_def split: prod.split)

lemma put_keys:
  assumes "owners_ok m"
  shows "distinct (map fst (put_entries t i u m))" "fst ` set (put_entries t i u m) \<subseteq> set (put_queue i m)"
  using assms by (auto simp: owners_ok_def put_entries_def put_queue_def distinct_update update_keys map_of_eq_None_iff)

lemma owners_ok_put: "owners_ok m \<Longrightarrow> owners_ok (om_put t i u m)"
  using evict_owners_ok [of "put_entries t i u m" "put_queue i m" "om_max m"] put_keys [of m t i u] by (simp add: om_put_evict owners_ok_def)

lemma owners_ok_get: "owners_ok m \<Longrightarrow> owners_ok (snd (om_get t i m))"
proof -
  assume ok: "owners_ok m"
  have "distinct (map fst (AList.delete i (om_entries m)))" "fst ` set (AList.delete i (om_entries m)) \<subseteq> fst ` set (om_entries m)"
    using ok distinct_delete [of "om_entries m" i] by (auto simp: owners_ok_def AList.delete_eq)
  then show ?thesis using ok delete_length [of i "om_entries m"]
    unfolding owners_ok_def om_get_def by (auto split: option.splits)
qed

lemma owner_limits [simp]: "om_max (om_put t i u m) = om_max m" "om_ttl (om_put t i u m) = om_ttl m"
  "om_max (snd (om_get t i m)) = om_max m" "om_ttl (snd (om_get t i m)) = om_ttl m"
  by (simp_all add: om_put_evict om_get_def split: option.split)

text \<open>An order stays with its owner.\<close>

definition owner_kept :: "string \<Rightarrow> string \<Rightarrow> time \<Rightarrow> nat \<Rightarrow> ownerMap \<Rightarrow> bool" where
  "owner_kept i u till k m \<longleftrightarrow> owners_ok m \<and> (\<exists>e pre post. map_of (om_entries m) i = Some e \<and> ow_customerID e = u \<and> till \<le> ow_expires e \<and>
     om_order m = pre @ i # post \<and> i \<notin> set pre \<and> length post \<le> k)"

lemma owner_kept_evict:
  assumes ok: "owners_ok m" and e: "map_of (put_entries t j v m) i = Some e" "ow_customerID e = u" "till \<le> ow_expires e"
    and ord: "put_queue j m = pre @ i # post" "i \<notin> set pre" "length post \<le> k" "k < om_max m"
  shows "owner_kept i u till k (om_put t j v m)"
proof -
  obtain pre' where "snd (evict_owners (om_max m) (put_entries t j v m) (put_queue j m)) = pre' @ i # post" "i \<notin> set pre'"
     "map_of (fst (evict_owners (om_max m) (put_entries t j v m) (put_queue j m))) i = Some e"
    using evict_owners_held [of "put_entries t j v m" pre i post "om_max m" e] put_keys [OF ok, of t j v] e(1) ord by auto
  then show ?thesis unfolding owner_kept_def using owners_ok_put [OF ok, of t j v] e ord(3) by (auto simp: om_put_evict)
qed

lemma owner_kept_new: "owners_ok m \<Longrightarrow> i \<notin> set (om_order m) \<Longrightarrow> 0 < om_max m \<Longrightarrow> owner_kept i u (t + om_ttl m) 0 (om_put t i u m)"
  by (rule owner_kept_evict [where pre = "om_order m" and post = "[]"])
    (auto simp: put_entries_def put_queue_def AList.update_conv owners_ok_def map_of_eq_None_iff)

lemma owner_kept_put:
  assumes "owner_kept i u till k m" "Suc k < om_max m" "j = i \<longrightarrow> v = u \<and> till \<le> t + om_ttl m"
  shows "owner_kept i u till (Suc k) (om_put t j v m)"
proof -
  obtain e pre post where e: "owners_ok m" "map_of (om_entries m) i = Some e" "ow_customerID e = u" "till \<le> ow_expires e"
     "om_order m = pre @ i # post" "i \<notin> set pre" "length post \<le> k"
    using assms(1) unfolding owner_kept_def by blast
  show ?thesis
  proof (cases "j = i")
    case True
    then show ?thesis using e assms(2,3)
      by (intro owner_kept_evict [where e = "\<lparr>ow_customerID = u, ow_expires = t + om_ttl m\<rparr>" and pre = pre and post = post])
        (auto simp: put_entries_def put_queue_def AList.update_conv)
  next
    case False
    show ?thesis using False e assms(2)
      by (intro owner_kept_evict [where e = e and pre = pre and post = "if map_of (om_entries m) j = None then post @ [j] else post"])
        (auto simp: put_entries_def put_queue_def AList.update_conv)
  qed
qed

lemma owner_kept_get:
  assumes "owner_kept i u till k m" "t < till"
  shows "owner_kept i u till k (snd (om_get t j m))" "fst (om_get t i m) = Some u"
proof -
  obtain e pre post where e: "owners_ok m" "map_of (om_entries m) i = Some e" "ow_customerID e = u" "till \<le> ow_expires e"
     "om_order m = pre @ i # post" "i \<notin> set pre" "length post \<le> k"
    using assms(1) unfolding owner_kept_def by blast
  show "owner_kept i u till k (snd (om_get t j m))"
    unfolding owner_kept_def using owners_ok_get [OF e(1), of t j] e assms(2)
    by (cases "j = i") (auto simp: om_get_def map_of_delete split: option.splits)
  show "fst (om_get t i m) = Some u" using e assms(2) by (simp add: om_get_def)
qed

lemma owner_kept_mono: "owner_kept i u till k m \<Longrightarrow> k \<le> k' \<Longrightarrow> owner_kept i u till k' m"
  unfolding owner_kept_def by (blast intro: le_trans)

section \<open>Connections\<close>

lemma offer_alone: "0 < cap \<Longrightarrow> length ch \<le> cap \<Longrightarrow> offer alone cap n ch = (True, latest cap (ch @ [n]))"
  by (cases ch) (auto simp: offer_def numeral_2_eq_2 alone_def latest_def Let_def Suc_diff_le)

text \<open>Whatever a concurrent reader or sender does, a queue stays within its capacity.\<close>

lemma offer_bounded:
  assumes "\<And>k xs. length xs \<le> cap \<Longrightarrow> length (other k xs) \<le> cap" "length ch \<le> cap"
  shows "length (snd (offer_from a other k cap n ch)) \<le> cap"
  using assms(2)
proof (induction a arbitrary: k ch)
  case (Suc a)
  then show ?case using assms(1) [of "other k ch" "k + 1"] assms(1) [of ch k] by (auto simp: Let_def)
qed simp

section \<open>Deliveries\<close>

definition deliver :: "notify_codec \<Rightarrow> string \<times> time \<Rightarrow> notify_state \<Rightarrow> notify_state" where
  "deliver c m s = fst (snd (HandleDelivery c (fst m) (snd m) s))"

text \<open>The event that a message carries, and the order whose owner it tells.\<close>

definition event_of :: "notify_codec \<Rightarrow> string \<Rightarrow> string option" where
  "event_of c body = (case notify_Dispatch c body of None \<Rightarrow> None | Some _ \<Rightarrow> map_option ev_ID (notify_Parse c body))"

definition tells_owner :: "notify_codec \<Rightarrow> string \<Rightarrow> (string \<times> string) option" where
  "tells_owner c body = (case notify_Parse c body of
     None \<Rightarrow> None
   | Some env \<Rightarrow>
       if ev_Type env = notify_TypeOrderPlaced then map_option (\<lambda>d. (pl_OrderID d, pl_CustomerID d)) (k_Placed c (ev_Data env))
       else if ev_Type env = notify_TypeOrderQueued then map_option (\<lambda>d. (qd_OrderID d, qd_CustomerID d)) (k_Queued c (ev_Data env))
       else None)"

text \<open>What one delivery can do: nothing, or record the event and put or look up an owner.\<close>

definition owners_step :: "(string \<times> string) option \<Rightarrow> time \<Rightarrow> ownerMap \<Rightarrow> ownerMap \<Rightarrow> bool" where
  "owners_step told t m m' \<longleftrightarrow> m' = m \<or> (\<exists>i u. told = Some (i, u) \<and> m' = om_put t i u m) \<or> (\<exists>i. m' = snd (om_get t i m))"

definition step_ok :: "string \<Rightarrow> (string \<times> string) option \<Rightarrow> notify_step \<Rightarrow> bool" where
  "step_ok i told f \<longleftrightarrow> (\<forall>t s. if i \<in> ss_ids (nv_seen s) then f t s = (s, [])
     else nv_seen (fst (f t s)) = ss_record i (nv_seen s) \<and> owners_step told t (nv_owners s) (nv_owners (fst (f t s))))"

lemma when_new_ok:
  assumes "\<And>t s. nv_seen (fst (f t s)) = nv_seen s" "\<And>t s. owners_step told t (nv_owners s) (nv_owners (fst (f t s)))"
  shows "step_ok i told (when_new i f)"
  using assms(1) assms(2) [of _ "s\<lparr>nv_seen := ss_record i (nv_seen s)\<rparr>" for s] by (auto simp: step_ok_def when_new_def ss_markNew_def)

lemma toOrderOwner_state:
  "fst (toOrderOwner i u n t s) = (if u = uuid_Nil then s\<lparr>nv_owners := snd (om_get t i (nv_owners s))\<rparr> else s)"
  by (simp add: toOrderOwner_def split: prod.split option.split)

lemma handlers_ok:
  "step_ok (ev_ID env) (Some (pl_OrderID pd, pl_CustomerID pd)) (OrderPlaced env pd)"
  "step_ok (ev_ID env) (Some (qd_OrderID qd, qd_CustomerID qd)) (OrderQueued env qd)"
  "step_ok (ev_ID env) told (OrderReady env rd)" "step_ok (ev_ID env) told (OrderCancelled env cd)"
  "step_ok (ev_ID env) told (BatchLowStock env ld)" "step_ok (ev_ID env) told (BatchExpiring env xd)"
  unfolding OrderPlaced_def OrderQueued_def OrderReady_def OrderCancelled_def BatchLowStock_def BatchExpiring_def
  by (rule when_new_ok; simp add: toOrderOwner_state learn_owner_def owners_step_def; blast?)+

text \<open>A message is refused, ignored, or its event goes to a handler.\<close>

lemma decode_Some: "decode dec z good g = Some f \<longleftrightarrow> (\<exists>d. dec z = Some d \<and> good d \<and> f = g d)"
  by (auto simp: decode_def split: option.split)

lemma dispatch_handler:
  assumes "notify_Dispatch c body = Some f" "notify_Parse c body = Some env"
  shows "ev_Type env = notify_TypeOrderPlaced \<and> (\<exists>d. k_Placed c (ev_Data env) = Some d \<and> f = OrderPlaced env d) \<or>
    ev_Type env \<noteq> notify_TypeOrderPlaced \<and> ev_Type env = notify_TypeOrderQueued \<and> (\<exists>d. k_Queued c (ev_Data env) = Some d \<and> f = OrderQueued env d) \<or>
    ev_Type env \<noteq> notify_TypeOrderPlaced \<and> ev_Type env \<noteq> notify_TypeOrderQueued \<and>
      ((\<exists>d. f = OrderReady env d) \<or> (\<exists>d. f = OrderCancelled env d) \<or> (\<exists>d. f = BatchLowStock env d) \<or> (\<exists>d. f = BatchExpiring env d) \<or> f = (\<lambda>t s. (s, [])))"
  using assms(1) unfolding notify_Dispatch_def assms(2) option.case Let_def
  by (simp only: decode_Some option.inject split: if_split_asm) blast+

lemma dispatch_cases:
  assumes "notify_Dispatch c body = Some f"
  shows "f = (\<lambda>t s. (s, [])) \<or> (\<exists>env. notify_Parse c body = Some env \<and> step_ok (ev_ID env) (tells_owner c body) f)"
proof -
  obtain env where env: "notify_Parse c body = Some env"
    using assms by (cases "notify_Parse c body") (simp_all add: notify_Dispatch_def)
  have told: "ev_Type env = notify_TypeOrderPlaced \<Longrightarrow> k_Placed c (ev_Data env) = Some pd \<Longrightarrow> tells_owner c body = Some (pl_OrderID pd, pl_CustomerID pd)"
    "ev_Type env \<noteq> notify_TypeOrderPlaced \<Longrightarrow> ev_Type env = notify_TypeOrderQueued \<Longrightarrow> k_Queued c (ev_Data env) = Some qd \<Longrightarrow>
      tells_owner c body = Some (qd_OrderID qd, qd_CustomerID qd)" for pd qd
    using env by (simp_all add: tells_owner_def)
  show ?thesis using dispatch_handler [OF assms env] env told handlers_ok by (elim disjE exE conjE) (simp; blast?)+
qed

section \<open>Runs\<close>

lemma deliver_step:
  "deliver c m s = s \<or> (\<exists>i. i \<notin> ss_ids (nv_seen s) \<and> nv_seen (deliver c m s) = ss_record i (nv_seen s) \<and>
     owners_step (tells_owner c (fst m)) (snd m) (nv_owners s) (nv_owners (deliver c m s)))"
proof (cases "notify_Dispatch c (fst m)")
  case None
  then show ?thesis by (simp add: deliver_def HandleDelivery_def)
next
  case (Some f)
  have "deliver c m s = fst (f (snd m) s)" using Some by (simp add: deliver_def HandleDelivery_def split: prod.split)
  moreover have "f (snd m) s = (s, []) \<or> (\<exists>i. i \<notin> ss_ids (nv_seen s) \<and> nv_seen (fst (f (snd m) s)) = ss_record i (nv_seen s) \<and>
      owners_step (tells_owner c (fst m)) (snd m) (nv_owners s) (nv_owners (fst (f (snd m) s))))"
    using dispatch_cases [OF Some] unfolding step_ok_def by metis
  ultimately show ?thesis by (elim disjE) auto
qed

definition notify_ok :: "notify_state \<Rightarrow> bool" where
  "notify_ok s \<longleftrightarrow> seen_ok (nv_seen s) \<and> owners_ok (nv_owners s)"

definition same_limits :: "notify_state \<Rightarrow> notify_state \<Rightarrow> bool" where
  "same_limits s s' \<longleftrightarrow> ss_max (nv_seen s') = ss_max (nv_seen s) \<and> om_max (nv_owners s') = om_max (nv_owners s) \<and> om_ttl (nv_owners s') = om_ttl (nv_owners s)"

lemma deliver_ok: "notify_ok s \<Longrightarrow> notify_ok (deliver c m s) \<and> same_limits s (deliver c m s)"
  using deliver_step [of c m s] owners_ok_put owners_ok_get
  by (auto simp: notify_ok_def same_limits_def owners_step_def seen_ok_record) (simp add: ss_record_def evict_seen_latest)+

lemma deliveries_ok: "notify_ok s \<Longrightarrow> notify_ok (fold (deliver c) ms s) \<and> same_limits s (fold (deliver c) ms s)"
proof (induction ms arbitrary: s)
  case (Cons m ms)
  then show ?case using Cons.IH [of "deliver c m s"] deliver_ok [OF Cons.prems, of c m] by (simp add: same_limits_def)
qed (simp add: same_limits_def)

lemma notify_ok_new: "notify_ok (newNotify ttl)" "ss_max (nv_seen (newNotify ttl)) = maxSeenEvents"
  "om_max (nv_owners (newNotify ttl)) = maxTrackedOrders" "om_ttl (nv_owners (newNotify ttl)) = ttl"
  by (simp_all add: notify_ok_def newNotify_def seen_ok_def seen_room_def newSeenSet_def owners_ok_def newOwnerMap_def maxSeenEvents_def)

lemma deliveries_seen: "\<exists>js. length js \<le> length ms \<and> nv_seen (fold (deliver c) ms s) = fold ss_record js (nv_seen s)"
proof (induction ms arbitrary: s)
  case (Cons m ms)
  obtain js where js: "length js \<le> length ms" "nv_seen (fold (deliver c) ms (deliver c m s)) = fold ss_record js (nv_seen (deliver c m s))"
    using Cons.IH by blast
  from deliver_step [of c m s] show ?case
  proof (elim disjE exE conjE)
    assume "deliver c m s = s"
    with js show ?thesis by (intro exI [of _ js]) simp
  next
    fix i assume "nv_seen (deliver c m s) = ss_record i (nv_seen s)"
    with js show ?thesis by (intro exI [of _ "i # js"]) simp
  qed
qed simp

text \<open>An event that was recorded is known during the next deliveries.\<close>

lemma seen_stays:
  assumes "notify_ok s" "nv_seen s1 = ss_record i (nv_seen s)" "notify_ok s1" "length ms < ss_max (nv_seen s)"
  shows "i \<in> ss_ids (nv_seen (fold (deliver c) ms s1))"
proof -
  obtain js where js: "length js \<le> length ms" "nv_seen (fold (deliver c) ms s1) = fold ss_record js (nv_seen s1)"
    using deliveries_seen by blast
  have "suffix (i # js) (ss_order (fold ss_record (i # js) (nv_seen s)))"
    using assms js by (intro seen.kept) (simp_all add: notify_ok_def seen_ok_def)
  then have "i \<in> set (ss_order (nv_seen (fold (deliver c) ms s1)))"
    using js(2) assms(2) set_mono_suffix by fastforce
  then show ?thesis using deliveries_ok [OF assms(3), of c ms] by (simp add: notify_ok_def seen_ok_def)
qed

lemma owner_kept_deliver:
  assumes "owner_kept i u till k (nv_owners s)" "Suc k < om_max (nv_owners s)" "snd m < till" "till \<le> snd m + om_ttl (nv_owners s)"
    and "\<And>v. tells_owner c (fst m) = Some (i, v) \<Longrightarrow> v = u"
  shows "owner_kept i u till (Suc k) (nv_owners (deliver c m s))"
proof -
  have same: "owner_kept i u till (Suc k) (nv_owners s)" using owner_kept_mono [OF assms(1)] by simp
  from deliver_step [of c m s] show ?thesis
  proof (elim disjE exE conjE)
    assume "owners_step (tells_owner c (fst m)) (snd m) (nv_owners s) (nv_owners (deliver c m s))"
    then show ?thesis unfolding owners_step_def
      using same owner_kept_put [OF assms(1,2)] owner_kept_get(1) [OF same assms(3)] assms(4,5) by auto
  qed (use same in simp)
qed

lemma owner_kept_deliveries:
  assumes "notify_ok s" "owner_kept i u till k (nv_owners s)" "k + length ms < om_max (nv_owners s)"
    and "\<And>b t. (b, t) \<in> set ms \<Longrightarrow> t < till \<and> till \<le> t + om_ttl (nv_owners s) \<and> (\<forall>v. tells_owner c b = Some (i, v) \<longrightarrow> v = u)"
  shows "owner_kept i u till (k + length ms) (nv_owners (fold (deliver c) ms s))"
  using assms
proof (induction ms arbitrary: s k)
  case (Cons m ms)
  have "owner_kept i u till (Suc k) (nv_owners (deliver c m s))"
    using Cons.prems(2,3) Cons.prems(4) [of "fst m" "snd m"] by (intro owner_kept_deliver) auto
  moreover have "notify_ok (deliver c m s)" "same_limits s (deliver c m s)" using deliver_ok [OF Cons.prems(1)] by auto
  ultimately have "owner_kept i u till (Suc k + length ms) (nv_owners (fold (deliver c) ms (deliver c m s)))"
    using Cons.prems(3,4) by (intro Cons.IH) (auto simp: same_limits_def)
  then show ?case by simp
qed simp

end
