(* ===== verification/Notify_Props.thy ===== *)
theory Notify_Props
  imports Notify_Live Notify_Laws
begin

text \<open>
  What the notification service guarantees: the ring buffers implement the log of the dispatched
  notifications; a client that reconnects sees every notification once and in order; a redelivered
  event pushes nothing; an order that is ready is announced to its owner.
\<close>

section \<open>The replay buffer\<close>

text \<open>
  C22. The replay buffer, a ring of fixed size with a write index for every customer and role,
  behaves as a log: after any sequence of additions, broadcasts, cleanings and resets, reading it
  yields what the specification that keeps plain lists yields, provided the entries of the customer
  were added in the order of the clock, and the number of unexpired entries reported agrees.
\<close>

theorem replay_refines:
  assumes "l = fold (log_step (nat (rp_maxEvents (NewReplayBuffer mx ttl))) (rp_ttl (NewReplayBuffer mx ttl))) ops log_start"
    and "b = fold buffer_step ops (NewReplayBuffer mx ttl)" and "sorted (map bi_addedAt (lg_customers l u))"
  shows "rp_ReplayFor t u r lastEventID b = log_replay t (rp_ttl b) u r lastEventID l \<and>
    rp_GetAll t u b = map bi_notification (unexpired t (rp_ttl b) (lg_customers l u)) \<and>
    rp_Size t u b = length (unexpired t (rp_ttl b) (lg_customers l u))"
proof -
  have l: "buffer_log b = l" using buffer_fold_log [OF new_buffer(1), of ops mx ttl] assms(1,2) new_buffer(2) by simp
  have "rp_ReplayFor t u q i b = log_replay t (rp_ttl b) u q i l" for q i
    using replay_log [of b u t q i] assms(3) l by simp
  moreover have "rp_Size t u b = length (unexpired t (rp_ttl b) (lg_customers l u))"
    unfolding l [symmetric] by (cases "rp_customers b u") (simp_all add: rp_Size_def buffer_log_def ring_list_def unexpired_def rb_valid_list)
  ultimately show ?thesis by (simp add: rp_GetAll_def rp_Replay_def log_replay_def since_def)
qed

definition sample_note :: "string \<Rightarrow> notification" where
  "sample_note i = \<lparr>n_ID = i, n_Type = ''order.ready'', n_Message = ''ready'', n_OccurredAt = 0, n_Data = ReadyData ''o'' ''A-1'' ''s''\<rparr>"

text \<open>A buffer of two entries that is written four times.\<close>

definition sample_ops :: "buffer_op list" where
  "sample_ops = [AddOp 1 ''ann'' (sample_note ''a''), AddOp 2 ''ann'' (sample_note ''b''), AddOp 2 ''ann'' (sample_note ''a''),
     AddOp 3 ''ann'' (sample_note ''c''), AddOp 4 ''ann'' (sample_note ''d''), CleanOp 5]"

theorem replay_refines_witness:
  "map n_ID (rp_GetAll 6 ''ann'' (fold buffer_step sample_ops (NewReplayBuffer 2 10))) = [''c'', ''d'']"
proof -
  let ?l = "fold (log_step (nat (rp_maxEvents (NewReplayBuffer 2 10))) (rp_ttl (NewReplayBuffer 2 10))) sample_ops log_start"
  have "sorted (map bi_addedAt (lg_customers ?l ''ann''))" by code_simp
  moreover have "map n_ID (map bi_notification (unexpired 6 (rp_ttl (fold buffer_step sample_ops (NewReplayBuffer 2 10))) (lg_customers ?l ''ann''))) = [''c'', ''d'']"
    by code_simp
  ultimately show ?thesis using replay_refines [of ?l 2 10 sample_ops _ "''ann''" 6 "''''" uuid_Nil] by simp
qed









section \<open>Events\<close>

text \<open>An order placed by Ann, and the news that it is ready.\<close>

definition sample_event :: "string \<Rightarrow> string \<Rightarrow> notify_envelope" where
  "sample_event i ty = \<lparr>ev_SpecVersion = ''1.0'', ev_ID = i, ev_Type = ty, ev_Time = 0, ev_Data = ''data''\<rparr>"

definition sample_codec :: notify_codec where
  "sample_codec = \<lparr>k_Envelope = (\<lambda>b. if b = ''placed'' then Some (sample_event ''e1'' notify_TypeOrderPlaced)
        else if b = ''ready'' then Some (sample_event ''e2'' notify_TypeOrderReady) else None),
     k_Placed = (\<lambda>_. Some \<lparr>pl_OrderID = ''o1'', pl_CustomerID = ''ann''\<rparr>), k_Queued = (\<lambda>_. None),
     k_Ready = (\<lambda>_. Some \<lparr>rd_OrderID = ''o1'', rd_QueueNumber = ''A-1'', rd_PickupSlotID = ''s'', rd_CustomerID = uuid_Nil\<rparr>),
     k_Cancelled = (\<lambda>_. None), k_LowStock = (\<lambda>_. None), k_Expiring = (\<lambda>_. None)\<rparr>"

definition sample_placed :: notify_state where
  "sample_placed = deliver sample_codec (''placed'', 1) (newNotify 100)"

lemma sample_seen: "ss_ids (nv_seen sample_placed) = {''e1''}" "deliver sample_codec (''junk'', 5) s = s"
proof -
  have d: "notify_Dispatch sample_codec ''placed'' = Some (OrderPlaced (sample_event ''e1'' notify_TypeOrderPlaced) \<lparr>pl_OrderID = ''o1'', pl_CustomerID = ''ann''\<rparr>)"
    by (simp add: notify_Dispatch_def notify_Parse_def sample_codec_def sample_event_def uuid_Nil_def notify_TypeOrderPlaced_def decode_def)
  show "ss_ids (nv_seen sample_placed) = {''e1''}"
    by (simp add: sample_placed_def deliver_def HandleDelivery_def d OrderPlaced_def when_new_def ss_markNew_def learn_owner_def newNotify_def
      newSeenSet_def ss_record_def maxSeenEvents_def sample_event_def)
  show "deliver sample_codec (''junk'', 5) s = s"
    by (simp add: deliver_def HandleDelivery_def notify_Dispatch_def notify_Parse_def sample_codec_def)
qed

text \<open>
  Delivery is at least once, and a redelivered event pushes nothing: once a readable message has
  been accepted, delivering it again within the next fewer than 50,000 messages is acknowledged,
  changes nothing and pushes nothing.
\<close>

theorem popup_once:
  assumes "s = fold (deliver c) past (newNotify ttl)"
    and "notify_Dispatch c body \<noteq> None" and "\<And>i. event_of c body = Some i \<Longrightarrow> i \<notin> ss_ids (nv_seen s)"
    and "length later < maxSeenEvents" and "s' = fold (deliver c) later (deliver c (body, t) s)"
  shows "HandleDelivery c body t' s' = (AckOne, s', [])"
proof -
  obtain f where f: "notify_Dispatch c body = Some f" using assms(2) by blast
  have h: "HandleDelivery c body x z = (AckOne, f x z)" for x z using f by (simp add: HandleDelivery_def split: prod.split)
  from dispatch_cases [OF f] show ?thesis
  proof (elim disjE exE conjE)
    fix env assume env: "notify_Parse c body = Some env" and st: "step_ok (ev_ID env) (tells_owner c body) f"
    have new: "ev_ID env \<notin> ss_ids (nv_seen s)" using assms(3) env f by (simp add: event_of_def)
    have ok: "notify_ok s" "ss_max (nv_seen s) = maxSeenEvents"
      using deliveries_ok [OF notify_ok_new(1), of c past ttl] assms(1) notify_ok_new(2) by (simp_all add: same_limits_def)
    have "nv_seen (deliver c (body, t) s) = ss_record (ev_ID env) (nv_seen s)"
      using st new h by (simp add: step_ok_def deliver_def)
    then have "ev_ID env \<in> ss_ids (nv_seen s')"
      unfolding assms(5) using seen_stays [OF ok(1)] deliver_ok [OF ok(1)] assms(4) ok(2) by metis
    then show ?thesis using h st by (simp add: step_ok_def)
  qed (simp add: h)
qed

theorem popup_once_witness:
  "HandleDelivery sample_codec ''ready'' 9 (deliver sample_codec (''junk'', 5) (deliver sample_codec (''ready'', 2) sample_placed)) =
     (AckOne, deliver sample_codec (''junk'', 5) (deliver sample_codec (''ready'', 2) sample_placed), [])"
proof -
  have "sample_placed = fold (deliver sample_codec) [(''placed'', 1)] (newNotify 100)" by (simp add: sample_placed_def)
  moreover have "notify_Dispatch sample_codec ''ready'' \<noteq> None" by code_simp
  moreover have "event_of sample_codec ''ready'' = Some ''e2''" by code_simp
  moreover have "''e2'' \<notin> ss_ids (nv_seen sample_placed)" by (simp add: sample_seen)
  ultimately show ?thesis
    using popup_once [of sample_placed sample_codec "[(''placed'', 1)]" 100 "''ready''" "[(''junk'', 5)]" _ 2 9] by (simp add: maxSeenEvents_def)
qed

text \<open>
  An order that is ready is announced to the customer who placed it, although the message names
  only the order: when its \<open>order.placed\<close> was the first news of the order, and neither the time to live
  nor 50,000 messages have passed, the first delivery of \<open>order-ready\<close> pushes exactly one notification,
  to the owner.
\<close>

theorem ready_announced:
  assumes "s = fold (deliver c) past (newNotify ttl)"
    and placed: "notify_Parse c pb = Some penv" "ev_Type penv = notify_TypeOrderPlaced" "k_Placed c (ev_Data penv) = Some pd"
      "pl_OrderID pd \<noteq> uuid_Nil" "pl_CustomerID pd \<noteq> uuid_Nil"
    and new: "ev_ID penv \<notin> ss_ids (nv_seen s)" "pl_OrderID pd \<notin> set (om_order (nv_owners s))"
    and later: "length later < maxTrackedOrders" "s' = fold (deliver c) later (deliver c (pb, t0) s)"
      "\<And>b t. (b, t) \<in> set later \<Longrightarrow> t0 \<le> t \<and> t < t0 + ttl \<and> (\<forall>v. tells_owner c b = Some (pl_OrderID pd, v) \<longrightarrow> v = pl_CustomerID pd)"
    and ready: "notify_Parse c rb = Some renv" "ev_Type renv = notify_TypeOrderReady" "k_Ready c (ev_Data renv) = Some rd"
      "rd_OrderID rd = pl_OrderID pd" "rd_CustomerID rd = uuid_Nil" "ev_ID renv \<notin> ss_ids (nv_seen s')" "t < t0 + ttl"
  shows "\<exists>s''. HandleDelivery c rb t s' = (AckOne, s'', [PushToUser (pl_CustomerID pd) (ready_note renv rd)])"
proof -
  have ok: "notify_ok s" "om_max (nv_owners s) = maxTrackedOrders" "om_ttl (nv_owners s) = ttl"
    using deliveries_ok [OF notify_ok_new(1), of c past ttl] assms(1) notify_ok_new(3,4) by (simp_all add: same_limits_def)
  have "nv_owners (deliver c (pb, t0) s) = om_put t0 (pl_OrderID pd) (pl_CustomerID pd) (nv_owners s)"
    using placed new(1) by (simp add: deliver_def HandleDelivery_def notify_Dispatch_def decode_def OrderPlaced_def when_new_def ss_markNew_def learn_owner_def)
  then have "owner_kept (pl_OrderID pd) (pl_CustomerID pd) (t0 + ttl) 0 (nv_owners (deliver c (pb, t0) s))"
    using owner_kept_new [OF _ new(2)] ok by (simp add: notify_ok_def maxTrackedOrders_def)
  then have "owner_kept (pl_OrderID pd) (pl_CustomerID pd) (t0 + ttl) (0 + length later) (nv_owners s')"
    unfolding later(2) using deliver_ok [OF ok(1), of c "(pb, t0)"] ok later(1,3)
    by (intro owner_kept_deliveries) (auto simp: same_limits_def)
  then obtain m where "om_get t (pl_OrderID pd) (nv_owners s') = (Some (pl_CustomerID pd), m)"
    using owner_kept_get(2) ready(7) by (metis prod.collapse)
  moreover have "notify_TypeOrderReady \<noteq> notify_TypeOrderPlaced" "notify_TypeOrderReady \<noteq> notify_TypeOrderQueued" by code_simp+
  ultimately show ?thesis
    using ready placed(4)
    by (simp add: HandleDelivery_def notify_Dispatch_def decode_def OrderReady_def when_new_def ss_markNew_def toOrderOwner_def)
qed

theorem ready_announced_witness:
  "\<exists>s. HandleDelivery sample_codec ''ready'' 9 (deliver sample_codec (''junk'', 5) sample_placed) =
     (AckOne, s, [PushToUser ''ann'' (ready_note (sample_event ''e2'' notify_TypeOrderReady)
        \<lparr>rd_OrderID = ''o1'', rd_QueueNumber = ''A-1'', rd_PickupSlotID = ''s'', rd_CustomerID = uuid_Nil\<rparr>)])"
proof -
  let ?pd = "\<lparr>pl_OrderID = ''o1'', pl_CustomerID = ''ann''\<rparr>"
  let ?rd = "\<lparr>rd_OrderID = ''o1'', rd_QueueNumber = ''A-1'', rd_PickupSlotID = ''s'', rd_CustomerID = uuid_Nil\<rparr>"
  have p: "notify_Parse sample_codec ''placed'' = Some (sample_event ''e1'' notify_TypeOrderPlaced)"
    "notify_Parse sample_codec ''ready'' = Some (sample_event ''e2'' notify_TypeOrderReady)" "tells_owner sample_codec ''junk'' = None" by code_simp+
  have d: "k_Placed sample_codec z = Some ?pd" "k_Ready sample_codec z = Some ?rd" for z by (simp_all add: sample_codec_def)
  have n: "''e1'' \<notin> ss_ids (nv_seen (newNotify 100))" "''o1'' \<notin> set (om_order (nv_owners (newNotify 100)))"
    "''e2'' \<notin> ss_ids (nv_seen (deliver sample_codec (''junk'', 5) sample_placed))" "''o1'' \<noteq> uuid_Nil" "''ann'' \<noteq> uuid_Nil"
    by (simp_all add: sample_seen newNotify_def newSeenSet_def newOwnerMap_def uuid_Nil_def)
  show ?thesis
    using ready_announced [of "newNotify 100" sample_codec "[]" 100 "''placed''" "sample_event ''e1'' notify_TypeOrderPlaced" ?pd "[(''junk'', 5)]"
      "deliver sample_codec (''junk'', 5) sample_placed" 1 "''ready''" "sample_event ''e2'' notify_TypeOrderReady" ?rd 9] p d n
    by (simp add: maxTrackedOrders_def sample_event_def sample_placed_def)
qed

section \<open>Eviction out of order\<close>

text \<open>
  The owners are not always evicted oldest first. Looking up an order after its time to live removes
  its entry but not its place in the eviction order; when its owner is learned again the order has two
  places, and the next eviction takes the old place and the new entry. Here the map holds two orders:
  \<open>1\<close> expires and is looked up, \<open>2\<close> is learned, then \<open>1\<close> again, and learning \<open>3\<close> evicts the fresh entry of
  \<open>1\<close> instead of \<open>2\<close>.
\<close>

theorem owner_evicted_early:
  "map fst (om_entries (om_put 12 ''3'' ''cat'' (om_put 11 ''1'' ''ann'' (om_put 10 ''2'' ''bob'' (snd (om_get 10 ''1''
     (om_put 0 ''1'' ''ann'' (newOwnerMap 10 2)))))))) = [''2'', ''3'']"
  by code_simp

end
