(* ===== verification/Catalog_Store.thy ===== *)
theory Catalog_Store
  imports Gelato_Text
begin

text \<open>
  The catalog service, part one: the flavors (\<open>model/flavor.go\<close>), the audit records
  (\<open>audit/record.go\<close>), the idempotency requests (\<open>idempotency/request.go\<close>) and the Redis repository
  with its three Lua scripts (\<open>repository/redis_flavor_repository.go\<close>,
  \<open>repository/mutation_replay.go\<close>).

  Redis runs a script atomically, so a script is a function on the store. A key is kept by what it is
  the key of: the flavors and their audit lists by the id, the names by the digest of the
  normalized name, the two caches by the idempotency key. A stored JSON document is the record it
  encodes; \<open>stored\<close> drops the field that has no JSON name. A script can fail because a key has a
  foreign type or an ACL forbids a command, and the connection can break before the script runs or
  after it: \<open>redis_fault\<close> says which, if any.
\<close>

section \<open>Flavors\<close>

definition Allergen_Valid :: "string \<Rightarrow> bool" where
  "Allergen_Valid a \<longleftrightarrow> a \<in> {''MILK'', ''EGG'', ''PEANUT'', ''TREE_NUT'', ''SOY'', ''GLUTEN''}"

record cat_money =
  cm_AmountMinor :: int
  cm_Currency :: string

record cat_flavor =
  cf_ID :: string
  cf_Name :: string
  cf_Description :: string
  cf_Price :: cat_money
  cf_ImageURL :: string
  cf_Allergens :: "string list"
  cf_Active :: bool
  cf_CreatedAt :: time
  cf_UpdatedAt :: time

record flavor_admin =
  fa_Flavor :: cat_flavor
  fa_Recipe :: string
  fa_IdempotentReplay :: bool

definition stored :: "flavor_admin \<Rightarrow> flavor_admin" where
  "stored f = f\<lparr>fa_IdempotentReplay := False\<rparr>"

abbreviation fa_ID :: "flavor_admin \<Rightarrow> string" where "fa_ID f \<equiv> cf_ID (fa_Flavor f)"
abbreviation fa_Name :: "flavor_admin \<Rightarrow> string" where "fa_Name f \<equiv> cf_Name (fa_Flavor f)"

section \<open>Errors\<close>

text \<open>An error that wraps another is the other: callers tell them apart with \<open>errors.Is\<close>.\<close>

datatype cat_error = CatInvalidInput | CatFlavorNotFound | CatNameConflict | CatUpdateConflict | CatAuditStorage
  | CatActorRequired | CatAuditResource | CatIdemConflict | CatIdemUnavailable | CatRedis | CatCanceled

section \<open>Requests\<close>

datatype cat_action = ActCreate | ActUpdate | ActReplace | ActArchive

record idem_request =
  ir_Key :: string
  ir_RawKey :: string
  ir_PayloadHash :: string
  ir_Scope :: string

record cat_ctx =
  cx_actor :: "(string \<times> string) option" \<comment> \<open>id and role\<close>
  cx_action :: "cat_action option"
  cx_request :: "idem_request option"

definition idem_TTL :: int where "idem_TTL = 24 * Hour"

text \<open>
  What the code takes from outside: \<open>strings.ToLower\<close>, the hexadecimal SHA-256, \<open>uuid.Parse\<close>, and
  whether \<open>url.ParseRequestURI\<close> yields an HTTP or HTTPS URL with a host.
\<close>

record cat_lib =
  lib_lower :: "string \<Rightarrow> string"
  lib_sha256 :: "string \<Rightarrow> string"
  lib_uuid :: "string \<Rightarrow> string option"
  lib_url :: "string \<Rightarrow> bool"

section \<open>Audit\<close>

definition WithActor :: "cat_lib \<Rightarrow> string \<Rightarrow> string \<Rightarrow> cat_ctx \<Rightarrow> cat_ctx" where
  "WithActor lib subject role ctx = ctx\<lparr>cx_actor :=
     (case lib_uuid lib subject of
        None \<Rightarrow> Some (uuid_Nil, '''')
      | Some i \<Rightarrow> if i = uuid_Nil \<or> role \<noteq> ''MANAGER'' then Some (uuid_Nil, '''') else Some (i, role))\<rparr>"

definition WithAction :: "cat_action \<Rightarrow> cat_ctx \<Rightarrow> cat_ctx" where
  "WithAction a ctx = ctx\<lparr>cx_action := Some a\<rparr>"

definition MutationAction :: "cat_ctx \<Rightarrow> cat_action" where
  "MutationAction ctx = (case cx_action ctx of Some a \<Rightarrow> a | None \<Rightarrow> ActUpdate)"

definition ManagerID :: "cat_ctx \<Rightarrow> cat_error + string" where
  "ManagerID ctx = (case cx_actor ctx of
     None \<Rightarrow> Inl CatActorRequired
   | Some (i, role) \<Rightarrow> if i = uuid_Nil \<or> role \<noteq> ''MANAGER'' then Inl CatActorRequired else Inr i)"

record audit_state =
  as_Allergens :: "string list"
  as_Active :: bool

record audit_record =
  ar_ID :: string
  ar_ActorID :: string
  ar_ActorRole :: string
  ar_Action :: cat_action
  ar_FlavorID :: string
  ar_OccurredAt :: time
  ar_ChangedFields :: "string list"
  ar_Before :: "audit_state option"
  ar_After :: audit_state

definition audit_state_of :: "flavor_admin \<Rightarrow> audit_state" where
  "audit_state_of f = \<lparr>as_Allergens = cf_Allergens (fa_Flavor f), as_Active = cf_Active (fa_Flavor f)\<rparr>"

definition all_fields :: "string list" where
  "all_fields = [''name'', ''description'', ''price'', ''image_url'', ''allergens'', ''recipe'', ''active'']"

definition changed_fields :: "flavor_admin \<Rightarrow> flavor_admin \<Rightarrow> string list" where
  "changed_fields b a = map fst (filter snd
     [(''name'', fa_Name b \<noteq> fa_Name a),
      (''description'', cf_Description (fa_Flavor b) \<noteq> cf_Description (fa_Flavor a)),
      (''price'', cf_Price (fa_Flavor b) \<noteq> cf_Price (fa_Flavor a)),
      (''image_url'', cf_ImageURL (fa_Flavor b) \<noteq> cf_ImageURL (fa_Flavor a)),
      (''allergens'', cf_Allergens (fa_Flavor b) \<noteq> cf_Allergens (fa_Flavor a)),
      (''recipe'', fa_Recipe b \<noteq> fa_Recipe a),
      (''active'', cf_Active (fa_Flavor b) \<noteq> cf_Active (fa_Flavor a))])"

text \<open>\<open>i\<close> and \<open>t\<close> are the new UUID and the clock reading.\<close>

definition NewRecord :: "string \<Rightarrow> time \<Rightarrow> cat_ctx \<Rightarrow> cat_action \<Rightarrow> flavor_admin option \<Rightarrow> flavor_admin \<Rightarrow> cat_error + audit_record" where
  "NewRecord i t ctx act before after =
     (case ManagerID ctx of
        Inl e \<Rightarrow> Inl e
      | Inr actor \<Rightarrow>
          if fa_ID after = uuid_Nil \<or> (case before of Some b \<Rightarrow> fa_ID b \<noteq> fa_ID after | None \<Rightarrow> False) \<or> act \<noteq> ActCreate \<and> before = None
          then Inl CatAuditResource
          else Inr \<lparr>ar_ID = i, ar_ActorID = actor, ar_ActorRole = ''MANAGER'', ar_Action = act, ar_FlavorID = fa_ID after, ar_OccurredAt = t,
             ar_ChangedFields = (case before of None \<Rightarrow> all_fields | Some b \<Rightarrow> changed_fields b after),
             ar_Before = map_option audit_state_of before, ar_After = audit_state_of after\<rparr>)"

section \<open>Redis\<close>

text \<open>
  A cached creation: the hash of the request and the flavor that was created, or a value that does
  not decode to one.
\<close>

datatype cached_create = CachedCreate string flavor_admin | CachedBroken

record mutationReply =
  mr_PayloadHash :: string
  mr_StatusCode :: nat
  mr_Body :: "flavor_admin option" \<comment> \<open>\<open>None\<close> is the empty body\<close>

record redis =
  rs_flavors :: "string \<rightharpoonup> flavor_admin"
  rs_names :: "string \<rightharpoonup> string"
  rs_ids :: "string set"
  rs_audit :: "string \<Rightarrow> audit_record list"
  rs_idem :: "string \<rightharpoonup> cached_create \<times> time option"
  rs_replay :: "string \<rightharpoonup> mutationReply \<times> time option"

text \<open>\<open>GET\<close> of a key that may have expired.\<close>

definition live :: "time \<Rightarrow> ('k \<rightharpoonup> 'v \<times> time option) \<Rightarrow> 'k \<Rightarrow> 'v option" where
  "live t m k = (case m k of
     None \<Rightarrow> None
   | Some (v, None) \<Rightarrow> Some v
   | Some (v, Some e) \<Rightarrow> if t < e then Some v else None)"

datatype redis_fault = NoFault | LostBefore | LostAfter | TypeCache nat | AclCache | TypeStore | AclStore

datatype 'a script_result = Code int | Wrote | Replayed 'a

definition nameKey :: "cat_lib \<Rightarrow> string \<Rightarrow> string" where
  "nameKey lib name = lib_sha256 lib (lib_lower lib (TrimSpace name))"

section \<open>Creating\<close>

text \<open>The lookup loop over the canonical and the legacy key: \<open>None\<close> when neither holds a value.\<close>

fun lookup_created :: "redis_fault \<Rightarrow> time \<Rightarrow> string \<Rightarrow> nat \<Rightarrow> string list \<Rightarrow> redis \<Rightarrow> flavor_admin script_result option" where
  "lookup_created fault t hash k [] r = None"
| "lookup_created fault t hash k (key # ks) r =
     (if fault = TypeCache k then Some (Code (- 4))
      else case live t (rs_idem r) key of
        None \<Rightarrow> lookup_created fault t hash (Suc k) ks r
      | Some CachedBroken \<Rightarrow> Some (Code (- 4))
      | Some (CachedCreate h body) \<Rightarrow> if h \<noteq> hash then Some (Code (- 5)) else Some (Replayed body))"

definition write_new :: "string \<Rightarrow> flavor_admin \<Rightarrow> audit_record \<Rightarrow> redis \<Rightarrow> redis" where
  "write_new nk payload history r = r\<lparr>rs_flavors := (rs_flavors r)(fa_ID payload \<mapsto> payload),
     rs_names := (rs_names r)(nk \<mapsto> fa_ID payload), rs_ids := insert (fa_ID payload) (rs_ids r),
     rs_audit := (rs_audit r)(fa_ID payload := rs_audit r (fa_ID payload) @ [history])\<rparr>"

definition createFlavorScript :: "redis_fault \<Rightarrow> time \<Rightarrow> (string \<times> string \<times> string) option \<Rightarrow> string \<Rightarrow> flavor_admin \<Rightarrow> audit_record \<Rightarrow>
    redis \<Rightarrow> flavor_admin script_result \<times> redis" where
  "createFlavorScript fault t keyed nk payload history r =
     (case (case keyed of None \<Rightarrow> None | Some (key, legacyKey, hash) \<Rightarrow> lookup_created fault t hash 0 [key, legacyKey] r) of
        Some res \<Rightarrow> (res, r)
      | None \<Rightarrow>
          if keyed \<noteq> None \<and> fault = AclCache then (Code (- 4), r)
          else if fault = TypeStore then (Code (- 3), r)
          else if rs_names r nk \<noteq> None then (Code 0, r)
          else if rs_flavors r (fa_ID payload) \<noteq> None then (Code (- 2), r)
          else if fault = AclStore then (Code (- 3), r)
          else
            let r1 = write_new nk payload history r in
            (Wrote, case keyed of
               None \<Rightarrow> r1
             | Some (key, legacyKey, hash) \<Rightarrow> r1\<lparr>rs_idem := (rs_idem r1)(key \<mapsto> (CachedCreate hash payload, Some (t + idem_TTL)))\<rparr>))"

text \<open>The environment of one operation: clock readings, new UUIDs and what fails.\<close>

record cat_world =
  cw_now :: time
  cw_id :: string
  cw_audit_id :: string
  cw_audit_now :: time
  cw_redis_now :: time
  cw_fault :: redis_fault
  cw_legacyReady :: bool \<comment> \<open>of the repository\<close>
  cw_scan :: "string list option list" \<comment> \<open>the pages of keys, if they are read\<close>
  cw_scan_fault :: "string \<Rightarrow> redis_fault"
  cw_lookup_fails :: bool
  cw_read_fails :: bool

text \<open>A script is run: it may not reach Redis, or its answer may be lost.\<close>

definition run_script :: "redis_fault \<Rightarrow> (redis \<Rightarrow> 'a \<times> redis) \<Rightarrow> redis \<Rightarrow> 'a option \<times> redis" where
  "run_script fault f r = (if fault = LostBefore then (None, r)
     else case f r of (a, r') \<Rightarrow> (if fault = LostAfter then None else Some a, r'))"

text \<open>
  The entry of a key that is spelled differently is copied to the canonical key. The later expiry
  is kept; entries that do not decode or do not agree block the key. \<open>TypeStore\<close> stands for a
  canonical key of a foreign type.
\<close>

definition later_expiry :: "time option \<Rightarrow> time option \<Rightarrow> time option" where
  "later_expiry a b = (case (a, b) of (Some x, Some y) \<Rightarrow> Some (max x y) | _ \<Rightarrow> None)"

definition live_entry :: "time \<Rightarrow> ('k \<rightharpoonup> 'v \<times> time option) \<Rightarrow> 'k \<Rightarrow> ('v \<times> time option) option" where
  "live_entry t m k = (if live t m k = None then None else m k)"

definition reconcileIdempotencyScript :: "redis_fault \<Rightarrow> time \<Rightarrow> string \<Rightarrow> string \<Rightarrow> redis \<Rightarrow> redis" where
  "reconcileIdempotencyScript fault t src dst r =
     (case live_entry t (rs_idem r) src of
        None \<Rightarrow> r
      | Some (source, sourceTTL) \<Rightarrow>
          if fault = TypeStore then r
          else
            let value = (case live_entry t (rs_idem r) dst of
                  None \<Rightarrow> source
                | Some (destination, _) \<Rightarrow> if source \<noteq> CachedBroken \<and> destination = source then source else CachedBroken);
                ttl = (case live_entry t (rs_idem r) dst of
                  None \<Rightarrow> sourceTTL
                | Some (_, destinationTTL) \<Rightarrow> later_expiry sourceTTL destinationTTL)
            in r\<lparr>rs_idem := (rs_idem r)(dst \<mapsto> (value, ttl))\<rparr>)"

text \<open>
  \<open>PrepareIdempotency\<close> on the pages that \<open>SCAN\<close> returns, without the prefix of the keys; \<open>None\<close> is a
  command that fails, and a script that fails ends the loop with an error too.
\<close>

fun prepare_page :: "cat_lib \<Rightarrow> (string \<Rightarrow> redis_fault) \<Rightarrow> time \<Rightarrow> string list \<Rightarrow> redis \<Rightarrow> bool \<times> redis" where
  "prepare_page lib fault t [] r = (True, r)"
| "prepare_page lib fault t (key # ks) r =
     (case lib_uuid lib key of
        None \<Rightarrow> prepare_page lib fault t ks r
      | Some i \<Rightarrow>
          if key = i then prepare_page lib fault t ks r
          else case run_script (fault key) (\<lambda>r. ((), reconcileIdempotencyScript (fault key) t key i r)) r of
            (None, r') \<Rightarrow> (False, r')
          | (Some _, r') \<Rightarrow> prepare_page lib fault t ks r')"

fun prepare_pages :: "cat_lib \<Rightarrow> (string \<Rightarrow> redis_fault) \<Rightarrow> time \<Rightarrow> string list option list \<Rightarrow> redis \<Rightarrow> bool \<times> redis" where
  "prepare_pages lib fault t [] r = (True, r)"
| "prepare_pages lib fault t (None # ps) r = (False, r)"
| "prepare_pages lib fault t (Some keys # ps) r =
     (case prepare_page lib fault t keys r of
        (False, r') \<Rightarrow> (False, r')
      | (True, r') \<Rightarrow> prepare_pages lib fault t ps r')"

definition PrepareIdempotency :: "cat_lib \<Rightarrow> (string \<Rightarrow> redis_fault) \<Rightarrow> time \<Rightarrow> string list option list \<Rightarrow> bool \<Rightarrow> redis \<Rightarrow>
    (bool \<times> bool) \<times> redis" where
  "PrepareIdempotency lib fault t pages legacyReady r =
     (if legacyReady then ((True, True), r)
      else case prepare_pages lib fault t pages r of (done', r') \<Rightarrow> ((done', done'), r'))"

definition hex_digit :: "char \<Rightarrow> bool" where
  "hex_digit c \<longleftrightarrow> c \<in> set ''0123456789abcdefABCDEF''"

text \<open>\<open>hex.DecodeString\<close> accepts the text.\<close>

definition hex_ok :: "string \<Rightarrow> bool" where
  "hex_ok s \<longleftrightarrow> even (length s) \<and> list_all hex_digit s"

definition request_ok :: "cat_lib \<Rightarrow> idem_request \<Rightarrow> bool" where
  "request_ok lib q \<longleftrightarrow> length (ir_PayloadHash q) = 64 \<and> hex_ok (ir_PayloadHash q) \<and> lib_uuid lib (ir_RawKey q) = Some (ir_Key q)"

definition create_code :: "int \<Rightarrow> cat_error" where
  "create_code c = (if c = - 5 then CatIdemConflict else if c = - 4 then CatIdemUnavailable else if c = - 3 then CatAuditStorage
     else if c = - 2 then CatUpdateConflict else if c = 0 then CatNameConflict else CatIdemUnavailable)"

definition repo_create :: "cat_lib \<Rightarrow> cat_world \<Rightarrow> cat_ctx \<Rightarrow> flavor_admin \<Rightarrow> idem_request option \<Rightarrow> redis \<Rightarrow>
    (cat_error + flavor_admin \<times> bool) \<times> redis" where
  "repo_create lib w ctx flavor request r =
     (case NewRecord (cw_audit_id w) (cw_audit_now w) ctx ActCreate None flavor of
        Inl e \<Rightarrow> (Inl e, r)
      | Inr history \<Rightarrow>
          if (case request of None \<Rightarrow> False | Some q \<Rightarrow> \<not> request_ok lib q) then (Inl CatIdemUnavailable, r)
          else (case (if request = None then ((True, cw_legacyReady w), r)
              else PrepareIdempotency lib (cw_scan_fault w) (cw_redis_now w) (cw_scan w) (cw_legacyReady w) r) of
            ((False, _), r) \<Rightarrow> (Inl CatIdemUnavailable, r)
          | ((True, _), r) \<Rightarrow>
            let keyed = map_option (\<lambda>q. (ir_Key q, ir_RawKey q, ir_PayloadHash q)) request in
            (case run_script (cw_fault w)
                (createFlavorScript (cw_fault w) (cw_redis_now w) keyed (nameKey lib (fa_Name flavor)) (stored flavor) history) r of
               (None, r') \<Rightarrow> (Inl (if request \<noteq> None then CatIdemUnavailable else CatRedis), r')
             | (Some (Code c), r') \<Rightarrow> (Inl (create_code c), r')
             | (Some Wrote, r') \<Rightarrow> (Inr (flavor, False), r')
             | (Some (Replayed original), r') \<Rightarrow>
                 (if fa_ID original = uuid_Nil then Inl CatIdemUnavailable else Inr (original, True), r'))))"

section \<open>Updating\<close>

definition write_update :: "string \<Rightarrow> string \<Rightarrow> flavor_admin \<Rightarrow> audit_record \<Rightarrow> redis \<Rightarrow> redis" where
  "write_update nk1 nk2 payload history r =
     (let i = fa_ID payload;
          names = (if nk1 \<noteq> nk2 \<and> rs_names r nk1 = Some i then (rs_names r)(nk1 := None) else rs_names r)
      in r\<lparr>rs_names := names(nk2 \<mapsto> i), rs_flavors := (rs_flavors r)(i \<mapsto> payload),
           rs_audit := (rs_audit r)(i := rs_audit r i @ [history])\<rparr>)"

definition updateFlavorScript :: "redis_fault \<Rightarrow> string \<Rightarrow> string \<Rightarrow> flavor_admin \<Rightarrow> flavor_admin \<Rightarrow> audit_record \<Rightarrow> redis \<Rightarrow> int \<times> redis" where
  "updateFlavorScript fault nk1 nk2 payload expected history r =
     (if fault = TypeStore then (- 3, r)
      else case rs_flavors r (fa_ID payload) of
        None \<Rightarrow> (- 1, r)
      | Some current \<Rightarrow>
          if current \<noteq> expected then (- 2, r)
          else if rs_names r nk2 \<noteq> None \<and> rs_names r nk2 \<noteq> Some (fa_ID payload) then (0, r)
          else if fault = AclStore then (- 3, r)
          else (1, write_update nk1 nk2 payload history r))"

definition mutationReplayScript :: "redis_fault \<Rightarrow> time \<Rightarrow> string \<Rightarrow> string \<Rightarrow> string \<Rightarrow> flavor_admin \<Rightarrow> flavor_admin \<Rightarrow> audit_record \<Rightarrow>
    string \<Rightarrow> mutationReply \<Rightarrow> redis \<Rightarrow> mutationReply script_result \<times> redis" where
  "mutationReplayScript fault t key nk1 nk2 payload expected history hash cached r =
     (if fault = TypeCache 0 then (Code (- 4), r)
      else case live t (rs_replay r) key of
        Some reply \<Rightarrow>
          if mr_StatusCode reply \<noteq> 200 \<and> mr_StatusCode reply \<noteq> 204 then (Code (- 4), r)
          else if mr_PayloadHash reply \<noteq> hash then (Code (- 5), r)
          else (Replayed reply, r)
      | None \<Rightarrow>
          let save = (\<lambda>r. r\<lparr>rs_replay := (rs_replay r)(key \<mapsto> (cached, Some (t + idem_TTL)))\<rparr>) in
          if fault = AclCache then (Code (- 4), r)
          else if fault = TypeStore then (Code (- 3), r)
          else (case rs_flavors r (fa_ID payload) of
            None \<Rightarrow> (Code (- 1), r)
          | Some current \<Rightarrow>
              if current \<noteq> expected then (Code (- 2), r)
              else if payload = expected then (Wrote, save r)
              else if rs_names r nk2 \<noteq> None \<and> rs_names r nk2 \<noteq> Some (fa_ID payload) then (Code 0, r)
              else if fault = AclStore then (Code (- 3), r)
              else (Wrote, save (write_update nk1 nk2 payload history r))))"

text \<open>The method and the status of a keyed mutation.\<close>

definition method_of :: "cat_action \<Rightarrow> (string \<times> nat) option" where
  "method_of a = (case a of ActUpdate \<Rightarrow> Some (''PATCH'', 200) | ActReplace \<Rightarrow> Some (''PUT'', 200)
     | ActArchive \<Rightarrow> Some (''DELETE'', 204) | ActCreate \<Rightarrow> None)"

definition mutationFingerprint :: "cat_lib \<Rightarrow> cat_ctx \<Rightarrow> string \<Rightarrow> idem_request \<Rightarrow> cat_error + string \<times> nat" where
  "mutationFingerprint lib ctx i q =
     (case ManagerID ctx of
        Inl e \<Rightarrow> Inl e
      | Inr actor \<Rightarrow>
          (case method_of (MutationAction ctx) of
             None \<Rightarrow> Inl CatIdemUnavailable
           | Some (method, status) \<Rightarrow>
               if lib_uuid lib (ir_RawKey q) \<noteq> Some (ir_Key q) \<or> ir_Key q = uuid_Nil \<or> i = uuid_Nil \<or>
                  ir_Scope q \<noteq> method @ '':'' @ i \<or> length (ir_PayloadHash q) \<noteq> 64 then Inl CatIdemUnavailable
               else if \<not> hex_ok (ir_PayloadHash q) then Inl CatIdemUnavailable
               else Inr (lib_sha256 lib (actor @ [CHR 0x0A] @ ir_Scope q @ [CHR 0x0A] @ ir_PayloadHash q), status)))"

definition decodeMutationReply :: "mutationReply \<Rightarrow> string \<Rightarrow> nat \<Rightarrow> string \<Rightarrow> cat_error + flavor_admin option" where
  "decodeMutationReply reply hash status i =
     (if length (mr_PayloadHash reply) \<noteq> 64 \<or> mr_StatusCode reply \<noteq> 200 \<and> mr_StatusCode reply \<noteq> 204 then Inl CatIdemUnavailable
      else if mr_PayloadHash reply \<noteq> hash then Inl CatIdemConflict
      else if mr_StatusCode reply \<noteq> status then Inl CatIdemUnavailable
      else if status = 204 then (if mr_Body reply \<noteq> None then Inl CatIdemUnavailable else Inr None)
      else case mr_Body reply of
        None \<Rightarrow> Inl CatIdemUnavailable
      | Some original \<Rightarrow> if fa_ID original \<noteq> i then Inl CatIdemUnavailable else Inr (Some (original\<lparr>fa_IdempotentReplay := True\<rparr>)))"

text \<open>\<open>LookupMutation\<close>: nothing cached, or the original answer.\<close>

definition LookupMutation :: "cat_lib \<Rightarrow> cat_world \<Rightarrow> cat_ctx \<Rightarrow> string \<Rightarrow> idem_request \<Rightarrow> redis \<Rightarrow> cat_error + flavor_admin option option" where
  "LookupMutation lib w ctx i q r =
     (case mutationFingerprint lib ctx i q of
        Inl e \<Rightarrow> Inl e
      | Inr (hash, status) \<Rightarrow>
          if cw_lookup_fails w then Inl CatIdemUnavailable
          else case live (cw_redis_now w) (rs_replay r) (ir_Key q) of
            None \<Rightarrow> Inr None
          | Some reply \<Rightarrow> map_sum id Some (decodeMutationReply reply hash status i))"

definition update_code :: "int \<Rightarrow> cat_error option" where
  "update_code c = (if c = - 3 then Some CatAuditStorage else if c = - 2 then Some CatUpdateConflict
     else if c = - 1 then Some CatFlavorNotFound else if c = 0 then Some CatNameConflict else None)"

definition replay_code :: "int \<Rightarrow> cat_error" where
  "replay_code c = (if c = - 5 then CatIdemConflict else if c = - 4 then CatIdemUnavailable
     else case update_code c of Some e \<Rightarrow> e | None \<Rightarrow> CatIdemUnavailable)"

definition updateIdempotent :: "cat_lib \<Rightarrow> cat_world \<Rightarrow> cat_ctx \<Rightarrow> flavor_admin \<Rightarrow> flavor_admin \<Rightarrow> idem_request \<Rightarrow> redis \<Rightarrow>
    (cat_error + flavor_admin) \<times> redis" where
  "updateIdempotent lib w ctx previous flavor q r =
     (case mutationFingerprint lib ctx (fa_ID flavor) q of
        Inl e \<Rightarrow> (Inl e, r)
      | Inr (hash, status) \<Rightarrow>
          (case NewRecord (cw_audit_id w) (cw_audit_now w) ctx (MutationAction ctx) (Some previous) flavor of
             Inl e \<Rightarrow> (Inl e, r)
           | Inr history \<Rightarrow>
               let cached = \<lparr>mr_PayloadHash = hash, mr_StatusCode = status, mr_Body = (if status = 204 then None else Some (stored flavor))\<rparr> in
               (case run_script (cw_fault w)
                   (mutationReplayScript (cw_fault w) (cw_redis_now w) (ir_Key q) (nameKey lib (fa_Name previous)) (nameKey lib (fa_Name flavor))
                     (stored flavor) (stored previous) history hash cached) r of
                  (None, r') \<Rightarrow> (Inl CatIdemUnavailable, r')
                | (Some (Code c), r') \<Rightarrow> (Inl (replay_code c), r')
                | (Some Wrote, r') \<Rightarrow> (Inr flavor, r')
                | (Some (Replayed reply), r') \<Rightarrow>
                    (case decodeMutationReply reply hash status (fa_ID flavor) of
                       Inl e \<Rightarrow> (Inl e, r')
                     | Inr (Some original) \<Rightarrow> (Inr original, r')
                     | Inr None \<Rightarrow> (Inr (flavor\<lparr>fa_IdempotentReplay := True\<rparr>), r')))))"

definition plain_update :: "cat_lib \<Rightarrow> cat_world \<Rightarrow> cat_ctx \<Rightarrow> flavor_admin \<Rightarrow> flavor_admin \<Rightarrow> redis \<Rightarrow> (cat_error + flavor_admin) \<times> redis" where
  "plain_update lib w ctx previous flavor r =
     (case NewRecord (cw_audit_id w) (cw_audit_now w) ctx (MutationAction ctx) (Some previous) flavor of
        Inl e \<Rightarrow> (Inl e, r)
      | Inr history \<Rightarrow>
          (case run_script (cw_fault w)
              (updateFlavorScript (cw_fault w) (nameKey lib (fa_Name previous)) (nameKey lib (fa_Name flavor)) (stored flavor) (stored previous) history) r of
             (None, r') \<Rightarrow> (Inl CatRedis, r')
           | (Some c, r') \<Rightarrow> (case update_code c of Some e \<Rightarrow> (Inl e, r') | None \<Rightarrow> (Inr flavor, r'))))"

definition repo_Update :: "cat_lib \<Rightarrow> cat_world \<Rightarrow> cat_ctx \<Rightarrow> flavor_admin \<Rightarrow> flavor_admin \<Rightarrow> redis \<Rightarrow> (cat_error + flavor_admin) \<times> redis" where
  "repo_Update lib w ctx previous flavor r =
     (case cx_request ctx of
        Some q \<Rightarrow> if ir_Scope q \<noteq> '''' then updateIdempotent lib w ctx previous flavor q r else plain_update lib w ctx previous flavor r
      | None \<Rightarrow> plain_update lib w ctx previous flavor r)"

section \<open>Reading\<close>

definition FindByID :: "cat_world \<Rightarrow> string \<Rightarrow> redis \<Rightarrow> cat_error + flavor_admin" where
  "FindByID w i r = (if cw_read_fails w then Inl CatRedis
     else case rs_flavors r i of None \<Rightarrow> Inl CatFlavorNotFound | Some f \<Rightarrow> Inr f)"

text \<open>
  The members of the set of ids, in order; an id that does not parse or has no flavor is skipped.
  Then the flavors are sorted by name, regardless of case, and id.
\<close>

definition repo_List :: "cat_lib \<Rightarrow> cat_world \<Rightarrow> redis \<Rightarrow> cat_error + flavor_admin list" where
  "repo_List lib w r =
     (if cw_read_fails w then Inl CatRedis
      else
        let ids = List.map_filter (lib_uuid lib) (sorted_list_of_set (rs_ids r));
            flavors = List.map_filter (rs_flavors r) ids
        in Inr (sort_key (\<lambda>f. (lib_lower lib (fa_Name f), fa_ID f)) flavors))"

end
