(* ===== verification/Catalog_Service.thy ===== *)
theory Catalog_Service
  imports Catalog_Store
begin

text \<open>
  The catalog service, part two: validation and the operations of \<open>service/catalog_service.go\<close>.

  An operation sends several commands to Redis, and other requests may run in between. Every
  operation therefore takes the states in which its commands run: \<open>r0\<close> for the lookup of the
  idempotency key, \<open>r1\<close> for the read of the flavor, and \<open>r\<close> for the script, whose result it returns.
\<close>

section \<open>Validation\<close>

record flavor_input =
  fi_Name :: "string option"
  fi_Description :: "string option"
  fi_Price :: "cat_money option"
  fi_ImageURL :: "string option"
  fi_Allergens :: "string list option"
  fi_Recipe :: "string option"
  fi_Active :: "bool option"

definition validateName :: "string \<Rightarrow> cat_error + string" where
  "validateName raw = (let name = TrimSpace raw; count = RuneCount name in
     if count < 1 \<or> count > 100 then Inl CatInvalidInput else Inr name)"

definition validateDescription :: "string \<Rightarrow> cat_error + string" where
  "validateDescription raw = (let description = TrimSpace raw in
     if RuneCount description > 1000 then Inl CatInvalidInput else Inr description)"

definition validateMoney :: "cat_money \<Rightarrow> cat_error + cat_money" where
  "validateMoney m = (if cm_AmountMinor m < 0 \<or> cm_Currency m \<noteq> ''THB'' then Inl CatInvalidInput else Inr m)"

definition validateImageURL :: "cat_lib \<Rightarrow> string \<Rightarrow> cat_error + string" where
  "validateImageURL lib raw = (let value = TrimSpace raw in if lib_url lib value then Inr value else Inl CatInvalidInput)"

fun allergens_ok :: "string set \<Rightarrow> string list \<Rightarrow> bool" where
  "allergens_ok seen [] = True"
| "allergens_ok seen (a # as) = (if \<not> Allergen_Valid a then False else if a \<in> seen then False else allergens_ok (insert a seen) as)"

definition validateAllergens :: "string list \<Rightarrow> cat_error + string list" where
  "validateAllergens raw = (if allergens_ok {} raw then Inr (sort raw) else Inl CatInvalidInput)"

definition validateRecipe :: "string \<Rightarrow> cat_error + string" where
  "validateRecipe raw = (let recipe = TrimSpace raw in if recipe = '''' then Inl CatInvalidInput else Inr recipe)"

text \<open>The next step on success.\<close>

definition andThen :: "'e + 'a \<Rightarrow> ('a \<Rightarrow> 'e + 'b) \<Rightarrow> 'e + 'b" where
  "andThen x f = (case x of Inl e \<Rightarrow> Inl e | Inr a \<Rightarrow> f a)"

text \<open>The validated fields of a complete input, as a flavor without identity and times.\<close>

definition validateCreateInput :: "cat_lib \<Rightarrow> flavor_input \<Rightarrow> cat_error + flavor_admin" where
  "validateCreateInput lib input =
     (case (fi_Name input, fi_Description input, fi_Price input, fi_Allergens input, fi_Recipe input) of
        (Some n, Some d, Some p, Some as, Some re) \<Rightarrow>
          andThen (validateName n) (\<lambda>name.
          andThen (validateDescription d) (\<lambda>description.
          andThen (validateMoney p) (\<lambda>price.
          andThen (case fi_ImageURL input of None \<Rightarrow> Inr '''' | Some u \<Rightarrow> validateImageURL lib u) (\<lambda>imageURL.
          andThen (validateAllergens as) (\<lambda>allergens.
          andThen (validateRecipe re) (\<lambda>recipe.
            Inr \<lparr>fa_Flavor = \<lparr>cf_ID = uuid_Nil, cf_Name = name, cf_Description = description, cf_Price = price, cf_ImageURL = imageURL,
                cf_Allergens = allergens, cf_Active = (case fi_Active input of None \<Rightarrow> True | Some a \<Rightarrow> a),
                cf_CreatedAt = 0, cf_UpdatedAt = 0\<rparr>, fa_Recipe = recipe, fa_IdempotentReplay = False\<rparr>))))))
      | _ \<Rightarrow> Inl CatInvalidInput)"

definition hasUpdate :: "flavor_input \<Rightarrow> bool" where
  "hasUpdate input \<longleftrightarrow> fi_Name input \<noteq> None \<or> fi_Description input \<noteq> None \<or> fi_Price input \<noteq> None \<or> fi_ImageURL input \<noteq> None \<or>
     fi_Allergens input \<noteq> None \<or> fi_Recipe input \<noteq> None \<or> fi_Active input \<noteq> None"

section \<open>Creating\<close>

definition identified :: "string \<Rightarrow> time \<Rightarrow> time \<Rightarrow> flavor_admin \<Rightarrow> flavor_admin" where
  "identified i created updated f = f\<lparr>fa_Flavor := (fa_Flavor f)\<lparr>cf_ID := i, cf_CreatedAt := created, cf_UpdatedAt := updated\<rparr>\<rparr>"

definition cat_Create :: "cat_lib \<Rightarrow> cat_world \<Rightarrow> cat_ctx \<Rightarrow> flavor_input \<Rightarrow> redis \<Rightarrow> (cat_error + flavor_admin) \<times> redis" where
  "cat_Create lib w ctx input r =
     (case validateCreateInput lib input of
        Inl e \<Rightarrow> (Inl e, r)
      | Inr f \<Rightarrow>
          (case repo_create lib w ctx (identified (cw_id w) (cw_now w) (cw_now w) f) (cx_request ctx) r of
             (Inl e, r') \<Rightarrow> (Inl e, r')
           | (Inr (flavor, replayed), r') \<Rightarrow> (Inr (if replayed then flavor\<lparr>fa_IdempotentReplay := True\<rparr> else flavor), r')))"

section \<open>Reading\<close>

datatype ReadScope = PublicRead | ManagerRead

definition cat_List :: "cat_lib \<Rightarrow> cat_world \<Rightarrow> bool option \<Rightarrow> ReadScope \<Rightarrow> redis \<Rightarrow> cat_error + cat_flavor list" where
  "cat_List lib w active scope r =
     andThen (repo_List lib w r) (\<lambda>records.
       Inr (map fa_Flavor (filter (\<lambda>f. \<not> (\<not> cf_Active (fa_Flavor f) \<and> scope \<noteq> ManagerRead) \<and>
         \<not> (active \<noteq> None \<and> active \<noteq> Some (cf_Active (fa_Flavor f)))) records)))"

definition cat_Get :: "cat_world \<Rightarrow> string \<Rightarrow> ReadScope \<Rightarrow> redis \<Rightarrow> cat_error + cat_flavor" where
  "cat_Get w i scope r =
     andThen (FindByID w i r) (\<lambda>record.
       if \<not> cf_Active (fa_Flavor record) \<and> scope \<noteq> ManagerRead then Inl CatFlavorNotFound else Inr (fa_Flavor record))"

text \<open>
  \<open>BatchGet\<close> reads one flavor after the other: \<open>at k\<close> is the state of the \<open>k\<close>-th read, \<open>w k\<close> its
  environment and \<open>stop k\<close> whether the request is cancelled before it.
\<close>

fun batch_loop :: "(nat \<Rightarrow> cat_world) \<Rightarrow> (nat \<Rightarrow> bool) \<Rightarrow> (nat \<Rightarrow> redis) \<Rightarrow> ReadScope \<Rightarrow> nat \<Rightarrow> string list \<Rightarrow> cat_error + cat_flavor list" where
  "batch_loop w stop at scope k [] = Inr []"
| "batch_loop w stop at scope k (i # is) =
     (if stop k then Inl CatCanceled
      else andThen (cat_Get (w k) i scope (at k)) (\<lambda>f. andThen (batch_loop w stop at scope (Suc k) is) (\<lambda>fs. Inr (f # fs))))"

definition cat_BatchGet :: "(nat \<Rightarrow> cat_world) \<Rightarrow> (nat \<Rightarrow> bool) \<Rightarrow> (nat \<Rightarrow> redis) \<Rightarrow> string list \<Rightarrow> ReadScope \<Rightarrow> cat_error + cat_flavor list" where
  "cat_BatchGet w stop at ids scope =
     (if length ids < 1 \<or> length ids > 100 then Inl CatInvalidInput
      else if \<not> distinct ids then Inl CatInvalidInput
      else batch_loop w stop at scope 0 ids)"

record flavor_recipe =
  fr_FlavorID :: string
  fr_Recipe :: string
  fr_UpdatedAt :: time

definition cat_GetRecipe :: "cat_world \<Rightarrow> string \<Rightarrow> redis \<Rightarrow> cat_error + flavor_recipe" where
  "cat_GetRecipe w i r = andThen (FindByID w i r) (\<lambda>f.
     Inr \<lparr>fr_FlavorID = fa_ID f, fr_Recipe = fa_Recipe f, fr_UpdatedAt = cf_UpdatedAt (fa_Flavor f)\<rparr>)"

section \<open>Changing\<close>

definition replayMutation :: "cat_lib \<Rightarrow> cat_world \<Rightarrow> cat_ctx \<Rightarrow> string \<Rightarrow> redis \<Rightarrow> cat_error + flavor_admin option option" where
  "replayMutation lib w ctx i r = (case cx_request ctx of None \<Rightarrow> Inr None | Some q \<Rightarrow> LookupMutation lib w ctx i q r)"

text \<open>The clock, or a millisecond after the last change.\<close>

definition next_update :: "time \<Rightarrow> time \<Rightarrow> time" where
  "next_update now previous = (if \<not> previous < now then previous + 1000000 else now)"

text \<open>The fields of the input, validated, over a record.\<close>

definition set_field :: "('a \<Rightarrow> cat_error + 'b) \<Rightarrow> ('b \<Rightarrow> flavor_admin \<Rightarrow> flavor_admin) \<Rightarrow> 'a option \<Rightarrow> flavor_admin \<Rightarrow> cat_error + flavor_admin" where
  "set_field check put v f = (case v of None \<Rightarrow> Inr f | Some x \<Rightarrow> andThen (check x) (\<lambda>y. Inr (put y f)))"

definition put_flavor :: "(cat_flavor \<Rightarrow> cat_flavor) \<Rightarrow> flavor_admin \<Rightarrow> flavor_admin" where
  "put_flavor g f = f\<lparr>fa_Flavor := g (fa_Flavor f)\<rparr>"

definition apply_input :: "cat_lib \<Rightarrow> flavor_input \<Rightarrow> flavor_admin \<Rightarrow> cat_error + flavor_admin" where
  "apply_input lib input f =
     andThen (set_field validateName (\<lambda>x. put_flavor (cf_Name_update (\<lambda>_. x))) (fi_Name input) f) (\<lambda>f.
     andThen (set_field validateDescription (\<lambda>x. put_flavor (cf_Description_update (\<lambda>_. x))) (fi_Description input) f) (\<lambda>f.
     andThen (set_field validateMoney (\<lambda>x. put_flavor (cf_Price_update (\<lambda>_. x))) (fi_Price input) f) (\<lambda>f.
     andThen (set_field (validateImageURL lib) (\<lambda>x. put_flavor (cf_ImageURL_update (\<lambda>_. x))) (fi_ImageURL input) f) (\<lambda>f.
     andThen (set_field validateAllergens (\<lambda>x. put_flavor (cf_Allergens_update (\<lambda>_. x))) (fi_Allergens input) f) (\<lambda>f.
     andThen (set_field validateRecipe (\<lambda>x f. f\<lparr>fa_Recipe := x\<rparr>) (fi_Recipe input) f) (\<lambda>f.
     set_field Inr (\<lambda>x. put_flavor (cf_Active_update (\<lambda>_. x))) (fi_Active input) f))))))"

definition touched :: "time \<Rightarrow> flavor_admin \<Rightarrow> flavor_admin \<Rightarrow> flavor_admin" where
  "touched now previous f = put_flavor (cf_UpdatedAt_update (\<lambda>_. next_update now (cf_UpdatedAt (fa_Flavor previous)))) f"

definition cat_Update :: "cat_lib \<Rightarrow> cat_world \<Rightarrow> cat_ctx \<Rightarrow> string \<Rightarrow> flavor_input \<Rightarrow> redis \<Rightarrow> redis \<Rightarrow> redis \<Rightarrow>
    (cat_error + flavor_admin option) \<times> redis" where
  "cat_Update lib w ctx i input r0 r1 r =
     (if \<not> hasUpdate input then (Inl CatInvalidInput, r)
      else case replayMutation lib w (WithAction ActUpdate ctx) i r0 of
        Inl e \<Rightarrow> (Inl e, r)
      | Inr (Some original) \<Rightarrow> (Inr original, r)
      | Inr None \<Rightarrow>
          (case FindByID w i r1 of
             Inl e \<Rightarrow> (Inl e, r)
           | Inr previous \<Rightarrow>
               (case apply_input lib input previous of
                  Inl e \<Rightarrow> (Inl e, r)
                | Inr record \<Rightarrow>
                    (case repo_Update lib w (WithAction ActUpdate ctx) previous (touched (cw_now w) previous record) r of
                       (res, r') \<Rightarrow> (map_sum id Some res, r')))))"

definition same_content :: "flavor_admin \<Rightarrow> flavor_admin \<Rightarrow> bool" where
  "same_content p f \<longleftrightarrow> fa_Name p = fa_Name f \<and> cf_Description (fa_Flavor p) = cf_Description (fa_Flavor f) \<and>
     cf_Price (fa_Flavor p) = cf_Price (fa_Flavor f) \<and> cf_ImageURL (fa_Flavor p) = cf_ImageURL (fa_Flavor f) \<and>
     cf_Allergens (fa_Flavor p) = cf_Allergens (fa_Flavor f) \<and> cf_Active (fa_Flavor p) = cf_Active (fa_Flavor f) \<and> fa_Recipe p = fa_Recipe f"

definition cat_Replace :: "cat_lib \<Rightarrow> cat_world \<Rightarrow> cat_ctx \<Rightarrow> string \<Rightarrow> flavor_input \<Rightarrow> redis \<Rightarrow> redis \<Rightarrow> redis \<Rightarrow>
    (cat_error + flavor_admin option) \<times> redis" where
  "cat_Replace lib w ctx i input r0 r1 r =
     (case replayMutation lib w (WithAction ActReplace ctx) i r0 of
        Inl e \<Rightarrow> (Inl e, r)
      | Inr (Some original) \<Rightarrow> (Inr original, r)
      | Inr None \<Rightarrow>
          if fi_Active input = None then (Inl CatInvalidInput, r)
          else (case validateCreateInput lib input of
            Inl e \<Rightarrow> (Inl e, r)
          | Inr f \<Rightarrow>
              (case FindByID w i r1 of
                 Inl e \<Rightarrow> (Inl e, r)
               | Inr previous \<Rightarrow>
                   let unchanged = same_content previous f;
                       replacement = identified i (cf_CreatedAt (fa_Flavor previous)) (cf_UpdatedAt (fa_Flavor previous)) f in
                   if unchanged \<and> cx_request ctx = None then (Inr (Some previous), r)
                   else (case repo_Update lib w (WithAction ActReplace ctx) previous
                       (if unchanged then replacement else touched (cw_now w) previous replacement) r of
                     (res, r') \<Rightarrow> (map_sum id Some res, r')))))"

definition cat_Archive :: "cat_lib \<Rightarrow> cat_world \<Rightarrow> cat_ctx \<Rightarrow> string \<Rightarrow> redis \<Rightarrow> redis \<Rightarrow> redis \<Rightarrow> (cat_error + unit) \<times> redis" where
  "cat_Archive lib w ctx i r0 r1 r =
     (case replayMutation lib w (WithAction ActArchive ctx) i r0 of
        Inl e \<Rightarrow> (Inl e, r)
      | Inr (Some _) \<Rightarrow> (Inr (), r)
      | Inr None \<Rightarrow>
          (case FindByID w i r1 of
             Inl e \<Rightarrow> (Inl e, r)
           | Inr previous \<Rightarrow>
               let unchanged = \<not> cf_Active (fa_Flavor previous) in
               if unchanged \<and> cx_request ctx = None then (Inr (), r)
               else (case repo_Update lib w (WithAction ActArchive ctx) previous
                   (if unchanged then previous else touched (cw_now w) previous (put_flavor (cf_Active_update (\<lambda>_. False)) previous)) r of
                 (res, r') \<Rightarrow> (map_sum id (\<lambda>_. ()) res, r'))))"

end
