(* ===== verification/Catalog_Inv.thy ===== *)
theory Catalog_Inv
  imports Catalog_Service
begin

text \<open>
  The invariant of the catalog store, and that the requests keep it, whatever other requests did
  between the commands of one request.
\<close>

section \<open>Well-formed flavors\<close>

definition flavor_wf :: "cat_lib \<Rightarrow> flavor_admin \<Rightarrow> bool" where
  "flavor_wf lib f \<longleftrightarrow> (let g = fa_Flavor f in
     1 \<le> RuneCount (cf_Name g) \<and> RuneCount (cf_Name g) \<le> 100 \<and> RuneCount (cf_Description g) \<le> 1000 \<and>
     0 \<le> cm_AmountMinor (cf_Price g) \<and> cm_Currency (cf_Price g) = ''THB'' \<and> (cf_ImageURL g = '''' \<or> lib_url lib (cf_ImageURL g)) \<and>
     sorted (cf_Allergens g) \<and> distinct (cf_Allergens g) \<and> list_all Allergen_Valid (cf_Allergens g) \<and> fa_Recipe f \<noteq> '''')"

lemma stored_simps [simp]: "fa_Flavor (stored f) = fa_Flavor f" "fa_Recipe (stored f) = fa_Recipe f" "\<not> fa_IdempotentReplay (stored f)"
  by (simp_all add: stored_def)

lemma stored_id: "\<not> fa_IdempotentReplay f \<Longrightarrow> stored f = f"
  by (cases f) (simp add: stored_def)

lemma andThen_Inr [simp]: "andThen x f = Inr b \<longleftrightarrow> (\<exists>a. x = Inr a \<and> f a = Inr b)"
  by (cases x) (simp_all add: andThen_def)

lemma allergens_ok_iff: "allergens_ok seen as \<longleftrightarrow> list_all Allergen_Valid as \<and> distinct as \<and> set as \<inter> seen = {}"
  by (induction seen "as" rule: allergens_ok.induct) auto

lemma validate_simps:
  "validateName a = Inr n \<longleftrightarrow> n = TrimSpace a \<and> 1 \<le> RuneCount n \<and> RuneCount n \<le> 100"
  "validateDescription a = Inr n \<longleftrightarrow> n = TrimSpace a \<and> RuneCount n \<le> 1000"
  "validateMoney m = Inr m' \<longleftrightarrow> m' = m \<and> 0 \<le> cm_AmountMinor m \<and> cm_Currency m = ''THB''"
  "validateImageURL lib a = Inr n \<longleftrightarrow> n = TrimSpace a \<and> lib_url lib n"
  "validateAllergens as = Inr as' \<longleftrightarrow> as' = sort as \<and> list_all Allergen_Valid as \<and> distinct as"
  "validateRecipe a = Inr n \<longleftrightarrow> n = TrimSpace a \<and> n \<noteq> ''''"
  by (auto simp: validateName_def validateDescription_def validateMoney_def validateImageURL_def validateAllergens_def validateRecipe_def Let_def allergens_ok_iff)

lemma list_all_sort [simp]: "list_all P (sort xs) \<longleftrightarrow> list_all P xs"
  by (simp add: list_all_iff)

lemma validateCreateInput_wf: "validateCreateInput lib input = Inr f \<Longrightarrow> flavor_wf lib f"
  by (auto simp: validateCreateInput_def validate_simps flavor_wf_def Let_def split: option.splits)

lemma flavor_wf_frame [simp]:
  "flavor_wf lib (identified i c u f) = flavor_wf lib f" "flavor_wf lib (touched now p f) = flavor_wf lib f" "flavor_wf lib (stored f) = flavor_wf lib f"
  "flavor_wf lib (put_flavor (cf_Active_update g) f) = flavor_wf lib f"
  by (simp_all add: flavor_wf_def identified_def touched_def stored_def put_flavor_def Let_def)

lemma set_field_Inr: "set_field check put v f = Inr f' \<longleftrightarrow> (v = None \<and> f' = f \<or> (\<exists>x y. v = Some x \<and> check x = Inr y \<and> f' = put y f))"
  by (cases v) (auto simp: set_field_def)

lemma apply_input_wf:
  assumes "apply_input lib input f = Inr f'" "flavor_wf lib f" shows "flavor_wf lib f'"
proof -
  have name: "flavor_wf lib g'" if "set_field validateName (\<lambda>x. put_flavor (cf_Name_update (\<lambda>_. x))) v g = Inr g'" "flavor_wf lib g" for v g g'
    using that by (auto simp: set_field_Inr validate_simps flavor_wf_def put_flavor_def Let_def)
  have desc: "flavor_wf lib g'" if "set_field validateDescription (\<lambda>x. put_flavor (cf_Description_update (\<lambda>_. x))) v g = Inr g'" "flavor_wf lib g" for v g g'
    using that by (auto simp: set_field_Inr validate_simps flavor_wf_def put_flavor_def Let_def)
  have price: "flavor_wf lib g'" if "set_field validateMoney (\<lambda>x. put_flavor (cf_Price_update (\<lambda>_. x))) v g = Inr g'" "flavor_wf lib g" for v g g'
    using that by (auto simp: set_field_Inr validate_simps flavor_wf_def put_flavor_def Let_def)
  have image: "flavor_wf lib g'" if "set_field (validateImageURL lib) (\<lambda>x. put_flavor (cf_ImageURL_update (\<lambda>_. x))) v g = Inr g'" "flavor_wf lib g" for v g g'
    using that by (auto simp: set_field_Inr validate_simps flavor_wf_def put_flavor_def Let_def)
  have allerg: "flavor_wf lib g'" if "set_field validateAllergens (\<lambda>x. put_flavor (cf_Allergens_update (\<lambda>_. x))) v g = Inr g'" "flavor_wf lib g" for v g g'
    using that by (auto simp: set_field_Inr validate_simps flavor_wf_def put_flavor_def Let_def)
  have recipe: "flavor_wf lib g'" if "set_field validateRecipe (\<lambda>x f. f\<lparr>fa_Recipe := x\<rparr>) v g = Inr g'" "flavor_wf lib g" for v g g'
    using that by (auto simp: set_field_Inr validate_simps flavor_wf_def put_flavor_def Let_def)
  have active: "flavor_wf lib g'" if "set_field Inr (\<lambda>x. put_flavor (cf_Active_update (\<lambda>_. x))) v g = Inr g'" "flavor_wf lib g" for v g g'
    using that by (auto simp: set_field_Inr)
  show ?thesis using assms unfolding apply_input_def andThen_Inr
    by (elim exE conjE) (blast dest: name desc price image allerg recipe active)
qed

section \<open>The audit trail\<close>

text \<open>
  A trail: every record begins where the one before ended, and exactly the first one, if the trail
  starts from nothing, is a creation.
\<close>

fun audit_path :: "audit_state option \<Rightarrow> audit_record list \<Rightarrow> bool" where
  "audit_path b [] \<longleftrightarrow> True"
| "audit_path b (x # xs) \<longleftrightarrow> ar_Before x = b \<and> (ar_Action x = ActCreate \<longleftrightarrow> b = None) \<and> audit_path (Some (ar_After x)) xs"

definition audit_trail :: "flavor_admin \<Rightarrow> audit_record list \<Rightarrow> bool" where
  "audit_trail f xs \<longleftrightarrow> xs \<noteq> [] \<and> audit_path None xs \<and> ar_After (last xs) = audit_state_of f \<and>
     (\<forall>x\<in>set xs. ar_FlavorID x = fa_ID f \<and> ar_ActorRole x = ''MANAGER'' \<and> ar_ActorID x \<noteq> uuid_Nil)"

lemma audit_path_snoc: "audit_path b (xs @ [y]) \<longleftrightarrow> audit_path b xs \<and> ar_Before y = (if xs = [] then b else Some (ar_After (last xs))) \<and>
    (ar_Action y = ActCreate \<longleftrightarrow> xs = [] \<and> b = None)"
  by (induction xs arbitrary: b) auto

lemma audit_trail_snoc:
  "audit_trail c xs \<Longrightarrow> ar_Before h = Some (audit_state_of c) \<Longrightarrow> ar_After h = audit_state_of p \<Longrightarrow> ar_Action h \<noteq> ActCreate \<Longrightarrow> ar_FlavorID h = fa_ID p \<Longrightarrow>
     fa_ID c = fa_ID p \<Longrightarrow> ar_ActorRole h = ''MANAGER'' \<Longrightarrow> ar_ActorID h \<noteq> uuid_Nil \<Longrightarrow> audit_trail p (xs @ [h])"
  by (auto simp: audit_trail_def audit_path_snoc)

lemma NewRecord_Inr:
  "NewRecord i t ctx act before after = Inr h \<Longrightarrow> fa_ID after \<noteq> uuid_Nil \<and> (\<forall>b. before = Some b \<longrightarrow> fa_ID b = fa_ID after) \<and> ar_Action h = act \<and>
     ar_FlavorID h = fa_ID after \<and> ar_ActorRole h = ''MANAGER'' \<and> ar_ActorID h \<noteq> uuid_Nil \<and> ar_Before h = map_option audit_state_of before \<and>
     ar_After h = audit_state_of after"
  by (auto simp: NewRecord_def ManagerID_def split: option.splits prod.splits if_splits sum.splits)

section \<open>The invariant\<close>

definition names_ok :: "cat_lib \<Rightarrow> redis \<Rightarrow> bool" where
  "names_ok lib r \<longleftrightarrow> (\<forall>k i. rs_names r k = Some i \<longleftrightarrow> (\<exists>f. rs_flavors r i = Some f \<and> nameKey lib (fa_Name f) = k))"

definition flavors_ok :: "cat_lib \<Rightarrow> redis \<Rightarrow> bool" where
  "flavors_ok lib r \<longleftrightarrow> rs_ids r = dom (rs_flavors r) \<and>
     (\<forall>i f. rs_flavors r i = Some f \<longrightarrow> fa_ID f = i \<and> i \<noteq> uuid_Nil \<and> \<not> fa_IdempotentReplay f \<and> flavor_wf lib f)"

definition audit_ok :: "redis \<Rightarrow> bool" where
  "audit_ok r \<longleftrightarrow> (\<forall>i. rs_flavors r i = None \<longrightarrow> rs_audit r i = []) \<and> (\<forall>i f. rs_flavors r i = Some f \<longrightarrow> audit_trail f (rs_audit r i))"

definition cat_ok :: "cat_lib \<Rightarrow> redis \<Rightarrow> bool" where
  "cat_ok lib r \<longleftrightarrow> names_ok lib r \<and> flavors_ok lib r \<and> audit_ok r"

lemma cat_ok_caches [simp]: "cat_ok lib (r\<lparr>rs_idem := m\<rparr>) = cat_ok lib r" "cat_ok lib (r\<lparr>rs_replay := m'\<rparr>) = cat_ok lib r"
  by (simp_all add: cat_ok_def names_ok_def flavors_ok_def audit_ok_def)

lemma write_new_ok:
  assumes ok: "cat_ok lib r" and free: "rs_names r (nameKey lib (fa_Name p)) = None" "rs_flavors r (fa_ID p) = None"
    and p: "flavor_wf lib p" "\<not> fa_IdempotentReplay p" and h: "NewRecord i t ctx ActCreate None f = Inr h" "p = stored f"
  shows "cat_ok lib (write_new (nameKey lib (fa_Name p)) p h r)"
proof -
  note h' = NewRecord_Inr [OF h(1)]
  have "names_ok lib (write_new (nameKey lib (fa_Name p)) p h r)"
    unfolding names_ok_def
  proof (intro allI)
    fix k j
    have "rs_names r k = Some j \<longleftrightarrow> (\<exists>g. rs_flavors r j = Some g \<and> nameKey lib (fa_Name g) = k)"
      using ok by (simp add: cat_ok_def names_ok_def)
    then show "rs_names (write_new (nameKey lib (fa_Name p)) p h r) k = Some j \<longleftrightarrow>
      (\<exists>g. rs_flavors (write_new (nameKey lib (fa_Name p)) p h r) j = Some g \<and> nameKey lib (fa_Name g) = k)"
      using free by (auto simp: write_new_def)
  qed
  moreover have "flavors_ok lib (write_new (nameKey lib (fa_Name p)) p h r)"
    using ok p h' h(2) by (auto simp: cat_ok_def flavors_ok_def write_new_def stored_def)
  moreover have "audit_ok (write_new (nameKey lib (fa_Name p)) p h r)"
  proof -
    have "rs_audit r (fa_ID p) = []" using ok free(2) by (simp add: cat_ok_def audit_ok_def)
    then have "audit_trail p (rs_audit r (fa_ID p) @ [h])" using h' h(2) by (simp add: audit_trail_def audit_state_of_def stored_def)
    then show ?thesis using ok by (auto simp: cat_ok_def audit_ok_def write_new_def)
  qed
  ultimately show ?thesis by (simp add: cat_ok_def)
qed

lemma write_update_ok:
  assumes ok: "cat_ok lib r" and cur: "rs_flavors r (fa_ID p) = Some c" "c = stored prev"
    and free: "rs_names r (nameKey lib (fa_Name p)) = None \<or> rs_names r (nameKey lib (fa_Name p)) = Some (fa_ID p)"
    and p: "flavor_wf lib p" "p = stored f" and h: "NewRecord i t ctx act (Some prev) f = Inr h" "act \<noteq> ActCreate"
  shows "cat_ok lib (write_update (nameKey lib (fa_Name prev)) (nameKey lib (fa_Name p)) p h r)" (is "cat_ok lib ?r")
proof -
  note h' = NewRecord_Inr [OF h(1)]
  have old: "rs_names r (nameKey lib (fa_Name prev)) = Some (fa_ID p)"
    using ok cur by (auto simp: cat_ok_def names_ok_def stored_def)
  have idx: "rs_names r k = Some j \<longleftrightarrow> (\<exists>g. rs_flavors r j = Some g \<and> nameKey lib (fa_Name g) = k)" for k j
    using ok by (simp add: cat_ok_def names_ok_def)
  have same: "rs_names r k = Some (fa_ID p) \<longleftrightarrow> k = nameKey lib (fa_Name prev)" for k
    using idx [of k "fa_ID p"] cur by (auto simp: stored_def)
  have nm: "rs_names ?r k = (if k = nameKey lib (fa_Name p) then Some (fa_ID p) else if k = nameKey lib (fa_Name prev) then None else rs_names r k)" for k
    using old by (auto simp: write_update_def Let_def)
  have fl: "rs_flavors ?r = (rs_flavors r)(fa_ID p \<mapsto> p)" by (simp add: write_update_def Let_def)
  have "names_ok lib ?r"
    unfolding names_ok_def
  proof (intro allI)
    fix k j
    show "rs_names ?r k = Some j \<longleftrightarrow> (\<exists>g. rs_flavors ?r j = Some g \<and> nameKey lib (fa_Name g) = k)"
    proof (cases "j = fa_ID p")
      case True
      then show ?thesis using same [of k] unfolding nm fl by auto
    next
      case False
      have "k = nameKey lib (fa_Name p) \<Longrightarrow> rs_names r k \<noteq> Some j" "k = nameKey lib (fa_Name prev) \<Longrightarrow> rs_names r k \<noteq> Some j"
        using free old False by auto
      then show ?thesis using False idx [of k j] unfolding nm fl by auto
    qed
  qed
  moreover have "flavors_ok lib ?r"
  proof -
    have "fa_ID p \<noteq> uuid_Nil" "\<not> fa_IdempotentReplay p" using h' p(2) by (auto simp: stored_def)
    moreover have "rs_ids ?r = rs_ids r" by (simp add: write_update_def Let_def)
    ultimately show ?thesis using ok p(1) cur(1) unfolding cat_ok_def flavors_ok_def fl by auto
  qed
  moreover have "audit_ok ?r"
  proof -
    have trail_eqs: "fa_ID p = fa_ID f" "fa_ID c = fa_ID prev" "audit_state_of p = audit_state_of f" "audit_state_of c = audit_state_of prev"
      using p(2) cur(2) by (simp_all add: audit_state_of_def)
    have "audit_trail c (rs_audit r (fa_ID p))" using ok cur(1) by (simp add: cat_ok_def audit_ok_def)
    then have "audit_trail p (rs_audit r (fa_ID p) @ [h])"
      by (rule audit_trail_snoc) (use h' h(2) trail_eqs in simp_all)
    then show ?thesis using ok by (auto simp: cat_ok_def audit_ok_def write_update_def Let_def)
  qed
  ultimately show ?thesis by (simp add: cat_ok_def)
qed

section \<open>What a request can do\<close>

lemma run_script_state: "run_script fault g r = (a, r') \<Longrightarrow> r' = r \<or> r' = snd (g r)"
  by (auto simp: run_script_def split: if_splits prod.splits)

lemma create_script_cases:
  "snd (createFlavorScript fault t keyed nk p h r) = r \<or>
   rs_names r nk = None \<and> rs_flavors r (fa_ID p) = None \<and> (\<exists>m. snd (createFlavorScript fault t keyed nk p h r) = (write_new nk p h r)\<lparr>rs_idem := m\<rparr>)"
proof -
  have "\<exists>m. write_new nk p h r = (write_new nk p h r)\<lparr>rs_idem := m\<rparr>" by (intro exI [of _ "rs_idem (write_new nk p h r)"]) simp
  then show ?thesis by (auto simp: createFlavorScript_def Let_def split: option.split)
qed

lemma update_script_cases:
  "snd (updateFlavorScript fault nk1 nk2 p e h r) = r \<or>
   rs_flavors r (fa_ID p) = Some e \<and> (rs_names r nk2 = None \<or> rs_names r nk2 = Some (fa_ID p)) \<and>
     snd (updateFlavorScript fault nk1 nk2 p e h r) = write_update nk1 nk2 p h r"
  by (auto simp: updateFlavorScript_def split: option.split)

lemma replay_script_cases:
  "snd (mutationReplayScript fault t key nk1 nk2 p e h hash cached r) = r \<or>
   (\<exists>m. snd (mutationReplayScript fault t key nk1 nk2 p e h hash cached r) = r\<lparr>rs_replay := m\<rparr>) \<or>
   rs_flavors r (fa_ID p) = Some e \<and> (rs_names r nk2 = None \<or> rs_names r nk2 = Some (fa_ID p)) \<and>
     (\<exists>m. snd (mutationReplayScript fault t key nk1 nk2 p e h hash cached r) = (write_update nk1 nk2 p h r)\<lparr>rs_replay := m\<rparr>)"
  by (cases "live t (rs_replay r) key"; cases "rs_flavors r (fa_ID p)") (simp_all add: mutationReplayScript_def Let_def, blast)

text \<open>Only the cache of creations differs.\<close>

definition only_idem :: "redis \<Rightarrow> redis \<Rightarrow> bool" where
  "only_idem r r' \<longleftrightarrow> r' = r\<lparr>rs_idem := rs_idem r'\<rparr>"

lemma only_idem_simps [simp]: "only_idem r r" "only_idem r (r\<lparr>rs_idem := m\<rparr>)"
  by (simp_all add: only_idem_def)

lemma only_idem_trans [trans]: "only_idem r r' \<Longrightarrow> only_idem r' r'' \<Longrightarrow> only_idem r r''"
  by (cases r; cases r'; cases r'') (simp add: only_idem_def)

lemma prepare_page_frame: "only_idem r (snd (prepare_page lib fault t ks r))"
proof (induction ks arbitrary: r)
  case (Cons k ks)
  have "only_idem r (reconcileIdempotencyScript (fault k) t k i r)" for i
    by (simp add: reconcileIdempotencyScript_def Let_def split: option.split prod.split)
  then have run: "only_idem r (snd (run_script (fault k) (\<lambda>r. ((), reconcileIdempotencyScript (fault k) t k i r)) r))" for i
    by (simp add: run_script_def)
  show ?case
  proof (cases "lib_uuid lib k")
    case (Some i)
    obtain a r' where "run_script (fault k) (\<lambda>r. ((), reconcileIdempotencyScript (fault k) t k i r)) r = (a, r')" by fastforce
    then show ?thesis using Some Cons.IH [of r] Cons.IH [of r'] run [of i] only_idem_trans by (cases a) auto
  qed (simp add: Cons.IH)
qed simp

lemma prepare_pages_frame: "only_idem r (snd (prepare_pages lib fault t ps r))"
proof (induction lib fault t ps r rule: prepare_pages.induct)
  case (3 lib fault t keys ps r)
  obtain ok r' where page: "prepare_page lib fault t keys r = (ok, r')" by fastforce
  then have "only_idem r r'" using prepare_page_frame [of r lib fault t keys] by simp
  then show ?case using 3 [OF page [symmetric]] page only_idem_trans by (cases ok) auto
qed simp_all

text \<open>The upgrade of old keys changes nothing but the cache of creations, and nothing once it is done.\<close>

lemma prepare_frame: "only_idem r (snd (PrepareIdempotency lib fault t ps ready r))"
  using prepare_pages_frame [of r lib fault t ps] by (auto simp: PrepareIdempotency_def split: prod.split)

lemma prepare_ready: "PrepareIdempotency lib fault t ps True r = ((True, True), r)"
  by (simp add: PrepareIdempotency_def)

text \<open>A creation is refused before the script, or runs it on what the upgrade leaves.\<close>

lemma repo_create_script:
  assumes "repo_create lib w ctx f q r = (res, r')"
  shows "\<exists>r1. only_idem r r1 \<and> (cw_legacyReady w \<longrightarrow> r1 = r) \<and> (r' = r1 \<or>
    (\<exists>h a. NewRecord (cw_audit_id w) (cw_audit_now w) ctx ActCreate None f = Inr h \<and> (\<forall>k. q = Some k \<longrightarrow> request_ok lib k) \<and>
      run_script (cw_fault w) (createFlavorScript (cw_fault w) (cw_redis_now w) (map_option (\<lambda>q. (ir_Key q, ir_RawKey q, ir_PayloadHash q)) q)
        (nameKey lib (fa_Name f)) (stored f) h) r1 = (a, r')))"
proof (cases "NewRecord (cw_audit_id w) (cw_audit_now w) ctx ActCreate None f")
  case (Inl e)
  then show ?thesis using assms by (intro exI [of _ r]) (simp add: repo_create_def)
next
  case (Inr h)
  let ?p = "if q = None then ((True, cw_legacyReady w), r) else PrepareIdempotency lib (cw_scan_fault w) (cw_redis_now w) (cw_scan w) (cw_legacyReady w) r"
  let ?s = "createFlavorScript (cw_fault w) (cw_redis_now w) (map_option (\<lambda>q. (ir_Key q, ir_RawKey q, ir_PayloadHash q)) q) (nameKey lib (fa_Name f)) (stored f) h"
  obtain ok ready r1 where p: "?p = ((ok, ready), r1)" by (metis prod.collapse)
  have r1: "only_idem r r1 \<and> (cw_legacyReady w \<longrightarrow> r1 = r)"
    using p prepare_frame [of r lib "cw_scan_fault w" "cw_redis_now w" "cw_scan w" "cw_legacyReady w"] by (auto simp: prepare_ready split: if_splits)
  show ?thesis
  proof (cases "\<forall>k. q = Some k \<longrightarrow> request_ok lib k")
    case False
    then show ?thesis using assms Inr by (intro exI [of _ r]) (auto simp: repo_create_def)
  next
    case True
    obtain a r2 where run: "run_script (cw_fault w) ?s r1 = (a, r2)" by fastforce
    have "\<not> (case q of None \<Rightarrow> False | Some k \<Rightarrow> \<not> request_ok lib k)" using True by (auto split: option.split)
    then have "r' = (if ok then r2 else r1)"
      using assms Inr run unfolding repo_create_def p by (auto split: bool.splits option.splits script_result.splits if_splits)
    then show ?thesis using r1 Inr True run by (cases ok) auto
  qed
qed

lemma write_new_frame: "only_idem r r1 \<Longrightarrow> (write_new nk p h r1)\<lparr>rs_idem := m\<rparr> = (write_new nk p h r)\<lparr>rs_idem := m\<rparr>"
  and only_idem_eqs: "only_idem r r1 \<Longrightarrow> rs_names r1 = rs_names r" "only_idem r r1 \<Longrightarrow> rs_flavors r1 = rs_flavors r"
  by (cases r; cases r1; simp add: only_idem_def write_new_def)+

lemma repo_create_cases:
  assumes "repo_create lib w ctx f q r = (res, r')"
  shows "(\<exists>m. r' = r\<lparr>rs_idem := m\<rparr>) \<or> (\<exists>h m. NewRecord (cw_audit_id w) (cw_audit_now w) ctx ActCreate None f = Inr h \<and> rs_names r (nameKey lib (fa_Name f)) = None \<and>
    rs_flavors r (fa_ID f) = None \<and> r' = (write_new (nameKey lib (fa_Name f)) (stored f) h r)\<lparr>rs_idem := m\<rparr>)"
  using repo_create_script [OF assms]
proof (elim exE conjE disjE)
  fix r1 h a
  let ?s = "createFlavorScript (cw_fault w) (cw_redis_now w) (map_option (\<lambda>q. (ir_Key q, ir_RawKey q, ir_PayloadHash q)) q) (nameKey lib (fa_Name f)) (stored f) h"
  assume r1: "only_idem r r1" and h: "NewRecord (cw_audit_id w) (cw_audit_now w) ctx ActCreate None f = Inr h" and "run_script (cw_fault w) ?s r1 = (a, r')"
  then have "r' = r1 \<or> r' = snd (?s r1)" using run_script_state by blast
  moreover have "r1 = r\<lparr>rs_idem := rs_idem r1\<rparr>" using r1 by (simp add: only_idem_def)
  moreover note create_script_cases [of "cw_fault w" "cw_redis_now w" "map_option (\<lambda>q. (ir_Key q, ir_RawKey q, ir_PayloadHash q)) q" "nameKey lib (fa_Name f)" "stored f" h r1]
  ultimately show ?thesis using h write_new_frame [OF r1] only_idem_eqs [OF r1] by (auto simp: only_idem_def)
next
  fix r1 assume "only_idem r r1" "r' = r1"
  then show ?thesis unfolding only_idem_def by blast
qed

lemma repo_Update_cases:
  assumes "repo_Update lib w ctx p f r = (res, r')"
  shows "(\<exists>m. r' = r\<lparr>rs_replay := m\<rparr>) \<or> (\<exists>h m. NewRecord (cw_audit_id w) (cw_audit_now w) ctx (MutationAction ctx) (Some p) f = Inr h \<and>
    rs_flavors r (fa_ID f) = Some (stored p) \<and> (rs_names r (nameKey lib (fa_Name f)) = None \<or> rs_names r (nameKey lib (fa_Name f)) = Some (fa_ID f)) \<and>
    r' = (write_update (nameKey lib (fa_Name p)) (nameKey lib (fa_Name f)) (stored f) h r)\<lparr>rs_replay := m\<rparr>)"
proof -
  have id: "\<exists>m. x = x\<lparr>rs_replay := m\<rparr>" for x :: redis by (intro exI [of _ "rs_replay x"]) simp
  let ?u = "\<lambda>h. updateFlavorScript (cw_fault w) (nameKey lib (fa_Name p)) (nameKey lib (fa_Name f)) (stored f) (stored p) h"
  let ?m = "\<lambda>h key hash cached. mutationReplayScript (cw_fault w) (cw_redis_now w) key (nameKey lib (fa_Name p)) (nameKey lib (fa_Name f))
     (stored f) (stored p) h hash cached"
  have "r' = r \<or> (\<exists>h a. NewRecord (cw_audit_id w) (cw_audit_now w) ctx (MutationAction ctx) (Some p) f = Inr h \<and>
      (run_script (cw_fault w) (?u h) r = (a, r') \<or> (\<exists>b key hash cached. run_script (cw_fault w) (?m h key hash cached) r = (b, r'))))"
    using assms unfolding repo_Update_def updateIdempotent_def plain_update_def Let_def
    by (auto split: if_splits prod.splits option.splits sum.splits script_result.splits)
  then show ?thesis
  proof (elim disjE exE conjE)
    assume "r' = r" then show ?thesis using id [of r] by simp
  next
    fix h a assume "NewRecord (cw_audit_id w) (cw_audit_now w) ctx (MutationAction ctx) (Some p) f = Inr h" "run_script (cw_fault w) (?u h) r = (a, r')"
    then show ?thesis
      using run_script_state [of "cw_fault w" "?u h" r a r'] update_script_cases [of "cw_fault w" "nameKey lib (fa_Name p)" "nameKey lib (fa_Name f)" "stored f" "stored p" h r]
        id [of r] id [of "snd (?u h r)"] by (elim disjE) auto
  next
    fix h b key hash cached
    assume "NewRecord (cw_audit_id w) (cw_audit_now w) ctx (MutationAction ctx) (Some p) f = Inr h" "run_script (cw_fault w) (?m h key hash cached) r = (b, r')"
    then show ?thesis
      using run_script_state [of "cw_fault w" "?m h key hash cached" r b r']
        replay_script_cases [of "cw_fault w" "cw_redis_now w" key "nameKey lib (fa_Name p)" "nameKey lib (fa_Name f)" "stored f" "stored p" h hash cached r]
        id [of r] by (elim disjE) auto
  qed
qed

text \<open>A change keeps the invariant when the changed flavor is well-formed whenever the old one is.\<close>

lemma repo_Update_ok:
  assumes "repo_Update lib w ctx p f r = (res, r')" "cat_ok lib r" "MutationAction ctx \<noteq> ActCreate" "flavor_wf lib p \<Longrightarrow> flavor_wf lib f"
  shows "cat_ok lib r'"
proof -
  consider m where "r' = r\<lparr>rs_replay := m\<rparr>"
    | h m where "NewRecord (cw_audit_id w) (cw_audit_now w) ctx (MutationAction ctx) (Some p) f = Inr h" "rs_flavors r (fa_ID f) = Some (stored p)"
      "rs_names r (nameKey lib (fa_Name f)) = None \<or> rs_names r (nameKey lib (fa_Name f)) = Some (fa_ID f)"
      "r' = (write_update (nameKey lib (fa_Name p)) (nameKey lib (fa_Name f)) (stored f) h r)\<lparr>rs_replay := m\<rparr>"
    using repo_Update_cases [OF assms(1)] by blast
  then show ?thesis
  proof cases
    case 1
    then show ?thesis using assms(2) by simp
  next
    case (2 h m)
    have "flavor_wf lib (stored p)" using assms(2) 2(2) unfolding cat_ok_def flavors_ok_def by blast
    then have "cat_ok lib (write_update (nameKey lib (fa_Name p)) (nameKey lib (fa_Name (stored f))) (stored f) h r)"
      using 2 assms(3,4) by (intro write_update_ok [OF assms(2) _ refl _ _ refl 2(1)]) simp_all
    then show ?thesis using 2(4) by simp
  qed
qed

section \<open>Requests\<close>

text \<open>A request, in an environment that satisfies \<open>P\<close>.\<close>

inductive catalog_step :: "cat_lib \<Rightarrow> (cat_world \<Rightarrow> bool) \<Rightarrow> redis \<Rightarrow> redis \<Rightarrow> bool" for lib P where
  create: "P w \<Longrightarrow> cat_Create lib w ctx input r = (res, r') \<Longrightarrow> catalog_step lib P r r'"
| update: "P w \<Longrightarrow> cat_Update lib w ctx i input r0 r1 r = (res', r') \<Longrightarrow> catalog_step lib P r r'"
| replace: "P w \<Longrightarrow> cat_Replace lib w ctx i input r0 r1 r = (res', r') \<Longrightarrow> catalog_step lib P r r'"
| archive: "P w \<Longrightarrow> cat_Archive lib w ctx i r0 r1 r = (res'', r') \<Longrightarrow> catalog_step lib P r r'"

text \<open>A store that has served nobody; the cache of creations may hold entries of an earlier version.\<close>

definition redis_start :: "(string \<rightharpoonup> cached_create \<times> time option) \<Rightarrow> redis" where
  "redis_start m = \<lparr>rs_flavors = Map.empty, rs_names = Map.empty, rs_ids = {}, rs_audit = (\<lambda>_. []), rs_idem = m, rs_replay = Map.empty\<rparr>"

lemma cat_ok_start: "cat_ok lib (redis_start m)"
  by (simp add: cat_ok_def names_ok_def flavors_ok_def audit_ok_def redis_start_def)

lemma identified_simps [simp]: "fa_ID (identified i c u f) = i" "fa_Name (identified i c u f) = fa_Name f" "fa_ID (touched now p f) = fa_ID f"
  by (simp_all add: identified_def touched_def put_flavor_def)

lemma WithAction_simps [simp]: "MutationAction (WithAction a ctx) = a" "cx_request (WithAction a ctx) = cx_request ctx" "cx_actor (WithAction a ctx) = cx_actor ctx"
  by (simp_all add: MutationAction_def WithAction_def)

text \<open>
  What \<open>Update\<close>, \<open>Replace\<close> and \<open>Archive\<close> come to: nothing changes, or one change of the repository.
\<close>

lemma Update_repo:
  assumes "cat_Update lib w ctx i input r0 r1 r = (res, r')"
  shows "r' = r \<or> (\<exists>p f res'. apply_input lib input p = Inr f \<and> repo_Update lib w (WithAction ActUpdate ctx) p (touched (cw_now w) p f) r = (res', r'))"
  using assms by (auto simp: cat_Update_def split: if_splits sum.splits option.splits prod.splits)

lemma Replace_repo:
  assumes "cat_Replace lib w ctx i input r0 r1 r = (res, r')"
  shows "r' = r \<or> (\<exists>p f res'. flavor_wf lib f \<and> repo_Update lib w (WithAction ActReplace ctx) p f r = (res', r'))"
  using assms validateCreateInput_wf [of lib input]
  by (auto simp: cat_Replace_def Let_def split: if_splits sum.splits option.splits prod.splits)

lemma Archive_repo:
  assumes "cat_Archive lib w ctx i r0 r1 r = (res, r')"
  shows "r' = r \<or> (\<exists>p f res'. (flavor_wf lib p \<longrightarrow> flavor_wf lib f) \<and> repo_Update lib w (WithAction ActArchive ctx) p f r = (res', r'))"
  using assms
  by (auto simp: cat_Archive_def Let_def split: if_splits sum.splits option.splits prod.splits) (metis flavor_wf_frame(2,4))

lemma catalog_step_ok:
  assumes "catalog_step lib P r r'" "cat_ok lib r" shows "cat_ok lib r'"
  using assms(1)
proof cases
  case (create w ctx input res)
  show ?thesis
  proof (cases "validateCreateInput lib input")
    case (Inl e)
    then show ?thesis using create assms(2) by (simp add: cat_Create_def)
  next
    case (Inr f)
    let ?f = "identified (cw_id w) (cw_now w) (cw_now w) f"
    obtain res' where "repo_create lib w ctx ?f (cx_request ctx) r = (res', r')"
      using create Inr by (auto simp: cat_Create_def split: prod.splits sum.splits)
    from repo_create_cases [OF this] show ?thesis
    proof (elim disjE exE conjE)
      fix h m
      assume c: "NewRecord (cw_audit_id w) (cw_audit_now w) ctx ActCreate None ?f = Inr h" "rs_names r (nameKey lib (fa_Name ?f)) = None"
        "rs_flavors r (fa_ID ?f) = None" "r' = (write_new (nameKey lib (fa_Name ?f)) (stored ?f) h r)\<lparr>rs_idem := m\<rparr>"
      have "cat_ok lib (write_new (nameKey lib (fa_Name (stored ?f))) (stored ?f) h r)"
        using c validateCreateInput_wf [OF Inr] by (intro write_new_ok [OF assms(2) _ _ _ _ c(1) refl]) simp_all
      then show ?thesis using c(4) by simp
    qed (use assms(2) in simp)
  qed
next
  case (update w ctx i input r0 r1 res)
  from Update_repo [OF update(2)] show ?thesis
    using repo_Update_ok [OF _ assms(2), of w "WithAction ActUpdate ctx"] apply_input_wf assms(2) by fastforce
next
  case (replace w ctx i input r0 r1 res)
  from Replace_repo [OF replace(2)] show ?thesis
    using repo_Update_ok [OF _ assms(2), of w "WithAction ActReplace ctx"] assms(2) by fastforce
next
  case (archive w ctx i r0 r1 res')
  from Archive_repo [OF archive(2)] show ?thesis
    using repo_Update_ok [OF _ assms(2), of w "WithAction ActArchive ctx"] assms(2) by fastforce
qed

lemma catalog_run_ok: "(catalog_step lib P)\<^sup>*\<^sup>* r r' \<Longrightarrow> cat_ok lib r \<Longrightarrow> cat_ok lib r'"
  by (induction rule: rtranclp_induct) (auto intro: catalog_step_ok)

section \<open>The cache of creations\<close>

lemma create_script_idem:
  "rs_idem (snd (createFlavorScript fault t keyed nk p h r)) = rs_idem r \<or>
   (\<exists>key legacy hash. keyed = Some (key, legacy, hash) \<and> live t (rs_idem r) key = None \<and> rs_flavors r (fa_ID p) = None \<and>
     rs_flavors (snd (createFlavorScript fault t keyed nk p h r)) = (rs_flavors r)(fa_ID p \<mapsto> p) \<and>
     rs_idem (snd (createFlavorScript fault t keyed nk p h r)) = (rs_idem r)(key \<mapsto> (CachedCreate hash p, Some (t + idem_TTL))))"
proof (cases keyed)
  case None
  then show ?thesis by (simp add: createFlavorScript_def write_new_def Let_def)
next
  case (Some q)
  obtain key legacy hash where q: "q = (key, legacy, hash)" by (cases q)
  show ?thesis
  proof (cases "lookup_created fault t hash 0 [key, legacy] r")
    case None
    then have "live t (rs_idem r) key = None" by (auto split: if_splits option.splits cached_create.splits)
    with None Some q show ?thesis by (simp add: createFlavorScript_def write_new_def Let_def)
  next
    case (Some res)
    with \<open>keyed = Some q\<close> q show ?thesis by (simp add: createFlavorScript_def del: lookup_created.simps)
  qed
qed

lemma repo_create_idem:
  assumes "repo_create lib w ctx f q r = (res, r')" "cw_legacyReady w"
  shows "rs_idem r' = rs_idem r \<or> (\<exists>k. q = Some k \<and> request_ok lib k \<and> live (cw_redis_now w) (rs_idem r) (ir_Key k) = None \<and> rs_flavors r (fa_ID f) = None \<and>
    rs_flavors r' = (rs_flavors r)(fa_ID f \<mapsto> stored f) \<and>
    rs_idem r' = (rs_idem r)(ir_Key k \<mapsto> (CachedCreate (ir_PayloadHash k) (stored f), Some (cw_redis_now w + idem_TTL))))"
  using repo_create_script [OF assms(1)]
proof (elim exE conjE disjE)
  fix r1 h a
  let ?s = "createFlavorScript (cw_fault w) (cw_redis_now w) (map_option (\<lambda>q. (ir_Key q, ir_RawKey q, ir_PayloadHash q)) q) (nameKey lib (fa_Name f)) (stored f) h"
  assume r1: "cw_legacyReady w \<longrightarrow> r1 = r" and ok: "\<forall>k. q = Some k \<longrightarrow> request_ok lib k" and run: "run_script (cw_fault w) ?s r1 = (a, r')"
  then have "r' = r \<or> r' = snd (?s r)" using run_script_state [OF run] assms(2) by simp
  then show ?thesis
    using create_script_idem [of "cw_fault w" "cw_redis_now w" "map_option (\<lambda>q. (ir_Key q, ir_RawKey q, ir_PayloadHash q)) q" "nameKey lib (fa_Name f)" "stored f" h r] ok by auto
qed (use assms(2) in simp)

text \<open>A keyed creation that wrote the flavor also wrote the cache.\<close>

lemma create_script_effect:
  assumes "rs_flavors (snd (createFlavorScript fault t (Some (key, legacy, hash)) nk p h r)) \<noteq> rs_flavors r"
  shows "rs_flavors (snd (createFlavorScript fault t (Some (key, legacy, hash)) nk p h r)) = (rs_flavors r)(fa_ID p \<mapsto> p) \<and>
    rs_idem (snd (createFlavorScript fault t (Some (key, legacy, hash)) nk p h r)) key = Some (CachedCreate hash p, Some (t + idem_TTL))"
proof (cases "lookup_created fault t hash 0 [key, legacy] r")
  case None
  then show ?thesis using assms by (auto simp: createFlavorScript_def write_new_def Let_def simp del: lookup_created.simps split: if_splits)
next
  case (Some res)
  then show ?thesis using assms by (simp add: createFlavorScript_def del: lookup_created.simps)
qed

lemma create_effect:
  assumes "repo_create lib w ctx f (Some q) r = (res, r')" "rs_flavors r' \<noteq> rs_flavors r"
  shows "rs_flavors r' = (rs_flavors r)(fa_ID f \<mapsto> stored f) \<and> rs_idem r' (ir_Key q) = Some (CachedCreate (ir_PayloadHash q) (stored f), Some (cw_redis_now w + idem_TTL))"
  using repo_create_script [OF assms(1)]
proof (elim exE conjE disjE)
  fix r1 h a
  let ?s = "createFlavorScript (cw_fault w) (cw_redis_now w) (map_option (\<lambda>q. (ir_Key q, ir_RawKey q, ir_PayloadHash q)) (Some q)) (nameKey lib (fa_Name f)) (stored f) h"
  assume r1: "only_idem r r1" and run: "run_script (cw_fault w) ?s r1 = (a, r')"
  note eqs = only_idem_eqs [OF r1]
  have "r' = snd (?s r1)" using run_script_state [OF run] assms(2) eqs by auto
  then show ?thesis
    using create_script_effect [of "cw_fault w" "cw_redis_now w" "ir_Key q" "ir_RawKey q" "ir_PayloadHash q" "nameKey lib (fa_Name f)" "stored f" h r1] assms(2) eqs
    by simp
qed (use assms(2) only_idem_eqs in auto)

lemma repo_Update_idem: "repo_Update lib w ctx p f r = (res, r') \<Longrightarrow> rs_idem r' = rs_idem r"
  using repo_Update_cases [of lib w ctx p f r res r'] by (auto simp: write_update_def Let_def)

lemma Create_repo:
  assumes "cat_Create lib w ctx input r = (res, r')"
  shows "r' = r \<or> (\<exists>f res'. validateCreateInput lib input = Inr f \<and> repo_create lib w ctx (identified (cw_id w) (cw_now w) (cw_now w) f) (cx_request ctx) r = (res', r'))"
  using assms by (auto simp: cat_Create_def split: sum.splits prod.splits)

lemma step_idem:
  assumes "catalog_step lib P r r'" "rs_idem r k = Some (v, Some e)" "\<And>w. P w \<Longrightarrow> cw_redis_now w < e \<and> cw_legacyReady w"
  shows "rs_idem r' k = Some (v, Some e)"
  using assms(1)
proof cases
  case (create w ctx input res)
  have live: "live (cw_redis_now w) (rs_idem r) k = Some v" and ready: "cw_legacyReady w" using assms(2,3) create(1) by (simp_all add: live_def)
  from Create_repo [OF create(2)] show ?thesis
  proof (elim disjE exE conjE)
    fix f res' assume "repo_create lib w ctx (identified (cw_id w) (cw_now w) (cw_now w) f) (cx_request ctx) r = (res', r')"
    from repo_create_idem [OF this ready] show ?thesis using assms(2) live by auto
  qed (use assms(2) in simp)
next
  case (update w ctx i input r0 r1 res)
  then show ?thesis using Update_repo [OF update(2)] repo_Update_idem assms(2) by metis
next
  case (replace w ctx i input r0 r1 res)
  then show ?thesis using Replace_repo [OF replace(2)] repo_Update_idem assms(2) by metis
next
  case (archive w ctx i r0 r1 res)
  then show ?thesis using Archive_repo [OF archive(2)] repo_Update_idem assms(2) by metis
qed

lemma run_idem:
  "(catalog_step lib P)\<^sup>*\<^sup>* r r' \<Longrightarrow> rs_idem r k = Some (v, Some e) \<Longrightarrow> (\<And>w. P w \<Longrightarrow> cw_redis_now w < e \<and> cw_legacyReady w) \<Longrightarrow> rs_idem r' k = Some (v, Some e)"
  by (induction rule: rtranclp_induct) (auto intro: step_idem)

text \<open>A creation whose key is known.\<close>

lemma repo_create_known:
  assumes "live (cw_redis_now w) (rs_idem r) (ir_Key q) = Some (CachedCreate hash body)" "cw_fault w = NoFault" "cw_legacyReady w"
    "request_ok lib q" "NewRecord (cw_audit_id w) (cw_audit_now w) ctx ActCreate None f = Inr h" "fa_ID body \<noteq> uuid_Nil"
  shows "repo_create lib w ctx f (Some q) r = (if ir_PayloadHash q = hash then (Inr (body, True), r) else (Inl CatIdemConflict, r))"
  using assms by (simp add: repo_create_def prepare_ready run_script_def createFlavorScript_def create_code_def)

section \<open>Answers of an update\<close>

lemma set_field_frame:
  assumes "set_field check put v f = Inr f'" "\<And>y g. fa_ID (put y g) = fa_ID g \<and> fa_IdempotentReplay (put y g) = fa_IdempotentReplay g \<and>
    cf_UpdatedAt (fa_Flavor (put y g)) = cf_UpdatedAt (fa_Flavor g)"
  shows "fa_ID f' = fa_ID f \<and> fa_IdempotentReplay f' = fa_IdempotentReplay f \<and> cf_UpdatedAt (fa_Flavor f') = cf_UpdatedAt (fa_Flavor f)"
  using assms by (auto simp: set_field_Inr)

lemma apply_input_frame:
  assumes "apply_input lib input f = Inr f'"
  shows "fa_ID f' = fa_ID f \<and> fa_IdempotentReplay f' = fa_IdempotentReplay f \<and> cf_UpdatedAt (fa_Flavor f') = cf_UpdatedAt (fa_Flavor f)"
  using assms unfolding apply_input_def andThen_Inr
  by (elim exE conjE) ((drule set_field_frame, simp add: put_flavor_def)+, simp)

lemma map_sum_eq [simp]: "map_sum id Some x = Inr (Some g) \<longleftrightarrow> x = Inr g" "map_sum id h y = Inl e \<longleftrightarrow> y = Inl e"
  by (cases x; simp) (cases y; simp)

lemma Update_answer:
  assumes "cat_Update lib w ctx i input r0 r1 r = (Inr (Some g), r')" "\<not> fa_IdempotentReplay g"
  shows "\<exists>p f. rs_flavors r1 i = Some p \<and> apply_input lib input p = Inr f \<and>
    repo_Update lib w (WithAction ActUpdate ctx) p (touched (cw_now w) p f) r = (Inr g, r')"
proof -
  have "original \<noteq> Some g" if "replayMutation lib w (WithAction ActUpdate ctx) i r0 = Inr (Some original)" for original
    using that assms(2) by (auto simp: replayMutation_def LookupMutation_def decodeMutationReply_def split: option.splits sum.splits prod.splits if_splits)
  then show ?thesis using assms(1)
    by (auto simp: cat_Update_def FindByID_def split: if_splits sum.splits option.splits prod.splits)
qed

lemma run_script_result: "run_script fault g r = (Some a, r') \<Longrightarrow> g r = (a, r')"
  by (auto simp: run_script_def split: if_splits prod.splits)

lemma repo_Update_wrote:
  assumes "repo_Update lib w ctx p f r = (Inr g, r')" "\<not> fa_IdempotentReplay g" "stored f \<noteq> stored p"
  shows "g = f \<and> rs_flavors r (fa_ID f) = Some (stored p) \<and> rs_flavors r' = (rs_flavors r)(fa_ID f \<mapsto> stored f)"
proof -
  have plain: "plain_update lib w ctx p f r = (Inr g, r') \<Longrightarrow> ?thesis"
    by (auto simp: plain_update_def update_code_def updateFlavorScript_def write_update_def Let_def dest!: run_script_result
      split: sum.splits prod.splits option.splits if_splits)
  have replayed: "decodeMutationReply reply hash status j = Inr (Some orig) \<Longrightarrow> fa_IdempotentReplay orig" for reply hash status j orig
    by (auto simp: decodeMutationReply_def split: if_splits option.splits)
  have keyed: "updateIdempotent lib w ctx p f q r = (Inr g, r') \<Longrightarrow> ?thesis" for q
    using assms(2,3)
    by (auto simp: updateIdempotent_def mutationReplayScript_def write_update_def Let_def dest!: run_script_result dest: replayed
      split: sum.splits prod.splits option.splits if_splits script_result.splits)
  show ?thesis using assms(1) plain keyed by (auto simp: repo_Update_def split: option.splits if_splits)
qed

lemma run_script_lost: "run_script fault g r = (None, r') \<Longrightarrow> fault \<noteq> LostAfter \<Longrightarrow> r' = r"
  by (auto simp: run_script_def split: if_splits prod.splits)

lemma repo_Update_error:
  assumes "repo_Update lib w ctx p f r = (Inl e, r')" "cw_fault w \<noteq> LostAfter"
  shows "r' = r"
proof -
  have plain: "plain_update lib w ctx p f r = (Inl e, r') \<Longrightarrow> r' = r"
    using assms(2) by (auto simp: plain_update_def update_code_def updateFlavorScript_def Let_def dest!: run_script_result run_script_lost
      split: sum.splits prod.splits option.splits if_splits)
  have keyed: "updateIdempotent lib w ctx p f q r = (Inl e, r') \<Longrightarrow> r' = r" for q
    using assms(2) by (auto simp: updateIdempotent_def mutationReplayScript_def Let_def dest!: run_script_result run_script_lost
      split: sum.splits prod.splits option.splits if_splits script_result.splits)
  show ?thesis using assms(1) plain keyed by (auto simp: repo_Update_def split: option.splits if_splits)
qed

lemma Update_error: "cat_Update lib w ctx i input r0 r1 r = (Inl e, r') \<Longrightarrow> cw_fault w \<noteq> LostAfter \<Longrightarrow> r' = r"
  by (auto simp: cat_Update_def dest: repo_Update_error split: if_splits sum.splits option.splits prod.splits)

end
