(* ===== verification/Catalog_Props.thy ===== *)
theory Catalog_Props
  imports Catalog_Inv
begin

text \<open>
  What the catalog service guarantees: well-formed flavors, unique names, a complete audit trail,
  creation exactly once, and no lost updates.
\<close>

section \<open>Samples\<close>

definition sample_lib :: cat_lib where
  "sample_lib = \<lparr>lib_lower = (\<lambda>s. if s = ''Mango'' \<or> s = ''MANGO'' then ''mango'' else s), lib_sha256 = id, lib_uuid = Some, lib_url = (\<lambda>_. True)\<rparr>"

definition sample_world :: "nat \<Rightarrow> cat_world" where
  "sample_world k = \<lparr>cw_now = int k, cw_id = ''f'' @ replicate k (CHR ''1''), cw_audit_id = ''a'', cw_audit_now = int k, cw_redis_now = int k,
     cw_fault = NoFault, cw_legacyReady = True, cw_scan = [], cw_scan_fault = (\<lambda>_. NoFault), cw_lookup_fails = False, cw_read_fails = False\<rparr>"

definition sample_ctx :: cat_ctx where
  "sample_ctx = \<lparr>cx_actor = Some (''m'', ''MANAGER''), cx_action = None,
     cx_request = Some \<lparr>ir_Key = ''k'', ir_RawKey = ''k'', ir_PayloadHash = replicate 64 (CHR ''a''), ir_Scope = ''''\<rparr>\<rparr>"

definition sample_flavor :: "string \<Rightarrow> flavor_input" where
  "sample_flavor n = \<lparr>fi_Name = Some n, fi_Description = Some '''', fi_Price = Some \<lparr>cm_AmountMinor = 9000, cm_Currency = ''THB''\<rparr>,
     fi_ImageURL = None, fi_Allergens = Some [''MILK'', ''EGG''], fi_Recipe = Some ''mix'', fi_Active = None\<rparr>"

definition sample_created :: redis where
  "sample_created = snd (cat_Create sample_lib (sample_world 1) sample_ctx (sample_flavor '' Mango '') (redis_start Map.empty))"

definition sample_plain :: cat_ctx where
  "sample_plain = sample_ctx\<lparr>cx_request := None\<rparr>"

definition sample_archived :: redis where
  "sample_archived = snd (cat_Archive sample_lib (sample_world 2) sample_plain ''f1'' sample_created sample_created sample_created)"

lemma sample_run: "(catalog_step sample_lib (\<lambda>_. True))\<^sup>*\<^sup>* (redis_start Map.empty) sample_created"
  "(catalog_step sample_lib (\<lambda>_. True))\<^sup>*\<^sup>* (redis_start Map.empty) sample_archived"
proof -
  have c: "catalog_step sample_lib (\<lambda>_. True) (redis_start Map.empty) sample_created"
    unfolding sample_created_def by (rule catalog_step.create [OF TrueI prod.collapse [symmetric]])
  have a: "catalog_step sample_lib (\<lambda>_. True) sample_created sample_archived"
    unfolding sample_archived_def by (rule catalog_step.archive [OF TrueI prod.collapse [symmetric]])
  show "(catalog_step sample_lib (\<lambda>_. True))\<^sup>*\<^sup>* (redis_start Map.empty) sample_created" using c by blast
  then show "(catalog_step sample_lib (\<lambda>_. True))\<^sup>*\<^sup>* (redis_start Map.empty) sample_archived" using a by simp
qed

section \<open>The stored flavors\<close>

text \<open>
  C27. Every stored flavor is well-formed, whatever requests have run in whatever interleaving, and
  whether they failed or lost their answers: it is stored under its own id, its name has 1 to 100
  characters and its description at most 1,000, its price is a non-negative amount in THB, its image is
  absent or an HTTP URL, its allergens are known, without repetition and sorted, and it has a recipe.
\<close>

theorem catalog_well_formed:
  assumes "(catalog_step lib P)\<^sup>*\<^sup>* (redis_start m) r" and "rs_flavors r i = Some f"
  shows "fa_ID f = i \<and> i \<in> rs_ids r \<and> flavor_wf lib f"
  using catalog_run_ok [OF assms(1) cat_ok_start] assms(2) unfolding cat_ok_def flavors_ok_def by auto

theorem catalog_well_formed_witness:
  "\<exists>f. rs_flavors sample_created ''f1'' = Some f \<and> fa_Name f = ''Mango'' \<and> cf_Allergens (fa_Flavor f) = [''EGG'', ''MILK''] \<and> flavor_wf sample_lib f"
proof -
  have "map_option (\<lambda>f. (fa_Name f, cf_Allergens (fa_Flavor f))) (rs_flavors sample_created ''f1'') = Some (''Mango'', [''EGG'', ''MILK''])" by code_simp
  then obtain f where "rs_flavors sample_created ''f1'' = Some f" "fa_Name f = ''Mango''" "cf_Allergens (fa_Flavor f) = [''EGG'', ''MILK'']" by auto
  then show ?thesis using catalog_well_formed [OF sample_run(1)] by blast
qed

text \<open>
  C23. No two flavors have the same name, whatever its spelling in upper and lower case and the space
  around it, and the index of names finds each flavor under its current name and nothing else.
\<close>

theorem catalog_names:
  assumes "(catalog_step lib P)\<^sup>*\<^sup>* (redis_start m) r"
  shows "(\<forall>i f j g. rs_flavors r i = Some f \<and> rs_flavors r j = Some g \<and> lib_lower lib (TrimSpace (fa_Name f)) = lib_lower lib (TrimSpace (fa_Name g)) \<longrightarrow> i = j) \<and>
    (\<forall>k i. rs_names r k = Some i \<longleftrightarrow> (\<exists>f. rs_flavors r i = Some f \<and> nameKey lib (fa_Name f) = k))"
proof -
  have idx: "rs_names r k = Some i \<longleftrightarrow> (\<exists>f. rs_flavors r i = Some f \<and> nameKey lib (fa_Name f) = k)" for k i
    using catalog_run_ok [OF assms cat_ok_start] by (simp add: cat_ok_def names_ok_def)
  have "i = j" if "rs_flavors r i = Some f" "rs_flavors r j = Some g" "lib_lower lib (TrimSpace (fa_Name f)) = lib_lower lib (TrimSpace (fa_Name g))" for i f j g
    using that idx [of "nameKey lib (fa_Name f)" i] idx [of "nameKey lib (fa_Name f)" j] by (simp add: nameKey_def)
  then show ?thesis using idx by blast
qed

theorem catalog_names_witness:
  "rs_names sample_created ''mango'' = Some ''f1'' \<and>
   fst (cat_Create sample_lib (sample_world 3) sample_plain (sample_flavor ''MANGO'') sample_created) = Inl CatNameConflict"
proof
  have "map_option (\<lambda>f. nameKey sample_lib (fa_Name f)) (rs_flavors sample_created ''f1'') = Some ''mango''" by code_simp
  then obtain f where "rs_flavors sample_created ''f1'' = Some f" "nameKey sample_lib (fa_Name f) = ''mango''" by blast
  then show "rs_names sample_created ''mango'' = Some ''f1''"
    using catalog_names [OF sample_run(1)] by blast
  show "fst (cat_Create sample_lib (sample_world 3) sample_plain (sample_flavor ''MANGO'') sample_created) = Inl CatNameConflict" by code_simp
qed

text \<open>
  C26. The audit trail is complete: for every flavor it starts with the creation, every later record
  begins in the state (allergens and visibility) in which the one before ended, the last one ends in the
  state of the flavor, and every record names the flavor and a manager. An id without a flavor has no
  records.
\<close>

theorem catalog_audited:
  assumes "(catalog_step lib P)\<^sup>*\<^sup>* (redis_start m) r"
  shows "case rs_flavors r i of None \<Rightarrow> rs_audit r i = [] | Some f \<Rightarrow> audit_trail f (rs_audit r i)"
  using catalog_run_ok [OF assms cat_ok_start] by (simp add: cat_ok_def audit_ok_def split: option.split)

theorem catalog_audited_witness:
  "map ar_Action (rs_audit sample_archived ''f1'') = [ActCreate, ActArchive] \<and>
   (\<exists>f. rs_flavors sample_archived ''f1'' = Some f \<and> \<not> cf_Active (fa_Flavor f) \<and> audit_trail f (rs_audit sample_archived ''f1''))"
proof
  show "map ar_Action (rs_audit sample_archived ''f1'') = [ActCreate, ActArchive]" by code_simp
  have "map_option (\<lambda>f. cf_Active (fa_Flavor f)) (rs_flavors sample_archived ''f1'') = Some False" by code_simp
  then obtain f where "rs_flavors sample_archived ''f1'' = Some f" "\<not> cf_Active (fa_Flavor f)" by auto
  then show "\<exists>f. rs_flavors sample_archived ''f1'' = Some f \<and> \<not> cf_Active (fa_Flavor f) \<and> audit_trail f (rs_audit sample_archived ''f1'')"
    using catalog_audited [OF sample_run(2), of "''f1''"] by auto
qed

section \<open>Creation exactly once\<close>

text \<open>
  C24. A creation with an idempotency key happens once. If it took effect, even if its answer was lost,
  then after any requests within the next 24 hours a retry with the same key and payload answers with
  the flavor that was created and changes nothing; the same key with another payload is refused. The
  requests are those of a process that has upgraded the keys of an earlier version, as \<open>main\<close> does
  before it listens.
\<close>

theorem create_once:
  assumes "cat_Create lib w ctx input r = (res, r1)" and "rs_flavors r1 \<noteq> rs_flavors r" and "cx_request ctx = Some q"
    and "(catalog_step lib (\<lambda>w'. cw_redis_now w' < cw_redis_now w + idem_TTL \<and> cw_legacyReady w'))\<^sup>*\<^sup>* r1 r2"
    and "cx_request ctx' = Some q'" and "ir_Key q' = ir_Key q" and "request_ok lib q'" and "ManagerID ctx' = Inr actor"
    and "validateCreateInput lib input' = Inr f'" and "cw_id w' \<noteq> uuid_Nil"
    and "cw_redis_now w' < cw_redis_now w + idem_TTL" and "cw_fault w' = NoFault" and "cw_legacyReady w'"
  shows "\<exists>f. rs_flavors r1 = (rs_flavors r)(cw_id w \<mapsto> f) \<and> cat_Create lib w' ctx' input' r2 =
    (if ir_PayloadHash q' = ir_PayloadHash q then Inr (f\<lparr>fa_IdempotentReplay := True\<rparr>) else Inl CatIdemConflict, r2)"
proof -
  obtain f0 res0 where rep: "repo_create lib w ctx (identified (cw_id w) (cw_now w) (cw_now w) f0) (Some q) r = (res0, r1)"
    using Create_repo [OF assms(1)] assms(2,3) by auto
  let ?f = "stored (identified (cw_id w) (cw_now w) (cw_now w) f0)"
  from repo_create_cases [OF rep] assms(2) obtain h where
    h: "NewRecord (cw_audit_id w) (cw_audit_now w) ctx ActCreate None (identified (cw_id w) (cw_now w) (cw_now w) f0) = Inr h" by auto
  have not_same: "rs_flavors r1 = (rs_flavors r)(cw_id w \<mapsto> ?f) \<and> rs_idem r1 (ir_Key q) = Some (CachedCreate (ir_PayloadHash q) ?f, Some (cw_redis_now w + idem_TTL))"
    using create_effect [OF rep assms(2)] by simp
  have "rs_idem r2 (ir_Key q) = Some (CachedCreate (ir_PayloadHash q) ?f, Some (cw_redis_now w + idem_TTL))"
    using run_idem [OF assms(4)] not_same by blast
  then have live: "live (cw_redis_now w') (rs_idem r2) (ir_Key q') = Some (CachedCreate (ir_PayloadHash q) ?f)"
    using assms(6,11) by (simp add: live_def)
  have "fa_ID ?f \<noteq> uuid_Nil" using NewRecord_Inr [OF h] by simp
  moreover obtain h' where "NewRecord (cw_audit_id w') (cw_audit_now w') ctx' ActCreate None (identified (cw_id w') (cw_now w') (cw_now w') f') = Inr h'"
    using assms(8,10) by (simp add: NewRecord_def)
  ultimately have "repo_create lib w' ctx' (identified (cw_id w') (cw_now w') (cw_now w') f') (Some q') r2 =
      (if ir_PayloadHash q' = ir_PayloadHash q then (Inr (?f, True), r2) else (Inl CatIdemConflict, r2))"
    using repo_create_known [OF live assms(12,13,7)] by blast
  then show ?thesis using not_same assms(5,9) by (intro exI [of _ ?f]) (simp add: cat_Create_def)
qed

theorem create_once_witness:
  "\<exists>f. rs_flavors sample_created = [''f1'' \<mapsto> f] \<and> fa_Name f = ''Mango'' \<and>
    cat_Create sample_lib (sample_world 3) sample_ctx (sample_flavor '' Mango '') sample_archived = (Inr (f\<lparr>fa_IdempotentReplay := True\<rparr>), sample_archived)"
proof -
  let ?q = "\<lparr>ir_Key = ''k'', ir_RawKey = ''k'', ir_PayloadHash = replicate 64 (CHR ''a''), ir_Scope = ''''\<rparr>"
  let ?r = "redis_start Map.empty"
  have 1: "cat_Create sample_lib (sample_world 1) sample_ctx (sample_flavor '' Mango '') ?r =
      (fst (cat_Create sample_lib (sample_world 1) sample_ctx (sample_flavor '' Mango '') ?r), sample_created)" by (simp add: sample_created_def)
  have name: "map_option fa_Name (rs_flavors sample_created ''f1'') = Some ''Mango''" by code_simp
  then have 2: "rs_flavors sample_created \<noteq> rs_flavors ?r" by (auto simp: redis_start_def)
  have 3: "cx_request sample_ctx = Some ?q" by (simp add: sample_ctx_def)
  have "catalog_step sample_lib (\<lambda>w'. cw_redis_now w' < cw_redis_now (sample_world 1) + idem_TTL \<and> cw_legacyReady w') sample_created sample_archived"
    unfolding sample_archived_def
    by (rule catalog_step.archive [OF _ prod.collapse [symmetric]]) (simp add: sample_world_def idem_TTL_def)
  then have 4: "(catalog_step sample_lib (\<lambda>w'. cw_redis_now w' < cw_redis_now (sample_world 1) + idem_TTL \<and> cw_legacyReady w'))\<^sup>*\<^sup>* sample_created sample_archived" by blast
  have 5: "request_ok sample_lib ?q" by code_simp
  have 6: "ManagerID sample_ctx = Inr ''m''" by code_simp
  have "case validateCreateInput sample_lib (sample_flavor '' Mango '') of Inl e \<Rightarrow> False | Inr f \<Rightarrow> True" by code_simp
  then obtain f' where 7: "validateCreateInput sample_lib (sample_flavor '' Mango '') = Inr f'" by (auto split: sum.splits)
  have 8: "cw_id (sample_world 3) \<noteq> uuid_Nil" by code_simp
  obtain f where f: "rs_flavors sample_created = (rs_flavors ?r)(cw_id (sample_world 1) \<mapsto> f)"
    "cat_Create sample_lib (sample_world 3) sample_ctx (sample_flavor '' Mango '') sample_archived = (Inr (f\<lparr>fa_IdempotentReplay := True\<rparr>), sample_archived)"
    using create_once [OF 1 2 3 4 3 refl 5 6 7 8] by (auto simp: sample_world_def idem_TTL_def)
  moreover have "cw_id (sample_world 1) = ''f1''" by (simp add: sample_world_def)
  ultimately show ?thesis using name by (intro exI [of _ f]) (simp add: redis_start_def)
qed

section \<open>No lost updates\<close>

text \<open>
  C25. An update is applied to the flavor as it is when the update is written, not as it was when it
  was read: the script refuses it when another request has changed the flavor in between. When \<open>Update\<close>
  answers with a flavor that is not the replay of an earlier answer, that flavor is the input applied to
  the current flavor, its time of change is later, and nothing but this flavor has changed; when it
  answers with an error nothing has changed, unless the connection to Redis was lost.
\<close>

theorem no_lost_update:
  assumes "(catalog_step lib P)\<^sup>*\<^sup>* (redis_start m) r1" and "cat_Update lib w ctx i input r0 r1 r = (res, r')"
  shows "(\<forall>g. res = Inr (Some g) \<and> \<not> fa_IdempotentReplay g \<longrightarrow> (\<exists>c f. rs_flavors r i = Some c \<and> apply_input lib input c = Inr f \<and>
      g = touched (cw_now w) c f \<and> cf_UpdatedAt (fa_Flavor c) < cf_UpdatedAt (fa_Flavor g) \<and> rs_flavors r' = (rs_flavors r)(i \<mapsto> g))) \<and>
    (\<forall>e. res = Inl e \<and> cw_fault w \<noteq> LostAfter \<longrightarrow> r' = r)"
proof (intro conjI allI impI; elim conjE)
  fix g assume g: "res = Inr (Some g)" "\<not> fa_IdempotentReplay g"
  obtain p f where p: "rs_flavors r1 i = Some p" "apply_input lib input p = Inr f"
      "repo_Update lib w (WithAction ActUpdate ctx) p (touched (cw_now w) p f) r = (Inr g, r')"
    using Update_answer [of lib w ctx i input r0 r1 r g r'] assms(2) g by blast
  have ok: "fa_ID p = i" "\<not> fa_IdempotentReplay p"
    using catalog_run_ok [OF assms(1) cat_ok_start] p(1) unfolding cat_ok_def flavors_ok_def by blast+
  let ?f = "touched (cw_now w) p f"
  have f: "fa_ID ?f = i" "\<not> fa_IdempotentReplay ?f"
    using apply_input_frame [OF p(2)] ok by (auto simp: touched_def put_flavor_def)
  have t: "cf_UpdatedAt (fa_Flavor p) < cf_UpdatedAt (fa_Flavor ?f)"
    by (simp add: touched_def put_flavor_def next_update_def)
  then have "stored ?f \<noteq> stored p" by (metis less_irrefl stored_simps(1))
  from repo_Update_wrote [OF p(3) g(2) this] have "rs_flavors r i = Some p \<and> g = ?f \<and> rs_flavors r' = (rs_flavors r)(i \<mapsto> g)"
    using ok f stored_id by metis
  then show "\<exists>c f. rs_flavors r i = Some c \<and> apply_input lib input c = Inr f \<and>
      g = touched (cw_now w) c f \<and> cf_UpdatedAt (fa_Flavor c) < cf_UpdatedAt (fa_Flavor g) \<and> rs_flavors r' = (rs_flavors r)(i \<mapsto> g)"
    using p(2) t by blast
next
  fix e assume "res = Inl e" "cw_fault w \<noteq> LostAfter"
  then show "r' = r" using Update_error [of lib w ctx i input r0 r1 r e r'] assms(2) by blast
qed

text \<open>A new price; once nothing comes in between, once the flavor is archived between the read and the write.\<close>

definition sample_patch :: flavor_input where
  "sample_patch = \<lparr>fi_Name = None, fi_Description = None, fi_Price = Some \<lparr>cm_AmountMinor = 9500, cm_Currency = ''THB''\<rparr>,
     fi_ImageURL = None, fi_Allergens = None, fi_Recipe = None, fi_Active = None\<rparr>"

theorem no_lost_update_witness:
  "cat_Update sample_lib (sample_world 3) sample_plain ''f1'' sample_patch sample_created sample_created sample_archived = (Inl CatUpdateConflict, sample_archived) \<and>
   (\<exists>g r'. cat_Update sample_lib (sample_world 3) sample_plain ''f1'' sample_patch sample_created sample_created sample_created = (Inr (Some g), r') \<and>
      rs_flavors r' ''f1'' = Some g)"
proof -
  let ?u = "cat_Update sample_lib (sample_world 3) sample_plain ''f1'' sample_patch sample_created sample_created"
  have "fst (?u sample_archived) = Inl CatUpdateConflict" "cw_fault (sample_world 3) \<noteq> LostAfter" by code_simp+
  then have 1: "?u sample_archived = (Inl CatUpdateConflict, sample_archived)"
    using no_lost_update [OF sample_run(1) prod.collapse [of "?u sample_archived", symmetric]] by (metis prod.collapse)
  have "case fst (?u sample_created) of Inr (Some g) \<Rightarrow> \<not> fa_IdempotentReplay g | _ \<Rightarrow> False" by code_simp
  then obtain g where g: "fst (?u sample_created) = Inr (Some g)" "\<not> fa_IdempotentReplay g" by (auto split: sum.splits option.splits)
  then have "rs_flavors (snd (?u sample_created)) ''f1'' = Some g"
    using no_lost_update [OF sample_run(1) prod.collapse [of "?u sample_created", symmetric]] by auto
  then show ?thesis using 1 g by (metis prod.collapse)
qed

end
