(* ===== verification/Analytics_Service.thy ===== *)
theory Analytics_Service
  imports Gelato_Text "HOL-Library.AList"
begin

text \<open>
  The analytics service: daily totals (\<open>models/analytics.go\<close>), the MongoDB repositories
  (\<open>repository/analytics_repo.go\<close>, \<open>repository/event_repo.go\<close>), what an event does to the totals
  (\<open>service/analytics_service.go\<close>) and what becomes of a message (\<open>messaging/consumer.go\<close>).

  \<open>int\<close> and \<open>int64\<close> have 64 bits and wrap. Floating point numbers are of a type \<open>'f\<close> whose operations
  are arguments, and so is the parsing of time stamps (\<open>an_lib\<close>).
\<close>

section \<open>Daily totals\<close>

record an_financials =
  fn_GrossSalesMinor :: int
  fn_TotalOrders :: int
  fn_AverageOrderValueMinor :: int
  fn_Currency :: string

record an_by_reason =
  wr_Reason :: string
  wr_Portions :: int
  wr_CostLostMinor :: int

record an_flavor_stat =
  fs_FlavorID :: string
  fs_Name :: string
  fs_ScoopsSold :: int
  fs_RevenueMinor :: int
  fs_WastePortions :: int
  fs_CostLostMinor :: int

record 'f analytics =
  an_Date :: string
  an_Financials :: an_financials
  an_ScoopsSold :: int
  an_WasteRate :: 'f
  an_TotalWastePortions :: int
  an_CostLostMinor :: int
  an_WasteByReason :: "an_by_reason list"
  an_FlavorStats :: "an_flavor_stat list"
  an_ReversedOrderIDs :: "string list"

text \<open>
  \<open>lib_ratio a b\<close> is \<open>float64(a) / float64(b)\<close>, \<open>lib_zero\<close> is 0, \<open>lib_pos\<close> tells whether a number is positive
  and \<open>lib_minor\<close> is \<open>int64(x * 100.0)\<close>. \<open>lib_stamp\<close> parses an RFC 3339 time and prints its date, \<open>lib_date\<close>
  does so with a date.
\<close>

record 'f an_lib =
  lib_ratio :: "int \<Rightarrow> int \<Rightarrow> 'f"
  lib_zero :: 'f
  lib_pos :: "'f \<Rightarrow> bool"
  lib_minor :: "'f \<Rightarrow> int"
  lib_stamp :: "string \<Rightarrow> string option"
  lib_date :: "string \<Rightarrow> string option"

section \<open>Events\<close>

record 'f placed_item =
  pi_FlavorID :: string
  pi_FlavorName :: string
  pi_Portions :: int
  pi_Subtotal :: 'f
  pi_SubtotalMinor :: int

record 'f an_placed =
  pe_ID :: string
  pe_Time :: string
  pe_TotalAmount :: 'f
  pe_TotalAmountMinor :: int
  pe_Currency :: string
  pe_Items :: "'f placed_item list"

record 'f an_cancelled =
  ce_ID :: string
  ce_OrderID :: string
  ce_WasPaid :: bool
  ce_TotalAmountMinor :: int
  ce_Items :: "'f placed_item list"
  ce_PaidAt :: string

record an_waste =
  we_ID :: string
  we_Time :: string
  we_FlavorID :: string
  we_FlavorName :: string
  we_Portions :: int
  we_Reason :: string
  we_CostLostMinor :: int

section \<open>The store\<close>

text \<open>The ids of processed events are kept with the time of the mark, \<open>processed_at\<close>.\<close>

record 'f an_db =
  db_days :: "string \<rightharpoonup> 'f analytics"
  db_events :: "string \<rightharpoonup> time"

datatype an_error = AnInvalidDate | AnStorage

text \<open>What fails while an event is processed; a write may be reported as failed although it took effect.\<close>

datatype write_fault = WriteOk | WriteLost | WriteUnheard

record an_world =
  aw_check :: bool \<comment> \<open>\<open>IsProcessed\<close> fails\<close>
  aw_find :: bool \<comment> \<open>\<open>FindByDate\<close> fails\<close>
  aw_save :: write_fault
  aw_mark :: write_fault
  aw_now :: time \<comment> \<open>\<open>time.Now()\<close>\<close>

definition written_by :: "write_fault \<Rightarrow> ('s \<Rightarrow> 's) \<Rightarrow> 's \<Rightarrow> bool \<times> 's" where
  "written_by fault g s = (case fault of WriteOk \<Rightarrow> (True, g s) | WriteLost \<Rightarrow> (False, s) | WriteUnheard \<Rightarrow> (False, g s))"

definition IsProcessed :: "an_world \<Rightarrow> string \<Rightarrow> 'f an_db \<Rightarrow> an_error + bool" where
  "IsProcessed w i d = (if i = '''' then Inr False else if aw_check w then Inl AnStorage else Inr (db_events d i \<noteq> None))"

definition MarkProcessed :: "an_world \<Rightarrow> string \<Rightarrow> 'f an_db \<Rightarrow> bool \<times> 'f an_db" where
  "MarkProcessed w i d = (if i = '''' then (True, d) else written_by (aw_mark w) (\<lambda>d. d\<lparr>db_events := (db_events d)(i \<mapsto> aw_now w)\<rparr>) d)"

text \<open>
  The index on \<open>processed_at\<close> expires a mark after seven days: from then on the monitor of the database
  may remove it, at a moment of its own, here \<open>now\<close>, when it gets to the ids \<open>gone\<close>.
\<close>

definition EventRetention :: int where "EventRetention = 7 * 24 * 3600 * Second"

definition expire_events :: "time \<Rightarrow> string list \<Rightarrow> 'f an_db \<Rightarrow> 'f an_db" where
  "expire_events now gone d = d\<lparr>db_events := (\<lambda>i. case db_events d i of
     None \<Rightarrow> None
   | Some t \<Rightarrow> if i \<in> set gone \<and> t + EventRetention \<le> now then None else Some t)\<rparr>"

text \<open>\<open>Save\<close> sets every field but the reversed orders; a day without a document is created.\<close>

definition save_day :: "'f analytics \<Rightarrow> 'f an_db \<Rightarrow> 'f an_db" where
  "save_day a d = d\<lparr>db_days := (db_days d)(an_Date a \<mapsto>
     a\<lparr>an_ReversedOrderIDs := (case db_days d (an_Date a) of None \<Rightarrow> [] | Some x \<Rightarrow> an_ReversedOrderIDs x)\<rparr>)\<rparr>"

definition Save :: "an_world \<Rightarrow> 'f analytics \<Rightarrow> 'f an_db \<Rightarrow> bool \<times> 'f an_db" where
  "Save w a d = written_by (aw_save w) (save_day a) d"

text \<open>
  \<open>SaveReversal\<close> adds the order to the day's list in the same update; when the day records the order
  already, the filter does not match, the upsert hits the unique index and nothing is written.
\<close>

definition reversal_day :: "'f analytics \<Rightarrow> string \<Rightarrow> 'f an_db \<Rightarrow> 'f an_db" where
  "reversal_day a orderID d = (case db_days d (an_Date a) of
     Some x \<Rightarrow>
       if orderID \<in> set (an_ReversedOrderIDs x) then d
       else d\<lparr>db_days := (db_days d)(an_Date a \<mapsto> a\<lparr>an_ReversedOrderIDs := an_ReversedOrderIDs x @ [orderID]\<rparr>)\<rparr>
   | None \<Rightarrow> d\<lparr>db_days := (db_days d)(an_Date a \<mapsto> a\<lparr>an_ReversedOrderIDs := [orderID]\<rparr>)\<rparr>)"

definition SaveReversal :: "an_world \<Rightarrow> 'f analytics \<Rightarrow> string \<Rightarrow> 'f an_db \<Rightarrow> bool \<times> 'f an_db" where
  "SaveReversal w a orderID d = written_by (aw_save w) (reversal_day a orderID) d"

section \<open>Processing\<close>

definition extractDate :: "'f an_lib \<Rightarrow> string \<Rightarrow> an_error + string" where
  "extractDate lib z = (if z = '''' then Inl AnInvalidDate
     else case lib_stamp lib z of
       Some day \<Rightarrow> Inr day
     | None \<Rightarrow> (case lib_date lib z of Some day \<Rightarrow> Inr day | None \<Rightarrow> Inl AnInvalidDate))"

definition new_day :: "'f an_lib \<Rightarrow> string \<Rightarrow> 'f analytics" where
  "new_day lib date = \<lparr>an_Date = date,
     an_Financials = \<lparr>fn_GrossSalesMinor = 0, fn_TotalOrders = 0, fn_AverageOrderValueMinor = 0, fn_Currency = ''''\<rparr>,
     an_ScoopsSold = 0, an_WasteRate = lib_zero lib, an_TotalWastePortions = 0, an_CostLostMinor = 0, an_WasteByReason = [],
     an_FlavorStats = [], an_ReversedOrderIDs = []\<rparr>"

definition getOrCreateAnalytics :: "'f an_lib \<Rightarrow> an_world \<Rightarrow> string \<Rightarrow> 'f an_db \<Rightarrow> an_error + 'f analytics" where
  "getOrCreateAnalytics lib w date d =
     (if date = '''' then Inl AnInvalidDate
      else if lib_date lib date = None then Inl AnInvalidDate
      else if aw_find w then Inl AnStorage
      else Inr (case db_days d date of Some a \<Rightarrow> a | None \<Rightarrow> new_day lib date))"

text \<open>The first entry of a flavor is changed, or a new entry is appended.\<close>

fun upd_flavor :: "string \<Rightarrow> (an_flavor_stat \<Rightarrow> an_flavor_stat) \<Rightarrow> an_flavor_stat \<Rightarrow> an_flavor_stat list \<Rightarrow> an_flavor_stat list" where
  "upd_flavor i g new [] = [new]"
| "upd_flavor i g new (x # xs) = (if fs_FlavorID x = i then g x # xs else x # upd_flavor i g new xs)"

definition renamed :: "string \<Rightarrow> an_flavor_stat \<Rightarrow> an_flavor_stat" where
  "renamed n x = (if n \<noteq> '''' then x\<lparr>fs_Name := n\<rparr> else x)"

text \<open>The amount in minor units, computed from a floating point amount when there is none.\<close>

definition minor_of :: "'f an_lib \<Rightarrow> int \<Rightarrow> 'f \<Rightarrow> int" where
  "minor_of lib minor x = (if minor = 0 \<and> lib_pos lib x then lib_minor lib x else minor)"

definition count_item :: "'f an_lib \<Rightarrow> 'f placed_item \<Rightarrow> 'f analytics \<Rightarrow> 'f analytics" where
  "count_item lib it a =
     (let subtotal = minor_of lib (pi_SubtotalMinor it) (pi_Subtotal it) in
      a\<lparr>an_ScoopsSold := i64 (an_ScoopsSold a + pi_Portions it),
        an_FlavorStats := upd_flavor (pi_FlavorID it)
          (\<lambda>x. renamed (pi_FlavorName it) (x\<lparr>fs_ScoopsSold := i64 (fs_ScoopsSold x + pi_Portions it), fs_RevenueMinor := i64 (fs_RevenueMinor x + subtotal)\<rparr>))
          \<lparr>fs_FlavorID = pi_FlavorID it, fs_Name = pi_FlavorName it, fs_ScoopsSold = pi_Portions it, fs_RevenueMinor = subtotal,
            fs_WastePortions = 0, fs_CostLostMinor = 0\<rparr> (an_FlavorStats a)\<rparr>)"

definition waste_rate :: "'f an_lib \<Rightarrow> 'f analytics \<Rightarrow> 'f analytics" where
  "waste_rate lib a = (if an_ScoopsSold a > 0 then a\<lparr>an_WasteRate := lib_ratio lib (an_TotalWastePortions a) (an_ScoopsSold a)\<rparr> else a)"

definition count_sale :: "'f an_lib \<Rightarrow> 'f an_placed \<Rightarrow> 'f analytics \<Rightarrow> 'f analytics" where
  "count_sale lib e a =
     (let fin = an_Financials a;
          gross = i64 (fn_GrossSalesMinor fin + minor_of lib (pe_TotalAmountMinor e) (pe_TotalAmount e));
          n = i64 (fn_TotalOrders fin + 1);
          fin = fin\<lparr>fn_GrossSalesMinor := gross, fn_TotalOrders := n,
            fn_AverageOrderValueMinor := (if n > 0 then quot gross n else fn_AverageOrderValueMinor fin),
            fn_Currency := (if pe_Currency e \<noteq> '''' then pe_Currency e else fn_Currency fin)\<rparr>
      in waste_rate lib (fold (count_item lib) (pe_Items e) (a\<lparr>an_Financials := fin\<rparr>)))"

definition ProcessOrderPlaced :: "'f an_lib \<Rightarrow> an_world \<Rightarrow> 'f an_placed \<Rightarrow> 'f an_db \<Rightarrow> (an_error + unit) \<times> 'f an_db" where
  "ProcessOrderPlaced lib w e d =
     (case IsProcessed w (pe_ID e) d of
        Inl err \<Rightarrow> (Inl err, d)
      | Inr True \<Rightarrow> (Inr (), d)
      | Inr False \<Rightarrow>
          (case extractDate lib (pe_Time e) of
             Inl err \<Rightarrow> (Inl err, d)
           | Inr date \<Rightarrow>
               (case getOrCreateAnalytics lib w date d of
                  Inl err \<Rightarrow> (Inl err, d)
                | Inr a \<Rightarrow>
                    (case Save w (count_sale lib e a) d of
                       (False, d') \<Rightarrow> (Inl AnStorage, d')
                     | (True, d') \<Rightarrow> (Inr (), snd (MarkProcessed w (pe_ID e) d'))))))"

definition uncount_item :: "'f placed_item \<Rightarrow> 'f analytics \<Rightarrow> 'f analytics" where
  "uncount_item it a =
     a\<lparr>an_ScoopsSold := i64 (an_ScoopsSold a - pi_Portions it),
       an_FlavorStats := upd_flavor (pi_FlavorID it)
         (\<lambda>x. x\<lparr>fs_ScoopsSold := i64 (fs_ScoopsSold x - pi_Portions it), fs_RevenueMinor := i64 (fs_RevenueMinor x - pi_SubtotalMinor it)\<rparr>)
         \<lparr>fs_FlavorID = pi_FlavorID it, fs_Name = pi_FlavorName it, fs_ScoopsSold = i64 (- pi_Portions it),
           fs_RevenueMinor = i64 (- pi_SubtotalMinor it), fs_WastePortions = 0, fs_CostLostMinor = 0\<rparr> (an_FlavorStats a)\<rparr>"

definition uncount_sale :: "'f an_lib \<Rightarrow> 'f an_cancelled \<Rightarrow> 'f analytics \<Rightarrow> 'f analytics" where
  "uncount_sale lib e a =
     (let fin = an_Financials a;
          gross = i64 (fn_GrossSalesMinor fin - ce_TotalAmountMinor e);
          n = i64 (fn_TotalOrders fin - 1);
          fin = fin\<lparr>fn_GrossSalesMinor := gross, fn_TotalOrders := n, fn_AverageOrderValueMinor := (if n > 0 then quot gross n else 0)\<rparr>
      in waste_rate lib ((fold uncount_item (ce_Items e) (a\<lparr>an_Financials := fin\<rparr>))\<lparr>an_WasteRate := lib_zero lib\<rparr>))"

definition reversePaidOrder :: "'f an_lib \<Rightarrow> an_world \<Rightarrow> 'f an_cancelled \<Rightarrow> 'f an_db \<Rightarrow> (an_error + unit) \<times> 'f an_db" where
  "reversePaidOrder lib w e d =
     (if ce_OrderID e = '''' then (Inl AnInvalidDate, d)
      else case extractDate lib (ce_PaidAt e) of
        Inl err \<Rightarrow> (Inl err, d)
      | Inr date \<Rightarrow>
          (case getOrCreateAnalytics lib w date d of
             Inl err \<Rightarrow> (Inl err, d)
           | Inr a \<Rightarrow>
               if ce_OrderID e \<in> set (an_ReversedOrderIDs a) then (Inr (), d)
               else (case SaveReversal w (uncount_sale lib e a) (ce_OrderID e) d of
                 (False, d') \<Rightarrow> (Inl AnStorage, d')
               | (True, d') \<Rightarrow> (Inr (), d'))))"

definition ProcessOrderCancelled :: "'f an_lib \<Rightarrow> an_world \<Rightarrow> 'f an_cancelled \<Rightarrow> 'f an_db \<Rightarrow> (an_error + unit) \<times> 'f an_db" where
  "ProcessOrderCancelled lib w e d =
     (case IsProcessed w (ce_ID e) d of
        Inl err \<Rightarrow> (Inl err, d)
      | Inr True \<Rightarrow> (Inr (), d)
      | Inr False \<Rightarrow>
          (case (if ce_WasPaid e then reversePaidOrder lib w e d else (Inr (), d)) of
             (Inl err, d') \<Rightarrow> (Inl err, d')
           | (Inr _, d') \<Rightarrow>
               if ce_ID e = '''' then (Inr (), d')
               else (case MarkProcessed w (ce_ID e) d' of (marked, d'') \<Rightarrow> (if marked then Inr () else Inl AnStorage, d''))))"

fun upd_reason :: "string \<Rightarrow> (an_by_reason \<Rightarrow> an_by_reason) \<Rightarrow> an_by_reason \<Rightarrow> an_by_reason list \<Rightarrow> an_by_reason list" where
  "upd_reason i g new [] = [new]"
| "upd_reason i g new (x # xs) = (if wr_Reason x = i then g x # xs else x # upd_reason i g new xs)"

definition count_waste :: "'f an_lib \<Rightarrow> an_waste \<Rightarrow> 'f analytics \<Rightarrow> 'f analytics" where
  "count_waste lib e a =
     (let a = waste_rate lib (a\<lparr>an_TotalWastePortions := i64 (an_TotalWastePortions a + we_Portions e),
            an_CostLostMinor := i64 (an_CostLostMinor a + we_CostLostMinor e)\<rparr>)
      in a\<lparr>an_WasteByReason := upd_reason (we_Reason e)
            (\<lambda>x. x\<lparr>wr_Portions := i64 (wr_Portions x + we_Portions e), wr_CostLostMinor := i64 (wr_CostLostMinor x + we_CostLostMinor e)\<rparr>)
            \<lparr>wr_Reason = we_Reason e, wr_Portions = we_Portions e, wr_CostLostMinor = we_CostLostMinor e\<rparr> (an_WasteByReason a),
          an_FlavorStats := upd_flavor (we_FlavorID e)
            (\<lambda>x. renamed (we_FlavorName e) (x\<lparr>fs_WastePortions := i64 (fs_WastePortions x + we_Portions e),
               fs_CostLostMinor := i64 (fs_CostLostMinor x + we_CostLostMinor e)\<rparr>))
            \<lparr>fs_FlavorID = we_FlavorID e, fs_Name = we_FlavorName e, fs_ScoopsSold = 0, fs_RevenueMinor = 0,
              fs_WastePortions = we_Portions e, fs_CostLostMinor = we_CostLostMinor e\<rparr> (an_FlavorStats a)\<rparr>)"

definition ProcessWasteRecorded :: "'f an_lib \<Rightarrow> an_world \<Rightarrow> an_waste \<Rightarrow> 'f an_db \<Rightarrow> (an_error + unit) \<times> 'f an_db" where
  "ProcessWasteRecorded lib w e d =
     (case IsProcessed w (we_ID e) d of
        Inl err \<Rightarrow> (Inl err, d)
      | Inr True \<Rightarrow> (Inr (), d)
      | Inr False \<Rightarrow>
          (case extractDate lib (we_Time e) of
             Inl err \<Rightarrow> (Inl err, d)
           | Inr date \<Rightarrow>
               (case getOrCreateAnalytics lib w date d of
                  Inl err \<Rightarrow> (Inl err, d)
                | Inr a \<Rightarrow>
                    (case Save w (count_waste lib e a) d of
                       (False, d') \<Rightarrow> (Inl AnStorage, d')
                     | (True, d') \<Rightarrow> (Inr (), snd (MarkProcessed w (we_ID e) d'))))))"

section \<open>Messages\<close>

datatype 'f an_message = PlacedMsg "'f an_placed" | CancelledMsg "'f an_cancelled" | WasteMsg an_waste

datatype an_action = AnAck | AnNack bool \<comment> \<open>requeue?\<close>

definition isPermanentError :: "an_error \<Rightarrow> bool" where
  "isPermanentError e \<longleftrightarrow> e = AnInvalidDate"

definition settle_message :: "(an_error + unit) \<times> 'f an_db \<Rightarrow> an_action \<times> 'f an_db" where
  "settle_message res = (case res of
     (Inl e, d) \<Rightarrow> (AnNack (\<not> isPermanentError e), d)
   | (Inr _, d) \<Rightarrow> (AnAck, d))"

text \<open>
  What \<open>json.Unmarshal\<close> reads into the fields of an event and of the auxiliary structs, missing ones 0.
  A key that both the struct and the auxiliary struct have goes to the latter. \<open>None\<close> when the body is
  not valid.
\<close>

record 'f item_json =
  ij_flavorId :: string
  ij_flavor_id :: string
  ij_flavorName :: string
  ij_flavor_name :: string
  ij_portions :: int
  ij_subtotal :: 'f
  ij_subtotalMinor :: int
  ij_subtotal_minor :: int

record 'f placed_json =
  pj_id :: string
  pj_time :: string
  pj_totalAmount :: 'f
  pj_total_amount :: 'f
  pj_totalAmountMinor :: int
  pj_total_amount_minor :: int
  pj_currency :: string
  pj_items :: "'f item_json list"

record 'f cancelled_json =
  cj_id :: string
  cj_orderId :: string
  cj_order_id :: string
  cj_was_paid :: bool
  cj_total_amount_minor :: int
  cj_items :: "'f item_json list"
  cj_paid_at :: string

record waste_json =
  wj_id :: string
  wj_time :: string
  wj_flavorId :: string
  wj_flavor_id :: string
  wj_flavorName :: string
  wj_flavor_name :: string
  wj_portions :: int
  wj_reason :: string
  wj_costLostMinor :: int
  wj_cost_lost_minor :: int

record 'f an_codec =
  dec_placed :: "string \<Rightarrow> 'f placed_json option"
  dec_cancelled :: "string \<Rightarrow> 'f cancelled_json option"
  dec_waste :: "string \<Rightarrow> waste_json option"

definition first_text :: "string \<Rightarrow> string \<Rightarrow> string" where
  "first_text camel snake = (if camel = '''' \<and> snake \<noteq> '''' then snake else camel)"

text \<open>The amount and its minor units; each is computed from the other when it is 0.\<close>

definition settle_amount :: "'f an_lib \<Rightarrow> 'f \<Rightarrow> 'f \<Rightarrow> int \<Rightarrow> 'f \<times> int" where
  "settle_amount lib amount snake minor =
     (if amount = lib_zero lib
      then if minor > 0 then (lib_ratio lib minor 100, minor)
        else if lib_pos lib snake then (snake, lib_minor lib snake)
        else (amount, minor)
      else if minor = 0 then (amount, lib_minor lib amount)
      else (amount, minor))"

definition item_UnmarshalJSON :: "'f an_lib \<Rightarrow> 'f item_json \<Rightarrow> 'f placed_item" where
  "item_UnmarshalJSON lib j =
     (let minor = (if ij_subtotal_minor j > 0 then ij_subtotal_minor j else ij_subtotalMinor j);
          (subtotal, minor) = settle_amount lib (lib_zero lib) (ij_subtotal j) minor
      in \<lparr>pi_FlavorID = first_text (ij_flavorId j) (ij_flavor_id j), pi_FlavorName = first_text (ij_flavorName j) (ij_flavor_name j),
        pi_Portions = ij_portions j, pi_Subtotal = subtotal, pi_SubtotalMinor = minor\<rparr>)"

definition placed_UnmarshalJSON :: "'f an_lib \<Rightarrow> 'f placed_json \<Rightarrow> 'f an_placed" where
  "placed_UnmarshalJSON lib j =
     (let minor = (if pj_total_amount_minor j > 0 then pj_total_amount_minor j else pj_totalAmountMinor j);
          (amount, minor) = settle_amount lib (pj_totalAmount j) (pj_total_amount j) minor
      in \<lparr>pe_ID = pj_id j, pe_Time = pj_time j, pe_TotalAmount = amount, pe_TotalAmountMinor = minor, pe_Currency = pj_currency j,
        pe_Items = map (item_UnmarshalJSON lib) (pj_items j)\<rparr>)"

definition cancelled_UnmarshalJSON :: "'f an_lib \<Rightarrow> 'f cancelled_json \<Rightarrow> 'f an_cancelled" where
  "cancelled_UnmarshalJSON lib j =
     \<lparr>ce_ID = cj_id j, ce_OrderID = first_text (cj_orderId j) (cj_order_id j), ce_WasPaid = cj_was_paid j,
       ce_TotalAmountMinor = cj_total_amount_minor j, ce_Items = map (item_UnmarshalJSON lib) (cj_items j), ce_PaidAt = cj_paid_at j\<rparr>"

definition waste_UnmarshalJSON :: "waste_json \<Rightarrow> an_waste" where
  "waste_UnmarshalJSON j =
     \<lparr>we_ID = wj_id j, we_Time = wj_time j, we_FlavorID = first_text (wj_flavorId j) (wj_flavor_id j),
       we_FlavorName = first_text (wj_flavorName j) (wj_flavor_name j), we_Portions = wj_portions j, we_Reason = wj_reason j,
       we_CostLostMinor = (if wj_cost_lost_minor j > 0 then wj_cost_lost_minor j else wj_costLostMinor j)\<rparr>"

definition an_decode :: "'f an_lib \<Rightarrow> 'f an_codec \<Rightarrow> string \<Rightarrow> string \<Rightarrow> 'f an_message option" where
  "an_decode lib dec routingKey body =
     (if routingKey = ''order.placed'' \<or> routingKey = ''OrderPlaced'' then map_option (PlacedMsg \<circ> placed_UnmarshalJSON lib) (dec_placed dec body)
      else if routingKey = ''order.cancelled'' \<or> routingKey = ''OrderCancelled''
      then map_option (CancelledMsg \<circ> cancelled_UnmarshalJSON lib) (dec_cancelled dec body)
      else if routingKey = ''inventory.waste'' \<or> routingKey = ''WasteRecorded'' then map_option (WasteMsg \<circ> waste_UnmarshalJSON) (dec_waste dec body)
      else None)"

definition an_process :: "'f an_lib \<Rightarrow> an_world \<Rightarrow> 'f an_message \<Rightarrow> 'f an_db \<Rightarrow> (an_error + unit) \<times> 'f an_db" where
  "an_process lib w m d = (case m of
     PlacedMsg e \<Rightarrow> ProcessOrderPlaced lib w e d
   | CancelledMsg e \<Rightarrow> ProcessOrderCancelled lib w e d
   | WasteMsg e \<Rightarrow> ProcessWasteRecorded lib w e d)"

definition processMessage :: "'f an_lib \<Rightarrow> 'f an_codec \<Rightarrow> an_world \<Rightarrow> string \<Rightarrow> string \<Rightarrow> 'f an_db \<Rightarrow> an_action \<times> 'f an_db" where
  "processMessage lib dec w routingKey body d =
     (case an_decode lib dec routingKey body of
        None \<Rightarrow> (AnNack False, d)
      | Some m \<Rightarrow> settle_message (an_process lib w m d))"

end
