(* ===== verification/Analytics_Laws.thy ===== *)
theory Analytics_Laws
  imports Analytics_Service
begin

text \<open>
  The totals of the analytics service against a reference: a quantity of a day is the sum of what the
  events of that day contribute, each counted once. The locale \<open>day_quantity\<close> proves it for any quantity
  to which every kind of event adds its part; it is interpreted for the sales, the number of orders, the
  scoops, the waste, and the same per flavor.
\<close>

section \<open>Wrap-around\<close>

lemma i64_add: "i64 (i64 x + y) = i64 (x + y)" "i64 (x + i64 y) = i64 (x + y)"
proof -
  have add: "i64 (i64 x + y) = i64 (x + y)" for x y
  proof -
    have "(i64 x + y + 2 ^ 63) mod 2 ^ 64 = ((x + 2 ^ 63) mod 2 ^ 64 + y) mod 2 ^ 64" by (simp add: i64_def)
    also have "\<dots> = (x + 2 ^ 63 + y) mod 2 ^ 64" by (rule mod_add_left_eq)
    finally show ?thesis by (simp add: i64_def ac_simps)
  qed
  show "i64 (i64 x + y) = i64 (x + y)" by (rule add)
  show "i64 (x + i64 y) = i64 (x + y)" using add [of y x] by (simp only: add.commute)
qed

lemma i64_sub: "i64 (i64 x - y) = i64 (x - y)"
  using i64_add(1) [of x "- y"] by simp

lemma i64_0 [simp]: "i64 0 = 0"
  by (simp add: i64_def)

section \<open>Messages\<close>

definition msg_id :: "'f an_message \<Rightarrow> string" where
  "msg_id m = (case m of PlacedMsg e \<Rightarrow> pe_ID e | CancelledMsg e \<Rightarrow> ce_ID e | WasteMsg e \<Rightarrow> we_ID e)"

text \<open>The day on which a message counts; an unpaid cancellation counts on none.\<close>

definition day_of :: "'f an_lib \<Rightarrow> 'f an_message \<Rightarrow> string option" where
  "day_of lib m = (case (case m of PlacedMsg e \<Rightarrow> extractDate lib (pe_Time e)
      | CancelledMsg e \<Rightarrow> (if ce_WasPaid e then extractDate lib (ce_PaidAt e) else Inl AnInvalidDate)
      | WasteMsg e \<Rightarrow> extractDate lib (we_Time e)) of Inl _ \<Rightarrow> None | Inr day \<Rightarrow> Some day)"

text \<open>The integers of an event fit in 64 bits, as every Go integer does.\<close>

definition item_typed :: "'f an_lib \<Rightarrow> 'f placed_item \<Rightarrow> bool" where
  "item_typed lib it \<longleftrightarrow> i64 (pi_Portions it) = pi_Portions it \<and> i64 (pi_SubtotalMinor it) = pi_SubtotalMinor it \<and>
     i64 (minor_of lib (pi_SubtotalMinor it) (pi_Subtotal it)) = minor_of lib (pi_SubtotalMinor it) (pi_Subtotal it)"

definition msg_typed :: "'f an_lib \<Rightarrow> 'f an_message \<Rightarrow> bool" where
  "msg_typed lib m = (case m of PlacedMsg e \<Rightarrow> list_all (item_typed lib) (pe_Items e)
     | CancelledMsg e \<Rightarrow> list_all (item_typed lib) (ce_Items e)
     | WasteMsg e \<Rightarrow> i64 (we_Portions e) = we_Portions e \<and> i64 (we_CostLostMinor e) = we_CostLostMinor e)"

text \<open>A message that can be processed: it has an id, a date, and a paid cancellation names its order.\<close>

definition msg_valid :: "'f an_lib \<Rightarrow> 'f an_message \<Rightarrow> bool" where
  "msg_valid lib m \<longleftrightarrow> msg_id m \<noteq> '''' \<and> msg_typed lib m \<and>
     (case m of CancelledMsg e \<Rightarrow> ce_WasPaid e \<longrightarrow> ce_OrderID e \<noteq> '''' | _ \<Rightarrow> True) \<and>
     ((\<exists>e. m = CancelledMsg e \<and> \<not> ce_WasPaid e) \<or> (\<exists>day. day_of lib m = Some day \<and> day \<noteq> '''' \<and> lib_date lib day \<noteq> None))"

definition all_well :: an_world where
  "all_well = \<lparr>aw_check = False, aw_find = False, aw_save = WriteOk, aw_mark = WriteOk, aw_now = 0\<rparr>"

definition an_start :: "'f an_db" where
  "an_start = \<lparr>db_days = Map.empty, db_events = Map.empty\<rparr>"

text \<open>
  A run: messages are delivered one after the other and the database expires marks in between. It
  yields the messages whose processing was answered without an error and the store.
\<close>

datatype 'f an_event = Delivered an_world "'f an_message" | MarksExpired time "string list"

fun an_step :: "'f an_lib \<Rightarrow> 'f an_event \<Rightarrow> 'f an_message set \<times> 'f an_db \<Rightarrow> 'f an_message set \<times> 'f an_db" where
  "an_step lib (Delivered w m) (M, d) = (case an_process lib w m d of
     (Inr _, d') \<Rightarrow> (insert m M, d')
   | (Inl _, d') \<Rightarrow> (M, d'))"
| "an_step lib (MarksExpired now gone) (M, d) = (M, expire_events now gone d)"

definition an_run :: "'f an_lib \<Rightarrow> 'f an_event list \<Rightarrow> 'f an_message set \<times> 'f an_db" where
  "an_run lib xs = fold (an_step lib) xs ({}, an_start)"

definition messages :: "'f an_event list \<Rightarrow> 'f an_message set" where
  "messages xs = {m. \<exists>w. Delivered w m \<in> set xs}"

text \<open>
  The faults a run may meet: reads fail and a write of the totals is lost, all of which are reported and
  leave the store as it was. Without any of them the message is processed.
\<close>

fun harmless :: "'f an_event \<Rightarrow> bool" where
  "harmless (Delivered w m) \<longleftrightarrow> aw_save w \<noteq> WriteUnheard \<and> aw_mark w = WriteOk" | "harmless _ \<longleftrightarrow> True"

definition faultless :: "an_world \<Rightarrow> bool" where
  "faultless w \<longleftrightarrow> \<not> aw_check w \<and> \<not> aw_find w \<and> aw_save w = WriteOk \<and> aw_mark w = WriteOk"

text \<open>The clock does not run backwards, and the deliveries of a message lie within the seven days.\<close>

fun step_time :: "'f an_event \<Rightarrow> time" where
  "step_time (Delivered w m) = aw_now w" | "step_time (MarksExpired now gone) = now"

fun soon :: "'f an_event \<Rightarrow> 'f an_event \<Rightarrow> bool" where
  "soon (Delivered w m) (Delivered w' m') \<longleftrightarrow> (m = m' \<longrightarrow> aw_now w' < aw_now w + EventRetention)" | "soon _ _ \<longleftrightarrow> True"

definition timely :: "'f an_event list \<Rightarrow> bool" where
  "timely xs \<longleftrightarrow> sorted (map step_time xs) \<and> sorted_wrt soon xs"

text \<open>Two events are never about the same id, and no order is cancelled by two events.\<close>

definition reverses :: "'f an_message \<Rightarrow> string option" where
  "reverses m = (case m of CancelledMsg e \<Rightarrow> if ce_WasPaid e then Some (ce_OrderID e) else None | _ \<Rightarrow> None)"

definition coherent :: "'f an_message set \<Rightarrow> bool" where
  "coherent M \<longleftrightarrow> inj_on msg_id M \<and> (\<forall>m\<in>M. \<forall>m'\<in>M. reverses m \<noteq> None \<and> reverses m = reverses m' \<longrightarrow> m = m')"

lemma coherent_mono: "coherent M \<Longrightarrow> N \<subseteq> M \<Longrightarrow> coherent N"
  unfolding coherent_def by (blast intro: inj_on_subset)

section \<open>One message\<close>

definition day_at :: "'f an_lib \<Rightarrow> string \<Rightarrow> 'f an_db \<Rightarrow> 'f analytics" where
  "day_at lib day d = (case db_days d day of Some a \<Rightarrow> a | None \<Rightarrow> new_day lib day)"

text \<open>What the message does to the day it counts on.\<close>

definition apply_msg :: "'f an_lib \<Rightarrow> 'f an_message \<Rightarrow> 'f analytics \<Rightarrow> 'f analytics" where
  "apply_msg lib m a = (case m of PlacedMsg e \<Rightarrow> count_sale lib e a | CancelledMsg e \<Rightarrow> uncount_sale lib e a | WasteMsg e \<Rightarrow> count_waste lib e a)"

lemma fold_frame: "(\<And>x a. P (g x a) = P a) \<Longrightarrow> P (fold g xs a) = P a"
  by (induction xs arbitrary: a) simp_all

lemma apply_msg_frame [simp]:
  "an_Date (apply_msg lib m a) = an_Date a" "an_ReversedOrderIDs (apply_msg lib m a) = an_ReversedOrderIDs a"
  by (auto simp: apply_msg_def count_sale_def uncount_sale_def count_waste_def waste_rate_def Let_def count_item_def uncount_item_def
    fold_frame [where P = an_Date] fold_frame [where P = an_ReversedOrderIDs] split: an_message.split)

lemma process_known:
  "msg_id m \<noteq> '''' \<Longrightarrow> db_events d (msg_id m) \<noteq> None \<Longrightarrow> an_process lib w m d = (if aw_check w then Inl AnStorage else Inr (), d)"
  by (cases m) (auto simp: an_process_def msg_id_def ProcessOrderPlaced_def ProcessOrderCancelled_def ProcessWasteRecorded_def IsProcessed_def)

definition dates_ok :: "'f an_db \<Rightarrow> bool" where
  "dates_ok d \<longleftrightarrow> (\<forall>day a. db_days d day = Some a \<longrightarrow> an_Date a = day)"

text \<open>What a message that is new changes in the days.\<close>

definition counts_on :: "'f an_lib \<Rightarrow> 'f an_message \<Rightarrow> 'f an_db \<Rightarrow> 'f an_db \<Rightarrow> bool" where
  "counts_on lib m d d' \<longleftrightarrow> (case day_of lib m of
       None \<Rightarrow> db_days d' = db_days d
     | Some day \<Rightarrow>
         if (case reverses m of Some i \<Rightarrow> i \<in> set (an_ReversedOrderIDs (day_at lib day d)) | None \<Rightarrow> False) then db_days d' = db_days d
         else db_days d' = (db_days d)(day \<mapsto> (apply_msg lib m (day_at lib day d))\<lparr>an_ReversedOrderIDs :=
           an_ReversedOrderIDs (day_at lib day d) @ (case reverses m of Some i \<Rightarrow> [i] | None \<Rightarrow> [])\<rparr>))"

lemma process_new:
  assumes "msg_valid lib m" "db_events d (msg_id m) = None" "dates_ok d" "aw_save w \<noteq> WriteUnheard" "aw_mark w = WriteOk"
  shows "(\<exists>e. an_process lib w m d = (Inl e, d) \<and> \<not> faultless w) \<or>
    (\<exists>d'. an_process lib w m d = (Inr (), d') \<and> db_events d' = (db_events d)(msg_id m \<mapsto> aw_now w) \<and> counts_on lib m d d')"
proof (cases m)
  case (PlacedMsg e)
  then obtain day where day: "extractDate lib (pe_Time e) = Inr day" "day \<noteq> ''''" "lib_date lib day \<noteq> None"
    using assms(1) by (auto simp: msg_valid_def day_of_def split: sum.splits)
  have "an_Date (count_sale lib e (day_at lib day d)) = day" "an_ReversedOrderIDs (count_sale lib e (day_at lib day d)) = an_ReversedOrderIDs (day_at lib day d)"
    using apply_msg_frame [of lib m "day_at lib day d"] PlacedMsg assms(3)
    by (auto simp: apply_msg_def day_at_def dates_ok_def new_day_def split: option.splits)
  then show ?thesis using PlacedMsg day assms
    by (auto simp: an_process_def msg_id_def ProcessOrderPlaced_def IsProcessed_def faultless_def getOrCreateAnalytics_def Save_def written_by_def
      save_day_def MarkProcessed_def day_of_def reverses_def apply_msg_def day_at_def new_day_def msg_valid_def counts_on_def split: option.splits write_fault.splits)
next
  case (CancelledMsg e)
  show ?thesis
  proof (cases "ce_WasPaid e")
    case False
    then show ?thesis using CancelledMsg assms
      by (auto simp: an_process_def msg_id_def ProcessOrderCancelled_def IsProcessed_def faultless_def MarkProcessed_def written_by_def day_of_def msg_valid_def counts_on_def)
  next
    case True
    then obtain day where day: "extractDate lib (ce_PaidAt e) = Inr day" "day \<noteq> ''''" "lib_date lib day \<noteq> None" "ce_OrderID e \<noteq> ''''"
      using assms(1) CancelledMsg by (auto simp: msg_valid_def day_of_def split: sum.splits)
    have "an_Date (uncount_sale lib e (day_at lib day d)) = day" "an_ReversedOrderIDs (uncount_sale lib e (day_at lib day d)) = an_ReversedOrderIDs (day_at lib day d)"
      using apply_msg_frame [of lib m "day_at lib day d"] CancelledMsg assms(3)
      by (auto simp: apply_msg_def day_at_def dates_ok_def new_day_def split: option.splits)
    then show ?thesis using CancelledMsg True day assms
      by (auto simp: an_process_def msg_id_def ProcessOrderCancelled_def IsProcessed_def faultless_def getOrCreateAnalytics_def SaveReversal_def written_by_def
        reversePaidOrder_def reversal_day_def MarkProcessed_def day_of_def reverses_def apply_msg_def day_at_def new_day_def msg_valid_def counts_on_def split: option.splits if_splits write_fault.splits)
  qed
next
  case (WasteMsg e)
  then obtain day where day: "extractDate lib (we_Time e) = Inr day" "day \<noteq> ''''" "lib_date lib day \<noteq> None"
    using assms(1) by (auto simp: msg_valid_def day_of_def split: sum.splits)
  have "an_Date (count_waste lib e (day_at lib day d)) = day" "an_ReversedOrderIDs (count_waste lib e (day_at lib day d)) = an_ReversedOrderIDs (day_at lib day d)"
    using apply_msg_frame [of lib m "day_at lib day d"] WasteMsg assms(3)
    by (auto simp: apply_msg_def day_at_def dates_ok_def new_day_def split: option.splits)
  then show ?thesis using WasteMsg day assms
    by (auto simp: an_process_def msg_id_def ProcessWasteRecorded_def IsProcessed_def faultless_def getOrCreateAnalytics_def Save_def written_by_def
      save_day_def MarkProcessed_def day_of_def reverses_def apply_msg_def day_at_def new_day_def msg_valid_def counts_on_def split: option.splits write_fault.splits)
qed

section \<open>The marks\<close>

definition proper :: "'f an_lib \<Rightarrow> 'f an_event list \<Rightarrow> bool" where
  "proper lib xs \<longleftrightarrow> coherent (messages xs) \<and> (\<forall>m\<in>messages xs. msg_valid lib m) \<and> timely xs \<and> list_all harmless xs"

lemma messages_snoc [simp]: "messages (xs @ [x]) = (case x of Delivered w m \<Rightarrow> insert m (messages xs) | _ \<Rightarrow> messages xs)" "messages [] = {}"
  by (cases x) (auto simp: messages_def)

lemma proper_prefix: "proper lib (xs @ [x]) \<Longrightarrow> proper lib xs"
  by (cases x) (auto simp: proper_def timely_def sorted_append sorted_wrt_append elim: coherent_mono)

lemma an_run_snoc: "an_run lib (xs @ [x]) = an_step lib x (an_run lib xs)"
  by (simp add: an_run_def)

lemma run_messages: "an_run lib xs = (M, d) \<Longrightarrow> M \<subseteq> messages xs \<and> finite M"
proof (induction xs arbitrary: M d rule: rev_induct)
  case (snoc x xs)
  obtain N c where run: "an_run lib xs = (N, c)" by fastforce
  show ?case using snoc.IH [OF run] snoc.prems unfolding an_run_snoc run by (cases x) (auto split: prod.splits sum.splits)
qed (simp add: an_run_def)

text \<open>
  A mark bears the time of a delivery of its message; a message without one that was processed was
  delivered seven days before the last step or earlier.
\<close>

definition marked_well :: "'f an_event list \<Rightarrow> 'f an_message set \<Rightarrow> 'f an_db \<Rightarrow> bool" where
  "marked_well xs M d \<longleftrightarrow> (\<forall>i t. db_events d i = Some t \<longrightarrow> (\<exists>w m. m \<in> M \<and> Delivered w m \<in> set xs \<and> msg_id m = i \<and> aw_now w = t)) \<and>
     (\<forall>m\<in>M. db_events d (msg_id m) = None \<longrightarrow> (\<exists>w. Delivered w m \<in> set xs \<and> (\<exists>x\<in>set xs. aw_now w + EventRetention \<le> step_time x)))"

lemma marked_again:
  assumes "proper lib (xs @ [Delivered w m])" "marked_well xs M d" "m \<in> M"
  shows "db_events d (msg_id m) \<noteq> None"
proof
  assume "db_events d (msg_id m) = None"
  then obtain v x where v: "Delivered v m \<in> set xs" "x \<in> set xs" "aw_now v + EventRetention \<le> step_time x"
    using assms(2,3) by (auto simp: marked_well_def)
  have "soon (Delivered v m) (Delivered w m)" "step_time x \<le> step_time (Delivered w m)"
    using assms(1) v(1,2) by (auto simp: proper_def timely_def sorted_append sorted_wrt_append)
  then show False using v(3) by simp
qed

lemma marked_unknown:
  assumes "proper lib (xs @ [Delivered w m])" "marked_well xs M d" "an_run lib xs = (M, d)" "m \<notin> M"
  shows "db_events d (msg_id m) = None"
proof (rule ccontr)
  assume "db_events d (msg_id m) \<noteq> None"
  then obtain m' where "m' \<in> M" "msg_id m' = msg_id m" using assms(2) by (fastforce simp: marked_well_def)
  moreover have "inj_on msg_id (insert m (messages xs))" using assms(1) by (simp add: proper_def coherent_def)
  ultimately show False using run_messages [OF assms(3)] assms(4) inj_onD [of msg_id "insert m (messages xs)" m' m] by blast
qed

lemma marked_more: "marked_well xs M d \<Longrightarrow> marked_well (xs @ [x]) M d"
  unfolding marked_well_def by (simp; blast)

lemma marked_new:
  assumes "marked_well xs N c" "Delivered w m \<in> set xs" "db_events d' = (db_events c)(msg_id m \<mapsto> aw_now w)"
  shows "marked_well xs (insert m N) d'"
proof -
  have "\<exists>w m'. m' \<in> insert m N \<and> Delivered w m' \<in> set xs \<and> msg_id m' = i \<and> aw_now w = t" if "db_events d' i = Some t" for i t
  proof (cases "i = msg_id m")
    case True
    then show ?thesis using that assms(2,3) by auto
  next
    case False
    then have "db_events c i = Some t" using that assms(3) by simp
    then show ?thesis using assms(1) unfolding marked_well_def by blast
  qed
  moreover have "db_events c (msg_id m') = None \<and> m' \<in> N" if "m' \<in> insert m N" "db_events d' (msg_id m') = None" for m'
    using that assms(3) by (auto split: if_splits)
  ultimately show ?thesis using assms(1) unfolding marked_well_def by blast
qed

lemma marked_expire:
  assumes "marked_well xs N c" "inj_on msg_id N"
  shows "marked_well (xs @ [MarksExpired now gone]) N (expire_events now gone c)"
proof -
  let ?xs = "xs @ [MarksExpired now gone]" and ?d = "expire_events now gone c"
  have "\<exists>w. Delivered w m \<in> set ?xs \<and> (\<exists>y\<in>set ?xs. aw_now w + EventRetention \<le> step_time y)"
    if m: "m \<in> N" "db_events ?d (msg_id m) = None" for m
  proof (cases "db_events c (msg_id m)")
    case None
    then show ?thesis using assms(1) m(1) by (fastforce simp: marked_well_def)
  next
    case (Some t)
    then have "t + EventRetention \<le> now" using m(2) by (simp add: expire_events_def split: if_splits)
    moreover obtain v m' where v: "m' \<in> N" "Delivered v m' \<in> set xs" "msg_id m' = msg_id m" "aw_now v = t"
      using assms(1) Some unfolding marked_well_def by blast
    moreover have "m' = m" using v(1,3) m(1) assms(2) by (auto dest: inj_onD)
    ultimately show ?thesis by fastforce
  qed
  moreover have "\<exists>w m. m \<in> N \<and> Delivered w m \<in> set xs \<and> msg_id m = i \<and> aw_now w = t" if "db_events ?d i = Some t" for i t
    using that assms(1) by (auto simp: expire_events_def marked_well_def split: option.splits if_splits)
  ultimately show ?thesis unfolding marked_well_def by (simp; blast)
qed

lemma run_marks:
  assumes "proper lib xs" "an_run lib xs = (M, d)"
  shows "marked_well xs M d \<and> dates_ok d"
  using assms
proof (induction xs arbitrary: M d rule: rev_induct)
  case Nil
  then show ?case by (auto simp: an_run_def marked_well_def an_start_def dates_ok_def)
next
  case (snoc x xs)
  obtain N c where run: "an_run lib xs = (N, c)" by fastforce
  have IH: "marked_well xs N c" "dates_ok c" using snoc.IH [OF proper_prefix [OF snoc.prems(1)] run] by auto
  have out: "(M, d) = an_step lib x (N, c)" using snoc.prems(2) run by (simp add: an_run_snoc)
  show ?case
  proof (cases x)
    case (MarksExpired now gone)
    have e: "M = N" "d = expire_events now gone c" using out MarksExpired by simp_all
    have "inj_on msg_id N"
      using run_messages [OF run] snoc.prems(1) MarksExpired by (auto simp: proper_def coherent_def intro: inj_on_subset)
    then show ?thesis using marked_expire [OF IH(1)] IH(2) e MarksExpired by (simp add: expire_events_def dates_ok_def)
  next
    case (Delivered w m)
    note p = snoc.prems(1) [unfolded Delivered]
    have v: "msg_valid lib m" "aw_save w \<noteq> WriteUnheard" "aw_mark w = WriteOk" using p by (simp_all add: proper_def)
    show ?thesis
    proof (cases "m \<in> N")
      case True
      then have "an_process lib w m c = (if aw_check w then Inl AnStorage else Inr (), c)"
        using process_known [of m c lib w] marked_again [OF p IH(1) True] v(1) by (simp add: msg_valid_def)
      then show ?thesis using out Delivered IH(2) marked_more [OF IH(1), of x] True by (auto simp: insert_absorb split: if_splits)
    next
      case False
      from process_new [OF v(1) marked_unknown [OF p IH(1) run False] IH(2) v(2,3)] show ?thesis
      proof (elim disjE exE conjE)
        fix d' assume d': "an_process lib w m c = (Inr (), d')" "db_events d' = (db_events c)(msg_id m \<mapsto> aw_now w)" "counts_on lib m c d'"
        have md: "M = insert m N" "d = d'" using out Delivered d'(1) by simp_all
        have "marked_well (xs @ [x]) M d"
          unfolding md using marked_new [OF marked_more [OF IH(1)] _ d'(2)] Delivered by simp
        moreover have "dates_ok d" using IH(2) d'(3) md unfolding dates_ok_def counts_on_def
          by (auto simp: day_at_def new_day_def split: option.splits if_splits)
        ultimately show ?thesis by simp
      qed (use out Delivered IH(2) marked_more [OF IH(1), of x] in auto)
    qed
  qed
qed

text \<open>A delivery: refused for a fault, a repetition that changes nothing, or a new message that is counted.\<close>

lemma run_step:
  assumes "proper lib (xs @ [Delivered w m])" "an_run lib xs = (M, d)" "dates_ok d"
  shows "(\<exists>e. an_process lib w m d = (Inl e, d) \<and> \<not> faultless w) \<or> (m \<in> M \<and> an_process lib w m d = (Inr (), d)) \<or>
    (\<exists>d'. an_process lib w m d = (Inr (), d') \<and> m \<notin> M \<and> counts_on lib m d d')"
proof -
  have v: "msg_valid lib m" "aw_save w \<noteq> WriteUnheard" "aw_mark w = WriteOk" using assms(1) by (simp_all add: proper_def)
  have marks: "marked_well xs M d" using run_marks [OF proper_prefix [OF assms(1)] assms(2)] by simp
  show ?thesis
  proof (cases "m \<in> M")
    case True
    then show ?thesis using process_known [of m d lib w] marked_again [OF assms(1) marks True] v(1) by (auto simp: msg_valid_def faultless_def)
  next
    case False
    then show ?thesis using process_new [OF v(1) marked_unknown [OF assms(1) marks assms(2) False] assms(3) v(2,3)] by blast
  qed
qed

text \<open>What is delivered without a fault is processed.\<close>

lemma run_accepts:
  assumes "proper lib xs" "an_run lib xs = (M, d)" "Delivered w m \<in> set xs" "faultless w"
  shows "m \<in> M"
  using assms
proof (induction xs arbitrary: M d rule: rev_induct)
  case (snoc x xs)
  obtain N c where run: "an_run lib xs = (N, c)" by fastforce
  have out: "(M, d) = an_step lib x (N, c)" using snoc.prems(2) run by (simp add: an_run_snoc)
  then have "N \<subseteq> M" by (cases x) (auto split: prod.splits sum.splits)
  show ?case
  proof (cases "Delivered w m \<in> set xs")
    case True
    then show ?thesis using snoc.IH [OF proper_prefix [OF snoc.prems(1)] run] snoc.prems(4) \<open>N \<subseteq> M\<close> by blast
  next
    case False
    then have x: "x = Delivered w m" using snoc.prems(3) by simp
    have "dates_ok c" using run_marks [OF proper_prefix [OF snoc.prems(1)] run] by simp
    from run_step [OF snoc.prems(1) [unfolded x] run this] snoc.prems(4) out x show ?thesis by auto
  qed
qed simp

section \<open>A quantity of the day\<close>

locale day_quantity =
  fixes lib :: "'f an_lib" and q :: "'f analytics \<Rightarrow> int" and part :: "'f an_message \<Rightarrow> int"
  assumes q_new: "q (new_day lib day) = 0"
    and q_apply: "msg_typed lib m \<Longrightarrow> q (apply_msg lib m a) = i64 (q a + part m) \<or> part m = 0 \<and> q (apply_msg lib m a) = q a"
    and q_reversed: "q (a\<lparr>an_ReversedOrderIDs := xs\<rparr>) = q a"
begin

definition total :: "string \<Rightarrow> 'f an_db \<Rightarrow> int" where
  "total day d = q (day_at lib day d)"

text \<open>What the events \<open>M\<close> add up to on a day.\<close>

definition reference :: "string \<Rightarrow> 'f an_message set \<Rightarrow> int" where
  "reference day M = i64 (\<Sum>m\<in>{m\<in>M. day_of lib m = Some day}. part m)"

text \<open>The state after the events \<open>M\<close>.\<close>

definition tells :: "'f an_message set \<Rightarrow> 'f an_db \<Rightarrow> bool" where
  "tells M d \<longleftrightarrow> dates_ok d \<and> dom (db_days d) = {day. \<exists>m\<in>M. day_of lib m = Some day} \<and> (\<forall>day. total day d = reference day M) \<and>
     (\<forall>day. set (an_ReversedOrderIDs (day_at lib day d)) = {i. \<exists>m\<in>M. reverses m = Some i \<and> day_of lib m = Some day})"

lemma reference_insert:
  assumes "finite M" "m \<notin> M"
  shows "reference day (insert m M) = (if day_of lib m = Some day then i64 (reference day M + part m) else reference day M)"
proof -
  have "{m'\<in>insert m M. day_of lib m' = Some day} = (if day_of lib m = Some day then insert m {m'\<in>M. day_of lib m' = Some day} else {m'\<in>M. day_of lib m' = Some day})"
    by auto
  then show ?thesis using assms by (simp add: reference_def i64_add add.commute)
qed

lemma tells_new:
  assumes "tells M d" "finite M" "coherent (insert m M)" "msg_valid lib m" and False: "m \<notin> M"
    and days: "case day_of lib m of
       None \<Rightarrow> db_days d' = db_days d
     | Some day \<Rightarrow>
         if (case reverses m of Some i \<Rightarrow> i \<in> set (an_ReversedOrderIDs (day_at lib day d)) | None \<Rightarrow> False) then db_days d' = db_days d
         else db_days d' = (db_days d)(day \<mapsto> (apply_msg lib m (day_at lib day d))\<lparr>an_ReversedOrderIDs :=
           an_ReversedOrderIDs (day_at lib day d) @ (case reverses m of Some i \<Rightarrow> [i] | None \<Rightarrow> [])\<rparr>)"
  shows "tells (insert m M) d'"
proof -
  have d: "dates_ok d" using assms(1) by (simp add: tells_def)
  show ?thesis
  proof (cases "day_of lib m")
    case None
    then have same: "db_days d' = db_days d" using days by simp
    have "{i. \<exists>m'\<in>insert m M. reverses m' = Some i \<and> day_of lib m' = Some day} = {i. \<exists>m'\<in>M. reverses m' = Some i \<and> day_of lib m' = Some day}" for day
      using None by auto
    then show ?thesis
      using assms(1) same None reference_insert [OF assms(2) False] by (simp add: tells_def dates_ok_def total_def day_at_def)
  next
    case (Some day)
    have "i \<notin> set (an_ReversedOrderIDs (day_at lib day d))" if "reverses m = Some i" for i
      using that assms(1,3) False by (auto simp: tells_def coherent_def)
    then have days': "db_days d' = (db_days d)(day \<mapsto> (apply_msg lib m (day_at lib day d))\<lparr>an_ReversedOrderIDs :=
           an_ReversedOrderIDs (day_at lib day d) @ (case reverses m of Some i \<Rightarrow> [i] | None \<Rightarrow> [])\<rparr>)"
      using days Some by (simp split: option.splits)
    have at: "day_at lib x d' = (if x = day then (apply_msg lib m (day_at lib day d))\<lparr>an_ReversedOrderIDs :=
           an_ReversedOrderIDs (day_at lib day d) @ (case reverses m of Some i \<Rightarrow> [i] | None \<Rightarrow> [])\<rparr> else day_at lib x d)" for x
      using days' by (simp add: day_at_def)
    have date: "an_Date (day_at lib day d) = day" using d by (auto simp: day_at_def dates_ok_def new_day_def split: option.split)
    have "dates_ok d'" using d date unfolding dates_ok_def days' by auto
    moreover have "total x d' = reference x (insert m M)" for x
    proof (cases "x = day")
      case True
      have "total day d = reference day M" using assms(1) by (simp add: tells_def)
      moreover have "total x d' = i64 (total day d + part m) \<or> part m = 0 \<and> total x d' = total day d"
        using True q_reversed q_apply [of m "day_at lib day d"] assms(4) by (simp add: total_def at msg_valid_def)
      ultimately show ?thesis using True Some reference_insert [OF assms(2) False] by (auto simp: reference_def i64_add(1) [of _ 0, simplified])
    next
      case False': False
      then show ?thesis using Some assms(1) reference_insert [OF assms(2) False] by (simp add: total_def at) (simp add: tells_def total_def)
    qed
    moreover have "set (an_ReversedOrderIDs (day_at lib x d')) = {i. \<exists>m'\<in>insert m M. reverses m' = Some i \<and> day_of lib m' = Some x}" for x
    proof -
      have "set (an_ReversedOrderIDs (day_at lib x d)) = {i. \<exists>m'\<in>M. reverses m' = Some i \<and> day_of lib m' = Some x}"
        using assms(1) by (simp add: tells_def)
      then show ?thesis using Some unfolding at by (cases "reverses m") auto
    qed
    moreover have "dom (db_days d') = {day. \<exists>m\<in>insert m M. day_of lib m = Some day}" using assms(1) Some by (auto simp: tells_def days')
    ultimately show ?thesis using assms(1) by (simp add: tells_def)
  qed
qed

lemma tells_start: "tells {} an_start"
  by (simp add: tells_def an_start_def dates_ok_def total_def reference_def day_at_def q_new) (simp add: new_day_def)

lemma tells_expire: "tells M (expire_events now gone d) \<longleftrightarrow> tells M d"
  by (simp add: tells_def expire_events_def dates_ok_def total_def day_at_def)

lemma run_tells:
  assumes "proper lib xs" "an_run lib xs = (M, d)"
  shows "tells M d"
  using assms
proof (induction xs arbitrary: M d rule: rev_induct)
  case Nil
  then show ?case by (simp add: an_run_def tells_start)
next
  case (snoc x xs)
  note p = proper_prefix [OF snoc.prems(1)]
  obtain N c where run: "an_run lib xs = (N, c)" by fastforce
  have t: "tells N c" using snoc.IH [OF p run] .
  have out: "(M, d) = an_step lib x (N, c)" using snoc.prems(2) run by (simp add: an_run_def)
  show ?case
  proof (cases x)
    case (MarksExpired now gone)
    then show ?thesis using out t by (simp add: tells_expire)
  next
    case (Delivered w m)
    have "dates_ok c" using t by (simp add: tells_def)
    from run_step [OF snoc.prems(1) [unfolded Delivered] run this] show ?thesis
    proof (elim disjE exE conjE)
      fix d' assume d': "an_process lib w m c = (Inr (), d')" "m \<notin> N"
        and days: "counts_on lib m c d'"
      show ?thesis using tells_new [OF t _ _ _ d'(2) days [unfolded counts_on_def]] snoc.prems(1) run_messages [OF run] d' out Delivered
        by (auto simp: proper_def intro: coherent_mono)
    qed (use t out Delivered in \<open>auto simp: insert_absorb\<close>)
  qed
qed

lemma totals_exact:
  assumes "proper lib xs" "an_run lib xs = (M, d)"
  shows "total day d = reference day M"
  using run_tells [OF assms] by (simp add: tells_def)

end

section \<open>The quantities\<close>

definition gross_of :: "'f analytics \<Rightarrow> int" where "gross_of a = fn_GrossSalesMinor (an_Financials a)"
definition orders_of :: "'f analytics \<Rightarrow> int" where "orders_of a = fn_TotalOrders (an_Financials a)"

definition gross_part :: "'f an_lib \<Rightarrow> 'f an_message \<Rightarrow> int" where
  "gross_part lib m = (case m of PlacedMsg e \<Rightarrow> minor_of lib (pe_TotalAmountMinor e) (pe_TotalAmount e) | CancelledMsg e \<Rightarrow> - ce_TotalAmountMinor e | WasteMsg _ \<Rightarrow> 0)"

definition orders_part :: "'f an_message \<Rightarrow> int" where
  "orders_part m = (case m of PlacedMsg _ \<Rightarrow> 1 | CancelledMsg _ \<Rightarrow> - 1 | WasteMsg _ \<Rightarrow> 0)"

definition scoops_part :: "'f an_message \<Rightarrow> int" where
  "scoops_part m = (case m of PlacedMsg e \<Rightarrow> sum_list (map pi_Portions (pe_Items e)) | CancelledMsg e \<Rightarrow> - sum_list (map pi_Portions (ce_Items e)) | WasteMsg _ \<Rightarrow> 0)"

definition waste_part :: "'f an_message \<Rightarrow> int" where
  "waste_part m = (case m of WasteMsg e \<Rightarrow> we_Portions e | _ \<Rightarrow> 0)"

text \<open>A counter of a flavor; 0 when the day has no entry of the flavor.\<close>

definition flavor_of :: "(an_flavor_stat \<Rightarrow> int) \<Rightarrow> string \<Rightarrow> 'f analytics \<Rightarrow> int" where
  "flavor_of g i a = (case find (\<lambda>x. fs_FlavorID x = i) (an_FlavorStats a) of None \<Rightarrow> 0 | Some x \<Rightarrow> g x)"

definition items_of :: "string \<Rightarrow> ('f placed_item \<Rightarrow> int) \<Rightarrow> 'f placed_item list \<Rightarrow> int" where
  "items_of i g its = sum_list (map g (filter (\<lambda>it. pi_FlavorID it = i) its))"

definition flavor_scoops_part :: "string \<Rightarrow> 'f an_message \<Rightarrow> int" where
  "flavor_scoops_part i m = (case m of PlacedMsg e \<Rightarrow> items_of i pi_Portions (pe_Items e) | CancelledMsg e \<Rightarrow> - items_of i pi_Portions (ce_Items e) | WasteMsg _ \<Rightarrow> 0)"

definition flavor_revenue_part :: "'f an_lib \<Rightarrow> string \<Rightarrow> 'f an_message \<Rightarrow> int" where
  "flavor_revenue_part lib i m = (case m of
     PlacedMsg e \<Rightarrow> items_of i (\<lambda>it. minor_of lib (pi_SubtotalMinor it) (pi_Subtotal it)) (pe_Items e)
   | CancelledMsg e \<Rightarrow> - items_of i pi_SubtotalMinor (ce_Items e) | WasteMsg _ \<Rightarrow> 0)"

lemma apply_frames [simp]:
  "an_Financials (waste_rate lib a) = an_Financials a" "an_ScoopsSold (waste_rate lib a) = an_ScoopsSold a"
  "an_TotalWastePortions (waste_rate lib a) = an_TotalWastePortions a" "an_FlavorStats (waste_rate lib a) = an_FlavorStats a"
  "an_Financials (fold (count_item lib) its a) = an_Financials a" "an_Financials (fold uncount_item its a) = an_Financials a"
  "an_TotalWastePortions (fold (count_item lib) its a) = an_TotalWastePortions a" "an_TotalWastePortions (fold uncount_item its a) = an_TotalWastePortions a"
  by (simp_all add: waste_rate_def fold_frame [where P = an_Financials] fold_frame [where P = an_TotalWastePortions] count_item_def uncount_item_def Let_def)

interpretation gross: day_quantity lib gross_of "gross_part lib" for lib
  by unfold_locales (auto simp: gross_of_def new_day_def apply_msg_def count_sale_def uncount_sale_def count_waste_def gross_part_def Let_def split: an_message.splits)

interpretation orders: day_quantity lib orders_of orders_part for lib
  by unfold_locales (auto simp: orders_of_def new_day_def apply_msg_def count_sale_def uncount_sale_def count_waste_def orders_part_def Let_def split: an_message.splits)

interpretation waste: day_quantity lib an_TotalWastePortions waste_part for lib
  by unfold_locales (auto simp: new_day_def apply_msg_def count_sale_def uncount_sale_def count_waste_def waste_part_def Let_def split: an_message.splits)

text \<open>A day has a document when a message counts on it, and the document carries its date.\<close>

lemma run_days:
  assumes "proper lib xs" "an_run lib xs = (M, d)"
  shows "dates_ok d" "dom (db_days d) = {day. \<exists>m\<in>M. day_of lib m = Some day}"
  using orders.run_tells [OF assms] by (simp_all add: orders.tells_def)

text \<open>Adding up over the items of an order.\<close>

lemma fold_add:
  assumes "\<And>it a. q (g it a) = i64 (q a + h it)"
  shows "its \<noteq> [] \<Longrightarrow> q (fold g its a) = i64 (q a + sum_list (map h its))"
proof (induction its arbitrary: a)
  case (Cons it its)
  then show ?case using assms by (cases "its = []") (simp_all add: i64_add(1) add.assoc)
qed simp

interpretation scoops: day_quantity lib an_ScoopsSold scoops_part for lib :: "'f an_lib"
proof
  show "an_ScoopsSold (new_day lib day) = 0" for day by (simp add: new_day_def)
  show "an_ScoopsSold (a\<lparr>an_ReversedOrderIDs := xs\<rparr>) = an_ScoopsSold a" for a :: "'f analytics" and xs by simp
  fix m :: "'f an_message" and a
  have placed: "its \<noteq> [] \<Longrightarrow> an_ScoopsSold (fold (count_item lib) its a) = i64 (an_ScoopsSold a + sum_list (map pi_Portions its))" for its a
    by (rule fold_add) (simp_all add: count_item_def Let_def)
  have taken: "its \<noteq> [] \<Longrightarrow> an_ScoopsSold (fold uncount_item its a) = i64 (an_ScoopsSold a + sum_list (map (\<lambda>it. - pi_Portions it) its))" for its :: "'f placed_item list" and a
    by (rule fold_add) (simp_all add: uncount_item_def)
  have neg: "sum_list (map (\<lambda>it. - pi_Portions it) its) = - sum_list (map pi_Portions its)" for its :: "'f placed_item list"
    by (induction its) simp_all
  show "an_ScoopsSold (apply_msg lib m a) = i64 (an_ScoopsSold a + scoops_part m) \<or> scoops_part m = 0 \<and> an_ScoopsSold (apply_msg lib m a) = an_ScoopsSold a"
  proof (cases m)
    case (PlacedMsg e)
    then show ?thesis by (cases "pe_Items e = []") (simp_all add: apply_msg_def count_sale_def scoops_part_def placed Let_def)
  next
    case (CancelledMsg e)
    then show ?thesis by (cases "ce_Items e = []") (simp_all add: apply_msg_def uncount_sale_def scoops_part_def taken neg Let_def)
  qed (simp add: apply_msg_def count_waste_def scoops_part_def Let_def)
qed

text \<open>One flavor.\<close>

lemma find_upd_flavor:
  assumes "fs_FlavorID new = j" "\<And>x. fs_FlavorID (h x) = fs_FlavorID x"
  shows "find (\<lambda>x. fs_FlavorID x = i) (upd_flavor j h new xs) =
    (if i = j then Some (case find (\<lambda>x. fs_FlavorID x = i) xs of None \<Rightarrow> new | Some x \<Rightarrow> h x) else find (\<lambda>x. fs_FlavorID x = i) xs)"
  using assms by (induction xs) auto

lemma renamed_simps [simp]: "fs_FlavorID (renamed n x) = fs_FlavorID x" "fs_ScoopsSold (renamed n x) = fs_ScoopsSold x" "fs_RevenueMinor (renamed n x) = fs_RevenueMinor x"
  by (simp_all add: renamed_def)

lemma fold_flavor:
  assumes "\<And>it a. P it \<Longrightarrow> q (g it a) = (if pi_FlavorID it = i then i64 (q a + h it) else q a)"
  shows "list_all P its \<Longrightarrow> q (fold g its a) = (if \<exists>it\<in>set its. pi_FlavorID it = i then i64 (q a + items_of i h its) else q a)"
proof (induction its arbitrary: a)
  case (Cons it its)
  then show ?case using assms [of it a] by (auto simp: items_of_def i64_add(1) add.assoc)
qed (simp add: items_of_def)

lemma items_of_none: "\<forall>it\<in>set its. pi_FlavorID it \<noteq> i \<Longrightarrow> items_of i h its = 0"
  by (simp add: items_of_def filter_False)

lemma items_of_neg: "items_of i (\<lambda>it. - h it) its = - items_of i h its"
  by (induction its) (simp_all add: items_of_def)

lemma flavor_item:
  assumes "item_typed lib it"
  shows "flavor_of fs_ScoopsSold i (count_item lib it a) = (if pi_FlavorID it = i then i64 (flavor_of fs_ScoopsSold i a + pi_Portions it) else flavor_of fs_ScoopsSold i a)"
    "flavor_of fs_RevenueMinor i (count_item lib it a) =
      (if pi_FlavorID it = i then i64 (flavor_of fs_RevenueMinor i a + minor_of lib (pi_SubtotalMinor it) (pi_Subtotal it)) else flavor_of fs_RevenueMinor i a)"
    "flavor_of fs_ScoopsSold i (uncount_item it a) = (if pi_FlavorID it = i then i64 (flavor_of fs_ScoopsSold i a + - pi_Portions it) else flavor_of fs_ScoopsSold i a)"
    "flavor_of fs_RevenueMinor i (uncount_item it a) = (if pi_FlavorID it = i then i64 (flavor_of fs_RevenueMinor i a + - pi_SubtotalMinor it) else flavor_of fs_RevenueMinor i a)"
  using assms by (auto simp: flavor_of_def count_item_def uncount_item_def Let_def find_upd_flavor item_typed_def split: option.split)

lemma flavor_frame [simp]:
  "flavor_of g i (a\<lparr>an_Financials := f\<rparr>) = flavor_of g i a" "flavor_of g i (waste_rate lib a) = flavor_of g i a"
  "flavor_of g i (a\<lparr>an_WasteRate := r\<rparr>) = flavor_of g i a" "flavor_of g i (a\<lparr>an_ReversedOrderIDs := xs\<rparr>) = flavor_of g i a" "flavor_of g i (new_day lib day) = 0"
  by (simp_all add: flavor_of_def new_day_def)

lemma flavor_waste:
  "(\<And>x n y z. g (renamed n (x\<lparr>fs_WastePortions := y, fs_CostLostMinor := z\<rparr>)) = g x) \<Longrightarrow>
   (\<And>j n y z. g \<lparr>fs_FlavorID = j, fs_Name = n, fs_ScoopsSold = 0, fs_RevenueMinor = 0, fs_WastePortions = y, fs_CostLostMinor = z\<rparr> = 0) \<Longrightarrow>
   flavor_of g i (count_waste lib e a) = flavor_of g i a"
  by (simp add: flavor_of_def count_waste_def Let_def find_upd_flavor split: option.split)

interpretation flavor_scoops: day_quantity lib "flavor_of fs_ScoopsSold i" "flavor_scoops_part i" for lib :: "'f an_lib" and i
proof
  fix m :: "'f an_message" and a assume typed: "msg_typed lib m"
  show "flavor_of fs_ScoopsSold i (apply_msg lib m a) = i64 (flavor_of fs_ScoopsSold i a + flavor_scoops_part i m) \<or>
    flavor_scoops_part i m = 0 \<and> flavor_of fs_ScoopsSold i (apply_msg lib m a) = flavor_of fs_ScoopsSold i a"
  proof (cases m)
    case (PlacedMsg e)
    then show ?thesis
      using fold_flavor [where P = "item_typed lib" and q = "flavor_of fs_ScoopsSold i" and g = "count_item lib", OF flavor_item(1)] typed
      by (auto simp: apply_msg_def count_sale_def flavor_scoops_part_def msg_typed_def items_of_none Let_def)
  next
    case (CancelledMsg e)
    then show ?thesis
      using fold_flavor [where P = "item_typed lib" and q = "flavor_of fs_ScoopsSold i" and g = uncount_item, OF flavor_item(3)] typed
      by (auto simp: apply_msg_def uncount_sale_def flavor_scoops_part_def msg_typed_def items_of_neg items_of_none Let_def)
  qed (simp add: apply_msg_def flavor_scoops_part_def flavor_waste)
qed simp_all

interpretation flavor_revenue: day_quantity lib "flavor_of fs_RevenueMinor i" "flavor_revenue_part lib i" for lib :: "'f an_lib" and i
proof
  fix m :: "'f an_message" and a assume typed: "msg_typed lib m"
  show "flavor_of fs_RevenueMinor i (apply_msg lib m a) = i64 (flavor_of fs_RevenueMinor i a + flavor_revenue_part lib i m) \<or>
    flavor_revenue_part lib i m = 0 \<and> flavor_of fs_RevenueMinor i (apply_msg lib m a) = flavor_of fs_RevenueMinor i a"
  proof (cases m)
    case (PlacedMsg e)
    then show ?thesis
      using fold_flavor [where P = "item_typed lib" and q = "flavor_of fs_RevenueMinor i" and g = "count_item lib", OF flavor_item(2)] typed
      by (auto simp: apply_msg_def count_sale_def flavor_revenue_part_def msg_typed_def items_of_none Let_def)
  next
    case (CancelledMsg e)
    then show ?thesis
      using fold_flavor [where P = "item_typed lib" and q = "flavor_of fs_RevenueMinor i" and g = uncount_item, OF flavor_item(4)] typed
      by (auto simp: apply_msg_def uncount_sale_def flavor_revenue_part_def msg_typed_def items_of_neg items_of_none Let_def)
  qed (simp add: apply_msg_def flavor_revenue_part_def flavor_waste)
qed simp_all

end
