(* ===== verification/Analytics_Summary.thy ===== *)
theory Analytics_Summary
  imports Analytics_Laws
begin

text \<open>
  The dashboard of the analytics service: the days of a period (\<open>GetAnalyticsSummary\<close>,
  \<open>FindByDateRange\<close>), their summary (\<open>factory/analytics_factory.go\<close>) and the HTTP handler
  (\<open>handler/v1/analytics.go\<close>), and that the summary adds up to the totals of the days.
\<close>

section \<open>The summary\<close>

record 'f flavor_sales =
  sf_FlavorID :: string
  sf_FlavorName :: string
  sf_Portions :: int
  sf_Revenue :: 'f

record flavor_waste =
  wf_FlavorID :: string
  wf_FlavorName :: string
  wf_Portions :: int

record 'f sales_trend =
  st_Date :: string
  st_Label :: string
  st_Revenue :: 'f
  st_Orders :: int
  st_Scoops :: int

record 'f an_summary =
  su_TotalRevenue :: 'f
  su_TotalOrders :: int
  su_TotalScoops :: int
  su_TotalWaste :: int
  su_SalesByFlavor :: "'f flavor_sales list"
  su_WasteByFlavor :: "flavor_waste list"
  su_SalesTrend :: "'f sales_trend list"

text \<open>
  \<open>sl_add\<close> adds floating point numbers, \<open>sl_label\<close> prints a date as \<open>Jan 2\<close> and is undefined on a text that is
  no date. \<open>sl_order\<close> is the order in which a loop over a map visits its keys and \<open>sl_cursor\<close> the order in
  which the database yields documents.
\<close>

record 'f sum_lib =
  sl_add :: "'f \<Rightarrow> 'f \<Rightarrow> 'f"
  sl_label :: "string \<Rightarrow> string option"
  sl_order :: "string list \<Rightarrow> string list"
  sl_cursor :: "string list"

definition formatDateLabel :: "'f sum_lib \<Rightarrow> string \<Rightarrow> string" where
  "formatDateLabel sl date = (case sl_label sl date of None \<Rightarrow> date | Some z \<Rightarrow> z)"

definition sales_entry :: "'f an_lib \<Rightarrow> 'f sum_lib \<Rightarrow> an_flavor_stat \<Rightarrow> (string \<times> 'f flavor_sales) list \<Rightarrow> (string \<times> 'f flavor_sales) list" where
  "sales_entry lib sl fs sales =
     (let flavorRevenue = lib_ratio lib (fs_RevenueMinor fs) 100 in
      if fs_ScoopsSold fs > 0 \<or> lib_pos lib flavorRevenue
      then AList.update (fs_FlavorID fs)
        (case map_of sales (fs_FlavorID fs) of
           Some x \<Rightarrow> x\<lparr>sf_Portions := i64 (sf_Portions x + fs_ScoopsSold fs), sf_Revenue := sl_add sl (sf_Revenue x) flavorRevenue,
             sf_FlavorName := (if fs_Name fs \<noteq> '''' then fs_Name fs else sf_FlavorName x)\<rparr>
         | None \<Rightarrow> \<lparr>sf_FlavorID = fs_FlavorID fs, sf_FlavorName = fs_Name fs, sf_Portions = fs_ScoopsSold fs, sf_Revenue = flavorRevenue\<rparr>) sales
      else sales)"

definition waste_entry :: "an_flavor_stat \<Rightarrow> (string \<times> flavor_waste) list \<Rightarrow> (string \<times> flavor_waste) list" where
  "waste_entry fs wasted =
     (if fs_WastePortions fs > 0
      then AList.update (fs_FlavorID fs)
        (case map_of wasted (fs_FlavorID fs) of
           Some x \<Rightarrow> x\<lparr>wf_Portions := i64 (wf_Portions x + fs_WastePortions fs),
             wf_FlavorName := (if fs_Name fs \<noteq> '''' then fs_Name fs else wf_FlavorName x)\<rparr>
         | None \<Rightarrow> \<lparr>wf_FlavorID = fs_FlavorID fs, wf_FlavorName = fs_Name fs, wf_Portions = fs_WastePortions fs\<rparr>) wasted
      else wasted)"

definition add_record :: "'f an_lib \<Rightarrow> 'f sum_lib \<Rightarrow> 'f analytics \<Rightarrow> 'f an_summary \<Rightarrow> 'f an_summary" where
  "add_record lib sl r s =
     (let sales = lib_ratio lib (fn_GrossSalesMinor (an_Financials r)) 100 in
      s\<lparr>su_TotalRevenue := sl_add sl (su_TotalRevenue s) sales,
        su_TotalOrders := i64 (su_TotalOrders s + fn_TotalOrders (an_Financials r)),
        su_TotalScoops := i64 (su_TotalScoops s + an_ScoopsSold r),
        su_TotalWaste := i64 (su_TotalWaste s + an_TotalWastePortions r),
        su_SalesTrend := su_SalesTrend s @ [\<lparr>st_Date = an_Date r, st_Label = formatDateLabel sl (an_Date r), st_Revenue = sales,
          st_Orders = fn_TotalOrders (an_Financials r), st_Scoops = an_ScoopsSold r\<rparr>]\<rparr>)"

definition ranged :: "'f sum_lib \<Rightarrow> (string \<times> 'a) list \<Rightarrow> 'a list" where
  "ranged sl xs = map (\<lambda>k. the (map_of xs k)) (sl_order sl (map fst xs))"

definition BuildAnalyticsSummaryResponse :: "'f an_lib \<Rightarrow> 'f sum_lib \<Rightarrow> 'f analytics list \<Rightarrow> 'f an_summary" where
  "BuildAnalyticsSummaryResponse lib sl records =
     (let s = fold (add_record lib sl) records \<lparr>su_TotalRevenue = lib_zero lib, su_TotalOrders = 0, su_TotalScoops = 0, su_TotalWaste = 0,
            su_SalesByFlavor = [], su_WasteByFlavor = [], su_SalesTrend = []\<rparr>;
          stats = concat (map an_FlavorStats records)
      in s\<lparr>su_SalesByFlavor := ranged sl (fold (sales_entry lib sl) stats []), su_WasteByFlavor := ranged sl (fold waste_entry stats [])\<rparr>)"

section \<open>The period\<close>

datatype sum_error = InvalidPeriod | SumStorage

definition FindByDateRange :: "'f sum_lib \<Rightarrow> an_world \<Rightarrow> string \<Rightarrow> string \<Rightarrow> 'f an_db \<Rightarrow> sum_error + 'f analytics list" where
  "FindByDateRange sl w startDate endDate d =
     (if aw_find w then Inl SumStorage
      else Inr (List.map_filter (\<lambda>day. if startDate \<le> day \<and> day \<le> endDate then db_days d day else None) (sl_cursor sl)))"

definition period_start :: "int \<times> int \<times> int \<Rightarrow> string \<Rightarrow> (int \<times> int \<times> int) option" where
  "period_start today period =
     (if period = ''1d'' then Some (AddDate today 0 0 (- 1))
      else if period = ''1w'' then Some (AddDate today 0 0 (- 7))
      else if period = ''1m'' then Some (AddDate today 0 (- 1) 0)
      else if period = ''6m'' then Some (AddDate today 0 (- 6) 0)
      else None)"

definition GetAnalyticsSummary :: "'f an_lib \<Rightarrow> 'f sum_lib \<Rightarrow> an_world \<Rightarrow> int \<times> int \<times> int \<Rightarrow> string \<Rightarrow> 'f an_db \<Rightarrow> sum_error + 'f an_summary" where
  "GetAnalyticsSummary lib sl w today period d =
     (case period_start today period of
        None \<Rightarrow> Inl InvalidPeriod
      | Some start \<Rightarrow>
          (case FindByDateRange sl w (show_date start) (show_date today) d of
             Inl e \<Rightarrow> Inl e
           | Inr records \<Rightarrow> Inr (BuildAnalyticsSummaryResponse lib sl records)))"

text \<open>The handler: the status of the response and its body.\<close>

datatype 'f sum_body = SumOk "'f an_summary" | SumFailed string

definition summary_handler :: "'f an_lib \<Rightarrow> 'f sum_lib \<Rightarrow> an_world \<Rightarrow> int \<times> int \<times> int \<Rightarrow> string \<Rightarrow> 'f an_db \<Rightarrow> nat \<times> 'f sum_body" where
  "summary_handler lib sl w today q d =
     (case GetAnalyticsSummary lib sl w today (if q = '''' then ''1w'' else q) d of
        Inr s \<Rightarrow> (200, SumOk s)
      | Inl InvalidPeriod \<Rightarrow> (400, SumFailed ''HTTP_400'')
      | Inl SumStorage \<Rightarrow> (500, SumFailed ''UNKNOWN_ERROR''))"

section \<open>Adding up over a period\<close>

lemma i64_sum: "i64 (\<Sum>x\<in>A. i64 (f x)) = i64 (\<Sum>x\<in>A. f x)"
proof (induction A rule: infinite_finite_induct)
  case (insert x A)
  have "i64 (i64 (f x) + (\<Sum>x\<in>A. i64 (f x))) = i64 (f x + i64 (\<Sum>x\<in>A. i64 (f x)))" by (simp only: i64_add)
  then show ?case using insert by (simp add: i64_add)
qed simp_all

text \<open>The days a message list counts on within a period.\<close>

definition counted_in :: "'f an_lib \<Rightarrow> (string \<Rightarrow> bool) \<Rightarrow> 'f an_message set \<Rightarrow> 'f an_message set" where
  "counted_in lib P M = {m \<in> M. \<exists>day. day_of lib m = Some day \<and> P day}"

context day_quantity
begin

lemma period_exact:
  assumes "proper lib xs" "an_run lib xs = (M, d)" and "set cursor = dom (db_days d)" "distinct cursor"
  shows "i64 (sum_list (map (\<lambda>day. total day d) (filter P cursor))) = i64 (\<Sum>m\<in>counted_in lib P M. part m)"
proof -
  let ?M = "\<lambda>day. {m \<in> M. day_of lib m = Some day}"
  have fM: "finite M" using run_messages [OF assms(2)] by simp
  define U where "U = {day \<in> set cursor. P day} \<union> {day. P day \<and> Some day \<in> day_of lib ` M}"
  have "{day. P day \<and> Some day \<in> day_of lib ` M} \<subseteq> the ` day_of lib ` M"
    using image_eqI [of _ the "Some _" "day_of lib ` M"] by auto
  then have fin: "finite U" unfolding U_def using fM by (auto dest: finite_subset)
  have "sum_list (map (\<lambda>day. total day d) (filter P cursor)) = (\<Sum>day\<in>{day \<in> set cursor. P day}. total day d)"
    using assms(4) by (simp add: sum_list_distinct_conv_sum_set)
  also have "\<dots> = (\<Sum>day\<in>U. total day d)"
    using fin assms(3) by (intro sum.mono_neutral_left) (auto simp: U_def total_def day_at_def q_new domIff split: option.split)
  finally have "i64 (sum_list (map (\<lambda>day. total day d) (filter P cursor))) = i64 (\<Sum>day\<in>U. i64 (\<Sum>m\<in>?M day. part m))"
    using totals_exact [OF assms(1,2)] by (simp add: reference_def)
  also have "\<dots> = i64 (\<Sum>day\<in>U. \<Sum>m\<in>?M day. part m)" by (rule i64_sum)
  also have "(\<Sum>day\<in>U. \<Sum>m\<in>?M day. part m) = (\<Sum>m\<in>(\<Union>day\<in>U. ?M day). part m)"
    using fin fM by (intro sum.UNION_disjoint [symmetric]) auto
  also have "(\<Union>day\<in>U. ?M day) = counted_in lib P (M)" by (force simp: U_def counted_in_def)
  finally show ?thesis .
qed

end

section \<open>The summary of the days\<close>

lemma add_records:
  "su_TotalOrders (fold (add_record lib sl) rs s) = (if rs = [] then su_TotalOrders s else i64 (su_TotalOrders s + sum_list (map orders_of rs)))"
  "su_TotalScoops (fold (add_record lib sl) rs s) = (if rs = [] then su_TotalScoops s else i64 (su_TotalScoops s + sum_list (map an_ScoopsSold rs)))"
  "su_TotalWaste (fold (add_record lib sl) rs s) = (if rs = [] then su_TotalWaste s else i64 (su_TotalWaste s + sum_list (map an_TotalWastePortions rs)))"
  using fold_add [where g = "add_record lib sl" and q = su_TotalOrders and h = orders_of] fold_add [where g = "add_record lib sl" and q = su_TotalScoops and h = an_ScoopsSold]
    fold_add [where g = "add_record lib sl" and q = su_TotalWaste and h = an_TotalWastePortions]
  by (simp_all add: add_record_def orders_of_def Let_def)

lemma trend_of_days: "map st_Date (su_SalesTrend (fold (add_record lib sl) rs s)) = map st_Date (su_SalesTrend s) @ map an_Date rs"
  by (induction rs arbitrary: s) (simp_all add: add_record_def Let_def)

lemma trend_orders: "map st_Orders (su_SalesTrend (fold (add_record lib sl) rs s)) = map st_Orders (su_SalesTrend s) @ map orders_of rs"
  by (induction rs arbitrary: s) (simp_all add: add_record_def orders_of_def Let_def)

lemma build_totals:
  "su_TotalOrders (BuildAnalyticsSummaryResponse lib sl rs) = i64 (sum_list (map orders_of rs))"
  "su_TotalScoops (BuildAnalyticsSummaryResponse lib sl rs) = i64 (sum_list (map an_ScoopsSold rs))"
  "su_TotalWaste (BuildAnalyticsSummaryResponse lib sl rs) = i64 (sum_list (map an_TotalWastePortions rs))"
  "map st_Date (su_SalesTrend (BuildAnalyticsSummaryResponse lib sl rs)) = map an_Date rs"
  "map st_Orders (su_SalesTrend (BuildAnalyticsSummaryResponse lib sl rs)) = map orders_of rs"
  by (simp_all add: BuildAnalyticsSummaryResponse_def add_records trend_of_days trend_orders Let_def)

lemma found_in_range:
  assumes "set (sl_cursor sl) = dom (db_days d)" "\<not> aw_find w"
  shows "FindByDateRange sl w startDate endDate d = Inr (map (\<lambda>day. day_at lib day d) (filter (\<lambda>day. startDate \<le> day \<and> day \<le> endDate) (sl_cursor sl)))"
proof -
  have "List.map_filter (\<lambda>day. if P day then db_days d day else None) xs = map (\<lambda>day. day_at lib day d) (filter P xs)" if "set xs \<subseteq> dom (db_days d)" for xs P
    using that by (induction xs) (auto simp: List.map_filter_def day_at_def)
  then show ?thesis using assms by (simp add: FindByDateRange_def)
qed

text \<open>Waste of a flavor over all days.\<close>

definition waste_entries :: "string \<Rightarrow> an_flavor_stat list \<Rightarrow> int" where
  "waste_entries i xs = sum_list (map fs_WastePortions (filter (\<lambda>x. fs_FlavorID x = i \<and> fs_WastePortions x > 0) xs))"

lemma map_of_update: "map_of (AList.update k v xs) i = (if i = k then Some v else map_of xs i)"
  by (simp add: AList.update_conv')

lemma waste_by_flavor:
  assumes "\<forall>x\<in>set xs. i64 (fs_WastePortions x) = fs_WastePortions x"
  shows "map_of (fold waste_entry xs []) i = None \<longleftrightarrow> (\<forall>x\<in>set xs. fs_FlavorID x = i \<longrightarrow> fs_WastePortions x \<le> 0)"
    and "map_of (fold waste_entry xs []) i = Some w \<Longrightarrow> wf_FlavorID w = i \<and> wf_Portions w = i64 (waste_entries i xs)"
proof -
  have "(map_of (fold waste_entry xs []) i = None \<longleftrightarrow> (\<forall>x\<in>set xs. fs_FlavorID x = i \<longrightarrow> fs_WastePortions x \<le> 0)) \<and>
    (\<forall>w. map_of (fold waste_entry xs []) i = Some w \<longrightarrow> wf_FlavorID w = i \<and> wf_Portions w = i64 (waste_entries i xs))"
    using assms
  proof (induction xs rule: rev_induct)
    case (snoc x xs)
    show ?case
    proof (cases "fs_WastePortions x > 0 \<and> fs_FlavorID x = i")
      case True
      then show ?thesis using snoc
        by (cases "map_of (fold waste_entry xs []) i")
          (auto simp: waste_entry_def map_of_update waste_entries_def filter_False not_less i64_add)
    next
      case False
      then show ?thesis using snoc by (auto simp: waste_entry_def map_of_update waste_entries_def)
    qed
  qed simp
  then show "map_of (fold waste_entry xs []) i = None \<longleftrightarrow> (\<forall>x\<in>set xs. fs_FlavorID x = i \<longrightarrow> fs_WastePortions x \<le> 0)"
    and "map_of (fold waste_entry xs []) i = Some w \<Longrightarrow> wf_FlavorID w = i \<and> wf_Portions w = i64 (waste_entries i xs)" by blast+
qed

end
