(* ===== verification/Analytics_Props.thy ===== *)
theory Analytics_Props
  imports Analytics_Summary
begin

text \<open>
  What the analytics service guarantees: the daily totals are the sums of the events of the day, each
  counted once, in whatever order and however often they are delivered within the seven days for which the ids of
  processed events are kept.
\<close>

section \<open>Totals\<close>

text \<open>
  C28. The daily totals are exact. One consumer processes messages, in any order and with any
  repetitions; two different events have different ids and no order is cancelled by two of them. The
  marks of processed events expire after seven days, and all deliveries of a message lie within seven
  days of each other. Reads may fail and writes of totals may be lost when they are reported as failed;
  a mark that is lost and a write that took effect although it was reported as failed are excluded. Then
  for every day the sales, the number of orders, the scoops, the wasted portions, and the scoops and
  revenue of each flavor are the sums, in 64-bit arithmetic, of what the events of that day that were
  answered without an error contribute, each once: a sale adds its amounts, the cancellation of a paid
  order takes them back on the day of the payment, even when it arrives before the sale. An event
  delivered once without a fault is among them.
\<close>

theorem analytics_exact:
  assumes "coherent (messages xs)" and "\<forall>m\<in>messages xs. msg_valid lib m" and "timely xs" and "list_all harmless xs"
    and "an_run lib xs = (N, d)" and "a = day_at lib day d" and "M = {m \<in> N. day_of lib m = Some day}"
  shows "gross_of a = i64 (\<Sum>m\<in>M. gross_part lib m) \<and> orders_of a = i64 (\<Sum>m\<in>M. orders_part m) \<and>
    an_ScoopsSold a = i64 (\<Sum>m\<in>M. scoops_part m) \<and> an_TotalWastePortions a = i64 (\<Sum>m\<in>M. waste_part m) \<and>
    flavor_of fs_ScoopsSold i a = i64 (\<Sum>m\<in>M. flavor_scoops_part i m) \<and>
    flavor_of fs_RevenueMinor i a = i64 (\<Sum>m\<in>M. flavor_revenue_part lib i m) \<and>
    N \<subseteq> messages xs \<and> (\<forall>w m. Delivered w m \<in> set xs \<and> faultless w \<longrightarrow> m \<in> N)"
proof -
  have p: "proper lib xs" using assms(1-4) by (simp add: proper_def)
  note run = p assms(5)
  have "N \<subseteq> messages xs" "\<forall>w m. Delivered w m \<in> set xs \<and> faultless w \<longrightarrow> m \<in> N"
    using run_messages [OF assms(5)] run_accepts [OF run] by blast+
  then show ?thesis
    using gross.totals_exact [OF run, of day] orders.totals_exact [OF run, of day] scoops.totals_exact [OF run, of day]
      waste.totals_exact [OF run, of day] flavor_scoops.totals_exact [OF run, of i day] flavor_revenue.totals_exact [OF run, of i day]
    unfolding assms(6,7) gross.total_def orders.total_def scoops.total_def waste.total_def flavor_scoops.total_def flavor_revenue.total_def
      gross.reference_def orders.reference_def scoops.reference_def waste.reference_def flavor_scoops.reference_def flavor_revenue.reference_def
    by blast
qed

text \<open>
  A paid order whose cancellation arrives first, then the sale, delivered once while the database does not
  answer and then twice, and another sale. The monitor of the database looks for old marks in between and
  removes the first one eight days later.
\<close>

definition sample_an_lib :: "int an_lib" where
  "sample_an_lib = \<lparr>lib_ratio = (\<lambda>a b. a div b), lib_zero = 0, lib_pos = (\<lambda>x. 0 < x), lib_minor = (\<lambda>x. 100 * x),
     lib_stamp = (\<lambda>z. Some (take 10 z)), lib_date = Some\<rparr>"

definition sample_items :: "int placed_item list" where
  "sample_items = [\<lparr>pi_FlavorID = ''mango'', pi_FlavorName = ''Mango'', pi_Portions = 2, pi_Subtotal = 0, pi_SubtotalMinor = 9000\<rparr>]"

definition sample_sale :: "string \<Rightarrow> int an_message" where
  "sample_sale i = PlacedMsg \<lparr>pe_ID = i, pe_Time = ''2026-09-01T10:00:00Z'', pe_TotalAmount = 0, pe_TotalAmountMinor = 9000, pe_Currency = ''THB'', pe_Items = sample_items\<rparr>"

definition sample_reversal :: "int an_message" where
  "sample_reversal = CancelledMsg \<lparr>ce_ID = ''c'', ce_OrderID = ''o1'', ce_WasPaid = True, ce_TotalAmountMinor = 9000, ce_Items = sample_items, ce_PaidAt = ''2026-09-01T10:00:00Z''\<rparr>"

lemmas sample_an_defs = sample_an_lib_def sample_items_def sample_sale_def sample_reversal_def

definition at_day :: "int \<Rightarrow> an_world" where
  "at_day k = all_well\<lparr>aw_now := k * 24 * 3600 * Second\<rparr>"

definition sample_deliveries :: "int an_event list" where
  "sample_deliveries = [Delivered (at_day 0) sample_reversal, Delivered ((at_day 1)\<lparr>aw_find := True\<rparr>) (sample_sale ''s1''),
     Delivered (at_day 2) (sample_sale ''s1''), MarksExpired (5 * 24 * 3600 * Second) [''c'', ''s1''], Delivered (at_day 6) (sample_sale ''s1''),
     MarksExpired (8 * 24 * 3600 * Second) [''c'', ''s1''], Delivered (at_day 8) (sample_sale ''s2'')]"

lemma sample_deliveries_ok:
  "messages sample_deliveries = {sample_reversal, sample_sale ''s1'', sample_sale ''s2''}" "coherent (messages sample_deliveries)"
  "\<forall>m\<in>messages sample_deliveries. msg_valid sample_an_lib m" "timely sample_deliveries" "list_all harmless sample_deliveries"
proof -
  show ms: "messages sample_deliveries = {sample_reversal, sample_sale ''s1'', sample_sale ''s2''}"
    by (auto simp: messages_def sample_deliveries_def)
  show "coherent (messages sample_deliveries)" unfolding ms by (auto simp: coherent_def inj_on_def msg_id_def reverses_def sample_an_defs)
  show "\<forall>m\<in>messages sample_deliveries. msg_valid sample_an_lib m" unfolding ms
    by (simp add: msg_valid_def msg_id_def msg_typed_def item_typed_def minor_of_def day_of_def extractDate_def i64_def sample_an_defs)
  show "timely sample_deliveries"
    by (simp add: timely_def sample_deliveries_def at_day_def EventRetention_def sample_an_defs)
  show "list_all harmless sample_deliveries" by (simp add: sample_deliveries_def at_day_def all_well_def)
qed

theorem analytics_exact_witness:
  "gross_of (day_at sample_an_lib ''2026-09-01'' (snd (an_run sample_an_lib sample_deliveries))) = 9000 \<and>
   flavor_of fs_ScoopsSold ''mango'' (day_at sample_an_lib ''2026-09-01'' (snd (an_run sample_an_lib sample_deliveries))) = 2"
proof -
  let ?E = "{sample_reversal, sample_sale ''s1'', sample_sale ''s2''}"
  obtain N d where run: "an_run sample_an_lib sample_deliveries = (N, d)" by fastforce
  note exact = analytics_exact [OF sample_deliveries_ok(2-5) run refl refl, of "''2026-09-01''" "''mango''"]
  have "faultless (at_day k)" for k by (simp add: faultless_def at_day_def all_well_def)
  then have "?E \<subseteq> N" using exact unfolding sample_deliveries_def by auto
  then have "N = ?E" using exact unfolding sample_deliveries_ok(1) by blast
  then have day: "{m \<in> N. day_of sample_an_lib m = Some ''2026-09-01''} = ?E"
    by (auto simp: day_of_def extractDate_def sample_an_defs)
  have differ: "sample_reversal \<notin> {sample_sale ''s1'', sample_sale ''s2''}" "sample_sale ''s1'' \<noteq> sample_sale ''s2''" by (simp_all add: sample_an_defs)
  have parts: "gross_part sample_an_lib sample_reversal = - 9000" "gross_part sample_an_lib (sample_sale i) = 9000"
    "flavor_scoops_part ''mango'' sample_reversal = - 2" "flavor_scoops_part ''mango'' (sample_sale i) = 2" for i
    by (simp_all add: gross_part_def flavor_scoops_part_def items_of_def minor_of_def sample_an_defs)
  have small: "i64 9000 = 9000" "i64 2 = 2" by (simp_all add: i64_def)
  show ?thesis using exact differ unfolding day run by (simp add: parts small)
qed

section \<open>The dashboard\<close>

text \<open>
  C20. The dashboard adds up. One consumer has processed messages in any order, with repetitions within
  seven days of each other and faults as in the exactness of the daily totals. The collection returns
  each of its days once, in some order, and can be read. Then a summary for one of the four periods
  succeeds and its orders, scoops and waste are the sums, in 64-bit arithmetic, of the contributions of
  the answered messages that count on a day of the period, from the first day to today inclusive; the
  trend lists every such day that has a document once, and its orders add up to the total.
\<close>

theorem summary_exact:
  assumes "proper lib xs" and "an_run lib xs = (M, d)"
    and "set (sl_cursor sl) = dom (db_days d)" and "distinct (sl_cursor sl)"
    and "period_start today period = Some start" and "inside = (\<lambda>day. show_date start \<le> day \<and> day \<le> show_date today)"
  shows "\<exists>s. GetAnalyticsSummary lib sl all_well today period d = Inr s \<and>
    su_TotalOrders s = i64 (\<Sum>m\<in>counted_in lib inside M. orders_part m) \<and>
    su_TotalScoops s = i64 (\<Sum>m\<in>counted_in lib inside M. scoops_part m) \<and>
    su_TotalWaste s = i64 (\<Sum>m\<in>counted_in lib inside M. waste_part m) \<and>
    distinct (map st_Date (su_SalesTrend s)) \<and> set (map st_Date (su_SalesTrend s)) = {day \<in> dom (db_days d). inside day} \<and>
    su_TotalOrders s = i64 (sum_list (map st_Orders (su_SalesTrend s)))"
proof -
  let ?days = "filter inside (sl_cursor sl)"
  let ?rs = "map (\<lambda>day. day_at lib day d) ?days"
  have "\<not> aw_find all_well" by (simp add: all_well_def)
  then have s: "GetAnalyticsSummary lib sl all_well today period d = Inr (BuildAnalyticsSummaryResponse lib sl ?rs)"
    using found_in_range [where lib = lib, OF assms(3)] assms(5) by (simp add: GetAnalyticsSummary_def assms(6))
  have "an_Date (day_at lib day d) = day" for day
    using run_days(1) [OF assms(1,2)] by (auto simp: day_at_def dates_ok_def new_day_def split: option.split)
  then have dates: "map an_Date ?rs = ?days" by (simp add: comp_def)
  note exact = orders.period_exact [OF assms(1-4), of inside] scoops.period_exact [OF assms(1-4), of inside]
    waste.period_exact [OF assms(1-4), of inside]
  show ?thesis unfolding s
  proof (intro exI conjI, rule refl)
    show "su_TotalOrders (BuildAnalyticsSummaryResponse lib sl ?rs) = i64 (\<Sum>m\<in>counted_in lib inside M. orders_part m)"
      using exact(1) by (simp add: build_totals comp_def orders.total_def)
    show "su_TotalScoops (BuildAnalyticsSummaryResponse lib sl ?rs) = i64 (\<Sum>m\<in>counted_in lib inside M. scoops_part m)"
      using exact(2) by (simp add: build_totals comp_def scoops.total_def)
    show "su_TotalWaste (BuildAnalyticsSummaryResponse lib sl ?rs) = i64 (\<Sum>m\<in>counted_in lib inside M. waste_part m)"
      using exact(3) by (simp add: build_totals comp_def waste.total_def)
    show "distinct (map st_Date (su_SalesTrend (BuildAnalyticsSummaryResponse lib sl ?rs)))"
      unfolding build_totals(4) dates using assms(4) by simp
    show "set (map st_Date (su_SalesTrend (BuildAnalyticsSummaryResponse lib sl ?rs))) = {day \<in> dom (db_days d). inside day}"
      unfolding build_totals(4) dates using assms(3) by simp
    show "su_TotalOrders (BuildAnalyticsSummaryResponse lib sl ?rs) = i64 (sum_list (map st_Orders (su_SalesTrend (BuildAnalyticsSummaryResponse lib sl ?rs))))"
      by (simp only: build_totals)
  qed
qed

definition sample_sum_lib :: "int sum_lib" where
  "sample_sum_lib = \<lparr>sl_add = (+), sl_label = Some, sl_order = (\<lambda>xs. xs), sl_cursor = [''2026-09-01'']\<rparr>"

theorem summary_exact_witness:
  "\<exists>s. GetAnalyticsSummary sample_an_lib sample_sum_lib all_well (2026, 9, 3) ''1w'' (snd (an_run sample_an_lib sample_deliveries)) = Inr s \<and> su_TotalOrders s = 1"
proof -
  let ?E = "{sample_reversal, sample_sale ''s1'', sample_sale ''s2''}"
  obtain N d where run: "an_run sample_an_lib sample_deliveries = (N, d)" by fastforce
  have p: "proper sample_an_lib sample_deliveries" using sample_deliveries_ok by (simp add: proper_def)
  have "faultless (at_day k)" for k by (simp add: faultless_def at_day_def all_well_def)
  then have "?E \<subseteq> N" using run_accepts [OF p run] unfolding sample_deliveries_def by fastforce
  then have N: "N = ?E" using run_messages [OF run] unfolding sample_deliveries_ok(1) by blast
  have 3: "set (sl_cursor sample_sum_lib) = dom (db_days d)"
    unfolding run_days(2) [OF p run] N by (auto simp: sample_sum_lib_def day_of_def extractDate_def sample_an_defs)
  have 4: "period_start (2026, 9, 3) ''1w'' = Some (2026, 8, 27)"
    by (simp add: period_start_def AddDate_def norm_month_def norm_day.simps days_in_month_def)
  have dates: "show_date (2026, 8, 27) = ''2026-08-27''" "show_date (2026, 9, 3) = ''2026-09-03''"
    by (simp_all add: show_date_def show_padded_def show_digits.simps digit_char_def)
  have 5: "counted_in sample_an_lib (\<lambda>day. show_date (2026, 8, 27) \<le> day \<and> day \<le> show_date (2026, 9, 3)) N = ?E"
    unfolding dates N by (auto simp: counted_in_def day_of_def extractDate_def sample_an_defs less_eq_char_def)
  have "(\<Sum>m\<in>?E. orders_part m) = 1" by (simp add: orders_part_def sample_an_defs)
  moreover have "distinct (sl_cursor sample_sum_lib)" by (simp add: sample_sum_lib_def)
  ultimately show ?thesis
    using summary_exact [OF p run 3 _ 4 refl] unfolding 5 run by (auto simp: i64_def)
qed

section \<open>Where the totals go wrong\<close>

text \<open>
  A sale is counted twice when the mark that it was processed is not written: the error of
  \<open>MarkProcessed\<close> is dropped, the message is acknowledged or, after a crash, redelivered, and unlike a
  reversal a sale leaves no trace in the day.
\<close>

lemma sale_counted_twice:
  "gross_of (day_at sample_an_lib ''2026-09-01'' (snd (an_process sample_an_lib all_well (sample_sale ''s1'')
     (snd (an_process sample_an_lib (all_well\<lparr>aw_mark := WriteLost\<rparr>) (sample_sale ''s1'') an_start))))) = 18000"
  by (simp add: an_process_def ProcessOrderPlaced_def IsProcessed_def extractDate_def getOrCreateAnalytics_def Save_def save_day_def written_by_def
    MarkProcessed_def all_well_def an_start_def day_at_def new_day_def count_sale_def waste_rate_def count_item_def gross_of_def minor_of_def i64_def Let_def sample_an_defs)

text \<open>
  Two workers that read the day before either has written it: the sale of the first is overwritten by
  the second, since \<open>Save\<close> writes whole totals and checks nothing.
\<close>

lemma sale_overwritten:
  "fst (Save all_well (count_sale sample_an_lib (case sample_sale ''s1'' of PlacedMsg e \<Rightarrow> e) (new_day sample_an_lib ''2026-09-01'')) an_start) \<and>
   orders_of (day_at sample_an_lib ''2026-09-01'' (snd (Save all_well (count_sale sample_an_lib (case sample_sale ''s2'' of PlacedMsg e \<Rightarrow> e) (new_day sample_an_lib ''2026-09-01''))
     (snd (Save all_well (count_sale sample_an_lib (case sample_sale ''s1'' of PlacedMsg e \<Rightarrow> e) (new_day sample_an_lib ''2026-09-01'')) an_start))))) = 1"
  by (simp add: Save_def save_day_def written_by_def all_well_def an_start_def day_at_def new_day_def count_sale_def waste_rate_def count_item_def
    orders_of_def minor_of_def i64_def Let_def sample_an_defs)

end
