(* ===== verification/Gateway_Routes.thy ===== *)
theory Gateway_Routes
  imports Gelato_Text
begin

text \<open>
  The API gateway: token verification (\<open>auth/verifier.go\<close>), identity headers (\<open>middleware/sanitize.go\<close>,
  \<open>middleware/auth.go\<close>), rate limits (\<open>middleware/ratelimit.go\<close>), the routes (\<open>router/router.go\<close>) and the
  proxy for event streams (\<open>proxy/sse.go\<close>).

  Code outside the repository is an argument: the JWT library and \<open>uuid.Parse\<close> (\<open>gw_env\<close>), the decisions
  of the rate limiter, the matching of a path with a pattern, and the headers of a request, which have a
  type \<open>'h\<close> and the operations of \<open>header_lib\<close>. Names of headers are ASCII.
\<close>

section \<open>Headers and tokens\<close>

record 'h header_lib =
  hl_visit :: "'h \<Rightarrow> (string \<times> string) list"
  hl_get :: "string \<Rightarrow> 'h \<Rightarrow> string"
  hl_set :: "string \<Rightarrow> string \<Rightarrow> 'h \<Rightarrow> 'h"
  hl_del :: "string \<Rightarrow> 'h \<Rightarrow> 'h"
  hl_empty :: 'h

record gw_claims =
  gc_Role :: string
  gc_Subject :: string
  gc_IssuedAt :: "time option"
  gc_ExpiresAt :: "time option"

text \<open>\<open>ge_jwt\<close> is \<open>jwt.ParseWithClaims\<close> with the options of the verifier; the limiters answer whether a key is within its limit.\<close>

record gw_env =
  ge_jwt :: "string \<Rightarrow> gw_claims option"
  ge_uuid :: "string \<Rightarrow> bool"
  ge_public :: "string \<Rightarrow> bool"
  ge_auth :: "string \<Rightarrow> bool"
  ge_matches :: "string \<Rightarrow> string \<Rightarrow> bool"

definition gw_role_Valid :: "string \<Rightarrow> bool" where
  "gw_role_Valid r \<longleftrightarrow> r = ''CUSTOMER'' \<or> r = ''STAFF'' \<or> r = ''MANAGER''"

definition gw_Parse :: "gw_env \<Rightarrow> string \<Rightarrow> gw_claims option" where
  "gw_Parse env raw = (case ge_jwt env raw of
     None \<Rightarrow> None
   | Some claims \<Rightarrow>
       if gc_IssuedAt claims = None \<or> gc_ExpiresAt claims = None then None
       else if \<not> ge_uuid env (gc_Subject claims) \<or> \<not> gw_role_Valid (gc_Role claims) then None
       else Some claims)"

section \<open>Identity\<close>

definition identity_name :: "string \<Rightarrow> bool" where
  "identity_name k \<longleftrightarrow>
     (let lower = map ascii_lower k in prefix ''x-user'' lower \<or> prefix ''x-role'' lower \<or> prefix ''x-authenticated-'' lower)"

definition StripIdentityHeaders :: "'h header_lib \<Rightarrow> 'h \<Rightarrow> 'h" where
  "StripIdentityHeaders hl h = fold (hl_del hl) (filter identity_name (map fst (hl_visit hl h))) h"

text \<open>The locals of a request: user id and role, empty without authentication.\<close>

record gw_locals =
  lo_UserID :: string
  lo_UserRole :: string

definition anonymous :: gw_locals where
  "anonymous = \<lparr>lo_UserID = '''', lo_UserRole = ''''\<rparr>"

definition InjectUserHeaders :: "'h header_lib \<Rightarrow> gw_locals \<Rightarrow> 'h \<Rightarrow> 'h" where
  "InjectUserHeaders hl l h =
     (let h = (if lo_UserID l \<noteq> '''' then hl_set hl ''X-User-ID'' (lo_UserID l) h else h)
      in if lo_UserRole l \<noteq> '''' then hl_set hl ''X-User-Role'' (lo_UserRole l) h else h)"

text \<open>\<open>None\<close> is the response 401.\<close>

definition gw_authenticate :: "'h header_lib \<Rightarrow> gw_env \<Rightarrow> bool \<Rightarrow> 'h \<Rightarrow> gw_locals option" where
  "gw_authenticate hl env required h =
     (let count = length (filter (\<lambda>e. EqualFold (fst e) ''Authorization'') (hl_visit hl h)) in
      if count = 0 \<and> \<not> required then Some anonymous
      else if count \<noteq> 1 then None
      else
        let parts = Fields (hl_get hl ''Authorization'' h) in
        if length parts \<noteq> 2 \<or> \<not> EqualFold (parts ! 0) ''Bearer'' then None
        else case gw_Parse env (parts ! 1) of
          None \<Rightarrow> None
        | Some claims \<Rightarrow> Some \<lparr>lo_UserID = gc_Subject claims, lo_UserRole = gc_Role claims\<rparr>)"

section \<open>Routes\<close>

datatype service_name = AuthService | CatalogService | InventoryService | OrderService | FulfillmentService
  | AnalyticsService | PaymentService | NotificationService

text \<open>The handlers in front of a proxy: \<open>publicLimiter\<close>; \<open>requireAuth, authLimiter\<close>; \<open>optAuth\<close>.\<close>

datatype gate = PublicGate | AuthGate | OptionalGate

record gw_route =
  rt_Methods :: "string list option" \<comment> \<open>\<open>None\<close> for \<open>All\<close>\<close>
  rt_Pattern :: string
  rt_Gate :: gate
  rt_Service :: service_name

definition route_Post :: "string \<Rightarrow> gate \<Rightarrow> service_name \<Rightarrow> gw_route" where
  "route_Post p g s = \<lparr>rt_Methods = Some [''POST''], rt_Pattern = ''/api/v1'' @ p, rt_Gate = g, rt_Service = s\<rparr>"

text \<open>\<open>Get\<close> also registers \<open>HEAD\<close>.\<close>

definition route_Get :: "string \<Rightarrow> gate \<Rightarrow> service_name \<Rightarrow> gw_route" where
  "route_Get p g s = \<lparr>rt_Methods = Some [''HEAD'', ''GET''], rt_Pattern = ''/api/v1'' @ p, rt_Gate = g, rt_Service = s\<rparr>"

definition route_All :: "string \<Rightarrow> gate \<Rightarrow> service_name \<Rightarrow> gw_route" where
  "route_All p g s = \<lparr>rt_Methods = None, rt_Pattern = ''/api/v1'' @ p, rt_Gate = g, rt_Service = s\<rparr>"

definition routes :: "gw_route list" where
  "routes =
    [route_Post ''/auth/signup'' PublicGate AuthService,
     route_Post ''/auth/login'' PublicGate AuthService,
     route_All ''/auth/*'' AuthGate AuthService,
     route_Get ''/flavors'' OptionalGate CatalogService,
     route_Get ''/flavors/*'' OptionalGate CatalogService,
     route_All ''/flavors'' AuthGate CatalogService,
     route_All ''/flavors/*'' AuthGate CatalogService,
     route_Get ''/inventory/availability'' OptionalGate InventoryService,
     route_All ''/inventory/*'' AuthGate InventoryService,
     route_All ''/orders'' AuthGate OrderService,
     route_All ''/orders/*'' AuthGate OrderService,
     route_All ''/fulfillments/*'' AuthGate FulfillmentService,
     route_All ''/analytics/*'' AuthGate AnalyticsService,
     route_Post ''/payments/webhook'' PublicGate PaymentService,
     route_All ''/payments'' AuthGate PaymentService,
     route_All ''/payments/*'' AuthGate PaymentService,
     route_Get ''/notifications/stream'' AuthGate NotificationService]"

record 'h gw_request =
  gq_Method :: string
  gq_Path :: string
  gq_IP :: string
  gq_Header :: 'h

definition route_for :: "gw_env \<Rightarrow> 'h gw_request \<Rightarrow> gw_route option" where
  "route_for env r = find (\<lambda>rt. (case rt_Methods rt of None \<Rightarrow> True | Some ms \<Rightarrow> gq_Method r \<in> set ms) \<and> ge_matches env (rt_Pattern rt) (gq_Path r)) routes"

definition public_key :: "'h gw_request \<Rightarrow> string" where
  "public_key r = gq_IP r"

definition auth_key :: "gw_locals \<Rightarrow> 'h gw_request \<Rightarrow> string" where
  "auth_key l r = (if lo_UserID l \<noteq> '''' then ''user:'' @ lo_UserID l else ''ip:'' @ gq_IP r)"

text \<open>The request of the stream proxy: the headers are copied into a new request.\<close>

definition sse_headers :: "'h header_lib \<Rightarrow> 'h \<Rightarrow> 'h" where
  "sse_headers hl h =
     hl_set hl ''Connection'' ''close''
       (fold (\<lambda>(k, v) q. if EqualFold k ''Connection'' \<or> EqualFold k ''Upgrade'' then q else hl_set hl k v q) (hl_visit hl h) (hl_empty hl))"

datatype 'h gw_outcome = Forwarded service_name 'h | Unauthorized | TooManyRequests | NoRoute

definition forward :: "'h header_lib \<Rightarrow> gw_route \<Rightarrow> 'h \<Rightarrow> 'h gw_outcome" where
  "forward hl rt h = Forwarded (rt_Service rt) (if rt_Service rt = NotificationService then sse_headers hl h else h)"

definition gateway :: "'h header_lib \<Rightarrow> gw_env \<Rightarrow> 'h gw_request \<Rightarrow> 'h gw_outcome" where
  "gateway hl env r =
     (let h = StripIdentityHeaders hl (gq_Header r) in
      case route_for env r of
        None \<Rightarrow> NoRoute
      | Some rt \<Rightarrow>
          (case rt_Gate rt of
             PublicGate \<Rightarrow> if ge_public env (public_key r) then forward hl rt h else TooManyRequests
           | AuthGate \<Rightarrow>
               (case gw_authenticate hl env True h of
                  None \<Rightarrow> Unauthorized
                | Some l \<Rightarrow> if ge_auth env (auth_key l r) then forward hl rt (InjectUserHeaders hl l h) else TooManyRequests)
           | OptionalGate \<Rightarrow>
               (case gw_authenticate hl env False h of
                  None \<Rightarrow> Unauthorized
                | Some l \<Rightarrow> forward hl rt (InjectUserHeaders hl l h))))"

section \<open>Streams\<close>

text \<open>A read of the upstream body: the bytes and whether it also reports an error or the end; a write and its flush may fail.\<close>

record sse_read =
  sr_Bytes :: string
  sr_End :: bool
  sr_WriteFails :: bool
  sr_FlushFails :: bool

text \<open>The chunks that are flushed to the client, each alone.\<close>

fun sse_copy :: "sse_read list \<Rightarrow> string list" where
  "sse_copy [] = []"
| "sse_copy (x # xs) =
     (if sr_Bytes x \<noteq> []
      then if sr_WriteFails x then []
        else if sr_FlushFails x then []
        else sr_Bytes x # (if sr_End x then [] else sse_copy xs)
      else if sr_End x then [] else sse_copy xs)"

datatype sse_upstream = SseFailed | SseResponse nat "(string \<times> string) list" string "sse_read list option"

datatype sse_answer = BadGateway | SsePlain nat "(string \<times> string) list" string | SseStream "(string \<times> string) list" "string list"

definition set_header :: "string \<Rightarrow> string \<Rightarrow> (string \<times> string) list \<Rightarrow> (string \<times> string) list" where
  "set_header k v hs = filter (\<lambda>e. \<not> EqualFold (fst e) k) hs @ [(k, v)]"

definition sse_forwarded :: "(string \<times> string) list \<Rightarrow> (string \<times> string) list" where
  "sse_forwarded hs = fold (\<lambda>(k, v) acc. if EqualFold k ''Connection'' \<or> EqualFold k ''Transfer-Encoding'' then acc else set_header k v acc) hs []"

definition sse_Handler :: "sse_upstream \<Rightarrow> sse_answer" where
  "sse_Handler up = (case up of
     SseFailed \<Rightarrow> BadGateway
   | SseResponse status hs body stream \<Rightarrow>
       if status \<noteq> 200 then SsePlain status (sse_forwarded hs) body
       else
         let hs = set_header ''Connection'' ''keep-alive'' (set_header ''Cache-Control'' ''no-cache''
               (set_header ''Content-Type'' ''text/event-stream'' (sse_forwarded hs))) in
         (case stream of None \<Rightarrow> SsePlain 200 hs body | Some reads \<Rightarrow> SseStream hs (sse_copy reads)))"

end
