(* ===== verification/Gateway_Props.thy ===== *)
theory Gateway_Props
  imports Gateway_Routes
begin

text \<open>
  What the gateway guarantees to the services behind it: identity headers come from a verified token of
  the same request, and only the listed routes are open to requests without a token.
\<close>

section \<open>Headers\<close>

text \<open>
  What the gateway relies on of the header library. Deleting a name removes the entries of that name
  and keeps those of any other name; setting a name adds an entry, whose name may be spelt with other
  capitals, and keeps the entries of other names; getting a name that occurs once gives its value.
\<close>

definition headers_ok :: "'h header_lib \<Rightarrow> bool" where
  "headers_ok hl \<longleftrightarrow>
     (\<forall>k h. (\<forall>e\<in>set (hl_visit hl (hl_del hl k h)). e \<in> set (hl_visit hl h) \<and> fst e \<noteq> k) \<and>
       (\<forall>e\<in>set (hl_visit hl h). EqualFold (fst e) k \<or> e \<in> set (hl_visit hl (hl_del hl k h)))) \<and>
     (\<forall>k v h. (\<exists>e\<in>set (hl_visit hl (hl_set hl k v h)). EqualFold (fst e) k \<and> snd e = v) \<and>
       (\<forall>e\<in>set (hl_visit hl (hl_set hl k v h)). EqualFold (fst e) k \<and> snd e = v \<or> e \<in> set (hl_visit hl h)) \<and>
       (\<forall>e\<in>set (hl_visit hl h). EqualFold (fst e) k \<or> e \<in> set (hl_visit hl (hl_set hl k v h)))) \<and>
     (\<forall>k h e. filter (\<lambda>e. EqualFold (fst e) k) (hl_visit hl h) = [e] \<longrightarrow> hl_get hl k h = snd e) \<and>
     hl_visit hl (hl_empty hl) = []"

lemma headers_del: "headers_ok hl \<Longrightarrow> e \<in> set (hl_visit hl (hl_del hl k h)) \<Longrightarrow> e \<in> set (hl_visit hl h) \<and> fst e \<noteq> k"
  and headers_set: "headers_ok hl \<Longrightarrow> e \<in> set (hl_visit hl (hl_set hl k v h)) \<Longrightarrow> EqualFold (fst e) k \<and> snd e = v \<or> e \<in> set (hl_visit hl h)"
  and headers_set_new: "headers_ok hl \<Longrightarrow> \<exists>e\<in>set (hl_visit hl (hl_set hl k v h)). EqualFold (fst e) k \<and> snd e = v"
  and headers_del_keep: "headers_ok hl \<Longrightarrow> e \<in> set (hl_visit hl h) \<Longrightarrow> \<not> EqualFold (fst e) k \<Longrightarrow> e \<in> set (hl_visit hl (hl_del hl k h))"
  and headers_set_keep: "headers_ok hl \<Longrightarrow> e \<in> set (hl_visit hl h) \<Longrightarrow> \<not> EqualFold (fst e) k \<Longrightarrow> e \<in> set (hl_visit hl (hl_set hl k v h))"
  and headers_get: "headers_ok hl \<Longrightarrow> filter (\<lambda>e. EqualFold (fst e) k) (hl_visit hl h) = [e] \<Longrightarrow> hl_get hl k h = snd e"
  and headers_empty: "headers_ok hl \<Longrightarrow> hl_visit hl (hl_empty hl) = []"
  unfolding headers_ok_def by blast+

lemma identity_fold: "EqualFold k k' \<Longrightarrow> identity_name k \<longleftrightarrow> identity_name k'"
  by (simp add: EqualFold_def identity_name_def)

lemma EqualFold_refl [simp]: "EqualFold k k" and EqualFold_sym: "EqualFold k k' \<Longrightarrow> EqualFold k' k"
  and EqualFold_trans: "EqualFold k k' \<Longrightarrow> EqualFold k' k'' \<Longrightarrow> EqualFold k k''"
  by (simp_all add: EqualFold_def)

lemma fold_del:
  assumes "headers_ok hl"
  shows "e \<in> set (hl_visit hl (fold (hl_del hl) ks h)) \<Longrightarrow> e \<in> set (hl_visit hl h) \<and> fst e \<notin> set ks"
    and "e \<in> set (hl_visit hl h) \<Longrightarrow> \<forall>k\<in>set ks. \<not> EqualFold (fst e) k \<Longrightarrow> e \<in> set (hl_visit hl (fold (hl_del hl) ks h))"
proof -
  show "e \<in> set (hl_visit hl (fold (hl_del hl) ks h)) \<Longrightarrow> e \<in> set (hl_visit hl h) \<and> fst e \<notin> set ks"
  proof (induction ks arbitrary: h)
    case (Cons k ks)
    from Cons.IH [of "hl_del hl k h"] Cons.prems have "e \<in> set (hl_visit hl (hl_del hl k h))" "fst e \<notin> set ks" by simp_all
    then show ?case using headers_del [OF assms] by simp
  qed simp
  show "e \<in> set (hl_visit hl h) \<Longrightarrow> \<forall>k\<in>set ks. \<not> EqualFold (fst e) k \<Longrightarrow> e \<in> set (hl_visit hl (fold (hl_del hl) ks h))"
    by (induction ks arbitrary: h) (simp_all add: headers_del_keep [OF assms])
qed

text \<open>After the clean-up no identity header is left, and every other header is.\<close>

lemma strip_identity:
  assumes "headers_ok hl"
  shows "e \<in> set (hl_visit hl (StripIdentityHeaders hl h)) \<longleftrightarrow> e \<in> set (hl_visit hl h) \<and> \<not> identity_name (fst e)"
proof
  assume "e \<in> set (hl_visit hl (StripIdentityHeaders hl h))"
  then have "e \<in> set (hl_visit hl h) \<and> fst e \<notin> set (filter identity_name (map fst (hl_visit hl h)))"
    unfolding StripIdentityHeaders_def by (rule fold_del(1) [OF assms])
  then show "e \<in> set (hl_visit hl h) \<and> \<not> identity_name (fst e)" by auto
next
  assume "e \<in> set (hl_visit hl h) \<and> \<not> identity_name (fst e)"
  then show "e \<in> set (hl_visit hl (StripIdentityHeaders hl h))"
    unfolding StripIdentityHeaders_def by (intro fold_del(2) [OF assms]) (auto dest: identity_fold)
qed

definition injected :: "gw_locals \<Rightarrow> string \<times> string \<Rightarrow> bool" where
  "injected l e \<longleftrightarrow> lo_UserID l \<noteq> '''' \<and> EqualFold (fst e) ''X-User-ID'' \<and> snd e = lo_UserID l \<or>
     lo_UserRole l \<noteq> '''' \<and> EqualFold (fst e) ''X-User-Role'' \<and> snd e = lo_UserRole l"

lemma inject_headers:
  assumes "headers_ok hl" "e \<in> set (hl_visit hl (InjectUserHeaders hl l h))"
  shows "injected l e \<or> e \<in> set (hl_visit hl h)"
  using assms(2) by (auto simp: InjectUserHeaders_def Let_def injected_def split: if_splits dest!: headers_set [OF assms(1)])

lemma inject_keep:
  assumes "headers_ok hl" "e \<in> set (hl_visit hl h)" "\<not> identity_name (fst e)"
  shows "e \<in> set (hl_visit hl (InjectUserHeaders hl l h))"
proof -
  have "identity_name ''X-User-ID''" "identity_name ''X-User-Role''" by code_simp+
  then have "\<not> EqualFold (fst e) ''X-User-ID''" "\<not> EqualFold (fst e) ''X-User-Role''" using assms(3) identity_fold by blast+
  then show ?thesis using assms by (simp add: InjectUserHeaders_def Let_def headers_set_keep)
qed

text \<open>The stream proxy copies headers; it adds only \<open>Connection\<close>.\<close>

lemma sse_copied:
  assumes "headers_ok hl" "e \<in> set (hl_visit hl (sse_headers hl h))"
  shows "EqualFold (fst e) ''Connection'' \<or> (\<exists>k. EqualFold (fst e) k \<and> (k, snd e) \<in> set (hl_visit hl h))"
proof -
  have "\<exists>k. EqualFold (fst e) k \<and> (k, snd e) \<in> set kvs \<or> e \<in> set (hl_visit hl q)"
    if "e \<in> set (hl_visit hl (fold (\<lambda>(k, v) q. if EqualFold k ''Connection'' \<or> EqualFold k ''Upgrade'' then q else hl_set hl k v q) kvs q))" for kvs q
    using that
  proof (induction kvs arbitrary: q)
    case (Cons kv kvs)
    obtain k v where [simp]: "kv = (k, v)" by (cases kv)
    from Cons show ?case by (auto split: if_splits dest!: headers_set [OF assms(1)] Cons.IH)
  qed simp
  then show ?thesis
    using assms headers_set [OF assms(1)] headers_empty [OF assms(1)] unfolding sse_headers_def by fastforce
qed

text \<open>A header whose name is not repeated with another value arrives upstream.\<close>

lemma sse_kept:
  assumes "headers_ok hl" "(k, v) \<in> set (hl_visit hl h)" "\<forall>e\<in>set (hl_visit hl h). EqualFold (fst e) k \<longrightarrow> snd e = v"
    "\<not> EqualFold k ''Connection''" "\<not> EqualFold k ''Upgrade''"
  shows "\<exists>e\<in>set (hl_visit hl (sse_headers hl h)). EqualFold (fst e) k \<and> snd e = v"
proof -
  let ?f = "\<lambda>(k, v) q. if EqualFold k ''Connection'' \<or> EqualFold k ''Upgrade'' then q else hl_set hl k v q"
  have "\<exists>e\<in>set (hl_visit hl (fold ?f kvs q)). EqualFold (fst e) k \<and> snd e = v"
    if "\<forall>e\<in>set kvs. EqualFold (fst e) k \<longrightarrow> snd e = v" and "(k, v) \<in> set kvs \<or> (\<exists>e\<in>set (hl_visit hl q). EqualFold (fst e) k \<and> snd e = v)" for kvs q
    using that
  proof (induction kvs arbitrary: q)
    case (Cons kv kvs)
    obtain k' v' where kv: "kv = (k', v')" by (cases kv)
    have "(k, v) \<in> set kvs \<or> (\<exists>e\<in>set (hl_visit hl (?f kv q)). EqualFold (fst e) k \<and> snd e = v)"
    proof (cases "EqualFold k' k")
      case True
      then have "v' = v" "\<not> (EqualFold k' ''Connection'' \<or> EqualFold k' ''Upgrade'')"
        using Cons.prems(1) assms(4,5) kv by (auto intro: EqualFold_trans EqualFold_sym)
      then show ?thesis using headers_set_new [OF assms(1), of k' v' q] True kv by (auto intro: EqualFold_trans)
    next
      case False
      then have "(k, v) \<noteq> kv" using kv by auto
      moreover have "e \<in> set (hl_visit hl (?f kv q))" if "e \<in> set (hl_visit hl q)" "EqualFold (fst e) k" for e
      proof -
        have "\<not> EqualFold (fst e) k'" using that(2) False by (blast intro: EqualFold_trans EqualFold_sym)
        then show ?thesis using that(1) headers_set_keep [OF assms(1)] kv by simp
      qed
      ultimately show ?thesis using Cons.prems(2) by auto
    qed
    then show ?case using Cons.IH [of "?f kv q"] Cons.prems(1) by simp
  qed simp
  from this [of "hl_visit hl h" "hl_empty hl"] obtain e where e: "e \<in> set (hl_visit hl (fold ?f (hl_visit hl h) (hl_empty hl)))" "EqualFold (fst e) k" "snd e = v"
    using assms(2,3) by auto
  then have "\<not> EqualFold (fst e) ''Connection''" using assms(4) by (blast intro: EqualFold_trans EqualFold_sym)
  then show ?thesis using e headers_set_keep [OF assms(1) e(1)] unfolding sse_headers_def by blast
qed

text \<open>The injected headers arrive, through the stream proxy too.\<close>

lemma injected_arrive:
  assumes "headers_ok hl" "lo_UserID l \<noteq> ''''" "lo_UserRole l \<noteq> ''''"
    and "h = (if svc = NotificationService then sse_headers hl (InjectUserHeaders hl l (StripIdentityHeaders hl h0)) else InjectUserHeaders hl l (StripIdentityHeaders hl h0))"
  shows "(\<exists>e\<in>set (hl_visit hl h). EqualFold (fst e) ''X-User-ID'' \<and> snd e = lo_UserID l) \<and> (\<exists>e\<in>set (hl_visit hl h). EqualFold (fst e) ''X-User-Role'' \<and> snd e = lo_UserRole l)"
proof -
  let ?h = "StripIdentityHeaders hl h0"
  let ?q = "InjectUserHeaders hl l ?h" and ?id = "hl_set hl ''X-User-ID'' (lo_UserID l) ?h"
  have names: "\<not> EqualFold ''X-User-ID'' ''X-User-Role''" "\<not> EqualFold ''X-User-ID'' ''Connection''" "\<not> EqualFold ''X-User-ID'' ''Upgrade''"
    "\<not> EqualFold ''X-User-Role'' ''Connection''" "\<not> EqualFold ''X-User-Role'' ''Upgrade''" "identity_name ''X-User-ID''" "identity_name ''X-User-Role''" by code_simp+
  have q: "?q = hl_set hl ''X-User-Role'' (lo_UserRole l) ?id" using assms(2,3) by (simp add: InjectUserHeaders_def)
  obtain i where i: "i \<in> set (hl_visit hl ?id)" "EqualFold (fst i) ''X-User-ID''" "snd i = lo_UserID l" using headers_set_new [OF assms(1)] by blast
  have "\<not> EqualFold (fst i) ''X-User-Role''" using i(2) names(1) by (blast intro: EqualFold_trans EqualFold_sym)
  then have i': "i \<in> set (hl_visit hl ?q)" unfolding q using headers_set_keep [OF assms(1) i(1)] by blast
  obtain o' where o: "o' \<in> set (hl_visit hl ?q)" "EqualFold (fst o') ''X-User-Role''" "snd o' = lo_UserRole l" unfolding q using headers_set_new [OF assms(1)] by blast
  have only: "EqualFold (fst e) ''X-User-ID'' \<Longrightarrow> snd e = lo_UserID l" "EqualFold (fst e) ''X-User-Role'' \<Longrightarrow> snd e = lo_UserRole l"
    if "e \<in> set (hl_visit hl ?q)" for e
  proof -
    have "identity_name (fst e) \<Longrightarrow> injected l e" using inject_headers [OF assms(1) that] strip_identity [OF assms(1)] by blast
    moreover have "\<not> (EqualFold (fst e) ''X-User-ID'' \<and> EqualFold (fst e) ''X-User-Role'')"
      using names(1) EqualFold_sym [of "fst e" "''X-User-ID''"] EqualFold_trans [of "''X-User-ID''" "fst e" "''X-User-Role''"] by blast
    ultimately show "EqualFold (fst e) ''X-User-ID'' \<Longrightarrow> snd e = lo_UserID l" "EqualFold (fst e) ''X-User-Role'' \<Longrightarrow> snd e = lo_UserRole l"
      using names(6,7) identity_fold [of "fst e"] unfolding injected_def by blast+
  qed
  show ?thesis
  proof (cases "svc = NotificationService")
    case True
    have h: "h = sse_headers hl ?q" using assms(4) True by simp
    have far: "\<not> EqualFold (fst i) ''Connection''" "\<not> EqualFold (fst i) ''Upgrade''" "\<not> EqualFold (fst o') ''Connection''" "\<not> EqualFold (fst o') ''Upgrade''"
      using names(2-5) EqualFold_trans [OF EqualFold_sym [OF i(2)]] EqualFold_trans [OF EqualFold_sym [OF o(2)]] by blast+
    have same: "EqualFold (fst e) (fst i) \<Longrightarrow> snd e = snd i" "EqualFold (fst e) (fst o') \<Longrightarrow> snd e = snd o'" if "e \<in> set (hl_visit hl ?q)" for e
      using only [OF that] i(2,3) o(2,3) EqualFold_trans [OF _ i(2)] EqualFold_trans [OF _ o(2)] by simp_all
    have "\<exists>e\<in>set (hl_visit hl h). EqualFold (fst e) (fst i) \<and> snd e = snd i"
      unfolding h by (rule sse_kept [OF assms(1) _ _ far(1,2)]) (use i' in simp, blast intro: same(1))
    moreover have "\<exists>e\<in>set (hl_visit hl h). EqualFold (fst e) (fst o') \<and> snd e = snd o'"
      unfolding h by (rule sse_kept [OF assms(1) _ _ far(3,4)]) (use o(1) in simp, blast intro: same(2))
    ultimately show ?thesis using i(3) o(3) EqualFold_trans [OF _ i(2)] EqualFold_trans [OF _ o(2)] by auto
  qed (use i i' o assms(4) in auto)
qed

section \<open>Tokens\<close>

text \<open>The claims of the token a request presents: the request has one Authorization header, a bearer token that verifies.\<close>

definition presents :: "'h header_lib \<Rightarrow> gw_env \<Rightarrow> 'h gw_request \<Rightarrow> gw_claims \<Rightarrow> bool" where
  "presents hl env r claims \<longleftrightarrow>
     (\<exists>k v scheme token. {e \<in> set (hl_visit hl (gq_Header r)). EqualFold (fst e) ''Authorization''} = {(k, v)} \<and>
       Fields v = [scheme, token] \<and> EqualFold scheme ''Bearer'' \<and> gw_Parse env token = Some claims)"

lemma authenticated:
  assumes "headers_ok hl" "gw_authenticate hl env required (StripIdentityHeaders hl (gq_Header r)) = Some l"
  shows "l = anonymous \<and> \<not> required \<or> (\<exists>claims. presents hl env r claims \<and> l = \<lparr>lo_UserID = gc_Subject claims, lo_UserRole = gc_Role claims\<rparr>)"
proof -
  let ?h = "StripIdentityHeaders hl (gq_Header r)"
  let ?auth = "filter (\<lambda>e. EqualFold (fst e) ''Authorization'') (hl_visit hl ?h)" and ?parts = "Fields (hl_get hl ''Authorization'' ?h)"
  show ?thesis
  proof (cases "length ?auth = 0 \<and> \<not> required")
    case False
    then have ok: "length ?auth = 1" "length ?parts = 2" "EqualFold (?parts ! 0) ''Bearer''"
      and claims: "\<exists>claims. gw_Parse env (?parts ! 1) = Some claims \<and> l = \<lparr>lo_UserID = gc_Subject claims, lo_UserRole = gc_Role claims\<rparr>"
      using assms(2) by (auto simp: gw_authenticate_def Let_def split: if_splits option.splits)
    from ok(1) obtain k v where one: "?auth = [(k, v)]" by (auto simp: length_Suc_conv)
    have "\<not> identity_name ''Authorization''" by code_simp
    then have "\<not> identity_name (fst e)" if "EqualFold (fst e) ''Authorization''" for e :: "string \<times> string" using identity_fold [OF that] by simp
    then have "{e \<in> set (hl_visit hl (gq_Header r)). EqualFold (fst e) ''Authorization''} = set ?auth" using strip_identity [OF assms(1)] by auto
    then have only: "{e \<in> set (hl_visit hl (gq_Header r)). EqualFold (fst e) ''Authorization''} = {(k, v)}" using one by simp
    have "hl_get hl ''Authorization'' ?h = v" using headers_get [OF assms(1) one] by simp
    moreover have "?parts = [?parts ! 0, ?parts ! 1]" using ok(2) by (auto simp: length_Suc_conv numeral_2_eq_2)
    ultimately have "Fields v = [?parts ! 0, ?parts ! 1]" by simp
    with only ok(3) claims show ?thesis unfolding presents_def by blast
  qed (use assms in \<open>simp add: gw_authenticate_def Let_def\<close>)
qed

text \<open>What a forwarded request went through.\<close>

lemma forwarded:
  assumes "headers_ok hl" "gateway hl env r = Forwarded svc h"
  obtains rt l where "rt \<in> set routes" "svc = rt_Service rt" "case rt_Methods rt of None \<Rightarrow> True | Some ms \<Rightarrow> gq_Method r \<in> set ms" "ge_matches env (rt_Pattern rt) (gq_Path r)"
    "l = anonymous \<and> rt_Gate rt \<noteq> AuthGate \<or> (\<exists>claims. presents hl env r claims \<and> l = \<lparr>lo_UserID = gc_Subject claims, lo_UserRole = gc_Role claims\<rparr>)"
    "rt_Gate rt = AuthGate \<longrightarrow> ge_auth env (auth_key l r)"
    "h = (if svc = NotificationService then sse_headers hl (InjectUserHeaders hl l (StripIdentityHeaders hl (gq_Header r)))
      else InjectUserHeaders hl l (StripIdentityHeaders hl (gq_Header r)))"
proof -
  have none: "InjectUserHeaders hl anonymous q = q" for q by (simp add: InjectUserHeaders_def anonymous_def)
  from assms(2) obtain rt where rt: "route_for env r = Some rt" by (cases "route_for env r") (auto simp: gateway_def Let_def)
  then have rt': "rt \<in> set routes" "case rt_Methods rt of None \<Rightarrow> True | Some ms \<Rightarrow> gq_Method r \<in> set ms" "ge_matches env (rt_Pattern rt) (gq_Path r)"
    by (auto simp: route_for_def find_Some_iff)
  let ?h = "StripIdentityHeaders hl (gq_Header r)"
  have ex: "\<exists>l. (if rt_Gate rt = PublicGate then l = anonymous else gw_authenticate hl env (rt_Gate rt = AuthGate) ?h = Some l) \<and>
      (rt_Gate rt = AuthGate \<longrightarrow> ge_auth env (auth_key l r)) \<and> forward hl rt (InjectUserHeaders hl l ?h) = Forwarded svc h"
  proof (cases "rt_Gate rt")
    case PublicGate
    then show ?thesis using assms(2) rt by (simp add: gateway_def none Let_def split: if_splits)
  next
    case AuthGate
    then show ?thesis using assms(2) rt by (cases "gw_authenticate hl env True ?h") (simp_all add: gateway_def Let_def split: if_splits)
  next
    case OptionalGate
    then show ?thesis using assms(2) rt by (cases "gw_authenticate hl env False ?h") (simp_all add: gateway_def Let_def)
  qed
  then have svc: "svc = rt_Service rt" by (auto simp: forward_def)
  from ex obtain l where l: "if rt_Gate rt = PublicGate then l = anonymous else gw_authenticate hl env (rt_Gate rt = AuthGate) ?h = Some l"
    and limit: "rt_Gate rt = AuthGate \<longrightarrow> ge_auth env (auth_key l r)" and fwd: "forward hl rt (InjectUserHeaders hl l ?h) = Forwarded svc h" by blast
  have "l = anonymous \<and> rt_Gate rt \<noteq> AuthGate \<or> (\<exists>claims. presents hl env r claims \<and> l = \<lparr>lo_UserID = gc_Subject claims, lo_UserRole = gc_Role claims\<rparr>)"
    using l authenticated [OF assms(1), of env "rt_Gate rt = AuthGate" r l] by (auto split: if_splits)
  then show thesis using fwd svc by (intro that [OF rt'(1) svc rt'(2,3) _ limit]) (auto simp: forward_def)
qed

section \<open>Properties\<close>

text \<open>
  C29. Identity headers can be trusted. Whatever headers a client sends, every header with a name that
  the services could take for an identity (\<open>X-User...\<close>, \<open>X-Role...\<close>, \<open>X-Authenticated-...\<close>, in any
  capitals) in a forwarded request is \<open>X-User-ID\<close> with the subject or \<open>X-User-Role\<close> with the role of the
  verified token of that request, on every route, the event streams included.
\<close>

theorem gateway_identity:
  assumes "headers_ok hl" and "gateway hl env r = Forwarded svc h" and "e \<in> set (hl_visit hl h)" and "identity_name (fst e)"
  shows "\<exists>claims. presents hl env r claims \<and>
    (EqualFold (fst e) ''X-User-ID'' \<and> snd e = gc_Subject claims \<or> EqualFold (fst e) ''X-User-Role'' \<and> snd e = gc_Role claims)"
proof -
  let ?h = "StripIdentityHeaders hl (gq_Header r)"
  obtain rt l where rt: "rt \<in> set routes" "svc = rt_Service rt" "case rt_Methods rt of None \<Rightarrow> True | Some ms \<Rightarrow> gq_Method r \<in> set ms" "ge_matches env (rt_Pattern rt) (gq_Path r)"
    and l: "l = anonymous \<and> rt_Gate rt \<noteq> AuthGate \<or> (\<exists>claims. presents hl env r claims \<and> l = \<lparr>lo_UserID = gc_Subject claims, lo_UserRole = gc_Role claims\<rparr>)"
    and limit: "rt_Gate rt = AuthGate \<longrightarrow> ge_auth env (auth_key l r)"
    and h: "h = (if svc = NotificationService then sse_headers hl (InjectUserHeaders hl l ?h) else InjectUserHeaders hl l ?h)"
    by (rule forwarded [OF assms(1,2)])
  have "\<not> identity_name ''Connection''" by code_simp
  then have "\<not> EqualFold (fst e) ''Connection''" using assms(4) identity_fold by blast
  then have "\<exists>k. EqualFold (fst e) k \<and> (k, snd e) \<in> set (hl_visit hl (InjectUserHeaders hl l ?h))"
  proof (cases "svc = NotificationService")
    case True
    then show ?thesis using \<open>\<not> EqualFold (fst e) ''Connection''\<close> assms(3) h sse_copied [OF assms(1), of e] by simp
  next
    case False
    then show ?thesis using assms(3) h by (intro exI [of _ "fst e"]) simp
  qed
  then obtain k where k: "EqualFold (fst e) k" "(k, snd e) \<in> set (hl_visit hl (InjectUserHeaders hl l ?h))" by blast
  moreover have "(k, snd e) \<notin> set (hl_visit hl ?h)" using strip_identity [OF assms(1)] identity_fold [OF k(1)] assms(4) by simp
  ultimately have "injected l (k, snd e)" using inject_headers [OF assms(1)] by blast
  then show ?thesis using l k(1) by (auto simp: injected_def anonymous_def intro: EqualFold_trans)
qed

text \<open>Headers as an association list; a request that claims to be another user's.\<close>

definition klib :: "(string \<times> string) list header_lib" where
  "klib = \<lparr>hl_visit = (\<lambda>h. h), hl_get = (\<lambda>k h. case find (\<lambda>e. EqualFold (fst e) k) h of None \<Rightarrow> '''' | Some e \<Rightarrow> snd e),
     hl_set = set_header, hl_del = (\<lambda>k. filter (\<lambda>e. \<not> EqualFold (fst e) k)), hl_empty = []\<rparr>"

lemma klib_ok: "headers_ok klib"
proof -
  have "find P xs = Some e" if "filter P xs = [e]" for P and xs :: "(string \<times> string) list" and e
    using that by (induction xs) (auto split: if_splits)
  then show ?thesis by (auto simp: headers_ok_def klib_def set_header_def)
qed

definition kenv :: gw_env where
  "kenv = \<lparr>ge_jwt = (\<lambda>t. if t = ''tok'' then Some \<lparr>gc_Role = ''CUSTOMER'', gc_Subject = ''u1'', gc_IssuedAt = Some 1, gc_ExpiresAt = Some 2\<rparr> else None),
     ge_uuid = (\<lambda>z. z \<noteq> ''''), ge_public = (\<lambda>_. True), ge_auth = (\<lambda>_. True),
     ge_matches = (\<lambda>p z. if last p = CHR ''*'' then prefix (butlast p) z else p = z)\<rparr>"

definition krequest :: "(string \<times> string) list gw_request" where
  "krequest = \<lparr>gq_Method = ''POST'', gq_Path = ''/api/v1/orders'', gq_IP = ''10.0.0.1'',
     gq_Header = [(''x-user-id'', ''u2''), (''Authorization'', ''bearer  tok'')]\<rparr>"

definition kforwarded :: "(string \<times> string) list" where
  "kforwarded = [(''Authorization'', ''bearer  tok''), (''X-User-ID'', ''u1''), (''X-User-Role'', ''CUSTOMER'')]"

lemma krequest_forwarded: "gateway klib kenv krequest = Forwarded OrderService kforwarded"
  by code_simp

theorem gateway_identity_witness:
  "\<exists>claims. presents klib kenv krequest claims \<and> gc_Subject claims = ''u1''"
proof -
  have e: "(''X-User-ID'', ''u1'') \<in> set (hl_visit klib kforwarded)" "identity_name (fst (''X-User-ID'', ''u1''))" by code_simp+
  have "\<not> EqualFold ''X-User-ID'' ''X-User-Role''" by code_simp
  then show ?thesis using gateway_identity [OF klib_ok krequest_forwarded e] by auto
qed

text \<open>
  The open endpoints: signup, login, the webhook of the payment provider, and the reads of the flavors and
  of the availability.
\<close>

definition open_endpoint :: "gw_env \<Rightarrow> service_name \<Rightarrow> 'h gw_request \<Rightarrow> bool" where
  "open_endpoint env svc r =
     (let at = (\<lambda>p. ge_matches env (''/api/v1'' @ p) (gq_Path r)) in
      case svc of
        AuthService \<Rightarrow> gq_Method r = ''POST'' \<and> (at ''/auth/signup'' \<or> at ''/auth/login'')
      | PaymentService \<Rightarrow> gq_Method r = ''POST'' \<and> at ''/payments/webhook''
      | CatalogService \<Rightarrow> gq_Method r \<in> {''GET'', ''HEAD''} \<and> (at ''/flavors'' \<or> at ''/flavors/*'')
      | InventoryService \<Rightarrow> gq_Method r \<in> {''GET'', ''HEAD''} \<and> at ''/inventory/availability''
      | _ \<Rightarrow> False)"

text \<open>
  C30. Only the open endpoints are open. A request that is forwarded to a service, other than a POST to
  signup, login or the payment webhook and a read of the flavors or of the availability, presents a
  verified token, is within the limit of its user, and carries the user's id and role to the service.
  This covers every other path of the auth, payment, inventory and catalog services, and all of the
  order, fulfillment, analytics and notification services.
\<close>

theorem gateway_protected:
  assumes "headers_ok hl" and "\<not> ge_uuid env ''''" and "gateway hl env r = Forwarded svc h" and "\<not> open_endpoint env svc r"
  shows "\<exists>claims. presents hl env r claims \<and> ge_auth env (''user:'' @ gc_Subject claims) \<and>
    (\<exists>e\<in>set (hl_visit hl h). EqualFold (fst e) ''X-User-ID'' \<and> snd e = gc_Subject claims) \<and>
    (\<exists>e\<in>set (hl_visit hl h). EqualFold (fst e) ''X-User-Role'' \<and> snd e = gc_Role claims)"
proof -
  let ?h = "StripIdentityHeaders hl (gq_Header r)"
  obtain rt l where rt: "rt \<in> set routes" "svc = rt_Service rt" "case rt_Methods rt of None \<Rightarrow> True | Some ms \<Rightarrow> gq_Method r \<in> set ms" "ge_matches env (rt_Pattern rt) (gq_Path r)"
    and l: "l = anonymous \<and> rt_Gate rt \<noteq> AuthGate \<or> (\<exists>claims. presents hl env r claims \<and> l = \<lparr>lo_UserID = gc_Subject claims, lo_UserRole = gc_Role claims\<rparr>)"
    and limit: "rt_Gate rt = AuthGate \<longrightarrow> ge_auth env (auth_key l r)"
    and h: "h = (if svc = NotificationService then sse_headers hl (InjectUserHeaders hl l ?h) else InjectUserHeaders hl l ?h)"
    by (rule forwarded [OF assms(1,3)])
  have gate: "rt_Gate rt = AuthGate" using rt assms(4) by (auto simp: routes_def route_Post_def route_Get_def route_All_def open_endpoint_def)
  then obtain claims where claims: "presents hl env r claims" "l = \<lparr>lo_UserID = gc_Subject claims, lo_UserRole = gc_Role claims\<rparr>" using l by blast
  then have known: "gc_Subject claims \<noteq> ''''" "gc_Role claims \<noteq> ''''"
    using assms(2) by (auto simp: presents_def gw_Parse_def gw_role_Valid_def split: option.splits if_splits)
  have arrives: "(\<exists>e\<in>set (hl_visit hl h). EqualFold (fst e) ''X-User-ID'' \<and> snd e = lo_UserID l) \<and> (\<exists>e\<in>set (hl_visit hl h). EqualFold (fst e) ''X-User-Role'' \<and> snd e = lo_UserRole l)"
    using injected_arrive [OF assms(1), where l = l and ?h0.0 = "gq_Header r" and h = h and svc = svc] known claims(2) h by simp
  show ?thesis using claims limit gate known arrives by (intro exI [of _ claims]) (simp add: auth_key_def)
qed

text \<open>A charge at the payment service, which shares its path with the open webhook.\<close>

definition kcharge :: "(string \<times> string) list gw_request" where
  "kcharge = krequest\<lparr>gq_Path := ''/api/v1/payments/charge''\<rparr>"

theorem gateway_protected_witness:
  "gateway klib kenv (kcharge\<lparr>gq_Header := []\<rparr>) = Unauthorized \<and> (\<exists>claims. presents klib kenv kcharge claims \<and> ge_auth kenv (''user:'' @ gc_Subject claims))"
proof -
  have "\<not> ge_uuid kenv ''''" by (simp add: kenv_def)
  moreover have "gateway klib kenv kcharge = Forwarded PaymentService kforwarded" by code_simp
  moreover have "\<not> open_endpoint kenv PaymentService kcharge" by code_simp
  moreover have "gateway klib kenv (kcharge\<lparr>gq_Header := []\<rparr>) = Unauthorized" by code_simp
  ultimately show ?thesis using gateway_protected [OF klib_ok] by blast
qed

end
