(* ===== verification/Auth_Store.thy ===== *)
theory Auth_Store
  imports Gelato_Text Gelato_Procs
begin

text \<open>
  The auth service: accounts and outbox events (\<open>model/user.go\<close>, \<open>model/outbox.go\<close>), the PostgreSQL
  repository with its signup receipts (\<open>repository/user_repository.go\<close>, \<open>repository/signup_replay.go\<close>)
  and the outbox worker (\<open>outbox/worker.go\<close>, \<open>outbox/event.go\<close>). The tables are those of \<open>migrations/\<close>.
\<close>

section \<open>Tables\<close>

record auth_user =
  au_ID :: string
  au_Email :: string
  au_DisplayName :: string
  au_PasswordHash :: string
  au_Role :: string
  au_Status :: string
  au_CreatedAt :: time
  au_UpdatedAt :: time
  au_IdempotentReplay :: bool

definition auth_role_Valid :: "string \<Rightarrow> bool" where
  "auth_role_Valid r \<longleftrightarrow> r = ''CUSTOMER'' \<or> r = ''STAFF'' \<or> r = ''MANAGER''"

record user_payload =
  up_user_id :: string
  up_email :: string
  up_display_name :: string
  up_role :: string
  up_status :: string

record auth_event =
  ae_ID :: string
  ae_EventType :: string
  ae_Payload :: user_payload
  ae_CreatedAt :: time
  ae_PublishedAt :: "time option"
  ae_Attempts :: int
  ae_NextAttemptAt :: time

record receipt =
  rc_Key :: string
  rc_RequestHash :: string
  rc_PasswordHash :: string
  rc_Response :: "auth_user option"
  rc_ExpiresAt :: time

record auth_db =
  ad_users :: "auth_user list"
  ad_outbox :: "auth_event list"
  ad_receipts :: "receipt list"

datatype auth_error = AInvalidInput | AInvalidCredentials | AUnauthorized | AEmailExists | AUserNotFound
  | AIdemConflict | AIdemUnavailable | AStorage | AInvalidToken

type_synonym 'a atx = "(auth_db, auth_error, 'a) tx"

text \<open>A statement that reads \<open>clock_timestamp()\<close> while it changes the tables.\<close>

definition exec_now :: "auth_error \<Rightarrow> (time \<Rightarrow> auth_db \<Rightarrow> 'a \<times> auth_db) \<Rightarrow> 'a atx" where
  "exec_now err f = (\<lambda>w s n. if w_fails w n then (Inl err, s, Suc n) else (case f (w_clock w n) s of (a, s') \<Rightarrow> (Inr a, s', Suc n)))"

lemma wp_exec_now [wp_rules]:
  "wp (exec_now err f) Q E w s n = (if w_fails w n then E err s (Suc n) else Q (fst (f (w_clock w n) s)) (snd (f (w_clock w n) s)) (Suc n))"
  by (simp add: wp_def exec_now_def split: prod.split)

section \<open>Accounts\<close>

text \<open>A violated unique constraint of either column has the code 23505.\<close>

definition insert_user :: "time \<Rightarrow> auth_user \<Rightarrow> auth_user atx" where
  "insert_user now u = stmt AStorage (\<lambda>db.
     if au_Email u \<in> au_Email ` set (ad_users db) \<or> au_ID u \<in> au_ID ` set (ad_users db) then Inl AEmailExists
     else let u = u\<lparr>au_CreatedAt := now, au_UpdatedAt := now\<rparr> in Inr (u, db\<lparr>ad_users := ad_users db @ [u]\<rparr>))"

definition insert_auth_event :: "time \<Rightarrow> auth_event \<Rightarrow> unit atx" where
  "insert_auth_event now e = (\<lambda>w s n. stmt AStorage (\<lambda>db.
     if ae_ID e \<in> ae_ID ` set (ad_outbox db) then Inl AStorage
     else Inr ((), db\<lparr>ad_outbox := ad_outbox db @ [e\<lparr>ae_CreatedAt := now, ae_PublishedAt := None, ae_Attempts := 0, ae_NextAttemptAt := w_clock w n\<rparr>]\<rparr>)) w s n)"

text \<open>\<open>now\<close> is \<open>NOW()\<close>, the time at which the transaction started.\<close>

definition insertUserAndOutbox :: "time \<Rightarrow> auth_user \<Rightarrow> auth_event option \<Rightarrow> auth_user atx" where
  "insertUserAndOutbox now u event =
     bindT (insert_user now u) (\<lambda>u.
       case event of
         None \<Rightarrow> ret u
       | Some e \<Rightarrow>
           bindT (if ae_ID e = uuid_Nil then newUUID else ret (ae_ID e)) (\<lambda>i.
           bindT (insert_auth_event now (e\<lparr>ae_ID := i\<rparr>)) (\<lambda>_. ret u)))"

definition CreateWithOutbox :: "auth_user \<Rightarrow> auth_event option \<Rightarrow> auth_user atx" where
  "CreateWithOutbox u event = atomically AStorage (bindT time_Now (\<lambda>now. bindT (insertUserAndOutbox now u event) (\<lambda>u. ret (Commit u))))"

definition find_user :: "(auth_user \<Rightarrow> bool) \<Rightarrow> auth_user atx" where
  "find_user p = bindT (query AStorage (\<lambda>db. find p (ad_users db))) (\<lambda>r. case r of None \<Rightarrow> throw AUserNotFound | Some u \<Rightarrow> ret u)"

definition auth_FindByEmail :: "string \<Rightarrow> auth_user atx" where
  "auth_FindByEmail email = find_user (\<lambda>u. au_Email u = email)"

definition auth_FindByID :: "string \<Rightarrow> auth_user atx" where
  "auth_FindByID i = find_user (\<lambda>u. au_ID u = i)"

section \<open>Signup receipts\<close>

text \<open>The JSON of a user leaves out the hash, the time of change and the replay mark.\<close>

definition response_of :: "auth_user \<Rightarrow> auth_user" where
  "response_of u = u\<lparr>au_PasswordHash := '''', au_UpdatedAt := 0, au_IdempotentReplay := False\<rparr>"

record signup_replay =
  sg_User :: auth_user
  sg_PasswordHash :: string

definition scanSignup :: "receipt \<Rightarrow> string \<Rightarrow> auth_error + signup_replay" where
  "scanSignup r fingerprint =
     (if fingerprint \<noteq> rc_RequestHash r then Inl AIdemConflict
      else case rc_Response r of
        None \<Rightarrow> Inl AIdemUnavailable
      | Some u \<Rightarrow>
          if au_ID u = uuid_Nil \<or> au_Role u \<noteq> ''CUSTOMER'' \<or> au_CreatedAt u = 0 \<or> rc_PasswordHash r = '''' then Inl AIdemUnavailable
          else Inr \<lparr>sg_User = u, sg_PasswordHash = rc_PasswordHash r\<rparr>)"

definition LookupSignup :: "string \<Rightarrow> string \<Rightarrow> signup_replay option atx" where
  "LookupSignup key fingerprint =
     bindT (query_now AIdemUnavailable (\<lambda>t db. find (\<lambda>r. rc_Key r = key \<and> rc_ExpiresAt r > t) (ad_receipts db))) (\<lambda>row.
       case row of
         None \<Rightarrow> ret None
       | Some r \<Rightarrow> (case scanSignup r fingerprint of Inl e \<Rightarrow> throw e | Inr x \<Rightarrow> ret (Some x)))"

definition insert_receipt :: "string \<Rightarrow> string \<Rightarrow> string \<Rightarrow> bool atx" where
  "insert_receipt key fingerprint hash = exec_now AIdemUnavailable (\<lambda>t db.
     if key \<in> rc_Key ` set (ad_receipts db) then (False, db)
     else (True, db\<lparr>ad_receipts := ad_receipts db @ [\<lparr>rc_Key = key, rc_RequestHash = fingerprint, rc_PasswordHash = hash, rc_Response = None,
       rc_ExpiresAt = t + 24 * Hour\<rparr>]\<rparr>))"

definition receipts_left :: "string \<Rightarrow> time \<Rightarrow> receipt list \<Rightarrow> receipt list" where
  "receipts_left key t rs = filter (\<lambda>r. \<not> (rc_Key r = key \<and> rc_ExpiresAt r \<le> t)) rs"

text \<open>The account, its event and the stored response.\<close>

definition complete_signup :: "time \<Rightarrow> auth_user \<Rightarrow> auth_event \<Rightarrow> string \<Rightarrow> (signup_replay \<times> bool) outcome atx" where
  "complete_signup now u event key =
     bindT (insertUserAndOutbox now u (Some event)) (\<lambda>u.
     bindT (exec AIdemUnavailable (\<lambda>db. db\<lparr>ad_receipts := update_where (\<lambda>r. rc_Key r = key) (\<lambda>r. r\<lparr>rc_Response := Some (response_of u)\<rparr>) (ad_receipts db)\<rparr>)) (\<lambda>_.
     ret (Commit (\<lparr>sg_User = u, sg_PasswordHash = au_PasswordHash u\<rparr>, False))))"

definition CreateSignup :: "auth_user \<Rightarrow> auth_event \<Rightarrow> string \<Rightarrow> string \<Rightarrow> (signup_replay \<times> bool) atx" where
  "CreateSignup u event key fingerprint =
     atomically AIdemUnavailable (bindT time_Now (\<lambda>now.
       bindT (exec_now AIdemUnavailable (\<lambda>t db. ((), db\<lparr>ad_receipts := receipts_left key t (ad_receipts db)\<rparr>))) (\<lambda>_.
       bindT (insert_receipt key fingerprint (au_PasswordHash u)) (\<lambda>inserted.
         if \<not> inserted
         then bindT (query AIdemUnavailable (\<lambda>db. find (\<lambda>r. rc_Key r = key) (ad_receipts db))) (\<lambda>row.
             case row of
               None \<Rightarrow> throw AIdemUnavailable
             | Some r \<Rightarrow> (case scanSignup r fingerprint of Inl e \<Rightarrow> throw e | Inr x \<Rightarrow> ret (Discard (x, True))))
         else complete_signup now u event key))))"

text \<open>At most 1000 expired receipts, in the order of their expiry.\<close>

definition CleanupSignupReceipts :: "nat atx" where
  "CleanupSignupReceipts = exec_now AStorage (\<lambda>t db.
     let gone = take 1000 (sort_key (\<lambda>r. (rc_ExpiresAt r, rc_Key r)) (filter (\<lambda>r. rc_ExpiresAt r \<le> t) (ad_receipts db)))
     in (length gone, db\<lparr>ad_receipts := filter (\<lambda>r. rc_Key r \<notin> rc_Key ` set gone) (ad_receipts db)\<rparr>))"

section \<open>The outbox worker\<close>

record auth_message =
  am_ID :: string
  am_CreatedAt :: time
  am_Subject :: string
  am_Role :: string
  am_Status :: string

text \<open>\<open>too_long\<close> tells whether the stored payload has more than 64 KiB.\<close>

definition MessageFor :: "(user_payload \<Rightarrow> bool) \<Rightarrow> auth_event \<Rightarrow> auth_message option" where
  "MessageFor too_long e =
     (let data = ae_Payload e in
      if ae_ID e = uuid_Nil \<or> ae_EventType e \<noteq> ''user.registered'' \<or> ae_CreatedAt e = 0 \<or> too_long data then None
      else if up_user_id data = uuid_Nil \<or> \<not> auth_role_Valid (up_role data) \<or> (up_status data \<noteq> ''ACTIVE'' \<and> up_status data \<noteq> ''DISABLED'') then None
      else Some \<lparr>am_ID = ae_ID e, am_CreatedAt = ae_CreatedAt e, am_Subject = ''users/'' @ up_user_id data, am_Role = up_role data, am_Status = up_status data\<rparr>)"

definition retryDelay :: "int \<Rightarrow> int" where
  "retryDelay attempt = min (2 ^ nat (min (max (attempt - 1) 0) 9) * Second) (5 * Minute)"

text \<open>Leasing an event; \<open>None\<close> when none is due. The publish timeout is a whole number of milliseconds.\<close>

definition claim_event :: "int \<Rightarrow> auth_event option atx" where
  "claim_event timeout = exec_now AStorage (\<lambda>t db.
     case sort_key (\<lambda>e. (ae_NextAttemptAt e, ae_CreatedAt e, ae_ID e)) (filter (\<lambda>e. ae_PublishedAt e = None \<and> ae_NextAttemptAt e \<le> t) (ad_outbox db)) of
       [] \<Rightarrow> (None, db)
     | e # _ \<Rightarrow>
         let e' = e\<lparr>ae_Attempts := ae_Attempts e + 1, ae_NextAttemptAt := t + (timeout + 10 * Second)\<rparr>
         in (Some e', db\<lparr>ad_outbox := update_where (\<lambda>x. ae_ID x = ae_ID e) (\<lambda>_. e') (ad_outbox db)\<rparr>))"

text \<open>The end of an attempt: the number of rows that changed.\<close>

definition finish_event :: "auth_event \<Rightarrow> bool \<Rightarrow> nat atx" where
  "finish_event e ok = exec_now AStorage (\<lambda>t db.
     let p = (\<lambda>x. ae_ID x = ae_ID e \<and> ae_Attempts x = ae_Attempts e \<and> ae_PublishedAt x = None)
     in (length (filter p (ad_outbox db)),
       db\<lparr>ad_outbox := update_where p (\<lambda>x. x\<lparr>ae_PublishedAt := (if ok then Some t else None), ae_NextAttemptAt := t + retryDelay (ae_Attempts e)\<rparr>) (ad_outbox db)\<rparr>))"

datatype dispatch_error = DStore | DInvalidEvent | DPublish | DClaimLost

text \<open>
  One round of a worker, as a process: other workers and requests may run between its three steps. Its
  steps see the tables and the ids of the messages that the broker has confirmed; the environment of a
  step tells what the database does and whether the broker confirms the message. \<open>publish_event\<close> is the
  round from the lease on, \<open>end_attempt\<close> its end when publishing gave \<open>publishErr\<close>.
\<close>

record worker_env =
  wk_world :: world
  wk_now :: nat
  wk_confirms :: bool

type_synonym worker = "(worker_env, auth_db \<times> string set, bool \<times> dispatch_error option) proc"

definition on_tables :: "'a atx \<Rightarrow> (worker_env, auth_db \<times> string set, auth_error + 'a) proc" where
  "on_tables f = atom (\<lambda>env (db, sent). case f (wk_world env) db (wk_now env) of (r, db', _) \<Rightarrow> ((db', sent), r))"

definition end_attempt :: "auth_event \<Rightarrow> dispatch_error option \<Rightarrow> worker" where
  "end_attempt e publishErr =
     bindP (on_tables (finish_event e (publishErr = None))) (\<lambda>r. case r of
       Inl _ \<Rightarrow> Done (True, Some DStore)
     | Inr rows \<Rightarrow> Done (True, if rows \<noteq> 1 then Some DClaimLost else publishErr))"

definition publish_event :: "(user_payload \<Rightarrow> bool) \<Rightarrow> auth_event \<Rightarrow> worker" where
  "publish_event too_long e = (case MessageFor too_long e of
     None \<Rightarrow> end_attempt e (Some DInvalidEvent)
   | Some m \<Rightarrow>
       bindP (atom (\<lambda>env (db, sent). if wk_confirms env then ((db, insert (am_ID m) sent), None) else ((db, sent), Some DPublish)))
         (end_attempt e))"

definition DispatchOne :: "(user_payload \<Rightarrow> bool) \<Rightarrow> int \<Rightarrow> worker" where
  "DispatchOne too_long timeout =
     bindP (on_tables (claim_event timeout)) (\<lambda>r. case r of
       Inl _ \<Rightarrow> Done (False, Some DStore)
     | Inr None \<Rightarrow> Done (False, None)
     | Inr (Some e) \<Rightarrow> publish_event too_long e)"

end
