(* ===== verification/Auth_Service.thy ===== *)
theory Auth_Service
  imports Auth_Store
begin

text \<open>
  The operations of the auth service (\<open>service/auth_service.go\<close>), access tokens (\<open>auth/token.go\<close>), the
  limits on attempts (\<open>middleware/ratelimit.go\<close>, \<open>middleware/boundaries.go\<close>) and the endpoints
  (\<open>handler/auth_handler.go\<close>).
\<close>

section \<open>Library\<close>

record access_claims =
  ac_Role :: string
  ac_Subject :: string
  ac_IssuedAt :: time
  ac_ExpiresAt :: time

datatype comparison = Matches | Mismatch | NotCompared

text \<open>
  Code outside the repository. \<open>li_hash n p\<close> is \<open>bcrypt.GenerateFromPassword\<close> with the random salt
  drawn as number \<open>n\<close>; \<open>li_compare\<close> is \<open>bcrypt.CompareHashAndPassword\<close>; \<open>li_digest\<close> is SHA-256 of
  the JSON of an email and a name; \<open>li_address\<close> is \<open>mail.ParseAddress\<close> (name and address); \<open>li_lower\<close> is
  \<open>strings.ToLower\<close>; \<open>li_sign\<close> signs claims with the secret, issuer and audience of the service;
  \<open>li_parse raw now\<close> is \<open>jwt.ParseWithClaims\<close> with the options of the service; \<open>li_uuid\<close> is \<open>uuid.Parse\<close>.
\<close>

record auth_lib =
  li_hash :: "nat \<Rightarrow> string \<Rightarrow> string option"
  li_compare :: "string \<Rightarrow> string \<Rightarrow> comparison"
  li_digest :: "string \<times> string \<Rightarrow> string"
  li_address :: "string \<Rightarrow> (string \<times> string) option"
  li_lower :: "string \<Rightarrow> string"
  li_sign :: "access_claims \<Rightarrow> string option"
  li_parse :: "string \<Rightarrow> time \<Rightarrow> access_claims option"
  li_uuid :: "string \<Rightarrow> string option"

record auth_svc =
  sv_lib :: auth_lib
  sv_dummyHash :: string
  sv_ttl :: int

section \<open>Tokens\<close>

definition Issue :: "auth_svc \<Rightarrow> auth_user \<Rightarrow> time \<Rightarrow> auth_error + string" where
  "Issue s u now =
     (if au_ID u = uuid_Nil \<or> \<not> auth_role_Valid (au_Role u) \<or> au_Status u \<noteq> ''ACTIVE'' then Inl AInvalidToken
      else case li_sign (sv_lib s) \<lparr>ac_Role = au_Role u, ac_Subject = au_ID u, ac_IssuedAt = time_Truncate now Second,
          ac_ExpiresAt = time_Truncate (now + sv_ttl s) Second\<rparr> of
        None \<Rightarrow> Inl AStorage
      | Some z \<Rightarrow> Inr z)"

definition token_Parse :: "auth_svc \<Rightarrow> string \<Rightarrow> time \<Rightarrow> auth_error + access_claims" where
  "token_Parse s raw now = (case li_parse (sv_lib s) raw now of
     None \<Rightarrow> Inl AInvalidToken
   | Some c \<Rightarrow>
       if \<not> ac_ExpiresAt c > ac_IssuedAt c then Inl AInvalidToken
       else (case li_uuid (sv_lib s) (ac_Subject c) of
          None \<Rightarrow> Inl AInvalidToken
        | Some i \<Rightarrow> if i = uuid_Nil \<or> \<not> auth_role_Valid (ac_Role c) then Inl AInvalidToken else Inr c))"

definition ExpiresInSeconds :: "auth_svc \<Rightarrow> int" where
  "ExpiresInSeconds s = quot (sv_ttl s) Second"

section \<open>Operations\<close>

definition NormalizeEmail :: "auth_lib \<Rightarrow> string \<Rightarrow> auth_error + string" where
  "NormalizeEmail lib raw =
     (let email = li_lower lib (TrimSpace raw) in
      if email = '''' \<or> length email > 254 then Inl AInvalidInput
      else if li_address lib email \<noteq> Some ('''', email) then Inl AInvalidInput
      else Inr email)"

definition validatePassword :: "string \<Rightarrow> nat \<Rightarrow> bool" where
  "validatePassword password minimum \<longleftrightarrow> \<not> (\<not> ValidString password \<or> RuneCount password < minimum \<or> length password > 72)"

definition verifySignupReplay :: "auth_lib \<Rightarrow> signup_replay \<Rightarrow> string \<Rightarrow> auth_error + auth_user" where
  "verifySignupReplay lib r password = (case li_compare lib (sg_PasswordHash r) password of
     Mismatch \<Rightarrow> Inl AIdemConflict
   | NotCompared \<Rightarrow> Inl AIdemUnavailable
   | Matches \<Rightarrow> Inr ((sg_User r)\<lparr>au_IdempotentReplay := True\<rparr>))"

definition lift_auth :: "auth_error + 'a \<Rightarrow> 'a atx" where
  "lift_auth r = (case r of Inl e \<Rightarrow> throw e | Inr a \<Rightarrow> ret a)"

text \<open>The salt is drawn like a UUID.\<close>

definition generate_hash :: "auth_lib \<Rightarrow> string \<Rightarrow> string atx" where
  "generate_hash lib password = (\<lambda>w s n. case li_hash lib n password of None \<Rightarrow> (Inl AStorage, s, Suc n) | Some h \<Rightarrow> (Inr h, s, Suc n))"

definition new_account :: "string \<Rightarrow> string \<Rightarrow> string \<Rightarrow> string \<Rightarrow> auth_user" where
  "new_account i email name hash = \<lparr>au_ID = i, au_Email = email, au_DisplayName = name, au_PasswordHash = hash, au_Role = ''CUSTOMER'',
     au_Status = ''ACTIVE'', au_CreatedAt = 0, au_UpdatedAt = 0, au_IdempotentReplay = False\<rparr>"

definition registered_event :: "string \<Rightarrow> auth_user \<Rightarrow> auth_event" where
  "registered_event i u = \<lparr>ae_ID = i, ae_EventType = ''user.registered'',
     ae_Payload = \<lparr>up_user_id = au_ID u, up_email = au_Email u, up_display_name = au_DisplayName u, up_role = au_Role u, up_status = au_Status u\<rparr>,
     ae_CreatedAt = 0, ae_PublishedAt = None, ae_Attempts = 0, ae_NextAttemptAt = 0\<rparr>"

record signup_input =
  in_Email :: string
  in_Password :: string
  in_DisplayName :: string

definition name_ok :: "string \<Rightarrow> bool" where
  "name_ok displayName \<longleftrightarrow> \<not> (displayName = '''' \<or> \<not> ValidString displayName \<or> RuneCount displayName > 100)"

text \<open>
  \<open>key\<close> is the idempotency key of the context. The repository is the PostgreSQL one, which supports
  replay and outbox. \<open>signup_create\<close> is the part after the first lookup of the key; it changes the
  tables in one transaction.
\<close>

definition signup_create :: "auth_svc \<Rightarrow> string option \<Rightarrow> string \<Rightarrow> string \<Rightarrow> string \<Rightarrow> auth_user atx" where
  "signup_create s key email displayName password =
     bindT (generate_hash (sv_lib s) password) (\<lambda>hash.
     bindT newUUID (\<lambda>i.
     bindT newUUID (\<lambda>j.
       let u = new_account i email displayName hash; event = registered_event j u in
       case key of
         Some k \<Rightarrow> bindT (CreateSignup u event k (li_digest (sv_lib s) (email, displayName))) (\<lambda>(r, replayed).
           if replayed then lift_auth (verifySignupReplay (sv_lib s) r password) else ret (sg_User r))
       | None \<Rightarrow> CreateWithOutbox u (Some event))))"

definition SignUp :: "auth_svc \<Rightarrow> string option \<Rightarrow> signup_input \<Rightarrow> auth_user atx" where
  "SignUp s key input =
     bindT (lift_auth (NormalizeEmail (sv_lib s) (in_Email input))) (\<lambda>email.
       let displayName = TrimSpace (in_DisplayName input) in
       if \<not> name_ok displayName then throw AInvalidInput
       else if \<not> validatePassword (in_Password input) 8 then throw AInvalidInput
       else case key of
         None \<Rightarrow> signup_create s key email displayName (in_Password input)
       | Some k \<Rightarrow> bindT (LookupSignup k (li_digest (sv_lib s) (email, displayName))) (\<lambda>cached.
           case cached of
             Some r \<Rightarrow> lift_auth (verifySignupReplay (sv_lib s) r (in_Password input))
           | None \<Rightarrow> signup_create s key email displayName (in_Password input)))"

record auth_result =
  re_AccessToken :: string
  re_ExpiresIn :: int
  re_User :: auth_user

text \<open>The login also tells which hashes the password was compared with.\<close>

definition Login :: "auth_svc \<Rightarrow> string \<Rightarrow> string \<Rightarrow> world \<Rightarrow> auth_db \<Rightarrow> nat \<Rightarrow> (auth_error + auth_result) \<times> string list" where
  "Login s rawEmail password w db n =
     (case NormalizeEmail (sv_lib s) rawEmail of
        Inl _ \<Rightarrow> (Inl AInvalidCredentials, [])
      | Inr email \<Rightarrow>
          if \<not> validatePassword password 1 then (Inl AInvalidCredentials, [])
          else case auth_FindByEmail email w db n of
            (Inl e, _, _) \<Rightarrow> if e = AUserNotFound then (Inl AInvalidCredentials, [sv_dummyHash s]) else (Inl AStorage, [])
          | (Inr u, _, n') \<Rightarrow>
              if au_Status u \<noteq> ''ACTIVE'' then (Inl AInvalidCredentials, [sv_dummyHash s])
              else case li_compare (sv_lib s) (au_PasswordHash u) password of
                Mismatch \<Rightarrow> (Inl AInvalidCredentials, [au_PasswordHash u])
              | NotCompared \<Rightarrow> (Inl AStorage, [au_PasswordHash u])
              | Matches \<Rightarrow>
                  (case Issue s u (w_clock w n') of
                     Inl e \<Rightarrow> (Inl e, [au_PasswordHash u])
                   | Inr token \<Rightarrow> (Inr \<lparr>re_AccessToken = token, re_ExpiresIn = ExpiresInSeconds s, re_User = u\<rparr>, [au_PasswordHash u])))"

definition GetCurrentUser :: "string \<Rightarrow> auth_user atx" where
  "GetCurrentUser i = (\<lambda>w s n. case auth_FindByID i w s n of
     (Inl e, s, n) \<Rightarrow> (Inl (if e = AUserNotFound then AUnauthorized else AStorage), s, n)
   | (Inr u, s, n) \<Rightarrow> (if au_Status u \<noteq> ''ACTIVE'' then Inl AUnauthorized else Inr u, s, n))"

section \<open>Limits\<close>

text \<open>Failed logins of an account. The service runs with five failures in fifteen minutes.\<close>

record failure_record =
  fr_count :: int
  fr_expiresAt :: time

type_synonym failures = "string \<rightharpoonup> failure_record"

record failure_limit =
  fl_max :: int
  fl_window :: int
  fl_lower :: "string \<Rightarrow> string"

definition NewRateLimiter :: "(string \<Rightarrow> string) \<Rightarrow> int \<Rightarrow> int \<Rightarrow> failure_limit" where
  "NewRateLimiter lower maxFailures window = \<lparr>fl_max = (if maxFailures \<le> 0 then 5 else maxFailures), fl_window = (if window \<le> 0 then 15 * Minute else window), fl_lower = lower\<rparr>"

definition cleanupExpired :: "time \<Rightarrow> failures \<Rightarrow> failures" where
  "cleanupExpired now m = (\<lambda>k. case m k of Some r \<Rightarrow> if now < fr_expiresAt r then Some r else None | None \<Rightarrow> None)"

definition account_key :: "failure_limit \<Rightarrow> string \<Rightarrow> string" where
  "account_key l account = fl_lower l (TrimSpace account)"

definition IsBlocked :: "failure_limit \<Rightarrow> time \<Rightarrow> string \<Rightarrow> failures \<Rightarrow> int option \<times> failures" where
  "IsBlocked l now account m =
     (let m = cleanupExpired now m; k = account_key l account in
      (if k = '''' then None
       else case m k of
         Some r \<Rightarrow> if fr_count r \<ge> fl_max l \<and> now < fr_expiresAt r then Some (max 1 (quot (fr_expiresAt r - now + Second - 1) Second)) else None
       | None \<Rightarrow> None, m))"

definition RecordFailure :: "failure_limit \<Rightarrow> time \<Rightarrow> string \<Rightarrow> failures \<Rightarrow> failures" where
  "RecordFailure l now account m =
     (let m = cleanupExpired now m; k = account_key l account in
      if k = '''' then m
      else
        let r = (case m k of Some r \<Rightarrow> if now < fr_expiresAt r then r else \<lparr>fr_count = 0, fr_expiresAt = now + fl_window l\<rparr>
              | None \<Rightarrow> \<lparr>fr_count = 0, fr_expiresAt = now + fl_window l\<rparr>)
        in m(k \<mapsto> r\<lparr>fr_count := fr_count r + 1\<rparr>))"

definition limit_Reset :: "failure_limit \<Rightarrow> string \<Rightarrow> failures \<Rightarrow> failures" where
  "limit_Reset l account m = (let k = account_key l account in if k = '''' then m else m(k := None))"

text \<open>Budgets of requests, with a bounded number of keys.\<close>

record rate_window =
  rw_count :: int
  rw_expires :: time

definition budget_allow :: "int \<Rightarrow> nat \<Rightarrow> int \<Rightarrow> time \<Rightarrow> string \<Rightarrow> (string \<times> rate_window) list \<Rightarrow> int option \<times> (string \<times> rate_window) list" where
  "budget_allow limit maxKeys window now key ws =
     (let ws = filter (\<lambda>e. now < rw_expires (snd e)) ws in
      case map_of ws key of
        None \<Rightarrow>
          if length ws \<ge> maxKeys then (Some (quot window Second), ws)
          else if 0 \<ge> limit then (Some (quot (window + Second - 1) Second), ws)
          else (None, (key, \<lparr>rw_count = 1, rw_expires = now + window\<rparr>) # ws)
      | Some e \<Rightarrow>
          if rw_count e \<ge> limit then (Some (quot (rw_expires e - now + Second - 1) Second), ws)
          else (None, (key, e\<lparr>rw_count := rw_count e + 1\<rparr>) # filter (\<lambda>x. fst x \<noteq> key) ws))"

record limiter =
  lm_failures :: failures
  lm_transport :: "(string \<times> rate_window) list"
  lm_accounts :: "(string \<times> rate_window) list"
  lm_work :: nat

definition NewCredentialLimiter :: limiter where
  "NewCredentialLimiter = \<lparr>lm_failures = Map.empty, lm_transport = [], lm_accounts = [], lm_work = 0\<rparr>"

text \<open>Before the body is read: 600 requests of a peer in a minute, 2048 peers.\<close>

definition limiter_Handle :: "time \<Rightarrow> string \<Rightarrow> limiter \<Rightarrow> int option \<times> limiter" where
  "limiter_Handle now peer m = (case budget_allow 600 2048 Minute now peer (lm_transport m) of (r, ws) \<Rightarrow> (r, m\<lparr>lm_transport := ws\<rparr>))"

text \<open>Four slots for credential work, then 20 attempts of an account in a minute, 4096 accounts.\<close>

definition Acquire :: "time \<Rightarrow> string \<Rightarrow> limiter \<Rightarrow> int option \<times> limiter" where
  "Acquire now email m =
     (if lm_work m \<ge> 4 then (Some 1, m)
      else case budget_allow 20 4096 Minute now email (lm_accounts m) of
        (Some retry, ws) \<Rightarrow> (Some retry, m\<lparr>lm_accounts := ws\<rparr>)
      | (None, ws) \<Rightarrow> (None, m\<lparr>lm_accounts := ws, lm_work := lm_work m + 1\<rparr>))"

definition release :: "limiter \<Rightarrow> limiter" where
  "release m = m\<lparr>lm_work := lm_work m - 1\<rparr>"

section \<open>Endpoints\<close>

text \<open>
  A decoded credential body: a flat object of exactly the required keys, each once, with string
  values. \<open>tokens\<close> are the members of the object as \<open>json.Decoder\<close> yields them, a value being \<open>None\<close>
  when it is not a string.
\<close>

fun decode_fields :: "string list \<Rightarrow> (string \<times> string option) list \<Rightarrow> (string \<rightharpoonup> string) \<Rightarrow> (string \<rightharpoonup> string) option" where
  "decode_fields allowed [] fs = Some fs"
| "decode_fields allowed ((key, v) # rest) fs =
     (if key \<notin> set allowed then None
      else if fs key \<noteq> None then None
      else case v of None \<Rightarrow> None | Some z \<Rightarrow> decode_fields allowed rest (fs(key \<mapsto> z)))"

definition decodeCredentials :: "string list \<Rightarrow> (string \<times> string option) list option \<Rightarrow> (string \<rightharpoonup> string) option" where
  "decodeCredentials required members = (case members of
     None \<Rightarrow> None
   | Some ms \<Rightarrow> (case decode_fields required ms Map.empty of
        None \<Rightarrow> None
      | Some fs \<Rightarrow> if length ms \<noteq> length required then None else Some fs))"

definition field :: "(string \<rightharpoonup> string) \<Rightarrow> string \<Rightarrow> string" where
  "field fs k = (case fs k of None \<Rightarrow> '''' | Some z \<Rightarrow> z)"

datatype auth_answer = Answer nat string | Retry int | Created auth_user | LoggedIn auth_result | Current auth_user

definition handleServiceError :: "auth_error \<Rightarrow> auth_answer" where
  "handleServiceError e = (case e of
     AIdemConflict \<Rightarrow> Answer 409 ''IDEMPOTENCY_CONFLICT''
   | AIdemUnavailable \<Rightarrow> Answer 503 ''IDEMPOTENCY_UNAVAILABLE''
   | AInvalidInput \<Rightarrow> Answer 400 ''INVALID_INPUT''
   | AEmailExists \<Rightarrow> Answer 409 ''EMAIL_ALREADY_EXISTS''
   | _ \<Rightarrow> Answer 500 ''INTERNAL_ERROR'')"

text \<open>A request for credential work is admitted, or answered at once.\<close>

definition admit :: "failure_limit \<Rightarrow> time \<Rightarrow> string \<Rightarrow> limiter \<Rightarrow> auth_answer option \<times> limiter" where
  "admit l now email m =
     (case IsBlocked l now email (lm_failures m) of
        (Some retry, fs) \<Rightarrow> (Some (Retry retry), m\<lparr>lm_failures := fs\<rparr>)
      | (None, fs) \<Rightarrow>
          (case Acquire now email (m\<lparr>lm_failures := fs\<rparr>) of
             (Some retry, m) \<Rightarrow> (Some (Retry retry), m)
           | (None, m) \<Rightarrow> (None, m)))"

text \<open>The end of a login: the limiter and the answer.\<close>

definition login_end :: "failure_limit \<Rightarrow> time \<Rightarrow> string \<Rightarrow> auth_error + auth_result \<Rightarrow> limiter \<Rightarrow> auth_answer \<times> limiter" where
  "login_end l now email r m = (case r of
     Inl e \<Rightarrow>
       if e = AInvalidCredentials then (Answer 401 ''INVALID_CREDENTIALS'', release (m\<lparr>lm_failures := RecordFailure l now email (lm_failures m)\<rparr>))
       else (handleServiceError e, release m)
   | Inr res \<Rightarrow> (LoggedIn res, release (m\<lparr>lm_failures := limit_Reset l email (lm_failures m)\<rparr>)))"

text \<open>\<open>keys\<close> are the values of the Idempotency-Key headers.\<close>

definition bindSignupKey :: "auth_lib \<Rightarrow> string list \<Rightarrow> string option option" where
  "bindSignupKey lib keys =
     (if keys = [] then Some None
      else if length keys \<noteq> 1 then None
      else case li_uuid lib (TrimSpace (hd keys)) of
        None \<Rightarrow> None
      | Some k \<Rightarrow> if k = uuid_Nil then None else Some (Some k))"

definition signup_end :: "failure_limit \<Rightarrow> string \<Rightarrow> auth_error + auth_user \<Rightarrow> limiter \<Rightarrow> auth_answer \<times> limiter" where
  "signup_end l email r m = (case r of
     Inl e \<Rightarrow> (handleServiceError e, release m)
   | Inr u \<Rightarrow> (Created u, release (if au_IdempotentReplay u then m else m\<lparr>lm_failures := limit_Reset l email (lm_failures m)\<rparr>)))"

text \<open>The whole endpoints, without requests of others in between; \<open>body\<close> holds the members of the object.\<close>

definition Login_handler :: "auth_svc \<Rightarrow> failure_limit \<Rightarrow> (string \<times> string option) list option \<Rightarrow> world \<Rightarrow> auth_db \<Rightarrow> nat \<Rightarrow> limiter \<Rightarrow> auth_answer \<times> limiter" where
  "Login_handler s l body w db n m = (case decodeCredentials [''email'', ''password''] body of
     None \<Rightarrow> (Answer 400 ''INVALID_REQUEST'', m)
   | Some fs \<Rightarrow>
       (case NormalizeEmail (sv_lib s) (field fs ''email'') of
          Inl _ \<Rightarrow> (Answer 401 ''INVALID_CREDENTIALS'', m)
        | Inr email \<Rightarrow>
            (case admit l (w_clock w n) email m of
               (Some answer, m) \<Rightarrow> (answer, m)
             | (None, m) \<Rightarrow> login_end l (w_clock w (n + 2)) email (fst (Login s email (field fs ''password'') w db (Suc n))) m)))"

definition SignUp_handler :: "auth_svc \<Rightarrow> failure_limit \<Rightarrow> (string \<times> string option) list option \<Rightarrow> string list \<Rightarrow> world \<Rightarrow> auth_db \<Rightarrow> nat \<Rightarrow> limiter \<Rightarrow>
    auth_answer \<times> limiter \<times> auth_db" where
  "SignUp_handler s l body keys w db n m = (case decodeCredentials [''email'', ''password'', ''display_name''] body of
     None \<Rightarrow> (Answer 400 ''INVALID_REQUEST'', m, db)
   | Some fs \<Rightarrow>
       (case NormalizeEmail (sv_lib s) (field fs ''email'') of
          Inl e \<Rightarrow> (handleServiceError e, m, db)
        | Inr email \<Rightarrow>
            (case admit l (w_clock w n) email m of
               (Some answer, m) \<Rightarrow> (answer, m, db)
             | (None, m) \<Rightarrow>
                 (case bindSignupKey (sv_lib s) keys of
                    None \<Rightarrow> (Answer 400 ''INVALID_IDEMPOTENCY_KEY'', release m, db)
                  | Some key \<Rightarrow>
                      (case SignUp s key \<lparr>in_Email = email, in_Password = field fs ''password'', in_DisplayName = field fs ''display_name''\<rparr> w db (Suc n) of
                         (r, db, _) \<Rightarrow> (case signup_end l email r m of (answer, m) \<Rightarrow> (answer, m, db)))))))"

definition Me_handler :: "auth_lib \<Rightarrow> string \<Rightarrow> world \<Rightarrow> auth_db \<Rightarrow> nat \<Rightarrow> auth_answer" where
  "Me_handler lib rawID w db n = (case li_uuid lib rawID of
     None \<Rightarrow> Answer 401 ''UNAUTHORIZED''
   | Some i \<Rightarrow> (case GetCurrentUser i w db n of
        (Inl e, _, _) \<Rightarrow> if e = AUnauthorized then Answer 401 ''UNAUTHORIZED'' else handleServiceError e
      | (Inr u, _, _) \<Rightarrow> Current u))"

end
