(* ===== verification/Auth_Laws.thy ===== *)
theory Auth_Laws
  imports Auth_Service
begin

text \<open>
  How the tables of the auth service evolve: what a signup does to them, the invariant of accounts,
  events and receipts, and the runs of signups, workers and clean-ups in any order.
\<close>

section \<open>One signup\<close>

text \<open>The tables after an account was written.\<close>

definition with_account :: "time \<Rightarrow> time \<Rightarrow> auth_user \<Rightarrow> auth_event \<Rightarrow> auth_db \<Rightarrow> auth_db" where
  "with_account now t u e db = db\<lparr>ad_users := ad_users db @ [u\<lparr>au_CreatedAt := now, au_UpdatedAt := now\<rparr>],
     ad_outbox := ad_outbox db @ [e\<lparr>ae_CreatedAt := now, ae_PublishedAt := None, ae_Attempts := 0, ae_NextAttemptAt := t\<rparr>]\<rparr>"

definition fresh_account :: "auth_user \<Rightarrow> auth_event \<Rightarrow> auth_db \<Rightarrow> bool" where
  "fresh_account u e db \<longleftrightarrow> au_Email u \<notin> au_Email ` set (ad_users db) \<and> au_ID u \<notin> au_ID ` set (ad_users db) \<and> ae_ID e \<notin> ae_ID ` set (ad_outbox db)"

lemma insert_wp:
  assumes "ae_ID e \<noteq> uuid_Nil"
    and "\<And>t k. fresh_account u e db \<Longrightarrow> t = w_clock w k \<Longrightarrow> Q (u\<lparr>au_CreatedAt := now, au_UpdatedAt := now\<rparr>) (with_account now t u e db) (Suc k)"
    and "\<And>db' k. E AEmailExists db' k" "\<And>db' k. E AStorage db' k"
  shows "wp (insertUserAndOutbox now u (Some e)) Q E w db n"
proof -
  have outbox: "wp (insert_auth_event now e) Q' E w db' k \<longleftrightarrow>
    (if w_fails w k \<or> ae_ID e \<in> ae_ID ` set (ad_outbox db') then E AStorage db' (Suc k)
     else Q' () (db'\<lparr>ad_outbox := ad_outbox db' @ [e\<lparr>ae_CreatedAt := now, ae_PublishedAt := None, ae_Attempts := 0, ae_NextAttemptAt := w_clock w k\<rparr>]\<rparr>) (Suc k))" for Q' db' k
    by (simp add: insert_auth_event_def wp_def stmt_def)
  show ?thesis
    using assms by (auto simp: insertUserAndOutbox_def insert_user_def wp_rules outbox Let_def fresh_account_def with_account_def)
qed

text \<open>A signup without a key either leaves the tables as they are or adds an account with its event.\<close>

lemma CreateWithOutbox_state:
  assumes "ae_ID e \<noteq> uuid_Nil"
  shows "state_of (CreateWithOutbox u (Some e) w db n) = db \<or>
    (\<exists>i j. fresh_account u e db \<and> state_of (CreateWithOutbox u (Some e) w db n) = with_account (w_clock w i) (w_clock w j) u e db)"
proof -
  let ?P = "\<lambda>s. s = db \<or> (\<exists>i j. fresh_account u e db \<and> s = with_account (w_clock w i) (w_clock w j) u e db)"
  have "wp (CreateWithOutbox u (Some e)) (\<lambda>_ s _. ?P s) (\<lambda>_ s _. ?P s) w db n"
    unfolding CreateWithOutbox_def by (rule wpi_atomically) (auto simp: wp_rules intro!: insert_wp [OF assms])
  then show ?thesis by (simp add: wp_state)
qed

text \<open>The tables with a new receipt.\<close>

definition with_receipt :: "string \<Rightarrow> string \<Rightarrow> time \<Rightarrow> time \<Rightarrow> time \<Rightarrow> auth_user \<Rightarrow> auth_db \<Rightarrow> auth_db" where
  "with_receipt key fp t t' now u db = db\<lparr>ad_receipts := receipts_left key t (ad_receipts db) @ [\<lparr>rc_Key = key, rc_RequestHash = fp,
     rc_PasswordHash = au_PasswordHash u, rc_Response = Some (response_of (u\<lparr>au_CreatedAt := now, au_UpdatedAt := now\<rparr>)), rc_ExpiresAt = t' + 24 * Hour\<rparr>]\<rparr>"

lemma update_new_receipt:
  assumes "k \<notin> rc_Key ` set rs" "rc_Key r = k"
  shows "update_where (\<lambda>r. rc_Key r = k) g (rs @ [r]) = rs @ [g r]"
  using assms by (induction rs) auto

lemma finish_signup_wp:
  assumes "ae_ID e \<noteq> uuid_Nil" "key \<notin> rc_Key ` set (receipts_left key t (ad_receipts db))"
    and r: "r = \<lparr>rc_Key = key, rc_RequestHash = fp, rc_PasswordHash = au_PasswordHash u, rc_Response = None, rc_ExpiresAt = t' + 24 * Hour\<rparr>"
    and ok: "\<And>l k. fresh_account u e db \<Longrightarrow>
      Q (\<lparr>sg_User = u\<lparr>au_CreatedAt := now, au_UpdatedAt := now\<rparr>, sg_PasswordHash = au_PasswordHash u\<rparr>, False)
        (with_receipt key fp t t' now u (with_account now (w_clock w l) u e db)) k"
    and errs: "\<And>err db' k. err \<in> {AIdemUnavailable, AEmailExists, AStorage} \<Longrightarrow> E err db' k"
  shows "wp (complete_signup now u e key)
    (\<lambda>c s' k. case c of Commit x \<Rightarrow> Q x s' k | Discard x \<Rightarrow> D x s' k) E w (db\<lparr>ad_receipts := receipts_left key t (ad_receipts db) @ [r]\<rparr>) n"
proof -
  have *: "rc_Key r = key" using r by simp
  have "fresh_account u e (db\<lparr>ad_receipts := rs\<rparr>) = fresh_account u e db" for rs by (simp add: fresh_account_def)
  then show ?thesis
    unfolding complete_signup_def wp_bindT using ok errs update_new_receipt [OF assms(2) *]
    by (intro insert_wp [OF assms(1)]) (simp_all add: wp_rules with_account_def with_receipt_def r)
qed

text \<open>
  The outcomes of a signup with a key: it took effect, perhaps with a lost answer; it is answered from
  the receipt; or it fails. In the last two cases the tables are as before.
\<close>

lemma CreateSignup_wp:
  assumes "ae_ID e \<noteq> uuid_Nil"
    and new: "\<And>i j k l n' db'. key \<notin> rc_Key ` set (receipts_left key (w_clock w j) (ad_receipts db)) \<Longrightarrow> fresh_account u e db \<Longrightarrow>
      db' = with_receipt key fp (w_clock w j) (w_clock w k) (w_clock w i) u (with_account (w_clock w i) (w_clock w l) u e db) \<Longrightarrow>
      Q (\<lparr>sg_User = u\<lparr>au_CreatedAt := w_clock w i, au_UpdatedAt := w_clock w i\<rparr>, sg_PasswordHash = au_PasswordHash u\<rparr>, False) db' n' \<and> E AIdemUnavailable db' n'"
    and old: "\<And>j r n'. r \<in> set (receipts_left key (w_clock w j) (ad_receipts db)) \<Longrightarrow> rc_Key r = key \<Longrightarrow>
      (case scanSignup r fp of Inl err \<Rightarrow> E err db n' | Inr x \<Rightarrow> Q (x, True) db n')"
    and errs: "\<And>err n'. err \<in> {AIdemUnavailable, AEmailExists, AStorage} \<Longrightarrow> E err db n'"
  shows "wp (CreateSignup u e key fp) Q E w db n"
  unfolding CreateSignup_def
proof (rule wpi_atomically)
  show "E AIdemUnavailable db k" for k using errs by simp
  let ?left = "receipts_left key (w_clock w (Suc (Suc n))) (ad_receipts db)"
  have replay: "case find (\<lambda>r. rc_Key r = key) ?left of None \<Rightarrow> \<forall>k. E AIdemUnavailable db k
      | Some r \<Rightarrow> (case scanSignup r fp of Inl err \<Rightarrow> \<forall>k. E err db k | Inr x \<Rightarrow> \<forall>k. Q (x, True) db k)"
    using old errs by (auto split: option.split sum.split dest!: find_SomeD) (metis sum.simps(5,6))+
  let ?Q = "\<lambda>c s' _. case c of Commit a \<Rightarrow> \<forall>k. Q a s' k \<and> E AIdemUnavailable s' k | Discard a \<Rightarrow> \<forall>k. Q a db k" and ?E = "\<lambda>err _ _. \<forall>k. E err db k"
  show "wp (bindT time_Now (\<lambda>now.
       bindT (exec_now AIdemUnavailable (\<lambda>t db. ((), db\<lparr>ad_receipts := receipts_left key t (ad_receipts db)\<rparr>))) (\<lambda>_.
       bindT (insert_receipt key fp (au_PasswordHash u)) (\<lambda>inserted.
         if \<not> inserted
         then bindT (query AIdemUnavailable (\<lambda>db. find (\<lambda>r. rc_Key r = key) (ad_receipts db))) (\<lambda>row.
             case row of
               None \<Rightarrow> throw AIdemUnavailable
             | Some r \<Rightarrow> (case scanSignup r fp of Inl e \<Rightarrow> throw e | Inr x \<Rightarrow> ret (Discard (x, True))))
         else complete_signup now u e key)))) ?Q ?E w db (Suc n)"
  proof (cases "key \<in> rc_Key ` set ?left")
    case True
    then show ?thesis using errs replay by (auto simp: wp_rules insert_receipt_def split: option.splits sum.splits)
  next
    case False
    have "wp (complete_signup (w_clock w (Suc n)) u e key) ?Q ?E w (db\<lparr>ad_receipts := ?left @ [\<lparr>rc_Key = key, rc_RequestHash = fp, rc_PasswordHash = au_PasswordHash u,
        rc_Response = None, rc_ExpiresAt = w_clock w (Suc (Suc (Suc n))) + 24 * Hour\<rparr>]\<rparr>) k" for k
      by (rule finish_signup_wp [OF assms(1) False refl]) (use new [OF False _ refl] errs in auto)
    then show ?thesis using errs False by (auto simp: wp_bindT wp_time_Now wp_exec_now insert_receipt_def)
  qed
qed

text \<open>What a signup that took effect did.\<close>

definition world_ok :: "time \<Rightarrow> time \<Rightarrow> world \<Rightarrow> bool" where
  "world_ok t0 T w \<longleftrightarrow> (\<forall>n. w_uuid w n \<noteq> uuid_Nil \<and> 0 < w_clock w n \<and> t0 \<le> w_clock w n \<and> w_clock w n \<le> T)"

definition signed_up :: "auth_lib \<Rightarrow> time \<Rightarrow> time \<Rightarrow> string option \<Rightarrow> string \<Rightarrow> string \<Rightarrow> string \<Rightarrow> auth_user \<Rightarrow> auth_db \<Rightarrow> auth_db \<Rightarrow> bool" where
  "signed_up lib t0 T key email name password u db db' \<longleftrightarrow>
     (\<exists>m h i j now t t1 t2. li_hash lib m password = Some h \<and> i \<noteq> uuid_Nil \<and> j \<noteq> uuid_Nil \<and> 0 < now \<and> t0 \<le> t2 \<and> t1 \<le> T \<and> t \<le> T \<and>
       (let v = new_account i email name h; e = registered_event j v; fp = li_digest lib (email, name) in
        u = v\<lparr>au_CreatedAt := now, au_UpdatedAt := now\<rparr> \<and> fresh_account v e db \<and>
        (case key of
           None \<Rightarrow> db' = with_account now t v e db
         | Some k \<Rightarrow> k \<notin> rc_Key ` set (receipts_left k t1 (ad_receipts db)) \<and> db' = with_receipt k fp t1 t2 now v (with_account now t v e db))))"

lemma signed_upI:
  assumes "li_hash lib m password = Some h" "i \<noteq> uuid_Nil" "j \<noteq> uuid_Nil" "0 < now" "t0 \<le> t2" "t1 \<le> T" "t \<le> T" "v = new_account i email name h" "e = registered_event j v"
    "fresh_account v e db"
    "case key of None \<Rightarrow> db' = with_account now t v e db
     | Some k \<Rightarrow> k \<notin> rc_Key ` set (receipts_left k t1 (ad_receipts db)) \<and> db' = with_receipt k (li_digest lib (email, name)) t1 t2 now v (with_account now t v e db)"
  shows "signed_up lib t0 T key email name password (v\<lparr>au_CreatedAt := now, au_UpdatedAt := now\<rparr>) db db'"
  using assms unfolding signed_up_def Let_def by blast

lemma wp_lift_auth [wp_rules]: "wp (lift_auth r) Q E w s n = (case r of Inl e \<Rightarrow> E e s n | Inr a \<Rightarrow> Q a s n)"
  by (simp add: lift_auth_def wp_rules split: sum.split)

lemma create_signup_effect:
  assumes "world_ok t0 T w" "li_hash lib m password = Some h" "i \<noteq> uuid_Nil" "j \<noteq> uuid_Nil" "v = new_account i email name h" "e = registered_event j v"
  shows "wp (CreateSignup v e k (li_digest lib (email, name))) (\<lambda>r s _. case r of
      (x, True) \<Rightarrow> s = db \<and> (\<exists>j rc. rc \<in> set (receipts_left k (w_clock w j) (ad_receipts db)) \<and> rc_Key rc = k \<and> scanSignup rc (li_digest lib (email, name)) = Inr x)
    | (x, False) \<Rightarrow> sg_PasswordHash x = h \<and> signed_up lib t0 T (Some k) email name password (sg_User x) db s)
    (\<lambda>_ s _. s = db \<or> (\<exists>u. signed_up lib t0 T (Some k) email name password u db s)) w db n"
proof (rule CreateSignup_wp)
  show "ae_ID e \<noteq> uuid_Nil" using assms(4,6) by (simp add: registered_event_def)
  fix i' j' k' l n' db'
  assume "k \<notin> rc_Key ` set (receipts_left k (w_clock w j') (ad_receipts db))" "fresh_account v e db"
    "db' = with_receipt k (li_digest lib (email, name)) (w_clock w j') (w_clock w k') (w_clock w i') v (with_account (w_clock w i') (w_clock w l) v e db)"
  then have "signed_up lib t0 T (Some k) email name password (v\<lparr>au_CreatedAt := w_clock w i', au_UpdatedAt := w_clock w i'\<rparr>) db db'"
    using assms by (intro signed_upI [where m = m and h = h and i = i and j = j and e = e and t = "w_clock w l" and ?t1.0 = "w_clock w j'" and ?t2.0 = "w_clock w k'"])
      (auto simp: world_ok_def)
  then show "(case (\<lparr>sg_User = v\<lparr>au_CreatedAt := w_clock w i', au_UpdatedAt := w_clock w i'\<rparr>, sg_PasswordHash = au_PasswordHash v\<rparr>, False) of
      (x, True) \<Rightarrow> db' = db \<and> (\<exists>j rc. rc \<in> set (receipts_left k (w_clock w j) (ad_receipts db)) \<and> rc_Key rc = k \<and> scanSignup rc (li_digest lib (email, name)) = Inr x)
    | (x, False) \<Rightarrow> sg_PasswordHash x = h \<and> signed_up lib t0 T (Some k) email name password (sg_User x) db db') \<and>
    (db' = db \<or> (\<exists>u. signed_up lib t0 T (Some k) email name password u db db'))"
    using assms(5) by (auto simp: new_account_def)
qed (auto split: sum.split)

text \<open>A signup leaves the tables as they are or takes effect.\<close>

lemma signup_create_state:
  assumes "world_ok t0 T w"
  shows "state_of (signup_create s key email name password w db n) = db \<or>
    (\<exists>u. signed_up (sv_lib s) t0 T key email name password u db (state_of (signup_create s key email name password w db n)))"
proof (cases "li_hash (sv_lib s) n password")
  case None
  then show ?thesis by (simp add: signup_create_def bindT_def generate_hash_def)
next
  case (Some h)
  let ?v = "new_account (w_uuid w (Suc n)) email name h"
  let ?e = "registered_event (w_uuid w (Suc (Suc n))) ?v" and ?n = "Suc (Suc (Suc n))" and ?fp = "li_digest (sv_lib s) (email, name)"
  have ids: "w_uuid w (Suc n) \<noteq> uuid_Nil" "w_uuid w (Suc (Suc n)) \<noteq> uuid_Nil" using assms by (simp_all add: world_ok_def)
  have run: "signup_create s key email name password w db n = (case key of
      Some k \<Rightarrow> bindT (CreateSignup ?v ?e k ?fp) (\<lambda>(r, replayed). if replayed then lift_auth (verifySignupReplay (sv_lib s) r password) else ret (sg_User r)) w db ?n
    | None \<Rightarrow> CreateWithOutbox ?v (Some ?e) w db ?n)"
    using Some by (simp add: signup_create_def bindT_def generate_hash_def newUUID_def Let_def split: option.split)
  show ?thesis
  proof (cases key)
    case None
    have "ae_ID ?e \<noteq> uuid_Nil" using ids by (simp add: registered_event_def)
    from CreateWithOutbox_state [OF this, of ?v w db ?n] show ?thesis
    proof (elim disjE exE conjE)
      fix i j
      assume "fresh_account ?v ?e db" "state_of (CreateWithOutbox ?v (Some ?e) w db ?n) = with_account (w_clock w i) (w_clock w j) ?v ?e db"
      then have "signed_up (sv_lib s) t0 T key email name password (?v\<lparr>au_CreatedAt := w_clock w i, au_UpdatedAt := w_clock w i\<rparr>) db (state_of (CreateWithOutbox ?v (Some ?e) w db ?n))"
        using Some ids assms None by (intro signed_upI [where m = n and i = "w_uuid w (Suc n)" and j = "w_uuid w (Suc (Suc n))" and e = ?e and t = "w_clock w j" and ?t1.0 = T and ?t2.0 = t0])
          (auto simp: world_ok_def)
      then show ?thesis using run None by auto
    qed (use run None in simp)
  next
    case (Some k)
    let ?P = "\<lambda>d. d = db \<or> (\<exists>u. signed_up (sv_lib s) t0 T (Some k) email name password u db d)"
    have "wp (bindT (CreateSignup ?v ?e k ?fp) (\<lambda>(r, replayed). if replayed then lift_auth (verifySignupReplay (sv_lib s) r password) else ret (sg_User r)))
      (\<lambda>_ d _. ?P d) (\<lambda>_ d _. ?P d) w db ?n"
      unfolding wp_bindT
      by (rule wp_mono [OF create_signup_effect [OF assms \<open>li_hash (sv_lib s) n password = Some h\<close> ids refl refl, where k = k and db = db]])
        (auto simp: wp_rules split: bool.splits if_splits sum.split)
    then show ?thesis using run Some by (simp add: wp_state)
  qed
qed

section \<open>The invariant\<close>

text \<open>An account as signup creates it, its event, and the receipt of a signup.\<close>

definition account_ok :: "auth_lib \<Rightarrow> auth_user \<Rightarrow> bool" where
  "account_ok lib u \<longleftrightarrow> au_ID u \<noteq> uuid_Nil \<and> au_Role u = ''CUSTOMER'' \<and> au_Status u = ''ACTIVE'' \<and> 0 < au_CreatedAt u \<and> name_ok (au_DisplayName u) \<and>
     (\<exists>raw. NormalizeEmail lib raw = Inr (au_Email u)) \<and> (\<exists>m p. li_hash lib m p = Some (au_PasswordHash u) \<and> validatePassword p 8)"

definition announces :: "auth_user \<Rightarrow> auth_event \<Rightarrow> bool" where
  "announces u e \<longleftrightarrow> ae_EventType e = ''user.registered'' \<and> ae_ID e \<noteq> uuid_Nil \<and> ae_CreatedAt e = au_CreatedAt u \<and> up_user_id (ae_Payload e) = au_ID u \<and>
     up_role (ae_Payload e) = au_Role u \<and> up_status (ae_Payload e) = au_Status u"

definition receipt_of :: "auth_lib \<Rightarrow> auth_user \<Rightarrow> receipt \<Rightarrow> bool" where
  "receipt_of lib u r \<longleftrightarrow> rc_RequestHash r = li_digest lib (au_Email u, au_DisplayName u) \<and> rc_PasswordHash r = au_PasswordHash u \<and> rc_Response r = Some (response_of u)"

text \<open>Accounts and events correspond one to one, in the order of their creation.\<close>

definition auth_inv :: "auth_lib \<Rightarrow> auth_db \<Rightarrow> bool" where
  "auth_inv lib db \<longleftrightarrow> distinct (map au_Email (ad_users db)) \<and> distinct (map au_ID (ad_users db)) \<and> distinct (map ae_ID (ad_outbox db)) \<and>
     distinct (map rc_Key (ad_receipts db)) \<and> list_all (account_ok lib) (ad_users db) \<and> list_all2 announces (ad_users db) (ad_outbox db) \<and>
     (\<forall>r\<in>set (ad_receipts db). \<exists>u\<in>set (ad_users db). receipt_of lib u r)"

definition no_accounts :: auth_db where
  "no_accounts = \<lparr>ad_users = [], ad_outbox = [], ad_receipts = []\<rparr>"

lemma no_accounts_inv: "auth_inv lib no_accounts"
  by (simp add: auth_inv_def no_accounts_def)

lemma account_added:
  assumes "auth_inv lib db" "fresh_account v e db" "account_ok lib u" "u = v\<lparr>au_CreatedAt := now, au_UpdatedAt := now\<rparr>" "e = registered_event j v" "j \<noteq> uuid_Nil"
  shows "auth_inv lib (with_account now t v e db)"
proof -
  have "announces u (e\<lparr>ae_CreatedAt := now, ae_PublishedAt := None, ae_Attempts := 0, ae_NextAttemptAt := t\<rparr>)"
    using assms(4-6) by (simp add: announces_def registered_event_def)
  then show ?thesis using assms by (auto simp: auth_inv_def with_account_def fresh_account_def list_all2_appendI)
qed

lemma set_receipts_left: "set (receipts_left k t rs) = {r \<in> set rs. \<not> (rc_Key r = k \<and> rc_ExpiresAt r \<le> t)}"
  by (auto simp: receipts_left_def)

lemma distinct_receipts_left: "distinct (map rc_Key rs) \<Longrightarrow> distinct (map rc_Key (receipts_left k t rs))"
  by (simp add: receipts_left_def distinct_map_filter)

lemma signed_up_inv:
  assumes "auth_inv lib db" "signed_up lib t0 T key email name password u db db'" "NormalizeEmail lib raw = Inr email" "name_ok name" "validatePassword password 8"
  shows "auth_inv lib db' \<and> u \<in> set (ad_users db') \<and> au_Email u = email \<and> au_DisplayName u = name \<and>
    (\<forall>k. key = Some k \<longrightarrow> (\<exists>r\<in>set (ad_receipts db'). rc_Key r = k \<and> receipt_of lib u r \<and> t0 + 24 * Hour \<le> rc_ExpiresAt r))"
proof -
  obtain m h i j now t t1 t2 v e where sg: "li_hash lib m password = Some h" "i \<noteq> uuid_Nil" "j \<noteq> uuid_Nil" "0 < now" "t0 \<le> t2"
    and v: "v = new_account i email name h" and e: "e = registered_event j v" and u: "u = v\<lparr>au_CreatedAt := now, au_UpdatedAt := now\<rparr>" and fresh: "fresh_account v e db"
    and db': "case key of None \<Rightarrow> db' = with_account now t v e db
       | Some k \<Rightarrow> k \<notin> rc_Key ` set (receipts_left k t1 (ad_receipts db)) \<and> db' = with_receipt k (li_digest lib (email, name)) t1 t2 now v (with_account now t v e db)"
    using assms(2) unfolding signed_up_def Let_def by blast
  have ok: "account_ok lib u" using assms(3-5) sg by (auto simp: account_ok_def u v new_account_def)
  have inv: "auth_inv lib (with_account now t v e db)" by (rule account_added [OF assms(1) fresh ok u e sg(3)])
  show ?thesis
  proof (cases key)
    case None
    then show ?thesis using db' inv u by (auto simp: with_account_def v new_account_def)
  next
    case (Some k)
    let ?r = "\<lparr>rc_Key = k, rc_RequestHash = li_digest lib (email, name), rc_PasswordHash = au_PasswordHash v, rc_Response = Some (response_of u), rc_ExpiresAt = t2 + 24 * Hour\<rparr>"
    have r: "receipt_of lib u ?r" by (simp add: receipt_of_def u v new_account_def)
    have mem: "u \<in> set (ad_users (with_account now t v e db))" by (simp add: with_account_def u)
    have same: "ad_receipts (with_account now t v e db) = ad_receipts db" by (simp add: with_account_def)
    have "distinct (map rc_Key (receipts_left k t1 (ad_receipts db) @ [?r]))"
      using db' Some assms(1) by (simp add: auth_inv_def distinct_receipts_left)
    moreover have "\<exists>u'\<in>set (ad_users (with_account now t v e db)). receipt_of lib u' x" if "x \<in> set (receipts_left k t1 (ad_receipts db) @ [?r])" for x
      using that inv r mem same by (auto simp: auth_inv_def set_receipts_left)
    ultimately show ?thesis
      using db' Some inv mem r u same sg(5) by (auto simp: auth_inv_def with_receipt_def v new_account_def)
  qed
qed

section \<open>Runs\<close>

text \<open>Clean-ups and workers.\<close>

lemma exec_now_state: "state_of (exec_now err f w db n) = (if w_fails w n then db else snd (f (w_clock w n) db))"
  by (simp add: exec_now_def split: prod.split)

lemma cleanup_state:
  "\<exists>gone. set gone \<subseteq> {r \<in> set (ad_receipts db). rc_ExpiresAt r \<le> w_clock w n} \<and>
    state_of (CleanupSignupReceipts w db n) = db\<lparr>ad_receipts := filter (\<lambda>r. rc_Key r \<notin> rc_Key ` set gone) (ad_receipts db)\<rparr>"
proof (cases "w_fails w n")
  case True
  then show ?thesis by (intro exI [of _ "[]"]) (simp add: CleanupSignupReceipts_def exec_now_state)
next
  case False
  let ?gone = "take 1000 (sort_key (\<lambda>r. (rc_ExpiresAt r, rc_Key r)) (filter (\<lambda>r. rc_ExpiresAt r \<le> w_clock w n) (ad_receipts db)))"
  have "set ?gone \<subseteq> {r \<in> set (ad_receipts db). rc_ExpiresAt r \<le> w_clock w n}" by (auto dest!: in_set_takeD)
  with False show ?thesis by (intro exI [of _ ?gone]) (simp add: CleanupSignupReceipts_def exec_now_state Let_def)
qed

text \<open>A worker changes only the delivery fields of events.\<close>

definition redelivered :: "auth_event \<Rightarrow> auth_event \<Rightarrow> bool" where
  "redelivered e e' \<longleftrightarrow> (\<exists>p a t. e' = e\<lparr>ae_PublishedAt := p, ae_Attempts := a, ae_NextAttemptAt := t\<rparr>)"

lemma redelivered_refl: "redelivered e e"
  unfolding redelivered_def by (intro exI [of _ "ae_PublishedAt e"] exI [of _ "ae_Attempts e"] exI [of _ "ae_NextAttemptAt e"]) simp

definition redelivers :: "auth_db \<Rightarrow> auth_db \<Rightarrow> bool" where
  "redelivers db db' \<longleftrightarrow> ad_users db' = ad_users db \<and> ad_receipts db' = ad_receipts db \<and> list_all2 redelivered (ad_outbox db) (ad_outbox db')"

lemma redelivers_inv:
  assumes "redelivers db db'" "auth_inv lib db"
  shows "auth_inv lib db'"
proof -
  have "map ae_ID (ad_outbox db') = map ae_ID (ad_outbox db)"
    by (rule list_all2_map_eq [where R = redelivered]) (use assms(1) in \<open>auto simp: redelivers_def redelivered_def\<close>)
  moreover have "list_all2 announces (ad_users db) (ad_outbox db')"
    by (rule list_all2_trans [where ?P1.0 = announces and ?P2.0 = redelivered and bs = "ad_outbox db"])
      (use assms in \<open>auto simp: redelivers_def redelivered_def auth_inv_def announces_def\<close>)
  ultimately show ?thesis using assms by (simp add: auth_inv_def redelivers_def)
qed

lemma finish_redelivers: "redelivers db (state_of (finish_event e ok w db n))"
proof -
  have "redelivered x (x\<lparr>ae_PublishedAt := p, ae_NextAttemptAt := t\<rparr>)" for x p t
    unfolding redelivered_def by (intro exI [of _ p] exI [of _ "ae_Attempts x"] exI [of _ t]) simp
  then show ?thesis
    by (auto simp: redelivers_def finish_event_def exec_now_state Let_def redelivered_refl list_all2_refl intro!: list_all2_update_where)
qed

text \<open>What a lease did: the event is due, and the answer is the stored row.\<close>

lemma claim_cases:
  assumes "claim_event timeout w db n = (Inr (Some e'), db', n')"
  obtains e where "e \<in> set (ad_outbox db)" "ae_PublishedAt e = None" "ae_NextAttemptAt e \<le> w_clock w n"
    "e' = e\<lparr>ae_Attempts := ae_Attempts e + 1, ae_NextAttemptAt := w_clock w n + (timeout + 10 * Second)\<rparr>"
    "db' = db\<lparr>ad_outbox := update_where (\<lambda>x. ae_ID x = ae_ID e) (\<lambda>_. e') (ad_outbox db)\<rparr>"
proof -
  let ?due = "sort_key (\<lambda>e. (ae_NextAttemptAt e, ae_CreatedAt e, ae_ID e)) (filter (\<lambda>e. ae_PublishedAt e = None \<and> ae_NextAttemptAt e \<le> w_clock w n) (ad_outbox db))"
  have "?due \<noteq> []" using assms by (auto simp: claim_event_def exec_now_def split: if_splits)
  then obtain e es where due: "?due = e # es" by (cases ?due) auto
  then have "e \<in> set ?due" by simp
  then have "e \<in> set (ad_outbox db)" "ae_PublishedAt e = None" "ae_NextAttemptAt e \<le> w_clock w n" by simp_all
  with assms due show thesis by (intro that [of e]) (auto simp: claim_event_def exec_now_def Let_def split: if_splits)
qed

lemma claim_redelivers:
  assumes "claim_event timeout w db n = (Inr (Some e'), db', n')" "distinct (map ae_ID (ad_outbox db))"
  shows "redelivers db db'"
  using assms(1)
proof (rule claim_cases)
  fix e
  assume e: "e \<in> set (ad_outbox db)" "e' = e\<lparr>ae_Attempts := ae_Attempts e + 1, ae_NextAttemptAt := w_clock w n + (timeout + 10 * Second)\<rparr>"
    "db' = db\<lparr>ad_outbox := update_where (\<lambda>x. ae_ID x = ae_ID e) (\<lambda>_. e') (ad_outbox db)\<rparr>"
  have "redelivered e e'" unfolding redelivered_def e(2) by (intro exI [of _ "ae_PublishedAt e"] exI) simp
  then have "list_all2 redelivered xs (update_where (\<lambda>x. ae_ID x = ae_ID e) (\<lambda>_. e') xs)" if "set xs \<subseteq> set (ad_outbox db)" for xs
    using that distinct_key_eq [OF assms(2) _ e(1)] by (induction xs) (auto simp: redelivered_refl)
  then show ?thesis by (simp add: redelivers_def e(3))
qed

end
