(* ===== verification/Auth_Runs.thy ===== *)
theory Auth_Runs
  imports Auth_Laws
begin

text \<open>
  The auth service at work: signups, clean-ups and any number of outbox workers interleaved, with
  crashes and lost answers. The invariant of the accounts, what becomes of receipts and of events.
\<close>

section \<open>Steps\<close>

text \<open>
  \<open>as_workers\<close> are the rounds of the outbox workers that are under way, \<open>as_sent\<close> the ids of all messages
  that the broker has confirmed.
\<close>

record auth_sys =
  as_db :: auth_db
  as_workers :: "worker list"
  as_sent :: "string set"

text \<open>
  Steps whose clock readings are at most \<open>T\<close>; the publish timeout is \<open>timeout\<close>. A signup takes any input.
  A round of a worker is \<open>DispatchOne\<close>, one step at a time; it is dropped when it has ended, and anywhere
  when the worker crashes.
\<close>

inductive auth_step :: "auth_svc \<Rightarrow> (user_payload \<Rightarrow> bool) \<Rightarrow> int \<Rightarrow> time \<Rightarrow> auth_sys \<Rightarrow> auth_sys \<Rightarrow> bool"
  for s too_long timeout T where
  Signup: "world_ok 0 T w \<Longrightarrow> auth_step s too_long timeout T x (x\<lparr>as_db := state_of (SignUp s key input w (as_db x) n)\<rparr>)"
| Cleanup: "world_ok 0 T w \<Longrightarrow> auth_step s too_long timeout T x (x\<lparr>as_db := state_of (CleanupSignupReceipts w (as_db x) n)\<rparr>)"
| Start: "auth_step s too_long timeout T x (x\<lparr>as_workers := DispatchOne too_long timeout # as_workers x\<rparr>)"
| Work: "world_ok 0 T (wk_world env) \<Longrightarrow> as_workers x = ps @ Step g # qs \<Longrightarrow> g env (as_db x, as_sent x) = ((db, sent), p) \<Longrightarrow>
    auth_step s too_long timeout T x (x\<lparr>as_db := db, as_sent := sent, as_workers := ps @ p # qs\<rparr>)"
| Stop: "as_workers x = ps @ p # qs \<Longrightarrow> auth_step s too_long timeout T x (x\<lparr>as_workers := ps @ qs\<rparr>)"

inductive auth_run :: "auth_svc \<Rightarrow> (user_payload \<Rightarrow> bool) \<Rightarrow> int \<Rightarrow> time \<Rightarrow> auth_sys \<Rightarrow> auth_sys \<Rightarrow> bool"
  for s too_long timeout T x where
  Here: "auth_run s too_long timeout T x x"
| More: "auth_run s too_long timeout T x y \<Longrightarrow> auth_step s too_long timeout T y z \<Longrightarrow> auth_run s too_long timeout T x z"

lemma auth_run_trans: "auth_run s too_long timeout T x y \<Longrightarrow> auth_run s too_long timeout T y z \<Longrightarrow> auth_run s too_long timeout T x z"
  by (rotate_tac, induction rule: auth_run.induct) (auto intro: auth_run.More)

definition auth_start :: auth_sys where
  "auth_start = \<lparr>as_db = no_accounts, as_workers = [], as_sent = {}\<rparr>"

section \<open>A signup\<close>

definition input_ok :: "auth_svc \<Rightarrow> signup_input \<Rightarrow> string \<Rightarrow> bool" where
  "input_ok s input email \<longleftrightarrow> NormalizeEmail (sv_lib s) (in_Email input) = Inr email \<and> name_ok (TrimSpace (in_DisplayName input)) \<and> validatePassword (in_Password input) 8"

lemma bindT_lift_auth: "bindT (lift_auth (Inr a)) f = f a"
  by (simp add: lift_auth_def bindT_def ret_def)

lemma SignUp_valid:
  assumes "input_ok s input email"
  shows "SignUp s (Some k) input = bindT (LookupSignup k (li_digest (sv_lib s) (email, TrimSpace (in_DisplayName input)))) (\<lambda>cached.
    case cached of Some r \<Rightarrow> lift_auth (verifySignupReplay (sv_lib s) r (in_Password input))
    | None \<Rightarrow> signup_create s (Some k) email (TrimSpace (in_DisplayName input)) (in_Password input))"
  using assms by (simp add: SignUp_def input_ok_def bindT_lift_auth Let_def)

lemma LookupSignup_state: "state_of (LookupSignup k fp w db n) = db"
  by (auto simp: LookupSignup_def tx_defs split: option.split sum.split)

lemma signup_effect:
  assumes "input_ok s input email" "world_ok t0 T w"
  shows "state_of (SignUp s (Some k) input w db n) = db \<or>
    (\<exists>u. signed_up (sv_lib s) t0 T (Some k) email (TrimSpace (in_DisplayName input)) (in_Password input) u db (state_of (SignUp s (Some k) input w db n)))"
proof -
  let ?fp = "li_digest (sv_lib s) (email, TrimSpace (in_DisplayName input))"
  obtain r n1 where look: "LookupSignup k ?fp w db n = (r, db, n1)"
    using LookupSignup_state [of k ?fp w db n] by (cases "LookupSignup k ?fp w db n") auto
  show ?thesis
  proof (cases r)
    case (Inr cached)
    then show ?thesis
    proof (cases cached)
      case None
      then have "SignUp s (Some k) input w db n = signup_create s (Some k) email (TrimSpace (in_DisplayName input)) (in_Password input) w db n1"
        unfolding SignUp_valid [OF assms(1)] using Inr look by (simp add: bindT_def)
      then show ?thesis using signup_create_state [OF assms(2), of s "Some k"] by simp
    next
      case (Some x)
      then show ?thesis unfolding SignUp_valid [OF assms(1)] using Inr look by (simp add: bindT_def lift_auth_def tx_defs split: sum.split)
    qed
  qed (unfold SignUp_valid [OF assms(1)], use look in \<open>simp add: bindT_def\<close>)
qed

lemma SignUp_state:
  assumes "world_ok t0 T w"
  shows "state_of (SignUp s key input w db n) = db \<or>
    (\<exists>email u. input_ok s input email \<and> signed_up (sv_lib s) t0 T key email (TrimSpace (in_DisplayName input)) (in_Password input) u db (state_of (SignUp s key input w db n)))"
proof (cases "\<exists>email. input_ok s input email")
  case True
  then obtain email where ok: "input_ok s input email" by blast
  show ?thesis
  proof (cases key)
    case None
    then have "SignUp s key input = signup_create s None email (TrimSpace (in_DisplayName input)) (in_Password input)"
      using ok by (simp add: SignUp_def input_ok_def bindT_lift_auth Let_def)
    then show ?thesis
      using signup_create_state [OF assms, of s None email "TrimSpace (in_DisplayName input)" "in_Password input" db n] None ok by metis
  next
    case (Some k)
    then show ?thesis using signup_effect [OF ok assms, of k db n] ok by metis
  qed
next
  case False
  then show ?thesis
    by (cases "NormalizeEmail (sv_lib s) (in_Email input)") (auto simp: SignUp_def input_ok_def lift_auth_def bindT_def tx_defs Let_def)
qed

section \<open>A worker\<close>

text \<open>Where a round is; its end marks the event as published only when the broker has confirmed its message.\<close>

definition worker_state :: "(user_payload \<Rightarrow> bool) \<Rightarrow> int \<Rightarrow> string set \<Rightarrow> worker \<Rightarrow> bool" where
  "worker_state too_long timeout sent p \<longleftrightarrow> p = DispatchOne too_long timeout \<or> (\<exists>e. p = publish_event too_long e) \<or>
     (\<exists>e err. p = end_attempt e err \<and> (err = None \<longrightarrow> ae_ID e \<in> sent)) \<or> (\<exists>a. p = Done a)"

text \<open>What a step of a worker does to the tables and to the confirmed messages.\<close>

definition worked :: "int \<Rightarrow> world \<Rightarrow> nat \<Rightarrow> auth_db \<times> string set \<Rightarrow> auth_db \<times> string set \<Rightarrow> bool" where
  "worked timeout w n x y \<longleftrightarrow> snd x \<subseteq> snd y \<and> (fst y = fst x \<or> fst y = state_of (claim_event timeout w (fst x) n) \<or>
     (\<exists>e ok. fst y = state_of (finish_event e ok w (fst x) n) \<and> (ok \<longrightarrow> ae_ID e \<in> snd x)))"

lemma on_tables_step:
  "bindP (on_tables f) k = Step g \<Longrightarrow> g env (db, sent) = ((state_of (f (wk_world env) db (wk_now env)), sent), k (result_of (f (wk_world env) db (wk_now env))))"
  by (auto simp: on_tables_def atom_def split: prod.splits)

lemma worker_mono: "worker_state too_long timeout sent p \<Longrightarrow> sent \<subseteq> sent' \<Longrightarrow> worker_state too_long timeout sent' p"
  unfolding worker_state_def by blast

lemma end_attempt_step:
  assumes "end_attempt e err = Step g" "err = None \<longrightarrow> ae_ID e \<in> sent" "g env (db, sent) = (y, q)"
  shows "worked timeout (wk_world env) (wk_now env) (db, sent) y \<and> worker_state too_long timeout (snd y) q"
  using on_tables_step [OF assms(1) [unfolded end_attempt_def], of env db sent] assms(2,3)
  by (auto simp: worked_def worker_state_def split: sum.splits)

lemma worker_step:
  assumes "worker_state too_long timeout sent (Step g)" "g env (db, sent) = (y, q)"
  shows "worked timeout (wk_world env) (wk_now env) (db, sent) y \<and> worker_state too_long timeout (snd y) q"
  using assms(1) [unfolded worker_state_def]
proof (elim disjE exE conjE)
  assume "Step g = DispatchOne too_long timeout"
  from on_tables_step [OF this [symmetric, unfolded DispatchOne_def], of env db sent] assms(2)
  show ?thesis by (auto simp: worked_def worker_state_def split: sum.splits option.splits)
next
  fix e assume p: "Step g = publish_event too_long e"
  show ?thesis
  proof (cases "MessageFor too_long e")
    case None
    then show ?thesis using end_attempt_step [of e "Some DInvalidEvent" g sent env db y q timeout too_long] p assms(2) by (simp add: publish_event_def)
  next
    case (Some m)
    then have "am_ID m = ae_ID e" by (auto simp: MessageFor_def Let_def split: if_splits)
    moreover have "(y, q) = (if wk_confirms env then ((db, insert (am_ID m) sent), end_attempt e None) else ((db, sent), end_attempt e (Some DPublish)))"
      using p assms(2) Some by (auto simp: publish_event_def atom_def)
    ultimately show ?thesis by (auto simp: worked_def worker_state_def split: if_splits)
  qed
next
  fix e err assume "Step g = end_attempt e err" "err = None \<longrightarrow> ae_ID e \<in> sent"
  then show ?thesis using end_attempt_step [of e err g] assms(2) by simp
qed simp

definition workers_ok :: "(user_payload \<Rightarrow> bool) \<Rightarrow> int \<Rightarrow> auth_sys \<Rightarrow> bool" where
  "workers_ok too_long timeout x \<longleftrightarrow> (\<forall>p\<in>set (as_workers x). worker_state too_long timeout (as_sent x) p)"

lemma step_workers:
  assumes "auth_step s too_long timeout T x y" "workers_ok too_long timeout x"
  shows "workers_ok too_long timeout y"
  using assms
proof (induction rule: auth_step.induct)
  case (Work env x ps g qs db sent p)
  then have "worker_state too_long timeout (as_sent x) (Step g)" by (simp add: workers_ok_def)
  from worker_step [OF this Work.hyps(3)] have "as_sent x \<subseteq> sent" "worker_state too_long timeout sent p" by (simp_all add: worked_def)
  moreover from this(1) have "worker_state too_long timeout sent q" if "q \<in> set (ps @ qs)" for q
    using worker_mono [of too_long timeout "as_sent x" q sent] that Work.hyps(2) Work.prems by (auto simp: workers_ok_def)
  ultimately show ?case by (auto simp: workers_ok_def)
qed (auto simp: workers_ok_def worker_state_def)

lemma run_workers: "auth_run s too_long timeout T x y \<Longrightarrow> workers_ok too_long timeout x \<Longrightarrow> workers_ok too_long timeout y"
  by (induction rule: auth_run.induct) (auto intro: step_workers)

lemma start_workers [simp]: "workers_ok too_long timeout auth_start"
  by (simp add: workers_ok_def auth_start_def)

text \<open>What every step does, in terms of the tables.\<close>

lemma step_effect:
  assumes "auth_step s too_long timeout T x y" "workers_ok too_long timeout x"
  shows "(\<exists>key email name password u raw. NormalizeEmail (sv_lib s) raw = Inr email \<and> name_ok name \<and> validatePassword password 8 \<and>
      signed_up (sv_lib s) 0 T key email name password u (as_db x) (as_db y) \<and> as_sent y = as_sent x) \<or>
    (\<exists>w n. world_ok 0 T w \<and> as_db y = state_of (CleanupSignupReceipts w (as_db x) n) \<and> as_sent y = as_sent x) \<or>
    (\<exists>w n. world_ok 0 T w \<and> worked timeout w n (as_db x, as_sent x) (as_db y, as_sent y)) \<or> as_db y = as_db x \<and> as_sent y = as_sent x"
  using assms
proof (induction rule: auth_step.induct)
  case (Signup w x key input n)
  from SignUp_state [OF Signup.hyps, of s key input "as_db x" n] show ?case by (simp add: input_ok_def) blast
next
  case (Work env x ps g qs db sent p)
  then have "worker_state too_long timeout (as_sent x) (Step g)" by (simp add: workers_ok_def)
  from worker_step [OF this Work.hyps(3)] Work.hyps(1) show ?case by auto
qed auto

lemma claim_state:
  "state_of (claim_event timeout w db n) = db \<or> (\<exists>e db' n'. claim_event timeout w db n = (Inr (Some e), db', n'))"
  by (auto simp: claim_event_def exec_now_def Let_def split: list.splits)

lemma worked_redelivers:
  assumes "worked timeout w n x y" "distinct (map ae_ID (ad_outbox (fst x)))"
  shows "redelivers (fst x) (fst y)"
proof -
  have "redelivers db db" for db by (simp add: redelivers_def list_all2_refl redelivered_refl)
  then show ?thesis using assms claim_state [of timeout w "fst x" n] claim_redelivers [of timeout w "fst x" n] finish_redelivers [of "fst x"]
    unfolding worked_def by auto
qed

section \<open>Accounts\<close>

lemma step_inv:
  assumes "auth_step s too_long timeout T x y" "workers_ok too_long timeout x" "auth_inv (sv_lib s) (as_db x)"
  shows "auth_inv (sv_lib s) (as_db y)"
  using step_effect [OF assms(1,2)]
proof (elim disjE exE conjE)
  fix w n assume "as_db y = state_of (CleanupSignupReceipts w (as_db x) n)"
  moreover obtain gone where "set gone \<subseteq> {r \<in> set (ad_receipts (as_db x)). rc_ExpiresAt r \<le> w_clock w n}"
    and "state_of (CleanupSignupReceipts w (as_db x) n) = (as_db x)\<lparr>ad_receipts := filter (\<lambda>r. rc_Key r \<notin> rc_Key ` set gone) (ad_receipts (as_db x))\<rparr>"
    using cleanup_state [of "as_db x" w n] by (elim exE conjE) (rule that)
  ultimately show ?thesis using assms(3) by (simp add: auth_inv_def distinct_map_filter)
next
  fix w n assume "worked timeout w n (as_db x, as_sent x) (as_db y, as_sent y)"
  then show ?thesis using worked_redelivers redelivers_inv assms(3) by (fastforce simp: auth_inv_def)
next
  fix key email name password u raw
  assume "signed_up (sv_lib s) 0 T key email name password u (as_db x) (as_db y)" "NormalizeEmail (sv_lib s) raw = Inr email" "name_ok name" "validatePassword password 8"
  then show ?thesis using signed_up_inv [OF assms(3)] by blast
qed (use assms(3) in simp)

lemma run_inv:
  "auth_run s too_long timeout T x y \<Longrightarrow> workers_ok too_long timeout x \<Longrightarrow> auth_inv (sv_lib s) (as_db x) \<Longrightarrow> auth_inv (sv_lib s) (as_db y)"
  by (induction rule: auth_run.induct) (auto intro: step_inv run_workers)

text \<open>Accounts stay, and a receipt stays until it expires.\<close>

lemma cleanup_keeps:
  assumes "world_ok 0 T w" "distinct (map rc_Key (ad_receipts db))" "r \<in> set (ad_receipts db)" "T < rc_ExpiresAt r"
  shows "r \<in> set (ad_receipts (state_of (CleanupSignupReceipts w db n)))"
proof -
  obtain gone where gone: "set gone \<subseteq> {r \<in> set (ad_receipts db). rc_ExpiresAt r \<le> w_clock w n}"
    and st: "state_of (CleanupSignupReceipts w db n) = db\<lparr>ad_receipts := filter (\<lambda>r. rc_Key r \<notin> rc_Key ` set gone) (ad_receipts db)\<rparr>"
    using cleanup_state [of db w n] by (elim exE conjE) (rule that)
  have "rc_Key r \<notin> rc_Key ` set gone"
  proof
    assume "rc_Key r \<in> rc_Key ` set gone"
    then obtain g where g: "g \<in> set gone" "rc_Key g = rc_Key r" by auto
    then have "g = r" using gone assms(2,3) by (auto intro: distinct_key_eq)
    moreover have "w_clock w n \<le> T" using assms(1) by (simp add: world_ok_def)
    ultimately show False using g(1) gone assms(4) by auto
  qed
  then show ?thesis using assms(3) by (simp add: st)
qed

lemma step_keeps:
  assumes "auth_step s too_long timeout T x y" "workers_ok too_long timeout x" "auth_inv (sv_lib s) (as_db x)"
  shows "set (ad_users (as_db x)) \<subseteq> set (ad_users (as_db y)) \<and> (\<forall>r\<in>set (ad_receipts (as_db x)). T < rc_ExpiresAt r \<longrightarrow> r \<in> set (ad_receipts (as_db y)))"
  using step_effect [OF assms(1,2)]
proof (elim disjE exE conjE)
  fix w n assume "world_ok 0 T w" "as_db y = state_of (CleanupSignupReceipts w (as_db x) n)"
  moreover have "ad_users (state_of (CleanupSignupReceipts w (as_db x) n)) = ad_users (as_db x)"
    using cleanup_state [of "as_db x" w n] by auto
  ultimately show ?thesis using cleanup_keeps assms(3) by (auto simp: auth_inv_def)
next
  fix w n assume "worked timeout w n (as_db x, as_sent x) (as_db y, as_sent y)"
  then show ?thesis using worked_redelivers assms(3) by (fastforce simp: auth_inv_def redelivers_def)
next
  fix key email name password u
  assume "signed_up (sv_lib s) 0 T key email name password u (as_db x) (as_db y)"
  then show ?thesis by (cases key) (auto simp: signed_up_def with_account_def with_receipt_def set_receipts_left Let_def)
qed simp

lemma run_keeps:
  assumes "auth_run s too_long timeout T x y" "workers_ok too_long timeout x" "auth_inv (sv_lib s) (as_db x)"
  shows "set (ad_users (as_db x)) \<subseteq> set (ad_users (as_db y)) \<and> (\<forall>r\<in>set (ad_receipts (as_db x)). T < rc_ExpiresAt r \<longrightarrow> r \<in> set (ad_receipts (as_db y)))"
  using assms
proof (induction rule: auth_run.induct)
  case (More y z)
  then show ?case using step_keeps [OF More.hyps(2) run_workers [OF More.hyps(1) More.prems(1)] run_inv [OF More.hyps(1) More.prems]] by blast
qed simp

section \<open>Events\<close>

text \<open>What is marked as published has been confirmed, and every event is due by a certain time.\<close>

definition confirmed :: "auth_sys \<Rightarrow> bool" where
  "confirmed x \<longleftrightarrow> (\<forall>e\<in>set (ad_outbox (as_db x)). ae_PublishedAt e \<noteq> None \<longrightarrow> ae_ID e \<in> as_sent x)"

definition lease_bound :: "int \<Rightarrow> int" where
  "lease_bound timeout = max (timeout + 10 * Second) (5 * Minute)"

definition due_by :: "time \<Rightarrow> auth_sys \<Rightarrow> bool" where
  "due_by T x \<longleftrightarrow> (\<forall>e\<in>set (ad_outbox (as_db x)). ae_NextAttemptAt e \<le> T)"

lemma retryDelay_bound: "retryDelay a \<le> 5 * Minute" "Second \<le> retryDelay a"
proof -
  show "retryDelay a \<le> 5 * Minute" by (simp add: retryDelay_def)
  have "(1::int) \<le> 2 ^ nat (min (max (a - 1) 0) 9)" by simp
  then show "Second \<le> retryDelay a" by (simp add: retryDelay_def)
qed

lemma outbox_updated: "x \<in> set (update_where p f xs) \<Longrightarrow> (\<exists>y\<in>set xs. p y \<and> x = f y) \<or> x \<in> set xs"
  by (auto simp: set_update_where)

lemma worked_outbox:
  assumes "world_ok 0 T w" "worked timeout w n x y" "e \<in> set (ad_outbox (fst y))"
  shows "(ae_PublishedAt e = None \<or> ae_ID e \<in> snd y \<or> (\<exists>e'\<in>set (ad_outbox (fst x)). ae_ID e' = ae_ID e \<and> ae_PublishedAt e' \<noteq> None)) \<and>
    (ae_NextAttemptAt e \<le> T + lease_bound timeout \<or> e \<in> set (ad_outbox (fst x)))"
proof -
  have clock: "w_clock w n \<le> T" using assms(1) by (simp add: world_ok_def)
  consider "fst y = fst x" | e0 db' n' where "claim_event timeout w (fst x) n = (Inr (Some e0), db', n')" "fst y = db'"
    | f ok where "fst y = state_of (finish_event f ok w (fst x) n)" "ok \<longrightarrow> ae_ID f \<in> snd x"
    using assms(2) claim_state [of timeout w "fst x" n] unfolding worked_def by fastforce
  then show ?thesis
  proof cases
    case 2
    from 2(1) show ?thesis
      by (rule claim_cases) (use clock assms(3) 2(2) in \<open>auto simp: lease_bound_def dest!: outbox_updated\<close>)
  next
    case 3
    have "w_clock w n + retryDelay a \<le> T + lease_bound timeout" for a
      using clock retryDelay_bound(1) [of a] by (auto simp: lease_bound_def intro!: add_mono)
    moreover have "snd x \<subseteq> snd y" using assms(2) by (simp add: worked_def)
    ultimately show ?thesis
      using 3 assms(3) by (auto simp: finish_event_def exec_now_state Let_def dest!: outbox_updated split: if_splits)
  qed (use assms(3) in auto)
qed

lemma step_events:
  assumes "auth_step s too_long timeout T x y" "workers_ok too_long timeout x" "confirmed x" "due_by (T + lease_bound timeout) x"
  shows "confirmed y \<and> due_by (T + lease_bound timeout) y"
  using step_effect [OF assms(1,2)]
proof (elim disjE exE conjE)
  fix w n assume "as_db y = state_of (CleanupSignupReceipts w (as_db x) n)" "as_sent y = as_sent x"
  moreover have "ad_outbox (state_of (CleanupSignupReceipts w (as_db x) n)) = ad_outbox (as_db x)"
    using cleanup_state [of "as_db x" w n] by auto
  ultimately show ?thesis using assms(3,4) by (simp add: confirmed_def due_by_def)
next
  fix w n assume w: "world_ok 0 T w" "worked timeout w n (as_db x, as_sent x) (as_db y, as_sent y)"
  have mono: "as_sent x \<subseteq> as_sent y" using w(2) by (simp add: worked_def)
  have "(ae_PublishedAt e \<noteq> None \<longrightarrow> ae_ID e \<in> as_sent y) \<and> ae_NextAttemptAt e \<le> T + lease_bound timeout" if "e \<in> set (ad_outbox (as_db y))" for e
  proof -
    have "ae_ID e' \<in> as_sent y" if "e' \<in> set (ad_outbox (as_db x))" "ae_PublishedAt e' \<noteq> None" for e'
      using that assms(3) mono unfolding confirmed_def by blast
    then show ?thesis using worked_outbox [OF w, of e] that assms(4) unfolding due_by_def fst_conv snd_conv by metis
  qed
  then show ?thesis by (simp add: confirmed_def due_by_def)
next
  fix key email name password u
  assume "signed_up (sv_lib s) 0 T key email name password u (as_db x) (as_db y)" "as_sent y = as_sent x"
  moreover from this(1) have "e \<in> set (ad_outbox (as_db x)) \<or> ae_PublishedAt e = None \<and> ae_NextAttemptAt e \<le> T + lease_bound timeout" if "e \<in> set (ad_outbox (as_db y))" for e
    using that by (cases key) (auto simp: signed_up_def with_account_def with_receipt_def lease_bound_def Let_def)
  ultimately show ?thesis using assms(3,4) unfolding confirmed_def due_by_def by metis
qed (use assms(3,4) in \<open>simp add: confirmed_def due_by_def\<close>)

lemma run_events:
  "auth_run s too_long timeout T x y \<Longrightarrow> workers_ok too_long timeout x \<Longrightarrow> confirmed x \<Longrightarrow> due_by (T + lease_bound timeout) x \<Longrightarrow>
     confirmed y \<and> due_by (T + lease_bound timeout) y"
  by (induction rule: auth_run.induct) (auto dest: step_events run_workers)

text \<open>A worker may run a whole round undisturbed.\<close>

lemma worker_alone:
  assumes "run_proc es p (as_db x, as_sent x) = Some (a, db, sent)" "\<forall>env\<in>set es. world_ok 0 T (wk_world env)" "as_workers x = p # qs"
  shows "auth_run s too_long timeout T x (x\<lparr>as_db := db, as_sent := sent, as_workers := qs\<rparr>)"
proof -
  have "auth_run s too_long timeout T z (y\<lparr>as_db := db, as_sent := sent, as_workers := qs\<rparr>)"
    if "auth_run s too_long timeout T z y" "run_proc es p (as_db y, as_sent y) = Some (a, db, sent)" "\<forall>env\<in>set es. world_ok 0 T (wk_world env)" "as_workers y = p # qs" for y z
    using that
  proof (induction es p "(as_db y, as_sent y)" arbitrary: y rule: run_proc.induct)
    case (1 es b y)
    then have "y\<lparr>as_db := db, as_sent := sent, as_workers := qs\<rparr> = y\<lparr>as_workers := [] @ qs\<rparr>" by simp
    moreover have "auth_run s too_long timeout T z (y\<lparr>as_workers := [] @ qs\<rparr>)"
      using 1 by (intro auth_run.More [OF 1(1) auth_step.Stop [of y "[]" "Done b" qs]]) simp
    ultimately show ?case by (simp only:)
  next
    case (3 env es g y)
    obtain db1 sent1 p1 where g: "g env (as_db y, as_sent y) = ((db1, sent1), p1)" by (metis prod.collapse)
    let ?y = "y\<lparr>as_db := db1, as_sent := sent1, as_workers := p1 # qs\<rparr>"
    have "auth_run s too_long timeout T z ?y"
      using auth_run.More [OF 3(2) auth_step.Work [of T env y "[]" g qs db1 sent1 p1]] 3(4,5) g by simp
    then show ?case using 3(1) [of ?y p1] 3(3,4) g by simp
  qed simp
  from this [OF auth_run.Here assms] show ?thesis .
qed

end
