(* ===== verification/Auth_Attempts.thy ===== *)
theory Auth_Attempts
  imports Auth_Service
begin

text \<open>
  Attempts at passwords: requests that pass the check of the failures, get a slot, do their work and end,
  interleaved in any way. The failures of an account against its limit.
\<close>

section \<open>Attempts\<close>

text \<open>
  The limiter, the accounts of the requests that have passed the check and not yet asked for a slot, and
  those of the requests that hold one; at most \<open>c\<close> requests are in these two states at any moment.
\<close>

inductive attempts :: "failure_limit \<Rightarrow> nat \<Rightarrow> limiter \<Rightarrow> string list \<Rightarrow> string list \<Rightarrow> bool" for l c where
  Idle: "attempts l c NewCredentialLimiter [] []"
| Peer: "attempts l c m waiting working \<Longrightarrow> limiter_Handle now peer m = (r, m') \<Longrightarrow> attempts l c m' waiting working"
| Blocked: "attempts l c m waiting working \<Longrightarrow> IsBlocked l now email (lm_failures m) = (Some retry, fs) \<Longrightarrow> attempts l c (m\<lparr>lm_failures := fs\<rparr>) waiting working"
| Checked: "attempts l c m waiting working \<Longrightarrow> IsBlocked l now email (lm_failures m) = (None, fs) \<Longrightarrow> length waiting + length working < c \<Longrightarrow>
    attempts l c (m\<lparr>lm_failures := fs\<rparr>) (email # waiting) working"
| Busy: "attempts l c m (xs @ email # ys) working \<Longrightarrow> Acquire now email m = (Some retry, m') \<Longrightarrow> attempts l c m' (xs @ ys) working"
| Admitted: "attempts l c m (xs @ email # ys) working \<Longrightarrow> Acquire now email m = (None, m') \<Longrightarrow> attempts l c m' (xs @ ys) (email # working)"
| Login_ends: "attempts l c m waiting (xs @ email # ys) \<Longrightarrow> login_end l now email r m = (a, m') \<Longrightarrow> attempts l c m' waiting (xs @ ys)"
| Signup_ends: "attempts l c m waiting (xs @ email # ys) \<Longrightarrow> signup_end l email r' m = (a, m') \<Longrightarrow> attempts l c m' waiting (xs @ ys)"
| Key_invalid: "attempts l c m waiting (xs @ email # ys) \<Longrightarrow> attempts l c (release m) waiting (xs @ ys)"

definition failed :: "failures \<Rightarrow> string \<Rightarrow> int" where
  "failed m k = (case m k of None \<Rightarrow> 0 | Some r \<Rightarrow> fr_count r)"

definition under_way :: "failure_limit \<Rightarrow> string \<Rightarrow> string list \<Rightarrow> nat" where
  "under_way l k flight = length (filter (\<lambda>email. account_key l email = k) flight)"

definition guesses_ok :: "failure_limit \<Rightarrow> nat \<Rightarrow> limiter \<Rightarrow> string list \<Rightarrow> string list \<Rightarrow> bool" where
  "guesses_ok l c m waiting working \<longleftrightarrow> lm_work m = length working \<and> length working \<le> 4 \<and> (\<forall>k. k \<noteq> '''' \<longrightarrow> 0 \<le> failed (lm_failures m) k \<and>
     failed (lm_failures m) k + int (under_way l k waiting + under_way l k working) \<le> fl_max l + int c)"

lemma under_way_simps [simp]:
  "under_way l k [] = 0" "under_way l k (x # xs) = (if account_key l x = k then 1 else 0) + under_way l k xs"
  "under_way l k (xs @ ys) = under_way l k xs + under_way l k ys"
  by (simp_all add: under_way_def)

lemma under_way_le: "under_way l k xs \<le> length xs"
  by (simp add: under_way_def)

lemma cleaned_failures: "0 \<le> failed m k \<Longrightarrow> 0 \<le> failed (cleanupExpired now m) k \<and> failed (cleanupExpired now m) k \<le> failed m k"
  by (auto simp: failed_def cleanupExpired_def split: option.splits)

lemma IsBlocked_failures:
  assumes "IsBlocked l now email fs = (r, fs')"
  shows "fs' = cleanupExpired now fs" and "r = None \<Longrightarrow> account_key l email \<noteq> '''' \<Longrightarrow> 0 < fl_max l \<Longrightarrow> failed fs' (account_key l email) < fl_max l"
  using assms by (auto simp: IsBlocked_def Let_def failed_def cleanupExpired_def split: option.splits if_splits)

lemma Acquire_failures:
  assumes "Acquire now email m = (r, m')"
  shows "lm_failures m' = lm_failures m" and "r = None \<Longrightarrow> lm_work m < 4 \<and> lm_work m' = Suc (lm_work m)" and "r \<noteq> None \<Longrightarrow> lm_work m' = lm_work m"
  using assms by (auto simp: Acquire_def split: option.splits if_splits prod.splits)

lemma record_failure:
  assumes "0 \<le> failed m k" "k \<noteq> ''''"
  shows "0 \<le> failed (RecordFailure l now email m) k \<and>
    failed (RecordFailure l now email m) k \<le> failed m k + (if account_key l email = k then 1 else 0)"
  using assms by (auto simp: RecordFailure_def failed_def cleanupExpired_def Let_def split: option.splits)

lemma reset_failures:
  "0 \<le> failed m k \<Longrightarrow> 0 \<le> failed (limit_Reset l email m) k \<and> failed (limit_Reset l email m) k \<le> failed m k"
  by (auto simp: limit_Reset_def failed_def Let_def)

text \<open>Ending a request whose failures grew by at most one for its own account.\<close>

lemma ends_ok:
  assumes "guesses_ok l c m waiting (xs @ email # ys)" "lm_work m' = lm_work m - 1"
    and "\<And>k. k \<noteq> '''' \<Longrightarrow> 0 \<le> failed (lm_failures m) k \<Longrightarrow> 0 \<le> failed (lm_failures m') k \<and>
      failed (lm_failures m') k \<le> failed (lm_failures m) k + (if account_key l email = k then 1 else 0)"
  shows "guesses_ok l c m' waiting (xs @ ys)"
proof -
  have "failed (lm_failures m') k + int (under_way l k waiting + under_way l k (xs @ ys)) \<le> fl_max l + int c \<and> 0 \<le> failed (lm_failures m') k" if "k \<noteq> ''''" for k
  proof -
    have "0 \<le> failed (lm_failures m) k" "failed (lm_failures m) k + int (under_way l k waiting + under_way l k (xs @ email # ys)) \<le> fl_max l + int c"
      using assms(1) that by (simp_all add: guesses_ok_def)
    then show ?thesis using assms(3) [OF that] by (cases "account_key l email = k") simp_all
  qed
  then show ?thesis using assms(1,2) by (simp add: guesses_ok_def)
qed

lemma cleaned_ok: "guesses_ok l c m waiting working \<Longrightarrow> guesses_ok l c (m\<lparr>lm_failures := cleanupExpired now (lm_failures m)\<rparr>) waiting working"
  using cleaned_failures [of "lm_failures m" _ now] by (fastforce simp: guesses_ok_def)

lemma attempts_ok:
  assumes "attempts l (Suc c) m waiting working" "0 < fl_max l"
  shows "guesses_ok l c m waiting working"
  using assms(1)
proof (induction rule: attempts.induct)
  case Idle
  then show ?case using assms(2) by (simp add: guesses_ok_def NewCredentialLimiter_def failed_def)
next
  case (Peer m waiting working now peer r m')
  then show ?case by (auto simp: limiter_Handle_def guesses_ok_def split: prod.splits)
next
  case (Blocked m waiting working now email retry fs)
  then show ?case using IsBlocked_failures(1) [OF Blocked.hyps(2)] cleaned_ok by simp
next
  case (Checked m waiting working now email fs)
  have fs: "fs = cleanupExpired now (lm_failures m)" using IsBlocked_failures(1) [OF Checked.hyps(2)] .
  have ok: "guesses_ok l c (m\<lparr>lm_failures := fs\<rparr>) waiting working" unfolding fs by (rule cleaned_ok [OF Checked.IH])
  have "failed fs k + int (under_way l k (email # waiting) + under_way l k working) \<le> fl_max l + int c" if k: "k \<noteq> ''''" for k
  proof (cases "account_key l email = k")
    case True
    then have "failed fs k < fl_max l" using IsBlocked_failures(2) [OF Checked.hyps(2) refl] assms(2) k by simp
    moreover have "under_way l k waiting + under_way l k working \<le> c" using under_way_le [of l k waiting] under_way_le [of l k working] Checked.hyps(3) by simp
    ultimately show ?thesis using True by simp
  next
    case False
    then show ?thesis using ok k by (simp add: guesses_ok_def)
  qed
  then show ?case using ok by (simp add: guesses_ok_def)
next
  case (Busy m xs email ys working now retry m')
  then show ?case using Acquire_failures [OF Busy.hyps(2)] by (fastforce simp: guesses_ok_def)
next
  case (Admitted m xs email ys working now m')
  have "under_way l k (xs @ ys) + under_way l k (email # working) = under_way l k (xs @ email # ys) + under_way l k working" for k by simp
  then show ?case using Acquire_failures [OF Admitted.hyps(2)] Admitted.IH by (simp add: guesses_ok_def del: under_way_simps)
next
  case (Login_ends m waiting xs email ys now r a m')
  consider "lm_failures m' = RecordFailure l now email (lm_failures m)" | "lm_failures m' = lm_failures m" | "lm_failures m' = limit_Reset l email (lm_failures m)"
    using Login_ends.hyps(2) by (auto simp: login_end_def release_def split: sum.splits if_splits)
  moreover have "lm_work m' = lm_work m - 1"
    using Login_ends.hyps(2) by (auto simp: login_end_def release_def split: sum.splits if_splits)
  ultimately show ?case
    by cases (auto intro!: ends_ok [OF Login_ends.IH] dest: record_failure [of "lm_failures m" _ l now email] reset_failures [of "lm_failures m" _ l email])
next
  case (Signup_ends m waiting xs email ys r' a m')
  have "lm_failures m' = lm_failures m \<or> lm_failures m' = limit_Reset l email (lm_failures m)" "lm_work m' = lm_work m - 1"
    using Signup_ends.hyps(2) by (auto simp: signup_end_def release_def split: sum.splits if_splits)
  then show ?case
    by (auto intro!: ends_ok [OF Signup_ends.IH] dest: reset_failures [of "lm_failures m" _ l email])
next
  case (Key_invalid m waiting xs email ys)
  show ?case by (rule ends_ok [OF Key_invalid.IH]) (simp_all add: release_def)
qed

text \<open>The time to wait covers the rest of the window.\<close>

lemma retry_covers:
  assumes "now < expires"
  shows "expires \<le> now + max 1 (quot (expires - now + Second - 1) Second) * Second"
proof -
  have "quot (expires - now + Second - 1) Second = (expires - now + Second - 1) div Second" using assms by (simp add: quot_nonneg)
  moreover have "expires - now + Second - 1 < ((expires - now + Second - 1) div Second + 1) * Second"
    by (simp add: mult.commute [of _ Second])
  ultimately show ?thesis by (auto simp: max_def)
qed

lemma blocked_answer:
  assumes "lm_failures m (account_key l email) = Some r" "account_key l email \<noteq> ''''" "fl_max l \<le> fr_count r" "now < fr_expiresAt r"
  shows "\<exists>retry. fst (admit l now email m) = Some (Retry retry) \<and> 1 \<le> retry \<and> fr_expiresAt r \<le> now + retry * Second"
  using assms retry_covers [OF assms(4)]
  by (intro exI [of _ "max 1 (quot (fr_expiresAt r - now + Second - 1) Second)"]) (simp add: admit_def IsBlocked_def cleanupExpired_def Let_def)

end
