(* ===== verification/Auth_Props.thy ===== *)
theory Auth_Props
  imports Auth_Runs Auth_Attempts Gateway_Props
begin

text \<open>
  What the auth service guarantees: accounts are unique and announced, a signup with a key happens
  once, a login succeeds exactly with the password of an active account, guessing is bounded, and a
  token opens the gateway for its owner only.
\<close>

section \<open>A sample service\<close>

definition kclaims :: access_claims where
  "kclaims = \<lparr>ac_Role = ''CUSTOMER'', ac_Subject = ''uuu'', ac_IssuedAt = 0, ac_ExpiresAt = 900 * Second\<rparr>"

definition kauth :: auth_svc where
  "kauth = \<lparr>sv_lib = \<lparr>li_hash = (\<lambda>_ p. Some (''h'' @ p)), li_compare = (\<lambda>h p. if h = ''h'' @ p then Matches else Mismatch),
     li_digest = (\<lambda>(e, d). e @ '' '' @ d), li_address = (\<lambda>e. Some ('''', e)), li_lower = map ascii_lower, 
     li_sign = (\<lambda>c. if c = kclaims then Some ''tok'' else None),
     li_parse = (\<lambda>_ _. None), li_uuid = Some\<rparr>, sv_dummyHash = ''dummy'', sv_ttl = 900 * Second\<rparr>"

definition kaworld :: world where
  "kaworld = \<lparr>w_fails = (\<lambda>_. False), w_applied = (\<lambda>_. True), w_clock = (\<lambda>_. 7), w_uuid = (\<lambda>n. replicate (Suc n) CHR ''u'')\<rparr>"

definition kinput :: signup_input where
  "kinput = \<lparr>in_Email = ''A@b.c'', in_Password = ''password'', in_DisplayName = ''Ann ''\<rparr>"

definition kuser :: auth_user where
  "kuser = \<lparr>au_ID = ''uuu'', au_Email = ''a@b.c'', au_DisplayName = ''Ann'', au_PasswordHash = ''hpassword'', au_Role = ''CUSTOMER'', au_Status = ''ACTIVE'',
     au_CreatedAt = 7, au_UpdatedAt = 7, au_IdempotentReplay = False\<rparr>"

definition kdb :: auth_db where
  "kdb = state_of (SignUp kauth (Some ''key'') kinput kaworld no_accounts 0)"

lemma kaworld_ok: "t0 \<le> 7 \<Longrightarrow> 7 \<le> T \<Longrightarrow> world_ok t0 T kaworld"
proof -
  have "replicate (Suc n) CHR ''u'' \<noteq> uuid_Nil" for n by (simp add: uuid_Nil_def)
  then show "t0 \<le> 7 \<Longrightarrow> 7 \<le> T \<Longrightarrow> world_ok t0 T kaworld" by (simp add: world_ok_def kaworld_def del: replicate_Suc)
qed

lemma kdb_users: "ad_users kdb = [kuser]"
  by code_simp

text \<open>Ann signs up, and then a worker publishes her event.\<close>

definition kenvs :: "worker_env list" where
  "kenvs = replicate 3 \<lparr>wk_world = kaworld, wk_now = 0, wk_confirms = True\<rparr>"

definition kpublished :: "auth_db \<times> string set" where
  "kpublished = snd (the (run_proc kenvs (DispatchOne (\<lambda>_. False) 5) (kdb, {})))"

lemma krun: "auth_run kauth (\<lambda>_. False) 5 10 auth_start (auth_start\<lparr>as_db := kdb\<rparr>)"
  using auth_run.More [OF auth_run.Here auth_step.Signup [of 10 kaworld kauth "\<lambda>_. False" 5 auth_start "Some ''key''" kinput 0]]
  by (simp add: kaworld_ok kdb_def auth_start_def)

lemma kpublish: "auth_run kauth (\<lambda>_. False) 5 10 auth_start (auth_start\<lparr>as_db := fst kpublished, as_sent := snd kpublished\<rparr>)"
proof -
  let ?x = "auth_start\<lparr>as_db := kdb, as_workers := [DispatchOne (\<lambda>_. False) 5]\<rparr>"
  have start: "auth_run kauth (\<lambda>_. False) 5 10 auth_start ?x"
    using auth_run.More [OF krun auth_step.Start] by (simp add: auth_start_def)
  have "fst (the (run_proc kenvs (DispatchOne (\<lambda>_. False) 5) (kdb, {}))) = (True, None)"
    "run_proc kenvs (DispatchOne (\<lambda>_. False) 5) (kdb, {}) \<noteq> None" by code_simp+
  then have "run_proc kenvs (DispatchOne (\<lambda>_. False) 5) (as_db ?x, as_sent ?x) = Some ((True, None), fst kpublished, snd kpublished)"
    by (auto simp: kpublished_def auth_start_def)
  moreover have "\<forall>env\<in>set kenvs. world_ok 0 10 (wk_world env)" by (simp add: kenvs_def kaworld_ok)
  ultimately have "auth_run kauth (\<lambda>_. False) 5 10 ?x (?x\<lparr>as_db := fst kpublished, as_sent := snd kpublished, as_workers := []\<rparr>)"
    by (rule worker_alone) simp
  then show ?thesis using auth_run_trans [OF start] by (simp add: auth_start_def)
qed

section \<open>Accounts\<close>

text \<open>
  C31. Accounts are sound. Whatever signups, clean-ups and workers run in whatever order, with failures,
  lost answers and crashes: no two accounts have the same email or id, every account is an active
  customer with a normalized email, a valid name and a hash of a valid password, and accounts and their
  \<open>user.registered\<close> events correspond one to one, in the order of their creation.
\<close>

theorem accounts_sound:
  assumes "auth_run s too_long timeout T auth_start x"
  shows "distinct (map au_Email (ad_users (as_db x))) \<and> distinct (map au_ID (ad_users (as_db x))) \<and>
    (\<forall>u\<in>set (ad_users (as_db x)). account_ok (sv_lib s) u) \<and> list_all2 announces (ad_users (as_db x)) (ad_outbox (as_db x))"
  using run_inv [OF assms start_workers] no_accounts_inv by (simp add: auth_start_def auth_inv_def list_all_iff)

theorem accounts_sound_witness: "account_ok (sv_lib kauth) kuser \<and> list_all2 announces (ad_users kdb) (ad_outbox kdb)"
  using accounts_sound [OF krun] by (simp add: kdb_users)

text \<open>
  C33. Every registration is announced. The event of an account gives a valid message for the broker; it
  is marked as published only after the broker has confirmed it, whichever worker marks it; and an event
  that is not published, because a worker crashed or the broker refused it, is due again at most five
  minutes, or the lease of a worker, after the last clock reading.
\<close>

theorem registration_announced:
  assumes "auth_run s too_long timeout T auth_start x" and "i < length (ad_users (as_db x))" and "\<not> too_long (ae_Payload (ad_outbox (as_db x) ! i))"
  shows "let u = ad_users (as_db x) ! i; e = ad_outbox (as_db x) ! i in
    MessageFor too_long e = Some \<lparr>am_ID = ae_ID e, am_CreatedAt = au_CreatedAt u, am_Subject = ''users/'' @ au_ID u, am_Role = ''CUSTOMER'', am_Status = ''ACTIVE''\<rparr> \<and>
    (ae_PublishedAt e \<noteq> None \<longrightarrow> ae_ID e \<in> as_sent x) \<and> ae_NextAttemptAt e \<le> T + max (timeout + 10 * Second) (5 * Minute)"
proof -
  let ?u = "ad_users (as_db x) ! i" and ?e = "ad_outbox (as_db x) ! i"
  have inv: "auth_inv (sv_lib s) (as_db x)" using run_inv [OF assms(1) start_workers] no_accounts_inv by (simp add: auth_start_def)
  then have "announces ?u ?e" "length (ad_users (as_db x)) = length (ad_outbox (as_db x))" "account_ok (sv_lib s) ?u"
    using assms(2) by (auto simp: auth_inv_def list_all2_conv_all_nth list_all_length)
  moreover have "confirmed x" "due_by (T + lease_bound timeout) x"
    using run_events [OF assms(1) start_workers] by (simp_all add: auth_start_def confirmed_def due_by_def no_accounts_def)
  moreover have "?e \<in> set (ad_outbox (as_db x))" using assms(2) calculation(2) by simp
  ultimately show ?thesis
    using assms(3) by (auto simp: announces_def account_ok_def MessageFor_def auth_role_Valid_def confirmed_def due_by_def lease_bound_def Let_def)
qed

theorem registration_announced_witness:
  "ae_PublishedAt (ad_outbox (fst kpublished) ! 0) = Some 7 \<and> ae_ID (ad_outbox (fst kpublished) ! 0) \<in> snd kpublished \<and>
   MessageFor (\<lambda>_. False) (ad_outbox (fst kpublished) ! 0) \<noteq> None"
proof -
  have "ad_users (fst kpublished) = [kuser]" "ae_PublishedAt (ad_outbox (fst kpublished) ! 0) = Some 7" by code_simp+
  then show ?thesis using registration_announced [OF kpublish, of 0] by (simp add: Let_def)
qed

section \<open>Signup\<close>

text \<open>What a retry of the signup of \<open>u\<close> is answered, from its email, name and password.\<close>

definition retry_answer :: "auth_lib \<Rightarrow> auth_user \<Rightarrow> string \<Rightarrow> string \<Rightarrow> string \<Rightarrow> auth_error + auth_user" where
  "retry_answer lib u email name password =
     (if li_digest lib (email, name) \<noteq> li_digest lib (au_Email u, au_DisplayName u) then Inl AIdemConflict
      else case li_compare lib (au_PasswordHash u) password of
        Matches \<Rightarrow> Inr ((response_of u)\<lparr>au_IdempotentReplay := True\<rparr>) | Mismatch \<Rightarrow> Inl AIdemConflict | NotCompared \<Rightarrow> Inl AIdemUnavailable)"

lemma find_only:
  assumes "x \<in> set xs" "p x" "\<And>y. y \<in> set xs \<Longrightarrow> p y \<Longrightarrow> y = x"
  shows "find p xs = Some x"
proof (cases "find p xs")
  case None
  then show ?thesis using assms(1,2) by (auto simp: find_None_iff_all)
next
  case (Some y)
  then have "y = x" using assms(3) find_SomeD [OF Some] by blast
  with Some show ?thesis by simp
qed

text \<open>A receipt answers every retry.\<close>

lemma receipt_answers:
  assumes "auth_inv (sv_lib s) db" "r \<in> set (ad_receipts db)" "rc_Key r = k" "u \<in> set (ad_users db)" "receipt_of (sv_lib s) u r"
    "world_ok 0 T w" "T < rc_ExpiresAt r" "input_ok s input email" "\<And>m p. li_hash (sv_lib s) m p \<noteq> Some ''''"
  shows "state_of (SignUp s (Some k) input w db n) = db \<and>
    (\<not> w_fails w n \<longrightarrow> result_of (SignUp s (Some k) input w db n) = retry_answer (sv_lib s) u email (TrimSpace (in_DisplayName input)) (in_Password input))"
proof -
  let ?fp = "li_digest (sv_lib s) (email, TrimSpace (in_DisplayName input))"
  have "w_clock w n < rc_ExpiresAt r" using assms(6,7) by (auto simp: world_ok_def intro: le_less_trans)
  moreover have "x = r" if "x \<in> set (ad_receipts db)" "rc_Key x = k" for x
    using that assms(1-3) by (auto simp: auth_inv_def intro: distinct_key_eq)
  ultimately have find: "find (\<lambda>r. rc_Key r = k \<and> w_clock w n < rc_ExpiresAt r) (ad_receipts db) = Some r"
    by (intro find_only conjI assms(2,3)) blast+
  have "account_ok (sv_lib s) u" using assms(1,4) by (simp add: auth_inv_def list_all_iff)
  then have "au_PasswordHash u \<noteq> ''''" "au_ID u \<noteq> uuid_Nil" "au_Role u = ''CUSTOMER''" "au_CreatedAt u \<noteq> 0" using assms(9) by (auto simp: account_ok_def)
  then have scan: "scanSignup r ?fp = (if ?fp \<noteq> li_digest (sv_lib s) (au_Email u, au_DisplayName u) then Inl AIdemConflict
      else Inr \<lparr>sg_User = response_of u, sg_PasswordHash = au_PasswordHash u\<rparr>)"
    using assms(5) by (auto simp: scanSignup_def receipt_of_def response_of_def)
  show ?thesis
    unfolding SignUp_valid [OF assms(8)] retry_answer_def
    using find scan by (auto simp: LookupSignup_def tx_defs verifySignupReplay_def lift_auth_def split: comparison.split)
qed

text \<open>
  C32. A signup with an idempotency key happens once. When it took effect, even with a lost answer, it
  created one account with the given email and name; for 24 hours, whatever other signups, clean-ups
  and workers run, a request with that key changes nothing: with the same email and name and the
  password of the account it is answered with that account, and otherwise refused.
\<close>

theorem signup_once:
  assumes "auth_run s too_long timeout T auth_start x" and "\<And>m p. li_hash (sv_lib s) m p \<noteq> Some ''''"
    and "input_ok s input email" and "world_ok t0 T w" and "state_of (SignUp s (Some k) input w (as_db x) n) \<noteq> as_db x"
    and "auth_run s too_long timeout T' (x\<lparr>as_db := state_of (SignUp s (Some k) input w (as_db x) n)\<rparr>) y" and "T' < t0 + 24 * Hour"
    and "input_ok s input' email'" and "world_ok 0 T' w'"
  shows "\<exists>u. u \<in> set (ad_users (as_db y)) \<and> u \<notin> set (ad_users (as_db x)) \<and> au_Email u = email \<and> au_DisplayName u = TrimSpace (in_DisplayName input) \<and>
    state_of (SignUp s (Some k) input' w' (as_db y) n') = as_db y \<and>
    (\<not> w_fails w' n' \<longrightarrow> result_of (SignUp s (Some k) input' w' (as_db y) n') =
      retry_answer (sv_lib s) u email' (TrimSpace (in_DisplayName input')) (in_Password input'))"
proof -
  let ?name = "TrimSpace (in_DisplayName input)" and ?pw = "in_Password input"
  let ?db = "state_of (SignUp s (Some k) input w (as_db x) n)"
  have inv: "auth_inv (sv_lib s) (as_db x)" using run_inv [OF assms(1) start_workers] no_accounts_inv by (simp add: auth_start_def)
  have wk: "workers_ok too_long timeout (x\<lparr>as_db := ?db\<rparr>)" using run_workers [OF assms(1) start_workers] by (simp add: workers_ok_def)
  obtain u where sg: "signed_up (sv_lib s) t0 T (Some k) email ?name ?pw u (as_db x) ?db"
    using signup_effect [OF assms(3,4), of k "as_db x" n] assms(5) by blast
  have ok: "NormalizeEmail (sv_lib s) (in_Email input) = Inr email" "name_ok ?name" "validatePassword ?pw 8" using assms(3) by (simp_all add: input_ok_def)
  from signed_up_inv [OF inv sg ok] obtain r where r: "auth_inv (sv_lib s) ?db" "u \<in> set (ad_users ?db)" "au_Email u = email" "au_DisplayName u = ?name"
    "r \<in> set (ad_receipts ?db)" "rc_Key r = k" "receipt_of (sv_lib s) u r" "t0 + 24 * Hour \<le> rc_ExpiresAt r" by blast
  have "au_Email u \<notin> au_Email ` set (ad_users (as_db x))" using sg by (auto simp: signed_up_def fresh_account_def new_account_def Let_def)
  then have new: "u \<notin> set (ad_users (as_db x))" by auto
  have y: "u \<in> set (ad_users (as_db y))" "r \<in> set (ad_receipts (as_db y))" "auth_inv (sv_lib s) (as_db y)"
    using run_keeps [OF assms(6) wk] run_inv [OF assms(6) wk] r assms(7) by auto
  show ?thesis
    using receipt_answers [OF y(3,2) r(6) y(1) r(7) assms(9) _ assms(8,2), of n'] r(3,4,8) y(1) new assms(7) by (intro exI [of _ u]) auto
qed

theorem signup_once_witness:
  "let retry = SignUp kauth (Some ''key'') (kinput\<lparr>in_Password := ''another password''\<rparr>) kaworld kdb 0
   in state_of retry = kdb \<and> result_of retry = Inl AIdemConflict"
proof -
  let ?input = "kinput\<lparr>in_Password := ''another password''\<rparr>"
  have ok: "input_ok kauth kinput ''a@b.c''" "input_ok kauth ?input ''a@b.c''" by code_simp+
  have start: "state_of (SignUp kauth (Some ''key'') kinput kaworld (as_db auth_start) 0) = kdb" by (simp add: kdb_def auth_start_def)
  have "ad_users kdb \<noteq> ad_users (as_db auth_start)" by (simp add: kdb_users auth_start_def no_accounts_def)
  then have changed: "kdb \<noteq> as_db auth_start" by auto
  have name: "TrimSpace (in_DisplayName kinput) = ''Ann''" "TrimSpace (in_DisplayName ?input) = ''Ann''" by code_simp+
  have hash: "li_hash (sv_lib kauth) m p \<noteq> Some ''''" for m p by (simp add: kauth_def)
  have "\<exists>u. u \<in> set (ad_users kdb) \<and> state_of (SignUp kauth (Some ''key'') ?input kaworld kdb 0) = kdb \<and>
      (\<not> w_fails kaworld 0 \<longrightarrow> result_of (SignUp kauth (Some ''key'') ?input kaworld kdb 0) = retry_answer (sv_lib kauth) u ''a@b.c'' ''Ann'' (in_Password ?input))"
    using signup_once [where too_long = "\<lambda>_. False" and timeout = 5 and T = 7 and ?T' = 7 and ?t0.0 = 7 and k = "''key''" and n = 0 and ?n' = 0 and
      y = "auth_start\<lparr>as_db := kdb\<rparr>", OF auth_run.Here hash ok(1) kaworld_ok _ _ _ ok(2) kaworld_ok, unfolded start name, OF _ _ changed auth_run.Here] by auto
  moreover have "retry_answer (sv_lib kauth) kuser ''a@b.c'' ''Ann'' ''another password'' = Inl AIdemConflict" "\<not> w_fails kaworld 0" by code_simp+
  ultimately show ?thesis by (simp add: kdb_users Let_def)
qed

section \<open>Login\<close>

definition login_claims :: "auth_svc \<Rightarrow> auth_user \<Rightarrow> time \<Rightarrow> access_claims" where
  "login_claims s u now = \<lparr>ac_Role = au_Role u, ac_Subject = au_ID u, ac_IssuedAt = time_Truncate now Second, ac_ExpiresAt = time_Truncate (now + sv_ttl s) Second\<rparr>"

lemma FindByEmail_found:
  assumes "distinct (map au_Email (ad_users db))" "\<not> w_fails w n"
  shows "u \<in> set (ad_users db) \<Longrightarrow> auth_FindByEmail (au_Email u) w db n = (Inr u, db, Suc n)"
    and "email \<notin> au_Email ` set (ad_users db) \<Longrightarrow> auth_FindByEmail email w db n = (Inl AUserNotFound, db, Suc n)"
  using find_unique [OF assms(1), of u] find_key_None [of au_Email email "ad_users db"] assms(2)
  by (simp_all add: auth_FindByEmail_def find_user_def tx_defs)

text \<open>
  C34. A login succeeds exactly with the password of an active account. When the database answers, the
  password is compared with exactly one hash whether or not the account exists and is active; the answer
  is the error for invalid credentials exactly when no active account of that email has that password,
  and does not tell which; and the password of the account gives a signed token for its id and role.
\<close>

theorem login_sound:
  assumes "NormalizeEmail (sv_lib s) raw = Inr email" and "validatePassword password 1" and "\<not> w_fails w n" and "distinct (map au_Email (ad_users db))"
  shows "length (snd (Login s raw password w db n)) = 1 \<and>
    (fst (Login s raw password w db n) = Inl AInvalidCredentials \<longleftrightarrow>
      (\<forall>u\<in>set (ad_users db). au_Email u = email \<and> au_Status u = ''ACTIVE'' \<longrightarrow> li_compare (sv_lib s) (au_PasswordHash u) password = Mismatch)) \<and>
    (\<forall>res. fst (Login s raw password w db n) = Inr res \<longleftrightarrow>
      (\<exists>u\<in>set (ad_users db). au_Email u = email \<and> au_Status u = ''ACTIVE'' \<and> li_compare (sv_lib s) (au_PasswordHash u) password = Matches \<and>
        au_ID u \<noteq> uuid_Nil \<and> auth_role_Valid (au_Role u) \<and> li_sign (sv_lib s) (login_claims s u (w_clock w (Suc n))) = Some (re_AccessToken res) \<and>
        re_ExpiresIn res = quot (sv_ttl s) Second \<and> re_User res = u))"
proof (cases "email \<in> au_Email ` set (ad_users db)")
  case False
  then have "Login s raw password w db n = (Inl AInvalidCredentials, [sv_dummyHash s])"
    using FindByEmail_found(2) [OF assms(4,3) False] assms(1,2) by (simp add: Login_def)
  then show ?thesis using False by auto
next
  case True
  then obtain u where u: "u \<in> set (ad_users db)" "au_Email u = email" by auto
  have only: "v = u" if "v \<in> set (ad_users db)" "au_Email v = email" for v using that u assms(4) by (auto intro: distinct_key_eq)
  have login: "Login s raw password w db n =
      (if au_Status u \<noteq> ''ACTIVE'' then (Inl AInvalidCredentials, [sv_dummyHash s])
       else case li_compare (sv_lib s) (au_PasswordHash u) password of
         Mismatch \<Rightarrow> (Inl AInvalidCredentials, [au_PasswordHash u])
       | NotCompared \<Rightarrow> (Inl AStorage, [au_PasswordHash u])
       | Matches \<Rightarrow> (case Issue s u (w_clock w (Suc n)) of
           Inl e \<Rightarrow> (Inl e, [au_PasswordHash u])
         | Inr token \<Rightarrow> (Inr \<lparr>re_AccessToken = token, re_ExpiresIn = ExpiresInSeconds s, re_User = u\<rparr>, [au_PasswordHash u])))"
    using FindByEmail_found(1) [OF assms(4,3) u(1)] assms(1,2) u(2) by (simp add: Login_def)
  have ex: "(\<exists>v\<in>set (ad_users db). au_Email v = email \<and> P v) = P u" and all: "(\<forall>v\<in>set (ad_users db). au_Email v = email \<and> Q v \<longrightarrow> P v) = (Q u \<longrightarrow> P u)" for P Q
    using only u by blast+
  show ?thesis
  proof (cases "au_Status u = ''ACTIVE'' \<and> li_compare (sv_lib s) (au_PasswordHash u) password = Matches")
    case True
    show ?thesis
      unfolding ex all login using True
      by (cases "li_sign (sv_lib s) (login_claims s u (w_clock w (Suc n)))") (auto simp: Issue_def login_claims_def ExpiresInSeconds_def intro: auth_result.equality)
  next
    case False
    then show ?thesis unfolding ex all login by (cases "li_compare (sv_lib s) (au_PasswordHash u) password") auto
  qed
qed

theorem login_sound_witness: "fst (Login kauth '' A@b.c'' ''password'' kaworld kdb 0) = Inr \<lparr>re_AccessToken = ''tok'', re_ExpiresIn = 900, re_User = kuser\<rparr>"
proof -
  have "NormalizeEmail (sv_lib kauth) '' A@b.c'' = Inr ''a@b.c''" "validatePassword ''password'' 1" "\<not> w_fails kaworld 0" "distinct (map au_Email (ad_users kdb))" by code_simp+
  note sound = login_sound [OF this]
  have "au_Email kuser = ''a@b.c'' \<and> au_Status kuser = ''ACTIVE'' \<and> li_compare (sv_lib kauth) (au_PasswordHash kuser) ''password'' = Matches \<and>
      au_ID kuser \<noteq> uuid_Nil \<and> auth_role_Valid (au_Role kuser) \<and> li_sign (sv_lib kauth) (login_claims kauth kuser (w_clock kaworld 1)) = Some ''tok'' \<and>
      900 = quot (sv_ttl kauth) Second" by code_simp
  then show ?thesis using sound by (simp add: kdb_users)
qed

text \<open>What a successful login went through.\<close>

lemma login_accepts:
  assumes "fst (Login s raw password w db n) = Inr res"
  shows "re_User res \<in> set (ad_users db) \<and> NormalizeEmail (sv_lib s) raw = Inr (au_Email (re_User res)) \<and> au_Status (re_User res) = ''ACTIVE'' \<and>
    li_compare (sv_lib s) (au_PasswordHash (re_User res)) password = Matches \<and> (\<exists>now. Issue s (re_User res) now = Inr (re_AccessToken res))"
proof -
  obtain email where email: "NormalizeEmail (sv_lib s) raw = Inr email" using assms by (auto simp: Login_def split: sum.splits)
  show ?thesis
    using assms by (auto simp: Login_def email auth_FindByEmail_def find_user_def tx_defs split: if_splits option.splits sum.splits comparison.splits dest!: find_SomeD)
qed

text \<open>
  C35. Guessing is bounded. However requests to sign up and to log in interleave, when at most \<open>c\<close> of
  them are past the check of the failures at any moment, the failed logins of an account in its window
  and the attempts at it that are under way are together at most \<open>c - 1\<close> more than the limit; for
  requests one after the other that is the limit itself. At most four passwords are compared at a time.
  Once the limit is reached a request is refused without comparing a password until the window ends, and
  the time to wait that is announced covers the window.
\<close>

theorem guess_bound:
  assumes "attempts (NewRateLimiter lower maxFailures window) (Suc c) m waiting working" and "account_key (NewRateLimiter lower maxFailures window) email \<noteq> ''''"
  shows "let l = NewRateLimiter lower maxFailures window; k = account_key l email; limit = (if maxFailures \<le> 0 then 5 else maxFailures) in
    failed (lm_failures m) k + int (under_way l k waiting + under_way l k working) \<le> limit + int c \<and> length working \<le> 4 \<and>
    (\<forall>r now. lm_failures m k = Some r \<and> limit \<le> fr_count r \<and> now < fr_expiresAt r \<longrightarrow>
      (\<exists>retry. fst (admit l now email m) = Some (Retry retry) \<and> 1 \<le> retry \<and> fr_expiresAt r \<le> now + retry * Second))"
proof -
  let ?l = "NewRateLimiter lower maxFailures window"
  have limit: "fl_max ?l = (if maxFailures \<le> 0 then 5 else maxFailures)" by (simp add: NewRateLimiter_def)
  then have "guesses_ok ?l c m waiting working" by (intro attempts_ok [OF assms(1)]) simp
  then show ?thesis
    using assms(2) blocked_answer [of m ?l email] unfolding limit [symmetric] guesses_ok_def Let_def by blast
qed

text \<open>The limiter after \<open>n\<close> wrong passwords at the same time.\<close>

definition klimit :: failure_limit where
  "klimit = NewRateLimiter (\<lambda>z. z) 5 0"

definition kcount :: "nat \<Rightarrow> limiter" where
  "kcount n = NewCredentialLimiter\<lparr>lm_failures := (if n = 0 then Map.empty else [''a@b.c'' \<mapsto> \<lparr>fr_count = int n, fr_expiresAt = 7 + 15 * Minute\<rparr>]),
     lm_accounts := (if n = 0 then [] else [(''a@b.c'', \<lparr>rw_count = int n, rw_expires = 7 + Minute\<rparr>)])\<rparr>"

lemma kcount_key: "account_key klimit ''a@b.c'' = ''a@b.c''" and klimit: "fl_max klimit = 5" "fl_window klimit = 15 * Minute"
  by code_simp+

lemma kcount_live: "cleanupExpired 7 (lm_failures (kcount n)) = lm_failures (kcount n)"
  by (auto simp: cleanupExpired_def kcount_def NewCredentialLimiter_def)

lemma kcount_check:
  assumes "n < 5"
  shows "IsBlocked klimit 7 ''a@b.c'' (lm_failures (kcount n)) = (None, lm_failures (kcount n))"
  using assms by (simp add: IsBlocked_def kcount_key kcount_live klimit Let_def) (simp add: kcount_def NewCredentialLimiter_def klimit algebra_simps)

lemma kcount_fails:
  assumes "n < 20" "attempts klimit c (kcount n) (''a@b.c'' # waiting) []"
  shows "attempts klimit c (kcount (Suc n)) waiting []"
proof -
  let ?m = "(kcount n)\<lparr>lm_accounts := lm_accounts (kcount (Suc n)), lm_work := 1\<rparr>"
  have "Acquire 7 ''a@b.c'' (kcount n) = (None, ?m)" using assms(1) by (simp add: Acquire_def kcount_def NewCredentialLimiter_def budget_allow_def)
  then have "attempts klimit c ?m ([] @ waiting) [''a@b.c'']" using assms(2) by (intro attempts.Admitted [of klimit c "kcount n" "[]"]) simp_all
  moreover have "RecordFailure klimit 7 ''a@b.c'' (lm_failures (kcount n)) = lm_failures (kcount (Suc n))"
    by (simp add: RecordFailure_def kcount_key kcount_live klimit Let_def) (simp add: kcount_def NewCredentialLimiter_def klimit algebra_simps)
  then have "login_end klimit 7 ''a@b.c'' (Inl AInvalidCredentials) ?m = (Answer 401 ''INVALID_CREDENTIALS'', kcount (Suc n))"
    by (simp add: login_end_def release_def) (simp add: kcount_def NewCredentialLimiter_def)
  ultimately show ?thesis using attempts.Login_ends [of klimit c ?m waiting "[]" "''a@b.c''" "[]"] by auto
qed

lemma kcount_checked: "n < 5 \<Longrightarrow> attempts klimit c (kcount n) waiting [] \<Longrightarrow> length waiting < c \<Longrightarrow> attempts klimit c (kcount n) (''a@b.c'' # waiting) []"
  using attempts.Checked [of klimit c "kcount n" waiting "[]" 7 "''a@b.c''", OF _ kcount_check] by simp

lemma kcount_0: "kcount 0 = NewCredentialLimiter"
  by (simp add: kcount_def NewCredentialLimiter_def)

lemma kcount_attempts: "n \<le> 5 \<Longrightarrow> attempts klimit 1 (kcount n) [] []"
  by (induction n) (simp_all add: kcount_0 attempts.Idle kcount_checked kcount_fails)

theorem guess_bound_witness:
  "\<exists>retry. fst (admit klimit 8 ''a@b.c'' (kcount 5)) = Some (Retry retry) \<and> 7 + 15 * Minute \<le> 8 + retry * Second"
proof -
  have "attempts klimit (Suc 0) (kcount 5) [] []" using kcount_attempts [of 5] by simp
  then have bound: "\<forall>r now. lm_failures (kcount 5) ''a@b.c'' = Some r \<and> 5 \<le> fr_count r \<and> now < fr_expiresAt r \<longrightarrow>
      (\<exists>retry. fst (admit klimit now ''a@b.c'' (kcount 5)) = Some (Retry retry) \<and> 1 \<le> retry \<and> fr_expiresAt r \<le> now + retry * Second)"
    using guess_bound [of "\<lambda>z. z" 5 0 0 "kcount 5" "[]" "[]" "''a@b.c''", folded klimit_def] by (simp add: Let_def kcount_key)
  have "lm_failures (kcount 5) ''a@b.c'' = Some \<lparr>fr_count = 5, fr_expiresAt = 7 + 15 * Minute\<rparr>" by (simp add: kcount_def)
  then show ?thesis using bound [rule_format, of _ 8] by fastforce
qed

text \<open>
  The check of the failures and the slot are taken in two critical sections, so the limit alone does not
  bound requests that come at once: ten requests that are checked before the first of them ends all
  compare a password, although the limit is five and there are four slots.
\<close>

lemma burst_exceeds_limit: "attempts klimit 10 (kcount 10) [] [] \<and> failed (lm_failures (kcount 10)) ''a@b.c'' = 10 \<and> fl_max klimit = 5"
proof -
  have check: "attempts klimit 10 (kcount 0) (replicate n ''a@b.c'') []" if "n \<le> 10" for n
    using that by (induction n) (simp_all add: kcount_0 [symmetric] kcount_checked, simp add: kcount_0 attempts.Idle)
  have guess: "attempts klimit 10 (kcount n) (replicate k ''a@b.c'') []" if "n + k = 10" for n k
    using that
  proof (induction n arbitrary: k)
    case (Suc n)
    then have "attempts klimit 10 (kcount n) (''a@b.c'' # replicate k ''a@b.c'') []" using Suc.IH [of "Suc k"] by simp
    then show ?case using Suc.prems by (intro kcount_fails) simp_all
  qed (simp add: check)
  from guess [of 10 0] show ?thesis by (simp add: failed_def kcount_def klimit_def NewRateLimiter_def)
qed

section \<open>From the login to the services\<close>

text \<open>Printable ASCII characters but the space, of which tokens consist.\<close>

definition graphic :: "char \<Rightarrow> bool" where
  "graphic c \<longleftrightarrow> 33 \<le> (of_char c :: nat) \<and> (of_char c :: nat) \<le> 126"

lemma space_free: "graphic c \<Longrightarrow> find (\<lambda>p. p \<noteq> [] \<and> prefix p (c # z)) space_encodings = None"
proof -
  have "list_all (\<lambda>p. \<not> graphic (hd p)) space_encodings" by code_simp
  then have "\<not> graphic (hd p)" if "p \<in> set space_encodings" for p using that by (simp add: list_all_iff)
  moreover have "hd p = c" if "p \<noteq> []" "prefix p (c # z)" for p using that by (cases p) auto
  ultimately show "graphic c \<Longrightarrow> find (\<lambda>p. p \<noteq> [] \<and> prefix p (c # z)) space_encodings = None" by (auto simp: find_None_iff_all)
qed

lemma fields_token: "list_all graphic z \<Longrightarrow> part \<noteq> [] \<or> z \<noteq> [] \<Longrightarrow> fields_from part z = [rev part @ z]"
  by (induction z arbitrary: part) (simp_all add: fields_from.simps space_free)

lemma fields_word: "list_all graphic z \<Longrightarrow> part \<noteq> [] \<or> z \<noteq> [] \<Longrightarrow> fields_from part (z @ '' '' @ rest) = (rev part @ z) # fields_from [] rest"
proof (induction z arbitrary: part)
  case Nil
  have "find (\<lambda>p. p \<noteq> [] \<and> prefix p ('' '' @ rest)) space_encodings = Some '' ''" by (simp add: space_encodings_def)
  then show ?case using Nil by (simp add: fields_from.simps [of part])
next
  case (Cons c z)
  then show ?case by (simp add: fields_from.simps [of part] space_free)
qed

lemma Fields_bearer:
  assumes "list_all graphic token" "token \<noteq> ''''"
  shows "Fields (''Bearer '' @ token) = [''Bearer'', token]"
proof -
  have "list_all graphic ''Bearer''" by code_simp
  then have "fields_from [] (''Bearer'' @ '' '' @ token) = ''Bearer'' # fields_from [] token" by (subst fields_word) simp_all
  then show ?thesis using assms by (simp add: Fields_def fields_token)
qed

text \<open>
  C36. A login opens the protected routes for its owner. When the gateway verifies the tokens that the
  auth service signs, a request to a protected route with the token of a successful login and without
  identity headers of its own, within the limit of the user, reaches the service of the route with the
  id and the role of the account whose password was given.
\<close>

theorem login_reaches_services:
  assumes "headers_ok hl" and "fst (Login s raw password w db n) = Inr res"
    and jwt: "\<And>c. li_sign (sv_lib s) c = Some (re_AccessToken res) \<Longrightarrow>
      ge_jwt env (re_AccessToken res) = Some \<lparr>gc_Role = ac_Role c, gc_Subject = ac_Subject c, gc_IssuedAt = Some (ac_IssuedAt c), gc_ExpiresAt = Some (ac_ExpiresAt c)\<rparr>"
    and "list_all graphic (re_AccessToken res)" and "re_AccessToken res \<noteq> ''''" and "ge_uuid env (au_ID (re_User res))" and "\<not> ge_uuid env ''''"
    and "route_for env r = Some rt" and "rt_Gate rt = AuthGate" and "\<forall>e\<in>set (hl_visit hl (gq_Header r)). \<not> identity_name (fst e)"
    and "filter (\<lambda>e. EqualFold (fst e) ''Authorization'') (hl_visit hl (gq_Header r)) = [(k, ''Bearer '' @ re_AccessToken res)]"
    and "ge_auth env (''user:'' @ au_ID (re_User res))"
  shows "\<exists>u h. u \<in> set (ad_users db) \<and> NormalizeEmail (sv_lib s) raw = Inr (au_Email u) \<and> au_Status u = ''ACTIVE'' \<and>
    li_compare (sv_lib s) (au_PasswordHash u) password = Matches \<and> gateway hl env r = Forwarded (rt_Service rt) h \<and>
    (\<exists>e\<in>set (hl_visit hl h). EqualFold (fst e) ''X-User-ID'' \<and> snd e = au_ID u) \<and> (\<exists>e\<in>set (hl_visit hl h). EqualFold (fst e) ''X-User-Role'' \<and> snd e = au_Role u)"
proof -
  let ?u = "re_User res" and ?token = "re_AccessToken res"
  have u: "?u \<in> set (ad_users db)" "NormalizeEmail (sv_lib s) raw = Inr (au_Email ?u)" "au_Status ?u = ''ACTIVE''"
    "li_compare (sv_lib s) (au_PasswordHash ?u) password = Matches" "\<exists>now. Issue s ?u now = Inr ?token"
    using login_accepts [OF assms(2)] by blast+
  then obtain now where issued: "auth_role_Valid (au_Role ?u)" "li_sign (sv_lib s) (login_claims s ?u now) = Some ?token"
    by (auto simp: Issue_def login_claims_def split: if_splits option.splits)
  let ?l = "\<lparr>lo_UserID = au_ID ?u, lo_UserRole = au_Role ?u\<rparr>"
  have parse: "\<exists>claims. gw_Parse env ?token = Some claims \<and> gc_Subject claims = au_ID ?u \<and> gc_Role claims = au_Role ?u"
    using jwt [OF issued(2)] assms(6) issued(1) by (simp add: gw_Parse_def login_claims_def gw_role_Valid_def auth_role_Valid_def)
  have strip: "StripIdentityHeaders hl (gq_Header r) = gq_Header r"
    using assms(10) by (simp add: StripIdentityHeaders_def filter_empty_conv)
  have "hl_get hl ''Authorization'' (gq_Header r) = ''Bearer '' @ ?token" using headers_get [OF assms(1) assms(11)] by simp
  then have auth: "gw_authenticate hl env True (gq_Header r) = Some ?l"
    using parse assms(11) Fields_bearer [OF assms(4,5)] by (auto simp: gw_authenticate_def Let_def)
  have known: "au_ID ?u \<noteq> ''''" "au_Role ?u \<noteq> ''''" using assms(6,7) issued(1) by (auto simp: auth_role_Valid_def)
  define h where "h = (if rt_Service rt = NotificationService then sse_headers hl (InjectUserHeaders hl ?l (gq_Header r)) else InjectUserHeaders hl ?l (gq_Header r))"
  have "gateway hl env r = Forwarded (rt_Service rt) h"
    using assms(8,9,12) auth known by (simp add: gateway_def strip forward_def auth_key_def h_def)
  moreover have "(\<exists>e\<in>set (hl_visit hl h). EqualFold (fst e) ''X-User-ID'' \<and> snd e = au_ID ?u) \<and> (\<exists>e\<in>set (hl_visit hl h). EqualFold (fst e) ''X-User-Role'' \<and> snd e = au_Role ?u)"
    using injected_arrive [OF assms(1), where l = ?l and ?h0.0 = "gq_Header r" and svc = "rt_Service rt" and h = h, unfolded strip, simplified, OF known] h_def by simp
  ultimately show ?thesis using u(1-4) by blast
qed

text \<open>The order request of the account in the sample.\<close>

definition kauth_order :: "(string \<times> string) list gw_request" where
  "kauth_order = krequest\<lparr>gq_Header := [(''Authorization'', ''Bearer tok'')]\<rparr>"

definition kverifier :: gw_env where
  "kverifier = kenv\<lparr>ge_jwt := (\<lambda>t. if t = ''tok'' then Some \<lparr>gc_Role = ''CUSTOMER'', gc_Subject = ''uuu'', gc_IssuedAt = Some 0, gc_ExpiresAt = Some (900 * Second)\<rparr> else None)\<rparr>"

theorem login_reaches_services_witness:
  "\<exists>h. gateway klib kverifier kauth_order = Forwarded OrderService h \<and> (\<exists>e\<in>set (hl_visit klib h). EqualFold (fst e) ''X-User-ID'' \<and> snd e = ''uuu'')"
proof -
  let ?res = "\<lparr>re_AccessToken = ''tok'', re_ExpiresIn = 900, re_User = kuser\<rparr>"
  have login: "fst (Login kauth ''a@b.c'' ''password'' kaworld kdb 0) = Inr ?res" by code_simp
  have jwt: "ge_jwt kverifier (re_AccessToken ?res) = Some \<lparr>gc_Role = ac_Role c, gc_Subject = ac_Subject c, gc_IssuedAt = Some (ac_IssuedAt c), gc_ExpiresAt = Some (ac_ExpiresAt c)\<rparr>"
    if "li_sign (sv_lib kauth) c = Some (re_AccessToken ?res)" for c
    using that by (simp add: kauth_def kverifier_def kclaims_def split: if_splits)
  have token: "list_all graphic (re_AccessToken ?res)" "re_AccessToken ?res \<noteq> ''''" "ge_uuid kverifier (au_ID (re_User ?res))" "\<not> ge_uuid kverifier ''''" by code_simp+
  have route: "route_for kverifier kauth_order = Some (route_All ''/orders'' AuthGate OrderService)" "rt_Gate (route_All ''/orders'' AuthGate OrderService) = AuthGate" by code_simp+
  have headers: "\<forall>e\<in>set (hl_visit klib (gq_Header kauth_order)). \<not> identity_name (fst e)"
    "filter (\<lambda>e. EqualFold (fst e) ''Authorization'') (hl_visit klib (gq_Header kauth_order)) = [(''Authorization'', ''Bearer '' @ re_AccessToken ?res)]"
    "ge_auth kverifier (''user:'' @ au_ID (re_User ?res))" by code_simp+
  from login_reaches_services [OF klib_ok login jwt token route headers]
  show ?thesis by (auto simp: kdb_users kuser_def route_All_def)
qed

end
