(* ===== verification/Gelato_Json.thy ===== *)
theory Gelato_Json
  imports Gelato_Text
begin

text \<open>What the services use of \<open>encoding/json\<close>: documents, and reading their members at a type.\<close>

text \<open>A document as the tokens of \<open>json.Decoder\<close> show it: the members of an object in order, numbers as written.\<close>

datatype json = JNull | JBool bool | JNum string | JStr string | JArr "json list" | JObj "(string \<times> json) list"

text \<open>A number that fits \<open>int64\<close>: digits with an optional minus sign.\<close>

definition json_int64 :: "string \<Rightarrow> int option" where
  "json_int64 z =
     (let neg = prefix ''-'' z; ds = (if neg then tl z else z);
          v = foldl (\<lambda>acc c. acc * 10 + (int (of_char c) - 48)) 0 ds; n = (if neg then - v else v) in
      if ds = [] \<or> \<not> list_all (\<lambda>c. 48 \<le> (of_char c :: nat) \<and> (of_char c :: nat) \<le> 57) ds then None
      else if n < - (2 ^ 63) \<or> n \<ge> 2 ^ 63 then None else Some n)"

text \<open>A member of the object at a type: \<open>None\<close> when it has another type, \<open>Some None\<close> when it is missing.\<close>

definition member_as :: "(json \<Rightarrow> 'a option) \<Rightarrow> (string \<times> json) list \<Rightarrow> string \<Rightarrow> 'a option option" where
  "member_as conv ms k = (case map_of ms k of None \<Rightarrow> Some None | Some v \<Rightarrow> map_option Some (conv v))"

fun as_string :: "json \<Rightarrow> string option" where
  "as_string (JStr z) = Some z" | "as_string _ = None"

fun as_bool :: "json \<Rightarrow> bool option" where
  "as_bool (JBool b) = Some b" | "as_bool _ = None"

fun as_int64 :: "json \<Rightarrow> int option" where
  "as_int64 (JNum z) = json_int64 z" | "as_int64 _ = None"

text \<open>The value of a field of a struct that is not a pointer.\<close>

definition field_or :: "'a \<Rightarrow> 'a option \<Rightarrow> 'a" where
  "field_or d v = (case v of None \<Rightarrow> d | Some x \<Rightarrow> x)"

end
