(* ===== verification/Gelato_Keeps.thy ===== *)
theory Gelato_Keeps
  imports Gelato_Procs
begin

text \<open>
  Footprints: which computations keep a predicate of the tables whatever fails (\<open>keeps\<close>), rule by rule
  over the transaction monad, and which pairs of states the steps of a handler can make while others run
  between them (\<open>steps\<close>).
\<close>

section \<open>Transactions\<close>

lemma keeps_ret: "keeps I (ret a)" and keeps_throw: "keeps I (throw e)" and keeps_query: "keeps I (query e f)" and keeps_newUUID: "keeps I newUUID"
  and keeps_time: "keeps I time_Now" and keeps_query_now: "keeps I (query_now e g)" and keeps_clock: "keeps I (clock_timestamp e)"
  by (auto simp: keeps_def tx_defs clock_timestamp_def)

lemma keeps_bindT: "keeps I m \<Longrightarrow> (\<And>a. keeps I (f a)) \<Longrightarrow> keeps I (bindT m f)"
  by (rule keepsI, simp only: wp_bindT, rule wp_mono, erule (1) keeps_wp) (auto intro: keeps_wp)

lemma keeps_exec: "(\<And>s. I s \<Longrightarrow> I (f s)) \<Longrightarrow> keeps I (exec e f)"
  by (rule keepsI) (simp add: wp_exec)

lemma keeps_stmt: "(\<And>s a s'. I s \<Longrightarrow> f s = Inr (a, s') \<Longrightarrow> I s') \<Longrightarrow> keeps I (stmt e f)"
  by (rule keepsI) (auto simp: wp_stmt split: sum.splits prod.splits)

lemma keeps_forT: "(\<And>x. keeps I (f x)) \<Longrightarrow> keeps I (forT xs f)"
  by (induction xs) (auto intro: keeps_ret keeps_bindT)

lemma keeps_mapT: "(\<And>x. keeps I (f x)) \<Longrightarrow> keeps I (mapT f xs)"
  by (induction xs) (auto intro: keeps_ret keeps_bindT)

lemma keeps_dropped: "keeps I m \<Longrightarrow> keeps I (dropped_err e m)"
  by (rule keepsI) (simp add: wp_dropped_err keeps_wp)

lemma keeps_atomic: "keeps I m \<Longrightarrow> keeps I (atomically e m)"
  by (rule keeps_atomically, rule wp_mono, erule (1) keeps_wp) (auto split: outcome.split)

lemma keeps_prod: "(\<And>a b. x = (a, b) \<Longrightarrow> keeps I (f a b)) \<Longrightarrow> keeps I (case x of (a, b) \<Rightarrow> f a b)"
  by (cases x) simp

lemma keeps_option: "(x = None \<Longrightarrow> keeps I m) \<Longrightarrow> (\<And>a. x = Some a \<Longrightarrow> keeps I (f a)) \<Longrightarrow> keeps I (case x of None \<Rightarrow> m | Some a \<Rightarrow> f a)"
  by (cases x) simp_all

lemma keeps_sum: "(\<And>e. x = Inl e \<Longrightarrow> keeps I (g e)) \<Longrightarrow> (\<And>a. x = Inr a \<Longrightarrow> keeps I (f a)) \<Longrightarrow> keeps I (case x of Inl e \<Rightarrow> g e | Inr a \<Rightarrow> f a)"
  by (cases x) simp_all

lemma keeps_if: "(b \<Longrightarrow> keeps I m) \<Longrightarrow> (\<not> b \<Longrightarrow> keeps I m') \<Longrightarrow> keeps I (if b then m else m')"
  by simp

lemmas keeps_intros = keeps_ret keeps_throw keeps_query keeps_newUUID keeps_time keeps_query_now keeps_clock keeps_bindT keeps_forT keeps_mapT
  keeps_dropped keeps_atomic keeps_prod keeps_option keeps_sum keeps_if

section \<open>Handlers\<close>

text \<open>
  The runs of a handler with anything happening between its steps: the states before and after each of its
  own steps, and what is left of it.
\<close>

inductive path :: "('w, 's, 'a) proc \<Rightarrow> ('s \<times> 's) list \<Rightarrow> ('w, 's, 'a) proc \<Rightarrow> bool" where
  Start: "path p [] p"
| Move: "path p tr (Step g) \<Longrightarrow> path p (tr @ [(s, fst (g e s))]) (snd (g e s))"

lemma path_Done [simp]: "path (Done a) tr q \<longleftrightarrow> tr = [] \<and> q = Done a"
proof
  have "path p tr q \<Longrightarrow> p = Done a \<Longrightarrow> tr = [] \<and> q = Done a" for p by (induction rule: path.induct) simp_all
  then show "path (Done a) tr q \<Longrightarrow> tr = [] \<and> q = Done a" by blast
qed (simp add: path.Start)

lemma path_append: "path q tr2 r \<Longrightarrow> path p tr1 q \<Longrightarrow> path p (tr1 @ tr2) r"
  by (induction rule: path.induct) (auto simp flip: append_assoc intro: path.Move)

text \<open>The path of a handler that runs alone in the given environments.\<close>

fun trace :: "'w list \<Rightarrow> ('w, 's, 'a) proc \<Rightarrow> 's \<Rightarrow> ('s \<times> 's) list \<times> ('w, 's, 'a) proc" where
  "trace es (Done a) s = ([], Done a)"
| "trace [] (Step g) s = ([], Step g)"
| "trace (e # es) (Step g) s = (case g e s of (s', p) \<Rightarrow> (case trace es p s' of (tr, q) \<Rightarrow> ((s, s') # tr, q)))"

lemma trace_path: "path p (fst (trace es p s)) (snd (trace es p s))"
proof (induction es p s rule: trace.induct)
  case (3 e es g s)
  have "path (Step g) [(s, fst (g e s))] (snd (g e s))" using path.Move [OF path.Start, of g s e] by simp
  with 3 [of "fst (g e s)" "snd (g e s)"] show ?case by (auto simp: split_beta dest: path_append)
qed (simp_all add: path.Start)

lemma path_bind:
  assumes "path (bindP p f) tr q"
  shows "(\<exists>p'. path p tr p' \<and> q = bindP p' f) \<or> (\<exists>a tr1 tr2. tr = tr1 @ tr2 \<and> path p tr1 (Done a) \<and> path (f a) tr2 q)"
  using assms
proof (induction "bindP p f" tr q rule: path.induct)
  case Start
  then show ?case using path.Start by blast
next
  case (Move tr g s e)
  from Move(2) show ?case
  proof (elim disjE exE conjE)
    fix p' assume p': "path p tr p'" "Step g = bindP p' f"
    show ?case
    proof (cases p')
      case (Done a)
      with p' have "path (f a) [] (Step g)" by (simp add: path.Start)
      with path.Move [OF this, of s e] p'(1) Done show ?thesis by (metis append_Nil)
    next
      case (Step h)
      with p' have "fst (g e s) = fst (h e s)" "snd (g e s) = bindP (snd (h e s)) f" by simp_all
      with path.Move [of p tr h s e] p'(1) Step show ?thesis by metis
    qed
  next
    fix a tr1 tr2 assume "tr = tr1 @ tr2" "path p tr1 (Done a)" "path (f a) tr2 (Step g)"
    with path.Move [of "f a" tr2 g s e] show ?case by (metis append_assoc)
  qed
qed

lemma path_bind_Done:
  assumes "path (bindP p f) tr (Done b)"
  obtains a tr1 tr2 where "tr = tr1 @ tr2" "path p tr1 (Done a)" "path (f a) tr2 (Done b)"
  using path_bind [OF assms]
proof (elim disjE exE conjE)
  fix p' assume p': "path p tr p'" "Done b = bindP p' f"
  then obtain a where "p' = Done a" by (cases p') simp_all
  with p' show thesis by (intro that [of tr "[]" a]) (auto intro: path.Start)
qed (use that in blast)

lemma path_atom:
  assumes "path (atom g) tr q"
  shows "tr = [] \<and> q = atom g \<or> (\<exists>e s. tr = [(s, fst (g e s))] \<and> q = Done (snd (g e s)))"
  using assms
proof (induction "atom g" tr q rule: path.induct)
  case (Move tr h s e)
  from Move(2) show ?case by (auto simp: atom_def split_beta)
qed simp

definition steps :: "('s \<Rightarrow> 's \<Rightarrow> bool) \<Rightarrow> ('w, 's, 'a) proc \<Rightarrow> bool" where
  "steps S p \<longleftrightarrow> (\<forall>tr q. path p tr q \<longrightarrow> (\<forall>(s, t)\<in>set tr. S s t))"

lemma steps_Done: "steps S (Done a)"
  by (simp add: steps_def)

lemma steps_bind: "steps S p \<Longrightarrow> (\<And>a. steps S (f a)) \<Longrightarrow> steps S (bindP p f)"
  unfolding steps_def by (fastforce dest: path_bind)

lemma steps_atom: "(\<And>e s. S s (fst (g e s))) \<Longrightarrow> steps S (atom g)"
  unfolding steps_def by (auto dest!: path_atom)

lemma steps_if: "(b \<Longrightarrow> steps S p) \<Longrightarrow> (\<not> b \<Longrightarrow> steps S q) \<Longrightarrow> steps S (if b then p else q)"
  by simp

lemma steps_option: "(x = None \<Longrightarrow> steps S p) \<Longrightarrow> (\<And>a. x = Some a \<Longrightarrow> steps S (f a)) \<Longrightarrow> steps S (case x of None \<Rightarrow> p | Some a \<Rightarrow> f a)"
  by (cases x) simp_all

lemma steps_sum: "(\<And>a. x = Inl a \<Longrightarrow> steps S (g a)) \<Longrightarrow> (\<And>a. x = Inr a \<Longrightarrow> steps S (f a)) \<Longrightarrow> steps S (case x of Inl a \<Rightarrow> g a | Inr a \<Rightarrow> f a)"
  by (cases x) simp_all

lemma steps_prod: "(\<And>a b. x = (a, b) \<Longrightarrow> steps S (f a b)) \<Longrightarrow> steps S (case x of (a, b) \<Rightarrow> f a b)"
  by (cases x) simp

lemmas steps_intros = steps_Done steps_bind steps_if steps_option steps_sum steps_prod

end
