(* ===== verification/Inventory_Http.thy ===== *)
theory Inventory_Http
  imports Inventory_Props Inventory_Rpc Gelato_Json Gelato_Keeps
begin

text \<open>
  The REST surface of the inventory service (\<open>transport/http.go\<close>, \<open>auth/verifier.go\<close>): token check, the
  strict reading of request bodies, idempotency keys and the routes with their roles.
\<close>

section \<open>Requests\<close>

record stock_claims =
  st_Role :: string
  st_Subject :: string
  st_IssuedAt :: "time option"
  st_ExpiresAt :: "time option"

text \<open>
  Code outside the repository: \<open>sw_jwt\<close> is \<open>jwt.ParseWithClaims\<close> with the options of the verifier, \<open>sw_parse\<close>
  reads the only JSON value of a text, \<open>sw_time\<close> is \<open>time.Time.UnmarshalJSON\<close>, \<open>sw_error\<close> tells what an error
  of the database driver is.
\<close>

record stock_web =
  sw_service :: service
  sw_jwt :: "string \<Rightarrow> stock_claims option"
  sw_parse :: "string \<Rightarrow> json option"
  sw_time :: "string \<Rightarrow> time option"
  sw_error :: driver_error

text \<open>The values of the headers, the parsed query (\<open>None\<close> when it does not parse) and the body.\<close>

record stock_request =
  sq_Authorization :: "string list"
  sq_Keys :: "string list"
  sq_ContentType :: string
  sq_Query :: "(string \<times> string list) list option"
  sq_Body :: string

datatype stock_answer =
    StockError int string
  | StockLevels "availability list" time
  | StockBatches "batch list"
  | StockBatch int batch
  | StockWaste waste_record

definition stock_failure :: "stock_web \<Rightarrow> ierror \<Rightarrow> stock_answer" where
  "stock_failure web e = (case classify (sw_error web) e of (httpCode, _, code, _) \<Rightarrow> StockError httpCode code)"

definition stock_role_Valid :: "string \<Rightarrow> bool" where
  "stock_role_Valid r \<longleftrightarrow> r = ''CUSTOMER'' \<or> r = ''STAFF'' \<or> r = ''MANAGER''"

definition stock_Parse :: "stock_web \<Rightarrow> string \<Rightarrow> stock_claims option" where
  "stock_Parse web raw = (case sw_jwt web raw of
     None \<Rightarrow> None
   | Some claims \<Rightarrow>
       if st_IssuedAt claims = None \<or> st_ExpiresAt claims = None then None
       else if s_uuidParse (sw_service web) (st_Subject claims) = None \<or> \<not> stock_role_Valid (st_Role claims) then None
       else Some claims)"

text \<open>\<open>Inr None\<close> is an anonymous request.\<close>

definition identity :: "stock_web \<Rightarrow> bool \<Rightarrow> stock_request \<Rightarrow> stock_answer + stock_claims option" where
  "identity web required q =
     (if sq_Authorization q = [] \<and> \<not> required then Inr None
      else if length (sq_Authorization q) \<noteq> 1 then Inl (StockError 401 ''UNAUTHORIZED'')
      else
        let parts = Fields (hd (sq_Authorization q)) in
        if length parts \<noteq> 2 \<or> \<not> EqualFold (parts ! 0) ''Bearer'' then Inl (StockError 401 ''UNAUTHORIZED'')
        else case stock_Parse web (parts ! 1) of
          None \<Rightarrow> Inl (StockError 401 ''UNAUTHORIZED'')
        | Some claims \<Rightarrow> Inr (Some claims))"

section \<open>Bodies\<close>

fun uniqueJSON :: "json \<Rightarrow> bool" where
  "uniqueJSON (JObj ms) \<longleftrightarrow> distinct (map fst ms) \<and> (\<forall>m\<in>set ms. uniqueJSON (snd m))"
| "uniqueJSON (JArr xs) \<longleftrightarrow> (\<forall>x\<in>set xs. uniqueJSON x)"
| "uniqueJSON _ \<longleftrightarrow> True"

text \<open>The members of an acceptable body: known fields that are not null.\<close>

definition stock_decode :: "stock_web \<Rightarrow> string list \<Rightarrow> stock_request \<Rightarrow> (string \<times> json) list option" where
  "stock_decode web allowed q =
     (if map ascii_lower (TrimSpace (takeWhile (\<lambda>c. c \<noteq> CHR '';'') (sq_ContentType q))) \<noteq> ''application/json'' then None
      else if int (length (sq_Body q)) > 2 ^ 20 then None
      else if TrimSpace (sq_Body q) = '''' \<or> hd (TrimSpace (sq_Body q)) \<noteq> CHR ''{'' then None
      else case sw_parse web (sq_Body q) of
        Some (JObj ms) \<Rightarrow>
          if \<not> uniqueJSON (JObj ms) then None
          else if \<not> list_all (\<lambda>m. fst m \<in> set allowed \<and> snd m \<noteq> JNull) ms then None
          else Some ms
      | _ \<Rightarrow> None)"

definition decode_create :: "stock_web \<Rightarrow> stock_request \<Rightarrow> create_input option" where
  "decode_create web q =
     (case stock_decode web [''batch_code'', ''flavor_id'', ''production_date'', ''expires_at'', ''initial_portions'', ''unit_cost_minor'', ''currency''] q of
        None \<Rightarrow> None
      | Some fs \<Rightarrow>
          (case (member_as as_string fs ''batch_code'', member_as as_string fs ''flavor_id'', member_as as_string fs ''production_date'',
             member_as (\<lambda>v. Option.bind (as_string v) (sw_time web)) fs ''expires_at'', member_as as_int64 fs ''initial_portions'',
             member_as as_int64 fs ''unit_cost_minor'', member_as as_string fs ''currency'') of
             (Some code, Some fl, Some day, Some ex, Some n, Some u, Some cur) \<Rightarrow>
               Some \<lparr>ci_BatchCode = code, ci_FlavorID = field_or '''' fl, ci_ProductionDate = field_or '''' day, ci_ExpiresAt = field_or 0 ex,
                 ci_Initial = field_or 0 n, ci_UnitCost = u, ci_Currency = field_or '''' cur\<rparr>
           | _ \<Rightarrow> None))"

definition reason_of :: "string \<Rightarrow> waste_reason" where
  "reason_of z = (if z = ''EXPIRED'' then WExpired else if z = ''DAMAGED'' then WDamaged else if z = ''QUALITY'' then WQuality
     else if z = ''ADJUSTMENT'' then WAdjustment else WOther z)"

definition decode_waste :: "stock_web \<Rightarrow> stock_request \<Rightarrow> waste_input option" where
  "decode_waste web q =
     (case stock_decode web [''portions'', ''reason'', ''note'', ''idempotency_key''] q of
        None \<Rightarrow> None
      | Some fs \<Rightarrow>
          (case (member_as as_int64 fs ''portions'', member_as as_string fs ''reason'', member_as as_string fs ''note'', member_as as_string fs ''idempotency_key'') of
             (Some n, Some re, Some note, Some key) \<Rightarrow>
               Some \<lparr>wi_Portions = field_or 0 n, wi_Reason = reason_of (field_or '''' re), wi_Note = field_or '''' note, wi_Key = field_or '''' key\<rparr>
           | _ \<Rightarrow> None))"

definition with_rest_key :: "stock_web \<Rightarrow> stock_request \<Rightarrow> ctx \<Rightarrow> ierror + ctx" where
  "with_rest_key web q c =
     (let values = sq_Keys q in
      if values = [] \<or> length values = 1 \<and> TrimSpace (hd values) = '''' then Inr c
      else if length values \<noteq> 1 then Inl ErrInvalid
      else WithRESTKey (sw_service web) c (TrimSpace (hd values)))"

definition queryValid :: "stock_request \<Rightarrow> string list \<Rightarrow> bool" where
  "queryValid q allowed = (case sq_Query q of
     None \<Rightarrow> False
   | Some kvs \<Rightarrow> list_all (\<lambda>(k, vs). k \<in> set allowed \<and> length vs = 1 \<and> hd vs \<noteq> '''') kvs)"

definition query_value :: "stock_request \<Rightarrow> string \<Rightarrow> string" where
  "query_value q k = (case sq_Query q of None \<Rightarrow> '''' | Some kvs \<Rightarrow> (case map_of kvs k of Some (v # _) \<Rightarrow> v | _ \<Rightarrow> ''''))"

section \<open>Routes\<close>

datatype stock_endpoint =
    GetAvailability
  | GetBatches
  | GetBatch string
  | PostBatch
  | PostWaste string

definition no_ctx :: ctx where
  "no_ctx = \<lparr>c_actorID = '''', c_actorRole = '''', c_restKey = None\<rparr>"

text \<open>Running an operation of the service.\<close>

definition stock_run :: "stock_web \<Rightarrow> 'a itx \<Rightarrow> ('a \<Rightarrow> stock_answer) \<Rightarrow> stock_answer itx" where
  "stock_run web m answer = (\<lambda>w s n. case m w s n of (Inl e, s, n) \<Rightarrow> (Inr (stock_failure web e), s, n) | (Inr a, s, n) \<Rightarrow> (Inr (answer a), s, n))"

definition protect :: "stock_web \<Rightarrow> bool \<Rightarrow> stock_request \<Rightarrow> (ctx \<Rightarrow> stock_claims \<Rightarrow> stock_answer itx) \<Rightarrow> stock_answer itx" where
  "protect web manager q fn = (case identity web True q of
     Inl a \<Rightarrow> ret a
   | Inr None \<Rightarrow> ret (StockError 401 ''UNAUTHORIZED'')
   | Inr (Some claims) \<Rightarrow>
       if st_Role claims \<noteq> ''MANAGER'' \<and> (manager \<or> st_Role claims \<noteq> ''STAFF'') then ret (StockError 403 ''FORBIDDEN'')
       else fn (WithActor (sw_service web) no_ctx (st_Subject claims) (st_Role claims)) claims)"

definition http_batches :: "stock_web \<Rightarrow> stock_request \<Rightarrow> stock_answer itx" where
  "http_batches web q =
     (if \<not> queryValid q [''flavor_id'', ''status''] then ret (stock_failure web ErrInvalid)
      else stock_run web (List_batches (sw_service web) (query_value q ''flavor_id'') (query_value q ''status'')) StockBatches)"

definition http_availability :: "stock_web \<Rightarrow> stock_request \<Rightarrow> stock_answer itx" where
  "http_availability web q = (case identity web False q of
     Inl a \<Rightarrow> ret a
   | Inr _ \<Rightarrow>
       if \<not> queryValid q [''flavor_id''] then ret (stock_failure web ErrInvalid)
       else stock_run web (Availability (sw_service web) (query_value q ''flavor_id'')) (\<lambda>(items, t). StockLevels items t))"

definition http_create :: "stock_web \<Rightarrow> stock_request \<Rightarrow> ctx \<Rightarrow> stock_answer itx" where
  "http_create web q c = (case decode_create web q of
     None \<Rightarrow> ret (stock_failure web ErrInvalid)
   | Some input \<Rightarrow>
       (case with_rest_key web q c of
          Inl e \<Rightarrow> ret (stock_failure web e)
        | Inr c \<Rightarrow> stock_run web (Create (sw_service web) c input) (StockBatch 201)))"

definition http_waste :: "stock_web \<Rightarrow> stock_request \<Rightarrow> string \<Rightarrow> ctx \<Rightarrow> stock_claims \<Rightarrow> stock_answer itx" where
  "http_waste web q i c claims = (case decode_waste web q of
     None \<Rightarrow> ret (stock_failure web ErrInvalid)
   | Some input \<Rightarrow>
       (case with_rest_key web q c of
          Inl e \<Rightarrow> ret (stock_failure web e)
        | Inr c \<Rightarrow> stock_run web (Waste (sw_service web) c i (st_Subject claims) input) StockWaste))"

definition stock_http :: "stock_web \<Rightarrow> stock_endpoint \<Rightarrow> stock_request \<Rightarrow> stock_answer itx" where
  "stock_http web e q = (case e of
     GetAvailability \<Rightarrow> http_availability web q
   | GetBatches \<Rightarrow> protect web False q (\<lambda>_ _. http_batches web q)
   | GetBatch i \<Rightarrow> protect web False q (\<lambda>_ _. stock_run web (Get (sw_service web) i) (StockBatch 200))
   | PostBatch \<Rightarrow> protect web True q (\<lambda>c _. http_create web q c)
   | PostWaste i \<Rightarrow> protect web False q (\<lambda>c claims. http_waste web q i c claims))"

section \<open>Who can see and change the stock\<close>

text \<open>The caller: one verified token.\<close>

definition stock_caller :: "stock_web \<Rightarrow> stock_request \<Rightarrow> string \<Rightarrow> string \<Rightarrow> bool" where
  "stock_caller web q i role \<longleftrightarrow> (\<exists>header scheme token claims. sq_Authorization q = [header] \<and> Fields header = [scheme, token] \<and> EqualFold scheme ''Bearer'' \<and>
     stock_Parse web token = Some claims \<and> st_Role claims = role \<and> s_uuidParse (sw_service web) (st_Subject claims) = Some i)"

lemma identity_caller:
  assumes "identity web True q = Inr (Some claims)"
  shows "\<exists>i. stock_caller web q i (st_Role claims) \<and> s_uuidParse (sw_service web) (st_Subject claims) = Some i"
proof -
  obtain header where h: "sq_Authorization q = [header]" using assms by (cases "sq_Authorization q") (auto simp: identity_def split: if_splits)
  have ok: "length (Fields header) = 2" "EqualFold (Fields header ! 0) ''Bearer''" "stock_Parse web (Fields header ! 1) = Some claims"
    using assms h by (auto simp: identity_def Let_def split: if_splits option.splits)
  obtain i where i: "s_uuidParse (sw_service web) (st_Subject claims) = Some i" using ok(3) by (auto simp: stock_Parse_def split: option.splits if_splits)
  have "Fields header = [Fields header ! 0, Fields header ! 1]" using ok(1) by (auto simp: length_Suc_conv numeral_2_eq_2)
  then show ?thesis unfolding stock_caller_def using h ok(2,3) i by blast
qed

text \<open>Every movement and every waste record beyond the given ones is signed by a user.\<close>

definition booked :: "movement_row set \<Rightarrow> waste_row set \<Rightarrow> string \<Rightarrow> string \<Rightarrow> inv_db \<Rightarrow> bool" where
  "booked M W i role s \<longleftrightarrow> (\<forall>m\<in>set (movements s). m \<in> M \<or> mv_Actor m = Some (i, role)) \<and> (\<forall>x\<in>set (wastes s). x \<in> W \<or> w_ActorID x = Some i)"

lemma booked_frame [simp]:
  "booked M W i role (s\<lparr>batches := b\<rparr>) = booked M W i role s" "booked M W i role (s\<lparr>idempotency := x\<rparr>) = booked M W i role s"
  "booked M W i role (s\<lparr>outbox := y\<rparr>) = booked M W i role s"
  by (simp_all add: booked_def)

section \<open>The operations of the surface\<close>

lemma keeps_same_read:
  "keeps I (scanBatch i)" "keeps I (lockFlavors fs)" "keeps I now" "keeps I (lookupRESTMutation dec sv op key input)"
  by (auto simp: scanBatch_def lockFlavors_def now_def lock_def lookupRESTMutation_def intro!: keeps_intros)

lemma reads_same: "keeps I (Get sv i)" "keeps I (List_batches sv fl st)" "keeps I (Availability sv fl)"
  by (auto simp: Get_def List_batches_def Availability_def intro!: keeps_intros keeps_same_read)

lemma keeps_claim: "keeps (booked M W i role) (claim_keys h ks prev cl rp)"
proof (induction h ks prev cl rp rule: claim_keys.induct)
  case (2 h k ks prev cl rp)
  have new: "keeps (booked M W i role) (stmt ErrStorage (\<lambda>db. Inr (insert_idem k h db)))"
    by (auto simp: insert_idem_def split: if_splits intro!: keeps_stmt)
  show ?case unfolding claim_keys.simps by (intro keeps_intros new) (use 2 in blast)+
qed (simp add: keeps_ret)

lemma keeps_save_response: "keeps (booked M W i role) (save_response resp k)"
  by (auto simp: save_response_def split: if_splits intro!: keeps_stmt)

lemma keeps_mutateKeys: "keeps (booked M W i role) fn \<Longrightarrow> keeps (booked M W i role) (mutateKeys enc dec sv keys input fn)"
  unfolding mutateKeys_def mutate_body_def by (intro keeps_intros keeps_claim keeps_save_response)

lemma keeps_alerts:
  "keeps (booked M W i role) (CheckAndNotifyLowStock fl t)" "keeps (booked M W i role) (ResetLowStockNotified fl t)"
  "keeps (booked M W i role) (insert_outbox x t d)" "keeps (booked M W i role) (saveBatch b t)" "keeps (booked M W i role) (insert_batch b)"
proof -
  show outbox: "keeps (booked M W i role) (insert_outbox x t d)" for x t d by (auto simp: insert_outbox_def split: if_splits intro!: keeps_stmt)
  show "keeps (booked M W i role) (CheckAndNotifyLowStock fl t)" "keeps (booked M W i role) (ResetLowStockNotified fl t)"
    "keeps (booked M W i role) (saveBatch b t)" "keeps (booked M W i role) (insert_batch b)"
    by (auto simp: CheckAndNotifyLowStock_def ResetLowStockNotified_def set_low_stock_def saveBatch_def insert_batch_def split: if_splits
        intro!: keeps_intros keeps_exec keeps_stmt outbox)
qed

lemma keeps_movement: "c_actorID c = i \<Longrightarrow> c_actorRole c = role \<Longrightarrow> i \<noteq> '''' \<Longrightarrow> keeps (booked M W i role) (movement c b r k n t)"
  unfolding movement_def
  by (intro keeps_intros keeps_stmt) (auto simp: new_movement_def booked_def split: if_splits)

lemma keeps_insert_waste: "keeps (booked M W i role) (insert_waste x (Some i))"
  unfolding insert_waste_def
  by (intro keeps_stmt) (auto simp: booked_def waste_record.defs waste_row.defs split: if_splits)

lemma keeps_create_tx: "c_actorID c = i \<Longrightarrow> c_actorRole c = role \<Longrightarrow> i \<noteq> '''' \<Longrightarrow> keeps (booked M W i role) (create_tx c input b code)"
  unfolding create_tx_def Let_def by (intro keeps_intros keeps_same_read keeps_alerts keeps_movement)

lemma keeps_waste_tx: "c_actorID c = i \<Longrightarrow> c_actorRole c = role \<Longrightarrow> i \<noteq> '''' \<Longrightarrow> keeps (booked M W i role) (waste_tx c b i input)"
  unfolding waste_tx_def recordWaste_def Let_def by (simp, intro keeps_intros keeps_same_read keeps_alerts keeps_movement keeps_insert_waste)

lemma Create_booked: "keeps (booked M W (c_actorID c) (c_actorRole c)) (Create sv c input)"
  unfolding Create_def mutate_def Let_def
  by (intro keeps_intros keeps_same_read keeps_mutateKeys keeps_create_tx) auto

lemma Waste_booked:
  assumes "\<And>actor. ID sv raw = Inr actor \<Longrightarrow> c_actorID c = actor \<and> c_actorRole c = role \<and> actor \<noteq> ''''" and "s_uuidParse sv raw = Some i"
  shows "keeps (booked M W i role) (Waste sv c b raw input)"
  unfolding Waste_def Let_def using assms
  by (intro keeps_intros keeps_mutateKeys) (auto simp: ID_def intro!: keeps_waste_tx split: if_splits)

section \<open>Access\<close>

lemma keeps_run: "keeps I m \<Longrightarrow> keeps I (stock_run web m f)"
proof -
  assume m: "keeps I m"
  have "state_of (stock_run web m f w s n) = state_of (m w s n)" for w s n
    by (cases "m w s n") (auto simp: stock_run_def split: sum.splits)
  with m show ?thesis by (simp add: keeps_def)
qed

lemma http_reads_same: "keeps I (http_batches web q)" "keeps I (http_availability web q)" "keeps I (stock_run web (Get sv i) f)"
  unfolding http_batches_def http_availability_def by (intro keeps_intros keeps_run reads_same)+

text \<open>The actor of a request whose token is good.\<close>

lemma rest_key_actor: "with_rest_key web q c = Inr c' \<Longrightarrow> c_actorID c' = c_actorID c \<and> c_actorRole c' = c_actorRole c"
  by (auto simp: with_rest_key_def WithRESTKey_def Let_def split: if_splits sum.splits)

lemma actor_of:
  assumes "s_uuidParse sv sub = Some i" and "i \<noteq> ''''"
  shows "c_actorID (WithActor sv no_ctx sub role) = '''' \<or> c_actorID (WithActor sv no_ctx sub role) = i \<and> c_actorRole (WithActor sv no_ctx sub role) = role"
    and "ID sv sub = Inr a \<Longrightarrow> role = ''MANAGER'' \<or> role = ''STAFF'' \<Longrightarrow>
      a = i \<and> c_actorID (WithActor sv no_ctx sub role) = i \<and> c_actorRole (WithActor sv no_ctx sub role) = role"
  using assms by (auto simp: WithActor_def ID_def split: if_splits)

lemma Create_nobody: "c_actorID c = '''' \<Longrightarrow> keeps I (Create sv c input)"
  by (simp add: Create_def keeps_throw)

lemma http_create_booked:
  assumes "s_uuidParse (sw_service web) sub = Some i" and "i \<noteq> ''''"
  shows "keeps (booked M W i role) (http_create web q (WithActor (sw_service web) no_ctx sub role))"
proof -
  have "keeps (booked M W i role) (Create (sw_service web) c input)"
    if "with_rest_key web q (WithActor (sw_service web) no_ctx sub role) = Inr c" for c input
    using rest_key_actor [OF that] actor_of(1) [OF assms, of role] Create_nobody Create_booked by metis
  then show ?thesis unfolding http_create_def by (intro keeps_intros keeps_run) auto
qed

lemma http_waste_booked:
  assumes "s_uuidParse (sw_service web) (st_Subject claims) = Some i" and "i \<noteq> ''''" and "role = ''MANAGER'' \<or> role = ''STAFF''"
  shows "keeps (booked M W i role) (http_waste web q b (WithActor (sw_service web) no_ctx (st_Subject claims) role) claims)"
  unfolding http_waste_def using actor_of(2) [OF assms(1,2) _ assms(3)] assms
  by (intro keeps_intros keeps_run Waste_booked) (auto dest: rest_key_actor)

text \<open>What a route does, seen from its caller.\<close>

definition shows_batches :: "stock_answer \<Rightarrow> bool" where
  "shows_batches a \<longleftrightarrow> (\<exists>bs. a = StockBatches bs) \<or> (\<exists>code b. a = StockBatch code b)"

lemma protect_runs:
  "protect web manager q fn w s n =
     (case identity web True q of
        Inl a \<Rightarrow> (Inr a, s, n)
      | Inr None \<Rightarrow> (Inr (StockError 401 ''UNAUTHORIZED''), s, n)
      | Inr (Some claims) \<Rightarrow>
          if st_Role claims \<noteq> ''MANAGER'' \<and> (manager \<or> st_Role claims \<noteq> ''STAFF'') then (Inr (StockError 403 ''FORBIDDEN''), s, n)
          else fn (WithActor (sw_service web) no_ctx (st_Subject claims) (st_Role claims)) claims w s n)"
  by (auto simp: protect_def ret_def split: sum.split option.split)

lemma identity_answer: "identity web b q = Inl a \<Longrightarrow> a = StockError 401 ''UNAUTHORIZED''"
  by (auto simp: identity_def Let_def split: if_splits option.splits)

lemma protect_cases:
  assumes "protect web manager q fn w s n = (r, s', n')"
  obtains (refused) code z where "s' = s" "r = Inr (StockError code z)"
  | (ran) claims i where "stock_caller web q i (st_Role claims)" "s_uuidParse (sw_service web) (st_Subject claims) = Some i"
      "st_Role claims = ''MANAGER'' \<or> \<not> manager \<and> st_Role claims = ''STAFF''"
      "fn (WithActor (sw_service web) no_ctx (st_Subject claims) (st_Role claims)) claims w s n = (r, s', n')"
  using assms identity_caller [of web q] identity_answer [of web True q]
  by (fastforce simp: protect_runs split: sum.splits option.splits if_splits)

lemma keeps_same_state:
  assumes "\<And>I. keeps I m" and "m w s n = (r, s', n')"
  shows "s' = s"
  using assms(1) [of "\<lambda>x. x = s"] assms(2) unfolding keeps_def by (metis state_of_Pair)

lemma keeps_booked: "(\<And>M W. keeps (booked M W i role) m) \<Longrightarrow> m w s n = (r, s', n') \<Longrightarrow> booked (set (movements s)) (set (wastes s)) i role s'"
  unfolding keeps_def by (metis (full_types) state_of_Pair booked_def)

lemma open_route: "http_availability web q w s n = (r, s', n') \<Longrightarrow> r \<noteq> Inr (StockBatches bs) \<and> r \<noteq> Inr (StockBatch k b)"
  unfolding http_availability_def
  by (auto simp: ret_def stock_run_def stock_failure_def dest: identity_answer split: sum.splits if_splits prod.splits)

text \<open>
  C38. A request to the REST surface of the inventory service changes the database only with exactly one
  Authorization header whose bearer token the verifier accepts, for a manager, or for staff when waste is
  recorded; and every movement and every waste record it adds carries the user of that token, each movement
  with the role as well. Batches are shown to staff and managers only: anyone else sees the availability of
  the flavors.
\<close>

theorem stock_access:
  assumes "\<forall>raw. s_uuidParse (sw_service web) raw \<noteq> Some ''''" and "stock_http web e q w s n = (r, s', n')"
  shows "(s' \<noteq> s \<longrightarrow> (\<exists>i role. stock_caller web q i role \<and> (role = ''MANAGER'' \<or> role = ''STAFF'' \<and> (\<exists>b. e = PostWaste b)) \<and>
      booked (set (movements s)) (set (wastes s)) i role s')) \<and>
    (\<forall>a. r = Inr a \<and> shows_batches a \<longrightarrow> (\<exists>i role. stock_caller web q i role \<and> (role = ''MANAGER'' \<or> role = ''STAFF'')))"
proof (cases e)
  case GetAvailability
  then have run: "http_availability web q w s n = (r, s', n')" using assms(2) by (simp add: stock_http_def)
  then show ?thesis using keeps_same_state [OF http_reads_same(2)] open_route [OF run] by (fastforce simp: shows_batches_def)
next
  case GetBatches
  then have "protect web False q (\<lambda>_ _. http_batches web q) w s n = (r, s', n')" using assms(2) by (simp add: stock_http_def)
  then show ?thesis by (cases rule: protect_cases) (use keeps_same_state [OF http_reads_same(1)] in \<open>auto simp: shows_batches_def\<close>)
next
  case (GetBatch b)
  then have "protect web False q (\<lambda>_ _. stock_run web (Get (sw_service web) b) (StockBatch 200)) w s n = (r, s', n')" using assms(2) by (simp add: stock_http_def)
  then show ?thesis by (cases rule: protect_cases) (use keeps_same_state [OF http_reads_same(3)] in \<open>auto simp: shows_batches_def\<close>)
next
  case PostBatch
  then have "protect web True q (\<lambda>c _. http_create web q c) w s n = (r, s', n')" using assms(2) by (simp add: stock_http_def)
  then show ?thesis
  proof (cases rule: protect_cases)
    case (ran claims i)
    have "booked (set (movements s)) (set (wastes s)) i (st_Role claims) s'"
      by (rule keeps_booked [OF http_create_booked ran(4)]) (use ran(2) assms(1) in auto)
    with ran show ?thesis by blast
  qed (auto simp: shows_batches_def)
next
  case (PostWaste b)
  then have "protect web False q (\<lambda>c claims. http_waste web q b c claims) w s n = (r, s', n')" using assms(2) by (simp add: stock_http_def)
  then show ?thesis
  proof (cases rule: protect_cases)
    case (ran claims i)
    have "booked (set (movements s)) (set (wastes s)) i (st_Role claims) s'"
      by (rule keeps_booked [OF http_waste_booked ran(4)]) (use ran(2,3) assms(1) in auto)
    with ran PostWaste show ?thesis by blast
  qed (auto simp: shows_batches_def)
qed

definition counter :: stock_web where
  "counter = \<lparr>sw_service = sample_service\<lparr>s_uuidParse := (\<lambda>raw. if raw = '''' then None else Some raw)\<rparr>,
     sw_jwt = (\<lambda>raw. if raw = ''token'' then Some \<lparr>st_Role = ''MANAGER'', st_Subject = ''m'', st_IssuedAt = Some 0, st_ExpiresAt = Some 1\<rparr> else None),
     sw_parse = (\<lambda>_. Some (JObj [(''batch_code'', JStr ''mango-1''), (''flavor_id'', JStr ''mango''), (''production_date'', JStr ''2024-01-09''),
       (''expires_at'', JStr ''2024-01-19T00:00:00Z''), (''initial_portions'', JNum ''30''), (''unit_cost_minor'', JNum ''5''), (''currency'', JStr ''THB'')])),
     sw_time = (\<lambda>_. Some (ci_ExpiresAt sample_create)), sw_error = DOther\<rparr>"

definition delivery_note :: stock_request where
  "delivery_note = \<lparr>sq_Authorization = [''Bearer token''], sq_Keys = [], sq_ContentType = ''application/json; charset=utf-8'', sq_Query = Some [], sq_Body = ''{}''\<rparr>"

text \<open>A manager books a batch: the movement carries the manager.\<close>

theorem stock_access_witness:
  "\<exists>i role. stock_caller counter delivery_note i role \<and> role = ''MANAGER'' \<and>
     booked {} {} i role (state_of (stock_http counter PostBatch delivery_note sample_world empty_inv 0))"
proof -
  obtain r s' n' where run: "stock_http counter PostBatch delivery_note sample_world empty_inv 0 = (r, s', n')" by (rule prod_cases3)
  have uuid: "\<forall>raw. s_uuidParse (sw_service counter) raw \<noteq> Some ''''" by (simp add: counter_def sample_service_def)
  have "length (movements (state_of (stock_http counter PostBatch delivery_note sample_world empty_inv 0))) = 1" by code_simp
  then have "s' \<noteq> empty_inv" using run by (auto simp: empty_inv_def)
  then show ?thesis using stock_access [OF uuid run] run by (fastforce simp: empty_inv_def)
qed

end
