(* ===== verification/Catalog_Http.thy ===== *)
theory Catalog_Http
  imports Catalog_Props Gelato_Json
begin

text \<open>
  The HTTP surface of the catalog service: token check and roles (\<open>auth/verifier.go\<close>,
  \<open>middleware/auth.go\<close>), idempotency keys (\<open>middleware/idempotency.go\<close>), routes (\<open>router/router.go\<close>) and
  handlers with their strict reading of JSON (\<open>handler/v1/catalog.go\<close>).
\<close>

section \<open>Reading JSON\<close>

text \<open>Objects with distinct keys, nested at most 16 levels deep.\<close>

fun uniqueJSONValue :: "json \<Rightarrow> nat \<Rightarrow> bool" where
  "uniqueJSONValue (JObj ms) depth \<longleftrightarrow> depth \<le> 16 \<and> distinct (map fst ms) \<and> (\<forall>m\<in>set ms. uniqueJSONValue (snd m) (depth + 1))"
| "uniqueJSONValue (JArr xs) depth \<longleftrightarrow> depth \<le> 16 \<and> (\<forall>x\<in>set xs. uniqueJSONValue x (depth + 1))"
| "uniqueJSONValue _ depth \<longleftrightarrow> depth \<le> 16"

fun containsNull :: "json \<Rightarrow> bool" where
  "containsNull JNull = True"
| "containsNull (JObj ms) = (\<exists>m\<in>set ms. containsNull (snd m))"
| "containsNull (JArr xs) = (\<exists>x\<in>set xs. containsNull x)"
| "containsNull _ = False"

fun as_strings :: "json \<Rightarrow> string list option" where
  "as_strings (JArr xs) = (if list_all (\<lambda>x. as_string x \<noteq> None) xs then Some (map (\<lambda>x. the (as_string x)) xs) else None)"
| "as_strings _ = None"

text \<open>Both fields of the price are present when it is read.\<close>

fun as_money :: "json \<Rightarrow> cat_money option" where
  "as_money (JObj ms) =
     (case (map_of ms ''amount_minor'', map_of ms ''currency'') of
        (Some (JNum z), Some (JStr cur)) \<Rightarrow> map_option (\<lambda>n. \<lparr>cm_AmountMinor = n, cm_Currency = cur\<rparr>) (json_int64 z)
      | _ \<Rightarrow> None)"
| "as_money _ = None"

definition flavor_keys :: "string list" where
  "flavor_keys = [''name'', ''description'', ''price'', ''image_url'', ''allergens'', ''recipe'', ''active'']"

definition price_ok :: "json option \<Rightarrow> bool" where
  "price_ok p = (case p of Some (JObj ms) \<Rightarrow> map_of ms ''amount_minor'' \<noteq> None \<and> map_of ms ''currency'' \<noteq> None \<and> length ms = 2 | _ \<Rightarrow> True)"

definition decode_flavor :: "(string \<times> json) list \<Rightarrow> flavor_input option" where
  "decode_flavor ms =
     (case (member_as as_string ms ''name'', member_as as_string ms ''description'', member_as as_money ms ''price'', member_as as_string ms ''image_url'',
        member_as as_strings ms ''allergens'', member_as as_string ms ''recipe'', member_as as_bool ms ''active'') of
        (Some n, Some d, Some p, Some u, Some as, Some re, Some a) \<Rightarrow>
          Some \<lparr>fi_Name = n, fi_Description = d, fi_Price = p, fi_ImageURL = u, fi_Allergens = as, fi_Recipe = re, fi_Active = a\<rparr>
      | _ \<Rightarrow> None)"

text \<open>\<open>parse\<close> reads the only JSON value of a text.\<close>

definition decodeJSON :: "(string \<Rightarrow> json option) \<Rightarrow> string \<Rightarrow> flavor_input option" where
  "decodeJSON parse body =
     (if body = '''' then None
      else case parse body of
        None \<Rightarrow> None
      | Some rawDocument \<Rightarrow>
          if \<not> uniqueJSONValue rawDocument 0 then None
          else case rawDocument of
            JObj document \<Rightarrow>
              if \<not> list_all (\<lambda>m. fst m \<in> set flavor_keys) document then None
              else if \<not> price_ok (map_of document ''price'') then None
              else if containsNull rawDocument then None
              else decode_flavor document
          | _ \<Rightarrow> None)"

section \<open>Tokens and keys\<close>

record cat_claims =
  cc_Role :: string
  cc_Subject :: string
  cc_IssuedAt :: "time option"
  cc_ExpiresAt :: "time option"

text \<open>\<open>jwt\<close> is \<open>jwt.ParseWithClaims\<close> with the options of the verifier.\<close>

record cat_web =
  wb_lib :: cat_lib
  wb_jwt :: "string \<Rightarrow> cat_claims option"
  wb_parse :: "string \<Rightarrow> json option"

definition cat_role_Valid :: "string \<Rightarrow> bool" where
  "cat_role_Valid r \<longleftrightarrow> r = ''CUSTOMER'' \<or> r = ''STAFF'' \<or> r = ''MANAGER''"

definition cat_Parse :: "cat_web \<Rightarrow> string \<Rightarrow> cat_claims option" where
  "cat_Parse web raw = (case wb_jwt web raw of
     None \<Rightarrow> None
   | Some claims \<Rightarrow>
       if cc_IssuedAt claims = None \<or> cc_ExpiresAt claims = None then None
       else if lib_uuid (wb_lib web) (cc_Subject claims) = None \<or> \<not> cat_role_Valid (cc_Role claims) then None
       else Some claims)"

text \<open>A request: the values of the headers Authorization and Idempotency-Key, and the body.\<close>

record cat_request =
  rq_Authorization :: "string list"
  rq_Keys :: "string list"
  rq_Body :: string

datatype cat_answer =
    CatAnswer nat string
  | CatItems "cat_flavor list"
  | CatShown cat_flavor
  | CatWritten nat flavor_admin
  | CatNoContent
  | CatRecipeShown flavor_recipe
  | CatPanic

record cat_locals =
  cl_UserID :: string
  cl_UserRole :: string
  cl_ctx :: cat_ctx

definition cat_nobody :: cat_locals where
  "cat_nobody = \<lparr>cl_UserID = '''', cl_UserRole = '''', cl_ctx = \<lparr>cx_actor = None, cx_action = None, cx_request = None\<rparr>\<rparr>"

definition cat_authenticate :: "cat_web \<Rightarrow> bool \<Rightarrow> cat_request \<Rightarrow> cat_answer + cat_locals" where
  "cat_authenticate web required q =
     (let count = length (rq_Authorization q); parts = Fields (if count = 0 then '''' else hd (rq_Authorization q)) in
      if count = 0 \<and> \<not> required then Inr cat_nobody
      else if count \<noteq> 1 \<or> length parts \<noteq> 2 \<or> \<not> EqualFold (parts ! 0) ''Bearer'' then Inl (CatAnswer 401 ''UNAUTHORIZED'')
      else case cat_Parse web (parts ! 1) of
        None \<Rightarrow> Inl (CatAnswer 401 ''UNAUTHORIZED'')
      | Some claims \<Rightarrow> Inr \<lparr>cl_UserID = cc_Subject claims, cl_UserRole = cc_Role claims,
          cl_ctx = Catalog_Store.WithActor (wb_lib web) (cc_Subject claims) (cc_Role claims) (cl_ctx cat_nobody)\<rparr>)"

definition ManagerRequired :: "cat_locals \<Rightarrow> cat_answer" where
  "ManagerRequired l = (if cl_UserID l = '''' then CatAnswer 401 ''UNAUTHORIZED'' else CatAnswer 403 ''FORBIDDEN'')"

definition RequireManager :: "cat_web \<Rightarrow> cat_request \<Rightarrow> cat_answer + cat_locals" where
  "RequireManager web q = (case cat_authenticate web True q of
     Inl a \<Rightarrow> Inl a
   | Inr l \<Rightarrow> if cl_UserRole l \<noteq> ''MANAGER'' then Inl (ManagerRequired l) else Inr l)"

text \<open>\<open>flavor_id\<close> is the path parameter, absent for POST. The methods of the routes are all of POST, PUT, PATCH and DELETE.\<close>

definition cat_Idempotency :: "cat_web \<Rightarrow> string \<Rightarrow> string \<Rightarrow> cat_request \<Rightarrow> cat_ctx \<Rightarrow> cat_answer + cat_ctx" where
  "cat_Idempotency web http_method flavor_id q ctx =
     (let count = length (rq_Keys q); raw = TrimSpace (if count = 0 then '''' else hd (rq_Keys q)) in
      if count = 0 \<or> count = 1 \<and> raw = '''' then Inr ctx
      else case lib_uuid (wb_lib web) raw of
        None \<Rightarrow> Inl (CatAnswer 400 ''INVALID_IDEMPOTENCY_KEY'')
      | Some key \<Rightarrow>
          if count \<noteq> 1 then Inl (CatAnswer 400 ''INVALID_IDEMPOTENCY_KEY'')
          else
            let request = \<lparr>ir_Key = key, ir_RawKey = raw, ir_PayloadHash = lib_sha256 (wb_lib web) (rq_Body q), ir_Scope = ''''\<rparr> in
            if http_method = ''POST'' then Inr (ctx\<lparr>cx_request := Some request\<rparr>)
            else (case lib_uuid (wb_lib web) flavor_id of
               None \<Rightarrow> Inl (CatAnswer 400 ''INVALID_ARGUMENT'')
             | Some i \<Rightarrow>
                 if i = uuid_Nil \<or> key = uuid_Nil then Inl (CatAnswer 400 ''INVALID_ARGUMENT'')
                 else Inr (ctx\<lparr>cx_request := Some (request\<lparr>ir_Scope := http_method @ '':'' @ i\<rparr>)\<rparr>)))"

section \<open>Handlers\<close>

definition cat_handleServiceError :: "cat_error \<Rightarrow> cat_answer" where
  "cat_handleServiceError e = (case e of
     CatIdemConflict \<Rightarrow> CatAnswer 409 ''IDEMPOTENCY_CONFLICT''
   | CatIdemUnavailable \<Rightarrow> CatAnswer 503 ''IDEMPOTENCY_UNAVAILABLE''
   | CatInvalidInput \<Rightarrow> CatAnswer 400 ''INVALID_INPUT''
   | CatFlavorNotFound \<Rightarrow> CatAnswer 404 ''FLAVOR_NOT_FOUND''
   | CatNameConflict \<Rightarrow> CatAnswer 409 ''FLAVOR_NAME_CONFLICT''
   | CatUpdateConflict \<Rightarrow> CatAnswer 409 ''FLAVOR_UPDATE_CONFLICT''
   | _ \<Rightarrow> CatAnswer 500 ''INTERNAL_ERROR'')"

definition readScope :: "cat_locals \<Rightarrow> ReadScope" where
  "readScope l = (if cl_UserRole l = ''MANAGER'' then ManagerRead else PublicRead)"

text \<open>\<open>active\<close> holds the values of the query argument.\<close>

definition http_cat_List :: "cat_web \<Rightarrow> cat_world \<Rightarrow> string list \<Rightarrow> cat_locals \<Rightarrow> redis \<Rightarrow> cat_answer" where
  "http_cat_List web w active l r =
     (if active \<noteq> [] \<and> (length active \<noteq> 1 \<or> hd active \<noteq> ''true'' \<and> hd active \<noteq> ''false'') then CatAnswer 400 ''INVALID_ARGUMENT''
      else
        let act = (if active = [] then None else Some (hd active = ''true'')); scope = readScope l in
        if act = Some False \<and> scope \<noteq> ManagerRead then ManagerRequired l
        else case cat_List (wb_lib web) w act scope r of Inl e \<Rightarrow> cat_handleServiceError e | Inr items \<Rightarrow> CatItems items)"

definition http_cat_Get :: "cat_web \<Rightarrow> cat_world \<Rightarrow> string \<Rightarrow> cat_locals \<Rightarrow> redis \<Rightarrow> cat_answer" where
  "http_cat_Get web w flavor_id l r = (case lib_uuid (wb_lib web) flavor_id of
     None \<Rightarrow> CatAnswer 400 ''INVALID_ARGUMENT''
   | Some i \<Rightarrow> (case cat_Get w i (readScope l) r of Inl e \<Rightarrow> cat_handleServiceError e | Inr f \<Rightarrow> CatShown f))"

definition http_cat_GetRecipe :: "cat_web \<Rightarrow> cat_world \<Rightarrow> string \<Rightarrow> redis \<Rightarrow> cat_answer" where
  "http_cat_GetRecipe web w flavor_id r = (case lib_uuid (wb_lib web) flavor_id of
     None \<Rightarrow> CatAnswer 400 ''INVALID_ARGUMENT''
   | Some i \<Rightarrow> (case cat_GetRecipe w i r of Inl e \<Rightarrow> cat_handleServiceError e | Inr x \<Rightarrow> CatRecipeShown x))"

definition http_cat_Create :: "cat_web \<Rightarrow> cat_world \<Rightarrow> cat_request \<Rightarrow> cat_ctx \<Rightarrow> redis \<Rightarrow> cat_answer \<times> redis" where
  "http_cat_Create web w q ctx r = (case decodeJSON (wb_parse web) (rq_Body q) of
     None \<Rightarrow> (CatAnswer 400 ''INVALID_REQUEST'', r)
   | Some input \<Rightarrow> (case cat_Create (wb_lib web) w ctx input r of
        (Inl e, r) \<Rightarrow> (cat_handleServiceError e, r)
      | (Inr f, r) \<Rightarrow> (CatWritten 201 f, r)))"

text \<open>The flavor that comes back without an error is dereferenced.\<close>

definition written :: "(cat_error + flavor_admin option) \<times> redis \<Rightarrow> cat_answer \<times> redis" where
  "written res = (case res of
     (Inl e, r) \<Rightarrow> (cat_handleServiceError e, r)
   | (Inr None, r) \<Rightarrow> (CatPanic, r)
   | (Inr (Some f), r) \<Rightarrow> (CatWritten 200 f, r))"

text \<open>The states of the store at the commands of an operation: lookup, read, write.\<close>

definition http_cat_Update :: "cat_web \<Rightarrow> cat_world \<Rightarrow> string \<Rightarrow> cat_request \<Rightarrow> cat_ctx \<Rightarrow> redis \<Rightarrow> redis \<Rightarrow> redis \<Rightarrow> cat_answer \<times> redis" where
  "http_cat_Update web w flavor_id q ctx r0 r1 r = (case lib_uuid (wb_lib web) flavor_id of
     None \<Rightarrow> (CatAnswer 400 ''INVALID_ARGUMENT'', r)
   | Some i \<Rightarrow> (case decodeJSON (wb_parse web) (rq_Body q) of
        None \<Rightarrow> (CatAnswer 400 ''INVALID_REQUEST'', r)
      | Some input \<Rightarrow> written (cat_Update (wb_lib web) w ctx i input r0 r1 r)))"

definition http_cat_Replace :: "cat_web \<Rightarrow> cat_world \<Rightarrow> string \<Rightarrow> cat_request \<Rightarrow> cat_ctx \<Rightarrow> redis \<Rightarrow> redis \<Rightarrow> redis \<Rightarrow> cat_answer \<times> redis" where
  "http_cat_Replace web w flavor_id q ctx r0 r1 r = (case lib_uuid (wb_lib web) flavor_id of
     None \<Rightarrow> (CatAnswer 400 ''INVALID_ARGUMENT'', r)
   | Some i \<Rightarrow> (case decodeJSON (wb_parse web) (rq_Body q) of
        None \<Rightarrow> (CatAnswer 400 ''INVALID_REQUEST'', r)
      | Some input \<Rightarrow> written (cat_Replace (wb_lib web) w ctx i input r0 r1 r)))"

definition http_cat_Archive :: "cat_web \<Rightarrow> cat_world \<Rightarrow> string \<Rightarrow> cat_ctx \<Rightarrow> redis \<Rightarrow> redis \<Rightarrow> redis \<Rightarrow> cat_answer \<times> redis" where
  "http_cat_Archive web w flavor_id ctx r0 r1 r = (case lib_uuid (wb_lib web) flavor_id of
     None \<Rightarrow> (CatAnswer 400 ''INVALID_ARGUMENT'', r)
   | Some i \<Rightarrow> (case cat_Archive (wb_lib web) w ctx i r0 r1 r of
        (Inl e, r) \<Rightarrow> (cat_handleServiceError e, r)
      | (Inr _, r) \<Rightarrow> (CatNoContent, r)))"

section \<open>Routes\<close>

datatype cat_endpoint =
    ListFlavors "string list"
  | PostFlavor
  | GetFlavorRecipe string
  | GetFlavor string
  | PutFlavor string
  | PatchFlavor string
  | DeleteFlavor string

definition cat_managed :: "cat_web \<Rightarrow> string \<Rightarrow> string \<Rightarrow> cat_request \<Rightarrow> (cat_ctx \<Rightarrow> cat_answer \<times> redis) \<Rightarrow> redis \<Rightarrow> cat_answer \<times> redis" where
  "cat_managed web http_method flavor_id q next r = (case RequireManager web q of
     Inl a \<Rightarrow> (a, r)
   | Inr l \<Rightarrow> (case cat_Idempotency web http_method flavor_id q (cl_ctx l) of Inl a \<Rightarrow> (a, r) | Inr ctx \<Rightarrow> next ctx))"

definition catalog_http :: "cat_web \<Rightarrow> cat_world \<Rightarrow> cat_endpoint \<Rightarrow> cat_request \<Rightarrow> redis \<Rightarrow> redis \<Rightarrow> redis \<Rightarrow> cat_answer \<times> redis" where
  "catalog_http web w e q r0 r1 r = (case e of
     ListFlavors active \<Rightarrow> (case cat_authenticate web False q of Inl a \<Rightarrow> (a, r) | Inr l \<Rightarrow> (http_cat_List web w active l r, r))
   | PostFlavor \<Rightarrow> cat_managed web ''POST'' '''' q (\<lambda>ctx. http_cat_Create web w q ctx r) r
   | GetFlavorRecipe i \<Rightarrow> (case RequireManager web q of Inl a \<Rightarrow> (a, r) | Inr l \<Rightarrow> (http_cat_GetRecipe web w i r, r))
   | GetFlavor i \<Rightarrow> (case cat_authenticate web False q of Inl a \<Rightarrow> (a, r) | Inr l \<Rightarrow> (http_cat_Get web w i l r, r))
   | PutFlavor i \<Rightarrow> cat_managed web ''PUT'' i q (\<lambda>ctx. http_cat_Replace web w i q ctx r0 r1 r) r
   | PatchFlavor i \<Rightarrow> cat_managed web ''PATCH'' i q (\<lambda>ctx. http_cat_Update web w i q ctx r0 r1 r) r
   | DeleteFlavor i \<Rightarrow> cat_managed web ''DELETE'' i q (\<lambda>ctx. http_cat_Archive web w i ctx r0 r1 r) r)"

section \<open>Who can see and change the catalog\<close>

text \<open>The request carries one verified token of a manager with id \<open>i\<close>.\<close>

definition manages :: "cat_web \<Rightarrow> cat_request \<Rightarrow> string \<Rightarrow> bool" where
  "manages web q i \<longleftrightarrow> (\<exists>header scheme token claims. rq_Authorization q = [header] \<and> Fields header = [scheme, token] \<and> EqualFold scheme ''Bearer'' \<and>
     cat_Parse web token = Some claims \<and> cc_Role claims = ''MANAGER'' \<and> lib_uuid (wb_lib web) (cc_Subject claims) = Some i)"

definition audit_signed :: "string \<Rightarrow> redis \<Rightarrow> redis \<Rightarrow> bool" where
  "audit_signed i r r' \<longleftrightarrow> (\<forall>k. \<exists>hs. rs_audit r' k = rs_audit r k @ hs \<and> (\<forall>h\<in>set hs. ar_ActorID h = i))"

lemma authenticated_manager:
  assumes "cat_authenticate web required q = Inr l" "cl_UserRole l = ''MANAGER''"
  shows "\<exists>i. manages web q i \<and> (\<forall>j role. cx_actor (cl_ctx l) = Some (j, role) \<and> j \<noteq> uuid_Nil \<longrightarrow> j = i) \<and> cx_actor (cl_ctx l) \<noteq> None"
proof -
  have "rq_Authorization q \<noteq> []" using assms by (auto simp: cat_authenticate_def Let_def cat_nobody_def split: if_splits)
  then obtain header where h: "rq_Authorization q = [header]" using assms(1) by (cases "rq_Authorization q") (auto simp: cat_authenticate_def Let_def split: if_splits)
  have ok: "length (Fields header) = 2" "EqualFold (Fields header ! 0) ''Bearer''"
    and "\<exists>claims. cat_Parse web (Fields header ! 1) = Some claims \<and> cl_UserRole l = cc_Role claims \<and>
      cl_ctx l = Catalog_Store.WithActor (wb_lib web) (cc_Subject claims) (cc_Role claims) (cl_ctx cat_nobody)"
    using assms(1) h by (auto simp: cat_authenticate_def Let_def split: if_splits option.splits)
  then obtain claims where c: "cat_Parse web (Fields header ! 1) = Some claims" "cl_UserRole l = cc_Role claims"
    "cl_ctx l = Catalog_Store.WithActor (wb_lib web) (cc_Subject claims) (cc_Role claims) (cl_ctx cat_nobody)" by blast
  then obtain i where i: "lib_uuid (wb_lib web) (cc_Subject claims) = Some i" by (auto simp: cat_Parse_def split: option.splits if_splits)
  have "Fields header = [Fields header ! 0, Fields header ! 1]" using ok(1) by (auto simp: length_Suc_conv numeral_2_eq_2)
  then have "manages web q i" unfolding manages_def using h ok(2) c i assms(2) by (intro exI conjI) simp_all
  then show ?thesis using c(3) i by (auto simp: Catalog_Store.WithActor_def split: if_splits)
qed

lemma record_signed: "NewRecord n t ctx act before after = Inr h \<Longrightarrow> \<exists>role. cx_actor ctx = Some (ar_ActorID h, role) \<and> ar_ActorID h \<noteq> uuid_Nil"
  by (auto simp: NewRecord_def ManagerID_def split: option.splits if_splits prod.splits sum.splits)

text \<open>Every operation adds only audit records of the actor of its context.\<close>

lemma audit_signed_simps: "audit_signed i r r" "audit_signed i r (r\<lparr>rs_replay := m\<rparr>)" "audit_signed i r (r\<lparr>rs_idem := m'\<rparr>)"
  by (simp_all add: audit_signed_def)

lemma signed_create:
  assumes "cat_Create lib w ctx input r = (res, r')" "\<forall>j role. cx_actor ctx = Some (j, role) \<and> j \<noteq> uuid_Nil \<longrightarrow> j = i"
  shows "audit_signed i r r'"
  using Create_repo [OF assms(1)]
proof (elim disjE exE conjE)
  fix f res'
  assume "repo_create lib w ctx (identified (cw_id w) (cw_now w) (cw_now w) f) (cx_request ctx) r = (res', r')"
  from repo_create_cases [OF this] show ?thesis using assms(2)
    by (auto simp: audit_signed_simps dest!: record_signed) (auto simp: audit_signed_def write_new_def)
qed (simp add: audit_signed_simps)

lemma signed_update:
  assumes "repo_Update lib w (WithAction act ctx) p f r = (res, r')" "\<forall>j role. cx_actor ctx = Some (j, role) \<and> j \<noteq> uuid_Nil \<longrightarrow> j = i"
  shows "audit_signed i r r'"
  using repo_Update_cases [OF assms(1)] assms(2)
  by (auto simp: audit_signed_simps dest!: record_signed) (auto simp: audit_signed_def write_update_def Let_def)

lemma signed_changes:
  assumes "\<forall>j role. cx_actor ctx = Some (j, role) \<and> j \<noteq> uuid_Nil \<longrightarrow> j = i"
  shows "cat_Update lib w ctx k input r0 r1 r = (res, r') \<Longrightarrow> audit_signed i r r'"
    and "cat_Replace lib w ctx k input r0 r1 r = (res, r') \<Longrightarrow> audit_signed i r r'"
    and "cat_Archive lib w ctx k r0 r1 r = (res'', r') \<Longrightarrow> audit_signed i r r'"
  using signed_update [OF _ assms, of lib w _ _ _ r _ r'] audit_signed_simps(1)
  by (blast dest: Update_repo Replace_repo Archive_repo)+

text \<open>A change that is answered without an error comes with a flavor.\<close>

lemma update_not_nil:
  shows "fst (cat_Update lib w ctx k input r0 r1 r) \<noteq> Inr None" "fst (cat_Replace lib w ctx k input r0 r1 r) \<noteq> Inr None"
proof -
  have replay: "replayMutation lib w (WithAction act ctx) k r0 \<noteq> Inr (Some None)" if "act = ActUpdate \<or> act = ActReplace" for act
    using that by (auto simp: replayMutation_def LookupMutation_def mutationFingerprint_def decodeMutationReply_def method_of_def split: option.splits sum.splits if_splits prod.splits)
  have some: "map_sum id Some x \<noteq> Inr None" for x :: "cat_error + flavor_admin" by (cases x) simp_all
  show "fst (cat_Update lib w ctx k input r0 r1 r) \<noteq> Inr None"
    using replay [of ActUpdate] some by (auto simp: cat_Update_def simp del: not_None_eq split: sum.split option.split prod.split)
  show "fst (cat_Replace lib w ctx k input r0 r1 r) \<noteq> Inr None"
    using replay [of ActReplace] some by (auto simp: cat_Replace_def Let_def simp del: not_None_eq split: sum.split option.split prod.split)
qed

text \<open>An answer without a flavor, and one that may carry the flavor that was just written.\<close>

definition plain_answer :: "cat_answer \<Rightarrow> bool" where
  "plain_answer a \<longleftrightarrow> (\<exists>n z. a = CatAnswer n z) \<or> a = CatNoContent"

definition written_answer :: "cat_answer \<Rightarrow> bool" where
  "written_answer a \<longleftrightarrow> plain_answer a \<or> (\<exists>n f. a = CatWritten n f)"

text \<open>What an answer may show to whom.\<close>

definition discreet :: "cat_web \<Rightarrow> cat_request \<Rightarrow> cat_answer \<Rightarrow> bool" where
  "discreet web q a \<longleftrightarrow> (case a of
     CatItems items \<Rightarrow> (\<exists>f\<in>set items. \<not> cf_Active f) \<longrightarrow> (\<exists>i. manages web q i)
   | CatShown f \<Rightarrow> \<not> cf_Active f \<longrightarrow> (\<exists>i. manages web q i)
   | CatRecipeShown x \<Rightarrow> \<exists>i. manages web q i
   | CatWritten n f \<Rightarrow> \<exists>i. manages web q i
   | CatPanic \<Rightarrow> False
   | _ \<Rightarrow> True)"

lemma plain_discreet: "plain_answer a \<Longrightarrow> discreet web q a" "written_answer a \<Longrightarrow> manages web q i \<Longrightarrow> discreet web q a"
  by (auto simp: plain_answer_def written_answer_def discreet_def)

lemma plain_error: "plain_answer (cat_handleServiceError e)" "plain_answer (ManagerRequired l)"
  by (cases e) (simp_all add: plain_answer_def cat_handleServiceError_def ManagerRequired_def)

lemma handlers_signed:
  assumes "\<forall>j role. cx_actor ctx = Some (j, role) \<and> j \<noteq> uuid_Nil \<longrightarrow> j = i"
  shows "http_cat_Create web w q ctx r = (a, s) \<Longrightarrow> audit_signed i r s \<and> written_answer a"
    and "http_cat_Update web w k q ctx r0 r1 r = (a, s) \<Longrightarrow> audit_signed i r s \<and> written_answer a"
    and "http_cat_Replace web w k q ctx r0 r1 r = (a, s) \<Longrightarrow> audit_signed i r s \<and> written_answer a"
    and "http_cat_Archive web w k ctx r0 r1 r = (a, s) \<Longrightarrow> audit_signed i r s \<and> written_answer a"
proof -
  have plain: "written_answer (CatAnswer n z)" "written_answer (CatWritten n f)" "written_answer CatNoContent" for n z f by (simp_all add: written_answer_def plain_answer_def)
  have errors: "written_answer (cat_handleServiceError e)" "written_answer (ManagerRequired l)" for e l by (simp_all add: written_answer_def plain_error)
  note known = plain errors audit_signed_simps(1)
  have written: "audit_signed i r s \<and> written_answer a" if "written x = (a, s)" "\<And>res s'. x = (res, s') \<Longrightarrow> audit_signed i r s' \<and> res \<noteq> Inr None" for x
    using that(1) that(2) [of "fst x" "snd x"] by (auto simp: written_def known split: prod.splits sum.splits option.splits)
  show "http_cat_Create web w q ctx r = (a, s) \<Longrightarrow> audit_signed i r s \<and> written_answer a"
    using signed_create [OF _ assms, of "wb_lib web" w _ r] by (auto simp: http_cat_Create_def known split: option.splits prod.splits sum.splits)
  show "http_cat_Update web w k q ctx r0 r1 r = (a, s) \<Longrightarrow> audit_signed i r s \<and> written_answer a"
    using signed_changes(1) [OF assms, of "wb_lib web" w] update_not_nil(1) [of "wb_lib web" w ctx]
    by (auto simp: http_cat_Update_def known split: option.splits dest!: written) (metis fst_conv)+
  show "http_cat_Replace web w k q ctx r0 r1 r = (a, s) \<Longrightarrow> audit_signed i r s \<and> written_answer a"
    using signed_changes(2) [OF assms, of "wb_lib web" w] update_not_nil(2) [of "wb_lib web" w ctx]
    by (auto simp: http_cat_Replace_def known split: option.splits dest!: written) (metis fst_conv)+
  show "http_cat_Archive web w k ctx r0 r1 r = (a, s) \<Longrightarrow> audit_signed i r s \<and> written_answer a"
    using signed_changes(3) [OF assms, of "wb_lib web" w] by (auto simp: http_cat_Archive_def known split: option.splits prod.splits sum.splits)
qed

lemma managed_signed:
  assumes run: "cat_managed web m k q next r = (answer, r')"
    and step: "\<And>ctx i a s. next ctx = (a, s) \<Longrightarrow> \<forall>j role. cx_actor ctx = Some (j, role) \<and> j \<noteq> uuid_Nil \<longrightarrow> j = i \<Longrightarrow> audit_signed i r s \<and> written_answer a"
  shows "(r' \<noteq> r \<longrightarrow> (\<exists>i. manages web q i \<and> audit_signed i r r')) \<and> discreet web q answer"
proof (cases "RequireManager web q")
  case (Inl a)
  then have "plain_answer a" using plain_error(2)
    by (auto simp: RequireManager_def cat_authenticate_def plain_answer_def Let_def split: sum.splits if_splits option.splits)
  then show ?thesis using run Inl plain_discreet(1) by (simp add: cat_managed_def)
next
  case (Inr l)
  then have l: "cat_authenticate web True q = Inr l" "cl_UserRole l = ''MANAGER''" by (auto simp: RequireManager_def split: sum.splits if_splits)
  from authenticated_manager [OF l] obtain i where i: "manages web q i" "\<forall>j role. cx_actor (cl_ctx l) = Some (j, role) \<and> j \<noteq> uuid_Nil \<longrightarrow> j = i" by blast
  show ?thesis
  proof (cases "cat_Idempotency web m k q (cl_ctx l)")
    case (Inl a)
    then have "plain_answer a" by (auto simp: cat_Idempotency_def plain_answer_def Let_def split: option.splits if_splits)
    then show ?thesis using run Inr Inl plain_discreet(1) by (simp add: cat_managed_def)
  next
    case ctx: (Inr ctx)
    then have "cx_actor ctx = cx_actor (cl_ctx l)" by (auto simp: cat_Idempotency_def Let_def split: option.splits if_splits)
    then show ?thesis using run Inr ctx i step [of ctx answer r' i] plain_discreet(2) by (auto simp: cat_managed_def)
  qed
qed

text \<open>What a read shows.\<close>

lemma hidden_from_public:
  assumes "cat_authenticate web b q = Inr l"
  shows "http_cat_List web w active l r = CatItems items \<Longrightarrow> f \<in> set items \<Longrightarrow> \<not> cf_Active f \<Longrightarrow> \<exists>i. manages web q i"
    and "http_cat_Get web w k l r = CatShown f \<Longrightarrow> \<not> cf_Active f \<Longrightarrow> \<exists>i. manages web q i"
proof -
  have manager: "\<exists>i. manages web q i" if "readScope l = ManagerRead" using authenticated_manager [OF assms] that by (auto simp: readScope_def split: if_splits)
  have shown: "cat_handleServiceError e \<noteq> CatItems items" "cat_handleServiceError e \<noteq> CatShown f" "ManagerRequired l \<noteq> CatItems items" for e
    using plain_error(1) [of e] plain_error(2) [of l] by (auto simp: plain_answer_def)
  show "http_cat_List web w active l r = CatItems items \<Longrightarrow> f \<in> set items \<Longrightarrow> \<not> cf_Active f \<Longrightarrow> \<exists>i. manages web q i"
    using manager shown by (cases "readScope l = ManagerRead") (auto simp: http_cat_List_def cat_List_def andThen_def Let_def split: if_splits sum.splits)
  show "http_cat_Get web w k l r = CatShown f \<Longrightarrow> \<not> cf_Active f \<Longrightarrow> \<exists>i. manages web q i"
    using manager shown by (cases "readScope l = ManagerRead") (auto simp: http_cat_Get_def cat_Get_def andThen_def split: if_splits sum.splits option.splits)
qed

lemma refused_discreet: "cat_authenticate web b q = Inl a \<Longrightarrow> discreet web q a" "RequireManager web q = Inl a \<Longrightarrow> discreet web q a"
  using plain_error(2) [THEN plain_discreet(1)]
  by (auto simp: RequireManager_def cat_authenticate_def discreet_def Let_def split: sum.splits if_splits option.splits)

lemma list_discreet:
  assumes "cat_authenticate web b q = Inr l"
  shows "discreet web q (http_cat_List web w active l r)"
proof -
  have "plain_answer (http_cat_List web w active l r) \<or> (\<exists>items. http_cat_List web w active l r = CatItems items)"
    using plain_error by (auto simp: http_cat_List_def Let_def split: sum.split) (simp_all add: plain_answer_def)
  then show ?thesis using plain_discreet(1) hidden_from_public(1) [OF assms, of w active r] by (auto simp: discreet_def [of _ _ "CatItems _"])
qed

lemma get_discreet:
  assumes "cat_authenticate web b q = Inr l"
  shows "discreet web q (http_cat_Get web w k l r)"
proof -
  have "plain_answer (http_cat_Get web w k l r) \<or> (\<exists>f. http_cat_Get web w k l r = CatShown f)"
    using plain_error by (auto simp: http_cat_Get_def split: sum.split option.split) (simp_all add: plain_answer_def)
  then show ?thesis using plain_discreet(1) hidden_from_public(2) [OF assms, of w k r] by (auto simp: discreet_def [of _ _ "CatShown _"])
qed

lemma recipe_discreet: "RequireManager web q = Inr l \<Longrightarrow> discreet web q (http_cat_GetRecipe web w k r)"
  using authenticated_manager [of web True q l] plain_error(1) [THEN plain_discreet(1)]
  by (auto simp: http_cat_GetRecipe_def RequireManager_def discreet_def split: option.splits sum.splits if_splits)

lemma catalog_http_discreet:
  assumes "catalog_http web w e q r0 r1 r = (answer, r')"
  shows "discreet web q answer \<and> (r' \<noteq> r \<longrightarrow> (\<exists>i. manages web q i \<and> audit_signed i r r') \<and> (e = PostFlavor \<or> (\<exists>k. e \<in> {PutFlavor k, PatchFlavor k, DeleteFlavor k})))"
proof (cases e)
  case PostFlavor
  then show ?thesis using assms managed_signed [of web "''POST''" "''''" q _ r answer r'] handlers_signed(1) by (simp add: catalog_http_def)
next
  case (PutFlavor k)
  then show ?thesis using assms managed_signed [of web "''PUT''" k q _ r answer r'] handlers_signed(3) by (simp add: catalog_http_def)
next
  case (PatchFlavor k)
  then show ?thesis using assms managed_signed [of web "''PATCH''" k q _ r answer r'] handlers_signed(2) by (simp add: catalog_http_def)
next
  case (DeleteFlavor k)
  then show ?thesis using assms managed_signed [of web "''DELETE''" k q _ r answer r'] handlers_signed(4) by (simp add: catalog_http_def)
qed (use assms refused_discreet list_discreet get_discreet recipe_discreet in \<open>auto simp: catalog_http_def split: sum.splits\<close>)

text \<open>
  C39. Access to the catalog. A request changes the store only with the token of a manager and through one of
  the four changing endpoints, and every audit record it adds names that manager. Flavors that are not
  active, recipes, and the flavor that a change has written are shown to managers only. No answer
  dereferences a missing flavor.
\<close>

theorem catalog_access:
  assumes "catalog_http web w e q r0 r1 r = (answer, r')"
  shows "(r' \<noteq> r \<longrightarrow> (\<exists>i. manages web q i \<and> audit_signed i r r') \<and> (e = PostFlavor \<or> (\<exists>k. e \<in> {PutFlavor k, PatchFlavor k, DeleteFlavor k}))) \<and>
    (\<forall>items f. answer = CatItems items \<and> f \<in> set items \<and> \<not> cf_Active f \<longrightarrow> (\<exists>i. manages web q i)) \<and>
    (\<forall>f. answer = CatShown f \<and> \<not> cf_Active f \<longrightarrow> (\<exists>i. manages web q i)) \<and>
    (\<forall>x. answer = CatRecipeShown x \<longrightarrow> (\<exists>i. manages web q i)) \<and> (\<forall>n f. answer = CatWritten n f \<longrightarrow> (\<exists>i. manages web q i)) \<and> answer \<noteq> CatPanic"
  using catalog_http_discreet [OF assms] by (cases answer) (auto simp: discreet_def)

text \<open>A manager adds a flavor.\<close>

definition kdocument :: json where
  "kdocument = JObj [(''name'', JStr ''Mango''), (''description'', JStr ''''), (''price'', JObj [(''amount_minor'', JNum ''9000''), (''currency'', JStr ''THB'')]),
     (''allergens'', JArr [JStr ''MILK'']), (''recipe'', JStr ''mix'')]"

definition kweb :: cat_web where
  "kweb = \<lparr>wb_lib = sample_lib, wb_jwt = (\<lambda>t. if t = ''tok'' then Some \<lparr>cc_Role = ''MANAGER'', cc_Subject = ''m'', cc_IssuedAt = Some 1, cc_ExpiresAt = Some 2\<rparr> else None),
     wb_parse = (\<lambda>z. if z = ''{..}'' then Some kdocument else None)\<rparr>"

definition kpost :: cat_request where
  "kpost = \<lparr>rq_Authorization = [''Bearer tok''], rq_Keys = [], rq_Body = ''{..}''\<rparr>"

theorem catalog_access_witness:
  "\<exists>i. manages kweb kpost i \<and> audit_signed i (redis_start Map.empty) (snd (catalog_http kweb (sample_world 1) PostFlavor kpost (redis_start Map.empty) (redis_start Map.empty) (redis_start Map.empty)))"
proof -
  let ?r = "redis_start Map.empty"
  obtain answer r' where run: "catalog_http kweb (sample_world 1) PostFlavor kpost ?r ?r ?r = (answer, r')" by (rule prod.exhaust)
  have "rs_names (snd (catalog_http kweb (sample_world 1) PostFlavor kpost ?r ?r ?r)) ''mango'' \<noteq> rs_names ?r ''mango''" by code_simp
  then have "r' \<noteq> ?r" using run by auto
  then show ?thesis using catalog_access [OF run] run by auto
qed

end
