(* ===== verification/Fulfillment_Http.thy ===== *)
theory Fulfillment_Http
  imports Fulfillment_Props
begin

text \<open>
  The HTTP surface of the fulfillment service: token check (\<open>middleware/auth.go\<close>), the routes with the
  roles that may use them (\<open>router/router.go\<close>) and the handlers (\<open>handler/fulfillment_handler.go\<close>), on
  top of the repository. What a caller can see and change by the role of its token.
\<close>

section \<open>Tokens and roles\<close>

record kitchen_claims =
  kc_Role :: string
  kc_Subject :: string
  kc_IssuedAt :: "time option"
  kc_ExpiresAt :: "time option"

text \<open>
  Code outside the repository: \<open>kl_jwt\<close> is \<open>jwt.ParseWithClaims\<close> with the options of the verifier, for a
  secret that is not empty; \<open>kl_uuid\<close> is \<open>uuid.Parse\<close>; \<open>kl_time\<close> and \<open>kl_nano\<close> are \<open>time.Parse\<close> of RFC 3339
  texts without and with fractions.
\<close>

record kitchen_lib =
  kl_secret :: string
  kl_jwt :: "string \<Rightarrow> kitchen_claims option"
  kl_uuid :: "string \<Rightarrow> string option"
  kl_time :: "string \<Rightarrow> time option"
  kl_nano :: "string \<Rightarrow> time option"

definition kitchen_role_Valid :: "string \<Rightarrow> bool" where
  "kitchen_role_Valid r \<longleftrightarrow> r = ''CUSTOMER'' \<or> r = ''STAFF'' \<or> r = ''MANAGER''"

definition kitchen_Parse :: "kitchen_lib \<Rightarrow> string \<Rightarrow> kitchen_claims option" where
  "kitchen_Parse lib raw =
     (if kl_secret lib = '''' then None
      else case kl_jwt lib raw of
        None \<Rightarrow> None
      | Some claims \<Rightarrow>
          (case (kc_IssuedAt claims, kc_ExpiresAt claims) of
             (Some issued, Some expires) \<Rightarrow>
               if \<not> expires > issued then None
               else (case kl_uuid lib (kc_Subject claims) of
                  None \<Rightarrow> None
                | Some userID \<Rightarrow> if userID = uuid_Nil \<or> \<not> kitchen_role_Valid (kc_Role claims) then None else Some claims)
           | _ \<Rightarrow> None))"

text \<open>The values of the context: subject and role, both set or both absent.\<close>

record kitchen_user =
  ku_ID :: string
  ku_Role :: string

definition kitchen_GetUserID :: "kitchen_lib \<Rightarrow> kitchen_user option \<Rightarrow> string option" where
  "kitchen_GetUserID lib c = (case c of
     None \<Rightarrow> None
   | Some u \<Rightarrow> (case kl_uuid lib (ku_ID u) of None \<Rightarrow> None | Some i \<Rightarrow> if i \<noteq> uuid_Nil then Some i else None))"

definition kitchen_GetUserRole :: "kitchen_user option \<Rightarrow> string option" where
  "kitchen_GetUserRole c = (case c of None \<Rightarrow> None | Some u \<Rightarrow> if kitchen_role_Valid (ku_Role u) then Some (ku_Role u) else None)"

datatype kitchen_answer =
    KFail nat string
  | KTicket ticket
  | KTickets "ticket list"
  | KRows "history_row list"
  | KCapacity time time time int

text \<open>The bearer token of an Authorization header that is not empty.\<close>

definition bearer_user :: "kitchen_lib \<Rightarrow> string \<Rightarrow> kitchen_answer + kitchen_user" where
  "bearer_user lib authHeader =
     (let parts = Fields authHeader in
      if length parts \<noteq> 2 \<or> \<not> EqualFold (parts ! 0) ''Bearer'' then Inl (KFail 401 ''UNAUTHORIZED'')
      else case kitchen_Parse lib (parts ! 1) of
        None \<Rightarrow> Inl (KFail 401 ''UNAUTHORIZED'')
      | Some claims \<Rightarrow> Inr \<lparr>ku_ID = kc_Subject claims, ku_Role = kc_Role claims\<rparr>)"

definition kitchen_Authenticate :: "kitchen_lib \<Rightarrow> bool \<Rightarrow> string \<Rightarrow> kitchen_user option \<Rightarrow> kitchen_answer + kitchen_user option" where
  "kitchen_Authenticate lib required authHeader c =
     (if authHeader = '''' then (if \<not> required then Inr c else Inl (KFail 401 ''UNAUTHORIZED''))
      else map_sum id Some (bearer_user lib authHeader))"

definition RequireRoles :: "kitchen_lib \<Rightarrow> string list \<Rightarrow> string \<Rightarrow> kitchen_user option \<Rightarrow> kitchen_answer + kitchen_user option" where
  "RequireRoles lib allowed authHeader c =
     (case (case c of
          None \<Rightarrow> if authHeader = '''' then Inl (KFail 401 ''UNAUTHORIZED'') else map_sum id Some (bearer_user lib authHeader)
        | Some u \<Rightarrow> Inr (Some u)) of
        Inl a \<Rightarrow> Inl a
      | Inr c \<Rightarrow>
          (case kitchen_GetUserRole c of
             None \<Rightarrow> Inl (KFail 401 ''UNAUTHORIZED'')
           | Some userRole \<Rightarrow> if userRole \<in> set allowed then Inr c else Inl (KFail 403 ''FORBIDDEN'')))"

section \<open>Handlers\<close>

definition kitchen_staff :: "kitchen_user option \<Rightarrow> bool" where
  "kitchen_staff c \<longleftrightarrow> kitchen_GetUserRole c = Some ''STAFF'' \<or> kitchen_GetUserRole c = Some ''MANAGER''"

text \<open>\<open>strings.Split\<close> at a comma.\<close>

fun split_comma :: "string \<Rightarrow> string list" where
  "split_comma [] = [[]]"
| "split_comma (c # z) = (if c = CHR '','' then [] # split_comma z else (case split_comma z of [] \<Rightarrow> [[c]] | p # ps \<Rightarrow> (c # p) # ps))"

definition text_status :: "string \<Rightarrow> ticket_status option" where
  "text_status z = find (\<lambda>st. status_text st = z) [Queued, Preparing, Ready, PickedUp, TCancelled]"

fun status_filter :: "string list \<Rightarrow> ticket_status list option" where
  "status_filter [] = Some []"
| "status_filter (p # ps) = (case text_status (TrimSpace p) of None \<Rightarrow> None | Some st \<Rightarrow> map_option (Cons st) (status_filter ps))"

definition parseTimeParam :: "kitchen_lib \<Rightarrow> string \<Rightarrow> time option option" where
  "parseTimeParam lib value =
     (let raw = TrimSpace value in
      if raw = '''' then Some None else map_option Some (kl_nano lib raw))"

definition http_List :: "kitchen_lib \<Rightarrow> string \<Rightarrow> string \<Rightarrow> string \<Rightarrow> world \<Rightarrow> ful_db \<Rightarrow> nat \<Rightarrow> kitchen_answer \<times> ful_db \<times> nat" where
  "http_List lib status pickup_from pickup_to w db n =
     (case (if status = '''' then Some [] else status_filter (split_comma status)) of
        None \<Rightarrow> (KFail 400 ''VALIDATION_ERROR'', db, n)
      | Some sts \<Rightarrow>
          (case parseTimeParam lib pickup_from of
             None \<Rightarrow> (KFail 400 ''VALIDATION_ERROR'', db, n)
           | Some from \<Rightarrow>
               (case parseTimeParam lib pickup_to of
                  None \<Rightarrow> (KFail 400 ''VALIDATION_ERROR'', db, n)
                | Some till \<Rightarrow>
                    if (case (from, till) of (Some a, Some b) \<Rightarrow> \<not> a < b | _ \<Rightarrow> False) then (KFail 400 ''VALIDATION_ERROR'', db, n)
                    else (case List_tickets \<lparr>lf_Statuses = sts, lf_PickupFrom = from, lf_PickupTo = till\<rparr> w db n of
                       (Inl _, db, n) \<Rightarrow> (KFail 500 ''INTERNAL_ERROR'', db, n)
                     | (Inr items, db, n) \<Rightarrow> (KTickets items, db, n)))))"

definition read_failed :: "ferror \<Rightarrow> kitchen_answer" where
  "read_failed e = (if e = FNotFound then KFail 404 ''NOT_FOUND'' else KFail 500 ''INTERNAL_ERROR'')"

definition http_Get :: "kitchen_lib \<Rightarrow> kitchen_user option \<Rightarrow> string \<Rightarrow> world \<Rightarrow> ful_db \<Rightarrow> nat \<Rightarrow> kitchen_answer \<times> ful_db \<times> nat" where
  "http_Get lib c order_id w db n = (case kl_uuid lib order_id of
     None \<Rightarrow> (KFail 400 ''VALIDATION_ERROR'', db, n)
   | Some orderID \<Rightarrow>
       (case GetByOrderID orderID w db n of
          (Inl e, db, n) \<Rightarrow> (read_failed e, db, n)
        | (Inr f, db, n) \<Rightarrow>
            if \<not> kitchen_staff c \<and> (kitchen_GetUserID lib c = None \<or> f_CustomerID f = None \<or> f_CustomerID f \<noteq> kitchen_GetUserID lib c)
            then (KFail 404 ''NOT_FOUND'', db, n)
            else (KTicket f, db, n)))"

definition http_History :: "kitchen_lib \<Rightarrow> string \<Rightarrow> world \<Rightarrow> ful_db \<Rightarrow> nat \<Rightarrow> kitchen_answer \<times> ful_db \<times> nat" where
  "http_History lib order_id w db n = (case kl_uuid lib order_id of
     None \<Rightarrow> (KFail 400 ''VALIDATION_ERROR'', db, n)
   | Some orderID \<Rightarrow>
       (case GetByOrderID orderID w db n of
          (Inl e, db, n) \<Rightarrow> (read_failed e, db, n)
        | (Inr f, db, n) \<Rightarrow>
            (case GetHistory (f_ID f) w db n of
               (Inl _, db, n) \<Rightarrow> (KFail 500 ''INTERNAL_ERROR'', db, n)
             | (Inr items, db, n) \<Rightarrow> (KRows items, db, n))))"

text \<open>\<open>body\<close> is the status of the bound body; \<open>None\<close> when binding fails.\<close>

definition http_UpdateStatus :: "kitchen_lib \<Rightarrow> kitchen_user option \<Rightarrow> string \<Rightarrow> string option \<Rightarrow> world \<Rightarrow> ful_db \<Rightarrow> nat \<Rightarrow> kitchen_answer \<times> ful_db \<times> nat" where
  "http_UpdateStatus lib c order_id body w db n = (case kl_uuid lib order_id of
     None \<Rightarrow> (KFail 400 ''VALIDATION_ERROR'', db, n)
   | Some orderID \<Rightarrow>
       (case body of
          None \<Rightarrow> (KFail 400 ''BAD_REQUEST'', db, n)
        | Some st \<Rightarrow>
            if \<not> IsUpdatable st then (KFail 400 ''VALIDATION_ERROR'', db, n)
            else (case UpdateStatus (kitchen_GetUserID lib c) orderID (the (text_status st)) w db n of
               (Inl e, db, n) \<Rightarrow> (if e = FInvalidTransition then KFail 409 ''INVALID_TRANSITION'' else read_failed e, db, n)
             | (Inr f, db, n) \<Rightarrow> (KTicket f, db, n))))"

definition http_GetSlotCapacity :: "kitchen_lib \<Rightarrow> (time \<Rightarrow> string) \<Rightarrow> string \<Rightarrow> world \<Rightarrow> ful_db \<Rightarrow> nat \<Rightarrow> kitchen_answer \<times> ful_db \<times> nat" where
  "http_GetSlotCapacity lib slot_id rawTime w db n =
     (if TrimSpace rawTime = '''' then (KFail 400 ''VALIDATION_ERROR'', db, n)
      else case (case kl_time lib rawTime of Some t \<Rightarrow> Some t | None \<Rightarrow> kl_nano lib rawTime) of
        None \<Rightarrow> (KFail 400 ''VALIDATION_ERROR'', db, n)
      | Some slotTime \<Rightarrow>
          (case GetSlotCapacity slot_id slotTime w db n of
             (Inl _, db, n) \<Rightarrow> (KFail 500 ''INTERNAL_ERROR'', db, n)
           | (Inr activeCount, db, n) \<Rightarrow>
               let start = time_Truncate slotTime (15 * Minute) in (KCapacity slotTime start (start + 15 * Minute) activeCount, db, n)))"

section \<open>Routes\<close>

datatype kitchen_request =
    GetCapacity string
  | GetList string string string
  | GetTicket string
  | GetTicketHistory string
  | PatchStatus string "string option"

text \<open>No middleware sets the context before \<open>RequireRoles\<close>.\<close>

definition guarded :: "kitchen_lib \<Rightarrow> string list \<Rightarrow> string \<Rightarrow> (kitchen_user option \<Rightarrow> world \<Rightarrow> ful_db \<Rightarrow> nat \<Rightarrow> kitchen_answer \<times> ful_db \<times> nat) \<Rightarrow>
    world \<Rightarrow> ful_db \<Rightarrow> nat \<Rightarrow> kitchen_answer \<times> ful_db \<times> nat" where
  "guarded lib allowed authHeader next w db n = (case RequireRoles lib allowed authHeader None of Inl a \<Rightarrow> (a, db, n) | Inr c \<Rightarrow> next c w db n)"

definition kitchen_http :: "kitchen_lib \<Rightarrow> (time \<Rightarrow> string) \<Rightarrow> string \<Rightarrow> kitchen_request \<Rightarrow> world \<Rightarrow> ful_db \<Rightarrow> nat \<Rightarrow> kitchen_answer \<times> ful_db \<times> nat" where
  "kitchen_http lib slot_id authHeader r = (case r of
     GetCapacity slot_time \<Rightarrow> http_GetSlotCapacity lib slot_id slot_time
   | GetList status from till \<Rightarrow> guarded lib [''STAFF'', ''MANAGER''] authHeader (\<lambda>_. http_List lib status from till)
   | GetTicket order_id \<Rightarrow> guarded lib [''CUSTOMER'', ''STAFF'', ''MANAGER''] authHeader (\<lambda>c. http_Get lib c order_id)
   | GetTicketHistory order_id \<Rightarrow> guarded lib [''MANAGER''] authHeader (\<lambda>_. http_History lib order_id)
   | PatchStatus order_id body \<Rightarrow> guarded lib [''STAFF'', ''MANAGER''] authHeader (\<lambda>c. http_UpdateStatus lib c order_id body))"

section \<open>What a caller can see and change\<close>

text \<open>The user of a request: the header carries a verified token.\<close>

definition signed_in :: "kitchen_lib \<Rightarrow> string \<Rightarrow> string \<Rightarrow> string \<Rightarrow> bool" where
  "signed_in lib authHeader userID role \<longleftrightarrow>
     (\<exists>scheme token claims. Fields authHeader = [scheme, token] \<and> EqualFold scheme ''Bearer'' \<and> kitchen_Parse lib token = Some claims \<and>
        kl_uuid lib (kc_Subject claims) = Some userID \<and> kc_Role claims = role)"

lemma kitchen_ParseD:
  assumes "kitchen_Parse lib token = Some claims"
  shows "\<exists>i. kl_uuid lib (kc_Subject claims) = Some i \<and> i \<noteq> uuid_Nil \<and> kitchen_role_Valid (kc_Role claims)"
  using assms by (auto simp: kitchen_Parse_def split: if_splits option.splits)

lemma bearer_userD:
  assumes "bearer_user lib authHeader = Inr u"
  shows "\<exists>i. signed_in lib authHeader i (ku_Role u) \<and> kitchen_GetUserID lib (Some u) = Some i \<and> kitchen_GetUserRole (Some u) = Some (ku_Role u)"
proof -
  let ?parts = "Fields authHeader"
  have ok: "length ?parts = 2" "EqualFold (?parts ! 0) ''Bearer''" "\<exists>claims. kitchen_Parse lib (?parts ! 1) = Some claims \<and> u = \<lparr>ku_ID = kc_Subject claims, ku_Role = kc_Role claims\<rparr>"
    using assms by (auto simp: bearer_user_def Let_def split: if_splits option.splits)
  have parts: "?parts = [?parts ! 0, ?parts ! 1]" using ok(1) by (auto simp: length_Suc_conv numeral_2_eq_2)
  from ok(3) obtain claims where c: "kitchen_Parse lib (?parts ! 1) = Some claims" "u = \<lparr>ku_ID = kc_Subject claims, ku_Role = kc_Role claims\<rparr>" by blast
  from kitchen_ParseD [OF c(1)] obtain i where i: "kl_uuid lib (kc_Subject claims) = Some i" "i \<noteq> uuid_Nil" "kitchen_role_Valid (kc_Role claims)" by blast
  have "signed_in lib authHeader i (ku_Role u)" unfolding signed_in_def using parts ok(2) c i(1) by (metis kitchen_user.select_convs(2))
  then show ?thesis using c(2) i by (simp add: kitchen_GetUserID_def kitchen_GetUserRole_def)
qed

text \<open>A guarded handler runs only for a signed in user of an allowed role.\<close>

lemma guarded_cases:
  obtains (refused) a where "guarded lib allowed authHeader next w db n = (a, db, n)" "a \<in> {KFail 401 ''UNAUTHORIZED'', KFail 403 ''FORBIDDEN''}"
  | (passed) u i where "guarded lib allowed authHeader next w db n = next (Some u) w db n" "signed_in lib authHeader i (ku_Role u)" "ku_Role u \<in> set allowed"
      "kitchen_GetUserID lib (Some u) = Some i" "kitchen_GetUserRole (Some u) = Some (ku_Role u)"
proof (cases "authHeader = ''''")
  case True
  then show ?thesis by (intro refused [of "KFail 401 ''UNAUTHORIZED''"]) (simp_all add: guarded_def RequireRoles_def)
next
  case False
  show ?thesis
  proof (cases "bearer_user lib authHeader")
    case (Inl a)
    then have "a = KFail 401 ''UNAUTHORIZED''" by (auto simp: bearer_user_def Let_def split: if_splits option.splits)
    then show ?thesis using False Inl by (intro refused [of a]) (simp_all add: guarded_def RequireRoles_def)
  next
    case (Inr u)
    from bearer_userD [OF Inr] obtain i where i: "signed_in lib authHeader i (ku_Role u)" "kitchen_GetUserID lib (Some u) = Some i" "kitchen_GetUserRole (Some u) = Some (ku_Role u)" by blast
    show ?thesis
    proof (cases "ku_Role u \<in> set allowed")
      case True
      then show ?thesis using False Inr i by (intro passed [of u i]) (simp_all add: guarded_def RequireRoles_def)
    next
      case no: False
      then show ?thesis using False Inr i by (intro refused [of "KFail 403 ''FORBIDDEN''"]) (simp_all add: guarded_def RequireRoles_def)
    qed
  qed
qed

text \<open>Every history row that a status change adds is signed by the actor.\<close>

definition signed_rows :: "string option \<Rightarrow> ful_db \<Rightarrow> ful_db \<Rightarrow> bool" where
  "signed_rows actor db db' \<longleftrightarrow> (\<forall>h\<in>set (history db'). h \<in> set (history db) \<or> h_ActorID h = actor)"

lemma UpdateStatus_signed: "signed_rows actor db (state_of (UpdateStatus actor oid target w db n))"
proof -
  have "wp (UpdateStatus actor oid target) (\<lambda>_ s _. signed_rows actor db s) (\<lambda>_ s _. signed_rows actor db s) w db n"
    unfolding UpdateStatus_def
    by (rule wpi_atomically)
      (auto simp: wp_rules signed_rows_def scanFulfillment_def update_ticket_def insert_history_def publish_status_def newEnvelope_def insertOutbox_def Let_def
        split: option.splits ticket_status.splits)
  then show ?thesis by (simp add: wp_state)
qed

text \<open>Reads leave the tables alone.\<close>

lemma kitchen_reads:
  "fst (snd (http_List lib status from till w db n)) = db" "fst (snd (http_Get lib c order_id w db n)) = db"
  "fst (snd (http_History lib order_id w db n)) = db" "fst (snd (http_GetSlotCapacity lib slot_id z w db n)) = db"
  by (auto simp: http_List_def http_Get_def http_History_def http_GetSlotCapacity_def List_tickets_def GetByOrderID_def scanFulfillment_def GetHistory_def GetSlotCapacity_def
    tx_defs Let_def split: option.splits sum.splits prod.splits)

lemma http_Update_effect:
  assumes "kitchen_GetUserID lib c = Some i"
  shows "fst (snd (http_UpdateStatus lib c order_id body w db n)) = db \<or> (\<exists>st. body = Some st \<and> IsUpdatable st) \<and> signed_rows (Some i) db (fst (snd (http_UpdateStatus lib c order_id body w db n)))"
proof (cases "kl_uuid lib order_id = None \<or> body = None \<or> \<not> IsUpdatable (the body)")
  case True
  then show ?thesis by (auto simp: http_UpdateStatus_def split: option.splits)
next
  case False
  then obtain oid st where ok: "kl_uuid lib order_id = Some oid" "body = Some st" "IsUpdatable st" by auto
  then have "fst (snd (http_UpdateStatus lib c order_id body w db n)) = state_of (UpdateStatus (Some i) oid (the (text_status st)) w db n)"
    using assms by (auto simp: http_UpdateStatus_def split: prod.splits sum.splits)
  then show ?thesis using UpdateStatus_signed [of "Some i" db oid "the (text_status st)" w n] ok by simp
qed

text \<open>What the handlers answer.\<close>

lemma read_kinds:
  "http_List lib status lo hi w db n = (a, s, k) \<Longrightarrow> a \<noteq> KRows hs \<and> a \<noteq> KTicket f"
  "http_Get lib c order_id w db n = (a, s, k) \<Longrightarrow> a \<noteq> KTickets xs \<and> a \<noteq> KRows hs \<and>
    (a = KTicket f \<longrightarrow> kitchen_staff c \<or> kitchen_GetUserID lib c \<noteq> None \<and> f_CustomerID f = kitchen_GetUserID lib c)"
  "http_History lib order_id w db n = (a, s, k) \<Longrightarrow> a \<noteq> KTickets xs \<and> a \<noteq> KTicket f"
  "http_UpdateStatus lib c order_id body w db n = (a, s, k) \<Longrightarrow> a \<noteq> KTickets xs \<and> a \<noteq> KRows hs"
  by (auto simp: http_List_def http_Get_def http_History_def http_UpdateStatus_def read_failed_def split: if_splits option.splits prod.splits sum.splits)

lemma guarded_runs:
  assumes "guarded lib allowed authHeader next w db n = (a, db', n')"
  obtains (refused) code z where "a = KFail code z" "db' = db"
  | (passed) u i where "next (Some u) w db n = (a, db', n')" "signed_in lib authHeader i (ku_Role u)" "ku_Role u \<in> set allowed"
      "kitchen_GetUserID lib (Some u) = Some i" "kitchen_GetUserRole (Some u) = Some (ku_Role u)"
  by (rule guarded_cases [of lib allowed authHeader "next" w db n]) (use assms refused passed in auto)

text \<open>
  C40. Access to the kitchen. A request changes the tables only with the token of a member of the staff or
  a manager, through a status change that staff may ask for, and every history row it adds is signed by
  that user. The queue is shown to staff and managers, the history of a ticket to managers, and a ticket
  to a customer only when it belongs to the customer's own order.
\<close>

theorem kitchen_access:
  assumes "kitchen_http lib slot_id authHeader r w db n = (answer, db', n')"
  shows "(db' \<noteq> db \<longrightarrow> (\<exists>i role order_id st. signed_in lib authHeader i role \<and> role \<in> {''STAFF'', ''MANAGER''} \<and> r = PatchStatus order_id (Some st) \<and> IsUpdatable st \<and>
      signed_rows (Some i) db db')) \<and>
    (\<forall>xs. answer = KTickets xs \<longrightarrow> (\<exists>i role. signed_in lib authHeader i role \<and> role \<in> {''STAFF'', ''MANAGER''})) \<and>
    (\<forall>hs. answer = KRows hs \<longrightarrow> (\<exists>i. signed_in lib authHeader i ''MANAGER'')) \<and>
    (\<forall>f. answer = KTicket f \<longrightarrow> (\<exists>i role. signed_in lib authHeader i role \<and> (role \<in> {''STAFF'', ''MANAGER''} \<or> f_CustomerID f = Some i)))"
proof (cases r)
  case (GetCapacity z)
  then show ?thesis using assms kitchen_reads(4) [of lib slot_id z w db n]
    by (auto simp: kitchen_http_def http_GetSlotCapacity_def Let_def split: if_splits option.splits prod.splits sum.splits)
next
  case (GetList status lo hi)
  then have "guarded lib [''STAFF'', ''MANAGER''] authHeader (\<lambda>_. http_List lib status lo hi) w db n = (answer, db', n')" using assms by (simp add: kitchen_http_def)
  then show ?thesis by (cases rule: guarded_runs) (use kitchen_reads(1) [of lib status lo hi w db n] read_kinds(1) in \<open>fastforce+\<close>)
next
  case (GetTicket order_id)
  then have "guarded lib [''CUSTOMER'', ''STAFF'', ''MANAGER''] authHeader (\<lambda>c. http_Get lib c order_id) w db n = (answer, db', n')" using assms by (simp add: kitchen_http_def)
  then show ?thesis
  proof (cases rule: guarded_runs)
    case (passed u i)
    have "db' = db" using kitchen_reads(2) [of lib "Some u" order_id w db n] passed(1) by simp
    then show ?thesis using read_kinds(2) [OF passed(1)] passed(2-5) unfolding kitchen_staff_def by (metis insertCI option.inject)
  qed auto
next
  case (GetTicketHistory order_id)
  then have "guarded lib [''MANAGER''] authHeader (\<lambda>_. http_History lib order_id) w db n = (answer, db', n')" using assms by (simp add: kitchen_http_def)
  then show ?thesis by (cases rule: guarded_runs) (use kitchen_reads(3) [of lib order_id w db n] read_kinds(3) in \<open>fastforce+\<close>)
next
  case (PatchStatus order_id body)
  then have "guarded lib [''STAFF'', ''MANAGER''] authHeader (\<lambda>c. http_UpdateStatus lib c order_id body) w db n = (answer, db', n')" using assms by (simp add: kitchen_http_def)
  then show ?thesis
  proof (cases rule: guarded_runs)
    case (passed u i)
    then show ?thesis using http_Update_effect [OF passed(4), of order_id body w db n] read_kinds(4) [of lib "Some u" order_id body w db n] PatchStatus by auto
  qed auto
qed

text \<open>A member of the staff starts with a ticket.\<close>

definition kstaff :: kitchen_lib where
  "kstaff = \<lparr>kl_secret = ''secret'', kl_jwt = (\<lambda>t. if t = ''tok'' then Some \<lparr>kc_Role = ''STAFF'', kc_Subject = ''s1'', kc_IssuedAt = Some 1, kc_ExpiresAt = Some 2\<rparr> else None),
     kl_uuid = Some, kl_time = (\<lambda>_. None), kl_nano = (\<lambda>_. None)\<rparr>"

theorem kitchen_access_witness:
  "\<exists>i role. signed_in kstaff ''Bearer tok'' i role \<and> role \<in> {''STAFF'', ''MANAGER''} \<and>
    signed_rows (Some i) kitchen2 (fst (snd (kitchen_http kstaff (\<lambda>_. ''S'') ''Bearer tok'' (PatchStatus ''A'' (Some ''PREPARING'')) (kworld 3) kitchen2 0)))"
proof -
  obtain answer db' n' where run: "kitchen_http kstaff (\<lambda>_. ''S'') ''Bearer tok'' (PatchStatus ''A'' (Some ''PREPARING'')) (kworld 3) kitchen2 0 = (answer, db', n')" by (rule prod_cases3)
  have "map f_Status (tickets (fst (snd (kitchen_http kstaff (\<lambda>_. ''S'') ''Bearer tok'' (PatchStatus ''A'' (Some ''PREPARING'')) (kworld 3) kitchen2 0)))) \<noteq> map f_Status (tickets kitchen2)"
    by code_simp
  then have "db' \<noteq> kitchen2" using run by auto
  then show ?thesis using kitchen_access [OF run] run by auto
qed

end
