(* ===== verification/Order_Http.thy ===== *)
theory Order_Http
  imports Order_Props Gelato_Keeps Gelato_Text
begin

text \<open>
  The surfaces of the order service: the HTTP handlers (\<open>handler/order_handler.go\<close>) with the routes of
  \<open>cmd/server/main.go\<close>, and the gRPC reads for the analytics and payment services
  (\<open>grpc/order_grpc_server.go\<close>). Who can place, see, pay and cancel an order.
\<close>

section \<open>Handlers\<close>

record order_web =
  ow_svc :: order_svc
  ow_paymentToken :: string

text \<open>The headers a handler reads, empty when absent.\<close>

record order_call =
  hq_UserID :: string
  hq_UserRole :: string
  hq_Authorization :: string
  hq_PaymentToken :: string
  hq_Key :: string

datatype order_reply =
    OrderFail int string "string option"
  | OrderCreated CheckoutResponse
  | OrderShown order
  | OrderNoContent

definition NewOrderHandler :: "order_svc \<Rightarrow> string \<Rightarrow> order_web option" where
  "NewOrderHandler svc paymentToken = (if paymentToken = '''' then None else Some \<lparr>ow_svc = svc, ow_paymentToken = paymentToken\<rparr>)"

definition writeError :: "oerror \<Rightarrow> order_reply" where
  "writeError e = (case e of
     App a \<Rightarrow> OrderFail (ae_HTTPStatus a) (ae_Code a) (ae_Details a)
   | _ \<Rightarrow> OrderFail 500 ''INTERNAL_ERROR'' None)"

definition authenticatedUserID :: "order_web \<Rightarrow> order_call \<Rightarrow> string option" where
  "authenticatedUserID h c = v_uuidParse (ow_svc h) (hq_UserID c)"

definition is_bearer :: "order_call \<Rightarrow> bool" where
  "is_bearer c \<longleftrightarrow> prefix ''bearer '' (map ascii_lower (TrimSpace (hq_Authorization c)))"

definition authorizePaymentService :: "order_web \<Rightarrow> order_call \<Rightarrow> bool" where
  "authorizePaymentService h c \<longleftrightarrow> length (hq_PaymentToken c) = length (ow_paymentToken h) \<and> hq_PaymentToken c = ow_paymentToken h"

text \<open>
  The end of a handler: the answer or the error of the service. The forwarded bearer only decides what the
  catalog and fulfillment services answer, which the environment of a step gives.
\<close>

definition reply_with :: "(oerror + 'a) oproc \<Rightarrow> ('a \<Rightarrow> order_reply) \<Rightarrow> order_reply oproc" where
  "reply_with p f = bindP p (\<lambda>r. case r of Inl e \<Rightarrow> Done (writeError e) | Inr a \<Rightarrow> Done (f a))"

text \<open>\<open>body\<close> is the body decoded into the struct; \<open>None\<close> when decoding fails.\<close>

definition http_CreateOrder :: "order_web \<Rightarrow> order_call \<Rightarrow> CreateOrderInput option \<Rightarrow> order_reply oproc" where
  "http_CreateOrder h c body = (case body of
     None \<Rightarrow> Done (OrderFail 400 ''INVALID_JSON'' None)
   | Some input0 \<Rightarrow>
       let input = input0\<lparr>in_CustomerID := (case authenticatedUserID h c of None \<Rightarrow> '''' | Some i \<Rightarrow> i)\<rparr> in
       if in_CustomerID input = '''' then Done (OrderFail 401 ''UNAUTHENTICATED'' None)
       else reply_with (PlaceOrder (ow_svc h) input (hq_Key c)) OrderCreated)"

definition http_GetOrder :: "order_web \<Rightarrow> order_call \<Rightarrow> string \<Rightarrow> order_reply oproc" where
  "http_GetOrder h c i = (case authenticatedUserID h c of
     None \<Rightarrow> Done (OrderFail 401 ''UNAUTHENTICATED'' None)
   | Some userID \<Rightarrow>
       bindP (GetOrder (ow_svc h) i) (\<lambda>r. case r of
         Inl e \<Rightarrow> Done (writeError e)
       | Inr ord \<Rightarrow> if userID \<noteq> o_CustomerID ord then Done (OrderFail 403 ''FORBIDDEN'' None) else Done (OrderShown ord)))"

definition http_PaymentSucceeded :: "order_web \<Rightarrow> order_call \<Rightarrow> string \<Rightarrow> order_reply oproc" where
  "http_PaymentSucceeded h c i =
     (if \<not> authorizePaymentService h c then Done (OrderFail 401 ''UNAUTHENTICATED'' None)
      else reply_with (ConfirmPayment (ow_svc h) i) (\<lambda>_. OrderNoContent))"

definition http_PaymentFailed :: "order_web \<Rightarrow> order_call \<Rightarrow> string \<Rightarrow> order_reply oproc" where
  "http_PaymentFailed h c i =
     (if \<not> authorizePaymentService h c then Done (OrderFail 401 ''UNAUTHENTICATED'' None)
      else reply_with (CancelOrder (ow_svc h) i ''PAYMENT_FAILED'') (\<lambda>_. OrderNoContent))"

definition http_CancelOrder :: "order_web \<Rightarrow> order_call \<Rightarrow> string \<Rightarrow> string option \<Rightarrow> order_reply oproc" where
  "http_CancelOrder h c i body = (case body of
     None \<Rightarrow> Done (OrderFail 400 ''INVALID_JSON'' None)
   | Some reason \<Rightarrow>
       if reason \<noteq> ''CUSTOMER_REQUEST'' then Done (OrderFail 400 ''INVALID_ARGUMENT'' None)
       else bindP (GetOrder (ow_svc h) i) (\<lambda>r. case r of
         Inl e \<Rightarrow> Done (writeError e)
       | Inr ord \<Rightarrow>
           if authenticatedUserID h c \<noteq> Some (o_CustomerID ord) then Done (OrderFail 403 ''FORBIDDEN'' None)
           else reply_with (CancelOrder (ow_svc h) (o_ID ord) reason) (\<lambda>_. OrderNoContent)))"

definition http_StoreCancelOrder :: "order_web \<Rightarrow> order_call \<Rightarrow> string \<Rightarrow> order_reply oproc" where
  "http_StoreCancelOrder h c i =
     (if authenticatedUserID h c = None \<or> \<not> is_bearer c then Done (OrderFail 401 ''UNAUTHENTICATED'' None)
      else if hq_UserRole c \<noteq> ''STAFF'' \<and> hq_UserRole c \<noteq> ''MANAGER'' then Done (OrderFail 403 ''FORBIDDEN'' None)
      else reply_with (StoreCancelOrder (ow_svc h) i) (\<lambda>_. OrderNoContent))"

section \<open>Routes\<close>

datatype order_route =
    RCreate "CreateOrderInput option"
  | RGet string
  | RPaymentSucceeded string
  | RPaymentFailed string
  | RCancel string "string option"
  | RStoreCancel string

definition order_http :: "order_web \<Rightarrow> order_call \<Rightarrow> order_route \<Rightarrow> order_reply oproc" where
  "order_http h c r = (case r of
     RCreate body \<Rightarrow> http_CreateOrder h c body
   | RGet i \<Rightarrow> http_GetOrder h c i
   | RPaymentSucceeded i \<Rightarrow> http_PaymentSucceeded h c i
   | RPaymentFailed i \<Rightarrow> http_PaymentFailed h c i
   | RCancel i body \<Rightarrow> http_CancelOrder h c i body
   | RStoreCancel i \<Rightarrow> http_StoreCancelOrder h c i)"

section \<open>The gRPC reads\<close>

text \<open>The stream as the order ids received, ended by EOF or, if \<open>broken\<close>, by another error.\<close>

fun StreamOrderItems :: "order_svc \<Rightarrow> bool \<Rightarrow> order_item list \<Rightarrow> string list \<Rightarrow> (rpc_code + order_item list) oproc" where
  "StreamOrderItems v broken consolidatedItems [] = Done (if broken then Inl Internal else Inr consolidatedItems)"
| "StreamOrderItems v broken consolidatedItems (req # reqs) =
     (let orderID = TrimSpace req in
      if orderID = '''' then StreamOrderItems v broken consolidatedItems reqs
      else if v_uuidParse v orderID = None then Done (Inl InvalidArgument)
      else bindP (repo (Get_order orderID)) (\<lambda>r. case r of
        Inl e \<Rightarrow> Done (Inl (if e = RNotFound then NotFound else Internal))
      | Inr ord \<Rightarrow> StreamOrderItems v broken (consolidatedItems @ o_Items ord) reqs))"

record order_details =
  od_OrderId :: string
  od_CustomerId :: string
  od_Status :: order_status
  od_PickupAt :: string
  od_TotalAmountMinor :: int
  od_Currency :: string
  od_Items :: "order_item list"
  od_PaymentIntentId :: string

text \<open>\<open>rfc3339\<close> prints a time as \<open>time.RFC3339\<close> in UTC.\<close>

definition details_of :: "(time \<Rightarrow> string) \<Rightarrow> order \<Rightarrow> order_details" where
  "details_of rfc3339 ord = \<lparr>od_OrderId = o_ID ord, od_CustomerId = o_CustomerID ord, od_Status = o_Status ord, od_PickupAt = rfc3339 (o_PickupAt ord),
     od_TotalAmountMinor = o_TotalAmountMinor ord, od_Currency = o_Currency ord, od_Items = o_Items ord, od_PaymentIntentId = o_CheckoutSessionID ord\<rparr>"

definition GetOrderDetails :: "order_svc \<Rightarrow> (time \<Rightarrow> string) \<Rightarrow> string option \<Rightarrow> (rpc_code + order_details) oproc" where
  "GetOrderDetails v rfc3339 req = (case req of
     None \<Rightarrow> Done (Inl InvalidArgument)
   | Some raw \<Rightarrow>
       let orderID = TrimSpace raw in
       if orderID = '''' \<or> v_uuidParse v orderID = None then Done (Inl InvalidArgument)
       else bindP (repo (Get_order orderID)) (\<lambda>r. case r of
         Inl e \<Rightarrow> Done (Inl (if e = RNotFound then NotFound else Internal))
       | Inr ord \<Rightarrow> Done (Inr (details_of rfc3339 ord))))"

text \<open>
  A stream that is answered gives the items of the requested orders one after the other, as each order was
  when it was read.
\<close>

lemma read_order:
  assumes "path (repo (Get_order i)) tr (Done (Inr x))"
  shows "\<exists>s. tr = [(s, s)] \<and> find_order i (s_orders s) = Some x"
  using path_atom [OF assms [unfolded repo_def]] by (fastforce simp: atom_def Get_order_def First_def tx_defs split: if_splits option.splits)

lemma StreamOrderItems_exact:
  assumes "path (StreamOrderItems v broken acc reqs) tr (Done (Inr items))"
  shows "\<exists>xs. items = acc @ concat (map o_Items xs) \<and> \<not> broken \<and>
    list_all2 (\<lambda>(s, t) x. s = t \<and> x \<in> set (orders (s_orders s))) tr xs \<and> map o_ID xs = filter (\<lambda>i. i \<noteq> '''') (map TrimSpace reqs)"
  using assms
proof (induction v broken acc reqs arbitrary: tr rule: StreamOrderItems.induct)
  case (1 v broken acc)
  then show ?case by (auto split: if_splits)
next
  case (2 v broken acc req reqs)
  show ?case
  proof (cases "TrimSpace req = ''''")
    case True
    with 2 show ?thesis by (simp add: Let_def)
  next
    case False
    with "2.prems" obtain r tr1 tr2 where r: "tr = tr1 @ tr2" "path (repo (Get_order (TrimSpace req))) tr1 (Done r)" and parse: "v_uuidParse v (TrimSpace req) \<noteq> None"
      and rest: "path (case r of Inl e \<Rightarrow> Done (Inl (if e = RNotFound then NotFound else Internal)) | Inr ord \<Rightarrow> StreamOrderItems v broken (acc @ o_Items ord) reqs) tr2 (Done (Inr items))"
      by (auto simp: Let_def elim!: path_bind_Done split: if_splits)
    from rest obtain x where x: "r = Inr x" "path (StreamOrderItems v broken (acc @ o_Items x) reqs) tr2 (Done (Inr items))" by (cases r) auto
    with r read_order obtain s where s: "tr1 = [(s, s)]" "find_order (TrimSpace req) (s_orders s) = Some x" by blast
    from "2.IH"(2) [OF refl False parse x(2)] obtain xs where xs: "items = acc @ o_Items x @ concat (map o_Items xs)" "\<not> broken"
      "list_all2 (\<lambda>(s, t) x. s = t \<and> x \<in> set (orders (s_orders s))) tr2 xs" "map o_ID xs = filter (\<lambda>i. i \<noteq> '''') (map TrimSpace reqs)" by auto
    with find_orderD [OF s(2)] s(1) r(1) False show ?thesis by (intro exI [of _ "x # xs"]) simp
  qed
qed

section \<open>Owners\<close>

text \<open>Every order is one of \<open>D\<close>, with its customer, or belongs to a customer in \<open>C\<close>.\<close>

definition owners :: "order_db \<Rightarrow> (string \<times> string) set" where
  "owners db = (\<lambda>x. (o_ID x, o_CustomerID x)) ` set (orders db)"

definition owned_by :: "(string \<times> string) set \<Rightarrow> string set \<Rightarrow> order_db \<Rightarrow> bool" where
  "owned_by D C db \<longleftrightarrow> owners db \<subseteq> D \<union> UNIV \<times> C"

definition owned_step :: "string set \<Rightarrow> sys \<Rightarrow> sys \<Rightarrow> bool" where
  "owned_step C s t \<longleftrightarrow> owned_by (owners (s_orders s)) C (s_orders t)"

lemma owners_events: "owners (db\<lparr>oevents := es\<rparr>) = owners db"
  by (simp add: owners_def)

lemma owned_update:
  assumes "owned_by D C db" and "\<And>y. o_ID (f y) = o_ID y \<and> o_CustomerID (f y) = o_CustomerID y"
  shows "owned_by D C (db\<lparr>orders := update_where P f (orders db)\<rparr>)"
proof -
  have "map (\<lambda>x. (o_ID x, o_CustomerID x)) (update_where P f (orders db)) = map (\<lambda>x. (o_ID x, o_CustomerID x)) (orders db)"
    using assms(2) by (simp add: update_where_def)
  moreover have sel: "orders (db\<lparr>orders := xs\<rparr>) = xs" for xs by simp
  ultimately have "owners (db\<lparr>orders := update_where P f (orders db)\<rparr>) = owners db" 
    by (simp only: owners_def list.set_map [symmetric] sel)
  with assms(1) show ?thesis by (simp add: owned_by_def)
qed

lemma keeps_Updates: "(\<And>y. o_ID (f y) = o_ID y \<and> o_CustomerID (f y) = o_CustomerID y) \<Longrightarrow> keeps (owned_by D C) (Updates x f)"
  unfolding Updates_def Let_def by (intro keeps_intros keeps_exec owned_update) auto

lemma keeps_UpdatesWhere: "(\<And>y. o_ID (f y) = o_ID y \<and> o_CustomerID (f y) = o_CustomerID y) \<Longrightarrow> keeps (owned_by D C) (UpdatesWhere i sts f)"
  unfolding UpdatesWhere_def by (intro keeps_intros keeps_stmt) (auto intro: owned_update)

lemma keeps_insert_event: "keeps (owned_by D C) (insert_event i oid key payload)"
  unfolding insert_event_def by (intro keeps_intros keeps_stmt) (auto simp: owned_by_def owners_events split: if_splits)

lemma keeps_commit: "keeps I m \<Longrightarrow> keeps I (commit m)"
  unfolding commit_def by (intro keeps_intros)

lemma order_reads_keep: "keeps I (Get_order i)" "keeps I (GetByIdempotencyKey c k)" "keeps I (CountOrdersInSlot t)" "keeps I (First i)"
  unfolding Get_order_def GetByIdempotencyKey_def CountOrdersInSlot_def First_def by (intro keeps_intros)+

lemma order_writes_keep:
  "keeps (owned_by D C) (BindCheckout i sid u)" "keeps (owned_by D C) (BeginTransition i st)" "keeps (owned_by D C) (RejectPaymentConfirmation i)"
  "keeps (owned_by D C) (BeginStoreCancellation i)" "keeps (owned_by D C) (MarkPaidWithOutbox i p ev payload)" "keeps (owned_by D C) (MarkCancelled i ev payload)"
  unfolding BindCheckout_def BeginTransition_def RejectPaymentConfirmation_def BeginStoreCancellation_def MarkPaidWithOutbox_def MarkCancelled_def Let_def
  by ((intro keeps_intros keeps_commit keeps_Updates keeps_UpdatesWhere keeps_insert_event order_reads_keep; simp)+)

lemma create_keeps: "o_CustomerID x \<in> C \<Longrightarrow> keeps (owned_by D C) (Create_order x)"
  unfolding Create_order_def Let_def
  by (intro keeps_intros keeps_commit keeps_stmt) (auto simp: owned_by_def owners_def split: if_splits)

section \<open>The steps of the handlers\<close>

lemma steps_repo: "(\<And>D. keeps (owned_by D C) m) \<Longrightarrow> steps (owned_step C) (repo m)"
  unfolding repo_def
proof (rule steps_atom)
  fix e and s :: sys assume m: "\<And>D. keeps (owned_by D C) m"
  have "owned_by (owners (s_orders s)) C (state_of (m (e_world e) (s_orders s) 0))"
    using m [of "owners (s_orders s)"] by (auto simp: keeps_def owned_by_def)
  then show "owned_step C s (fst (case m (e_world e) (s_orders s) 0 of (r, db, _) \<Rightarrow> (s\<lparr>s_orders := db\<rparr>, r)))"
    by (simp add: owned_step_def state_of_def split_beta)
qed

lemma steps_other: "steps (owned_step C) nowP" "steps (owned_step C) newUUIDP" "steps (owned_step C) (askP f)" "steps (owned_step C) (call_inventory v call)"
  "steps S (failP e)"
  unfolding nowP_def newUUIDP_def askP_def call_inventory_def failP_def
  by (auto simp: owned_step_def owned_by_def Let_def split: prod.split intro!: steps_atom steps_Done)

lemma steps_ticket: "(\<And>st. steps S (f st)) \<Longrightarrow> steps S a \<Longrightarrow> steps S b \<Longrightarrow> steps S d \<Longrightarrow>
    steps S (case t of TicketStatus st \<Rightarrow> f st | TicketNotFound \<Rightarrow> a | TicketForbidden \<Rightarrow> b | TicketFailed \<Rightarrow> d)"
  by (cases t) simp_all

lemmas order_steps = steps_intros steps_repo steps_other steps_ticket order_reads_keep order_writes_keep

lemma GetOrder_steps: "steps (owned_step C) (GetOrder v i)"
  unfolding GetOrder_def by (intro order_steps)

lemma ConfirmPayment_steps: "steps (owned_step C) (ConfirmPayment v i)"
  unfolding ConfirmPayment_def finishPayment_def paymentStateError_def Let_def by (intro order_steps)

lemma CancelOrder_steps: "steps (owned_step C) (CancelOrder v i reason)"
  unfolding CancelOrder_def finishCancellation_def commitCancellation_def Let_def by (intro order_steps)

lemma StoreCancelOrder_steps: "steps (owned_step C) (StoreCancelOrder v i)"
  unfolding StoreCancelOrder_def claim_store_cancellation_def finishStoreCancellation_def commitCancellation_def by (intro order_steps)

lemma save_order_steps: "o_CustomerID ord \<in> C \<Longrightarrow> steps (owned_step C) (save_order ord)"
  unfolding save_order_def by (intro order_steps create_keeps)

lemma reserve_order_steps: "o_CustomerID ord \<in> C \<Longrightarrow> steps (owned_step C) (reserve_order v ord)"
  unfolding reserve_order_def Let_def by (intro order_steps save_order_steps) simp

lemma placeOrder_steps:
  assumes "\<And>c. v_uuidParse v (in_CustomerID input) = Some c \<Longrightarrow> c \<in> C"
  shows "steps (owned_step C) (placeOrder v input key)"
  unfolding placeOrder_def price_order_def check_limits_def check_slot_def Let_def
  by (intro order_steps reserve_order_steps) (use assms in \<open>simp_all add: new_order_def Let_def\<close>)

lemma PlaceOrder_steps:
  assumes "\<And>c. v_uuidParse v (in_CustomerID input) = Some c \<Longrightarrow> c \<in> C"
  shows "steps (owned_step C) (PlaceOrder v input key)"
  unfolding PlaceOrder_def startPayment_def bind_checkout_def Let_def
  by (intro order_steps placeOrder_steps assms) auto

section \<open>Access\<close>

lemma GetOrder_same: "steps (=) (GetOrder v i)"
proof -
  have "steps (=) (repo (Get_order i))"
    unfolding repo_def by (rule steps_atom) (auto simp: Get_order_def First_def tx_defs split: option.split prod.split)
  then show ?thesis unfolding GetOrder_def by (intro steps_intros steps_other) simp_all
qed

text \<open>An order that was read was in the table.\<close>

lemma GetOrder_path:
  assumes "path (GetOrder v i) tr (Done (Inr x))"
  shows "\<exists>s t. (s, t) \<in> set tr \<and> x \<in> set (orders (s_orders s)) \<and> o_ID x = i"
proof -
  have "path (bindP (repo (Get_order i)) (\<lambda>r. case r of Inl e \<Rightarrow> failP (mapRepositoryError e) | Inr ord \<Rightarrow> Done (Inr ord))) tr (Done (Inr x))"
    using assms by (auto simp: GetOrder_def failP_def split: if_splits)
  then obtain r tr1 tr2 where r: "tr = tr1 @ tr2" "path (repo (Get_order i)) tr1 (Done r)"
    "path (case r of Inl e \<Rightarrow> failP (mapRepositoryError e) | Inr ord \<Rightarrow> Done (Inr ord)) tr2 (Done (Inr x))" by (rule path_bind_Done)
  from r(3) have "r = Inr x" by (auto simp: failP_def split: sum.splits)
  with r(2) read_order obtain s where "tr1 = [(s, s)]" "find_order i (s_orders s) = Some x" by blast
  with find_orderD [of i "s_orders s" x] r(1) show ?thesis by auto
qed

text \<open>
  What entitles a request to a step from \<open>s\<close> to \<open>t\<close>, given the steps it made before.
\<close>

fun entitled :: "order_web \<Rightarrow> order_call \<Rightarrow> order_route \<Rightarrow> (sys \<times> sys) list \<Rightarrow> sys \<Rightarrow> sys \<Rightarrow> bool" where
  "entitled h c (RCreate _) tr s t \<longleftrightarrow> (\<exists>i customer. authenticatedUserID h c = Some i \<and> v_uuidParse (ow_svc h) i = Some customer \<and> owned_step {customer} s t)"
| "entitled h c (RGet _) tr s t \<longleftrightarrow> False"
| "entitled h c (RPaymentSucceeded _) tr s t \<longleftrightarrow> hq_PaymentToken c = ow_paymentToken h \<and> owned_step {} s t"
| "entitled h c (RPaymentFailed _) tr s t \<longleftrightarrow> hq_PaymentToken c = ow_paymentToken h \<and> owned_step {} s t"
| "entitled h c (RCancel i _) tr s t \<longleftrightarrow> owned_step {} s t \<and>
     (\<exists>s0 t0 x. (s0, t0) \<in> set tr \<and> x \<in> set (orders (s_orders s0)) \<and> o_ID x = i \<and> authenticatedUserID h c = Some (o_CustomerID x))"
| "entitled h c (RStoreCancel _) tr s t \<longleftrightarrow> (hq_UserRole c = ''STAFF'' \<or> hq_UserRole c = ''MANAGER'') \<and> authenticatedUserID h c \<noteq> None \<and> owned_step {} s t"

lemma reply_with_steps: "steps S p \<Longrightarrow> steps S (reply_with p f)"
  unfolding reply_with_def by (intro steps_intros)

lemma stepsD: "steps S p \<Longrightarrow> path p (tr1 @ (s, t) # tr2) q \<Longrightarrow> S s t"
  unfolding steps_def by fastforce

lemma create_entitled:
  assumes "path (http_CreateOrder h c body) (tr1 @ (s, t) # tr2) q"
  shows "entitled h c (RCreate body) tr1 s t"
proof -
  obtain input where body: "body = Some input" using assms by (cases body) (auto simp: http_CreateOrder_def)
  obtain i where i: "authenticatedUserID h c = Some i" and run: "path (reply_with (PlaceOrder (ow_svc h) (input\<lparr>in_CustomerID := i\<rparr>) (hq_Key c)) OrderCreated) (tr1 @ (s, t) # tr2) q"
    using assms body by (auto simp: http_CreateOrder_def Let_def split: if_splits option.splits)
  have S: "owned_step {x. v_uuidParse (ow_svc h) i = Some x} s t"
    by (rule stepsD [OF reply_with_steps [OF PlaceOrder_steps] run]) simp
  show ?thesis
  proof (cases "v_uuidParse (ow_svc h) i")
    case None
    then have "PlaceOrder (ow_svc h) (input\<lparr>in_CustomerID := i\<rparr>) (hq_Key c) = failP (badRequest ''customer_id must be a UUID'')"
      by (simp add: PlaceOrder_def placeOrder_def failP_def)
    with run show ?thesis by (auto simp: reply_with_def failP_def)
  qed (use S i in auto)
qed

lemma cancel_entitled:
  assumes "path (http_CancelOrder h c i body) (tr1 @ (s, t) # tr2) q" and "s \<noteq> t"
  shows "entitled h c (RCancel i body) tr1 s t"
proof -
  let ?f = "\<lambda>r. case r of Inl e \<Rightarrow> Done (writeError e)
     | Inr ord \<Rightarrow> if authenticatedUserID h c \<noteq> Some (o_CustomerID ord) then Done (OrderFail 403 ''FORBIDDEN'' None)
         else reply_with (CancelOrder (ow_svc h) (o_ID ord) ''CUSTOMER_REQUEST'') (\<lambda>_. OrderNoContent)"
  have run: "path (bindP (GetOrder (ow_svc h) i) ?f) (tr1 @ (s, t) # tr2) q"
    using assms(1) by (auto simp: http_CancelOrder_def split: option.splits if_splits)
  have "steps (owned_step {}) (bindP (GetOrder (ow_svc h) i) ?f)"
    by (intro steps_intros GetOrder_steps reply_with_steps CancelOrder_steps)
  then have own: "owned_step {} s t" using run by (rule stepsD)
  from path_bind [OF run] stepsD [OF GetOrder_same] assms(2) obtain r u1 u2 where
    u: "tr1 @ (s, t) # tr2 = u1 @ u2" "path (GetOrder (ow_svc h) i) u1 (Done r)" "path (?f r) u2 q" by blast
  have late: "\<exists>w. u2 = w @ (s, t) # tr2 \<and> tr1 = u1 @ w"
    using u(1,2) stepsD [OF GetOrder_same] assms(2) by (auto simp: append_eq_append_conv2 Cons_eq_append_conv)
  then obtain x where x: "r = Inr x" "authenticatedUserID h c = Some (o_CustomerID x)"
    using u(3) by (auto split: sum.splits if_splits)
  with GetOrder_path [of "ow_svc h" i u1 x] u(2) obtain s0 t0 where "(s0, t0) \<in> set u1" "x \<in> set (orders (s_orders s0))" "o_ID x = i" by blast
  moreover from this late have "(s0, t0) \<in> set tr1" by auto
  ultimately show ?thesis using own x(2) unfolding entitled.simps by blast
qed

lemma entitled_step:
  assumes "path (order_http h c r) (tr1 @ (s, t) # tr2) q" and "s \<noteq> t"
  shows "entitled h c r tr1 s t"
proof (cases r)
  case (RCreate body)
  with assms(1) show ?thesis using create_entitled by (simp add: order_http_def)
next
  case (RGet i)
  then have "path (http_GetOrder h c i) (tr1 @ (s, t) # tr2) q" using assms(1) by (simp add: order_http_def)
  moreover have "steps (=) (http_GetOrder h c i)" unfolding http_GetOrder_def by (intro steps_intros GetOrder_same)
  ultimately show ?thesis using stepsD assms(2) by fastforce
next
  case (RCancel i body)
  with assms show ?thesis using cancel_entitled by (simp add: order_http_def)
qed (use assms(1) stepsD [OF reply_with_steps [OF ConfirmPayment_steps]] stepsD [OF reply_with_steps [OF CancelOrder_steps]]
    stepsD [OF reply_with_steps [OF StoreCancelOrder_steps]]
    in \<open>auto simp: order_http_def http_PaymentSucceeded_def http_PaymentFailed_def http_StoreCancelOrder_def authorizePaymentService_def split: if_splits\<close>)

lemma not_shown: "OrderShown x \<noteq> writeError e"
  by (cases e) (simp_all add: writeError_def)

lemma reply_not_shown [simp]:
  "\<not> path (reply_with p OrderCreated) tr (Done (OrderShown x))" "\<not> path (reply_with q (\<lambda>_. OrderNoContent)) tr (Done (OrderShown x))"
  unfolding reply_with_def by (auto elim!: path_bind_Done simp: not_shown split: sum.splits)

lemma shown_own:
  assumes "path (order_http h c r) tr (Done (OrderShown x))"
  shows "authenticatedUserID h c = Some (o_CustomerID x)"
proof (cases r)
  case (RGet i)
  with assms show ?thesis
    by (auto simp: order_http_def http_GetOrder_def not_shown elim!: path_bind_Done split: option.splits sum.splits if_splits)
next
  case (RCancel i body)
  with assms show ?thesis
    by (auto simp: order_http_def http_CancelOrder_def not_shown elim!: path_bind_Done split: option.splits sum.splits if_splits)
qed (use assms in \<open>auto simp: order_http_def http_CreateOrder_def Let_def http_PaymentSucceeded_def http_PaymentFailed_def http_StoreCancelOrder_def
    split: option.splits if_splits\<close>)

text \<open>
  C37. Whatever other handlers do between its steps, a request to the order service changes the database or the
  inventory only if it is entitled to: a creation adds only orders of the user whose id the gateway passed on; the
  payment routes need the token of the payment service, which is not empty; a cancellation comes after the order was
  read and found to belong to the user; a cancellation by the store needs the role of staff or manager; nothing but a
  creation adds an order, and nobody changes the customer of one. Reading changes nothing, and a read shows an order
  only to its customer.
\<close>

theorem order_access:
  assumes "NewOrderHandler v token = Some h" and "path (order_http h c r) tr p"
  shows "(\<forall>tr1 s t tr2. tr = tr1 @ (s, t) # tr2 \<and> s \<noteq> t \<longrightarrow> entitled h c r tr1 s t) \<and> ow_paymentToken h = token \<and> token \<noteq> '''' \<and>
    (\<forall>x. p = Done (OrderShown x) \<longrightarrow> authenticatedUserID h c = Some (o_CustomerID x))"
  using assms entitled_step [of h c r] shown_own [of h c r tr] by (auto simp: NewOrderHandler_def split: if_splits)

definition shop :: order_web where
  "shop = \<lparr>ow_svc = sample_v, ow_paymentToken = ''secret''\<rparr>"

definition ann_call :: order_call where
  "ann_call = \<lparr>hq_UserID = ''ann'', hq_UserRole = ''CUSTOMER'', hq_Authorization = ''Bearer t'', hq_PaymentToken = '''', hq_Key = ''''\<rparr>"

definition ann_cancels :: "(sys \<times> sys) list \<times> order_reply oproc" where
  "ann_cancels = trace [sample_env 12 sample_now, sample_env 13 sample_now] (order_http shop ann_call (RCancel ''#ann/k'' (Some ''CUSTOMER_REQUEST''))) placed_sys"

text \<open>A customer cancels her order: it is read, then claimed.\<close>

theorem order_access_witness:
  "\<exists>read s t. fst ann_cancels = [read, (s, t)] \<and> s \<noteq> t \<and> entitled shop ann_call (RCancel ''#ann/k'' (Some ''CUSTOMER_REQUEST'')) [read] s t"
proof -
  have new: "NewOrderHandler sample_v ''secret'' = Some shop" by (simp add: NewOrderHandler_def shop_def)
  have run: "path (order_http shop ann_call (RCancel ''#ann/k'' (Some ''CUSTOMER_REQUEST''))) (fst ann_cancels) (snd ann_cancels)"
    unfolding ann_cancels_def by (rule trace_path)
  have statuses: "map (\<lambda>(s, t). (map o_Status (orders (s_orders s)), map o_Status (orders (s_orders t)))) (fst ann_cancels) =
    [([PENDING_PAYMENT], [PENDING_PAYMENT]), ([PENDING_PAYMENT], [CANCEL_PENDING])]" by code_simp
  then obtain read s t where tr: "fst ann_cancels = [read, (s, t)]"
    and "map o_Status (orders (s_orders s)) \<noteq> map o_Status (orders (s_orders t))" by (auto simp: map_eq_Cons_conv)
  then have "s \<noteq> t" by auto
  with order_access [OF new run] tr show ?thesis by (metis append_Cons append_Nil)
qed

end
