(* ===== verification/Catalog_Rpc.thy ===== *)
theory Catalog_Rpc
  imports Catalog_Http Order_Props
begin

text \<open>
  The gRPC surface of the catalog service (\<open>transport/grpc\<close>): tokens, methods, the translation of messages
  and errors; and the call by which the order service learns names and prices (\<open>client/catalog_client.go\<close>).
\<close>

section \<open>Messages\<close>

datatype pb_allergen = ALLERGEN_MILK | ALLERGEN_EGG | ALLERGEN_PEANUT | ALLERGEN_TREE_NUT | ALLERGEN_SOY | ALLERGEN_GLUTEN | ALLERGEN_OTHER int

fun allergenModels :: "pb_allergen \<Rightarrow> string option" where
  "allergenModels ALLERGEN_MILK = Some ''MILK''"
| "allergenModels ALLERGEN_EGG = Some ''EGG''"
| "allergenModels ALLERGEN_PEANUT = Some ''PEANUT''"
| "allergenModels ALLERGEN_TREE_NUT = Some ''TREE_NUT''"
| "allergenModels ALLERGEN_SOY = Some ''SOY''"
| "allergenModels ALLERGEN_GLUTEN = Some ''GLUTEN''"
| "allergenModels (ALLERGEN_OTHER _) = None"

text \<open>\<open>pb.Allergen_value["ALLERGEN_" + value]\<close>: zero for an unknown name.\<close>

definition allergen_value :: "string \<Rightarrow> pb_allergen" where
  "allergen_value z = (case find (\<lambda>a. allergenModels a = Some z)
       [ALLERGEN_MILK, ALLERGEN_EGG, ALLERGEN_PEANUT, ALLERGEN_TREE_NUT, ALLERGEN_SOY, ALLERGEN_GLUTEN] of
     None \<Rightarrow> ALLERGEN_OTHER 0 | Some a \<Rightarrow> a)"

record pb_flavor_input =
  pi_Name :: "string option"
  pi_Description :: "string option"
  pi_Price :: "money option"
  pi_ImageUrl :: "string option"
  pi_Allergens :: "pb_allergen list option"
  pi_Recipe :: "string option"
  pi_Active :: "bool option"

record pb_flavor =
  pf_Id :: string
  pf_Name :: string
  pf_Description :: string
  pf_Price :: money
  pf_ImageUrl :: "string option"
  pf_Allergens :: "pb_allergen list"
  pf_Active :: bool
  pf_CreatedAt :: time
  pf_UpdatedAt :: time

datatype crpc_reply =
    RpcFail rpc_code string string
  | RpcFlavor pb_flavor
  | RpcFlavors "pb_flavor list"
  | RpcAdmin pb_flavor string
  | RpcDeleted
  | RpcPanic

definition invalidInput :: "string \<Rightarrow> crpc_reply" where
  "invalidInput message = RpcFail InvalidArgument ''INVALID_ARGUMENT'' message"

definition inputFromProto :: "pb_flavor_input option \<Rightarrow> string + flavor_input" where
  "inputFromProto inp = (case inp of
     None \<Rightarrow> Inl ''flavor is required''
   | Some i \<Rightarrow>
       if (case pi_Price i of None \<Rightarrow> False | Some p \<Rightarrow> mo_AmountMinor p = None \<or> mo_Currency p = None) then Inl ''price requires amount_minor and currency''
       else if (case pi_Allergens i of None \<Rightarrow> False | Some as \<Rightarrow> \<exists>a\<in>set as. allergenModels a = None) then Inl ''Unsupported allergen''
       else Inr \<lparr>fi_Name = pi_Name i, fi_Description = pi_Description i,
         fi_Price = map_option (\<lambda>p. \<lparr>cm_AmountMinor = the (mo_AmountMinor p), cm_Currency = the (mo_Currency p)\<rparr>) (pi_Price i),
         fi_ImageURL = pi_ImageUrl i, fi_Allergens = map_option (map (\<lambda>a. the (allergenModels a))) (pi_Allergens i),
         fi_Recipe = pi_Recipe i, fi_Active = pi_Active i\<rparr>)"

definition flavorToProto :: "cat_flavor \<Rightarrow> pb_flavor" where
  "flavorToProto f = \<lparr>pf_Id = cf_ID f, pf_Name = cf_Name f, pf_Description = cf_Description f,
     pf_Price = \<lparr>mo_AmountMinor = Some (cm_AmountMinor (cf_Price f)), mo_Currency = Some (cm_Currency (cf_Price f))\<rparr>,
     pf_ImageUrl = (if cf_ImageURL f \<noteq> '''' then Some (cf_ImageURL f) else None), pf_Allergens = map allergen_value (cf_Allergens f),
     pf_Active = cf_Active f, pf_CreatedAt = cf_CreatedAt f, pf_UpdatedAt = cf_UpdatedAt f\<rparr>"

definition adminToProto :: "flavor_admin \<Rightarrow> crpc_reply" where
  "adminToProto f = RpcAdmin (flavorToProto (fa_Flavor f)) (fa_Recipe f)"

text \<open>
  \<open>network\<close> tells whether an error of the Redis client is one of the connection; the error of a request
  that ended early is that of its context.
\<close>

datatype ctx_error = CtxCanceled | CtxDeadline

fun ctxError :: "ctx_error \<Rightarrow> crpc_reply" where
  "ctxError CtxCanceled = RpcFail Canceled ''CANCELLED'' ''Request cancelled''"
| "ctxError CtxDeadline = RpcFail DeadlineExceeded ''DEADLINE_EXCEEDED'' ''Request deadline exceeded''"

record rpc_env =
  rv_network :: bool
  rv_ended :: ctx_error
  rv_before :: "ctx_error option"
  rv_after :: "ctx_error option"
  rv_late :: bool

definition serviceError :: "rpc_env \<Rightarrow> cat_error \<Rightarrow> crpc_reply" where
  "serviceError env e = (case e of
     CatCanceled \<Rightarrow> ctxError (rv_ended env)
   | CatInvalidInput \<Rightarrow> invalidInput ''Invalid flavor input''
   | CatFlavorNotFound \<Rightarrow> RpcFail NotFound ''FLAVOR_NOT_FOUND'' ''Flavor not found''
   | CatNameConflict \<Rightarrow> RpcFail AlreadyExists ''FLAVOR_NAME_CONFLICT'' ''Flavor name already exists''
   | CatUpdateConflict \<Rightarrow> RpcFail Aborted ''FLAVOR_UPDATE_CONFLICT'' ''Flavor changed during update; read again before retrying''
   | CatRedis \<Rightarrow> if rv_network env then RpcFail Unavailable ''CATALOG_UNAVAILABLE'' ''Catalog storage is unavailable'' else RpcFail Internal ''INTERNAL_ERROR'' ''Catalog operation failed''
   | _ \<Rightarrow> RpcFail Internal ''INTERNAL_ERROR'' ''Catalog operation failed'')"

section \<open>Tokens\<close>

definition unauthenticated :: crpc_reply where
  "unauthenticated = RpcFail Unauthenticated ''UNAUTHORIZED'' ''Authentication is required''"

definition requireManager :: "cat_claims option \<Rightarrow> crpc_reply option" where
  "requireManager c = (case c of
     None \<Rightarrow> Some unauthenticated
   | Some claims \<Rightarrow> if cc_Role claims \<noteq> ''MANAGER'' then Some (RpcFail PermissionDenied ''FORBIDDEN'' ''Manager role is required'') else None)"

definition rpc_readScope :: "cat_claims option \<Rightarrow> ReadScope" where
  "rpc_readScope c = (case c of Some claims \<Rightarrow> if cc_Role claims = ''MANAGER'' then ManagerRead else PublicRead | None \<Rightarrow> PublicRead)"

text \<open>The identity of a call: its \<open>authorization\<close> metadata holds no value or one good token.\<close>

definition rpc_identity :: "cat_web \<Rightarrow> string list \<Rightarrow> cat_claims option option" where
  "rpc_identity web values =
     (if values = [] then Some None
      else
        let parts = Fields (hd values) in
        if length values \<noteq> 1 \<or> length parts \<noteq> 2 \<or> \<not> EqualFold (parts ! 0) ''Bearer'' then None
        else map_option Some (cat_Parse web (parts ! 1)))"

definition rpc_context :: "cat_web \<Rightarrow> cat_claims option \<Rightarrow> cat_ctx" where
  "rpc_context web c = (case c of
     None \<Rightarrow> cl_ctx cat_nobody
   | Some claims \<Rightarrow> Catalog_Store.WithActor (wb_lib web) (cc_Subject claims) (cc_Role claims) (cl_ctx cat_nobody))"

definition failed_reply :: "crpc_reply \<Rightarrow> bool" where
  "failed_reply a \<longleftrightarrow> (case a of RpcFail _ _ _ \<Rightarrow> True | _ \<Rightarrow> False)"

definition interceptor :: "cat_web \<Rightarrow> rpc_env \<Rightarrow> bool \<Rightarrow> string list \<Rightarrow> (cat_claims option \<Rightarrow> crpc_reply \<times> redis) \<Rightarrow> redis \<Rightarrow> crpc_reply \<times> redis" where
  "interceptor web env reading values next r = (case rpc_identity web values of
     None \<Rightarrow> (unauthenticated, r)
   | Some c \<Rightarrow>
       (case (if reading then None else requireManager c) of
          Some a \<Rightarrow> (a, r)
        | None \<Rightarrow>
            (case rv_before env of
               Some e \<Rightarrow> (ctxError e, r)
             | None \<Rightarrow>
                 (case next c of (response, r') \<Rightarrow>
                    (if \<not> failed_reply response then response
                     else case rv_after env of Some e \<Rightarrow> ctxError e | None \<Rightarrow> if rv_late env then ctxError CtxDeadline else response, r')))))"

section \<open>Methods\<close>

definition rpc_CreateFlavor :: "cat_web \<Rightarrow> rpc_env \<Rightarrow> cat_world \<Rightarrow> cat_ctx \<Rightarrow> pb_flavor_input option \<Rightarrow> redis \<Rightarrow> crpc_reply \<times> redis" where
  "rpc_CreateFlavor web env w ctx flavor r = (case inputFromProto flavor of
     Inl message \<Rightarrow> (invalidInput message, r)
   | Inr input \<Rightarrow> (case cat_Create (wb_lib web) w ctx input r of
        (Inl e, r) \<Rightarrow> (serviceError env e, r)
      | (Inr f, r) \<Rightarrow> (adminToProto f, r)))"

definition rpc_GetFlavor :: "cat_web \<Rightarrow> rpc_env \<Rightarrow> cat_world \<Rightarrow> cat_claims option \<Rightarrow> string \<Rightarrow> redis \<Rightarrow> crpc_reply" where
  "rpc_GetFlavor web env w c raw r = (case lib_uuid (wb_lib web) raw of
     None \<Rightarrow> invalidInput ''flavor_id must be a UUID''
   | Some i \<Rightarrow> (case cat_Get w i (rpc_readScope c) r of Inl e \<Rightarrow> serviceError env e | Inr f \<Rightarrow> RpcFlavor (flavorToProto f)))"

definition rpc_ListFlavors :: "cat_web \<Rightarrow> rpc_env \<Rightarrow> cat_world \<Rightarrow> cat_claims option \<Rightarrow> bool option \<Rightarrow> redis \<Rightarrow> crpc_reply" where
  "rpc_ListFlavors web env w c active r = (case (if active = Some False then requireManager c else None) of
     Some a \<Rightarrow> a
   | None \<Rightarrow> (case cat_List (wb_lib web) w active (rpc_readScope c) r of
        Inl e \<Rightarrow> serviceError env e | Inr fs \<Rightarrow> RpcFlavors (map flavorToProto fs)))"

text \<open>The reads happen one after the other: \<open>at k\<close> is the store at the \<open>k\<close>-th.\<close>

definition rpc_BatchGetFlavors :: "cat_web \<Rightarrow> rpc_env \<Rightarrow> (nat \<Rightarrow> cat_world) \<Rightarrow> (nat \<Rightarrow> bool) \<Rightarrow> (nat \<Rightarrow> redis) \<Rightarrow> cat_claims option \<Rightarrow> string list \<Rightarrow> crpc_reply" where
  "rpc_BatchGetFlavors web env ws stop at c raws =
     (if length raws < 1 \<or> length raws > 100 then invalidInput ''Between 1 and 100 flavor IDs are required''
      else if \<exists>raw\<in>set raws. lib_uuid (wb_lib web) raw = None then invalidInput ''flavor_id must be a UUID''
      else case cat_BatchGet ws stop at (map (\<lambda>raw. the (lib_uuid (wb_lib web) raw)) raws) (rpc_readScope c) of
        Inl e \<Rightarrow> serviceError env e
      | Inr fs \<Rightarrow> RpcFlavors (map flavorToProto fs))"

definition rpc_UpdateFlavor :: "cat_web \<Rightarrow> rpc_env \<Rightarrow> cat_world \<Rightarrow> cat_ctx \<Rightarrow> string \<Rightarrow> pb_flavor_input option \<Rightarrow> redis \<Rightarrow> redis \<Rightarrow> redis \<Rightarrow> crpc_reply \<times> redis" where
  "rpc_UpdateFlavor web env w ctx raw flavor r0 r1 r = (case lib_uuid (wb_lib web) raw of
     None \<Rightarrow> (invalidInput ''flavor_id must be a UUID'', r)
   | Some i \<Rightarrow> (case inputFromProto flavor of
        Inl message \<Rightarrow> (invalidInput message, r)
      | Inr input \<Rightarrow> (case cat_Replace (wb_lib web) w ctx i input r0 r1 r of
           (Inl e, r) \<Rightarrow> (serviceError env e, r)
         | (Inr None, r) \<Rightarrow> (RpcPanic, r)
         | (Inr (Some f), r) \<Rightarrow> (adminToProto f, r))))"

definition rpc_DeleteFlavor :: "cat_web \<Rightarrow> rpc_env \<Rightarrow> cat_world \<Rightarrow> cat_ctx \<Rightarrow> string \<Rightarrow> redis \<Rightarrow> redis \<Rightarrow> redis \<Rightarrow> crpc_reply \<times> redis" where
  "rpc_DeleteFlavor web env w ctx raw r0 r1 r = (case lib_uuid (wb_lib web) raw of
     None \<Rightarrow> (invalidInput ''flavor_id must be a UUID'', r)
   | Some i \<Rightarrow> (case cat_Archive (wb_lib web) w ctx i r0 r1 r of
        (Inl e, r) \<Rightarrow> (serviceError env e, r)
      | (Inr _, r) \<Rightarrow> (RpcDeleted, r)))"

datatype rpc_method =
    CreateFlavor "pb_flavor_input option"
  | ReadFlavor string
  | ReadFlavors "bool option"
  | UpdateFlavor string "pb_flavor_input option"
  | RemoveFlavor string

definition catalog_rpc :: "cat_web \<Rightarrow> rpc_env \<Rightarrow> cat_world \<Rightarrow> string list \<Rightarrow> rpc_method \<Rightarrow> redis \<Rightarrow> redis \<Rightarrow> redis \<Rightarrow> crpc_reply \<times> redis" where
  "catalog_rpc web env w values m r0 r1 r = (case m of
     CreateFlavor f \<Rightarrow> interceptor web env False values (\<lambda>c. rpc_CreateFlavor web env w (rpc_context web c) f r) r
   | ReadFlavor i \<Rightarrow> interceptor web env True values (\<lambda>c. (rpc_GetFlavor web env w c i r, r)) r
   | ReadFlavors active \<Rightarrow> interceptor web env True values (\<lambda>c. (rpc_ListFlavors web env w c active r, r)) r
   | UpdateFlavor i f \<Rightarrow> interceptor web env False values (\<lambda>c. rpc_UpdateFlavor web env w (rpc_context web c) i f r0 r1 r) r
   | RemoveFlavor i \<Rightarrow> interceptor web env False values (\<lambda>c. rpc_DeleteFlavor web env w (rpc_context web c) i r0 r1 r) r)"

definition catalog_batch :: "cat_web \<Rightarrow> rpc_env \<Rightarrow> (nat \<Rightarrow> cat_world) \<Rightarrow> (nat \<Rightarrow> bool) \<Rightarrow> (nat \<Rightarrow> redis) \<Rightarrow> string list \<Rightarrow> string list \<Rightarrow> crpc_reply" where
  "catalog_batch web env ws stop at values raws = fst (interceptor web env True values (\<lambda>c. (rpc_BatchGetFlavors web env ws stop at c raws, at 0)) (at 0))"

section \<open>The client of the order service\<close>

definition client_flavor :: "pb_flavor \<Rightarrow> flavor" where
  "client_flavor f = \<lparr>fl_Id = pf_Id f, fl_Name = pf_Name f, fl_Active = pf_Active f, fl_Price = Some (pf_Price f)\<rparr>"

text \<open>The metadata of the call: the bearer of the customer, if there is one.\<close>

definition client_BatchGetFlavors :: "(string list \<Rightarrow> string list \<Rightarrow> crpc_reply) \<Rightarrow> string option \<Rightarrow> string list \<Rightarrow> rpc_error option + flavor list" where
  "client_BatchGetFlavors call bearer ids =
     (case call (case bearer of Some b \<Rightarrow> if b \<noteq> '''' then [b] else [] | None \<Rightarrow> []) ids of
        RpcFlavors fs \<Rightarrow> Inr (map client_flavor fs)
      | RpcFail code _ message \<Rightarrow> Inl (Some \<lparr>re_Code = code, re_Message = message\<rparr>)
      | _ \<Rightarrow> Inl None)"

section \<open>Names and prices of orders\<close>

lemma batch_loop_stored:
  "batch_loop ws stop at scope k is = Inr fs \<Longrightarrow> f \<in> set fs \<Longrightarrow>
    \<exists>j i a. i \<in> set is \<and> rs_flavors (at j) i = Some a \<and> fa_Flavor a = f"
proof (induction ws stop at scope k "is" arbitrary: fs rule: batch_loop.induct)
  case (2 ws stop at scope k i "is")
  then show ?case
    by (fastforce simp: andThen_def cat_Get_def FindByID_def split: if_splits sum.splits option.splits)
qed simp

lemma batch_stored:
  assumes "catalog_batch web env ws stop at values raws = RpcFlavors fs" and "p \<in> set fs"
  shows "\<exists>j i a. rs_flavors (at j) i = Some a \<and> p = flavorToProto (fa_Flavor a)"
proof -
  have ctx: "ctxError e \<noteq> RpcFlavors fs" "unauthenticated \<noteq> RpcFlavors fs" "invalidInput z \<noteq> RpcFlavors fs" for e z
    by (cases e) (simp_all add: unauthenticated_def invalidInput_def)
  have err: "serviceError env e \<noteq> RpcFlavors fs" for e by (cases e) (simp_all add: serviceError_def ctx)
  obtain c where "rpc_BatchGetFlavors web env ws stop at c raws = RpcFlavors fs"
    using assms(1) ctx by (auto simp: catalog_batch_def interceptor_def split: option.splits if_splits)
  then obtain gs raw_ids scope where "batch_loop ws stop at scope 0 raw_ids = Inr gs" "fs = map flavorToProto gs"
    using err ctx by (auto simp: rpc_BatchGetFlavors_def cat_BatchGet_def split: if_splits sum.splits)
  with assms(2) batch_loop_stored show ?thesis by fastforce
qed

lemma by_id_Some: "flavors_by_id fs i = Some f \<Longrightarrow> f \<in> set fs \<and> fl_Id f = i"
  by (auto simp: flavors_by_id_def dest!: map_of_SomeD)

lemma price_loop_lines:
  "price_loop byID portions cur ids (amt, lines) = Inr (amt', lines') \<Longrightarrow> l \<in> set lines' \<Longrightarrow> l \<in> set lines \<or>
    (\<exists>fl m. byID (oi_FlavorID l) = Some fl \<and> fl_Active fl \<and> fl_Name fl = oi_FlavorName l \<and> fl_Price fl = Some m \<and>
      mo_AmountMinor m = Some (oi_UnitPriceMinor l) \<and> mo_Currency m = Some cur)"
proof (induction ids arbitrary: amt lines)
  case (Cons i ids)
  then obtain fl m a where fl: "byID i = Some fl" "fl_Active fl" "fl_Price fl = Some m" "mo_AmountMinor m = Some a" "mo_Currency m = Some cur"
    and rec: "price_loop byID portions cur ids (i64 (amt + i64 (a * portions i)), lines @ [\<lparr>oi_FlavorID = i, oi_FlavorName = fl_Name fl,
      oi_Portions = portions i, oi_UnitPriceMinor = a, oi_SubtotalMinor = i64 (a * portions i)\<rparr>]) = Inr (amt', lines')"
    by (auto simp: Let_def split: option.splits if_splits)
  from Cons.IH [OF rec Cons.prems(2)] fl show ?case by auto
qed simp

text \<open>
  C19. What an order is charged comes from the catalog. When the flavors are fetched from the catalog service, with or
  without the bearer of the customer and whatever changes the catalog meanwhile, and the pricing of the order
  accepts them, every line of the order carries the name and the price in baht that an active flavor with the id of
  the line had in the store of the catalog at one of the reads.
\<close>

theorem lines_from_catalog:
  assumes "client_BatchGetFlavors (catalog_batch web env ws stop at) bearer (sort (map fst items)) = Inr flavors"
    and "price_loop (flavors_by_id flavors) (portions_of items) ''THB'' (sort (map fst items)) (0, []) = Inr (amt, lines)" and "l \<in> set lines"
  shows "\<exists>k i a. rs_flavors (at k) i = Some a \<and> cf_ID (fa_Flavor a) = oi_FlavorID l \<and> cf_Active (fa_Flavor a) \<and>
    cf_Name (fa_Flavor a) = oi_FlavorName l \<and> cf_Price (fa_Flavor a) = \<lparr>cm_AmountMinor = oi_UnitPriceMinor l, cm_Currency = ''THB''\<rparr>"
proof -
  obtain fl m where fl: "flavors_by_id flavors (oi_FlavorID l) = Some fl" "fl_Active fl" "fl_Name fl = oi_FlavorName l" "fl_Price fl = Some m"
    "mo_AmountMinor m = Some (oi_UnitPriceMinor l)" "mo_Currency m = Some ''THB''"
    using price_loop_lines [OF assms(2,3)] by auto
  obtain fs meta where fs: "catalog_batch web env ws stop at meta (sort (map fst items)) = RpcFlavors fs" "flavors = map client_flavor fs"
    using assms(1) by (auto simp: client_BatchGetFlavors_def split: crpc_reply.splits)
  from by_id_Some [OF fl(1)] fs(2) obtain p where p: "p \<in> set fs" "fl = client_flavor p" "pf_Id p = oi_FlavorID l" by (auto simp: client_flavor_def)
  from batch_stored [OF fs(1) p(1)] obtain j i a where a: "rs_flavors (at j) i = Some a" "p = flavorToProto (fa_Flavor a)" by blast
  from fl p a show ?thesis
    by (intro exI [of _ j] exI [of _ i] exI [of _ a]) (auto simp: client_flavor_def flavorToProto_def intro!: cat_money.equality)
qed

text \<open>A customer orders two portions of the only flavor of the shop.\<close>

definition mango_flavor :: flavor_admin where
  "mango_flavor = \<lparr>fa_Flavor = \<lparr>cf_ID = ''mango'', cf_Name = ''Mango'', cf_Description = '''', cf_Price = \<lparr>cm_AmountMinor = 5500, cm_Currency = ''THB''\<rparr>,
     cf_ImageURL = '''', cf_Allergens = [''MILK''], cf_Active = True, cf_CreatedAt = 0, cf_UpdatedAt = 0\<rparr>, fa_Recipe = ''mix'', fa_IdempotentReplay = False\<rparr>"

definition quiet_env :: rpc_env where
  "quiet_env = \<lparr>rv_network = False, rv_ended = CtxCanceled, rv_before = None, rv_after = None, rv_late = False\<rparr>"

definition mango_call :: "string list \<Rightarrow> string list \<Rightarrow> crpc_reply" where
  "mango_call = catalog_batch kweb quiet_env (\<lambda>_. Catalog_Props.sample_world 1) (\<lambda>_. False) (\<lambda>_. (redis_start Map.empty)\<lparr>rs_flavors := [''mango'' \<mapsto> mango_flavor]\<rparr>)"

definition mango_lines :: "order_item list" where
  "mango_lines = [\<lparr>oi_FlavorID = ''mango'', oi_FlavorName = ''Mango'', oi_Portions = 2, oi_UnitPriceMinor = 5500, oi_SubtotalMinor = 11000\<rparr>]"

theorem lines_from_catalog_witness:
  "\<exists>i a. rs_flavors ((redis_start Map.empty)\<lparr>rs_flavors := [''mango'' \<mapsto> mango_flavor]\<rparr>) i = Some a \<and> cf_Name (fa_Flavor a) = ''Mango'' \<and>
    cf_Price (fa_Flavor a) = \<lparr>cm_AmountMinor = 5500, cm_Currency = ''THB''\<rparr>"
proof -
  let ?l = "\<lparr>oi_FlavorID = ''mango'', oi_FlavorName = ''Mango'', oi_Portions = 2, oi_UnitPriceMinor = 5500, oi_SubtotalMinor = 11000\<rparr>"
  have fetched: "client_BatchGetFlavors mango_call None (sort (map fst [(''mango'', 2)])) = Inr [client_flavor (flavorToProto (fa_Flavor mango_flavor))]"
    by code_simp
  have "price_loop (flavors_by_id [client_flavor (flavorToProto (fa_Flavor mango_flavor))]) (portions_of [(''mango'', 2)]) ''THB''
      (sort (map fst [(''mango'', 2 :: int)])) (0, []) = Inr (11000, mango_lines)" by code_simp
  from lines_from_catalog [OF fetched [unfolded mango_call_def] this, of ?l] show ?thesis unfolding mango_lines_def by (auto split: if_splits)
qed

section \<open>Access\<close>

text \<open>The metadata as the headers of a request.\<close>

definition rpc_request :: "string list \<Rightarrow> cat_request" where
  "rpc_request meta = \<lparr>rq_Authorization = meta, rq_Keys = [], rq_Body = ''''\<rparr>"

lemma rpc_manager:
  assumes "rpc_identity web meta = Some c" and "requireManager c = None"
  shows "\<exists>i. manages web (rpc_request meta) i \<and> (\<forall>j role. cx_actor (rpc_context web c) = Some (j, role) \<and> j \<noteq> uuid_Nil \<longrightarrow> j = i)"
proof -
  obtain claims where c: "c = Some claims" "cc_Role claims = ''MANAGER''" using assms(2) by (auto simp: requireManager_def split: option.splits if_splits)
  with assms(1) have "cat_authenticate web True (rpc_request meta) = Inr \<lparr>cl_UserID = cc_Subject claims, cl_UserRole = cc_Role claims, cl_ctx = rpc_context web c\<rparr>"
    by (cases meta) (auto simp: rpc_identity_def cat_authenticate_def rpc_request_def rpc_context_def Let_def split: if_splits)
  from authenticated_manager [OF this] c show ?thesis by auto
qed

definition hides :: "cat_web \<Rightarrow> string list \<Rightarrow> crpc_reply \<Rightarrow> bool" where
  "hides web meta a \<longleftrightarrow> (case a of
     RpcFlavor f \<Rightarrow> pf_Active f \<or> (\<exists>i. manages web (rpc_request meta) i)
   | RpcFlavors fs \<Rightarrow> (\<forall>f\<in>set fs. pf_Active f) \<or> (\<exists>i. manages web (rpc_request meta) i)
   | RpcPanic \<Rightarrow> False
   | _ \<Rightarrow> True)"

lemma hides_fail [simp]: "hides web meta (RpcFail code reason message)"
  by (simp add: hides_def)

lemma hides_errors: "hides web meta (serviceError env e)" "hides web meta (ctxError x)" "hides web meta unauthenticated" "hides web meta (invalidInput z)"
  "hides web meta (adminToProto f)" "hides web meta RpcDeleted" "requireManager c = Some a \<Longrightarrow> hides web meta a"
proof -
  show x: "hides web meta (ctxError x)" for x by (cases x) (simp_all add: hides_def)
  show "hides web meta (serviceError env e)" using x by (cases e) (simp_all add: serviceError_def hides_def invalidInput_def)
qed (auto simp: hides_def unauthenticated_def invalidInput_def adminToProto_def requireManager_def split: option.splits if_splits)

lemma rpc_scope: "rpc_readScope c \<noteq> ManagerRead \<or> requireManager c = None"
  by (auto simp: rpc_readScope_def requireManager_def split: option.splits)

lemma reads_hide:
  assumes "rpc_identity web meta = Some c"
  shows "hides web meta (rpc_GetFlavor web env w c i r)" "hides web meta (rpc_ListFlavors web env w c active r)"
proof -
  have m: "(\<exists>i. manages web (rpc_request meta) i) \<or> rpc_readScope c \<noteq> ManagerRead" using rpc_scope [of c] rpc_manager [OF assms] by auto
  show "hides web meta (rpc_GetFlavor web env w c i r)"
    using m hides_errors by (auto simp: rpc_GetFlavor_def cat_Get_def andThen_def split: option.splits sum.splits if_splits)
      (auto simp: hides_def flavorToProto_def)
  show "hides web meta (rpc_ListFlavors web env w c active r)"
    using m hides_errors by (auto simp: rpc_ListFlavors_def cat_List_def andThen_def split: option.splits sum.splits)
      (auto simp: hides_def flavorToProto_def)
qed

lemma writes_signed:
  assumes "\<forall>j role. cx_actor ctx = Some (j, role) \<and> j \<noteq> uuid_Nil \<longrightarrow> j = i"
  shows "rpc_CreateFlavor web env w ctx f r = (a, s) \<Longrightarrow> audit_signed i r s \<and> hides web meta a"
    and "rpc_UpdateFlavor web env w ctx k f r0 r1 r = (a, s) \<Longrightarrow> audit_signed i r s \<and> hides web meta a"
    and "rpc_DeleteFlavor web env w ctx k r0 r1 r = (a, s) \<Longrightarrow> audit_signed i r s \<and> hides web meta a"
proof -
  note known = hides_errors audit_signed_simps(1)
  show "rpc_CreateFlavor web env w ctx f r = (a, s) \<Longrightarrow> audit_signed i r s \<and> hides web meta a"
    using signed_create [OF _ assms, of "wb_lib web" w _ r] by (auto simp: rpc_CreateFlavor_def known split: sum.splits prod.splits)
  show "rpc_UpdateFlavor web env w ctx k f r0 r1 r = (a, s) \<Longrightarrow> audit_signed i r s \<and> hides web meta a"
    using signed_changes(2) [OF assms, of "wb_lib web" w] update_not_nil(2) [of "wb_lib web" w ctx]
    by (auto simp: rpc_UpdateFlavor_def known split: option.splits sum.splits prod.splits) (metis fst_conv)+
  show "rpc_DeleteFlavor web env w ctx k r0 r1 r = (a, s) \<Longrightarrow> audit_signed i r s \<and> hides web meta a"
    using signed_changes(3) [OF assms, of "wb_lib web" w] by (auto simp: rpc_DeleteFlavor_def known split: option.splits sum.splits prod.splits)
qed

lemma interceptor_read:
  assumes "interceptor web env True meta (\<lambda>c. (g c, r)) r = (a, r')" and "\<And>c. rpc_identity web meta = Some c \<Longrightarrow> hides web meta (g c)"
  shows "r' = r \<and> hides web meta a"
  using assms hides_errors by (auto simp: interceptor_def split: option.splits if_splits)

lemma interceptor_write:
  assumes "interceptor web env False meta next r = (a, r')"
    and "\<And>c i x s. next c = (x, s) \<Longrightarrow> \<forall>j role. cx_actor (rpc_context web c) = Some (j, role) \<and> j \<noteq> uuid_Nil \<longrightarrow> j = i \<Longrightarrow> audit_signed i r s \<and> hides web meta x"
  shows "(r' \<noteq> r \<longrightarrow> (\<exists>i. manages web (rpc_request meta) i \<and> audit_signed i r r')) \<and> hides web meta a"
proof (cases "\<exists>c x s. rpc_identity web meta = Some c \<and> requireManager c = None \<and> rv_before env = None \<and> next c = (x, s)")
  case True
  then obtain c x s where c: "rpc_identity web meta = Some c" "requireManager c = None" "rv_before env = None" "next c = (x, s)" by blast
  from rpc_manager [OF c(1,2)] obtain i where i: "manages web (rpc_request meta) i" "\<forall>j role. cx_actor (rpc_context web c) = Some (j, role) \<and> j \<noteq> uuid_Nil \<longrightarrow> j = i" by blast
  from assms(2) [OF c(4) i(2)] assms(1) c i(1) hides_errors show ?thesis by (auto simp: interceptor_def split: option.splits if_splits)
next
  case False
  then show ?thesis using assms(1) hides_errors by (auto simp: interceptor_def split: option.splits prod.splits)
qed

text \<open>
  The gRPC surface keeps the same secrets as the HTTP surface: only the token of one manager changes the store, what
  is added to the audit trail names that manager, and flavors that are not active are shown to managers only.
\<close>

theorem catalog_rpc_access:
  assumes "catalog_rpc web env w meta m r0 r1 r = (a, r')"
  shows "(r' \<noteq> r \<longrightarrow> (\<exists>i. manages web (rpc_request meta) i \<and> audit_signed i r r')) \<and> hides web meta a"
proof (cases m)
  case (CreateFlavor f)
  then have run: "interceptor web env False meta (\<lambda>c. rpc_CreateFlavor web env w (rpc_context web c) f r) r = (a, r')" using assms by (simp add: catalog_rpc_def)
  show ?thesis by (rule interceptor_write [OF run]) (rule writes_signed(1))
next
  case (ReadFlavor i)
  then have run: "interceptor web env True meta (\<lambda>c. (rpc_GetFlavor web env w c i r, r)) r = (a, r')" using assms by (simp add: catalog_rpc_def)
  show ?thesis using interceptor_read [OF run reads_hide(1)] by simp
next
  case (ReadFlavors active)
  then have run: "interceptor web env True meta (\<lambda>c. (rpc_ListFlavors web env w c active r, r)) r = (a, r')" using assms by (simp add: catalog_rpc_def)
  show ?thesis using interceptor_read [OF run reads_hide(2)] by simp
next
  case (UpdateFlavor i f)
  then have run: "interceptor web env False meta (\<lambda>c. rpc_UpdateFlavor web env w (rpc_context web c) i f r0 r1 r) r = (a, r')" using assms by (simp add: catalog_rpc_def)
  show ?thesis by (rule interceptor_write [OF run]) (rule writes_signed(2))
next
  case (RemoveFlavor i)
  then have run: "interceptor web env False meta (\<lambda>c. rpc_DeleteFlavor web env w (rpc_context web c) i r0 r1 r) r = (a, r')" using assms by (simp add: catalog_rpc_def)
  show ?thesis by (rule interceptor_write [OF run]) (rule writes_signed(3))
qed

end
