(* ===== verification/Auth_Audit.thy ===== *)
theory Auth_Audit
  imports Gelato_Text
begin

text \<open>
  The audit log of the auth service (\<open>audit/audit_logger.go\<close>, \<open>audit/resilient_write.go\<close>): the record of an event,
  its normalisation to what the table holds, and the write that is tried up to three times although answers of the
  database may be lost.
\<close>

section \<open>Texts\<close>

text \<open>The encodings a text consists of; a byte that begins none stands alone.\<close>

function runes :: "string \<Rightarrow> string list" where
  "runes [] = []"
| "runes (c # cs) = take (rune_width (c # cs)) (c # cs) # runes (drop (rune_width (c # cs)) (c # cs))"
  by pat_completeness auto
termination
  by (relation "measure length") (use rune_width_pos in simp_all)

definition invalid_rune :: "string \<Rightarrow> bool" where
  "invalid_rune z \<longleftrightarrow> length z = 1 \<and> (of_char (hd z) :: nat) \<ge> 0x80"

text \<open>U+FFFD, and \<open>strings.ToValidUTF8\<close>: a run of invalid bytes is replaced once.\<close>

definition replacement :: string where
  "replacement = [CHR 0xEF, CHR 0xBF, CHR 0xBD]"

fun replace_runs :: "bool \<Rightarrow> string list \<Rightarrow> string list" where
  "replace_runs inside [] = []"
| "replace_runs inside (z # zs) =
     (if invalid_rune z then (if inside then replace_runs True zs else replacement # replace_runs True zs)
      else z # replace_runs False zs)"

definition ToValidUTF8 :: "string \<Rightarrow> string" where
  "ToValidUTF8 s = concat (replace_runs False (runes s))"

section \<open>Records\<close>

datatype audit_value = AText string | ATrue | ACount nat

text \<open>Metadata by key, in the order in which \<open>json.Marshal\<close> writes it.\<close>

type_synonym audit_metadata = "(string \<times> audit_value) list"

definition meta_put :: "string \<Rightarrow> audit_value \<Rightarrow> audit_metadata \<Rightarrow> audit_metadata" where
  "meta_put k v m = sort_key fst ((k, v) # filter (\<lambda>x. fst x \<noteq> k) m)"

record audit_entry =
  ae_ID :: string
  ae_EventType :: string
  ae_UserID :: "string option"
  ae_IPAddress :: string
  ae_UserAgent :: string
  ae_Metadata :: audit_metadata
  ae_CreatedAt :: time

definition normalizeRecord :: "audit_entry \<Rightarrow> audit_entry" where
  "normalizeRecord r =
     (let agent = ae_UserAgent r; metadata = ae_Metadata r;
          (agent, metadata) = (if \<not> ValidString agent then (ToValidUTF8 agent, meta_put ''user_agent_invalid_utf8'' ATrue metadata) else (agent, metadata));
          (agent, metadata) = (if CHR 0x00 \<in> set agent
             then (concat (map (\<lambda>c. if c = CHR 0x00 then replacement else [c]) agent), meta_put ''user_agent_sanitized'' ATrue metadata) else (agent, metadata));
          rs = runes agent;
          (agent, metadata) = (if length rs > 512
             then (concat (take 512 rs), meta_put ''user_agent_original_characters'' (ACount (length rs)) (meta_put ''user_agent_truncated'' ATrue metadata))
             else (agent, metadata)) in
      r\<lparr>ae_UserAgent := agent, ae_Metadata := metadata\<rparr>)"

definition empty_entry :: audit_entry where
  "empty_entry = \<lparr>ae_ID = uuid_Nil, ae_EventType = '''', ae_UserID = None, ae_IPAddress = '''', ae_UserAgent = '''', ae_Metadata = [], ae_CreatedAt = 0\<rparr>"

definition user_registered :: "string \<Rightarrow> string \<Rightarrow> string \<Rightarrow> audit_metadata \<Rightarrow> audit_entry" where
  "user_registered userID ip agent metadata = empty_entry\<lparr>ae_EventType := ''USER_REGISTERED'', ae_UserID := Some userID, ae_IPAddress := ip,
     ae_UserAgent := agent, ae_Metadata := metadata\<rparr>"

definition login_success :: "string \<Rightarrow> string \<Rightarrow> string \<Rightarrow> audit_metadata \<Rightarrow> audit_entry" where
  "login_success userID ip agent metadata = empty_entry\<lparr>ae_EventType := ''LOGIN_SUCCESS'', ae_UserID := Some userID, ae_IPAddress := ip,
     ae_UserAgent := agent, ae_Metadata := metadata\<rparr>"

definition login_failed :: "string \<Rightarrow> string option \<Rightarrow> string \<Rightarrow> string \<Rightarrow> string \<Rightarrow> audit_entry" where
  "login_failed email userID ip agent reason = empty_entry\<lparr>ae_EventType := ''LOGIN_FAILED'', ae_UserID := userID, ae_IPAddress := ip,
     ae_UserAgent := agent, ae_Metadata := [(''email'', AText email), (''reason'', AText reason)]\<rparr>"

definition role_changed :: "string \<Rightarrow> string \<Rightarrow> string \<Rightarrow> string option \<Rightarrow> string \<Rightarrow> string \<Rightarrow> audit_entry" where
  "role_changed userID oldRole newRole changedBy ip agent = empty_entry\<lparr>ae_EventType := ''ROLE_CHANGED'', ae_UserID := Some userID, ae_IPAddress := ip,
     ae_UserAgent := agent, ae_Metadata := (case changedBy of None \<Rightarrow> [] | Some by_id \<Rightarrow> [(''changed_by'', AText by_id)]) @
       [(''new_role'', AText newRole), (''old_role'', AText oldRole)]\<rparr>"

section \<open>Writing\<close>

datatype audit_error = AuditDb bool | AuditConflict | AuditCtx

text \<open>
  The environment of an attempt: rows that others added before it; whether the insert fails without effect or after
  it; whether the read fails; whether such an error is one that \<open>retryableAuditError\<close> accepts; whether the budget ends
  before the next attempt or during the pause.
\<close>

datatype exec_fault = ExecOk | ExecLost | ExecUnanswered

record audit_try =
  at_others :: "audit_entry list"
  at_exec :: exec_fault
  at_read_fails :: bool
  at_retryable :: bool
  at_ended :: bool
  at_pause_ended :: bool

definition audit_insert :: "audit_try \<Rightarrow> audit_entry \<Rightarrow> audit_entry list \<Rightarrow> audit_error option \<times> audit_entry list" where
  "audit_insert e r rows0 =
     (let rows = rows0 @ at_others e; fresh = ae_ID r \<notin> ae_ID ` set rows; rows' = (if fresh then rows @ [r] else rows) in
      case at_exec e of
        ExecLost \<Rightarrow> (Some (AuditDb (at_retryable e)), rows)
      | ExecUnanswered \<Rightarrow> (Some (AuditDb (at_retryable e)), rows')
      | ExecOk \<Rightarrow>
          if fresh then (None, rows')
          else if at_read_fails e then (Some (AuditDb (at_retryable e)), rows')
          else if r \<in> set rows' then (None, rows') else (Some AuditConflict, rows'))"

fun retryableAuditError :: "audit_error \<Rightarrow> bool" where
  "retryableAuditError (AuditDb b) = b"
| "retryableAuditError _ = False"

text \<open>\<open>left\<close> is the number of attempts that may follow.\<close>

fun retryAuditWrite :: "nat \<Rightarrow> (nat \<Rightarrow> audit_try) \<Rightarrow> nat \<Rightarrow> audit_entry \<Rightarrow> audit_entry list \<Rightarrow> audit_error option \<times> audit_entry list" where
  "retryAuditWrite left env k r rows =
     (case audit_insert (env k) r rows of
        (None, rows) \<Rightarrow> (None, rows)
      | (Some err, rows) \<Rightarrow>
          if \<not> retryableAuditError err \<or> at_ended (env k) then (Some err, rows)
          else (case left of
             0 \<Rightarrow> (Some err, rows)
           | Suc m \<Rightarrow> if at_pause_ended (env k) then (Some AuditCtx, rows) else retryAuditWrite m env (Suc k) r rows))"

declare retryAuditWrite.simps [simp del]

text \<open>\<open>pool\<close> is false for a logger without a database; \<open>new_id\<close> and \<open>clock\<close> are what \<open>uuid.New\<close> and \<open>time.Now\<close> give.\<close>

definition audit_Log :: "bool \<Rightarrow> (nat \<Rightarrow> audit_try) \<Rightarrow> string \<Rightarrow> time \<Rightarrow> audit_entry \<Rightarrow> audit_entry list \<Rightarrow> audit_error option \<times> audit_entry list" where
  "audit_Log pool env new_id clock record0 rows =
     (if \<not> pool then (None, rows)
      else
        let r = (if ae_ID record0 = uuid_Nil then record0\<lparr>ae_ID := new_id\<rparr> else record0);
            r = (if ae_CreatedAt r = 0 then r\<lparr>ae_CreatedAt := clock\<rparr> else r);
            r = r\<lparr>ae_CreatedAt := time_Truncate (ae_CreatedAt r) 1000\<rparr> in
        retryAuditWrite 2 env 0 (normalizeRecord r) rows)"

definition auditWriteTimeout :: int where
  "auditWriteTimeout = 500 * 1000000"

text \<open>\<open>remaining\<close> is the time until the deadline of a request that is still live and has one.\<close>

definition auditWriteBudget :: "int option \<Rightarrow> int" where
  "auditWriteBudget remaining = (case remaining of
     Some d \<Rightarrow> if d > 30 * Second then 30 * Second else if d > auditWriteTimeout then d else auditWriteTimeout
   | None \<Rightarrow> auditWriteTimeout)"

section \<open>Encodings\<close>

text \<open>An encoding that is recognised whatever follows it.\<close>

definition good_rune :: "string \<Rightarrow> bool" where
  "good_rune z \<longleftrightarrow> z \<noteq> [] \<and> (\<forall>t. rune_width (z @ t) = length z) \<and> ((of_char (hd z) :: nat) < 0x80 \<or> 1 < length z) \<and> (1 < length z \<longrightarrow> CHR 0x00 \<notin> set z)"

lemma ascii_good: "(of_char c :: nat) < 0x80 \<Longrightarrow> good_rune [c]"
  by (simp add: good_rune_def rune_width_def second_range_def Let_def)

lemma replacement_good: "good_rune replacement"
  by (simp add: good_rune_def replacement_def rune_width_def second_range_def in_range_def Let_def)

lemma long_rune:
  assumes "1 < rune_width s"
  shows "good_rune (take (rune_width s) s) \<and> length (take (rune_width s) s) = rune_width s"
proof -
  obtain c cs where s: "s = c # cs" using assms by (cases s) (auto simp: rune_width_def)
  obtain n lo hi where n: "second_range c = Some (n, lo, hi)" "n \<le> length s" "in_range lo hi (hd cs)" "list_all (in_range 0x80 0xBF) (take (n - 2) (tl cs))" "rune_width s = n"
    using assms s by (auto simp: rune_width_def split: option.splits if_splits)
  have range: "2 \<le> n" "0x80 \<le> lo" "c \<noteq> CHR 0x00" using n(1) by (auto simp: second_range_def Let_def split: if_splits)
  obtain d ds where cs: "cs = d # ds" using n(2) range(1) s by (cases cs) auto
  have t: "take n s = c # d # take (n - 2) ds" using s cs range(1) by (simp add: numeral_2_eq_2 take_Cons')
  have nul: "CHR 0x00 \<notin> set (take n s)" using n(3,4) range t cs by (auto simp: in_range_def list_all_iff)
  have w: "rune_width (take n s @ z) = n" for z
    using n range t cs s by (simp add: rune_width_def take_Cons')
  have len: "length (take n s) = n" using n(2) by simp
  then have "take n s \<noteq> []" using range(1) by (metis list.size(3) not_numeral_le_zero)
  then have "good_rune (take n s)" unfolding good_rune_def using len nul range(1) w by simp
  then show ?thesis using len n(5) by simp
qed

lemma runes_good: "z \<in> set (runes s) \<Longrightarrow> good_rune z \<or> invalid_rune z"
proof (induction s rule: runes.induct)
  case (2 c cs)
  let ?s = "c # cs"
  have "good_rune (take (rune_width ?s) ?s) \<or> invalid_rune (take (rune_width ?s) ?s)"
  proof (cases "1 < rune_width ?s")
    case True
    then show ?thesis using long_rune by blast
  next
    case False
    then have "rune_width ?s = 1" using rune_width_pos [of c cs] by linarith
    then show ?thesis using ascii_good [of c] by (auto simp: invalid_rune_def)
  qed
  with 2 show ?case by auto
qed simp

lemma RuneCount_runes: "RuneCount s = length (runes s)"
  by (induction s rule: runes.induct) simp_all

lemma concat_runes: "concat (runes s) = s"
  by (induction s rule: runes.induct) simp_all

lemma good_runes:
  assumes "list_all good_rune zs"
  shows "runes (concat zs) = zs \<and> ValidString (concat zs) \<and> RuneCount (concat zs) = length zs"
  using assms
proof (induction zs)
  case (Cons z zs)
  then obtain c cs where z: "z = c # cs" by (cases z) (auto simp: good_rune_def)
  have w: "rune_width (c # cs @ concat zs) = Suc (length cs)" "(of_char c :: nat) < 0x80 \<or> 1 < Suc (length cs)"
    using Cons.prems z by (simp_all add: good_rune_def)
  show ?case using Cons z w by simp
qed simp

lemma valid_all_good: "ValidString s \<Longrightarrow> list_all good_rune (runes s)"
proof (induction s rule: ValidString.induct)
  case (2 c cs)
  have "good_rune (take (rune_width (c # cs)) (c # cs))"
    using 2(2) long_rune [of "c # cs"] ascii_good [of c] rune_width_pos [of c cs]
    by (cases "1 < rune_width (c # cs)") (auto simp: take_Cons' split: if_splits)
  with 2 show ?case by simp
qed simp

lemma replaced_good: "(\<And>z. z \<in> set zs \<Longrightarrow> good_rune z \<or> invalid_rune z) \<Longrightarrow> list_all good_rune (replace_runs b zs)"
  by (induction b zs rule: replace_runs.induct) (auto simp: replacement_good)

lemma ToValid_good: "ValidString (ToValidUTF8 s)"
  unfolding ToValidUTF8_def using good_runes [OF replaced_good [of "runes s"]] runes_good by blast

text \<open>Replacing NUL bytes in a valid text.\<close>

lemma nul_good:
  assumes "list_all good_rune zs"
  shows "\<exists>ys. concat (map (\<lambda>c. if c = CHR 0x00 then replacement else [c]) (concat zs)) = concat ys \<and> list_all good_rune ys \<and> CHR 0x00 \<notin> set (concat ys)"
  using assms
proof (induction zs)
  case Nil
  then show ?case by (intro exI [of _ "[]"]) simp
next
  case (Cons z zs)
  then obtain ys where ys: "concat (map (\<lambda>c. if c = CHR 0x00 then replacement else [c]) (concat zs)) = concat ys" "list_all good_rune ys" "CHR 0x00 \<notin> set (concat ys)" by auto
  have z: "good_rune z" using Cons.prems by simp
  show ?case
  proof (cases "CHR 0x00 \<in> set z")
    case True
    with z have "z = [CHR 0x00]" by (cases z rule: rev_cases) (auto simp: good_rune_def)
    then show ?thesis using ys replacement_good by (intro exI [of _ "replacement # ys"]) (auto simp: replacement_def)
  next
    case False
    then have "concat (map (\<lambda>c. if c = CHR 0x00 then replacement else [c]) z) = z" by (induction z) auto
    then show ?thesis using ys z False by (intro exI [of _ "z # ys"]) auto
  qed
qed

text \<open>What is stored fits its column and is valid.\<close>

definition storable_agent :: "string \<Rightarrow> bool" where
  "storable_agent a \<longleftrightarrow> ValidString a \<and> CHR 0x00 \<notin> set a \<and> RuneCount a \<le> 512"

lemma normalized:
  "storable_agent (ae_UserAgent (normalizeRecord r))"
  "ae_ID (normalizeRecord r) = ae_ID r" "ae_EventType (normalizeRecord r) = ae_EventType r" "ae_UserID (normalizeRecord r) = ae_UserID r"
  "storable_agent (ae_UserAgent r) \<Longrightarrow> normalizeRecord r = r"
proof -
  define a1 where "a1 = (if \<not> ValidString (ae_UserAgent r) then ToValidUTF8 (ae_UserAgent r) else ae_UserAgent r)"
  define a2 where "a2 = (if CHR 0x00 \<in> set a1 then concat (map (\<lambda>c. if c = CHR 0x00 then replacement else [c]) a1) else a1)"
  define a3 where "a3 = (if length (runes a2) > 512 then concat (take 512 (runes a2)) else a2)"
  have a3: "ae_UserAgent (normalizeRecord r) = a3" by (simp add: normalizeRecord_def a1_def a2_def a3_def Let_def split_beta if_distrib)
  have "ValidString a1" using ToValid_good by (simp add: a1_def)
  then have g1: "list_all good_rune (runes a1)" by (rule valid_all_good)
  have "\<exists>ys. a2 = concat ys \<and> list_all good_rune ys \<and> CHR 0x00 \<notin> set a2"
  proof (cases "CHR 0x00 \<in> set a1")
    case True
    then have "a2 = concat (map (\<lambda>c. if c = CHR 0x00 then replacement else [c]) a1)" by (simp only: a2_def if_True)
    moreover from nul_good [OF g1] obtain ys where "concat (map (\<lambda>c. if c = CHR 0x00 then replacement else [c]) a1) = concat ys"
      "list_all good_rune ys" "CHR 0x00 \<notin> set (concat ys)" unfolding concat_runes by blast
    ultimately have "a2 = concat ys" "list_all good_rune ys" "CHR 0x00 \<notin> set a2" by simp_all
    then show ?thesis by blast
  next
    case False
    then have "a2 = concat (runes a1)" "CHR 0x00 \<notin> set a2" by (simp_all add: a2_def concat_runes)
    then show ?thesis using g1 by blast
  qed
  then obtain ys where ys: "a2 = concat ys" "list_all good_rune ys" "CHR 0x00 \<notin> set a2" by blast
  then have r2: "runes a2 = ys" using good_runes by blast
  have "a3 = concat (take 512 ys)" using ys r2 by (simp add: a3_def)
  moreover have "list_all good_rune (take 512 ys)" using ys(2) by (auto simp: list_all_iff dest: in_set_takeD)
  moreover have "CHR 0x00 \<notin> set (concat (take 512 ys))" using ys(1,3) by (auto dest: in_set_takeD)
  ultimately show "storable_agent (ae_UserAgent (normalizeRecord r))" using good_runes [of "take 512 ys"] a3 by (simp add: storable_agent_def)
qed (auto simp: normalizeRecord_def storable_agent_def RuneCount_runes Let_def split_beta)

section \<open>Evidence\<close>

text \<open>The rows of an event: none yet, or its record.\<close>

definition recorded_once :: "audit_entry \<Rightarrow> audit_entry list \<Rightarrow> bool" where
  "recorded_once r rows \<longleftrightarrow> filter (\<lambda>x. ae_ID x = ae_ID r) rows = [r]"

definition recorded_at_most :: "audit_entry \<Rightarrow> audit_entry list \<Rightarrow> bool" where
  "recorded_at_most r rows \<longleftrightarrow> filter (\<lambda>x. ae_ID x = ae_ID r) rows = [] \<or> recorded_once r rows"

lemma insert_evidence:
  assumes "audit_insert e r rows = (res, rows')" and "recorded_at_most r rows" and "\<forall>x\<in>set (at_others e). ae_ID x \<noteq> ae_ID r"
  shows "prefix rows rows' \<and> recorded_at_most r rows' \<and> (res = None \<longrightarrow> recorded_once r rows') \<and> res \<noteq> Some AuditConflict \<and>
    (at_exec e = ExecOk \<and> \<not> at_read_fails e \<longrightarrow> res = None) \<and> (res \<noteq> None \<longrightarrow> res = Some (AuditDb (at_retryable e)))"
proof -
  let ?rows = "rows @ at_others e"
  have others: "filter (\<lambda>x. ae_ID x = ae_ID r) (at_others e) = []" using assms(3) by (auto simp: filter_empty_conv)
  have fresh: "ae_ID r \<notin> ae_ID ` set ?rows \<longleftrightarrow> filter (\<lambda>x. ae_ID x = ae_ID r) ?rows = []" by (auto simp: filter_empty_conv image_iff eq_commute [of "ae_ID r"])
  have once: "r \<in> set zs" if "recorded_once r zs" for zs 
  proof -
    have "r \<in> set (filter (\<lambda>x. ae_ID x = ae_ID r) zs)" using that by (simp only: recorded_once_def list.set_intros(1))
    then show ?thesis by simp
  qed
  show ?thesis
  proof (cases "ae_ID r \<notin> ae_ID ` set ?rows")
    case True
    then have "recorded_once r (?rows @ [r])" using fresh unfolding recorded_once_def by simp
    moreover have "filter (\<lambda>x. ae_ID x = ae_ID r) ?rows = []" using True fresh by blast
    ultimately show ?thesis using assms(1) True
      by (cases "at_exec e") (auto simp: audit_insert_def Let_def recorded_at_most_def)
  next
    case False
    then have r: "recorded_once r ?rows" using assms(2) fresh others by (auto simp: recorded_at_most_def recorded_once_def)
    then show ?thesis using assms(1) False once [OF r]
      by (cases "at_exec e") (auto simp: audit_insert_def Let_def recorded_at_most_def split: if_splits)
  qed
qed

lemma retry_evidence:
  assumes "retryAuditWrite left env k r rows = (res, rows')" and "recorded_at_most r rows" and "\<forall>j. \<forall>x\<in>set (at_others (env j)). ae_ID x \<noteq> ae_ID r"
  shows "prefix rows rows' \<and> recorded_at_most r rows' \<and> (res = None \<longrightarrow> recorded_once r rows') \<and> res \<noteq> Some AuditConflict"
  using assms(1,2)
proof (induction left arbitrary: k rows)
  case 0
  obtain x s where i: "audit_insert (env k) r rows = (x, s)" by fastforce
  from insert_evidence [OF i 0(2)] assms(3) 0(1) i show ?case by (auto simp: retryAuditWrite.simps split: option.splits if_splits)
next
  case (Suc m)
  obtain x s where i: "audit_insert (env k) r rows = (x, s)" by fastforce
  from insert_evidence [OF i Suc.prems(2)] assms(3)
  have ev: "prefix rows s" "recorded_at_most r s" "x = None \<longrightarrow> recorded_once r s" "x \<noteq> Some AuditConflict" by blast+
  show ?case
  proof (cases "x \<noteq> None \<and> retryableAuditError (the x) \<and> \<not> at_ended (env k) \<and> \<not> at_pause_ended (env k)")
    case True
    then have "retryAuditWrite m env (Suc k) r s = (res, rows')" using Suc.prems(1) i by (subst (asm) retryAuditWrite.simps) auto
    from Suc.IH [OF this ev(2)] ev(1) show ?thesis by (meson prefix_order.trans)
  next
    case False
    then show ?thesis using Suc.prems(1) i ev by (subst (asm) retryAuditWrite.simps) (auto split: option.splits if_splits)
  qed
qed

text \<open>A failure that passes within the attempts is survived.\<close>

lemma retry_survives:
  assumes "at_exec (env (k + d)) = ExecOk" "\<not> at_read_fails (env (k + d))" and "d \<le> left"
    and "\<forall>j<d. at_retryable (env (k + j)) \<and> \<not> at_ended (env (k + j)) \<and> \<not> at_pause_ended (env (k + j))"
    and "recorded_at_most r rows" and others: "\<forall>j. \<forall>x\<in>set (at_others (env j)). ae_ID x \<noteq> ae_ID r"
  shows "fst (retryAuditWrite left env k r rows) = None"
  using assms(1-5)
proof (induction d arbitrary: left k rows)
  case 0
  obtain x s where i: "audit_insert (env k) r rows = (x, s)" by fastforce
  have "x = None" using insert_evidence [OF i 0(5)] others 0(1,2) by auto
  with i show ?case by (subst retryAuditWrite.simps) simp
next
  case (Suc d)
  obtain x s where i: "audit_insert (env k) r rows = (x, s)" by fastforce
  obtain m where m: "left = Suc m" "d \<le> m" using Suc.prems(3) by (cases left) auto
  from insert_evidence [OF i Suc.prems(5)] others
  have ev: "recorded_at_most r s" "x \<noteq> None \<longrightarrow> x = Some (AuditDb (at_retryable (env k)))" by blast+
  have now: "at_retryable (env k)" "\<not> at_ended (env k)" "\<not> at_pause_ended (env k)" using Suc.prems(4) by (metis add_0_right zero_less_Suc)+
  show ?case
  proof (cases x)
    case None
    with i show ?thesis by (subst retryAuditWrite.simps) simp
  next
    case (Some e)
    have "\<forall>j<d. at_retryable (env (Suc k + j)) \<and> \<not> at_ended (env (Suc k + j)) \<and> \<not> at_pause_ended (env (Suc k + j))"
      using Suc.prems(4) by (metis Suc_less_eq add_Suc_shift)
    then have "fst (retryAuditWrite m env (Suc k) r s) = None" using Suc.prems(1,2) m(2) ev(1) by (intro Suc.IH) simp_all
    then show ?thesis using i Some ev(2) now m(1) by (subst retryAuditWrite.simps) simp
  qed
qed

text \<open>
  Evidence of an event is written exactly once. Whatever answers of the database are lost and whatever others write
  meanwhile, the log only grows, and it holds at most one record of the event, with its kind and user; a write that
  is answered without an error has left it there. If one of three attempts reaches the database and gets its answers,
  and the failures before it may be retried within the budget, the write succeeds. The stored agent is valid and fits its
  column. The write has between half a second and thirty seconds.
\<close>

theorem evidence_once:
  assumes "ae_ID record0 = uuid_Nil" and "\<forall>j. \<forall>x\<in>set (at_others (env j)). ae_ID x \<noteq> new_id" and "\<forall>x\<in>set rows. ae_ID x \<noteq> new_id"
    and "audit_Log True env new_id clock record0 rows = (res, rows')"
  shows "\<exists>r. ae_ID r = new_id \<and> ae_EventType r = ae_EventType record0 \<and> ae_UserID r = ae_UserID record0 \<and> storable_agent (ae_UserAgent r) \<and>
    prefix rows rows' \<and> recorded_at_most r rows' \<and> (res = None \<longrightarrow> recorded_once r rows') \<and>
    ((\<exists>d\<le>2. at_exec (env d) = ExecOk \<and> \<not> at_read_fails (env d) \<and>
        (\<forall>j<d. at_retryable (env j) \<and> \<not> at_ended (env j) \<and> \<not> at_pause_ended (env j))) \<longrightarrow> res = None)"
proof -
  define r0 where "r0 = record0\<lparr>ae_ID := new_id, ae_CreatedAt := time_Truncate (if ae_CreatedAt record0 = 0 then clock else ae_CreatedAt record0) 1000\<rparr>"
  have run: "retryAuditWrite 2 env 0 (normalizeRecord r0) rows = (res, rows')" using assms(1,4) by (auto simp: audit_Log_def r0_def Let_def split: if_splits)
  have id: "ae_ID (normalizeRecord r0) = new_id" "ae_EventType (normalizeRecord r0) = ae_EventType record0" "ae_UserID (normalizeRecord r0) = ae_UserID record0"
    by (simp_all add: normalized r0_def)
  have start: "recorded_at_most (normalizeRecord r0) rows" using assms(3) id(1) by (auto simp: recorded_at_most_def filter_empty_conv)
  have others: "\<forall>j. \<forall>x\<in>set (at_others (env j)). ae_ID x \<noteq> ae_ID (normalizeRecord r0)" using assms(2) id(1) by simp
  have "res = None" if "d \<le> 2" "at_exec (env d) = ExecOk" "\<not> at_read_fails (env d)" "\<forall>j<d. at_retryable (env j) \<and> \<not> at_ended (env j) \<and> \<not> at_pause_ended (env j)" for d
    using retry_survives [of env 0 d 2, OF _ _ that(1) _ start others] that(2-4) run by simp
  with retry_evidence [OF run start others] id normalized(1) show ?thesis by blast
qed

lemma budget_bounds: "500000000 \<le> auditWriteBudget d \<and> auditWriteBudget d \<le> 30 * Second"
  by (simp add: auditWriteBudget_def auditWriteTimeout_def split: option.split)

end
