(* ===== verification/Spec2Isabelle.thy ===== *)
theory Spec2Isabelle
  imports Inventory_Props Fulfillment_Props Order_Props Notify_Props Catalog_Props Analytics_Props Gateway_Props Auth_Props
    Inventory_Http Catalog_Http Fulfillment_Http Order_Http Catalog_Rpc Auth_Audit
begin

text \<open>
  A verification of the GelatoFlow backend, the Go services under \<open>src/\<close> that run a gelato shop.

  \<^bold>\<open>The program.\<close> Customers order through the order service. It asks the catalog service for prices,
  reserves portions at the batch inventory service, opens a checkout at the payment service, and on
  payment confirms the reservation and publishes \<open>order.placed\<close> through an outbox. The fulfillment
  service turns the event into a kitchen ticket with a queue number and publishes its progress. The
  notification service turns the events of the others into notifications and streams them to the
  browsers, and the analytics service adds them up. All requests come through the API gateway, which
  checks the tokens that the auth service signs. Each service has its own store (PostgreSQL, MySQL, Redis, memory); they meet only through
  gRPC calls and RabbitMQ messages, both of which can be lost, repeated and delayed.

  \<^bold>\<open>How the code is modelled.\<close> A Go struct is a record, a status string a datatype, an error a value of
  a sum type. A database transaction is a value of the error and state monad \<open>tx\<close> of
  \<open>Gelato_Prelude\<close>, in which every statement and the commit may fail, the commit also after it took
  effect; the environment (\<open>world\<close>) supplies failures, clock readings and new UUIDs. A handler that
  makes several transactions and remote calls is a \<open>proc\<close> (\<open>Gelato_Procs\<close>): a sequence of atomic steps
  between which other handlers run. A Lua script that Redis runs atomically is a function on the store.
  Times are nanoseconds since Go's zero time, \<open>int64\<close> arithmetic wraps (\<open>i64\<close>) where it may leave the
  range. Code outside \<open>src/\<close> (hashes, UUID and JWT libraries, the payment service, the broker) is an
  argument of the definitions that use it; what the proofs need of it is stated as named hypotheses
  (\<open>lawful\<close>, \<open>env_ok\<close>), which the samples show to be satisfiable.

  \<^bold>\<open>The theories.\<close>

  \<^item> \<open>Gelato_Prelude\<close>: time, machine integers, the transaction monad with its weakest preconditions
    (\<open>wp_rules\<close>), lemmas on lists and maps. \<open>Gelato_Text\<close>: what is used of Go's \<open>strings\<close>.
    \<open>Gelato_Procs\<close>: handlers as sequences of steps; the locale \<open>rely\<close> proves what a handler guarantees
    when every step of the others keeps a relation, and is interpreted in \<open>Order_Steps\<close>.
  \<^item> \<^bold>\<open>Inventory\<close> (\<open>batch-inventory-service\<close>). \<open>Inventory_Store\<close> holds the tables and the idempotent
    mutation (\<open>inventory/model.go\<close>, \<open>store.go\<close>, \<open>http_idempotency.go\<close>), \<open>Inventory_Alerts\<close> the alerts
    (\<open>service/inventory_service.go\<close>), \<open>Inventory_Ops\<close> production, waste, reservation, settlement, return
    and sweep (\<open>batches.go\<close>, \<open>waste.go\<close>, \<open>reservations.go\<close>), \<open>Inventory_Rpc\<close> the gRPC handlers. Lemmas:
    \<open>Inventory_Inv\<close> states the invariant of the stock, \<open>Inventory_Safety\<close>, \<open>Inventory_Settle\<close> and
    \<open>Inventory_Stock\<close> show that every transaction keeps it and how the tables evolve;
    \<open>Inventory_Idem\<close> proves the idempotent mutation once, in the locale \<open>mutation\<close>, which
    \<open>Inventory_Service\<close> interprets for reserve, settle and return; \<open>Inventory_Reserve\<close> treats the
    first-expired-first-out allocation, \<open>Inventory_Calls\<close> and \<open>Inventory_Effects\<close> what a client can
    rely on. \<open>Inventory_Props\<close>: nothing is lost or sold twice, exact allocation, exactly-once calls.
  \<^item> \<^bold>\<open>Orders\<close> (\<open>order-service\<close>). \<open>Order_Store\<close> is the repository (\<open>domain/order.go\<close>,
    \<open>repository/order_repository.go\<close>), \<open>Order_Service\<close> and \<open>Order_Lifecycle\<close> the handlers and workers
    (\<open>service/order_service.go\<close>, \<open>outbox_worker.go\<close>). \<open>Order_Machine\<close> is the abstract life of an order
    and \<open>Order_Repo\<close> shows that the repository makes only its moves; \<open>Order_Saga\<close> ties orders to
    reservations, \<open>Order_Calls\<close>, \<open>Order_Steps\<close> and \<open>Order_Tx\<close> show that every atomic step keeps the
    tie, \<open>Order_Handlers\<close> and \<open>Order_Placing\<close> give each handler its contract, \<open>Order_Pricing\<close> the
    arithmetic. \<open>Order_System\<close> runs any number of handlers at once with crashes, lost answers, late
    calls and the inventory's own staff; \<open>Order_Samples\<close> holds concrete runs. \<open>Order_Props\<close>: every
    order is backed by the right stock, and answers given to the payment service stay true.
  \<^item> \<^bold>\<open>Fulfillment\<close> (\<open>fulfillment-service\<close>). \<open>Fulfillment_Store\<close> (\<open>models\<close>, \<open>events\<close>,
    \<open>repository/fulfillment_repo.go\<close>, \<open>messaging/relay.go\<close>), \<open>Fulfillment_Consumer\<close>
    (\<open>messaging/consumer.go\<close>), \<open>Fulfillment_Inv\<close> and \<open>Fulfillment_Machine\<close> (invariant, outcomes, the
    step relation), \<open>Fulfillment_Props\<close>: queue numbers, audit trail, tombstones, retries.
  \<^item> \<^bold>\<open>Notifications\<close> (\<open>notification-service\<close>). \<open>Notify_Stream\<close> is the replay buffer
    (\<open>stream/replay_buffer.go\<close>) with the locale \<open>bounded_log\<close>, interpreted for the ring buffer and, in
    \<open>Notify_Laws\<close>, for the set of seen events; \<open>Notify_Service\<close> the rest (\<open>notify\<close>, \<open>hub\<close>, \<open>events\<close>,
    \<open>messaging/consumer.go\<close>, \<open>handler\<close>, \<open>auth\<close>): a stream is the handler of one connection, from
    \<open>Subscribe\<close> over \<open>ReplayFor\<close> to the select loop, with the actions of the other goroutines on the hub
    and the buffer (\<open>act\<close>) in between. \<open>Notify_Log\<close> shows that the ring buffers implement a plain log,
    \<open>Notify_Live\<close> what the channel of a connection holds and what its loop writes. \<open>Notify_Props\<close>: the
    refinement, and what a client that connects in the middle of the traffic is written.
  \<^item> \<^bold>\<open>Catalog\<close> (\<open>catalog-service\<close>). \<open>Catalog_Store\<close> is the Redis repository with its Lua scripts
    and the upgrade of old keys (\<open>model\<close>, \<open>audit\<close>, \<open>idempotency\<close>, \<open>repository\<close>), \<open>Catalog_Service\<close> validation and operations
    (\<open>service/catalog_service.go\<close>), \<open>Catalog_Inv\<close> the invariant under interleaved requests,
    \<open>Catalog_Props\<close> names, audit trail, exactly-once creation and no lost updates.
  \<^item> \<^bold>\<open>Analytics\<close> (\<open>analytics-service\<close>). \<open>Analytics_Service\<close> decodes events, adds them to the totals of
    their day and marks them as processed, with the expiry of the marks after seven days (\<open>models\<close>,
    \<open>repository\<close>, \<open>service\<close>, \<open>messaging/consumer.go\<close>); \<open>Analytics_Laws\<close> proves in the
    locale \<open>day_quantity\<close> that a quantity of a day is the sum of what its events contribute, interpreted
    for sales, orders, scoops, waste and per flavor, when one consumer works and the deliveries of an
    event lie within the seven days; \<open>Analytics_Summary\<close> is the dashboard (\<open>factory\<close>,
    \<open>handler\<close>). \<open>Analytics_Props\<close>: exact totals, exact dashboard, and two ways they go wrong.
  \<^item> \<^bold>\<open>Gateway\<close> (\<open>api-gateway\<close>). \<open>Gateway_Routes\<close> holds the token check, the identity headers, the routes
    with their guards and the stream proxy (\<open>auth\<close>, \<open>middleware\<close>, \<open>router\<close>, \<open>proxy\<close>); \<open>Gateway_Props\<close> shows
    that identity headers come from a verified token and that no endpoint is open but sign-up, login, the
    payment webhook and the reads of flavors and availability.
  \<^item> \<^bold>\<open>Accounts\<close> (\<open>auth-service\<close>). \<open>Auth_Store\<close> holds the tables, the repository with its signup receipts
    and the outbox worker (\<open>model\<close>, \<open>repository\<close>, \<open>outbox\<close>), \<open>Auth_Service\<close> signup, login, tokens, limits
    and endpoints (\<open>service\<close>, \<open>auth\<close>, \<open>middleware\<close>, \<open>handler\<close>). \<open>Auth_Laws\<close> shows what a signup does and the
    invariant, \<open>Auth_Runs\<close> runs \<open>SignUp\<close> on any input, clean-ups and the steps of any number of rounds of
    \<open>DispatchOne\<close> in any order, \<open>Auth_Attempts\<close> the requests
    that guess passwords. \<open>Auth_Props\<close>: accounts are unique and announced, signups happen once, guessing
    is bounded, and the token of a login opens the gateway for its owner. \<open>Auth_Audit\<close> (\<open>audit\<close>): the evidence
    of an event is valid text and is written exactly once although answers are lost.

  \<^item> \<^bold>\<open>HTTP surfaces.\<close> \<open>Inventory_Http\<close> (\<open>transport/http.go\<close>), \<open>Catalog_Http\<close> (\<open>handler/v1\<close>, \<open>middleware\<close>, \<open>router\<close>)
    and \<open>Fulfillment_Http\<close> (\<open>handler\<close>, \<open>middleware\<close>, \<open>router\<close>) put token checks, roles, idempotency keys and
    the strict reading of JSON (\<open>Gelato_Json\<close>) before the operations, and show for each service who can
    see and change what, and that every change is signed by the user of the token. \<open>Order_Http\<close>
    (\<open>handler/order_handler.go\<close>, \<open>grpc/order_grpc_server.go\<close>) does so for the order service, whose handlers
    interleave: \<open>Gelato_Keeps\<close> holds the rules for what transactions keep and which steps a handler makes
    whatever runs in between. \<open>Catalog_Rpc\<close> is the gRPC surface of the catalog (\<open>transport/grpc\<close>) with the
    client of the order service, and shows that the lines of an order carry names and prices of the catalog.

  \<^bold>\<open>Bounds and fuel.\<close> Loops are recursion on lists or have a termination proof (\<open>trim_left\<close>,
  \<open>fields_from\<close>, \<open>RuneCount\<close>, \<open>ValidString\<close>, \<open>runes\<close>, \<open>norm_day\<close>). Two loops take fuel, the number of pages
  they may read: \<open>ExpireOverdueOrders_from\<close> and \<open>ResumePendingTransitions_from\<close> read pages of orders until
  a page is short, while other handlers add orders, so that no bound on the pages is known in advance;
  \<open>None\<close> stands for a loop that is still running. They are steps of the system for every fuel, and the
  theorems about it are safety properties that hold at every step of such a loop; none of them claims
  that a sweep ends. Workers are modelled round by round. Bounds of the code (page sizes, five
  retries, 500 buffered notifications, 50,000 tracked orders, 24 hours) are the code's constants, and
  the theorems name them where they matter.

  \<^bold>\<open>Not modelled.\<close> Process start, configuration, TLS, logging, database migrations and demo programs; the
  other clients of the services, whose answers are given by the environment of a step; health checks; the payment service, which is written in Java and appears as the client interface that the order service
  uses. Go's memory model is not modelled: state behind a mutex changes atomically.
\<close>

end
